(* ===== verification/Prelude.thy ===== *)
theory Prelude
  imports Main "HOL-Library.Word" "HOL-Library.Monad_Syntax" "HOL-Library.Sublist"
begin

unbundle bit_operations_syntax

text \<open>
  Shared vocabulary of the development: the C integer types, bounds-checked
  array access, files by their contents, the result monad in which every stateful operation is written,
  and the weakest-precondition rules that carry the component proofs.

  A stateful C function is a HOL function that takes the state last and returns
  \<open>(result \<times> state) option\<close>.  \<open>None\<close> stands for undefined behaviour of
  the C program: a null or dangling pointer is dereferenced, an array is indexed
  out of its bounds, a mutex that the caller already holds is locked again.
  An error that the code reports is an ordinary result.
\<close>

section \<open>Machine types\<close>

type_synonym u8 = "8 word"
type_synonym u16 = "16 word"
type_synonym u32 = "32 word"
type_synonym u64 = "64 word"
type_synonym addr = "64 word"

abbreviation NULL :: addr where
  "NULL \<equiv> 0"

text \<open>C's signed \<open>int32_t\<close> values are HOL integers; the casts below are the ones the code writes.\<close>

definition int32_of :: "u32 \<Rightarrow> int" where
  "int32_of w = sint w"

definition uint32_of :: "int \<Rightarrow> u32" where
  "uint32_of i = word_of_int i"

section \<open>Result monad: weakest preconditions\<close>

named_theorems bits \<open>facts on single bits of machine words\<close>

text \<open>\<open>ok m Q\<close>: the computation is defined and its result satisfies \<open>Q\<close> (total correctness).\<close>

definition ok :: "'a option \<Rightarrow> ('a \<Rightarrow> bool) \<Rightarrow> bool" where
  "ok m Q \<longleftrightarrow> (case m of None \<Rightarrow> False | Some x \<Rightarrow> Q x)"

lemma ok_None [simp]: "\<not> ok None Q"
  by (simp add: ok_def)

lemma ok_Some [simp]: "ok (Some x) Q \<longleftrightarrow> Q x"
  by (simp add: ok_def)

lemma ok_bind [simp]: "ok (m \<bind> f) Q \<longleftrightarrow> ok m (\<lambda>x. ok (f x) Q)"
  by (cases m) (auto simp: ok_def)

lemma ok_if [simp]: "ok (if b then m else n) Q \<longleftrightarrow> (b \<longrightarrow> ok m Q) \<and> (\<not> b \<longrightarrow> ok n Q)"
  by simp

lemma ok_Let [simp]: "ok (Let a f) Q \<longleftrightarrow> ok (f a) Q"
  by (simp add: Let_def)

lemma ok_map_option [simp]: "ok (map_option f m) Q \<longleftrightarrow> ok m (\<lambda>x. Q (f x))"
  by (cases m) auto

lemma ok_mono: "ok m P \<Longrightarrow> (\<And>x. P x \<Longrightarrow> Q x) \<Longrightarrow> ok m Q"
  by (auto simp: ok_def split: option.splits)

lemma ok_conj: "ok m P \<Longrightarrow> ok m Q \<Longrightarrow> ok m (\<lambda>x. P x \<and> Q x)"
  by (auto simp: ok_def split: option.splits)

lemma ok_bindI: "ok m P \<Longrightarrow> (\<And>x. P x \<Longrightarrow> ok (f x) Q) \<Longrightarrow> ok (m \<bind> f) Q"
  by (cases m) simp_all

lemma okE:
  assumes "ok m Q"
  obtains x where "m = Some x" and "Q x"
  using assms by (auto simp: ok_def split: option.splits)

lemma ok_iff: "ok m Q \<longleftrightarrow> (\<exists>x. m = Some x \<and> Q x)"
  by (cases m) auto

lemma ok_result: "ok m Q \<Longrightarrow> m = Some x \<Longrightarrow> Q x"
  by simp

section \<open>Step relations\<close>

text \<open>States that a system reaches from an initial state, and the rule for its invariants.\<close>

inductive reach :: "('s \<Rightarrow> bool) \<Rightarrow> ('s \<Rightarrow> 's \<Rightarrow> bool) \<Rightarrow> 's \<Rightarrow> bool" for init step where
  start: "init s \<Longrightarrow> reach init step s"
| step: "reach init step s \<Longrightarrow> step s s' \<Longrightarrow> reach init step s'"

locale invariant =
  fixes init :: "'s \<Rightarrow> bool" and step :: "'s \<Rightarrow> 's \<Rightarrow> bool" and inv :: "'s \<Rightarrow> bool"
  assumes inv_init: "init s \<Longrightarrow> inv s"
    and inv_step: "inv s \<Longrightarrow> step s s' \<Longrightarrow> inv s'"
begin

lemma reach_inv: "reach init step s \<Longrightarrow> inv s"
  by (induction rule: reach.induct) (auto intro: inv_init inv_step)

end

section \<open>Arrays\<close>

text \<open>Reading or writing outside an array is undefined behaviour.\<close>

definition arr_get :: "'a list \<Rightarrow> nat \<Rightarrow> 'a option" where
  "arr_get xs i = (if i < length xs then Some (xs ! i) else None)"

definition arr_set :: "'a list \<Rightarrow> nat \<Rightarrow> 'a \<Rightarrow> 'a list option" where
  "arr_set xs i v = (if i < length xs then Some (xs[i := v]) else None)"

lemma arr_get_in [simp]: "i < length xs \<Longrightarrow> arr_get xs i = Some (xs ! i)"
  by (simp add: arr_get_def)

lemma arr_set_in [simp]: "i < length xs \<Longrightarrow> arr_set xs i v = Some (xs[i := v])"
  by (simp add: arr_set_def)

section \<open>Files by their contents\<close>

text \<open>The files, described by a function of their names and the world, have the same contents in two worlds.\<close>

definition same_content :: "('a \<Rightarrow> 'w \<Rightarrow> 'b list) \<Rightarrow> 'w \<Rightarrow> 'w \<Rightarrow> bool" where
  "same_content content w w' \<longleftrightarrow> (\<forall>q. content q w' = content q w)"

lemma same_content_refl [simp]: "same_content content w w"
  by (simp add: same_content_def)

lemma same_content_trans: "same_content content w w1 \<Longrightarrow> same_content content w1 w2 \<Longrightarrow> same_content content w w2"
  by (simp add: same_content_def)

lemma take_full: "bs = take j xs \<Longrightarrow> j \<le> n \<Longrightarrow> length bs = n \<Longrightarrow> bs = take n xs \<and> n \<le> length xs"
  by (auto simp: min_def split: if_splits)

section \<open>Bits of words\<close>

text \<open>The simplifier turns \<open>push_bit k 1\<close> into \<open>2 ^ k\<close>, so the masks are stated in that form.\<close>

lemma bit_u32_exp [bits]:
  "bit (2 ^ k :: u32) n \<longleftrightarrow> n = k \<and> k < 32"
  by (auto simp: bit_exp_iff)

lemma bit_u8_mask [bits]:
  "k < 8 \<Longrightarrow> bit (ucast (2 ^ k :: u32) :: u8) n \<longleftrightarrow> n = k"
  by (auto simp: bit_ucast_iff bit_u32_exp)

lemma bit_u8_not_mask [bits]:
  "k < 8 \<Longrightarrow> bit (ucast (NOT (2 ^ k :: u32)) :: u8) n \<longleftrightarrow> n < 8 \<and> n \<noteq> k"
  by (auto simp: bit_ucast_iff bit_not_iff bit_u32_exp)

lemma and_single_bit_eq_0:
  fixes b m :: "'a::len word"
  assumes "\<And>n. bit m n \<longleftrightarrow> n = k"
  shows "b AND m = 0 \<longleftrightarrow> \<not> bit b k"
proof
  assume "b AND m = 0"
  then have "\<not> bit (b AND m) k" by simp
  then show "\<not> bit b k" by (simp add: bit_and_iff assms)
next
  assume "\<not> bit b k"
  then show "b AND m = 0"
    by (intro bit_word_eqI) (auto simp: bit_and_iff assms)
qed

lemma u32_and_exp_eq_0 [bits]:
  fixes b :: u32
  shows "k < 32 \<Longrightarrow> b AND 2 ^ k = 0 \<longleftrightarrow> \<not> bit b k"
  by (rule and_single_bit_eq_0) (simp add: bit_u32_exp)

lemma u8_and_mask_eq_0 [bits]:
  fixes b :: u8
  shows "k < 8 \<Longrightarrow> b AND ucast (2 ^ k :: u32) = 0 \<longleftrightarrow> \<not> bit b k"
  by (rule and_single_bit_eq_0) (simp add: bit_u8_mask)

lemma unat_and_7 [simp]: "unat (i AND 7 :: u32) = unat i mod 8"
proof -
  have "i AND 7 = i mod 8"
    using word_mod_2p_is_mask [of 3 i] by (simp add: mask_eq_exp_minus_1)
  then show ?thesis
    by (simp add: unat_mod)
qed

lemma unat_drop_3 [simp]: "unat (drop_bit 3 i :: u32) = unat i div 8"
  by (subst unat_drop_bit_eq) (simp add: drop_bit_eq_div)

lemma unat_uint32_of: "0 \<le> i \<Longrightarrow> i < 2 ^ 32 \<Longrightarrow> unat (uint32_of i) = nat i"
  by (simp add: uint32_of_def unat_eq_nat_uint uint_word_of_int)

lemma unat_less_2_32 [simp]: "unat (w :: u32) < 4294967296"
  using unsigned_less [of w, where ?'a = nat] by simp

lemma unat_ucast_u64 [simp]: "unat (ucast (w :: u32) :: u64) = unat w"
proof -
  have "unat w < 2 ^ 64" by (rule less_trans [OF unat_less_2_32]) simp
  then show ?thesis by (simp add: unsigned_ucast_eq take_bit_nat_eq_self)
qed

end
