(* ===== verification/Bitmap.thy ===== *)
theory Bitmap
  imports Prelude
begin

unbundle bit_operations_syntax

text \<open>
  The bit map of shared-memory slots, \<open>SetBit\<close> to \<open>GetAndCleartBit\<close> of
  \<open>src/frameworks/libteec_vendor/tee_client_api.c\<close>.  A bit map is a pointer to
  an array of bytes, so it is a value of type \<open>u8 list option\<close> (\<open>None\<close> the null
  pointer).  The operations are related to the set of slots in use, and the
  locale \<open>slot_alloc\<close> states what the shared-memory code relies on.
\<close>

section \<open>The operations\<close>

definition SHIFT :: nat where "SHIFT = 3"
definition BYTE_BIT :: nat where "BYTE_BIT = 8"

type_synonym bitmap_ptr = "u8 list option"

definition SetBit :: "u32 \<Rightarrow> u32 \<Rightarrow> bitmap_ptr \<Rightarrow> bitmap_ptr option" where
  "SetBit i byteMax bitMap =
     (if byteMax \<le> drop_bit SHIFT i then Some bitMap
      else case bitMap of
        None \<Rightarrow> Some None
      | Some xs \<Rightarrow> do {
          b \<leftarrow> arr_get xs (unat (drop_bit SHIFT i));
          ys \<leftarrow> arr_set xs (unat (drop_bit SHIFT i))
                 (b OR ucast (push_bit (unat (i AND 7)) (1 :: u32)));
          Some (Some ys)
        })"

definition CheckBit :: "u32 \<Rightarrow> u32 \<Rightarrow> bitmap_ptr \<Rightarrow> bool option" where
  "CheckBit i byteMax bitMap =
     (if byteMax \<le> drop_bit SHIFT i then Some False
      else case bitMap of
        None \<Rightarrow> Some False
      | Some xs \<Rightarrow> do {
          b \<leftarrow> arr_get xs (unat (drop_bit SHIFT i));
          Some (b AND ucast (push_bit (unat (i AND 7)) (1 :: u32)) \<noteq> 0)
        })"

definition ClearBit :: "u32 \<Rightarrow> u32 \<Rightarrow> bitmap_ptr \<Rightarrow> bitmap_ptr option" where
  "ClearBit i byteMax bitMap =
     (if byteMax \<le> drop_bit SHIFT i then Some bitMap
      else case bitMap of
        None \<Rightarrow> Some None
      | Some xs \<Rightarrow> do {
          b \<leftarrow> arr_get xs (unat (drop_bit SHIFT i));
          ys \<leftarrow> arr_set xs (unat (drop_bit SHIFT i))
                 (b AND ucast (NOT (push_bit (unat (i AND 7)) (1 :: u32))));
          Some (Some ys)
        })"

datatype BitmapOps = SET | CLEAR

text \<open>
  The two loops of \<open>IterateBitmap\<close>.  The inner one runs \<open>j\<close> from 0 to 7 over one
  byte and stops at the first bit whose \<open>bitZero\<close> equals \<open>refBit\<close>; the outer
  one skips a byte equal to \<open>refByte\<close>.
\<close>

fun find_bit :: "u8 \<Rightarrow> bool \<Rightarrow> nat list \<Rightarrow> nat option" where
  "find_bit b refBit [] = None"
| "find_bit b refBit (j # js) =
     (let bitZero = ((ucast b :: u32) AND push_bit j 1 = 0)
      in if bitZero = refBit then Some j else find_bit b refBit js)"

function find_byte :: "u8 list \<Rightarrow> nat \<Rightarrow> u8 \<Rightarrow> bool \<Rightarrow> nat \<Rightarrow> int option" where
  "find_byte bitMap byteMax refByte refBit i =
     (if \<not> i < byteMax then Some (- 1)
      else do {
        b \<leftarrow> arr_get bitMap i;
        if b = refByte then find_byte bitMap byteMax refByte refBit (Suc i)
        else case find_bit b refBit [0..<BYTE_BIT] of
               Some j \<Rightarrow> Some (int i * int BYTE_BIT + int j)
             | None \<Rightarrow> find_byte bitMap byteMax refByte refBit (Suc i)
      })"
  by pat_completeness auto
termination
  by (relation "measure (\<lambda>(bitMap, byteMax, refByte, refBit, i). byteMax - i)") auto

declare find_byte.simps [simp del]

definition IterateBitmap :: "u8 list \<Rightarrow> u32 \<Rightarrow> BitmapOps \<Rightarrow> (int \<times> bitmap_ptr) option" where
  "IterateBitmap bitMap byteMax ops = do {
     let refByte = (if ops = SET then 255 else 0);
     let refBit = (if ops = SET then True else False);
     validBit \<leftarrow> find_byte bitMap (unat byteMax) refByte refBit 0;
     if validBit = - 1 then Some (validBit, Some bitMap)
     else do {
       bm \<leftarrow> (if ops = SET then SetBit (uint32_of validBit) byteMax (Some bitMap)
              else ClearBit (uint32_of validBit) byteMax (Some bitMap));
       Some (validBit, bm)
     }
   }"

definition GetAndSetBit :: "bitmap_ptr \<Rightarrow> u32 \<Rightarrow> (int \<times> bitmap_ptr) option" where
  "GetAndSetBit bitMap byteMax =
     (case bitMap of None \<Rightarrow> Some (- 1, None) | Some xs \<Rightarrow> IterateBitmap xs byteMax SET)"

definition GetAndCleartBit :: "bitmap_ptr \<Rightarrow> u32 \<Rightarrow> (int \<times> bitmap_ptr) option" where
  "GetAndCleartBit bitMap byteMax =
     (case bitMap of None \<Rightarrow> Some (- 1, None) | Some xs \<Rightarrow> IterateBitmap xs byteMax CLEAR)"

section \<open>Relation to the set of slots in use\<close>

definition slots :: "u8 list \<Rightarrow> nat set" where
  "slots xs = {n. n < 8 * length xs \<and> bit (xs ! (n div 8)) (n mod 8)}"

lemma slots_bounded: "slots xs \<subseteq> {..< 8 * length xs}"
  by (auto simp: slots_def)

lemma finite_slots [simp]: "finite (slots xs)"
  by (rule finite_subset [OF slots_bounded]) simp

lemma slots_update:
  assumes "n < 8 * length xs"
    and "\<And>k. k < 8 \<Longrightarrow> k \<noteq> n mod 8 \<Longrightarrow> bit v k \<longleftrightarrow> bit (xs ! (n div 8)) k"
  shows "slots (xs[n div 8 := v]) =
           (if bit v (n mod 8) then insert n (slots xs) else slots xs - {n})"
proof -
  have "m \<in> slots (xs[n div 8 := v]) \<longleftrightarrow>
      (if m = n then bit v (n mod 8) else m \<in> slots xs)" for m
  proof (cases "m div 8 = n div 8 \<and> m \<noteq> n")
    case True
    then have "m mod 8 \<noteq> n mod 8"
      by (metis mod_div_mult_eq)
    with True assms(2) [of "m mod 8"] show ?thesis
      using assms(1) by (auto simp: slots_def)
  next
    case False
    with assms(1) show ?thesis by (auto simp: slots_def)
  qed
  then show ?thesis by (intro set_eqI) simp
qed

lemma byte_in_range:
  "n < 8 * length xs \<Longrightarrow> n div 8 < length (xs :: 'a list)"
  by (simp add: div_less_iff_less_mult mult.commute)

lemma SetBit_slots:
  assumes "unat byteMax = length xs" and "unat i < 8 * length xs"
  obtains ys where "SetBit i byteMax (Some xs) = Some (Some ys)"
    and "length ys = length xs" and "slots ys = insert (unat i) (slots xs)"
proof -
  let ?v = "xs ! (unat i div 8) OR ucast (2 ^ (unat i mod 8) :: u32)"
  have "SetBit i byteMax (Some xs) = Some (Some (xs[unat i div 8 := ?v]))"
    using assms byte_in_range [OF assms(2)]
    by (simp add: SetBit_def SHIFT_def word_le_nat_alt)
  moreover have "slots (xs[unat i div 8 := ?v]) = insert (unat i) (slots xs)"
    by (subst slots_update [OF assms(2)]) (auto simp: bit_or_iff bits)
  ultimately show ?thesis by (intro that) auto
qed

lemma ClearBit_slots:
  assumes "unat byteMax = length xs" and "unat i < 8 * length xs"
  obtains ys where "ClearBit i byteMax (Some xs) = Some (Some ys)"
    and "length ys = length xs" and "slots ys = slots xs - {unat i}"
proof -
  let ?v = "xs ! (unat i div 8) AND ucast (NOT (2 ^ (unat i mod 8) :: u32))"
  have "ClearBit i byteMax (Some xs) = Some (Some (xs[unat i div 8 := ?v]))"
    using assms byte_in_range [OF assms(2)]
    by (simp add: ClearBit_def SHIFT_def word_le_nat_alt)
  moreover have "slots (xs[unat i div 8 := ?v]) = slots xs - {unat i}"
    by (subst slots_update [OF assms(2)]) (auto simp: bit_and_iff bits)
  ultimately show ?thesis by (intro that) auto
qed

lemma CheckBit_slots:
  assumes "unat byteMax = length xs"
  shows "CheckBit i byteMax (Some xs) = Some (unat i \<in> slots xs)"
proof (cases "unat i < 8 * length xs")
  case True
  with assms byte_in_range [OF True] show ?thesis
    by (simp add: CheckBit_def SHIFT_def word_le_nat_alt slots_def bits)
next
  case False
  with assms show ?thesis
    by (simp add: CheckBit_def SHIFT_def word_le_nat_alt slots_def
        less_eq_div_iff_mult_less_eq mult.commute)
qed

text \<open>Outside the map the operations change nothing.\<close>

lemma SetBit_outside:
  "8 * unat byteMax \<le> unat i \<Longrightarrow> SetBit i byteMax bm = Some bm"
  by (simp add: SetBit_def SHIFT_def word_le_nat_alt less_eq_div_iff_mult_less_eq mult.commute)

lemma ClearBit_outside:
  "8 * unat byteMax \<le> unat i \<Longrightarrow> ClearBit i byteMax bm = Some bm"
  by (simp add: ClearBit_def SHIFT_def word_le_nat_alt less_eq_div_iff_mult_less_eq mult.commute)

section \<open>The search loops\<close>

lemma find_bit_None:
  assumes "find_bit b refBit js = None" and "j \<in> set js" and "j < 8"
  shows "bit b j = refBit"
  using assms by (induction js) (auto simp: Let_def bits bit_ucast_iff split: if_splits)

lemma find_bit_Some:
  assumes "find_bit b refBit js = Some j" and "sorted js" and "set js \<subseteq> {..<8}"
  shows "j \<in> set js \<and> bit b j \<noteq> refBit \<and> (\<forall>k \<in> set js. k < j \<longrightarrow> bit b k = refBit)"
  using assms
proof (induction js)
  case (Cons a js)
  then show ?case
    by (cases "bit b a = refBit") (auto simp: Let_def bits bit_ucast_iff split: if_splits)
qed simp

lemma bit_ref_byte:
  assumes "k < 8"
  shows "bit (if ops = SET then 255 else 0 :: u8) k \<longleftrightarrow> ops = SET"
proof -
  have "bit (mask 8 :: u8) k"
    using assms by (simp only: bit_mask_iff) simp
  then have "bit (255 :: u8) k"
    by (simp add: mask_eq_exp_minus_1)
  then show ?thesis by simp
qed

text \<open>
  \<open>wanted ops xs n\<close>: slot \<open>n\<close> is one that the search for \<open>ops\<close> looks for, a
  free one for \<open>SET\<close> and a used one for \<open>CLEAR\<close>.
\<close>

definition wanted :: "BitmapOps \<Rightarrow> u8 list \<Rightarrow> nat \<Rightarrow> bool" where
  "wanted ops xs n \<longleftrightarrow> (if ops = SET then n \<notin> slots xs else n \<in> slots xs)"

lemma wanted_bit:
  "i < length xs \<Longrightarrow> j < 8 \<Longrightarrow> wanted ops xs (8 * i + j) \<longleftrightarrow> bit (xs ! i) j \<noteq> (ops = SET)"
  by (auto simp: wanted_def slots_def)

lemma byte_not_wanted:
  assumes "i < length xs" and "\<And>j. j < 8 \<Longrightarrow> bit (xs ! i) j = (ops = SET)"
    and "8 * i \<le> m" and "m < 8 * Suc i"
  shows "\<not> wanted ops xs m"
proof -
  from assms(3,4) have "m = 8 * i + (m - 8 * i)" and "m - 8 * i < 8" by auto
  with wanted_bit [OF assms(1)] assms(2) show ?thesis by metis
qed

lemma find_byte_search:
  assumes "i \<le> length xs"
  shows "\<exists>r. find_byte xs (length xs) (if ops = SET then 255 else 0) (ops = SET) i = Some r \<and>
    ((r = - 1 \<and> (\<forall>n. 8 * i \<le> n \<and> n < 8 * length xs \<longrightarrow> \<not> wanted ops xs n)) \<or>
     (\<exists>n. r = int n \<and> 8 * i \<le> n \<and> n < 8 * length xs \<and> wanted ops xs n \<and>
          (\<forall>m. 8 * i \<le> m \<and> m < n \<longrightarrow> \<not> wanted ops xs m)))"
  using assms
proof (induction "length xs - i" arbitrary: i)
  case 0
  then show ?case by (subst find_byte.simps) auto
next
  case (Suc d)
  let ?ref = "if ops = SET then 255 else 0 :: u8"
  from Suc.hyps(2) have i: "i < length xs" by simp
  have skip: ?case
    if eq: "find_byte xs (length xs) ?ref (ops = SET) i = find_byte xs (length xs) ?ref (ops = SET) (Suc i)"
      and all: "\<And>j. j < 8 \<Longrightarrow> bit (xs ! i) j = (ops = SET)"
  proof -
    have none: "\<not> wanted ops xs m" if "8 * i \<le> m" "m < 8 * Suc i" for m
      using byte_not_wanted [OF i all that] by blast
    from Suc.hyps Suc.prems have "d = length xs - Suc i" and "Suc i \<le> length xs" by auto
    from Suc.hyps(1) [OF this] have "\<exists>r. find_byte xs (length xs) ?ref (ops = SET) i = Some r \<and>
        ((r = - 1 \<and> (\<forall>n. 8 * Suc i \<le> n \<and> n < 8 * length xs \<longrightarrow> \<not> wanted ops xs n)) \<or>
         (\<exists>n. r = int n \<and> 8 * Suc i \<le> n \<and> n < 8 * length xs \<and> wanted ops xs n \<and>
              (\<forall>m. 8 * Suc i \<le> m \<and> m < n \<longrightarrow> \<not> wanted ops xs m)))"
      unfolding eq .
    then show ?thesis
      by (rule ex_forward) (use none in \<open>fastforce simp: not_less\<close>)
  qed
  show ?case
  proof (cases "xs ! i = ?ref")
    case True
    with i have "find_byte xs (length xs) ?ref (ops = SET) i =
        find_byte xs (length xs) ?ref (ops = SET) (Suc i)"
      by (subst find_byte.simps) simp
    then show ?thesis
      by (rule skip) (simp only: True bit_ref_byte)
  next
    case neq: False
    show ?thesis
    proof (cases "find_bit (xs ! i) (ops = SET) [0..<8]")
      case None
      with i neq have "find_byte xs (length xs) ?ref (ops = SET) i =
          find_byte xs (length xs) ?ref (ops = SET) (Suc i)"
        by (subst find_byte.simps) (simp add: BYTE_BIT_def)
      then show ?thesis
        by (rule skip) (rule find_bit_None [OF None], auto)
    next
      case (Some j)
      have j: "j < 8" "bit (xs ! i) j \<noteq> (ops = SET)" "\<And>k. k < j \<Longrightarrow> bit (xs ! i) k = (ops = SET)"
        using find_bit_Some [OF Some] by (auto simp: subset_iff)
      have found: "find_byte xs (length xs) ?ref (ops = SET) i = Some (int (8 * i + j))"
        using i neq Some by (subst find_byte.simps) (simp add: BYTE_BIT_def)
      have here: "8 * i \<le> 8 * i + j" "8 * i + j < 8 * length xs" "wanted ops xs (8 * i + j)"
        using i j(1) wanted_bit [OF i j(1)] j(2) by simp_all
      have before: "\<forall>m. 8 * i \<le> m \<and> m < 8 * i + j \<longrightarrow> \<not> wanted ops xs m"
      proof (intro allI impI)
        fix m assume "8 * i \<le> m \<and> m < 8 * i + j"
        then have m: "m - 8 * i < j" "m - 8 * i < 8" "8 * i + (m - 8 * i) = m"
          using j(1) by auto
        show "\<not> wanted ops xs m"
          using wanted_bit [OF i m(2), of ops] j(3) [OF m(1)] m(3) by simp
      qed
      show ?thesis
        unfolding found option.inject
        by (rule exI, rule conjI, rule refl, rule disjI2, rule exI [of _ "8 * i + j"])
          (intro conjI refl here before)
    qed
  qed
qed

text \<open>A map whose bits can all be numbered by an \<open>int32_t\<close>, with its byte count.\<close>

definition map_ok :: "u8 list \<Rightarrow> u32 \<Rightarrow> bool" where
  "map_ok xs byteMax \<longleftrightarrow> unat byteMax = length xs \<and> 8 * length xs < 2 ^ 31"

lemma unat_uint32_of_int [simp]: "n < 2 ^ 31 \<Longrightarrow> unat (uint32_of (int n)) = n"
  by (simp add: uint32_of_def unat_of_nat)

lemma IterateBitmap_search:
  assumes "map_ok xs byteMax"
  shows "(\<forall>n < 8 * length xs. \<not> wanted ops xs n) \<and>
           IterateBitmap xs byteMax ops = Some (- 1, Some xs) \<or>
         (\<exists>n ys. n < 8 * length xs \<and> wanted ops xs n \<and> (\<forall>m < n. \<not> wanted ops xs m) \<and>
            IterateBitmap xs byteMax ops = Some (int n, Some ys) \<and> length ys = length xs \<and>
            slots ys = (if ops = SET then insert n (slots xs) else slots xs - {n}))"
proof -
  from assms have len: "unat byteMax = length xs" and bound: "8 * length xs < 2 ^ 31"
    by (simp_all add: map_ok_def)
  obtain r where r: "find_byte xs (length xs) (if ops = SET then 255 else 0) (ops = SET) 0 = Some r"
    and cases: "r = - 1 \<and> (\<forall>n < 8 * length xs. \<not> wanted ops xs n) \<or>
      (\<exists>n. r = int n \<and> n < 8 * length xs \<and> wanted ops xs n \<and> (\<forall>m < n. \<not> wanted ops xs m))"
    using find_byte_search [of 0 xs ops] by auto
  from cases show ?thesis
  proof
    assume none: "r = - 1 \<and> (\<forall>n < 8 * length xs. \<not> wanted ops xs n)"
    with r have "IterateBitmap xs byteMax ops = Some (- 1, Some xs)"
      by (cases ops) (simp_all add: IterateBitmap_def len)
    with none show ?thesis by blast
  next
    assume "\<exists>n. r = int n \<and> n < 8 * length xs \<and> wanted ops xs n \<and> (\<forall>m < n. \<not> wanted ops xs m)"
    then obtain n where n: "r = int n" "n < 8 * length xs" "wanted ops xs n" "\<forall>m < n. \<not> wanted ops xs m"
      by blast
    from n(2) bound have un: "unat (uint32_of (int n)) = n" by simp
    with n(2) have lt: "unat (uint32_of (int n)) < 8 * length xs" by simp
    have "\<exists>ys. IterateBitmap xs byteMax ops = Some (int n, Some ys) \<and> length ys = length xs \<and>
        slots ys = (if ops = SET then insert n (slots xs) else slots xs - {n})"
    proof (cases ops)
      case SET
      obtain ys where "SetBit (uint32_of (int n)) byteMax (Some xs) = Some (Some ys)"
        and "length ys = length xs" and "slots ys = insert n (slots xs)"
        using SetBit_slots [OF len lt] un by auto
      with SET r n(1) show ?thesis by (simp add: IterateBitmap_def len)
    next
      case CLEAR
      obtain ys where "ClearBit (uint32_of (int n)) byteMax (Some xs) = Some (Some ys)"
        and "length ys = length xs" and "slots ys = slots xs - {n}"
        using ClearBit_slots [OF len lt] un by auto
      with CLEAR r n(1) show ?thesis by (simp add: IterateBitmap_def len)
    qed
    with n show ?thesis by blast
  qed
qed

section \<open>The slot-allocator interface\<close>

text \<open>
  What the shared-memory code relies on: acquiring takes an unused slot and marks
  it, fails only on a full map, and releasing frees exactly the slot named.
\<close>

locale slot_alloc =
  fixes acquire :: "'m \<Rightarrow> nat option \<times> 'm"
    and release :: "nat \<Rightarrow> 'm \<Rightarrow> 'm"
    and used :: "'m \<Rightarrow> nat set"
    and cap :: nat
    and inv :: "'m \<Rightarrow> bool"
  assumes used_bound: "inv m \<Longrightarrow> used m \<subseteq> {..<cap}"
    and acquire_Some: "inv m \<Longrightarrow> acquire m = (Some n, m') \<Longrightarrow>
          inv m' \<and> n < cap \<and> n \<notin> used m \<and> used m' = insert n (used m)"
    and acquire_None: "inv m \<Longrightarrow> acquire m = (None, m') \<Longrightarrow> m' = m \<and> used m = {..<cap}"
    and release: "inv m \<Longrightarrow> n < cap \<Longrightarrow> inv (release n m) \<and> used (release n m) = used m - {n}"
begin

fun acquire_n :: "nat \<Rightarrow> 'm \<Rightarrow> nat list \<times> 'm" where
  "acquire_n 0 m = ([], m)"
| "acquire_n (Suc k) m =
     (case acquire m of
        (None, m') \<Rightarrow> ([], m')
      | (Some n, m') \<Rightarrow> (let (ns, m'') = acquire_n k m' in (n # ns, m'')))"

lemma card_used: "inv m \<Longrightarrow> card (used m) \<le> cap"
  using card_mono [OF _ used_bound, of m] by simp

lemma finite_used: "inv m \<Longrightarrow> finite (used m)"
  using used_bound finite_subset by blast

lemma acquire_n_spec:
  assumes "inv m" and "acquire_n k m = (ns, m')"
  shows "inv m' \<and> distinct ns \<and> set ns \<inter> used m = {} \<and> used m' = used m \<union> set ns \<and>
         length ns = min k (cap - card (used m))"
  using assms
proof (induction k arbitrary: m ns m')
  case 0
  then show ?case by simp
next
  case (Suc k)
  show ?case
  proof (cases "acquire m")
    case (Pair r m1)
    show ?thesis
    proof (cases r)
      case None
      with Pair Suc.prems acquire_None [OF Suc.prems(1)] show ?thesis by auto
    next
      case (Some n)
      with Pair have acq: "acquire m = (Some n, m1)" by simp
      obtain ns1 where rest: "acquire_n k m1 = (ns1, m')" and ns: "ns = n # ns1"
        using acq Suc.prems(2) by (auto split: prod.splits)
      from acquire_Some [OF Suc.prems(1) acq]
      have m1: "inv m1" "n < cap" "n \<notin> used m" "used m1 = insert n (used m)" by auto
      have "card (used m1) = Suc (card (used m))" and "card (used m1) \<le> cap"
        using m1 finite_used [OF Suc.prems(1)] card_used [OF m1(1)] by simp_all
      with Suc.IH [OF m1(1) rest] m1 ns show ?thesis by auto
    qed
  qed
qed

lemma acquire_fails_iff_full:
  assumes "inv m"
  shows "fst (acquire m) = None \<longleftrightarrow> used m = {..<cap}"
proof (cases "acquire m")
  case (Pair r m1)
  with acquire_Some [OF assms] acquire_None [OF assms] show ?thesis
    by (cases r) auto
qed

lemma acquire_release:
  assumes "inv m" and "acquire m = (Some n, m')"
  shows "used (release n m') = used m"
  using acquire_Some [OF assms] release [of m' n] by auto

lemma release_of_full:
  assumes "inv m" and "used m = {..<cap}" and "n < cap"
  shows "fst (acquire (release n m)) = Some n"
proof (cases "acquire (release n m)")
  case (Pair r m1)
  from release [OF assms(1,3)] have rel: "inv (release n m)" "used (release n m) = {..<cap} - {n}"
    by (simp_all add: assms(2))
  show ?thesis
  proof (cases r)
    case None
    with Pair acquire_None [OF rel(1)] rel(2) assms(3) show ?thesis by auto
  next
    case (Some k)
    with Pair acquire_Some [OF rel(1)] rel(2) show ?thesis by auto
  qed
qed

end

text \<open>
  The bit map of a context (\<open>shm_bitmap\<close>, \<open>NUM_OF_SHAREMEM_BITMAP\<close> bytes) provides
  the interface: acquiring is \<open>GetAndSetBit\<close>, releasing is \<open>ClearBit\<close>.
\<close>

definition NUM_OF_SHAREMEM_BITMAP :: nat where
  "NUM_OF_SHAREMEM_BITMAP = 8"

definition shm_map_ok :: "u8 list \<Rightarrow> bool" where
  "shm_map_ok xs \<longleftrightarrow> length xs = NUM_OF_SHAREMEM_BITMAP"

definition shm_acquire :: "u8 list \<Rightarrow> nat option \<times> u8 list" where
  "shm_acquire xs =
     (case GetAndSetBit (Some xs) (of_nat NUM_OF_SHAREMEM_BITMAP) of
        Some (n, Some ys) \<Rightarrow> (if n < 0 then None else Some (nat n), ys)
      | _ \<Rightarrow> (None, xs))"

definition shm_release :: "nat \<Rightarrow> u8 list \<Rightarrow> u8 list" where
  "shm_release n xs =
     (case ClearBit (of_nat n) (of_nat NUM_OF_SHAREMEM_BITMAP) (Some xs) of
        Some (Some ys) \<Rightarrow> ys
      | _ \<Rightarrow> xs)"

lemma shm_map_ok_map_ok: "shm_map_ok xs \<Longrightarrow> map_ok xs (of_nat NUM_OF_SHAREMEM_BITMAP)"
  by (simp add: shm_map_ok_def map_ok_def NUM_OF_SHAREMEM_BITMAP_def)

lemma shm_acquire_cases:
  assumes "shm_map_ok xs"
  shows "slots xs = {..<64} \<and> shm_acquire xs = (None, xs) \<or>
         (\<exists>n ys. n < 64 \<and> n \<notin> slots xs \<and> (\<forall>m < n. m \<in> slots xs) \<and>
            shm_acquire xs = (Some n, ys) \<and> shm_map_ok ys \<and> slots ys = insert n (slots xs))"
proof -
  from assms have len: "length xs = 8" and bound: "slots xs \<subseteq> {..<64}"
    using slots_bounded [of xs] by (simp_all add: shm_map_ok_def NUM_OF_SHAREMEM_BITMAP_def)
  show ?thesis
    using IterateBitmap_search [OF shm_map_ok_map_ok [OF assms], of SET]
  proof
    assume full: "(\<forall>n < 8 * length xs. \<not> wanted SET xs n) \<and>
        IterateBitmap xs (of_nat NUM_OF_SHAREMEM_BITMAP) SET = Some (- 1, Some xs)"
    then have "shm_acquire xs = (None, xs)"
      by (simp add: shm_acquire_def GetAndSetBit_def)
    moreover have "slots xs = {..<64}"
      using full bound by (auto simp: wanted_def len)
    ultimately show ?thesis by blast
  next
    assume "\<exists>n ys. n < 8 * length xs \<and> wanted SET xs n \<and> (\<forall>m < n. \<not> wanted SET xs m) \<and>
        IterateBitmap xs (of_nat NUM_OF_SHAREMEM_BITMAP) SET = Some (int n, Some ys) \<and>
        length ys = length xs \<and> slots ys = (if SET = SET then insert n (slots xs) else slots xs - {n})"
    then obtain n ys where n: "n < 64" "n \<notin> slots xs" "\<forall>m < n. m \<in> slots xs"
        "IterateBitmap xs (of_nat NUM_OF_SHAREMEM_BITMAP) SET = Some (int n, Some ys)"
        "length ys = length xs" "slots ys = insert n (slots xs)"
      by (auto simp: wanted_def len)
    then have "shm_acquire xs = (Some n, ys)" and "shm_map_ok ys"
      using len by (simp_all add: shm_acquire_def GetAndSetBit_def shm_map_ok_def NUM_OF_SHAREMEM_BITMAP_def)
    with n show ?thesis by blast
  qed
qed

lemma shm_release_slots:
  assumes "shm_map_ok xs" and "n < 64"
  shows "shm_map_ok (shm_release n xs) \<and> slots (shm_release n xs) = slots xs - {n}"
proof -
  from assms have len: "unat (of_nat NUM_OF_SHAREMEM_BITMAP :: u32) = length xs"
    and n: "unat (of_nat n :: u32) < 8 * length xs" "unat (of_nat n :: u32) = n"
    by (simp_all add: shm_map_ok_def NUM_OF_SHAREMEM_BITMAP_def unat_of_nat)
  obtain ys where "ClearBit (of_nat n) (of_nat NUM_OF_SHAREMEM_BITMAP) (Some xs) = Some (Some ys)"
    and "length ys = length xs" and "slots ys = slots xs - {n}"
    using ClearBit_slots [OF len n(1)] n(2) by metis
  with assms show ?thesis by (simp add: shm_release_def shm_map_ok_def)
qed

interpretation shm_slots: slot_alloc shm_acquire shm_release slots 64 shm_map_ok
proof
  fix m m' :: "u8 list" and n :: nat
  assume ok: "shm_map_ok m"
  show "slots m \<subseteq> {..<64}"
    using slots_bounded [of m] ok by (simp add: shm_map_ok_def NUM_OF_SHAREMEM_BITMAP_def)
  show "shm_acquire m = (Some n, m') \<Longrightarrow>
      shm_map_ok m' \<and> n < 64 \<and> n \<notin> slots m \<and> slots m' = insert n (slots m)"
    using shm_acquire_cases [OF ok] by auto
  show "shm_acquire m = (None, m') \<Longrightarrow> m' = m \<and> slots m = {..<64}"
    using shm_acquire_cases [OF ok] by auto
  show "n < 64 \<Longrightarrow> shm_map_ok (shm_release n m) \<and> slots (shm_release n m) = slots m - {n}"
    using shm_release_slots [OF ok] .
qed

section \<open>Properties\<close>

text \<open>
  C31.  \<open>GetAndSetBit\<close> on a map of the given number of bytes never leaves the array.  On a full map
  it returns -1 and changes nothing; otherwise it returns the least unused slot and the new
  map has exactly that slot more.
\<close>

theorem GetAndSetBit_least_free:
  assumes "map_ok xs byteMax"
  shows "\<exists>r ys. GetAndSetBit (Some xs) byteMax = Some (r, Some ys) \<and> length ys = length xs \<and>
    (if slots xs = {..<8 * length xs} then r = - 1 \<and> ys = xs
     else r = int (LEAST n. n \<notin> slots xs) \<and> nat r < 8 * length xs \<and> slots ys = insert (nat r) (slots xs))"
  using IterateBitmap_search [OF assms, of SET]
proof
  assume full: "(\<forall>n < 8 * length xs. \<not> wanted SET xs n) \<and>
      IterateBitmap xs byteMax SET = Some (- 1, Some xs)"
  moreover have "slots xs = {..<8 * length xs}"
    using full slots_bounded [of xs] by (auto simp: wanted_def)
  ultimately show ?thesis by (simp add: GetAndSetBit_def)
next
  assume "\<exists>n ys. n < 8 * length xs \<and> wanted SET xs n \<and> (\<forall>m < n. \<not> wanted SET xs m) \<and>
      IterateBitmap xs byteMax SET = Some (int n, Some ys) \<and> length ys = length xs \<and>
      slots ys = (if SET = SET then insert n (slots xs) else slots xs - {n})"
  then obtain n ys where n: "n < 8 * length xs" "n \<notin> slots xs" "\<forall>m < n. m \<in> slots xs"
      "IterateBitmap xs byteMax SET = Some (int n, Some ys)" "length ys = length xs"
      "slots ys = insert n (slots xs)"
    by (auto simp: wanted_def)
  have "(LEAST k. k \<notin> slots xs) = n"
    by (rule Least_equality) (use n in \<open>auto simp: not_less [symmetric]\<close>)
  with n show ?thesis by (intro exI [of _ "int n"] exI [of _ ys]) (auto simp: GetAndSetBit_def)
qed

theorem GetAndSetBit_least_free_witness:
  "map_ok [1] 1 \<and> (\<exists>ys. GetAndSetBit (Some [1]) 1 = Some (1, Some ys) \<and> slots ys = {0, 1})"
proof -
  have ok: "map_ok [1] 1" by (simp add: map_ok_def)
  have sl: "slots [1] = {0}" by (auto simp: slots_def bit_1_iff)
  then have "(LEAST n. n \<notin> slots [1]) = 1"
    by (intro Least_equality) auto
  moreover have "{0} \<noteq> {..<8 :: nat}"
    by (metis One_nat_def lessThan_iff one_less_numeral_iff semiring_norm(76) singletonD zero_neq_one)
  ultimately show ?thesis
    using GetAndSetBit_least_free [OF ok] ok sl by (auto simp: insert_commute)
qed

text \<open>
  C32.  From any state of a context's bit map, \<open>k\<close> allocations give pairwise distinct slots, none of
  which was in use, and exactly \<open>min k (64 - used)\<close> of them succeed; releasing a slot of a full
  map makes the next allocation return that slot.
\<close>

theorem shm_slots_never_shared:
  assumes "shm_map_ok m" and "shm_slots.acquire_n k m = (ns, m')"
  shows "distinct ns \<and> set ns \<inter> slots m = {} \<and> slots m' = slots m \<union> set ns \<and>
    length ns = min k (64 - card (slots m)) \<and>
    (slots m' = {..<64} \<longrightarrow> (\<forall>n < 64. fst (shm_acquire (shm_release n m')) = Some n))"
  using shm_slots.acquire_n_spec [OF assms] shm_slots.release_of_full [of m'] by auto

theorem shm_slots_never_shared_witness:
  "shm_map_ok (replicate 8 0) \<and> length (fst (shm_slots.acquire_n 65 (replicate 8 0))) = 64"
proof -
  have ok: "shm_map_ok (replicate 8 0)" by (simp add: shm_map_ok_def NUM_OF_SHAREMEM_BITMAP_def)
  have "slots (replicate 8 0) = {}" by (auto simp: slots_def)
  with ok shm_slots_never_shared [OF ok, of 65] show ?thesis
    by (cases "shm_slots.acquire_n 65 (replicate 8 0)") auto
qed

end
