(* ===== verification/List_Node.thy ===== *)
theory List_Node
  imports Prelude
begin

text \<open>
  The circular doubly linked list of \<open>src/interfaces/inner_api/tee_client_list.h\<close>,
  at the level of its pointers.  The store maps the address of a \<open>struct ListNode\<close>
  to its two fields; an address that is not in the store is not allocated, and
  touching it is undefined behaviour.  \<open>dll h l xs\<close> says that the list headed at
  \<open>l\<close> holds the nodes \<open>xs\<close> in order; the operations are shown to act on \<open>xs\<close> as
  the list operations that the other components use.
\<close>

section \<open>The operations\<close>

record ListNode =
  "next" :: addr
  prev :: addr

type_synonym nodes = "addr \<rightharpoonup> ListNode"

definition get_next :: "nodes \<Rightarrow> addr \<Rightarrow> addr option" where
  "get_next h a = map_option next (h a)"

definition get_prev :: "nodes \<Rightarrow> addr \<Rightarrow> addr option" where
  "get_prev h a = map_option prev (h a)"

definition set_next :: "nodes \<Rightarrow> addr \<Rightarrow> addr \<Rightarrow> nodes option" where
  "set_next h a v = map_option (\<lambda>n. h(a \<mapsto> n\<lparr>next := v\<rparr>)) (h a)"

definition set_prev :: "nodes \<Rightarrow> addr \<Rightarrow> addr \<Rightarrow> nodes option" where
  "set_prev h a v = map_option (\<lambda>n. h(a \<mapsto> n\<lparr>prev := v\<rparr>)) (h a)"

definition ListInit :: "nodes \<Rightarrow> addr \<Rightarrow> nodes option" where
  "ListInit h list = do {
     h \<leftarrow> set_next h list list;
     set_prev h list list
   }"

definition LIST_EMPTY :: "nodes \<Rightarrow> addr \<Rightarrow> bool option" where
  "LIST_EMPTY h list = do { n \<leftarrow> get_next h list; Some (list = n) }"

definition ListInsertHead :: "nodes \<Rightarrow> addr \<Rightarrow> addr \<Rightarrow> nodes option" where
  "ListInsertHead h list entry = do {
     n \<leftarrow> get_next h list;
     h \<leftarrow> set_prev h n entry;
     n \<leftarrow> get_next h list;
     h \<leftarrow> set_next h entry n;
     h \<leftarrow> set_prev h entry list;
     set_next h list entry
   }"

definition ListInsertTail :: "nodes \<Rightarrow> addr \<Rightarrow> addr \<Rightarrow> nodes option" where
  "ListInsertTail h list entry = do {
     h \<leftarrow> set_next h entry list;
     p \<leftarrow> get_prev h list;
     h \<leftarrow> set_prev h entry p;
     p \<leftarrow> get_prev h list;
     h \<leftarrow> set_next h p entry;
     set_prev h list entry
   }"

definition ListRemoveEntry :: "nodes \<Rightarrow> addr \<Rightarrow> nodes option" where
  "ListRemoveEntry h entry = do {
     p \<leftarrow> get_prev h entry;
     n \<leftarrow> get_next h entry;
     h \<leftarrow> set_next h p n;
     n \<leftarrow> get_next h entry;
     p \<leftarrow> get_prev h entry;
     set_prev h n p
   }"

definition ListRemoveHead :: "nodes \<Rightarrow> addr \<Rightarrow> (addr \<times> nodes) option" where
  "ListRemoveHead h list = do {
     e \<leftarrow> LIST_EMPTY h list;
     if \<not> e then do {
       entry \<leftarrow> get_next h list;
       h \<leftarrow> ListRemoveEntry h entry;
       Some (entry, h)
     } else Some (NULL, h)
   }"

definition ListRemoveTail :: "nodes \<Rightarrow> addr \<Rightarrow> (addr \<times> nodes) option" where
  "ListRemoveTail h list = do {
     e \<leftarrow> LIST_EMPTY h list;
     if \<not> e then do {
       entry \<leftarrow> get_prev h list;
       h \<leftarrow> ListRemoveEntry h entry;
       Some (entry, h)
     } else Some (NULL, h)
   }"

text \<open>
  \<open>LIST_FOR_EACH\<close> with a body that does not change the list visits the nodes that
  \<open>list_nodes\<close> returns.  The traversal may not end on a corrupted list, so it
  carries fuel, one unit for each node visited.
\<close>

fun walk :: "nat \<Rightarrow> nodes \<Rightarrow> addr \<Rightarrow> addr \<Rightarrow> addr list option" where
  "walk 0 h pos list = None"
| "walk (Suc fuel) h pos list =
     (if pos = list then Some []
      else do { n \<leftarrow> get_next h pos; ps \<leftarrow> walk fuel h n list; Some (pos # ps) })"

definition list_nodes :: "nat \<Rightarrow> nodes \<Rightarrow> addr \<Rightarrow> addr list option" where
  "list_nodes fuel h list = do { p \<leftarrow> get_next h list; walk fuel h p list }"

section \<open>Well-formed lists\<close>

definition link :: "nodes \<Rightarrow> addr \<Rightarrow> addr \<Rightarrow> bool" where
  "link h a b \<longleftrightarrow> get_next h a = Some b \<and> get_prev h b = Some a"

fun links :: "nodes \<Rightarrow> addr list \<Rightarrow> bool" where
  "links h (a # b # xs) \<longleftrightarrow> link h a b \<and> links h (b # xs)"
| "links h _ \<longleftrightarrow> True"

definition dll :: "nodes \<Rightarrow> addr \<Rightarrow> addr list \<Rightarrow> bool" where
  "dll h l xs \<longleftrightarrow> distinct (l # xs) \<and> links h (l # xs @ [l])"

lemma links_append:
  "links h (xs @ a # ys) \<longleftrightarrow> links h (xs @ [a]) \<and> links h (a # ys)"
proof (induction xs)
  case (Cons x xs)
  then show ?case by (cases xs) auto
qed simp

lemma links_snoc: "links h (xs @ [a, b]) \<longleftrightarrow> links h (xs @ [a]) \<and> link h a b"
  using links_append [of h xs a "[b]"] by simp

lemma get_set [simp]:
  "set_next h a v = Some h' \<Longrightarrow> get_next h' b = (if b = a then Some v else get_next h b)"
  "set_next h a v = Some h' \<Longrightarrow> get_prev h' b = get_prev h b"
  "set_prev h a v = Some h' \<Longrightarrow> get_prev h' b = (if b = a then Some v else get_prev h b)"
  "set_prev h a v = Some h' \<Longrightarrow> get_next h' b = get_next h b"
  by (auto simp: set_next_def set_prev_def get_next_def get_prev_def)

lemma set_defined:
  "get_next h a \<noteq> None \<Longrightarrow> \<exists>h'. set_next h a v = Some h'"
  "get_prev h a \<noteq> None \<Longrightarrow> \<exists>h'. set_prev h a v = Some h'"
  by (auto simp: set_next_def set_prev_def get_next_def get_prev_def)

lemma get_defined_iff:
  "get_next h a = None \<longleftrightarrow> a \<notin> dom h"
  "get_prev h a = None \<longleftrightarrow> a \<notin> dom h"
  by (auto simp: get_next_def get_prev_def)

lemma set_frame:
  "set_next h a v = Some h' \<Longrightarrow> b \<noteq> a \<Longrightarrow> h' b = h b"
  "set_prev h a v = Some h' \<Longrightarrow> b \<noteq> a \<Longrightarrow> h' b = h b"
  by (auto simp: set_next_def set_prev_def)

lemma set_dom:
  "set_next h a v = Some h' \<Longrightarrow> dom h' = dom h"
  "set_prev h a v = Some h' \<Longrightarrow> dom h' = dom h"
  by (auto simp: set_next_def set_prev_def split: if_splits)

text \<open>The links of a chain read the \<open>next\<close> fields of all but its last node and the
  \<open>prev\<close> fields of all but its first.\<close>

lemma links_cong:
  assumes "\<And>a. a \<in> set (butlast xs) \<Longrightarrow> get_next h' a = get_next h a"
    and "\<And>a. a \<in> set (tl xs) \<Longrightarrow> get_prev h' a = get_prev h a"
  shows "links h' xs \<longleftrightarrow> links h xs"
  using assms
proof (induction h xs rule: links.induct)
  case (1 h a b xs)
  have "links h' (b # xs) \<longleftrightarrow> links h (b # xs)"
    using 1 by (intro "1.IH") (auto split: if_splits dest: list.set_sel(2))
  with 1 show ?case by (simp add: link_def)
qed auto

lemma split_last: "(l # xs) @ ys = butlast (l # xs) @ last (l # xs) # ys"
proof -
  have "l # xs = butlast (l # xs) @ [last (l # xs)]"
    by (simp only: append_butlast_last_id list.distinct not_False_eq_True)
  then have "(l # xs) @ ys = (butlast (l # xs) @ [last (l # xs)]) @ ys"
    by (rule arg_cong [where f = "\<lambda>z. z @ ys"])
  then show ?thesis by (simp only: append.assoc append_Cons append_Nil)
qed

lemma dll_next_prev:
  assumes "dll h l (xs @ e # ys)"
  shows "get_next h e = Some (hd (ys @ [l]))" and "get_prev h e = Some (last (l # xs))"
proof -
  from assms have "links h ((l # xs) @ e # ys @ [l])"
    by (simp add: dll_def)
  then have l1: "links h ((l # xs) @ [e])" and l2: "links h (e # ys @ [l])"
    using links_append [of h "l # xs" e "ys @ [l]"] by auto
  from l2 show "get_next h e = Some (hd (ys @ [l]))"
    by (cases ys) (auto simp: link_def)
  from l1 have "links h (butlast (l # xs) @ [last (l # xs), e])"
    by (simp only: split_last)
  then show "get_prev h e = Some (last (l # xs))"
    by (simp add: links_snoc link_def)
qed

lemma dll_head:
  assumes "dll h l xs"
  shows "get_next h l = Some (hd (xs @ [l]))" and "get_prev h l = Some (last (l # xs))"
proof -
  from assms show "get_next h l = Some (hd (xs @ [l]))"
    by (cases xs) (auto simp: dll_def link_def)
  from assms have "links h ((l # xs) @ [l])"
    by (simp add: dll_def)
  then have "links h (butlast (l # xs) @ [last (l # xs), l])"
    by (simp only: split_last)
  then show "get_prev h l = Some (last (l # xs))"
    by (simp add: links_snoc link_def)
qed

lemma dll_dom: "dll h l xs \<Longrightarrow> insert l (set xs) \<subseteq> dom h"
proof
  fix a assume dll: "dll h l xs" and "a \<in> insert l (set xs)"
  then consider "a = l" | ys zs where "xs = ys @ a # zs"
    by (auto dest: split_list)
  then show "a \<in> dom h"
  proof cases
    case 1
    with dll_head(1) [OF dll] show ?thesis by (auto simp: get_next_def)
  next
    case 2
    with dll_next_prev(1) [of h l ys a zs] dll show ?thesis by (auto simp: get_next_def)
  qed
qed

section \<open>The operations on well-formed lists\<close>

theorem ListInit_dll:
  assumes "l \<in> dom h"
  obtains h' where "ListInit h l = Some h'" and "dll h' l []" and "dom h' = dom h"
    and "\<And>a. a \<noteq> l \<Longrightarrow> h' a = h a"
  using assms
  by (fastforce simp: ListInit_def dll_def link_def set_next_def set_prev_def get_next_def get_prev_def)

lemma insert_between:
  assumes "get_prev h l = Some t" and "t \<in> dom h" and "e \<in> dom h" and "e \<noteq> l"
  obtains h' where "ListInsertTail h l e = Some h'"
    and "\<And>b. get_next h' b = (if b = t then Some e else if b = e then Some l else get_next h b)"
    and "\<And>b. get_prev h' b = (if b = l then Some e else if b = e then Some t else get_prev h b)"
    and "dom h' = dom h" and "\<And>b. b \<notin> {l, e, t} \<Longrightarrow> h' b = h b"
proof -
  from assms(3) obtain h1 where h1: "set_next h e l = Some h1"
    using set_defined(1) get_defined_iff(1) by blast
  from assms(3) h1 obtain h2 where h2: "set_prev h1 e t = Some h2"
    using set_defined(2) get_defined_iff(2) set_dom(1) by metis
  from assms(2) h1 h2 obtain h3 where h3: "set_next h2 t e = Some h3"
    using set_defined(1) get_defined_iff(1) set_dom by metis
  have "get_prev h3 l \<noteq> None"
    using assms(1,4) h1 h2 h3 by simp
  then obtain h4 where h4: "set_prev h3 l e = Some h4"
    using set_defined(2) by blast
  have "ListInsertTail h l e = Some h4"
    using assms(1,4) h1 h2 h3 h4 by (simp add: ListInsertTail_def)
  moreover have "get_next h4 b = (if b = t then Some e else if b = e then Some l else get_next h b)" for b
    using h1 h2 h3 h4 by simp
  moreover have "get_prev h4 b = (if b = l then Some e else if b = e then Some t else get_prev h b)" for b
    using h1 h2 h3 h4 by simp
  moreover have "dom h4 = dom h"
    using set_dom h1 h2 h3 h4 by metis
  moreover have "h4 b = h b" if "b \<notin> {l, e, t}" for b
    using that set_frame(1) [OF h1] set_frame(2) [OF h2] set_frame(1) [OF h3] set_frame(2) [OF h4]
    by simp
  ultimately show ?thesis by (rule that)
qed

theorem ListInsertTail_dll:
  assumes "dll h l xs" and "e \<in> dom h" and "e \<notin> insert l (set xs)"
  obtains h' where "ListInsertTail h l e = Some h'" and "dll h' l (xs @ [e])"
    and "dom h' = dom h" and "\<And>b. b \<notin> insert e (insert l (set xs)) \<Longrightarrow> h' b = h b"
proof -
  let ?t = "last (l # xs)"
  let ?ys = "butlast (l # xs)"
  have split: "l # xs = ?ys @ [?t]"
    using split_last [of l xs "[]"] by (simp only: append_Nil2)
  have t: "?t \<in> insert l (set xs)" "?t \<in> dom h"
    using last_in_set [of "l # xs"] dll_dom [OF assms(1)] by auto
  obtain h' where ins: "ListInsertTail h l e = Some h'"
    and nx: "\<And>b. get_next h' b = (if b = ?t then Some e else if b = e then Some l else get_next h b)"
    and pv: "\<And>b. get_prev h' b = (if b = l then Some e else if b = e then Some ?t else get_prev h b)"
    and dom: "dom h' = dom h" and frame: "\<And>b. b \<notin> {l, e, ?t} \<Longrightarrow> h' b = h b"
    using insert_between [OF dll_head(2) [OF assms(1)] t(2) assms(2)] assms(3) by blast
  from assms(1) have "distinct (l # xs)" and "links h ((l # xs) @ [l])"
    by (simp_all add: dll_def)
  then have "links h (?ys @ [?t])" and dist: "distinct (?ys @ [?t])"
    by (simp_all only: split_last links_snoc split [symmetric])
  moreover have "links h' (?ys @ [?t]) \<longleftrightarrow> links h (?ys @ [?t])"
  proof (rule links_cong)
    fix a assume "a \<in> set (butlast (?ys @ [?t]))"
    then have "a \<in> set ?ys" by simp
    with dist assms(3) show "get_next h' a = get_next h a"
      unfolding nx using in_set_butlastD [of a "l # xs"] by auto
  next
    fix a assume "a \<in> set (tl (?ys @ [?t]))"
    then have "a \<in> set xs" using split by (metis list.sel(3))
    with assms(3) \<open>distinct (l # xs)\<close> show "get_prev h' a = get_prev h a"
      unfolding pv by auto
  qed
  ultimately have "links h' (?ys @ [?t])" by blast
  moreover have "link h' ?t e" and "link h' e l"
    using t(1) assms(3) by (auto simp: link_def nx pv)
  ultimately have "links h' (?ys @ ?t # [e, l])"
    using links_append [of h' ?ys ?t "[e, l]"] by simp
  then have "links h' ((l # xs) @ [e, l])"
    by (simp only: split_last)
  moreover have "distinct (l # xs @ [e])"
    using \<open>distinct (l # xs)\<close> assms(3) by auto
  ultimately have dll: "dll h' l (xs @ [e])" by (simp add: dll_def)
  show ?thesis
  proof (rule that [OF ins dll dom])
    fix b assume "b \<notin> insert e (insert l (set xs))"
    with t(1) show "h' b = h b" by (intro frame) blast
  qed
qed

lemma unlink_between:
  assumes "get_prev h e = Some p" and "get_next h e = Some n"
    and "p \<in> dom h" and "n \<in> dom h" and "e \<noteq> p"
  obtains h' where "ListRemoveEntry h e = Some h'"
    and "\<And>b. get_next h' b = (if b = p then Some n else get_next h b)"
    and "\<And>b. get_prev h' b = (if b = n then Some p else get_prev h b)"
    and "dom h' = dom h" and "\<And>b. b \<notin> {p, n} \<Longrightarrow> h' b = h b"
proof -
  from assms(3) obtain h1 where h1: "set_next h p n = Some h1"
    using set_defined(1) get_defined_iff(1) by blast
  from assms(4) h1 obtain h2 where h2: "set_prev h1 n p = Some h2"
    using set_defined(2) get_defined_iff(2) set_dom(1) by metis
  have "ListRemoveEntry h e = Some h2"
    using assms h1 h2 by (simp add: ListRemoveEntry_def)
  moreover have "get_next h2 b = (if b = p then Some n else get_next h b)" for b
    using h1 h2 by simp
  moreover have "get_prev h2 b = (if b = n then Some p else get_prev h b)" for b
    using h1 h2 by simp
  moreover have "dom h2 = dom h"
    using set_dom h1 h2 by metis
  moreover have "h2 b = h b" if "b \<notin> {p, n}" for b
    using that set_frame(1) [OF h1] set_frame(2) [OF h2] by simp
  ultimately show ?thesis by (rule that)
qed

lemma links_splice:
  assumes "links h (as @ [p])" and "links h (n # bs)"
    and "distinct (as @ [p])" and "distinct (n # butlast bs)" and "n # butlast bs \<noteq> [] "
    and "\<And>b. get_next h' b = (if b = p then Some n else get_next h b)"
    and "\<And>b. get_prev h' b = (if b = n then Some p else get_prev h b)"
    and "p \<notin> set (butlast (n # bs))" and "n \<notin> set bs" and "n \<notin> set (tl (as @ [p]))"
  shows "links h' (as @ p # n # bs)"
proof -
  have "links h' (as @ [p]) \<longleftrightarrow> links h (as @ [p])"
    using assms(3,10) by (intro links_cong) (auto simp: assms(6,7))
  moreover have "links h' (n # bs) \<longleftrightarrow> links h (n # bs)"
    using assms(8,9) by (intro links_cong) (auto simp: assms(6,7))
  moreover have "link h' p n"
    by (simp add: link_def assms(6,7))
  ultimately show ?thesis
    using assms(1,2) links_append [of h' as p "n # bs"] by simp
qed

theorem ListRemoveEntry_dll:
  assumes "dll h l (xs @ e # ys)"
  obtains h' where "ListRemoveEntry h e = Some h'" and "dll h' l (xs @ ys)"
    and "dom h' = dom h" and "\<And>b. b \<notin> insert l (set (xs @ ys)) \<Longrightarrow> h' b = h b"
proof -
  let ?p = "last (l # xs)"
  let ?n = "hd (ys @ [l])"
  have pn: "?p \<in> insert l (set xs)" "?n \<in> insert l (set ys)"
    using last_in_set [of "l # xs"] hd_in_set [of "ys @ [l]"] by auto
  from assms have dist: "distinct (l # xs @ e # ys)" and lk: "links h ((l # xs) @ e # ys @ [l])"
    by (simp_all add: dll_def)
  obtain h' where rem: "ListRemoveEntry h e = Some h'"
    and nx: "\<And>b. get_next h' b = (if b = ?p then Some ?n else get_next h b)"
    and pv: "\<And>b. get_prev h' b = (if b = ?n then Some ?p else get_prev h b)"
    and dom: "dom h' = dom h" and frame: "\<And>b. b \<notin> {?p, ?n} \<Longrightarrow> h' b = h b"
  proof (rule unlink_between [OF dll_next_prev(2,1) [OF assms]])
    show "?p \<in> dom h" "?n \<in> dom h"
      using pn dll_dom [OF assms] by auto
    show "e \<noteq> ?p" using pn dist by auto
  qed blast
  have whole: "butlast (l # xs) @ [?p] = l # xs"
    using split_last [of l xs "[]"] by (simp only: append_Nil2)
  have l1: "links h (butlast (l # xs) @ [?p])" and l2: "links h (?n # tl (ys @ [l]))"
  proof -
    from lk have "links h ((l # xs) @ [e])" and "links h (e # ys @ [l])"
      using links_append [of h "l # xs" e "ys @ [l]"] by auto
    then show "links h (butlast (l # xs) @ [?p])" and "links h (?n # tl (ys @ [l]))"
      by (simp_all only: split_last links_snoc) (cases ys; simp)
  qed
  have "links h' (butlast (l # xs) @ ?p # ?n # tl (ys @ [l]))"
  proof (rule links_splice [OF l1 l2 _ _ _ nx pv])
    show "distinct (butlast (l # xs) @ [?p])"
      unfolding whole using dist by simp
    show "distinct (?n # butlast (tl (ys @ [l])))" "?n \<notin> set (tl (ys @ [l]))"
        "?p \<notin> set (butlast (?n # tl (ys @ [l])))" "?n # butlast (tl (ys @ [l])) \<noteq> []"
      using dist pn(1) by (cases ys; auto dest: in_set_butlastD)+
    show "?n \<notin> set (tl (butlast (l # xs) @ [?p]))"
      unfolding whole using dist pn(2) by auto
  qed
  then have "links h' ((l # xs) @ ys @ [l])"
    by (simp only: split_last) (cases ys; simp)
  with dist have dll: "dll h' l (xs @ ys)" by (simp add: dll_def)
  show ?thesis
  proof (rule that [OF rem dll dom])
    fix b assume "b \<notin> insert l (set (xs @ ys))"
    with pn show "h' b = h b" by (intro frame) auto
  qed
qed

lemma LIST_EMPTY_dll: "dll h l xs \<Longrightarrow> LIST_EMPTY h l = Some (xs = [])"
  using dll_head(1) [of h l xs] by (cases xs) (auto simp: LIST_EMPTY_def dll_def)

lemma walk_links:
  assumes "links h (xs @ [l])" and "l \<notin> set xs" and "length xs < fuel"
  shows "walk fuel h (hd (xs @ [l])) l = Some xs"
  using assms
proof (induction xs arbitrary: fuel)
  case Nil
  then show ?case by (cases fuel) auto
next
  case (Cons x xs)
  from Cons.prems(3) obtain f where f: "fuel = Suc f" "length xs < f" by (cases fuel) auto
  from Cons.prems(1) have "get_next h x = Some (hd (xs @ [l]))" and "links h (xs @ [l])"
    by (cases xs; simp add: link_def)+
  with Cons.IH [of f] Cons.prems(2) f show ?case by (simp add: eq_commute [of x l])
qed

text \<open>The traversal ends and visits the nodes in order, with one unit of fuel more than nodes.\<close>

theorem list_nodes_dll:
  assumes "dll h l xs" and "length xs < fuel"
  shows "list_nodes fuel h l = Some xs"
proof -
  from assms(1) have "links h (xs @ [l])" and "l \<notin> set xs"
    by (cases xs; simp add: dll_def)+
  from walk_links [OF this assms(2)] dll_head(1) [OF assms(1)] show ?thesis
    by (simp add: list_nodes_def)
qed

lemma ListRemoveTail_dll:
  assumes "dll h l (xs @ [e])"
  obtains h' where "ListRemoveTail h l = Some (e, h')" and "dll h' l xs" and "dom h' = dom h"
proof -
  obtain h' where "ListRemoveEntry h e = Some h'" and "dll h' l (xs @ [])" and "dom h' = dom h"
    by (rule ListRemoveEntry_dll [OF assms])
  with LIST_EMPTY_dll [OF assms] dll_head(2) [OF assms] show ?thesis
    by (intro that [of h']) (simp_all add: ListRemoveTail_def)
qed

lemma ListRemoveHead_dll:
  assumes "dll h l (e # xs)"
  obtains h' where "ListRemoveHead h l = Some (e, h')" and "dll h' l xs" and "dom h' = dom h"
proof -
  from assms have "dll h l ([] @ e # xs)" by simp
  then obtain h' where "ListRemoveEntry h e = Some h'" and "dll h' l ([] @ xs)" and "dom h' = dom h"
    by (rule ListRemoveEntry_dll)
  with LIST_EMPTY_dll [OF assms] dll_head(1) [OF assms] show ?thesis
    by (intro that [of h']) (simp_all add: ListRemoveHead_def)
qed

lemma insert_after:
  assumes "get_next h l = Some n" and "n \<in> dom h" and "e \<in> dom h" and "e \<noteq> l"
  obtains h' where "ListInsertHead h l e = Some h'"
    and "\<And>b. get_next h' b = (if b = l then Some e else if b = e then Some n else get_next h b)"
    and "\<And>b. get_prev h' b = (if b = e then Some l else if b = n then Some e else get_prev h b)"
    and "dom h' = dom h"
proof -
  from assms(2) obtain h1 where h1: "set_prev h n e = Some h1"
    using set_defined(2) get_defined_iff(2) by blast
  from assms(3) h1 obtain h2 where h2: "set_next h1 e n = Some h2"
    using set_defined(1) get_defined_iff(1) set_dom(2) by metis
  from assms(3) h1 h2 obtain h3 where h3: "set_prev h2 e l = Some h3"
    using set_defined(2) get_defined_iff(2) set_dom by metis
  have "get_next h3 l \<noteq> None" using assms(1,4) h1 h2 h3 by simp
  then obtain h4 where h4: "set_next h3 l e = Some h4" using set_defined(1) by blast
  have "ListInsertHead h l e = Some h4" using assms(1,4) h1 h2 h3 h4 by (simp add: ListInsertHead_def)
  moreover have "get_next h4 b = (if b = l then Some e else if b = e then Some n else get_next h b)" for b
    using h1 h2 h3 h4 by simp
  moreover have "get_prev h4 b = (if b = e then Some l else if b = n then Some e else get_prev h b)" for b
    using h1 h2 h3 h4 by simp
  moreover have "dom h4 = dom h" using set_dom h1 h2 h3 h4 by metis
  ultimately show ?thesis by (rule that)
qed

lemma ListInsertHead_dll:
  assumes "dll h l xs" and "e \<in> dom h" and "e \<notin> insert l (set xs)"
  obtains h' where "ListInsertHead h l e = Some h'" and "dll h' l (e # xs)" and "dom h' = dom h"
proof -
  let ?n = "hd (xs @ [l])"
  have n: "?n \<in> insert l (set xs)" "?n \<in> dom h" using dll_dom [OF assms(1)] by (cases xs; auto)+
  obtain h' where ins: "ListInsertHead h l e = Some h'"
    and nx: "\<And>b. get_next h' b = (if b = l then Some e else if b = e then Some ?n else get_next h b)"
    and pv: "\<And>b. get_prev h' b = (if b = e then Some l else if b = ?n then Some e else get_prev h b)"
    and dom: "dom h' = dom h"
    using insert_after [OF dll_head(1) [OF assms(1)] n(2) assms(2)] assms(3) by blast
  have dist: "distinct (l # xs)" and old: "links h (xs @ [l])"
    using assms(1) by (cases xs; simp add: dll_def)+
  have "links h' (xs @ [l]) \<longleftrightarrow> links h (xs @ [l])"
  proof (rule links_cong)
    fix a assume "a \<in> set (butlast (xs @ [l]))"
    with dist assms(3) show "get_next h' a = get_next h a" unfolding nx by auto
  next
    fix a assume "a \<in> set (tl (xs @ [l]))"
    with dist assms(3) show "get_prev h' a = get_prev h a" unfolding pv by (cases xs) auto
  qed
  moreover have "link h' l e" "link h' e ?n"
    using n(1) assms(3) by (auto simp: link_def nx pv)
  ultimately have "links h' (l # e # xs @ [l])" using old by (cases xs) simp_all
  with dist assms(3) have "dll h' l (e # xs)" by (auto simp: dll_def)
  with ins dom show ?thesis by (intro that)
qed

section \<open>The list interface\<close>

text \<open>
  What the components that keep lists rely on: a representation relation, insertion
  at the tail, removal of an entry, and a traversal that ends.  Inside the locale the
  sequence of insertions that the tag tables and the context lists perform is shown
  to be visited in insertion order.
\<close>

locale node_list =
  fixes rep :: "'h \<Rightarrow> 'a \<Rightarrow> 'a list \<Rightarrow> bool"
    and alloc :: "'h \<Rightarrow> 'a set"
    and init :: "'h \<Rightarrow> 'a \<Rightarrow> 'h option"
    and insert_tail :: "'h \<Rightarrow> 'a \<Rightarrow> 'a \<Rightarrow> 'h option"
    and remove :: "'h \<Rightarrow> 'a \<Rightarrow> 'h option"
    and visit :: "nat \<Rightarrow> 'h \<Rightarrow> 'a \<Rightarrow> 'a list option"
  assumes rep_distinct: "rep h l xs \<Longrightarrow> distinct (l # xs)"
    and init_rep: "l \<in> alloc h \<Longrightarrow> \<exists>h'. init h l = Some h' \<and> rep h' l [] \<and> alloc h' = alloc h"
    and insert_rep: "rep h l xs \<Longrightarrow> e \<in> alloc h \<Longrightarrow> e \<notin> insert l (set xs) \<Longrightarrow>
          \<exists>h'. insert_tail h l e = Some h' \<and> rep h' l (xs @ [e]) \<and> alloc h' = alloc h"
    and remove_rep: "rep h l (xs @ e # ys) \<Longrightarrow>
          \<exists>h'. remove h e = Some h' \<and> rep h' l (xs @ ys) \<and> alloc h' = alloc h"
    and visit_rep: "rep h l xs \<Longrightarrow> length xs < fuel \<Longrightarrow> visit fuel h l = Some xs"
begin

fun insert_all :: "'h \<Rightarrow> 'a \<Rightarrow> 'a list \<Rightarrow> 'h option" where
  "insert_all h l [] = Some h"
| "insert_all h l (e # es) = do { h \<leftarrow> insert_tail h l e; insert_all h l es }"

lemma insert_all_rep:
  assumes "rep h l xs" and "set es \<subseteq> alloc h" and "distinct es" and "set es \<inter> insert l (set xs) = {}"
  shows "\<exists>h'. insert_all h l es = Some h' \<and> rep h' l (xs @ es) \<and> alloc h' = alloc h"
  using assms
proof (induction es arbitrary: h xs)
  case Nil
  then show ?case by simp
next
  case (Cons e es)
  obtain h1 where h1: "insert_tail h l e = Some h1" "rep h1 l (xs @ [e])" "alloc h1 = alloc h"
    using insert_rep [OF Cons.prems(1), of e] Cons.prems by auto
  obtain h2 where "insert_all h1 l es = Some h2 \<and> rep h2 l ((xs @ [e]) @ es) \<and> alloc h2 = alloc h1"
    using Cons.IH [OF h1(2)] Cons.prems h1(3) by auto
  with h1 show ?case by simp
qed

lemma fifo:
  assumes "l \<in> alloc h" and "set es \<subseteq> alloc h" and "distinct es" and "l \<notin> set es"
    and "length es < fuel"
  shows "\<exists>h' h''. init h l = Some h' \<and> insert_all h' l es = Some h'' \<and> visit fuel h'' l = Some es"
proof -
  obtain h1 where h1: "init h l = Some h1" "rep h1 l []" "alloc h1 = alloc h"
    using init_rep [OF assms(1)] by blast
  obtain h2 where "insert_all h1 l es = Some h2" "rep h2 l ([] @ es)"
    using insert_all_rep [OF h1(2), of es] assms h1(3) by auto
  with h1 visit_rep [of h2 l es fuel] assms(5) show ?thesis by auto
qed

lemma remove_member:
  assumes "rep h l xs" and "e \<in> set xs"
  shows "\<exists>h'. remove h e = Some h' \<and> rep h' l (remove1 e xs) \<and> alloc h' = alloc h"
proof -
  from assms(2) obtain ys zs where xs: "xs = ys @ e # zs" by (meson split_list)
  with rep_distinct [OF assms(1)] have "remove1 e xs = ys @ zs"
    by (simp add: remove1_append)
  with remove_rep [of h l ys e zs] assms(1) xs show ?thesis by simp
qed

end

interpretation nodes: node_list dll dom ListInit ListInsertTail ListRemoveEntry list_nodes
proof
  fix h :: nodes and l e :: addr and xs ys :: "addr list" and fuel :: nat
  show "dll h l xs \<Longrightarrow> distinct (l # xs)"
    by (simp add: dll_def)
  show "l \<in> dom h \<Longrightarrow> \<exists>h'. ListInit h l = Some h' \<and> dll h' l [] \<and> dom h' = dom h"
    using ListInit_dll by metis
  show "dll h l xs \<Longrightarrow> e \<in> dom h \<Longrightarrow> e \<notin> insert l (set xs) \<Longrightarrow>
      \<exists>h'. ListInsertTail h l e = Some h' \<and> dll h' l (xs @ [e]) \<and> dom h' = dom h"
    using ListInsertTail_dll by metis
  show "dll h l (xs @ e # ys) \<Longrightarrow>
      \<exists>h'. ListRemoveEntry h e = Some h' \<and> dll h' l (xs @ ys) \<and> dom h' = dom h"
    using ListRemoveEntry_dll by metis
  show "dll h l xs \<Longrightarrow> length xs < fuel \<Longrightarrow> list_nodes fuel h l = Some xs"
    by (rule list_nodes_dll)
qed

section \<open>Properties\<close>

text \<open>
  C24.  The pointer operations implement lists.  On a well-formed circular list that holds the nodes
  \<open>xs\<close>, inserting a new node at either end, and removing a member, touches only allocated
  nodes and gives a well-formed list with the expected nodes in order; the traversal of the
  list ends and visits exactly these nodes.
\<close>

theorem list_refines:
  assumes "dll h l xs" and "e \<in> dom h"
  shows "(e \<notin> insert l (set xs) \<longrightarrow>
      (\<exists>h'. ListInsertTail h l e = Some h' \<and> dll h' l (xs @ [e]) \<and> dom h' = dom h) \<and>
      (\<exists>h'. ListInsertHead h l e = Some h' \<and> dll h' l (e # xs) \<and> dom h' = dom h)) \<and>
    (e \<in> set xs \<longrightarrow> (\<exists>h'. ListRemoveEntry h e = Some h' \<and> dll h' l (remove1 e xs) \<and> dom h' = dom h)) \<and>
    (\<forall>fuel > length xs. list_nodes fuel h l = Some xs)"
proof (intro conjI impI allI)
  assume new: "e \<notin> insert l (set xs)"
  show "\<exists>h'. ListInsertTail h l e = Some h' \<and> dll h' l (xs @ [e]) \<and> dom h' = dom h"
    by (rule nodes.insert_rep [OF assms new])
  show "\<exists>h'. ListInsertHead h l e = Some h' \<and> dll h' l (e # xs) \<and> dom h' = dom h"
    by (rule ListInsertHead_dll [OF assms new]) blast
next
  assume "e \<in> set xs"
  then show "\<exists>h'. ListRemoveEntry h e = Some h' \<and> dll h' l (remove1 e xs) \<and> dom h' = dom h"
    by (rule nodes.remove_member [OF assms(1)])
next
  fix fuel assume "length xs < fuel"
  then show "list_nodes fuel h l = Some xs" by (rule nodes.visit_rep [OF assms(1)])
qed

theorem list_refines_witness:
  "\<exists>h'. ListInsertHead [0x10 \<mapsto> \<lparr>next = 0x20, prev = 0x20\<rparr>, 0x20 \<mapsto> \<lparr>next = 0x10, prev = 0x10\<rparr>, 0x30 \<mapsto> \<lparr>next = 0, prev = 0\<rparr>] 0x10 0x30 =
     Some h' \<and> dll h' 0x10 [0x30, 0x20]"
proof -
  let ?h = "[0x10 \<mapsto> \<lparr>next = 0x20, prev = 0x20\<rparr>, 0x20 \<mapsto> \<lparr>next = 0x10, prev = 0x10\<rparr>, 0x30 \<mapsto> \<lparr>next = 0, prev = 0\<rparr>] :: nodes"
  have d: "dll ?h 0x10 [0x20]" by (simp add: dll_def link_def get_next_def get_prev_def)
  have e: "0x30 \<in> dom ?h" by simp
  from list_refines [OF d e] show ?thesis by auto
qed


end
