(* ===== verification/Api_Types.thy ===== *)
theory Api_Types
  imports Prelude Bitmap
begin

text \<open>
  Data and memory of the client library: the structures of
  \<open>src/interfaces/inner_api/tee_client_type.h\<close>,
  \<open>src/frameworks/include/tee_client_inner.h\<close> and
  \<open>src/frameworks/include/tc_ns_client.h\<close>, the return codes of
  \<open>tee_client_constants.h\<close>, the store in which the structures live, the mutexes,
  and the operating-system calls and driver requests as a record of parameters.

  A list of nodes embedded in structures is the list of the structures' addresses;
  \<open>List_Node\<close> shows that the pointer operations implement the operations on such lists.
\<close>

section \<open>Constants\<close>

type_synonym TEEC_Result = u32

abbreviation (input) "TEEC_SUCCESS \<equiv> (0 :: u32)"
abbreviation (input) "TEEC_ERROR_TRUSTED_APP_LOAD_ERROR \<equiv> (13 :: u32)"
abbreviation (input) "TEEC_ERROR_GENERIC \<equiv> (0xFFFF0000 :: u32)"
abbreviation (input) "TEEC_ERROR_ACCESS_DENIED \<equiv> (0xFFFF0001 :: u32)"
abbreviation (input) "TEEC_ERROR_BAD_PARAMETERS \<equiv> (0xFFFF0006 :: u32)"
abbreviation (input) "TEEC_ERROR_NOT_IMPLEMENTED \<equiv> (0xFFFF0009 :: u32)"
abbreviation (input) "TEEC_ERROR_OUT_OF_MEMORY \<equiv> (0xFFFF000C :: u32)"
abbreviation (input) "TEEC_ERROR_SECURITY \<equiv> (0xFFFF000F :: u32)"
abbreviation (input) "TEEC_FAIL \<equiv> (0xFFFF5002 :: u32)"

abbreviation (input) "TEEC_ORIGIN_API \<equiv> (1 :: u32)"
abbreviation (input) "TEEC_ORIGIN_COMMS \<equiv> (2 :: u32)"

abbreviation (input) "TEEC_MEM_INPUT \<equiv> (1 :: u32)"
abbreviation (input) "TEEC_MEM_OUTPUT \<equiv> (2 :: u32)"
abbreviation (input) "TEEC_MEM_INOUT \<equiv> (3 :: u32)"
abbreviation (input) "TEEC_MEM_SHARED_INOUT \<equiv> (4 :: u32)"

abbreviation (input) "TEEC_NONE \<equiv> (0 :: u32)"
abbreviation (input) "TEEC_VALUE_INPUT \<equiv> (1 :: u32)"
abbreviation (input) "TEEC_VALUE_OUTPUT \<equiv> (2 :: u32)"
abbreviation (input) "TEEC_VALUE_INOUT \<equiv> (3 :: u32)"
abbreviation (input) "TEEC_MEMREF_TEMP_INPUT \<equiv> (5 :: u32)"
abbreviation (input) "TEEC_MEMREF_TEMP_OUTPUT \<equiv> (6 :: u32)"
abbreviation (input) "TEEC_MEMREF_TEMP_INOUT \<equiv> (7 :: u32)"
abbreviation (input) "TEEC_ION_INPUT \<equiv> (8 :: u32)"
abbreviation (input) "TEEC_ION_SGLIST_INPUT \<equiv> (9 :: u32)"
abbreviation (input) "TEEC_MEMREF_SHARED_INOUT \<equiv> (10 :: u32)"
abbreviation (input) "TEEC_MEMREF_WHOLE \<equiv> (12 :: u32)"
abbreviation (input) "TEEC_MEMREF_PARTIAL_INPUT \<equiv> (13 :: u32)"
abbreviation (input) "TEEC_MEMREF_PARTIAL_OUTPUT \<equiv> (14 :: u32)"
abbreviation (input) "TEEC_MEMREF_PARTIAL_INOUT \<equiv> (15 :: u32)"

abbreviation (input) "TEEC_LOGIN_IDENTIFY \<equiv> (7 :: u32)"

abbreviation (input) "TEEC_PARAM_NUM \<equiv> (4 :: nat)"
abbreviation (input) "MAX_CXTCNT_ONECA \<equiv> (16 :: u32)"
abbreviation (input) "MAX_SHAREDMEM_LEN \<equiv> (0x10000000 :: u32)"
abbreviation (input) "ZERO_SIZE_PTR \<equiv> (16 :: addr)"
abbreviation (input) "MAP_FAILED \<equiv> (- 1 :: addr)"
abbreviation (input) "EOK \<equiv> (0 :: int)"
abbreviation (input) "ENOMEM \<equiv> (12 :: int)"
abbreviation (input) "EFAULT \<equiv> (14 :: int)"
abbreviation (input) "EACCES \<equiv> (13 :: int)"
abbreviation (input) "EINVAL \<equiv> (22 :: int)"

definition IS_TEMP_MEM :: "u32 \<Rightarrow> bool" where
  "IS_TEMP_MEM t \<longleftrightarrow> t = TEEC_MEMREF_TEMP_INPUT \<or> t = TEEC_MEMREF_TEMP_OUTPUT \<or> t = TEEC_MEMREF_TEMP_INOUT"

definition IS_PARTIAL_MEM :: "u32 \<Rightarrow> bool" where
  "IS_PARTIAL_MEM t \<longleftrightarrow> t = TEEC_MEMREF_WHOLE \<or> t = TEEC_MEMREF_PARTIAL_INPUT \<or>
     t = TEEC_MEMREF_PARTIAL_OUTPUT \<or> t = TEEC_MEMREF_PARTIAL_INOUT"

definition IS_VALUE_MEM :: "u32 \<Rightarrow> bool" where
  "IS_VALUE_MEM t \<longleftrightarrow> t = TEEC_VALUE_INPUT \<or> t = TEEC_VALUE_OUTPUT \<or> t = TEEC_VALUE_INOUT"

definition IS_SHARED_MEM :: "u32 \<Rightarrow> bool" where
  "IS_SHARED_MEM t \<longleftrightarrow> t = TEEC_MEMREF_SHARED_INOUT"

section \<open>Structures\<close>

record TEEC_UUID =
  timeLow :: u32
  timeMid :: u16
  timeHiAndVersion :: u16
  clockSeqAndNode :: "u8 list"

record TEEC_Context =
  uc_fd :: int
  uc_ta_path :: "string option"
  uc_session_list :: "addr list"
  uc_shrd_mem_list :: "addr list"

text \<open>
  \<open>se_head\<close> stands for the list node \<open>head\<close>: the context whose list the node is linked into,
  or null when it is in no list.
\<close>

record TEEC_Session =
  se_session_id :: u32
  se_service_id :: TEEC_UUID
  se_ops_cnt :: u32
  se_head :: addr
  se_context :: addr

record TEEC_SharedMemory =
  sm_buffer :: addr
  sm_size :: u32
  sm_flags :: u32
  sm_ops_cnt :: u32
  sm_is_allocated :: bool
  sm_context :: addr

record TEEC_ContextInner =
  ci_fd :: int
  ci_session_list :: "addr list"
  ci_shrd_mem_list :: "addr list"
  ci_shm_bitmap :: "u8 list"
  ci_ops_cnt :: u32
  ci_callFromService :: bool

record TEEC_SharedMemoryInner =
  si_buffer :: addr
  si_size :: u32
  si_flags :: u32
  si_ops_cnt :: u32
  si_is_allocated :: bool
  si_context :: addr
  si_offset :: u32

text \<open>
  \<open>TEEC_Parameter\<close> is a union of 16 bytes.  On a little-endian 64-bit target its members
  overlap as follows, and reading a member reads these words whatever member was written.
\<close>

record TEEC_Parameter =
  pq0 :: u64
  pd2 :: u32
  pd3 :: u32

definition tmpref_buffer :: "TEEC_Parameter \<Rightarrow> addr" where "tmpref_buffer p = pq0 p"
definition tmpref_size :: "TEEC_Parameter \<Rightarrow> u32" where "tmpref_size p = pd2 p"
definition memref_parent :: "TEEC_Parameter \<Rightarrow> addr" where "memref_parent p = pq0 p"
definition memref_size :: "TEEC_Parameter \<Rightarrow> u32" where "memref_size p = pd2 p"
definition memref_offset :: "TEEC_Parameter \<Rightarrow> u32" where "memref_offset p = pd3 p"
definition ion_share_fd :: "TEEC_Parameter \<Rightarrow> int" where "ion_share_fd p = sint (ucast (pq0 p) :: u32)"
definition ion_size :: "TEEC_Parameter \<Rightarrow> u32" where "ion_size p = ucast (drop_bit 32 (pq0 p))"

record TEEC_Operation =
  op_started :: u32
  op_paramTypes :: u32
  op_params :: "TEEC_Parameter list"
  op_session :: addr
  op_cancel_flag :: bool

text \<open>A pointer to an operation: its address and the structure there, or \<open>None\<close> for the null pointer.\<close>

type_synonym operation_ptr = "(addr \<times> TEEC_Operation) option"

text \<open>The union \<open>TC_NS_ClientParam\<close> after \<open>memset_s\<close> and at most one of the encoders.\<close>

datatype TC_NS_ClientParam =
    NoParam
  | MemrefParam (cp_buffer: u32) (cp_buffer_h: u32) (cp_offset: u32) (cp_size_addr: u32) (cp_size_h: u32)
  | ValueParam (cp_a: u32) (cp_a_h: u32) (cp_b: u32) (cp_b_h: u32)

record TC_NS_ClientLogin =
  lg_method :: u32
  lg_mdata :: u32

record TC_NS_ClientContext =
  cc_uuid :: "u8 list"
  cc_session_id :: u32
  cc_cmd_id :: u32
  cc_code :: u32
  cc_origin :: u32
  cc_login :: TC_NS_ClientLogin
  cc_params :: "TC_NS_ClientParam list"
  cc_paramTypes :: u32
  cc_started :: bool
  cc_callingPid :: u32
  cc_file_size :: u32
  cc_file_buffer :: addr

record TaFileInfo =
  taPath :: "string option"
  taFp :: addr

section \<open>Store, mutexes, operating system\<close>

datatype lock =
    MutexWriteContextList
  | MutexReadContextList
  | SessionLock addr
  | ShrMemLock addr
  | ShrMemBitMapLock addr

datatype ioctl_req = SES_OPEN_REQ | SES_CLOSE_REQ | SEND_CMD_REQ | CANCEL_CMD_REQ

datatype seek = SEEK_SET | SEEK_END

datatype SecFileType = LOAD_TA | LOAD_SERVICE | LOAD_LIB | LOAD_DYNAMIC_DRV

record SecLoadIoctlStruct =
  sl_fileType :: SecFileType
  sl_fileSize :: u32
  sl_uuid :: "u8 list"
  sl_file_addr :: u32
  sl_file_h_addr :: u32

record CaAuthInfo =
  ca_certs :: "u8 list"
  ca_type :: int
  ca_uid :: u32
  ca_pid :: int

record CaRevMsg =
  cr_cmd :: int
  cr_caAuthInfo :: CaAuthInfo

text \<open>A control message as \<open>recvmsg\<close> delivers it: whether it is \<open>SOL_SOCKET\<close>/\<open>SCM_RIGHTS\<close>, and its first word.\<close>

record cmsg =
  cm_rights :: bool
  cm_data :: int

datatype agent_req = WAIT_EVENT | SEND_EVENT_RESPONSE | UNREGISTER_AGENT

text \<open>
  The calls that leave the library: POSIX, the secure-string library (\<open>securec\<close>) and the
  driver.  Each gets the state of the world (files, sockets, the driver, \<open>errno\<close>, the outcome
  of every call) and returns a new one.  The allocators are told which addresses are in use; \<open>os_fill\<close> is the content
  of new memory.
  \<open>os_snprintf_s\<close> gets the text that the format produces and the limit on its length.
\<close>

record 'w os =
  os_mutex_lock :: "lock \<Rightarrow> 'w \<Rightarrow> int \<times> 'w"
  os_malloc :: "(addr \<Rightarrow> bool) \<Rightarrow> nat \<Rightarrow> 'w \<Rightarrow> addr \<times> 'w"
  os_fill :: "addr \<Rightarrow> nat \<Rightarrow> u8"
  os_memset_s :: "'w \<Rightarrow> int \<times> 'w"
  os_memcpy_s :: "'w \<Rightarrow> int \<times> 'w"
  os_strncpy_s :: "'w \<Rightarrow> int \<times> 'w"
  os_snprintf_s :: "nat \<Rightarrow> string \<Rightarrow> 'w \<Rightarrow> (int \<times> string) \<times> 'w"
  os_mmap :: "(addr \<Rightarrow> bool) \<Rightarrow> u32 \<Rightarrow> int \<Rightarrow> u32 \<Rightarrow> 'w \<Rightarrow> addr \<times> 'w"
  os_munmap :: "addr \<Rightarrow> u32 \<Rightarrow> 'w \<Rightarrow> int \<times> 'w"
  os_close :: "int \<Rightarrow> 'w \<Rightarrow> 'w"
  os_ioctl :: "int \<Rightarrow> ioctl_req \<Rightarrow> TC_NS_ClientContext \<Rightarrow> 'w \<Rightarrow> (int \<times> TC_NS_ClientContext) \<times> 'w"
  os_ioctl_load :: "int \<Rightarrow> SecLoadIoctlStruct \<Rightarrow> 'w \<Rightarrow> int \<times> 'w"
  os_ioctl_register :: "int \<Rightarrow> u32 \<Rightarrow> u32 \<Rightarrow> 'w \<Rightarrow> (int \<times> addr) \<times> 'w"
  os_ioctl_agent :: "int \<Rightarrow> agent_req \<Rightarrow> u32 \<Rightarrow> 'w \<Rightarrow> int \<times> 'w"
  os_errno :: "'w \<Rightarrow> int"
  os_usleep :: "nat \<Rightarrow> 'w \<Rightarrow> 'w"
  os_nanosleep :: "nat \<Rightarrow> 'w \<Rightarrow> 'w"
  os_pagesize :: u32
  os_realpath :: "string \<Rightarrow> 'w \<Rightarrow> string option \<times> 'w"
  os_fopen :: "string \<Rightarrow> 'w \<Rightarrow> addr \<times> 'w"
  os_fclose :: "addr \<Rightarrow> 'w \<Rightarrow> 'w"
  os_fread :: "addr \<Rightarrow> nat \<Rightarrow> 'w \<Rightarrow> u8 list \<times> 'w"
  os_fseek :: "addr \<Rightarrow> nat \<Rightarrow> seek \<Rightarrow> 'w \<Rightarrow> int \<times> 'w"
  os_ftell :: "addr \<Rightarrow> 'w \<Rightarrow> int \<times> 'w"
  os_socket :: "'w \<Rightarrow> int \<times> 'w"
  os_connect :: "int \<Rightarrow> 'w \<Rightarrow> int \<times> 'w"
  os_sendmsg :: "int \<Rightarrow> CaRevMsg \<Rightarrow> 'w \<Rightarrow> int \<times> 'w"
  os_recvmsg :: "int \<Rightarrow> 'w \<Rightarrow> (int \<times> int \<times> cmsg list) \<times> 'w"

record 'w api =
  ctxs :: "addr \<rightharpoonup> TEEC_ContextInner"
  shms :: "addr \<rightharpoonup> TEEC_SharedMemoryInner"
  sess :: "addr \<rightharpoonup> TEEC_Session"
  uctx :: "addr \<rightharpoonup> TEEC_Context"
  ushm :: "addr \<rightharpoonup> TEEC_SharedMemory"
  bufs :: "addr \<rightharpoonup> u8 list"
  maps :: "addr \<rightharpoonup> u32"
  ctx_list :: "addr list"
  held :: "lock set"
  world :: 'w

definition live :: "'w api \<Rightarrow> addr \<Rightarrow> bool" where
  "live s a \<longleftrightarrow> ctxs s a \<noteq> None \<or> shms s a \<noteq> None \<or> sess s a \<noteq> None \<or> uctx s a \<noteq> None \<or>
     ushm s a \<noteq> None \<or> bufs s a \<noteq> None \<or> maps s a \<noteq> None"

text \<open>Dereferencing a pointer that is null or dangling is undefined behaviour.\<close>

definition ctx_at :: "'w api \<Rightarrow> addr \<Rightarrow> TEEC_ContextInner option" where
  "ctx_at s a = (if a = NULL then None else ctxs s a)"

definition shm_at :: "'w api \<Rightarrow> addr \<Rightarrow> TEEC_SharedMemoryInner option" where
  "shm_at s a = (if a = NULL then None else shms s a)"

definition sess_at :: "'w api \<Rightarrow> addr \<Rightarrow> TEEC_Session option" where
  "sess_at s a = (if a = NULL then None else sess s a)"

definition uctx_at :: "'w api \<Rightarrow> addr \<Rightarrow> TEEC_Context option" where
  "uctx_at s a = (if a = NULL then None else uctx s a)"

definition ushm_at :: "'w api \<Rightarrow> addr \<Rightarrow> TEEC_SharedMemory option" where
  "ushm_at s a = (if a = NULL then None else ushm s a)"

text \<open>Assignments through a pointer; the structure must be there.\<close>

definition upd_ctx :: "addr \<Rightarrow> (TEEC_ContextInner \<Rightarrow> TEEC_ContextInner) \<Rightarrow> 'w api \<Rightarrow> 'w api option" where
  "upd_ctx a f s = map_option (\<lambda>c. s\<lparr>ctxs := (ctxs s)(a \<mapsto> f c)\<rparr>) (ctx_at s a)"

definition upd_shm :: "addr \<Rightarrow> (TEEC_SharedMemoryInner \<Rightarrow> TEEC_SharedMemoryInner) \<Rightarrow> 'w api \<Rightarrow> 'w api option" where
  "upd_shm a f s = map_option (\<lambda>c. s\<lparr>shms := (shms s)(a \<mapsto> f c)\<rparr>) (shm_at s a)"

definition upd_sess :: "addr \<Rightarrow> (TEEC_Session \<Rightarrow> TEEC_Session) \<Rightarrow> 'w api \<Rightarrow> 'w api option" where
  "upd_sess a f s = map_option (\<lambda>c. s\<lparr>sess := (sess s)(a \<mapsto> f c)\<rparr>) (sess_at s a)"

definition upd_uctx :: "addr \<Rightarrow> (TEEC_Context \<Rightarrow> TEEC_Context) \<Rightarrow> 'w api \<Rightarrow> 'w api option" where
  "upd_uctx a f s = map_option (\<lambda>c. s\<lparr>uctx := (uctx s)(a \<mapsto> f c)\<rparr>) (uctx_at s a)"

definition upd_ushm :: "addr \<Rightarrow> (TEEC_SharedMemory \<Rightarrow> TEEC_SharedMemory) \<Rightarrow> 'w api \<Rightarrow> 'w api option" where
  "upd_ushm a f s = map_option (\<lambda>c. s\<lparr>ushm := (ushm s)(a \<mapsto> f c)\<rparr>) (ushm_at s a)"

text \<open>A call that only changes the world.\<close>

definition call :: "('w \<Rightarrow> 'a \<times> 'w) \<Rightarrow> 'w api \<Rightarrow> 'a \<times> 'w api" where
  "call f s = (let (r, w) = f (world s) in (r, s\<lparr>world := w\<rparr>))"

text \<open>\<open>malloc\<close> of a buffer of \<open>n\<close> bytes, and \<open>free\<close> of one.\<close>

text \<open>A block that \<open>malloc\<close> returns: its bytes are not specified.\<close>

definition raw_block :: "'w os \<Rightarrow> addr \<Rightarrow> nat \<Rightarrow> u8 list" where
  "raw_block os a n = map (os_fill os a) [0..<n]"

lemma length_raw_block [simp]: "length (raw_block os a n) = n"
  by (simp add: raw_block_def)

definition malloc_buf :: "'w os \<Rightarrow> nat \<Rightarrow> 'w api \<Rightarrow> addr \<times> 'w api" where
  "malloc_buf os n s =
     (let (a, s) = call (os_malloc os (live s) n) s
      in if a = NULL then (NULL, s) else (a, s\<lparr>bufs := (bufs s)(a \<mapsto> raw_block os a n)\<rparr>))"

definition free_buf :: "addr \<Rightarrow> 'w api \<Rightarrow> 'w api option" where
  "free_buf a s =
     (if a = NULL then Some s
      else if bufs s a = None then None
      else Some (s\<lparr>bufs := (bufs s)(a := None)\<rparr>))"

section \<open>Mutexes\<close>

text \<open>The context a mutex is a field of, if any: locking it touches that structure.\<close>

fun lock_owner :: "lock \<Rightarrow> addr option" where
  "lock_owner (SessionLock c) = Some c"
| "lock_owner (ShrMemLock c) = Some c"
| "lock_owner (ShrMemBitMapLock c) = Some c"
| "lock_owner _ = None"

definition lock_there :: "lock \<Rightarrow> 'w api \<Rightarrow> bool" where
  "lock_there l s \<longleftrightarrow> (case lock_owner l of None \<Rightarrow> True | Some c \<Rightarrow> ctx_at s c \<noteq> None)"

definition pthread_mutex_lock :: "'w os \<Rightarrow> lock \<Rightarrow> 'w api \<Rightarrow> (int \<times> 'w api) option" where
  "pthread_mutex_lock os l s =
     (let (r, w) = os_mutex_lock os l (world s)
      in if \<not> lock_there l s then None
         else if r \<noteq> 0 then Some (r, s\<lparr>world := w\<rparr>)
         else if l \<in> held s then None
         else Some (r, s\<lparr>world := w, held := insert l (held s)\<rparr>))"

definition pthread_mutex_unlock :: "lock \<Rightarrow> 'w api \<Rightarrow> 'w api option" where
  "pthread_mutex_unlock l s =
     (if lock_there l s then Some (s\<lparr>held := held s - {l}\<rparr>) else None)"

section \<open>Rules\<close>

text \<open>Normal form of updated states: the fields in the order of their declaration.\<close>

lemma update_order [simp]:
  "s\<lparr>shms := y1, ctxs := x0\<rparr> = s\<lparr>ctxs := x0, shms := y1\<rparr>"
  "s\<lparr>sess := y2, ctxs := x0\<rparr> = s\<lparr>ctxs := x0, sess := y2\<rparr>"
  "s\<lparr>sess := y2, shms := x1\<rparr> = s\<lparr>shms := x1, sess := y2\<rparr>"
  "s\<lparr>uctx := y3, ctxs := x0\<rparr> = s\<lparr>ctxs := x0, uctx := y3\<rparr>"
  "s\<lparr>uctx := y3, shms := x1\<rparr> = s\<lparr>shms := x1, uctx := y3\<rparr>"
  "s\<lparr>uctx := y3, sess := x2\<rparr> = s\<lparr>sess := x2, uctx := y3\<rparr>"
  "s\<lparr>ushm := y4, ctxs := x0\<rparr> = s\<lparr>ctxs := x0, ushm := y4\<rparr>"
  "s\<lparr>ushm := y4, shms := x1\<rparr> = s\<lparr>shms := x1, ushm := y4\<rparr>"
  "s\<lparr>ushm := y4, sess := x2\<rparr> = s\<lparr>sess := x2, ushm := y4\<rparr>"
  "s\<lparr>ushm := y4, uctx := x3\<rparr> = s\<lparr>uctx := x3, ushm := y4\<rparr>"
  "s\<lparr>bufs := y5, ctxs := x0\<rparr> = s\<lparr>ctxs := x0, bufs := y5\<rparr>"
  "s\<lparr>bufs := y5, shms := x1\<rparr> = s\<lparr>shms := x1, bufs := y5\<rparr>"
  "s\<lparr>bufs := y5, sess := x2\<rparr> = s\<lparr>sess := x2, bufs := y5\<rparr>"
  "s\<lparr>bufs := y5, uctx := x3\<rparr> = s\<lparr>uctx := x3, bufs := y5\<rparr>"
  "s\<lparr>bufs := y5, ushm := x4\<rparr> = s\<lparr>ushm := x4, bufs := y5\<rparr>"
  "s\<lparr>maps := y6, ctxs := x0\<rparr> = s\<lparr>ctxs := x0, maps := y6\<rparr>"
  "s\<lparr>maps := y6, shms := x1\<rparr> = s\<lparr>shms := x1, maps := y6\<rparr>"
  "s\<lparr>maps := y6, sess := x2\<rparr> = s\<lparr>sess := x2, maps := y6\<rparr>"
  "s\<lparr>maps := y6, uctx := x3\<rparr> = s\<lparr>uctx := x3, maps := y6\<rparr>"
  "s\<lparr>maps := y6, ushm := x4\<rparr> = s\<lparr>ushm := x4, maps := y6\<rparr>"
  "s\<lparr>maps := y6, bufs := x5\<rparr> = s\<lparr>bufs := x5, maps := y6\<rparr>"
  "s\<lparr>ctx_list := y7, ctxs := x0\<rparr> = s\<lparr>ctxs := x0, ctx_list := y7\<rparr>"
  "s\<lparr>ctx_list := y7, shms := x1\<rparr> = s\<lparr>shms := x1, ctx_list := y7\<rparr>"
  "s\<lparr>ctx_list := y7, sess := x2\<rparr> = s\<lparr>sess := x2, ctx_list := y7\<rparr>"
  "s\<lparr>ctx_list := y7, uctx := x3\<rparr> = s\<lparr>uctx := x3, ctx_list := y7\<rparr>"
  "s\<lparr>ctx_list := y7, ushm := x4\<rparr> = s\<lparr>ushm := x4, ctx_list := y7\<rparr>"
  "s\<lparr>ctx_list := y7, bufs := x5\<rparr> = s\<lparr>bufs := x5, ctx_list := y7\<rparr>"
  "s\<lparr>ctx_list := y7, maps := x6\<rparr> = s\<lparr>maps := x6, ctx_list := y7\<rparr>"
  "s\<lparr>held := y8, ctxs := x0\<rparr> = s\<lparr>ctxs := x0, held := y8\<rparr>"
  "s\<lparr>held := y8, shms := x1\<rparr> = s\<lparr>shms := x1, held := y8\<rparr>"
  "s\<lparr>held := y8, sess := x2\<rparr> = s\<lparr>sess := x2, held := y8\<rparr>"
  "s\<lparr>held := y8, uctx := x3\<rparr> = s\<lparr>uctx := x3, held := y8\<rparr>"
  "s\<lparr>held := y8, ushm := x4\<rparr> = s\<lparr>ushm := x4, held := y8\<rparr>"
  "s\<lparr>held := y8, bufs := x5\<rparr> = s\<lparr>bufs := x5, held := y8\<rparr>"
  "s\<lparr>held := y8, maps := x6\<rparr> = s\<lparr>maps := x6, held := y8\<rparr>"
  "s\<lparr>held := y8, ctx_list := x7\<rparr> = s\<lparr>ctx_list := x7, held := y8\<rparr>"
  "s\<lparr>world := y9, ctxs := x0\<rparr> = s\<lparr>ctxs := x0, world := y9\<rparr>"
  "s\<lparr>world := y9, shms := x1\<rparr> = s\<lparr>shms := x1, world := y9\<rparr>"
  "s\<lparr>world := y9, sess := x2\<rparr> = s\<lparr>sess := x2, world := y9\<rparr>"
  "s\<lparr>world := y9, uctx := x3\<rparr> = s\<lparr>uctx := x3, world := y9\<rparr>"
  "s\<lparr>world := y9, ushm := x4\<rparr> = s\<lparr>ushm := x4, world := y9\<rparr>"
  "s\<lparr>world := y9, bufs := x5\<rparr> = s\<lparr>bufs := x5, world := y9\<rparr>"
  "s\<lparr>world := y9, maps := x6\<rparr> = s\<lparr>maps := x6, world := y9\<rparr>"
  "s\<lparr>world := y9, ctx_list := x7\<rparr> = s\<lparr>ctx_list := x7, world := y9\<rparr>"
  "s\<lparr>world := y9, held := x8\<rparr> = s\<lparr>held := x8, world := y9\<rparr>"
  by simp_all

lemma live_world [simp]: "live (s\<lparr>world := w\<rparr>) = live s"
  by (simp add: live_def fun_eq_iff)

text \<open>Looking through a pointer sees only the field for its type.\<close>

lemma at_frame [simp]:
  "ctx_at (s\<lparr>shms := x_shms\<rparr>) = ctx_at s"
  "ctx_at (s\<lparr>sess := x_sess\<rparr>) = ctx_at s"
  "ctx_at (s\<lparr>uctx := x_uctx\<rparr>) = ctx_at s"
  "ctx_at (s\<lparr>ushm := x_ushm\<rparr>) = ctx_at s"
  "ctx_at (s\<lparr>bufs := x_bufs\<rparr>) = ctx_at s"
  "ctx_at (s\<lparr>maps := x_maps\<rparr>) = ctx_at s"
  "ctx_at (s\<lparr>ctx_list := x_ctx_list\<rparr>) = ctx_at s"
  "ctx_at (s\<lparr>held := x_held\<rparr>) = ctx_at s"
  "ctx_at (s\<lparr>world := x_world\<rparr>) = ctx_at s"
  "shm_at (s\<lparr>ctxs := x_ctxs\<rparr>) = shm_at s"
  "shm_at (s\<lparr>sess := x_sess\<rparr>) = shm_at s"
  "shm_at (s\<lparr>uctx := x_uctx\<rparr>) = shm_at s"
  "shm_at (s\<lparr>ushm := x_ushm\<rparr>) = shm_at s"
  "shm_at (s\<lparr>bufs := x_bufs\<rparr>) = shm_at s"
  "shm_at (s\<lparr>maps := x_maps\<rparr>) = shm_at s"
  "shm_at (s\<lparr>ctx_list := x_ctx_list\<rparr>) = shm_at s"
  "shm_at (s\<lparr>held := x_held\<rparr>) = shm_at s"
  "shm_at (s\<lparr>world := x_world\<rparr>) = shm_at s"
  "sess_at (s\<lparr>ctxs := x_ctxs\<rparr>) = sess_at s"
  "sess_at (s\<lparr>shms := x_shms\<rparr>) = sess_at s"
  "sess_at (s\<lparr>uctx := x_uctx\<rparr>) = sess_at s"
  "sess_at (s\<lparr>ushm := x_ushm\<rparr>) = sess_at s"
  "sess_at (s\<lparr>bufs := x_bufs\<rparr>) = sess_at s"
  "sess_at (s\<lparr>maps := x_maps\<rparr>) = sess_at s"
  "sess_at (s\<lparr>ctx_list := x_ctx_list\<rparr>) = sess_at s"
  "sess_at (s\<lparr>held := x_held\<rparr>) = sess_at s"
  "sess_at (s\<lparr>world := x_world\<rparr>) = sess_at s"
  "uctx_at (s\<lparr>ctxs := x_ctxs\<rparr>) = uctx_at s"
  "uctx_at (s\<lparr>shms := x_shms\<rparr>) = uctx_at s"
  "uctx_at (s\<lparr>sess := x_sess\<rparr>) = uctx_at s"
  "uctx_at (s\<lparr>ushm := x_ushm\<rparr>) = uctx_at s"
  "uctx_at (s\<lparr>bufs := x_bufs\<rparr>) = uctx_at s"
  "uctx_at (s\<lparr>maps := x_maps\<rparr>) = uctx_at s"
  "uctx_at (s\<lparr>ctx_list := x_ctx_list\<rparr>) = uctx_at s"
  "uctx_at (s\<lparr>held := x_held\<rparr>) = uctx_at s"
  "uctx_at (s\<lparr>world := x_world\<rparr>) = uctx_at s"
  "ushm_at (s\<lparr>ctxs := x_ctxs\<rparr>) = ushm_at s"
  "ushm_at (s\<lparr>shms := x_shms\<rparr>) = ushm_at s"
  "ushm_at (s\<lparr>sess := x_sess\<rparr>) = ushm_at s"
  "ushm_at (s\<lparr>uctx := x_uctx\<rparr>) = ushm_at s"
  "ushm_at (s\<lparr>bufs := x_bufs\<rparr>) = ushm_at s"
  "ushm_at (s\<lparr>maps := x_maps\<rparr>) = ushm_at s"
  "ushm_at (s\<lparr>ctx_list := x_ctx_list\<rparr>) = ushm_at s"
  "ushm_at (s\<lparr>held := x_held\<rparr>) = ushm_at s"
  "ushm_at (s\<lparr>world := x_world\<rparr>) = ushm_at s"
  by (simp_all add: ctx_at_def shm_at_def sess_at_def uctx_at_def ushm_at_def fun_eq_iff)

lemma at_update [simp]:
  "ctx_at (s\<lparr>ctxs := m1\<rparr>) a = (if a = NULL then None else m1 a)"
  "shm_at (s\<lparr>shms := m2\<rparr>) a = (if a = NULL then None else m2 a)"
  "sess_at (s\<lparr>sess := m3\<rparr>) a = (if a = NULL then None else m3 a)"
  "uctx_at (s\<lparr>uctx := m4\<rparr>) a = (if a = NULL then None else m4 a)"
  "ushm_at (s\<lparr>ushm := m5\<rparr>) a = (if a = NULL then None else m5 a)"
  by (simp_all add: ctx_at_def shm_at_def sess_at_def uctx_at_def ushm_at_def)

lemma at_Some [simp]:
  "ctx_at s a = Some x1 \<Longrightarrow> upd_ctx a f1 s = Some (s\<lparr>ctxs := (ctxs s)(a \<mapsto> f1 x1)\<rparr>)"
  "shm_at s a = Some x2 \<Longrightarrow> upd_shm a f2 s = Some (s\<lparr>shms := (shms s)(a \<mapsto> f2 x2)\<rparr>)"
  "sess_at s a = Some x3 \<Longrightarrow> upd_sess a f3 s = Some (s\<lparr>sess := (sess s)(a \<mapsto> f3 x3)\<rparr>)"
  "uctx_at s a = Some x4 \<Longrightarrow> upd_uctx a f4 s = Some (s\<lparr>uctx := (uctx s)(a \<mapsto> f4 x4)\<rparr>)"
  "ushm_at s a = Some x5 \<Longrightarrow> upd_ushm a f5 s = Some (s\<lparr>ushm := (ushm s)(a \<mapsto> f5 x5)\<rparr>)"
  by (simp_all add: upd_ctx_def upd_shm_def upd_sess_def upd_uctx_def upd_ushm_def)

lemma at_map:
  "ctx_at s a = Some x1 \<Longrightarrow> ctxs s a = Some x1 \<and> a \<noteq> NULL"
  "shm_at s a = Some x2 \<Longrightarrow> shms s a = Some x2 \<and> a \<noteq> NULL"
  "sess_at s a = Some x3 \<Longrightarrow> sess s a = Some x3 \<and> a \<noteq> NULL"
  by (auto simp: ctx_at_def shm_at_def sess_at_def split: if_splits)

lemma lock_there_frame [simp]:
  "lock_there l (s\<lparr>world := w\<rparr>) = lock_there l s" "lock_there l (s\<lparr>held := L\<rparr>) = lock_there l s"
  by (simp_all add: lock_there_def split: option.splits)

lemma lock_there_context [simp]:
  "lock_there (SessionLock c) s \<longleftrightarrow> ctx_at s c \<noteq> None"
  "lock_there (ShrMemLock c) s \<longleftrightarrow> ctx_at s c \<noteq> None"
  "lock_there (ShrMemBitMapLock c) s \<longleftrightarrow> ctx_at s c \<noteq> None"
  "lock_there MutexWriteContextList s" "lock_there MutexReadContextList s"
  by (simp_all add: lock_there_def)

text \<open>
  Taking a free mutex either fails and changes only the world, or adds the mutex to those held;
  the rule asks for the continuation in both cases.
\<close>

lemma ok_mutex_lock:
  assumes "lock_there l s" and "l \<notin> held s"
    and "\<And>r w. r \<noteq> 0 \<Longrightarrow> Q (r, s\<lparr>world := w\<rparr>)"
    and "\<And>w. Q (0, s\<lparr>world := w, held := insert l (held s)\<rparr>)"
  shows "ok (pthread_mutex_lock os l s) Q"
  using assms by (cases "os_mutex_lock os l (world s)") (simp add: pthread_mutex_lock_def)

lemma ok_mutex_unlock [simp]:
  "ok (pthread_mutex_unlock l s) Q \<longleftrightarrow> lock_there l s \<and> Q (s\<lparr>held := held s - {l}\<rparr>)"
  by (auto simp: pthread_mutex_unlock_def)

text \<open>Two states that differ at most in the world.\<close>

definition same_mem :: "'w api \<Rightarrow> 'w api \<Rightarrow> bool" where
  "same_mem s s' \<longleftrightarrow> (\<exists>w. s' = s\<lparr>world := w\<rparr>)"

lemma same_mem_refl [simp]: "same_mem s s"
  unfolding same_mem_def by (rule exI [of _ "world s"]) simp

lemma same_mem_world [simp]: "same_mem s (s\<lparr>world := w\<rparr>)"
  by (auto simp: same_mem_def)

lemma same_mem_world_iff [simp]:
  "same_mem (s\<lparr>world := w\<rparr>) s' \<longleftrightarrow> same_mem s s'" "same_mem s (s'\<lparr>world := w\<rparr>) \<longleftrightarrow> same_mem s s'"
  by (auto simp: same_mem_def intro: api.equality) (metis api.surjective api.update_convs(10))

lemma same_mem_trans: "same_mem s s' \<Longrightarrow> same_mem s' s'' \<Longrightarrow> same_mem s s''"
  by (auto simp: same_mem_def)

lemma same_mem_call: "call f s = (r, s') \<Longrightarrow> same_mem s s'"
  by (auto simp: call_def split: prod.splits)

lemma same_mem_locked [simp]:
  "l \<notin> held s \<Longrightarrow> same_mem s (s\<lparr>world := w, held := held s - {l}\<rparr>)"
  unfolding same_mem_def by (rule exI [of _ w]) simp

lemma same_memE:
  assumes "same_mem s s'"
  obtains w where "s' = s\<lparr>world := w\<rparr>"
  using assms by (auto simp: same_mem_def)

text \<open>
  \<open>malloc\<close> returns null or the address of memory that is not in use; \<open>mmap\<close> likewise, and the
  mapping is never at the null page.
\<close>

definition malloc_ok :: "'w os \<Rightarrow> bool" where
  "malloc_ok os \<longleftrightarrow>
     (\<forall>used n w. fst (os_malloc os used n w) = NULL \<or> \<not> used (fst (os_malloc os used n w)))"

lemma malloc_bufE:
  assumes "malloc_ok os" and "malloc_buf os n s = (a, s')"
  obtains (fail) "a = NULL" and "same_mem s s'"
    | (alloc) w where "a \<noteq> NULL" and "\<not> live s a" and "s' = s\<lparr>bufs := (bufs s)(a \<mapsto> raw_block os a n), world := w\<rparr>"
proof -
  obtain b w where call: "os_malloc os (live s) n (world s) = (b, w)" by fastforce
  with assms(1) have b: "b = NULL \<or> \<not> live s b" by (metis malloc_ok_def fst_conv)
  show ?thesis
  proof (cases "b = NULL")
    case True
    with assms(2) call show ?thesis by (intro fail) (auto simp: malloc_buf_def call_def)
  next
    case False
    with assms(2) call b show ?thesis by (intro alloc [of w]) (auto simp: malloc_buf_def call_def)
  qed
qed

lemma not_live_bufs: "\<not> live s a \<Longrightarrow> bufs s a = None"
  by (simp add: live_def)

lemma free_buf_fresh:
  assumes "a \<noteq> NULL" and "bufs s a = None"
  shows "free_buf a (s\<lparr>bufs := (bufs s)(a \<mapsto> v), world := w\<rparr>) = Some (s\<lparr>world := w\<rparr>)"
proof -
  have "(bufs s)(a := None) = bufs s" using assms(2) by auto
  then show ?thesis using assms(1) by (simp add: free_buf_def)
qed

lemma call_pair: "call f s = (fst (f (world s)), s\<lparr>world := snd (f (world s))\<rparr>)"
  by (simp add: call_def case_prod_beta)

lemma callE:
  obtains r w where "call f s = (r, s\<lparr>world := w\<rparr>)" and "f (world s) = (r, w)"
  by (cases "f (world s)") (simp add: call_def)

end
