(* ===== verification/Api_Sim.thy ===== *)
theory Api_Sim
  imports Api_Types
begin

text \<open>
  A concrete environment for the client library, with which the properties are evaluated: every
  call succeeds, the allocators hand out fresh pages one after the other, descriptors are
  numbered upwards and recorded while they are open, the driver answers every request with
  success, and no file exists.
\<close>

record sim =
  sim_pages :: nat
  sim_next_fd :: nat
  sim_fds :: "int list"

definition sim_page :: "addr \<Rightarrow> (addr \<Rightarrow> bool) \<Rightarrow> sim \<Rightarrow> addr \<times> sim" where
  "sim_page failed used w =
     (let a = 0x10000 + 0x1000 * of_nat (sim_pages w)
      in (if used a then failed else a, w\<lparr>sim_pages := Suc (sim_pages w)\<rparr>))"

text \<open>Descriptors above every open one.\<close>

definition sim_open :: "sim \<Rightarrow> int \<times> sim" where
  "sim_open w =
     (let fd = foldr max (sim_fds w) (int (sim_next_fd w)) + 1
      in (fd, w\<lparr>sim_fds := fd # sim_fds w\<rparr>))"

definition sim_recv :: "sim \<Rightarrow> (int \<times> int \<times> cmsg list) \<times> sim" where
  "sim_recv w = (let (fd, w) = sim_open w in ((1, 0, [\<lparr>cm_rights = True, cm_data = fd\<rparr>]), w))"

definition sim_os :: "sim os" where
  "sim_os = \<lparr>
     os_mutex_lock = \<lambda>l w. (0, w),
     os_malloc = \<lambda>used n. sim_page NULL used,
     os_fill = \<lambda>a i. 0,
     os_memset_s = \<lambda>w. (0, w),
     os_memcpy_s = \<lambda>w. (0, w),
     os_strncpy_s = \<lambda>w. (0, w),
     os_snprintf_s = \<lambda>n t w. ((int (length t), t), w),
     os_mmap = \<lambda>used n fd off. sim_page MAP_FAILED used,
     os_munmap = \<lambda>a n w. (0, w),
     os_close = \<lambda>fd w. w\<lparr>sim_fds := removeAll fd (sim_fds w)\<rparr>,
     os_ioctl = \<lambda>fd req cli w. ((0, cli\<lparr>cc_session_id := 7\<rparr>), w),
     os_ioctl_load = \<lambda>fd arg w. (0, w),
     os_ioctl_register = \<lambda>fd i n w. ((0, 0x8000), w),
     os_ioctl_agent = \<lambda>fd req i w. (0, w),
     os_errno = \<lambda>w. 0,
     os_usleep = \<lambda>n w. w,
     os_nanosleep = \<lambda>n w. w,
     os_pagesize = 4096,
     os_realpath = \<lambda>p w. (None, w),
     os_fopen = \<lambda>p w. (NULL, w),
     os_fclose = \<lambda>fp w. w,
     os_fread = \<lambda>fp n w. ([], w),
     os_fseek = \<lambda>fp n k w. (0, w),
     os_ftell = \<lambda>fp w. (0, w),
     os_socket = sim_open,
     os_connect = \<lambda>fd w. (0, w),
     os_sendmsg = \<lambda>fd m w. (1, w),
     os_recvmsg = \<lambda>fd. sim_recv\<rparr>"

definition empty_api :: "sim api" where
  "empty_api = \<lparr>ctxs = Map.empty, shms = Map.empty, sess = Map.empty, uctx = Map.empty,
     ushm = Map.empty, bufs = Map.empty, maps = Map.empty, ctx_list = [], held = {},
     world = \<lparr>sim_pages = 0, sim_next_fd = 2, sim_fds = []\<rparr>\<rparr>"

lemma sim_open_fresh:
  "fd \<in> set (sim_fds w) \<Longrightarrow> fd < fst (sim_open w)" "0 \<le> fst (sim_open w)"
  "set (sim_fds (snd (sim_open w))) = insert (fst (sim_open w)) (set (sim_fds w))"
proof -
  have "fd \<in> set xs \<Longrightarrow> fd \<le> foldr max xs n" "n \<le> foldr max xs n" for xs and fd n :: int
    by (induction xs) auto
  from this(1) [of fd "sim_fds w" "int (sim_next_fd w)"] this(2) [of "int (sim_next_fd w)" "sim_fds w"]
  show "fd \<in> set (sim_fds w) \<Longrightarrow> fd < fst (sim_open w)" "0 \<le> fst (sim_open w)"
    by (auto simp: sim_open_def Let_def)
  show "set (sim_fds (snd (sim_open w))) = insert (fst (sim_open w)) (set (sim_fds w))"
    by (simp add: sim_open_def Let_def)
qed

lemma sim_malloc_ok: "malloc_ok sim_os"
  by (auto simp: malloc_ok_def sim_os_def sim_page_def Let_def)

end
