(* ===== verification/Api_Param.thy ===== *)
theory Api_Param
  imports Api_Sim
begin

unbundle bit_operations_syntax

text \<open>
  Parameters of an operation: the checks of \<open>TEEC_CheckOperation\<close> and the encoding
  of \<open>TEEC_Encode\<close> into the structure that the driver receives
  (\<open>src/frameworks/libteec_vendor/tee_client_api.c\<close>).
\<close>

section \<open>Return codes and parameter types\<close>

definition TranslateRetValue :: "int \<Rightarrow> TEEC_Result" where
  "TranslateRetValue ret =
     (if ret = - EFAULT then TEEC_ERROR_ACCESS_DENIED
      else if ret = - ENOMEM then TEEC_ERROR_OUT_OF_MEMORY
      else if ret = - EINVAL then TEEC_ERROR_BAD_PARAMETERS
      else TEEC_ERROR_GENERIC)"

definition TranslateParamType :: "u32 \<Rightarrow> u32" where
  "TranslateParamType flag =
     (if flag = TEEC_MEM_INPUT then TEEC_MEMREF_PARTIAL_INPUT
      else if flag = TEEC_MEM_OUTPUT then TEEC_MEMREF_PARTIAL_OUTPUT
      else if flag = TEEC_MEM_INOUT then TEEC_MEMREF_PARTIAL_INOUT
      else TEEC_MEMREF_PARTIAL_INOUT)"

definition TEEC_PARAM_TYPE_GET :: "u32 \<Rightarrow> nat \<Rightarrow> u32" where
  "TEEC_PARAM_TYPE_GET paramTypes index = drop_bit (4 * index) paramTypes AND 15"

definition TEEC_PARAM_TYPES :: "u32 \<Rightarrow> u32 \<Rightarrow> u32 \<Rightarrow> u32 \<Rightarrow> u32" where
  "TEEC_PARAM_TYPES t0 t1 t2 t3 = push_bit 12 t3 OR push_bit 8 t2 OR push_bit 4 t1 OR t0"

section \<open>Encoding\<close>

text \<open>Low and high half of an address, and the address of \<open>operation->params[i]\<close> and of its members.\<close>

definition lo32 :: "addr \<Rightarrow> u32" where "lo32 a = ucast a"
definition hi32 :: "addr \<Rightarrow> u32" where "hi32 a = ucast (drop_bit 32 a)"

definition param_addr :: "addr \<Rightarrow> nat \<Rightarrow> addr" where
  "param_addr opa i = opa + 8 + 16 * of_nat i"

definition TEEC_EncodeTempParam :: "addr \<Rightarrow> TEEC_Parameter \<Rightarrow> TC_NS_ClientParam" where
  "TEEC_EncodeTempParam pa p =
     MemrefParam (lo32 (tmpref_buffer p)) (hi32 (tmpref_buffer p)) 0 (lo32 (pa + 8)) (hi32 (pa + 8))"

definition TEEC_EncodePartialParam ::
  "'w api \<Rightarrow> u32 \<Rightarrow> addr \<Rightarrow> TEEC_Parameter \<Rightarrow> (TEEC_Parameter \<times> TC_NS_ClientParam) option" where
  "TEEC_EncodePartialParam s paramType pa p = do {
     parent \<leftarrow> ushm_at s (memref_parent p);
     let offset = (if paramType = TEEC_MEMREF_WHOLE then 0 else memref_offset p);
     let p' = (if paramType = TEEC_MEMREF_WHOLE then p\<lparr>pd2 := sm_size parent\<rparr> else p);
     if sm_is_allocated parent
     then Some (p', MemrefParam (lo32 (sm_buffer parent)) (hi32 (sm_buffer parent)) offset
                      (lo32 (pa + 8)) (hi32 (pa + 8)))
     else let b = sm_buffer parent + ucast (memref_offset p)
          in Some (p', MemrefParam (lo32 b) (hi32 b) 0 (lo32 (pa + 8)) (hi32 (pa + 8)))
   }"

definition TEEC_EncodeValueParam :: "addr \<Rightarrow> TC_NS_ClientParam" where
  "TEEC_EncodeValueParam pa = ValueParam (lo32 pa) (hi32 pa) (lo32 (pa + 4)) (hi32 (pa + 4))"

definition TEEC_EncodeIonParam :: "addr \<Rightarrow> TC_NS_ClientParam" where
  "TEEC_EncodeIonParam pa = ValueParam (lo32 pa) (hi32 pa) (lo32 (pa + 4)) (hi32 (pa + 4))"

text \<open>One round of the loop of \<open>TEEC_EncodeParam\<close>: the parameter, its encoding and its type for the driver.\<close>

definition encode_one ::
  "'w api \<Rightarrow> addr \<Rightarrow> u32 \<Rightarrow> nat \<Rightarrow> TEEC_Parameter \<Rightarrow>
     (TEEC_Parameter \<times> TC_NS_ClientParam \<times> u32) option" where
  "encode_one s opa paramTypes i p =
     (let t = TEEC_PARAM_TYPE_GET paramTypes i;
          pa = param_addr opa i;
          checkValue = (t = TEEC_ION_INPUT \<or> t = TEEC_ION_SGLIST_INPUT);
          diff = TEEC_MEMREF_PARTIAL_INPUT - TEEC_MEMREF_TEMP_INPUT
      in if IS_TEMP_MEM t then Some (p, TEEC_EncodeTempParam pa p, t)
         else if IS_PARTIAL_MEM t \<or> IS_SHARED_MEM t then do {
           (p', cp) \<leftarrow> TEEC_EncodePartialParam s t pa p;
           parent \<leftarrow> ushm_at s (memref_parent p');
           let t' = (if t = TEEC_MEMREF_WHOLE then TranslateParamType (sm_flags parent) else t);
           Some (p', cp, if \<not> sm_is_allocated parent then t' - diff else t')
         }
         else if IS_VALUE_MEM t then Some (p, TEEC_EncodeValueParam pa, t)
         else if checkValue then Some (p, TEEC_EncodeIonParam pa, t)
         else Some (p, NoParam, t))"

fun encode_from ::
  "'w api \<Rightarrow> addr \<Rightarrow> TEEC_Operation \<Rightarrow> nat list \<Rightarrow>
     (TEEC_Parameter \<times> TC_NS_ClientParam \<times> u32) list option" where
  "encode_from s opa op [] = Some []"
| "encode_from s opa op (i # is) = do {
     p \<leftarrow> arr_get (op_params op) i;
     r \<leftarrow> encode_one s opa (op_paramTypes op) i p;
     rs \<leftarrow> encode_from s opa op is;
     Some (r # rs)
   }"

definition TEEC_EncodeParam ::
  "'w api \<Rightarrow> TC_NS_ClientContext \<Rightarrow> addr \<Rightarrow> TEEC_Operation \<Rightarrow>
     (TC_NS_ClientContext \<times> TEEC_Operation) option" where
  "TEEC_EncodeParam s cli opa op = do {
     rs \<leftarrow> encode_from s opa op [0..<TEEC_PARAM_NUM];
     let ts = map (\<lambda>(p, cp, t). t) rs;
     Some (cli\<lparr>cc_params := map (\<lambda>(p, cp, t). cp) rs,
               cc_paramTypes := TEEC_PARAM_TYPES (ts ! 0) (ts ! 1) (ts ! 2) (ts ! 3)\<rparr>,
           op\<lparr>op_params := map (\<lambda>(p, cp, t). p) rs\<rparr>)
   }"

text \<open>The 16 bytes of a \<open>TEEC_UUID\<close> in memory.\<close>

definition le_bytes :: "nat \<Rightarrow> u32 \<Rightarrow> u8 list" where
  "le_bytes n w = map (\<lambda>i. ucast (drop_bit (8 * i) w)) [0..<n]"

definition uuid_bytes :: "TEEC_UUID \<Rightarrow> u8 list" where
  "uuid_bytes u = le_bytes 4 (timeLow u) @ le_bytes 2 (ucast (timeMid u)) @
     le_bytes 2 (ucast (timeHiAndVersion u)) @ clockSeqAndNode u"

definition zero_cli :: TC_NS_ClientContext where
  "zero_cli = \<lparr>cc_uuid = replicate 16 0, cc_session_id = 0, cc_cmd_id = 0, cc_code = 0, cc_origin = 0,
     cc_login = \<lparr>lg_method = 0, lg_mdata = 0\<rparr>, cc_params = replicate TEEC_PARAM_NUM NoParam,
     cc_paramTypes = 0, cc_started = False, cc_callingPid = 0, cc_file_size = 0, cc_file_buffer = NULL\<rparr>"

definition TEEC_Encode ::
  "'w os \<Rightarrow> TC_NS_ClientContext \<Rightarrow> addr \<Rightarrow> u32 \<Rightarrow> TC_NS_ClientLogin \<Rightarrow> operation_ptr \<Rightarrow> 'w api \<Rightarrow>
     ((TEEC_Result \<times> TC_NS_ClientContext \<times> operation_ptr) \<times> 'w api) option" where
  "TEEC_Encode os cli session cmdId cliLogin operation s = do {
     let (rc, w) = os_memset_s os (world s);
     let s = s\<lparr>world := w\<rparr>;
     if rc \<noteq> EOK then Some ((TEEC_ERROR_BAD_PARAMETERS, cli, operation), s)
     else do {
       se \<leftarrow> sess_at s session;
       let cli = zero_cli\<lparr>cc_session_id := se_session_id se, cc_cmd_id := cmdId,
                          cc_code := 0, cc_origin := TEEC_ORIGIN_API, cc_login := cliLogin\<rparr>;
       let (rc, w) = os_memcpy_s os (world s);
       let s = s\<lparr>world := w\<rparr>;
       if rc \<noteq> EOK then Some ((TEEC_ERROR_BAD_PARAMETERS, cli, operation), s)
       else let cli = cli\<lparr>cc_uuid := uuid_bytes (se_service_id se)\<rparr>
            in case operation of
                 None \<Rightarrow> Some ((TEEC_SUCCESS, cli, operation), s)
               | Some (opa, op) \<Rightarrow>
                   if op_paramTypes op = 0 then Some ((TEEC_SUCCESS, cli, operation), s)
                   else do {
                     let cli = cli\<lparr>cc_started := op_cancel_flag op\<rparr>;
                     (cli, op) \<leftarrow> TEEC_EncodeParam s cli opa op;
                     Some ((TEEC_SUCCESS, cli, Some (opa, op)), s)
                   }
     }
   }"

section \<open>Checking\<close>

text \<open>\<open>LIST_FOR_EACH\<close> over the shared memories of a context, up to the first that satisfies \<open>P\<close>.\<close>

fun find_shm :: "'w api \<Rightarrow> (TEEC_SharedMemoryInner \<Rightarrow> bool) \<Rightarrow> addr list \<Rightarrow> addr option option" where
  "find_shm s P [] = Some None"
| "find_shm s P (a # as) = do {
     m \<leftarrow> shm_at s a;
     if P m then Some (Some a) else find_shm s P as
   }"

definition TEEC_CheckTmpRef :: "TEEC_Parameter \<Rightarrow> TEEC_Result" where
  "TEEC_CheckTmpRef p =
     (if tmpref_buffer p = NULL \<and> tmpref_size p \<noteq> 0 then TEEC_ERROR_BAD_PARAMETERS
      else if tmpref_buffer p \<noteq> NULL \<and> tmpref_size p = 0 then TEEC_ERROR_BAD_PARAMETERS
      else TEEC_SUCCESS)"

definition CheckSharedBufferExist ::
  "'w os \<Rightarrow> addr \<Rightarrow> TEEC_Parameter \<Rightarrow> 'w api \<Rightarrow> (bool \<times> 'w api) option" where
  "CheckSharedBufferExist os context p s =
     (if context = NULL then Some (False, s)
      else do {
        shm \<leftarrow> ushm_at s (memref_parent p);
        (lockRet, s) \<leftarrow> pthread_mutex_lock os (ShrMemLock context) s;
        if lockRet \<noteq> 0 then Some (False, s)
        else do {
          c \<leftarrow> ctx_at s context;
          r \<leftarrow> find_shm s (\<lambda>m. si_buffer m = sm_buffer shm) (ci_shrd_mem_list c);
          s \<leftarrow> pthread_mutex_unlock (ShrMemLock context) s;
          Some (r \<noteq> None, s)
        }
      })"

definition TEEC_CheckMemRef ::
  "'w os \<Rightarrow> addr \<Rightarrow> TEEC_Parameter \<Rightarrow> u32 \<Rightarrow> 'w api \<Rightarrow> (TEEC_Result \<times> 'w api) option" where
  "TEEC_CheckMemRef os context p t s =
     (if memref_parent p = NULL then Some (TEEC_ERROR_BAD_PARAMETERS, s)
      else do {
        parent \<leftarrow> ushm_at s (memref_parent p);
        if sm_buffer parent = NULL then Some (TEEC_ERROR_BAD_PARAMETERS, s)
        else if sm_size parent = 0 then Some (TEEC_ERROR_BAD_PARAMETERS, s)
        else if t = TEEC_MEMREF_PARTIAL_INPUT \<and> sm_flags parent AND TEEC_MEM_INPUT = 0
        then Some (TEEC_ERROR_BAD_PARAMETERS, s)
        else if t = TEEC_MEMREF_PARTIAL_OUTPUT \<and> sm_flags parent AND TEEC_MEM_OUTPUT = 0
        then Some (TEEC_ERROR_BAD_PARAMETERS, s)
        else if t = TEEC_MEMREF_PARTIAL_INOUT \<and>
                (sm_flags parent AND TEEC_MEM_INPUT = 0 \<or> sm_flags parent AND TEEC_MEM_OUTPUT = 0)
        then Some (TEEC_ERROR_BAD_PARAMETERS, s)
        else if (t = TEEC_MEMREF_PARTIAL_INPUT \<or> t = TEEC_MEMREF_PARTIAL_OUTPUT \<or>
                 t = TEEC_MEMREF_PARTIAL_INOUT) \<and>
                (sm_size parent < memref_size p \<or> sm_size parent - memref_size p < memref_offset p)
        then Some (TEEC_ERROR_BAD_PARAMETERS, s)
        else if sm_is_allocated parent
        then do {
          (found, s) \<leftarrow> CheckSharedBufferExist os context p s;
          Some (if \<not> found then TEEC_ERROR_BAD_PARAMETERS else TEEC_SUCCESS, s)
        }
        else Some (TEEC_SUCCESS, s)
      })"

text \<open>The body of the loop of \<open>TEEC_CheckOperation\<close> for one parameter.\<close>

definition check_one ::
  "'w os \<Rightarrow> addr \<Rightarrow> u32 \<Rightarrow> TEEC_Parameter \<Rightarrow> 'w api \<Rightarrow> (TEEC_Result \<times> 'w api) option" where
  "check_one os context t p s =
     (let checkValue = (t = TEEC_ION_INPUT \<or> t = TEEC_ION_SGLIST_INPUT)
      in if IS_TEMP_MEM t then Some (TEEC_CheckTmpRef p, s)
         else if IS_PARTIAL_MEM t then TEEC_CheckMemRef os context p t s
         else if IS_VALUE_MEM t then Some (TEEC_SUCCESS, s)
         else if checkValue then
           Some (if ion_share_fd p < 0 \<or> ion_size p = 0 then TEEC_ERROR_BAD_PARAMETERS
                 else TEEC_SUCCESS, s)
         else if t = TEEC_NONE \<or> t = TEEC_MEMREF_SHARED_INOUT then Some (TEEC_SUCCESS, s)
         else Some (TEEC_ERROR_BAD_PARAMETERS, s))"

fun check_from ::
  "'w os \<Rightarrow> addr \<Rightarrow> TEEC_Operation \<Rightarrow> nat list \<Rightarrow> 'w api \<Rightarrow> (TEEC_Result \<times> 'w api) option" where
  "check_from os context op [] s = Some (TEEC_SUCCESS, s)"
| "check_from os context op (i # is) s = do {
     p \<leftarrow> arr_get (op_params op) i;
     (ret, s) \<leftarrow> check_one os context (TEEC_PARAM_TYPE_GET (op_paramTypes op) i) p s;
     if ret \<noteq> TEEC_SUCCESS then Some (ret, s) else check_from os context op is s
   }"

definition TEEC_CheckOperation ::
  "'w os \<Rightarrow> addr \<Rightarrow> operation_ptr \<Rightarrow> 'w api \<Rightarrow> (TEEC_Result \<times> 'w api) option" where
  "TEEC_CheckOperation os context operation s =
     (case operation of
        None \<Rightarrow> Some (TEEC_SUCCESS, s)
      | Some (opa, op) \<Rightarrow>
          if op_started op = 0 then Some (TEEC_ERROR_NOT_IMPLEMENTED, s)
          else check_from os context op [0..<TEEC_PARAM_NUM] s)"

section \<open>What the checks promise\<close>

text \<open>
  \<open>param_ok\<close> is the reference condition on one parameter.  A temporary reference is null exactly
  if it is empty; a registered reference names a parent that can be read or written as asked,
  lies inside it, and, if the library allocated the parent, its buffer belongs to the context.
\<close>

definition shm_listed :: "'w api \<Rightarrow> addr \<Rightarrow> addr \<Rightarrow> bool" where
  "shm_listed s context b \<longleftrightarrow>
     (case ctx_at s context of None \<Rightarrow> False
      | Some c \<Rightarrow> list_ex (\<lambda>a. map_option si_buffer (shm_at s a) = Some b) (ci_shrd_mem_list c))"

definition memref_fits :: "'w api \<Rightarrow> addr \<Rightarrow> u32 \<Rightarrow> TEEC_Parameter \<Rightarrow> bool" where
  "memref_fits s context t p \<longleftrightarrow>
     (case ushm_at s (memref_parent p) of None \<Rightarrow> False
      | Some parent \<Rightarrow>
          sm_buffer parent \<noteq> NULL \<and> sm_size parent \<noteq> 0 \<and>
          (t \<noteq> TEEC_MEMREF_WHOLE \<longrightarrow>
             unat (memref_offset p) + unat (memref_size p) \<le> unat (sm_size parent)) \<and>
          (t = TEEC_MEMREF_PARTIAL_INPUT \<or> t = TEEC_MEMREF_PARTIAL_INOUT \<longrightarrow> bit (sm_flags parent) 0) \<and>
          (t = TEEC_MEMREF_PARTIAL_OUTPUT \<or> t = TEEC_MEMREF_PARTIAL_INOUT \<longrightarrow> bit (sm_flags parent) 1) \<and>
          (sm_is_allocated parent \<longrightarrow> shm_listed s context (sm_buffer parent)))"

definition param_ok :: "'w api \<Rightarrow> addr \<Rightarrow> u32 \<Rightarrow> TEEC_Parameter \<Rightarrow> bool" where
  "param_ok s context t p \<longleftrightarrow>
     (if IS_TEMP_MEM t then tmpref_buffer p = NULL \<longleftrightarrow> tmpref_size p = 0
      else if IS_PARTIAL_MEM t then memref_fits s context t p
      else if t = TEEC_ION_INPUT \<or> t = TEEC_ION_SGLIST_INPUT then 0 \<le> ion_share_fd p \<and> ion_size p \<noteq> 0
      else IS_VALUE_MEM t \<or> t = TEEC_NONE \<or> t = TEEC_MEMREF_SHARED_INOUT)"

definition operation_ok :: "'w api \<Rightarrow> addr \<Rightarrow> TEEC_Operation \<Rightarrow> bool" where
  "operation_ok s context op \<longleftrightarrow> op_started op \<noteq> 0 \<and>
     list_all (\<lambda>i. param_ok s context (TEEC_PARAM_TYPE_GET (op_paramTypes op) i) (op_params op ! i)) [0..<4]"

text \<open>
  What the caller and the library owe to the checks: the shared memories of the context and the
  parents of the references are allocated.  \<open>encodable\<close> is what the encoder needs.
\<close>

definition shm_mem :: "'w api \<Rightarrow> addr \<Rightarrow> bool" where
  "shm_mem s context \<longleftrightarrow>
     context = NULL \<or>
     (case ctx_at s context of None \<Rightarrow> False
      | Some c \<Rightarrow> list_all (\<lambda>a. shm_at s a \<noteq> None) (ci_shrd_mem_list c))"

definition parent_ok :: "'w api \<Rightarrow> u32 \<Rightarrow> TEEC_Parameter \<Rightarrow> bool" where
  "parent_ok s t p \<longleftrightarrow>
     (IS_PARTIAL_MEM t \<longrightarrow> memref_parent p = NULL \<or> ushm_at s (memref_parent p) \<noteq> None)"

definition parents_ok :: "'w api \<Rightarrow> TEEC_Operation \<Rightarrow> bool" where
  "parents_ok s op \<longleftrightarrow> length (op_params op) = 4 \<and>
     list_all (\<lambda>i. parent_ok s (TEEC_PARAM_TYPE_GET (op_paramTypes op) i) (op_params op ! i)) [0..<4]"

definition shared_parent_ok :: "'w api \<Rightarrow> TEEC_Operation \<Rightarrow> bool" where
  "shared_parent_ok s op \<longleftrightarrow>
     list_all (\<lambda>i. IS_SHARED_MEM (TEEC_PARAM_TYPE_GET (op_paramTypes op) i) \<longrightarrow>
                   ushm_at s (memref_parent (op_params op ! i)) \<noteq> None) [0..<4]"

definition encodable :: "'w api \<Rightarrow> TEEC_Operation \<Rightarrow> bool" where
  "encodable s op \<longleftrightarrow> length (op_params op) = 4 \<and>
     list_all (\<lambda>i. let t = TEEC_PARAM_TYPE_GET (op_paramTypes op) i
                   in IS_PARTIAL_MEM t \<or> IS_SHARED_MEM t \<longrightarrow>
                      ushm_at s (memref_parent (op_params op ! i)) \<noteq> None) [0..<4]"

text \<open>The locks that the library takes always succeed.\<close>

definition locks_ok :: "'w os \<Rightarrow> bool" where
  "locks_ok os \<longleftrightarrow> (\<forall>l w. fst (os_mutex_lock os l w) = 0)"

text \<open>An address from its halves, as the driver reads it, and the first byte that an encoded reference names.\<close>

definition join32 :: "u32 \<Rightarrow> u32 \<Rightarrow> addr" where
  "join32 h l = push_bit 32 (ucast h) OR ucast l"

definition memref_start :: "TC_NS_ClientParam \<Rightarrow> nat" where
  "memref_start cp = unat (join32 (cp_buffer_h cp) (cp_buffer cp)) + unat (cp_offset cp)"

section \<open>Lemmas\<close>

lemma TYPE_GET_take_bit: "TEEC_PARAM_TYPE_GET w i = take_bit 4 (drop_bit (4 * i) w)"
  by (simp add: TEEC_PARAM_TYPE_GET_def take_bit_eq_mask mask_eq_exp_minus_1)

lemma take_bit_4_small: "(t :: u32) < 16 \<Longrightarrow> take_bit 4 t = t"
  by (simp add: take_bit_eq_mod unat_arith_simps unat_mod) 

lemma bit_small: "(t :: u32) < 16 \<Longrightarrow> bit t n \<Longrightarrow> n < 4"
  using take_bit_4_small [of t] by (metis bit_take_bit_iff)

lemma bit_TYPES: "bit (TEEC_PARAM_TYPES t0 t1 t2 t3) n \<longleftrightarrow>
   n < 32 \<and> (12 \<le> n \<and> bit t3 (n - 12) \<or> 8 \<le> n \<and> bit t2 (n - 8) \<or> 4 \<le> n \<and> bit t1 (n - 4) \<or> bit t0 n)"
  unfolding TEEC_PARAM_TYPES_def bit_or_iff bit_push_bit_iff by (auto dest: bit_imp_le_length)

lemma TYPES_GET:
  assumes "t0 < 16" "t1 < 16" "t2 < 16" "t3 < 16" and "i < 4"
  shows "TEEC_PARAM_TYPE_GET (TEEC_PARAM_TYPES t0 t1 t2 t3) i = [t0, t1, t2, t3] ! i"
proof (rule bit_word_eqI)
  note b = bit_small [OF assms(1)] bit_small [OF assms(2)] bit_small [OF assms(3)] bit_small [OF assms(4)]
  fix n assume "n < LENGTH(32)"
  have "bit (TEEC_PARAM_TYPE_GET (TEEC_PARAM_TYPES t0 t1 t2 t3) i) n \<longleftrightarrow>
      n < 4 \<and> bit (TEEC_PARAM_TYPES t0 t1 t2 t3) (4 * i + n)"
    by (auto simp: TYPE_GET_take_bit bit_take_bit_iff bit_drop_bit_eq)
  also have "\<dots> \<longleftrightarrow> bit ([t0, t1, t2, t3] ! i) n"
  proof -
    consider "i = 0" | "i = 1" | "i = 2" | "i = 3" using \<open>i < 4\<close> by linarith
    then show ?thesis by cases (auto simp: bit_TYPES dest: b)
  qed
  finally show "bit (TEEC_PARAM_TYPE_GET (TEEC_PARAM_TYPES t0 t1 t2 t3) i) n \<longleftrightarrow> bit ([t0, t1, t2, t3] ! i) n" .
qed

lemma TYPE_GET_less: "TEEC_PARAM_TYPE_GET w i < 16"
  using take_bit_nat_less_exp [of 4 "unat (drop_bit (4 * i) w)"]
  by (simp add: TYPE_GET_take_bit word_less_nat_alt unsigned_take_bit_eq)

lemma find_shm_find:
  "(\<And>a. a \<in> set as \<Longrightarrow> shm_at s a \<noteq> None) \<Longrightarrow>
   find_shm s P as = Some (find (\<lambda>a. P (the (shm_at s a))) as)"
  by (induction as) fastforce+

lemma find_shm_frame [simp]:
  "find_shm (s\<lparr>world := w\<rparr>) P as = find_shm s P as" "find_shm (s\<lparr>held := L\<rparr>) P as = find_shm s P as"
  by (induction as) (auto split: bind_splits)

lemma CheckTmpRef_iff: "TEEC_CheckTmpRef p = TEEC_SUCCESS \<longleftrightarrow> (tmpref_buffer p = NULL \<longleftrightarrow> tmpref_size p = 0)"
  by (auto simp: TEEC_CheckTmpRef_def)

lemma param_ok_partial: "IS_PARTIAL_MEM t \<Longrightarrow> param_ok s context t p \<longleftrightarrow> memref_fits s context t p"
  by (auto simp: param_ok_def IS_TEMP_MEM_def IS_PARTIAL_MEM_def)

lemma flag_bits:
  "x AND 1 = 0 \<longleftrightarrow> \<not> bit (x :: u32) 0" "x AND 2 = 0 \<longleftrightarrow> \<not> bit (x :: u32) 1"
  using u32_and_exp_eq_0 [of 0 x] u32_and_exp_eq_0 [of 1 x] by simp_all

lemma size_check:
  "\<not> (sz < n \<or> sz - n < off) \<longleftrightarrow> unat off + unat n \<le> unat (sz :: u32)"
proof (cases "sz < n")
  case True
  then show ?thesis by (simp add: word_less_nat_alt)
next
  case False
  then have "unat (sz - n) = unat sz - unat n"
    by (simp add: unat_sub word_le_nat_alt word_less_nat_alt)
  with False show ?thesis by (simp add: word_less_nat_alt) linarith
qed

lemma CheckSharedBufferExist_spec:
  assumes "shm_mem s context" and "ushm_at s (memref_parent p) = Some u" and "ShrMemLock context \<notin> held s"
  shows "ok (CheckSharedBufferExist os context p s) (\<lambda>(found, s'). same_mem s s' \<and>
    (found \<longrightarrow> shm_listed s context (sm_buffer u)) \<and>
    (locks_ok os \<longrightarrow> shm_listed s context (sm_buffer u) \<longrightarrow> found))"
proof (cases "ctx_at s context")
  case None
  with assms(1) have "context = NULL" by (simp add: shm_mem_def)
  with None show ?thesis by (simp add: CheckSharedBufferExist_def shm_listed_def)
next
  case (Some c)
  then have nn: "context \<noteq> NULL" by (auto simp: ctx_at_def)
  from assms(1) Some nn have mem: "\<And>a. a \<in> set (ci_shrd_mem_list c) \<Longrightarrow> shm_at s a \<noteq> None"
    by (simp add: shm_mem_def list_all_iff)
  have listed: "shm_listed s context (sm_buffer u) \<longleftrightarrow>
      find (\<lambda>a. si_buffer (the (shm_at s a)) = sm_buffer u) (ci_shrd_mem_list c) \<noteq> None"
    using mem by (force simp: shm_listed_def Some list_ex_iff find_None_iff)
  obtain r w where rw: "os_mutex_lock os (ShrMemLock context) (world s) = (r, w)" by fastforce
  then have r: "locks_ok os \<Longrightarrow> r = 0" by (metis locks_ok_def fst_conv)
  show ?thesis
    using assms(2,3) nn Some rw r listed
    by (auto simp: CheckSharedBufferExist_def pthread_mutex_lock_def find_shm_find [OF mem])
qed


lemma CheckMemRef_spec:
  assumes "shm_mem s context" and "ShrMemLock context \<notin> held s"
    and "memref_parent p = NULL \<or> ushm_at s (memref_parent p) \<noteq> None" and "IS_PARTIAL_MEM t"
  shows "ok (TEEC_CheckMemRef os context p t s) (\<lambda>(r, s'). same_mem s s' \<and>
    (r = TEEC_SUCCESS \<longrightarrow> memref_fits s context t p) \<and>
    (locks_ok os \<longrightarrow> memref_fits s context t p \<longrightarrow> r = TEEC_SUCCESS))"
proof (cases "ushm_at s (memref_parent p)")
  case None
  with assms(3) show ?thesis by (simp add: TEEC_CheckMemRef_def memref_fits_def)
next
  case (Some u)
  then have nn: "memref_parent p \<noteq> NULL" by (auto simp: ushm_at_def)
  note spec = CheckSharedBufferExist_spec [OF assms(1) Some assms(2), of os]
  have pre: "ok (if sm_is_allocated u
      then do {
        (found, s) \<leftarrow> CheckSharedBufferExist os context p s;
        Some (if \<not> found then TEEC_ERROR_BAD_PARAMETERS else TEEC_SUCCESS, s)
      }
      else Some (TEEC_SUCCESS, s)) (\<lambda>(r, s'). same_mem s s' \<and>
        (r = TEEC_SUCCESS \<longrightarrow> sm_is_allocated u \<longrightarrow> shm_listed s context (sm_buffer u)) \<and>
        (locks_ok os \<longrightarrow> (sm_is_allocated u \<longrightarrow> shm_listed s context (sm_buffer u)) \<longrightarrow> r = TEEC_SUCCESS))"
    using spec by (auto elim!: ok_mono)
  show ?thesis
  proof (cases "sm_buffer u = NULL \<or> sm_size u = 0 \<or>
      (t \<noteq> TEEC_MEMREF_WHOLE \<and> (sm_size u < memref_size p \<or> sm_size u - memref_size p < memref_offset p)) \<or>
      ((t = TEEC_MEMREF_PARTIAL_INPUT \<or> t = TEEC_MEMREF_PARTIAL_INOUT) \<and> \<not> bit (sm_flags u) 0) \<or>
      ((t = TEEC_MEMREF_PARTIAL_OUTPUT \<or> t = TEEC_MEMREF_PARTIAL_INOUT) \<and> \<not> bit (sm_flags u) 1)")
    case True
    then have "\<not> memref_fits s context t p"
      using assms(4) size_check [of "sm_size u" "memref_size p" "memref_offset p"]
      by (auto simp: memref_fits_def Some)
    moreover from True assms(4) have "TEEC_CheckMemRef os context p t s = Some (TEEC_ERROR_BAD_PARAMETERS, s)"
      by (auto simp: TEEC_CheckMemRef_def Some nn flag_bits IS_PARTIAL_MEM_def)
    ultimately show ?thesis by simp
  next
    case False
    then have "memref_fits s context t p \<longleftrightarrow> (sm_is_allocated u \<longrightarrow> shm_listed s context (sm_buffer u))"
      using assms(4) size_check [of "sm_size u" "memref_size p" "memref_offset p"]
      by (auto simp: memref_fits_def Some)
    with False pre assms(4) show ?thesis
      by (auto simp: TEEC_CheckMemRef_def Some nn flag_bits elim!: ok_mono)
  qed
qed

lemma check_one_spec:
  assumes "shm_mem s context" and "ShrMemLock context \<notin> held s" and "parent_ok s t p"
  shows "ok (check_one os context t p s) (\<lambda>(r, s'). same_mem s s' \<and>
    (r = TEEC_SUCCESS \<longrightarrow> param_ok s context t p) \<and>
    (locks_ok os \<longrightarrow> param_ok s context t p \<longrightarrow> r = TEEC_SUCCESS))"
proof (cases "IS_PARTIAL_MEM t")
  case True
  moreover from True have "\<not> IS_TEMP_MEM t" by (auto simp: IS_PARTIAL_MEM_def IS_TEMP_MEM_def)
  ultimately show ?thesis
    using CheckMemRef_spec [OF assms(1,2) _ True, of p os] assms(3)
    by (simp add: check_one_def param_ok_def parent_ok_def)
next
  case False
  have disj: "\<not> (IS_VALUE_MEM t \<and> (IS_TEMP_MEM t \<or> t = TEEC_ION_INPUT \<or> t = TEEC_ION_SGLIST_INPUT))"
    by (auto simp: IS_VALUE_MEM_def IS_TEMP_MEM_def)
  with False show ?thesis
    by (auto simp: check_one_def param_ok_def CheckTmpRef_iff not_le)
qed

lemma spec_world [simp]:
  "shm_mem (s\<lparr>world := w\<rparr>) = shm_mem s" "shm_listed (s\<lparr>world := w\<rparr>) = shm_listed s"
  "parent_ok (s\<lparr>world := w\<rparr>) = parent_ok s"
  by (intro ext; simp add: shm_mem_def shm_listed_def parent_ok_def cong: option.case_cong)+

lemma memref_fits_world [simp]: "memref_fits (s\<lparr>world := w\<rparr>) = memref_fits s"
  by (intro ext) (simp add: memref_fits_def cong: option.case_cong)

lemma param_ok_world [simp]: "param_ok (s\<lparr>world := w\<rparr>) = param_ok s"
  by (intro ext) (simp add: param_ok_def)

lemma same_mem_frame:
  assumes "same_mem s s'"
  shows "shm_mem s' = shm_mem s" "held s' = held s" "parent_ok s' = parent_ok s" "param_ok s' = param_ok s"
    "ushm_at s' = ushm_at s" "ctx_at s' = ctx_at s" "sess_at s' = sess_at s"
  using assms by (auto elim!: same_memE)

lemma check_from_spec:
  assumes "shm_mem s context" and "ShrMemLock context \<notin> held s"
    and "\<And>i. i \<in> set is \<Longrightarrow> i < length (op_params op)"
    and "\<And>i. i \<in> set is \<Longrightarrow> parent_ok s (TEEC_PARAM_TYPE_GET (op_paramTypes op) i) (op_params op ! i)"
  shows "ok (check_from os context op is s) (\<lambda>(r, s'). same_mem s s' \<and>
    (r = TEEC_SUCCESS \<longrightarrow>
       (\<forall>i \<in> set is. param_ok s context (TEEC_PARAM_TYPE_GET (op_paramTypes op) i) (op_params op ! i))) \<and>
    (locks_ok os \<longrightarrow>
       (\<forall>i \<in> set is. param_ok s context (TEEC_PARAM_TYPE_GET (op_paramTypes op) i) (op_params op ! i)) \<longrightarrow>
       r = TEEC_SUCCESS))"
  using assms
proof (induction "is" arbitrary: s)
  case Nil
  then show ?case by simp
next
  case (Cons i "is")
  let ?t = "TEEC_PARAM_TYPE_GET (op_paramTypes op) i" and ?p = "op_params op ! i"
  obtain r s1 where one: "check_one os context ?t ?p s = Some (r, s1)" and same: "same_mem s s1"
    and sound: "r = TEEC_SUCCESS \<Longrightarrow> param_ok s context ?t ?p"
    and complete: "locks_ok os \<Longrightarrow> param_ok s context ?t ?p \<Longrightarrow> r = TEEC_SUCCESS"
    using check_one_spec [OF Cons.prems(1,2), of ?t ?p os] Cons.prems(4) by (auto simp: ok_iff)
  note fr = same_mem_frame [OF same]
  have rest: "ok (check_from os context op is s1) (\<lambda>(r, s'). same_mem s1 s' \<and>
    (r = TEEC_SUCCESS \<longrightarrow>
       (\<forall>i \<in> set is. param_ok s context (TEEC_PARAM_TYPE_GET (op_paramTypes op) i) (op_params op ! i))) \<and>
    (locks_ok os \<longrightarrow>
       (\<forall>i \<in> set is. param_ok s context (TEEC_PARAM_TYPE_GET (op_paramTypes op) i) (op_params op ! i)) \<longrightarrow>
       r = TEEC_SUCCESS))"
    using Cons.IH [of s1] Cons.prems fr by simp
  show ?case
    using one same sound complete rest Cons.prems(3) [of i]
    by (auto elim!: ok_mono dest: same_mem_trans [OF same])
qed


lemma CheckOperation_spec:
  assumes "shm_mem s context" and "ShrMemLock context \<notin> held s"
    and "\<And>opa op. operation = Some (opa, op) \<Longrightarrow> parents_ok s op"
  shows "ok (TEEC_CheckOperation os context operation s) (\<lambda>(r, s'). same_mem s s' \<and>
    (\<forall>opa op. operation = Some (opa, op) \<longrightarrow> 
       (r = TEEC_SUCCESS \<longrightarrow> operation_ok s context op) \<and>
       (locks_ok os \<longrightarrow> operation_ok s context op \<longrightarrow> r = TEEC_SUCCESS)))"
proof (cases operation)
  case None
  then show ?thesis by (simp add: TEEC_CheckOperation_def)
next
  case (Some x)
  obtain opa op where x: "operation = Some (opa, op)" using Some by (cases x) auto
  then have len: "length (op_params op) = 4"
    and par: "\<And>i. i < 4 \<Longrightarrow> parent_ok s (TEEC_PARAM_TYPE_GET (op_paramTypes op) i) (op_params op ! i)"
    using assms(3) by (auto simp: parents_ok_def list_all_iff)
  have "ok (check_from os context op [0..<4] s) (\<lambda>(r, s'). same_mem s s' \<and>
    (r = TEEC_SUCCESS \<longrightarrow>
       (\<forall>i \<in> set [0..<4]. param_ok s context (TEEC_PARAM_TYPE_GET (op_paramTypes op) i) (op_params op ! i))) \<and>
    (locks_ok os \<longrightarrow>
       (\<forall>i \<in> set [0..<4]. param_ok s context (TEEC_PARAM_TYPE_GET (op_paramTypes op) i) (op_params op ! i)) \<longrightarrow>
       r = TEEC_SUCCESS))"
    by (rule check_from_spec [OF assms(1,2)]) (use len par in simp_all)
  then show ?thesis
    by (auto simp: x TEEC_CheckOperation_def operation_ok_def list_all_iff elim!: ok_mono)
qed

lemma join32_halves [simp]: "join32 (hi32 a) (lo32 a) = a"
  by (rule bit_word_eqI) (auto simp: join32_def hi32_def lo32_def bit_simps)

lemma encode_one_defined:
  assumes "IS_PARTIAL_MEM t \<or> IS_SHARED_MEM t \<Longrightarrow> ushm_at s (memref_parent p) \<noteq> None"
    and "t = TEEC_PARAM_TYPE_GET ts i"
  shows "ok (encode_one s opa ts i p) (\<lambda>(p', cp, t'). memref_parent p' = memref_parent p)"
proof (cases "IS_TEMP_MEM t")
  case True
  with assms(2) show ?thesis by (simp add: encode_one_def)
next
  case False
  show ?thesis
  proof (cases "IS_PARTIAL_MEM t \<or> IS_SHARED_MEM t")
    case True
    with assms(1) obtain u where "ushm_at s (memref_parent p) = Some u" by auto
    moreover from this have "ushm_at s (pq0 p) = Some u" by (simp add: memref_parent_def)
    ultimately show ?thesis
      using False True assms(2)
      by (simp add: encode_one_def TEEC_EncodePartialParam_def memref_parent_def Let_def)
  next
    case F2: False
    with False assms(2) show ?thesis by (simp add: encode_one_def Let_def)
  qed
qed

lemma encode_from_nth:
  assumes "encode_from s opa op is = Some rs"
  shows "length rs = length is \<and>
    (\<forall>k < length is. encode_one s opa (op_paramTypes op) (is ! k) (op_params op ! (is ! k)) = Some (rs ! k))"
  using assms
proof (induction "is" arbitrary: rs)
  case Nil
  then show ?case by simp
next
  case (Cons i "is")
  from Cons.prems obtain r rs' where "i < length (op_params op)"
    "encode_one s opa (op_paramTypes op) i (op_params op ! i) = Some r"
    "encode_from s opa op is = Some rs'" "rs = r # rs'"
    by (auto simp: arr_get_def split: bind_splits if_splits)
  with Cons.IH [of rs'] show ?case by (auto simp: nth_Cons split: nat.splits)
qed

lemma encode_from_defined:
  assumes "\<And>i. i \<in> set is \<Longrightarrow> i < length (op_params op) \<and>
     ok (encode_one s opa (op_paramTypes op) i (op_params op ! i)) (\<lambda>x. True)"
  shows "ok (encode_from s opa op is) (\<lambda>rs. True)"
  using assms
proof (induction "is")
  case Nil
  then show ?case by simp
next
  case (Cons i "is")
  from Cons.prems [of i] obtain r where r: "i < length (op_params op)"
    "encode_one s opa (op_paramTypes op) i (op_params op ! i) = Some r" by (auto simp: ok_iff)
  with Cons show ?case by simp
qed

lemma EncodeParam_nth:
  assumes "TEEC_EncodeParam s cli opa op = Some (cli', op')"
  shows "cc_file_buffer cli' = cc_file_buffer cli \<and> cc_origin cli' = cc_origin cli \<and>
    length (op_params op') = 4 \<and> op_paramTypes op' = op_paramTypes op \<and>
    (\<forall>i < 4. \<exists>t. encode_one s opa (op_paramTypes op) i (op_params op ! i) =
       Some (op_params op' ! i, cc_params cli' ! i, t))"
proof -
  from assms obtain rs where rs: "encode_from s opa op [0..<4] = Some rs"
    and cli: "cli' = cli\<lparr>cc_params := map (\<lambda>(p, cp, t). cp) rs, cc_paramTypes := cc_paramTypes cli'\<rparr>"
    and op: "op' = op\<lparr>op_params := map (\<lambda>(p, cp, t). p) rs\<rparr>"
    by (auto simp: TEEC_EncodeParam_def Let_def split: bind_splits)
  have len: "length rs = 4" and nth: "\<And>i. i < 4 \<Longrightarrow>
      encode_one s opa (op_paramTypes op) i (op_params op ! i) = Some (rs ! i)"
    using encode_from_nth [OF rs] by auto
  have "\<exists>t. encode_one s opa (op_paramTypes op) i (op_params op ! i) =
      Some (op_params op' ! i, cc_params cli' ! i, t)" if "i < 4" for i
  proof (cases "rs ! i")
    case (fields p cp t)
    with nth [OF that] that len show ?thesis by (subst cli) (simp add: op)
  qed
  moreover have "cc_file_buffer cli' = cc_file_buffer cli" "cc_origin cli' = cc_origin cli"
    by (subst cli, simp)+
  ultimately show ?thesis by (simp add: op len)
qed

lemma checked_encodable:
  assumes "operation_ok s context op" and "parents_ok s op" and "shared_parent_ok s op"
  shows "encodable s op"
proof -
  have "ushm_at s (memref_parent (op_params op ! i)) \<noteq> None"
    if "i < 4" "IS_PARTIAL_MEM (TEEC_PARAM_TYPE_GET (op_paramTypes op) i)" for i
  proof -
    from that assms(1) have "memref_fits s context (TEEC_PARAM_TYPE_GET (op_paramTypes op) i) (op_params op ! i)"
      by (simp add: operation_ok_def list_all_iff param_ok_partial [symmetric])
    then show ?thesis by (auto simp: memref_fits_def split: option.splits)
  qed
  with assms show ?thesis
    by (auto simp: encodable_def parents_ok_def shared_parent_ok_def list_all_iff Let_def)
qed

lemma EncodeParam_defined:
  assumes "encodable s op"
  shows "ok (TEEC_EncodeParam s cli opa op) (\<lambda>(cli', op').
    cc_file_buffer cli' = cc_file_buffer cli \<and> cc_origin cli' = cc_origin cli)"
proof -
  from assms have len: "length (op_params op) = 4" by (simp add: encodable_def)
  have "ok (encode_from s opa op [0..<4]) (\<lambda>rs. True)"
  proof (rule encode_from_defined)
    fix i assume "i \<in> set [0..<4 :: nat]"
    then have i: "i < 4" by simp
    have "ok (encode_one s opa (op_paramTypes op) i (op_params op ! i)) (\<lambda>(p', cp, t').
        memref_parent p' = memref_parent (op_params op ! i))"
      by (rule encode_one_defined [OF _ refl])
        (use assms i in \<open>auto simp: encodable_def list_all_iff Let_def\<close>)
    then show "i < length (op_params op) \<and>
        ok (encode_one s opa (op_paramTypes op) i (op_params op ! i)) (\<lambda>x. True)"
      using i len by (auto elim: ok_mono)
  qed
  then have "ok (TEEC_EncodeParam s cli opa op) (\<lambda>x. True)"
    by (simp add: TEEC_EncodeParam_def)
  then show ?thesis by (auto simp: ok_iff dest: EncodeParam_nth)
qed

lemma Encode_defined:
  assumes "sess_at s session \<noteq> None" and "\<And>opa op. operation = Some (opa, op) \<Longrightarrow> encodable s op"
    and "cc_file_buffer cli = NULL"
  shows "ok (TEEC_Encode os cli session cmdId login operation s) (\<lambda>((r, cli', operation'), s').
    same_mem s s' \<and> cc_file_buffer cli' = NULL \<and>
    (r = TEEC_SUCCESS \<or> r = TEEC_ERROR_BAD_PARAMETERS) \<and>
    (cc_origin cli = TEEC_ORIGIN_API \<longrightarrow> cc_origin cli' = TEEC_ORIGIN_API))"
proof -
  obtain e where e: "sess_at s session = Some e" using assms(1) by auto
  obtain r1 w1 where w1: "os_memset_s os (world s) = (r1, w1)" by fastforce
  obtain r2 w2 where w2: "os_memcpy_s os w1 = (r2, w2)" by fastforce
  note enc = EncodeParam_defined [of "s\<lparr>world := w2\<rparr>"]
  show ?thesis
  proof (cases operation)
    case None
    with e w1 w2 assms(3) show ?thesis by (simp add: TEEC_Encode_def zero_cli_def)
  next
    case (Some x)
    obtain opa op where x: "x = (opa, op)" by fastforce
    from assms(2) Some x have "encodable (s\<lparr>world := w2\<rparr>) op" by (simp add: encodable_def)
    with e w1 w2 assms(3) show ?thesis
      by (auto simp: TEEC_Encode_def Some x zero_cli_def intro!: ok_mono [OF enc [OF \<open>encodable (s\<lparr>world := w2\<rparr>) op\<close>]])
  qed
qed

lemma encode_partial_region:
  assumes "encode_one s opa ts i p = Some (p', cp, t')" and "t = TEEC_PARAM_TYPE_GET ts i"
    and "t = TEEC_MEMREF_PARTIAL_INPUT \<or> t = TEEC_MEMREF_PARTIAL_OUTPUT \<or> t = TEEC_MEMREF_PARTIAL_INOUT"
    and "memref_fits s context t p" and "ushm_at s (memref_parent p) = Some u"
    and "unat (sm_buffer u) + unat (sm_size u) < 2 ^ 64"
  shows "memref_start cp = unat (sm_buffer u) + unat (memref_offset p) \<and>
    p' = p \<and> memref_start cp + unat (memref_size p) \<le> unat (sm_buffer u) + unat (sm_size u) \<and>
    join32 (cp_size_h cp) (cp_size_addr cp) = param_addr opa i + 8 \<and>
    t' = (if sm_is_allocated u then t else t - 8)"
proof -
  have fits: "unat (memref_offset p) + unat (memref_size p) \<le> unat (sm_size u)"
    and nz: "sm_buffer u \<noteq> NULL" "sm_size u \<noteq> 0"
    using assms(3,4,5) by (auto simp: memref_fits_def)
  have off: "unat (ucast (memref_offset p) :: addr) = unat (memref_offset p)"
    by simp
  then have "unat (sm_buffer u) + unat (ucast (memref_offset p) :: addr) < 2 ^ 64"
    using fits assms(6) by linarith
  then have sum: "unat (sm_buffer u + ucast (memref_offset p)) = unat (sm_buffer u) + unat (memref_offset p)"
    using off by (simp add: unat_add_lem [THEN iffD1])
  have nt: "\<not> IS_TEMP_MEM t" "IS_PARTIAL_MEM t" "t \<noteq> TEEC_MEMREF_WHOLE"
    using assms(3) by (auto simp: IS_TEMP_MEM_def IS_PARTIAL_MEM_def)
  show ?thesis
    using assms(1) nt sum fits
    by (auto simp: encode_one_def assms(2) [symmetric] TEEC_EncodePartialParam_def assms(5) memref_start_def Let_def
        split: if_splits)
qed

section \<open>An example\<close>

text \<open>A context with one allocated block of 64 bytes, and an operation on its last 16 bytes.\<close>

definition demo_shm :: "sim api" where
  "demo_shm = empty_api\<lparr>
     ctxs := [0x100 \<mapsto> \<lparr>ci_fd = 5, ci_session_list = [], ci_shrd_mem_list = [0x200],
                        ci_shm_bitmap = replicate 8 0, ci_ops_cnt = 1, ci_callFromService = False\<rparr>],
     shms := [0x200 \<mapsto> \<lparr>si_buffer = 0x9000, si_size = 64, si_flags = 3, si_ops_cnt = 1,
                        si_is_allocated = True, si_context = 0x100, si_offset = 0\<rparr>],
     ushm := [0x300 \<mapsto> \<lparr>sm_buffer = 0x9000, sm_size = 64, sm_flags = 3, sm_ops_cnt = 2,
                        sm_is_allocated = True, sm_context = 0x400\<rparr>],
     ctx_list := [0x100]\<rparr>"

definition demo_op :: TEEC_Operation where
  "demo_op = \<lparr>op_started = 1, op_paramTypes = TEEC_PARAM_TYPES 15 1 0 0,
     op_params = [\<lparr>pq0 = 0x300, pd2 = 16, pd3 = 48\<rparr>, \<lparr>pq0 = 1, pd2 = 0, pd3 = 0\<rparr>,
                  \<lparr>pq0 = 0, pd2 = 0, pd3 = 0\<rparr>, \<lparr>pq0 = 0, pd2 = 0, pd3 = 0\<rparr>],
     op_session = NULL, op_cancel_flag = False\<rparr>"

lemma demo_op_checked: "operation_ok demo_shm 0x100 demo_op"
  by code_simp

section \<open>Properties\<close>

text \<open>
  The four parameter types survive packing into \<open>paramTypes\<close> and extraction from it.
\<close>

lemma param_types_roundtrip:
  assumes "t0 < 16" "t1 < 16" "t2 < 16" "t3 < 16"
  shows "map (TEEC_PARAM_TYPE_GET (TEEC_PARAM_TYPES t0 t1 t2 t3)) [0..<4] = [t0, t1, t2, t3]"
  using TYPES_GET [OF assms] by (simp add: upt_rec)

lemma param_types_example:
  "map (TEEC_PARAM_TYPE_GET (TEEC_PARAM_TYPES 5 13 0 1)) [0..<4] = [5, 13, 0, 1]"
  by (rule param_types_roundtrip) simp_all

text \<open>
  C6.  \<open>TEEC_CheckOperation\<close> decides the reference condition: whatever the operating system answers,
  it is defined, releases its lock and changes no memory; it reports success only for an
  operation whose four parameters satisfy \<open>param_ok\<close>, and for every such operation when its
  lock can be taken.
\<close>

theorem TEEC_CheckOperation_exact:
  assumes "shm_mem s context" and "ShrMemLock context \<notin> held s" and "parents_ok s op"
  shows "\<exists>r s'. TEEC_CheckOperation os context (Some (opa, op)) s = Some (r, s') \<and> same_mem s s' \<and>
    (r = TEEC_SUCCESS \<longrightarrow> operation_ok s context op) \<and>
    (locks_ok os \<longrightarrow> operation_ok s context op \<longrightarrow> r = TEEC_SUCCESS)"
  using CheckOperation_spec [OF assms(1,2), of "Some (opa, op)" os] assms(3) by (auto simp: ok_iff)

theorem TEEC_CheckOperation_exact_witness:
  "\<exists>s'. TEEC_CheckOperation sim_os 0x100 (Some (0x500, demo_op)) demo_shm = Some (TEEC_SUCCESS, s')"
proof -
  have mem: "shm_mem demo_shm 0x100" by code_simp
  have free: "ShrMemLock 0x100 \<notin> held demo_shm" by code_simp
  have par: "parents_ok demo_shm demo_op" by code_simp
  have locks: "locks_ok sim_os" by (simp add: locks_ok_def sim_os_def)
  from demo_op_checked TEEC_CheckOperation_exact [OF mem free par, where os = sim_os and opa = "0x500"] locks
  show ?thesis by auto
qed

text \<open>
  C7.  After a successful check, a partial memory reference is encoded as the bytes from
  \<open>buffer + offset\<close> on, all of them inside the parent's buffer, with the address of the size
  field in the caller's operation; nothing wraps around.
\<close>

theorem checked_memref_inside_parent:
  assumes "shm_mem s context" and "ShrMemLock context \<notin> held s" and "parents_ok s op"
    and "TEEC_CheckOperation os context (Some (opa, op)) s = Some (TEEC_SUCCESS, s1)"
    and "TEEC_EncodeParam s1 cli opa op = Some (cli', op')"
    and "i < 4" and "t = TEEC_PARAM_TYPE_GET (op_paramTypes op) i"
    and "t = TEEC_MEMREF_PARTIAL_INPUT \<or> t = TEEC_MEMREF_PARTIAL_OUTPUT \<or> t = TEEC_MEMREF_PARTIAL_INOUT"
    and "p = op_params op ! i" and "ushm_at s (memref_parent p) = Some u"
    and "unat (sm_buffer u) + unat (sm_size u) < 2 ^ 64"
  shows "memref_start (cc_params cli' ! i) = unat (sm_buffer u) + unat (memref_offset p) \<and>
    memref_start (cc_params cli' ! i) + unat (memref_size p) \<le> unat (sm_buffer u) + unat (sm_size u) \<and>
    join32 (cp_size_h (cc_params cli' ! i)) (cp_size_addr (cc_params cli' ! i)) = param_addr opa i + 8"
proof -
  have same: "same_mem s s1" and good: "operation_ok s context op"
    using CheckOperation_spec [OF assms(1,2), of "Some (opa, op)" os] assms(3,4) by auto
  have partial: "IS_PARTIAL_MEM t" using assms(8) by (auto simp: IS_PARTIAL_MEM_def)
  from good assms(6,7,9) have "param_ok s1 context t p"
    by (simp add: operation_ok_def list_all_iff same_mem_frame [OF same])
  then have fits: "memref_fits s1 context t p" by (simp add: param_ok_partial [OF partial])
  obtain t' where "encode_one s1 opa (op_paramTypes op) i p = Some (op_params op' ! i, cc_params cli' ! i, t')"
    using EncodeParam_nth [OF assms(5)] assms(6,9) by blast
  from encode_partial_region [OF this assms(7,8) fits _ assms(11)] assms(10) show ?thesis
    by (simp add: same_mem_frame [OF same])
qed

theorem checked_memref_inside_parent_witness:
  "\<exists>s1 cli' op'. TEEC_CheckOperation sim_os 0x100 (Some (0x500, demo_op)) demo_shm = Some (TEEC_SUCCESS, s1) \<and>
     TEEC_EncodeParam s1 zero_cli 0x500 demo_op = Some (cli', op') \<and> memref_start (cc_params cli' ! 0) = 0x9030"
proof -
  have mem: "shm_mem demo_shm 0x100" by code_simp
  have free: "ShrMemLock 0x100 \<notin> held demo_shm" by code_simp
  have par: "parents_ok demo_shm demo_op" by code_simp
  have p: "ushm_at demo_shm (memref_parent (op_params demo_op ! 0)) =
      Some \<lparr>sm_buffer = 0x9000, sm_size = 64, sm_flags = 3, sm_ops_cnt = 2, sm_is_allocated = True, sm_context = 0x400\<rparr>"
    "memref_offset (op_params demo_op ! 0) = 48" "TEEC_PARAM_TYPE_GET (op_paramTypes demo_op) 0 = 15"
    by code_simp+
  have "\<exists>s1. TEEC_CheckOperation sim_os 0x100 (Some (0x500, demo_op)) demo_shm = Some (TEEC_SUCCESS, s1) \<and> same_mem demo_shm s1"
    using CheckOperation_spec [OF mem free, of "Some (0x500, demo_op)" sim_os] par demo_op_checked
    by (auto simp: ok_iff locks_ok_def sim_os_def)
  then obtain s1 where c: "TEEC_CheckOperation sim_os 0x100 (Some (0x500, demo_op)) demo_shm = Some (TEEC_SUCCESS, s1)"
    and same: "same_mem demo_shm s1" by blast
  have "encodable demo_shm demo_op" by code_simp
  then have "encodable s1 demo_op" by (simp add: encodable_def same_mem_frame [OF same])
  then obtain cli' op' where e: "TEEC_EncodeParam s1 zero_cli 0x500 demo_op = Some (cli', op')"
    using EncodeParam_defined [of s1 demo_op zero_cli "0x500"] by (auto simp: ok_iff)
  have "memref_start (cc_params cli' ! 0) = 0x9030"
    using checked_memref_inside_parent [OF mem free par c e _ refl _ refl p(1)] p by simp
  with c e show ?thesis by blast
qed

text \<open>
  A parameter of type \<open>TEEC_MEMREF_SHARED_INOUT\<close> is not checked at all: with a null parent the
  operation passes \<open>TEEC_CheckOperation\<close>, and the encoder then dereferences the null pointer.
\<close>

lemma shared_inout_null_parent:
  assumes "op_started op \<noteq> 0" and "op_paramTypes op = TEEC_PARAM_TYPES TEEC_MEMREF_SHARED_INOUT 0 0 0"
    and "length (op_params op) = 4" and "memref_parent (op_params op ! 0) = NULL"
  shows "TEEC_CheckOperation os context (Some (opa, op)) s = Some (TEEC_SUCCESS, s) \<and>
    TEEC_EncodeParam s cli opa op = None"
proof -
  have upt: "[0..<4 :: nat] = [0, 1, 2, 3]" by code_simp
  have get: "TEEC_PARAM_TYPE_GET (op_paramTypes op) 0 = 10" "TEEC_PARAM_TYPE_GET (op_paramTypes op) 1 = 0"
    "TEEC_PARAM_TYPE_GET (op_paramTypes op) 2 = 0" "TEEC_PARAM_TYPE_GET (op_paramTypes op) 3 = 0"
    unfolding assms(2) by code_simp+
  have "encode_one s opa (op_paramTypes op) 0 (op_params op ! 0) = None"
    using assms(4) get
    by (simp add: encode_one_def IS_TEMP_MEM_def IS_PARTIAL_MEM_def IS_SHARED_MEM_def
        TEEC_EncodePartialParam_def ushm_at_def)
  then have "TEEC_EncodeParam s cli opa op = None"
    using assms(3) by (simp add: TEEC_EncodeParam_def upt)
  moreover have "TEEC_CheckOperation os context (Some (opa, op)) s = Some (TEEC_SUCCESS, s)"
    using assms(1,3) get
    by (simp add: TEEC_CheckOperation_def upt check_one_def IS_TEMP_MEM_def IS_PARTIAL_MEM_def IS_VALUE_MEM_def)
  ultimately show ?thesis by simp
qed

text \<open>
  A \<open>TEEC_MEMREF_SHARED_INOUT\<close> reference to a registered (not allocated) block is passed to the
  driver as type \<open>TEEC_VALUE_OUTPUT\<close> while the parameter holds a memory reference.
\<close>

lemma shared_inout_becomes_value:
  assumes "TEEC_PARAM_TYPE_GET ts i = TEEC_MEMREF_SHARED_INOUT"
    and "ushm_at s (memref_parent p) = Some u" and "\<not> sm_is_allocated u"
  shows "\<exists>b h sl sh. encode_one s opa ts i p = Some (p, MemrefParam b h 0 sl sh, TEEC_VALUE_OUTPUT)"
  using assms
  by (simp add: encode_one_def IS_TEMP_MEM_def IS_PARTIAL_MEM_def IS_SHARED_MEM_def
      TEEC_EncodePartialParam_def Let_def)

text \<open>
  For \<open>TEEC_MEMREF_WHOLE\<close> on a registered block the encoded region still starts at
  \<open>buffer + offset\<close> with the length of the whole block, although the check ignores \<open>offset\<close>:
  every non-zero offset makes the region end beyond the block.
\<close>

lemma whole_registered_exceeds:
  assumes "TEEC_PARAM_TYPE_GET ts i = TEEC_MEMREF_WHOLE"
    and "ushm_at s (memref_parent p) = Some u" and "\<not> sm_is_allocated u" and "memref_offset p \<noteq> 0"
    and "unat (sm_buffer u) + unat (memref_offset p) < 2 ^ 64"
  shows "\<exists>p' cp t. encode_one s opa ts i p = Some (p', cp, t) \<and>
    memref_start cp + unat (memref_size p') > unat (sm_buffer u) + unat (sm_size u)"
proof -
  have "unat (sm_buffer u + ucast (memref_offset p)) = unat (sm_buffer u) + unat (memref_offset p)"
    using assms(5) by (simp add: unat_add_lem [THEN iffD1])
  moreover have "unat (memref_offset p) > 0" using assms(4) by (simp add: unat_gt_0)
  moreover have "ushm_at s (memref_parent (p\<lparr>pd2 := sm_size u\<rparr>)) = Some u"
    using assms(2) by (simp add: memref_parent_def)
  ultimately show ?thesis
    using assms
    by (simp add: encode_one_def IS_TEMP_MEM_def IS_PARTIAL_MEM_def TEEC_EncodePartialParam_def Let_def
        memref_start_def memref_size_def)
qed

text \<open>
  C39. Three gaps in the checks of memory references.  A parameter of type \<open>TEEC_MEMREF_SHARED_INOUT\<close> is not
  checked at all: with a null parent the operation passes \<open>TEEC_CheckOperation\<close>, and the encoder then dereferences the
  null pointer.  With a registered (not allocated) parent it is passed to the driver as type \<open>TEEC_VALUE_OUTPUT\<close>
  although it holds a memory reference.  A \<open>TEEC_MEMREF_WHOLE\<close> reference to a registered block with a non-zero
  offset, which no check looks at, is encoded as a region that ends beyond the block.
\<close>

theorem memref_check_gaps:
  "(op_started op \<noteq> 0 \<and> op_paramTypes op = TEEC_PARAM_TYPES TEEC_MEMREF_SHARED_INOUT 0 0 0 \<and> length (op_params op) = 4 \<and>
      memref_parent (op_params op ! 0) = NULL \<longrightarrow>
      TEEC_CheckOperation os context (Some (opa, op)) s = Some (TEEC_SUCCESS, s) \<and> TEEC_EncodeParam s cli opa op = None) \<and>
   (TEEC_PARAM_TYPE_GET ts i = TEEC_MEMREF_SHARED_INOUT \<and> ushm_at s (memref_parent p) = Some u \<and> \<not> sm_is_allocated u \<longrightarrow>
      (\<exists>b h sl sh. encode_one s opa ts i p = Some (p, MemrefParam b h 0 sl sh, TEEC_VALUE_OUTPUT))) \<and>
   (TEEC_PARAM_TYPE_GET ts i = TEEC_MEMREF_WHOLE \<and> ushm_at s (memref_parent p) = Some u \<and> \<not> sm_is_allocated u \<and>
      memref_offset p \<noteq> 0 \<and> unat (sm_buffer u) + unat (memref_offset p) < 2 ^ 64 \<longrightarrow>
      (\<exists>p' cp t. encode_one s opa ts i p = Some (p', cp, t) \<and>
         memref_start cp + unat (memref_size p') > unat (sm_buffer u) + unat (sm_size u)))"
  using shared_inout_null_parent [of op os "context" opa s cli] shared_inout_becomes_value [of ts i s p u opa]
    whole_registered_exceeds [of ts i s p u opa] by blast

definition demo_registered :: TEEC_SharedMemory where
  "demo_registered = \<lparr>sm_buffer = 0x9000, sm_size = 64, sm_flags = 3, sm_ops_cnt = 2, sm_is_allocated = False, sm_context = 0x400\<rparr>"

theorem memref_check_gaps_witness:
  "TEEC_EncodeParam demo_shm zero_cli 0x500
     (demo_op\<lparr>op_paramTypes := 10, op_params := replicate 4 \<lparr>pq0 = 0, pd2 = 0, pd3 = 0\<rparr>\<rparr>) = None \<and>
   (\<exists>b h sl sh. encode_one (demo_shm\<lparr>ushm := [0x300 \<mapsto> demo_registered]\<rparr>) 0x500 10 0 \<lparr>pq0 = 0x300, pd2 = 16, pd3 = 48\<rparr> =
     Some (\<lparr>pq0 = 0x300, pd2 = 16, pd3 = 48\<rparr>, MemrefParam b h 0 sl sh, TEEC_VALUE_OUTPUT)) \<and>
   (\<exists>p' cp t. encode_one (demo_shm\<lparr>ushm := [0x300 \<mapsto> demo_registered]\<rparr>) 0x500 12 0 \<lparr>pq0 = 0x300, pd2 = 16, pd3 = 48\<rparr> =
     Some (p', cp, t) \<and> memref_start cp + unat (memref_size p') > 0x9040)"
proof (intro conjI)
  let ?s = "demo_shm\<lparr>ushm := [0x300 \<mapsto> demo_registered]\<rparr>" and ?p = "\<lparr>pq0 = 0x300, pd2 = 16, pd3 = 48\<rparr>"
  show "TEEC_EncodeParam demo_shm zero_cli 0x500
     (demo_op\<lparr>op_paramTypes := 10, op_params := replicate 4 \<lparr>pq0 = 0, pd2 = 0, pd3 = 0\<rparr>\<rparr>) = None"
    by (rule memref_check_gaps [THEN conjunct1, THEN mp, THEN conjunct2]) (intro conjI, code_simp+)
  show "\<exists>b h sl sh. encode_one ?s 0x500 10 0 ?p = Some (?p, MemrefParam b h 0 sl sh, TEEC_VALUE_OUTPUT)"
    by (rule memref_check_gaps [THEN conjunct2, THEN conjunct1, THEN mp])
      (intro conjI, code_simp, simp add: ushm_at_def memref_parent_def, simp add: demo_registered_def)
  have "\<exists>p' cp t. encode_one ?s 0x500 12 0 ?p = Some (p', cp, t) \<and>
      memref_start cp + unat (memref_size p') > unat (sm_buffer demo_registered) + unat (sm_size demo_registered)"
    by (rule memref_check_gaps [THEN conjunct2, THEN conjunct2, THEN mp])
      (intro conjI, code_simp, simp add: ushm_at_def memref_parent_def, simp_all add: demo_registered_def memref_offset_def)
  then show "\<exists>p' cp t. encode_one ?s 0x500 12 0 ?p = Some (p', cp, t) \<and> memref_start cp + unat (memref_size p') > 0x9040"
    by (simp add: demo_registered_def)
qed

end
