(* ===== verification/Api_Shm.thy ===== *)
theory Api_Shm
  imports Api_Param
begin

text \<open>
  Reference counts, contexts, sessions and shared memory of
  \<open>src/frameworks/libteec_vendor/tee_client_api.c\<close>: the lookups that take a
  reference (\<open>GetBn...\<close>), the releases that drop one (\<open>PutBn...\<close>), and the teardown
  of a context.  Every structure that the library allocates is in the store of
  \<open>Api_Types\<close>, so freeing it removes it and a later use is undefined behaviour.
\<close>

section \<open>Counters and list traversals\<close>

text \<open>
  \<open>AtomInc\<close> and \<open>AtomDecAndCompareWithZero\<close> run under a mutex of their own, so each is
  one step here.
\<close>

definition AtomInc :: "u32 \<Rightarrow> u32" where
  "AtomInc cnt = cnt + 1"

definition AtomDecAndCompareWithZero :: "u32 \<Rightarrow> bool \<times> u32" where
  "AtomDecAndCompareWithZero cnt = (let c = cnt - 1 in (c = 0, c))"

fun find_ctx :: "'w api \<Rightarrow> (TEEC_ContextInner \<Rightarrow> bool) \<Rightarrow> addr list \<Rightarrow> addr option option" where
  "find_ctx s P [] = Some None"
| "find_ctx s P (a # as) = do {
     c \<leftarrow> ctx_at s a;
     if P c then Some (Some a) else find_ctx s P as
   }"

fun find_sess :: "'w api \<Rightarrow> (TEEC_Session \<Rightarrow> bool) \<Rightarrow> addr list \<Rightarrow> addr option option" where
  "find_sess s P [] = Some None"
| "find_sess s P (a # as) = do {
     e \<leftarrow> sess_at s a;
     if P e then Some (Some a) else find_sess s P as
   }"

definition ptr_of :: "addr option \<Rightarrow> addr" where
  "ptr_of r = (case r of None \<Rightarrow> NULL | Some a \<Rightarrow> a)"

definition MutexLockContext :: "'w os \<Rightarrow> lock \<Rightarrow> 'w api \<Rightarrow> (int \<times> 'w api) option" where
  "MutexLockContext os mutex s = pthread_mutex_lock os mutex s"

definition MutexUnlockContext :: "int \<Rightarrow> lock \<Rightarrow> 'w api \<Rightarrow> 'w api option" where
  "MutexUnlockContext lockRet mutex s =
     (if lockRet \<noteq> 0 then Some s else pthread_mutex_unlock mutex s)"

section \<open>Bit map under its lock\<close>

abbreviation (input) "bitmap_size \<equiv> (of_nat NUM_OF_SHAREMEM_BITMAP :: u32)"

definition ClearBitWithLock :: "'w os \<Rightarrow> addr \<Rightarrow> u32 \<Rightarrow> 'w api \<Rightarrow> 'w api option" where
  "ClearBitWithLock os context i s = do {
     (lockRet, s) \<leftarrow> pthread_mutex_lock os (ShrMemBitMapLock context) s;
     if lockRet \<noteq> 0 then Some s
     else do {
       c \<leftarrow> ctx_at s context;
       bm \<leftarrow> ClearBit i bitmap_size (Some (ci_shm_bitmap c));
       xs \<leftarrow> bm;
       s \<leftarrow> upd_ctx context (\<lambda>c. c\<lparr>ci_shm_bitmap := xs\<rparr>) s;
       pthread_mutex_unlock (ShrMemBitMapLock context) s
     }
   }"

definition GetAndSetBitWithLock :: "'w os \<Rightarrow> addr \<Rightarrow> 'w api \<Rightarrow> (int \<times> 'w api) option" where
  "GetAndSetBitWithLock os context s = do {
     (lockRet, s) \<leftarrow> pthread_mutex_lock os (ShrMemBitMapLock context) s;
     if lockRet \<noteq> 0 then Some (- 1, s)
     else do {
       c \<leftarrow> ctx_at s context;
       (validBit, bm) \<leftarrow> GetAndSetBit (Some (ci_shm_bitmap c)) bitmap_size;
       xs \<leftarrow> bm;
       s \<leftarrow> upd_ctx context (\<lambda>c. c\<lparr>ci_shm_bitmap := xs\<rparr>) s;
       s \<leftarrow> pthread_mutex_unlock (ShrMemBitMapLock context) s;
       Some (validBit, s)
     }
   }"

section \<open>Shared memory: releasing\<close>

definition free_shm :: "addr \<Rightarrow> 'w api \<Rightarrow> 'w api" where
  "free_shm a s = s\<lparr>shms := (shms s)(a := None)\<rparr>"

definition unmap :: "'w os \<Rightarrow> addr \<Rightarrow> u32 \<Rightarrow> 'w api \<Rightarrow> 'w api" where
  "unmap os a n s =
     (let (r, s) = call (os_munmap os a n) s
      in if r = 0 then s\<lparr>maps := (maps s)(a := None)\<rparr> else s)"

definition ReleaseSharedMemory :: "'w os \<Rightarrow> addr \<Rightarrow> 'w api \<Rightarrow> 'w api option" where
  "ReleaseSharedMemory os sharedMem s = do {
     m \<leftarrow> shm_at s sharedMem;
     s \<leftarrow> (if \<not> si_is_allocated m \<or> si_buffer m = NULL then Some s
           else do {
             s \<leftarrow> (if si_flags m = TEEC_MEM_SHARED_INOUT
                   then if bufs s (si_buffer m) = None then None
                        else Some (s\<lparr>bufs := (bufs s)(si_buffer m := None)\<rparr>)
                   else if si_buffer m \<noteq> ZERO_SIZE_PTR \<and> si_size m \<noteq> 0
                   then Some (unmap os (si_buffer m) (si_size m) s)
                   else Some s);
             ClearBitWithLock os (si_context m) (si_offset m) s
           });
     Some (free_shm sharedMem s)
   }"

definition PutBnShrMem :: "'w os \<Rightarrow> addr \<Rightarrow> 'w api \<Rightarrow> 'w api option" where
  "PutBnShrMem os shrMem s =
     (if shrMem = NULL then Some s
      else do {
        m \<leftarrow> shm_at s shrMem;
        let (zero, cnt) = AtomDecAndCompareWithZero (si_ops_cnt m);
        s \<leftarrow> upd_shm shrMem (\<lambda>m. m\<lparr>si_ops_cnt := cnt\<rparr>) s;
        if zero then ReleaseSharedMemory os shrMem s else Some s
      })"

definition GetBnShmByOffset :: "'w os \<Rightarrow> u32 \<Rightarrow> addr \<Rightarrow> 'w api \<Rightarrow> (addr \<times> 'w api) option" where
  "GetBnShmByOffset os shmOffset context s =
     (if context = NULL then Some (NULL, s)
      else do {
        (lockRet, s) \<leftarrow> pthread_mutex_lock os (ShrMemLock context) s;
        if lockRet \<noteq> 0 then Some (NULL, s)
        else do {
          c \<leftarrow> ctx_at s context;
          r \<leftarrow> find_shm s (\<lambda>m. si_offset m = shmOffset) (ci_shrd_mem_list c);
          s \<leftarrow> (case r of None \<Rightarrow> Some s
                | Some a \<Rightarrow> upd_shm a (\<lambda>m. m\<lparr>si_ops_cnt := AtomInc (si_ops_cnt m)\<rparr>) s);
          s \<leftarrow> pthread_mutex_unlock (ShrMemLock context) s;
          Some (ptr_of r, s)
        }
      })"

section \<open>Sessions\<close>

definition zero_uuid :: TEEC_UUID where
  "zero_uuid = \<lparr>timeLow = 0, timeMid = 0, timeHiAndVersion = 0, clockSeqAndNode = replicate 8 0\<rparr>"

definition GLOBAL_CMD_ID_OPEN_SESSION :: u32 where "GLOBAL_CMD_ID_OPEN_SESSION = 2"
definition GLOBAL_CMD_ID_CLOSE_SESSION :: u32 where "GLOBAL_CMD_ID_CLOSE_SESSION = 3"

definition no_login :: TC_NS_ClientLogin where
  "no_login = \<lparr>lg_method = 0, lg_mdata = 0\<rparr>"

definition do_ioctl ::
  "'w os \<Rightarrow> int \<Rightarrow> ioctl_req \<Rightarrow> TC_NS_ClientContext \<Rightarrow> 'w api \<Rightarrow> (int \<times> TC_NS_ClientContext) \<times> 'w api" where
  "do_ioctl os fd req cli s = (let (r, w) = os_ioctl os fd req cli (world s) in (r, s\<lparr>world := w\<rparr>))"

definition TEEC_CloseSessionInner :: "'w os \<Rightarrow> addr \<Rightarrow> addr \<Rightarrow> 'w api \<Rightarrow> (int \<times> 'w api) option" where
  "TEEC_CloseSessionInner os session context s =
     (if session = NULL \<or> context = NULL then Some (int32_of TEEC_ERROR_BAD_PARAMETERS, s)
      else do {
        ((teecRet, cli, _), s) \<leftarrow>
          TEEC_Encode os zero_cli session GLOBAL_CMD_ID_CLOSE_SESSION no_login None s;
        if teecRet \<noteq> TEEC_SUCCESS then Some (int32_of teecRet, s)
        else do {
          c \<leftarrow> ctx_at s context;
          let ((ret, cli), s) = do_ioctl os (ci_fd c) SES_CLOSE_REQ cli s;
          if ret \<noteq> 0 then Some (int32_of (cc_code cli), s)
          else do {
            s \<leftarrow> upd_sess session (\<lambda>e. e\<lparr>se_session_id := 0, se_context := NULL\<rparr>) s;
            let (rc, w) = os_memset_s os (world s);
            let s = s\<lparr>world := w\<rparr>;
            if rc \<noteq> EOK then Some (rc, s)
            else do {
              s \<leftarrow> upd_sess session (\<lambda>e. e\<lparr>se_service_id := zero_uuid\<rparr>) s;
              Some (0, s)
            }
          }
        }
      })"

definition PutBnSession :: "addr \<Rightarrow> 'w api \<Rightarrow> 'w api option" where
  "PutBnSession session s =
     (if session = NULL then Some s
      else do {
        e \<leftarrow> sess_at s session;
        let (zero, cnt) = AtomDecAndCompareWithZero (se_ops_cnt e);
        s \<leftarrow> upd_sess session (\<lambda>e. e\<lparr>se_ops_cnt := cnt\<rparr>) s;
        Some (if zero then s\<lparr>sess := (sess s)(session := None)\<rparr> else s)
      })"

definition FindBnSession :: "addr \<Rightarrow> addr \<Rightarrow> 'w api \<Rightarrow> addr option option" where
  "FindBnSession session context s = do {
     c \<leftarrow> ctx_at s context;
     e \<leftarrow> sess_at s session;
     find_sess s (\<lambda>tmp. se_session_id tmp = se_session_id e) (ci_session_list c)
   }"

definition GetBnSession :: "'w os \<Rightarrow> addr \<Rightarrow> addr \<Rightarrow> 'w api \<Rightarrow> (addr \<times> 'w api) option" where
  "GetBnSession os session context s =
     (if session = NULL \<or> context = NULL then Some (NULL, s)
      else do {
        (lockRet, s) \<leftarrow> pthread_mutex_lock os (SessionLock context) s;
        if lockRet \<noteq> 0 then Some (NULL, s)
        else do {
          r \<leftarrow> FindBnSession session context s;
          s \<leftarrow> (case r of None \<Rightarrow> Some s
                | Some a \<Rightarrow> upd_sess a (\<lambda>e. e\<lparr>se_ops_cnt := AtomInc (se_ops_cnt e)\<rparr>) s);
          s \<leftarrow> pthread_mutex_unlock (SessionLock context) s;
          Some (ptr_of r, s)
        }
      })"

text \<open>\<open>ListRemoveEntry(&session->head)\<close>\<close>

definition unlink_session :: "addr \<Rightarrow> addr \<Rightarrow> 'w api \<Rightarrow> 'w api option" where
  "unlink_session a context s = do {
     s \<leftarrow> upd_ctx context (\<lambda>c. c\<lparr>ci_session_list := remove1 a (ci_session_list c)\<rparr>) s;
     upd_sess a (\<lambda>e. e\<lparr>se_head := NULL\<rparr>) s
   }"

definition FindAndRemoveSession :: "'w os \<Rightarrow> addr \<Rightarrow> addr \<Rightarrow> 'w api \<Rightarrow> (addr \<times> 'w api) option" where
  "FindAndRemoveSession os session context s =
     (if session = NULL \<or> context = NULL then Some (NULL, s)
      else do {
        (lockRet, s) \<leftarrow> pthread_mutex_lock os (SessionLock context) s;
        if lockRet \<noteq> 0 then Some (NULL, s)
        else do {
          r \<leftarrow> FindBnSession session context s;
          s \<leftarrow> (case r of None \<Rightarrow> Some s | Some a \<Rightarrow> unlink_session a context s);
          s \<leftarrow> pthread_mutex_unlock (SessionLock context) s;
          Some (ptr_of r, s)
        }
      })"

section \<open>Teardown of a context\<close>

fun finalize_sessions :: "'w os \<Rightarrow> addr \<Rightarrow> addr list \<Rightarrow> 'w api \<Rightarrow> 'w api option" where
  "finalize_sessions os context [] s = Some s"
| "finalize_sessions os context (a # as) s = do {
     s \<leftarrow> unlink_session a context s;
     (ret, s) \<leftarrow> TEEC_CloseSessionInner os a context s;
     c \<leftarrow> ctx_at s context;
     s \<leftarrow> (if ci_callFromService c then PutBnSession a s else Some s);
     finalize_sessions os context as s
   }"

fun finalize_shms :: "'w os \<Rightarrow> addr \<Rightarrow> addr list \<Rightarrow> 'w api \<Rightarrow> 'w api option" where
  "finalize_shms os context [] s = Some s"
| "finalize_shms os context (a # as) s = do {
     s \<leftarrow> upd_ctx context (\<lambda>c. c\<lparr>ci_shrd_mem_list := remove1 a (ci_shrd_mem_list c)\<rparr>) s;
     s \<leftarrow> PutBnShrMem os a s;
     finalize_shms os context as s
   }"

definition TEEC_FinalizeContextInner :: "'w os \<Rightarrow> addr \<Rightarrow> 'w api \<Rightarrow> 'w api option" where
  "TEEC_FinalizeContextInner os context s =
     (if context = NULL then Some s
      else do {
        (lockRet, s) \<leftarrow> pthread_mutex_lock os (SessionLock context) s;
        if lockRet \<noteq> 0 then Some s
        else do {
          c \<leftarrow> ctx_at s context;
          s \<leftarrow> finalize_sessions os context (ci_session_list c) s;
          s \<leftarrow> pthread_mutex_unlock (SessionLock context) s;
          (lockRet, s) \<leftarrow> pthread_mutex_lock os (ShrMemLock context) s;
          if lockRet \<noteq> 0 then Some s
          else do {
            c \<leftarrow> ctx_at s context;
            s \<leftarrow> finalize_shms os context (ci_shrd_mem_list c) s;
            s \<leftarrow> pthread_mutex_unlock (ShrMemLock context) s;
            c \<leftarrow> ctx_at s context;
            let s = s\<lparr>world := os_close os (ci_fd c) (world s)\<rparr>;
            s \<leftarrow> upd_ctx context (\<lambda>c. c\<lparr>ci_fd := - 1\<rparr>) s;
            Some (s\<lparr>ctxs := (ctxs s)(context := None)\<rparr>)
          }
        }
      })"

definition PutBnContext :: "'w os \<Rightarrow> addr \<Rightarrow> 'w api \<Rightarrow> (bool \<times> 'w api) option" where
  "PutBnContext os context s =
     (if context = NULL then Some (False, s)
      else do {
        c \<leftarrow> ctx_at s context;
        let (zero, cnt) = AtomDecAndCompareWithZero (ci_ops_cnt c);
        s \<leftarrow> upd_ctx context (\<lambda>c. c\<lparr>ci_ops_cnt := cnt\<rparr>) s;
        if zero then do {
          s \<leftarrow> TEEC_FinalizeContextInner os context s;
          Some (True, s)
        } else Some (False, s)
      })"

section \<open>Finding contexts\<close>

definition FindBnContext :: "addr \<Rightarrow> 'w api \<Rightarrow> addr option option" where
  "FindBnContext context s =
     (if context = NULL then Some None
      else do {
        u \<leftarrow> uctx_at s context;
        find_ctx s (\<lambda>tmp. ci_fd tmp = uc_fd u) (ctx_list s)
      })"

definition GetBnContext :: "'w os \<Rightarrow> addr \<Rightarrow> 'w api \<Rightarrow> (addr \<times> 'w api) option" where
  "GetBnContext os context s = do {
     (ret, s) \<leftarrow> MutexLockContext os MutexWriteContextList s;
     if ret \<noteq> 0 then Some (NULL, s)
     else do {
       r \<leftarrow> FindBnContext context s;
       s \<leftarrow> (case r of None \<Rightarrow> Some s
             | Some a \<Rightarrow> upd_ctx a (\<lambda>c. c\<lparr>ci_ops_cnt := AtomInc (ci_ops_cnt c)\<rparr>) s);
       s \<leftarrow> MutexUnlockContext ret MutexWriteContextList s;
       Some (ptr_of r, s)
     }
   }"

definition FindAndRemoveBnContext :: "'w os \<Rightarrow> addr \<Rightarrow> 'w api \<Rightarrow> (addr \<times> 'w api) option" where
  "FindAndRemoveBnContext os context s = do {
     (ret, s) \<leftarrow> MutexLockContext os MutexWriteContextList s;
     if ret \<noteq> 0 then Some (NULL, s)
     else do {
       r \<leftarrow> FindBnContext context s;
       let s = (case r of None \<Rightarrow> s | Some a \<Rightarrow> s\<lparr>ctx_list := remove1 a (ctx_list s)\<rparr>);
       s \<leftarrow> MutexUnlockContext ret MutexWriteContextList s;
       Some (ptr_of r, s)
     }
   }"

definition TEEC_FinalizeContext :: "'w os \<Rightarrow> addr \<Rightarrow> 'w api \<Rightarrow> 'w api option" where
  "TEEC_FinalizeContext os context s =
     (if context = NULL then Some s
      else do {
        (contextInner, s) \<leftarrow> FindAndRemoveBnContext os context s;
        (_, s) \<leftarrow> PutBnContext os contextInner s;
        upd_uctx context (\<lambda>u. u\<lparr>uc_fd := - 1\<rparr>) s
      })"

end
