(* ===== verification/Ca_Socket.thy ===== *)
theory Ca_Socket
  imports Api_Sim
begin

text \<open>
  The connection of the client library to the daemon
  (\<open>src/frameworks/libteec_vendor/tee_client_socket.c\<close>): a stream socket is opened with up to
  50 attempts, the caller's authentication data is sent, and the driver's descriptor comes back
  as ancillary data.  \<open>tee_close\<close> and \<open>TeeSocket\<close> are those of \<open>src/frameworks/tee_file/tee_file.c\<close>.
\<close>

section \<open>Operations\<close>

abbreviation (input) "GET_FD \<equiv> (0 :: int)"
abbreviation (input) "GET_TEEVERSION \<equiv> (1 :: int)"
abbreviation (input) "EACCES_ERR \<equiv> (- 3 :: int)"
abbreviation (input) "SEND_MESS_ERR \<equiv> (- 4 :: int)"
abbreviation (input) "SLEEP_TIME \<equiv> (200 * 1000 * 1000 :: nat)"
abbreviation (input) "SLEEP_COUNT \<equiv> (50 :: nat)"

definition tee_close :: "'w os \<Rightarrow> int \<Rightarrow> 'w api \<Rightarrow> int \<times> 'w api" where
  "tee_close os fd s = (if fd < 0 then (fd, s) else (- 1, s\<lparr>world := os_close os fd (world s)\<rparr>))"

definition TeeSocket :: "'w os \<Rightarrow> 'w api \<Rightarrow> int \<times> 'w api" where
  "TeeSocket os s = call (os_socket os) s"

text \<open>The result and the value of \<open>*socketFd\<close>, which only success changes.\<close>

definition ConnectTeecdSocket :: "'w os \<Rightarrow> int \<Rightarrow> 'w api \<Rightarrow> (int \<times> int) \<times> 'w api" where
  "ConnectTeecdSocket os socketFd s =
     (let (rc, s) = call (os_memset_s os) s
      in if rc \<noteq> EOK then ((- 1, socketFd), s)
         else let (fd, s) = TeeSocket os s
         in if fd = - 1 then ((- 1, socketFd), s)
            else let (rc, s) = call (os_strncpy_s os) s
            in if rc \<noteq> EOK then ((- 1, socketFd), snd (tee_close os fd s))
               else let (r, s) = call (os_connect os fd) s
               in if r = - 1
                  then let ret = (if os_errno os (world s) = EACCES then EACCES_ERR else - 1)
                       in ((ret, socketFd), snd (tee_close os fd s))
                  else ((0, fd), s))"

text \<open>The first control message that carries descriptors, as the loop over the headers finds it.\<close>

fun find_rights :: "cmsg list \<Rightarrow> int" where
  "find_rights [] = - 1"
| "find_rights (m # ms) = (if cm_rights m then cm_data m else find_rights ms)"

definition RecvFileDescriptor :: "'w os \<Rightarrow> int \<Rightarrow> int \<Rightarrow> 'w api \<Rightarrow> int \<times> 'w api" where
  "RecvFileDescriptor os cmd socketFd s =
     (let (rc, s) = call (os_memset_s os) s
      in if rc \<noteq> EOK then (- 1, s)
         else let (rc, s) = call (os_memset_s os) s
         in if rc \<noteq> EOK then (- 1, s)
            else let ((res, version, cmsgs), s) = call (os_recvmsg os socketFd) s
            in if cmd = GET_TEEVERSION then (if res \<le> 0 then - 1 else version, s)
               else (if res \<le> 0 then - 1 else find_rights cmsgs, s))"

text \<open>The message is a heap object, freed before the call returns; \<open>None\<close> in the second component is no message.\<close>

definition FillMsgBuffer ::
  "'w os \<Rightarrow> CaAuthInfo \<Rightarrow> int \<Rightarrow> 'w api \<Rightarrow> ((int \<times> (addr \<times> CaRevMsg) option) \<times> 'w api) option" where
  "FillMsgBuffer os caInfo cmd s =
     (let (a, s) = malloc_buf os 4112 s
      in if a = NULL then Some ((int32_of TEEC_ERROR_OUT_OF_MEMORY, None), s)
         else let (rc, s) = call (os_memset_s os) s
         in if rc \<noteq> EOK then do { s \<leftarrow> free_buf a s; Some ((- 1, None), s) }
            else let (rc, s) = call (os_memcpy_s os) s
            in if rc \<noteq> EOK then do { s \<leftarrow> free_buf a s; Some ((- 1, None), s) }
               else Some ((EOK, Some (a, \<lparr>cr_cmd = cmd, cr_caAuthInfo = caInfo\<rparr>)), s))"

text \<open>The attempts of \<open>CaDaemonConnectWithCaInfo\<close>: \<open>n\<close> are left; a result other than -1 ends the loop.\<close>

fun connect_retry :: "'w os \<Rightarrow> nat \<Rightarrow> int \<times> int \<Rightarrow> 'w api \<Rightarrow> (int \<times> int) \<times> 'w api" where
  "connect_retry os 0 (cRet, fd) s = ((cRet, fd), s)"
| "connect_retry os (Suc n) (cRet, fd) s =
     (let ((cRet, fd), s) = ConnectTeecdSocket os fd s
      in if cRet \<noteq> - 1 then ((cRet, fd), s)
         else connect_retry os n (cRet, fd) (s\<lparr>world := os_nanosleep os SLEEP_TIME (world s)\<rparr>))"

definition CaDaemonConnectWithCaInfo ::
  "'w os \<Rightarrow> CaAuthInfo option \<Rightarrow> int \<Rightarrow> 'w api \<Rightarrow> (int \<times> 'w api) option" where
  "CaDaemonConnectWithCaInfo os caInfo cmd s =
     (case caInfo of None \<Rightarrow> Some (- 1, s)
      | Some ca \<Rightarrow>
          let ((cRet, fd), s) = connect_retry os SLEEP_COUNT (- 1, - 1) s
          in if cRet < 0 then Some (- 1, s)
             else let (rc, s) = call (os_memset_s os) s
             in if rc \<noteq> EOK then Some (- 1, snd (tee_close os fd s))
                else do {
                  ((rc, revMsg), s) \<leftarrow> FillMsgBuffer os ca cmd s;
                  if rc \<noteq> EOK then Some (- 1, snd (tee_close os fd s))
                  else do {
                    (a, msg) \<leftarrow> revMsg;
                    let (r, s) = call (os_sendmsg os fd msg) s;
                    if r < 0 then do {
                      s \<leftarrow> free_buf a (snd (tee_close os fd s));
                      Some (SEND_MESS_ERR, s)
                    } else do {
                      let (rfd, s) = RecvFileDescriptor os cmd fd s;
                      s \<leftarrow> free_buf a (snd (tee_close os fd s));
                      Some (rfd, s)
                    }
                  }
                })"

definition zero_ca :: CaAuthInfo where
  "zero_ca = \<lparr>ca_certs = replicate 4096 0, ca_type = 0, ca_uid = 0, ca_pid = 0\<rparr>"

definition CaDaemonConnectWithoutCaInfo :: "'w os \<Rightarrow> 'w api \<Rightarrow> (int \<times> 'w api) option" where
  "CaDaemonConnectWithoutCaInfo os s =
     (let (rc, s) = call (os_memset_s os) s
      in if rc \<noteq> EOK then Some (- 1, s)
         else CaDaemonConnectWithCaInfo os (Some zero_ca) GET_FD s)"

section \<open>Descriptors\<close>

text \<open>
  What POSIX promises about the open descriptors \<open>fds\<close> of the process: \<open>socket\<close> returns -1 or a
  new descriptor, \<open>close\<close> closes one, \<open>recvmsg\<close> adds the descriptors it delivers (the control
  buffer has room for one), and the other calls leave them alone.
\<close>

definition fd_socket :: "'w os \<Rightarrow> ('w \<Rightarrow> int set) \<Rightarrow> bool" where
  "fd_socket os fds \<longleftrightarrow>
     (\<forall>w fd w'. os_socket os w = (fd, w') \<longrightarrow>
        fd = - 1 \<and> fds w' = fds w \<or> fd \<ge> 0 \<and> fd \<notin> fds w \<and> fds w' = insert fd (fds w))"

definition fd_recvmsg :: "'w os \<Rightarrow> ('w \<Rightarrow> int set) \<Rightarrow> bool" where
  "fd_recvmsg os fds \<longleftrightarrow>
     (\<forall>fd w res v cms w'. os_recvmsg os fd w = ((res, v, cms), w') \<longrightarrow>
        length cms \<le> 1 \<and> (res \<le> 0 \<longrightarrow> cms = []) \<and>
        (\<forall>m \<in> set cms. cm_rights m \<longrightarrow> cm_data m \<ge> 0 \<and> cm_data m \<notin> fds w) \<and>
        fds w' = fds w \<union> {cm_data m |m. m \<in> set cms \<and> cm_rights m})"

definition fd_ok :: "'w os \<Rightarrow> ('w \<Rightarrow> int set) \<Rightarrow> bool" where
  "fd_ok os fds \<longleftrightarrow> fd_socket os fds \<and> fd_recvmsg os fds \<and>
     (\<forall>fd w. fds (os_close os fd w) = fds w - {fd}) \<and>
     (\<forall>w. fds (snd (os_memset_s os w)) = fds w) \<and> (\<forall>w. fds (snd (os_memcpy_s os w)) = fds w) \<and>
     (\<forall>w. fds (snd (os_strncpy_s os w)) = fds w) \<and> (\<forall>n w. fds (os_nanosleep os n w) = fds w) \<and>
     (\<forall>used n w. fds (snd (os_malloc os used n w)) = fds w) \<and>
     (\<forall>fd w. fds (snd (os_connect os fd w)) = fds w) \<and>
     (\<forall>fd m w. fds (snd (os_sendmsg os fd m w)) = fds w)"

section \<open>Lemmas\<close>

lemma ConnectTeecdSocket_same:
  "ConnectTeecdSocket os fd s = (r, s') \<Longrightarrow> same_mem s s'"
  by (auto simp: ConnectTeecdSocket_def call_pair TeeSocket_def tee_close_def Let_def split: if_splits)

lemma connect_retry_same: "connect_retry os n x s = (r, s') \<Longrightarrow> same_mem s s'"
proof (induction os n x s rule: connect_retry.induct)
  case (1 os cRet fd s)
  then show ?case by simp
next
  case (2 os n cRet fd s)
  obtain c f s1 where one: "ConnectTeecdSocket os fd s = ((c, f), s1)" by (metis surj_pair)
  with 2 ConnectTeecdSocket_same [OF one] show ?case
    by (cases "c = -1") (auto intro: same_mem_trans)
qed

lemma RecvFileDescriptor_same: "RecvFileDescriptor os cmd fd s = (r, s') \<Longrightarrow> same_mem s s'"
  by (auto simp: RecvFileDescriptor_def call_pair case_prod_beta Let_def split: if_splits)

lemma fd_ok_frame:
  assumes "fd_ok os fds"
  shows "fds (os_close os fd w) = fds w - {fd}" "fds (snd (os_memset_s os w)) = fds w"
    "fds (snd (os_memcpy_s os w)) = fds w" "fds (snd (os_strncpy_s os w)) = fds w"
    "fds (os_nanosleep os n w) = fds w" "fds (snd (os_malloc os used n w)) = fds w"
    "fds (snd (os_connect os fd w)) = fds w" "fds (snd (os_sendmsg os fd m w)) = fds w"
  using assms by (simp_all add: fd_ok_def)

lemma ConnectTeecdSocket_fds:
  assumes "fd_ok os fds" and "ConnectTeecdSocket os fd0 s = ((r, fd), s')"
  shows "r = 0 \<and> fd \<ge> 0 \<and> fd \<notin> fds (world s) \<and> fds (world s') = insert fd (fds (world s)) \<or>
         r < 0 \<and> fds (world s') = fds (world s)"
proof -
  note fr = fd_ok_frame [OF assms(1)]
  obtain r1 w1 where w1: "os_memset_s os (world s) = (r1, w1)" by fastforce
  obtain f w2 where w2: "os_socket os w1 = (f, w2)" by fastforce
  obtain r3 w3 where w3: "os_strncpy_s os w2 = (r3, w3)" by fastforce
  obtain r4 w4 where w4: "os_connect os f w3 = (r4, w4)" by fastforce
  have same: "fds w1 = fds (world s)" "fds w3 = fds w2" "fds w4 = fds w3"
    using fr(2) [of "world s"] fr(4) [of w2] fr(7) [of f w3] w1 w3 w4 by simp_all
  have f: "f = - 1 \<and> fds w2 = fds w1 \<or> f \<ge> 0 \<and> f \<notin> fds w1 \<and> fds w2 = insert f (fds w1)"
  proof -
    have "fd_socket os fds" using assms(1) by (simp add: fd_ok_def)
    with w2 show ?thesis unfolding fd_socket_def by blast
  qed
  have "((r, fd), world s') =
      (if r1 \<noteq> EOK then ((- 1, fd0), w1) else if f = - 1 then ((- 1, fd0), w2)
       else if r3 \<noteq> EOK then ((- 1, fd0), if f < 0 then w3 else os_close os f w3)
       else if r4 = - 1 then ((if os_errno os w4 = EACCES then EACCES_ERR else - 1, fd0), if f < 0 then w4 else os_close os f w4)
       else ((0, f), w4))"
    using arg_cong [OF assms(2), of "\<lambda>(x, s). (x, world s)"]
    by (simp add: ConnectTeecdSocket_def call_def TeeSocket_def tee_close_def w1 w2 w3 w4 split: if_splits)
  with f fr(1) same show ?thesis by (auto split: if_splits)
qed

lemma connect_retry_fds:
  assumes "fd_ok os fds" and "connect_retry os n (c, fd0) s = ((r, fd), s')" and "n > 0"
  shows "r = 0 \<and> fd \<ge> 0 \<and> fd \<notin> fds (world s) \<and> fds (world s') = insert fd (fds (world s)) \<or>
         r < 0 \<and> fds (world s') = fds (world s)"
  using assms(2,3)
proof (induction n arbitrary: c fd0 s)
  case (Suc n)
  obtain c1 f1 s1 where one: "ConnectTeecdSocket os fd0 s = ((c1, f1), s1)" by (metis surj_pair)
  note spec = ConnectTeecdSocket_fds [OF assms(1) one]
  have sleep: "fds (os_nanosleep os n w) = fds w" for n w using assms(1) by (simp add: fd_ok_def)
  show ?case
  proof (cases "c1 = - 1")
    case True
    then have rec: "connect_retry os n (c1, f1) (s1\<lparr>world := os_nanosleep os SLEEP_TIME (world s1)\<rparr>) = ((r, fd), s')"
      using Suc.prems(1) one by simp
    show ?thesis
    proof (cases "n = 0")
      case True
      with rec \<open>c1 = - 1\<close> spec sleep show ?thesis by auto
    next
      case False
      with Suc.IH [OF rec] spec \<open>c1 = - 1\<close> sleep show ?thesis by auto
    qed
  next
    case False
    with Suc.prems(1) one spec show ?thesis by simp
  qed
qed simp

lemma RecvFileDescriptor_fds:
  assumes "fd_ok os fds" and "RecvFileDescriptor os GET_FD fd s = (r, s')"
  shows "r < 0 \<and> fds (world s') = fds (world s) \<or>
         r \<ge> 0 \<and> r \<notin> fds (world s) \<and> fds (world s') = insert r (fds (world s))"
proof -
  have mem: "fds (snd (os_memset_s os w)) = fds w" for w using assms(1) by (simp add: fd_ok_def)
  define w where "w = snd (os_memset_s os (snd (os_memset_s os (world s))))"
  obtain res v cms w' where rcv: "os_recvmsg os fd w = ((res, v, cms), w')" by (metis surj_pair)
  have "fd_recvmsg os fds" using assms(1) by (simp add: fd_ok_def)
  with rcv have c: "length cms \<le> 1" "res \<le> 0 \<Longrightarrow> cms = []"
    "\<And>m. m \<in> set cms \<Longrightarrow> cm_rights m \<Longrightarrow> cm_data m \<ge> 0 \<and> cm_data m \<notin> fds w"
    "fds w' = fds w \<union> {cm_data m |m. m \<in> set cms \<and> cm_rights m}"
    unfolding fd_recvmsg_def by blast+
  consider "cms = []" | m where "cms = [m]" using c(1) by (cases cms) auto
  moreover have "fds w = fds (world s)" by (simp add: w_def mem)
  ultimately show ?thesis
    using assms(2) rcv c mem
    by cases (auto simp: RecvFileDescriptor_def call_pair Let_def w_def [symmetric] split: if_splits)
qed


lemma FillMsgBuffer_spec:
  assumes "malloc_ok os"
  obtains rc m s' where "FillMsgBuffer os ca cmd s = Some ((rc, m), s')"
    and "rc \<noteq> EOK \<and> same_mem s s' \<or>
      rc = EOK \<and> (\<exists>a w v. m = Some (a, \<lparr>cr_cmd = cmd, cr_caAuthInfo = ca\<rparr>) \<and> a \<noteq> NULL \<and> bufs s a = None \<and>
       s' = s\<lparr>bufs := (bufs s)(a \<mapsto> v), world := w\<rparr>)"
    and "\<forall>fds. fd_ok os fds \<longrightarrow> fds (world s') = fds (world s)"
proof -
  obtain a s1 where m: "malloc_buf os 4112 s = (a, s1)" by fastforce
  have fm: "fd_ok os fds \<Longrightarrow> fds (world s1) = fds (world s)" for fds
    using fd_ok_frame(6) [of os fds] arg_cong [OF m, of "\<lambda>x. fds (world (snd x))"]
    by (simp add: malloc_buf_def call_pair split: if_splits)
  obtain r2 w2 where w2: "os_memset_s os (world s1) = (r2, w2)" by fastforce
  obtain r3 w3 where w3: "os_memcpy_s os w2 = (r3, w3)" by fastforce
  have fw: "fds w2 = fds (world s)" "fds w3 = fds (world s)" if "fd_ok os fds" for fds
    using fm [OF that] fd_ok_frame(2) [OF that, of "world s1"] fd_ok_frame(3) [OF that, of w2] w2 w3 by simp_all
  from assms m show ?thesis
  proof (cases rule: malloc_bufE)
    case fail
    with m fm show ?thesis
      by (intro that [of "int32_of TEEC_ERROR_OUT_OF_MEMORY" None s1]) (simp_all add: FillMsgBuffer_def int32_of_def)
  next
    case (alloc w)
    note fresh = alloc(1) not_live_bufs [OF alloc(2)]
    have run: "FillMsgBuffer os ca cmd s =
        (if r2 \<noteq> EOK then Some ((- 1, None), s\<lparr>world := w2\<rparr>)
         else if r3 \<noteq> EOK then Some ((- 1, None), s\<lparr>world := w3\<rparr>)
         else Some ((EOK, Some (a, \<lparr>cr_cmd = cmd, cr_caAuthInfo = ca\<rparr>)),
                    s\<lparr>bufs := (bufs s)(a \<mapsto> raw_block os a 4112), world := w3\<rparr>))"
      using w2 w3 fresh by (simp add: FillMsgBuffer_def m alloc(3) call_def free_buf_fresh)
    consider "r2 \<noteq> EOK" | "r2 = EOK" "r3 \<noteq> EOK" | "r2 = EOK" "r3 = EOK" by blast
    then show ?thesis
    proof cases
      case 1
      with run fw show ?thesis by (intro that [of "- 1" None "s\<lparr>world := w2\<rparr>"]) auto
    next
      case 2
      with run fw show ?thesis by (intro that [of "- 1" None "s\<lparr>world := w3\<rparr>"]) auto
    next
      case 3
      with run fw fresh show ?thesis
        by (intro that [of EOK "Some (a, \<lparr>cr_cmd = cmd, cr_caAuthInfo = ca\<rparr>)"
              "s\<lparr>bufs := (bufs s)(a \<mapsto> raw_block os a 4112), world := w3\<rparr>"]) auto
    qed
  qed
qed

lemma tee_close_state: "snd (tee_close os fd s) = (if fd < 0 then s else s\<lparr>world := os_close os fd (world s)\<rparr>)"
  by (simp add: tee_close_def)

lemma CaDaemonConnect_spec:
  assumes "malloc_ok os"
  shows "ok (CaDaemonConnectWithCaInfo os ca cmd s) (\<lambda>(r, s'). same_mem s s' \<and>
    (\<forall>fds. fd_ok os fds \<and> cmd = GET_FD \<longrightarrow>
       r < 0 \<and> fds (world s') = fds (world s) \<or>
       r \<ge> 0 \<and> r \<notin> fds (world s) \<and> fds (world s') = insert r (fds (world s))))"
proof (cases ca)
  case None
  then show ?thesis by (simp add: CaDaemonConnectWithCaInfo_def)
next
  case (Some c)
  obtain cRet fd s1 where rt: "connect_retry os SLEEP_COUNT (- 1, - 1) s = ((cRet, fd), s1)" by (metis surj_pair)
  note same1 = connect_retry_same [OF rt] and fds1 = connect_retry_fds [OF _ rt]
  obtain r2 w2 where w2: "os_memset_s os (world s1) = (r2, w2)" by fastforce
  obtain rc m s3 where fill: "FillMsgBuffer os c cmd (s1\<lparr>world := w2\<rparr>) = Some ((rc, m), s3)"
    and fc: "rc \<noteq> EOK \<and> same_mem (s1\<lparr>world := w2\<rparr>) s3 \<or>
      rc = EOK \<and> (\<exists>a w v. m = Some (a, \<lparr>cr_cmd = cmd, cr_caAuthInfo = c\<rparr>) \<and> a \<noteq> NULL \<and>
         bufs (s1\<lparr>world := w2\<rparr>) a = None \<and>
         s3 = s1\<lparr>world := w2\<rparr>\<lparr>bufs := (bufs (s1\<lparr>world := w2\<rparr>))(a \<mapsto> v), world := w\<rparr>)"
    and fds3': "\<forall>fds. fd_ok os fds \<longrightarrow> fds (world s3) = fds (world (s1\<lparr>world := w2\<rparr>))"
    by (rule FillMsgBuffer_spec [OF assms, of c cmd "s1\<lparr>world := w2\<rparr>"])
  have fds3: "fd_ok os fds \<Longrightarrow> fds (world s3) = fds w2" for fds using fds3' by simp
  have fds2: "fd_ok os fds \<Longrightarrow> fds w2 = fds (world s1)" for fds
    using fd_ok_frame(2) [of os fds "world s1"] w2 by simp
  define cl where "cl w = (if fd < 0 then w else os_close os fd w)" for w
  show ?thesis
  proof (cases "cRet < 0 \<or> r2 \<noteq> EOK \<or> rc \<noteq> EOK")
    case True
    let ?st = "if cRet < 0 then s1 else if r2 \<noteq> EOK then s1\<lparr>world := cl w2\<rparr> else s3\<lparr>world := cl (world s3)\<rparr>"
    have run: "CaDaemonConnectWithCaInfo os ca cmd s = Some (- 1, ?st)"
      using True by (auto simp: CaDaemonConnectWithCaInfo_def Some rt call_def w2 fill tee_close_state cl_def)
    have "fds (world ?st) = fds (world s)" if "fd_ok os fds" for fds
      using fds1 [OF that] fds2 [OF that] fds3 [OF that] by (auto simp: cl_def fd_ok_frame(1) [OF that])
    moreover have "same_mem s ?st"
      using True same1 fc by (auto intro: same_mem_trans)
    ultimately show ?thesis using run by simp
  next
    case False
    with fc obtain a v w where m: "m = Some (a, \<lparr>cr_cmd = cmd, cr_caAuthInfo = c\<rparr>)" "a \<noteq> NULL" "bufs s1 a = None"
      "s3 = s1\<lparr>bufs := (bufs s1)(a \<mapsto> v), world := w\<rparr>" by auto
    obtain r4 w4 where w4: "os_sendmsg os fd \<lparr>cr_cmd = cmd, cr_caAuthInfo = c\<rparr> w = (r4, w4)" by fastforce
    obtain r5 s5 where r5: "RecvFileDescriptor os cmd fd (s3\<lparr>world := w4\<rparr>) = (r5, s5)" by fastforce
    obtain w5 where s5: "s5 = s1\<lparr>bufs := (bufs s1)(a \<mapsto> v), world := w5\<rparr>"
      using RecvFileDescriptor_same [OF r5] m(4) by (auto elim: same_memE)
    have run: "CaDaemonConnectWithCaInfo os ca cmd s =
        (if r4 < 0 then Some (SEND_MESS_ERR, s1\<lparr>world := cl w4\<rparr>) else Some (r5, s1\<lparr>world := cl w5\<rparr>))"
      using False r5 m(2,3)
      by (simp add: CaDaemonConnectWithCaInfo_def Some rt call_def w2 fill m(1,4) w4 s5 tee_close_state cl_def
          free_buf_fresh)
    have "r4 < 0 \<and> fds (cl w4) = fds (world s) \<or> \<not> r4 < 0 \<and>
        (r5 < 0 \<and> fds (cl w5) = fds (world s) \<or>
         r5 \<ge> 0 \<and> r5 \<notin> fds (world s) \<and> fds (cl w5) = insert r5 (fds (world s)))"
      if ok: "fd_ok os fds" and cmd: "cmd = GET_FD" for fds
    proof -
      have "fd \<ge> 0" "fd \<notin> fds (world s)" "fds (world s1) = insert fd (fds (world s))"
        using fds1 [OF ok] False by auto
      moreover have "fds w4 = fds (world s1)"
        using fds2 [OF ok] fds3 [OF ok] m(4) w4 fd_ok_frame(8) [OF ok, of fd "\<lparr>cr_cmd = cmd, cr_caAuthInfo = c\<rparr>" w] by simp
      moreover have "r5 < 0 \<and> fds w5 = fds w4 \<or> r5 \<ge> 0 \<and> r5 \<notin> fds w4 \<and> fds w5 = insert r5 (fds w4)"
        using RecvFileDescriptor_fds [OF ok r5 [unfolded cmd]] s5 by simp
      ultimately show ?thesis
        by (auto simp: cl_def fd_ok_frame(1) [OF ok])
    qed
    with run same1 show ?thesis by auto
  qed
qed

lemma ConnectWithoutCaInfo_spec:
  assumes "malloc_ok os"
  shows "ok (CaDaemonConnectWithoutCaInfo os s) (\<lambda>(r, s'). same_mem s s' \<and>
    (\<forall>fds. fd_ok os fds \<longrightarrow>
       r < 0 \<and> fds (world s') = fds (world s) \<or>
       r \<ge> 0 \<and> r \<notin> fds (world s) \<and> fds (world s') = insert r (fds (world s))))"
proof -
  obtain r w where w: "os_memset_s os (world s) = (r, w)" by fastforce
  have fw: "fd_ok os fds \<Longrightarrow> fds w = fds (world s)" for fds
    using fd_ok_frame(2) [of os fds "world s"] w by simp
  show ?thesis
  proof (cases "r = EOK")
    case True
    obtain r' s' where run: "CaDaemonConnectWithCaInfo os (Some zero_ca) GET_FD (s\<lparr>world := w\<rparr>) = Some (r', s')"
      and same: "same_mem s s'" and rel: "\<forall>fds. fd_ok os fds \<longrightarrow>
       r' < 0 \<and> fds (world s') = fds w \<or> r' \<ge> 0 \<and> r' \<notin> fds w \<and> fds (world s') = insert r' (fds w)"
      using CaDaemonConnect_spec [OF assms, of "Some zero_ca" GET_FD "s\<lparr>world := w\<rparr>"] by (auto simp: ok_iff)
    have "r' < 0 \<and> fds (world s') = fds (world s) \<or>
       r' \<ge> 0 \<and> r' \<notin> fds (world s) \<and> fds (world s') = insert r' (fds (world s))" if "fd_ok os fds" for fds
      using rel fw [OF that] that by auto
    with True w run same show ?thesis by (simp add: CaDaemonConnectWithoutCaInfo_def call_def)
  next
    case False
    with w fw show ?thesis by (auto simp: CaDaemonConnectWithoutCaInfo_def call_def)
  qed
qed

section \<open>Properties\<close>

text \<open>
  C33.  Connecting to the daemon leaks neither descriptors nor memory: on every path the socket is
  closed and the message is freed; a failure leaves the open descriptors as they were, and a
  success adds exactly the descriptor that is returned.
\<close>

theorem connect_leaks_nothing:
  assumes "malloc_ok os" and "fd_ok os fds"
  shows "\<exists>r s'. CaDaemonConnectWithoutCaInfo os s = Some (r, s') \<and> same_mem s s' \<and>
    (r < 0 \<and> fds (world s') = fds (world s) \<or>
     r \<ge> 0 \<and> r \<notin> fds (world s) \<and> fds (world s') = insert r (fds (world s)))"
  using ConnectWithoutCaInfo_spec [OF assms(1), of s] assms(2) by (auto simp: ok_iff)

lemma sim_fd_ok: "fd_ok sim_os (\<lambda>w. set (sim_fds w))"
proof -
  note fresh = sim_open_fresh
  have "fd_socket sim_os (\<lambda>w. set (sim_fds w))"
    unfolding fd_socket_def
  proof (intro allI impI disjI2)
    fix w fd w' assume "os_socket sim_os w = (fd, w')"
    then have "fd = fst (sim_open w)" "w' = snd (sim_open w)" by (simp_all add: sim_os_def)
    with fresh(1) [of fd w] fresh(2,3) [of w] show "0 \<le> fd \<and> fd \<notin> set (sim_fds w) \<and> set (sim_fds w') = insert fd (set (sim_fds w))"
      by auto
  qed
  moreover have "fd_recvmsg sim_os (\<lambda>w. set (sim_fds w))"
    unfolding fd_recvmsg_def
  proof (intro allI impI)
    fix fd w res v cms w' assume "os_recvmsg sim_os fd w = ((res, v, cms), w')"
    then have "res = 1" "cms = [\<lparr>cm_rights = True, cm_data = fst (sim_open w)\<rparr>]" "w' = snd (sim_open w)"
      by (simp_all add: sim_os_def sim_recv_def case_prod_beta Let_def)
    with fresh(1) [of "fst (sim_open w)" w] fresh(2,3) [of w]
    show "length cms \<le> 1 \<and> (res \<le> 0 \<longrightarrow> cms = []) \<and>
        (\<forall>m \<in> set cms. cm_rights m \<longrightarrow> cm_data m \<ge> 0 \<and> cm_data m \<notin> set (sim_fds w)) \<and>
        set (sim_fds w') = set (sim_fds w) \<union> {cm_data m |m. m \<in> set cms \<and> cm_rights m}"
      by auto
  qed
  ultimately show ?thesis
    by (auto simp: fd_ok_def sim_os_def sim_page_def Let_def)
qed

theorem connect_leaks_nothing_witness:
  "\<exists>r s'. CaDaemonConnectWithoutCaInfo sim_os empty_api = Some (r, s') \<and> same_mem empty_api s'"
  using connect_leaks_nothing [OF sim_malloc_ok sim_fd_ok, of empty_api] by blast

end
