(* ===== verification/C_String.thy ===== *)
theory C_String
  imports Prelude
begin

unbundle bit_operations_syntax

text \<open>
  C strings and byte buffers.  A string is the list of its characters without the terminating
  NUL; \<open>cstr\<close> reads one out of a byte array, and a missing NUL is undefined behaviour.  The
  bounded string functions of the \<open>securec\<close> library, which is not part of the repository, are the
  record \<open>securec\<close> of parameters; \<open>securec_ok\<close> is their documented contract.
\<close>

section \<open>Standard string functions\<close>

text \<open>\<open>strstr\<close>: the offset of the first occurrence, or \<open>None\<close> for a null result.\<close>

fun strstr :: "string \<Rightarrow> string \<Rightarrow> nat option" where
  "strstr [] needle = (if needle = [] then Some 0 else None)"
| "strstr (c # hay) needle = (if prefix needle (c # hay) then Some 0 else map_option Suc (strstr hay needle))"

definition strnlen :: "string \<Rightarrow> nat \<Rightarrow> nat" where
  "strnlen t n = min (length t) n"

text \<open>\<open>strncmp(a, b, n)\<close> is zero: the first \<open>n\<close> characters agree, up to the end of both strings.\<close>

definition strncmp0 :: "string \<Rightarrow> string \<Rightarrow> nat \<Rightarrow> bool" where
  "strncmp0 a b n \<longleftrightarrow> take n a = take n b"

text \<open>
  \<open>strtok_r(s, "/", &rest)\<close> on a fresh string: the token, and what the saved pointer points to.
  When no delimiter follows the token, the saved pointer is not a usable pointer to the rest of
  the string (POSIX leaves it unspecified and musl sets it to null).
\<close>

definition strtok_slash :: "string \<Rightarrow> (string \<times> string option) option" where
  "strtok_slash t =
     (let u = dropWhile (\<lambda>c. c = CHR ''/'') t
      in if u = [] then None
         else Some (takeWhile (\<lambda>c. c \<noteq> CHR ''/'') u,
                    case dropWhile (\<lambda>c. c \<noteq> CHR ''/'') u of [] \<Rightarrow> None | _ # r \<Rightarrow> Some r))"

text \<open>\<open>%u\<close>\<close>

fun dec_digits :: "nat \<Rightarrow> string" where
  "dec_digits n =
     (if n < 10 then [''0123456789'' ! n] else dec_digits (n div 10) @ [''0123456789'' ! (n mod 10)])"

declare dec_digits.simps [simp del]

text \<open>The number that a string of decimal digits denotes.\<close>

definition dec_value :: "string \<Rightarrow> nat" where
  "dec_value ds = foldl (\<lambda>v c. 10 * v + (of_char c - 48)) 0 ds"

section \<open>Bytes\<close>

definition chr_of :: "u8 \<Rightarrow> char" where
  "chr_of b = char_of (unat b)"

definition byte_of :: "char \<Rightarrow> u8" where
  "byte_of c = of_nat (of_char c)"

text \<open>The C string at an offset of a byte array.\<close>

definition cstr :: "u8 list \<Rightarrow> nat \<Rightarrow> string option" where
  "cstr bs off =
     (if 0 \<in> set (drop off bs) then Some (map chr_of (takeWhile (\<lambda>b. b \<noteq> 0) (drop off bs))) else None)"

text \<open>A little-endian field of \<open>n\<close> bytes at an offset in a structure that was read whole.\<close>

definition le_field :: "u8 list \<Rightarrow> nat \<Rightarrow> nat \<Rightarrow> u32" where
  "le_field bs off n = foldr (\<lambda>i acc. push_bit (8 * i) (ucast (bs ! (off + i))) OR acc) [0..<n] 0"

text \<open>Reading and writing a 32-bit field of a buffer; a field outside of it is undefined behaviour.\<close>

definition get_u32 :: "u8 list \<Rightarrow> nat \<Rightarrow> u32 option" where
  "get_u32 bs off = (if off + 4 \<le> length bs then Some (le_field bs off 4) else None)"

definition put_bytes :: "u8 list \<Rightarrow> nat \<Rightarrow> u8 list \<Rightarrow> u8 list option" where
  "put_bytes bs off xs =
     (if off + length xs \<le> length bs then Some (take off bs @ xs @ drop (off + length xs) bs) else None)"

definition le_bytes :: "u32 \<Rightarrow> u8 list" where
  "le_bytes w = map (\<lambda>i. ucast (drop_bit (8 * i) w)) [0..<4]"

definition put_u32 :: "u8 list \<Rightarrow> nat \<Rightarrow> u32 \<Rightarrow> u8 list option" where
  "put_u32 bs off w = put_bytes bs off (le_bytes w)"

definition get_bytes :: "u8 list \<Rightarrow> nat \<Rightarrow> nat \<Rightarrow> u8 list option" where
  "get_bytes bs off n = (if off + n \<le> length bs then Some (take n (drop off bs)) else None)"

section \<open>The secure string library\<close>

text \<open>
  Destination size, old content of the destination where it matters, source, and the limit on the
  characters taken from the source; the result is the return code and the new content.
\<close>

record securec =
  strncpy_s :: "nat \<Rightarrow> string \<Rightarrow> nat \<Rightarrow> int \<times> string"
  strncat_s :: "nat \<Rightarrow> string \<Rightarrow> string \<Rightarrow> nat \<Rightarrow> int \<times> string"
  memcpy_s :: "nat \<Rightarrow> string \<Rightarrow> int \<times> string"
  snprintf_s :: "nat \<Rightarrow> nat \<Rightarrow> string \<Rightarrow> int \<times> string"

text \<open>
  The contract: a call succeeds exactly if the result and its NUL fit into the destination (for
  \<open>memcpy_s\<close>, which adds no NUL, if the bytes fit), and then the result is the whole text.
\<close>

definition securec_ok :: "securec \<Rightarrow> bool" where
  "securec_ok sc \<longleftrightarrow>
     (\<forall>m t n. if min n (length t) < m then strncpy_s sc m t n = (0, take n t)
              else fst (strncpy_s sc m t n) \<noteq> 0) \<and>
     (\<forall>m d t n. if length d + min n (length t) < m then strncat_s sc m d t n = (0, d @ take n t)
                else fst (strncat_s sc m d t n) \<noteq> 0) \<and>
     (\<forall>m t. if length t \<le> m then memcpy_s sc m t = (0, t) else fst (memcpy_s sc m t) \<noteq> 0) \<and>
     (\<forall>m n t. if length t < m \<and> length t \<le> n then snprintf_s sc m n t = (int (length t), t)
              else fst (snprintf_s sc m n t) = - 1)"

text \<open>An implementation of the contract.\<close>

definition securec_ref :: securec where
  "securec_ref = \<lparr>
     strncpy_s = \<lambda>m t n. if min n (length t) < m then (0, take n t) else (34, []),
     strncat_s = \<lambda>m d t n. if length d + min n (length t) < m then (0, d @ take n t) else (34, []),
     memcpy_s = \<lambda>m t. if length t \<le> m then (0, t) else (34, []),
     snprintf_s = \<lambda>m n t. if length t < m \<and> length t \<le> n then (int (length t), t) else (- 1, [])\<rparr>"

section \<open>Rules\<close>

lemma chr_of_byte_of [simp]: "chr_of (byte_of c) = c"
proof -
  have "of_char c mod (256 :: nat) = of_char c" by simp
  then show ?thesis by (simp add: chr_of_def byte_of_def unat_of_nat take_bit_eq_mod)
qed

lemma strstr_0_iff: "strstr hay needle = Some 0 \<longleftrightarrow> prefix needle hay"
  by (cases hay) auto

lemma strstr_Some_iff: "strstr hay needle \<noteq> None \<longleftrightarrow> sublist needle hay"
proof (induction hay)
  case (Cons c hay)
  then show ?case by (simp add: sublist_Cons_right)
qed simp

lemma strstr_None_iff: "strstr hay needle = None \<longleftrightarrow> \<not> sublist needle hay"
  using strstr_Some_iff [of hay needle] by auto

lemma securec_ref_ok: "securec_ok securec_ref"
  by (simp add: securec_ok_def securec_ref_def)

lemma strncpy_s_ok:
  assumes "securec_ok sc"
  shows "strncpy_s sc m t n = (0, r) \<longleftrightarrow> min n (length t) < m \<and> r = take n t"
    and "fst (strncpy_s sc m t n) = 0 \<longleftrightarrow> min n (length t) < m"
  using assms unfolding securec_ok_def by (metis fst_conv prod.inject)+

lemma strncat_s_ok:
  assumes "securec_ok sc"
  shows "strncat_s sc m d t n = (0, r) \<longleftrightarrow> length d + min n (length t) < m \<and> r = d @ take n t"
    and "fst (strncat_s sc m d t n) = 0 \<longleftrightarrow> length d + min n (length t) < m"
  using assms unfolding securec_ok_def by (metis fst_conv prod.inject)+

lemma memcpy_s_ok:
  assumes "securec_ok sc"
  shows "memcpy_s sc m t = (0, r) \<longleftrightarrow> length t \<le> m \<and> r = t"
    and "fst (memcpy_s sc m t) = 0 \<longleftrightarrow> length t \<le> m"
  using assms unfolding securec_ok_def by (metis fst_conv prod.inject)+

lemma snprintf_s_ok:
  assumes "securec_ok sc"
  shows "fst (snprintf_s sc m n t) = - 1 \<longleftrightarrow> \<not> (length t < m \<and> length t \<le> n)"
    and "fst (snprintf_s sc m n t) \<noteq> - 1 \<Longrightarrow> snprintf_s sc m n t = (int (length t), t)"
proof -
  have *: "if length t < m \<and> length t \<le> n then snprintf_s sc m n t = (int (length t), t)
           else fst (snprintf_s sc m n t) = - 1"
    using assms unfolding securec_ok_def by blast
  show "fst (snprintf_s sc m n t) = - 1 \<longleftrightarrow> \<not> (length t < m \<and> length t \<le> n)"
    using * by (auto split: if_splits)
  show "fst (snprintf_s sc m n t) \<noteq> - 1 \<Longrightarrow> snprintf_s sc m n t = (int (length t), t)"
    using * by (auto split: if_splits)
qed

lemma length_put_bytes: "put_bytes bs off xs = Some ys \<Longrightarrow> length ys = length bs"
  by (auto simp: put_bytes_def split: if_splits)

lemma get_put_bytes: "put_bytes bs off xs = Some ys \<Longrightarrow> get_bytes ys off (length xs) = Some xs"
  by (auto simp: put_bytes_def get_bytes_def split: if_splits)

lemma length_le_bytes [simp]: "length (le_bytes w) = 4"
  by (simp add: le_bytes_def)

lemma bit_foldr_bytes:
  "bit (foldr (\<lambda>i acc. push_bit (8 * i) (ucast (f i :: u8)) OR acc) xs (0 :: u32)) k \<longleftrightarrow>
     (\<exists>i \<in> set xs. 8 * i \<le> k \<and> k < 32 \<and> bit (f i) (k - 8 * i))"
  by (induction xs) (auto simp: bit_simps)

lemma le_field_le_bytes: "le_field (take off bs @ le_bytes w @ zs) off 4 = w" if "off \<le> length bs"
proof (rule bit_word_eqI)
  fix k assume "k < LENGTH(32)"
  then have k: "k < 32" by simp
  have at: "(take off bs @ le_bytes w @ zs) ! (off + i) = ucast (drop_bit (8 * i) w)" if "i < 4" for i
    using that \<open>off \<le> length bs\<close> by (simp add: nth_append le_bytes_def)
  have "bit (le_field (take off bs @ le_bytes w @ zs) off 4) k \<longleftrightarrow>
      (\<exists>i<4. 8 * i \<le> k \<and> bit (ucast (drop_bit (8 * i) w) :: u8) (k - 8 * i))"
    using k by (simp add: le_field_def bit_foldr_bytes at Bex_def cong: conj_cong)
  also have "\<dots> \<longleftrightarrow> bit w k"
  proof
    assume "\<exists>i<4. 8 * i \<le> k \<and> bit (ucast (drop_bit (8 * i) w) :: u8) (k - 8 * i)"
    then show "bit w k" by (auto simp: bit_simps)
  next
    assume "bit w k"
    moreover have "k div 8 < 4" "8 * (k div 8) \<le> k" "k - 8 * (k div 8) < 8" using k by auto
    ultimately show "\<exists>i<4. 8 * i \<le> k \<and> bit (ucast (drop_bit (8 * i) w) :: u8) (k - 8 * i)"
      by (intro exI [of _ "k div 8"]) (simp add: bit_simps)
  qed
  finally show "bit (le_field (take off bs @ le_bytes w @ zs) off 4) k = bit w k" .
qed

lemma get_put_u32: "put_u32 bs off w = Some ys \<Longrightarrow> get_u32 ys off = Some w"
  by (auto simp: put_u32_def put_bytes_def get_u32_def le_field_le_bytes split: if_splits)

subsection \<open>Decimal digits\<close>

lemma digit_code: "d < 10 \<Longrightarrow> of_char (''0123456789'' ! d) = (48 + d :: nat)"
proof -
  have "list_all (\<lambda>d. of_char (''0123456789'' ! d) = (48 + d :: nat)) [0..<10]" by code_simp
  then show "d < 10 \<Longrightarrow> of_char (''0123456789'' ! d) = (48 + d :: nat)" by (simp add: list_all_iff)
qed

lemma dec_value_digits: "dec_value (dec_digits n) = n"
proof (induction n rule: dec_digits.induct)
  case (1 n)
  show ?case
  proof (cases "n < 10")
    case True
    then show ?thesis by (simp add: dec_digits.simps [of n] dec_value_def digit_code)
  next
    case False
    with 1 have IH: "dec_value (dec_digits (n div 10)) = n div 10" by simp
    have "dec_value (dec_digits n) = 10 * dec_value (dec_digits (n div 10)) + n mod 10"
      using False by (simp add: dec_digits.simps [of n] dec_value_def digit_code)
    then show ?thesis by (simp add: IH)
  qed
qed

lemma dec_digits_inject: "dec_digits m = dec_digits n \<Longrightarrow> m = n"
  using dec_value_digits by metis

lemma set_dec_digits: "set (dec_digits n) \<subseteq> set ''0123456789''"
proof (induction n rule: dec_digits.induct)
  case (1 n)
  have "''0123456789'' ! k \<in> set ''0123456789''" if "k < 10" for k
    using that by (intro nth_mem) simp
  then show ?case using 1 by (subst dec_digits.simps) auto
qed

lemma no_slash_dec_digits: "CHR ''/'' \<notin> set (dec_digits n)"
  using set_dec_digits [of n] by auto

lemma length_dec_digits: "length (dec_digits n) \<le> Suc k \<longleftrightarrow> n < 10 ^ Suc k"
proof (induction k arbitrary: n)
  case 0
  show ?case by (subst dec_digits.simps) (auto simp: dec_digits.simps [of "n div 10"])
next
  case (Suc k)
  show ?case
  proof (cases "n < 10")
    case True
    then have "n < 10 ^ Suc (Suc k)" by (rule less_le_trans) simp
    with True show ?thesis by (simp add: dec_digits.simps [of n])
  next
    case False
    then show ?thesis
      by (subst dec_digits.simps) (simp add: Suc [of "n div 10"] div_less_iff_less_mult mult.commute)
  qed
qed

end
