(* ===== verification/App_Load.thy ===== *)
theory App_Load
  imports Api_Sim C_String
begin

unbundle bit_operations_syntax

text \<open>
  Loading a trusted application or a library for the driver
  (\<open>src/frameworks/libteec_vendor/tee_client_app_load.c\<close>, \<open>load_sec_file.c\<close>): the name of the
  file is built from the UUID, the image header gives its length, and the whole image is read
  into a buffer that \<open>TEEC_OpenSessionInner\<close> hands to the driver and frees.
\<close>

section \<open>File names\<close>

abbreviation (input) "MAX_PATH_LEN \<equiv> (256 :: nat)"
abbreviation (input) "MAX_FILE_NAME_LEN \<equiv> (40 :: nat)"
abbreviation (input) "MAX_FILE_PATH_LEN \<equiv> (40 :: nat)"
abbreviation (input) "MAX_FILE_EXT_LEN \<equiv> (6 :: nat)"
abbreviation (input) "TEE_FEIMA_DEFAULT_PATH \<equiv> ''/vendor/etc/passthrough/teeos/ta''"
abbreviation (input) "TEE_DEFAULT_PATH \<equiv> ''/vendor/bin''"

definition hex_digit :: "nat \<Rightarrow> char" where
  "hex_digit n = ''0123456789abcdef'' ! n"

text \<open>\<open>%0nx\<close> of a word that has at most \<open>n\<close> hexadecimal digits.\<close>

definition hex_fix :: "nat \<Rightarrow> u32 \<Rightarrow> string" where
  "hex_fix n w = map (\<lambda>i. hex_digit (unat (drop_bit (4 * i) w AND 15))) (rev [0..<n])"

definition uuid_name :: "TEEC_UUID \<Rightarrow> string" where
  "uuid_name u =
     (let b = (\<lambda>i. hex_fix 2 (ucast (clockSeqAndNode u ! i)))
      in hex_fix 8 (timeLow u) @ ''-'' @ hex_fix 4 (ucast (timeMid u)) @ ''-'' @
         hex_fix 4 (ucast (timeHiAndVersion u)) @ ''-'' @ b 0 @ b 1 @ ''-'' @
         b 2 @ b 3 @ b 4 @ b 5 @ b 6 @ b 7)"

section \<open>The length of an image\<close>

abbreviation (input) "TA_HEAD_MAGIC1 \<equiv> (0xA5A55A5A :: u32)"
abbreviation (input) "TA_HEAD_MAGIC2 \<equiv> (0x55AA :: u32)"
abbreviation (input) "TA_OH_HEAD_MAGIC2 \<equiv> (0xAAAA :: u32)"
abbreviation (input) "CIPHER_LAYER_VERSION \<equiv> (3 :: u32)"
abbreviation (input) "MAX_IMAGE_LEN \<equiv> (0x800000 :: u32)"
abbreviation (input) "sizeof_TaImageHdrV3 \<equiv> (16 :: nat)"
abbreviation (input) "sizeof_TeecImageIdentity \<equiv> (8 :: nat)"
abbreviation (input) "sizeof_TeecImageHead \<equiv> (24 :: nat)"
abbreviation (input) "sizeof_TeecTaHead \<equiv> (48 :: nat)"

text \<open>\<open>fread(p, n, 1, fp)\<close> returns 1 exactly if all \<open>n\<close> bytes were read.\<close>

definition fread_struct :: "'w os \<Rightarrow> addr \<Rightarrow> nat \<Rightarrow> 'w api \<Rightarrow> u8 list option \<times> 'w api" where
  "fread_struct os fp n s =
     (let (bs, s) = call (os_fread os fp n) s in (if length bs = n then Some bs else None, s))"

record ta_version =
  tv_taHeadLen :: u32
  tv_version :: u32
  tv_contextLen :: u32
  tv_totalImgLen :: u32

text \<open>
  \<open>GetTaVersion\<close> with the values of its out parameters, which the caller initialises to zero
  (\<open>totalImgLen\<close> is left uninitialised there and is read only after it was written).
\<close>

definition GetTaVersion :: "'w os \<Rightarrow> addr \<Rightarrow> ta_version \<Rightarrow> 'w api \<Rightarrow> (int \<times> ta_version) \<times> 'w api" where
  "GetTaVersion os fp v s =
     (if fp = NULL then ((- 1, v), s)
      else let (hdr, s) = fread_struct os fp sizeof_TaImageHdrV3 s
      in case hdr of
           None \<Rightarrow> ((- 1, v), s)
         | Some bs \<Rightarrow>
             let magicNum1 = le_field bs 0 4; magicNum2 = le_field bs 4 2;
                 versionNum = le_field bs 6 2; contextLen = le_field bs 8 4
             in if magicNum1 = TA_HEAD_MAGIC1 \<and>
                   (magicNum2 = TA_HEAD_MAGIC2 \<or> magicNum2 = TA_OH_HEAD_MAGIC2) \<and> versionNum > 1
                then let v = v\<lparr>tv_taHeadLen := of_nat sizeof_TeecTaHead, tv_version := versionNum\<rparr>
                     in if versionNum \<ge> CIPHER_LAYER_VERSION
                        then ((0, v\<lparr>tv_contextLen := contextLen,
                                    tv_totalImgLen := contextLen + of_nat sizeof_TaImageHdrV3\<rparr>), s)
                        else let (r, s) = call (os_fseek os fp sizeof_TeecImageIdentity SEEK_SET) s
                             in if r \<noteq> 0 then ((- 1, v), s) else ((0, v), s)
                else let v = v\<lparr>tv_taHeadLen := of_nat sizeof_TeecImageHead\<rparr>;
                         (r, s) = call (os_fseek os fp 0 SEEK_SET) s
                     in if r \<noteq> 0 then ((- 1, v), s) else ((0, v), s))"

definition check_lenth :: "'w os \<Rightarrow> addr \<Rightarrow> u32 \<Rightarrow> u32 \<Rightarrow> 'w api \<Rightarrow> (int \<times> u32 option) \<times> 'w api" where
  "check_lenth os fp contextLen totalImgLen s =
     (if contextLen > MAX_IMAGE_LEN \<or> totalImgLen > MAX_IMAGE_LEN then ((- 1, None), s)
      else let (r, s) = call (os_fseek os fp 0 SEEK_SET) s
           in if r \<noteq> 0 then ((- 1, None), s) else ((0, Some totalImgLen), s))"

definition TEEC_GetImageLenth :: "'w os \<Rightarrow> addr \<Rightarrow> 'w api \<Rightarrow> (int \<times> u32 option) \<times> 'w api" where
  "TEEC_GetImageLenth os fp s =
     (let ((ret, v), s) =
        GetTaVersion os fp \<lparr>tv_taHeadLen = 0, tv_version = 0, tv_contextLen = 0, tv_totalImgLen = 0\<rparr> s
      in if ret \<noteq> 0 then ((ret, None), s)
         else if tv_version v \<ge> CIPHER_LAYER_VERSION
         then check_lenth os fp (tv_contextLen v) (tv_totalImgLen v) s
         else let (hd, s) = fread_struct os fp sizeof_TeecImageHead s
              in case hd of
                   None \<Rightarrow> ((- 1, None), s)
                 | Some bs \<Rightarrow>
                     let contextLen = le_field bs 0 4
                     in check_lenth os fp contextLen (contextLen + tv_taHeadLen v) s)"

section \<open>Reading the image\<close>

text \<open>\<open>fread(buf, 1, n, fp)\<close>: at most \<open>n\<close> bytes are stored, from the start of the buffer on; outside of it is undefined behaviour.\<close>

definition fread_buf :: "'w os \<Rightarrow> addr \<Rightarrow> nat \<Rightarrow> addr \<Rightarrow> 'w api \<Rightarrow> (nat \<times> 'w api) option" where
  "fread_buf os buf n fp s =
     (let (bs, s) = call (os_fread os fp n) s; bs = take n bs
      in do {
        old \<leftarrow> bufs s buf;
        new \<leftarrow> put_bytes old 0 bs;
        Some (length bs, s\<lparr>bufs := (bufs s)(buf \<mapsto> new)\<rparr>)
      })"

definition TEEC_DoReadApp ::
  "'w os \<Rightarrow> addr \<Rightarrow> TC_NS_ClientContext \<Rightarrow> 'w api \<Rightarrow> ((int \<times> TC_NS_ClientContext) \<times> 'w api) option" where
  "TEEC_DoReadApp os fp cli s =
     (let ((ret, len), s) = TEEC_GetImageLenth os fp s
      in case len of
           None \<Rightarrow> Some ((- 1, cli), s)
         | Some totalImgLen \<Rightarrow>
             if ret \<noteq> 0 then Some ((- 1, cli), s)
             else if totalImgLen = 0 \<or> totalImgLen > MAX_IMAGE_LEN then Some ((- 1, cli), s)
             else let (fileBuffer, s) = malloc_buf os (unat totalImgLen) s
             in if fileBuffer = NULL then Some ((- 1, cli), s)
                else do {
                  (readSize, s) \<leftarrow> fread_buf os fileBuffer (unat totalImgLen) fp s;
                  if readSize \<noteq> unat totalImgLen
                  then do { s \<leftarrow> free_buf fileBuffer s; Some ((- 1, cli), s) }
                  else Some ((0, cli\<lparr>cc_file_size := totalImgLen, cc_file_buffer := fileBuffer\<rparr>), s)
                })"

definition TEEC_ReadApp ::
  "'w os \<Rightarrow> TaFileInfo \<Rightarrow> string \<Rightarrow> bool \<Rightarrow> TC_NS_ClientContext \<Rightarrow> 'w api \<Rightarrow>
     ((int \<times> TC_NS_ClientContext) \<times> 'w api) option" where
  "TEEC_ReadApp os taFile loadFile defaultPath cli s =
     (if taFp taFile \<noteq> NULL then TEEC_DoReadApp os (taFp taFile) cli s
      else let (real, s) = call (os_realpath os loadFile) s
      in case real of
           None \<Rightarrow> Some ((if \<not> defaultPath then - 1 else 1, cli), s)
         | Some realLoadFile \<Rightarrow>
             let (fp, s) = call (os_fopen os realLoadFile) s
             in if fp = NULL then Some ((- 1, cli), s)
                else do {
                  (r, s) \<leftarrow> TEEC_DoReadApp os fp cli s;
                  Some (r, s\<lparr>world := os_fclose os fp (world s)\<rparr>)
                })"

text \<open>The branch of \<open>TEEC_GetApp\<close> for a caller that names no file: two default directories are tried.\<close>

definition default_app ::
  "'w os \<Rightarrow> TaFileInfo \<Rightarrow> TEEC_UUID \<Rightarrow> TC_NS_ClientContext \<Rightarrow> 'w api \<Rightarrow>
     ((int \<times> TC_NS_ClientContext) \<times> 'w api) option" where
  "default_app os ta u cli s =
     (let ((ret, fileName), s) = call (os_snprintf_s os (MAX_FILE_NAME_LEN - 1) (uuid_name u)) s
      in if ret < 0 then Some ((- 1, cli), s)
         else let filePathLen = strnlen TEE_FEIMA_DEFAULT_PATH MAX_FILE_PATH_LEN +
                                strnlen fileName MAX_FILE_NAME_LEN + MAX_FILE_EXT_LEN;
                  ((r, tempName), s) =
                    call (os_snprintf_s os filePathLen (TEE_FEIMA_DEFAULT_PATH @ ''/'' @ fileName @ ''.sec'')) s
         in if r < 0 then Some ((- 1, cli), s)
            else do {
              ((rd, cli), s) \<leftarrow> TEEC_ReadApp os ta tempName True cli s;
              if rd \<noteq> 0 then do {
                let (_, s) = call (os_memset_s os) s;
                let ((r, tempName), s) =
                  call (os_snprintf_s os filePathLen (TEE_DEFAULT_PATH @ ''/'' @ fileName @ ''.sec'')) s;
                if r < 0 then Some ((- 1, cli), s)
                else do {
                  ((rd, cli), s) \<leftarrow> TEEC_ReadApp os ta tempName True cli s;
                  if rd < 0 then Some ((- 1, cli), s) else Some ((0, cli), s)
                }
              } else Some ((ret, cli), s)
            })"

definition TEEC_GetApp ::
  "'w os \<Rightarrow> TaFileInfo option \<Rightarrow> TEEC_UUID option \<Rightarrow> TC_NS_ClientContext \<Rightarrow> 'w api \<Rightarrow>
     ((int \<times> TC_NS_ClientContext) \<times> 'w api) option" where
  "TEEC_GetApp os taFile srvUuid cli s =
     (case (taFile, srvUuid) of
        (Some ta, Some u) \<Rightarrow>
          (case taPath ta of
             Some path \<Rightarrow>
               if length path < MAX_PATH_LEN \<and> strstr path ''.sec'' \<noteq> None
               then do {
                 ((ret, cli), s) \<leftarrow> TEEC_ReadApp os ta path False cli s;
                 Some ((if ret < 0 then 0 else ret, cli), s)
               } else default_app os ta u cli s
           | None \<Rightarrow> default_app os ta u cli s)
      | _ \<Rightarrow> Some ((- 1, cli), s))"

section \<open>Sending a library to the driver\<close>

abbreviation (input) "MAX_BUFFER_LEN \<equiv> (8 * 1024 * 1024 :: int)"

definition GetImgLen :: "'w os \<Rightarrow> addr \<Rightarrow> 'w api \<Rightarrow> (int \<times> int) \<times> 'w api" where
  "GetImgLen os fp s =
     (let (r, s) = call (os_fseek os fp 0 SEEK_END) s
      in if r \<noteq> 0 then ((- 1, 0), s)
         else let (len, s) = call (os_ftell os fp) s
         in if len \<le> 0 \<or> len > MAX_BUFFER_LEN then ((- 1, len), s)
            else let (r, s) = call (os_fseek os fp 0 SEEK_SET) s
            in if r \<noteq> 0 then ((- 1, len), s) else ((0, len), s))"

text \<open>The loop body of \<open>LoadSecFile\<close>: the result and the buffer that is freed after it.\<close>

definition load_body ::
  "'w os \<Rightarrow> int \<Rightarrow> addr \<Rightarrow> SecFileType \<Rightarrow> u8 list option \<Rightarrow> 'w api \<Rightarrow> ((int \<times> addr) \<times> 'w api) option" where
  "load_body os tzFd fp fileType uuid s =
     (let ((ret, totalLen), s) = GetImgLen os fp s
      in if ret \<noteq> 0 then Some ((ret, NULL), s)
         else if totalLen \<le> 0 \<or> totalLen > MAX_BUFFER_LEN then Some ((- 1, NULL), s)
         else let (fileBuffer, s) = malloc_buf os (nat totalLen) s
         in if fileBuffer = NULL then Some ((- 1, NULL), s)
            else do {
              (readSize, s) \<leftarrow> fread_buf os fileBuffer (nat totalLen) fp s;
              Some (if int readSize \<noteq> totalLen then ((- 1, fileBuffer), s)
               else let arg = \<lparr>sl_fileType = fileType, sl_fileSize = of_int totalLen,
                               sl_uuid = replicate 16 0, sl_file_addr = ucast fileBuffer,
                               sl_file_h_addr = ucast (drop_bit 32 fileBuffer)\<rparr>;
                        (rc, arg, s) = (case uuid of None \<Rightarrow> (EOK, arg, s)
                          | Some u \<Rightarrow> (let (rc, s) = call (os_memcpy_s os) s
                                       in (rc, arg\<lparr>sl_uuid := u\<rparr>, s)))
               in if rc \<noteq> EOK then ((ret, fileBuffer), s)
                  else let (r, s) = call (os_ioctl_load os tzFd arg) s in ((r, fileBuffer), s))
            })"

definition LoadSecFile ::
  "'w os \<Rightarrow> int \<Rightarrow> addr \<Rightarrow> SecFileType \<Rightarrow> u8 list option \<Rightarrow> 'w api \<Rightarrow> (int \<times> 'w api) option" where
  "LoadSecFile os tzFd fp fileType uuid s =
     (if tzFd < 0 \<or> fp = NULL then Some (- 1, s)
      else do {
        ((ret, fileBuffer), s) \<leftarrow> load_body os tzFd fp fileType uuid s;
        s \<leftarrow> free_buf fileBuffer s;
        Some (ret, s)
      })"

definition TEEC_LoadSecfile :: "'w os \<Rightarrow> string option \<Rightarrow> int \<Rightarrow> addr \<Rightarrow> 'w api \<Rightarrow> (int \<times> 'w api) option" where
  "TEEC_LoadSecfile os filePath tzFd fp s =
     (case filePath of
        None \<Rightarrow> Some (- 1, s)
      | Some path \<Rightarrow>
          if tzFd < 0 then Some (- 1, s)
          else if fp = NULL then
            let (real, s) = call (os_realpath os path) s;
                (fpCur, s) = (case real of None \<Rightarrow> (NULL, s) | Some r \<Rightarrow> call (os_fopen os r) s)
            in if fpCur = NULL then Some (- 1, s)
               else do {
                 (ret, s) \<leftarrow> LoadSecFile os tzFd fpCur LOAD_LIB None s;
                 Some (ret, s\<lparr>world := os_fclose os fpCur (world s)\<rparr>)
               }
          else LoadSecFile os tzFd fp LOAD_LIB None s)"

section \<open>What loading promises\<close>

text \<open>
  \<open>loaded_as\<close>: bytes with the property \<open>P\<close> are in a new heap buffer, which has their size; the request names the buffer and its
  size, and nothing else changed.  \<open>app_loaded\<close>: these are not none and at most 8 MiB.
\<close>

definition loaded_as ::
  "(u8 list \<Rightarrow> bool) \<Rightarrow> TC_NS_ClientContext \<Rightarrow> 'w api \<Rightarrow> TC_NS_ClientContext \<Rightarrow> 'w api \<Rightarrow> bool" where
  "loaded_as P cli s cli' s' \<longleftrightarrow>
     (\<exists>fb bs. fb \<noteq> NULL \<and> P bs \<and> bufs s fb = None \<and>
        cli' = cli\<lparr>cc_file_size := of_nat (length bs), cc_file_buffer := fb\<rparr> \<and>
        same_mem (s\<lparr>bufs := (bufs s)(fb \<mapsto> bs)\<rparr>) s')"

definition app_loaded :: "TC_NS_ClientContext \<Rightarrow> 'w api \<Rightarrow> TC_NS_ClientContext \<Rightarrow> 'w api \<Rightarrow> bool" where
  "app_loaded = loaded_as (\<lambda>bs. bs \<noteq> [] \<and> length bs \<le> unat MAX_IMAGE_LEN)"

definition uuid_wf :: "TEEC_UUID \<Rightarrow> bool" where
  "uuid_wf u \<longleftrightarrow> length (clockSeqAndNode u) = 8"

section \<open>Lemmas\<close>

lemma loaded_asI:
  assumes "fb \<noteq> NULL" "P bs" "bufs s fb = None" "length bs = unat n"
  shows "loaded_as P cli s (cli\<lparr>cc_file_size := n, cc_file_buffer := fb\<rparr>) (s\<lparr>bufs := (bufs s)(fb \<mapsto> bs), world := w\<rparr>)"
  unfolding loaded_as_def using assms by (intro exI [of _ fb] exI [of _ bs]) simp

lemma loaded_as_mono: "loaded_as P cli s cli' s' \<Longrightarrow> (\<And>bs. P bs \<Longrightarrow> Q bs) \<Longrightarrow> loaded_as Q cli s cli' s'"
  unfolding loaded_as_def by blast

text \<open>Reading into a new buffer.\<close>

lemma fread_buf_raw:
  assumes "os_fread os fp n (world s) = (bs, w)" "bufs s a = Some old" "length old = n"
  shows "fread_buf os a n fp s =
    Some (min n (length bs), s\<lparr>bufs := (bufs s)(a \<mapsto> take n bs @ drop (length bs) old), world := w\<rparr>)"
  using assms by (auto simp: fread_buf_def call_def put_bytes_def min_def)

lemma fread_struct_same: "fread_struct os fp n s = (r, s') \<Longrightarrow> same_mem s s'"
  by (auto simp: fread_struct_def call_pair)

lemma fread_structE:
  obtains r w where "fread_struct os fp n s = (r, s\<lparr>world := w\<rparr>)"
  by (auto simp: fread_struct_def call_pair)

lemma GetTaVersion_same: "GetTaVersion os fp v s = (r, s') \<Longrightarrow> same_mem s s'"
  by (rule fread_structE [of os fp 16 s])
    (auto simp: GetTaVersion_def call_pair Let_def split: if_splits option.splits)

lemma image_no_wrap:
  assumes "c \<le> MAX_IMAGE_LEN" and "h \<le> 48"
  shows "unat (c + h :: u32) = unat c + unat h"
proof -
  have "unat c \<le> 0x800000" "unat h \<le> 48" using assms by (simp_all add: word_le_nat_alt)
  then have "unat c + unat h < 2 ^ 32" by simp
  then show ?thesis by (simp add: unat_add_lem [THEN iffD1])
qed

lemma GetImageLenth_spec:
  assumes "TEEC_GetImageLenth os fp s = ((ret, len), s')"
  shows "same_mem s s' \<and> (len = None \<longrightarrow> ret \<noteq> 0) \<and>
    (\<forall>n. len = Some n \<longrightarrow> ret = 0 \<and> n \<le> MAX_IMAGE_LEN)"
proof -
  obtain r v s1 where v: "GetTaVersion os fp \<lparr>tv_taHeadLen = 0, tv_version = 0, tv_contextLen = 0, tv_totalImgLen = 0\<rparr> s = ((r, v), s1)"
    by (metis surj_pair)
  note same1 = GetTaVersion_same [OF v]
  have len: "same_mem s s' \<and> (len = None \<longrightarrow> ret \<noteq> 0) \<and>
    (\<forall>n. len = Some n \<longrightarrow> ret = 0 \<and> n \<le> MAX_IMAGE_LEN)"
    if "check_lenth os fp c n s2 = ((ret, len), s')" "same_mem s s2" for c n s2
    using that by (auto simp: check_lenth_def call_pair split: if_splits)
  show ?thesis
  proof (cases "r = 0")
    case False
    with assms v same1 show ?thesis by (auto simp: TEEC_GetImageLenth_def)
  next
    case True
    obtain hd w where h: "fread_struct os fp 24 s1 = (hd, s1\<lparr>world := w\<rparr>)" by (rule fread_structE)
    show ?thesis
    proof (cases "tv_version v \<ge> CIPHER_LAYER_VERSION")
      case T: True
      with assms v True have "check_lenth os fp (tv_contextLen v) (tv_totalImgLen v) s1 = ((ret, len), s')"
        by (simp add: TEEC_GetImageLenth_def)
      from len [OF this] same1 show ?thesis by simp
    next
      case F: False
      show ?thesis
      proof (cases hd)
        case None
        with assms v True F h same1 show ?thesis by (auto simp: TEEC_GetImageLenth_def)
      next
        case (Some bs)
        with assms v True F h have "check_lenth os fp (le_field bs 0 4) (le_field bs 0 4 + tv_taHeadLen v) (s1\<lparr>world := w\<rparr>) = ((ret, len), s')"
          by (simp add: TEEC_GetImageLenth_def Let_def)
        from len [OF this] same1 show ?thesis by simp
      qed
    qed
  qed
qed

lemma DoReadApp_spec:
  assumes "malloc_ok os"
  shows "ok (TEEC_DoReadApp os fp cli s) (\<lambda>((r, cli'), s').
    r = 0 \<and> app_loaded cli s cli' s' \<or> r = - 1 \<and> cli' = cli \<and> same_mem s s')"
proof -
  obtain ret len s1 where l: "TEEC_GetImageLenth os fp s = ((ret, len), s1)" by (metis surj_pair)
  note spec = GetImageLenth_spec [OF l]
  show ?thesis
  proof (cases len)
    case None
    with l spec show ?thesis by (simp add: TEEC_DoReadApp_def)
  next
    case (Some n)
    obtain a s2 where m: "malloc_buf os (unat n) s1 = (a, s2)" by fastforce
    obtain bs w3 where rd: "os_fread os fp (unat n) (world s2) = (bs, w3)" by fastforce
    from spec obtain w1 where s1: "s1 = s\<lparr>world := w1\<rparr>" by (auto elim: same_memE)
    from assms m show ?thesis
    proof (cases rule: malloc_bufE)
      case fail
      with l spec m Some show ?thesis by (auto simp: TEEC_DoReadApp_def intro: same_mem_trans)
    next
      case (alloc w)
      have fresh: "bufs s a = None" using not_live_bufs [OF alloc(2)] s1 by simp
      let ?b = "take (unat n) bs @ drop (length bs) (raw_block os a (unat n))"
      have fr: "fread_buf os a (unat n) fp s2 = Some (min (unat n) (length bs), s\<lparr>bufs := (bufs s)(a \<mapsto> ?b), world := w3\<rparr>)"
        using fread_buf_raw [OF rd, of a "raw_block os a (unat n)"] alloc(3) s1 by simp
      have len: "length ?b = unat n" by simp
      then have "?b \<noteq> []" if "n \<noteq> 0" using that by (metis list.size(3) unat_eq_zero)
      moreover have "unat n \<le> unat MAX_IMAGE_LEN" if "n \<le> MAX_IMAGE_LEN" using that by (simp only: word_le_nat_alt)
      ultimately have "app_loaded cli s (cli\<lparr>cc_file_size := n, cc_file_buffer := a\<rparr>) (s\<lparr>bufs := (bufs s)(a \<mapsto> ?b), world := w3\<rparr>)"
        if "n \<noteq> 0" "n \<le> MAX_IMAGE_LEN"
        unfolding app_loaded_def using that len alloc(1) fresh by (intro loaded_asI) auto
      with l spec m Some fr alloc(1) s1 free_buf_fresh [OF alloc(1) fresh, of w3 ?b] show ?thesis
        by (auto simp: TEEC_DoReadApp_def not_less)
    qed
  qed
qed


lemma bufs_world_commute: "s\<lparr>world := w, bufs := b\<rparr> = s\<lparr>bufs := b, world := w\<rparr>"
  by simp

lemma loaded_as_world [simp]:
  "loaded_as P cli (s\<lparr>world := w\<rparr>) cli' s' = loaded_as P cli s cli' s'"
  "loaded_as P cli s cli' (s'\<lparr>world := w\<rparr>) = loaded_as P cli s cli' s'"
  by (simp_all add: loaded_as_def bufs_world_commute)

lemma app_loaded_world [simp]:
  "app_loaded cli (s\<lparr>world := w\<rparr>) cli' s' = app_loaded cli s cli' s'"
  "app_loaded cli s cli' (s'\<lparr>world := w\<rparr>) = app_loaded cli s cli' s'"
  by (simp_all add: app_loaded_def)

lemma loaded_as_trans: "same_mem s s1 \<Longrightarrow> loaded_as P cli s1 cli' s' \<Longrightarrow> loaded_as P cli s cli' s'"
  by (auto elim!: same_memE)

lemma app_loaded_trans: "same_mem s s1 \<Longrightarrow> app_loaded cli s1 cli' s' \<Longrightarrow> app_loaded cli s cli' s'"
  by (simp add: app_loaded_def loaded_as_trans)

lemma ReadApp_spec:
  assumes "malloc_ok os"
  shows "ok (TEEC_ReadApp os ta f d cli s) (\<lambda>((r, cli'), s').
    r = 0 \<and> app_loaded cli s cli' s' \<or> (r = - 1 \<or> r = 1) \<and> cli' = cli \<and> same_mem s s')"
proof -
  note read = DoReadApp_spec [OF assms, of _ cli]
  show ?thesis
    by (auto simp: TEEC_ReadApp_def call_pair Let_def split: option.split intro!: ok_mono [OF read])
qed

lemma default_app_spec:
  assumes "malloc_ok os"
  shows "ok (default_app os ta u cli s) (\<lambda>((r, cli'), s').
    app_loaded cli s cli' s' \<or> cli' = cli \<and> same_mem s s')"
proof -
  obtain r1 f w1 where w1: "os_snprintf_s os 39 (uuid_name u) (world s) = ((r1, f), w1)"
    by (metis surj_pair)
  define n where "n = strnlen TEE_FEIMA_DEFAULT_PATH MAX_FILE_PATH_LEN + strnlen f MAX_FILE_NAME_LEN + MAX_FILE_EXT_LEN"
  obtain r2 t w2 where w2: "os_snprintf_s os n (TEE_FEIMA_DEFAULT_PATH @ ''/'' @ f @ ''.sec'') w1 = ((r2, t), w2)"
    by (metis surj_pair)
  obtain rd cli1 s3 where rd: "TEEC_ReadApp os ta t True cli (s\<lparr>world := w2\<rparr>) = Some ((rd, cli1), s3)"
    and spec: "rd = 0 \<and> app_loaded cli s cli1 s3 \<or> (rd = - 1 \<or> rd = 1) \<and> cli1 = cli \<and> same_mem s s3"
    using ReadApp_spec [OF assms, of ta t True cli "s\<lparr>world := w2\<rparr>"] by (auto simp: ok_iff)
  obtain r4 w4 where w4: "os_memset_s os (world s3) = (r4, w4)" by fastforce
  obtain r5 t' w5 where w5: "os_snprintf_s os n (TEE_DEFAULT_PATH @ ''/'' @ f @ ''.sec'') w4 = ((r5, t'), w5)"
    by (metis surj_pair)
  have second: "ok (TEEC_ReadApp os ta t' True cli1 (s3\<lparr>world := w5\<rparr>)) (\<lambda>((r, cli'), s').
      r = 0 \<and> app_loaded cli1 s3 cli' s' \<or> (r = - 1 \<or> r = 1) \<and> cli' = cli1 \<and> same_mem s3 s')"
    using ReadApp_spec [OF assms, of ta t' True cli1 "s3\<lparr>world := w5\<rparr>"] by simp
  note run = default_app_def call_def w1 n_def [symmetric] w2 rd w4 w5
  show ?thesis
  proof (cases "r1 < 0 \<or> r2 < 0 \<or> rd = 0 \<or> r5 < 0")
    case True
    with spec show ?thesis by (auto simp: run simp del: append_Cons append_Nil)
  next
    case False
    with spec second show ?thesis
      by (auto simp: run simp del: append_Cons append_Nil intro: app_loaded_trans same_mem_trans elim!: ok_mono)
  qed
qed

lemma GetApp_spec:
  assumes "malloc_ok os"
  shows "ok (TEEC_GetApp os ta u cli s) (\<lambda>((r, cli'), s').
    app_loaded cli s cli' s' \<or> cli' = cli \<and> same_mem s s')"
  using default_app_spec [OF assms]
  by (auto simp: TEEC_GetApp_def split: option.split intro!: ok_mono [OF ReadApp_spec [OF assms]] elim!: ok_mono)

lemma hex_fix_length [simp]: "length (hex_fix n w) = n"
  by (simp add: hex_fix_def)

lemma hex_digit_inj: "i < 16 \<Longrightarrow> j < 16 \<Longrightarrow> hex_digit i = hex_digit j \<Longrightarrow> i = j"
proof -
  have "distinct ''0123456789abcdef''" by simp
  moreover assume "i < 16" "j < 16" "hex_digit i = hex_digit j"
  ultimately show ?thesis using nth_eq_iff_index_eq [of "''0123456789abcdef''" i j] by (simp add: hex_digit_def)
qed

lemma and_15: "w AND 15 = take_bit 4 (w :: u32)"
  by (simp add: take_bit_eq_mask mask_eq_exp_minus_1)

lemma nibble_less: "unat (take_bit 4 w :: u32) < 16"
  using take_bit_nat_less_exp [of 4 "unat w"] by (simp add: unsigned_take_bit_eq)

lemma hex_fix_inj:
  assumes "hex_fix n w = hex_fix n w'"
  shows "take_bit (4 * n) w = take_bit (4 * n) w'"
proof (rule bit_word_eqI)
  fix k assume "k < LENGTH(32)"
  have nib: "take_bit 4 (drop_bit (4 * i) w) = take_bit 4 (drop_bit (4 * i) w')" if "i < n" for i
  proof -
    from assms that have "hex_digit (unat (take_bit 4 (drop_bit (4 * i) w))) =
        hex_digit (unat (take_bit 4 (drop_bit (4 * i) w')))"
      by (simp add: hex_fix_def and_15)
    from hex_digit_inj [OF nibble_less nibble_less this] show ?thesis by (rule unsigned_word_eqI)
  qed
  show "bit (take_bit (4 * n) w) k \<longleftrightarrow> bit (take_bit (4 * n) w') k"
  proof (cases "k < 4 * n")
    case True
    then have "k div 4 < n" by (simp add: div_less_iff_less_mult mult.commute)
    from arg_cong [OF nib [OF this], of "\<lambda>x. bit x (k mod 4)"] show ?thesis
      by (simp add: bit_take_bit_iff bit_drop_bit_eq)
  next
    case False
    then show ?thesis by (simp add: bit_take_bit_iff)
  qed
qed

lemma hex_fix_ucast_inj:
  "hex_fix 8 w = hex_fix 8 w' \<Longrightarrow> w = w'"
  "hex_fix 4 (ucast (x :: u16)) = hex_fix 4 (ucast x') \<Longrightarrow> x = x'"
  "hex_fix 2 (ucast (y :: u8)) = hex_fix 2 (ucast y') \<Longrightarrow> y = y'"
proof -
  show "hex_fix 8 w = hex_fix 8 w' \<Longrightarrow> w = w'"
    using hex_fix_inj [of 8 w w'] by (simp add: take_bit_word_eq_self)
  show "x = x'" if "hex_fix 4 (ucast x) = hex_fix 4 (ucast x')"
  proof (rule bit_word_eqI)
    fix k assume "k < LENGTH(16)"
    with arg_cong [OF hex_fix_inj [OF that], of "\<lambda>z. bit z k"] show "bit x k = bit x' k"
      by (simp add: bit_take_bit_iff bit_ucast_iff)
  qed
  show "y = y'" if "hex_fix 2 (ucast y) = hex_fix 2 (ucast y')"
  proof (rule bit_word_eqI)
    fix k assume "k < LENGTH(8)"
    with arg_cong [OF hex_fix_inj [OF that], of "\<lambda>z. bit z k"] show "bit y k = bit y' k"
      by (simp add: bit_take_bit_iff bit_ucast_iff)
  qed
qed

lemma GetImgLen_same: "GetImgLen os fp s = (r, s') \<Longrightarrow> same_mem s s'"
  by (auto simp: GetImgLen_def call_pair Let_def split: if_splits)

lemma LoadSecFile_same:
  assumes "malloc_ok os"
  shows "ok (LoadSecFile os tzFd fp ft uuid s) (\<lambda>(r, s'). same_mem s s')"
proof -
  obtain ret n s1 where l: "GetImgLen os fp s = ((ret, n), s1)" by (metis surj_pair)
  obtain w1 where s1: "s1 = s\<lparr>world := w1\<rparr>" using GetImgLen_same [OF l] by (auto elim: same_memE)
  obtain a s2 where m: "malloc_buf os (nat n) s1 = (a, s2)" by fastforce
  have null: "free_buf NULL s' = Some s'" for s' :: "'a api" by (simp add: free_buf_def)
  from assms m show ?thesis
  proof (cases rule: malloc_bufE)
    case fail
    with l s1 m show ?thesis by (auto simp: LoadSecFile_def load_body_def null)
  next
    case (alloc w)
    have fresh: "bufs s a = None" using not_live_bufs [OF alloc(2)] s1 by simp
    note free = free_buf_fresh [OF alloc(1) fresh]
    have s2: "s2 = s\<lparr>bufs := (bufs s)(a \<mapsto> raw_block os a (nat n)), world := w\<rparr>" using alloc(3) s1 by simp
    obtain bs w3 where rd: "os_fread os fp (nat n) (world s2) = (bs, w3)" by fastforce
    let ?b = "take (nat n) bs @ drop (length bs) (raw_block os a (nat n))"
    have fr: "fread_buf os a (nat n) fp s2 = Some (min (nat n) (length bs), s\<lparr>bufs := (bufs s)(a \<mapsto> ?b), world := w3\<rparr>)"
      using fread_buf_raw [OF rd, of a "raw_block os a (nat n)"] s2 by simp
    show ?thesis
      using l m free alloc(1) fr by (cases uuid) (auto simp: LoadSecFile_def load_body_def null s1 call_pair Let_def)
  qed
qed

lemma TEEC_LoadSecfile_same:
  assumes "malloc_ok os"
  shows "ok (TEEC_LoadSecfile os path tzFd fp s) (\<lambda>(r, s'). same_mem s s')"
proof -
  note load = LoadSecFile_same [OF assms, of tzFd _ LOAD_LIB None]
  show ?thesis
    by (auto simp: TEEC_LoadSecfile_def call_pair Let_def split: option.split intro!: ok_mono [OF load])
qed

section \<open>Properties\<close>

text \<open>
  The file name of a trusted application determines its UUID: two UUIDs never share a file.
\<close>

lemma uuid_name_unique:
  assumes "uuid_wf u" and "uuid_wf v" and "uuid_name u = uuid_name v"
  shows "u = v"
proof -
  let ?b = "\<lambda>u i. hex_fix 2 (ucast (clockSeqAndNode u ! i) :: u32)"
  have "hex_fix 8 (timeLow u) = hex_fix 8 (timeLow v)" "hex_fix 4 (ucast (timeMid u)) = hex_fix 4 (ucast (timeMid v))"
    "hex_fix 4 (ucast (timeHiAndVersion u)) = hex_fix 4 (ucast (timeHiAndVersion v))"
    and b: "?b u 0 = ?b v 0" "?b u 1 = ?b v 1" "?b u 2 = ?b v 2" "?b u 3 = ?b v 3"
      "?b u 4 = ?b v 4" "?b u 5 = ?b v 5" "?b u 6 = ?b v 6" "?b u 7 = ?b v 7"
    using assms(3) by (auto simp: uuid_name_def)
  then have "timeLow u = timeLow v" "timeMid u = timeMid v" "timeHiAndVersion u = timeHiAndVersion v"
    by (auto dest: hex_fix_ucast_inj)
  moreover have "clockSeqAndNode u = clockSeqAndNode v"
  proof (rule nth_equalityI)
    show "length (clockSeqAndNode u) = length (clockSeqAndNode v)" using assms(1,2) by (simp add: uuid_wf_def)
    fix i assume "i < length (clockSeqAndNode u)"
    then have "i \<in> {0, 1, 2, 3, 4, 5, 6, 7}" using assms(1) by (auto simp: uuid_wf_def)
    then have "?b u i = ?b v i" using b by auto
    then show "clockSeqAndNode u ! i = clockSeqAndNode v ! i" by (rule hex_fix_ucast_inj)
  qed
  ultimately show ?thesis by simp
qed

lemma uuid_name_unique_example:
  "uuid_wf \<lparr>timeLow = 1, timeMid = 2, timeHiAndVersion = 3, clockSeqAndNode = [0, 1, 2, 3, 4, 5, 6, 255]\<rparr> \<and>
   uuid_name \<lparr>timeLow = 1, timeMid = 2, timeHiAndVersion = 3, clockSeqAndNode = [0, 1, 2, 3, 4, 5, 6, 255]\<rparr> \<noteq>
   uuid_name \<lparr>timeLow = 1, timeMid = 2, timeHiAndVersion = 3, clockSeqAndNode = [0, 1, 2, 3, 4, 5, 6, 254]\<rparr>"
proof
  show wf: "uuid_wf \<lparr>timeLow = 1, timeMid = 2, timeHiAndVersion = 3, clockSeqAndNode = [0, 1, 2, 3, 4, 5, 6, 255]\<rparr>"
    by (simp add: uuid_wf_def)
  have "uuid_wf \<lparr>timeLow = 1, timeMid = 2, timeHiAndVersion = 3, clockSeqAndNode = [0, 1, 2, 3, 4, 5, 6, 254]\<rparr>"
    by (simp add: uuid_wf_def)
  with uuid_name_unique [OF wf this]
  show "uuid_name \<lparr>timeLow = 1, timeMid = 2, timeHiAndVersion = 3, clockSeqAndNode = [0, 1, 2, 3, 4, 5, 6, 255]\<rparr> \<noteq>
      uuid_name \<lparr>timeLow = 1, timeMid = 2, timeHiAndVersion = 3, clockSeqAndNode = [0, 1, 2, 3, 4, 5, 6, 254]\<rparr>"
    by auto
qed

text \<open>A file that holds the header of a version-3 image with 100 bytes of content.\<close>

definition sim_v3 :: "sim os" where
  "sim_v3 = sim_os\<lparr>os_fread := \<lambda>fp n w.
     (take n ([0x5A, 0x5A, 0xA5, 0xA5, 0xAA, 0x55, 3, 0, 100, 0, 0, 0, 1, 0, 0, 0] @ replicate 100 0), w)\<rparr>"

text \<open>
  A version-3 image is accepted exactly if its content length and the 16 bytes of its header
  fit together in 8 MiB, and the accepted length is their sum as natural numbers: the 32-bit
  addition in the code never wraps into an accepted length.
\<close>

lemma image_length_v3:
  assumes "fp \<noteq> NULL" and "os_fread os fp 16 (world s) = (bs, w1)" and "length bs = 16"
    and "le_field bs 0 4 = TA_HEAD_MAGIC1"
    and "le_field bs 4 2 = TA_HEAD_MAGIC2 \<or> le_field bs 4 2 = TA_OH_HEAD_MAGIC2"
    and "le_field bs 6 2 \<ge> CIPHER_LAYER_VERSION"
  shows "\<exists>ret len s'. TEEC_GetImageLenth os fp s = ((ret, len), s') \<and>
    (if unat (le_field bs 8 4) + 16 > 8 * 1024 * 1024 \<or> fst (os_fseek os fp 0 SEEK_SET w1) \<noteq> 0
     then ret = - 1 \<and> len = None
     else ret = 0 \<and> map_option unat len = Some (unat (le_field bs 8 4) + 16))"
proof -
  let ?c = "le_field bs 8 4"
  have gt: "le_field bs 6 2 > 1" using assms(6) by (simp add: word_less_nat_alt word_le_nat_alt)
  have fits: "(?c > MAX_IMAGE_LEN \<or> ?c + 16 > MAX_IMAGE_LEN) \<longleftrightarrow> unat ?c + 16 > 8 * 1024 * 1024"
  proof (cases "?c > MAX_IMAGE_LEN")
    case True
    then show ?thesis by (simp add: word_less_nat_alt)
  next
    case False
    then have "unat (?c + 16) = unat ?c + 16" using image_no_wrap [of ?c 16] by simp
    with False show ?thesis by (simp add: word_less_nat_alt)
  qed
  have ver: "TEEC_GetImageLenth os fp s = check_lenth os fp ?c (?c + 16) (s\<lparr>world := w1\<rparr>)"
    using assms gt by (simp add: TEEC_GetImageLenth_def GetTaVersion_def fread_struct_def call_def Let_def)
  have sum: "\<not> ?c > MAX_IMAGE_LEN \<Longrightarrow> unat (?c + 16) = unat ?c + 16"
    using image_no_wrap [of ?c 16] by simp
  show ?thesis
    unfolding ver check_lenth_def call_pair fits using sum fits by (auto simp: Let_def)
qed

lemma image_length_v3_example:
  "\<exists>ret len s'. TEEC_GetImageLenth sim_v3 0x77 empty_api = ((ret, len), s') \<and> ret = 0 \<and> map_option unat len = Some 116"
proof -
  define bs :: "u8 list" where "bs = [0x5A, 0x5A, 0xA5, 0xA5, 0xAA, 0x55, 3, 0, 100, 0, 0, 0, 1, 0, 0, 0]"
  have rd: "os_fread sim_v3 0x77 16 (world empty_api) = (bs, world empty_api)" by (simp add: sim_v3_def bs_def)
  have f: "length bs = 16" "le_field bs 0 4 = TA_HEAD_MAGIC1" "le_field bs 4 2 = TA_HEAD_MAGIC2"
    "le_field bs 6 2 = 3" "le_field bs 8 4 = 100"
    unfolding bs_def by code_simp+
  have "fst (os_fseek sim_v3 0x77 0 SEEK_SET (world empty_api)) = 0" by (simp add: sim_v3_def sim_os_def)
  with image_length_v3 [OF _ rd f(1,2)] f(3,4,5) show ?thesis by simp
qed

text \<open>
  \<open>TEEC_LoadSecfile\<close> is defined for every path and descriptor, and releases on every path
  the buffer into which \<open>LoadSecFile\<close> reads the library.
\<close>

lemma TEEC_LoadSecfile_keeps_memory:
  assumes "malloc_ok os"
  shows "\<exists>r s'. TEEC_LoadSecfile os path tzFd fp s = Some (r, s') \<and> same_mem s s'"
  using TEEC_LoadSecfile_same [OF assms, of path tzFd fp s] by (auto simp: ok_iff)

lemma TEEC_LoadSecfile_keeps_memory_example:
  "\<exists>r s'. TEEC_LoadSecfile sim_os (Some ''/vendor/lib.sec'') 4 0x77 empty_api = Some (r, s') \<and> same_mem empty_api s'"
  by (rule TEEC_LoadSecfile_keeps_memory [OF sim_malloc_ok])

end
