(* ===== verification/Api_Session.thy ===== *)
theory Api_Session
  imports Api_Shm Ca_Socket App_Load
begin

text \<open>
  The entry points of \<open>src/frameworks/libteec_vendor/tee_client_api.c\<close>: contexts, sessions,
  commands, shared memory, cancellation, agents and secure files, as built with
  \<open>LIB_TEEC_VENDOR\<close>.  Where a function stores \<open>*returnOrigin\<close>, that value is part of the
  result; an operation that the function modifies is returned with it.
\<close>

section \<open>Initialising a context\<close>

definition ContextCountLimitCheck :: "'w api \<Rightarrow> TEEC_Result" where
  "ContextCountLimitCheck s =
     (let conCxt = foldl (\<lambda>n _. n + 1) (0 :: u32) (ctx_list s)
      in if conCxt \<ge> MAX_CXTCNT_ONECA then TEEC_FAIL else TEEC_SUCCESS)"

definition zero_ctx :: TEEC_ContextInner where
  "zero_ctx = \<lparr>ci_fd = 0, ci_session_list = [], ci_shrd_mem_list = [],
     ci_shm_bitmap = replicate NUM_OF_SHAREMEM_BITMAP 0, ci_ops_cnt = 0, ci_callFromService = False\<rparr>"

definition TEEC_InitializeContextInner :: "'w os \<Rightarrow> addr \<Rightarrow> 'w api \<Rightarrow> (TEEC_Result \<times> 'w api) option" where
  "TEEC_InitializeContextInner os context s =
     (if context = NULL then Some (TEEC_ERROR_BAD_PARAMETERS, s)
      else do {
        (fd, s) \<leftarrow> CaDaemonConnectWithoutCaInfo os s;
        if fd < 0 then Some (TEEC_ERROR_GENERIC, s)
        else do {
          s \<leftarrow> upd_ctx context (\<lambda>c. c\<lparr>ci_fd := fd, ci_ops_cnt := 1, ci_session_list := [],
                                       ci_shrd_mem_list := []\<rparr>) s;
          let (rc, s) = call (os_memset_s os) s;
          if rc \<noteq> EOK then Some (TEEC_FAIL, s\<lparr>world := os_close os fd (world s)\<rparr>)
          else do {
            s \<leftarrow> upd_ctx context (\<lambda>c. c\<lparr>ci_shm_bitmap := replicate NUM_OF_SHAREMEM_BITMAP 0\<rparr>) s;
            (lockRet, s) \<leftarrow> MutexLockContext os MutexWriteContextList s;
            if lockRet \<noteq> 0 then Some (TEEC_FAIL, s\<lparr>world := os_close os fd (world s)\<rparr>)
            else do {
              let s = s\<lparr>ctx_list := ctx_list s @ [context]\<rparr>;
              s \<leftarrow> upd_ctx context (\<lambda>c. c\<lparr>ci_ops_cnt := AtomInc (ci_ops_cnt c)\<rparr>) s;
              s \<leftarrow> MutexUnlockContext lockRet MutexWriteContextList s;
              Some (TEEC_SUCCESS, s)
            }
          }
        }
      })"

definition TEEC_InitializeContext :: "'w os \<Rightarrow> addr \<Rightarrow> 'w api \<Rightarrow> (TEEC_Result \<times> 'w api) option" where
  "TEEC_InitializeContext os context s =
     (if context = NULL then Some (TEEC_ERROR_BAD_PARAMETERS, s)
      else do {
        (lockRet, s) \<leftarrow> MutexLockContext os MutexReadContextList s;
        if lockRet \<noteq> 0 then do {
          u \<leftarrow> uctx_at s context;
          Some (TEEC_FAIL, s\<lparr>world := os_close os (uc_fd u) (world s)\<rparr>)
        }
        else if ContextCountLimitCheck s \<noteq> TEEC_SUCCESS then do {
          s \<leftarrow> MutexUnlockContext lockRet MutexReadContextList s;
          Some (TEEC_FAIL, s)
        }
        else do {
          let (inner, s) = call (os_malloc os (live s) 272) s;
          if inner = NULL then do {
            s \<leftarrow> MutexUnlockContext lockRet MutexReadContextList s;
            Some (TEEC_ERROR_GENERIC, s)
          }
          else do {
            let (rc, s) = call (os_memset_s os) s;
            if rc \<noteq> EOK then do {
              s \<leftarrow> MutexUnlockContext lockRet MutexReadContextList s;
              Some (TEEC_FAIL, s)
            }
            else do {
              let s = s\<lparr>ctxs := (ctxs s)(inner \<mapsto> zero_ctx)\<rparr>;
              (ret, s) \<leftarrow> TEEC_InitializeContextInner os inner s;
              if ret = TEEC_SUCCESS then do {
                c \<leftarrow> ctx_at s inner;
                s \<leftarrow> upd_uctx context (\<lambda>u. u\<lparr>uc_fd := ci_fd c, uc_ta_path := None,
                                             uc_session_list := [], uc_shrd_mem_list := []\<rparr>) s;
                (_, s) \<leftarrow> PutBnContext os inner s;
                s \<leftarrow> MutexUnlockContext lockRet MutexReadContextList s;
                Some (TEEC_SUCCESS, s)
              }
              else do {
                let s = s\<lparr>ctxs := (ctxs s)(inner := None)\<rparr>;
                s \<leftarrow> MutexUnlockContext lockRet MutexReadContextList s;
                Some (ret, s)
              }
            }
          }
        }
      })"

section \<open>Opening a session\<close>

text \<open>
  \<open>AddSessionList\<close> reads the links of every session in the list, so all of them must be there.
  A session that is linked into the list of another context when it is initialised again breaks
  that list: this is undefined behaviour here.
\<close>

definition AddSessionList ::
  "'w os \<Rightarrow> u32 \<Rightarrow> TEEC_UUID \<Rightarrow> addr \<Rightarrow> addr \<Rightarrow> 'w api \<Rightarrow> (TEEC_Result \<times> 'w api) option" where
  "AddSessionList os sessionId destination context session s = do {
     s \<leftarrow> upd_sess session (\<lambda>e. e\<lparr>se_session_id := sessionId, se_service_id := destination,
                                  se_ops_cnt := 1\<rparr>) s;
     (lockRet, s) \<leftarrow> pthread_mutex_lock os (SessionLock context) s;
     if lockRet \<noteq> 0 then Some (TEEC_ERROR_GENERIC, s)
     else do {
       c \<leftarrow> ctx_at s context;
       e \<leftarrow> sess_at s session;
       if \<not> list_all (\<lambda>a. sess_at s a \<noteq> None) (ci_session_list c) \<or>
          (se_head e \<noteq> NULL \<and> se_head e \<noteq> context)
       then None
       else do {
         s \<leftarrow> upd_ctx context (\<lambda>c. c\<lparr>ci_session_list :=
                                       filter (\<lambda>a. a \<noteq> session) (ci_session_list c) @ [session]\<rparr>) s;
         s \<leftarrow> upd_sess session (\<lambda>e. e\<lparr>se_head := context, se_ops_cnt := AtomInc (se_ops_cnt e)\<rparr>) s;
         s \<leftarrow> pthread_mutex_unlock (SessionLock context) s;
         Some (TEEC_SUCCESS, s)
       }
     }
   }"

abbreviation (input) "TEE_ERROR_CA_AUTH_FAIL \<equiv> (0xFFFFCFE5 :: u32)"
abbreviation (input) "TEE_ERROR_RETRY_OPEN_SESSION \<equiv> (0xFFFF920E :: u32)"
abbreviation (input) "RETRY_TIMEOUT_LEN \<equiv> (2 * 1000 * 1000 :: nat)"
abbreviation (input) "RETRY_INTERVAL \<equiv> (10 * 1000 :: nat)"

definition CheckOpensessionRetryStatus :: "u32 \<Rightarrow> bool" where
  "CheckOpensessionRetryStatus returnCode \<longleftrightarrow>
     returnCode = TEE_ERROR_CA_AUTH_FAIL \<or> returnCode = TEE_ERROR_RETRY_OPEN_SESSION"

text \<open>The loop of \<open>TEEC_DoOpenSession\<close> with \<open>n\<close> attempts left.\<close>

fun open_retry ::
  "'w os \<Rightarrow> int \<Rightarrow> nat \<Rightarrow> int \<Rightarrow> TC_NS_ClientContext \<Rightarrow> 'w api \<Rightarrow> (int \<times> TC_NS_ClientContext) \<times> 'w api" where
  "open_retry os fd 0 ret cli s = ((ret, cli), s)"
| "open_retry os fd (Suc n) ret cli s =
     (let ((ret, cli), s) = do_ioctl os fd SES_OPEN_REQ (cli\<lparr>cc_code := 0, cc_origin := TEEC_ORIGIN_API\<rparr>) s
      in if \<not> CheckOpensessionRetryStatus (cc_code cli) then ((ret, cli), s)
         else open_retry os fd n ret cli (s\<lparr>world := os_usleep os RETRY_INTERVAL (world s)\<rparr>))"

definition TEEC_DoOpenSession ::
  "'w os \<Rightarrow> int \<Rightarrow> TC_NS_ClientContext \<Rightarrow> TEEC_UUID \<Rightarrow> addr \<Rightarrow> addr \<Rightarrow> 'w api \<Rightarrow>
     ((TEEC_Result \<times> TC_NS_ClientContext) \<times> 'w api) option" where
  "TEEC_DoOpenSession os fd cli destination context session s =
     (let ((ret, cli), s) = open_retry os fd (RETRY_TIMEOUT_LEN div RETRY_INTERVAL) 0 cli s
      in if ret < 0 then Some ((TranslateRetValue ret, cli\<lparr>cc_origin := TEEC_ORIGIN_COMMS\<rparr>), s)
         else if ret > 0 then
           Some ((if cc_code cli \<noteq> 0 then cc_code cli else TEEC_ERROR_GENERIC, cli), s)
         else do {
           (r, s) \<leftarrow> AddSessionList os (cc_session_id cli) destination context session s;
           Some ((r, cli), s)
         })"

text \<open>The operation with the types of parameters 2 and 3 cleared.\<close>

definition mask_params :: "TEEC_Operation \<Rightarrow> TEEC_Operation" where
  "mask_params op = op\<lparr>op_paramTypes :=
     TEEC_PARAM_TYPES (TEEC_PARAM_TYPE_GET (op_paramTypes op) 0)
                      (TEEC_PARAM_TYPE_GET (op_paramTypes op) 1) TEEC_NONE TEEC_NONE\<rparr>"

text \<open>The part of \<open>TEEC_OpenSessionInner\<close> before the label \<open>ERROR\<close>.\<close>

definition open_session_body ::
  "'w os \<Rightarrow> u32 \<Rightarrow> TaFileInfo \<Rightarrow> addr \<Rightarrow> addr \<Rightarrow> TEEC_UUID \<Rightarrow> u32 \<Rightarrow> operation_ptr \<Rightarrow>
     TC_NS_ClientContext \<Rightarrow> 'w api \<Rightarrow>
     ((TEEC_Result \<times> TC_NS_ClientContext \<times> operation_ptr) \<times> 'w api) option" where
  "open_session_body os callingPid taFile context session destination connectionMethod operation cli s = do {
     let operation = map_option (\<lambda>(opa, op). (opa, mask_params op)) operation;
     (teecRet, s) \<leftarrow> TEEC_CheckOperation os context operation s;
     if teecRet \<noteq> TEEC_SUCCESS then Some ((teecRet, cli, operation), s)
     else do {
       ((teecRet, cli, operation), s) \<leftarrow>
         TEEC_Encode os cli session GLOBAL_CMD_ID_OPEN_SESSION
           \<lparr>lg_method = connectionMethod, lg_mdata = 0\<rparr> operation s;
       if teecRet \<noteq> TEEC_SUCCESS then Some ((teecRet, cli, operation), s)
       else do {
         let cli = cli\<lparr>cc_callingPid := callingPid\<rparr>;
         ((r, cli), s) \<leftarrow> TEEC_GetApp os (Some taFile) (Some destination) cli s;
         if r < 0 then Some ((TEEC_ERROR_TRUSTED_APP_LOAD_ERROR, cli, operation), s)
         else do {
           c \<leftarrow> ctx_at s context;
           ((r, cli), s) \<leftarrow> TEEC_DoOpenSession os (ci_fd c) cli destination context session s;
           Some ((r, cli, operation), s)
         }
       }
     }
   }"

text \<open>The result, \<open>*returnOrigin\<close> and the operation.\<close>

definition TEEC_OpenSessionInner ::
  "'w os \<Rightarrow> u32 \<Rightarrow> TaFileInfo option \<Rightarrow> addr \<Rightarrow> addr \<Rightarrow> TEEC_UUID option \<Rightarrow> u32 \<Rightarrow> addr \<Rightarrow>
     operation_ptr \<Rightarrow> 'w api \<Rightarrow> ((TEEC_Result \<times> u32 \<times> operation_ptr) \<times> 'w api) option" where
  "TEEC_OpenSessionInner os callingPid taFile context session destination connectionMethod connectionData operation s = do {
     let cli = zero_cli\<lparr>cc_origin := TEEC_ORIGIN_API, cc_file_buffer := NULL\<rparr>;
     ((teecRet, cli, operation), s) \<leftarrow>
       (case (taFile, destination) of
          (Some ta, Some dest) \<Rightarrow>
            if context = NULL \<or> session = NULL then Some ((TEEC_ERROR_BAD_PARAMETERS, cli, operation), s)
            else if connectionMethod \<noteq> TEEC_LOGIN_IDENTIFY \<or> connectionData \<noteq> NULL
            then Some ((TEEC_ERROR_BAD_PARAMETERS, cli, operation), s)
            else open_session_body os callingPid ta context session dest connectionMethod operation cli s
        | _ \<Rightarrow> Some ((TEEC_ERROR_BAD_PARAMETERS, cli, operation), s));
     s \<leftarrow> free_buf (cc_file_buffer cli) s;
     Some ((teecRet, cc_origin cli, operation), s)
   }"

definition TEEC_OpenSession ::
  "'w os \<Rightarrow> addr \<Rightarrow> addr \<Rightarrow> TEEC_UUID option \<Rightarrow> u32 \<Rightarrow> addr \<Rightarrow> operation_ptr \<Rightarrow> 'w api \<Rightarrow>
     ((TEEC_Result \<times> u32 \<times> operation_ptr) \<times> 'w api) option" where
  "TEEC_OpenSession os context session destination connectionMethod connectionData operation s =
     (case destination of
        None \<Rightarrow> Some ((TEEC_ERROR_BAD_PARAMETERS, TEEC_ORIGIN_API, operation), s)
      | Some dest \<Rightarrow>
          if context = NULL \<or> session = NULL
          then Some ((TEEC_ERROR_BAD_PARAMETERS, TEEC_ORIGIN_API, operation), s)
          else do {
            s \<leftarrow> upd_sess session (\<lambda>e. e\<lparr>se_context := context, se_service_id := dest,
                                         se_session_id := 0\<rparr>) s;
            u \<leftarrow> uctx_at s context;
            let taFile = \<lparr>taPath = uc_ta_path u, taFp = NULL\<rparr>;
            (contextInner, s) \<leftarrow> GetBnContext os context s;
            if contextInner = NULL
            then Some ((TEEC_ERROR_BAD_PARAMETERS, TEEC_ORIGIN_API, operation), s)
            else do {
              (r, s) \<leftarrow> TEEC_OpenSessionInner os 0 (Some taFile) contextInner session destination
                          connectionMethod connectionData operation s;
              (_, s) \<leftarrow> PutBnContext os contextInner s;
              Some (r, s)
            }
          })"

definition TEEC_CloseSession :: "'w os \<Rightarrow> addr \<Rightarrow> 'w api \<Rightarrow> 'w api option" where
  "TEEC_CloseSession os session s =
     (if session = NULL then Some s
      else do {
        e \<leftarrow> sess_at s session;
        if se_context e = NULL then Some s
        else do {
          (contextInner, s) \<leftarrow> GetBnContext os (se_context e) s;
          if contextInner = NULL then Some s
          else do {
            (sessionInList, s) \<leftarrow> FindAndRemoveSession os session contextInner s;
            if sessionInList = NULL then do {
              (_, s) \<leftarrow> PutBnContext os contextInner s;
              Some s
            }
            else do {
              (ret, s) \<leftarrow> TEEC_CloseSessionInner os session contextInner s;
              (_, s) \<leftarrow> PutBnContext os contextInner s;
              Some s
            }
          }
        }
      })"

section \<open>Invoking a command\<close>

definition ProcessInvokeCommand ::
  "'w os \<Rightarrow> addr \<Rightarrow> TC_NS_ClientContext \<Rightarrow> 'w api \<Rightarrow> ((TEEC_Result \<times> TC_NS_ClientContext) \<times> 'w api) option" where
  "ProcessInvokeCommand os context cli s = do {
     c \<leftarrow> ctx_at s context;
     let ((ret, cli), s) = do_ioctl os (ci_fd c) SEND_CMD_REQ cli s;
     if ret = 0 then Some ((TEEC_SUCCESS, cli), s)
     else if ret < 0 then
       Some ((TranslateRetValue (- os_errno os (world s)), cli\<lparr>cc_origin := TEEC_ORIGIN_COMMS\<rparr>), s)
     else Some ((if cc_code cli \<noteq> 0 then cc_code cli else TEEC_ERROR_GENERIC, cli), s)
   }"

definition TEEC_InvokeCommandInner ::
  "'w os \<Rightarrow> addr \<Rightarrow> addr \<Rightarrow> u32 \<Rightarrow> operation_ptr \<Rightarrow> 'w api \<Rightarrow>
     ((TEEC_Result \<times> u32 \<times> operation_ptr) \<times> 'w api) option" where
  "TEEC_InvokeCommandInner os context session commandID operation s =
     (if session = NULL \<or> context = NULL
      then Some ((TEEC_ERROR_BAD_PARAMETERS, TEEC_ORIGIN_API, operation), s)
      else do {
        (teecRet, s) \<leftarrow> TEEC_CheckOperation os context operation s;
        if teecRet \<noteq> TEEC_SUCCESS then Some ((teecRet, TEEC_ORIGIN_API, operation), s)
        else do {
          ((teecRet, cli, operation), s) \<leftarrow>
            TEEC_Encode os (zero_cli\<lparr>cc_origin := TEEC_ORIGIN_API\<rparr>) session commandID no_login operation s;
          if teecRet \<noteq> TEEC_SUCCESS then Some ((teecRet, cc_origin cli, operation), s)
          else do {
            ((teecRet, cli), s) \<leftarrow> ProcessInvokeCommand os context cli s;
            Some ((teecRet, cc_origin cli, operation), s)
          }
        }
      })"

definition TEEC_InvokeCommand ::
  "'w os \<Rightarrow> addr \<Rightarrow> u32 \<Rightarrow> operation_ptr \<Rightarrow> 'w api \<Rightarrow>
     ((TEEC_Result \<times> u32 \<times> operation_ptr) \<times> 'w api) option" where
  "TEEC_InvokeCommand os session commandID operation s =
     (if session = NULL then Some ((TEEC_ERROR_BAD_PARAMETERS, TEEC_ORIGIN_API, operation), s)
      else do {
        e \<leftarrow> sess_at s session;
        if se_context e = NULL then Some ((TEEC_ERROR_BAD_PARAMETERS, TEEC_ORIGIN_API, operation), s)
        else do {
          (contextInner, s) \<leftarrow> GetBnContext os (se_context e) s;
          ((ret, retOrigin, operation), s) \<leftarrow>
            TEEC_InvokeCommandInner os contextInner session commandID operation s;
          s \<leftarrow> (if ret = TEEC_SUCCESS
                then upd_sess session (\<lambda>e'. e'\<lparr>se_context := se_context e\<rparr>) s else Some s);
          (_, s) \<leftarrow> PutBnContext os contextInner s;
          Some ((ret, retOrigin, operation), s)
        }
      })"

section \<open>Shared memory\<close>

definition zero_shm :: TEEC_SharedMemoryInner where
  "zero_shm = \<lparr>si_buffer = NULL, si_size = 0, si_flags = 0, si_ops_cnt = 0, si_is_allocated = False,
     si_context = NULL, si_offset = 0\<rparr>"

definition MallocShrMemInner :: "'w os \<Rightarrow> 'w api \<Rightarrow> (TEEC_Result \<times> addr) \<times> 'w api" where
  "MallocShrMemInner os s =
     (let (a, s) = call (os_malloc os (live s) 72) s
      in if a = NULL then ((TEEC_FAIL, NULL), s)
         else let (rc, s) = call (os_memset_s os) s
         in if rc \<noteq> EOK then ((TEEC_FAIL, NULL), s)
            else ((TEEC_SUCCESS, a), s\<lparr>shms := (shms s)(a \<mapsto> zero_shm)\<rparr>))"

text \<open>\<open>ListInsertTail(&context->shrd_mem_list, &sharedMem->head)\<close> and the reference it counts, under the lock.\<close>

definition link_shm :: "addr \<Rightarrow> addr \<Rightarrow> 'w api \<Rightarrow> 'w api option" where
  "link_shm sharedMem context s = do {
     s \<leftarrow> upd_ctx context (\<lambda>c. c\<lparr>ci_shrd_mem_list := ci_shrd_mem_list c @ [sharedMem]\<rparr>) s;
     s \<leftarrow> upd_shm sharedMem (\<lambda>m. m\<lparr>si_ops_cnt := AtomInc (si_ops_cnt m)\<rparr>) s;
     pthread_mutex_unlock (ShrMemLock context) s
   }"

definition TEEC_RegisterSharedMemoryInner ::
  "'w os \<Rightarrow> addr \<Rightarrow> addr \<Rightarrow> 'w api \<Rightarrow> (TEEC_Result \<times> 'w api) option" where
  "TEEC_RegisterSharedMemoryInner os context sharedMem s =
     (if context = NULL \<or> sharedMem = NULL then Some (TEEC_ERROR_BAD_PARAMETERS, s)
      else do {
        m \<leftarrow> shm_at s sharedMem;
        if si_buffer m = NULL \<or> (si_flags m \<noteq> TEEC_MEM_INPUT \<and> si_flags m \<noteq> TEEC_MEM_OUTPUT \<and>
                                  si_flags m \<noteq> TEEC_MEM_INOUT)
        then Some (TEEC_ERROR_BAD_PARAMETERS, s)
        else do {
          s \<leftarrow> upd_shm sharedMem (\<lambda>m. m\<lparr>si_ops_cnt := 1, si_is_allocated := False,
                                       si_offset := - 1, si_context := context\<rparr>) s;
          (lockRet, s) \<leftarrow> pthread_mutex_lock os (ShrMemLock context) s;
          if lockRet \<noteq> 0 then Some (TEEC_ERROR_GENERIC, s)
          else do {
            s \<leftarrow> link_shm sharedMem context s;
            Some (TEEC_SUCCESS, s)
          }
        }
      })"

definition TEEC_RegisterSharedMemory ::
  "'w os \<Rightarrow> addr \<Rightarrow> addr \<Rightarrow> 'w api \<Rightarrow> (TEEC_Result \<times> 'w api) option" where
  "TEEC_RegisterSharedMemory os context sharedMem s =
     (if context = NULL \<or> sharedMem = NULL then Some (TEEC_ERROR_BAD_PARAMETERS, s)
      else do {
        s \<leftarrow> upd_ushm sharedMem (\<lambda>m. m\<lparr>sm_context := context\<rparr>) s;
        let ((ret, shmInner), s) = MallocShrMemInner os s;
        if ret \<noteq> TEEC_SUCCESS then Some (ret, s)
        else do {
          u \<leftarrow> ushm_at s sharedMem;
          s \<leftarrow> upd_shm shmInner (\<lambda>m. m\<lparr>si_buffer := sm_buffer u, si_size := sm_size u,
                                      si_flags := sm_flags u\<rparr>) s;
          (contextInner, s) \<leftarrow> GetBnContext os context s;
          (ret, s) \<leftarrow> TEEC_RegisterSharedMemoryInner os contextInner shmInner s;
          if ret = TEEC_SUCCESS then do {
            m \<leftarrow> shm_at s shmInner;
            s \<leftarrow> upd_ushm sharedMem (\<lambda>u. u\<lparr>sm_ops_cnt := si_ops_cnt m,
                                          sm_is_allocated := si_is_allocated m\<rparr>) s;
            s \<leftarrow> PutBnShrMem os shmInner s;
            (_, s) \<leftarrow> PutBnContext os contextInner s;
            Some (ret, s)
          }
          else do {
            (_, s) \<leftarrow> PutBnContext os contextInner s;
            Some (ret, free_shm shmInner s)
          }
        }
      })"

definition RelaseBufferAndClearBit :: "'w os \<Rightarrow> addr \<Rightarrow> addr \<Rightarrow> 'w api \<Rightarrow> 'w api option" where
  "RelaseBufferAndClearBit os context sharedMem s = do {
     m \<leftarrow> shm_at s sharedMem;
     let s = (if si_buffer m \<noteq> MAP_FAILED \<and> si_size m \<noteq> 0 then unmap os (si_buffer m) (si_size m) s else s);
     s \<leftarrow> ClearBitWithLock os context (si_offset m) s;
     upd_shm sharedMem (\<lambda>m. m\<lparr>si_buffer := NULL, si_offset := 0\<rparr>) s
   }"

definition CheckSharedMemoryParam :: "addr \<Rightarrow> addr \<Rightarrow> 'w api \<Rightarrow> TEEC_Result option" where
  "CheckSharedMemoryParam context sharedMem s =
     (if context = NULL \<or> sharedMem = NULL then Some TEEC_ERROR_BAD_PARAMETERS
      else do {
        m \<leftarrow> shm_at s sharedMem;
        Some (if si_flags m \<noteq> TEEC_MEM_INPUT \<and> si_flags m \<noteq> TEEC_MEM_OUTPUT \<and>
                 si_flags m \<noteq> TEEC_MEM_INOUT \<and> si_flags m \<noteq> TEEC_MEM_SHARED_INOUT
              then TEEC_ERROR_BAD_PARAMETERS else TEEC_SUCCESS)
      })"

definition AllocateSharedMem :: "'w os \<Rightarrow> addr \<Rightarrow> 'w api \<Rightarrow> (TEEC_Result \<times> 'w api) option" where
  "AllocateSharedMem os sharedMem s =
     (if sharedMem = NULL then Some (TEEC_ERROR_BAD_PARAMETERS, s)
      else do {
        m \<leftarrow> shm_at s sharedMem;
        if si_size m = 0 \<or> si_size m > MAX_SHAREDMEM_LEN then Some (TEEC_ERROR_BAD_PARAMETERS, s)
        else do {
          let (a, s) = malloc_buf os (unat (si_size m)) s;
          s \<leftarrow> upd_shm sharedMem (\<lambda>m. m\<lparr>si_buffer := a\<rparr>) s;
          if a = NULL then Some (TEEC_ERROR_OUT_OF_MEMORY, s)
          else let (rc, s) = call (os_memset_s os) s
               in Some (if rc \<noteq> EOK then TEEC_ERROR_SECURITY else TEEC_SUCCESS, s)
        }
      })"

text \<open>The buffer of an allocation: from the heap, from \<open>mmap\<close> on the driver, or the zero-size marker.\<close>

definition shm_backing :: "'w os \<Rightarrow> addr \<Rightarrow> addr \<Rightarrow> 'w api \<Rightarrow> (TEEC_Result \<times> 'w api) option" where
  "shm_backing os context sharedMem s = do {
     m \<leftarrow> shm_at s sharedMem;
     if si_flags m = TEEC_MEM_SHARED_INOUT then AllocateSharedMem os sharedMem s
     else if si_size m \<noteq> 0 then do {
       c \<leftarrow> ctx_at s context;
       let (a, s) = call (os_mmap os (live s) (si_size m) (ci_fd c) (si_offset m * os_pagesize os)) s;
       let s = (if a = MAP_FAILED then s else s\<lparr>maps := (maps s)(a \<mapsto> si_size m)\<rparr>);
       s \<leftarrow> upd_shm sharedMem (\<lambda>m. m\<lparr>si_buffer := a\<rparr>) s;
       Some (TEEC_SUCCESS, s)
     }
     else do {
       s \<leftarrow> upd_shm sharedMem (\<lambda>m. m\<lparr>si_buffer := ZERO_SIZE_PTR\<rparr>) s;
       Some (TEEC_SUCCESS, s)
     }
   }"

definition TEEC_AllocateSharedMemoryInner ::
  "'w os \<Rightarrow> addr \<Rightarrow> addr \<Rightarrow> 'w api \<Rightarrow> (TEEC_Result \<times> 'w api) option" where
  "TEEC_AllocateSharedMemoryInner os context sharedMem s = do {
     ret \<leftarrow> CheckSharedMemoryParam context sharedMem s;
     if ret \<noteq> TEEC_SUCCESS then Some (ret, s)
     else do {
       s \<leftarrow> upd_shm sharedMem (\<lambda>m. m\<lparr>si_buffer := NULL\<rparr>) s;
       (validBit, s) \<leftarrow> GetAndSetBitWithLock os context s;
       if validBit < 0 then Some (TEEC_ERROR_BAD_PARAMETERS, s)
       else do {
         s \<leftarrow> upd_shm sharedMem (\<lambda>m. m\<lparr>si_offset := uint32_of validBit\<rparr>) s;
         (ret, s) \<leftarrow> shm_backing os context sharedMem s;
         m \<leftarrow> shm_at s sharedMem;
         if ret \<noteq> TEEC_SUCCESS then do {
           s \<leftarrow> ClearBitWithLock os context (si_offset m) s;
           Some (ret, s)
         }
         else if si_buffer m = MAP_FAILED then do {
           s \<leftarrow> RelaseBufferAndClearBit os context sharedMem s;
           Some (TEEC_ERROR_OUT_OF_MEMORY, s)
         }
         else do {
           s \<leftarrow> upd_shm sharedMem (\<lambda>m. m\<lparr>si_ops_cnt := 1, si_is_allocated := True,
                                        si_context := context\<rparr>) s;
           (lockRet, s) \<leftarrow> pthread_mutex_lock os (ShrMemLock context) s;
           if lockRet \<noteq> 0 then do {
             s \<leftarrow> RelaseBufferAndClearBit os context sharedMem s;
             Some (TEEC_ERROR_GENERIC, s)
           }
           else do {
             s \<leftarrow> link_shm sharedMem context s;
             Some (TEEC_SUCCESS, s)
           }
         }
       }
     }
   }"

definition TEEC_AllocateSharedMemory ::
  "'w os \<Rightarrow> addr \<Rightarrow> addr \<Rightarrow> 'w api \<Rightarrow> (TEEC_Result \<times> 'w api) option" where
  "TEEC_AllocateSharedMemory os context sharedMem s =
     (if context = NULL \<or> sharedMem = NULL then Some (TEEC_ERROR_BAD_PARAMETERS, s)
      else do {
        s \<leftarrow> upd_ushm sharedMem (\<lambda>m. m\<lparr>sm_context := context\<rparr>) s;
        let ((ret, shmInner), s) = MallocShrMemInner os s;
        if ret \<noteq> TEEC_SUCCESS then Some (ret, s)
        else do {
          u \<leftarrow> ushm_at s sharedMem;
          s \<leftarrow> upd_shm shmInner (\<lambda>m. m\<lparr>si_size := sm_size u, si_flags := sm_flags u\<rparr>) s;
          (contextInner, s) \<leftarrow> GetBnContext os context s;
          (ret, s) \<leftarrow> TEEC_AllocateSharedMemoryInner os contextInner shmInner s;
          if ret = TEEC_SUCCESS then do {
            m \<leftarrow> shm_at s shmInner;
            s \<leftarrow> upd_ushm sharedMem (\<lambda>u. u\<lparr>sm_buffer := si_buffer m, sm_ops_cnt := si_ops_cnt m,
                                          sm_is_allocated := si_is_allocated m\<rparr>) s;
            s \<leftarrow> PutBnShrMem os shmInner s;
            (_, s) \<leftarrow> PutBnContext os contextInner s;
            Some (TEEC_SUCCESS, s)
          }
          else do {
            (_, s) \<leftarrow> PutBnContext os contextInner s;
            Some (ret, free_shm shmInner s)
          }
        }
      })"

text \<open>
  The caller's structure is passed by its contents: it lies on the caller's stack.  The result
  is the entry that was unlinked, or null (\<open>found\<close> is false).
\<close>

definition TEEC_FindAndRemoveShrMemInner ::
  "'w os \<Rightarrow> TEEC_SharedMemoryInner \<Rightarrow> addr \<Rightarrow> 'w api \<Rightarrow> (addr \<times> 'w api) option" where
  "TEEC_FindAndRemoveShrMemInner os shm contextInner s = do {
     (lockRet, s) \<leftarrow> pthread_mutex_lock os (ShrMemLock contextInner) s;
     if lockRet \<noteq> 0 then Some (NULL, s)
     else do {
       c \<leftarrow> ctx_at s contextInner;
       r \<leftarrow> find_shm s
              (\<lambda>t. if ci_callFromService c \<and> si_is_allocated shm
                   then si_offset t = si_offset shm \<and> si_context t = si_context shm
                   else si_buffer t = si_buffer shm \<and> si_context t = si_context shm)
              (ci_shrd_mem_list c);
       s \<leftarrow> (case r of None \<Rightarrow> Some s
             | Some a \<Rightarrow> upd_ctx contextInner
                           (\<lambda>c. c\<lparr>ci_shrd_mem_list := remove1 a (ci_shrd_mem_list c)\<rparr>) s);
       s \<leftarrow> pthread_mutex_unlock (ShrMemLock contextInner) s;
       Some (ptr_of r, s)
     }
   }"

definition TEEC_ReleaseSharedMemoryInner ::
  "'w os \<Rightarrow> TEEC_SharedMemoryInner \<Rightarrow> 'w api \<Rightarrow> 'w api option" where
  "TEEC_ReleaseSharedMemoryInner os shm s =
     (if si_context shm = NULL then Some s
      else do {
        (a, s) \<leftarrow> TEEC_FindAndRemoveShrMemInner os shm (si_context shm) s;
        if a = NULL then Some s else PutBnShrMem os a s
      })"

definition TEEC_ReleaseSharedMemory :: "'w os \<Rightarrow> addr \<Rightarrow> 'w api \<Rightarrow> 'w api option" where
  "TEEC_ReleaseSharedMemory os sharedMem s =
     (if sharedMem = NULL then Some s
      else do {
        u \<leftarrow> ushm_at s sharedMem;
        if sm_context u = NULL then Some s
        else do {
          (contextInner, s) \<leftarrow> GetBnContext os (sm_context u) s;
          s \<leftarrow> TEEC_ReleaseSharedMemoryInner os
                 (zero_shm\<lparr>si_buffer := sm_buffer u, si_size := sm_size u, si_flags := sm_flags u,
                           si_ops_cnt := sm_ops_cnt u, si_is_allocated := sm_is_allocated u,
                           si_context := contextInner\<rparr>) s;
          (_, s) \<leftarrow> PutBnContext os contextInner s;
          upd_ushm sharedMem (\<lambda>u. u\<lparr>sm_buffer := NULL, sm_size := 0, sm_flags := 0,
                                   sm_ops_cnt := 0, sm_context := NULL\<rparr>) s
        }
      })"

section \<open>Cancellation, agents, secure files\<close>

definition TC_NS_CLIENT_IOCTL_CANCEL_CMD_REQ :: u32 where
  "TC_NS_CLIENT_IOCTL_CANCEL_CMD_REQ = 0xC0A0740D"

definition TEEC_RequestCancellation ::
  "'w os \<Rightarrow> operation_ptr \<Rightarrow> 'w api \<Rightarrow> (operation_ptr \<times> 'w api) option" where
  "TEEC_RequestCancellation os operation s =
     (case operation of
        None \<Rightarrow> Some (operation, s)
      | Some (opa, op) \<Rightarrow>
          let session = op_session op
          in if session = NULL then Some (operation, s)
             else do {
               e \<leftarrow> sess_at s session;
               if se_context e = NULL then Some (operation, s)
               else do {
                 (contextInner, s) \<leftarrow> GetBnContext os (se_context e) s;
                 (teecRet, s) \<leftarrow> TEEC_CheckOperation os contextInner operation s;
                 (_, s) \<leftarrow> PutBnContext os contextInner s;
                 if teecRet \<noteq> TEEC_SUCCESS then Some (operation, s)
                 else do {
                   ((teecRet, cli, operation), s) \<leftarrow>
                     TEEC_Encode os zero_cli session TC_NS_CLIENT_IOCTL_CANCEL_CMD_REQ no_login operation s;
                   if teecRet \<noteq> TEEC_SUCCESS then Some (operation, s)
                   else do {
                     u \<leftarrow> uctx_at s (se_context e);
                     let (_, s) = do_ioctl os (uc_fd u) CANCEL_CMD_REQ cli s;
                     Some (operation, s)
                   }
                 }
               }
             })"

abbreviation (input) "AGENT_BUFF_SIZE \<equiv> (0x1000 :: u32)"

text \<open>The result with the values of \<open>*devFd\<close> and \<open>*buffer\<close>, which only success sets.\<close>

definition TEEC_EXT_RegisterAgent ::
  "'w os \<Rightarrow> u32 \<Rightarrow> bool \<Rightarrow> bool \<Rightarrow> 'w api \<Rightarrow> ((TEEC_Result \<times> (int \<times> addr) option) \<times> 'w api) option" where
  "TEEC_EXT_RegisterAgent os agentId devFdNull bufferNull s =
     (if devFdNull \<or> bufferNull then Some ((TEEC_ERROR_GENERIC, None), s)
      else do {
        (fd, s) \<leftarrow> CaDaemonConnectWithoutCaInfo os s;
        if fd < 0 then Some ((TEEC_ERROR_GENERIC, None), s)
        else let ((ret, buffer), s) = call (os_ioctl_register os fd agentId AGENT_BUFF_SIZE) s
             in if ret \<noteq> 0 then Some ((TEEC_ERROR_GENERIC, None), s\<lparr>world := os_close os fd (world s)\<rparr>)
                else Some ((TEEC_SUCCESS, Some (fd, buffer)), s)
      })"

definition TEEC_EXT_WaitEvent :: "'w os \<Rightarrow> u32 \<Rightarrow> int \<Rightarrow> 'w api \<Rightarrow> TEEC_Result \<times> 'w api" where
  "TEEC_EXT_WaitEvent os agentId devFd s =
     (let (ret, s) = call (os_ioctl_agent os devFd WAIT_EVENT agentId) s
      in (if ret \<noteq> 0 then TEEC_ERROR_GENERIC else TEEC_SUCCESS, s))"

definition TEEC_EXT_SendEventResponse :: "'w os \<Rightarrow> u32 \<Rightarrow> int \<Rightarrow> 'w api \<Rightarrow> TEEC_Result \<times> 'w api" where
  "TEEC_EXT_SendEventResponse os agentId devFd s =
     (let (ret, s) = call (os_ioctl_agent os devFd SEND_EVENT_RESPONSE agentId) s
      in (if ret \<noteq> 0 then TEEC_ERROR_GENERIC else TEEC_SUCCESS, s))"

text \<open>\<open>buffer\<close> is \<open>None\<close> for a null pointer and else the value of \<open>*buffer\<close>; the result has its new value.\<close>

definition TEEC_EXT_UnregisterAgent ::
  "'w os \<Rightarrow> u32 \<Rightarrow> int \<Rightarrow> addr option \<Rightarrow> 'w api \<Rightarrow> (TEEC_Result \<times> addr option) \<times> 'w api" where
  "TEEC_EXT_UnregisterAgent os agentId devFd buffer s =
     (if buffer = None \<or> buffer = Some NULL then ((TEEC_ERROR_BAD_PARAMETERS, buffer), s)
      else if devFd < 0 then ((TEEC_ERROR_BAD_PARAMETERS, buffer), s)
      else let (ret, s) = call (os_ioctl_agent os devFd UNREGISTER_AGENT agentId) s
           in ((if ret \<noteq> 0 then TEEC_ERROR_GENERIC else TEEC_SUCCESS, Some NULL),
               s\<lparr>world := os_close os devFd (world s)\<rparr>))"

definition TEEC_SendSecfileInner ::
  "'w os \<Rightarrow> string option \<Rightarrow> int \<Rightarrow> addr \<Rightarrow> 'w api \<Rightarrow> (TEEC_Result \<times> 'w api) option" where
  "TEEC_SendSecfileInner os path tzFd fp s =
     (if path = None then Some (TEEC_ERROR_BAD_PARAMETERS, s)
      else do {
        (ret, s) \<leftarrow> TEEC_LoadSecfile os path tzFd fp s;
        Some (if ret < 0 then TEEC_ERROR_TRUSTED_APP_LOAD_ERROR else TEEC_SUCCESS, s)
      })"

definition TEEC_SendSecfile ::
  "'w os \<Rightarrow> string option \<Rightarrow> addr \<Rightarrow> 'w api \<Rightarrow> (TEEC_Result \<times> 'w api) option" where
  "TEEC_SendSecfile os path session s =
     (if path = None \<or> session = NULL then Some (TEEC_ERROR_BAD_PARAMETERS, s)
      else do {
        e \<leftarrow> sess_at s session;
        if se_context e = NULL then Some (TEEC_ERROR_BAD_PARAMETERS, s)
        else do {
          (contextInner, s) \<leftarrow> GetBnContext os (se_context e) s;
          if contextInner = NULL then Some (TEEC_ERROR_BAD_PARAMETERS, s)
          else do {
            c \<leftarrow> ctx_at s contextInner;
            (ret, s) \<leftarrow> TEEC_SendSecfileInner os path (ci_fd c) NULL s;
            (_, s) \<leftarrow> PutBnContext os contextInner s;
            Some (ret, s)
          }
        }
      })"

end
