(* ===== verification/Api_Inv.thy ===== *)
theory Api_Inv
  imports Api_Session Api_Sim
begin

text \<open>
  The invariant of the client library's state and its first consequences.  \<open>H\<close> counts, for each
  context, the references that calls in progress hold: \<open>wf_api H s\<close> says that every context's
  counter is that number plus one for the global list, that the lists of a context contain no
  duplicates and only live structures that point back to it, that two allocated blocks of a
  context never share a slot of its bit map, and that no two blocks share a heap buffer.

  The lemmas show how single assignments preserve the invariant, that the lookups find live
  contexts and sessions, and that adding, unlinking and closing a session preserve it.
\<close>

section \<open>Invariant\<close>

definition sess_ok :: "'w api \<Rightarrow> addr \<Rightarrow> addr \<Rightarrow> bool" where
  "sess_ok s c a \<longleftrightarrow> (case sess_at s a of None \<Rightarrow> False | Some e \<Rightarrow> se_head e = c)"

definition shm_ok :: "'w api \<Rightarrow> addr \<Rightarrow> u8 list \<Rightarrow> addr \<Rightarrow> bool" where
  "shm_ok s c bm a \<longleftrightarrow>
     (case shm_at s a of None \<Rightarrow> False
      | Some m \<Rightarrow> si_context m = c \<and> si_ops_cnt m = 1 \<and>
          (si_is_allocated m \<longrightarrow> unat (si_offset m) \<in> slots bm \<and>
             (si_flags m = TEEC_MEM_SHARED_INOUT \<longrightarrow> si_buffer m = NULL \<or> bufs s (si_buffer m) \<noteq> None)))"

definition shm_slot :: "'w api \<Rightarrow> addr \<Rightarrow> u32 option" where
  "shm_slot s a = (case shm_at s a of Some m \<Rightarrow> if si_is_allocated m then Some (si_offset m) else None | None \<Rightarrow> None)"

definition slots_inj :: "'w api \<Rightarrow> addr list \<Rightarrow> bool" where
  "slots_inj s as \<longleftrightarrow> (\<forall>a \<in> set as. \<forall>b \<in> set as. shm_slot s a \<noteq> None \<longrightarrow> shm_slot s a = shm_slot s b \<longrightarrow> a = b)"

definition ctx_ok :: "(addr \<Rightarrow> nat) \<Rightarrow> 'w api \<Rightarrow> addr \<Rightarrow> TEEC_ContextInner \<Rightarrow> bool" where
  "ctx_ok H s c ci \<longleftrightarrow>
     c \<noteq> NULL \<and> unat (ci_ops_cnt ci) = (if c \<in> set (ctx_list s) then 1 else 0) + H c \<and>
     \<not> ci_callFromService ci \<and> shm_map_ok (ci_shm_bitmap ci) \<and>
     distinct (ci_session_list ci) \<and> (\<forall>a \<in> set (ci_session_list ci). sess_ok s c a) \<and>
     distinct (ci_shrd_mem_list ci) \<and> (\<forall>a \<in> set (ci_shrd_mem_list ci). shm_ok s c (ci_shm_bitmap ci) a) \<and>
     slots_inj s (ci_shrd_mem_list ci)"

definition listed :: "'w api \<Rightarrow> addr \<Rightarrow> bool" where
  "listed s a \<longleftrightarrow> (\<exists>c ci. ctxs s c = Some ci \<and> a \<in> set (ci_shrd_mem_list ci))"

definition heap_block :: "'w api \<Rightarrow> addr \<Rightarrow> addr option" where
  "heap_block s a =
     (case shm_at s a of
        Some m \<Rightarrow> if si_is_allocated m \<and> si_flags m = TEEC_MEM_SHARED_INOUT \<and> si_buffer m \<noteq> NULL
                  then Some (si_buffer m) else None
      | None \<Rightarrow> None)"

definition heap_inj :: "'w api \<Rightarrow> bool" where
  "heap_inj s \<longleftrightarrow>
     (\<forall>a b. listed s a \<longrightarrow> listed s b \<longrightarrow> heap_block s a \<noteq> None \<longrightarrow> heap_block s a = heap_block s b \<longrightarrow> a = b)"

definition wf_api :: "(addr \<Rightarrow> nat) \<Rightarrow> 'w api \<Rightarrow> bool" where
  "wf_api H s \<longleftrightarrow> distinct (ctx_list s) \<and> (\<forall>c \<in> set (ctx_list s). ctxs s c \<noteq> None) \<and>
     (\<forall>c. H c > 0 \<longrightarrow> ctxs s c \<noteq> None) \<and> (\<forall>c ci. ctxs s c = Some ci \<longrightarrow> ctx_ok H s c ci) \<and> heap_inj s"

definition keeps :: "'w api \<Rightarrow> 'w api \<Rightarrow> bool" where
  "keeps s s' \<longleftrightarrow> uctx s' = uctx s \<and> ushm s' = ushm s \<and> dom (sess s') = dom (sess s) \<and> held s' = held s"

section \<open>Frames\<close>

lemma wf_frame:
  assumes "wf_api H s" and "ctx_list s' = ctx_list s" and "ctxs s' = ctxs s" and "shms s' = shms s"
    and "\<And>a e. sess s a = Some e \<Longrightarrow> \<exists>e'. sess s' a = Some e' \<and> se_head e' = se_head e"
    and "\<And>b. bufs s b \<noteq> None \<Longrightarrow> bufs s' b \<noteq> None"
  shows "wf_api H s'"
proof -
  have shm: "shm_at s' = shm_at s" using assms(4) by (simp add: shm_at_def fun_eq_iff)
  have "sess_ok s c a \<Longrightarrow> sess_ok s' c a" for c a
    using assms(5) by (fastforce simp: sess_ok_def sess_at_def split: option.splits if_splits)
  moreover have "shm_ok s c ci a \<Longrightarrow> shm_ok s' c ci a" for c ci a
    using assms(6) by (fastforce simp: shm_ok_def shm split: option.splits)
  moreover have "slots_inj s' = slots_inj s" by (simp add: slots_inj_def shm_slot_def shm fun_eq_iff)
  ultimately have "ctx_ok H s c ci \<Longrightarrow> ctx_ok H s' c ci" for c ci
    by (simp add: ctx_ok_def assms(2))
  moreover have "heap_inj s' = heap_inj s" by (simp add: heap_inj_def heap_block_def listed_def shm assms(3))
  ultimately show ?thesis using assms(1) by (simp add: wf_api_def assms(2,3))
qed

lemma wf_cong:
  assumes "ctx_list s' = ctx_list s" and "ctxs s' = ctxs s" and "shms s' = shms s"
    and "sess s' = sess s" and "bufs s' = bufs s"
  shows "wf_api H s' = wf_api H s"
  using wf_frame [of H s s'] wf_frame [of H s' s] assms by auto

lemma wf_simps [simp]:
  "wf_api H (s\<lparr>world := w\<rparr>) = wf_api H s" "wf_api H (s\<lparr>held := L\<rparr>) = wf_api H s"
  "wf_api H (s\<lparr>uctx := u\<rparr>) = wf_api H s" "wf_api H (s\<lparr>ushm := v\<rparr>) = wf_api H s"
  "wf_api H (s\<lparr>maps := m\<rparr>) = wf_api H s"
  by (rule wf_cong; simp)+

lemma wf_ctx_at:
  assumes "wf_api H s"
  shows "ctx_at s c = ctxs s c"
proof -
  have "ctxs s NULL = None"
    using assms by (cases "ctxs s NULL") (auto simp: wf_api_def ctx_ok_def)
  then show ?thesis by (simp add: ctx_at_def)
qed

lemma wf_ctx: "wf_api H s \<Longrightarrow> ctxs s c = Some ci \<Longrightarrow> ctx_ok H s c ci"
  by (simp add: wf_api_def)

lemma wf_same_mem: "same_mem s s' \<Longrightarrow> wf_api H s' = wf_api H s"
  by (auto elim!: same_memE)

lemma keeps_refl [simp]: "keeps s s"
  by (simp add: keeps_def)

lemma keeps_trans: "keeps s s' \<Longrightarrow> keeps s' s'' \<Longrightarrow> keeps s s''"
  by (simp add: keeps_def)

lemma keeps_same_mem: "same_mem s s' \<Longrightarrow> keeps s s'"
  by (auto elim!: same_memE simp: keeps_def)


lemma ok_frame_ctxs [simp]:
  "sess_ok (s\<lparr>ctxs := m\<rparr>) = sess_ok s" "shm_ok (s\<lparr>ctxs := m\<rparr>) = shm_ok s"
  "shm_slot (s\<lparr>ctxs := m\<rparr>) = shm_slot s" "slots_inj (s\<lparr>ctxs := m\<rparr>) = slots_inj s"
  "heap_block (s\<lparr>ctxs := m\<rparr>) = heap_block s"
  by (simp_all add: sess_ok_def shm_ok_def shm_slot_def slots_inj_def heap_block_def shm_at_def sess_at_def fun_eq_iff
      cong: option.case_cong)

lemma ctx_ok_frame [simp]: "ctx_ok H (s\<lparr>ctxs := m\<rparr>) = ctx_ok H s"
  by (simp add: ctx_ok_def fun_eq_iff)

lemma wf_upd_ctx:
  assumes "wf_api H s" and "ctxs s c = Some ci" and "ctx_ok H' s c ci'"
    and "\<And>d. d \<noteq> c \<Longrightarrow> H' d = H d" and "set (ci_shrd_mem_list ci') \<subseteq> set (ci_shrd_mem_list ci)"
  shows "wf_api H' (s\<lparr>ctxs := (ctxs s)(c \<mapsto> ci')\<rparr>)"
proof -
  have "ctx_ok H' s d di" if "d \<noteq> c" "ctxs s d = Some di" for d di
    using assms(1,4) that by (auto simp: wf_api_def ctx_ok_def)
  moreover have "listed (s\<lparr>ctxs := (ctxs s)(c \<mapsto> ci')\<rparr>) a \<Longrightarrow> listed s a" for a
    using assms(2,5) by (auto simp: listed_def split: if_splits)
  then have "heap_inj (s\<lparr>ctxs := (ctxs s)(c \<mapsto> ci')\<rparr>)"
    using assms(1) unfolding wf_api_def heap_inj_def by auto
  moreover have "H' d > 0 \<Longrightarrow> ((ctxs s)(c \<mapsto> ci')) d \<noteq> None" for d
    using assms(1,4) by (auto simp: wf_api_def)
  ultimately show ?thesis
    using assms(1,3) by (auto simp: wf_api_def)
qed

text \<open>The two outcomes of taking a free lock.\<close>

lemma lock_free:
  assumes "lock_there l s" and "l \<notin> held s"
  obtains (failed) r w where "pthread_mutex_lock os l s = Some (r, s\<lparr>world := w\<rparr>)" and "r \<noteq> 0"
  | (taken) w where "pthread_mutex_lock os l s = Some (0, s\<lparr>world := w, held := insert l (held s)\<rparr>)"
proof (cases "os_mutex_lock os l (world s)")
  case (Pair r w)
  with assms show ?thesis
    by (cases "r = 0") (auto simp: pthread_mutex_lock_def intro: failed taken)
qed

section \<open>Looking up and counting references\<close>

lemma find_ctx_find:
  "(\<And>a. a \<in> set as \<Longrightarrow> ctx_at s a \<noteq> None) \<Longrightarrow>
   find_ctx s P as = Some (find (\<lambda>a. P (the (ctx_at s a))) as)"
  by (induction as) fastforce+

lemma find_sess_find:
  "(\<And>a. a \<in> set as \<Longrightarrow> sess_at s a \<noteq> None) \<Longrightarrow>
   find_sess s P as = Some (find (\<lambda>a. P (the (sess_at s a))) as)"
  by (induction as) fastforce+

lemma find_frame [simp]:
  "find_ctx (s\<lparr>world := w\<rparr>) P as = find_ctx s P as" "find_ctx (s\<lparr>held := L\<rparr>) P as = find_ctx s P as"
  "find_sess (s\<lparr>world := w\<rparr>) Q as = find_sess s Q as" "find_sess (s\<lparr>held := L\<rparr>) Q as = find_sess s Q as"
  by (induction as) (auto split: bind_splits)

lemma Find_frame [simp]:
  "FindBnContext c (s\<lparr>world := w\<rparr>) = FindBnContext c s" "FindBnContext c (s\<lparr>held := L\<rparr>) = FindBnContext c s"
  "FindBnSession a c (s\<lparr>world := w\<rparr>) = FindBnSession a c s" "FindBnSession a c (s\<lparr>held := L\<rparr>) = FindBnSession a c s"
  by (simp_all add: FindBnContext_def FindBnSession_def)

lemma FindBnContext_spec:
  assumes "wf_api H s" and "context \<noteq> NULL \<Longrightarrow> uctx_at s context \<noteq> None"
  shows "ok (FindBnContext context s) (\<lambda>r. case r of None \<Rightarrow> True
    | Some c \<Rightarrow> c \<in> set (ctx_list s) \<and> context \<noteq> NULL \<and>
        (\<exists>ci u. ctxs s c = Some ci \<and> uctx_at s context = Some u \<and> ci_fd ci = uc_fd u))"
proof (cases "context = NULL")
  case True
  then show ?thesis by (simp add: FindBnContext_def)
next
  case False
  with assms(2) obtain u where u: "uctx_at s context = Some u" by auto
  have mem: "\<And>a. a \<in> set (ctx_list s) \<Longrightarrow> ctx_at s a \<noteq> None"
    using assms(1) by (simp add: wf_ctx_at [OF assms(1)] wf_api_def)
  have "find (\<lambda>a. ci_fd (the (ctxs s a)) = uc_fd u) (ctx_list s) = Some c \<Longrightarrow>
      c \<in> set (ctx_list s) \<and> (\<exists>ci. ctxs s c = Some ci \<and> ci_fd ci = uc_fd u)" for c
    using mem [of c] by (auto simp: find_Some_iff wf_ctx_at [OF assms(1)])
  with False u show ?thesis
    by (auto simp: FindBnContext_def find_ctx_find [OF mem] wf_ctx_at [OF assms(1)] split: option.split)
qed

lemma wf_ops_cnt:
  "wf_api H s \<Longrightarrow> ctxs s c = Some ci \<Longrightarrow> unat (ci_ops_cnt ci) = (if c \<in> set (ctx_list s) then 1 else 0) + H c"
  by (auto dest: wf_ctx simp: ctx_ok_def)

lemma unat_inc: "unat (n :: u32) < 2 ^ 32 - 1 \<Longrightarrow> unat (AtomInc n) = Suc (unat n)"
  by (simp add: AtomInc_def unat_word_ariths)

lemma wf_inc:
  assumes "wf_api H s" and "ctxs s c = Some ci" and "H c < 2 ^ 31"
  shows "wf_api (H(c := Suc (H c))) (s\<lparr>ctxs := (ctxs s)(c \<mapsto> ci\<lparr>ci_ops_cnt := AtomInc (ci_ops_cnt ci)\<rparr>)\<rparr>)"
proof (rule wf_upd_ctx [OF assms(1,2)])
  have "unat (AtomInc (ci_ops_cnt ci)) = Suc (unat (ci_ops_cnt ci))"
    using wf_ops_cnt [OF assms(1,2)] assms(3) by (intro unat_inc) (auto split: if_splits)
  with wf_ctx [OF assms(1,2)]
  show "ctx_ok (H(c := Suc (H c))) s c (ci\<lparr>ci_ops_cnt := AtomInc (ci_ops_cnt ci)\<rparr>)"
    by (simp add: ctx_ok_def)
qed simp_all

lemma GetBnContext_spec:
  assumes "wf_api H s" and "MutexWriteContextList \<notin> held s"
    and "context \<noteq> NULL \<Longrightarrow> uctx_at s context \<noteq> None" and "\<And>c. H c < 2 ^ 31"
  shows "ok (GetBnContext os context s) (\<lambda>(c, s').
    c = NULL \<and> same_mem s s' \<or>
    c \<noteq> NULL \<and> context \<noteq> NULL \<and> c \<in> set (ctx_list s) \<and> wf_api (H(c := Suc (H c))) s' \<and>
    (\<exists>ci. ctxs s c = Some ci \<and>
       same_mem (s\<lparr>ctxs := (ctxs s)(c \<mapsto> ci\<lparr>ci_ops_cnt := AtomInc (ci_ops_cnt ci)\<rparr>)\<rparr>) s'))"
proof -
  have there: "lock_there MutexWriteContextList s" by simp
  obtain f where f: "FindBnContext context s = Some f"
    and fs: "case f of None \<Rightarrow> True | Some c \<Rightarrow> c \<in> set (ctx_list s) \<and> context \<noteq> NULL \<and>
      (\<exists>ci u. ctxs s c = Some ci \<and> uctx_at s context = Some u \<and> ci_fd ci = uc_fd u)"
    using FindBnContext_spec [OF assms(1,3)] by (auto simp: ok_iff)
  note defs = GetBnContext_def MutexLockContext_def MutexUnlockContext_def ptr_of_def
  show ?thesis
    using there assms(2)
  proof (cases rule: lock_free [of _ _ os])
    case (failed r w)
    then show ?thesis by (simp add: defs)
  next
    case (taken w)
    show ?thesis
    proof (cases f)
      case None
      with taken f assms(2) show ?thesis by (simp add: defs)
    next
      case (Some c)
      with fs obtain ci where c: "c \<in> set (ctx_list s)" "context \<noteq> NULL" "ctxs s c = Some ci" by auto
      then have nn: "c \<noteq> NULL" using wf_ctx [OF assms(1)] by (auto simp: ctx_ok_def)
      from taken f Some c nn assms(2) wf_inc [OF assms(1) c(3) assms(4)] show ?thesis
        by (simp add: defs upd_ctx_def ctx_at_def)
    qed
  qed
qed


section \<open>Sessions\<close>

definition sess_listed :: "'w api \<Rightarrow> addr \<Rightarrow> bool" where
  "sess_listed s a \<longleftrightarrow> (\<exists>c ci. ctxs s c = Some ci \<and> a \<in> set (ci_session_list ci))"

lemma wf_sess:
  assumes "wf_api H s" and "ctxs s c = Some ci" and "a \<in> set (ci_session_list ci)"
  obtains e where "sess s a = Some e" and "sess_at s a = Some e" and "se_head e = c" and "a \<noteq> NULL"
  using wf_ctx [OF assms(1,2)] assms(3)
  by (auto simp: ctx_ok_def sess_ok_def sess_at_def split: option.splits if_splits)

lemma wf_sess_at: "wf_api H s \<Longrightarrow> ctxs s c = Some ci \<Longrightarrow> a \<in> set (ci_session_list ci) \<Longrightarrow> sess_at s a \<noteq> None"
  by (erule (2) wf_sess) simp

lemma ok_frame_sess [simp]:
  "shm_ok (s\<lparr>sess := m\<rparr>) = shm_ok s" "slots_inj (s\<lparr>sess := m\<rparr>) = slots_inj s"
  "heap_inj (s\<lparr>sess := m\<rparr>) = heap_inj s"
  by (simp_all add: shm_ok_def shm_slot_def slots_inj_def heap_inj_def listed_def heap_block_def shm_at_def fun_eq_iff
      cong: option.case_cong)

lemma ctx_ok_sess:
  assumes "ctx_ok H s c ci" and "\<And>a. a \<in> set (ci_session_list ci) \<Longrightarrow> sess_ok (s\<lparr>sess := m\<rparr>) c a"
  shows "ctx_ok H (s\<lparr>sess := m\<rparr>) c ci"
  using assms by (simp add: ctx_ok_def)

lemma wf_upd_sess:
  assumes "wf_api H s" and "sess s a = Some e" and "se_head e' = se_head e \<or> \<not> sess_listed s a"
  shows "wf_api H (s\<lparr>sess := (sess s)(a \<mapsto> e')\<rparr>)"
proof -
  have "ctx_ok H (s\<lparr>sess := (sess s)(a \<mapsto> e')\<rparr>) c ci" if c: "ctxs s c = Some ci" for c ci
  proof (rule ctx_ok_sess [OF wf_ctx [OF assms(1) c]])
    fix b assume b: "b \<in> set (ci_session_list ci)"
    obtain eb where "sess s b = Some eb" "se_head eb = c" "b \<noteq> NULL" by (rule wf_sess [OF assms(1) c b])
    with assms b c show "sess_ok (s\<lparr>sess := (sess s)(a \<mapsto> e')\<rparr>) c b"
      by (auto simp: sess_ok_def sess_at_def sess_listed_def)
  qed
  then show ?thesis using assms(1) by (simp add: wf_api_def)
qed

lemma unlink_session_spec:
  assumes "wf_api H s" and "ctxs s c = Some ci" and "a \<in> set (ci_session_list ci)"
  shows "ok (unlink_session a c s) (\<lambda>s'. wf_api H s' \<and> keeps s s' \<and>
    (\<exists>e. sess s a = Some e \<and>
      s' = s\<lparr>ctxs := (ctxs s)(c \<mapsto> ci\<lparr>ci_session_list := remove1 a (ci_session_list ci)\<rparr>),
             sess := (sess s)(a \<mapsto> e\<lparr>se_head := NULL\<rparr>)\<rparr>))"
proof -
  obtain e where e: "sess s a = Some e" "sess_at s a = Some e" "se_head e = c" "a \<noteq> NULL"
    by (rule wf_sess [OF assms])
  let ?ci = "ci\<lparr>ci_session_list := remove1 a (ci_session_list ci)\<rparr>"
  let ?s = "s\<lparr>ctxs := (ctxs s)(c \<mapsto> ?ci)\<rparr>"
  have "wf_api H ?s"
    by (rule wf_upd_ctx [OF assms(1,2)])
      (use wf_ctx [OF assms(1,2)] in \<open>auto simp: ctx_ok_def dest: in_set_remove1 [THEN iffD1]\<close>)
  moreover have "\<not> sess_listed ?s a"
  proof
    assume "sess_listed ?s a"
    then obtain d di where d: "ctxs ?s d = Some di" "a \<in> set (ci_session_list di)" by (auto simp: sess_listed_def)
    show False
    proof (cases "d = c")
      case True
      with d wf_ctx [OF assms(1,2)] show False by (auto simp: ctx_ok_def)
    next
      case False
      with d have "ctxs s d = Some di" by simp
      with d(2) e(1,3) False show False by (metis wf_sess [OF assms(1)] option.inject)
    qed
  qed
  ultimately have "wf_api H (?s\<lparr>sess := (sess ?s)(a \<mapsto> e\<lparr>se_head := NULL\<rparr>)\<rparr>)"
    using e(1) by (intro wf_upd_sess) auto
  then show ?thesis
    using assms(2) e
    by (auto simp: unlink_session_def upd_ctx_def upd_sess_def wf_ctx_at [OF assms(1)] keeps_def)
qed

lemma CloseSessionInner_spec:
  assumes "wf_api H s" and "sess s a = Some e" and "a \<noteq> NULL" and "ctxs s c = Some ci"
  shows "ok (TEEC_CloseSessionInner os a c s) (\<lambda>(r, s'). wf_api H s' \<and> keeps s s' \<and>
    same_mem (s\<lparr>sess := sess s'\<rparr>) s')"
proof -
  have at: "sess_at s a = Some e" using assms(2,3) by (simp add: sess_at_def)
  have nn: "c \<noteq> NULL" using wf_ctx [OF assms(1,4)] by (simp add: ctx_ok_def)
  obtain r cli op s1 where enc: "TEEC_Encode os zero_cli a GLOBAL_CMD_ID_CLOSE_SESSION no_login None s = Some ((r, cli, op), s1)"
    and same: "same_mem s s1"
    using Encode_defined [of s a None zero_cli os GLOBAL_CMD_ID_CLOSE_SESSION no_login] at
    by (auto simp: ok_iff zero_cli_def)
  then obtain w1 where s1: "s1 = s\<lparr>world := w1\<rparr>" by (auto elim: same_memE)
  obtain rr cli2 w2 where io: "os_ioctl os (ci_fd ci) SES_CLOSE_REQ cli w1 = ((rr, cli2), w2)" by (metis surj_pair)
  obtain r3 w3 where w3: "os_memset_s os w2 = (r3, w3)" by fastforce
  define e1 where "e1 = e\<lparr>se_session_id := 0, se_context := NULL\<rparr>"
  define e2 where "e2 = e1\<lparr>se_service_id := zero_uuid\<rparr>"
  have wf: "wf_api H (s\<lparr>sess := (sess s)(a \<mapsto> e1)\<rparr>)" "wf_api H (s\<lparr>sess := (sess s)(a \<mapsto> e2)\<rparr>)"
    by (rule wf_upd_sess [OF assms(1,2)]; simp add: e1_def e2_def)+
  have dom: "insert a (dom (sess s)) = dom (sess s)" using assms(2) by auto
  note run = TEEC_CloseSessionInner_def enc s1 do_ioctl_def io w3 wf_ctx_at [OF assms(1)] assms(3,4) upd_sess_def sess_at_def
  show ?thesis
  proof (cases "r = TEEC_SUCCESS \<and> rr = 0")
    case False
    then show ?thesis using nn assms(1) by (auto simp: run keeps_def)
  next
    case True
    then show ?thesis using nn wf assms(2) dom
      by (auto simp: run keeps_def e1_def e2_def)
  qed
qed


lemma wf_add_session:
  assumes "wf_api H s" and "ctxs s c = Some ci" and "sess s a = Some e" and "a \<noteq> NULL"
    and "se_head e = NULL \<or> se_head e = c"
  shows "wf_api H (s\<lparr>ctxs := (ctxs s)(c \<mapsto> ci\<lparr>ci_session_list := filter (\<lambda>x. x \<noteq> a) (ci_session_list ci) @ [a]\<rparr>),
                     sess := (sess s)(a \<mapsto> e\<lparr>se_head := c, se_ops_cnt := n\<rparr>)\<rparr>)"
proof -
  let ?ci = "ci\<lparr>ci_session_list := filter (\<lambda>x. x \<noteq> a) (ci_session_list ci)\<rparr>"
  let ?ci2 = "ci\<lparr>ci_session_list := filter (\<lambda>x. x \<noteq> a) (ci_session_list ci) @ [a]\<rparr>"
  let ?s1 = "s\<lparr>ctxs := (ctxs s)(c \<mapsto> ?ci)\<rparr>"
  have ok: "ctx_ok H s c ci" by (rule wf_ctx [OF assms(1,2)])
  have nn: "c \<noteq> NULL" using ok by (simp add: ctx_ok_def)
  have wf1: "wf_api H ?s1"
    by (rule wf_upd_ctx [OF assms(1,2)]) (use ok in \<open>auto simp: ctx_ok_def\<close>)
  have "\<not> sess_listed ?s1 a"
  proof
    assume "sess_listed ?s1 a"
    then obtain d di where d: "d \<noteq> c" "ctxs s d = Some di" "a \<in> set (ci_session_list di)"
      by (auto simp: sess_listed_def split: if_splits)
    obtain ed where "sess s a = Some ed" "se_head ed = d" by (rule wf_sess [OF assms(1) d(2,3)])
    with d assms(3,5) wf_ctx [OF assms(1) d(2)] show False by (auto simp: ctx_ok_def)
  qed
  then have wf2: "wf_api H (?s1\<lparr>sess := (sess s)(a \<mapsto> e\<lparr>se_head := c, se_ops_cnt := n\<rparr>)\<rparr>)" (is "wf_api H ?s2")
    using wf_upd_sess [OF wf1, of a e "e\<lparr>se_head := c, se_ops_cnt := n\<rparr>"] assms(3) by simp
  have at: "ctxs ?s2 c = Some ?ci" by simp
  have "ctx_ok H ?s2 c ?ci" by (rule wf_ctx [OF wf2 at])
  then have "ctx_ok H ?s2 c ?ci2"
    using assms(4) by (auto simp: ctx_ok_def sess_ok_def sess_at_def)
  from wf_upd_ctx [OF wf2 at this] show ?thesis by (simp add: fun_upd_twist)
qed

lemma AddSessionList_spec:
  assumes "wf_api H s" and "ctxs s c = Some ci" and "sess s a = Some e" and "a \<noteq> NULL"
    and "se_head e = NULL \<or> se_head e = c" and "SessionLock c \<notin> held s"
  shows "ok (AddSessionList os sid dest c a s) (\<lambda>(r, s'). wf_api H s' \<and> keeps s s' \<and>
    bufs s' = bufs s \<and> ctx_list s' = ctx_list s \<and> shms s' = shms s \<and> (\<forall>b. listed s' b \<longrightarrow> listed s b) \<and>
    (r = TEEC_SUCCESS \<or> r = TEEC_ERROR_GENERIC) \<and>
    (r = TEEC_SUCCESS \<longrightarrow> (\<exists>ci' e'. ctxs s' c = Some ci' \<and> a \<in> set (ci_session_list ci') \<and>
       sess s' a = Some e' \<and> se_session_id e' = sid \<and> se_service_id e' = dest \<and> se_ops_cnt e' = 2)))"
proof -
  define e1 where "e1 = e\<lparr>se_session_id := sid, se_service_id := dest, se_ops_cnt := 1\<rparr>"
  define s1 where "s1 = s\<lparr>sess := (sess s)(a \<mapsto> e1)\<rparr>"
  have wf1: "wf_api H s1"
    unfolding s1_def by (rule wf_upd_sess [OF assms(1,3)]) (simp add: e1_def)
  have c1: "ctxs s1 c = Some ci" and a1: "sess s1 a = Some e1" and h1: "se_head e1 = NULL \<or> se_head e1 = c"
    using assms(2,5) by (simp_all add: s1_def e1_def)
  have upd: "upd_sess a (\<lambda>e. e\<lparr>se_session_id := sid, se_service_id := dest, se_ops_cnt := 1\<rparr>) s = Some s1"
    using assms(3,4) by (simp add: upd_sess_def sess_at_def s1_def e1_def)
  have there: "lock_there (SessionLock c) s1" using c1 by (simp add: wf_ctx_at [OF wf1])
  have free: "SessionLock c \<notin> held s1" using assms(6) by (simp add: s1_def)
  have k1: "keeps s s1" using assms(3) by (auto simp: keeps_def s1_def)
  from there free show ?thesis
  proof (cases rule: lock_free [of _ _ os])
    case (failed r w)
    with upd wf1 k1 show ?thesis
      by (auto simp: AddSessionList_def s1_def keeps_def listed_def)
  next
    case (taken w)
    have all: "list_all (\<lambda>x. sess_at s1 x \<noteq> None) (ci_session_list ci)"
      unfolding list_all_iff using wf_sess_at [OF wf1 c1] by blast
    have a1': "sess_at s1 a = Some e1" using a1 assms(4) by (simp add: sess_at_def)
    have nn: "c \<noteq> NULL" using wf_ctx [OF assms(1,2)] by (simp add: ctx_ok_def)
    define s2 where "s2 = s1\<lparr>ctxs := (ctxs s1)(c \<mapsto> ci\<lparr>ci_session_list := filter (\<lambda>x. x \<noteq> a) (ci_session_list ci) @ [a]\<rparr>),
        sess := (sess s1)(a \<mapsto> e1\<lparr>se_head := c, se_ops_cnt := 2\<rparr>)\<rparr>"
    have wf2: "wf_api H s2"
      unfolding s2_def by (rule wf_add_session [OF wf1 c1 a1 assms(4) h1])
    have one: "AtomInc (se_ops_cnt e1) = 2" by (simp add: AtomInc_def e1_def)
    have at1: "ctx_at s1 c = Some ci" using c1 by (simp add: wf_ctx_at [OF wf1])
    have run: "AddSessionList os sid dest c a s = Some (TEEC_SUCCESS, s2\<lparr>world := w\<rparr>)"
      using h1 free a1 assms(4) all nn
      by (auto simp: AddSessionList_def upd taken at1 a1' one pthread_mutex_unlock_def s2_def)
    have "keeps s1 s2" using a1 by (auto simp: keeps_def s2_def)
    with k1 have "keeps s s2" by (rule keeps_trans)
    moreover have "sess s2 a = Some (e1\<lparr>se_head := c, se_ops_cnt := 2\<rparr>)" "bufs s2 = bufs s" "ctx_list s2 = ctx_list s"
      "shms s2 = shms s" "ctxs s2 c = Some (ci\<lparr>ci_session_list := filter (\<lambda>x. x \<noteq> a) (ci_session_list ci) @ [a]\<rparr>)"
      by (simp_all add: s2_def s1_def)
    moreover have "listed s2 b \<Longrightarrow> listed s b" for b
      using assms(2) by (auto simp: listed_def s2_def s1_def split: if_splits)
    ultimately show ?thesis
      using run wf2 by (simp add: keeps_def e1_def listed_def)
  qed
qed

end
