(* ===== verification/Api_Teardown.thy ===== *)
theory Api_Teardown
  imports Api_Inv
begin

text \<open>
  Releasing shared memory and tearing a context down preserve the invariant of \<open>Api_Inv\<close>: a
  block that was unlinked is released with its buffer and its slot, the loops of
  \<open>TEEC_FinalizeContextInner\<close> empty both lists, and dropping a reference to a context keeps the
  count exact and frees the context exactly with the last one.
\<close>

section \<open>Shared memory\<close>

text \<open>The contexts up to their bit maps.\<close>

definition ctxs_nb :: "'w api \<Rightarrow> addr \<Rightarrow> TEEC_ContextInner option" where
  "ctxs_nb s c = map_option (\<lambda>ci. ci\<lparr>ci_shm_bitmap := []\<rparr>) (ctxs s c)"

lemma ctxs_nb_frame [simp]:
  "ctxs_nb (s\<lparr>shms := x_shms\<rparr>) = ctxs_nb s"
  "ctxs_nb (s\<lparr>sess := x_sess\<rparr>) = ctxs_nb s"
  "ctxs_nb (s\<lparr>uctx := x_uctx\<rparr>) = ctxs_nb s"
  "ctxs_nb (s\<lparr>ushm := x_ushm\<rparr>) = ctxs_nb s"
  "ctxs_nb (s\<lparr>bufs := x_bufs\<rparr>) = ctxs_nb s"
  "ctxs_nb (s\<lparr>maps := x_maps\<rparr>) = ctxs_nb s"
  "ctxs_nb (s\<lparr>ctx_list := x_ctx_list\<rparr>) = ctxs_nb s"
  "ctxs_nb (s\<lparr>held := x_held\<rparr>) = ctxs_nb s"
  "ctxs_nb (s\<lparr>world := x_world\<rparr>) = ctxs_nb s"
  by (simp_all add: ctxs_nb_def fun_eq_iff)

lemma ctxs_nb_Some:
  assumes "ctxs_nb s' = ctxs_nb s" and "ctxs s c = Some ci"
  obtains bm where "ctxs s' c = Some (ci\<lparr>ci_shm_bitmap := bm\<rparr>)"
proof -
  from assms have "map_option (\<lambda>ci. ci\<lparr>ci_shm_bitmap := []\<rparr>) (ctxs s' c) = Some (ci\<lparr>ci_shm_bitmap := []\<rparr>)"
    by (metis ctxs_nb_def option.map(2))
  then obtain ci' where ci': "ctxs s' c = Some ci'" "ci'\<lparr>ci_shm_bitmap := []\<rparr> = ci\<lparr>ci_shm_bitmap := []\<rparr>" by auto
  then have "ci' = ci\<lparr>ci_shm_bitmap := ci_shm_bitmap ci'\<rparr>"
    by (metis TEEC_ContextInner.surjective TEEC_ContextInner.update_convs(4))
  with ci'(1) that show ?thesis by metis
qed

definition shm_inv :: "'w api \<Rightarrow> addr \<Rightarrow> u8 list \<Rightarrow> TEEC_SharedMemoryInner \<Rightarrow> bool" where
  "shm_inv s c bm m \<longleftrightarrow> si_context m = c \<and> si_ops_cnt m = 1 \<and>
     (si_is_allocated m \<longrightarrow> unat (si_offset m) \<in> slots bm \<and>
        (si_flags m = TEEC_MEM_SHARED_INOUT \<longrightarrow> si_buffer m = NULL \<or> bufs s (si_buffer m) \<noteq> None))"

lemma shm_ok_inv: "shm_ok s c bm a \<longleftrightarrow> (\<exists>m. shm_at s a = Some m \<and> shm_inv s c bm m)"
  by (auto simp: shm_ok_def shm_inv_def split: option.splits)

lemma wf_shm:
  assumes "wf_api H s" and "ctxs s c = Some ci" and "a \<in> set (ci_shrd_mem_list ci)"
  obtains m where "shms s a = Some m" and "shm_at s a = Some m" and "a \<noteq> NULL"
    and "shm_inv s c (ci_shm_bitmap ci) m"
proof -
  from wf_ctx [OF assms(1,2)] assms(3) have "shm_ok s c (ci_shm_bitmap ci) a" by (simp add: ctx_ok_def)
  then obtain m where m: "shm_at s a = Some m" "shm_inv s c (ci_shm_bitmap ci) m"
    by (auto simp: shm_ok_inv)
  with at_map(2) [OF m(1)] that show ?thesis by auto
qed

lemma ClearBit_total:
  assumes "shm_map_ok xs"
  obtains ys where "ClearBit i bitmap_size (Some xs) = Some (Some ys)" and "shm_map_ok ys"
    and "slots ys = slots xs - {unat i}"
proof (cases "unat i < 8 * length xs")
  case True
  have len: "unat bitmap_size = length xs"
    using assms by (simp add: shm_map_ok_def NUM_OF_SHAREMEM_BITMAP_def)
  obtain ys where "ClearBit i bitmap_size (Some xs) = Some (Some ys)" "length ys = length xs"
    "slots ys = slots xs - {unat i}"
    using ClearBit_slots [OF len True] by metis
  with assms that show ?thesis by (simp add: shm_map_ok_def)
next
  case False
  have len: "unat bitmap_size = length xs"
    using assms by (simp add: shm_map_ok_def NUM_OF_SHAREMEM_BITMAP_def)
  from False have "unat i \<notin> slots xs" using slots_bounded [of xs] by auto
  moreover have "ClearBit i bitmap_size (Some xs) = Some (Some xs)"
    using ClearBit_outside False len by simp
  ultimately show ?thesis using assms that by simp
qed

lemma ClearBitWithLock_spec:
  assumes "wf_api H s" and "ctxs s c = Some ci" and "ShrMemBitMapLock c \<notin> held s"
    and "\<And>a m. a \<in> set (ci_shrd_mem_list ci) \<Longrightarrow> shms s a = Some m \<Longrightarrow> si_is_allocated m \<Longrightarrow> si_offset m \<noteq> i"
  shows "ok (ClearBitWithLock os c i s) (\<lambda>s'. wf_api H s' \<and> ctxs_nb s' = ctxs_nb s \<and>
    same_mem (s\<lparr>ctxs := ctxs s'\<rparr>) s')"
proof -
  have at: "ctx_at s c = Some ci" using assms(2) by (simp add: wf_ctx_at [OF assms(1)])
  have bm: "shm_map_ok (ci_shm_bitmap ci)" using wf_ctx [OF assms(1,2)] by (simp add: ctx_ok_def)
  obtain ys where ys: "ClearBit i bitmap_size (Some (ci_shm_bitmap ci)) = Some (Some ys)" "shm_map_ok ys"
    "slots ys = slots (ci_shm_bitmap ci) - {unat i}"
    by (rule ClearBit_total [OF bm])
  let ?s = "s\<lparr>ctxs := (ctxs s)(c \<mapsto> ci\<lparr>ci_shm_bitmap := ys\<rparr>)\<rparr>"
  have "shm_ok s c ys a" if a: "a \<in> set (ci_shrd_mem_list ci)" for a
  proof -
    obtain m where m: "shms s a = Some m" "shm_at s a = Some m" "a \<noteq> NULL" "shm_inv s c (ci_shm_bitmap ci) m"
      by (rule wf_shm [OF assms(1,2) a])
    with assms(4) [OF a m(1)] show ?thesis
      by (auto simp: shm_ok_inv shm_inv_def ys(3) dest: unsigned_word_eqI)
  qed
  then have wf: "wf_api H ?s"
    by (intro wf_upd_ctx [OF assms(1,2)]) (use wf_ctx [OF assms(1,2)] ys(2) in \<open>auto simp: ctx_ok_def\<close>)
  have nb: "ctxs_nb ?s = ctxs_nb s"
    using assms(2) by (auto simp: ctxs_nb_def fun_eq_iff)
  have there: "lock_there (ShrMemBitMapLock c) s" using at by simp
  from there assms(3) show ?thesis
  proof (cases rule: lock_free [of _ _ os])
    case (failed r w)
    with assms(1) show ?thesis by (simp add: ClearBitWithLock_def ctxs_nb_def)
  next
    case (taken w)
    with at ys(1) assms(3) wf nb at_map(1) [OF at] show ?thesis
      by (simp add: ClearBitWithLock_def ctxs_nb_def)
  qed
qed

definition shm_step :: "'w api \<Rightarrow> 'w api \<Rightarrow> bool" where
  "shm_step s s' \<longleftrightarrow> sess s' = sess s \<and> uctx s' = uctx s \<and> ushm s' = ushm s \<and> ctx_list s' = ctx_list s \<and>
     held s' = held s \<and> ctxs_nb s' = ctxs_nb s"

lemma shm_step_keeps: "shm_step s s' \<Longrightarrow> keeps s s'"
  by (simp add: shm_step_def keeps_def)

lemma listed_nb:
  fixes s s' :: "'w api"
  shows "ctxs_nb s' = ctxs_nb s \<Longrightarrow> listed s' a \<longleftrightarrow> listed s a"
proof -
  have "listed s' a" if "ctxs_nb s' = ctxs_nb s" "listed s a" for s s' :: "'w api"
  proof -
    from that(2) obtain c ci where c: "ctxs s c = Some ci" "a \<in> set (ci_shrd_mem_list ci)" by (auto simp: listed_def)
    from ctxs_nb_Some [OF that(1) c(1)] obtain bm where "ctxs s' c = Some (ci\<lparr>ci_shm_bitmap := bm\<rparr>)" .
    with c(2) show ?thesis unfolding listed_def by (intro exI [of _ c] exI) auto
  qed
  then show "ctxs_nb s' = ctxs_nb s \<Longrightarrow> listed s' a \<longleftrightarrow> listed s a" by metis
qed

lemma ok_frame_shms:
  assumes "\<And>b. b \<noteq> a \<Longrightarrow> m b = shms s b" and "b \<noteq> a"
  shows "shm_at (s\<lparr>shms := m\<rparr>) b = shm_at s b" "shm_ok (s\<lparr>shms := m\<rparr>) c bm b = shm_ok s c bm b"
    "shm_slot (s\<lparr>shms := m\<rparr>) b = shm_slot s b" "heap_block (s\<lparr>shms := m\<rparr>) b = heap_block s b"
proof -
  show at: "shm_at (s\<lparr>shms := m\<rparr>) b = shm_at s b" using assms by (simp add: shm_at_def)
  show "shm_ok (s\<lparr>shms := m\<rparr>) c bm b = shm_ok s c bm b"
    unfolding shm_ok_def at by (simp cong: option.case_cong)
  show "shm_slot (s\<lparr>shms := m\<rparr>) b = shm_slot s b" "heap_block (s\<lparr>shms := m\<rparr>) b = heap_block s b"
    unfolding shm_slot_def heap_block_def at by simp_all
qed

lemma wf_unlisted_shm:
  assumes "wf_api H s" and "\<not> listed s a"
  shows "wf_api H (s\<lparr>shms := (shms s)(a := x)\<rparr>)"
proof -
  let ?s = "s\<lparr>shms := (shms s)(a := x)\<rparr>"
  have fr: "shm_ok ?s c bm b = shm_ok s c bm b" "shm_slot ?s b = shm_slot s b" "heap_block ?s b = heap_block s b"
    if "b \<noteq> a" for c bm b
    using ok_frame_shms [of a "(shms s)(a := x)" s b] that by simp_all
  have ok: "ctx_ok H ?s c ci" if c: "ctxs s c = Some ci" for c ci
  proof -
    have na: "b \<in> set (ci_shrd_mem_list ci) \<Longrightarrow> b \<noteq> a" for b using assms(2) c by (auto simp: listed_def)
    have "slots_inj ?s (ci_shrd_mem_list ci) = slots_inj s (ci_shrd_mem_list ci)"
      unfolding slots_inj_def using na fr(2) by (metis (no_types, lifting))
    moreover have "sess_ok ?s = sess_ok s" by (simp add: sess_ok_def fun_eq_iff)
    ultimately show ?thesis using wf_ctx [OF assms(1) c] na fr(1) by (simp add: ctx_ok_def)
  qed
  have l: "listed ?s = listed s" by (simp add: listed_def fun_eq_iff)
  have "heap_inj ?s"
    using assms fr(3) unfolding wf_api_def heap_inj_def l by metis
  with ok show ?thesis using assms(1) by (simp add: wf_api_def)
qed

lemma wf_drop_buf:
  assumes "wf_api H s" and "\<And>a. listed s a \<Longrightarrow> heap_block s a \<noteq> Some b" and "b \<noteq> NULL"
  shows "wf_api H (s\<lparr>bufs := (bufs s)(b := None)\<rparr>)"
proof -
  let ?s = "s\<lparr>bufs := (bufs s)(b := None)\<rparr>"
  have ok: "ctx_ok H ?s c ci" if c: "ctxs s c = Some ci" for c ci
  proof -
    have "shm_ok ?s c (ci_shm_bitmap ci) a" if a: "a \<in> set (ci_shrd_mem_list ci)" for a
    proof -
      obtain m where m: "shms s a = Some m" "shm_at s a = Some m" "a \<noteq> NULL" "shm_inv s c (ci_shm_bitmap ci) m"
        by (rule wf_shm [OF assms(1) c a])
      have "heap_block s a \<noteq> Some b" using assms(2) a c by (auto simp: listed_def)
      with m assms(3) show ?thesis by (auto simp: shm_ok_inv shm_inv_def heap_block_def split: if_splits)
    qed
    moreover have "sess_ok ?s = sess_ok s" "slots_inj ?s = slots_inj s"
      by (simp_all add: sess_ok_def slots_inj_def shm_slot_def fun_eq_iff)
    ultimately show ?thesis using wf_ctx [OF assms(1) c] by (simp add: ctx_ok_def)
  qed
  have "heap_inj ?s = heap_inj s" by (simp add: heap_inj_def listed_def heap_block_def)
  with ok show ?thesis using assms(1) by (simp add: wf_api_def)
qed


text \<open>A block that is in no list, with all that releasing it needs.\<close>

definition detached :: "'w api \<Rightarrow> addr \<Rightarrow> TEEC_SharedMemoryInner \<Rightarrow> bool" where
  "detached s a m \<longleftrightarrow> shms s a = Some m \<and> a \<noteq> NULL \<and> \<not> listed s a \<and>
     (si_is_allocated m \<longrightarrow>
        (\<exists>ci. ctxs s (si_context m) = Some ci \<and>
           (\<forall>b \<in> set (ci_shrd_mem_list ci). shm_slot s b \<noteq> Some (si_offset m))) \<and>
        (heap_block s a \<noteq> None \<longrightarrow>
           bufs s (si_buffer m) \<noteq> None \<and> (\<forall>b. listed s b \<longrightarrow> heap_block s b \<noteq> heap_block s a)))"

lemma unlink_shm:
  assumes "wf_api H s" and "ctxs s c = Some ci" and "a \<in> set (ci_shrd_mem_list ci)"
  defines "s' \<equiv> s\<lparr>ctxs := (ctxs s)(c \<mapsto> ci\<lparr>ci_shrd_mem_list := remove1 a (ci_shrd_mem_list ci)\<rparr>)\<rparr>"
  shows "wf_api H s' \<and> (\<exists>m. detached s' a m \<and> si_ops_cnt m = 1 \<and> si_context m = c)"
proof
  have okc: "ctx_ok H s c ci" by (rule wf_ctx [OF assms(1,2)])
  obtain m where m: "shms s a = Some m" "shm_at s a = Some m" "a \<noteq> NULL" "shm_inv s c (ci_shm_bitmap ci) m"
    by (rule wf_shm [OF assms(1-3)])
  have sub: "set (remove1 a (ci_shrd_mem_list ci)) = set (ci_shrd_mem_list ci) - {a}"
    using okc by (simp add: ctx_ok_def set_remove1_eq)
  have sub': "set (remove1 a (ci_shrd_mem_list ci)) \<subseteq> set (ci_shrd_mem_list ci)" by (simp add: set_remove1_subset)
  show "wf_api H s'"
    unfolding s'_def
    by (rule wf_upd_ctx [OF assms(1,2)]) (use okc sub sub' in \<open>auto simp: ctx_ok_def slots_inj_def\<close>)
  have nl: "\<not> listed s' a"
  proof
    assume "listed s' a"
    then obtain d di where d: "ctxs s' d = Some di" "a \<in> set (ci_shrd_mem_list di)" by (auto simp: listed_def)
    show False
    proof (cases "d = c")
      case True
      with d(1) have "di = ci\<lparr>ci_shrd_mem_list := remove1 a (ci_shrd_mem_list ci)\<rparr>" by (simp add: s'_def)
      with d(2) sub show False by simp
    next
      case False
      with d(1) have "ctxs s d = Some di" by (simp add: s'_def)
      from wf_shm [OF assms(1) this d(2)] obtain m' where "shms s a = Some m'" "shm_inv s d (ci_shm_bitmap di) m'" by metis
      with m False show False by (simp add: shm_inv_def)
    qed
  qed
  have le: "listed s' b \<Longrightarrow> listed s b \<and> b \<noteq> a" for b
  proof -
    assume l: "listed s' b"
    then obtain d di where d: "ctxs s' d = Some di" "b \<in> set (ci_shrd_mem_list di)" by (auto simp: listed_def)
    have "listed s b"
    proof (cases "d = c")
      case True
      with d(1) have "di = ci\<lparr>ci_shrd_mem_list := remove1 a (ci_shrd_mem_list ci)\<rparr>" by (simp add: s'_def)
      with d(2) sub have "b \<in> set (ci_shrd_mem_list ci)" by simp
      with assms(2) show ?thesis by (auto simp: listed_def)
    next
      case False
      with d show ?thesis by (auto simp: s'_def listed_def)
    qed
    moreover have "b \<noteq> a" using l nl by metis
    ultimately show ?thesis by simp
  qed
  have "shm_slot s b \<noteq> Some (si_offset m)" if "si_is_allocated m" "b \<in> set (ci_shrd_mem_list ci)" "b \<noteq> a" for b
    using okc that assms(3) m(2) unfolding ctx_ok_def slots_inj_def shm_slot_def by force
  moreover have "heap_block s b \<noteq> heap_block s a" if "heap_block s a \<noteq> None" "listed s b" "b \<noteq> a" for b
    using assms(1,2,3) that unfolding wf_api_def heap_inj_def by (metis listed_def)
  moreover have "heap_block s a \<noteq> None \<Longrightarrow> bufs s (si_buffer m) \<noteq> None"
    using m by (auto simp: heap_block_def shm_inv_def split: if_splits)
  ultimately have "detached s' a m"
    using m nl le sub by (auto simp: detached_def s'_def shm_inv_def)
  with m show "\<exists>m. detached s' a m \<and> si_ops_cnt m = 1 \<and> si_context m = c" by (auto simp: shm_inv_def)
qed


lemma unmap_frame: "same_mem (s\<lparr>maps := maps (unmap os b n s)\<rparr>) (unmap os b n s)"
  by (simp add: unmap_def call_pair)

lemma unmapE:
  obtains m w where "unmap os b n s = s\<lparr>maps := m, world := w\<rparr>"
  using unmap_frame [where os = os and b = b and n = n and s = s] by (elim same_memE) simp

text \<open>Giving back the buffer of a detached block: the heap or the mapping.\<close>

definition buf_step :: "'w api \<Rightarrow> 'w api \<Rightarrow> bool" where
  "buf_step s s' \<longleftrightarrow> ctxs s' = ctxs s \<and> shms s' = shms s \<and> sess s' = sess s \<and> uctx s' = uctx s \<and> ushm s' = ushm s \<and>
     ctx_list s' = ctx_list s \<and> held s' = held s"

lemma release_buffer:
  assumes "wf_api H s" and "detached s a m" and "si_is_allocated m" and "si_buffer m \<noteq> NULL"
  obtains s1 where "(if si_flags m = TEEC_MEM_SHARED_INOUT
      then if bufs s (si_buffer m) = None then None else Some (s\<lparr>bufs := (bufs s)(si_buffer m := None)\<rparr>)
      else if si_buffer m \<noteq> ZERO_SIZE_PTR \<and> si_size m \<noteq> 0 then Some (unmap os (si_buffer m) (si_size m) s)
      else Some s) = Some s1"
    and "wf_api H s1" and "buf_step s s1"
proof (cases "si_flags m = TEEC_MEM_SHARED_INOUT")
  case True
  have at: "shm_at s a = Some m" using assms(2) by (simp add: detached_def shm_at_def)
  have hb: "heap_block s a = Some (si_buffer m)" using at True assms(3,4) by (simp add: heap_block_def)
  then have "bufs s (si_buffer m) \<noteq> None" "\<And>b. listed s b \<Longrightarrow> heap_block s b \<noteq> Some (si_buffer m)"
    using assms(2,3) by (auto simp: detached_def)
  with wf_drop_buf [OF assms(1) this(2) assms(4)] True show ?thesis
    by (intro that [of "s\<lparr>bufs := (bufs s)(si_buffer m := None)\<rparr>"]) (simp_all add: buf_step_def)
next
  case False
  obtain mp w where u: "unmap os (si_buffer m) (si_size m) s = s\<lparr>maps := mp, world := w\<rparr>" by (rule unmapE)
  show ?thesis
  proof (cases "si_buffer m \<noteq> ZERO_SIZE_PTR \<and> si_size m \<noteq> 0")
    case T: True
    with False assms(1) u show ?thesis
      by (intro that [of "s\<lparr>maps := mp, world := w\<rparr>"]) (simp_all add: buf_step_def)
  next
    case F: False
    with False assms(1) show ?thesis by (intro that [of s]) (auto simp: buf_step_def)
  qed
qed

lemma ReleaseSharedMemory_spec:
  assumes "wf_api H s" and "detached s a m" and "\<And>c. ShrMemBitMapLock c \<notin> held s"
  shows "ok (ReleaseSharedMemory os a s) (\<lambda>s'. wf_api H s' \<and> shm_step s s' \<and> shms s' = (shms s)(a := None))"
proof -
  have at: "shm_at s a = Some m" using assms(2) by (simp add: detached_def shm_at_def)
  have nl: "\<not> listed s a" using assms(2) by (simp add: detached_def)
  show ?thesis
  proof (cases "\<not> si_is_allocated m \<or> si_buffer m = NULL")
    case True
    with at wf_unlisted_shm [OF assms(1) nl, of None] show ?thesis
      by (simp add: ReleaseSharedMemory_def free_shm_def shm_step_def)
  next
    case False
    then have al: "si_is_allocated m" "si_buffer m \<noteq> NULL" by simp_all
    obtain s1 where s1: "(if si_flags m = TEEC_MEM_SHARED_INOUT
        then if bufs s (si_buffer m) = None then None else Some (s\<lparr>bufs := (bufs s)(si_buffer m := None)\<rparr>)
        else if si_buffer m \<noteq> ZERO_SIZE_PTR \<and> si_size m \<noteq> 0 then Some (unmap os (si_buffer m) (si_size m) s)
        else Some s) = Some s1"
      and wf1: "wf_api H s1" and fr: "buf_step s s1"
      by (rule release_buffer [OF assms(1,2) al])
    obtain ci where ci: "ctxs s (si_context m) = Some ci"
      and slot: "\<forall>b \<in> set (ci_shrd_mem_list ci). shm_slot s b \<noteq> Some (si_offset m)"
      using assms(2) al by (auto simp: detached_def)
    have "ok (ClearBitWithLock os (si_context m) (si_offset m) s1) (\<lambda>s'. wf_api H s' \<and> ctxs_nb s' = ctxs_nb s1 \<and>
        same_mem (s1\<lparr>ctxs := ctxs s'\<rparr>) s')"
    proof (rule ClearBitWithLock_spec [OF wf1])
      show "ctxs s1 (si_context m) = Some ci" "ShrMemBitMapLock (si_context m) \<notin> held s1"
        using ci assms(3) fr by (simp_all add: buf_step_def)
      fix b mb assume b: "b \<in> set (ci_shrd_mem_list ci)" "shms s1 b = Some mb" "si_is_allocated mb"
      have "b \<noteq> NULL" by (rule wf_shm [OF assms(1) ci b(1)])
      with slot b fr show "si_offset mb \<noteq> si_offset m"
        by (auto simp: shm_slot_def shm_at_def buf_step_def)
    qed
    then obtain s2 where s2: "ClearBitWithLock os (si_context m) (si_offset m) s1 = Some s2" "wf_api H s2"
      "ctxs_nb s2 = ctxs_nb s1" "same_mem (s1\<lparr>ctxs := ctxs s2\<rparr>) s2" by (auto simp: ok_iff)
    from s2(4) obtain w where w: "s2 = s1\<lparr>ctxs := ctxs s2, world := w\<rparr>" by (elim same_memE)
    have pr: "shms s2 = shms s1" "sess s2 = sess s1" "uctx s2 = uctx s1" "ushm s2 = ushm s1" "ctx_list s2 = ctx_list s1"
      "held s2 = held s1" by (subst w; simp)+
    have nb: "ctxs_nb s2 = ctxs_nb s" using fr unfolding s2(3) by (simp add: ctxs_nb_def buf_step_def fun_eq_iff)
    have "\<not> listed s2 a" using nl listed_nb [OF nb, of a] by simp
    from wf_unlisted_shm [OF s2(2) this, of None] have wf: "wf_api H (free_shm a s2)" by (simp add: free_shm_def)
    have run: "ReleaseSharedMemory os a s = Some (free_shm a s2)"
      using al by (simp add: ReleaseSharedMemory_def at s1 s2(1))
    show ?thesis
      using wf pr nb fr by (simp add: run free_shm_def shm_step_def buf_step_def)
  qed
qed


section \<open>Teardown\<close>

definition frame :: "'w api \<Rightarrow> 'w api \<Rightarrow> bool" where
  "frame s s' \<longleftrightarrow> keeps s s' \<and> ctx_list s' = ctx_list s \<and> (\<forall>a. listed s' a \<longrightarrow> listed s a)"

lemma frame_refl [simp]: "frame s s"
  by (simp add: frame_def)

lemma frame_trans: "frame s s' \<Longrightarrow> frame s' s'' \<Longrightarrow> frame s s''"
  by (auto simp: frame_def intro: keeps_trans)

lemma frame_shm_step: "shm_step s s' \<Longrightarrow> frame s s'"
  using listed_nb by (auto simp: frame_def shm_step_keeps) (auto simp: shm_step_def)

lemma frame_same_mem: "same_mem s s' \<Longrightarrow> frame s s'"
  by (elim same_memE) (simp add: frame_def keeps_def listed_def)

lemma detached_cnt:
  assumes "detached s a m"
  shows "detached (s\<lparr>shms := (shms s)(a \<mapsto> m\<lparr>si_ops_cnt := n\<rparr>)\<rparr>) a (m\<lparr>si_ops_cnt := n\<rparr>)"
proof -
  let ?s = "s\<lparr>shms := (shms s)(a \<mapsto> m\<lparr>si_ops_cnt := n\<rparr>)\<rparr>"
  have a: "shm_at s a = Some m" "shm_at ?s a = Some (m\<lparr>si_ops_cnt := n\<rparr>)"
    using assms by (simp_all add: detached_def shm_at_def)
  have eq: "shm_slot ?s b = shm_slot s b \<and> heap_block ?s b = heap_block s b" for b
  proof (cases "b = a")
    case True
    with a show ?thesis by (simp only: shm_slot_def heap_block_def) simp
  next
    case False
    then show ?thesis using ok_frame_shms [of a "(shms s)(a \<mapsto> m\<lparr>si_ops_cnt := n\<rparr>)" s b] by simp
  qed
  show ?thesis
    using assms eq unfolding detached_def by (simp add: listed_def)
qed

lemma PutBnShrMem_detached:
  assumes "wf_api H s" and "detached s a m" and "si_ops_cnt m = 1" and "\<And>c. ShrMemBitMapLock c \<notin> held s"
  shows "ok (PutBnShrMem os a s) (\<lambda>s'. wf_api H s' \<and> shm_step s s' \<and> shms s' = (shms s)(a := None))"
proof -
  let ?s = "s\<lparr>shms := (shms s)(a \<mapsto> m\<lparr>si_ops_cnt := 0\<rparr>)\<rparr>"
  have a: "shm_at s a = Some m" "a \<noteq> NULL" "\<not> listed s a"
    using assms(2) by (simp_all add: detached_def shm_at_def)
  have "ok (ReleaseSharedMemory os a ?s) (\<lambda>s'. wf_api H s' \<and> shm_step ?s s' \<and> shms s' = (shms ?s)(a := None))"
    by (rule ReleaseSharedMemory_spec [OF wf_unlisted_shm [OF assms(1) a(3)] detached_cnt [OF assms(2)]])
      (use assms(4) in simp)
  then show ?thesis
    using a assms(3) by (auto simp: PutBnShrMem_def AtomDecAndCompareWithZero_def ok_iff shm_step_def)
qed

lemma finalize_shms_spec:
  assumes "wf_api H s" and "ctxs s c = Some ci" and "\<And>c. ShrMemBitMapLock c \<notin> held s"
  shows "ok (finalize_shms os c (ci_shrd_mem_list ci) s) (\<lambda>s'. wf_api H s' \<and> frame s s' \<and> ctxs s' c \<noteq> None)"
  using assms
proof (induction "ci_shrd_mem_list ci" arbitrary: s ci)
  case Nil
  then show ?case by simp
next
  case (Cons a as)
  have at: "ctx_at s c = Some ci" using Cons.prems(2) by (simp add: wf_ctx_at [OF Cons.prems(1)])
  define ci1 where "ci1 = ci\<lparr>ci_shrd_mem_list := remove1 a (ci_shrd_mem_list ci)\<rparr>"
  define s1 where "s1 = s\<lparr>ctxs := (ctxs s)(c \<mapsto> ci1)\<rparr>"
  have mem: "a \<in> set (ci_shrd_mem_list ci)" using Cons.hyps(2) by (metis list.set_intros(1))
  obtain m where wf1: "wf_api H s1" and m: "detached s1 a m" "si_ops_cnt m = 1"
    using unlink_shm [OF Cons.prems(1,2) mem] by (auto simp: s1_def ci1_def)
  have free: "\<And>c. ShrMemBitMapLock c \<notin> held s1" using Cons.prems(3) by (simp add: s1_def)
  obtain s2 where put: "PutBnShrMem os a s1 = Some s2" and wf2: "wf_api H s2" and st: "shm_step s1 s2"
    using PutBnShrMem_detached [OF wf1 m free] by (auto simp: ok_iff)
  have "ctxs s1 c = Some ci1" by (simp add: s1_def)
  with st obtain bm where c2: "ctxs s2 c = Some (ci1\<lparr>ci_shm_bitmap := bm\<rparr>)"
    by (auto simp: shm_step_def elim: ctxs_nb_Some)
  have "listed s1 b \<Longrightarrow> listed s b" for b
    using set_remove1_subset [of a "ci_shrd_mem_list ci"] Cons.prems(2)
    by (auto simp: listed_def s1_def ci1_def split: if_splits)
  then have f1: "frame s s1" by (simp add: frame_def keeps_def s1_def)
  have as: "as = ci_shrd_mem_list (ci1\<lparr>ci_shm_bitmap := bm\<rparr>)"
    by (simp add: ci1_def flip: Cons.hyps(2))
  have h2: "\<And>c. ShrMemBitMapLock c \<notin> held s2" using free st by (simp add: shm_step_def)
  obtain s3 where s3: "finalize_shms os c as s2 = Some s3" "wf_api H s3" "frame s2 s3" "ctxs s3 c \<noteq> None"
    using Cons.hyps(1) [OF as wf2 c2 h2] as by (auto simp: ok_iff)
  have "frame s s3" using f1 frame_shm_step [OF st] s3(3) by (metis frame_trans)
  moreover have "finalize_shms os c (a # as) s = Some s3"
    using s3(1) put by (simp add: at s1_def ci1_def)
  ultimately show ?case using s3 by (simp flip: Cons.hyps(2))
qed

lemma finalize_sessions_spec:
  assumes "wf_api H s" and "ctxs s c = Some ci"
  shows "ok (finalize_sessions os c (ci_session_list ci) s) (\<lambda>s'. wf_api H s' \<and> frame s s' \<and> ctxs s' c \<noteq> None)"
  using assms
proof (induction "ci_session_list ci" arbitrary: s ci)
  case Nil
  then show ?case by simp
next
  case (Cons a as)
  define ci1 where "ci1 = ci\<lparr>ci_session_list := remove1 a (ci_session_list ci)\<rparr>"
  have mem: "a \<in> set (ci_session_list ci)" using Cons.hyps(2) by (metis list.set_intros(1))
  obtain s1 e where s1: "unlink_session a c s = Some s1" "wf_api H s1" "keeps s s1" "sess s a = Some e"
      "s1 = s\<lparr>ctxs := (ctxs s)(c \<mapsto> ci1), sess := (sess s)(a \<mapsto> e\<lparr>se_head := NULL\<rparr>)\<rparr>"
    using unlink_session_spec [OF Cons.prems mem] by (auto simp: ok_iff ci1_def)
  have nn: "a \<noteq> NULL" by (rule wf_sess [OF Cons.prems mem])
  have c1: "ctxs s1 c = Some ci1" and e1: "sess s1 a = Some (e\<lparr>se_head := NULL\<rparr>)" by (simp_all add: s1(5))
  obtain r s2 where s2: "TEEC_CloseSessionInner os a c s1 = Some (r, s2)" "wf_api H s2" "keeps s1 s2"
    "same_mem (s1\<lparr>sess := sess s2\<rparr>) s2"
    using CloseSessionInner_spec [OF s1(2) e1 nn c1, of os] by (auto simp: ok_iff)
  from s2(4) obtain w where w: "s2 = s1\<lparr>sess := sess s2, world := w\<rparr>" by (elim same_memE)
  have pr: "ctxs s2 = ctxs s1" "ctx_list s2 = ctx_list s" by (subst w; simp add: s1(5))+
  have c2: "ctxs s2 c = Some ci1" using c1 by (simp add: pr)
  have at2: "ctx_at s2 c = Some ci1" "\<not> ci_callFromService ci1"
    using c2 wf_ctx [OF s2(2) c2] by (simp_all add: wf_ctx_at [OF s2(2)] ctx_ok_def)
  have "listed s1 b \<Longrightarrow> listed s b" for b
    using Cons.prems(2) by (auto simp: listed_def s1(5) ci1_def split: if_splits)
  moreover have "listed s2 b = listed s1 b" for b by (simp add: listed_def pr)
  ultimately have f: "frame s s2" using keeps_trans [OF s1(3) s2(3)] by (simp add: frame_def pr)
  have as: "as = ci_session_list ci1" by (simp add: ci1_def flip: Cons.hyps(2))
  obtain s3 where s3: "finalize_sessions os c as s2 = Some s3" "wf_api H s3" "frame s2 s3" "ctxs s3 c \<noteq> None"
    using Cons.hyps(1) [OF as s2(2) c2] as by (auto simp: ok_iff)
  from f s3(3) have "frame s s3" by (rule frame_trans)
  with s3 at2 show ?case
    by (simp add: s1(1) s2(1) flip: Cons.hyps(2))
qed

lemma wf_drop_ctx:
  assumes "wf_api H s" and "c \<notin> set (ctx_list s)" and "H c = 0"
  shows "wf_api H (s\<lparr>ctxs := (ctxs s)(c := None)\<rparr>)"
proof -
  have "listed (s\<lparr>ctxs := (ctxs s)(c := None)\<rparr>) a \<Longrightarrow> listed s a" for a
    by (auto simp: listed_def split: if_splits)
  then have "heap_inj (s\<lparr>ctxs := (ctxs s)(c := None)\<rparr>)"
    using assms(1) unfolding wf_api_def heap_inj_def by auto
  then show ?thesis using assms by (auto simp: wf_api_def)
qed

definition no_ctx_locks :: "'w api \<Rightarrow> bool" where
  "no_ctx_locks s \<longleftrightarrow> (\<forall>l \<in> held s. lock_owner l = None)"

lemma no_ctx_locksD [simp]:
  "no_ctx_locks s \<Longrightarrow> SessionLock c \<notin> held s" "no_ctx_locks s \<Longrightarrow> ShrMemLock c \<notin> held s"
  "no_ctx_locks s \<Longrightarrow> ShrMemBitMapLock c \<notin> held s"
  by (auto simp: no_ctx_locks_def)


lemma no_ctx_locks_keeps: "keeps s s' \<Longrightarrow> no_ctx_locks s' = no_ctx_locks s"
  by (simp add: keeps_def no_ctx_locks_def)

text \<open>A lock is released again: the state between has it added to those held.\<close>

lemma frame_locked:
  assumes "frame (s\<lparr>world := w, held := insert l (held s)\<rparr>) s'" and "l \<notin> held s"
  shows "frame s (s'\<lparr>held := held s' - {l}\<rparr>)"
  using assms by (auto simp: frame_def keeps_def listed_def)

lemma wf_fd: "wf_api H s \<Longrightarrow> ctxs s c = Some ci \<Longrightarrow> wf_api H (s\<lparr>ctxs := (ctxs s)(c \<mapsto> ci\<lparr>ci_fd := n\<rparr>)\<rparr>)"
  by (rule wf_upd_ctx) (auto dest: wf_ctx simp: ctx_ok_def)

lemma locks_okD: "locks_ok os \<Longrightarrow> pthread_mutex_lock os l s = Some (r, s') \<Longrightarrow> r = 0"
proof -
  assume ok: "locks_ok os" and run: "pthread_mutex_lock os l s = Some (r, s')"
  obtain q w where q: "os_mutex_lock os l (world s) = (q, w)" by fastforce
  with ok have "q = 0" by (metis locks_ok_def fst_conv)
  with run q show "r = 0" by (auto simp: pthread_mutex_lock_def split: if_splits)
qed

lemma FinalizeContextInner_spec:
  assumes "wf_api H s" and "ctxs s c = Some ci" and "c \<notin> set (ctx_list s)" and "H c = 0" and "no_ctx_locks s"
  shows "ok (TEEC_FinalizeContextInner os c s) (\<lambda>s'. wf_api H s' \<and> frame s s' \<and> (locks_ok os \<longrightarrow> ctxs s' c = None))"
proof -
  have nn: "c \<noteq> NULL" using wf_ctx [OF assms(1,2)] by (simp add: ctx_ok_def)
  have there: "lock_there (SessionLock c) s" "SessionLock c \<notin> held s"
    using assms(2,5) by (simp_all add: wf_ctx_at [OF assms(1)])
  from there show ?thesis
  proof (cases rule: lock_free [of _ _ os])
    case (failed r w)
    then show ?thesis using nn assms(1) locks_okD [OF _ failed(1)] by (auto simp: TEEC_FinalizeContextInner_def frame_same_mem)
  next
    case (taken w)
    define t where "t = s\<lparr>world := w, held := insert (SessionLock c) (held s)\<rparr>"
    have t: "wf_api H t" "ctxs t c = Some ci" "ctx_at t c = Some ci"
      using assms(1,2) nn by (simp_all add: t_def ctx_at_def)
    obtain s1 where s1: "finalize_sessions os c (ci_session_list ci) t = Some s1" "wf_api H s1" "frame t s1" "ctxs s1 c \<noteq> None"
      using finalize_sessions_spec [OF t(1,2), of os] by (auto simp: ok_iff)
    define s2 where "s2 = s1\<lparr>held := held s1 - {SessionLock c}\<rparr>"
    obtain ci2 where s2: "wf_api H s2" "frame s s2" "ctxs s2 c = Some ci2"
      using s1(2-4) frame_locked [where s = s and w = w and l = "SessionLock c" and s' = s1] there(2) by (auto simp: s2_def t_def)
    have unl: "pthread_mutex_unlock (SessionLock c) s1 = Some s2"
      using s1(4) nn by (simp add: pthread_mutex_unlock_def s2_def ctx_at_def)
    have there2: "lock_there (ShrMemLock c) s2" "ShrMemLock c \<notin> held s2"
      using assms(5) s2 nn by (auto simp: ctx_at_def frame_def keeps_def)
    have run1: "TEEC_FinalizeContextInner os c s = do {
        (lockRet, s) \<leftarrow> pthread_mutex_lock os (ShrMemLock c) s2;
        if lockRet \<noteq> 0 then Some s
        else do {
          ci \<leftarrow> ctx_at s c;
          s \<leftarrow> finalize_shms os c (ci_shrd_mem_list ci) s;
          s \<leftarrow> pthread_mutex_unlock (ShrMemLock c) s;
          ci \<leftarrow> ctx_at s c;
          let s = s\<lparr>world := os_close os (ci_fd ci) (world s)\<rparr>;
          s \<leftarrow> upd_ctx c (\<lambda>c. c\<lparr>ci_fd := - 1\<rparr>) s;
          Some (s\<lparr>ctxs := (ctxs s)(c := None)\<rparr>)
        }}"
      using nn s1(1) unl t(3) by (simp add: TEEC_FinalizeContextInner_def taken t_def)
    from there2 show ?thesis
    proof (cases rule: lock_free [of _ _ os])
      case (failed r w')
      then show ?thesis
        using s2(1) frame_trans [OF s2(2) frame_same_mem [OF same_mem_world]] locks_okD [OF _ failed(1)] by (auto simp: run1)
    next
      case (taken w')
      define u where "u = s2\<lparr>world := w', held := insert (ShrMemLock c) (held s2)\<rparr>"
      have u: "wf_api H u" "ctxs u c = Some ci2" "ctx_at u c = Some ci2" "\<And>d. ShrMemBitMapLock d \<notin> held u"
        using s2 nn assms(5) by (auto simp: u_def ctx_at_def frame_def keeps_def)
      obtain s3 where s3: "finalize_shms os c (ci_shrd_mem_list ci2) u = Some s3" "wf_api H s3" "frame u s3" "ctxs s3 c \<noteq> None"
        using finalize_shms_spec [OF u(1,2,4), of os] by (auto simp: ok_iff)
      define s4 where "s4 = s3\<lparr>held := held s3 - {ShrMemLock c}\<rparr>"
      have f4: "wf_api H s4" "frame s s4"
        using s3(2) frame_locked [where s = s2 and w = w' and l = "ShrMemLock c" and s' = s3] s3(3) there2(2) frame_trans [OF s2(2)]
        by (auto simp: s4_def u_def)
      obtain ci4 where c4: "ctxs s4 c = Some ci4" using s3(4) by (auto simp: s4_def)
      have unl2: "pthread_mutex_unlock (ShrMemLock c) s3 = Some s4"
        using s3(4) nn by (simp add: pthread_mutex_unlock_def s4_def ctx_at_def)
      define s5 where "s5 = s4\<lparr>ctxs := (ctxs s4)(c := None), world := os_close os (ci_fd ci4) (world s4)\<rparr>"
      have run: "TEEC_FinalizeContextInner os c s = Some s5"
        using nn c4 s3(1) unl2 u(3) by (simp add: run1 taken ctx_at_def upd_ctx_def s5_def u_def)
      have nl: "c \<notin> set (ctx_list s4)" using f4(2) assms(3) by (simp add: frame_def)
      have "wf_api H s5" using wf_drop_ctx [OF f4(1) nl assms(4)] by (simp add: s5_def)
      moreover have "listed s5 b \<Longrightarrow> listed s4 b" for b by (auto simp: listed_def s5_def split: if_splits)
      then have "frame s4 s5" by (simp add: frame_def keeps_def s5_def)
      ultimately show ?thesis using frame_trans [OF f4(2)] by (simp add: run s5_def)
    qed
  qed
qed

lemma unat_dec: "0 < unat (n :: u32) \<Longrightarrow> unat (n - 1) = unat n - 1"
  by (simp add: unat_minus_one unat_gt_0)

lemma PutBnContext_spec:
  assumes "wf_api H s" and "0 < H c" and "no_ctx_locks s"
  shows "ok (PutBnContext os c s) (\<lambda>(r, s'). wf_api (H(c := H c - 1)) s' \<and> frame s s' \<and>
    (r \<longleftrightarrow> c \<notin> set (ctx_list s) \<and> H c = 1) \<and> (r \<longrightarrow> locks_ok os \<longrightarrow> ctxs s' c = None))"
proof -
  obtain ci where ci: "ctxs s c = Some ci" using assms(1,2) unfolding wf_api_def by blast
  have ok: "ctx_ok H s c ci" by (rule wf_ctx [OF assms(1) ci])
  then have nn: "c \<noteq> NULL" by (simp add: ctx_ok_def)
  note cnt = wf_ops_cnt [OF assms(1) ci]
  define s1 where "s1 = s\<lparr>ctxs := (ctxs s)(c \<mapsto> ci\<lparr>ci_ops_cnt := ci_ops_cnt ci - 1\<rparr>)\<rparr>"
  have dec: "unat (ci_ops_cnt ci - 1) = (if c \<in> set (ctx_list s) then 1 else 0) + (H c - 1)"
    using cnt assms(2) by (subst unat_dec) auto
  have wf1: "wf_api (H(c := H c - 1)) s1"
    unfolding s1_def by (rule wf_upd_ctx [OF assms(1) ci]) (use ok dec in \<open>auto simp: ctx_ok_def\<close>)
  have "listed s1 b \<Longrightarrow> listed s b" for b
    using ci by (auto simp: listed_def s1_def split: if_splits)
  then have f1: "frame s s1" by (simp add: frame_def keeps_def s1_def)
  have zero: "ci_ops_cnt ci - 1 = 0 \<longleftrightarrow> c \<notin> set (ctx_list s) \<and> H c = 1"
    using dec assms(2) by (auto simp: unat_eq_0 [symmetric] split: if_splits)
  show ?thesis
  proof (cases "ci_ops_cnt ci - 1 = 0")
    case False
    with zero have "\<not> (c \<notin> set (ctx_list s) \<and> H c = 1)" by simp
    with False show ?thesis using wf1 f1 nn ci
      by (simp add: PutBnContext_def ctx_at_def upd_ctx_def AtomDecAndCompareWithZero_def Let_def s1_def)
  next
    case True
    then have "unat (ci_ops_cnt ci - 1) = 0" by simp
    with dec have z: "c \<notin> set (ctx_list s1)" "(H(c := H c - 1)) c = 0"
      by (auto simp: s1_def split: if_splits)
    have c1: "ctxs s1 c = Some (ci\<lparr>ci_ops_cnt := ci_ops_cnt ci - 1\<rparr>)" "no_ctx_locks s1"
      using assms(3) by (simp_all add: s1_def no_ctx_locks_def)
    obtain s2 where s2: "TEEC_FinalizeContextInner os c s1 = Some s2" "wf_api (H(c := H c - 1)) s2" "frame s1 s2"
        "locks_ok os \<longrightarrow> ctxs s2 c = None"
      using FinalizeContextInner_spec [OF wf1 c1(1) z c1(2), of os] unfolding ok_iff by blast
    have "PutBnContext os c s = Some (True, s2)"
      using True nn ci s2(1)
      by (simp add: PutBnContext_def ctx_at_def upd_ctx_def AtomDecAndCompareWithZero_def Let_def s1_def)
    moreover have "c \<notin> set (ctx_list s) \<and> H c = 1" using zero True by simp
    ultimately show ?thesis using s2 frame_trans [OF f1 s2(3)] by simp
  qed
qed

end
