(* ===== verification/Api_Calls.thy ===== *)
theory Api_Calls
  imports Api_Teardown
begin

text \<open>
  The calls that use an existing context keep the invariant of \<open>Api_Inv\<close>, whatever the operating
  system and the driver answer: \<open>TEEC_CloseSession\<close>, \<open>TEEC_InvokeCommand\<close>,
  \<open>TEEC_RequestCancellation\<close>, \<open>TEEC_SendSecfile\<close> and \<open>TEEC_FinalizeContext\<close>.  A call takes a
  reference to its context (\<open>enter\<close>) and gives it back (\<open>leave\<close>); \<open>hold H c\<close> counts it while the
  call runs.
\<close>

section \<open>References that calls hold\<close>

lemma frame_world [simp]: "frame s (s'\<lparr>world := w\<rparr>) = frame s s'"
  by (simp add: frame_def keeps_def listed_def)

definition hold :: "(addr \<Rightarrow> nat) \<Rightarrow> addr \<Rightarrow> addr \<Rightarrow> nat" where
  "hold H c = (if c = NULL then H else H(c := Suc (H c)))"

lemma hold_NULL [simp]: "hold H NULL = H"
  by (simp add: hold_def)

lemma hold_pos: "c \<noteq> NULL \<Longrightarrow> 0 < hold H c c"
  by (simp add: hold_def)

lemma wf_held:
  assumes "wf_api (hold H c) s" and "c \<noteq> NULL"
  obtains ci where "ctxs s c = Some ci" and "ctx_at s c = Some ci"
proof -
  have "0 < hold H c c" using assms(2) by (rule hold_pos)
  then obtain ci where "ctxs s c = Some ci" using assms(1) unfolding wf_api_def by blast
  with that wf_ctx_at [OF assms(1)] show ?thesis by simp
qed

text \<open>Steps that change no structure but a context.\<close>

definition ctx_step :: "'w api \<Rightarrow> 'w api \<Rightarrow> bool" where
  "ctx_step s s' \<longleftrightarrow> frame s s' \<and> sess s' = sess s \<and> shms s' = shms s \<and> bufs s' = bufs s"

lemma ctx_step_refl [simp]: "ctx_step s s"
  by (simp add: ctx_step_def)

lemma ctx_step_trans: "ctx_step s s' \<Longrightarrow> ctx_step s' s'' \<Longrightarrow> ctx_step s s''"
  by (auto simp: ctx_step_def intro: frame_trans)

lemma ctx_step_same_mem: "same_mem s s' \<Longrightarrow> ctx_step s s'"
  by (auto simp: ctx_step_def frame_same_mem) (auto elim!: same_memE)

lemma ctx_step_frame: "ctx_step s s' \<Longrightarrow> frame s s'"
  by (simp add: ctx_step_def)

lemma ctx_step_uctx: "ctx_step s s' \<Longrightarrow> uctx s' = uctx s \<and> ushm s' = ushm s \<and> held s' = held s"
  by (simp add: ctx_step_def frame_def keeps_def)

lemma frame_locks: "frame s s' \<Longrightarrow> no_ctx_locks s' = no_ctx_locks s"
  unfolding frame_def by (elim conjE, rule no_ctx_locks_keeps)

definition held_small :: "(addr \<Rightarrow> nat) \<Rightarrow> bool" where
  "held_small H \<longleftrightarrow> (\<forall>c. H c < 2 ^ 31)"

lemma listed_upd_ctx:
  assumes "ctxs s c = Some ci" and "ci_shrd_mem_list ci' = ci_shrd_mem_list ci"
    and "listed (s\<lparr>ctxs := (ctxs s)(c \<mapsto> ci')\<rparr>) b"
  shows "listed s b"
  using assms by (auto simp: listed_def split: if_splits)

lemma frame_upd_ctx:
  "ctxs s c = Some ci \<Longrightarrow> ci_shrd_mem_list ci' = ci_shrd_mem_list ci \<Longrightarrow> frame s (s\<lparr>ctxs := (ctxs s)(c \<mapsto> ci')\<rparr>)"
  using listed_upd_ctx by (simp add: frame_def keeps_def) blast

lemma Get_spec:
  assumes "wf_api H s" and "MutexWriteContextList \<notin> held s"
    and "context \<noteq> NULL \<Longrightarrow> uctx_at s context \<noteq> None" and "held_small H"
  shows "ok (GetBnContext os context s) (\<lambda>(c, s'). wf_api (hold H c) s' \<and> ctx_step s s')"
proof (rule ok_mono [OF GetBnContext_spec [OF assms(1,2)]])
  fix x assume x: "case x of (c, s') \<Rightarrow> c = NULL \<and> same_mem s s' \<or>
    c \<noteq> NULL \<and> context \<noteq> NULL \<and> c \<in> set (ctx_list s) \<and> wf_api (H(c := Suc (H c))) s' \<and>
    (\<exists>ci. ctxs s c = Some ci \<and>
       same_mem (s\<lparr>ctxs := (ctxs s)(c \<mapsto> ci\<lparr>ci_ops_cnt := AtomInc (ci_ops_cnt ci)\<rparr>)\<rparr>) s')"
  obtain c s' where [simp]: "x = (c, s')" by fastforce
  show "case x of (c, s') \<Rightarrow> wf_api (hold H c) s' \<and> ctx_step s s'"
  proof (cases "c = NULL")
    case True
    with x assms(1) wf_same_mem [of s s' H] show ?thesis by (auto simp: ctx_step_same_mem)
  next
    case False
    with x obtain ci where ci: "ctxs s c = Some ci" "wf_api (H(c := Suc (H c))) s'"
        "same_mem (s\<lparr>ctxs := (ctxs s)(c \<mapsto> ci\<lparr>ci_ops_cnt := AtomInc (ci_ops_cnt ci)\<rparr>)\<rparr>) s'" by auto
    have "ctx_step s (s\<lparr>ctxs := (ctxs s)(c \<mapsto> ci\<lparr>ci_ops_cnt := AtomInc (ci_ops_cnt ci)\<rparr>)\<rparr>)"
      using frame_upd_ctx [OF ci(1)] by (simp add: ctx_step_def)
    with ci False show ?thesis by (auto simp: hold_def intro: ctx_step_trans ctx_step_same_mem)
  qed
qed (use assms in \<open>auto simp: held_small_def\<close>)

lemma Put_spec:
  assumes "wf_api (hold H c) s" and "no_ctx_locks s"
  shows "ok (PutBnContext os c s) (\<lambda>(r, s'). wf_api H s' \<and> frame s s')"
proof (cases "c = NULL")
  case True
  with assms(1) show ?thesis by (simp add: PutBnContext_def)
next
  case False
  then have "(hold H c)(c := hold H c c - 1) = H" by (simp add: hold_def)
  with PutBnContext_spec [OF assms(1) hold_pos [OF False] assms(2), of os] show ?thesis by (auto elim: ok_mono)
qed

text \<open>Entering a call takes a reference to the context, leaving it gives the reference back.\<close>

lemma enter:
  assumes "wf_api H s" and "held s = {}" and "held_small H" and "uctx_at s context \<noteq> None"
  obtains c s1 where "GetBnContext os context s = Some (c, s1)" and "wf_api (hold H c) s1" and "ctx_step s s1"
    and "no_ctx_locks s1"
proof -
  have "ok (GetBnContext os context s) (\<lambda>(c, s'). wf_api (hold H c) s' \<and> ctx_step s s')"
    by (rule Get_spec [OF assms(1) _ assms(4,3)]) (simp add: assms(2))
  then obtain c s1 where s1: "GetBnContext os context s = Some (c, s1)" "wf_api (hold H c) s1" "ctx_step s s1"
    by (auto simp: ok_iff)
  moreover have "no_ctx_locks s1" using s1(3) assms(2) by (auto dest: ctx_step_uctx simp: no_ctx_locks_def)
  ultimately show ?thesis by (rule that)
qed

lemma leave:
  assumes "wf_api (hold H c) s" and "no_ctx_locks s"
  obtains b s' where "PutBnContext os c s = Some (b, s')" and "wf_api H s'" and "frame s s'"
  using Put_spec [OF assms, of os] by (auto simp: ok_iff)

lemma same_mem_wf_frame:
  assumes "same_mem s s'" and "wf_api H s" and "no_ctx_locks s"
  shows "wf_api H s'" "frame s s'" "no_ctx_locks s'"
  using assms by (auto simp: wf_same_mem frame_same_mem frame_locks [OF frame_same_mem])

section \<open>Closing a session\<close>

lemma FindBnSession_spec:
  assumes "wf_api H s" and "ctxs s c = Some ci" and "sess_at s a = Some e"
  shows "ok (FindBnSession a c s) (\<lambda>r. \<forall>b. r = Some b \<longrightarrow> b \<in> set (ci_session_list ci) \<and>
    (\<exists>eb. sess s b = Some eb \<and> se_session_id eb = se_session_id e))"
proof -
  have mem: "\<And>b. b \<in> set (ci_session_list ci) \<Longrightarrow> sess_at s b \<noteq> None"
    using wf_sess_at [OF assms(1,2)] .
  have "b \<in> set (ci_session_list ci) \<and> (\<exists>eb. sess s b = Some eb \<and> se_session_id eb = se_session_id e)"
    if f: "find (\<lambda>b. se_session_id (the (sess_at s b)) = se_session_id e) (ci_session_list ci) = Some b" for b
  proof -
    from f have b: "b \<in> set (ci_session_list ci)" "se_session_id (the (sess_at s b)) = se_session_id e"
      by (auto simp: find_Some_iff)
    with mem [of b] obtain eb where "sess_at s b = Some eb" by auto
    with b at_map(3) show ?thesis by force
  qed
  then show ?thesis
    by (auto simp: FindBnSession_def wf_ctx_at [OF assms(1)] assms(2,3) find_sess_find [OF mem])
qed

lemma FindAndRemoveSession_spec:
  assumes "wf_api (hold H c) s" and "c \<noteq> NULL" and "sess_at s a \<noteq> None" and "no_ctx_locks s"
  shows "ok (FindAndRemoveSession os a c s) (\<lambda>(b, s'). wf_api (hold H c) s' \<and> frame s s')"
proof -
  obtain ci where ci: "ctxs s c = Some ci" "ctx_at s c = Some ci" by (rule wf_held [OF assms(1,2)])
  obtain e where e: "sess_at s a = Some e" using assms(3) by auto
  have nn: "a \<noteq> NULL" using e by (auto simp: sess_at_def)
  obtain f where f: "FindBnSession a c s = Some f" "\<And>b. f = Some b \<Longrightarrow> b \<in> set (ci_session_list ci)"
    using FindBnSession_spec [OF assms(1) ci(1) e] by (auto simp: ok_iff)
  have there: "lock_there (SessionLock c) s" "SessionLock c \<notin> held s" using ci(2) assms(4) by simp_all
  from there show ?thesis
  proof (cases rule: lock_free [of _ _ os])
    case (failed r w)
    with assms(1,2) nn show ?thesis by (simp add: FindAndRemoveSession_def frame_same_mem)
  next
    case (taken w)
    define t where "t = s\<lparr>held := insert (SessionLock c) (held s), world := w\<rparr>"
    have t: "wf_api (hold H c) t" "ctxs t c = Some ci" using assms(1) ci by (simp_all add: t_def)
    have ft: "FindBnSession a c t = Some f" using f(1) by (simp add: t_def)
    show ?thesis
    proof (cases f)
      case None
      with ft there ci(2) have "FindAndRemoveSession os a c s = Some (NULL, s\<lparr>world := w\<rparr>)"
        by (simp add: FindAndRemoveSession_def taken nn assms(2) t_def pthread_mutex_unlock_def ptr_of_def)
      with assms(1) show ?thesis by (simp add: frame_same_mem)
    next
      case (Some b)
      obtain s1 eb where s1: "unlink_session b c t = Some s1" "wf_api (hold H c) s1" "keeps t s1"
          "s1 = t\<lparr>ctxs := (ctxs t)(c \<mapsto> ci\<lparr>ci_session_list := remove1 b (ci_session_list ci)\<rparr>),
             sess := (sess t)(b \<mapsto> eb\<lparr>se_head := NULL\<rparr>)\<rparr>"
        using unlink_session_spec [OF t f(2) [OF Some]] by (auto simp: ok_iff)
      have "frame t (t\<lparr>ctxs := (ctxs t)(c \<mapsto> ci\<lparr>ci_session_list := remove1 b (ci_session_list ci)\<rparr>)\<rparr>)"
        by (rule frame_upd_ctx [OF t(2)]) simp
      with s1(3,4) have "frame t s1" by (simp add: frame_def listed_def)
      then have fr: "frame s (s1\<lparr>held := held s1 - {SessionLock c}\<rparr>)"
        by (intro frame_locked [where w = w]) (use there in \<open>simp_all add: t_def\<close>)
      have "ctx_at s1 c \<noteq> None" using assms(2) by (simp add: s1(4) ctx_at_def)
      with ft s1(1) Some
      have "FindAndRemoveSession os a c s = Some (b, s1\<lparr>held := held s1 - {SessionLock c}\<rparr>)"
        by (simp add: FindAndRemoveSession_def taken nn assms(2) t_def pthread_mutex_unlock_def ptr_of_def)
      with s1(2) fr show ?thesis by simp
    qed
  qed
qed

lemma frame_sess: "frame s s' \<Longrightarrow> sess_at s' a = None \<longleftrightarrow> sess_at s a = None"
proof -
  assume "frame s s'"
  then have "a \<in> dom (sess s') \<longleftrightarrow> a \<in> dom (sess s)" by (simp add: frame_def keeps_def)
  then show ?thesis by (auto simp: sess_at_def)
qed

lemma TEEC_CloseSession_ok:
  assumes "wf_api H s" and "held s = {}" and "held_small H"
    and "\<And>e. sess_at s a = Some e \<Longrightarrow> se_context e \<noteq> NULL \<Longrightarrow> uctx_at s (se_context e) \<noteq> None"
    and "a \<noteq> NULL \<Longrightarrow> sess_at s a \<noteq> None"
  shows "ok (TEEC_CloseSession os a s) (\<lambda>s'. wf_api H s' \<and> frame s s')"
proof (cases "a = NULL")
  case True
  then show ?thesis using assms(1) by (simp add: TEEC_CloseSession_def)
next
  case False
  with assms(5) obtain e where e: "sess_at s a = Some e" by auto
  show ?thesis
  proof (cases "se_context e = NULL")
    case True
    then show ?thesis using assms(1) e False by (simp add: TEEC_CloseSession_def)
  next
    case nn: False
    obtain c s1 where s1: "GetBnContext os (se_context e) s = Some (c, s1)" "wf_api (hold H c) s1" "ctx_step s s1"
      using Get_spec [OF assms(1) _ assms(4) [OF e] assms(3), of os] assms(2) by (auto simp: ok_iff)
    have l1: "no_ctx_locks s1" using s1(3) assms(2) by (auto dest: ctx_step_uctx simp: no_ctx_locks_def)
    show ?thesis
    proof (cases "c = NULL")
      case True
      with s1 show ?thesis by (simp add: TEEC_CloseSession_def e False nn ctx_step_frame)
    next
      case c: False
      have a1: "sess_at s1 a \<noteq> None" using e frame_sess [OF ctx_step_frame [OF s1(3)], of a] by simp
      obtain b s2 where s2: "FindAndRemoveSession os a c s1 = Some (b, s2)" "wf_api (hold H c) s2" "frame s1 s2"
        using FindAndRemoveSession_spec [OF s1(2) c a1 l1, of os] by (auto simp: ok_iff)
      have l2: "no_ctx_locks s2" using frame_locks [OF s2(3)] l1 by simp
      have f2: "frame s s2" using ctx_step_frame [OF s1(3)] s2(3) by (rule frame_trans)
      obtain ci where ci: "ctxs s2 c = Some ci" by (rule wf_held [OF s2(2) c])
      obtain e2 where e2: "sess s2 a = Some e2"
        using frame_sess [OF f2, of a] e False by (auto simp: sess_at_def)
      obtain r s3 where s3: "TEEC_CloseSessionInner os a c s2 = Some (r, s3)" "wf_api (hold H c) s3" "keeps s2 s3"
          "same_mem (s2\<lparr>sess := sess s3\<rparr>) s3"
        using CloseSessionInner_spec [OF s2(2) e2 False ci, of os] by (auto simp: ok_iff)
      from s3(4) obtain w where w: "s3 = s2\<lparr>sess := sess s3, world := w\<rparr>" by (elim same_memE)
      have "ctx_list s3 = ctx_list s2" "ctxs s3 = ctxs s2" by (subst w; simp)+
      with s3(3) have f3: "frame s2 s3" by (simp add: frame_def listed_def)
      have l3: "no_ctx_locks s3" using frame_locks [OF f3] l2 by simp
      from Put_spec [OF s2(2) l2, of os] Put_spec [OF s3(2) l3, of os] show ?thesis
        using f2 frame_trans [OF f2 f3]
        by (auto simp: TEEC_CloseSession_def e False nn c s1(1) s2(1) s3(1) ok_iff intro: frame_trans)
    qed
  qed
qed


section \<open>Operations of the caller\<close>

text \<open>
  What the caller owes: the parents of the memory references of an operation are structures of
  the caller, also those of a shared reference, which the checks skip.
\<close>

definition caller_op :: "'w api \<Rightarrow> operation_ptr \<Rightarrow> bool" where
  "caller_op s operation \<longleftrightarrow>
     (case operation of None \<Rightarrow> True | Some (opa, op) \<Rightarrow> parents_ok s op \<and> shared_parent_ok s op)"

lemma ushm_at_cong: "ushm s' = ushm s \<Longrightarrow> ushm_at s' = ushm_at s"
  by (simp add: ushm_at_def fun_eq_iff)

lemma caller_op_frame: "ushm s' = ushm s \<Longrightarrow> caller_op s' operation = caller_op s operation"
proof -
  assume "ushm s' = ushm s"
  then have at: "ushm_at s' = ushm_at s" by (rule ushm_at_cong)
  have "parents_ok s' = parents_ok s" "shared_parent_ok s' = shared_parent_ok s"
    by (simp_all add: parents_ok_def parent_ok_def shared_parent_ok_def at fun_eq_iff)
  then show ?thesis unfolding caller_op_def by (cases operation) auto
qed

lemma wf_shm_mem:
  assumes "wf_api (hold H c) s"
  shows "shm_mem s c"
proof (cases "c = NULL")
  case True
  then show ?thesis by (simp add: shm_mem_def)
next
  case False
  obtain ci where ci: "ctxs s c = Some ci" "ctx_at s c = Some ci" by (rule wf_held [OF assms False])
  have "shm_at s a \<noteq> None" if "a \<in> set (ci_shrd_mem_list ci)" for a
    by (rule wf_shm [OF assms ci(1) that]) simp
  with ci show ?thesis by (simp add: shm_mem_def list_all_iff)
qed

lemma check_encode:
  assumes "wf_api (hold H c) s" and "caller_op s operation" and "no_ctx_locks s"
  shows "ok (TEEC_CheckOperation os c operation s) (\<lambda>(r, s'). same_mem s s' \<and>
    (r = TEEC_SUCCESS \<longrightarrow> (\<forall>opa op. operation = Some (opa, op) \<longrightarrow> encodable s' op)))"
proof -
  have par: "\<And>opa op. operation = Some (opa, op) \<Longrightarrow> parents_ok s op" using assms(2) by (simp add: caller_op_def)
  have "ok (TEEC_CheckOperation os c operation s) (\<lambda>(r, s'). same_mem s s' \<and>
    (\<forall>opa op. operation = Some (opa, op) \<longrightarrow> 
       (r = TEEC_SUCCESS \<longrightarrow> operation_ok s c op) \<and>
       (locks_ok os \<longrightarrow> operation_ok s c op \<longrightarrow> r = TEEC_SUCCESS)))"
    by (rule CheckOperation_spec [OF wf_shm_mem [OF assms(1)] _ par]) (use assms(3) in simp_all)
  moreover have "operation = Some (opa, op) \<Longrightarrow> operation_ok s c op \<Longrightarrow> encodable s op" for opa op
    using assms(2) by (auto simp: caller_op_def intro: checked_encodable)
  moreover have "encodable (s\<lparr>world := w\<rparr>) op = encodable s op" for w op by (simp add: encodable_def)
  ultimately show ?thesis by (auto simp: ok_iff elim!: same_memE)
qed

lemma InvokeCommandInner_spec:
  assumes "wf_api (hold H c) s" and "caller_op s operation" and "no_ctx_locks s" and "a \<noteq> NULL" and "sess_at s a \<noteq> None"
  shows "ok (TEEC_InvokeCommandInner os c a cmd operation s) (\<lambda>(r, s'). same_mem s s')"
proof (cases "c = NULL")
  case True
  then show ?thesis by (simp add: TEEC_InvokeCommandInner_def)
next
  case False
  obtain ci where ci: "ctx_at s c = Some ci" by (rule wf_held [OF assms(1) False])
  obtain r s1 where s1: "TEEC_CheckOperation os c operation s = Some (r, s1)" "same_mem s s1"
      "r = TEEC_SUCCESS \<Longrightarrow> \<forall>opa op. operation = Some (opa, op) \<longrightarrow> encodable s1 op"
    using check_encode [OF assms(1-3), of os] by (auto simp: ok_iff)
  show ?thesis
  proof (cases "r = TEEC_SUCCESS")
    case False
    with s1 \<open>c \<noteq> NULL\<close> assms(4) show ?thesis by (simp add: TEEC_InvokeCommandInner_def)
  next
    case True
    obtain w1 where w1: "s1 = s\<lparr>world := w1\<rparr>" using s1(2) by (elim same_memE)
    have "ok (TEEC_Encode os (zero_cli\<lparr>cc_origin := TEEC_ORIGIN_API\<rparr>) a cmd no_login operation s1) (\<lambda>((r, cli', operation'), s').
      same_mem s1 s' \<and> cc_file_buffer cli' = NULL \<and> (r = TEEC_SUCCESS \<or> r = TEEC_ERROR_BAD_PARAMETERS) \<and>
      (cc_origin (zero_cli\<lparr>cc_origin := TEEC_ORIGIN_API\<rparr>) = TEEC_ORIGIN_API \<longrightarrow> cc_origin cli' = TEEC_ORIGIN_API))"
      by (rule Encode_defined) (use s1(3) True assms(5) w1 in \<open>auto simp: zero_cli_def\<close>)
    then obtain r2 cli op2 s2 where s2:
      "TEEC_Encode os (zero_cli\<lparr>cc_origin := TEEC_ORIGIN_API\<rparr>) a cmd no_login operation s1 = Some ((r2, cli, op2), s2)"
      "same_mem s s2" using w1 by (auto simp: ok_iff)
    obtain w2 where w2: "s2 = s\<lparr>world := w2\<rparr>" using s2(2) by (elim same_memE)
    obtain rr cli2 w3 where io: "os_ioctl os (ci_fd ci) SEND_CMD_REQ cli w2 = ((rr, cli2), w3)" by (metis surj_pair)
    show ?thesis
      using s1(1) s2(1) True \<open>c \<noteq> NULL\<close> assms(4) ci
      by (auto simp: TEEC_InvokeCommandInner_def ProcessInvokeCommand_def w2 do_ioctl_def io)
  qed
qed

lemma wf_sess_context:
  assumes "wf_api H s" and "sess_at s a = Some e"
  shows "wf_api H (s\<lparr>sess := (sess s)(a \<mapsto> e\<lparr>se_context := c\<rparr>)\<rparr>)"
  by (rule wf_upd_sess [OF assms(1)]) (use at_map(3) [OF assms(2)] in auto)

lemma frame_upd_sess: "sess s a = Some e \<Longrightarrow> frame s (s\<lparr>sess := (sess s)(a \<mapsto> e')\<rparr>)"
  by (auto simp: frame_def keeps_def listed_def)

text \<open>A session of the caller: the structure is there, and so is the context it names, if any.\<close>

definition caller_uctx :: "'w api \<Rightarrow> addr \<Rightarrow> bool" where
  "caller_uctx s c \<longleftrightarrow> c = NULL \<or> uctx_at s c \<noteq> None"

definition caller_sess :: "'w api \<Rightarrow> addr \<Rightarrow> bool" where
  "caller_sess s a \<longleftrightarrow> a = NULL \<or> (case sess_at s a of None \<Rightarrow> False | Some e \<Rightarrow> caller_uctx s (se_context e))"

lemma caller_sess_iff:
  "caller_sess s a \<longleftrightarrow> a = NULL \<or>
     (\<exists>e. sess_at s a = Some e \<and> (se_context e = NULL \<or> uctx_at s (se_context e) \<noteq> None))"
  by (auto simp: caller_sess_def caller_uctx_def split: option.split)

lemma TEEC_InvokeCommand_ok:
  assumes "wf_api H s" and "held s = {}" and "held_small H" and "caller_sess s a" and "caller_op s operation"
  shows "ok (TEEC_InvokeCommand os a cmd operation s) (\<lambda>(r, s'). wf_api H s' \<and> frame s s')"
proof (cases "a = NULL \<or> (\<exists>e. sess_at s a = Some e \<and> se_context e = NULL)")
  case True
  then show ?thesis using assms(1) by (auto simp: TEEC_InvokeCommand_def)
next
  case False
  with assms(4) obtain e where e: "sess_at s a = Some e" "a \<noteq> NULL" "se_context e \<noteq> NULL" "uctx_at s (se_context e) \<noteq> None"
    by (auto simp: caller_sess_iff)
  obtain c s1 where s1: "GetBnContext os (se_context e) s = Some (c, s1)" "wf_api (hold H c) s1" "ctx_step s s1"
    using Get_spec [OF assms(1) _ e(4) assms(3), of os] assms(2) by (auto simp: ok_iff)
  have l1: "no_ctx_locks s1" using s1(3) assms(2) by (auto dest: ctx_step_uctx simp: no_ctx_locks_def)
  have a1: "sess_at s1 a = Some e" using e(1) s1(3) by (auto simp: sess_at_def ctx_step_def split: if_splits)
  have o1: "caller_op s1 operation" using assms(5) caller_op_frame ctx_step_uctx [OF s1(3)] by blast
  obtain r r2 op2 s2 where s2: "TEEC_InvokeCommandInner os c a cmd operation s1 = Some ((r, r2, op2), s2)" "same_mem s1 s2"
    using InvokeCommandInner_spec [OF s1(2) o1 l1 e(2), of os cmd] a1 by (auto simp: ok_iff)
  obtain w2 where w2: "s2 = s1\<lparr>world := w2\<rparr>" using s2(2) by (elim same_memE)
  define s3 where "s3 = (if r = TEEC_SUCCESS then s2\<lparr>sess := (sess s2)(a \<mapsto> e\<lparr>se_context := se_context e\<rparr>)\<rparr> else s2)"
  have m1: "sess s1 a = Some e" using at_map(3) [OF a1] by simp
  have wf3: "wf_api (hold H c) s3" and f3: "frame s1 s3"
    using s1(2) wf_sess_context [OF s1(2) a1, of "se_context e"] frame_upd_sess [OF m1]
    by (auto simp: s3_def w2)
  have l3: "no_ctx_locks s3" using frame_locks [OF f3] l1 by simp
  obtain b s4 where s4: "PutBnContext os c s3 = Some (b, s4)" "wf_api H s4" "frame s3 s4"
    using Put_spec [OF wf3 l3, of os] by (auto simp: ok_iff)
  have "TEEC_InvokeCommand os a cmd operation s = Some ((r, r2, op2), s4)"
    using s4(1) a1 by (simp add: TEEC_InvokeCommand_def e s1(1) s2(1) s3_def w2 upd_sess_def split: if_splits)
  with s4 f3 s1(3) show ?thesis by (auto intro: frame_trans ctx_step_frame)
qed


section \<open>Cancellation and secure files\<close>

lemma encodable_cong: "ushm s' = ushm s \<Longrightarrow> encodable s' op = encodable s op"
proof -
  assume "ushm s' = ushm s"
  then have at: "ushm_at s' = ushm_at s" by (rule ushm_at_cong)
  show ?thesis by (simp add: encodable_def at)
qed

lemma TEEC_RequestCancellation_ok:
  assumes "wf_api H s" and "held s = {}" and "held_small H" and "caller_op s operation"
    and "\<And>opa op. operation = Some (opa, op) \<Longrightarrow> caller_sess s (op_session op)"
  shows "ok (TEEC_RequestCancellation os operation s) (\<lambda>(r, s'). wf_api H s' \<and> frame s s')"
proof (cases operation)
  case None
  then show ?thesis using assms(1) by (simp add: TEEC_RequestCancellation_def)
next
  case (Some x)
  obtain opa op where x: "operation = Some (opa, op)" using Some by (cases x) auto
  let ?a = "op_session op"
  show ?thesis
  proof (cases "?a = NULL \<or> (\<exists>e. sess_at s ?a = Some e \<and> se_context e = NULL)")
    case True
    then show ?thesis using assms(1) by (auto simp: TEEC_RequestCancellation_def x)
  next
    case False
    with assms(5) x obtain e where e: "sess_at s ?a = Some e" "?a \<noteq> NULL" "se_context e \<noteq> NULL" "uctx_at s (se_context e) \<noteq> None"
      by (auto simp: caller_sess_iff)
    obtain c s1 where s1: "GetBnContext os (se_context e) s = Some (c, s1)" "wf_api (hold H c) s1" "ctx_step s s1"
        "no_ctx_locks s1"
      by (rule enter [OF assms(1-3) e(4)])
    have o1: "caller_op s1 operation" using assms(4) caller_op_frame ctx_step_uctx [OF s1(3)] by blast
    obtain r s2 where s2: "TEEC_CheckOperation os c operation s1 = Some (r, s2)" "same_mem s1 s2"
        "r = TEEC_SUCCESS \<Longrightarrow> encodable s2 op"
      using check_encode [OF s1(2) o1 s1(4), of os] x by (auto simp: ok_iff)
    note wf2 = same_mem_wf_frame [OF s2(2) s1(2,4)]
    obtain b s3 where s3: "PutBnContext os c s2 = Some (b, s3)" "wf_api H s3" "frame s2 s3"
      by (rule leave [OF wf2(1,3)])
    have f3: "frame s s3" using ctx_step_frame [OF s1(3)] wf2(2) s3(3) by (metis frame_trans)
    have run: "TEEC_RequestCancellation os operation s =
        (if r \<noteq> TEEC_SUCCESS then Some (operation, s3)
         else do {
           ((teecRet, cli, operation), s) \<leftarrow>
             TEEC_Encode os zero_cli ?a TC_NS_CLIENT_IOCTL_CANCEL_CMD_REQ no_login operation s3;
           if teecRet \<noteq> TEEC_SUCCESS then Some (operation, s)
           else do {
             u \<leftarrow> uctx_at s (se_context e);
             let (_, s) = do_ioctl os (uc_fd u) CANCEL_CMD_REQ cli s;
             Some (operation, s)
           }
         })"
      by (simp add: TEEC_RequestCancellation_def x e s1(1) s2(1) [unfolded x] s3(1))
    show ?thesis
    proof (cases "r = TEEC_SUCCESS")
      case False
      then show ?thesis using s3 f3 by (simp add: run)
    next
      case True
      have "ushm s3 = ushm s2" using s3(3) by (simp add: frame_def keeps_def)
      with s2(3) True have enc: "encodable s3 op" using encodable_cong by blast
      have "ok (TEEC_Encode os zero_cli ?a TC_NS_CLIENT_IOCTL_CANCEL_CMD_REQ no_login operation s3) (\<lambda>((r, cli', operation'), s').
        same_mem s3 s' \<and> cc_file_buffer cli' = NULL \<and> (r = TEEC_SUCCESS \<or> r = TEEC_ERROR_BAD_PARAMETERS) \<and>
        (cc_origin zero_cli = TEEC_ORIGIN_API \<longrightarrow> cc_origin cli' = TEEC_ORIGIN_API))"
        by (rule Encode_defined) (use enc x e frame_sess [OF f3] in \<open>auto simp: zero_cli_def\<close>)
      then obtain r2 cli op2 s4 where s4:
        "TEEC_Encode os zero_cli ?a TC_NS_CLIENT_IOCTL_CANCEL_CMD_REQ no_login operation s3 = Some ((r2, cli, op2), s4)"
        "same_mem s3 s4" by (auto simp: ok_iff)
      obtain w where w: "s4 = s3\<lparr>world := w\<rparr>" using s4(2) by (elim same_memE)
      obtain u where u: "uctx_at s3 (se_context e) = Some u"
        using e(3,4) f3 by (auto simp: frame_def keeps_def uctx_at_def)
      show ?thesis using True s3(2) f3
        by (auto simp: run s4(1) u w do_ioctl_def split: prod.splits)
    qed
  qed
qed

lemma TEEC_SendSecfile_ok:
  assumes "wf_api H s" and "held s = {}" and "held_small H" and "caller_sess s a" and "malloc_ok os"
  shows "ok (TEEC_SendSecfile os path a s) (\<lambda>(r, s'). wf_api H s' \<and> frame s s')"
proof (cases "path = None \<or> a = NULL \<or> (\<exists>e. sess_at s a = Some e \<and> se_context e = NULL)")
  case True
  then show ?thesis using assms(1,4) by (auto simp: TEEC_SendSecfile_def caller_sess_iff)
next
  case False
  with assms(4) obtain e where e: "sess_at s a = Some e" "a \<noteq> NULL" "se_context e \<noteq> NULL" "uctx_at s (se_context e) \<noteq> None"
    by (auto simp: caller_sess_iff)
  obtain c s1 where s1: "GetBnContext os (se_context e) s = Some (c, s1)" "wf_api (hold H c) s1" "ctx_step s s1"
      "no_ctx_locks s1"
    by (rule enter [OF assms(1-3) e(4)])
  show ?thesis
  proof (cases "c = NULL")
    case True
    then show ?thesis using s1 e False by (auto simp: TEEC_SendSecfile_def ctx_step_frame)
  next
    case c: False
    obtain ci where ci: "ctx_at s1 c = Some ci" by (rule wf_held [OF s1(2) c])
    obtain r s2 where s2: "TEEC_LoadSecfile os path (ci_fd ci) NULL s1 = Some (r, s2)" "same_mem s1 s2"
      using TEEC_LoadSecfile_same [OF assms(5), of path "ci_fd ci" NULL s1] by (auto simp: ok_iff)
    note wf2 = same_mem_wf_frame [OF s2(2) s1(2,4)]
    obtain b s3 where s3: "PutBnContext os c s2 = Some (b, s3)" "wf_api H s3" "frame s2 s3"
      by (rule leave [OF wf2(1,3)])
    have "frame s s3" using ctx_step_frame [OF s1(3)] wf2(2) s3(3) by (metis frame_trans)
    then show ?thesis using False s3(2)
      by (auto simp: TEEC_SendSecfile_def e s1(1) c ci TEEC_SendSecfileInner_def s2(1) s3(1))
  qed
qed

section \<open>Finalising a context\<close>

lemma wf_unlist:
  assumes "wf_api H s" and "c \<in> set (ctx_list s)"
  shows "wf_api (hold H c) (s\<lparr>ctx_list := remove1 c (ctx_list s)\<rparr>)"
proof -
  let ?s = "s\<lparr>ctx_list := remove1 c (ctx_list s)\<rparr>"
  have d: "distinct (ctx_list s)" using assms(1) by (simp add: wf_api_def)
  obtain ci where ci: "ctxs s c = Some ci" using assms by (auto simp: wf_api_def)
  have nn: "c \<noteq> NULL" using wf_ctx [OF assms(1) ci] by (simp add: ctx_ok_def)
  have set: "set (remove1 c (ctx_list s)) = set (ctx_list s) - {c}" using d by (rule set_remove1_eq)
  have fr: "sess_ok ?s = sess_ok s" "shm_ok ?s = shm_ok s" "slots_inj ?s = slots_inj s"
    by (simp_all add: sess_ok_def shm_ok_def slots_inj_def shm_slot_def fun_eq_iff cong: option.case_cong)
  have "ctx_ok (hold H c) ?s d di" if "ctxs s d = Some di" for d di
    using wf_ctx [OF assms(1) that] assms(2) nn by (auto simp: ctx_ok_def fr set hold_def)
  moreover have "heap_inj ?s = heap_inj s" by (simp add: heap_inj_def heap_block_def listed_def)
  moreover have "hold H c d > 0 \<Longrightarrow> ctxs s d \<noteq> None" for d
    using assms(1) ci by (cases "d = c") (auto simp: hold_def wf_api_def nn)
  ultimately show ?thesis using assms(1) d set by (auto simp: wf_api_def)
qed

lemma TEEC_FinalizeContext_ok:
  assumes "wf_api H s" and "held s = {}" and "context \<noteq> NULL \<Longrightarrow> uctx_at s context \<noteq> None"
  shows "ok (TEEC_FinalizeContext os context s) (\<lambda>s'. wf_api H s' \<and> held s' = {} \<and> dom (sess s') = dom (sess s) \<and>
    ushm s' = ushm s \<and> dom (uctx s') = dom (uctx s) \<and> set (ctx_list s') \<subseteq> set (ctx_list s))"
proof (cases "context = NULL")
  case True
  then show ?thesis using assms(1,2) by (simp add: TEEC_FinalizeContext_def)
next
  case False
  obtain f where f: "FindBnContext context s = Some f" "\<And>c. f = Some c \<Longrightarrow> c \<in> set (ctx_list s)"
    using FindBnContext_spec [OF assms(1), of "context"] assms(3) by (force simp: ok_iff split: option.splits)
  have there: "lock_there MutexWriteContextList s" "MutexWriteContextList \<notin> held s" using assms(2) by simp_all
  obtain c s1 where s1: "FindAndRemoveBnContext os context s = Some (c, s1)" "wf_api (hold H c) s1"
      "keeps s s1" "set (ctx_list s1) \<subseteq> set (ctx_list s)"
    using there
  proof (cases rule: lock_free [of _ _ os])
    case (failed r w)
    with assms(1) that [of NULL "s\<lparr>world := w\<rparr>"] show ?thesis
      by (simp add: FindAndRemoveBnContext_def MutexLockContext_def keeps_def)
  next
    case (taken w)
    define s1 where "s1 = (case f of None \<Rightarrow> s | Some a \<Rightarrow> s\<lparr>ctx_list := remove1 a (ctx_list s)\<rparr>)\<lparr>world := w\<rparr>"
    have "FindAndRemoveBnContext os context s = Some (ptr_of f, s1)"
      using f(1) assms(2) taken
      by (cases f) (simp_all add: FindAndRemoveBnContext_def MutexLockContext_def MutexUnlockContext_def
          pthread_mutex_unlock_def s1_def)
    moreover have "wf_api (hold H (ptr_of f)) s1"
      using wf_unlist [OF assms(1) f(2)] assms(1) by (cases f) (simp_all add: s1_def ptr_of_def)
    moreover have "keeps s s1" "set (ctx_list s1) \<subseteq> set (ctx_list s)"
      by (cases f; simp add: s1_def keeps_def set_remove1_subset)+
    ultimately show ?thesis by (rule that)
  qed
  have l1: "no_ctx_locks s1" using s1(3) assms(2) by (simp add: keeps_def no_ctx_locks_def)
  obtain b s2 where s2: "PutBnContext os c s1 = Some (b, s2)" "wf_api H s2" "frame s1 s2"
    by (rule leave [OF s1(2) l1])
  have k: "keeps s s2" using s1(3) s2(3) by (auto simp: frame_def intro: keeps_trans)
  obtain u where u: "uctx_at s2 context = Some u"
    using k False assms(3) [OF False] by (auto simp: keeps_def uctx_at_def)
  have um: "uctx s2 context = Some u" using u by (auto simp: uctx_at_def split: if_splits)
  have "dom ((uctx s2)(context \<mapsto> u\<lparr>uc_fd := - 1\<rparr>)) = dom (uctx s)" using um k by (auto simp: keeps_def)
  with s2 s1(4) k show ?thesis
    by (simp add: TEEC_FinalizeContext_def False s1(1) u keeps_def frame_def assms(2))
qed

end
