(* ===== verification/Api_Open.thy ===== *)
theory Api_Open
  imports Api_Calls
begin

text \<open>
  Initialising a context and opening a session keep the invariant of \<open>Api_Inv\<close>: a new context is
  added to the global list only while it has fewer than 16 entries, a session that is opened is
  linked into the list of its context, and the image of the trusted application is freed on
  every path.
\<close>

section \<open>Buffers of images\<close>

lemma heap_block_live:
  assumes "wf_api H s" and "listed s a" and "heap_block s a = Some b"
  shows "bufs s b \<noteq> None"
proof -
  from assms(2) obtain c ci where c: "ctxs s c = Some ci" "a \<in> set (ci_shrd_mem_list ci)" by (auto simp: listed_def)
  obtain m where "shm_at s a = Some m" "shm_inv s c (ci_shm_bitmap ci) m" by (rule wf_shm [OF assms(1) c])
  with assms(3) show ?thesis by (auto simp: heap_block_def shm_inv_def split: if_splits)
qed

lemma wf_alloc_buf: "wf_api H s \<Longrightarrow> wf_api H (s\<lparr>bufs := (bufs s)(a \<mapsto> v)\<rparr>)"
  by (erule wf_frame) auto

lemma heap_block_cong: "shms s' = shms s \<Longrightarrow> heap_block s' a = heap_block s a"
  by (simp add: heap_block_def shm_at_def)

section \<open>Opening a session\<close>

text \<open>
  What the driver owes: an \<open>ioctl\<close> does not change the pointer to the image that the library
  will free.
\<close>

definition ioctl_keeps :: "'w os \<Rightarrow> bool" where
  "ioctl_keeps os \<longleftrightarrow>
     (\<forall>fd req cli w. cc_file_buffer (snd (fst (os_ioctl os fd req cli w))) = cc_file_buffer cli)"

lemma ioctl_keepsD:
  "ioctl_keeps os \<Longrightarrow> os_ioctl os fd req cli w = ((r, cli'), w') \<Longrightarrow> cc_file_buffer cli' = cc_file_buffer cli"
  by (metis ioctl_keeps_def fst_conv snd_conv)

lemma open_retry_spec:
  assumes "ioctl_keeps os" and "open_retry os fd n ret cli s = ((r, cli'), s')"
  shows "same_mem s s' \<and> cc_file_buffer cli' = cc_file_buffer cli"
  using assms(2)
proof (induction n arbitrary: ret cli s)
  case 0
  then show ?case by simp
next
  case (Suc n)
  obtain r1 c1 w1 where io: "os_ioctl os fd SES_OPEN_REQ (cli\<lparr>cc_code := 0, cc_origin := TEEC_ORIGIN_API\<rparr>) (world s) = ((r1, c1), w1)"
    by (metis surj_pair)
  have "cc_file_buffer c1 = cc_file_buffer cli" using ioctl_keepsD [OF assms(1) io] by simp
  with Suc.prems Suc.IH show ?case
    by (fastforce simp: do_ioctl_def io split: if_splits)
qed

lemma TranslateRetValue_error: "TranslateRetValue r \<noteq> TEEC_SUCCESS"
  by (simp add: TranslateRetValue_def)

definition opened :: "'w api \<Rightarrow> addr \<Rightarrow> addr \<Rightarrow> bool" where
  "opened s c a \<longleftrightarrow> (\<exists>ci. ctxs s c = Some ci \<and> a \<in> set (ci_session_list ci)) "

lemma DoOpenSession_spec:
  assumes "wf_api (hold H c) s" and "c \<noteq> NULL" and "sess s a = Some e" and "a \<noteq> NULL" and "se_head e = NULL"
    and "no_ctx_locks s" and "ioctl_keeps os"
  shows "ok (TEEC_DoOpenSession os fd cli dest c a s) (\<lambda>((r, cli'), s').
    wf_api (hold H c) s' \<and> frame s s' \<and> bufs s' = bufs s \<and> shms s' = shms s \<and>
    cc_file_buffer cli' = cc_file_buffer cli \<and> (r = TEEC_SUCCESS \<longrightarrow> opened s' c a))"
proof -
  obtain ci where ci: "ctxs s c = Some ci" by (rule wf_held [OF assms(1,2)])
  obtain r cli1 s1 where run: "open_retry os fd (RETRY_TIMEOUT_LEN div RETRY_INTERVAL) 0 cli s = ((r, cli1), s1)"
    by (metis surj_pair)
  from open_retry_spec [OF assms(7) run] obtain w where w: "s1 = s\<lparr>world := w\<rparr>"
    and fb: "cc_file_buffer cli1 = cc_file_buffer cli" by (auto elim: same_memE)
  show ?thesis
  proof (cases "r = 0")
    case False
    then show ?thesis using run assms(1) fb
      by (auto simp: TEEC_DoOpenSession_def w TranslateRetValue_error)
  next
    case True
    have "ok (AddSessionList os (cc_session_id cli1) dest c a s1) (\<lambda>(r, s'). wf_api (hold H c) s' \<and> keeps s1 s' \<and>
      bufs s' = bufs s1 \<and> ctx_list s' = ctx_list s1 \<and> shms s' = shms s1 \<and> (\<forall>b. listed s' b \<longrightarrow> listed s1 b) \<and>
      (r = TEEC_SUCCESS \<or> r = TEEC_ERROR_GENERIC) \<and>
      (r = TEEC_SUCCESS \<longrightarrow> (\<exists>ci' e'. ctxs s' c = Some ci' \<and> a \<in> set (ci_session_list ci') \<and>
         sess s' a = Some e' \<and> se_session_id e' = cc_session_id cli1 \<and> se_service_id e' = dest \<and> se_ops_cnt e' = 2)))"
      by (rule AddSessionList_spec) (use assms ci in \<open>auto simp: w\<close>)
    then show ?thesis
      using run True fb
      by (auto simp: TEEC_DoOpenSession_def ok_iff w frame_def keeps_def listed_def opened_def)
  qed
qed

lemma caller_op_mask:
  assumes "caller_op s operation"
  shows "caller_op s (map_option (\<lambda>(opa, op). (opa, mask_params op)) operation)"
proof (cases operation)
  case None
  then show ?thesis by (simp add: caller_op_def)
next
  case (Some x)
  obtain opa op where x: "operation = Some (opa, op)" using Some by (cases x) auto
  let ?g = "TEEC_PARAM_TYPE_GET (op_paramTypes op)"
  have get: "TEEC_PARAM_TYPE_GET (op_paramTypes (mask_params op)) i = [?g 0, ?g 1, TEEC_NONE, TEEC_NONE] ! i" if "i < 4" for i
    unfolding mask_params_def using TYPES_GET [OF TYPE_GET_less TYPE_GET_less _ _ that] by simp
  have "i = 0 \<or> i = 1 \<or> i = 2 \<or> i = 3" if "i < 4" for i :: nat using that by auto
  then show ?thesis
    using assms x get
    by (auto simp: caller_op_def parents_ok_def shared_parent_ok_def parent_ok_def list_all_iff mask_params_def
        IS_PARTIAL_MEM_def IS_SHARED_MEM_def upt_rec)
qed


text \<open>What a call may leave behind for the label that frees the image: nothing, or one new buffer.\<close>

definition image_left :: "'w api \<Rightarrow> addr \<Rightarrow> 'w api \<Rightarrow> bool" where
  "image_left s fb s' \<longleftrightarrow>
     fb = NULL \<and> bufs s' = bufs s \<or> fb \<noteq> NULL \<and> bufs s fb = None \<and> (\<exists>n. bufs s' = (bufs s)(fb \<mapsto> n))"

lemma free_image:
  assumes "wf_api H s" and "wf_api H s'" and "frame s s'" and "shms s' = shms s" and "image_left s fb s'"
  shows "ok (free_buf fb s') (\<lambda>s''. wf_api H s'' \<and> frame s s'' \<and> bufs s'' = bufs s \<and> ctxs s'' = ctxs s')"
proof (cases "fb = NULL")
  case True
  with assms show ?thesis by (simp add: free_buf_def image_left_def)
next
  case False
  with assms(5) obtain n where n: "bufs s fb = None" "bufs s' = (bufs s)(fb \<mapsto> n)" by (auto simp: image_left_def)
  have "heap_block s' a \<noteq> Some fb" if "listed s' a" for a
    using heap_block_live [OF assms(1), of a fb] that assms(3,4) n(1) heap_block_cong [of s' s a] by (auto simp: frame_def)
  then have wf: "wf_api H (s'\<lparr>bufs := (bufs s')(fb := None)\<rparr>)"
    using wf_drop_buf [OF assms(2)] False by blast
  have undo: "(bufs s')(fb := None) = bufs s" using n by auto
  have fr: "frame s (s'\<lparr>bufs := bufs s\<rparr>)" using assms(3) by (simp add: frame_def keeps_def listed_def)
  have "free_buf fb s' = Some (s'\<lparr>bufs := bufs s\<rparr>)" using False n undo by (simp add: free_buf_def)
  with wf fr show ?thesis by (simp add: undo)
qed

lemma open_session_body_spec:
  assumes "wf_api (hold H c) s" and "c \<noteq> NULL" and "sess s a = Some e" and "a \<noteq> NULL" and "se_head e = NULL"
    and "no_ctx_locks s" and "caller_op s operation" and "ioctl_keeps os" and "malloc_ok os" and "cc_file_buffer cli = NULL"
  shows "ok (open_session_body os pid ta c a dest meth operation cli s) (\<lambda>((r, cli', op'), s').
    wf_api (hold H c) s' \<and> frame s s' \<and> shms s' = shms s \<and> image_left s (cc_file_buffer cli') s' \<and>
    (r = TEEC_SUCCESS \<longrightarrow> opened s' c a))"
proof -
  let ?op = "map_option (\<lambda>(opa, op). (opa, mask_params op)) operation"
  let ?login = "\<lparr>lg_method = meth, lg_mdata = 0\<rparr>"
  have triv: "image_left s NULL (s\<lparr>world := w\<rparr>)" for w by (simp add: image_left_def)
  obtain r1 s1 where s1: "TEEC_CheckOperation os c ?op s = Some (r1, s1)" "same_mem s s1"
      "r1 = TEEC_SUCCESS \<Longrightarrow> \<forall>opa op. ?op = Some (opa, op) \<longrightarrow> encodable s1 op"
    using check_encode [OF assms(1) caller_op_mask [OF assms(7)] assms(6), of os] by (auto simp: ok_iff)
  obtain w1 where w1: "s1 = s\<lparr>world := w1\<rparr>" using s1(2) by (elim same_memE)
  show ?thesis
  proof (cases "r1 = TEEC_SUCCESS")
    case False
    with s1(1) assms(1,10) triv show ?thesis by (simp add: open_session_body_def w1)
  next
    case True
    have "ok (TEEC_Encode os cli a GLOBAL_CMD_ID_OPEN_SESSION ?login ?op s1) (\<lambda>((r, cli', operation'), s').
      same_mem s1 s' \<and> cc_file_buffer cli' = NULL \<and> (r = TEEC_SUCCESS \<or> r = TEEC_ERROR_BAD_PARAMETERS) \<and>
      (cc_origin cli = TEEC_ORIGIN_API \<longrightarrow> cc_origin cli' = TEEC_ORIGIN_API))"
      by (rule Encode_defined) (use s1(3) [OF True] assms(3,4,10) in \<open>auto simp: w1 sess_at_def\<close>)
    then obtain r2 cli2 op2 s2 where s2: "TEEC_Encode os cli a GLOBAL_CMD_ID_OPEN_SESSION ?login ?op s1 = Some ((r2, cli2, op2), s2)"
      "same_mem s1 s2" "cc_file_buffer cli2 = NULL" by (auto simp: ok_iff)
    obtain w2 where w2: "s2 = s\<lparr>world := w2\<rparr>" using s2(2) w1 by (auto elim: same_memE)
    define cli3 where "cli3 = cli2\<lparr>cc_callingPid := pid\<rparr>"
    have fb3: "cc_file_buffer cli3 = NULL" using s2(3) by (simp add: cli3_def)
    obtain r3 cli4 s3 where s3: "TEEC_GetApp os (Some ta) (Some dest) cli3 s2 = Some ((r3, cli4), s3)"
      "app_loaded cli3 s2 cli4 s3 \<or> cli4 = cli3 \<and> same_mem s2 s3"
      using GetApp_spec [OF assms(9), of "Some ta" "Some dest" cli3 s2] by (auto simp: ok_iff)
    obtain bf w3 where w3: "s3 = s\<lparr>bufs := bf, world := w3\<rparr>" and img: "image_left s (cc_file_buffer cli4) s3"
      and wf3: "wf_api (hold H c) s3"
      using s3(2)
    proof
      assume "app_loaded cli3 s2 cli4 s3"
      then obtain fb n w where l: "fb \<noteq> NULL" "bufs s fb = None" "cc_file_buffer cli4 = fb"
          "s3 = s\<lparr>bufs := (bufs s)(fb \<mapsto> n), world := w\<rparr>"
        by (auto simp: app_loaded_def loaded_as_def w2 elim!: same_memE)
      from that [OF l(4)] l wf_alloc_buf [OF assms(1)] show ?thesis by (auto simp: image_left_def)
    next
      assume "cli4 = cli3 \<and> same_mem s2 s3"
      then obtain w where l: "cli4 = cli3" "s3 = s\<lparr>world := w\<rparr>" by (auto simp: w2 elim!: same_memE)
      then have "s3 = s\<lparr>bufs := bufs s, world := w\<rparr>" by simp
      from that [OF this] l fb3 assms(1) show ?thesis by (auto simp: image_left_def)
    qed
    have fr3: "frame s s3" by (simp add: w3 frame_def keeps_def listed_def)
    obtain ci where ci: "ctx_at s3 c = Some ci" by (rule wf_held [OF wf3 assms(2)])
    obtain r4 cli5 s4 where s4: "TEEC_DoOpenSession os (ci_fd ci) cli4 dest c a s3 = Some ((r4, cli5), s4)"
        "wf_api (hold H c) s4" "frame s3 s4" "bufs s4 = bufs s3" "shms s4 = shms s3"
        "cc_file_buffer cli5 = cc_file_buffer cli4" "r4 = TEEC_SUCCESS \<longrightarrow> opened s4 c a"
      using DoOpenSession_spec [OF wf3 assms(2) _ assms(4,5) _ assms(8), of "ci_fd ci" cli4 dest] assms(3,6)
      by (auto simp: ok_iff w3 no_ctx_locks_def)
    have run: "open_session_body os pid ta c a dest meth operation cli s =
        Some (if r2 \<noteq> TEEC_SUCCESS then ((r2, cli2, op2), s2)
              else if r3 < 0 then ((TEEC_ERROR_TRUSTED_APP_LOAD_ERROR, cli4, op2), s3)
              else ((r4, cli5, op2), s4))"
      using s1(1) s2(1) s3(1) ci s4(1) True by (simp add: open_session_body_def cli3_def)
    have "image_left s (cc_file_buffer cli5) s4" using img s4(4,6) by (simp add: image_left_def)
    then show ?thesis
      using assms(1) s2(3) triv wf3 fr3 img s4 frame_trans [OF fr3 s4(3)]
      by (auto simp: run w2) (simp_all add: w3)
  qed
qed

lemma OpenSessionInner_spec:
  assumes "wf_api (hold H c) s" and "sess s a = Some e" and "a \<noteq> NULL" and "se_head e = NULL"
    and "no_ctx_locks s" and "caller_op s operation" and "ioctl_keeps os" and "malloc_ok os"
  shows "ok (TEEC_OpenSessionInner os pid ta c a dest meth cdata operation s) (\<lambda>((r, origin, op'), s').
    wf_api (hold H c) s' \<and> frame s s' \<and> bufs s' = bufs s \<and> (r = TEEC_SUCCESS \<longrightarrow> opened s' c a))"
proof -
  let ?cli = "zero_cli\<lparr>cc_origin := TEEC_ORIGIN_API, cc_file_buffer := NULL\<rparr>"
  let ?body = "\<lambda>ta dest. open_session_body os pid ta c a dest meth operation ?cli s"
  have null: "free_buf NULL s = Some s" by (simp add: free_buf_def)
  show ?thesis
  proof (cases "ta = None \<or> dest = None \<or> c = NULL \<or> meth \<noteq> TEEC_LOGIN_IDENTIFY \<or> cdata \<noteq> NULL")
    case True
    then show ?thesis
      using assms(1,3) null by (cases ta; cases dest) (auto simp: TEEC_OpenSessionInner_def)
  next
    case False
    then obtain t d where td: "ta = Some t" "dest = Some d" "c \<noteq> NULL" "meth = TEEC_LOGIN_IDENTIFY" "cdata = NULL" by auto
    obtain r cli op s1 where s1: "?body t d = Some ((r, cli, op), s1)" "wf_api (hold H c) s1" "frame s s1" "shms s1 = shms s"
        "image_left s (cc_file_buffer cli) s1" "r = TEEC_SUCCESS \<longrightarrow> opened s1 c a"
      using open_session_body_spec [OF assms(1) td(3) assms(2-8), of ?cli pid t d meth] by (auto simp: ok_iff)
    obtain s2 where s2: "free_buf (cc_file_buffer cli) s1 = Some s2" "wf_api (hold H c) s2" "frame s s2" "bufs s2 = bufs s"
        "ctxs s2 = ctxs s1"
      using free_image [OF assms(1) s1(2-5)] by (auto simp: ok_iff)
    have "TEEC_OpenSessionInner os pid ta c a dest meth cdata operation s = Some ((r, cc_origin cli, op), s2)"
      using td s1(1) s2(1) assms(3) by (simp add: TEEC_OpenSessionInner_def)
    with s2 s1(6) show ?thesis by (simp add: opened_def)
  qed
qed

lemma TEEC_OpenSession_ok:
  assumes "wf_api H s" and "held s = {}" and "held_small H" and "ioctl_keeps os" and "malloc_ok os"
    and "context \<noteq> NULL \<Longrightarrow> uctx_at s context \<noteq> None"
    and "a \<noteq> NULL \<Longrightarrow> \<exists>e. sess s a = Some e \<and> se_head e = NULL" and "caller_op s operation"
  shows "ok (TEEC_OpenSession os context a dest meth cdata operation s) (\<lambda>(r, s').
    wf_api H s' \<and> frame s s')"
proof (cases "dest = None \<or> context = NULL \<or> a = NULL")
  case True
  then show ?thesis using assms(1) by (cases dest) (auto simp: TEEC_OpenSession_def)
next
  case False
  then obtain d where d: "dest = Some d" "context \<noteq> NULL" "a \<noteq> NULL" by auto
  obtain e where e: "sess s a = Some e" "se_head e = NULL" using assms(7) [OF d(3)] by auto
  obtain u where u: "uctx_at s context = Some u" using assms(6) [OF d(2)] by auto
  define e1 where "e1 = e\<lparr>se_context := context, se_service_id := d, se_session_id := 0\<rparr>"
  define s1 where "s1 = s\<lparr>sess := (sess s)(a \<mapsto> e1)\<rparr>"
  have wf1: "wf_api H s1" unfolding s1_def by (rule wf_upd_sess [OF assms(1) e(1)]) (simp add: e1_def)
  have f1: "frame s s1" unfolding s1_def by (rule frame_upd_sess [OF e(1)])
  have h1: "held s1 = {}" "uctx_at s1 context \<noteq> None" using assms(2) u by (simp_all add: s1_def)
  obtain c s2 where s2: "GetBnContext os context s1 = Some (c, s2)" "wf_api (hold H c) s2" "ctx_step s1 s2" "no_ctx_locks s2"
    by (rule enter [OF wf1 h1(1) assms(3) h1(2)])
  have f2: "frame s s2" using f1 ctx_step_frame [OF s2(3)] by (rule frame_trans)
  show ?thesis
  proof (cases "c = NULL")
    case True
    then show ?thesis using s2 f2 d u e by (simp add: TEEC_OpenSession_def upd_sess_def sess_at_def s1_def e1_def)
  next
    case c: False
    have e2: "sess s2 a = Some e1" using s2(3) by (simp add: ctx_step_def s1_def)
    have o2: "caller_op s2 operation"
      using assms(8) caller_op_frame [of s2 s operation] f2 by (simp add: frame_def keeps_def)
    let ?ta = "Some \<lparr>taPath = uc_ta_path u, taFp = NULL\<rparr>"
    obtain r s3 where s3: "TEEC_OpenSessionInner os 0 ?ta c a dest meth cdata operation s2 = Some (r, s3)"
        "wf_api (hold H c) s3" "frame s2 s3"
      using OpenSessionInner_spec [OF s2(2) e2 d(3) _ s2(4) o2 assms(4,5), of 0 ?ta dest meth cdata] e(2)
      by (auto simp: ok_iff e1_def)
    have l3: "no_ctx_locks s3" using frame_locks [OF s3(3)] s2(4) by simp
    obtain b s4 where s4: "PutBnContext os c s3 = Some (b, s4)" "wf_api H s4" "frame s3 s4"
      by (rule leave [OF s3(2) l3])
    have "TEEC_OpenSession os context a dest meth cdata operation s = Some (r, s4)"
      using s2(1) s3(1) s4(1) d u e(1) c by (simp add: TEEC_OpenSession_def upd_sess_def sess_at_def s1_def e1_def)
    moreover have "frame s s4" using f2 s3(3) s4(3) by (metis frame_trans)
    ultimately show ?thesis using s4(2) by (cases r) auto
  qed
qed


section \<open>Initialising a context\<close>

lemma wf_new_ctx:
  assumes "wf_api H s" and "ctxs s c = None" and "c \<noteq> NULL" and "ctx_ok H' s c ci" and "ci_shrd_mem_list ci = []"
    and "\<And>d. d \<noteq> c \<Longrightarrow> H' d = H d"
  shows "wf_api H' (s\<lparr>ctxs := (ctxs s)(c \<mapsto> ci)\<rparr>)"
proof -
  have "ctx_ok H' s d di" if "d \<noteq> c" "ctxs s d = Some di" for d di
    using assms(1,6) that by (auto simp: wf_api_def ctx_ok_def)
  moreover have "listed (s\<lparr>ctxs := (ctxs s)(c \<mapsto> ci)\<rparr>) a \<Longrightarrow> listed s a" for a
    using assms(2,5) by (auto simp: listed_def split: if_splits)
  then have "heap_inj (s\<lparr>ctxs := (ctxs s)(c \<mapsto> ci)\<rparr>)"
    using assms(1) unfolding wf_api_def heap_inj_def by auto
  moreover have "H' d > 0 \<Longrightarrow> ((ctxs s)(c \<mapsto> ci)) d \<noteq> None" for d
    using assms(1,6) by (auto simp: wf_api_def)
  ultimately show ?thesis using assms(1,4) by (auto simp: wf_api_def)
qed

lemma heap_inj_mono:
  assumes "heap_inj s" and "\<And>a. listed s' a \<Longrightarrow> listed s a" and "\<And>a. heap_block s' a = heap_block s a"
  shows "heap_inj s'"
  using assms(1,2) unfolding heap_inj_def assms(3) by blast

lemma wf_enlist:
  assumes "wf_api (hold H c) s" and "ctxs s c = Some ci" and "c \<noteq> NULL" and "c \<notin> set (ctx_list s)" and "H c < 2 ^ 31"
  shows "wf_api (hold H c) (s\<lparr>ctxs := (ctxs s)(c \<mapsto> ci\<lparr>ci_ops_cnt := AtomInc (ci_ops_cnt ci)\<rparr>),
                               ctx_list := ctx_list s @ [c]\<rparr>)"
proof -
  let ?s = "s\<lparr>ctxs := (ctxs s)(c \<mapsto> ci\<lparr>ci_ops_cnt := AtomInc (ci_ops_cnt ci)\<rparr>), ctx_list := ctx_list s @ [c]\<rparr>"
  have cnt: "unat (AtomInc (ci_ops_cnt ci)) = Suc (unat (ci_ops_cnt ci))"
    using wf_ops_cnt [OF assms(1,2)] assms(3,4,5) by (intro unat_inc) (simp add: hold_def)
  have fr: "sess_ok ?s = sess_ok s" "shm_ok ?s = shm_ok s" "slots_inj ?s = slots_inj s"
    by (simp_all add: sess_ok_def shm_ok_def slots_inj_def shm_slot_def fun_eq_iff cong: option.case_cong)
  have "ctx_ok (hold H c) ?s d di" if d: "ctxs ?s d = Some di" for d di
  proof (cases "d = c")
    case True
    with d have di: "di = ci\<lparr>ci_ops_cnt := AtomInc (ci_ops_cnt ci)\<rparr>" by simp
    show ?thesis using wf_ctx [OF assms(1,2)] cnt assms(4) True by (simp add: di ctx_ok_def fr)
  next
    case False
    with d have "ctxs s d = Some di" by simp
    from wf_ctx [OF assms(1) this] False show ?thesis by (simp add: ctx_ok_def fr)
  qed
  moreover have l: "listed ?s a \<longleftrightarrow> listed s a" for a
  proof
    show "listed ?s a \<Longrightarrow> listed s a" using assms(2) by (auto simp: listed_def split: if_splits)
    assume "listed s a"
    then obtain d di where "ctxs s d = Some di" "a \<in> set (ci_shrd_mem_list di)" by (auto simp: listed_def)
    with assms(2) show "listed ?s a" unfolding listed_def by (intro exI [of _ d]) auto
  qed
  moreover have "heap_inj ?s"
    by (rule heap_inj_mono [of s]) (use assms(1) l in \<open>simp_all add: wf_api_def heap_block_def\<close>)
  moreover have "hold H c d > 0 \<Longrightarrow> ctxs ?s d \<noteq> None" for d using assms(1) by (auto simp: wf_api_def)
  ultimately show ?thesis using assms(1,4) by (auto simp: wf_api_def)
qed

lemma shm_map_ok_zero: "shm_map_ok (replicate NUM_OF_SHAREMEM_BITMAP 0)"
  by (simp add: shm_map_ok_def)

text \<open>
  Setting up a context that has just been allocated: on success it is the last of the global list
  and the caller holds a reference, else nothing has changed but the structure itself.
\<close>

lemma InitializeContextInner_spec:
  assumes "wf_api H s" and "ctxs s c = None" and "c \<noteq> NULL" and "c \<notin> set (ctx_list s)" and "H c = 0"
    and "MutexWriteContextList \<notin> held s" and "malloc_ok os"
  shows "ok (TEEC_InitializeContextInner os c (s\<lparr>ctxs := (ctxs s)(c \<mapsto> zero_ctx)\<rparr>)) (\<lambda>(r, s').
    (r \<noteq> TEEC_SUCCESS \<longrightarrow> same_mem (s\<lparr>ctxs := (ctxs s)(c := ctxs s' c)\<rparr>) s') \<and>
    (r = TEEC_SUCCESS \<longrightarrow> wf_api (hold H c) s' \<and> ctxs s' c \<noteq> None \<and>
       same_mem (s\<lparr>ctxs := (ctxs s)(c := ctxs s' c), ctx_list := ctx_list s @ [c]\<rparr>) s'))"
proof -
  let ?s = "s\<lparr>ctxs := (ctxs s)(c \<mapsto> zero_ctx)\<rparr>"
  obtain fd s1 where fd: "CaDaemonConnectWithoutCaInfo os ?s = Some (fd, s1)" "same_mem ?s s1"
    using ConnectWithoutCaInfo_spec [OF assms(7), of ?s] by (auto simp: ok_iff)
  obtain w1 where w1: "s1 = ?s\<lparr>world := w1\<rparr>" using fd(2) by (elim same_memE)
  define ci where "ci = zero_ctx\<lparr>ci_fd := fd, ci_ops_cnt := 1\<rparr>"
  have ci: "zero_ctx\<lparr>ci_fd := fd, ci_ops_cnt := 1, ci_session_list := [], ci_shrd_mem_list := []\<rparr> = ci"
      "ci\<lparr>ci_shm_bitmap := replicate NUM_OF_SHAREMEM_BITMAP 0\<rparr> = ci"
    by (simp_all add: ci_def zero_ctx_def)
  have ok: "ctx_ok (hold H c) s c ci"
    using assms(3,4,5) shm_map_ok_zero by (simp add: ctx_ok_def ci_def zero_ctx_def hold_def slots_inj_def)
  have wf: "wf_api (hold H c) (s\<lparr>ctxs := (ctxs s)(c \<mapsto> ci)\<rparr>)"
    by (rule wf_new_ctx [OF assms(1-3) ok]) (simp_all add: ci_def zero_ctx_def hold_def)
  have wf2: "wf_api (hold H c) (s\<lparr>ctxs := (ctxs s)(c \<mapsto> ci\<lparr>ci_ops_cnt := AtomInc (ci_ops_cnt ci)\<rparr>), ctx_list := ctx_list s @ [c]\<rparr>)"
    using wf_enlist [OF wf, of ci] assms(3,4,5) by simp
  obtain r2 w2 where m: "os_memset_s os w1 = (r2, w2)" by fastforce
  have there: "lock_there MutexWriteContextList (s\<lparr>ctxs := (ctxs s)(c \<mapsto> ci), world := w2\<rparr>)"
    "MutexWriteContextList \<notin> held (s\<lparr>ctxs := (ctxs s)(c \<mapsto> ci), world := w2\<rparr>)" using assms(6) by simp_all
  have run: "TEEC_InitializeContextInner os c ?s =
      (if fd < 0 then Some (TEEC_ERROR_GENERIC, s1)
       else if r2 \<noteq> EOK then Some (TEEC_FAIL, s\<lparr>ctxs := (ctxs s)(c \<mapsto> ci), world := os_close os fd w2\<rparr>)
       else do {
         (lockRet, t) \<leftarrow> MutexLockContext os MutexWriteContextList (s\<lparr>ctxs := (ctxs s)(c \<mapsto> ci), world := w2\<rparr>);
         if lockRet \<noteq> 0 then Some (TEEC_FAIL, t\<lparr>world := os_close os fd (world t)\<rparr>)
         else do {
           let t = t\<lparr>ctx_list := ctx_list t @ [c]\<rparr>;
           t \<leftarrow> upd_ctx c (\<lambda>c. c\<lparr>ci_ops_cnt := AtomInc (ci_ops_cnt c)\<rparr>) t;
           t \<leftarrow> MutexUnlockContext lockRet MutexWriteContextList t;
           Some (TEEC_SUCCESS, t)
         }})"
    using assms(3) by (simp add: TEEC_InitializeContextInner_def fd(1) w1 upd_ctx_def ctx_at_def call_def m ci)
  from there show ?thesis
  proof (cases rule: lock_free [of _ _ os])
    case (failed r w)
    then show ?thesis by (auto simp: run w1 MutexLockContext_def)
  next
    case (taken w)
    then show ?thesis using assms(3,6) wf2
      by (auto simp: run w1 MutexLockContext_def MutexUnlockContext_def pthread_mutex_unlock_def upd_ctx_def ctx_at_def)
  qed
qed


lemma count_list: "foldl (\<lambda>n _. n + 1) (k :: u32) xs = k + of_nat (length xs)"
  by (induction xs arbitrary: k) (auto simp: algebra_simps)

lemma ContextCountLimitCheck_spec:
  assumes "length (ctx_list s) < 2 ^ 32"
  shows "ContextCountLimitCheck s = TEEC_SUCCESS \<longleftrightarrow> length (ctx_list s) < 16"
proof -
  have "unat (of_nat (length (ctx_list s)) :: u32) = length (ctx_list s)"
    using assms by (simp add: unsigned_of_nat take_bit_nat_eq_self)
  then show ?thesis by (simp add: ContextCountLimitCheck_def count_list Let_def word_le_nat_alt)
qed

text \<open>A call of \<open>malloc\<close> for a structure.\<close>

lemma malloc_fresh:
  assumes "malloc_ok os"
  obtains (null) w where "call (os_malloc os (live s) n) s = (NULL, s\<lparr>world := w\<rparr>)"
    | (fresh) a w where "call (os_malloc os (live s) n) s = (a, s\<lparr>world := w\<rparr>)" and "a \<noteq> NULL" and "\<not> live s a"
proof -
  obtain a w where c: "os_malloc os (live s) n (world s) = (a, w)" by fastforce
  have "fst (os_malloc os (live s) n (world s)) = NULL \<or> \<not> live s (fst (os_malloc os (live s) n (world s)))"
    using assms by (simp add: malloc_ok_def)
  with c have "a = NULL \<or> \<not> live s a" by simp
  with c null fresh show ?thesis by (auto simp: call_def)
qed

text \<open>The last part of \<open>TEEC_InitializeContext\<close>, after the inner context has been set up.\<close>

lemma initialized:
  assumes "wf_api (hold H c) s3" and "ctxs s3 c \<noteq> None"
    and "same_mem (t\<lparr>ctxs := (ctxs t)(c := ctxs s3 c), ctx_list := ctx_list t @ [c]\<rparr>) s3"
    and "c \<noteq> NULL" and "context \<noteq> NULL" and "uctx_at t context = Some u" and "held t = {MutexReadContextList}"
  shows "ok (do {
           ci \<leftarrow> ctx_at s3 c;
           s \<leftarrow> upd_uctx context (\<lambda>u. u\<lparr>uc_fd := ci_fd ci, uc_ta_path := None,
                  uc_session_list := [], uc_shrd_mem_list := []\<rparr>) s3;
           (_, s) \<leftarrow> PutBnContext os c s;
           s \<leftarrow> MutexUnlockContext 0 MutexReadContextList s;
           Some (TEEC_SUCCESS, s)
         }) (\<lambda>(r, s'). r = TEEC_SUCCESS \<and> wf_api H s' \<and> held s' = {} \<and> dom (sess s') = dom (sess t) \<and>
           ushm s' = ushm t \<and> dom (uctx s') = dom (uctx t) \<and> ctx_list s' = ctx_list t @ [c])"
proof -
  obtain ci where ci: "ctxs s3 c = Some ci" "ctx_at s3 c = Some ci" by (rule wf_held [OF assms(1,4)])
  obtain w where w: "s3 = t\<lparr>ctxs := (ctxs t)(c := ctxs s3 c), ctx_list := ctx_list t @ [c], world := w\<rparr>"
    using assms(3) by (auto elim: same_memE)
  have pr: "uctx s3 = uctx t" "ushm s3 = ushm t" "sess s3 = sess t" "held s3 = held t" "ctx_list s3 = ctx_list t @ [c]"
    by (subst w; simp)+
  have um: "uctx t context = Some u" using assms(5,6) by (simp add: uctx_at_def)
  define u' where "u' = u\<lparr>uc_fd := ci_fd ci, uc_ta_path := None, uc_session_list := [], uc_shrd_mem_list := []\<rparr>"
  define s4 where "s4 = s3\<lparr>uctx := (uctx s3)(context \<mapsto> u')\<rparr>"
  have s4: "wf_api (hold H c) s4" "no_ctx_locks s4" using assms(1,7) by (simp_all add: s4_def pr no_ctx_locks_def)
  obtain b s5 where s5: "PutBnContext os c s4 = Some (b, s5)" "wf_api H s5" "frame s4 s5" by (rule leave [OF s4])
  have upd: "upd_uctx context (\<lambda>u. u\<lparr>uc_fd := ci_fd ci, uc_ta_path := None,
      uc_session_list := [], uc_shrd_mem_list := []\<rparr>) s3 = Some s4"
    using assms(5) um by (simp add: upd_uctx_def uctx_at_def pr(1) s4_def u'_def)
  have "dom ((uctx t)(context \<mapsto> u')) = dom (uctx t)" using um by auto
  with s5 ci upd show ?thesis
    by (simp add: MutexUnlockContext_def pthread_mutex_unlock_def frame_def keeps_def s4_def pr assms(7))
qed

lemma TEEC_InitializeContext_ok:
  assumes "wf_api H s" and "held s = {}" and "malloc_ok os" and "context \<noteq> NULL \<Longrightarrow> uctx_at s context \<noteq> None"
    and "length (ctx_list s) \<le> 16"
  shows "ok (TEEC_InitializeContext os context s) (\<lambda>(r, s'). wf_api H s' \<and> held s' = {} \<and>
    dom (sess s') = dom (sess s) \<and> ushm s' = ushm s \<and> dom (uctx s') = dom (uctx s) \<and> length (ctx_list s') \<le> 16 \<and>
    (if r = TEEC_SUCCESS then \<exists>c. ctx_list s' = ctx_list s @ [c] \<and> c \<notin> set (ctx_list s) \<and> ctxs s c = None
     else ctx_list s' = ctx_list s))"
    (is "ok _ ?Q")
proof (cases "context = NULL")
  case True
  then show ?thesis using assms by (simp add: TEEC_InitializeContext_def)
next
  case nn: False
  obtain u where u: "uctx_at s context = Some u" using assms(4) [OF nn] by auto
  have there: "lock_there MutexReadContextList s" "MutexReadContextList \<notin> held s" using assms(2) by simp_all
  from there show ?thesis
  proof (cases rule: lock_free [of _ _ os])
    case (failed r w)
    then show ?thesis using nn u assms by (simp add: TEEC_InitializeContext_def MutexLockContext_def)
  next
    case (taken w)
    define t where "t = s\<lparr>held := {MutexReadContextList}, world := w\<rparr>"
    have lock: "MutexLockContext os MutexReadContextList s = Some (0, t)"
      using taken assms(2) by (simp add: MutexLockContext_def t_def)
    have t: "wf_api H t" "ctxs t = ctxs s" "ctx_list t = ctx_list s" using assms(1) by (simp_all add: t_def)
    have unlock: "MutexUnlockContext 0 MutexReadContextList (t\<lparr>world := w'\<rparr>) = Some (s\<lparr>world := w'\<rparr>)" for w'
      using assms(2) by (simp add: MutexUnlockContext_def pthread_mutex_unlock_def t_def)
    have triv: "?Q (r, s\<lparr>world := w'\<rparr>)" if "r \<noteq> TEEC_SUCCESS" for r w' using that assms by simp
    show ?thesis
    proof (cases "length (ctx_list s) < 16")
      case False
      then have "ContextCountLimitCheck t \<noteq> TEEC_SUCCESS"
        using ContextCountLimitCheck_spec [of t] assms(5) by (simp add: t(3))
      then show ?thesis
        using triv unlock [of "world t"] nn by (simp add: TEEC_InitializeContext_def lock)
    next
      case room: True
      then have lim: "ContextCountLimitCheck t = TEEC_SUCCESS"
        using ContextCountLimitCheck_spec [of t] by (simp add: t(3))
      show ?thesis using assms(3)
      proof (cases rule: malloc_fresh [of _ t 272])
        case (null w1)
        then show ?thesis using assms(1,2,5) unlock nn lim by (simp add: TEEC_InitializeContext_def lock)
      next
        case (fresh c w1)
        obtain r2 w2 where m: "os_memset_s os w1 = (r2, w2)" by fastforce
        show ?thesis
        proof (cases "r2 = EOK")
          case False
          then show ?thesis using assms(1,2,5) unlock nn lim fresh m by (simp add: TEEC_InitializeContext_def lock call_def)
        next
          case True
          define t2 where "t2 = t\<lparr>world := w2\<rparr>"
          have wf2: "wf_api H t2" using t(1) by (simp add: t2_def)
          have c: "ctxs t2 c = None" "c \<notin> set (ctx_list t2)" "H c = 0" "MutexWriteContextList \<notin> held t2" "wf_api H t2"
            using fresh(3) assms(1) wf2 unfolding wf_api_def live_def by (auto simp: t2_def t_def)
          obtain r s3 where s3: "TEEC_InitializeContextInner os c (t2\<lparr>ctxs := (ctxs t2)(c \<mapsto> zero_ctx)\<rparr>) = Some (r, s3)"
              "r \<noteq> TEEC_SUCCESS \<longrightarrow> same_mem (t2\<lparr>ctxs := (ctxs t2)(c := ctxs s3 c)\<rparr>) s3"
              "r = TEEC_SUCCESS \<longrightarrow> wf_api (hold H c) s3 \<and> ctxs s3 c \<noteq> None \<and>
                 same_mem (t2\<lparr>ctxs := (ctxs t2)(c := ctxs s3 c), ctx_list := ctx_list t2 @ [c]\<rparr>) s3"
            using InitializeContextInner_spec [OF c(5,1) fresh(2) c(2-4) assms(3)] by (auto simp: ok_iff)
          have run: "TEEC_InitializeContext os context s =
              (if r = TEEC_SUCCESS then do {
                 ci \<leftarrow> ctx_at s3 c;
                 s \<leftarrow> upd_uctx context (\<lambda>u. u\<lparr>uc_fd := ci_fd ci, uc_ta_path := None,
                        uc_session_list := [], uc_shrd_mem_list := []\<rparr>) s3;
                 (_, s) \<leftarrow> PutBnContext os c s;
                 s \<leftarrow> MutexUnlockContext 0 MutexReadContextList s;
                 Some (TEEC_SUCCESS, s)
               } else do {
                 s \<leftarrow> MutexUnlockContext 0 MutexReadContextList (s3\<lparr>ctxs := (ctxs s3)(c := None)\<rparr>);
                 Some (r, s)
               })"
            using nn lim fresh(1,2) m True s3(1)
            by (simp add: TEEC_InitializeContext_def lock call_def t2_def)
          show ?thesis
          proof (cases "r = TEEC_SUCCESS")
            case False
            with s3(2) obtain w3 where w3: "s3 = t2\<lparr>ctxs := (ctxs t2)(c := ctxs s3 c), world := w3\<rparr>"
              by (auto elim: same_memE)
            have "(ctxs s3)(c := None) = ctxs t"
              using c(1) by (subst w3) (auto simp: t2_def)
            moreover have "s3\<lparr>ctxs := ctxs t\<rparr> = t\<lparr>world := w3\<rparr>" by (subst w3) (simp add: t2_def)
            ultimately have "s3\<lparr>ctxs := (ctxs s3)(c := None)\<rparr> = t\<lparr>world := w3\<rparr>" by simp
            with False triv unlock show ?thesis by (simp add: run)
          next
            case True
            with s3(3) have s3': "wf_api (hold H c) s3" "ctxs s3 c \<noteq> None"
                "same_mem (t2\<lparr>ctxs := (ctxs t2)(c := ctxs s3 c), ctx_list := ctx_list t2 @ [c]\<rparr>) s3" by auto
            have "uctx_at t2 context = Some u" "held t2 = {MutexReadContextList}" using u by (simp_all add: t2_def t_def)
            note fin = initialized [OF s3' fresh(2) nn this, of os]
            have c': "ctxs s c = None" "c \<notin> set (ctx_list s)" using c(1,2) by (simp_all add: t2_def t_def)
            show ?thesis unfolding run if_P [OF True]
              by (rule ok_mono [OF fin]) (use room c' in \<open>auto simp: t2_def t_def\<close>)
          qed
        qed
      qed
    qed
  qed
qed

end
