(* ===== verification/Api_Alloc.thy ===== *)
theory Api_Alloc
  imports Api_Open
begin

text \<open>
  Registering, allocating and releasing shared memory keep the invariant of \<open>Api_Inv\<close>: a new
  block gets a slot that no block of its context has and a buffer that no block has, and every
  failure gives the slot back.
\<close>

section \<open>Linking a block\<close>

text \<open>Between linking a block and dropping the creator's reference its counter is two.\<close>

definition linked :: "(addr \<Rightarrow> nat) \<Rightarrow> 'w api \<Rightarrow> addr \<Rightarrow> bool" where
  "linked H s a \<longleftrightarrow> (\<exists>m. shms s a = Some m \<and> a \<noteq> NULL \<and> si_ops_cnt m = 2 \<and>
     wf_api H (s\<lparr>shms := (shms s)(a \<mapsto> m\<lparr>si_ops_cnt := 1\<rparr>)\<rparr>))"

lemma PutBnShrMem_linked:
  assumes "linked H s a"
  shows "ok (PutBnShrMem os a s) (\<lambda>s'. wf_api H s' \<and> keeps s s' \<and> ctx_list s' = ctx_list s)"
  using assms by (auto simp: linked_def PutBnShrMem_def shm_at_def upd_shm_def AtomDecAndCompareWithZero_def keeps_def)

text \<open>
  A block that may be linked into the list of \<open>c\<close>: its slot is set in the bit map and no block of
  the list has it, and no block has its heap buffer.
\<close>

definition linkable :: "'w api \<Rightarrow> addr \<Rightarrow> TEEC_SharedMemoryInner \<Rightarrow> bool" where
  "linkable s c m \<longleftrightarrow>
     (\<exists>ci. ctxs s c = Some ci \<and> shm_inv s c (ci_shm_bitmap ci) m \<and>
        (si_is_allocated m \<longrightarrow>
           (\<forall>b \<in> set (ci_shrd_mem_list ci). shm_slot s b \<noteq> Some (si_offset m)) \<and>
           (si_flags m = TEEC_MEM_SHARED_INOUT \<longrightarrow> si_buffer m \<noteq> NULL \<longrightarrow>
              (\<forall>b. listed s b \<longrightarrow> heap_block s b \<noteq> Some (si_buffer m)))))"

lemma slots_inj_snoc:
  assumes "slots_inj s as" and "\<And>b. b \<in> set as \<Longrightarrow> shm_slot s a \<noteq> None \<Longrightarrow> shm_slot s b \<noteq> shm_slot s a"
  shows "slots_inj s (as @ [a])"
  using assms unfolding slots_inj_def by (auto; metis)

lemma wf_link:
  assumes "wf_api H s" and "ctxs s c = Some ci" and "a \<noteq> NULL" and "\<not> listed s a" and "linkable s c m"
  shows "wf_api H (s\<lparr>ctxs := (ctxs s)(c \<mapsto> ci\<lparr>ci_shrd_mem_list := ci_shrd_mem_list ci @ [a]\<rparr>),
                     shms := (shms s)(a \<mapsto> m)\<rparr>)"
proof -
  define s1 where "s1 = s\<lparr>shms := (shms s)(a \<mapsto> m)\<rparr>"
  define ci' where "ci' = ci\<lparr>ci_shrd_mem_list := ci_shrd_mem_list ci @ [a]\<rparr>"
  define s2 where "s2 = s1\<lparr>ctxs := (ctxs s1)(c \<mapsto> ci')\<rparr>"
  have wf1: "wf_api H s1" unfolding s1_def by (rule wf_unlisted_shm [OF assms(1,4)])
  have c1: "ctxs s1 c = Some ci" using assms(2) by (simp add: s1_def)
  have na: "b \<in> set (ci_shrd_mem_list ci) \<Longrightarrow> b \<noteq> a" for b using assms(2,4) by (auto simp: listed_def)
  have fr: "shm_slot s1 b = shm_slot s b" "heap_block s1 b = heap_block s b" if "b \<noteq> a" for b
    unfolding s1_def using ok_frame_shms [of a "(shms s)(a \<mapsto> m)" s b] that by simp_all
  have at: "shm_at s1 a = Some m" using assms(3) by (simp add: s1_def shm_at_def)
  have l: "shm_inv s c (ci_shm_bitmap ci) m"
      "si_is_allocated m \<Longrightarrow> \<forall>b \<in> set (ci_shrd_mem_list ci). shm_slot s b \<noteq> Some (si_offset m)"
      "si_is_allocated m \<Longrightarrow> si_flags m = TEEC_MEM_SHARED_INOUT \<Longrightarrow> si_buffer m \<noteq> NULL \<Longrightarrow>
         \<forall>b. listed s b \<longrightarrow> heap_block s b \<noteq> Some (si_buffer m)"
    using assms(2,5) by (auto simp: linkable_def)
  have inv: "shm_ok s1 c (ci_shm_bitmap ci) a"
    using l(1) at by (simp add: shm_ok_inv shm_inv_def s1_def)
  have "shm_slot s1 b \<noteq> shm_slot s1 a" if b: "b \<in> set (ci_shrd_mem_list ci)" and "shm_slot s1 a \<noteq> None" for b
    using l(2) fr(1) [OF na [OF b]] b that(2) at by (auto simp: shm_slot_def [of s1 a] split: if_splits)
  with wf_ctx [OF wf1 c1] have "slots_inj s1 (ci_shrd_mem_list ci @ [a])"
    by (intro slots_inj_snoc) (auto simp: ctx_ok_def)
  with wf_ctx [OF wf1 c1] inv na have "ctx_ok H s1 c ci'" by (auto simp: ctx_ok_def ci'_def)
  then have ok: "ctx_ok H s2 d di" if "ctxs s2 d = Some di" for d di
    using that wf_ctx [OF wf1, of d di] by (auto simp: s2_def split: if_splits)
  have ls: "listed s2 b \<Longrightarrow> listed s b \<or> b = a" for b
    using c1 assms(2) by (auto simp: listed_def s2_def s1_def ci'_def split: if_splits)
  have hb: "heap_block s2 b = heap_block s1 b" for b by (simp add: s2_def)
  have ha: "heap_block s b \<noteq> heap_block s1 a" if "listed s b" "heap_block s1 a \<noteq> None" for b
    using l(3) that at by (auto simp: heap_block_def [of s1 a] split: if_splits)
  have inj: "heap_inj s" using assms(1) by (simp add: wf_api_def)
  have "heap_inj s2"
    unfolding heap_inj_def hb
  proof (intro allI impI)
    fix x y assume xy: "listed s2 x" "listed s2 y" "heap_block s1 x \<noteq> None" "heap_block s1 x = heap_block s1 y"
    show "x = y"
    proof (cases "x = a \<or> y = a")
      case True
      with xy ls ha fr(2) show ?thesis by metis
    next
      case False
      with xy ls fr(2) inj show ?thesis unfolding heap_inj_def by metis
    qed
  qed
  moreover have "H d > 0 \<Longrightarrow> ctxs s2 d \<noteq> None" for d using wf1 by (auto simp: wf_api_def s2_def)
  ultimately have "wf_api H s2" using wf1 ok by (auto simp: wf_api_def s2_def)
  then show ?thesis by (simp add: s2_def s1_def ci'_def)
qed

lemma link_shm_spec:
  assumes "wf_api H s" and "c \<noteq> NULL" and "ctxs s c \<noteq> None" and "a \<noteq> NULL" and "shms s a = Some m" and "\<not> listed s a" and "linkable s c m"
    and "ShrMemLock c \<notin> held s"
  shows "ok (link_shm a c (s\<lparr>held := insert (ShrMemLock c) (held s), world := w\<rparr>)) (\<lambda>s'.
    linked H s' a \<and> keeps s s' \<and> ctx_list s' = ctx_list s)"
proof -
  obtain ci where ci: "ctxs s c = Some ci" using assms(3) by auto
  have one: "si_ops_cnt m = 1" using assms(7) by (auto simp: linkable_def shm_inv_def)
  have "m\<lparr>si_ops_cnt := 1\<rparr> = m" by (simp flip: one)
  with wf_link [OF assms(1) ci assms(4,6,7)] have
    "wf_api H (s\<lparr>ctxs := (ctxs s)(c \<mapsto> ci\<lparr>ci_shrd_mem_list := ci_shrd_mem_list ci @ [a]\<rparr>),
       shms := (shms s)(a \<mapsto> m\<lparr>si_ops_cnt := 1\<rparr>)\<rparr>)" by simp
  then show ?thesis
    using assms(2,4,5,8) ci one
    by (auto simp: link_shm_def upd_ctx_def upd_shm_def ctx_at_def shm_at_def linked_def keeps_def AtomInc_def)
qed

section \<open>Registering shared memory\<close>

lemma MallocShrMemInner_cases:
  assumes "malloc_ok os"
  obtains (fail) w where "MallocShrMemInner os s = ((TEEC_FAIL, NULL), s\<lparr>world := w\<rparr>)"
    | (alloc) a w where "MallocShrMemInner os s = ((TEEC_SUCCESS, a), s\<lparr>shms := (shms s)(a \<mapsto> zero_shm), world := w\<rparr>)"
        and "a \<noteq> NULL" and "\<not> live s a"
  using assms
proof (cases rule: malloc_fresh [of _ s 72])
  case (null w)
  then show ?thesis by (intro fail [of w]) (simp add: MallocShrMemInner_def)
next
  case (fresh a w)
  obtain r w' where m: "os_memset_s os w = (r, w')" by fastforce
  show ?thesis
  proof (cases "r = EOK")
    case True
    with fresh m show ?thesis by (intro alloc [of a w']) (auto simp: MallocShrMemInner_def call_def)
  next
    case False
    with fresh m show ?thesis by (intro fail [of w']) (auto simp: MallocShrMemInner_def call_def)
  qed
qed

lemma not_live_unlisted:
  assumes "wf_api H s" and "\<not> live s a"
  shows "\<not> listed s a"
proof
  assume "listed s a"
  then obtain c ci where c: "ctxs s c = Some ci" "a \<in> set (ci_shrd_mem_list ci)" by (auto simp: listed_def)
  obtain m where "shms s a = Some m" by (rule wf_shm [OF assms(1) c])
  with assms(2) show False by (simp add: live_def)
qed

lemma listed_frame [simp]:
  "listed (s\<lparr>shms := x1\<rparr>) = listed s" "listed (s\<lparr>world := w\<rparr>) = listed s" "listed (s\<lparr>held := L\<rparr>) = listed s"
  "listed (s\<lparr>bufs := x2\<rparr>) = listed s" "listed (s\<lparr>maps := x3\<rparr>) = listed s"
  by (simp_all add: listed_def fun_eq_iff)

text \<open>The outcome of the inner functions that create a block \<open>a\<close>.\<close>

definition created :: "(addr \<Rightarrow> nat) \<Rightarrow> 'w api \<Rightarrow> addr \<Rightarrow> TEEC_Result \<Rightarrow> 'w api \<Rightarrow> bool" where
  "created H s a r s' \<longleftrightarrow> keeps s s' \<and> ctx_list s' = ctx_list s \<and>
     (if r = TEEC_SUCCESS then linked H s' a else wf_api H s' \<and> \<not> listed s' a)"

lemma RegisterSharedMemoryInner_spec:
  assumes "wf_api (hold H c) s" and "shms s a = Some m" and "a \<noteq> NULL" and "\<not> listed s a" and "no_ctx_locks s"
  shows "ok (TEEC_RegisterSharedMemoryInner os c a s) (\<lambda>(r, s'). created (hold H c) s a r s')"
proof (cases "c = NULL \<or> si_buffer m = NULL \<or>
    (si_flags m \<noteq> TEEC_MEM_INPUT \<and> si_flags m \<noteq> TEEC_MEM_OUTPUT \<and> si_flags m \<noteq> TEEC_MEM_INOUT)")
  case True
  then show ?thesis using assms by (auto simp: TEEC_RegisterSharedMemoryInner_def shm_at_def created_def)
next
  case False
  then have c: "c \<noteq> NULL" by simp
  obtain ci where ci: "ctxs s c = Some ci" "ctx_at s c = Some ci" by (rule wf_held [OF assms(1) c])
  define m1 where "m1 = m\<lparr>si_ops_cnt := 1, si_is_allocated := False, si_offset := - 1, si_context := c\<rparr>"
  define s1 where "s1 = s\<lparr>shms := (shms s)(a \<mapsto> m1)\<rparr>"
  have wf1: "wf_api (hold H c) s1" unfolding s1_def by (rule wf_unlisted_shm [OF assms(1,4)])
  have l1: "linkable s1 c m1" using ci by (simp add: linkable_def s1_def m1_def shm_inv_def)
  have a1: "ctxs s1 c \<noteq> None" "shms s1 a = Some m1" "\<not> listed s1 a" "ShrMemLock c \<notin> held s1" "lock_there (ShrMemLock c) s1"
    using assms(4,5) ci by (simp_all add: s1_def)
  have k1: "keeps s s1" "ctx_list s1 = ctx_list s" by (simp_all add: s1_def keeps_def)
  have run: "TEEC_RegisterSharedMemoryInner os c a s = do {
      (lockRet, s) \<leftarrow> pthread_mutex_lock os (ShrMemLock c) s1;
      if lockRet \<noteq> 0 then Some (TEEC_ERROR_GENERIC, s)
      else do { s \<leftarrow> link_shm a c s; Some (TEEC_SUCCESS, s) } }"
    using False assms(2,3) by (auto simp: TEEC_RegisterSharedMemoryInner_def shm_at_def upd_shm_def s1_def m1_def)
  from a1(5,4) show ?thesis
  proof (cases rule: lock_free [of _ _ os])
    case (failed r w)
    then show ?thesis using wf1 a1 k1 by (simp add: run created_def keeps_def)
  next
    case (taken w)
    then show ?thesis
      using link_shm_spec [OF wf1 c a1(1) assms(3) a1(2,3) l1 a1(4), of w] k1
      by (auto simp: run created_def ok_iff intro: keeps_trans)
  qed
qed

text \<open>The end of the two calls that create a block.\<close>

lemma created_leave:
  assumes "created (hold H c) s a r s1" and "no_ctx_locks s"
  shows "r = TEEC_SUCCESS \<Longrightarrow> shms s1 a \<noteq> None"
    and "r = TEEC_SUCCESS \<Longrightarrow> ok (PutBnShrMem os a (s1\<lparr>ushm := v\<rparr>)) (\<lambda>s2. ok (PutBnContext os c s2) (\<lambda>(b, s').
      wf_api H s' \<and> keeps (s\<lparr>ushm := v\<rparr>) s' \<and> ctx_list s' = ctx_list s))"
    and "r \<noteq> TEEC_SUCCESS \<Longrightarrow> ok (PutBnContext os c s1) (\<lambda>(b, s').
      wf_api H (free_shm a s') \<and> keeps s s' \<and> ctx_list s' = ctx_list s)"
proof -
  assume r: "r = TEEC_SUCCESS"
  with assms(1) have l: "linked (hold H c) s1 a" "keeps s s1" "ctx_list s1 = ctx_list s" by (simp_all add: created_def)
  show "shms s1 a \<noteq> None" using l(1) by (auto simp: linked_def)
  have "linked (hold H c) (s1\<lparr>ushm := v\<rparr>) a" using l(1) by (auto simp: linked_def)
  then obtain s2 where s2: "PutBnShrMem os a (s1\<lparr>ushm := v\<rparr>) = Some s2" "wf_api (hold H c) s2"
      "keeps (s1\<lparr>ushm := v\<rparr>) s2" "ctx_list s2 = ctx_list s"
    using PutBnShrMem_linked [of "hold H c" "s1\<lparr>ushm := v\<rparr>" a os] l(3) by (auto simp: ok_iff)
  have n2: "no_ctx_locks s2" using assms(2) l(2) s2(3) by (simp add: no_ctx_locks_def keeps_def)
  obtain b s3 where "PutBnContext os c s2 = Some (b, s3)" "wf_api H s3" "frame s2 s3" by (rule leave [OF s2(2) n2])
  with s2 l(2) show "ok (PutBnShrMem os a (s1\<lparr>ushm := v\<rparr>)) (\<lambda>s2. ok (PutBnContext os c s2) (\<lambda>(b, s').
      wf_api H s' \<and> keeps (s\<lparr>ushm := v\<rparr>) s' \<and> ctx_list s' = ctx_list s))"
    by (simp add: frame_def keeps_def)
next
  assume "r \<noteq> TEEC_SUCCESS"
  with assms(1) have l: "wf_api (hold H c) s1" "\<not> listed s1 a" "keeps s s1" "ctx_list s1 = ctx_list s"
    by (simp_all add: created_def)
  have n1: "no_ctx_locks s1" using assms(2) l(3) by (simp add: no_ctx_locks_def keeps_def)
  obtain b s2 where s2: "PutBnContext os c s1 = Some (b, s2)" "wf_api H s2" "frame s1 s2" by (rule leave [OF l(1) n1])
  have "\<not> listed s2 a" using s2(3) l(2) by (auto simp: frame_def)
  from wf_unlisted_shm [OF s2(2) this, of None] s2 l(3,4)
  show "ok (PutBnContext os c s1) (\<lambda>(b, s'). wf_api H (free_shm a s') \<and> keeps s s' \<and> ctx_list s' = ctx_list s)"
    by (simp add: free_shm_def frame_def keeps_def)
qed


definition call_done :: "(addr \<Rightarrow> nat) \<Rightarrow> 'w api \<Rightarrow> 'w api \<Rightarrow> bool" where
  "call_done H s s' \<longleftrightarrow> wf_api H s' \<and> held s' = held s \<and> ctx_list s' = ctx_list s \<and> uctx s' = uctx s \<and>
     dom (sess s') = dom (sess s) \<and> dom (ushm s') = dom (ushm s)"

section \<open>Allocating shared memory\<close>

lemma GetAndSetBit_slots:
  assumes "shm_map_ok xs"
  obtains (full) "GetAndSetBit (Some xs) bitmap_size = Some (- 1, Some xs)"
    | (slot) n ys where "GetAndSetBit (Some xs) bitmap_size = Some (int n, Some ys)" and "n < 64" and "n \<notin> slots xs"
        and "shm_map_ok ys" and "slots ys = insert n (slots xs)"
proof -
  have len: "length xs = 8" using assms by (simp add: shm_map_ok_def NUM_OF_SHAREMEM_BITMAP_def)
  show ?thesis
    using IterateBitmap_search [OF shm_map_ok_map_ok [OF assms], of SET] assms
    by (auto simp: GetAndSetBit_def len wanted_def shm_map_ok_def NUM_OF_SHAREMEM_BITMAP_def intro: full slot)
qed

definition slot_taken :: "'w api \<Rightarrow> addr \<Rightarrow> u32 \<Rightarrow> bool" where
  "slot_taken s c i \<longleftrightarrow> (\<exists>ci. ctxs s c = Some ci \<and> unat i \<in> slots (ci_shm_bitmap ci) \<and>
     (\<forall>b \<in> set (ci_shrd_mem_list ci). shm_slot s b \<noteq> Some i))"

lemma GetAndSetBitWithLock_spec:
  assumes "wf_api H s" and "ctxs s c = Some ci" and "ShrMemBitMapLock c \<notin> held s"
  shows "ok (GetAndSetBitWithLock os c s) (\<lambda>(v, s'). wf_api H s' \<and> ctxs_nb s' = ctxs_nb s \<and>
    same_mem (s\<lparr>ctxs := ctxs s'\<rparr>) s' \<and> (0 \<le> v \<longrightarrow> slot_taken s' c (uint32_of v)))"
proof -
  have at: "ctx_at s c = Some ci" using assms(2) by (simp add: wf_ctx_at [OF assms(1)])
  have nn: "c \<noteq> NULL" using wf_ctx [OF assms(1,2)] by (simp add: ctx_ok_def)
  have bm: "shm_map_ok (ci_shm_bitmap ci)" using wf_ctx [OF assms(1,2)] by (simp add: ctx_ok_def)
  have there: "lock_there (ShrMemBitMapLock c) s" using at by simp
  from there assms(3) show ?thesis
  proof (cases rule: lock_free [of _ _ os])
    case (failed r w)
    with assms(1) show ?thesis by (simp add: GetAndSetBitWithLock_def)
  next
    case (taken w)
    from bm show ?thesis
    proof (cases rule: GetAndSetBit_slots)
      case full
      have "(ctxs s)(c \<mapsto> ci) = ctxs s" using assms(2) by auto
      with full taken at assms(1,3) nn show ?thesis
        by (simp add: GetAndSetBitWithLock_def pthread_mutex_unlock_def upd_ctx_def ctx_at_def)
    next
      case (slot n ys)
      define ci' where "ci' = ci\<lparr>ci_shm_bitmap := ys\<rparr>"
      define s1 where "s1 = s\<lparr>ctxs := (ctxs s)(c \<mapsto> ci')\<rparr>"
      have mono: "shm_ok s c ys a" if "shm_ok s c (ci_shm_bitmap ci) a" for a
        using that slot(5) by (auto simp: shm_ok_inv shm_inv_def)
      have wf: "wf_api H s1"
        unfolding s1_def ci'_def
        by (rule wf_upd_ctx [OF assms(1,2)]) (use wf_ctx [OF assms(1,2)] slot(4) mono in \<open>auto simp: ctx_ok_def\<close>)
      have nb: "ctxs_nb s1 = ctxs_nb s" using assms(2) by (auto simp: ctxs_nb_def fun_eq_iff s1_def ci'_def)
      have un: "unat (uint32_of (int n)) = n" using slot(2) by simp
      have "shm_slot s b \<noteq> Some (uint32_of (int n))" if b: "b \<in> set (ci_shrd_mem_list ci)" for b
      proof -
        obtain m where "shm_at s b = Some m" "shm_inv s c (ci_shm_bitmap ci) m" by (rule wf_shm [OF assms(1,2) b])
        with slot(3) un show ?thesis by (auto simp: shm_slot_def shm_inv_def split: if_splits)
      qed
      then have "slot_taken (s1\<lparr>world := w\<rparr>) c (uint32_of (int n))"
        using slot(5) un by (simp add: slot_taken_def s1_def ci'_def) (simp add: shm_slot_def)
      moreover have "GetAndSetBitWithLock os c s = Some (int n, s1\<lparr>world := w\<rparr>)"
        using slot(1) taken at assms(3) nn
        by (simp add: GetAndSetBitWithLock_def pthread_mutex_unlock_def upd_ctx_def ctx_at_def s1_def ci'_def)
      ultimately show ?thesis using wf nb by (simp add: s1_def)
    qed
  qed
qed


text \<open>Steps on the way to a new block \<open>a\<close>: the lists of blocks do not change.\<close>

definition alloc_step :: "'w api \<Rightarrow> 'w api \<Rightarrow> bool" where
  "alloc_step s s' \<longleftrightarrow> keeps s s' \<and> ctx_list s' = ctx_list s \<and> listed s' = listed s"

lemma alloc_step_trans: "alloc_step s s' \<Longrightarrow> alloc_step s' s'' \<Longrightarrow> alloc_step s s''"
  by (auto simp: alloc_step_def intro: keeps_trans)

lemma alloc_step_ctxs:
  fixes s s' :: "'w api"
  assumes "same_mem (s\<lparr>ctxs := ctxs s'\<rparr>) s'" and "ctxs_nb s' = ctxs_nb s"
  shows "alloc_step s s'" and "shms s' = shms s" and "bufs s' = bufs s"
proof -
  obtain w where w: "s' = s\<lparr>ctxs := ctxs s', world := w\<rparr>" using assms(1) by (auto elim: same_memE)
  show "shms s' = shms s" "bufs s' = bufs s" by (subst w; simp)+
  have "uctx s' = uctx s" "ushm s' = ushm s" "sess s' = sess s" "held s' = held s" "ctx_list s' = ctx_list s"
    by (subst w; simp)+
  moreover have "listed s' = listed s" using listed_nb [OF assms(2)] by (rule ext)
  ultimately show "alloc_step s s'" by (simp add: alloc_step_def keeps_def)
qed

lemma slot_taken_frame [simp]:
  "slot_taken (s\<lparr>bufs := x1\<rparr>) = slot_taken s" "slot_taken (s\<lparr>maps := x2\<rparr>) = slot_taken s"
  "slot_taken (s\<lparr>world := w\<rparr>) = slot_taken s" "slot_taken (s\<lparr>held := L\<rparr>) = slot_taken s"
  by (simp_all add: slot_taken_def shm_slot_def fun_eq_iff)

lemma slot_taken_shms:
  assumes "\<not> listed s a"
  shows "slot_taken (s\<lparr>shms := (shms s)(a := x)\<rparr>) c i = slot_taken s c i"
proof -
  have "shm_slot (s\<lparr>shms := (shms s)(a := x)\<rparr>) b = shm_slot s b" if "listed s b" for b
    using ok_frame_shms(3) [of a "(shms s)(a := x)" s b] assms that by (cases "b = a") auto
  moreover have "listed s b" if "ctxs s c = Some ci" "b \<in> set (ci_shrd_mem_list ci)" for b ci
    using that by (auto simp: listed_def)
  ultimately show ?thesis by (cases "ctxs s c") (simp_all add: slot_taken_def)
qed

lemma clear_slot:
  assumes "wf_api H s" and "slot_taken s c i" and "\<And>d. ShrMemBitMapLock d \<notin> held s"
  shows "ok (ClearBitWithLock os c i s) (\<lambda>s'. wf_api H s' \<and> alloc_step s s' \<and> shms s' = shms s)"
proof -
  obtain ci where ci: "ctxs s c = Some ci" and free: "\<forall>b \<in> set (ci_shrd_mem_list ci). shm_slot s b \<noteq> Some i"
    using assms(2) by (auto simp: slot_taken_def)
  have "ok (ClearBitWithLock os c i s) (\<lambda>s'. wf_api H s' \<and> ctxs_nb s' = ctxs_nb s \<and> same_mem (s\<lparr>ctxs := ctxs s'\<rparr>) s')"
  proof (rule ClearBitWithLock_spec [OF assms(1) ci assms(3)])
    fix b m assume b: "b \<in> set (ci_shrd_mem_list ci)" "shms s b = Some m" "si_is_allocated m"
    have "b \<noteq> NULL" by (rule wf_shm [OF assms(1) ci b(1)])
    with free b show "si_offset m \<noteq> i" by (auto simp: shm_slot_def shm_at_def)
  qed
  then show ?thesis by (rule ok_mono) (auto intro: alloc_step_ctxs)
qed

lemma shm_backing_spec:
  assumes "wf_api H s" and "shms s a = Some m" and "a \<noteq> NULL" and "\<not> listed s a" and "ctx_at s c \<noteq> None"
    and "malloc_ok os" and "slot_taken s c i" and "si_buffer m = NULL"
  shows "ok (shm_backing os c a s) (\<lambda>(r, s'). wf_api H s' \<and> alloc_step s s' \<and> ctxs s' = ctxs s \<and> slot_taken s' c i \<and>
    (\<exists>b. shms s' = (shms s)(a \<mapsto> m\<lparr>si_buffer := b\<rparr>) \<and>
       (si_flags m = TEEC_MEM_SHARED_INOUT \<longrightarrow> b \<noteq> NULL \<longrightarrow>
          bufs s' b \<noteq> None \<and> (\<forall>x. listed s' x \<longrightarrow> heap_block s' x \<noteq> Some b))))"
    (is "ok _ ?Q")
proof -
  have at: "shm_at s a = Some m" using assms(2,3) by (simp add: shm_at_def)
  have wfm: "wf_api H (s\<lparr>shms := (shms s)(a \<mapsto> m')\<rparr>)" for m' by (rule wf_unlisted_shm [OF assms(1,4)])
  have sl: "slot_taken (s\<lparr>shms := (shms s)(a \<mapsto> m')\<rparr>) c i" for m' using slot_taken_shms [OF assms(4)] assms(7) by simp
  have st: "alloc_step s (s\<lparr>shms := (shms s)(a \<mapsto> m'), bufs := bf, maps := mp, world := w\<rparr>)" for m' bf mp w
    by (simp add: alloc_step_def keeps_def)
  have st': "alloc_step s (s\<lparr>shms := (shms s)(a \<mapsto> m'), maps := mp, world := w\<rparr>)" for m' mp w
    by (simp add: alloc_step_def keeps_def)
  have st2: "alloc_step s (s\<lparr>shms := (shms s)(a \<mapsto> m'), bufs := bf, world := w\<rparr>)"
    "alloc_step s (s\<lparr>shms := (shms s)(a \<mapsto> m'), world := w\<rparr>)" "alloc_step s (s\<lparr>shms := (shms s)(a \<mapsto> m')\<rparr>)"
    "alloc_step s s" for m' bf w by (simp_all add: alloc_step_def keeps_def)
  have same: "(shms s)(a \<mapsto> m\<lparr>si_buffer := NULL\<rparr>) = shms s"
    using assms(2,8) by (auto simp: fun_eq_iff)
  show ?thesis
  proof (cases "si_flags m = TEEC_MEM_SHARED_INOUT")
    case False
    obtain ci where ci: "ctx_at s c = Some ci" using assms(5) by auto
    obtain b w where mm: "os_mmap os (live s) (si_size m) (ci_fd ci) (si_offset m * os_pagesize os) (world s) = (b, w)" by fastforce
    show ?thesis
      using False at ci wfm sl st' st2
      by (auto simp: shm_backing_def call_def mm upd_shm_def)
  next
    case True
    show ?thesis
    proof (cases "si_size m = 0 \<or> si_size m > MAX_SHAREDMEM_LEN")
      case T: True
      then show ?thesis using True at assms(1,3,7) same st2(4)
        by (auto simp: shm_backing_def AllocateSharedMem_def intro!: exI [of _ NULL])
    next
      case F: False
      obtain b s1 where mb: "malloc_buf os (unat (si_size m)) s = (b, s1)" by fastforce
      from assms(6) mb show ?thesis
      proof (cases rule: malloc_bufE)
        case fail
        then obtain w where w: "s1 = s\<lparr>world := w\<rparr>" by (auto elim: same_memE)
        then show ?thesis using True F at assms(3) mb fail(1) wfm [of "m\<lparr>si_buffer := NULL\<rparr>"] sl st2(2)
          by (auto simp: shm_backing_def AllocateSharedMem_def upd_shm_def)
      next
        case (alloc w)
        obtain r w2 where m2: "os_memset_s os w = (r, w2)" by fastforce
        define s2 where "s2 = s\<lparr>shms := (shms s)(a \<mapsto> m\<lparr>si_buffer := b\<rparr>), bufs := (bufs s)(b \<mapsto> raw_block os b (unat (si_size m))), world := w2\<rparr>"
        have wf2: "wf_api H s2"
          using wf_alloc_buf [OF wfm, of "m\<lparr>si_buffer := b\<rparr>" b "raw_block os b (unat (si_size m))"] by (simp add: s2_def)
        have "heap_block s2 x \<noteq> Some b" if x: "listed s2 x" for x
        proof -
          have l: "listed s x" and "x \<noteq> a" using x assms(4) by (auto simp: s2_def)
          then have "heap_block s2 x = heap_block s x"
            using ok_frame_shms(4) [of a "(shms s)(a \<mapsto> m\<lparr>si_buffer := b\<rparr>)" s x] by (simp add: s2_def heap_block_def)
          with heap_block_live [OF assms(1) l, of b] not_live_bufs [OF alloc(2)] show ?thesis by auto
        qed
        moreover have "shm_backing os c a s = Some (if r \<noteq> EOK then TEEC_ERROR_SECURITY else TEEC_SUCCESS, s2)"
          using True F at assms(3) mb alloc m2 by (auto simp: shm_backing_def AllocateSharedMem_def upd_shm_def call_def s2_def)
        ultimately show ?thesis
          using wf2 sl st2(1) by (auto simp: s2_def)
      qed
    qed
  qed
qed

lemma RelaseBuffer_spec:
  assumes "wf_api H s" and "shms s a = Some m" and "a \<noteq> NULL" and "\<not> listed s a" and "slot_taken s c (si_offset m)"
    and "\<And>d. ShrMemBitMapLock d \<notin> held s"
  shows "ok (RelaseBufferAndClearBit os c a s) (\<lambda>s'. wf_api H s' \<and> alloc_step s s')"
proof -
  define s1 where "s1 = (if si_buffer m \<noteq> MAP_FAILED \<and> si_size m \<noteq> 0 then unmap os (si_buffer m) (si_size m) s else s)"
  obtain mp w where u: "unmap os (si_buffer m) (si_size m) s = s\<lparr>maps := mp, world := w\<rparr>" by (rule unmapE)
  have s1: "wf_api H s1" "slot_taken s1 c (si_offset m)" "\<And>d. ShrMemBitMapLock d \<notin> held s1" "alloc_step s s1" "shms s1 = shms s"
    using assms(1,5,6) by (auto simp: s1_def u alloc_step_def keeps_def)
  obtain s2 where s2: "ClearBitWithLock os c (si_offset m) s1 = Some s2" "wf_api H s2" "alloc_step s1 s2" "shms s2 = shms s1"
    using clear_slot [OF s1(1-3), of os] by (auto simp: ok_iff)
  have nl: "\<not> listed s2 a" using s1(4) s2(3) assms(4) by (simp add: alloc_step_def)
  define s3 where "s3 = s2\<lparr>shms := (shms s2)(a \<mapsto> m\<lparr>si_buffer := NULL, si_offset := 0\<rparr>)\<rparr>"
  have "wf_api H s3" unfolding s3_def by (rule wf_unlisted_shm [OF s2(2) nl])
  moreover have "RelaseBufferAndClearBit os c a s = Some s3"
    using assms(2,3) s2(1,4) s1(5) by (simp add: RelaseBufferAndClearBit_def shm_at_def upd_shm_def s3_def Let_def flip: s1_def)
  moreover have "alloc_step s2 s3" by (simp add: alloc_step_def keeps_def s3_def)
  ultimately show ?thesis using s1(4) s2(3) by (auto intro: alloc_step_trans)
qed


lemma created_error:
  "alloc_step s s' \<Longrightarrow> wf_api H s' \<Longrightarrow> \<not> listed s a \<Longrightarrow> r \<noteq> TEEC_SUCCESS \<Longrightarrow> created H s a r s'"
  by (simp add: created_def alloc_step_def)

lemma created_error_trans:
  "alloc_step s s1 \<Longrightarrow> alloc_step s1 s' \<Longrightarrow> wf_api H s' \<Longrightarrow> \<not> listed s a \<Longrightarrow> r \<noteq> TEEC_SUCCESS \<Longrightarrow> created H s a r s'"
  using created_error alloc_step_trans by blast

text \<open>The part of the allocation after the slot has been taken.\<close>

definition alloc_tail :: "'w os \<Rightarrow> addr \<Rightarrow> addr \<Rightarrow> 'w api \<Rightarrow> (TEEC_Result \<times> 'w api) option" where
  "alloc_tail os c a s = do {
     (ret, s) \<leftarrow> shm_backing os c a s;
     m \<leftarrow> shm_at s a;
     if ret \<noteq> TEEC_SUCCESS then do {
       s \<leftarrow> ClearBitWithLock os c (si_offset m) s;
       Some (ret, s)
     }
     else if si_buffer m = MAP_FAILED then do {
       s \<leftarrow> RelaseBufferAndClearBit os c a s;
       Some (TEEC_ERROR_OUT_OF_MEMORY, s)
     }
     else do {
       s \<leftarrow> upd_shm a (\<lambda>m. m\<lparr>si_ops_cnt := 1, si_is_allocated := True, si_context := c\<rparr>) s;
       (lockRet, s) \<leftarrow> pthread_mutex_lock os (ShrMemLock c) s;
       if lockRet \<noteq> 0 then do {
         s \<leftarrow> RelaseBufferAndClearBit os c a s;
         Some (TEEC_ERROR_GENERIC, s)
       }
       else do {
         s \<leftarrow> link_shm a c s;
         Some (TEEC_SUCCESS, s)
       }
     }
   }"

lemma alloc_tail_spec:
  assumes "wf_api H s" and "shms s a = Some m" and "a \<noteq> NULL" and "\<not> listed s a" and "c \<noteq> NULL"
    and "malloc_ok os" and "slot_taken s c (si_offset m)" and "si_buffer m = NULL" and "no_ctx_locks s"
  shows "ok (alloc_tail os c a s) (\<lambda>(r, s'). created H s a r s')"
proof -
  have cs: "ctx_at s c \<noteq> None" using assms(5,7) by (auto simp: slot_taken_def ctx_at_def)
  obtain r s1 b where s1: "shm_backing os c a s = Some (r, s1)" "wf_api H s1" "alloc_step s s1"
      "ctxs s1 = ctxs s" "slot_taken s1 c (si_offset m)" "shms s1 = (shms s)(a \<mapsto> m\<lparr>si_buffer := b\<rparr>)"
      "si_flags m = TEEC_MEM_SHARED_INOUT \<longrightarrow> b \<noteq> NULL \<longrightarrow>
          bufs s1 b \<noteq> None \<and> (\<forall>x. listed s1 x \<longrightarrow> heap_block s1 x \<noteq> Some b)"
    using shm_backing_spec [OF assms(1-4) cs assms(6-8)] by (auto simp: ok_iff)
  define m1 where "m1 = m\<lparr>si_buffer := b\<rparr>"
  have m1: "shms s1 a = Some m1" "slot_taken s1 c (si_offset m1)" using s1(5,6) by (simp_all add: m1_def)
  have nl1: "\<not> listed s1 a" and h1: "held s1 = held s" using s1(3) assms(4) by (simp_all add: alloc_step_def keeps_def)
  have free: "\<And>d. ShrMemBitMapLock d \<notin> held s1" using assms(9) h1 by simp
  have at1: "shm_at s1 a = Some m1" using m1 assms(3) by (simp add: shm_at_def)
  consider "r \<noteq> TEEC_SUCCESS" | "r = TEEC_SUCCESS" "b = MAP_FAILED" | "r = TEEC_SUCCESS" "b \<noteq> MAP_FAILED" by blast
  then show ?thesis
  proof cases
    case 1
    with clear_slot [OF s1(2) m1(2) free, of os] s1(3) assms(4) show ?thesis
      by (auto simp: alloc_tail_def s1(1) at1 ok_iff intro: created_error_trans)
  next
    case 2
    with RelaseBuffer_spec [OF s1(2) m1(1) assms(3) nl1 m1(2) free, of os] s1(3) assms(4) show ?thesis
      by (auto simp: alloc_tail_def s1(1) at1 m1_def ok_iff intro!: created_error_trans [OF s1(3)])
  next
    case 3
    define m2 where "m2 = m1\<lparr>si_ops_cnt := 1, si_is_allocated := True, si_context := c\<rparr>"
    define s2 where "s2 = s1\<lparr>shms := (shms s1)(a \<mapsto> m2)\<rparr>"
    have wf2: "wf_api H s2" unfolding s2_def by (rule wf_unlisted_shm [OF s1(2) nl1])
    have nl2: "\<not> listed s2 a" using nl1 by (simp add: s2_def)
    have st2: "alloc_step s s2"
      by (rule alloc_step_trans [OF s1(3)]) (simp add: alloc_step_def keeps_def s2_def)
    have sl2: "slot_taken s2 c (si_offset m2)"
      using slot_taken_shms [OF nl1, of "Some m2" c] m1(2) by (simp add: s2_def m2_def)
    have hb2: "heap_block s2 x = heap_block s1 x" if "listed s1 x" for x
      unfolding s2_def using ok_frame_shms(4) [of a "(shms s1)(a \<mapsto> m2)" s1 x] nl1 that by (cases "x = a") auto
    have lk: "linkable s2 c m2"
      using sl2 s1(7) hb2 by (auto simp: linkable_def slot_taken_def shm_inv_def m2_def m1_def s2_def)
    have c2: "ctxs s2 c \<noteq> None" "shms s2 a = Some m2" "ShrMemLock c \<notin> held s2" "lock_there (ShrMemLock c) s2"
      using cs s1(4) assms(5,9) h1 by (auto simp: s2_def ctx_at_def)
    have free2: "\<And>d. ShrMemBitMapLock d \<notin> held s2" using free by (simp add: s2_def)
    have run: "alloc_tail os c a s = do {
         (lockRet, s) \<leftarrow> pthread_mutex_lock os (ShrMemLock c) s2;
         if lockRet \<noteq> 0 then do { s \<leftarrow> RelaseBufferAndClearBit os c a s; Some (TEEC_ERROR_GENERIC, s) }
         else do { s \<leftarrow> link_shm a c s; Some (TEEC_SUCCESS, s) } }"
      using 3 at1 assms(3) m1(1) by (simp add: alloc_tail_def s1(1) m1_def upd_shm_def shm_at_def s2_def m2_def)
    from c2(4,3) show ?thesis
    proof (cases rule: lock_free [of _ _ os])
      case (failed l w)
      have w: "wf_api H (s2\<lparr>world := w\<rparr>)" "shms (s2\<lparr>world := w\<rparr>) a = Some m2" "\<not> listed (s2\<lparr>world := w\<rparr>) a"
        "slot_taken (s2\<lparr>world := w\<rparr>) c (si_offset m2)" using wf2 c2(2) nl2 sl2 by simp_all
      have st: "alloc_step s (s2\<lparr>world := w\<rparr>)" using st2 by (simp add: alloc_step_def keeps_def)
      with failed RelaseBuffer_spec [OF w(1,2) assms(3) w(3,4), of os] free2 assms(4) show ?thesis
        by (auto simp: run ok_iff intro!: created_error_trans [OF st])
    next
      case (taken w)
      with link_shm_spec [OF wf2 assms(5) c2(1) assms(3) c2(2) nl2 lk c2(3), of w] st2 show ?thesis
        by (auto simp: run ok_iff created_def alloc_step_def intro: keeps_trans)
    qed
  qed
qed

lemma AllocateSharedMemoryInner_spec:
  assumes "wf_api (hold H c) s" and "shms s a = Some m" and "a \<noteq> NULL" and "\<not> listed s a" and "no_ctx_locks s"
    and "malloc_ok os"
  shows "ok (TEEC_AllocateSharedMemoryInner os c a s) (\<lambda>(r, s'). created (hold H c) s a r s')"
proof -
  have at: "shm_at s a = Some m" using assms(2,3) by (simp add: shm_at_def)
  obtain r where r: "CheckSharedMemoryParam c a s = Some r" "c = NULL \<Longrightarrow> r \<noteq> TEEC_SUCCESS"
    using at assms(3) by (cases "c = NULL") (auto simp: CheckSharedMemoryParam_def)
  show ?thesis
  proof (cases "r = TEEC_SUCCESS")
    case False
    with r(1) assms show ?thesis by (simp add: TEEC_AllocateSharedMemoryInner_def created_def)
  next
    case True
    with r(2) have c: "c \<noteq> NULL" by auto
    define s1 where "s1 = s\<lparr>shms := (shms s)(a \<mapsto> m\<lparr>si_buffer := NULL\<rparr>)\<rparr>"
    have wf1: "wf_api (hold H c) s1" unfolding s1_def by (rule wf_unlisted_shm [OF assms(1,4)])
    have st1: "alloc_step s s1" by (simp add: alloc_step_def keeps_def s1_def)
    obtain ci where ci: "ctxs s1 c = Some ci" by (rule wf_held [OF wf1 c])
    have free: "ShrMemBitMapLock c \<notin> held s1" using assms(5) by (simp add: s1_def)
    obtain v s2 where s2: "GetAndSetBitWithLock os c s1 = Some (v, s2)" "wf_api (hold H c) s2" "ctxs_nb s2 = ctxs_nb s1"
        "same_mem (s1\<lparr>ctxs := ctxs s2\<rparr>) s2" "0 \<le> v \<longrightarrow> slot_taken s2 c (uint32_of v)"
      using GetAndSetBitWithLock_spec [OF wf1 ci free, of os] by (auto simp: ok_iff)
    note st2 = alloc_step_ctxs [OF s2(4,3)]
    have st: "alloc_step s s2" by (rule alloc_step_trans [OF st1 st2(1)])
    show ?thesis
    proof (cases "v < 0")
      case v: True
      have "created (hold H c) s a TEEC_ERROR_BAD_PARAMETERS s2"
        by (rule created_error [OF st s2(2) assms(4)]) simp
      with v True r(1) at assms(2,3) s2(1) show ?thesis
        by (simp add: TEEC_AllocateSharedMemoryInner_def upd_shm_def s1_def)
    next
      case v: False
      define m3 where "m3 = m\<lparr>si_buffer := NULL, si_offset := uint32_of v\<rparr>"
      define s3 where "s3 = s2\<lparr>shms := (shms s2)(a \<mapsto> m3)\<rparr>"
      have nl: "\<not> listed s2 a" using st assms(4) by (simp add: alloc_step_def)
      have wf3: "wf_api (hold H c) s3" unfolding s3_def by (rule wf_unlisted_shm [OF s2(2) nl])
      have s3: "shms s3 a = Some m3" "\<not> listed s3 a" "slot_taken s3 c (si_offset m3)" "si_buffer m3 = NULL"
        using nl s2(5) v slot_taken_shms [OF nl] by (simp_all add: s3_def m3_def)
      have st3: "alloc_step s s3" using st by (simp add: alloc_step_def keeps_def s3_def)
      have l3: "no_ctx_locks s3" using st3 assms(5) by (simp add: alloc_step_def keeps_def no_ctx_locks_def)
      have run: "TEEC_AllocateSharedMemoryInner os c a s = alloc_tail os c a s3"
        using v True r(1) at assms(2,3) s2(1) st2(2)
        by (simp add: TEEC_AllocateSharedMemoryInner_def upd_shm_def s1_def shm_at_def s3_def m3_def alloc_tail_def)
      show ?thesis
        unfolding run by (rule ok_mono [OF alloc_tail_spec [OF wf3 s3(1) assms(3) s3(2) c assms(6) s3(3,4) l3]])
          (use st3 in \<open>auto simp: created_def alloc_step_def intro: keeps_trans\<close>)
    qed
  qed
qed


section \<open>The calls\<close>

text \<open>
  \<open>TEEC_RegisterSharedMemory\<close> and \<open>TEEC_AllocateSharedMemory\<close> differ in the inner function and in
  what they copy between the caller's structure and the library's.
\<close>

definition create_with ::
  "'w os \<Rightarrow> (addr \<Rightarrow> addr \<Rightarrow> 'w api \<Rightarrow> (TEEC_Result \<times> 'w api) option) \<Rightarrow>
   (TEEC_SharedMemory \<Rightarrow> TEEC_SharedMemoryInner \<Rightarrow> TEEC_SharedMemoryInner) \<Rightarrow>
   (TEEC_SharedMemoryInner \<Rightarrow> TEEC_SharedMemory \<Rightarrow> TEEC_SharedMemory) \<Rightarrow>
   addr \<Rightarrow> addr \<Rightarrow> 'w api \<Rightarrow> (TEEC_Result \<times> 'w api) option" where
  "create_with os inner fin fout context b s =
     (if context = NULL \<or> b = NULL then Some (TEEC_ERROR_BAD_PARAMETERS, s)
      else do {
        s \<leftarrow> upd_ushm b (\<lambda>m. m\<lparr>sm_context := context\<rparr>) s;
        let ((ret, a), s) = MallocShrMemInner os s;
        if ret \<noteq> TEEC_SUCCESS then Some (ret, s)
        else do {
          u \<leftarrow> ushm_at s b;
          s \<leftarrow> upd_shm a (fin u) s;
          (c, s) \<leftarrow> GetBnContext os context s;
          (ret, s) \<leftarrow> inner c a s;
          if ret = TEEC_SUCCESS then do {
            m \<leftarrow> shm_at s a;
            s \<leftarrow> upd_ushm b (fout m) s;
            s \<leftarrow> PutBnShrMem os a s;
            (_, s) \<leftarrow> PutBnContext os c s;
            Some (TEEC_SUCCESS, s)
          }
          else do {
            (_, s) \<leftarrow> PutBnContext os c s;
            Some (ret, free_shm a s)
          }
        }
      })"

lemma create_with_ok:
  assumes "wf_api H s" and "held s = {}" and "held_small H" and "malloc_ok os"
    and "context \<noteq> NULL \<Longrightarrow> uctx_at s context \<noteq> None" and "b \<noteq> NULL \<Longrightarrow> ushm_at s b \<noteq> None"
    and inner: "\<And>c a m s. wf_api (hold H c) s \<Longrightarrow> shms s a = Some m \<Longrightarrow> a \<noteq> NULL \<Longrightarrow> \<not> listed s a \<Longrightarrow> no_ctx_locks s \<Longrightarrow>
      ok (inner c a s) (\<lambda>(r, s'). created (hold H c) s a r s')"
  shows "ok (create_with os inner fin fout context b s) (\<lambda>(r, s'). call_done H s s')"
proof (cases "context = NULL \<or> b = NULL")
  case True
  then show ?thesis using assms(1) by (auto simp: create_with_def call_done_def)
next
  case False
  then have nn: "context \<noteq> NULL" "b \<noteq> NULL" by simp_all
  obtain u where u: "ushm s b = Some u" using assms(6) nn by (auto simp: ushm_at_def)
  define u1 where "u1 = u\<lparr>sm_context := context\<rparr>"
  define s1 where "s1 = s\<lparr>ushm := (ushm s)(b \<mapsto> u1)\<rparr>"
  have wf1: "wf_api H s1" using assms(1) by (simp add: s1_def)
  have dom1: "dom ((ushm s)(b \<mapsto> x)) = dom (ushm s)" for x using u by auto
  show ?thesis using assms(4)
  proof (cases rule: MallocShrMemInner_cases [of _ s1])
    case (fail w)
    then show ?thesis using nn u wf1 dom1
      by (simp add: create_with_def upd_ushm_def ushm_at_def s1_def u1_def call_done_def)
  next
    case (alloc a w)
    have nl: "\<not> listed s1 a" by (rule not_live_unlisted [OF wf1 alloc(3)])
    define s2 where "s2 = s1\<lparr>shms := (shms s1)(a \<mapsto> fin u1 zero_shm), world := w\<rparr>"
    have wf2: "wf_api H s2" using wf_unlisted_shm [OF wf1 nl] by (simp add: s2_def)
    have h2: "held s2 = {}" "uctx_at s2 context \<noteq> None" using assms(2,5) nn(1) by (simp_all add: s2_def s1_def)
    obtain c s3 where s3: "GetBnContext os context s2 = Some (c, s3)" "wf_api (hold H c) s3" "ctx_step s2 s3" "no_ctx_locks s3"
      by (rule enter [OF wf2 h2(1) assms(3) h2(2)])
    have m3: "shms s3 a = Some (fin u1 zero_shm)" using s3(3) by (simp add: ctx_step_def s2_def)
    have nl3: "\<not> listed s3 a" using s3(3) nl by (auto simp: ctx_step_def frame_def s2_def)
    obtain r s4 where s4: "inner c a s3 = Some (r, s4)" "created (hold H c) s3 a r s4"
      using inner [OF s3(2) m3 alloc(2) nl3 s3(4)] by (auto simp: ok_iff)
    have k3: "keeps s1 s3" "ctx_list s3 = ctx_list s1" "ctx_list s1 = ctx_list s"
      using s3(3) by (simp_all add: ctx_step_def frame_def keeps_def s2_def s1_def)
    have run: "create_with os inner fin fout context b s = (if r = TEEC_SUCCESS then do {
            m \<leftarrow> shm_at s4 a;
            s \<leftarrow> upd_ushm b (fout m) s4;
            s \<leftarrow> PutBnShrMem os a s;
            (_, s) \<leftarrow> PutBnContext os c s;
            Some (TEEC_SUCCESS, s)
          }
          else do {
            (_, s) \<leftarrow> PutBnContext os c s4;
            Some (r, free_shm a s)
          })"
      using nn u alloc s3(1) s4(1)
      by (simp add: create_with_def upd_ushm_def upd_shm_def ushm_at_def shm_at_def s1_def u1_def s2_def)
    note rest = created_leave [OF s4(2) s3(4)]
    show ?thesis
    proof (cases "r = TEEC_SUCCESS")
      case True
      obtain m4 where m4: "shms s4 a = Some m4" using rest(1) [OF True] by auto
      define v where "v = (ushm s1)(b \<mapsto> fout m4 u1)"
      have us: "ushm s4 = ushm s1" using s4(2) k3 by (simp add: created_def keeps_def)
      have "dom v = dom (ushm s)" using u by (auto simp: v_def s1_def)
      moreover have "upd_ushm b (fout m4) s4 = Some (s4\<lparr>ushm := v\<rparr>)"
        using nn by (simp add: upd_ushm_def ushm_at_def us s1_def v_def)
      ultimately show ?thesis
        using rest(2) [OF True, of os v] True m4 alloc(2) k3 assms(2)
        by (auto simp: run shm_at_def ok_iff call_done_def keeps_def s1_def)
    next
      case False
      then show ?thesis
        using rest(3) [OF False, of os] k3 dom1 by (auto simp: run ok_iff call_done_def keeps_def s1_def free_shm_def)
    qed
  qed
qed

lemma TEEC_RegisterSharedMemory_ok:
  assumes "wf_api H s" and "held s = {}" and "held_small H" and "malloc_ok os"
    and "context \<noteq> NULL \<Longrightarrow> uctx_at s context \<noteq> None" and "b \<noteq> NULL \<Longrightarrow> ushm_at s b \<noteq> None"
  shows "ok (TEEC_RegisterSharedMemory os context b s) (\<lambda>(r, s'). call_done H s s')"
proof -
  have eq: "TEEC_RegisterSharedMemory os context b s = create_with os (TEEC_RegisterSharedMemoryInner os)
      (\<lambda>u m. m\<lparr>si_buffer := sm_buffer u, si_size := sm_size u, si_flags := sm_flags u\<rparr>)
      (\<lambda>m u. u\<lparr>sm_ops_cnt := si_ops_cnt m, sm_is_allocated := si_is_allocated m\<rparr>) context b s"
    unfolding TEEC_RegisterSharedMemory_def create_with_def by (simp cong: if_cong)
  show ?thesis
    unfolding eq by (rule create_with_ok [OF assms(1-4)]) (use assms(5,6) RegisterSharedMemoryInner_spec in auto)
qed

lemma TEEC_AllocateSharedMemory_ok:
  assumes "wf_api H s" and "held s = {}" and "held_small H" and "malloc_ok os"
    and "context \<noteq> NULL \<Longrightarrow> uctx_at s context \<noteq> None" and "b \<noteq> NULL \<Longrightarrow> ushm_at s b \<noteq> None"
  shows "ok (TEEC_AllocateSharedMemory os context b s) (\<lambda>(r, s'). call_done H s s')"
proof -
  have eq: "TEEC_AllocateSharedMemory os context b s = create_with os (TEEC_AllocateSharedMemoryInner os)
      (\<lambda>u m. m\<lparr>si_size := sm_size u, si_flags := sm_flags u\<rparr>)
      (\<lambda>m u. u\<lparr>sm_buffer := si_buffer m, sm_ops_cnt := si_ops_cnt m, sm_is_allocated := si_is_allocated m\<rparr>) context b s"
    unfolding TEEC_AllocateSharedMemory_def create_with_def by (simp cong: if_cong)
  show ?thesis
    unfolding eq by (rule create_with_ok [OF assms(1-4)])
      (use assms(5,6) AllocateSharedMemoryInner_spec [OF _ _ _ _ _ assms(4)] in auto)
qed

section \<open>Releasing shared memory\<close>

lemma FindAndRemoveShrMem_spec:
  assumes "wf_api (hold H c) s" and "c \<noteq> NULL" and "no_ctx_locks s"
  shows "ok (TEEC_FindAndRemoveShrMemInner os shm c s) (\<lambda>(a, s'). wf_api (hold H c) s' \<and> frame s s' \<and>
    (a \<noteq> NULL \<longrightarrow> (\<exists>m. detached s' a m \<and> si_ops_cnt m = 1)))"
proof -
  obtain ci where ci: "ctxs s c = Some ci" "ctx_at s c = Some ci" by (rule wf_held [OF assms(1,2)])
  have mem: "\<And>a. a \<in> set (ci_shrd_mem_list ci) \<Longrightarrow> shm_at s a \<noteq> None"
    by (rule wf_shm [OF assms(1) ci(1)]) auto
  define P where "P = (\<lambda>t :: TEEC_SharedMemoryInner. if ci_callFromService ci \<and> si_is_allocated shm
                   then si_offset t = si_offset shm \<and> si_context t = si_context shm
                   else si_buffer t = si_buffer shm \<and> si_context t = si_context shm)"
  define f where "f = find (\<lambda>a. P (the (shm_at s a))) (ci_shrd_mem_list ci)"
  have find: "find_shm s P (ci_shrd_mem_list ci) = Some f" unfolding f_def by (rule find_shm_find [OF mem])
  have there: "lock_there (ShrMemLock c) s" "ShrMemLock c \<notin> held s" using ci(2) assms(3) by simp_all
  from there show ?thesis
  proof (cases rule: lock_free [of _ _ os])
    case (failed r w)
    with assms(1) show ?thesis by (simp add: TEEC_FindAndRemoveShrMemInner_def)
  next
    case (taken w)
    show ?thesis
    proof (cases f)
      case None
      with find taken ci(2) there(2) assms(1) show ?thesis
        by (simp add: TEEC_FindAndRemoveShrMemInner_def P_def pthread_mutex_unlock_def ptr_of_def)
    next
      case (Some a)
      then have a: "a \<in> set (ci_shrd_mem_list ci)" by (auto simp: f_def find_Some_iff)
      define s1 where "s1 = s\<lparr>ctxs := (ctxs s)(c \<mapsto> ci\<lparr>ci_shrd_mem_list := remove1 a (ci_shrd_mem_list ci)\<rparr>)\<rparr>"
      obtain m where wf1: "wf_api (hold H c) s1" and m: "detached s1 a m" "si_ops_cnt m = 1"
        using unlink_shm [OF assms(1) ci(1) a] by (auto simp: s1_def)
      have "listed s1 b \<Longrightarrow> listed s b" for b
        using set_remove1_subset [of a "ci_shrd_mem_list ci"] ci(1) by (auto simp: listed_def s1_def split: if_splits)
      then have fr: "frame s (s1\<lparr>world := w\<rparr>)" by (simp add: frame_def keeps_def s1_def)
      have "detached (s1\<lparr>world := w\<rparr>) a m" using m(1) by (simp add: detached_def shm_slot_def heap_block_def)
      moreover have "TEEC_FindAndRemoveShrMemInner os shm c s = Some (a, s1\<lparr>world := w\<rparr>)"
        using find taken ci(2) there(2) assms(2) Some
        by (simp add: TEEC_FindAndRemoveShrMemInner_def P_def pthread_mutex_unlock_def ptr_of_def upd_ctx_def ctx_at_def s1_def)
      ultimately show ?thesis using wf1 m(2) fr by auto
    qed
  qed
qed

lemma TEEC_ReleaseSharedMemory_ok:
  assumes "wf_api H s" and "held s = {}" and "held_small H" and "b \<noteq> NULL \<Longrightarrow> ushm_at s b \<noteq> None"
    and "\<And>u. ushm_at s b = Some u \<Longrightarrow> sm_context u \<noteq> NULL \<Longrightarrow> uctx_at s (sm_context u) \<noteq> None"
  shows "ok (TEEC_ReleaseSharedMemory os b s) (\<lambda>s'. call_done H s s')"
proof (cases "b = NULL \<or> (\<exists>u. ushm_at s b = Some u \<and> sm_context u = NULL)")
  case True
  then show ?thesis using assms(1) by (auto simp: TEEC_ReleaseSharedMemory_def call_done_def)
next
  case False
  with assms(4) obtain u where u: "ushm_at s b = Some u" "sm_context u \<noteq> NULL" "b \<noteq> NULL" by auto
  obtain c s1 where s1: "GetBnContext os (sm_context u) s = Some (c, s1)" "wf_api (hold H c) s1" "ctx_step s s1" "no_ctx_locks s1"
    by (rule enter [OF assms(1-3) assms(5) [OF u(1,2)]])
  define shm where "shm = zero_shm\<lparr>si_buffer := sm_buffer u, si_size := sm_size u, si_flags := sm_flags u,
     si_ops_cnt := sm_ops_cnt u, si_is_allocated := sm_is_allocated u, si_context := c\<rparr>"
  have cc: "si_context shm = c" by (simp add: shm_def)
  obtain s2 where s2: "TEEC_ReleaseSharedMemoryInner os shm s1 = Some s2" "wf_api (hold H c) s2" "frame s1 s2"
  proof (cases "c = NULL")
    case True
    with that [of s1] s1(2) cc show ?thesis by (simp add: TEEC_ReleaseSharedMemoryInner_def)
  next
    case c: False
    obtain a t where t: "TEEC_FindAndRemoveShrMemInner os shm c s1 = Some (a, t)" "wf_api (hold H c) t" "frame s1 t"
        "a \<noteq> NULL \<longrightarrow> (\<exists>m. detached t a m \<and> si_ops_cnt m = 1)"
      using FindAndRemoveShrMem_spec [OF s1(2) c s1(4), of os shm] by (auto simp: ok_iff)
    show ?thesis
    proof (cases "a = NULL")
      case True
      with that [of t] t c cc show ?thesis by (simp add: TEEC_ReleaseSharedMemoryInner_def)
    next
      case a: False
      with t(4) obtain m where m: "detached t a m" "si_ops_cnt m = 1" by auto
      have free: "\<And>d. ShrMemBitMapLock d \<notin> held t" using frame_locks [OF t(3)] s1(4) by simp
      obtain s2 where "PutBnShrMem os a t = Some s2" "wf_api (hold H c) s2" "shm_step t s2"
        using PutBnShrMem_detached [OF t(2) m free, of os] by (auto simp: ok_iff)
      with that [of s2] t a c cc show ?thesis
        by (auto simp: TEEC_ReleaseSharedMemoryInner_def intro: frame_trans frame_shm_step)
    qed
  qed
  have l2: "no_ctx_locks s2" using frame_locks [OF s2(3)] s1(4) by simp
  obtain x s3 where s3: "PutBnContext os c s2 = Some (x, s3)" "wf_api H s3" "frame s2 s3" by (rule leave [OF s2(2) l2])
  have fr: "frame s s3" using ctx_step_frame [OF s1(3)] s2(3) s3(3) by (metis frame_trans)
  have um: "ushm s3 b = Some u" using fr u by (auto simp: frame_def keeps_def ushm_at_def)
  have "dom ((ushm s3)(b \<mapsto> x)) = dom (ushm s)" for x using um fr by (auto simp: frame_def keeps_def)
  then show ?thesis
    using u um s1(1) s2(1) s3 fr
    by (simp add: TEEC_ReleaseSharedMemory_def shm_def [symmetric] upd_ushm_def ushm_at_def call_done_def frame_def keeps_def)
qed

end
