(* ===== verification/Api_Steps.thy ===== *)
theory Api_Steps
  imports Api_Alloc
begin

text \<open>
  The client library as a transition system: its calls, what a caller owes to them, the steps of
  the program between them, and the invariant of every reachable state, with the properties of
  contexts, sessions and shared memory that follow from it.
\<close>

section \<open>Calls\<close>

datatype api_call =
    Initialize addr
  | Finalize addr
  | Open addr addr "TEEC_UUID option" u32 addr operation_ptr
  | Close addr
  | Invoke addr u32 operation_ptr
  | Register addr addr
  | Allocate addr addr
  | Release addr
  | Cancel operation_ptr
  | SendFile "string option" addr

fun run_call :: "'w os \<Rightarrow> api_call \<Rightarrow> 'w api \<Rightarrow> 'w api option" where
  "run_call os (Initialize context) s = map_option snd (TEEC_InitializeContext os context s)"
| "run_call os (Finalize context) s = TEEC_FinalizeContext os context s"
| "run_call os (Open context session dest meth cdata operation) s =
     map_option snd (TEEC_OpenSession os context session dest meth cdata operation s)"
| "run_call os (Close session) s = TEEC_CloseSession os session s"
| "run_call os (Invoke session cmd operation) s = map_option snd (TEEC_InvokeCommand os session cmd operation s)"
| "run_call os (Register context shm) s = map_option snd (TEEC_RegisterSharedMemory os context shm s)"
| "run_call os (Allocate context shm) s = map_option snd (TEEC_AllocateSharedMemory os context shm s)"
| "run_call os (Release shm) s = TEEC_ReleaseSharedMemory os shm s"
| "run_call os (Cancel operation) s = map_option snd (TEEC_RequestCancellation os operation s)"
| "run_call os (SendFile path session) s = map_option snd (TEEC_SendSecfile os path session s)"

text \<open>
  What the caller of the library owes: its pointers are null or point to structures of the right
  type, the structures it names are still there, and a session that it opens is not open already.
\<close>

definition caller_ushm :: "'w api \<Rightarrow> addr \<Rightarrow> bool" where
  "caller_ushm s b \<longleftrightarrow> b = NULL \<or> ushm_at s b \<noteq> None"

definition closed_sess :: "'w api \<Rightarrow> addr \<Rightarrow> bool" where
  "closed_sess s a \<longleftrightarrow> a = NULL \<or> (case sess s a of None \<Rightarrow> False | Some e \<Rightarrow> se_head e = NULL)"

fun caller_ok :: "'w api \<Rightarrow> api_call \<Rightarrow> bool" where
  "caller_ok s (Initialize context) \<longleftrightarrow> caller_uctx s context"
| "caller_ok s (Finalize context) \<longleftrightarrow> caller_uctx s context"
| "caller_ok s (Open context session dest meth cdata operation) \<longleftrightarrow>
     caller_uctx s context \<and> closed_sess s session \<and> caller_op s operation"
| "caller_ok s (Close session) \<longleftrightarrow> caller_sess s session"
| "caller_ok s (Invoke session cmd operation) \<longleftrightarrow> caller_sess s session \<and> caller_op s operation"
| "caller_ok s (Register context shm) \<longleftrightarrow> caller_uctx s context \<and> caller_ushm s shm"
| "caller_ok s (Allocate context shm) \<longleftrightarrow> caller_uctx s context \<and> caller_ushm s shm"
| "caller_ok s (Release shm) \<longleftrightarrow> caller_ushm s shm \<and>
     (case ushm_at s shm of None \<Rightarrow> True | Some u \<Rightarrow> caller_uctx s (sm_context u))"
| "caller_ok s (Cancel operation) \<longleftrightarrow> caller_op s operation \<and>
     (case operation of None \<Rightarrow> True | Some (_, op) \<Rightarrow> caller_sess s (op_session op))"
| "caller_ok s (SendFile path session) \<longleftrightarrow> caller_sess s session"

text \<open>What the environment owes: a sane allocator, and a driver that leaves the image pointer alone.\<close>

definition os_ok :: "'w os \<Rightarrow> bool" where
  "os_ok os \<longleftrightarrow> malloc_ok os \<and> ioctl_keeps os"

section \<open>The library as a transition system\<close>

definition api_init :: "'w api \<Rightarrow> bool" where
  "api_init s \<longleftrightarrow> ctxs s = Map.empty \<and> ctx_list s = [] \<and> held s = {}"

text \<open>
  Between two calls the program may do what it wants with its own structures, except with
  sessions that are open, and the rest of the world may change.
\<close>

definition client_step :: "'w api \<Rightarrow> 'w api \<Rightarrow> bool" where
  "client_step s s' \<longleftrightarrow>
     (\<exists>u v e w. s' = s\<lparr>sess := e, uctx := u, ushm := v, world := w\<rparr> \<and>
        (\<forall>a x. sess s a = Some x \<and> se_head x \<noteq> NULL \<longrightarrow> e a = Some x))"

inductive api_step :: "'w os \<Rightarrow> 'w api \<Rightarrow> 'w api \<Rightarrow> bool" for os where
  client: "client_step s s' \<Longrightarrow> api_step os s s'"
| call: "caller_ok s c \<Longrightarrow> run_call os c s = Some s' \<Longrightarrow> api_step os s s'"

inductive_cases api_stepE: "api_step os s s'"

abbreviation no_holds :: "addr \<Rightarrow> nat" where
  "no_holds \<equiv> \<lambda>_. 0"

definition api_inv :: "'w api \<Rightarrow> bool" where
  "api_inv s \<longleftrightarrow> wf_api no_holds s \<and> held s = {} \<and> length (ctx_list s) \<le> 16"

lemma wf_sess_change:
  assumes "wf_api H s" and "\<And>a e. sess s a = Some e \<Longrightarrow> se_head e \<noteq> NULL \<Longrightarrow> m a = Some e"
  shows "wf_api H (s\<lparr>sess := m\<rparr>)"
proof -
  have "ctx_ok H (s\<lparr>sess := m\<rparr>) c ci" if c: "ctxs s c = Some ci" for c ci
  proof (rule ctx_ok_sess [OF wf_ctx [OF assms(1) c]])
    fix a assume a: "a \<in> set (ci_session_list ci)"
    obtain e where e: "sess s a = Some e" "se_head e = c" "a \<noteq> NULL" by (rule wf_sess [OF assms(1) c a])
    have "c \<noteq> NULL" using wf_ctx [OF assms(1) c] by (simp add: ctx_ok_def)
    with e assms(2) [OF e(1)] show "sess_ok (s\<lparr>sess := m\<rparr>) c a" by (simp add: sess_ok_def sess_at_def)
  qed
  then show ?thesis using assms(1) by (simp add: wf_api_def)
qed

lemma held_small_0: "held_small no_holds"
  by (simp add: held_small_def)

lemma frame_api_inv: "wf_api no_holds s' \<and> frame s s' \<Longrightarrow> api_inv s \<Longrightarrow> api_inv s'"
  by (simp add: api_inv_def frame_def keeps_def)

lemma call_done_api_inv: "call_done no_holds s s' \<Longrightarrow> api_inv s \<Longrightarrow> api_inv s'"
  by (simp add: api_inv_def call_done_def)

lemma length_subset: "distinct xs \<Longrightarrow> set xs \<subseteq> set ys \<Longrightarrow> length xs \<le> length ys"
  by (metis card_length card_mono distinct_card le_trans List.finite_set)

lemma sess_NULL: "sess_at s NULL = None"
  by (simp add: sess_at_def)

lemma run_call_ok:
  assumes "api_inv s" and "os_ok os" and "caller_ok s c"
  shows "ok (run_call os c s) api_inv"
proof -
  have inv: "wf_api no_holds s" "held s = {}" "length (ctx_list s) \<le> 16" using assms(1) by (simp_all add: api_inv_def)
  have os: "malloc_ok os" "ioctl_keeps os" using assms(2) by (simp_all add: os_ok_def)
  note h = inv(1,2) held_small_0
  show ?thesis
  proof (cases c)
    case (Initialize x)
    show ?thesis unfolding Initialize run_call.simps ok_map_option
      by (rule ok_mono [OF TEEC_InitializeContext_ok [OF inv(1,2) os(1) _ inv(3)]])
        (use assms(3) Initialize in \<open>auto simp: caller_uctx_def api_inv_def\<close>)
  next
    case (Finalize x)
    show ?thesis unfolding Finalize run_call.simps
    proof (rule ok_mono [OF TEEC_FinalizeContext_ok [OF inv(1,2)]])
      fix s' assume s': "wf_api no_holds s' \<and> held s' = {} \<and> dom (sess s') = dom (sess s) \<and> ushm s' = ushm s \<and>
        dom (uctx s') = dom (uctx s) \<and> set (ctx_list s') \<subseteq> set (ctx_list s)"
      then have "length (ctx_list s') \<le> length (ctx_list s)" by (intro length_subset) (auto simp: wf_api_def)
      with s' inv(3) show "api_inv s'" by (simp add: api_inv_def)
    qed (use assms(3) Finalize in \<open>simp add: caller_uctx_def\<close>)
  next
    case (Open x y d m cd op)
    show ?thesis unfolding Open run_call.simps ok_map_option
      by (rule ok_mono [OF TEEC_OpenSession_ok [OF h os(2,1)]])
        (use assms(1,3) Open in \<open>auto simp: caller_uctx_def closed_sess_def intro: frame_api_inv split: option.splits\<close>)
  next
    case (Close x)
    show ?thesis unfolding Close run_call.simps
      by (rule ok_mono [OF TEEC_CloseSession_ok [OF h]])
        (use assms(1,3) Close in \<open>auto simp: caller_sess_iff sess_NULL intro: frame_api_inv\<close>)
  next
    case (Invoke x cmd op)
    show ?thesis unfolding Invoke run_call.simps ok_map_option
      by (rule ok_mono [OF TEEC_InvokeCommand_ok [OF h]]) (use assms(1,3) Invoke in \<open>auto intro: frame_api_inv\<close>)
  next
    case (Register x y)
    show ?thesis unfolding Register run_call.simps ok_map_option
      by (rule ok_mono [OF TEEC_RegisterSharedMemory_ok [OF h os(1)]])
        (use assms(1,3) Register in \<open>auto simp: caller_uctx_def caller_ushm_def intro: call_done_api_inv\<close>)
  next
    case (Allocate x y)
    show ?thesis unfolding Allocate run_call.simps ok_map_option
      by (rule ok_mono [OF TEEC_AllocateSharedMemory_ok [OF h os(1)]])
        (use assms(1,3) Allocate in \<open>auto simp: caller_uctx_def caller_ushm_def intro: call_done_api_inv\<close>)
  next
    case (Release x)
    show ?thesis unfolding Release run_call.simps
      by (rule ok_mono [OF TEEC_ReleaseSharedMemory_ok [OF h]])
        (use assms(1,3) Release in \<open>auto simp: caller_uctx_def caller_ushm_def intro: call_done_api_inv\<close>)
  next
    case (Cancel op)
    show ?thesis unfolding Cancel run_call.simps ok_map_option
      by (rule ok_mono [OF TEEC_RequestCancellation_ok [OF h]])
        (use assms(1,3) Cancel in \<open>auto intro: frame_api_inv\<close>)
  next
    case (SendFile p x)
    show ?thesis unfolding SendFile run_call.simps ok_map_option
      by (rule ok_mono [OF TEEC_SendSecfile_ok [OF h _ os(1)]]) (use assms(1,3) SendFile in \<open>auto intro: frame_api_inv\<close>)
  qed
qed

lemma client_step_inv: "api_inv s \<Longrightarrow> client_step s s' \<Longrightarrow> api_inv s'"
  by (auto simp: api_inv_def client_step_def intro!: wf_sess_change)

lemma api_init_inv: "api_init s \<Longrightarrow> api_inv s"
  by (auto simp: api_init_def api_inv_def wf_api_def heap_inj_def listed_def)

interpretation api: invariant api_init "api_step os" "\<lambda>s. os_ok os \<longrightarrow> api_inv s" for os :: "'w os"
proof
  fix s s' :: "'w api"
  show "api_init s \<Longrightarrow> os_ok os \<longrightarrow> api_inv s" by (simp add: api_init_inv)
  show "os_ok os \<longrightarrow> api_inv s \<Longrightarrow> api_step os s s' \<Longrightarrow> os_ok os \<longrightarrow> api_inv s'"
    by (auto elim!: api_stepE intro: client_step_inv ok_result [OF run_call_ok])
qed


section \<open>Lemmas for the properties\<close>

lemma reach_api_inv: "reach api_init (api_step os) s \<Longrightarrow> os_ok os \<Longrightarrow> api_inv s"
  using api.reach_inv by blast

lemma sim_os_ok: "os_ok sim_os"
  using sim_malloc_ok by (simp add: os_ok_def ioctl_keeps_def sim_os_def)

text \<open>A program with one context structure and one session structure, both not yet in use.\<close>

definition demo_start :: "sim api" where
  "demo_start = empty_api\<lparr>
     uctx := [0x500 \<mapsto> \<lparr>uc_fd = - 1, uc_ta_path = None, uc_session_list = [], uc_shrd_mem_list = []\<rparr>],
     sess := [0x600 \<mapsto> \<lparr>se_session_id = 0, se_service_id = zero_uuid, se_ops_cnt = 0, se_head = NULL, se_context = NULL\<rparr>],
     ushm := [0x700 \<mapsto> \<lparr>sm_buffer = NULL, sm_size = 64, sm_flags = TEEC_MEM_INOUT, sm_ops_cnt = 0,
                       sm_is_allocated = False, sm_context = NULL\<rparr>,
              0x800 \<mapsto> \<lparr>sm_buffer = NULL, sm_size = 32, sm_flags = TEEC_MEM_SHARED_INOUT, sm_ops_cnt = 0,
                       sm_is_allocated = False, sm_context = NULL\<rparr>]\<rparr>"

lemma demo_start_reach: "reach api_init (api_step sim_os) demo_start"
  by (rule reach.start) (simp add: api_init_def demo_start_def empty_api_def)

text \<open>The counter of requests to the driver, for counting the attempts of a retry loop.\<close>

definition counts_ioctl :: "'w os \<Rightarrow> ('w \<Rightarrow> nat) \<Rightarrow> bool" where
  "counts_ioctl os cnt \<longleftrightarrow>
     (\<forall>fd req cli w. cnt (snd (os_ioctl os fd req cli w)) = Suc (cnt w)) \<and> (\<forall>n w. cnt (os_usleep os n w) = cnt w)"

lemma open_retry_count:
  assumes "counts_ioctl os cnt" and "open_retry os fd n ret cli s = ((r, cli'), s')"
  shows "cnt (world s') \<le> cnt (world s) + n \<and>
    (CheckOpensessionRetryStatus (cc_code cli') \<and> 0 < n \<longrightarrow> cnt (world s') = cnt (world s) + n)"
  using assms(2)
proof (induction n arbitrary: ret cli s)
  case 0
  then show ?case by simp
next
  case (Suc n)
  obtain r1 c1 w1 where io: "os_ioctl os fd SES_OPEN_REQ (cli\<lparr>cc_code := 0, cc_origin := TEEC_ORIGIN_API\<rparr>) (world s) = ((r1, c1), w1)"
    by (metis surj_pair)
  have w1: "cnt w1 = Suc (cnt (world s))" "cnt (os_usleep os m w1) = Suc (cnt (world s))" for m
    using assms(1) io by (simp_all add: counts_ioctl_def) (metis snd_conv)+
  show ?case
  proof (cases "CheckOpensessionRetryStatus (cc_code c1)")
    case False
    then show ?thesis using Suc.prems w1 by (auto simp: do_ioctl_def io)
  next
    case True
    then have "open_retry os fd n r1 c1 (s\<lparr>world := os_usleep os RETRY_INTERVAL w1\<rparr>) = ((r, cli'), s')"
      using Suc.prems by (simp add: do_ioctl_def io)
    from Suc.IH [OF this] True Suc.prems w1 show ?thesis
      by (cases n) (auto simp: do_ioctl_def io)
  qed
qed

section \<open>An example\<close>

text \<open>
  In the concrete environment: a context is initialised, a block is mapped from the driver, and a
  second one comes from the heap.
\<close>

lemma sim_sel:
  "os_mutex_lock sim_os l w = (0, w)" "os_memset_s sim_os w = (0, w)" "os_memcpy_s sim_os w = (0, w)" "os_strncpy_s sim_os w = (0, w)"
  "os_malloc sim_os used n w = sim_page NULL used w" "os_mmap sim_os used k fd off w = sim_page MAP_FAILED used w"
  "os_munmap sim_os a k w = (0, w)" "os_close sim_os fd w = w\<lparr>sim_fds := removeAll fd (sim_fds w)\<rparr>"
  "os_socket sim_os w = sim_open w" "os_connect sim_os fd w = (0, w)" "os_sendmsg sim_os fd msg w = (1, w)"
  "os_recvmsg sim_os fd w = sim_recv w"
  by (simp_all add: sim_os_def)

lemmas call_defs = TEEC_InitializeContext_def TEEC_InitializeContextInner_def MutexLockContext_def MutexUnlockContext_def
  ContextCountLimitCheck_def PutBnContext_def AtomInc_def AtomDecAndCompareWithZero_def
  TEEC_AllocateSharedMemory_def TEEC_AllocateSharedMemoryInner_def MallocShrMemInner_def GetBnContext_def FindBnContext_def
  ptr_of_def CheckSharedMemoryParam_def GetAndSetBitWithLock_def shm_backing_def AllocateSharedMem_def malloc_buf_def
  link_shm_def PutBnShrMem_def pthread_mutex_lock_def pthread_mutex_unlock_def call_def Let_def zero_shm_def
  upd_ctx_def upd_shm_def upd_sess_def upd_uctx_def upd_ushm_def ctx_at_def shm_at_def sess_at_def uctx_at_def ushm_at_def
  sim_page_def live_def

definition demo1 :: "sim api" where
  "demo1 = demo_start\<lparr>ctxs := [0x10000 \<mapsto> zero_ctx\<lparr>ci_fd := 4, ci_ops_cnt := 1\<rparr>],
     uctx := [0x500 \<mapsto> \<lparr>uc_fd = 4, uc_ta_path = None, uc_session_list = [], uc_shrd_mem_list = []\<rparr>],
     ctx_list := [0x10000], world := \<lparr>sim_pages = 2, sim_next_fd = 2, sim_fds = [4]\<rparr>\<rparr>"

lemma connect_sim:
  assumes "world s = \<lparr>sim_pages = n, sim_next_fd = f, sim_fds = []\<rparr>" and "\<not> live s (0x10000 + 0x1000 * of_nat n)"
    and "0x10000 + 0x1000 * of_nat n \<noteq> NULL"
  shows "CaDaemonConnectWithoutCaInfo sim_os s =
    Some (int f + 2, s\<lparr>world := \<lparr>sim_pages = Suc n, sim_next_fd = f, sim_fds = [int f + 2]\<rparr>\<rparr>)"
proof -
  have n: "SLEEP_COUNT = Suc 49" by simp
  have one: "connect_retry sim_os SLEEP_COUNT (- 1, - 1) t = ((0, int f + 1), t\<lparr>world := \<lparr>sim_pages = n, sim_next_fd = f, sim_fds = [int f + 1]\<rparr>\<rparr>)"
    if "world t = \<lparr>sim_pages = n, sim_next_fd = f, sim_fds = []\<rparr>" for t :: "sim api"
    unfolding n connect_retry.simps by (simp add: ConnectTeecdSocket_def TeeSocket_def call_def sim_sel sim_open_def that Let_def)
  have b: "bufs s (0x10000 + 0x1000 * of_nat n) = None" using assms(2) by (simp add: live_def)
  then have "(bufs s)(0x10000 + 0x1000 * of_nat n := None) = bufs s" by auto
  then show ?thesis
    using assms b
    by (simp add: CaDaemonConnectWithoutCaInfo_def CaDaemonConnectWithCaInfo_def one
      RecvFileDescriptor_def FillMsgBuffer_def tee_close_def free_buf_def malloc_buf_def call_def sim_sel sim_page_def sim_recv_def
      sim_open_def Let_def)
qed

lemma demo_Initialize: "run_call sim_os (Initialize 0x500) demo_start = Some demo1"
  by (simp add: call_defs demo1_def demo_start_def empty_api_def sim_sel connect_sim [where n = 1 and f = 2] zero_ctx_def)


definition demo2 :: "sim api" where
  "demo2 = demo1\<lparr>
     ctxs := [0x10000 \<mapsto> zero_ctx\<lparr>ci_fd := 4, ci_ops_cnt := 1, ci_shrd_mem_list := [0x12000], ci_shm_bitmap := [1, 0, 0, 0, 0, 0, 0, 0]\<rparr>],
     shms := [0x12000 \<mapsto> \<lparr>si_buffer = 0x13000, si_size = 64, si_flags = TEEC_MEM_INOUT, si_ops_cnt = 1, si_is_allocated = True,
                 si_context = 0x10000, si_offset = 0\<rparr>],
     ushm := (ushm demo1)(0x700 \<mapsto> \<lparr>sm_buffer = 0x13000, sm_size = 64, sm_flags = TEEC_MEM_INOUT, sm_ops_cnt = 2,
                 sm_is_allocated = True, sm_context = 0x500\<rparr>),
     maps := [0x13000 \<mapsto> 64], world := \<lparr>sim_pages = 4, sim_next_fd = 2, sim_fds = [4]\<rparr>\<rparr>"

lemma bitmap_steps:
  "GetAndSetBit (Some [0, 0, 0, 0, 0, 0, 0, 0]) 8 = Some (0, Some [1, 0, 0, 0, 0, 0, 0, 0])"
  "GetAndSetBit (Some [1, 0, 0, 0, 0, 0, 0, 0]) 8 = Some (1, Some [3, 0, 0, 0, 0, 0, 0, 0])"
  by code_simp+

lemma bitmap_eval: "replicate NUM_OF_SHAREMEM_BITMAP x = [x, x, x, x, x, x, x, x]" "of_nat NUM_OF_SHAREMEM_BITMAP = (8 :: u32)"
 by (simp_all add: NUM_OF_SHAREMEM_BITMAP_def numeral_eq_Suc)

lemma demo_Allocate: "run_call sim_os (Allocate 0x500 0x700) demo1 = Some demo2"
  by (simp add: call_defs demo2_def demo1_def demo_start_def empty_api_def sim_sel zero_ctx_def bitmap_steps bitmap_eval uint32_of_def)

definition demo3 :: "sim api" where
  "demo3 = demo2\<lparr>
     ctxs := [0x10000 \<mapsto> zero_ctx\<lparr>ci_fd := 4, ci_ops_cnt := 1, ci_shrd_mem_list := [0x12000, 0x14000], ci_shm_bitmap := [3, 0, 0, 0, 0, 0, 0, 0]\<rparr>],
     shms := (shms demo2)(0x14000 \<mapsto> \<lparr>si_buffer = 0x15000, si_size = 32, si_flags = TEEC_MEM_SHARED_INOUT, si_ops_cnt = 1, si_is_allocated = True,
                 si_context = 0x10000, si_offset = 1\<rparr>),
     ushm := (ushm demo2)(0x800 \<mapsto> \<lparr>sm_buffer = 0x15000, sm_size = 32, sm_flags = TEEC_MEM_SHARED_INOUT, sm_ops_cnt = 2,
                 sm_is_allocated = True, sm_context = 0x500\<rparr>),
     bufs := [0x15000 \<mapsto> raw_block sim_os 0x15000 32], world := \<lparr>sim_pages = 6, sim_next_fd = 2, sim_fds = [4]\<rparr>\<rparr>"

lemma demo_Allocate_heap: "run_call sim_os (Allocate 0x500 0x800) demo2 = Some demo3"
  by (simp add: call_defs demo3_def demo2_def demo1_def demo_start_def empty_api_def sim_sel zero_ctx_def bitmap_steps bitmap_eval uint32_of_def)

lemma demo_reach:
  "reach api_init (api_step sim_os) demo1" "reach api_init (api_step sim_os) demo2" "reach api_init (api_step sim_os) demo3"
proof -
  have c: "caller_ok demo_start (Initialize 0x500)" "caller_ok demo1 (Allocate 0x500 0x700)" "caller_ok demo2 (Allocate 0x500 0x800)"
    by (simp_all add: caller_uctx_def caller_ushm_def uctx_at_def ushm_at_def demo2_def demo1_def demo_start_def)
  show 1: "reach api_init (api_step sim_os) demo1"
    by (rule reach.step [OF demo_start_reach api_step.call [OF c(1) demo_Initialize]])
  show 2: "reach api_init (api_step sim_os) demo2"
    by (rule reach.step [OF 1 api_step.call [OF c(2) demo_Allocate]])
  show "reach api_init (api_step sim_os) demo3"
    by (rule reach.step [OF 2 api_step.call [OF c(3) demo_Allocate_heap]])
qed

section \<open>Properties\<close>

text \<open>
  C1.  The library never runs into undefined behaviour.  From a fresh start, after any sequence of
  calls and of steps of the program on its own structures, and whatever the operating system and
  the driver answer, every further call whose pointers are valid returns: no null or dangling
  pointer is used, no array is left, no held mutex is taken again; when it returns all mutexes
  have been released.
\<close>

theorem api_calls_defined:
  assumes "reach api_init (api_step os) s" and "os_ok os" and "caller_ok s c"
  shows "\<exists>s'. run_call os c s = Some s' \<and> reach api_init (api_step os) s' \<and> held s' = {}"
proof -
  obtain s' where s': "run_call os c s = Some s'" "api_inv s'"
    using run_call_ok [OF reach_api_inv [OF assms(1,2)] assms(2,3)] by (auto simp: ok_iff)
  then have "reach api_init (api_step os) s'" using assms(1,3) by (blast intro: reach.step api_step.call)
  with s' show ?thesis by (auto simp: api_inv_def)
qed

theorem api_calls_defined_witness:
  "caller_ok demo_start (Initialize 0x500) \<and>
   (\<exists>s'. run_call sim_os (Initialize 0x500) demo_start = Some s' \<and> reach api_init (api_step sim_os) s' \<and> held s' = {})"
proof -
  have c: "caller_ok demo_start (Initialize 0x500)" by code_simp
  from c api_calls_defined [OF demo_start_reach sim_os_ok c] show ?thesis by blast
qed

text \<open>
  C2.  Reference counts are exact.  In every reachable state between calls at most 16 contexts are
  in the global list, without duplicates; each of them has the reference count 1, the one of
  the list, and a context outside the list (its teardown could not take a lock) has 0.
\<close>

theorem context_counts_exact:
  assumes "reach api_init (api_step os) s" and "os_ok os"
  shows "length (ctx_list s) \<le> 16 \<and> distinct (ctx_list s) \<and> (\<forall>c \<in> set (ctx_list s). ctxs s c \<noteq> None) \<and>
    (\<forall>c ci. ctxs s c = Some ci \<longrightarrow> ci_ops_cnt ci = (if c \<in> set (ctx_list s) then 1 else 0))"
proof -
  have inv: "api_inv s" by (rule reach_api_inv [OF assms])
  have "ci_ops_cnt ci = (if c \<in> set (ctx_list s) then 1 else 0)" if "ctxs s c = Some ci" for c ci
  proof (rule unsigned_word_eqI)
    show "unat (ci_ops_cnt ci) = unat (if c \<in> set (ctx_list s) then 1 else 0 :: u32)"
      using inv wf_ops_cnt [of no_holds s c ci] that by (simp add: api_inv_def)
  qed
  with inv show ?thesis by (auto simp: api_inv_def wf_api_def)
qed

theorem context_counts_exact_witness:
  "ctx_list demo3 = [0x10000] \<and> map_option ci_ops_cnt (ctxs demo3 0x10000) = Some 1"
  using context_counts_exact [OF demo_reach(3) sim_os_ok]
  by (auto simp: demo3_def demo2_def demo1_def)

text \<open>
  C3.  The lists of a context hold no dangling pointer and no duplicate: in every reachable state
  each session of the list of a context is a live structure linked into exactly that list, and
  each shared memory is a live structure that names this context.
\<close>

theorem lists_not_dangling:
  assumes "reach api_init (api_step os) s" and "os_ok os" and "ctxs s c = Some ci"
  shows "distinct (ci_session_list ci) \<and> distinct (ci_shrd_mem_list ci) \<and>
    (\<forall>a \<in> set (ci_session_list ci). \<exists>e. sess s a = Some e \<and> se_head e = c) \<and>
    (\<forall>a \<in> set (ci_shrd_mem_list ci). \<exists>m. shms s a = Some m \<and> si_context m = c \<and> si_ops_cnt m = 1)"
proof -
  have wf: "wf_api no_holds s" using reach_api_inv [OF assms(1,2)] by (simp add: api_inv_def)
  have "\<exists>e. sess s a = Some e \<and> se_head e = c" if "a \<in> set (ci_session_list ci)" for a
    by (rule wf_sess [OF wf assms(3) that]) auto
  moreover have "\<exists>m. shms s a = Some m \<and> si_context m = c \<and> si_ops_cnt m = 1" if "a \<in> set (ci_shrd_mem_list ci)" for a
    by (rule wf_shm [OF wf assms(3) that]) (auto simp: shm_inv_def)
  ultimately show ?thesis using wf_ctx [OF wf assms(3)] by (simp add: ctx_ok_def)
qed


theorem lists_not_dangling_witness:
  "\<exists>ci. ctxs demo3 0x10000 = Some ci \<and> ci_shrd_mem_list ci = [0x12000, 0x14000] \<and>
     (\<exists>m n. shms demo3 0x12000 = Some m \<and> si_context m = 0x10000 \<and> shms demo3 0x14000 = Some n \<and> si_context n = 0x10000)"
proof -
  obtain ci where ci: "ctxs demo3 0x10000 = Some ci" "ci_shrd_mem_list ci = [0x12000, 0x14000]"
    by (simp add: demo3_def zero_ctx_def)
  from lists_not_dangling [OF demo_reach(3) sim_os_ok ci(1)] ci show ?thesis by auto
qed

text \<open>
  C4.  Shared memory is never shared by accident: in every reachable state two different allocated
  blocks of one context have different slots below 64, so they map different pages of the
  driver, and no two blocks, of whatever contexts, have the same heap buffer.
\<close>

theorem blocks_disjoint:
  assumes "reach api_init (api_step os) s" and "os_ok os"
    and "ctxs s c = Some ci" and "a \<in> set (ci_shrd_mem_list ci)" and "shms s a = Some m" and "si_is_allocated m"
    and "ctxs s d = Some di" and "b \<in> set (ci_shrd_mem_list di)" and "shms s b = Some n" and "si_is_allocated n"
    and "a \<noteq> b"
  shows "(c = d \<longrightarrow> si_offset m \<noteq> si_offset n \<and> unat (si_offset m) < 64 \<and> unat (si_offset n) < 64) \<and>
    (si_flags m = TEEC_MEM_SHARED_INOUT \<and> si_flags n = TEEC_MEM_SHARED_INOUT \<and> si_buffer m \<noteq> NULL \<longrightarrow>
       si_buffer m \<noteq> si_buffer n)"
proof -
  have wf: "wf_api no_holds s" using reach_api_inv [OF assms(1,2)] by (simp add: api_inv_def)
  obtain m' where m: "shm_at s a = Some m'" "shms s a = Some m'" "shm_inv s c (ci_shm_bitmap ci) m'"
    by (rule wf_shm [OF wf assms(3,4)])
  obtain n' where n: "shm_at s b = Some n'" "shms s b = Some n'" "shm_inv s d (ci_shm_bitmap di) n'"
    by (rule wf_shm [OF wf assms(7,8)])
  have eq: "m' = m" "n' = n" using m(2) n(2) assms(5,9) by simp_all
  have bound: "slots (ci_shm_bitmap x) \<subseteq> {..<64}" if "ctxs s y = Some x" for x y
    using slots_bounded [of "ci_shm_bitmap x"] wf_ctx [OF wf that]
    by (simp add: ctx_ok_def shm_map_ok_def NUM_OF_SHAREMEM_BITMAP_def)
  have "unat (si_offset m) < 64" "unat (si_offset n) < 64"
    using m(3) n(3) assms(6,10) bound [OF assms(3)] bound [OF assms(7)] by (auto simp: shm_inv_def eq)
  moreover have "si_offset m \<noteq> si_offset n" if "c = d"
  proof -
    have "slots_inj s (ci_shrd_mem_list ci)" using wf_ctx [OF wf assms(3)] by (simp add: ctx_ok_def)
    moreover have "b \<in> set (ci_shrd_mem_list ci)" using that assms(3,7,8) by simp
    ultimately show ?thesis
      using assms(4,6,10,11) m(1) n(1) unfolding slots_inj_def by (force simp: shm_slot_def eq)
  qed
  moreover have "si_buffer m \<noteq> si_buffer n"
    if "si_flags m = TEEC_MEM_SHARED_INOUT" "si_flags n = TEEC_MEM_SHARED_INOUT" "si_buffer m \<noteq> NULL"
  proof
    assume same: "si_buffer m = si_buffer n"
    have "heap_inj s" using wf by (simp add: wf_api_def)
    moreover have "listed s a" "listed s b" using assms(3,4,7,8) by (auto simp: listed_def)
    moreover have "heap_block s a = Some (si_buffer m)" "heap_block s b = Some (si_buffer m)"
      using that same assms(6,10) m(1) n(1) by (simp_all add: heap_block_def eq)
    ultimately show False using assms(11) unfolding heap_inj_def by simp
  qed
  ultimately show ?thesis by blast
qed

theorem blocks_disjoint_witness:
  "\<exists>m n. shms demo3 0x12000 = Some m \<and> shms demo3 0x14000 = Some n \<and> si_offset m \<noteq> si_offset n"
proof -
  obtain ci where ci: "ctxs demo3 0x10000 = Some ci" "ci_shrd_mem_list ci = [0x12000, 0x14000]"
    by (simp add: demo3_def zero_ctx_def)
  obtain m n where mn: "shms demo3 0x12000 = Some m" "si_is_allocated m" "shms demo3 0x14000 = Some n" "si_is_allocated n"
    by (simp add: demo3_def demo2_def)
  have "si_offset m \<noteq> si_offset n"
    using blocks_disjoint [OF demo_reach(3) sim_os_ok ci(1) _ mn(1,2) ci(1) _ mn(3,4)] ci(2) by auto
  with mn show ?thesis by blast
qed

text \<open>
  C5.  A context lives exactly as long as a reference to it exists.  \<open>H\<close> counts the references
  held by calls in progress besides the one that is dropped: \<open>PutBnContext\<close> is defined, keeps the
  counts exact, reports true exactly if the dropped reference was the last one and the context is
  not in the global list any more, and then, unless a lock fails, has freed the context; in all
  other cases the context is still there.
\<close>

theorem PutBnContext_last_reference:
  assumes "wf_api (hold H c) s" and "c \<noteq> NULL" and "no_ctx_locks s"
  shows "\<exists>r s'. PutBnContext os c s = Some (r, s') \<and> wf_api H s' \<and> held s' = held s \<and>
    (r \<longleftrightarrow> c \<notin> set (ctx_list s) \<and> H c = 0) \<and>
    (if r then locks_ok os \<longrightarrow> ctxs s' c = None else ctxs s' c \<noteq> None)"
proof -
  have H: "(hold H c)(c := hold H c c - 1) = H" "hold H c c = Suc (H c)" using assms(2) by (simp_all add: hold_def)
  obtain r s' where s': "PutBnContext os c s = Some (r, s')" "wf_api H s'" "frame s s'"
      "r \<longleftrightarrow> c \<notin> set (ctx_list s) \<and> H c = 0" "r \<longrightarrow> locks_ok os \<longrightarrow> ctxs s' c = None"
    using PutBnContext_spec [OF assms(1) hold_pos [OF assms(2)] assms(3), of os, unfolded H(1), unfolded H(2)]
    by (elim okE) auto
  have "ctxs s' c \<noteq> None" if "\<not> r"
  proof -
    from that s'(3,4) have "c \<in> set (ctx_list s') \<or> 0 < H c" by (auto simp: frame_def)
    with s'(2) show ?thesis by (auto simp: wf_api_def)
  qed
  with s' show ?thesis by (auto simp: frame_def keeps_def)
qed

theorem PutBnContext_last_reference_witness:
  "\<exists>s r s'. PutBnContext sim_os 0x10000 (s :: sim api) = Some (r, s') \<and> r \<and> ctxs s' 0x10000 = None"
proof -
  have wf: "wf_api no_holds demo1" using reach_api_inv [OF demo_reach(1) sim_os_ok] by (simp add: api_inv_def)
  let ?s = "demo1\<lparr>ctx_list := remove1 0x10000 (ctx_list demo1)\<rparr>"
  have "wf_api (hold no_holds 0x10000) ?s" by (rule wf_unlist [OF wf]) (simp add: demo1_def)
  moreover have "no_ctx_locks ?s" by (simp add: no_ctx_locks_def demo1_def demo_start_def empty_api_def)
  moreover have "locks_ok sim_os" by (simp add: locks_ok_def sim_sel)
  ultimately obtain r s' where run: "PutBnContext sim_os 0x10000 ?s = Some (r, s')"
      "r \<longleftrightarrow> 0x10000 \<notin> set (ctx_list ?s)" "if r then ctxs s' 0x10000 = None else ctxs s' 0x10000 \<noteq> None"
    using PutBnContext_last_reference [of no_holds "0x10000" ?s sim_os] by auto
  moreover have "0x10000 \<notin> set (ctx_list ?s)" by (simp add: demo1_def)
  ultimately show ?thesis by (intro exI [of _ ?s] exI [of _ r] exI [of _ s']) simp
qed

text \<open>
  C22.  Opening a session is all or nothing.  Whatever the driver answers, \<open>TEEC_OpenSessionInner\<close>
  returns with the image of the trusted application freed, and if it reports success the
  session is in the list of its context.
\<close>

theorem open_session_registers:
  assumes "wf_api (hold H c) s" and "sess s a = Some e" and "a \<noteq> NULL" and "se_head e = NULL"
    and "no_ctx_locks s" and "caller_op s operation" and "os_ok os"
  shows "\<exists>r origin op' s'.
    TEEC_OpenSessionInner os pid ta c a dest meth cdata operation s = Some ((r, origin, op'), s') \<and>
    wf_api (hold H c) s' \<and> bufs s' = bufs s \<and> held s' = held s \<and>
    (r = TEEC_SUCCESS \<longrightarrow> (\<exists>ci. ctxs s' c = Some ci \<and> a \<in> set (ci_session_list ci)))"
  using OpenSessionInner_spec [OF assms(1-6), of os pid ta dest meth cdata] assms(7)
  by (auto simp: ok_iff os_ok_def opened_def frame_def keeps_def)

theorem open_session_registers_witness:
  "\<exists>s r origin op' s'. TEEC_OpenSessionInner sim_os 0 (Some \<lparr>taPath = None, taFp = NULL\<rparr>) 0x10000 0x600
     (Some zero_uuid) TEEC_LOGIN_IDENTIFY NULL None (s :: sim api) = Some ((r, origin, op'), s') \<and> bufs s' = bufs s"
proof -
  have wf: "wf_api no_holds demo1" using reach_api_inv [OF demo_reach(1) sim_os_ok] by (simp add: api_inv_def)
  obtain ci where ci: "ctxs demo1 0x10000 = Some ci" by (simp add: demo1_def)
  define s where "s = demo1\<lparr>ctxs := (ctxs demo1)(0x10000 \<mapsto> ci\<lparr>ci_ops_cnt := AtomInc (ci_ops_cnt ci)\<rparr>)\<rparr>"
  have wf1: "wf_api (hold no_holds 0x10000) s" using wf_inc [OF wf ci] by (simp add: s_def hold_def)
  obtain e where e: "sess s 0x600 = Some e" "se_head e = NULL" by (simp add: s_def demo1_def demo_start_def)
  have "no_ctx_locks s" "caller_op s None"
    by (simp_all add: s_def no_ctx_locks_def demo1_def demo_start_def empty_api_def caller_op_def)
  from open_session_registers [OF wf1 e(1) _ e(2) this sim_os_ok, of 0 "Some \<lparr>taPath = None, taFp = NULL\<rparr>" "Some zero_uuid"
    TEEC_LOGIN_IDENTIFY NULL] show ?thesis by fastforce
qed

text \<open>
  C23.  The retry loop of \<open>TEEC_DoOpenSession\<close> ends: it sends at most 200 requests to the driver, and
  it gives up with a retry status only after exactly 200.
\<close>

theorem open_retry_bounded:
  assumes "counts_ioctl os cnt"
    and "open_retry os fd (RETRY_TIMEOUT_LEN div RETRY_INTERVAL) 0 cli s = ((r, cli'), s')"
  shows "cnt (world s') \<le> cnt (world s) + 200 \<and>
    (CheckOpensessionRetryStatus (cc_code cli') \<longrightarrow> cnt (world s') = cnt (world s) + 200)"
  using open_retry_count [OF assms] by simp

definition busy_os :: "nat os" where
  "busy_os = \<lparr>os_mutex_lock = \<lambda>l w. (0, w), os_malloc = \<lambda>used n w. (NULL, w), os_fill = \<lambda>a i. 0, os_memset_s = \<lambda>w. (0, w),
     os_memcpy_s = \<lambda>w. (0, w), os_strncpy_s = \<lambda>w. (0, w), os_snprintf_s = \<lambda>n t w. ((int (length t), t), w),
     os_mmap = \<lambda>used n fd off w. (MAP_FAILED, w), os_munmap = \<lambda>a n w. (0, w), os_close = \<lambda>fd w. w,
     os_ioctl = \<lambda>fd req cli w. ((1, cli\<lparr>cc_code := TEE_ERROR_RETRY_OPEN_SESSION\<rparr>), Suc w),
     os_ioctl_load = \<lambda>fd arg w. (0, w), os_ioctl_register = \<lambda>fd i n w. ((0, 0x8000), w),
     os_ioctl_agent = \<lambda>fd req i w. (0, w), os_errno = \<lambda>w. 0, os_usleep = \<lambda>n w. w, os_nanosleep = \<lambda>n w. w,
     os_pagesize = 4096, os_realpath = \<lambda>p w. (None, w), os_fopen = \<lambda>p w. (NULL, w), os_fclose = \<lambda>fp w. w,
     os_fread = \<lambda>fp n w. ([], w), os_fseek = \<lambda>fp n k w. (0, w), os_ftell = \<lambda>fp w. (0, w),
     os_socket = \<lambda>w. (- 1, w), os_connect = \<lambda>fd w. (0, w), os_sendmsg = \<lambda>fd m w. (1, w),
     os_recvmsg = \<lambda>fd w. ((0, 0, []), w)\<rparr>"

theorem open_retry_bounded_witness:
  "\<exists>r cli' s'. open_retry busy_os 3 (RETRY_TIMEOUT_LEN div RETRY_INTERVAL) 0 zero_cli
     \<lparr>ctxs = Map.empty, shms = Map.empty, sess = Map.empty, uctx = Map.empty, ushm = Map.empty, bufs = Map.empty,
      maps = Map.empty, ctx_list = [], held = {}, world = 0\<rparr> = ((r, cli'), s') \<and> world s' \<le> 200"
proof -
  have c: "counts_ioctl busy_os (\<lambda>w. w)" by (simp add: counts_ioctl_def busy_os_def)
  obtain r cli' s' where run: "open_retry busy_os 3 (RETRY_TIMEOUT_LEN div RETRY_INTERVAL) 0 zero_cli
     \<lparr>ctxs = Map.empty, shms = Map.empty, sess = Map.empty, uctx = Map.empty, ushm = Map.empty, bufs = Map.empty,
      maps = Map.empty, ctx_list = [], held = {}, world = 0\<rparr> = ((r, cli'), s')"
    by (metis surj_pair)
  from open_retry_bounded [OF c run] run show ?thesis by auto
qed


text \<open>The functions before the request do not call the driver.\<close>

lemma lock_driver [simp]: "pthread_mutex_lock (os\<lparr>os_ioctl := g\<rparr>) l s = pthread_mutex_lock os l s"
  by (simp add: pthread_mutex_lock_def)

lemma GetBnContext_driver [simp]: "GetBnContext (os\<lparr>os_ioctl := g\<rparr>) c s = GetBnContext os c s"
  by (simp add: GetBnContext_def MutexLockContext_def)

lemma check_one_driver: "check_one (os\<lparr>os_ioctl := g\<rparr>) c t p s = check_one os c t p s"
  by (simp add: check_one_def TEEC_CheckMemRef_def CheckSharedBufferExist_def cong: if_cong)

lemma check_from_driver: "check_from (os\<lparr>os_ioctl := g\<rparr>) c op is s = check_from os c op is s"
  by (induction "is" arbitrary: s) (simp_all add: check_one_driver cong: if_cong)

lemma CheckOperation_driver [simp]: "TEEC_CheckOperation (os\<lparr>os_ioctl := g\<rparr>) c op s = TEEC_CheckOperation os c op s"
  by (simp add: TEEC_CheckOperation_def check_from_driver cong: if_cong option.case_cong)

lemma Encode_driver [simp]: "TEEC_Encode (os\<lparr>os_ioctl := g\<rparr>) cli se cmd lg op s = TEEC_Encode os cli se cmd lg op s"
  by (simp add: TEEC_Encode_def Let_def cong: if_cong)

text \<open>Neither do they change the session.\<close>

lemma lock_sess: "pthread_mutex_lock os l s = Some (r, s') \<Longrightarrow> sess s' = sess s"
  by (auto simp: pthread_mutex_lock_def split: prod.splits if_splits)

lemma unlock_sess: "pthread_mutex_unlock l s = Some s' \<Longrightarrow> sess s' = sess s"
  by (auto simp: pthread_mutex_unlock_def split: if_splits)

lemma GetBnContext_sess: "GetBnContext os c s = Some (r, s') \<Longrightarrow> sess s' = sess s"
  by (auto simp: GetBnContext_def MutexLockContext_def MutexUnlockContext_def upd_ctx_def bind_eq_Some_conv split: if_splits option.splits
      dest!: lock_sess unlock_sess)

lemma check_one_sess: "check_one os c t p s = Some (r, s') \<Longrightarrow> sess s' = sess s"
  by (auto simp: check_one_def TEEC_CheckMemRef_def CheckSharedBufferExist_def Let_def bind_eq_Some_conv split: if_splits
      dest!: lock_sess unlock_sess)

lemma check_from_sess: "check_from os c op is s = Some (r, s') \<Longrightarrow> sess s' = sess s"
  by (induction "is" arbitrary: s) (auto simp: bind_eq_Some_conv split: if_splits dest: check_one_sess)

lemma CheckOperation_sess: "TEEC_CheckOperation os c op s = Some (r, s') \<Longrightarrow> sess s' = sess s"
  by (auto simp: TEEC_CheckOperation_def split: if_splits option.splits dest: check_from_sess)

lemma Encode_request:
  assumes "TEEC_Encode os cli se cmd lg op s = Some ((TEEC_SUCCESS, cli', op'), s')"
  shows "\<exists>e. sess_at s se = Some e \<and> cc_cmd_id cli' = cmd \<and> cc_session_id cli' = se_session_id e \<and> cc_uuid cli' = uuid_bytes (se_service_id e)"
proof -
  obtain r1 w1 where 1: "os_memset_s os (world s) = (r1, w1)" by fastforce
  obtain r2 w2 where 2: "os_memcpy_s os w1 = (r2, w2)" by fastforce
  from assms 1 obtain e where e: "sess_at s se = Some e" "r1 = EOK"
    by (auto simp: TEEC_Encode_def Let_def bind_eq_Some_conv split: if_splits)
  then have "r2 = EOK" using assms 1 2 by (auto simp: TEEC_Encode_def Let_def split: if_splits)
  then show ?thesis using assms 1 2 e
    by (auto simp: TEEC_Encode_def TEEC_EncodeParam_def Let_def bind_eq_Some_conv split: if_splits option.splits)
qed

text \<open>What an answer of the driver becomes: the return code and the origin.\<close>

definition driver_code :: "int \<Rightarrow> int \<Rightarrow> TC_NS_ClientContext \<Rightarrow> TEEC_Result \<times> u32" where
  "driver_code rt e cli =
     (if rt = 0 then (TEEC_SUCCESS, cc_origin cli)
      else if rt < 0 then
        (if e = 14 then 0xFFFF0001 else if e = 12 then 0xFFFF000C else if e = 22 then 0xFFFF0006 else 0xFFFF0000, TEEC_ORIGIN_COMMS)
      else (if cc_code cli = 0 then 0xFFFF0000 else cc_code cli, cc_origin cli))"

lemma ProcessInvokeCommand_code:
  assumes "ProcessInvokeCommand os c cli s = Some ((r, cli'), s')" "ctx_at s c = Some ci"
    "os_ioctl os (ci_fd ci) SEND_CMD_REQ cli (world s) = ((rt, cli1), w1)"
  shows "(r, cc_origin cli') = driver_code rt (os_errno os w1) cli1"
  using assms by (auto simp: ProcessInvokeCommand_def do_ioctl_def driver_code_def TranslateRetValue_def split: if_splits)

lemma open_retry_failing:
  assumes "\<And>cli w. fst (fst (os_ioctl os fd SES_OPEN_REQ cli w)) = - 1"
  shows "n > 0 \<or> rt = - 1 \<Longrightarrow> fst (fst (open_retry os fd n rt cli s)) = - 1"
proof (induction n arbitrary: rt cli s)
  case (Suc n)
  obtain cli1 w1 where io: "os_ioctl os fd SES_OPEN_REQ (cli\<lparr>cc_code := 0, cc_origin := TEEC_ORIGIN_API\<rparr>) (world s) = ((- 1, cli1), w1)"
    using assms by (metis prod.collapse)
  have "fst (fst (open_retry os fd n (- 1) cli1 t)) = - 1" for t by (rule Suc.IH) simp
  then show ?case by (simp add: do_ioctl_def io)
qed simp

text \<open>
  C35.  What an answer of the driver becomes.  If a command can be invoked at all, then the call sends one request, with the
  command and the identifier and the service of the session, and for every driver the return code and its origin are determined by the
  answer to this request and the error number: 0 is success, a negative answer is translated by the error number (\<open>EFAULT\<close>,
  \<open>ENOMEM\<close>, \<open>EINVAL\<close> or any other), a positive one returns the code of the trusted application, or the generic error if
  there is none.  Opening a session is different: when \<open>ioctl\<close> fails with -1, the generic error is
  reported whatever the error number is.
\<close>

theorem driver_failure_codes:
  "(TEEC_InvokeCommand os session cmd op s = Some ((TEEC_SUCCESS, origin, op'), s') \<longrightarrow>
     (\<exists>e fd cli w. sess_at s session = Some e \<and> cc_cmd_id cli = cmd \<and> cc_session_id cli = se_session_id e \<and>
        cc_uuid cli = uuid_bytes (se_service_id e) \<and> fst (fst (os_ioctl os fd SEND_CMD_REQ cli w)) = 0 \<and>
        (\<forall>g r r_origin op1 s1 rt cli1 w1. TEEC_InvokeCommand (os\<lparr>os_ioctl := g\<rparr>) session cmd op s = Some ((r, r_origin, op1), s1) \<and>
           g fd SEND_CMD_REQ cli w = ((rt, cli1), w1) \<longrightarrow> (r, r_origin) = driver_code rt (os_errno os w1) cli1))) \<and>
   ((\<forall>cli w. fst (fst (os_ioctl os1 fd1 SES_OPEN_REQ cli w)) = - 1) \<and>
      TEEC_DoOpenSession os1 fd1 cli2 dest c a t = Some ((r2, cli3), t') \<longrightarrow>
    r2 = TEEC_ERROR_GENERIC \<and> cc_origin cli3 = TEEC_ORIGIN_COMMS)"
proof (intro conjI impI)
  assume "TEEC_InvokeCommand os session cmd op s = Some ((TEEC_SUCCESS, origin, op'), s')"
  then obtain e c2 s2 op2 s3 s4 s5 where e: "session \<noteq> NULL" "sess_at s session = Some e" "se_context e \<noteq> NULL"
    and g2: "GetBnContext os (se_context e) s = Some (c2, s2)"
    and inner: "TEEC_InvokeCommandInner os c2 session cmd op s2 = Some ((TEEC_SUCCESS, origin, op2), s3)"
    by (auto simp: TEEC_InvokeCommand_def bind_eq_Some_conv split: if_splits)
  from inner obtain s4 cli op3 s5 cli' s6 where c2: "c2 \<noteq> NULL" and chk: "TEEC_CheckOperation os c2 op s2 = Some (TEEC_SUCCESS, s4)"
    and enc: "TEEC_Encode os (zero_cli\<lparr>cc_origin := TEEC_ORIGIN_API\<rparr>) session cmd no_login op s4 = Some ((TEEC_SUCCESS, cli, op3), s5)"
    and pr: "ProcessInvokeCommand os c2 cli s5 = Some ((TEEC_SUCCESS, cli'), s6)"
    using e(1) by (auto simp: TEEC_InvokeCommandInner_def bind_eq_Some_conv split: if_splits)
  from pr obtain ci where ci: "ctx_at s5 c2 = Some ci" by (auto simp: ProcessInvokeCommand_def bind_eq_Some_conv)
  let ?fd = "ci_fd ci" and ?w = "world s5"
  obtain rt cli1 w1 where io: "os_ioctl os ?fd SEND_CMD_REQ cli ?w = ((rt, cli1), w1)" by (metis prod.collapse)
  have "(TEEC_SUCCESS, cc_origin cli') = driver_code rt (os_errno os w1) cli1" by (rule ProcessInvokeCommand_code [OF pr ci io])
  then have rt: "rt = 0"
    using io pr ci by (auto simp: driver_code_def ProcessInvokeCommand_def do_ioctl_def TranslateRetValue_def split: if_splits)
  have sess: "sess_at s4 session = Some e"
    using e(1,2) GetBnContext_sess [OF g2] CheckOperation_sess [OF chk] unfolding sess_at_def by simp
  have det: "(r, r_origin) = driver_code rt (os_errno os w1) cli1"
    if run: "TEEC_InvokeCommand (os\<lparr>os_ioctl := g\<rparr>) session cmd op s = Some ((r, r_origin, op1), s1)"
      "g ?fd SEND_CMD_REQ cli ?w = ((rt, cli1), w1)" for g r r_origin op1 s1 rt cli1 w1
  proof -
    from run(1) obtain cli9 s9 where p: "ProcessInvokeCommand (os\<lparr>os_ioctl := g\<rparr>) c2 cli s5 = Some ((r, cli9), s9)" "r_origin = cc_origin cli9"
      using e g2 c2 chk enc by (auto simp: TEEC_InvokeCommand_def TEEC_InvokeCommandInner_def bind_eq_Some_conv split: if_splits)
    show ?thesis using ProcessInvokeCommand_code [OF p(1) ci] run(2) p(2) by simp
  qed
  show "\<exists>e fd cli w. sess_at s session = Some e \<and> cc_cmd_id cli = cmd \<and> cc_session_id cli = se_session_id e \<and>
        cc_uuid cli = uuid_bytes (se_service_id e) \<and> fst (fst (os_ioctl os fd SEND_CMD_REQ cli w)) = 0 \<and>
        (\<forall>g r r_origin op1 s1 rt cli1 w1. TEEC_InvokeCommand (os\<lparr>os_ioctl := g\<rparr>) session cmd op s = Some ((r, r_origin, op1), s1) \<and>
           g fd SEND_CMD_REQ cli w = ((rt, cli1), w1) \<longrightarrow> (r, r_origin) = driver_code rt (os_errno os w1) cli1)"
    using Encode_request [OF enc] sess e(2) io rt det
    by (intro exI [of _ e] exI [of _ ?fd] exI [of _ cli] exI [of _ ?w]) auto
next
  assume f: "(\<forall>cli w. fst (fst (os_ioctl os1 fd1 SES_OPEN_REQ cli w)) = - 1) \<and>
      TEEC_DoOpenSession os1 fd1 cli2 dest c a t = Some ((r2, cli3), t')"
  have "fst (fst (open_retry os1 fd1 200 0 cli2 t)) = - 1" using f by (intro open_retry_failing) auto
  then obtain cli4 t4 where "open_retry os1 fd1 200 0 cli2 t = ((- 1, cli4), t4)" by (metis prod.collapse)
  moreover have n: "RETRY_TIMEOUT_LEN div RETRY_INTERVAL = 200" by simp
  ultimately have "((r2, cli3), t') = ((TEEC_ERROR_GENERIC, cli4\<lparr>cc_origin := TEEC_ORIGIN_COMMS\<rparr>), t4)"
    using f unfolding TEEC_DoOpenSession_def n by (auto simp: TranslateRetValue_def)
  then show "r2 = TEEC_ERROR_GENERIC" "cc_origin cli3 = TEEC_ORIGIN_COMMS" by simp_all
qed

text \<open>An open session of the initialised context, and a driver that has no memory left.\<close>

definition demo_session :: "sim api" where
  "demo_session = demo1\<lparr>sess := [0x600 \<mapsto> \<lparr>se_session_id = 7, se_service_id = zero_uuid, se_ops_cnt = 1, se_head = NULL, se_context = 0x500\<rparr>]\<rparr>"

abbreviation (input) "full_os \<equiv> sim_os\<lparr>os_errno := \<lambda>w. ENOMEM\<rparr>"
abbreviation (input) "failing \<equiv> \<lambda>fd req cli w. ((- 1, cli), w)"

lemmas invoke_defs = TEEC_InvokeCommand_def TEEC_InvokeCommandInner_def TEEC_CheckOperation_def TEEC_Encode_def
  ProcessInvokeCommand_def do_ioctl_def lock_there_def call_defs

lemma sim_ioctl: "os_ioctl sim_os fd req cli w = ((0, cli\<lparr>cc_session_id := 7\<rparr>), w)"
  by (simp add: sim_os_def)

lemma demo_invoke:
  "\<exists>s'. TEEC_InvokeCommand full_os 0x600 3 None demo_session = Some ((TEEC_SUCCESS, TEEC_ORIGIN_API, None), s')"
  "\<exists>r o1 op1 s1. TEEC_InvokeCommand (full_os\<lparr>os_ioctl := failing\<rparr>) 0x600 3 None demo_session = Some ((r, o1, op1), s1)"
  by (simp_all add: invoke_defs demo_session_def demo1_def demo_start_def empty_api_def sim_sel sim_ioctl zero_ctx_def)

theorem driver_failure_codes_witness:
  "\<exists>op1 s1. TEEC_InvokeCommand (full_os\<lparr>os_ioctl := failing\<rparr>) 0x600 3 None demo_session =
     Some ((TEEC_ERROR_OUT_OF_MEMORY, TEEC_ORIGIN_COMMS, op1), s1)"
proof -
  obtain s' where ok: "TEEC_InvokeCommand full_os 0x600 3 None demo_session = Some ((TEEC_SUCCESS, TEEC_ORIGIN_API, None), s')"
    using demo_invoke(1) by blast
  obtain r o1 op1 s1 where bad: "TEEC_InvokeCommand (full_os\<lparr>os_ioctl := failing\<rparr>) 0x600 3 None demo_session = Some ((r, o1, op1), s1)"
    using demo_invoke(2) by blast
  obtain fd cli w where det: "\<forall>g r r_origin op1 s1 rt cli1 w1.
      TEEC_InvokeCommand (full_os\<lparr>os_ioctl := g\<rparr>) 0x600 3 None demo_session = Some ((r, r_origin, op1), s1) \<and>
        g fd SEND_CMD_REQ cli w = ((rt, cli1), w1) \<longrightarrow> (r, r_origin) = driver_code rt (os_errno full_os w1) cli1"
    using mp [OF conjunct1 [OF driver_failure_codes] ok] by blast
  have "(r, o1) = driver_code (- 1) (os_errno full_os w) cli" using bad by (intro det [rule_format]) auto
  then have "r = TEEC_ERROR_OUT_OF_MEMORY" "o1 = TEEC_ORIGIN_COMMS" by (simp_all add: driver_code_def)
  with bad show ?thesis by blast
qed

end
