(* ===== verification/App_Image.thy ===== *)
theory App_Image
  imports App_Load
begin

text \<open>
  What \<open>TEEC_GetApp\<close> loads: the image that a file holds, as its header describes it.  The files are
  described by their contents, and streams by the file and the position they stand at.
\<close>

section \<open>Images\<close>

text \<open>
  The length of the image at the start of a file: the length of the content in the header and the size of the header,
  which depends on the version; an image has at most 8 MiB.
\<close>

definition fits :: "u32 \<Rightarrow> nat \<Rightarrow> nat option" where
  "fits contextLen headLen = (if unat contextLen + headLen \<le> 8 * 1024 * 1024 then Some (unat contextLen + headLen) else None)"

definition image_len :: "u8 list \<Rightarrow> nat option" where
  "image_len c =
     (let h = take 16 c in
      if length c < 16 then None
      else if le_field h 0 4 = TA_HEAD_MAGIC1 \<and> (le_field h 4 2 = TA_HEAD_MAGIC2 \<or> le_field h 4 2 = TA_OH_HEAD_MAGIC2) \<and> le_field h 6 2 > 1
      then if le_field h 6 2 \<ge> 3 then fits (le_field h 8 4) 16
           else if length c < 32 then None else fits (le_field (take 24 (drop 8 c)) 0 4) 48
      else if length c < 24 then None else fits (le_field (take 24 c) 0 4) 24)"

text \<open>The bytes of the image of a file.\<close>

definition image_of :: "u8 list \<Rightarrow> u8 list \<Rightarrow> bool" where
  "image_of c bs \<longleftrightarrow> bs \<noteq> [] \<and> image_len c = Some (length bs) \<and> bs = take (length bs) c"

section \<open>Contract of the files\<close>

text \<open>
  \<open>content p\<close> are the bytes of the file with the resolved path \<open>p\<close>, \<open>pos f\<close> the file and the position of a stream.  No call of the loader
  changes a file, and nobody else does meanwhile; a stream starts at the beginning of its file, \<open>fread\<close> delivers the bytes from the position on, maybe not
  all of them, and \<open>fseek\<close> sets the position.  A text that \<open>snprintf_s\<close> accepts is not cut.
\<close>

definition stdio_ok :: "'w os \<Rightarrow> (string \<Rightarrow> 'w \<Rightarrow> u8 list) \<Rightarrow> (addr \<Rightarrow> 'w \<Rightarrow> (string \<times> nat) option) \<Rightarrow> bool" where
  "stdio_ok os content pos \<longleftrightarrow>
     (\<forall>p w f w'. os_fopen os p w = (f, w') \<longrightarrow> same_content content w w' \<and> (f \<noteq> NULL \<longrightarrow> pos f w' = Some (p, 0))) \<and>
     (\<forall>f n w bs w' p k. os_fread os f n w = (bs, w') \<longrightarrow> pos f w = Some (p, k) \<longrightarrow>
        same_content content w w' \<and> pos f w' = Some (p, k + length bs) \<and> (\<exists>j \<le> n. bs = take j (drop k (content p w)))) \<and>
     (\<forall>f n w r w' p k. os_fseek os f n SEEK_SET w = (r, w') \<longrightarrow> pos f w = Some (p, k) \<longrightarrow>
        same_content content w w' \<and> (r = 0 \<longrightarrow> pos f w' = Some (p, n))) \<and>
     (\<forall>u n w a w'. os_malloc os u n w = (a, w') \<longrightarrow> same_content content w w' \<and> (\<forall>f. pos f w' = pos f w)) \<and>
     (\<forall>p w r w'. os_realpath os p w = (r, w') \<longrightarrow> same_content content w w') \<and>
     (\<forall>n t w r t' w'. os_snprintf_s os n t w = ((r, t'), w') \<longrightarrow> same_content content w w' \<and> (0 \<le> r \<longrightarrow> t' = t)) \<and>
     (\<forall>w r w'. os_memset_s os w = (r, w') \<longrightarrow> same_content content w w') \<and>
     (\<forall>f w. same_content content w (os_fclose os f w))"

text \<open>No call fails: there is memory beside the used one, every file can be opened, a text that is not too long is printed, and \<open>fread\<close> delivers what there is.\<close>

definition calls_succeed :: "(addr \<Rightarrow> bool) \<Rightarrow> 'w os \<Rightarrow> (string \<Rightarrow> 'w \<Rightarrow> u8 list) \<Rightarrow> (addr \<Rightarrow> 'w \<Rightarrow> (string \<times> nat) option) \<Rightarrow> bool" where
  "calls_succeed used os content pos \<longleftrightarrow>
     (\<forall>p w. fst (os_fopen os p w) \<noteq> NULL) \<and> (\<forall>n w. fst (os_malloc os used n w) \<noteq> NULL) \<and>
     (\<forall>f n w. fst (os_fseek os f n SEEK_SET w) = 0) \<and> (\<forall>n t w. length t \<le> n \<longrightarrow> 0 \<le> fst (fst (os_snprintf_s os n t w))) \<and>
     (\<forall>f n w p k. pos f w = Some (p, k) \<longrightarrow> fst (os_fread os f n w) = take n (drop k (content p w)))"

lemma stdioD:
  assumes "stdio_ok os content pos"
  shows "os_fopen os p w = (f, w') \<Longrightarrow> same_content content w w' \<and> (f \<noteq> NULL \<longrightarrow> pos f w' = Some (p, 0))"
    and "os_fread os f n w = (bs, w') \<Longrightarrow> pos f w = Some (p, k) \<Longrightarrow>
      same_content content w w' \<and> pos f w' = Some (p, k + length bs) \<and> (\<exists>j \<le> n. bs = take j (drop k (content p w)))"
    and "os_fseek os f n SEEK_SET w = (r, w') \<Longrightarrow> pos f w = Some (p, k) \<Longrightarrow>
      same_content content w w' \<and> (r = 0 \<longrightarrow> pos f w' = Some (p, n))"
    and "os_malloc os u n w = (a, w') \<Longrightarrow> same_content content w w' \<and> pos f w' = pos f w"
    and "os_realpath os p w = (q, w') \<Longrightarrow> same_content content w w'"
    and "os_snprintf_s os n t w = ((r, t'), w') \<Longrightarrow> same_content content w w' \<and> (0 \<le> r \<longrightarrow> t' = t)"
    and "os_memset_s os w = (r, w') \<Longrightarrow> same_content content w w'"
    and "same_content content w (os_fclose os f w)"
  using assms unfolding stdio_ok_def by (elim conjE, simp)+

section \<open>The length\<close>

lemma fread_struct_image:
  assumes std: "stdio_ok os content pos" and p: "pos fp (world s) = Some (p, k)" and run: "fread_struct os fp n s = (r, s')"
  shows "same_content content (world s) (world s')"
    and "r = Some bs \<Longrightarrow> bs = take n (drop k (content p (world s))) \<and> k + n \<le> length (content p (world s)) \<or> n = 0"
    and "r = Some bs \<Longrightarrow> pos fp (world s') = Some (p, k + n)"
    and "calls_succeed used os content pos \<Longrightarrow> k + n \<le> length (content p (world s)) \<Longrightarrow> r \<noteq> None"
proof -
  obtain xs w' where rd: "os_fread os fp n (world s) = (xs, w')" by fastforce
  from stdioD(2) [OF std rd p] obtain j where j: "same_content content (world s) w'" "pos fp w' = Some (p, k + length xs)"
    "j \<le> n" "xs = take j (drop k (content p (world s)))" by blast
  have r: "r = (if length xs = n then Some xs else None)" "world s' = w'"
    using run rd by (auto simp: fread_struct_def call_def split: if_splits)
  show "same_content content (world s) (world s')" using j r by simp
  show "bs = take n (drop k (content p (world s))) \<and> k + n \<le> length (content p (world s)) \<or> n = 0" if "r = Some bs"
    using take_full [OF j(4,3)] that r by (auto split: if_splits)
  show "pos fp (world s') = Some (p, k + n)" if "r = Some bs" using that r j(2) by (auto split: if_splits)
  assume "calls_succeed used os content pos" "k + n \<le> length (content p (world s))"
  then have "xs = take n (drop k (content p (world s)))" using rd p unfolding calls_succeed_def by (metis fst_conv)
  then show "r \<noteq> None" using r \<open>k + n \<le> _\<close> by auto
qed

lemma fits_check:
  assumes "h \<le> 48"
  shows "(c > MAX_IMAGE_LEN \<or> c + of_nat h > MAX_IMAGE_LEN) \<longleftrightarrow> fits c h = None"
    and "fits c h = Some n \<Longrightarrow> unat (c + of_nat h) = n"
proof -
  have h: "(of_nat h :: u32) \<le> 48" "unat (of_nat h :: u32) = h"
    using assms by (simp_all add: word_le_nat_alt unat_of_nat take_bit_nat_eq_self_iff)
  show "(c > MAX_IMAGE_LEN \<or> c + of_nat h > MAX_IMAGE_LEN) \<longleftrightarrow> fits c h = None"
  proof (cases "c > MAX_IMAGE_LEN")
    case True
    then show ?thesis by (simp add: fits_def word_less_nat_alt)
  next
    case False
    then have "unat (c + of_nat h) = unat c + h" using image_no_wrap [of c "of_nat h"] h by simp
    with False show ?thesis by (simp add: fits_def word_less_nat_alt)
  qed
  show "unat (c + of_nat h) = n" if "fits c h = Some n"
  proof -
    have "c \<le> MAX_IMAGE_LEN" using that by (simp add: fits_def word_le_nat_alt split: if_splits)
    from image_no_wrap [OF this h(1)] h(2) that show ?thesis by (simp add: fits_def split: if_splits)
  qed
qed

text \<open>What the result of a length means for an expected length \<open>l\<close>.\<close>

definition len_post :: "(addr \<Rightarrow> bool) \<Rightarrow> 'w os \<Rightarrow> (string \<Rightarrow> 'w \<Rightarrow> u8 list) \<Rightarrow> (addr \<Rightarrow> 'w \<Rightarrow> (string \<times> nat) option) \<Rightarrow> addr \<Rightarrow> string \<Rightarrow>
    'w \<Rightarrow> nat option \<Rightarrow> (int \<times> u32 option) \<times> 'w api \<Rightarrow> bool" where
  "len_post used os content pos fp p w l = (\<lambda>((ret, len), s').
     same_content content w (world s') \<and>
     (ret = 0 \<longrightarrow> map_option unat len = l \<and> l \<noteq> None \<and> pos fp (world s') = Some (p, 0)) \<and>
     (calls_succeed used os content pos \<and> l \<noteq> None \<longrightarrow> ret = 0))"

lemma len_post_fail: "same_content content w (world s') \<Longrightarrow> ret \<noteq> 0 \<Longrightarrow> (calls_succeed used os content pos \<Longrightarrow> l = None) \<Longrightarrow>
    len_post used os content pos fp p w l ((ret, len), s')"
  by (auto simp: len_post_def)

lemma check_lenth_image:
  assumes std: "stdio_ok os content pos" and p: "pos fp (world s) = Some (p, k)" and h: "h \<le> 48"
    and w: "same_content content w (world s)"
  shows "len_post used os content pos fp p w (fits c h) (check_lenth os fp c (c + of_nat h) s)"
proof -
  obtain r w' where sk: "os_fseek os fp 0 SEEK_SET (world s) = (r, w')" by fastforce
  note k = stdioD(3) [OF std sk p]
  have r0: "r = 0" if "calls_succeed used os content pos" using that sk unfolding calls_succeed_def by (metis fst_conv)
  show ?thesis
    using fits_check [OF h, of c] k r0 w same_content_trans [OF w] sk
    by (auto simp: check_lenth_def call_def len_post_def)
qed

lemma fseek_image:
  assumes std: "stdio_ok os content pos" and p: "pos fp (world s) = Some (p, k)" and run: "call (os_fseek os fp n SEEK_SET) s = (r, s')"
  shows "same_content content (world s) (world s') \<and> (r = 0 \<longrightarrow> pos fp (world s') = Some (p, n)) \<and>
    (calls_succeed used os content pos \<longrightarrow> r = 0)"
proof -
  obtain q w' where sk: "os_fseek os fp n SEEK_SET (world s) = (q, w')" by fastforce
  have "q = 0" if "calls_succeed used os content pos" using that sk unfolding calls_succeed_def by (metis fst_conv)
  with stdioD(3) [OF std sk p] run sk show ?thesis by (auto simp: call_def)
qed

text \<open>The header of the older versions: 24 bytes at position \<open>m\<close>, which is set before.\<close>

lemma old_head_image:
  assumes std: "stdio_ok os content pos" and p: "pos fp (world s) = Some (p, k)" and w: "same_content content w (world s)"
    and h: "h \<le> 48" and c: "content p w = c"
    and l_def: "l = (if length c < m + 24 then None else fits (le_field (take 24 (drop m c)) 0 4) h)"
  shows "len_post used os content pos fp p w l
    (let (r, s) = call (os_fseek os fp m SEEK_SET) s
     in if r \<noteq> 0 then ((- 1, None), s)
        else let (hd, s) = fread_struct os fp sizeof_TeecImageHead s
             in case hd of None \<Rightarrow> ((- 1, None), s)
                | Some bs \<Rightarrow> check_lenth os fp (le_field bs 0 4) (le_field bs 0 4 + of_nat h) s)"
proof -
  obtain r s1 where k: "call (os_fseek os fp m SEEK_SET) s = (r, s1)" by fastforce
  note sk = fseek_image [OF std p k]
  have w1: "same_content content w (world s1)" using same_content_trans [OF w] sk by blast
  show ?thesis
  proof (cases "r = 0")
    case False
    then show ?thesis using k sk w1 by (auto intro!: len_post_fail)
  next
    case True
    with sk have p1: "pos fp (world s1) = Some (p, m)" by simp
    obtain hd s2 where f: "fread_struct os fp 24 s1 = (hd, s2)" by fastforce
    note fs = fread_struct_image [OF std p1 f]
    have w2: "same_content content w (world s2)" using same_content_trans [OF w1] fs(1) by blast
    have c1: "content p (world s1) = c" using w1 c by (simp add: same_content_def)
    show ?thesis
    proof (cases hd)
      case None
      have "l = None" if "calls_succeed used os content pos" using fs(4) [OF that] None c1 by (auto simp: l_def)
      then show ?thesis using k True f None w2 by (auto intro!: len_post_fail)
    next
      case (Some bs)
      then have bs: "bs = take 24 (drop m c)" "\<not> length c < m + 24" "pos fp (world s2) = Some (p, m + 24)"
        using fs(2,3) c1 by auto
      have "len_post used os content pos fp p w l (check_lenth os fp (le_field bs 0 4) (le_field bs 0 4 + of_nat h) s2)"
        unfolding l_def using check_lenth_image [OF std bs(3) h w2, where c = "le_field bs 0 4"] bs(1,2) by simp
      then show ?thesis using k True f Some by simp
    qed
  qed
qed

lemma GetImageLenth_image:
  assumes std: "stdio_ok os content pos" and p: "pos fp (world s) = Some (p, 0)" and fp: "fp \<noteq> NULL"
  shows "len_post used os content pos fp p (world s) (image_len (content p (world s))) (TEEC_GetImageLenth os fp s)"
proof -
  let ?c = "content p (world s)"
  obtain hdr s1 where f: "fread_struct os fp 16 s = (hdr, s1)" by fastforce
  note fs = fread_struct_image [OF std p f]
  show ?thesis
  proof (cases hdr)
    case None
    have "image_len ?c = None" if "calls_succeed used os content pos" using fs(4) [OF that] None by (auto simp: image_len_def Let_def)
    then show ?thesis using f None fp fs(1) by (auto simp: TEEC_GetImageLenth_def GetTaVersion_def intro!: len_post_fail)
  next
    case (Some bs)
    then have bs: "bs = take 16 ?c" "\<not> length ?c < 16" and p1: "pos fp (world s1) = Some (p, 16)" using fs(2,3) by auto
    let ?new = "le_field bs 0 4 = TA_HEAD_MAGIC1 \<and> (le_field bs 4 2 = TA_HEAD_MAGIC2 \<or> le_field bs 4 2 = TA_OH_HEAD_MAGIC2) \<and> le_field bs 6 2 > 1"
    show ?thesis
    proof (cases "?new \<and> le_field bs 6 2 \<ge> 3")
      case True
      have "image_len ?c = fits (le_field bs 8 4) 16" using True bs by (simp add: image_len_def Let_def)
      moreover have "TEEC_GetImageLenth os fp s = check_lenth os fp (le_field bs 8 4) (le_field bs 8 4 + of_nat 16) s1"
        using True f Some fp by (simp add: TEEC_GetImageLenth_def GetTaVersion_def Let_def)
      ultimately show ?thesis using check_lenth_image [OF std p1 _ fs(1), where h = 16 and c = "le_field bs 8 4"] by simp
    next
      case False
      define m where "m = (if ?new then 8 else 0 :: nat)"
      define h where "h = (if ?new then 48 else 24 :: nat)"
      have l: "image_len ?c = (if length ?c < m + 24 then None else fits (le_field (take 24 (drop m ?c)) 0 4) h)"
        using False bs by (auto simp: image_len_def Let_def m_def h_def)
      have run: "TEEC_GetImageLenth os fp s =
        (let (r, s) = call (os_fseek os fp m SEEK_SET) s1
         in if r \<noteq> 0 then ((- 1, None), s)
            else let (hd, s) = fread_struct os fp sizeof_TeecImageHead s
                 in case hd of None \<Rightarrow> ((- 1, None), s)
                    | Some bs \<Rightarrow> check_lenth os fp (le_field bs 0 4) (le_field bs 0 4 + of_nat h) s)"
      proof -
        obtain r s2 where k: "call (os_fseek os fp m SEEK_SET) s1 = (r, s2)" by fastforce
        show ?thesis
        proof (cases ?new)
          case True
          with False have "\<not> le_field bs 6 2 \<ge> 3" "m = 8" "h = 48" by (auto simp: m_def h_def)
          with True f Some fp k show ?thesis
            by (cases "r = 0") (simp_all add: TEEC_GetImageLenth_def GetTaVersion_def Let_def split: prod.split option.split)
        next
          case old: False
          then have "m = 0" "h = 24" by (auto simp: m_def h_def)
          with old f Some fp k show ?thesis
            by (cases "r = 0") (simp_all add: TEEC_GetImageLenth_def GetTaVersion_def Let_def if_not_P split: prod.split option.split)
        qed
      qed
      show ?thesis unfolding run by (rule old_head_image [OF std p1 fs(1) _ refl l]) (simp add: h_def)
    qed
  qed
qed

section \<open>Loading\<close>

text \<open>A file that holds all of the image its header describes.\<close>

definition good_image :: "u8 list \<Rightarrow> bool" where
  "good_image c \<longleftrightarrow> (\<exists>n. image_len c = Some n \<and> 0 < n \<and> n \<le> length c)"

lemma DoReadApp_image:
  assumes mal: "malloc_ok os" and std: "stdio_ok os content pos" and p: "pos fp (world s) = Some (p, 0)" and fp: "fp \<noteq> NULL"
  shows "ok (TEEC_DoReadApp os fp cli s) (\<lambda>((r, cli'), s'). same_content content (world s) (world s') \<and>
    (r = 0 \<and> loaded_as (image_of (content p (world s))) cli s cli' s' \<or>
     r = - 1 \<and> cli' = cli \<and> same_mem s s' \<and>
       \<not> (calls_succeed (live s) os content pos \<and> good_image (content p (world s)))))"
proof -
  let ?c = "content p (world s)"
  obtain ret len s1 where l: "TEEC_GetImageLenth os fp s = ((ret, len), s1)" by (metis surj_pair)
  note spec = GetImageLenth_spec [OF l]
  have post: "same_content content (world s) (world s1)"
    "ret = 0 \<Longrightarrow> map_option unat len = image_len ?c \<and> image_len ?c \<noteq> None \<and> pos fp (world s1) = Some (p, 0)"
    "calls_succeed (live s) os content pos \<Longrightarrow> image_len ?c \<noteq> None \<Longrightarrow> ret = 0"
    using GetImageLenth_image [OF std p fp, of "live s"] l by (auto simp: len_post_def)
  show ?thesis
  proof (cases len)
    case None
    with l spec post show ?thesis by (auto simp: TEEC_DoReadApp_def good_image_def)
  next
    case (Some n)
    with spec have ret: "ret = 0" "n \<le> MAX_IMAGE_LEN" by auto
    have il: "image_len ?c = Some (unat n)" and p1: "pos fp (world s1) = Some (p, 0)" using post(2) [OF ret(1)] Some by auto
    obtain a s2 where m: "malloc_buf os (unat n) s1 = (a, s2)" by fastforce
    obtain bs w3 where rd: "os_fread os fp (unat n) (world s2) = (bs, w3)" by fastforce
    from spec obtain w1 where s1: "s1 = s\<lparr>world := w1\<rparr>" by (auto elim: same_memE)
    obtain a' w2 where mm: "os_malloc os (live s1) (unat n) (world s1) = (a', w2)" by fastforce
    have w2: "world s2 = w2" "a' = a" using m mm by (auto simp: malloc_buf_def call_def split: if_splits)
    note mk = stdioD(4) [OF std mm, of fp]
    have cw2: "same_content content (world s) w2" using same_content_trans [OF post(1)] mk by blast
    have p2: "pos fp (world s2) = Some (p, 0)" using mk p1 w2 by simp
    have c2: "content p (world s2) = ?c" using cw2 w2 by (simp add: same_content_def)
    from stdioD(2) [OF std rd p2] obtain j where j: "same_content content (world s2) w3" "j \<le> unat n" "bs = take j ?c"
      using c2 by auto
    have cw3: "same_content content (world s) w3" using same_content_trans [OF cw2] j(1) w2 by simp
    show ?thesis
    proof (cases "n = 0 \<or> a = NULL")
      case True
      have "a \<noteq> NULL" if "calls_succeed (live s) os content pos" using that mm w2(2) s1 unfolding calls_succeed_def by (metis fst_conv live_world)
      moreover have "same_mem s s2" if "a = NULL" by (rule malloc_bufE [OF mal m]) (use that s1 in auto)
      ultimately show ?thesis using True ret spec l Some m il cw2 w2 post(1) by (auto simp: TEEC_DoReadApp_def good_image_def)
    next
      case na: False
      from mal m obtain w where alloc: "\<not> live s1 a" "s2 = s1\<lparr>bufs := (bufs s1)(a \<mapsto> raw_block os a (unat n)), world := w\<rparr>"
        by (rule malloc_bufE) (use na in auto)
      have nz: "0 < unat n" using na by (simp add: unat_gt_0)
      have fresh: "bufs s a = None" using not_live_bufs [OF alloc(1)] s1 by simp
      let ?b = "take (unat n) bs @ drop (length bs) (raw_block os a (unat n))"
      have fr: "fread_buf os a (unat n) fp s2 = Some (min (unat n) (length bs), s\<lparr>bufs := (bufs s)(a \<mapsto> ?b), world := w3\<rparr>)"
        using fread_buf_raw [OF rd, of a "raw_block os a (unat n)"] alloc(2) s1 by simp
      have free: "free_buf a (s\<lparr>bufs := (bufs s)(a \<mapsto> ?b), world := w3\<rparr>) = Some (s\<lparr>world := w3\<rparr>)"
        by (rule free_buf_fresh) (use na fresh in simp_all)
      show ?thesis
      proof (cases "length bs = unat n")
        case True
        then have bs: "bs = take (unat n) ?c" using take_full [OF j(3,2)] by simp
        have "?b = bs" using True by simp
        moreover have "image_of ?c bs" using True bs il nz by (auto simp: image_of_def)
        ultimately have "loaded_as (image_of ?c) cli s (cli\<lparr>cc_file_size := n, cc_file_buffer := a\<rparr>) (s\<lparr>bufs := (bufs s)(a \<mapsto> ?b), world := w3\<rparr>)"
          using na fresh True by (intro loaded_asI) auto
        moreover have "\<not> n > MAX_IMAGE_LEN" using ret by simp
        ultimately show ?thesis using l Some ret na m fr True cw3 by (simp add: TEEC_DoReadApp_def)
      next
        case False
        then have short: "min (unat n) (length bs) \<noteq> unat n" using j by auto
        have "\<not> unat n \<le> length ?c" if "calls_succeed (live s) os content pos"
        proof
          assume "unat n \<le> length ?c"
          have "bs = take (unat n) (drop 0 (content p (world s2)))" using that rd p2 unfolding calls_succeed_def by (metis fst_conv)
          with c2 \<open>unat n \<le> length ?c\<close> False show False by simp
        qed
        then show ?thesis using l Some ret na m fr short free cw3 il by (auto simp: TEEC_DoReadApp_def good_image_def not_less)
      qed
    qed
  qed
qed


text \<open>
  The image of the file \<open>f\<close> is in a new buffer that the request names; \<open>w\<close> is the world in which the files are looked at.  A file is
  \<open>loadable\<close> if no call fails, its path is resolved and it holds an image.
\<close>

definition image_loaded :: "'w os \<Rightarrow> (string \<Rightarrow> 'w \<Rightarrow> u8 list) \<Rightarrow> 'w \<Rightarrow> string \<Rightarrow> TC_NS_ClientContext \<Rightarrow> 'w api \<Rightarrow> TC_NS_ClientContext \<Rightarrow> 'w api \<Rightarrow> bool" where
  "image_loaded os content w f cli s cli' s' \<longleftrightarrow>
     (\<exists>p v. fst (os_realpath os f v) = Some p \<and> loaded_as (image_of (content p w)) cli s cli' s')"

definition loadable :: "(addr \<Rightarrow> bool) \<Rightarrow> 'w os \<Rightarrow> (string \<Rightarrow> 'w \<Rightarrow> u8 list) \<Rightarrow> (addr \<Rightarrow> 'w \<Rightarrow> (string \<times> nat) option) \<Rightarrow> 'w \<Rightarrow> string \<Rightarrow> bool" where
  "loadable used os content pos w f \<longleftrightarrow>
     calls_succeed used os content pos \<and> (\<exists>p. (\<forall>v. fst (os_realpath os f v) = Some p) \<and> good_image (content p w))"

lemma image_loadedI: "fst (os_realpath os f v) = Some p \<Longrightarrow> loaded_as (image_of (content p w)) cli s cli' s' \<Longrightarrow> image_loaded os content w f cli s cli' s'"
  unfolding image_loaded_def by blast

lemma image_loaded_world [simp]:
  "image_loaded os content v f cli (s\<lparr>world := w\<rparr>) cli' s' = image_loaded os content v f cli s cli' s'"
  "image_loaded os content v f cli s cli' (s'\<lparr>world := w\<rparr>) = image_loaded os content v f cli s cli' s'"
  by (simp_all add: image_loaded_def)

lemma image_loaded_trans: "same_mem s s1 \<Longrightarrow> image_loaded os content w f cli s1 cli' s' \<Longrightarrow> image_loaded os content w f cli s cli' s'"
  by (auto elim!: same_memE)

text \<open>The outcome of one attempt; \<open>w\<close> is the world before it or one with the same files.\<close>

definition read_post :: "'w os \<Rightarrow> (string \<Rightarrow> 'w \<Rightarrow> u8 list) \<Rightarrow> (addr \<Rightarrow> 'w \<Rightarrow> (string \<times> nat) option) \<Rightarrow> 'w \<Rightarrow> string \<Rightarrow> bool \<Rightarrow>
    TC_NS_ClientContext \<Rightarrow> 'w api \<Rightarrow> (int \<times> TC_NS_ClientContext) \<times> 'w api \<Rightarrow> bool" where
  "read_post os content pos w f d cli s = (\<lambda>((r, cli'), s'). same_content content w (world s') \<and>
     (r = 0 \<and> image_loaded os content w f cli s cli' s' \<or>
      (r = - 1 \<or> r = 1 \<and> d \<and> (\<exists>v. fst (os_realpath os f v) = None)) \<and> cli' = cli \<and> same_mem s s' \<and> \<not> loadable (live s) os content pos w f))"

lemma ReadApp_image:
  assumes mal: "malloc_ok os" and std: "stdio_ok os content pos" and ta: "taFp ta = NULL" and w: "same_content content w (world s)"
  shows "ok (TEEC_ReadApp os ta f d cli s) (read_post os content pos w f d cli s)"
proof -
  obtain q w1 where q: "os_realpath os f (world s) = (q, w1)" by fastforce
  note w1 = same_content_trans [OF w stdioD(5) [OF std q]]
  show ?thesis
  proof (cases q)
    case None
    then have "\<not> loadable (live s) os content pos w f" using q by (auto simp: loadable_def) (metis fst_conv option.distinct(1))
    moreover have "\<exists>v. fst (os_realpath os f v) = None" using q None by (metis fst_conv)
    ultimately show ?thesis using ta q None w1 by (simp add: TEEC_ReadApp_def call_def read_post_def)
  next
    case (Some p)
    have rp: "fst (os_realpath os f (world s)) = Some p" using q Some by simp
    obtain fp w2 where o: "os_fopen os p w1 = (fp, w2)" by fastforce
    note fo = stdioD(1) [OF std o]
    have w2: "same_content content w w2" using same_content_trans [OF w1] fo by blast
    have cp: "content p w2 = content p w" using w2 by (simp add: same_content_def)
    show ?thesis
    proof (cases "fp = NULL")
      case True
      then have "\<not> calls_succeed (live s) os content pos" using o unfolding calls_succeed_def by (metis fst_conv)
      then show ?thesis using ta q Some o True w2 by (simp add: TEEC_ReadApp_def call_def read_post_def loadable_def)
    next
      case False
      with fo have "pos fp (world (s\<lparr>world := w2\<rparr>)) = Some (p, 0)" by simp
      note read = DoReadApp_image [OF mal std this False, of cli, simplified, unfolded cp]
      have "\<not> loadable (live s) os content pos w f" if "\<not> (calls_succeed (live s) os content pos \<and> good_image (content p w))"
        using that rp unfolding loadable_def by (metis option.inject)
      then have "ok (TEEC_DoReadApp os fp cli (s\<lparr>world := w2\<rparr>)) (\<lambda>(r, s'). read_post os content pos w f d cli s (r, s'\<lparr>world := os_fclose os fp (world s')\<rparr>))"
        by (intro ok_mono [OF read])
          (auto simp: read_post_def intro: image_loadedI [OF rp] same_content_trans [OF same_content_trans [OF w2] stdioD(8) [OF std]])
      then show ?thesis using ta q Some o False by (simp add: TEEC_ReadApp_def call_def split_def)
    qed
  qed
qed

text \<open>The files that \<open>TEEC_GetApp\<close> tries: the one the caller names, or the two default ones.\<close>

definition named :: "TaFileInfo \<Rightarrow> bool" where
  "named ta \<longleftrightarrow> (case taPath ta of None \<Rightarrow> False | Some path \<Rightarrow> length path < MAX_PATH_LEN \<and> strstr path ''.sec'' \<noteq> None)"

definition default_files :: "TEEC_UUID \<Rightarrow> string list" where
  "default_files u = map (\<lambda>dir. dir @ ''/'' @ uuid_name u @ ''.sec'') [TEE_FEIMA_DEFAULT_PATH, TEE_DEFAULT_PATH]"

definition app_files :: "TaFileInfo \<Rightarrow> TEEC_UUID \<Rightarrow> string list" where
  "app_files ta u = (if named ta then [the (taPath ta)] else default_files u)"

lemma uuid_name_length [simp]: "length (uuid_name u) = 36"
  by (simp add: uuid_name_def)

lemma snprintf_image:
  assumes "stdio_ok os content pos" "os_snprintf_s os n t w = ((r, t'), w')"
  shows "same_content content w w'" "0 \<le> r \<Longrightarrow> t' = t" "calls_succeed used os content pos \<Longrightarrow> length t \<le> n \<Longrightarrow> 0 \<le> r"
proof -
  show "same_content content w w'" "0 \<le> r \<Longrightarrow> t' = t" using stdioD(6) [OF assms] by simp_all
  show "0 \<le> r" if "calls_succeed used os content pos" "length t \<le> n"
    using that assms(2) unfolding calls_succeed_def by (metis fst_conv)
qed


text \<open>
  What \<open>TEEC_GetApp\<close> does with the list \<open>fs\<close> of files: it returns a number that is not negative and has loaded the image of one of them, or
  it has changed nothing and none of them was loadable; then it returns 0 for a file that the caller named and for a last file that does not exist.
\<close>

definition app_post :: "'w os \<Rightarrow> (string \<Rightarrow> 'w \<Rightarrow> u8 list) \<Rightarrow> (addr \<Rightarrow> 'w \<Rightarrow> (string \<times> nat) option) \<Rightarrow> string list \<Rightarrow> bool \<Rightarrow>
    TC_NS_ClientContext \<Rightarrow> 'w api \<Rightarrow> (int \<times> TC_NS_ClientContext) \<times> 'w api \<Rightarrow> bool" where
  "app_post os content pos fs nm cli s = (\<lambda>((r, cli'), s'). same_content content (world s) (world s') \<and>
     (0 \<le> r \<and> (\<exists>f \<in> set fs. image_loaded os content (world s) f cli s cli' s') \<or>
      (if nm then r = 0 else r = - 1 \<or> r = 0 \<and> (\<exists>v. fst (os_realpath os (last fs) v) = None)) \<and>
      cli' = cli \<and> same_mem s s' \<and> (\<forall>f \<in> set fs. \<not> loadable (live s) os content pos (world s) f)))"

lemma app_post_fail: "same_content content (world s) w \<Longrightarrow> \<not> calls_succeed (live s) os content pos \<Longrightarrow>
    app_post os content pos fs False cli s ((- 1, cli), s\<lparr>world := w\<rparr>)"
  by (simp add: app_post_def loadable_def)

lemma default_app_image:
  assumes mal: "malloc_ok os" and std: "stdio_ok os content pos" and ta: "taFp ta = NULL"
  shows "ok (default_app os ta u cli s) (app_post os content pos (default_files u) False cli s)"
proof -
  let ?W = "world s"
  define f1 where "f1 = TEE_FEIMA_DEFAULT_PATH @ ''/'' @ uuid_name u @ ''.sec''"
  define f2 where "f2 = TEE_DEFAULT_PATH @ ''/'' @ uuid_name u @ ''.sec''"
  have fs: "default_files u = [f1, f2]" by (simp add: default_files_def f1_def f2_def)
  have len: "length f1 = 73" "length f2 \<le> 73" by (simp_all add: f1_def f2_def)
  obtain r1 nm w1 where w1: "os_snprintf_s os 39 (uuid_name u) ?W = ((r1, nm), w1)" by (metis surj_pair)
  note p1 = snprintf_image [OF std w1]
  have n: "strnlen TEE_FEIMA_DEFAULT_PATH MAX_FILE_PATH_LEN + strnlen (uuid_name u) MAX_FILE_NAME_LEN + MAX_FILE_EXT_LEN = 74"
    by (simp add: strnlen_def)
  show ?thesis
  proof (cases "r1 < 0")
    case True
    then have "\<not> calls_succeed (live s) os content pos" using p1(3) by auto
    then show ?thesis using True w1 p1(1) by (simp add: default_app_def call_def app_post_fail)
  next
    case False
    then have nm: "nm = uuid_name u" using p1(2) by simp
    obtain r2 t w2 where w2: "os_snprintf_s os 74 f1 w1 = ((r2, t), w2)" by (metis surj_pair)
    note p2 = snprintf_image [OF std w2]
    have c2: "same_content content ?W w2" using same_content_trans [OF p1(1) p2(1)] .
    show ?thesis
    proof (cases "r2 < 0")
      case True
      then have "\<not> calls_succeed (live s) os content pos" using p2(3) len nm by auto
      then show ?thesis using True False w1 w2 nm c2
        by (simp add: default_app_def call_def app_post_fail n f1_def [symmetric] del: append_Cons append_Nil)
    next
      case r2: False
      then have t: "t = f1" using p2(2) by simp
      obtain rd cli1 s3 where rd: "TEEC_ReadApp os ta t True cli (s\<lparr>world := w2\<rparr>) = Some ((rd, cli1), s3)"
        and post1: "read_post os content pos ?W f1 True cli (s\<lparr>world := w2\<rparr>) ((rd, cli1), s3)"
        using ReadApp_image [OF mal std ta, of ?W "s\<lparr>world := w2\<rparr>" f1 True cli] c2 t by (auto simp: ok_iff)
      note run = default_app_def call_def w1 nm n f1_def [symmetric] f2_def [symmetric] w2 rd
      show ?thesis
      proof (cases "rd = 0")
        case True
        then show ?thesis using False r2 post1
          by (simp add: run app_post_def read_post_def fs del: append_Cons append_Nil)
      next
        case F: False
        then have p3: "same_content content ?W (world s3)" "cli1 = cli" "same_mem s s3" "\<not> loadable (live s) os content pos ?W f1"
          using post1 by (auto simp: read_post_def)
        obtain r4 w4 where w4: "os_memset_s os (world s3) = (r4, w4)" by fastforce
        obtain r5 t' w5 where w5: "os_snprintf_s os 74 f2 w4 = ((r5, t'), w5)" by (metis surj_pair)
        note p5 = snprintf_image [OF std w5]
        have c5: "same_content content ?W w5"
          using same_content_trans [OF same_content_trans [OF p3(1) stdioD(7) [OF std w4]] p5(1)] .
        obtain w3 where s3: "s3 = s\<lparr>world := w3\<rparr>" using p3(3) by (rule same_memE)
        show ?thesis
        proof (cases "r5 < 0")
          case True
          then have "\<not> calls_succeed (live s) os content pos" using p5(3) len nm by auto
          then show ?thesis using True False r2 F w4 w5 c5 p3 s3
            by (simp add: run app_post_fail del: append_Cons append_Nil)
        next
          case r5: False
          then have t': "t' = f2" using p5(2) by simp
          have "ok (TEEC_ReadApp os ta f2 True cli (s\<lparr>world := w5\<rparr>)) (read_post os content pos ?W f2 True cli (s\<lparr>world := w5\<rparr>))"
            by (rule ReadApp_image [OF mal std ta]) (use c5 in simp)
          then have "ok (TEEC_ReadApp os ta f2 True cli (s\<lparr>world := w5\<rparr>)) (\<lambda>((r, cli'), s').
              app_post os content pos [f1, f2] False cli s ((if r < 0 then - 1 else 0, cli'), s'))"
            by (rule ok_mono) (use p3(4) in \<open>auto simp: read_post_def app_post_def\<close>)
          then show ?thesis using False r2 F r5 w4 w5 p3 s3 t'
            by (auto simp: run fs simp del: append_Cons append_Nil elim!: ok_mono)
        qed
      qed
    qed
  qed
qed

lemma GetApp_image:
  assumes "malloc_ok os" "stdio_ok os content pos" "taFp ta = NULL"
  shows "ok (TEEC_GetApp os (Some ta) (Some u) cli s) (app_post os content pos (app_files ta u) (named ta) cli s)"
proof (cases "named ta")
  case True
  then obtain path where path: "taPath ta = Some path" "length path < MAX_PATH_LEN" "strstr path ''.sec'' \<noteq> None"
    by (auto simp: named_def split: option.splits)
  have "ok (TEEC_ReadApp os ta path False cli s) (read_post os content pos (world s) path False cli s)"
    by (rule ReadApp_image [OF assms]) simp
  with True path show ?thesis
    by (auto simp: TEEC_GetApp_def app_files_def read_post_def app_post_def elim!: ok_mono)
next
  case False
  then have "TEEC_GetApp os (Some ta) (Some u) cli s = default_app os ta u cli s"
    by (auto simp: TEEC_GetApp_def named_def split: option.splits)
  with default_app_image [OF assms] False show ?thesis by (simp add: app_files_def)
qed

section \<open>Property\<close>

text \<open>
  C34.  \<open>TEEC_GetApp\<close>, for a caller that gives no open stream, is defined whatever the files hold, and there are two outcomes.  It
  returns a number that is not negative, and a new buffer, which the request names with its size, holds the bytes of the image of a
  file that the caller named or that belongs to the UUID, as the header at the start of that file describes it.  Or the request and the memory are unchanged, and it
  returns \<open>- 1\<close>, or 0 for a file that the caller named or for a second default file that does not exist; then none of the files could be loaded: its path is not resolved, or it
  does not hold all of the image that its header describes, or that is larger than 8 MiB, or a call failed.
\<close>

theorem TEEC_GetApp_image:
  assumes "malloc_ok os" and "stdio_ok os content pos" and "taFp ta = NULL"
  shows "\<exists>r cli' s'. TEEC_GetApp os (Some ta) (Some u) cli s = Some ((r, cli'), s') \<and>
    (0 \<le> r \<and> (\<exists>f \<in> set (app_files ta u). \<exists>p v. fst (os_realpath os f v) = Some p \<and>
        loaded_as (image_of (content p (world s))) cli s cli' s') \<or>
     (if named ta then r = 0 else r = - 1 \<or> r = 0 \<and> (\<exists>v. fst (os_realpath os (last (app_files ta u)) v) = None)) \<and>
     cli' = cli \<and> same_mem s s' \<and> (\<forall>f \<in> set (app_files ta u). \<not> loadable (live s) os content pos (world s) f))"
  using GetApp_image [OF assms, of u cli s] unfolding ok_iff app_post_def image_loaded_def by fastforce

text \<open>
  An environment with one file, a version-3 image with 100 bytes of content; the world is the file that was opened
  last and the position in it.
\<close>

definition app_image :: "u8 list" where
  "app_image = [0x5A, 0x5A, 0xA5, 0xA5, 0xAA, 0x55, 3, 0, 100, 0, 0, 0, 1, 0, 0, 0] @ replicate 100 7"

definition app_file :: "string \<Rightarrow> string \<times> nat \<Rightarrow> u8 list" where
  "app_file p w = (if p = ''/data/app.sec'' then app_image else [])"

definition image_os :: "(string \<times> nat) os" where
  "image_os = \<lparr>
     os_mutex_lock = \<lambda>l w. (0, w),
     os_malloc = \<lambda>used n w. (if used 0x10000 then NULL else 0x10000, w),
     os_fill = \<lambda>a i. 0,
     os_memset_s = \<lambda>w. (0, w),
     os_memcpy_s = \<lambda>w. (0, w),
     os_strncpy_s = \<lambda>w. (0, w),
     os_snprintf_s = \<lambda>n t w. ((int (length t), t), w),
     os_mmap = \<lambda>used n fd off w. (MAP_FAILED, w),
     os_munmap = \<lambda>a n w. (0, w),
     os_close = \<lambda>fd w. w,
     os_ioctl = \<lambda>fd req cli w. ((0, cli), w),
     os_ioctl_load = \<lambda>fd arg w. (0, w),
     os_ioctl_register = \<lambda>fd i n w. ((0, 0x8000), w),
     os_ioctl_agent = \<lambda>fd req i w. (0, w),
     os_errno = \<lambda>w. 0,
     os_usleep = \<lambda>n w. w,
     os_nanosleep = \<lambda>n w. w,
     os_pagesize = 4096,
     os_realpath = \<lambda>p w. (Some p, w),
     os_fopen = \<lambda>p w. (0x77, (p, 0)),
     os_fclose = \<lambda>fp w. w,
     os_fread = \<lambda>fp n (p, k). let bs = take n (drop k (app_file p (p, k))) in (bs, (p, k + length bs)),
     os_fseek = \<lambda>fp n k (p, _). (0, (p, n)),
     os_ftell = \<lambda>fp (p, k). (int k, (p, k)),
     os_socket = \<lambda>w. (3, w),
     os_connect = \<lambda>fd w. (0, w),
     os_sendmsg = \<lambda>fd m w. (1, w),
     os_recvmsg = \<lambda>fd w. ((1, 0, []), w)\<rparr>"

definition image_api :: "(string \<times> nat) api" where
  "image_api = \<lparr>ctxs = Map.empty, shms = Map.empty, sess = Map.empty, uctx = Map.empty,
     ushm = Map.empty, bufs = Map.empty, maps = Map.empty, ctx_list = [], held = {}, world = ([], 0)\<rparr>"

abbreviation (input) "image_pos \<equiv> (\<lambda>(fp :: addr) (w :: string \<times> nat). Some w)"

lemma image_os_ok: "malloc_ok image_os" "stdio_ok image_os app_file image_pos"
  by (simp add: malloc_ok_def image_os_def)
    (auto simp: stdio_ok_def image_os_def same_content_def app_file_def Let_def split: prod.splits)

lemma app_image_len: "image_len app_image = Some 116"
proof -
  define h :: "u8 list" where "h = [0x5A, 0x5A, 0xA5, 0xA5, 0xAA, 0x55, 3, 0, 100, 0, 0, 0, 1, 0, 0, 0]"
  have h: "take 16 app_image = h" "length app_image = 116" by (simp_all add: app_image_def h_def)
  have "le_field h 0 4 = TA_HEAD_MAGIC1" "le_field h 4 2 = TA_HEAD_MAGIC2" "le_field h 6 2 = 3" "le_field h 8 4 = 100"
    unfolding h_def by code_simp+
  with h show ?thesis by (simp add: image_len_def fits_def)
qed

lemma image_os_loadable: "loadable (live image_api) image_os app_file image_pos (world image_api) ''/data/app.sec''"
proof -
  have "\<not> live image_api 0x10000" by (simp add: live_def image_api_def)
  then have "calls_succeed (live image_api) image_os app_file image_pos"
    by (auto simp: calls_succeed_def image_os_def app_file_def Let_def)
  moreover have "good_image app_image" using app_image_len by (simp add: good_image_def app_image_def)
  ultimately show ?thesis by (simp add: loadable_def image_os_def app_file_def)
qed

definition cli0 :: TC_NS_ClientContext where
  "cli0 = \<lparr>cc_uuid = replicate 16 0, cc_session_id = 0, cc_cmd_id = 2, cc_code = 0, cc_origin = 1,
     cc_login = \<lparr>lg_method = 7, lg_mdata = 0\<rparr>, cc_params = replicate 4 NoParam, cc_paramTypes = 0,
     cc_started = False, cc_callingPid = 0, cc_file_size = 0, cc_file_buffer = NULL\<rparr>"

theorem TEEC_GetApp_image_witness:
  "\<exists>r cli' s'. TEEC_GetApp image_os (Some \<lparr>taPath = Some ''/data/app.sec'', taFp = NULL\<rparr>)
     (Some \<lparr>timeLow = 1, timeMid = 2, timeHiAndVersion = 3, clockSeqAndNode = replicate 8 0\<rparr>)
     cli0 image_api = Some ((r, cli'), s') \<and> 0 \<le> r \<and> loaded_as (\<lambda>bs. bs = app_image) cli0 image_api cli' s'"
proof -
  have files: "app_files \<lparr>taPath = Some ''/data/app.sec'', taFp = NULL\<rparr> u = [''/data/app.sec'']" for u
    by (simp add: app_files_def named_def)
  have path: "fst (os_realpath image_os f v) = Some p \<longleftrightarrow> p = f" for f v p by (auto simp: image_os_def)
  have image: "image_of (app_file ''/data/app.sec'' w) = (\<lambda>bs. bs = app_image)" for w
    using app_image_len by (intro ext) (auto simp: image_of_def app_file_def app_image_def)
  show ?thesis
    using TEEC_GetApp_image [OF image_os_ok, of "\<lparr>taPath = Some ''/data/app.sec'', taFp = NULL\<rparr>"
      "\<lparr>timeLow = 1, timeMid = 2, timeHiAndVersion = 3, clockSeqAndNode = replicate 8 0\<rparr>" cli0 image_api]
    by (simp add: files path image image_os_loadable)
qed

end
