(* ===== verification/Fs_Types.thy ===== *)
theory Fs_Types
  imports C_String
begin

text \<open>
  Data of the file agent of \<open>teecd\<close> (\<open>src/services/teecd/src/fs_work_agent.c\<close> and
  \<open>include/fs_work_agent.h\<close>): the request buffer that is shared with the secure world, the list
  of open files, the global variables, and the operating system as a record of parameters.
  The build is the default one, without \<open>CONFIG_BACKUP_PARTITION\<close> and
  \<open>CONFIG_SMART_LOCK_PLATFORM\<close>.
\<close>

section \<open>Constants\<close>

abbreviation (input) "FILE_NAME_MAX_BUF \<equiv> (256 :: nat)"
abbreviation (input) "FILE_NUM_LIMIT_MAX \<equiv> (1024 :: nat)"
abbreviation (input) "PATH_MAX \<equiv> (4096 :: nat)"
abbreviation (input) "USER_PATH_SIZE \<equiv> (10 :: nat)"
abbreviation (input) "MAXBSIZE \<equiv> (65536 :: nat)"
abbreviation (input) "KBYTE \<equiv> (1024 :: u32)"
abbreviation (input) "TEE_OBJECT_STORAGE_CE \<equiv> (0x80000002 :: u32)"
abbreviation (input) "AGENT_FS_ID \<equiv> (0x46536673 :: u32)"
abbreviation (input) "SEC_WRITE_SSA \<equiv> (1 :: int)"
abbreviation (input) "F_OK \<equiv> (0 :: int)"
abbreviation (input) "SFS_DIR_PERM \<equiv> (0x1C0 :: u32)"
abbreviation (input) "SFS_FILE_PERM \<equiv> (0x180 :: u32)"
abbreviation (input) "EOK \<equiv> (0 :: int)"
abbreviation (input) "EPERM \<equiv> (1 :: u32)"
abbreviation (input) "ENOENT \<equiv> (2 :: int)"
abbreviation (input) "EBADF \<equiv> (9 :: u32)"
abbreviation (input) "ENOMEM \<equiv> (12 :: u32)"
abbreviation (input) "EACCES \<equiv> (13 :: int)"
abbreviation (input) "ENFILE \<equiv> (23 :: u32)"

text \<open>\<open>USER_DATA_DIR\<close> and \<open>ROOT_DIR\<close> are in \<open>include/standard/fs_work_agent_define.h\<close>.\<close>

abbreviation (input) "USER_DATA_DIR \<equiv> ''/data/service/el1/public/''"
abbreviation (input) "ROOT_DIR \<equiv> ''/''"
abbreviation (input) "SFS_PARTITION_PERSISTENT \<equiv> ''sec_storage/''"
abbreviation (input) "SFS_PARTITION_USER_SYMLINK \<equiv> ''sec_storage_data_users/''"
abbreviation (input) "SFS_PARTITION_TRANSIENT \<equiv> ''sec_storage_data/''"
abbreviation (input) "SFS_PARTITION_TRANSIENT_PRIVATE \<equiv> ''sec_storage_data/_private''"
abbreviation (input) "SFS_PARTITION_TRANSIENT_PERSO \<equiv> ''sec_storage_data/_perso''"
abbreviation (input) "SEC_STORAGE_ROOT_DIR \<equiv> ''/sec_storage/''"
abbreviation (input) "FILE_NAME_INVALID_STR \<equiv> ''../''"
abbreviation (input) "SEC_STORAGE_DATA_CE \<equiv> ''/data/service/el2/''"
abbreviation (input) "SEC_STORAGE_DATA_CE_SUFFIX_DIR \<equiv> ''/tee/sec_storage_data/''"

section \<open>Requests\<close>

text \<open>The commands; the field \<open>cmd\<close> of a request is the number of one, or any other number.\<close>

datatype FsCmdType =
    SEC_OPEN | SEC_CLOSE | SEC_READ | SEC_WRITE | SEC_SEEK | SEC_REMOVE | SEC_TRUNCATE | SEC_RENAME
  | SEC_CREATE | SEC_INFO | SEC_ACCESS | SEC_ACCESS2 | SEC_FSYNC | SEC_CP | SEC_DISKUSAGE | SEC_DELETE_ALL

definition FsCmds :: "FsCmdType list" where
  "FsCmds = [SEC_OPEN, SEC_CLOSE, SEC_READ, SEC_WRITE, SEC_SEEK, SEC_REMOVE, SEC_TRUNCATE, SEC_RENAME,
     SEC_CREATE, SEC_INFO, SEC_ACCESS, SEC_ACCESS2, SEC_FSYNC, SEC_CP, SEC_DISKUSAGE, SEC_DELETE_ALL]"

definition cmd_of :: "u32 \<Rightarrow> FsCmdType option" where
  "cmd_of w = (if unat w < length FsCmds then Some (FsCmds ! unat w) else None)"

text \<open>
  \<open>args\<close> are the bytes of the shared buffer from the union \<open>Args1\<close> to the end of the buffer: the
  members of the union overlap, and names and data run past their arrays of length one.
\<close>

record SecStorageType =
  cmd :: u32
  ret :: int
  ret2 :: int
  userId :: u32
  storageId :: u32
  magic :: u32
  error :: u32
  args :: "u8 list"

text \<open>Offsets of the members in \<open>Args1\<close>.\<close>

definition args_u32 :: "nat \<Rightarrow> SecStorageType \<Rightarrow> u32 option" where
  "args_u32 off tc = get_u32 (args tc) off"

definition args_i32 :: "nat \<Rightarrow> SecStorageType \<Rightarrow> int option" where
  "args_i32 off tc = map_option sint (get_u32 (args tc) off)"

definition args_str :: "nat \<Rightarrow> SecStorageType \<Rightarrow> string option" where
  "args_str off tc = cstr (args tc) off"

definition set_args_u32 :: "nat \<Rightarrow> u32 \<Rightarrow> SecStorageType \<Rightarrow> SecStorageType option" where
  "set_args_u32 off w tc = map_option (\<lambda>bs. tc\<lparr>args := bs\<rparr>) (put_u32 (args tc) off w)"

definition set_args_bytes :: "nat \<Rightarrow> u8 list \<Rightarrow> SecStorageType \<Rightarrow> SecStorageType option" where
  "set_args_bytes off xs tc = map_option (\<lambda>bs. tc\<lparr>args := bs\<rparr>) (put_bytes (args tc) off xs)"

abbreviation (input) "open_mode \<equiv> (0 :: nat)"
abbreviation (input) "open_name \<equiv> (8 :: nat)"
abbreviation (input) "file_fd \<equiv> (0 :: nat)"
abbreviation (input) "rw_count \<equiv> (4 :: nat)"
abbreviation (input) "rw_buffer \<equiv> (8 :: nat)"
abbreviation (input) "seek_offset \<equiv> (4 :: nat)"
abbreviation (input) "seek_whence \<equiv> (8 :: nat)"
abbreviation (input) "remove_name \<equiv> (4 :: nat)"
abbreviation (input) "truncate_len \<equiv> (0 :: nat)"
abbreviation (input) "truncate_name \<equiv> (8 :: nat)"
abbreviation (input) "first_len \<equiv> (0 :: nat)"
abbreviation (input) "two_names \<equiv> (8 :: nat)"
abbreviation (input) "info_curPos \<equiv> (4 :: nat)"
abbreviation (input) "info_fileLen \<equiv> (8 :: nat)"
abbreviation (input) "access_mode \<equiv> (0 :: nat)"
abbreviation (input) "access_name \<equiv> (8 :: nat)"
abbreviation (input) "du_secStorage \<equiv> (0 :: nat)"
abbreviation (input) "du_data \<equiv> (4 :: nat)"
abbreviation (input) "deleteAll_path \<equiv> (4 :: nat)"

section \<open>State and operating system\<close>

record OpenedFile =
  of_file :: addr
  of_next :: addr
  of_prev :: addr

record statfs =
  f_blocks :: u64
  f_bfree :: u64
  f_bsize :: u64

record filestat =
  st_size :: u64
  st_mode :: u32

datatype fs_req = FS_WAIT_EVENT | FS_SEND_EVENT_RESPONSE

text \<open>
  Each call gets the state of the world and returns a new one.  \<open>fopen\<close>, \<open>open\<close> and \<open>malloc\<close> are told which
  streams, descriptors and blocks are in use, \<open>fopen\<close> returns the stream and its descriptor.
  \<open>opendir\<close> returns the names that \<open>readdir\<close> will deliver, \<open>readdir\<close> is the effect of one call on the
  world.  \<open>read\<close> returns the bytes read, or \<open>None\<close> for a failure.  While the agent waits for an
  event the secure world may write a request into the buffer.
\<close>

record 'w posix =
  px_errno :: "'w \<Rightarrow> int"
  px_set_errno :: "int \<Rightarrow> 'w \<Rightarrow> 'w"
  px_malloc :: "(addr \<Rightarrow> bool) \<Rightarrow> nat \<Rightarrow> 'w \<Rightarrow> addr \<times> 'w"
  px_chmod :: "string \<Rightarrow> u32 \<Rightarrow> 'w \<Rightarrow> int \<times> 'w"
  px_access :: "string \<Rightarrow> int \<Rightarrow> 'w \<Rightarrow> int \<times> 'w"
  px_mkdir :: "string \<Rightarrow> u32 \<Rightarrow> 'w \<Rightarrow> int \<times> 'w"
  px_realpath :: "string \<Rightarrow> 'w \<Rightarrow> string option \<times> 'w"
  px_opendir :: "string \<Rightarrow> 'w \<Rightarrow> string list option \<times> 'w"
  px_readdir :: "'w \<Rightarrow> 'w"
  px_closedir :: "'w \<Rightarrow> int \<times> 'w"
  px_rmdir :: "string \<Rightarrow> 'w \<Rightarrow> int \<times> 'w"
  px_lstat :: "string \<Rightarrow> 'w \<Rightarrow> (int \<times> bool) \<times> 'w"
  px_stat :: "string \<Rightarrow> 'w \<Rightarrow> int \<times> 'w"
  px_unlink :: "string \<Rightarrow> 'w \<Rightarrow> int \<times> 'w"
  px_truncate :: "string \<Rightarrow> u32 \<Rightarrow> 'w \<Rightarrow> int \<times> 'w"
  px_rename :: "string \<Rightarrow> string \<Rightarrow> 'w \<Rightarrow> int \<times> 'w"
  px_fopen :: "(addr \<Rightarrow> bool) \<Rightarrow> (int \<Rightarrow> bool) \<Rightarrow> string \<Rightarrow> string \<Rightarrow> 'w \<Rightarrow> (addr \<times> int) \<times> 'w"
  px_fclose :: "addr \<Rightarrow> 'w \<Rightarrow> int \<times> 'w"
  px_fread :: "addr \<Rightarrow> nat \<Rightarrow> 'w \<Rightarrow> u8 list \<times> 'w"
  px_feof :: "addr \<Rightarrow> 'w \<Rightarrow> bool \<times> 'w"
  px_fwrite :: "addr \<Rightarrow> u8 list \<Rightarrow> 'w \<Rightarrow> nat \<times> 'w"
  px_fflush :: "addr \<Rightarrow> 'w \<Rightarrow> int \<times> 'w"
  px_fseek :: "addr \<Rightarrow> int \<Rightarrow> int \<Rightarrow> 'w \<Rightarrow> int \<times> 'w"
  px_ftell :: "addr \<Rightarrow> 'w \<Rightarrow> int \<times> 'w"
  px_open :: "(int \<Rightarrow> bool) \<Rightarrow> string \<Rightarrow> bool \<Rightarrow> u32 \<Rightarrow> 'w \<Rightarrow> int \<times> 'w"
  px_close :: "int \<Rightarrow> 'w \<Rightarrow> 'w"
  px_read :: "int \<Rightarrow> nat \<Rightarrow> 'w \<Rightarrow> u8 list option \<times> 'w"
  px_write :: "int \<Rightarrow> u8 list \<Rightarrow> 'w \<Rightarrow> int \<times> 'w"
  px_fsync :: "int \<Rightarrow> 'w \<Rightarrow> int \<times> 'w"
  px_fstat :: "int \<Rightarrow> 'w \<Rightarrow> (int \<times> filestat) \<times> 'w"
  px_statfs :: "string \<Rightarrow> 'w \<Rightarrow> (int \<times> statfs) \<times> 'w"
  px_getrlimit :: "'w \<Rightarrow> (int \<times> nat) \<times> 'w"
  px_setrlimit :: "nat \<Rightarrow> nat \<Rightarrow> 'w \<Rightarrow> int \<times> 'w"
  px_setpriority :: "'w \<Rightarrow> int \<times> 'w"
  px_event :: "int \<Rightarrow> fs_req \<Rightarrow> u32 \<Rightarrow> SecStorageType \<Rightarrow> 'w \<Rightarrow> (int \<times> SecStorageType) \<times> 'w"

text \<open>
  The global variables of the agent, its heap (list nodes and copy buffers), the open streams
  with their descriptors, the descriptors opened directly, and the world.
\<close>

record 'w fs =
  g_userId :: u32
  g_storageId :: u32
  g_firstFile :: addr
  nodes :: "addr \<rightharpoonup> OpenedFile"
  copybufs :: "addr set"
  streams :: "addr \<rightharpoonup> int"
  fds :: "int set"
  fworld :: 'w

definition fcall :: "('w \<Rightarrow> 'a \<times> 'w) \<Rightarrow> 'w fs \<Rightarrow> 'a \<times> 'w fs" where
  "fcall f s = (let (r, w) = f (fworld s) in (r, s\<lparr>fworld := w\<rparr>))"

definition errno :: "'w posix \<Rightarrow> 'w fs \<Rightarrow> int" where
  "errno px s = px_errno px (fworld s)"

definition used_mem :: "'w fs \<Rightarrow> addr \<Rightarrow> bool" where
  "used_mem s a \<longleftrightarrow> a \<in> dom (nodes s) \<or> a \<in> copybufs s"

definition used_fd :: "'w fs \<Rightarrow> int \<Rightarrow> bool" where
  "used_fd s d \<longleftrightarrow> d \<in> ran (streams s) \<or> d \<in> fds s"

definition node_at :: "'w fs \<Rightarrow> addr \<Rightarrow> OpenedFile option" where
  "node_at s a = (if a = NULL then None else nodes s a)"

definition upd_node :: "addr \<Rightarrow> (OpenedFile \<Rightarrow> OpenedFile) \<Rightarrow> 'w fs \<Rightarrow> 'w fs option" where
  "upd_node a f s = map_option (\<lambda>n. s\<lparr>nodes := (nodes s)(a \<mapsto> f n)\<rparr>) (node_at s a)"

text \<open>Using a stream that is not open is undefined behaviour.\<close>

definition fileno :: "'w fs \<Rightarrow> addr \<Rightarrow> int option" where
  "fileno s f = streams s f"

definition on_stream :: "addr \<Rightarrow> ('w \<Rightarrow> 'a \<times> 'w) \<Rightarrow> 'w fs \<Rightarrow> ('a \<times> 'w fs) option" where
  "on_stream f c s = (if streams s f = None then None else Some (fcall c s))"

text \<open>\<open>fclose\<close> ends the life of the stream whatever it returns (ISO C).\<close>

definition do_fclose :: "'w posix \<Rightarrow> addr \<Rightarrow> 'w fs \<Rightarrow> (int \<times> 'w fs) option" where
  "do_fclose px f s = do {
     (r, s) \<leftarrow> on_stream f (px_fclose px f) s;
     Some (r, s\<lparr>streams := (streams s)(f := None)\<rparr>)
   }"

definition do_fopen :: "'w posix \<Rightarrow> string \<Rightarrow> string \<Rightarrow> 'w fs \<Rightarrow> addr \<times> 'w fs" where
  "do_fopen px path mode s =
     (let ((f, fd), s) = fcall (px_fopen px (\<lambda>a. a \<in> dom (streams s)) (used_fd s) path mode) s
      in if f = NULL then (NULL, s) else (f, s\<lparr>streams := (streams s)(f \<mapsto> fd)\<rparr>))"

section \<open>Contract of the operating system\<close>

text \<open>\<open>malloc\<close>, \<open>fopen\<close> and \<open>open\<close> fail or return something that is not in use, with a descriptor of its own.\<close>

definition fresh_ok :: "('w, 'x) posix_scheme \<Rightarrow> bool" where
  "fresh_ok px \<longleftrightarrow>
     (\<forall>used n w. fst (px_malloc px used n w) = NULL \<or> \<not> used (fst (px_malloc px used n w))) \<and>
     (\<forall>used usedfd p m w. fst (fst (px_fopen px used usedfd p m w)) = NULL \<or>
        (\<not> used (fst (fst (px_fopen px used usedfd p m w))) \<and>
         \<not> usedfd (snd (fst (px_fopen px used usedfd p m w))) \<and> snd (fst (px_fopen px used usedfd p m w)) \<ge> 0)) \<and>
     (\<forall>usedfd p m md w. fst (px_open px usedfd p m md w) = - 1 \<or>
        (\<not> usedfd (fst (px_open px usedfd p m md w)) \<and> fst (px_open px usedfd p m md w) \<ge> 0))"

text \<open>\<open>fread\<close> delivers at most the number of bytes it was asked for.\<close>

definition fread_ok :: "('w, 'x) posix_scheme \<Rightarrow> bool" where
  "fread_ok px \<longleftrightarrow> (\<forall>f n w. length (fst (px_fread px f n w)) \<le> n)"

text \<open>A failing call leaves a positive error number.\<close>

definition errno_ok :: "'w posix \<Rightarrow> bool" where
  "errno_ok px \<longleftrightarrow>
     (\<forall>p w. fst (px_realpath px p w) = None \<longrightarrow> px_errno px (snd (px_realpath px p w)) \<in> {0<..<2 ^ 31}) \<and>
     (\<forall>u d p m w. fst (fst (px_fopen px u d p m w)) = NULL \<longrightarrow>
        px_errno px (snd (px_fopen px u d p m w)) \<in> {0<..<2 ^ 31})"

section \<open>Rules\<close>

lemma uint32_of_pos: "e \<in> {0<..<2 ^ 31} \<Longrightarrow> uint32_of e \<noteq> 0"
  by (auto simp: uint32_of_def word_of_int_eq_0_iff dvd_imp_le dest: zdvd_imp_le)

lemma fs_update_order [simp]:
  "s\<lparr>fworld := w, g_userId := x0\<rparr> = s\<lparr>g_userId := x0, fworld := w\<rparr>"
  "s\<lparr>fworld := w, g_storageId := x1\<rparr> = s\<lparr>g_storageId := x1, fworld := w\<rparr>"
  "s\<lparr>fworld := w, g_firstFile := x2\<rparr> = s\<lparr>g_firstFile := x2, fworld := w\<rparr>"
  "s\<lparr>fworld := w, nodes := x3\<rparr> = s\<lparr>nodes := x3, fworld := w\<rparr>"
  "s\<lparr>fworld := w, copybufs := x4\<rparr> = s\<lparr>copybufs := x4, fworld := w\<rparr>"
  "s\<lparr>fworld := w, streams := x5\<rparr> = s\<lparr>streams := x5, fworld := w\<rparr>"
  "s\<lparr>fworld := w, fds := x6\<rparr> = s\<lparr>fds := x6, fworld := w\<rparr>"
  "s\<lparr>nodes := x3, g_firstFile := x2\<rparr> = s\<lparr>g_firstFile := x2, nodes := x3\<rparr>"
  "s\<lparr>streams := x5, g_firstFile := x2\<rparr> = s\<lparr>g_firstFile := x2, streams := x5\<rparr>"
  "s\<lparr>streams := x5, nodes := x3\<rparr> = s\<lparr>nodes := x3, streams := x5\<rparr>"
  "s\<lparr>streams := x5, copybufs := x4\<rparr> = s\<lparr>copybufs := x4, streams := x5\<rparr>"
  "s\<lparr>fds := x6, copybufs := x4\<rparr> = s\<lparr>copybufs := x4, fds := x6\<rparr>"
  "s\<lparr>g_storageId := x1, g_userId := x0\<rparr> = s\<lparr>g_userId := x0, g_storageId := x1\<rparr>"
  by simp_all

lemma node_at_frame [simp]:
  "node_at (s\<lparr>g_userId := x0\<rparr>) = node_at s" "node_at (s\<lparr>g_storageId := x1\<rparr>) = node_at s"
  "node_at (s\<lparr>g_firstFile := x2\<rparr>) = node_at s" "node_at (s\<lparr>copybufs := x4\<rparr>) = node_at s"
  "node_at (s\<lparr>streams := x5\<rparr>) = node_at s" "node_at (s\<lparr>fds := x6\<rparr>) = node_at s"
  "node_at (s\<lparr>fworld := x7\<rparr>) = node_at s"
  "node_at (s\<lparr>nodes := m\<rparr>) a = (if a = NULL then None else m a)"
  by (simp_all add: node_at_def fun_eq_iff)

lemma fcall_pair: "fcall f s = (fst (f (fworld s)), s\<lparr>fworld := snd (f (fworld s))\<rparr>)"
  by (simp add: fcall_def case_prod_beta)

lemma fcallE:
  obtains r w where "fcall f s = (r, s\<lparr>fworld := w\<rparr>)" and "f (fworld s) = (r, w)"
  by (cases "f (fworld s)") (simp add: fcall_def)

lemma upd_node_at [simp]:
  "node_at s a = Some n \<Longrightarrow> upd_node a f s = Some (s\<lparr>nodes := (nodes s)(a \<mapsto> f n)\<rparr>)"
  by (simp add: upd_node_def)


text \<open>Two states that differ at most in the current user and storage and in the world.\<close>

definition same_files :: "'w fs \<Rightarrow> 'w fs \<Rightarrow> bool" where
  "same_files s s' \<longleftrightarrow> (\<exists>u t w. s' = s\<lparr>g_userId := u, g_storageId := t, fworld := w\<rparr>)"

lemma same_files_refl [simp]: "same_files s s"
  unfolding same_files_def by (rule exI [of _ "g_userId s"], rule exI [of _ "g_storageId s"], rule exI [of _ "fworld s"]) simp

lemma same_files_trans [trans]: "same_files s s' \<Longrightarrow> same_files s' s'' \<Longrightarrow> same_files s s''"
  by (auto simp: same_files_def) blast

lemma same_filesI [simp, intro]:
  "same_files s (s\<lparr>fworld := w\<rparr>)" "same_files s (s\<lparr>g_userId := u, g_storageId := t\<rparr>)" "same_files s (s\<lparr>g_userId := u\<rparr>)"
  "same_files s (s\<lparr>g_userId := u, fworld := w\<rparr>)" "same_files s (s\<lparr>g_userId := u, g_storageId := t, fworld := w\<rparr>)"
proof -
  have "s\<lparr>fworld := w\<rparr> = s\<lparr>g_userId := g_userId s, g_storageId := g_storageId s, fworld := w\<rparr>"
    "s\<lparr>g_userId := u, g_storageId := t\<rparr> = s\<lparr>g_userId := u, g_storageId := t, fworld := fworld s\<rparr>"
    "s\<lparr>g_userId := u\<rparr> = s\<lparr>g_userId := u, g_storageId := g_storageId s, fworld := fworld s\<rparr>"
    "s\<lparr>g_userId := u, fworld := w\<rparr> = s\<lparr>g_userId := u, g_storageId := g_storageId s, fworld := w\<rparr>" by simp_all
  then show "same_files s (s\<lparr>fworld := w\<rparr>)" "same_files s (s\<lparr>g_userId := u, g_storageId := t\<rparr>)"
    "same_files s (s\<lparr>g_userId := u\<rparr>)" "same_files s (s\<lparr>g_userId := u, fworld := w\<rparr>)"
    "same_files s (s\<lparr>g_userId := u, g_storageId := t, fworld := w\<rparr>)"
    unfolding same_files_def by blast+
qed

lemma same_files_call: "fcall f s = (r, s') \<Longrightarrow> same_files s s'"
  by (auto simp: fcall_def split: prod.splits)

lemma same_filesE:
  assumes "same_files s s'"
  obtains u t w where "s' = s\<lparr>g_userId := u, g_storageId := t, fworld := w\<rparr>"
  using assms by (auto simp: same_files_def)

lemma used_mem_world [simp]: "used_mem (s\<lparr>fworld := w\<rparr>) = used_mem s" "used_fd (s\<lparr>fworld := w\<rparr>) = used_fd s"
  by (simp_all add: used_mem_def used_fd_def fun_eq_iff)

end
