(* ===== verification/Fs_Path.thy ===== *)
theory Fs_Path
  imports Fs_Types
begin

text \<open>
  Path names of the file agent: checking a name, joining it to the directory of its partition,
  and deciding whether a path may be opened.  A buffer \<open>path\<close> is its content; the functions return
  the C result and the new content.
\<close>

section \<open>Definitions\<close>

function path_len :: "string \<Rightarrow> nat \<Rightarrow> nat \<Rightarrow> nat" where
  "path_len path pathLen i =
     (if i < pathLen \<and> i < length path then path_len path pathLen (i + 1) else i)"

  by pat_completeness auto
termination by (relation "measure (\<lambda>(path, pathLen, i). pathLen - i)") auto

declare path_len.simps [simp del]

definition CheckPathLen :: "string \<Rightarrow> nat \<Rightarrow> int" where
  "CheckPathLen path pathLen = (if path_len path pathLen 0 \<ge> pathLen then - 1 else 0)"

definition CheckFileNameAndPath :: "string option \<Rightarrow> bool \<Rightarrow> int" where
  "CheckFileNameAndPath name path_null =
     (case name of
        None \<Rightarrow> - 1
      | Some nm \<Rightarrow> if path_null then - 1 else if strstr nm FILE_NAME_INVALID_STR \<noteq> None then - 1 else 0)"

definition GetPathStorage :: "securec \<Rightarrow> string \<Rightarrow> nat \<Rightarrow> string \<Rightarrow> int \<times> string" where
  "GetPathStorage sc path pathLen env =
     (let defaultPath =
        (if strncmp0 env ''SFS_PARTITION_TRANSIENT'' (length ''SFS_PARTITION_TRANSIENT'') then Some USER_DATA_DIR
         else if strncmp0 env ''SFS_PARTITION_PERSISTENT'' (length ''SFS_PARTITION_PERSISTENT'') then Some ROOT_DIR
         else None)
      in case defaultPath of
           None \<Rightarrow> (- 1, path)
         | Some d \<Rightarrow>
             let (rc, path) = strncpy_s sc pathLen d (length d + 1)
             in if rc \<noteq> EOK then (- 1, path) else (0, path))"

definition GetTransientDir :: "securec \<Rightarrow> string \<Rightarrow> nat \<Rightarrow> int \<times> string" where
  "GetTransientDir sc path pathLen = GetPathStorage sc path pathLen ''SFS_PARTITION_TRANSIENT''"

definition GetPersistentDir :: "securec \<Rightarrow> string \<Rightarrow> nat \<Rightarrow> int \<times> string" where
  "GetPersistentDir sc path pathLen = GetPathStorage sc path pathLen ''SFS_PARTITION_PERSISTENT''"

definition JoinFileNameTransient :: "securec \<Rightarrow> u32 \<Rightarrow> string \<Rightarrow> string \<Rightarrow> nat \<Rightarrow> int \<times> string" where
  "JoinFileNameTransient sc uid name path pathLen =
     (let (r, path) = GetTransientDir sc path pathLen
      in if r \<noteq> 0 then (r, path)
         else if uid \<noteq> 0
         then let (rc, userPath) = snprintf_s sc USER_PATH_SIZE (USER_PATH_SIZE - 1) (dec_digits (unat uid) @ ''/'')
         in if rc = - 1 then (- 1, path)
            else let (rc, path) = strncat_s sc pathLen path SFS_PARTITION_USER_SYMLINK (length SFS_PARTITION_USER_SYMLINK)
            in if rc \<noteq> EOK then (- 1, path)
               else let (rc, path) = strncat_s sc pathLen path userPath (length userPath)
               in if rc \<noteq> EOK then (- 1, path)
                  else if length name \<le> length SFS_PARTITION_TRANSIENT then (- 1, path)
                  else let (rc, path) = strncat_s sc pathLen path (drop (length SFS_PARTITION_TRANSIENT) name)
                                          (length name - length SFS_PARTITION_TRANSIENT)
                  in if rc \<noteq> EOK then (- 1, path) else (0, path)
         else let (rc, path) = strncat_s sc pathLen path name (length name)
              in if rc \<noteq> EOK then (- 1, path) else (0, path))"

definition GetDefaultDir :: "securec \<Rightarrow> string \<Rightarrow> nat \<Rightarrow> int \<times> string" where
  "GetDefaultDir sc path pathLen =
     (let (r, path) = GetPersistentDir sc path pathLen
      in if r \<noteq> 0 then (r, path)
         else let (rc, path) = strncat_s sc pathLen path SFS_PARTITION_PERSISTENT (length SFS_PARTITION_PERSISTENT)
              in if rc \<noteq> EOK then (- 1, path) else (0, path))"

definition DoJoinFileName :: "securec \<Rightarrow> string \<Rightarrow> string \<Rightarrow> nat \<Rightarrow> int \<times> string" where
  "DoJoinFileName sc name path pathLen =
     (let (r, path) =
        (if strstr name SFS_PARTITION_TRANSIENT_PERSO = Some 0 \<or> strstr name SFS_PARTITION_TRANSIENT_PRIVATE = Some 0
         then GetTransientDir sc path pathLen
         else if strstr name SFS_PARTITION_PERSISTENT = Some 0 then GetPersistentDir sc path pathLen
         else if strstr name SEC_STORAGE_ROOT_DIR = Some 0 then (0, path)
         else GetDefaultDir sc path pathLen)
      in if r \<noteq> 0 then (- 1, path)
         else let (rc, path) = strncat_s sc pathLen path name (length name)
              in if rc \<noteq> EOK then (- 1, path) else (0, path))"

text \<open>
  \<open>temp\<close> holds 256 bytes: a name of exactly that length leaves no room for a NUL, and \<open>strtok_r\<close>
  would run past the array.
\<close>

definition JoinFileNameForStorageCE :: "securec \<Rightarrow> string \<Rightarrow> string \<Rightarrow> nat \<Rightarrow> (int \<times> string) option" where
  "JoinFileNameForStorageCE sc name path pathLen =
     (let (rc, temp) = memcpy_s sc FILE_NAME_MAX_BUF name
      in if rc \<noteq> EOK then Some (- 1, path)
         else if length temp \<ge> FILE_NAME_MAX_BUF then None
         else case strtok_slash temp of
           None \<Rightarrow> Some (- 1, path)
         | Some (idString, nameWithoutUserId) \<Rightarrow>
             let (rc, path) = strncpy_s sc pathLen SEC_STORAGE_DATA_CE (length SEC_STORAGE_DATA_CE + 1)
             in if rc \<noteq> EOK then Some (- 1, path)
                else let (rc, path) = strncat_s sc pathLen path idString (length idString)
                in if rc \<noteq> EOK then Some (- 1, path)
                   else let (rc, path) = strncat_s sc pathLen path SEC_STORAGE_DATA_CE_SUFFIX_DIR
                                           (length SEC_STORAGE_DATA_CE_SUFFIX_DIR + 1)
                   in if rc \<noteq> EOK then Some (- 1, path)
                      else do {
                        rest \<leftarrow> nameWithoutUserId;
                        let (rc, path) = strncat_s sc pathLen path rest (length rest);
                        Some (if rc \<noteq> EOK then - 1 else 0, path)
                      })"

text \<open>\<open>JoinFileName\<close> for the current user and storage; the agent never passes a null pointer.\<close>

definition JoinFileName :: "securec \<Rightarrow> u32 \<Rightarrow> u32 \<Rightarrow> string \<Rightarrow> string \<Rightarrow> nat \<Rightarrow> (int \<times> string) option" where
  "JoinFileName sc uid sid name path pathLen =
     (if CheckFileNameAndPath (Some name) False \<noteq> 0 then Some (- 1, path)
      else if sid = TEE_OBJECT_STORAGE_CE then JoinFileNameForStorageCE sc name path pathLen
      else if strstr name SFS_PARTITION_TRANSIENT = Some 0
      then Some (JoinFileNameTransient sc uid name path pathLen)
      else Some (DoJoinFileName sc name path pathLen))"

definition IsDataDir :: "securec \<Rightarrow> string \<Rightarrow> bool \<Rightarrow> bool" where
  "IsDataDir sc path isUsers =
     (let (r, secDataDir) = GetTransientDir sc [] FILE_NAME_MAX_BUF
      in if r \<noteq> 0 then False
         else let (rc, secDataDir) =
                (if isUsers
                 then strncat_s sc FILE_NAME_MAX_BUF secDataDir SFS_PARTITION_USER_SYMLINK (length SFS_PARTITION_USER_SYMLINK)
                 else strncat_s sc FILE_NAME_MAX_BUF secDataDir SFS_PARTITION_TRANSIENT (length SFS_PARTITION_TRANSIENT))
              in if rc \<noteq> EOK then False else strstr path secDataDir = Some 0)"

definition IsRootDir :: "securec \<Rightarrow> string \<Rightarrow> bool" where
  "IsRootDir sc path =
     (let (r, secRootDir) = GetPersistentDir sc [] FILE_NAME_MAX_BUF
      in if r \<noteq> 0 then False
         else let (rc, secRootDir) =
                strncat_s sc FILE_NAME_MAX_BUF secRootDir SFS_PARTITION_PERSISTENT (length SFS_PARTITION_PERSISTENT)
              in if rc \<noteq> EOK then False else strstr path secRootDir = Some 0)"

definition IsValidFilePath :: "securec \<Rightarrow> string \<Rightarrow> bool" where
  "IsValidFilePath sc path \<longleftrightarrow>
     IsDataDir sc path False \<or> IsDataDir sc path True \<or> IsRootDir sc path \<or> strstr path SEC_STORAGE_DATA_CE = Some 0"

definition GetRealFilePath ::
  "securec \<Rightarrow> 'w posix \<Rightarrow> string \<Rightarrow> nat \<Rightarrow> 'w fs \<Rightarrow> (u32 \<times> string) \<times> 'w fs" where
  "GetRealFilePath sc px originPath tPathLen s =
     (let (retPath, s) = fcall (px_realpath px originPath) s
      in case retPath of
           None \<Rightarrow>
             if errno px s \<noteq> ENOENT \<and> errno px s \<noteq> EACCES then ((uint32_of (errno px s), []), s)
             else if \<not> IsValidFilePath sc originPath then ((ENFILE, []), s)
             else let (rc, trustPath) = strncpy_s sc tPathLen originPath (length originPath)
                  in if rc \<noteq> EOK then ((EPERM, trustPath), s) else ((0, trustPath), s)
         | Some trustPath \<Rightarrow>
             if \<not> IsValidFilePath sc trustPath then ((ENFILE, trustPath), s) else ((0, trustPath), s))"

section \<open>Reference definitions\<close>

text \<open>The directories in which the agent may open files.\<close>

definition storage_roots :: "string list" where
  "storage_roots =
     [''/data/service/el1/public/sec_storage_data/'', ''/data/service/el1/public/sec_storage_data_users/'',
      ''/sec_storage/'', ''/data/service/el2/'']"

text \<open>The name in its partition, as a function of the user, the storage and the name alone.\<close>

definition joined :: "u32 \<Rightarrow> u32 \<Rightarrow> string \<Rightarrow> string" where
  "joined uid sid name =
     (if sid = TEE_OBJECT_STORAGE_CE
      then let t = dropWhile (\<lambda>c. c = CHR ''/'') name; u = takeWhile (\<lambda>c. c \<noteq> CHR ''/'') t
           in SEC_STORAGE_DATA_CE @ u @ SEC_STORAGE_DATA_CE_SUFFIX_DIR @ drop (length u + 1) t
      else if prefix SFS_PARTITION_TRANSIENT name
      then (if uid = 0 then USER_DATA_DIR @ name
            else USER_DATA_DIR @ SFS_PARTITION_USER_SYMLINK @ dec_digits (unat uid) @ ''/'' @
                 drop (length SFS_PARTITION_TRANSIENT) name)
      else if prefix SFS_PARTITION_PERSISTENT name then ROOT_DIR @ name
      else if prefix SEC_STORAGE_ROOT_DIR name then name
      else SEC_STORAGE_ROOT_DIR @ name)"

text \<open>When the name fits the rules of its partition.\<close>

definition joinable :: "u32 \<Rightarrow> u32 \<Rightarrow> string \<Rightarrow> bool" where
  "joinable uid sid name \<longleftrightarrow>
     \<not> sublist ''../'' name \<and> length (joined uid sid name) < 256 \<and>
     (if sid = TEE_OBJECT_STORAGE_CE
      then length name < 256 \<and> CHR ''/'' \<in> set (dropWhile (\<lambda>c. c = CHR ''/'') name)
      else prefix SFS_PARTITION_TRANSIENT name \<and> uid \<noteq> 0 \<longrightarrow>
           unat uid < 10 ^ 8 \<and> name \<noteq> SFS_PARTITION_TRANSIENT)"

section \<open>Rules\<close>

lemma path_len_eq: "i \<le> length path \<Longrightarrow> i \<le> pathLen \<Longrightarrow> path_len path pathLen i = min pathLen (length path)"
  by (induction path pathLen i rule: path_len.induct) (subst path_len.simps, auto)

lemma CheckPathLen_iff: "CheckPathLen path n = 0 \<longleftrightarrow> length path < n"
  by (auto simp: CheckPathLen_def path_len_eq)

lemma GetTransientDir_ok:
  "securec_ok sc \<Longrightarrow> n \<ge> 256 \<Longrightarrow> GetTransientDir sc p n = (0, USER_DATA_DIR)"
  using strncpy_s_ok(1) [of sc n USER_DATA_DIR "length USER_DATA_DIR + 1" USER_DATA_DIR]
  by (simp add: GetTransientDir_def GetPathStorage_def strncmp0_def)

lemma GetPersistentDir_ok:
  "securec_ok sc \<Longrightarrow> n \<ge> 256 \<Longrightarrow> GetPersistentDir sc p n = (0, ROOT_DIR)"
  using strncpy_s_ok(1) [of sc n ROOT_DIR "length ROOT_DIR + 1" ROOT_DIR]
  by (simp add: GetPersistentDir_def GetPathStorage_def strncmp0_def)

lemma strncat_eval:
  "securec_ok sc \<Longrightarrow> length d + length t < n \<Longrightarrow> length t \<le> k \<Longrightarrow> strncat_s sc n d t k = (0, d @ t)"
  by (subst strncat_s_ok) auto

lemma GetDefaultDir_ok:
  "securec_ok sc \<Longrightarrow> n \<ge> 256 \<Longrightarrow> GetDefaultDir sc p n = (0, SEC_STORAGE_ROOT_DIR)"
  by (simp add: GetDefaultDir_def GetPersistentDir_ok strncat_eval)

lemma strncat_cases:
  assumes "securec_ok sc" and "length t \<le> k"
  obtains "length d + length t < n" and "strncat_s sc n d t k = (0, d @ t)"
  | rc r where "length d + length t \<ge> n" and "strncat_s sc n d t k = (rc, r)" and "rc \<noteq> 0"
proof (cases "length d + length t < n")
  case True
  then show ?thesis using that(1) assms by (simp add: strncat_eval)
next
  case False
  obtain rc r where e: "strncat_s sc n d t k = (rc, r)" by fastforce
  moreover have "rc \<noteq> 0" using strncat_s_ok(2) [OF assms(1), of n d t k] assms(2) False e by auto
  ultimately show ?thesis using that(2) False by auto
qed

lemma strncat_last:
  assumes "securec_ok sc"
  shows "(let (rc, path) = strncat_s sc n d t (length t) in if rc \<noteq> 0 then (- 1 :: int, path) else (0, path)) = (0, p) \<longleftrightarrow>
    length (d @ t) < n \<and> p = d @ t"
  by (rule strncat_cases [OF assms order_refl, of d t n]) auto

text \<open>Every path the join functions produce, for a buffer of at least 256 bytes.\<close>

lemma DoJoinFileName_iff:
  assumes "securec_ok sc" and "n \<ge> 256"
    and "prefix SFS_PARTITION_TRANSIENT_PERSO name \<or> prefix SFS_PARTITION_TRANSIENT_PRIVATE name \<Longrightarrow>
      target = USER_DATA_DIR @ name"
    and "\<not> prefix SFS_PARTITION_TRANSIENT_PERSO name \<Longrightarrow> \<not> prefix SFS_PARTITION_TRANSIENT_PRIVATE name \<Longrightarrow>
      target = (if prefix SFS_PARTITION_PERSISTENT name then ROOT_DIR @ name
                else if prefix SEC_STORAGE_ROOT_DIR name then name else SEC_STORAGE_ROOT_DIR @ name)"
  shows "DoJoinFileName sc name [] n = (0, p) \<longleftrightarrow> length target < n \<and> p = target"
proof -
  define d where "d = (if prefix SFS_PARTITION_TRANSIENT_PERSO name \<or> prefix SFS_PARTITION_TRANSIENT_PRIVATE name
     then USER_DATA_DIR else if prefix SFS_PARTITION_PERSISTENT name then ROOT_DIR
     else if prefix SEC_STORAGE_ROOT_DIR name then [] else SEC_STORAGE_ROOT_DIR)"
  have target: "target = d @ name" using assms(3,4) by (auto simp: d_def)
  have run: "DoJoinFileName sc name [] n =
      (let (rc, path) = strncat_s sc n d name (length name) in if rc \<noteq> 0 then (- 1, path) else (0, path))"
    using assms(1,2)
    by (simp add: DoJoinFileName_def strstr_0_iff GetTransientDir_ok GetPersistentDir_ok GetDefaultDir_ok d_def)
  show ?thesis
    by (rule strncat_cases [OF assms(1) order_refl, of d name n]) (auto simp: run target)
qed

lemma IsValidFilePath_iff:
  assumes "securec_ok sc"
  shows "IsValidFilePath sc p \<longleftrightarrow> (\<exists>r \<in> set storage_roots. prefix r p)"
  using assms
  by (simp add: IsValidFilePath_def IsDataDir_def IsRootDir_def GetTransientDir_ok GetPersistentDir_ok
      strncat_eval strstr_0_iff storage_roots_def)

lemma GetRealFilePath_valid:
  assumes "securec_ok sc" and "GetRealFilePath sc px p n s = ((0, q), s')" and "errno_ok px"
  shows "\<exists>r \<in> set storage_roots. prefix r q"
proof -
  obtain real w where call: "fcall (px_realpath px p) s = (real, s\<lparr>fworld := w\<rparr>)"
    and real: "px_realpath px p (fworld s) = (real, w)" by (rule fcallE)
  show ?thesis
  proof (cases real)
    case None
    with real assms(3) have "px_errno px w \<in> {0<..<2 ^ 31}" unfolding errno_ok_def by (metis fst_conv snd_conv)
    then have "uint32_of (errno px (s\<lparr>fworld := w\<rparr>)) \<noteq> 0" by (simp add: errno_def uint32_of_pos)
    with None assms call have valid: "IsValidFilePath sc p"
      and q: "\<exists>rc. strncpy_s sc n p (length p) = (rc, q) \<and> rc = 0"
      by (auto simp: GetRealFilePath_def split: if_splits prod.splits)
    from q have "q = p" using strncpy_s_ok(1) [OF assms(1), of n p "length p" q] by auto
    with valid show ?thesis by (simp add: IsValidFilePath_iff [OF assms(1)])
  next
    case (Some t)
    with assms call have "q = t" "IsValidFilePath sc t"
      by (auto simp: GetRealFilePath_def split: if_splits)
    then show ?thesis by (simp add: IsValidFilePath_iff [OF assms(1)])
  qed
qed

lemma JoinFileNameTransient_iff:
  assumes sc: "securec_ok sc" and pre: "prefix SFS_PARTITION_TRANSIENT name"
  shows "JoinFileNameTransient sc uid name [] 256 = (0, p) \<longleftrightarrow>
    (if uid = 0 then length (USER_DATA_DIR @ name) < 256 \<and> p = USER_DATA_DIR @ name
     else unat uid < 10 ^ 8 \<and> name \<noteq> SFS_PARTITION_TRANSIENT \<and> length p < 256 \<and>
       p = USER_DATA_DIR @ SFS_PARTITION_USER_SYMLINK @ dec_digits (unat uid) @ ''/'' @
             drop (length SFS_PARTITION_TRANSIENT) name)"
proof (cases "uid = 0")
  case True
  have run: "JoinFileNameTransient sc uid name [] 256 =
      (let (rc, path) = strncat_s sc 256 USER_DATA_DIR name (length name) in if rc \<noteq> 0 then (- 1, path) else (0, path))"
    using sc True by (simp add: JoinFileNameTransient_def GetTransientDir_ok)
  show ?thesis
    unfolding run strncat_last [OF sc] by (simp only: True simp_thms if_True)
next
  case False
  from pre obtain x where name: "name = SFS_PARTITION_TRANSIENT @ x" by (auto simp: prefix_def)
  let ?u = "dec_digits (unat uid) @ ''/''"
  let ?d = "USER_DATA_DIR @ SFS_PARTITION_USER_SYMLINK @ ?u"
  show ?thesis
  proof (cases "unat uid < 10 ^ 8")
    case big: False
    then have "\<not> length ?u \<le> 9" using length_dec_digits [of "unat uid" 7] by simp
    then obtain r where "snprintf_s sc 10 9 ?u = (- 1, r)"
      using snprintf_s_ok(1) [OF sc, of 10 9 ?u] by (metis prod.collapse)
    then show ?thesis using False big sc
      by (simp add: JoinFileNameTransient_def GetTransientDir_ok)
  next
    case small: True
    then have len: "length ?u \<le> 9" using length_dec_digits [of "unat uid" 7] by simp
    then have print: "snprintf_s sc 10 9 ?u = (int (length ?u), ?u)"
      using snprintf_s_ok [OF sc, of 10 9 ?u] by simp
    have run: "JoinFileNameTransient sc uid name [] 256 =
      (if x = [] then (- 1, ?d)
       else let (rc, path) = strncat_s sc 256 ?d x (length x) in if rc \<noteq> 0 then (- 1, path) else (0, path))"
      using sc False len
      by (simp add: JoinFileNameTransient_def GetTransientDir_ok print [simplified] strncat_eval name)
    have d: "?d @ x = USER_DATA_DIR @ SFS_PARTITION_USER_SYMLINK @ dec_digits (unat uid) @ ''/'' @
        drop (length SFS_PARTITION_TRANSIENT) name"
      by (simp add: name)
    show ?thesis
    proof (cases "x = []")
      case True
      then show ?thesis unfolding run if_P [OF True] using False name by simp
    next
      case nonempty: False
      then have n: "name \<noteq> SFS_PARTITION_TRANSIENT" by (simp add: name)
      show ?thesis
        unfolding run if_not_P [OF nonempty] strncat_last [OF sc] d using False small n by auto
    qed
  qed
qed

lemma DoJoinFileName_default:
  assumes sc: "securec_ok sc" and pre: "\<not> prefix SFS_PARTITION_TRANSIENT name"
  shows "DoJoinFileName sc name [] 256 = (0, p) \<longleftrightarrow>
    length p < 256 \<and> p = (if prefix SFS_PARTITION_PERSISTENT name then ROOT_DIR @ name
      else if prefix SEC_STORAGE_ROOT_DIR name then name else SEC_STORAGE_ROOT_DIR @ name)"
proof -
  have "prefix SFS_PARTITION_TRANSIENT SFS_PARTITION_TRANSIENT_PERSO"
    "prefix SFS_PARTITION_TRANSIENT SFS_PARTITION_TRANSIENT_PRIVATE" by code_simp+
  then have no: "\<not> prefix SFS_PARTITION_TRANSIENT_PERSO name" "\<not> prefix SFS_PARTITION_TRANSIENT_PRIVATE name"
    using pre by (meson prefix_order.trans)+
  show ?thesis
    by (subst DoJoinFileName_iff [OF sc _ _ refl]) (use no in auto)
qed

lemma strncat_chain:
  assumes sc: "securec_ok sc"
  shows "(let (rc, path) = strncat_s sc n d u (length u)
         in if rc \<noteq> 0 then Some (- 1, path)
            else let (rc, path) = strncat_s sc n path x (length x + 1)
            in if rc \<noteq> 0 then Some (- 1, path)
               else let (rc, path) = strncat_s sc n path r (length r) in Some (if rc \<noteq> 0 then - 1 else 0 :: int, path)) =
       Some (0, p) \<longleftrightarrow> length (d @ u @ x @ r) < n \<and> p = d @ u @ x @ r"
proof (rule strncat_cases [OF sc order_refl, of d u n])
  assume u: "strncat_s sc n d u (length u) = (0, d @ u)"
  show ?thesis
  proof (rule strncat_cases [OF sc, of x "length x + 1" "d @ u" n])
    assume x: "strncat_s sc n (d @ u) x (length x + 1) = (0, (d @ u) @ x)"
    show ?thesis
      by (rule strncat_cases [OF sc order_refl, of "(d @ u) @ x" r n]) (use x in \<open>auto simp: u\<close>)
  qed (auto simp: u)
qed auto

lemma JoinFileNameForStorageCE_iff:
  assumes sc: "securec_ok sc"
  defines "t \<equiv> \<lambda>name. dropWhile (\<lambda>c. c = CHR ''/'') name"
  shows "JoinFileNameForStorageCE sc name [] 256 = Some (0, p) \<longleftrightarrow>
    length name < 256 \<and> CHR ''/'' \<in> set (t name) \<and> p = joined uid TEE_OBJECT_STORAGE_CE name \<and> length p < 256"
proof -
  let ?t = "t name" let ?u = "takeWhile (\<lambda>c. c \<noteq> CHR ''/'') ?t"
  let ?d = "SEC_STORAGE_DATA_CE" let ?x = "SEC_STORAGE_DATA_CE_SUFFIX_DIR"
  show ?thesis
  proof (cases "length name < 256")
    case False
    then show ?thesis using memcpy_s_ok [OF sc, of 256 name]
      by (auto simp: JoinFileNameForStorageCE_def split: prod.splits)
  next
    case True
    then have cp: "memcpy_s sc 256 name = (0, name)" using memcpy_s_ok(1) [OF sc, of 256 name name] by simp
    have dir: "strncpy_s sc 256 ?d (length ?d + 1) = (0, ?d)" using strncpy_s_ok(1) [OF sc] by simp
    show ?thesis
    proof (cases "dropWhile (\<lambda>c. c \<noteq> CHR ''/'') ?t")
      case Nil
      then have "CHR ''/'' \<notin> set ?t" by (auto simp: dropWhile_eq_Nil_conv)
      moreover have "strtok_slash name = None \<or> (\<exists>u. strtok_slash name = Some (u, None))"
        unfolding strtok_slash_def Let_def Nil [unfolded t_def] by simp
      then have "JoinFileNameForStorageCE sc name [] 256 \<noteq> Some (0, p)"
        by (elim disjE exE) (simp_all add: JoinFileNameForStorageCE_def cp split: prod.split)
      ultimately show ?thesis by simp
    next
      case (Cons c r)
      have c: "c = CHR ''/''" using hd_dropWhile [of "\<lambda>c. c \<noteq> CHR ''/''" ?t] Cons by simp
      have t': "?u @ CHR ''/'' # r = ?t"
        using takeWhile_dropWhile_id [of "\<lambda>c. c \<noteq> CHR ''/''" ?t] unfolding Cons c .
      have slash: "CHR ''/'' \<in> set ?t" by (subst t' [symmetric]) simp
      have rest: "drop (length ?u + 1) ?t = r" by (subst (2) t' [symmetric]) simp
      have p: "joined uid TEE_OBJECT_STORAGE_CE name = ?d @ ?u @ ?x @ r"
        using rest unfolding joined_def Let_def t_def if_P [OF refl] by (simp only:)
      have nonempty: "?t \<noteq> []" using slash by auto
      have tok: "strtok_slash name = Some (?u, Some r)"
        using nonempty Cons by (simp add: strtok_slash_def t_def Let_def)
      have run: "JoinFileNameForStorageCE sc name [] 256 =
        (let (rc, path) = strncat_s sc 256 ?d ?u (length ?u)
         in if rc \<noteq> 0 then Some (- 1, path)
            else let (rc, path) = strncat_s sc 256 path ?x (length ?x + 1)
            in if rc \<noteq> 0 then Some (- 1, path)
               else let (rc, path) = strncat_s sc 256 path r (length r) in Some (if rc \<noteq> 0 then - 1 else 0, path))"
        using True by (simp add: JoinFileNameForStorageCE_def cp tok dir [simplified] case_prod_beta Let_def)
      show ?thesis
        unfolding run strncat_chain [OF sc] p using True slash by blast
    qed
  qed
qed


lemma JoinFileName_iff:
  assumes sc: "securec_ok sc"
  shows "JoinFileName sc uid sid name [] 256 = Some (0, p) \<longleftrightarrow> joinable uid sid name \<and> p = joined uid sid name"
proof (cases "sublist ''../'' name")
  case True
  then show ?thesis
    by (simp add: JoinFileName_def CheckFileNameAndPath_def strstr_None_iff joinable_def)
next
  case name: False
  then have run: "JoinFileName sc uid sid name [] 256 =
      (if sid = TEE_OBJECT_STORAGE_CE then JoinFileNameForStorageCE sc name [] 256
       else if prefix SFS_PARTITION_TRANSIENT name then Some (JoinFileNameTransient sc uid name [] 256)
       else Some (DoJoinFileName sc name [] 256))"
    by (simp add: JoinFileName_def CheckFileNameAndPath_def strstr_None_iff strstr_0_iff)
  consider (ce) "sid = TEE_OBJECT_STORAGE_CE"
    | (trans) "sid \<noteq> TEE_OBJECT_STORAGE_CE" "prefix SFS_PARTITION_TRANSIENT name"
    | (pers) "sid \<noteq> TEE_OBJECT_STORAGE_CE" "\<not> prefix SFS_PARTITION_TRANSIENT name"
    by blast
  then show ?thesis
  proof cases
    case ce
    then show ?thesis
      unfolding run if_P [OF ce] JoinFileNameForStorageCE_iff [OF sc, of _ _ uid] joinable_def using name by auto
  next
    case trans
    have j: "joined uid sid name = (if uid = 0 then USER_DATA_DIR @ name
       else USER_DATA_DIR @ SFS_PARTITION_USER_SYMLINK @ dec_digits (unat uid) @ ''/'' @ drop (length SFS_PARTITION_TRANSIENT) name)"
      by (simp only: joined_def trans if_True if_False)
    show ?thesis
      unfolding run if_not_P [OF trans(1)] if_P [OF trans(2)] option.inject
        JoinFileNameTransient_iff [OF sc trans(2)] joinable_def j
      using name trans by (cases "uid = 0") auto
  next
    case pers
    have j: "joined uid sid name = (if prefix SFS_PARTITION_PERSISTENT name then ROOT_DIR @ name
      else if prefix SEC_STORAGE_ROOT_DIR name then name else SEC_STORAGE_ROOT_DIR @ name)"
      by (simp only: joined_def pers if_False)
    show ?thesis
      unfolding run if_not_P [OF pers(1)] if_not_P [OF pers(2)] option.inject
        DoJoinFileName_default [OF sc pers(2)] joinable_def j
      using name pers by auto
  qed
qed

text \<open>A forbidden \<open>../\<close> cannot arise where a part that ends in a slash is followed by another part.\<close>

lemma sublist_dotdot_append:
  "sublist ''../'' (a @ CHR ''/'' # b) \<longleftrightarrow> sublist ''../'' (a @ ''/'') \<or> sublist ''../'' b"
proof (induction a)
  case Nil
  show ?case by (cases b) (auto simp: sublist_Cons_right)
next
  case (Cons x a)
  have "prefix ''../'' (x # a @ CHR ''/'' # b) \<longleftrightarrow> prefix ''../'' (x # a @ ''/'')"
    by (cases a; cases "tl a") auto
  with Cons show ?case by (auto simp: sublist_Cons_right)
qed


lemma sublist_trans_append: "\<not> sublist x name \<Longrightarrow> name = a @ b @ c \<Longrightarrow> \<not> sublist x b"
  using sublist_appendI [of b a c] sublist_order.order_trans by blast

lemma joined_no_dotdot:
  assumes "joinable uid sid name"
  shows "\<not> sublist ''../'' (joined uid sid name)"
proof (cases "sid = TEE_OBJECT_STORAGE_CE")
  case True
  let ?t = "dropWhile (\<lambda>c. c = CHR ''/'') name"
  from True assms have slash: "CHR ''/'' \<in> set ?t" and nd: "\<not> sublist ''../'' name"
    by (simp_all add: joinable_def)
  from split_list_first [OF slash] obtain u r where t: "?t = u @ CHR ''/'' # r" and u: "CHR ''/'' \<notin> set u" by blast
  have tw: "takeWhile (\<lambda>c. c \<noteq> CHR ''/'') (u @ CHR ''/'' # r) = u"
    using u by (subst takeWhile_append2) auto
  have j: "joined uid sid name = ''/data/service/el2'' @ CHR ''/'' # (u @ CHR ''/'' # (''tee/sec_storage_data'' @ CHR ''/'' # r))"
    using True by (simp add: joined_def t tw)
  obtain z where "name = z @ ?t" using takeWhile_dropWhile_id by metis
  then have name: "name = z @ u @ ''/'' @ r" by (simp add: t)
  have "\<not> sublist ''../'' (u @ ''/'')" using sublist_trans_append [OF nd, of z "u @ ''/''" r] name by simp
  moreover have "\<not> sublist ''../'' r" using sublist_trans_append [OF nd, of "z @ u @ ''/''" r "[]"] name by simp
  moreover have "\<not> sublist ''../'' ''/data/service/el2/''" "\<not> sublist ''../'' ''tee/sec_storage_data/''" by code_simp+
  ultimately show ?thesis
    unfolding j sublist_dotdot_append [of "''/data/service/el2''" "u @ CHR ''/'' # (''tee/sec_storage_data'' @ CHR ''/'' # r)"]
      sublist_dotdot_append [of u "''tee/sec_storage_data'' @ CHR ''/'' # r"]
      sublist_dotdot_append [of "''tee/sec_storage_data''" r] by simp
next
  case False
  have nd: "\<not> sublist ''../'' name" using assms by (simp add: joinable_def)
  have root: "\<not> sublist ''../'' (d @ ''/'' @ name)" if "\<not> sublist ''../'' (d @ ''/'')" for d
    using that nd sublist_dotdot_append [of d name] by simp
  have dig: "\<not> sublist ''../'' (dec_digits (unat uid) @ ''/'')"
    using set_dec_digits [of "unat uid"] set_mono_sublist [of "''../''" "dec_digits (unat uid) @ ''/''"] by auto
  have c: "\<not> sublist ''../'' ''/data/service/el1/public/''" "\<not> sublist ''../'' ''sec_storage_data_users/''"
    "\<not> sublist ''../'' ''/sec_storage/''" "\<not> sublist ''../'' ''/''" by code_simp+
  consider (user) "prefix SFS_PARTITION_TRANSIENT name" "uid \<noteq> 0"
    | (public) "prefix SFS_PARTITION_TRANSIENT name" "uid = 0"
    | (pers) "\<not> prefix SFS_PARTITION_TRANSIENT name" by blast
  then show ?thesis
  proof cases
    case user
    let ?x = "drop (length SFS_PARTITION_TRANSIENT) name"
    have j: "joined uid sid name = ''/data/service/el1/public'' @ CHR ''/'' # (''sec_storage_data_users'' @ CHR ''/'' #
        (dec_digits (unat uid) @ CHR ''/'' # ?x))"
      using user False by (simp add: joined_def)
    have "\<not> sublist ''../'' ?x"
      by (rule sublist_trans_append [OF nd, of "take (length SFS_PARTITION_TRANSIENT) name" _ "[]"]) simp
    then show ?thesis
      unfolding j sublist_dotdot_append [of "''/data/service/el1/public''"
          "''sec_storage_data_users'' @ CHR ''/'' # (dec_digits (unat uid) @ CHR ''/'' # ?x)"]
        sublist_dotdot_append [of "''sec_storage_data_users''" "dec_digits (unat uid) @ CHR ''/'' # ?x"]
        sublist_dotdot_append [of "dec_digits (unat uid)" ?x]
      using dig c by simp
  next
    case public
    then show ?thesis using False root [of "''/data/service/el1/public''"] c by (simp add: joined_def)
  next
    case pers
    then show ?thesis using False nd root [of "[]"] root [of "''/sec_storage''"] c by (simp add: joined_def)
  qed
qed

lemma joined_in_root: "\<exists>r \<in> set storage_roots. prefix r (joined uid sid name)"
proof -
  have "prefix ''/data/service/el1/public/sec_storage_data/'' (USER_DATA_DIR @ name)" if "prefix SFS_PARTITION_TRANSIENT name"
    using that by (auto simp: prefix_def)
  moreover have "prefix SEC_STORAGE_ROOT_DIR (ROOT_DIR @ name)" if "prefix SFS_PARTITION_PERSISTENT name"
    using that by (auto simp: prefix_def)
  ultimately show ?thesis
    unfolding joined_def storage_roots_def Let_def by simp
qed

text \<open>Two users never share a path of the transient partition.\<close>

lemma split_at_slash:
  "CHR ''/'' \<notin> set a \<Longrightarrow> CHR ''/'' \<notin> set b \<Longrightarrow> a @ CHR ''/'' # x = b @ CHR ''/'' # y \<Longrightarrow> a = b"
proof -
  have "takeWhile (\<lambda>c. c \<noteq> CHR ''/'') (u @ CHR ''/'' # v) = u" if "CHR ''/'' \<notin> set u" for u v
    using that by (subst takeWhile_append2) auto
  then show "CHR ''/'' \<notin> set a \<Longrightarrow> CHR ''/'' \<notin> set b \<Longrightarrow> a @ CHR ''/'' # x = b @ CHR ''/'' # y \<Longrightarrow> a = b"
    by metis
qed

lemma joined_user_inject:
  assumes "prefix SFS_PARTITION_TRANSIENT name" "prefix SFS_PARTITION_TRANSIENT name'"
    and "sid \<noteq> TEE_OBJECT_STORAGE_CE" "sid' \<noteq> TEE_OBJECT_STORAGE_CE"
    and eq: "joined uid sid name = joined uid' sid' name'"
  shows "uid = uid'"
proof -
  from assms(1,2) obtain x y where n: "name = SFS_PARTITION_TRANSIENT @ x" "name' = SFS_PARTITION_TRANSIENT @ y"
    by (auto simp: prefix_def)
  show ?thesis
  proof (cases "uid = 0 \<or> uid' = 0")
    case True
    then show ?thesis using eq assms(3,4)
      by (cases "uid = 0"; cases "uid' = 0") (simp_all add: joined_def n)
  next
    case False
    then have "dec_digits (unat uid) @ CHR ''/'' # x = dec_digits (unat uid') @ CHR ''/'' # y"
      using eq assms(3,4) by (simp add: joined_def n)
    then have "dec_digits (unat uid) = dec_digits (unat uid')"
      by (rule split_at_slash [OF no_slash_dec_digits no_slash_dec_digits])
    then have "unat uid = unat uid'" by (rule dec_digits_inject)
    then show ?thesis by (rule unsigned_word_eqI)
  qed
qed





section \<open>Properties\<close>

text \<open>
  C17. Joining a name succeeds exactly for the names that fit the rules of the selected storage:
  no \<open>../\<close> in the name, a result that fits into 256 bytes with its NUL, for the credential-encrypted
  storage a user part that a slash ends, and for another user than 0 in the transient partition at most
  eight digits and a non-empty name.  The result is then the path of the reference definition \<open>joined\<close>.
\<close>

theorem JoinFileName_exact:
  assumes "securec_ok sc"
  shows "JoinFileName sc uid sid name [] FILE_NAME_MAX_BUF = Some (0, p) \<longleftrightarrow>
    joinable uid sid name \<and> p = joined uid sid name"
  by (rule JoinFileName_iff [OF assms])

theorem JoinFileName_exact_witness:
  "JoinFileName securec_ref 100 0 ''sec_storage_data/app/f'' [] 256 =
     Some (0, ''/data/service/el1/public/sec_storage_data_users/100/app/f'')"
proof -
  have j: "joined 100 0 ''sec_storage_data/app/f'' = ''/data/service/el1/public/sec_storage_data_users/100/app/f''"
    by (simp add: joined_def dec_digits.simps)
  moreover have "\<not> sublist ''../'' ''sec_storage_data/app/f''" by code_simp
  then have "joinable 100 0 ''sec_storage_data/app/f''" by (simp add: joinable_def j)
  ultimately show ?thesis using JoinFileName_exact [OF securec_ref_ok, of 100 0 "''sec_storage_data/app/f''"] by simp
qed

text \<open>
  C16. Confinement: the path of a joined name begins with one of the four storage directories, has
  no \<open>../\<close> anywhere and fits its buffer; and two users never get the same path in the transient partition.
\<close>

theorem JoinFileName_confined:
  assumes "securec_ok sc" and "JoinFileName sc uid sid name [] FILE_NAME_MAX_BUF = Some (0, p)"
  shows "(\<exists>r \<in> set storage_roots. prefix r p) \<and> \<not> sublist ''../'' p \<and> length p < FILE_NAME_MAX_BUF \<and>
    (\<forall>uid' name'. prefix ''sec_storage_data/'' name \<and> prefix ''sec_storage_data/'' name' \<and>
       sid \<noteq> TEE_OBJECT_STORAGE_CE \<and>
       JoinFileName sc uid' sid name' [] FILE_NAME_MAX_BUF = Some (0, p) \<longrightarrow> uid' = uid)"
proof -
  from assms have p: "joinable uid sid name" "p = joined uid sid name" by (simp_all add: JoinFileName_iff)
  moreover have "uid' = uid" if "prefix ''sec_storage_data/'' name" "prefix ''sec_storage_data/'' name'"
    "sid \<noteq> TEE_OBJECT_STORAGE_CE" "JoinFileName sc uid' sid name' [] FILE_NAME_MAX_BUF = Some (0, p)" for uid' name'
    using that p joined_user_inject [of name' name sid sid uid' uid] by (simp add: JoinFileName_iff [OF assms(1)])
  ultimately show ?thesis
    using joined_in_root [of uid sid name] joined_no_dotdot [of uid sid name] by (auto simp: joinable_def)
qed

theorem JoinFileName_confined_witness:
  "prefix ''/sec_storage/'' ''/sec_storage/a'' \<and>
   JoinFileName securec_ref 0 0 ''a'' [] 256 = Some (0, ''/sec_storage/a'') \<and> \<not> sublist ''../'' ''/sec_storage/a''"
proof -
  have run: "JoinFileName securec_ref 0 0 ''a'' [] FILE_NAME_MAX_BUF = Some (0, ''/sec_storage/a'')" by code_simp
  show ?thesis using JoinFileName_confined [OF securec_ref_ok run] run by simp
qed


end
