(* ===== verification/Fs_Files.thy ===== *)
theory Fs_Files
  imports Fs_Types List_Node
begin

text \<open>
  The list of open files of the file agent: a circular doubly linked list of heap nodes without a
  head node, entered at \<open>g_firstFile\<close>.  Its pointer operations are related to those of
  \<open>List_Node\<close> on the projection of the nodes to their links, with the first file in the role of
  the head.
\<close>

section \<open>Operations\<close>

definition free_node :: "addr \<Rightarrow> 'w fs \<Rightarrow> 'w fs option" where
  "free_node a s = (if node_at s a = None then None else Some (s\<lparr>nodes := (nodes s)(a := None)\<rparr>))"

definition AddOpenFile :: "'w posix \<Rightarrow> addr \<Rightarrow> 'w fs \<Rightarrow> (int \<times> 'w fs) option" where
  "AddOpenFile px pFile s =
     (let (newFile, s) = fcall (px_malloc px (used_mem s) 24) s
      in if newFile = NULL then Some (- 1, s)
         else let s = s\<lparr>nodes := (nodes s)(newFile \<mapsto> \<lparr>of_file = pFile, of_next = NULL, of_prev = NULL\<rparr>)\<rparr>
         in if g_firstFile s = NULL
            then do {
              let s = s\<lparr>g_firstFile := newFile\<rparr>;
              s \<leftarrow> upd_node newFile (\<lambda>n. n\<lparr>of_next := newFile\<rparr>) s;
              s \<leftarrow> upd_node newFile (\<lambda>n. n\<lparr>of_prev := newFile\<rparr>) s;
              Some (0, s)
            }
            else do {
              f \<leftarrow> node_at s (g_firstFile s);
              if of_prev f = NULL then do { s \<leftarrow> free_node newFile s; Some (- 1, s) }
              else do {
                s \<leftarrow> upd_node (of_prev f) (\<lambda>n. n\<lparr>of_next := newFile\<rparr>) s;
                f \<leftarrow> node_at s (g_firstFile s);
                s \<leftarrow> upd_node newFile (\<lambda>n. n\<lparr>of_prev := of_prev f\<rparr>) s;
                s \<leftarrow> upd_node newFile (\<lambda>n. n\<lparr>of_next := g_firstFile s\<rparr>) s;
                s \<leftarrow> upd_node (g_firstFile s) (\<lambda>n. n\<lparr>of_prev := newFile\<rparr>) s;
                Some (0, s)
              }
            })"

definition DelOpenFile :: "addr \<Rightarrow> 'w fs \<Rightarrow> 'w fs option" where
  "DelOpenFile file s =
     (if file = NULL then Some s
      else do {
        n \<leftarrow> node_at s file;
        if file = of_next n then Some (s\<lparr>g_firstFile := NULL\<rparr>)
        else if of_next n = NULL \<or> of_prev n = NULL then Some s
        else do {
          let s = (if file = g_firstFile s then s\<lparr>g_firstFile := of_next n\<rparr> else s);
          s \<leftarrow> upd_node (of_next n) (\<lambda>m. m\<lparr>of_prev := of_prev n\<rparr>) s;
          f \<leftarrow> node_at s file;
          upd_node (of_prev f) (\<lambda>m. m\<lparr>of_next := of_next n\<rparr>) s
        }
      })"

text \<open>
  The loop of \<open>FindOpenFile\<close> from node \<open>p\<close>: the node found, or null.  A list that does not come back
  to its first node would make it run forever.
\<close>

partial_function (option) find_from :: "int \<Rightarrow> 'w fs \<Rightarrow> addr \<Rightarrow> addr option" where
  "find_from fd s p = do {
     n \<leftarrow> node_at s p;
     here \<leftarrow> (if of_file n \<noteq> NULL then map_option (\<lambda>d. d = fd) (fileno s (of_file n)) else Some False);
     if here then Some p
     else if of_next n \<noteq> g_firstFile s \<and> of_next n \<noteq> NULL then find_from fd s (of_next n)
     else Some NULL
   }"

definition FindOpenFile :: "int \<Rightarrow> 'w fs \<Rightarrow> (int \<times> addr) option" where
  "FindOpenFile fd s =
     (if g_firstFile s = NULL then Some (0, NULL)
      else do { p \<leftarrow> find_from fd s (g_firstFile s); Some (if p = NULL then 0 else 1, p) })"

section \<open>Well-formed lists of files\<close>

definition lns :: "'w fs \<Rightarrow> List_Node.nodes" where
  "lns s = (\<lambda>a. map_option (\<lambda>n. \<lparr>next = of_next n, prev = of_prev n\<rparr>) (nodes s a))"

text \<open>The nodes in the order of the list.\<close>

definition ring :: "'w fs \<Rightarrow> addr list \<Rightarrow> bool" where
  "ring s xs \<longleftrightarrow> NULL \<notin> set xs \<and> set xs = dom (nodes s) \<and>
     (case xs of [] \<Rightarrow> g_firstFile s = NULL | f # ys \<Rightarrow> g_firstFile s = f \<and> dll (lns s) f ys)"

text \<open>
  The invariant of the open files: the nodes form a ring, every node has a stream of its own, every
  stream is open and in the list, and two streams have different descriptors.
\<close>

definition file_of :: "'w fs \<Rightarrow> addr \<Rightarrow> addr" where
  "file_of s a = of_file (the (nodes s a))"

definition files_ok :: "'w fs \<Rightarrow> addr list \<Rightarrow> bool" where
  "files_ok s xs \<longleftrightarrow> ring s xs \<and> distinct (map (file_of s) xs) \<and> file_of s ` set xs = dom (streams s) \<and>
     NULL \<notin> dom (streams s) \<and> inj_on (streams s) (dom (streams s))"

text \<open>The abstraction: the descriptors of the open files, in the order in which they were opened.\<close>

definition open_fds :: "'w fs \<Rightarrow> addr list \<Rightarrow> int list" where
  "open_fds s xs = map (\<lambda>a. the (streams s (file_of s a))) xs"

section \<open>Rules\<close>

lemma lns_frame [simp]:
  "lns (s\<lparr>g_userId := x0\<rparr>) = lns s" "lns (s\<lparr>g_storageId := x1\<rparr>) = lns s" "lns (s\<lparr>g_firstFile := x2\<rparr>) = lns s"
  "lns (s\<lparr>copybufs := x4\<rparr>) = lns s" "lns (s\<lparr>streams := x5\<rparr>) = lns s" "lns (s\<lparr>fds := x6\<rparr>) = lns s"
  "lns (s\<lparr>fworld := x7\<rparr>) = lns s"
  by (simp_all add: lns_def)

lemma file_of_frame [simp]:
  "file_of (s\<lparr>g_userId := x0\<rparr>) = file_of s" "file_of (s\<lparr>g_storageId := x1\<rparr>) = file_of s"
  "file_of (s\<lparr>g_firstFile := x2\<rparr>) = file_of s" "file_of (s\<lparr>copybufs := x4\<rparr>) = file_of s"
  "file_of (s\<lparr>streams := x5\<rparr>) = file_of s" "file_of (s\<lparr>fds := x6\<rparr>) = file_of s"
  "file_of (s\<lparr>fworld := x7\<rparr>) = file_of s"
  by (simp_all add: file_of_def fun_eq_iff)

lemma ring_frame [simp]:
  "ring (s\<lparr>g_userId := x0\<rparr>) = ring s" "ring (s\<lparr>g_storageId := x1\<rparr>) = ring s"
  "ring (s\<lparr>copybufs := x4\<rparr>) = ring s" "ring (s\<lparr>streams := x5\<rparr>) = ring s" "ring (s\<lparr>fds := x6\<rparr>) = ring s"
  "ring (s\<lparr>fworld := x7\<rparr>) = ring s"
  by (simp_all add: ring_def fun_eq_iff split: list.splits)

lemma files_ok_frame [simp]:
  "files_ok (s\<lparr>g_userId := x0\<rparr>) = files_ok s" "files_ok (s\<lparr>g_storageId := x1\<rparr>) = files_ok s"
  "files_ok (s\<lparr>copybufs := x4\<rparr>) = files_ok s" "files_ok (s\<lparr>fds := x6\<rparr>) = files_ok s"
  "files_ok (s\<lparr>fworld := x7\<rparr>) = files_ok s"
  by (simp_all add: files_ok_def fun_eq_iff)

lemma open_fds_frame [simp]:
  "open_fds (s\<lparr>g_userId := x0\<rparr>) = open_fds s" "open_fds (s\<lparr>g_storageId := x1\<rparr>) = open_fds s"
  "open_fds (s\<lparr>copybufs := x4\<rparr>) = open_fds s" "open_fds (s\<lparr>fds := x6\<rparr>) = open_fds s"
  "open_fds (s\<lparr>fworld := x7\<rparr>) = open_fds s"
  by (simp_all add: open_fds_def fun_eq_iff)

lemma get_lns: "get_next (lns s) a = map_option of_next (nodes s a)" "get_prev (lns s) a = map_option of_prev (nodes s a)"
  by (simp_all add: get_next_def get_prev_def lns_def option.map_comp comp_def)

lemma lns_eqI:
  assumes "\<And>a. get_next h a = get_next h' a" and "\<And>a. get_prev h a = get_prev h' a"
  shows "h = (h' :: List_Node.nodes)"
proof
  fix a
  show "h a = h' a"
    using assms [of a] by (cases "h a"; cases "h' a") (auto simp: get_next_def get_prev_def)
qed

lemma ring_node: "ring s xs \<Longrightarrow> a \<in> set xs \<Longrightarrow> \<exists>n. node_at s a = Some n"
  by (auto simp: ring_def node_at_def)

subsection \<open>Adding a file\<close>

text \<open>Linking a node that is not in the list, as the code does it and as \<open>ListInsertTail\<close> does it.\<close>

lemma add_links:
  assumes dll: "dll (lns s) y ys" and y: "y \<noteq> NULL" "NULL \<notin> set ys"
    and a: "a \<noteq> NULL" "a \<notin> insert y (set ys)" and na: "nodes s a = Some na" and first: "g_firstFile s = y"
  shows "\<exists>s'. do {
      f \<leftarrow> node_at s (g_firstFile s);
      if of_prev f = NULL then do { s \<leftarrow> free_node a s; Some (- 1, s) }
      else do {
        s \<leftarrow> upd_node (of_prev f) (\<lambda>n. n\<lparr>of_next := a\<rparr>) s;
        f \<leftarrow> node_at s (g_firstFile s);
        s \<leftarrow> upd_node a (\<lambda>n. n\<lparr>of_prev := of_prev f\<rparr>) s;
        s \<leftarrow> upd_node a (\<lambda>n. n\<lparr>of_next := g_firstFile s\<rparr>) s;
        s \<leftarrow> upd_node (g_firstFile s) (\<lambda>n. n\<lparr>of_prev := a\<rparr>) s;
        Some (0, s)
      }
    } = Some (0 :: int, s') \<and> dll (lns s') y (ys @ [a]) \<and> file_of s' = file_of s \<and>
      s' = s\<lparr>nodes := nodes s'\<rparr> \<and> dom (nodes s') = dom (nodes s)"
proof -
  define t where "t = last (y # ys)"
  have prev: "get_prev (lns s) y = Some t" unfolding t_def by (rule dll_head(2) [OF dll])
  have t: "t \<in> insert y (set ys)" unfolding t_def using last_in_set [of "y # ys"] by simp
  have sub: "insert y (set ys) \<subseteq> dom (nodes s)"
    using dll_dom [OF dll] by (auto simp: lns_def dom_def)
  from prev obtain ny where ny: "nodes s y = Some ny" "of_prev ny = t" by (auto simp: get_lns)
  from t sub obtain nt where nt: "nodes s t = Some nt" by blast
  have tn: "t \<noteq> NULL" "t \<noteq> a" using t y a by auto
  have ay: "a \<noteq> y" using a by auto
  have doms: "t \<in> dom (lns s)" "a \<in> dom (lns s)" using nt na by (auto simp: lns_def)
  obtain h where h: "ListInsertTail (lns s) y a = Some h"
    and hn: "\<And>b. get_next h b = (if b = t then Some a else if b = a then Some y else get_next (lns s) b)"
    and hp: "\<And>b. get_prev h b = (if b = y then Some a else if b = a then Some t else get_prev (lns s) b)"
    by (rule insert_between [OF prev doms ay]) (rule that; assumption)
  have dllh: "dll h y (ys @ [a])"
    using ListInsertTail_dll [OF dll doms(2) a(2)] h by (metis option.inject)
  define N where "N = (if t = y
     then (nodes s)(a \<mapsto> na\<lparr>of_prev := y, of_next := y\<rparr>, y \<mapsto> ny\<lparr>of_next := a, of_prev := a\<rparr>)
     else (nodes s)(t \<mapsto> nt\<lparr>of_next := a\<rparr>, a \<mapsto> na\<lparr>of_prev := t, of_next := y\<rparr>, y \<mapsto> ny\<lparr>of_prev := a\<rparr>))"
  have at: "node_at s y = Some ny" "node_at s a = Some na" "node_at s t = Some nt"
    using ny nt na y a tn by (simp_all add: node_at_def)
  have lns: "lns (s\<lparr>nodes := N\<rparr>) = h"
    using ny nt na tn ay by (intro lns_eqI) (auto simp: get_lns hn hp N_def)
  have files: "file_of (s\<lparr>nodes := N\<rparr>) = file_of s"
    using ny nt na tn ay by (auto simp: file_of_def N_def fun_eq_iff)
  have dom: "dom N = dom (nodes s)" using ny nt na by (auto simp: N_def)
  have "t = y \<Longrightarrow> nt = ny" using nt ny by simp
  then have run: "do {
      f \<leftarrow> node_at s (g_firstFile s);
      if of_prev f = NULL then do { s \<leftarrow> free_node a s; Some (- 1, s) }
      else do {
        s \<leftarrow> upd_node (of_prev f) (\<lambda>n. n\<lparr>of_next := a\<rparr>) s;
        f \<leftarrow> node_at s (g_firstFile s);
        s \<leftarrow> upd_node a (\<lambda>n. n\<lparr>of_prev := of_prev f\<rparr>) s;
        s \<leftarrow> upd_node a (\<lambda>n. n\<lparr>of_next := g_firstFile s\<rparr>) s;
        s \<leftarrow> upd_node (g_firstFile s) (\<lambda>n. n\<lparr>of_prev := a\<rparr>) s;
        Some (0, s)
      }
    } = Some (0, s\<lparr>nodes := N\<rparr>)"
    using at ny nt na tn y a(1) ay unfolding N_def
    by (cases "t = y") (simp_all add: upd_node_def first fun_upd_twist)
  show ?thesis
    by (rule exI [of _ "s\<lparr>nodes := N\<rparr>"]) (use run lns files dom dllh in simp)
qed


lemma dll_fresh_node:
  assumes "dll (lns s) y ys" and "a \<notin> insert y (set ys)"
  shows "dll (lns (s\<lparr>nodes := (nodes s)(a := v)\<rparr>)) y ys"
proof -
  have "links (lns (s\<lparr>nodes := (nodes s)(a := v)\<rparr>)) (y # ys @ [y]) = links (lns s) (y # ys @ [y])"
    by (rule links_cong) (use assms(2) in \<open>auto simp: get_lns butlast_append\<close>)
  with assms(1) show ?thesis by (simp add: dll_def)
qed

text \<open>\<open>AddOpenFile\<close> with memory available appends the file; the other fields of the state are kept.\<close>

lemma ring_add:
  assumes ring: "ring s xs" and a: "a \<noteq> NULL" "\<not> used_mem s a"
    and alloc: "px_malloc px (used_mem s) 24 (fworld s) = (a, w)"
  shows "\<exists>s'. AddOpenFile px f s = Some (0, s') \<and> ring s' (xs @ [a]) \<and> file_of s' = (file_of s)(a := f) \<and>
    s' = s\<lparr>g_firstFile := g_firstFile s', nodes := nodes s', fworld := w\<rparr>"
proof -
  let ?new = "\<lparr>of_file = f, of_next = NULL, of_prev = NULL\<rparr>"
  define s1 where "s1 = s\<lparr>nodes := (nodes s)(a \<mapsto> ?new), fworld := w\<rparr>"
  have files: "file_of s1 = (file_of s)(a := f)" by (auto simp: s1_def file_of_def)
  have call: "fcall (px_malloc px (used_mem s) 24) s = (a, s\<lparr>fworld := w\<rparr>)" by (simp add: fcall_def alloc)
  have na: "nodes s a = None" "a \<notin> set xs" using a(2) ring by (auto simp: used_mem_def ring_def)
  show ?thesis
  proof (cases xs)
    case Nil
    with ring have first: "g_firstFile s = NULL" and empty: "dom (nodes s) = {}" by (simp_all add: ring_def)
    define s' where "s' = s1\<lparr>g_firstFile := a, nodes := (nodes s)(a \<mapsto> \<lparr>of_file = f, of_next = a, of_prev = a\<rparr>)\<rparr>"
    have "AddOpenFile px f s = Some (0, s')"
      using a(1) by (simp add: AddOpenFile_def call first upd_node_def s'_def s1_def)
    moreover have "ring s' [a]"
      using a(1) empty by (simp add: ring_def s'_def s1_def dll_def link_def get_lns)
    moreover have "file_of s' = (file_of s)(a := f)" by (auto simp: s'_def file_of_def s1_def)
    moreover have "s' = s\<lparr>g_firstFile := g_firstFile s', nodes := nodes s', fworld := w\<rparr>" by (simp add: s'_def s1_def)
    ultimately show ?thesis using Nil by auto
  next
    case (Cons y ys)
    with ring have first: "g_firstFile s = y" and dll: "dll (lns s) y ys" and nn: "y \<noteq> NULL" "NULL \<notin> set ys"
      and dom: "insert y (set ys) = dom (nodes s)" by (auto simp: ring_def)
    have ay: "a \<notin> insert y (set ys)" using na Cons by auto
    have dll1: "dll (lns s1) y ys"
      using dll_fresh_node [OF dll ay, of "Some ?new"] by (simp add: s1_def)
    have n1: "nodes s1 a = Some ?new" and f1: "g_firstFile s1 = y" by (simp_all add: s1_def first)
    have run: "AddOpenFile px f s = do {
      f \<leftarrow> node_at s1 (g_firstFile s1);
      if of_prev f = NULL then do { s \<leftarrow> free_node a s1; Some (- 1, s) }
      else do {
        s \<leftarrow> upd_node (of_prev f) (\<lambda>n. n\<lparr>of_next := a\<rparr>) s1;
        f \<leftarrow> node_at s (g_firstFile s);
        s \<leftarrow> upd_node a (\<lambda>n. n\<lparr>of_prev := of_prev f\<rparr>) s;
        s \<leftarrow> upd_node a (\<lambda>n. n\<lparr>of_next := g_firstFile s\<rparr>) s;
        s \<leftarrow> upd_node (g_firstFile s) (\<lambda>n. n\<lparr>of_prev := a\<rparr>) s;
        Some (0, s)
      }
    }"
      unfolding s1_def using a(1) nn(1) by (simp add: AddOpenFile_def call first Let_def cong: if_cong)
    obtain s' where s': "AddOpenFile px f s = Some (0, s')" "dll (lns s') y (ys @ [a])"
        "file_of s' = file_of s1" "s' = s1\<lparr>nodes := nodes s'\<rparr>" "dom (nodes s') = dom (nodes s1)"
      using add_links [OF dll1 nn a(1) ay n1 f1] unfolding run [symmetric] by blast
    have proj: "g_firstFile s' = y" "s' = s\<lparr>g_firstFile := g_firstFile s', nodes := nodes s', fworld := w\<rparr>"
    proof -
      from s'(4) obtain N where "s' = s1\<lparr>nodes := N\<rparr>" by blast
      then show "g_firstFile s' = y" "s' = s\<lparr>g_firstFile := g_firstFile s', nodes := nodes s', fworld := w\<rparr>"
        by (simp_all add: s1_def first)
    qed
    have set: "set (xs @ [a]) = dom (nodes s')" using s'(5) dom Cons by (auto simp: s1_def)
    have nz: "NULL \<notin> set (xs @ [a])" using nn a(1) Cons by auto
    have "ring s' (xs @ [a])"
      unfolding ring_def using s'(2) proj(1) Cons by (intro conjI nz set) simp
    with s' files proj(2) show ?thesis by metis
  qed
qed

lemma AddOpenFile_ok:
  assumes ok: "files_ok s xs" and px: "fresh_ok px"
    and f: "f \<noteq> NULL" "streams s f = None" and fd: "fd \<notin> ran (streams s)"
  defines "s1 \<equiv> s\<lparr>streams := (streams s)(f \<mapsto> fd)\<rparr>"
  shows "(\<exists>w. AddOpenFile px f s1 = Some (- 1, s1\<lparr>fworld := w\<rparr>)) \<or>
    (\<exists>s' a w. AddOpenFile px f s1 = Some (0, s') \<and> files_ok s' (xs @ [a]) \<and>
      open_fds s' (xs @ [a]) = open_fds s xs @ [fd] \<and>
      s' = s1\<lparr>g_firstFile := g_firstFile s', nodes := nodes s', fworld := w\<rparr>)"
proof -
  obtain a w where alloc: "px_malloc px (used_mem s1) 24 (fworld s1) = (a, w)" by fastforce
  from ok have ring: "ring s1 xs" by (simp add: files_ok_def s1_def)
  show ?thesis
  proof (cases "a = NULL")
    case True
    then show ?thesis by (intro disjI1 exI [of _ w]) (simp add: AddOpenFile_def fcall_def alloc)
  next
    case False
    with px alloc have "\<not> used_mem s1 a" unfolding fresh_ok_def by (metis fst_conv)
    from ring_add [OF ring False this alloc, of f] obtain s' where s': "AddOpenFile px f s1 = Some (0, s')"
      "ring s' (xs @ [a])" "file_of s' = (file_of s1)(a := f)"
      "s' = s1\<lparr>g_firstFile := g_firstFile s', nodes := nodes s', fworld := w\<rparr>" by blast
    have str: "streams s' = (streams s)(f \<mapsto> fd)" by (subst s'(4)) (simp add: s1_def)
    have "a \<notin> set xs" using ok \<open>\<not> used_mem s1 a\<close> by (auto simp: files_ok_def ring_def used_mem_def s1_def)
    then have same: "map (file_of s') xs = map (file_of s) xs" by (simp add: s'(3) s1_def)
    have fresh: "f \<notin> file_of s ` set xs" using ok f by (auto simp: files_ok_def dom_def)
    have img: "file_of s' ` set xs = dom (streams s)"
      using ok arg_cong [OF same, of set] by (simp add: files_ok_def)
    have inj: "inj_on (streams s') (dom (streams s'))"
      using ok f fd by (auto simp: files_ok_def str inj_on_def ran_def dom_def)
    have "files_ok s' (xs @ [a])"
      unfolding files_ok_def
    proof (intro conjI)
      show "ring s' (xs @ [a])" by (rule s'(2))
      show "distinct (map (file_of s') (xs @ [a]))"
        using ok fresh arg_cong [OF same, of set] by (simp add: files_ok_def same) (simp add: s'(3))
      show "file_of s' ` set (xs @ [a]) = dom (streams s')" using img by (auto simp: str s'(3))
      show "NULL \<notin> dom (streams s')" using ok f by (auto simp: files_ok_def str)
    qed (rule inj)
    moreover have "open_fds s' (xs @ [a]) = open_fds s xs @ [fd]"
    proof -
      have "the (streams s' (file_of s' b)) = the (streams s (file_of s b))" if "b \<in> set xs" for b
        using that fresh \<open>a \<notin> set xs\<close> by (auto simp: str s'(3) s1_def)
      then show ?thesis by (simp add: open_fds_def str s'(3))
    qed
    ultimately show ?thesis using s'(1,4) by blast
  qed
qed


subsection \<open>Removing a file\<close>

lemma dll_rotate: "dll h y (z # zs) \<Longrightarrow> dll h z (zs @ [y])"
  using links_append [of h "z # zs" y "[z]"] by (auto simp: dll_def)

text \<open>Unlinking a node of a list with two or more nodes is \<open>ListRemoveEntry\<close> on the links.\<close>

lemma del_links:
  assumes dll: "dll (lns s) l (ys @ e # zs)" and nn: "NULL \<notin> set (l # ys @ e # zs)"
  shows "\<exists>N. DelOpenFile e s = Some (s\<lparr>g_firstFile := (if e = g_firstFile s then hd (zs @ [l]) else g_firstFile s), nodes := N\<rparr>) \<and>
    dll (lns (s\<lparr>nodes := N\<rparr>)) l (ys @ zs) \<and> file_of (s\<lparr>nodes := N\<rparr>) = file_of s \<and> dom N = dom (nodes s)"
proof -
  define p n where "p = last (l # ys)" and "n = hd (zs @ [l])"
  have nxt: "get_next (lns s) e = Some n" and prev: "get_prev (lns s) e = Some p"
    unfolding p_def n_def by (rule dll_next_prev [OF dll])+
  then obtain ne where ne: "nodes s e = Some ne" "of_next ne = n" "of_prev ne = p" by (auto simp: get_lns)
  have pin: "p \<in> insert l (set ys)" unfolding p_def using last_in_set [of "l # ys"] by simp
  have nin: "n \<in> insert l (set zs)" unfolding n_def using hd_in_set [of "zs @ [l]"] by auto
  have e: "e \<noteq> l" "e \<notin> set ys" "e \<notin> set zs" using dll by (auto simp: dll_def)
  then have ep: "e \<noteq> p" "e \<noteq> n" using pin nin by auto
  have "p \<in> dom (lns s)" "n \<in> dom (lns s)" using dll_dom [OF dll] pin nin by auto
  then obtain np nn' where np: "nodes s p = Some np" and nn': "nodes s n = Some nn'" by (auto simp: lns_def)
  have nz: "e \<noteq> NULL" "p \<noteq> NULL" "n \<noteq> NULL" using nn pin nin by auto
  obtain h where h: "ListRemoveEntry (lns s) e = Some h"
    and hn: "\<And>b. get_next h b = (if b = p then Some n else get_next (lns s) b)"
    and hp: "\<And>b. get_prev h b = (if b = n then Some p else get_prev (lns s) b)"
    by (rule unlink_between [OF prev nxt \<open>p \<in> dom (lns s)\<close> \<open>n \<in> dom (lns s)\<close> ep(1)]) (rule that; assumption)
  have dllh: "dll h l (ys @ zs)" using ListRemoveEntry_dll [OF dll] h by (metis option.inject)
  define N where "N = (if n = p then (nodes s)(p \<mapsto> np\<lparr>of_prev := p, of_next := n\<rparr>)
     else (nodes s)(n \<mapsto> nn'\<lparr>of_prev := p\<rparr>, p \<mapsto> np\<lparr>of_next := n\<rparr>))"
  have same: "n = p \<Longrightarrow> nn' = np" using np nn' by simp
  have lns: "lns (s\<lparr>nodes := N\<rparr>) = h"
    using ne np nn' ep by (intro lns_eqI) (auto simp: get_lns hn hp N_def)
  moreover have "file_of (s\<lparr>nodes := N\<rparr>) = file_of s"
    using np nn' same by (auto simp: file_of_def N_def fun_eq_iff)
  moreover have "dom N = dom (nodes s)" using np nn' by (auto simp: N_def)
  moreover have "DelOpenFile e s =
      Some (s\<lparr>g_firstFile := (if e = g_firstFile s then n else g_firstFile s), nodes := N\<rparr>)"
    using ne np nn' ep nz same
    by (cases "n = p"; cases "e = g_firstFile s") (simp_all add: DelOpenFile_def upd_node_def node_at_def N_def Let_def)
  ultimately show ?thesis using dllh unfolding n_def by blast
qed

text \<open>Closing: the node is unlinked and freed.\<close>

lemma ring_del:
  assumes ring: "ring s xs" and e: "e \<in> set xs"
  shows "\<exists>s'. do { s \<leftarrow> DelOpenFile e s; free_node e s } = Some s' \<and> ring s' (remove1 e xs) \<and>
    (\<forall>b. b \<noteq> e \<longrightarrow> file_of s' b = file_of s b) \<and> s' = s\<lparr>g_firstFile := g_firstFile s', nodes := nodes s'\<rparr>"
proof -
  from ring e obtain f fs where xs: "xs = f # fs" by (cases xs) auto
  with ring have first: "g_firstFile s = f" and dll: "dll (lns s) f fs" by (simp_all add: ring_def)
  from ring have nn: "NULL \<notin> set xs" and dom: "set xs = dom (nodes s)" unfolding ring_def by blast+
  have dist: "distinct xs" using dll by (simp add: xs dll_def)
  have en: "e \<noteq> NULL" "\<exists>n. nodes s e = Some n" using e nn dom by auto
  show ?thesis
  proof (cases "fs = []")
    case True
    with xs e have ef: "e = f" "xs = [e]" by auto
    with dll True have "get_next (lns s) e = Some e" using dll_head(1) [OF dll] by simp
    then obtain n where n: "nodes s e = Some n" "of_next n = e" by (auto simp: get_lns)
    let ?s = "s\<lparr>g_firstFile := NULL, nodes := (nodes s)(e := None)\<rparr>"
    have "do { s \<leftarrow> DelOpenFile e s; free_node e s } = Some ?s"
      using n en by (simp add: DelOpenFile_def node_at_def free_node_def)
    moreover have "ring ?s []" using dom ef by (auto simp: ring_def)
    moreover have "\<forall>b. b \<noteq> e \<longrightarrow> file_of ?s b = file_of s b" by (simp add: file_of_def)
    ultimately show ?thesis using ef by auto
  next
    case False
    obtain l ys zs rest where d: "dll (lns s) l (ys @ e # zs)" and set: "set (l # ys @ e # zs) = set xs"
      and rest: "remove1 e xs = rest" "rest \<noteq> []"
      and split: "(if e = f then hd (zs @ [l]) else f) = hd rest" "\<And>h. dll h l (ys @ zs) \<Longrightarrow> dll h (hd rest) (tl rest)"
    proof (cases "e = f")
      case True
      from False obtain g gs where fs: "fs = g # gs" by (cases fs) auto
      have d: "dll (lns s) g (gs @ [f])" using dll dll_rotate fs by auto
      show ?thesis
        by (rule that [of g gs "[]" "g # gs"]) (use True d xs fs in \<open>auto simp: dll_def\<close>)
    next
      case other: False
      with e xs obtain ys zs where fs: "fs = ys @ e # zs" by (auto dest: split_list)
      then have e_ys: "e \<notin> set ys" using dist xs by auto
      show ?thesis
        by (rule that [of f ys zs "f # ys @ zs"]) (use other dll xs fs e_ys in \<open>auto simp: remove1_append\<close>)
    qed
    have nn': "NULL \<notin> set (l # ys @ e # zs)" using nn set by simp
    from del_links [OF d nn'] obtain N where N: "DelOpenFile e s =
        Some (s\<lparr>g_firstFile := (if e = g_firstFile s then hd (zs @ [l]) else g_firstFile s), nodes := N\<rparr>)"
      and dN: "dll (lns (s\<lparr>nodes := N\<rparr>)) l (ys @ zs)" and fN: "file_of (s\<lparr>nodes := N\<rparr>) = file_of s"
      and domN: "dom N = dom (nodes s)" by blast
    let ?s = "s\<lparr>g_firstFile := hd rest, nodes := N(e := None)\<rparr>"
    have run: "do { s \<leftarrow> DelOpenFile e s; free_node e s } = Some ?s"
      using domN en split(1) by (auto simp: N first free_node_def dom_def)
    have e_not: "e \<notin> set rest" and set_rest: "set rest = set xs - {e}"
      using rest dist by (auto simp: distinct_remove1)
    have "e \<notin> insert l (set (ys @ zs))" using d by (auto simp: dll_def)
    then have "dll (lns ?s) l (ys @ zs)"
      using dll_fresh_node [OF dN, of e None] by (simp add: lns_def)
    then have "dll (lns ?s) (hd rest) (tl rest)" by (rule split(2))
    then have "ring ?s rest"
      using rest(2) nn set_rest domN dom by (cases rest) (auto simp: ring_def)
    moreover have "\<forall>b. b \<noteq> e \<longrightarrow> file_of ?s b = file_of s b"
      using fun_cong [OF fN] by (simp add: file_of_def)
    ultimately show ?thesis using run rest(1) by auto
  qed
qed


lemma files_okD:
  assumes "files_ok s xs"
  shows "ring s xs" and "distinct xs" and "a \<in> set xs \<Longrightarrow> file_of s a \<noteq> NULL"
    and "a \<in> set xs \<Longrightarrow> streams s (file_of s a) \<noteq> None" and "a \<in> set xs \<Longrightarrow> a \<noteq> NULL"
    and "a \<in> set xs \<Longrightarrow> node_at s a \<noteq> None"
proof -
  show ring: "ring s xs" and "distinct xs" using assms by (auto simp: files_ok_def distinct_map)
  assume a: "a \<in> set xs"
  then have "file_of s a \<in> dom (streams s)" using assms by (auto simp: files_ok_def)
  then show "streams s (file_of s a) \<noteq> None" and "file_of s a \<noteq> NULL"
    using assms by (auto simp: files_ok_def)
  show "a \<noteq> NULL" using ring a by (auto simp: ring_def)
  show "node_at s a \<noteq> None" using ring_node [OF ring a] by auto
qed

text \<open>Two nodes have different descriptors.\<close>

lemma same_fd:
  assumes "files_ok s xs" and "a \<in> set xs" and "b \<in> set xs"
    and "streams s (file_of s a) = streams s (file_of s b)"
  shows "a = b"
proof -
  have "file_of s a \<in> dom (streams s)" "file_of s b \<in> dom (streams s)"
    using assms by (auto simp: files_ok_def)
  with assms(1,4) have "file_of s a = file_of s b" unfolding files_ok_def by (meson inj_onD)
  with assms show ?thesis by (auto simp: files_ok_def distinct_map dest: inj_onD)
qed

text \<open>Closing a file: its stream ends, its node is unlinked and freed.\<close>

lemma DelOpenFile_ok:
  assumes ok: "files_ok s xs" and e: "e \<in> set xs"
  defines "s1 \<equiv> s\<lparr>streams := (streams s)(file_of s e := None)\<rparr>"
  shows "\<exists>s'. do { s \<leftarrow> DelOpenFile e s1; free_node e s } = Some s' \<and> files_ok s' (remove1 e xs) \<and>
    open_fds s' (remove1 e xs) = remove1 (the (streams s (file_of s e))) (open_fds s xs) \<and>
    s' = s1\<lparr>g_firstFile := g_firstFile s', nodes := nodes s'\<rparr>"
proof -
  from ok have ring: "ring s1 xs" and dist: "distinct xs" by (auto simp: files_ok_def distinct_map s1_def)
  from ring_del [OF ring e] obtain s' where s': "do { s \<leftarrow> DelOpenFile e s1; free_node e s } = Some s'"
    "ring s' (remove1 e xs)" "\<forall>b. b \<noteq> e \<longrightarrow> file_of s' b = file_of s b"
    "s' = s1\<lparr>g_firstFile := g_firstFile s', nodes := nodes s'\<rparr>" by (auto simp: s1_def)
  have str: "streams s' = (streams s)(file_of s e := None)" by (subst s'(4)) (simp add: s1_def)
  have rest: "set (remove1 e xs) = set xs - {e}" using dist by simp
  have other: "file_of s b \<noteq> file_of s e" if "b \<in> set xs - {e}" for b
    using that e ok by (auto simp: files_ok_def distinct_map dest: inj_onD)
  have same: "file_of s' b = file_of s b" if "b \<in> set xs - {e}" for b using that s'(3) by auto
  have dom: "dom (streams s') = dom (streams s) - {file_of s e}" by (auto simp: str)
  have "files_ok s' (remove1 e xs)"
    unfolding files_ok_def
  proof (intro conjI)
    show "ring s' (remove1 e xs)" by (rule s'(2))
    have "inj_on (file_of s') (set xs - {e})"
      using ok same by (auto simp: files_ok_def distinct_map inj_on_def)
    then show "distinct (map (file_of s') (remove1 e xs))"
      using dist by (simp add: distinct_map)
    have "file_of s' ` (set xs - {e}) = file_of s ` (set xs - {e})" using same by (intro image_cong) auto
    also have "\<dots> = file_of s ` set xs - {file_of s e}" using other by auto
    finally show "file_of s' ` set (remove1 e xs) = dom (streams s')"
      using ok by (simp add: dom rest files_ok_def)
    show "NULL \<notin> dom (streams s')" using ok by (auto simp: files_ok_def dom)
    show "inj_on (streams s') (dom (streams s'))" using ok by (auto simp: files_ok_def str inj_on_def)
  qed
  moreover have "open_fds s' (remove1 e xs) = remove1 (the (streams s (file_of s e))) (open_fds s xs)"
  proof -
    let ?g = "\<lambda>a. the (streams s (file_of s a))"
    have "inj_on ?g (set xs)"
    proof (rule inj_onI)
      fix a b assume ab: "a \<in> set xs" "b \<in> set xs" "?g a = ?g b"
      then have "streams s (file_of s a) = streams s (file_of s b)"
        using files_okD(4) [OF ok] by (metis option.exhaust_sel)
      with ab show "a = b" using same_fd [OF ok] by blast
    qed
    then have "map ?g (remove1 e xs) = remove1 (?g e) (map ?g xs)"
      using e by (induction xs) (auto simp: inj_on_def)
    moreover have "map (\<lambda>a. the (streams s' (file_of s' a))) (remove1 e xs) = map ?g (remove1 e xs)"
      using same other by (auto simp: str rest)
    ultimately show ?thesis by (simp add: open_fds_def)
  qed
  ultimately show ?thesis using s'(1,4) by blast
qed

subsection \<open>Finding a file\<close>

lemma ring_next:
  assumes ring: "ring s (ys @ p # zs)"
  shows "\<exists>n. node_at s p = Some n \<and> file_of s p = of_file n \<and>
    (case zs of [] \<Rightarrow> of_next n = g_firstFile s | z # _ \<Rightarrow> of_next n = z \<and> z \<noteq> g_firstFile s \<and> z \<noteq> NULL)"
proof -
  from ring_node [OF ring, of p] obtain n where n: "node_at s p = Some n" by auto
  have nz: "NULL \<notin> set (ys @ p # zs)" using ring unfolding ring_def by blast
  have "get_next (lns s) p = Some (hd (zs @ [g_firstFile s])) \<and> g_firstFile s \<notin> set zs"
  proof (cases ys)
    case Nil
    then have "dll (lns s) p zs" "g_firstFile s = p" using ring by (simp_all add: ring_def)
    then show ?thesis using dll_head(1) [of "lns s" p zs] by (auto simp: dll_def)
  next
    case (Cons y ys')
    then have "dll (lns s) y (ys' @ p # zs)" "g_firstFile s = y" using ring by (simp_all add: ring_def)
    then show ?thesis using dll_next_prev(1) [of "lns s" y ys' p zs] by (auto simp: dll_def)
  qed
  moreover have fo: "file_of s p = of_file n" and "get_next (lns s) p = Some (of_next n)"
    using n by (auto simp: file_of_def node_at_def get_lns split: if_splits)
  ultimately have nxt: "of_next n = hd (zs @ [g_firstFile s])" and "g_firstFile s \<notin> set zs" by simp_all
  then show ?thesis using n fo nz by (cases zs) auto
qed

lemma find_from_ring:
  assumes ok: "files_ok s (ys @ p # zs)"
  shows "find_from fd s p =
    Some (case List.find (\<lambda>a. streams s (file_of s a) = Some fd) (p # zs) of None \<Rightarrow> NULL | Some a \<Rightarrow> a)"
  using ok
proof (induction zs arbitrary: ys p)
  case Nil
  have p: "p \<in> set (ys @ [p])" by simp
  from ring_next [OF files_okD(1) [OF Nil]] obtain n where
    n: "node_at s p = Some n" "file_of s p = of_file n" "of_next n = g_firstFile s" by auto
  then obtain d where "streams s (of_file n) = Some d" "of_file n \<noteq> NULL" using files_okD(3,4) [OF Nil p] by auto
  then show ?case using n by (subst find_from.simps) (simp add: fileno_def)
next
  case (Cons z zs)
  have p: "p \<in> set (ys @ p # z # zs)" by simp
  from ring_next [OF files_okD(1) [OF Cons.prems]] obtain n where
    n: "node_at s p = Some n" "file_of s p = of_file n" "of_next n = z" "z \<noteq> g_firstFile s" "z \<noteq> NULL" by auto
  then obtain d where "streams s (of_file n) = Some d" "of_file n \<noteq> NULL" using files_okD(3,4) [OF Cons.prems p] by auto
  moreover have "find_from fd s z = Some (case List.find (\<lambda>a. streams s (file_of s a) = Some fd) (z # zs) of None \<Rightarrow> NULL | Some a \<Rightarrow> a)"
    using Cons.IH [of "ys @ [p]" z] Cons.prems by simp
  ultimately show ?case using n by (subst find_from.simps) (auto simp: fileno_def)
qed

text \<open>A node whose stream is closed: the search that comes to it uses the dead stream.\<close>

lemma find_from_dead:
  assumes "ring s (ys @ us @ a # zs)"
    and "\<And>b. b \<in> set us \<Longrightarrow> \<exists>d. streams s (file_of s b) = Some d \<and> d \<noteq> fd"
    and "streams s (file_of s a) = None" and "file_of s a \<noteq> NULL"
  shows "find_from fd s (hd (us @ [a])) = None"
  using assms(1,2)
proof (induction us arbitrary: ys)
  case Nil
  from ring_next [of s ys a zs] Nil(1) obtain n where "node_at s a = Some n" "file_of s a = of_file n" by auto
  then show ?case using assms(3,4) by (subst find_from.simps) (simp add: fileno_def)
next
  case (Cons p us)
  from Cons.prems(2) [of p] obtain d where d: "streams s (file_of s p) = Some d" "d \<noteq> fd" by auto
  from ring_next [of s ys p "us @ a # zs"] Cons.prems(1) obtain n where
    n: "node_at s p = Some n" "file_of s p = of_file n" "of_next n = hd (us @ [a])"
      "hd (us @ [a]) \<noteq> g_firstFile s" "hd (us @ [a]) \<noteq> NULL"
    by (cases us) auto
  have "find_from fd s (hd (us @ [a])) = None" using Cons.IH [of "ys @ [p]"] Cons.prems by simp
  then show ?case using n d by (subst find_from.simps) (simp add: fileno_def)
qed

lemma FindOpenFile_ok:
  assumes ok: "files_ok s xs"
  obtains (found) a where "FindOpenFile fd s = Some (1, a)" and "a \<in> set xs"
      and "streams s (file_of s a) = Some fd" and "node_at s a \<noteq> None"
    | (none) "FindOpenFile fd s = Some (0, NULL)" and "fd \<notin> set (open_fds s xs)"
proof (cases xs)
  case Nil
  then have "g_firstFile s = NULL" using ok by (simp add: files_ok_def ring_def)
  then show ?thesis using that(2) Nil by (simp add: FindOpenFile_def open_fds_def)
next
  case (Cons y ys)
  then have first: "g_firstFile s = y" using files_okD(1) [OF ok] by (simp add: ring_def)
  have yn: "y \<noteq> NULL" using files_okD(5) [OF ok, of y] Cons by simp
  have run: "find_from fd s y = Some (case List.find (\<lambda>a. streams s (file_of s a) = Some fd) xs of None \<Rightarrow> NULL | Some a \<Rightarrow> a)"
    using find_from_ring [of s "[]" y ys fd] ok Cons by simp
  show ?thesis
  proof (cases "List.find (\<lambda>a. streams s (file_of s a) = Some fd) xs")
    case None
    then have "fd \<notin> set (open_fds s xs)"
      using files_okD(4) [OF ok] by (force simp: open_fds_def find_None_iff)
    with None show ?thesis using that(2) first yn run by (simp add: FindOpenFile_def)
  next
    case (Some a)
    then have "a \<in> set xs" "streams s (file_of s a) = Some fd" by (auto simp: find_Some_iff)
    then show ?thesis using that(1) [of a] first yn run Some files_okD(5,6) [OF ok, of a] by (simp add: FindOpenFile_def)
  qed
qed

end
