(* ===== verification/Fs_Work.thy ===== *)
theory Fs_Work
  imports Fs_Path Fs_Files
begin

text \<open>
  The operations of the file agent: one definition per \<open>*Work\<close> function of
  \<open>src/services/teecd/src/fs_work_agent.c\<close> and per helper, the dispatch table, the handling of one
  event and the loop of the agent's thread.  A handler gets the request and the state and returns both.
\<close>

section \<open>Helpers on files and directories\<close>

definition ChownSecStorage :: "'w posix \<Rightarrow> string \<Rightarrow> bool \<Rightarrow> 'w fs \<Rightarrow> 'w fs" where
  "ChownSecStorage px path is_file s =
     (let (_, s) = fcall (px_chmod px path (if is_file then SFS_FILE_PERM else SFS_DIR_PERM)) s in s)"

text \<open>A heap buffer that is allocated and freed inside one function (\<open>strdup\<close>, the copy buffer).\<close>

definition alloc_tmp :: "'w posix \<Rightarrow> nat \<Rightarrow> 'w fs \<Rightarrow> addr \<times> 'w fs" where
  "alloc_tmp px n s =
     (let (a, s) = fcall (px_malloc px (used_mem s) n) s
      in if a = NULL then (NULL, s) else (a, s\<lparr>copybufs := insert a (copybufs s)\<rparr>))"

definition free_tmp :: "addr \<Rightarrow> 'w fs \<Rightarrow> 'w fs option" where
  "free_tmp a s = (if a \<in> copybufs s then Some (s\<lparr>copybufs := copybufs s - {a}\<rparr>) else None)"

text \<open>The loop of \<open>CreateDir\<close>: \<open>pre\<close> is the part of the path before the position, \<open>rest\<close> the part from it on.\<close>

fun create_dirs :: "'w posix \<Rightarrow> string \<Rightarrow> string \<Rightarrow> 'w fs \<Rightarrow> int \<times> 'w fs" where
  "create_dirs px pre [] s = (0, s)"
| "create_dirs px pre (c # rest) s =
     (if c = CHR ''/''
      then let (r, s) = fcall (px_access px pre F_OK) s
           in if r = 0
              then let (_, s) = fcall (px_chmod px pre SFS_DIR_PERM) s in create_dirs px (pre @ [c]) rest s
              else let (r, s) = fcall (px_mkdir px pre SFS_DIR_PERM) s
                   in if r \<noteq> 0 then (- 1, s) else create_dirs px (pre @ [c]) rest s
      else create_dirs px (pre @ [c]) rest s)"

definition CreateDir :: "'w posix \<Rightarrow> string \<Rightarrow> nat \<Rightarrow> 'w fs \<Rightarrow> (int \<times> 'w fs) option" where
  "CreateDir px path pathLen s =
     (if CheckPathLen path pathLen \<noteq> 0 then Some (- 1, s)
      else let (pathTemp, s) = alloc_tmp px (length path + 1) s
      in if pathTemp = NULL then Some (- 1, s)
         else let skip = (if strncmp0 path ''/'' (length ''/'') then 1
                          else if strncmp0 path ''./'' (length ''./'') then length ''./'' else 0);
                  (r, s) = create_dirs px (take skip path) (drop skip path) s
              in do { s \<leftarrow> free_tmp pathTemp s; Some (r, s) })"

text \<open>
  The loop over the entries of a directory and the function that removes one, which gets the
  recursive call as an argument.  \<open>UnlinkRecursive\<close> is given a bound on the depth of the recursion;
  the bound \<open>PATH_MAX\<close> is never reached (lemma \<open>UnlinkRecursive_returns\<close>), because every level makes
  the path longer and \<open>snprintf_s\<close> fails at \<open>PATH_MAX\<close> characters.
\<close>

fun unlink_entries ::
  "securec \<Rightarrow> 'w posix \<Rightarrow> (string \<Rightarrow> 'w fs \<Rightarrow> (int \<times> 'w fs) option) \<Rightarrow> string \<Rightarrow> string list \<Rightarrow> 'w fs \<Rightarrow>
     (bool \<times> 'w fs) option" where
  "unlink_entries sc px rec name [] s = Some (False, s)"
| "unlink_entries sc px rec name (d # ds) s =
     (if strncmp0 d ''..'' 3 \<or> strncmp0 d ''.'' 2
      then unlink_entries sc px rec name ds (s\<lparr>fworld := px_readdir px (fworld s)\<rparr>)
      else let (rc, dn) = snprintf_s sc PATH_MAX (PATH_MAX - 1) (name @ ''/'' @ d)
           in if rc = - 1 then Some (True, s)
              else do {
                (r, s) \<leftarrow> rec dn s;
                if r < 0 then Some (True, s)
                else let s = s\<lparr>fworld := px_set_errno px 0 (fworld s)\<rparr>
                     in unlink_entries sc px rec name ds (s\<lparr>fworld := px_readdir px (fworld s)\<rparr>)
              })"

definition UnlinkRecursiveDir ::
  "securec \<Rightarrow> 'w posix \<Rightarrow> (string \<Rightarrow> 'w fs \<Rightarrow> (int \<times> 'w fs) option) \<Rightarrow> string \<Rightarrow> 'w fs \<Rightarrow> (int \<times> 'w fs) option" where
  "UnlinkRecursiveDir sc px rec name s =
     (let (dir, s) = fcall (px_opendir px name) s
      in case dir of
           None \<Rightarrow> Some (- 1, s)
         | Some entries \<Rightarrow> do {
             let s = s\<lparr>fworld := px_set_errno px 0 (fworld s)\<rparr>;
             (fail, s) \<leftarrow> unlink_entries sc px rec name entries (s\<lparr>fworld := px_readdir px (fworld s)\<rparr>);
             if fail \<or> errno px s < 0
             then let save = errno px s;
                      (_, s) = fcall (px_closedir px) s
                  in Some (- 1, s\<lparr>fworld := px_set_errno px save (fworld s)\<rparr>)
             else let (r, s) = fcall (px_closedir px) s
                  in if r < 0 then Some (- 1, s)
                     else let (r, s) = fcall (px_rmdir px name) s
                          in if r < 0 then Some (- 1, s) else Some (0, s)
           })"

fun UnlinkRecursive :: "securec \<Rightarrow> 'w posix \<Rightarrow> nat \<Rightarrow> string \<Rightarrow> 'w fs \<Rightarrow> (int \<times> 'w fs) option" where
  "UnlinkRecursive sc px 0 name s = None"
| "UnlinkRecursive sc px (Suc depth) name s =
     (let ((r, isdir), s) = fcall (px_lstat px name) s
      in if r < 0 then Some (- 1, s)
         else if \<not> isdir
         then let (r, s) = fcall (px_unlink px name) s in if r < 0 then Some (- 1, s) else Some (0, s)
         else UnlinkRecursiveDir sc px (UnlinkRecursive sc px depth) name s)"

definition IsFileExist :: "'w posix \<Rightarrow> string \<Rightarrow> 'w fs \<Rightarrow> int \<times> 'w fs" where
  "IsFileExist px name s =
     (let (r, s) = fcall (px_stat px name) s
      in if r \<noteq> 0 then (if errno px s = ENOENT then (0, s) else (1, s)) else (1, s))"

section \<open>Opening and closing\<close>

definition SetCurrent :: "SecStorageType \<Rightarrow> 'w fs \<Rightarrow> 'w fs" where
  "SetCurrent tc s = s\<lparr>g_userId := userId tc, g_storageId := storageId tc\<rparr>"

definition Join :: "securec \<Rightarrow> string \<Rightarrow> 'w fs \<Rightarrow> (int \<times> string) option" where
  "Join sc name s = JoinFileName sc (g_userId s) (g_storageId s) name [] FILE_NAME_MAX_BUF"

definition DoOpenFile ::
  "securec \<Rightarrow> 'w posix \<Rightarrow> string \<Rightarrow> SecStorageType \<Rightarrow> 'w fs \<Rightarrow> ((u32 \<times> SecStorageType) \<times> 'w fs) option" where
  "DoOpenFile sc px path tc s =
     (let ((rRet, trustPath), s) = GetRealFilePath sc px path PATH_MAX s
      in if rRet \<noteq> 0 then Some ((rRet, tc), s)
         else do {
           mode \<leftarrow> args_str open_mode tc;
           let (pFile, s) = do_fopen px trustPath mode s;
           if pFile = NULL then Some ((uint32_of (errno px s), tc), s)
           else do {
             let s = ChownSecStorage px trustPath True s;
             (r, s) \<leftarrow> AddOpenFile px pFile s;
             if r \<noteq> 0 then do {
               (_, s) \<leftarrow> do_fclose px pFile s;
               Some ((ENOMEM, tc), s)
             } else do {
               fd \<leftarrow> fileno s pFile;
               Some ((0, tc\<lparr>ret := fd\<rparr>), s)
             }
           }
         })"

definition CheckPartitionReady :: "'w posix \<Rightarrow> string \<Rightarrow> 'w fs \<Rightarrow> int \<times> 'w fs" where
  "CheckPartitionReady px mntDir s =
     (let ((err, rootStat), s) = fcall (px_statfs px ''/'') s
      in if err \<noteq> 0 then (err, s)
         else let ((err, secStorageStat), s) = fcall (px_statfs px mntDir) s
              in if err \<noteq> 0 then (err, s)
                 else (if f_blocks rootStat \<noteq> f_blocks secStorageStat then 1 else 0, s))"

definition CheckOpenWorkValid ::
  "securec \<Rightarrow> 'w posix \<Rightarrow> string \<Rightarrow> SecStorageType \<Rightarrow> 'w fs \<Rightarrow> ((int \<times> SecStorageType) \<times> 'w fs) option" where
  "CheckOpenWorkValid sc px nameBuff tc s =
     (if cmd_of (cmd tc) = Some SEC_CREATE
      then let (rc, mode) = strncpy_s sc 4 ''w+'' 3
           in do {
             tc \<leftarrow> set_args_bytes open_mode (map byte_of mode @ [0]) tc;
             Some ((if rc \<noteq> EOK then ENOENT else 0, tc), s)
           }
      else let (r, s) = IsFileExist px nameBuff s
           in Some ((if r = 0 then ENOENT else 0, tc), s))"

definition OpenWork :: "securec \<Rightarrow> 'w posix \<Rightarrow> SecStorageType \<Rightarrow> 'w fs \<Rightarrow> (SecStorageType \<times> 'w fs) option" where
  "OpenWork sc px tc s = do {
     let s = SetCurrent tc s;
     name \<leftarrow> args_str open_name tc;
     (r, nameBuff) \<leftarrow> Join sc name s;
     if r \<noteq> 0 then Some (tc\<lparr>ret := - 1\<rparr>, s)
     else do {
       let (ready, s) =
         (if strstr nameBuff SFS_PARTITION_PERSISTENT \<noteq> None then CheckPartitionReady px ''/sec_storage'' s else (1, s));
       if ready \<le> 0 then Some (tc\<lparr>ret := - 1\<rparr>, s)
       else do {
         ((v, tc), s) \<leftarrow> CheckOpenWorkValid sc px nameBuff tc s;
         if v \<noteq> 0 then Some (tc\<lparr>ret := - 1, error := uint32_of ENOENT\<rparr>, s)
         else do {
           (r, s) \<leftarrow> CreateDir px nameBuff FILE_NAME_MAX_BUF s;
           if r \<noteq> 0 then Some (tc\<lparr>ret := - 1, error := uint32_of (errno px s)\<rparr>, s)
           else do {
             ((err, tc), s) \<leftarrow> DoOpenFile sc px nameBuff tc s;
             if err \<noteq> 0 then Some (tc\<lparr>ret := - 1, error := err\<rparr>, s) else Some (tc, s)
           }
         }
       }
     }
   }"

definition CloseWork :: "'w posix \<Rightarrow> SecStorageType \<Rightarrow> 'w fs \<Rightarrow> (SecStorageType \<times> 'w fs) option" where
  "CloseWork px tc s = do {
     fd \<leftarrow> args_i32 file_fd tc;
     (found, selFile) \<leftarrow> FindOpenFile fd s;
     if found \<noteq> 0 then do {
       n \<leftarrow> node_at s selFile;
       (r, s) \<leftarrow> do_fclose px (of_file n) s;
       if r = 0 then do {
         s \<leftarrow> DelOpenFile selFile s;
         s \<leftarrow> free_node selFile s;
         Some (tc\<lparr>ret := r\<rparr>, s)
       } else Some (tc\<lparr>error := uint32_of (errno px s), ret := r\<rparr>, s)
     } else Some (tc\<lparr>ret := - 1, error := EBADF\<rparr>, s)
   }"

section \<open>Reading, writing, seeking\<close>

definition ReadWork :: "'w posix \<Rightarrow> SecStorageType \<Rightarrow> 'w fs \<Rightarrow> (SecStorageType \<times> 'w fs) option" where
  "ReadWork px tc s = do {
     fd \<leftarrow> args_i32 file_fd tc;
     (found, selFile) \<leftarrow> FindOpenFile fd s;
     if found \<noteq> 0 then do {
       n \<leftarrow> node_at s selFile;
       want \<leftarrow> args_u32 rw_count tc;
       (bytes, s) \<leftarrow> on_stream (of_file n) (px_fread px (of_file n) (unat want)) s;
       tc \<leftarrow> set_args_bytes rw_buffer bytes tc;
       let count = length bytes;
       let tc = tc\<lparr>ret := int32_of (of_nat count)\<rparr>;
       if count < unat want then do {
         (eof, s) \<leftarrow> on_stream (of_file n) (px_feof px (of_file n)) s;
         if eof then Some (tc\<lparr>ret2 := 0\<rparr>, s)
         else Some (tc\<lparr>ret2 := - 1, error := uint32_of (errno px s)\<rparr>, s)
       } else Some (tc\<lparr>ret2 := 0\<rparr>, s)
     } else Some (tc\<lparr>ret := 0, ret2 := - 1, error := EBADF\<rparr>, s)
   }"

definition WriteWork :: "'w posix \<Rightarrow> SecStorageType \<Rightarrow> 'w fs \<Rightarrow> (SecStorageType \<times> 'w fs) option" where
  "WriteWork px tc s = do {
     fd \<leftarrow> args_i32 file_fd tc;
     (found, selFile) \<leftarrow> FindOpenFile fd s;
     if found \<noteq> 0 then do {
       n \<leftarrow> node_at s selFile;
       want \<leftarrow> args_u32 rw_count tc;
       bytes \<leftarrow> get_bytes (args tc) rw_buffer (unat want);
       (count, s) \<leftarrow> on_stream (of_file n) (px_fwrite px (of_file n) bytes) s;
       if count < unat want
       then Some (tc\<lparr>ret := int32_of (of_nat count), error := uint32_of (errno px s)\<rparr>, s)
       else if ret2 tc = SEC_WRITE_SSA then do {
         (r, s) \<leftarrow> on_stream (of_file n) (px_fflush px (of_file n)) s;
         if r \<noteq> 0 then Some (tc\<lparr>ret := 0, error := uint32_of (errno px s)\<rparr>, s)
         else Some (tc\<lparr>ret := int32_of (of_nat count)\<rparr>, s)
       } else Some (tc\<lparr>ret := int32_of (of_nat count), error := 0\<rparr>, s)
     } else Some (tc\<lparr>ret := 0, error := EBADF\<rparr>, s)
   }"

definition SeekWork :: "'w posix \<Rightarrow> SecStorageType \<Rightarrow> 'w fs \<Rightarrow> (SecStorageType \<times> 'w fs) option" where
  "SeekWork px tc s = do {
     fd \<leftarrow> args_i32 file_fd tc;
     (found, selFile) \<leftarrow> FindOpenFile fd s;
     if found \<noteq> 0 then do {
       n \<leftarrow> node_at s selFile;
       offset \<leftarrow> args_i32 seek_offset tc;
       whence \<leftarrow> args_i32 seek_whence tc;
       (r, s) \<leftarrow> on_stream (of_file n) (px_fseek px (of_file n) offset whence) s;
       let tc = (if r \<noteq> 0 then tc\<lparr>error := uint32_of (errno px s)\<rparr> else tc);
       Some (tc\<lparr>ret := r\<rparr>, s)
     } else Some (tc\<lparr>ret := - 1, error := EBADF\<rparr>, s)
   }"

section \<open>Operations on names\<close>

definition RemoveWork :: "securec \<Rightarrow> 'w posix \<Rightarrow> SecStorageType \<Rightarrow> 'w fs \<Rightarrow> (SecStorageType \<times> 'w fs) option" where
  "RemoveWork sc px tc s = do {
     let s = SetCurrent tc s;
     name \<leftarrow> args_str remove_name tc;
     (r, nameBuff) \<leftarrow> Join sc name s;
     if r = 0 then do {
       (r, s) \<leftarrow> UnlinkRecursive sc px PATH_MAX nameBuff s;
       let tc = (if r \<noteq> 0 then tc\<lparr>error := uint32_of (errno px s)\<rparr> else tc);
       Some (tc\<lparr>ret := r\<rparr>, s)
     } else Some (tc\<lparr>ret := - 1\<rparr>, s)
   }"

definition TruncateWork :: "securec \<Rightarrow> 'w posix \<Rightarrow> SecStorageType \<Rightarrow> 'w fs \<Rightarrow> (SecStorageType \<times> 'w fs) option" where
  "TruncateWork sc px tc s = do {
     let s = SetCurrent tc s;
     name \<leftarrow> args_str truncate_name tc;
     (r, nameBuff) \<leftarrow> Join sc name s;
     if r = 0 then do {
       len \<leftarrow> args_u32 truncate_len tc;
       let (r, s) = fcall (px_truncate px nameBuff len) s;
       let tc = (if r \<noteq> 0 then tc\<lparr>error := uint32_of (errno px s)\<rparr> else tc);
       Some (tc\<lparr>ret := r\<rparr>, s)
     } else Some (tc\<lparr>ret := - 1\<rparr>, s)
   }"

text \<open>The two names of a rename or copy request, joined; both are joined before either result is looked at.\<close>

definition two_paths :: "securec \<Rightarrow> SecStorageType \<Rightarrow> 'w fs \<Rightarrow> (string \<times> string) option option" where
  "two_paths sc tc s = do {
     name1 \<leftarrow> args_str two_names tc;
     (joinRet1, path1) \<leftarrow> Join sc name1 s;
     len1 \<leftarrow> args_u32 first_len tc;
     name2 \<leftarrow> args_str (two_names + unat len1) tc;
     (joinRet2, path2) \<leftarrow> Join sc name2 s;
     Some (if joinRet1 = 0 \<and> joinRet2 = 0 then Some (path1, path2) else None)
   }"

definition RenameWork :: "securec \<Rightarrow> 'w posix \<Rightarrow> SecStorageType \<Rightarrow> 'w fs \<Rightarrow> (SecStorageType \<times> 'w fs) option" where
  "RenameWork sc px tc s = do {
     let s = SetCurrent tc s;
     names \<leftarrow> two_paths sc tc s;
     case names of
       Some (nameBuff, nameBuff2) \<Rightarrow>
         let (r, s) = fcall (px_rename px nameBuff nameBuff2) s;
             tc = (if r \<noteq> 0 then tc\<lparr>error := uint32_of (errno px s)\<rparr> else tc)
         in Some (tc\<lparr>ret := r\<rparr>, s)
     | None \<Rightarrow> Some (tc\<lparr>ret := - 1\<rparr>, s)
   }"

section \<open>Copying\<close>

definition tee_open :: "'w posix \<Rightarrow> string \<Rightarrow> bool \<Rightarrow> u32 \<Rightarrow> 'w fs \<Rightarrow> int \<times> 'w fs" where
  "tee_open px path wr mode s =
     (let (fd, s) = fcall (px_open px (used_fd s) path wr mode) s
      in if fd \<ge> 0 then (fd, s\<lparr>fds := insert fd (fds s)\<rparr>) else (fd, s))"

definition close_fd :: "'w posix \<Rightarrow> int \<Rightarrow> 'w fs \<Rightarrow> 'w fs" where
  "close_fd px fd s =
     (if fd < 0 then s else s\<lparr>fds := fds s - {fd}, fworld := px_close px fd (fworld s)\<rparr>)"

text \<open>The loop that moves the data; it ends when the source does, or with an error.\<close>

partial_function (option) copy_loop :: "'w posix \<Rightarrow> int \<Rightarrow> int \<Rightarrow> 'w fs \<Rightarrow> (bool \<times> 'w fs) option" where
  "copy_loop px fromFd toFd s =
     (let (rd, s) = fcall (px_read px fromFd MAXBSIZE) s
      in case rd of
           None \<Rightarrow> Some (False, s)
         | Some bytes \<Rightarrow>
             if bytes = [] then Some (True, s)
             else let (wcount, s) = fcall (px_write px toFd bytes) s
                  in if int (length bytes) \<noteq> wcount \<or> wcount = - 1 then Some (False, s)
                     else copy_loop px fromFd toFd s)"

definition DoCopy :: "'w posix \<Rightarrow> int \<Rightarrow> int \<Rightarrow> 'w fs \<Rightarrow> (int \<times> 'w fs) option" where
  "DoCopy px fromFd toFd s =
     (let (buf, s) = alloc_tmp px MAXBSIZE s
      in if buf = NULL then Some (- 1, s)
         else do {
           (good, s) \<leftarrow> copy_loop px fromFd toFd s;
           let (r, s) = (if good then fcall (px_fsync px toFd) s else (- 1, s));
           s \<leftarrow> free_tmp buf s;
           Some (r, s)
         })"

definition CopyFile :: "securec \<Rightarrow> 'w posix \<Rightarrow> string \<Rightarrow> string \<Rightarrow> 'w fs \<Rightarrow> (int \<times> 'w fs) option" where
  "CopyFile sc px fromPath toPath s =
     (let ((rRet, realFromPath), s) = GetRealFilePath sc px fromPath PATH_MAX s
      in if rRet \<noteq> 0 then Some (- 1, s)
         else let ((rRet, realToPath), s) = GetRealFilePath sc px toPath PATH_MAX s
         in if rRet \<noteq> 0 then Some (- 1, s)
            else let (fromFd, s) = tee_open px realFromPath False 0 s
            in if fromFd = - 1 then Some (- 1, s)
               else let ((r, fromStat), s) = fcall (px_fstat px fromFd) s
               in if r = - 1 then Some (r, close_fd px fromFd s)
                  else let (toFd, s) = tee_open px realToPath True (st_mode fromStat) s
                  in if toFd = - 1 then Some (- 1, close_fd px fromFd s)
                     else do {
                       (r, s) \<leftarrow> DoCopy px fromFd toFd s;
                       let s = (if r \<noteq> 0 then s else ChownSecStorage px realToPath True s);
                       Some (r, close_fd px toFd (close_fd px fromFd s))
                     })"

definition CopyWork :: "securec \<Rightarrow> 'w posix \<Rightarrow> SecStorageType \<Rightarrow> 'w fs \<Rightarrow> (SecStorageType \<times> 'w fs) option" where
  "CopyWork sc px tc s = do {
     let s = SetCurrent tc s;
     names \<leftarrow> two_paths sc tc s;
     case names of
       Some (fromPath, toPath) \<Rightarrow> do {
         (r, s) \<leftarrow> CopyFile sc px fromPath toPath s;
         let tc = (if r \<noteq> 0 then tc\<lparr>error := uint32_of (errno px s)\<rparr> else tc);
         Some (tc\<lparr>ret := r\<rparr>, s)
       }
     | None \<Rightarrow> Some (tc\<lparr>ret := - 1\<rparr>, s)
   }"

section \<open>Information and synchronisation\<close>

definition FileInfoWork :: "'w posix \<Rightarrow> SecStorageType \<Rightarrow> 'w fs \<Rightarrow> (SecStorageType \<times> 'w fs) option" where
  "FileInfoWork px tc s = do {
     tc \<leftarrow> set_args_u32 info_curPos 0 tc;
     tc \<leftarrow> set_args_u32 info_fileLen 0 tc;
     fd \<leftarrow> args_i32 file_fd tc;
     (found, selFile) \<leftarrow> FindOpenFile fd s;
     if found \<noteq> 0 then do {
       let ((r, statBuff), s) = fcall (px_fstat px fd) s;
       if r = 0 then do {
         n \<leftarrow> node_at s selFile;
         tc \<leftarrow> set_args_u32 info_fileLen (ucast (st_size statBuff)) tc;
         (pos, s) \<leftarrow> on_stream (of_file n) (px_ftell px (of_file n)) s;
         tc \<leftarrow> set_args_u32 info_curPos (uint32_of pos) tc;
         Some (tc\<lparr>ret := r\<rparr>, s)
       } else Some (tc\<lparr>error := uint32_of (errno px s), ret := r\<rparr>, s)
     } else Some (tc\<lparr>ret := - 1, error := EBADF\<rparr>, s)
   }"

definition FileAccessWork :: "securec \<Rightarrow> 'w posix \<Rightarrow> SecStorageType \<Rightarrow> 'w fs \<Rightarrow> (SecStorageType \<times> 'w fs) option" where
  "FileAccessWork sc px tc s =
     (if cmd_of (cmd tc) = Some SEC_ACCESS
      then do {
        let s = SetCurrent tc s;
        name \<leftarrow> args_str access_name tc;
        (r, nameBuff) \<leftarrow> Join sc name s;
        if r = 0 then do {
          mode \<leftarrow> args_i32 access_mode tc;
          let (r, s) = fcall (px_access px nameBuff mode) s;
          Some (tc\<lparr>ret := r, error := uint32_of (errno px s)\<rparr>, s)
        } else Some (tc\<lparr>ret := - 1\<rparr>, s)
      }
      else do {
        name \<leftarrow> args_str access_name tc;
        mode \<leftarrow> args_i32 access_mode tc;
        let (r, s) = fcall (px_access px name mode) s;
        Some (tc\<lparr>ret := r, error := uint32_of (errno px s)\<rparr>, s)
      })"

definition FsyncWork :: "'w posix \<Rightarrow> SecStorageType \<Rightarrow> 'w fs \<Rightarrow> (SecStorageType \<times> 'w fs) option" where
  "FsyncWork px tc s = do {
     fd \<leftarrow> args_i32 file_fd tc;
     (found, selFile) \<leftarrow> (if fd \<noteq> 0 then FindOpenFile fd s else Some (0, NULL));
     if found \<noteq> 0 then do {
       n \<leftarrow> node_at s selFile;
       (r, s) \<leftarrow> on_stream (of_file n) (px_fflush px (of_file n)) s;
       if r \<noteq> 0 then Some (tc\<lparr>ret := - 1, error := uint32_of (errno px s)\<rparr>, s)
       else do {
         d \<leftarrow> fileno s (of_file n);
         let (r, s) = fcall (px_fsync px d) s;
         if r \<noteq> 0 then Some (tc\<lparr>ret := - 1, error := uint32_of (errno px s)\<rparr>, s)
         else Some (tc\<lparr>ret := 0\<rparr>, s)
       }
     } else Some (tc\<lparr>ret := - 1, error := EBADF\<rparr>, s)
   }"

text \<open>The free space in kilobytes, computed in 32 bits.\<close>

definition remain_kb :: "statfs \<Rightarrow> u32" where
  "remain_kb st = ucast (f_bfree st) * ucast (f_bsize st) div KBYTE"

definition DiskUsageWork :: "securec \<Rightarrow> 'w posix \<Rightarrow> SecStorageType \<Rightarrow> 'w fs \<Rightarrow> (SecStorageType \<times> 'w fs) option" where
  "DiskUsageWork sc px tc s =
     (let fail = (\<lambda>s. Some (tc\<lparr>ret := - 1, error := uint32_of (errno px s)\<rparr>, s));
          (r, nameBuff) = GetTransientDir sc [] FILE_NAME_MAX_BUF
      in if r \<noteq> 0 then fail s
         else let ((r, st), s) = fcall (px_statfs px nameBuff) s
         in if r < 0 then fail s
            else let dataRemain = remain_kb st;
                     (r, nameBuff) = GetPersistentDir sc nameBuff FILE_NAME_MAX_BUF
            in if r \<noteq> 0 then fail s
               else let (r, nameBuff) = strncat_s sc FILE_NAME_MAX_BUF nameBuff SFS_PARTITION_PERSISTENT
                                          (length SFS_PARTITION_PERSISTENT)
               in if r \<noteq> EOK then fail s
                  else let ((r, st), s) = fcall (px_statfs px nameBuff) s
                  in if r < 0 then fail s
                     else do {
                       tc \<leftarrow> set_args_u32 du_data dataRemain (tc\<lparr>ret := 0\<rparr>);
                       tc \<leftarrow> set_args_u32 du_secStorage (remain_kb st) tc;
                       Some (tc, s)
                     })"

definition DeleteAllWork :: "securec \<Rightarrow> 'w posix \<Rightarrow> SecStorageType \<Rightarrow> 'w fs \<Rightarrow> (SecStorageType \<times> 'w fs) option" where
  "DeleteAllWork sc px tc s = do {
     let s = s\<lparr>g_userId := userId tc\<rparr>;
     pathIn \<leftarrow> args_str deleteAll_path tc;
     let (r, path) = DoJoinFileName sc pathIn [] FILE_NAME_MAX_BUF;
     if r \<noteq> EOK then Some (tc\<lparr>ret := - 1\<rparr>, s)
     else do {
       (r, s) \<leftarrow> UnlinkRecursive sc px PATH_MAX path s;
       let tc = (if r \<noteq> 0 then tc\<lparr>error := uint32_of (errno px s)\<rparr> else tc);
       Some (tc\<lparr>ret := r\<rparr>, s)
     }
   }"

section \<open>Events\<close>

fun g_fsWorkTbl ::
  "securec \<Rightarrow> 'w posix \<Rightarrow> FsCmdType \<Rightarrow> SecStorageType \<Rightarrow> 'w fs \<Rightarrow> (SecStorageType \<times> 'w fs) option" where
  "g_fsWorkTbl sc px SEC_OPEN = OpenWork sc px"
| "g_fsWorkTbl sc px SEC_CLOSE = CloseWork px"
| "g_fsWorkTbl sc px SEC_READ = ReadWork px"
| "g_fsWorkTbl sc px SEC_WRITE = WriteWork px"
| "g_fsWorkTbl sc px SEC_SEEK = SeekWork px"
| "g_fsWorkTbl sc px SEC_REMOVE = RemoveWork sc px"
| "g_fsWorkTbl sc px SEC_TRUNCATE = TruncateWork sc px"
| "g_fsWorkTbl sc px SEC_RENAME = RenameWork sc px"
| "g_fsWorkTbl sc px SEC_CREATE = OpenWork sc px"
| "g_fsWorkTbl sc px SEC_INFO = FileInfoWork px"
| "g_fsWorkTbl sc px SEC_ACCESS = FileAccessWork sc px"
| "g_fsWorkTbl sc px SEC_ACCESS2 = FileAccessWork sc px"
| "g_fsWorkTbl sc px SEC_FSYNC = FsyncWork px"
| "g_fsWorkTbl sc px SEC_CP = CopyWork sc px"
| "g_fsWorkTbl sc px SEC_DISKUSAGE = DiskUsageWork sc px"
| "g_fsWorkTbl sc px SEC_DELETE_ALL = DeleteAllWork sc px"

definition FsWorkEventHandle ::
  "securec \<Rightarrow> 'w posix \<Rightarrow> SecStorageType \<Rightarrow> int \<Rightarrow> 'w fs \<Rightarrow> ((int \<times> SecStorageType) \<times> 'w fs) option" where
  "FsWorkEventHandle sc px tc fsFd s =
     (let ((r, tc), s) = fcall (px_event px fsFd FS_WAIT_EVENT AGENT_FS_ID tc) s
      in if r \<noteq> 0 then Some ((r, tc), s)
         else do {
           (tc, s) \<leftarrow>
             (if magic tc = AGENT_FS_ID then Some (tc, s)
              else do {
                (tc, s) \<leftarrow> (case cmd_of (cmd tc) of Some c \<Rightarrow> g_fsWorkTbl sc px c tc s | None \<Rightarrow> Some (tc, s));
                Some (tc\<lparr>magic := AGENT_FS_ID\<rparr>, s)
              });
           let ((r, tc), s) = fcall (px_event px fsFd FS_SEND_EVENT_RESPONSE AGENT_FS_ID tc) s;
           if r \<noteq> 0 then Some ((r, tc), s) else Some ((0, tc), s)
         })"

partial_function (option) fs_loop ::
  "securec \<Rightarrow> 'w posix \<Rightarrow> SecStorageType \<Rightarrow> int \<Rightarrow> 'w fs \<Rightarrow> (SecStorageType \<times> 'w fs) option" where
  "fs_loop sc px tc fsFd s =
     FsWorkEventHandle sc px tc fsFd s \<bind> (\<lambda>((r, tc), s). if r \<noteq> 0 then Some (tc, s) else fs_loop sc px tc fsFd s)"

text \<open>\<open>FsWorkThread\<close> up to its loop: the thread does not start without a buffer or a descriptor.\<close>

definition FsWorkThread ::
  "securec \<Rightarrow> 'w posix \<Rightarrow> SecStorageType option \<Rightarrow> int \<Rightarrow> 'w fs \<Rightarrow> (SecStorageType option \<times> 'w fs) option" where
  "FsWorkThread sc px control fsFd s =
     (case control of
        None \<Rightarrow> Some (None, s)
      | Some tc \<Rightarrow>
          if fsFd = - 1 then Some (Some tc, s)
          else let tc = tc\<lparr>magic := AGENT_FS_ID\<rparr>;
                   (_, s) = fcall (px_setpriority px) s
               in do { (tc, s) \<leftarrow> fs_loop sc px tc fsFd s; Some (Some tc, s) })"

definition SetFileNumLimit :: "'w posix \<Rightarrow> 'w fs \<Rightarrow> 'w fs" where
  "SetFileNumLimit px s =
     (let ((rRet, rlim_max), s) = fcall (px_getrlimit px) s
      in if rRet = 0
         then let (r, s) = fcall (px_setrlimit px FILE_NUM_LIMIT_MAX FILE_NUM_LIMIT_MAX) s
              in if r \<noteq> 0 then snd (fcall (px_setrlimit px rlim_max rlim_max) s) else s
         else s)"

end
