(* ===== verification/Fs_Tree.thy ===== *)
theory Fs_Tree
  imports Fs_Work
begin

text \<open>
  The helpers of the file agent that work on directories and files: creating directories,
  removing a tree and copying a file.  They return, and of the agent's state they change only the
  world.
\<close>

section \<open>Helpers\<close>

lemma ChownSecStorage_same: "same_files s (ChownSecStorage px p b s)"
  by (simp add: ChownSecStorage_def fcall_pair)

lemma create_dirs_world: "create_dirs px pre rest s = (r, s') \<Longrightarrow> \<exists>w. s' = s\<lparr>fworld := w\<rparr>"
proof (induction px pre rest s arbitrary: r s' rule: create_dirs.induct)
  case (1 px pre s)
  then show ?case by (auto intro: exI [of _ "fworld s"])
next
  case (2 px pre c rest s)
  show ?case
  proof (cases "c = CHR ''/''")
    case False
    then show ?thesis using 2 by auto
  next
    case True
    obtain r1 w1 where acc: "fcall (px_access px pre F_OK) s = (r1, s\<lparr>fworld := w1\<rparr>)" by (rule fcallE)
    let ?s = "s\<lparr>fworld := w1\<rparr>"
    obtain r2 w2 where ch: "fcall (px_chmod px pre SFS_DIR_PERM) ?s = (r2, ?s\<lparr>fworld := w2\<rparr>)" by (rule fcallE)
    obtain r3 w3 where mk: "fcall (px_mkdir px pre SFS_DIR_PERM) ?s = (r3, ?s\<lparr>fworld := w3\<rparr>)" by (rule fcallE)
    show ?thesis
    proof (cases "r1 = 0")
      case r1: True
      with True 2(4) acc ch have "create_dirs px (pre @ [c]) rest (s\<lparr>fworld := w2\<rparr>) = (r, s')" by simp
      with 2(1) [OF True acc [symmetric] refl r1 ch [symmetric] refl] show ?thesis by fastforce
    next
      case r1: False
      show ?thesis
      proof (cases "r3 = 0")
        case r3: True
        with True r1 2(4) acc mk have "create_dirs px (pre @ [c]) rest (s\<lparr>fworld := w3\<rparr>) = (r, s')" by simp
        with 2(2) [OF True acc [symmetric] refl r1 mk [symmetric] refl] r3 show ?thesis by fastforce
      next
        case r3: False
        with True r1 2(4) acc mk show ?thesis by auto
      qed
    qed
  qed
qed

lemma alloc_tmpE:
  assumes "fresh_ok px"
  obtains (fail) w where "alloc_tmp px n s = (NULL, s\<lparr>fworld := w\<rparr>)"
    | (alloc) a w where "alloc_tmp px n s = (a, s\<lparr>copybufs := insert a (copybufs s), fworld := w\<rparr>)"
        and "a \<noteq> NULL" and "a \<notin> copybufs s"
proof -
  obtain a w where m: "px_malloc px (used_mem s) n (fworld s) = (a, w)" by fastforce
  have a: "a = NULL \<or> \<not> used_mem s a" using assms m unfolding fresh_ok_def by (metis fst_conv)
  show ?thesis
  proof (cases "a = NULL")
    case True
    with m show ?thesis by (intro fail [of w]) (simp add: alloc_tmp_def fcall_def)
  next
    case False
    with a m show ?thesis by (intro alloc [of a w]) (simp_all add: alloc_tmp_def fcall_def used_mem_def)
  qed
qed

lemma free_tmp_fresh:
  "a \<notin> copybufs s \<Longrightarrow> free_tmp a (s\<lparr>copybufs := insert a (copybufs s), fworld := w\<rparr>) = Some (s\<lparr>fworld := w\<rparr>)"
  by (simp add: free_tmp_def)

lemma CreateDir_run:
  assumes "fresh_ok px"
  shows "ok (CreateDir px path n s) (\<lambda>(r, s'). same_files s s')"
proof (rule alloc_tmpE [OF assms, of "length path + 1" s])
  fix w assume "alloc_tmp px (length path + 1) s = (NULL, s\<lparr>fworld := w\<rparr>)"
  then show ?thesis by (simp add: CreateDir_def)
next
  fix a w assume a: "alloc_tmp px (length path + 1) s = (a, s\<lparr>copybufs := insert a (copybufs s), fworld := w\<rparr>)"
    "a \<noteq> NULL" "a \<notin> copybufs s"
  let ?k = "if strncmp0 path ''/'' (length ''/'') then 1 else if strncmp0 path ''./'' (length ''./'') then length ''./'' else 0"
  let ?s = "s\<lparr>copybufs := insert a (copybufs s), fworld := w\<rparr>"
  obtain r s2 where c: "create_dirs px (take ?k path) (drop ?k path) ?s = (r, s2)" by fastforce
  then obtain w2 where "s2 = ?s\<lparr>fworld := w2\<rparr>" using create_dirs_world by blast
  then show ?thesis using a c by (simp add: CreateDir_def free_tmp_fresh Let_def)
qed


subsection \<open>Removing a directory tree\<close>

text \<open>
  A path at or below another: the rest of it consists of names of entries, that is, of non-empty components other than
  \<open>.\<close> and \<open>..\<close>.  A path with such a rest denotes something in the tree below the first path.
\<close>

fun split_slash :: "string \<Rightarrow> string list" where
  "split_slash [] = [[]]"
| "split_slash (c # cs) = (if c = CHR ''/'' then [] # split_slash cs else (c # hd (split_slash cs)) # tl (split_slash cs))"

definition entry_name :: "string \<Rightarrow> bool" where
  "entry_name e \<longleftrightarrow> e \<noteq> [] \<and> CHR ''/'' \<notin> set e \<and> e \<noteq> ''.'' \<and> e \<noteq> ''..''"

definition below :: "string \<Rightarrow> string \<Rightarrow> bool" where
  "below p q \<longleftrightarrow> q = p \<or> prefix (p @ ''/'') q \<and> list_all entry_name (split_slash (drop (length p + 1) q))"

lemma split_slash_ne [simp]: "split_slash xs \<noteq> []"
  by (induction xs) simp_all

lemma split_slash_append: "split_slash (xs @ CHR ''/'' # ys) = split_slash xs @ split_slash ys"
  by (induction xs) (simp_all add: hd_append tl_append split: list.split)

lemma split_slash_entry: "CHR ''/'' \<notin> set e \<Longrightarrow> split_slash e = [e]"
  by (induction e) auto

lemma below_refl [simp]: "below p p"
  by (simp add: below_def)

lemma below_iff: "below p q \<longleftrightarrow> q = p \<or> (\<exists>r. q = p @ CHR ''/'' # r \<and> list_all entry_name (split_slash r))"
  by (auto simp: below_def prefix_def)

lemma below_trans: "below p q \<Longrightarrow> below q r \<Longrightarrow> below p r"
  by (fastforce simp: below_iff split_slash_append)

lemma below_child: "below p q \<Longrightarrow> entry_name e \<Longrightarrow> below p (q @ ''/'' @ e)"
  by (erule below_trans) (auto simp: below_iff split_slash_entry entry_name_def)

lemma dot_entries: "strncmp0 d ''..'' 3 \<longleftrightarrow> d = ''..''" "strncmp0 d ''.'' 2 \<longleftrightarrow> d = ''.''"
  by (auto simp: strncmp0_def take_Cons' numeral_eq_Suc split: if_splits list.splits dest: arg_cong [where f = length])
    (metis length_Cons length_take list.size(3) take_all_iff min_def not_less_eq_eq One_nat_def Suc_1 numeral_2_eq_2 nat_le_linear)+

text \<open>
  \<open>view\<close> is any observation of the world on which the calls that look at files have no effect and
  that a removal of a path in \<open>R\<close> leaves alone.  A set \<open>R\<close> of paths is closed if it has, with a directory, its entries other
  than \<open>.\<close> and \<open>..\<close>.
\<close>

definition keeps_view :: "'w posix \<Rightarrow> ('w \<Rightarrow> 'v) \<Rightarrow> (string \<Rightarrow> bool) \<Rightarrow> bool" where
  "keeps_view px view R \<longleftrightarrow>
     (\<forall>w q. R q \<longrightarrow> view (snd (px_unlink px q w)) = view w \<and> view (snd (px_rmdir px q w)) = view w) \<and>
     (\<forall>w q. view (snd (px_lstat px q w)) = view w \<and> view (snd (px_opendir px q w)) = view w) \<and>
     (\<forall>w e. view (px_set_errno px e w) = view w) \<and> (\<forall>w. view (px_readdir px w) = view w) \<and>
     (\<forall>w. view (snd (px_closedir px w)) = view w)"

definition dirs_closed :: "'w posix \<Rightarrow> (string \<Rightarrow> bool) \<Rightarrow> bool" where
  "dirs_closed px R \<longleftrightarrow> (\<forall>q w es e. R q \<longrightarrow> fst (px_opendir px q w) = Some es \<longrightarrow> e \<in> set es \<longrightarrow>
     e \<noteq> ''.'' \<longrightarrow> e \<noteq> ''..'' \<longrightarrow> R (q @ ''/'' @ e))"

text \<open>What \<open>readdir\<close> delivers are names: not empty, and without a slash.\<close>

definition readdir_ok :: "'w posix \<Rightarrow> bool" where
  "readdir_ok px \<longleftrightarrow> (\<forall>q w es. fst (px_opendir px q w) = Some es \<longrightarrow> (\<forall>e \<in> set es. e \<noteq> [] \<and> CHR ''/'' \<notin> set e))"

lemma below_closed: "readdir_ok px \<Longrightarrow> dirs_closed px (below name)"
  unfolding dirs_closed_def readdir_ok_def using below_child by (metis entry_name_def)

lemma keeps_view_eqs:
  assumes "keeps_view px view R"
  shows "R q \<Longrightarrow> view (snd (px_unlink px q w)) = view w"
    and "R q \<Longrightarrow> view (snd (px_rmdir px q w)) = view w"
    and "view (snd (px_lstat px q w)) = view w" and "view (snd (px_opendir px q w)) = view w"
    and "view (px_set_errno px e w) = view w" and "view (px_readdir px w) = view w"
    and "view (snd (px_closedir px w)) = view w"
  using assms unfolding keeps_view_def by blast+

definition unlink_post :: "('w \<Rightarrow> 'v) \<Rightarrow> 'w fs \<Rightarrow> 'w fs \<Rightarrow> bool" where
  "unlink_post view s s' \<longleftrightarrow> (\<exists>w. s' = s\<lparr>fworld := w\<rparr> \<and> view w = view (fworld s))"

lemma unlink_post_world [simp]:
  "unlink_post view s (s\<lparr>fworld := w\<rparr>) \<longleftrightarrow> view w = view (fworld s)"
  unfolding unlink_post_def by (metis fs.select_convs(8) fs.surjective fs.update_convs(8))


lemma unlink_post_trans: "unlink_post view s s' \<Longrightarrow> unlink_post view s' s'' \<Longrightarrow> unlink_post view s s''"
  by (auto simp: unlink_post_def)

lemma unlink_post_from:
  assumes "unlink_post view s s1" and "ok m (\<lambda>(r, s'). unlink_post view s1 s')"
  shows "ok m (\<lambda>(r, s'). unlink_post view s s')"
  by (rule ok_mono [OF assms(2)]) (auto intro: unlink_post_trans [OF assms(1)])

lemma unlink_post_step:
  assumes "unlink_post view s s'" and "view w = view (fworld s')"
  shows "unlink_post view s (s'\<lparr>fworld := w\<rparr>)"
  using assms by (auto simp: unlink_post_def)

lemma unlink_entries_ok:
  assumes sc: "securec_ok sc" and view: "keeps_view px view R"
    and rec: "\<And>dn s. R dn \<Longrightarrow> length name < length dn \<Longrightarrow> length dn < PATH_MAX \<Longrightarrow>
      ok (rec dn s) (\<lambda>(r, s'). unlink_post view s s')"
  shows "(\<And>e. e \<in> set ds \<Longrightarrow> e \<noteq> ''.'' \<Longrightarrow> e \<noteq> ''..'' \<Longrightarrow> R (name @ ''/'' @ e)) \<Longrightarrow>
    ok (unlink_entries sc px rec name ds s) (\<lambda>(f, s'). unlink_post view s s')"
proof (induction ds arbitrary: s)
  case Nil
  have "unlink_post view s s" using unlink_post_world [of view s "fworld s"] by simp
  then show ?case by simp
next
  case (Cons d ds)
  note eqs = keeps_view_eqs [OF view]
  have IH: "ok (unlink_entries sc px rec name ds s) (\<lambda>(f, s'). unlink_post view s s')" for s
    using Cons.prems by (intro Cons.IH) simp
  show ?case
  proof (cases "strncmp0 d ''..'' 3 \<or> strncmp0 d ''.'' 2")
    case True
    have "unlink_post view s (s\<lparr>fworld := px_readdir px (fworld s)\<rparr>)" by (simp add: eqs)
    from unlink_post_from [OF this IH] True show ?thesis by simp
  next
    case False
    let ?t = "name @ ''/'' @ d"
    show ?thesis
    proof (cases "length ?t < PATH_MAX")
      case long: False
      then have "fst (snprintf_s sc PATH_MAX (PATH_MAX - 1) ?t) = - 1"
        using snprintf_s_ok(1) [OF sc, of PATH_MAX "PATH_MAX - 1" ?t] by simp
      then obtain z where "snprintf_s sc PATH_MAX (PATH_MAX - 1) ?t = (- 1, z)" by (metis prod.collapse)
      then show ?thesis using False unlink_post_world [of view s "fworld s"] by simp
    next
      case fits: True
      then have p: "snprintf_s sc PATH_MAX (PATH_MAX - 1) ?t = (int (length ?t), ?t)"
        using snprintf_s_ok [OF sc, of PATH_MAX "PATH_MAX - 1" ?t] by auto
      have "R ?t" using Cons.prems [of d] False by (simp add: dot_entries)
      then have "ok (rec ?t s) (\<lambda>(r, s'). unlink_post view s s')" using rec [of ?t s] fits by simp
      then obtain r s1 where r: "rec ?t s = Some (r, s1)" and s1: "unlink_post view s s1" by (auto elim: okE)
      let ?s2 = "s1\<lparr>fworld := px_readdir px (px_set_errno px 0 (fworld s1))\<rparr>"
      have "unlink_post view s ?s2" using s1 by (intro unlink_post_step) (simp_all add: eqs)
      from unlink_post_from [OF this IH] show ?thesis using False p [simplified] r [simplified] s1 by simp
    qed
  qed
qed

lemma UnlinkRecursiveDir_ok:
  assumes sc: "securec_ok sc" and view: "keeps_view px view R" and closed: "dirs_closed px R" and name: "R name"
    and rec: "\<And>dn s. R dn \<Longrightarrow> length name < length dn \<Longrightarrow> length dn < PATH_MAX \<Longrightarrow>
      ok (rec dn s) (\<lambda>(r, s'). unlink_post view s s')"
  shows "ok (UnlinkRecursiveDir sc px rec name s) (\<lambda>(r, s'). unlink_post view s s' \<and> (r = 0 \<or> r = - 1) \<and>
    (r = 0 \<longrightarrow> (\<exists>q w. px_rmdir px name w = (q, fworld s') \<and> q \<ge> 0)))"
proof -
  note eqs = keeps_view_eqs [OF view]
  obtain dir w where d: "fcall (px_opendir px name) s = (dir, s\<lparr>fworld := w\<rparr>)" "px_opendir px name (fworld s) = (dir, w)"
    by (rule fcallE)
  have w: "view w = view (fworld s)" using eqs(4) [of name "fworld s"] d(2) by simp
  show ?thesis
  proof (cases dir)
    case None
    then show ?thesis using d w by (simp add: UnlinkRecursiveDir_def)
  next
    case (Some es)
    let ?s1 = "s\<lparr>fworld := px_readdir px (px_set_errno px 0 w)\<rparr>"
    have s1: "unlink_post view s ?s1" using w by (simp add: eqs)
    have "ok (unlink_entries sc px rec name es ?s1) (\<lambda>(f, s'). unlink_post view ?s1 s')"
    proof (rule unlink_entries_ok [OF sc view])
      fix e assume "e \<in> set es" "e \<noteq> ''.''" "e \<noteq> ''..''"
      moreover have "fst (px_opendir px name (fworld s)) = Some es" using d(2) Some by simp
      ultimately show "R (name @ ''/'' @ e)" using closed name unfolding dirs_closed_def by blast
    qed (rule rec)
    from unlink_post_from [OF s1 this] obtain f s2 where
      f: "unlink_entries sc px rec name es ?s1 = Some (f, s2)" and s2: "unlink_post view s s2" by (auto elim: okE)
    obtain q w3 where c: "fcall (px_closedir px) s2 = (q, s2\<lparr>fworld := w3\<rparr>)" "px_closedir px (fworld s2) = (q, w3)"
      by (rule fcallE)
    have w3: "view w3 = view (fworld s2)" using eqs(7) [of "fworld s2"] c(2) by simp
    obtain q' w4 where rm: "fcall (px_rmdir px name) (s2\<lparr>fworld := w3\<rparr>) = (q', s2\<lparr>fworld := w4\<rparr>)" "px_rmdir px name w3 = (q', w4)"
      using fcallE [of "px_rmdir px name" "s2\<lparr>fworld := w3\<rparr>"] by auto
    have w4: "view w4 = view (fworld s2)" using eqs(2) [OF name, of w3] rm(2) w3 by simp
    have post: "unlink_post view s (s2\<lparr>fworld := w3\<rparr>)" "unlink_post view s (s2\<lparr>fworld := w4\<rparr>)"
      "unlink_post view s (s2\<lparr>fworld := px_set_errno px e w3\<rparr>)" for e
      by (rule unlink_post_step [OF s2]; simp add: w3 w4 eqs)+
    have "UnlinkRecursiveDir sc px rec name s =
      (if f \<or> errno px s2 < 0 then Some (- 1, s2\<lparr>fworld := px_set_errno px (errno px s2) w3\<rparr>)
       else if q < 0 then Some (- 1, s2\<lparr>fworld := w3\<rparr>)
       else if q' < 0 then Some (- 1, s2\<lparr>fworld := w4\<rparr>) else Some (0, s2\<lparr>fworld := w4\<rparr>))"
      using f by (simp add: UnlinkRecursiveDir_def d(1) Some c(1) rm(1) Let_def)
    then show ?thesis using post rm(2) by (auto simp: linorder_not_less intro!: exI)
  qed
qed

lemma UnlinkRecursive_ok:
  assumes sc: "securec_ok sc" and view: "keeps_view px view R" and closed: "dirs_closed px R" and "R name"
    and "length name < PATH_MAX" and "PATH_MAX \<le> length name + depth"
  shows "ok (UnlinkRecursive sc px depth name s) (\<lambda>(r, s'). unlink_post view s s' \<and> (r = 0 \<or> r = - 1) \<and>
    (r = 0 \<longrightarrow> (\<exists>q w. (px_unlink px name w = (q, fworld s') \<or> px_rmdir px name w = (q, fworld s')) \<and> q \<ge> 0)))"
  using assms(4-6)
proof (induction depth arbitrary: name s)
  case 0
  then show ?case by simp
next
  case (Suc depth)
  note eqs = keeps_view_eqs [OF view]
  obtain r isdir w where l: "fcall (px_lstat px name) s = ((r, isdir), s\<lparr>fworld := w\<rparr>)" "px_lstat px name (fworld s) = ((r, isdir), w)"
    by (metis fcallE prod.exhaust)
  have w: "view w = view (fworld s)" using eqs(3) [of name "fworld s"] l(2) by simp
  obtain q w2 where u: "fcall (px_unlink px name) (s\<lparr>fworld := w\<rparr>) = (q, s\<lparr>fworld := w2\<rparr>)" "px_unlink px name w = (q, w2)"
    using fcallE [of "px_unlink px name" "s\<lparr>fworld := w\<rparr>"] by auto
  have w2: "view w2 = view (fworld s)" using eqs(1) [OF Suc.prems(1), of w] u(2) w by simp
  have rec: "ok (UnlinkRecursive sc px depth dn s) (\<lambda>(r, s'). unlink_post view s s')"
    if "R dn" "length name < length dn" "length dn < PATH_MAX" for dn s
    using Suc.IH [OF that(1,3), of s] that(2) Suc.prems(3)
    by (auto elim!: ok_mono)
  have dir: "ok (UnlinkRecursiveDir sc px (UnlinkRecursive sc px depth) name (s\<lparr>fworld := w\<rparr>))
    (\<lambda>(r, s'). unlink_post view s s' \<and> (r = 0 \<or> r = - 1) \<and> (r = 0 \<longrightarrow> (\<exists>q w. px_rmdir px name w = (q, fworld s') \<and> q \<ge> 0)))"
    by (rule ok_mono [OF UnlinkRecursiveDir_ok [OF sc view closed Suc.prems(1) rec]])
      (auto dest: unlink_post_trans [of view s "s\<lparr>fworld := w\<rparr>", rotated] simp: w)
  show ?case
  proof (cases "r < 0 \<or> \<not> isdir")
    case True
    then show ?thesis using l u w w2 by (auto simp: linorder_not_less intro!: exI)
  next
    case False
    then show ?thesis using l(1) by (simp, intro ok_mono [OF dir]) auto
  qed
qed


subsection \<open>Copying\<close>

text \<open>
  The files of the storage are regular files.  \<open>rest\<close> is how much is left to read from a descriptor; \<open>inorder\<close> says of two
  descriptors that the second does not write beyond the place where the first reads, if they are open on the same file.
  This holds when the second was just opened, and it is kept by reading some bytes from the first and
  writing just these to the second; after that, less is left to read, even if it is the same file.
\<close>

definition copy_order :: "'w posix \<Rightarrow> (int \<Rightarrow> 'w \<Rightarrow> nat) \<Rightarrow> (int \<Rightarrow> int \<Rightarrow> 'w \<Rightarrow> bool) \<Rightarrow> bool" where
  "copy_order px rest inorder \<longleftrightarrow>
     (\<forall>u p m w fd. fst (px_open px u p True m w) \<noteq> - 1 \<longrightarrow> fd \<noteq> fst (px_open px u p True m w) \<longrightarrow>
        inorder fd (fst (px_open px u p True m w)) (snd (px_open px u p True m w))) \<and>
     (\<forall>fd fd' u n w. inorder fd fd' w \<longrightarrow> inorder fd fd' (snd (px_malloc px u n w))) \<and>
     (\<forall>fd fd' n w w1 w2 bs. inorder fd fd' w \<longrightarrow> px_read px fd n w = (Some bs, w1) \<longrightarrow> bs \<noteq> [] \<longrightarrow>
        px_write px fd' bs w1 = (int (length bs), w2) \<longrightarrow> inorder fd fd' w2 \<and> rest fd w2 < rest fd w)"

definition copy_ends :: "'w posix \<Rightarrow> bool" where
  "copy_ends px \<longleftrightarrow> (\<exists>rest inorder. copy_order px rest inorder)"

lemma copy_orderD:
  assumes "copy_order px rest inorder"
  shows "px_open px u p True m w = (fd', w') \<Longrightarrow> fd' \<noteq> - 1 \<Longrightarrow> fd \<noteq> fd' \<Longrightarrow> inorder fd fd' w'"
    and "inorder fd fd' w \<Longrightarrow> px_malloc px v n w = (a, w') \<Longrightarrow> inorder fd fd' w'"
    and "inorder fd fd' w \<Longrightarrow> px_read px fd n w = (Some bs, w1) \<Longrightarrow> bs \<noteq> [] \<Longrightarrow>
      px_write px fd' bs w1 = (int (length bs), w2) \<Longrightarrow> inorder fd fd' w2 \<and> rest fd w2 < rest fd w"
  using assms unfolding copy_order_def by (metis fst_conv snd_conv)+

lemma copy_loop_ok:
  assumes ends: "copy_order px rest inorder"
  shows "inorder fromFd toFd (fworld s) \<Longrightarrow> ok (copy_loop px fromFd toFd s) (\<lambda>(g, s'). \<exists>w. s' = s\<lparr>fworld := w\<rparr>)"
proof (induction "rest fromFd (fworld s)" arbitrary: s rule: less_induct)
  case less
  obtain rd w where r: "fcall (px_read px fromFd MAXBSIZE) s = (rd, s\<lparr>fworld := w\<rparr>)" "px_read px fromFd MAXBSIZE (fworld s) = (rd, w)"
    by (rule fcallE)
  show ?case
  proof (cases "rd = None \<or> rd = Some []")
    case True
    then show ?thesis using r by (subst copy_loop.simps) auto
  next
    case False
    then obtain b bs where rd: "rd = Some (b # bs)" by (metis list.exhaust option.exhaust)
    obtain k w2 where wr: "fcall (px_write px toFd (b # bs)) (s\<lparr>fworld := w\<rparr>) = (k, s\<lparr>fworld := w2\<rparr>)" "px_write px toFd (b # bs) w = (k, w2)"
      using fcallE [of "px_write px toFd (b # bs)" "s\<lparr>fworld := w\<rparr>"] by auto
    show ?thesis
    proof (cases "k = int (length (b # bs))")
      case True
      then have "inorder fromFd toFd w2 \<and> rest fromFd w2 < rest fromFd (fworld s)"
        using copy_orderD(3) [OF ends less.prems] r(2) rd wr(2) by simp
      then have "ok (copy_loop px fromFd toFd (s\<lparr>fworld := w2\<rparr>)) (\<lambda>(g, s'). \<exists>w. s' = (s\<lparr>fworld := w2\<rparr>)\<lparr>fworld := w\<rparr>)"
        by (intro less.hyps) simp_all
      then have "ok (copy_loop px fromFd toFd (s\<lparr>fworld := w2\<rparr>)) (\<lambda>(g, s'). \<exists>w. s' = s\<lparr>fworld := w\<rparr>)" by simp
      then show ?thesis by (subst copy_loop.simps) (auto simp: r(1) rd wr(1))
    next
      case False
      then show ?thesis by (subst copy_loop.simps) (auto simp: r(1) rd wr(1))
    qed
  qed
qed

lemma DoCopy_ok:
  assumes ends: "copy_order px rest inorder" and ord: "inorder fromFd toFd (fworld s)" and fresh: "fresh_ok px"
  shows "ok (DoCopy px fromFd toFd s) (\<lambda>(r, s'). \<exists>w. s' = s\<lparr>fworld := w\<rparr>)"
proof (rule alloc_tmpE [OF fresh, of MAXBSIZE s])
  fix w assume "alloc_tmp px MAXBSIZE s = (NULL, s\<lparr>fworld := w\<rparr>)"
  then show ?thesis by (auto simp: DoCopy_def)
next
  fix a w assume a: "alloc_tmp px MAXBSIZE s = (a, s\<lparr>copybufs := insert a (copybufs s), fworld := w\<rparr>)"
    "a \<noteq> NULL" "a \<notin> copybufs s"
  let ?s = "s\<lparr>copybufs := insert a (copybufs s), fworld := w\<rparr>"
  have "w = snd (px_malloc px (used_mem s) MAXBSIZE (fworld s))"
    using a(1,2) by (auto simp: alloc_tmp_def fcall_def split: prod.splits if_splits dest: arg_cong [where f = fworld])
  then have "inorder fromFd toFd (fworld ?s)" using copy_orderD(2) [OF ends ord] by (metis fs.select_convs(8) fs.update_convs(8) fs.surjective prod.collapse)
  from copy_loop_ok [OF ends this] obtain g w2 where
    g: "copy_loop px fromFd toFd ?s = Some (g, s\<lparr>copybufs := insert a (copybufs s), fworld := w2\<rparr>)"
    by (auto elim: okE)
  show ?thesis using a g
    by (cases g) (auto simp: DoCopy_def free_tmp_fresh fcall_pair)
qed

lemma GetRealFilePath_same: "GetRealFilePath sc px p n s = (r, s') \<Longrightarrow> \<exists>w. s' = s\<lparr>fworld := w\<rparr>"
  by (auto simp: GetRealFilePath_def fcall_pair Let_def split: option.splits prod.splits if_splits)

lemma tee_openE:
  assumes "fresh_ok px"
  obtains (fail) w where "tee_open px p wr m s = (- 1, s\<lparr>fworld := w\<rparr>)"
    | (opened) fd w where "tee_open px p wr m s = (fd, s\<lparr>fds := insert fd (fds s), fworld := w\<rparr>)"
        and "fd \<ge> 0" and "\<not> used_fd s fd" and "px_open px (used_fd s) p wr m (fworld s) = (fd, w)"
proof -
  obtain fd w where o: "px_open px (used_fd s) p wr m (fworld s) = (fd, w)" by fastforce
  have f: "fd = - 1 \<or> \<not> used_fd s fd \<and> fd \<ge> 0" using assms o unfolding fresh_ok_def by (metis fst_conv)
  show ?thesis
  proof (cases "fd = - 1")
    case True
    with o show ?thesis by (intro fail [of w]) (simp add: tee_open_def fcall_def)
  next
    case False
    with f o show ?thesis by (intro opened [of fd w]) (simp_all add: tee_open_def fcall_def)
  qed
qed

lemma close_fd_fresh:
  "fd \<notin> fds s \<Longrightarrow> fd \<ge> 0 \<Longrightarrow> close_fd px fd (s\<lparr>fds := insert fd (fds s), fworld := w\<rparr>) = s\<lparr>fworld := px_close px fd w\<rparr>"
  by (simp add: close_fd_def)

lemma CopyFile_ok:
  assumes ends: "copy_ends px" and fresh: "fresh_ok px"
  shows "ok (CopyFile sc px p q s) (\<lambda>(r, s'). \<exists>w. s' = s\<lparr>fworld := w\<rparr>)"
proof -
  obtain r1 p1 s1 where g1: "GetRealFilePath sc px p PATH_MAX s = ((r1, p1), s1)" by (metis prod.exhaust)
  then obtain w1 where s1: "s1 = s\<lparr>fworld := w1\<rparr>" using GetRealFilePath_same by blast
  obtain r2 p2 s2 where g2: "GetRealFilePath sc px q PATH_MAX s1 = ((r2, p2), s2)" by (metis prod.exhaust)
  then obtain w2 where s2: "s2 = s\<lparr>fworld := w2\<rparr>" using GetRealFilePath_same s1 by fastforce
  show ?thesis
  proof (cases "r1 \<noteq> 0 \<or> r2 \<noteq> 0")
    case True
    then show ?thesis using g1 g2 s1 s2 by (auto simp: CopyFile_def)
  next
    case False
    show ?thesis
    proof (rule tee_openE [OF fresh, of p1 False 0 s2])
      fix w assume "tee_open px p1 False 0 s2 = (- 1, s2\<lparr>fworld := w\<rparr>)"
      then show ?thesis using False g1 g2 s2 by (auto simp: CopyFile_def)
    next
      fix fd w assume o: "tee_open px p1 False 0 s2 = (fd, s2\<lparr>fds := insert fd (fds s2), fworld := w\<rparr>)" "0 \<le> fd" "\<not> used_fd s2 fd"
      have fdn: "fd \<noteq> - 1" "fd \<notin> fds s" using o s2 by (auto simp: used_fd_def)
      let ?s3 = "s\<lparr>fds := insert fd (fds s), fworld := w\<rparr>"
      obtain r st w4 where st: "fcall (px_fstat px fd) ?s3 = ((r, st), s\<lparr>fds := insert fd (fds s), fworld := w4\<rparr>)"
        by (simp add: fcall_pair) (metis prod.collapse)
      let ?s4 = "s\<lparr>fds := insert fd (fds s), fworld := w4\<rparr>"
      note run = False g1 g2 s2 o(1) fdn(1) st
      show ?thesis
      proof (cases "r = - 1")
        case True
        then show ?thesis using run o(2) fdn(2) by (auto simp: CopyFile_def close_fd_fresh)
      next
        case rne: False
        show ?thesis
        proof (rule tee_openE [OF fresh, of p2 True "st_mode st" ?s4])
          fix w5 assume "tee_open px p2 True (st_mode st) ?s4 = (- 1, ?s4\<lparr>fworld := w5\<rparr>)"
          then show ?thesis using run rne o(2) fdn(2) by (auto simp: CopyFile_def close_fd_fresh)
        next
          fix fd' w5 assume o': "tee_open px p2 True (st_mode st) ?s4 = (fd', ?s4\<lparr>fds := insert fd' (fds ?s4), fworld := w5\<rparr>)"
            "0 \<le> fd'" "\<not> used_fd ?s4 fd'" "px_open px (used_fd ?s4) p2 True (st_mode st) (fworld ?s4) = (fd', w5)"
          have fd': "fd' \<noteq> - 1" "fd' \<notin> fds s" "fd \<noteq> fd'" using o' by (auto simp: used_fd_def)
          let ?s5 = "s\<lparr>fds := insert fd' (insert fd (fds s)), fworld := w5\<rparr>"
          from ends obtain rest inorder where ord: "copy_order px rest inorder" by (auto simp: copy_ends_def)
          have "inorder fd fd' (fworld ?s5)" using copy_orderD(1) [OF ord o'(4) fd'(1,3)] by simp
          from DoCopy_ok [OF ord this fresh] obtain r' w6 where
            c: "DoCopy px fd fd' ?s5 = Some (r', s\<lparr>fds := insert fd' (insert fd (fds s)), fworld := w6\<rparr>)" by (auto elim: okE)
          have "insert fd' (insert fd (fds s)) - {fd} - {fd'} = fds s" using fd' fdn by auto
          then have close: "close_fd px fd' (close_fd px fd (s\<lparr>fds := insert fd' (insert fd (fds s)), fworld := v\<rparr>)) =
              s\<lparr>fworld := px_close px fd' (px_close px fd v)\<rparr>" for v
            using o(2) o'(2) by (simp add: close_fd_def)
          have "\<exists>w. CopyFile sc px p q s = Some (r', s\<lparr>fworld := w\<rparr>)"
          proof (cases "r' = 0")
            case True
            then show ?thesis
              using run rne o'(1) fd'(1) c by (simp add: CopyFile_def close ChownSecStorage_def fcall_pair Let_def) blast
          next
            case False
            then show ?thesis using run rne o'(1) fd'(1) c by (simp add: CopyFile_def close Let_def) blast
          qed
          then show ?thesis by auto
        qed
      qed
    qed
  qed
qed

end
