(* ===== verification/Fs_Inv.thy ===== *)
theory Fs_Inv
  imports Fs_Tree
begin

text \<open>
  The invariant of the file agent and that every request keeps it: the list of open files is in
  step with the open streams, and no descriptor or buffer of a helper is left behind.
\<close>

section \<open>The invariant\<close>

text \<open>The list of open files is in step with the open streams, and nothing temporary is left.\<close>

definition agent_ok :: "'w fs \<Rightarrow> bool" where
  "agent_ok s \<longleftrightarrow> (\<exists>xs. files_ok s xs) \<and> fds s = {} \<and> copybufs s = {}"

lemma agent_ok_same: "same_files s s' \<Longrightarrow> agent_ok s \<Longrightarrow> agent_ok s'"
  by (elim same_filesE) (simp add: agent_ok_def)

text \<open>The number of bytes that follow the fixed part of a request does not change.\<close>

definition kept :: "SecStorageType \<Rightarrow> 'w fs \<Rightarrow> SecStorageType \<times> 'w fs \<Rightarrow> bool" where
  "kept tc s r \<longleftrightarrow> length (args (fst r)) = length (args tc) \<and> same_files s (snd r)"

lemma kept_simps [simp]:
  "kept tc s (tc'\<lparr>ret := x\<rparr>, s') = kept tc s (tc', s')" "kept tc s (tc'\<lparr>ret2 := x\<rparr>, s') = kept tc s (tc', s')"
  "kept tc s (tc'\<lparr>error := y\<rparr>, s') = kept tc s (tc', s')" "kept tc s (tc'\<lparr>magic := y\<rparr>, s') = kept tc s (tc', s')"
  "kept tc s (tc, s') = same_files s s'"
  by (simp_all add: kept_def)

lemma kept_if [simp]: "kept tc s (if b then x else y, s') = (if b then kept tc s (x, s') else kept tc s (y, s'))"
  by simp

lemma set_args_kept:
  "set_args_u32 off v tc = Some tc' \<Longrightarrow> length (args tc') = length (args tc)"
  "set_args_bytes off bs tc = Some tc' \<Longrightarrow> length (args tc') = length (args tc)"
  by (auto simp: set_args_u32_def set_args_bytes_def put_u32_def length_put_bytes)

lemma put_u32_defined: "off + 4 \<le> length bs \<Longrightarrow> \<exists>ys. put_u32 bs off v = Some ys"
  by (simp add: put_u32_def put_bytes_def)

lemma ok_set_args_u32:
  "off + 4 \<le> length (args tc) \<Longrightarrow> ok (set_args_u32 off v tc) (\<lambda>tc'. length (args tc') = length (args tc))"
  using put_u32_defined [of off "args tc" v] by (auto simp: set_args_u32_def put_u32_def length_put_bytes)

lemma ok_set_args_bytes:
  "off + length bs \<le> length (args tc) \<Longrightarrow> ok (set_args_bytes off bs tc) (\<lambda>tc'. length (args tc') = length (args tc))"
  by (auto simp: set_args_bytes_def put_bytes_def)

lemma args_defined:
  "off + 4 \<le> length (args tc) \<Longrightarrow> \<exists>v. args_u32 off tc = Some v"
  "off + 4 \<le> length (args tc) \<Longrightarrow> \<exists>i. args_i32 off tc = Some i"
  by (simp_all add: args_u32_def args_i32_def get_u32_def)

section \<open>Requests that the agent can handle\<close>

text \<open>
  What the agent relies on the secure world for.  It checks none of this: a name ends with a NUL
  inside the buffer, a count does not exceed the rest of the buffer, and in the encrypted storage
  the user part of a name is followed by a slash.
\<close>

definition name_ok :: "SecStorageType \<Rightarrow> nat \<Rightarrow> bool" where
  "name_ok tc off \<longleftrightarrow> (case args_str off tc of
     None \<Rightarrow> False
   | Some name \<Rightarrow> storageId tc = TEE_OBJECT_STORAGE_CE \<longrightarrow> length name \<noteq> 256 \<and>
       (let t = dropWhile (\<lambda>c. c = CHR ''/'') name in t = [] \<or> CHR ''/'' \<in> set t))"

definition count_ok :: "SecStorageType \<Rightarrow> bool" where
  "count_ok tc \<longleftrightarrow> (case args_u32 rw_count tc of None \<Rightarrow> False | Some n \<Rightarrow> rw_buffer + unat n \<le> length (args tc))"

definition second_ok :: "SecStorageType \<Rightarrow> bool" where
  "second_ok tc \<longleftrightarrow> (case args_u32 first_len tc of None \<Rightarrow> False | Some n \<Rightarrow> name_ok tc (two_names + unat n))"

fun command_ok :: "FsCmdType \<Rightarrow> SecStorageType \<Rightarrow> bool" where
  "command_ok SEC_OPEN tc = name_ok tc open_name"
| "command_ok SEC_CREATE tc = name_ok tc open_name"
| "command_ok SEC_READ tc = count_ok tc"
| "command_ok SEC_WRITE tc = count_ok tc"
| "command_ok SEC_REMOVE tc = name_ok tc remove_name"
| "command_ok SEC_TRUNCATE tc = name_ok tc truncate_name"
| "command_ok SEC_RENAME tc = (name_ok tc two_names \<and> second_ok tc)"
| "command_ok SEC_CP tc = (name_ok tc two_names \<and> second_ok tc)"
| "command_ok SEC_ACCESS tc = name_ok tc access_name"
| "command_ok SEC_ACCESS2 tc = (args_str access_name tc \<noteq> None)"
| "command_ok SEC_DELETE_ALL tc = (args_str deleteAll_path tc \<noteq> None)"
| "command_ok _ tc = True"

definition request_ok :: "SecStorageType \<Rightarrow> bool" where
  "request_ok tc \<longleftrightarrow> 12 \<le> length (args tc) \<and>
     (case cmd_of (cmd tc) of None \<Rightarrow> True | Some c \<Rightarrow> command_ok c tc)"

section \<open>Joining is defined\<close>

lemma JoinFileNameForStorageCE_defined:
  assumes sc: "securec_ok sc" and len: "length name \<noteq> 256"
    and slash: "let t = dropWhile (\<lambda>c. c = CHR ''/'') name in t = [] \<or> CHR ''/'' \<in> set t"
  shows "JoinFileNameForStorageCE sc name [] 256 \<noteq> None"
proof (cases "length name < 256")
  case False
  then have "fst (memcpy_s sc 256 name) \<noteq> 0" using memcpy_s_ok(2) [OF sc, of 256 name] len by simp
  then obtain rc z where "memcpy_s sc 256 name = (rc, z)" "rc \<noteq> 0" by (metis prod.collapse)
  then show ?thesis by (simp add: JoinFileNameForStorageCE_def)
next
  case True
  then have cp: "memcpy_s sc 256 name = (0, name)" using memcpy_s_ok(1) [OF sc, of 256 name name] by simp
  have "strtok_slash name = None \<or> (\<exists>u r. strtok_slash name = Some (u, Some r))"
  proof (cases "dropWhile (\<lambda>c. c = CHR ''/'') name = []")
    case False
    define u where "u = dropWhile (\<lambda>c. c = CHR ''/'') name"
    with slash False have "CHR ''/'' \<in> set u" unfolding Let_def by blast
    then have "dropWhile (\<lambda>c. c \<noteq> CHR ''/'') u \<noteq> []" by (auto simp: dropWhile_eq_Nil_conv)
    then obtain c r where "dropWhile (\<lambda>c. c \<noteq> CHR ''/'') u = c # r" by (cases "dropWhile (\<lambda>c. c \<noteq> CHR ''/'') u") auto
    then show ?thesis unfolding strtok_slash_def Let_def u_def [symmetric] by (cases "u = []") simp_all
  qed (simp add: strtok_slash_def)
  moreover have "\<not> 256 \<le> length name" using True by simp
  ultimately show ?thesis
    by (elim disjE exE) (simp_all add: JoinFileNameForStorageCE_def cp case_prod_beta Let_def)
qed

lemma Join_defined:
  assumes "securec_ok sc" and "args_str off tc = Some name" and "name_ok tc off"
    and "g_storageId s = storageId tc"
  shows "\<exists>r p. Join sc name s = Some (r, p)"
proof -
  have "Join sc name s \<noteq> None"
    using assms JoinFileNameForStorageCE_defined [OF assms(1), of name]
    by (auto simp: Join_def JoinFileName_def name_ok_def)
  then show ?thesis by auto
qed

lemma name_okE:
  assumes "securec_ok sc" and "name_ok tc off"
  obtains name r p where "args_str off tc = Some name" and "Join sc name (SetCurrent tc s) = Some (r, p)"
proof -
  from assms(2) obtain name where n: "args_str off tc = Some name" by (auto simp: name_ok_def split: option.splits)
  from Join_defined [OF assms(1) n assms(2), of "SetCurrent tc s"] n that show ?thesis by (auto simp: SetCurrent_def)
qed

lemma SetCurrent_same [simp]: "same_files s (SetCurrent tc s)"
  by (simp add: SetCurrent_def)


section \<open>Every request keeps the invariant\<close>

text \<open>What the agent relies on the operating system for; every call may fail.\<close>

definition fs_os_ok :: "'w posix \<Rightarrow> bool" where
  "fs_os_ok px \<longleftrightarrow> fresh_ok px \<and> fread_ok px \<and> copy_ends px"

text \<open>
  The one failure after which the table of open files is not in step any more: the request \<open>tc\<close> closes an
  open file, and its \<open>fclose\<close> fails.
\<close>

definition fclose_fails :: "'w posix \<Rightarrow> SecStorageType \<Rightarrow> 'w fs \<Rightarrow> bool" where
  "fclose_fails px tc s = (case args_i32 file_fd tc of
       None \<Rightarrow> False
     | Some fd \<Rightarrow> (case FindOpenFile fd s of
         None \<Rightarrow> False
       | Some (found, a) \<Rightarrow> found \<noteq> 0 \<and> (case node_at s a of
           None \<Rightarrow> False
         | Some n \<Rightarrow> fst (px_fclose px (of_file n) (fworld s)) \<noteq> 0)))"

definition handled :: "SecStorageType \<Rightarrow> SecStorageType \<times> 'w fs \<Rightarrow> bool" where
  "handled tc r \<longleftrightarrow> agent_ok (snd r) \<and> length (args (fst r)) = length (args tc)"

lemma handled_same: "agent_ok s \<Longrightarrow> kept tc s r \<Longrightarrow> handled tc r"
  by (auto simp: handled_def kept_def intro: agent_ok_same)

lemma ok_handled_same: "agent_ok s \<Longrightarrow> ok m (kept tc s) \<Longrightarrow> ok m (handled tc)"
  by (erule ok_mono) (rule handled_same)

text \<open>Finding the file of a request: either a listed node with an open stream, or nothing.\<close>

lemma find_cases:
  assumes "agent_ok s"
  obtains (found) xs a n where "FindOpenFile fd s = Some (1, a)" and "node_at s a = Some n" and "files_ok s xs"
      and "a \<in> set xs" and "of_file n = file_of s a" and "streams s (of_file n) = Some fd"
    | (none) "FindOpenFile fd s = Some (0, NULL)"
proof -
  from assms obtain xs where xs: "files_ok s xs" by (auto simp: agent_ok_def)
  show ?thesis
  proof (rule FindOpenFile_ok [OF xs, of fd])
    fix a assume a: "FindOpenFile fd s = Some (1, a)" "a \<in> set xs" "streams s (file_of s a) = Some fd" "node_at s a \<noteq> None"
    then obtain n where n: "node_at s a = Some n" by blast
    then have "of_file n = file_of s a" by (simp add: file_of_def node_at_def split: if_splits)
    with a n xs show ?thesis by (intro found [of a n xs]) simp_all
  qed (rule none)
qed

lemma on_stream_open:
  "streams s f = Some d \<Longrightarrow> on_stream f c s = Some (fst (c (fworld s)), s\<lparr>fworld := snd (c (fworld s))\<rparr>)"
  by (simp add: on_stream_def fcall_pair)

lemma fd_arg:
  assumes "12 \<le> length (args tc)" and "off \<le> 8"
  shows "\<exists>i. args_i32 off tc = Some i"
  using args_defined(2) [of off tc] assms by simp

text \<open>
  A request to close a file, on the abstract list of descriptors.  When \<open>fclose\<close> fails the stream is gone all the same, but its
  node stays in the list.
\<close>

definition close_post :: "'w fs \<Rightarrow> addr list \<Rightarrow> int \<Rightarrow> SecStorageType \<times> 'w fs \<Rightarrow> bool" where
  "close_post s xs fd = (\<lambda>(tc', s').
     (\<exists>ys. files_ok s' ys \<and>
       (if fd \<in> set (open_fds s xs) then ret tc' = 0 \<and> open_fds s' ys = remove1 fd (open_fds s xs)
        else ret tc' = - 1 \<and> error tc' = EBADF \<and> open_fds s' ys = open_fds s xs)) \<or>
     fd \<in> set (open_fds s xs) \<and> ret tc' \<noteq> 0 \<and> g_firstFile s' = g_firstFile s \<and> nodes s' = nodes s \<and>
       streams s' = streams s |` {f. streams s f \<noteq> Some fd})"

lemma CloseWork_spec:
  assumes ok: "files_ok s xs" and fd: "args_i32 file_fd tc = Some fd"
  shows "ok (CloseWork px tc s) (\<lambda>(tc', s'). fds s' = fds s \<and> copybufs s' = copybufs s \<and> args tc' = args tc \<and>
    close_post s xs fd (tc', s') \<and> (fd \<in> set (open_fds s xs) \<longrightarrow> (ret tc' \<noteq> 0 \<longleftrightarrow> fclose_fails px tc s)) \<and> (\<not> fclose_fails px tc s \<longrightarrow> (\<exists>ys. files_ok s' ys)))"
proof (rule FindOpenFile_ok [OF ok, of fd])
  assume n: "FindOpenFile fd s = Some (0, NULL)" "fd \<notin> set (open_fds s xs)"
  then show ?thesis using fd ok by (auto simp: CloseWork_def close_post_def)
next
  fix a assume a: "FindOpenFile fd s = Some (1, a)" "a \<in> set xs" "streams s (file_of s a) = Some fd" "node_at s a \<noteq> None"
  then obtain n where n: "node_at s a = Some n" by blast
  then have f: "of_file n = file_of s a" by (simp add: file_of_def node_at_def split: if_splits)
  obtain r w where w: "px_fclose px (of_file n) (fworld s) = (r, w)" by fastforce
  have fails: "fclose_fails px tc s \<longleftrightarrow> r \<noteq> 0" using fd a(1) n w by (simp add: fclose_fails_def)
  have mem: "fd \<in> set (open_fds s xs)" using a(2,3) by (force simp: open_fds_def)
  let ?s = "s\<lparr>fworld := w\<rparr>"
  have oks: "files_ok ?s xs" using ok by simp
  let ?s1 = "?s\<lparr>streams := (streams ?s)(file_of ?s a := None)\<rparr>"
  have c: "do_fclose px (of_file n) s = Some (r, ?s1)"
    using w a(3) f by (simp add: do_fclose_def on_stream_open)
  show ?thesis
  proof (cases "r = 0")
    case True
    obtain s' where s': "do { s \<leftarrow> DelOpenFile a ?s1; free_node a s } = Some s'" "files_ok s' (remove1 a xs)"
      "open_fds s' (remove1 a xs) = remove1 fd (open_fds s xs)"
      "s' = ?s1\<lparr>g_firstFile := g_firstFile s', nodes := nodes s'\<rparr>"
      using DelOpenFile_ok [OF oks a(2)] a(3) by auto
    from s'(1) obtain s2 where d: "DelOpenFile a ?s1 = Some s2" "free_node a s2 = Some s'"
      by (cases "DelOpenFile a ?s1") auto
    have "CloseWork px tc s = Some (tc\<lparr>ret := 0\<rparr>, s')" using fd a(1) n c d True by (simp add: CloseWork_def)
    moreover have "fds s' = fds s" "copybufs s' = copybufs s" by (subst s'(4); simp)+
    ultimately show ?thesis using s'(2,3) mem fails True by (auto simp: close_post_def)
  next
    case False
    have "inj_on (streams s) (dom (streams s))" using ok by (simp add: files_ok_def)
    then have one: "streams s g = Some fd \<longleftrightarrow> g = file_of s a" for g using a(3) by (metis domIff inj_onD option.distinct(1))
    have "(streams s)(file_of s a := None) = streams s |` {f. streams s f \<noteq> Some fd}"
      by (rule ext) (simp add: restrict_map_def one)
    then show ?thesis using fd a(1) n c False mem fails by (auto simp: CloseWork_def close_post_def)
  qed
qed

lemma CloseWork_ok:
  assumes "agent_ok s" and "12 \<le> length (args tc)"
  shows "ok (CloseWork px tc s) (\<lambda>r. length (args (fst r)) = length (args tc) \<and> (fclose_fails px tc s \<or> handled tc r))"
proof -
  from fd_arg [OF assms(2), of file_fd] obtain fd where fd: "args_i32 file_fd tc = Some fd" by auto
  from assms(1) obtain xs where xs: "files_ok s xs" and tmp: "fds s = {}" "copybufs s = {}" by (auto simp: agent_ok_def)
  from CloseWork_spec [OF xs fd] show ?thesis
    by (rule ok_mono) (use tmp in \<open>auto simp: handled_def agent_ok_def\<close>)
qed

text \<open>Reading, writing, seeking and the like change only the world.\<close>

lemma ReadWork_ok:
  assumes "agent_ok s" and "12 \<le> length (args tc)" and "count_ok tc" and px: "fs_os_ok px"
  shows "ok (ReadWork px tc s) (kept tc s)"
proof -
  from fd_arg [OF assms(2), of file_fd] obtain fd where fd: "args_i32 file_fd tc = Some fd" by auto
  from assms(3) obtain want where want: "args_u32 rw_count tc = Some want" "rw_buffer + unat want \<le> length (args tc)"
    by (auto simp: count_ok_def split: option.splits)
  show ?thesis
  proof (rule find_cases [OF assms(1), of fd])
    assume "FindOpenFile fd s = Some (0, NULL)"
    then show ?thesis using fd by (simp add: ReadWork_def)
  next
    fix xs a n assume a: "FindOpenFile fd s = Some (1, a)" "node_at s a = Some n" "files_ok s xs"
      "a \<in> set xs" "of_file n = file_of s a" "streams s (of_file n) = Some fd"
    let ?r = "px_fread px (of_file n) (unat want) (fworld s)"
    have "length (fst ?r) \<le> unat want" using px by (simp add: fs_os_ok_def fread_ok_def)
    with want(2) obtain tc' where tc': "set_args_bytes rw_buffer (fst ?r) tc = Some tc'" "length (args tc') = length (args tc)"
      using ok_set_args_bytes [of rw_buffer "fst ?r" tc] by (auto elim: okE)
    show ?thesis
      using fd a(1,2,6) want(1) tc' by (simp add: ReadWork_def on_stream_open Let_def) (simp add: kept_def)
  qed
qed

lemma WriteWork_ok:
  assumes "agent_ok s" and "12 \<le> length (args tc)" and "count_ok tc"
  shows "ok (WriteWork px tc s) (kept tc s)"
proof -
  from fd_arg [OF assms(2), of file_fd] obtain fd where fd: "args_i32 file_fd tc = Some fd" by auto
  from assms(3) obtain want where want: "args_u32 rw_count tc = Some want" "rw_buffer + unat want \<le> length (args tc)"
    by (auto simp: count_ok_def split: option.splits)
  show ?thesis
    by (rule find_cases [OF assms(1), of fd]) (use fd want in \<open>simp_all add: WriteWork_def on_stream_open get_bytes_def\<close>)
qed

lemma SeekWork_ok:
  assumes "agent_ok s" and "12 \<le> length (args tc)"
  shows "ok (SeekWork px tc s) (kept tc s)"
proof -
  obtain fd off wh where i: "args_i32 file_fd tc = Some fd" "args_i32 seek_offset tc = Some off" "args_i32 seek_whence tc = Some wh"
    using fd_arg [OF assms(2), of file_fd] fd_arg [OF assms(2), of seek_offset] fd_arg [OF assms(2), of seek_whence] by auto
  show ?thesis
    by (rule find_cases [OF assms(1), of fd]) (use i in \<open>simp_all add: SeekWork_def on_stream_open Let_def\<close>)
qed

lemma FsyncWork_ok:
  assumes "agent_ok s" and "12 \<le> length (args tc)"
  shows "ok (FsyncWork px tc s) (kept tc s)"
proof -
  from fd_arg [OF assms(2), of file_fd] obtain fd where fd: "args_i32 file_fd tc = Some fd" by auto
  show ?thesis
    by (rule find_cases [OF assms(1), of fd])
      (use fd in \<open>simp_all add: FsyncWork_def on_stream_open fileno_def fcall_pair Let_def\<close>)
qed

lemma Join_length: "securec_ok sc \<Longrightarrow> Join sc name s = Some (0, p) \<Longrightarrow> length p < 256"
  by (simp add: Join_def JoinFileName_iff joinable_def)

lemma DoJoinFileName_length:
  assumes sc: "securec_ok sc" and join: "DoJoinFileName sc name [] 256 = (0, p)"
  shows "length p < 256"
proof -
  obtain r d where d: "(if prefix SFS_PARTITION_TRANSIENT_PERSO name \<or> prefix SFS_PARTITION_TRANSIENT_PRIVATE name
      then GetTransientDir sc [] 256 else if prefix SFS_PARTITION_PERSISTENT name then GetPersistentDir sc [] 256
      else if prefix SEC_STORAGE_ROOT_DIR name then (0, []) else GetDefaultDir sc [] 256) = (r, d)" by fastforce
  with join have "(let (rc, path) = strncat_s sc 256 d name (length name) in if rc \<noteq> 0 then (- 1 :: int, path) else (0, path)) = (0, p)"
    by (simp add: DoJoinFileName_def strstr_0_iff split: if_splits)
  then show ?thesis unfolding strncat_last [OF sc] by simp
qed

lemma UnlinkRecursive_same:
  assumes "securec_ok sc" and "length p < 256"
  shows "\<exists>r w. UnlinkRecursive sc px PATH_MAX p s = Some (r, s\<lparr>fworld := w\<rparr>)"
proof -
  have "keeps_view px (\<lambda>_. ()) (\<lambda>_. True)" "dirs_closed px (\<lambda>_. True)" by (simp_all add: keeps_view_def dirs_closed_def)
  from UnlinkRecursive_ok [OF assms(1) this, of p PATH_MAX s] assms(2) show ?thesis
    by (auto simp: unlink_post_def elim!: okE)
qed

lemma RemoveWork_ok:
  assumes sc: "securec_ok sc" and "name_ok tc remove_name"
  shows "ok (RemoveWork sc px tc s) (kept tc s)"
proof (rule name_okE [OF assms, of s])
  fix name r p assume j: "args_str remove_name tc = Some name" "Join sc name (SetCurrent tc s) = Some (r, p)"
  show ?thesis
  proof (cases "r = 0")
    case True
    with Join_length [OF sc] j have "length p < 256" by blast
    from UnlinkRecursive_same [OF sc this, of px "SetCurrent tc s"] obtain q w where
      "UnlinkRecursive sc px PATH_MAX p (SetCurrent tc s) = Some (q, (SetCurrent tc s)\<lparr>fworld := w\<rparr>)" by blast
    then show ?thesis using j True by (simp add: RemoveWork_def SetCurrent_def)
  next
    case False
    then show ?thesis using j by (simp add: RemoveWork_def SetCurrent_def)
  qed
qed

lemma DeleteAllWork_ok:
  assumes sc: "securec_ok sc" and "args_str deleteAll_path tc = Some name"
  shows "ok (DeleteAllWork sc px tc s) (kept tc s)"
proof -
  obtain r p where j: "DoJoinFileName sc name [] 256 = (r, p)" by fastforce
  show ?thesis
  proof (cases "r = 0")
    case True
    with DoJoinFileName_length [OF sc] j have "length p < 256" by blast
    from UnlinkRecursive_same [OF sc this, of px "s\<lparr>g_userId := userId tc\<rparr>"] obtain q w where
      "UnlinkRecursive sc px PATH_MAX p (s\<lparr>g_userId := userId tc\<rparr>) = Some (q, s\<lparr>g_userId := userId tc, fworld := w\<rparr>)" by auto
    then show ?thesis using j True assms(2) by (simp add: DeleteAllWork_def)
  next
    case False
    then show ?thesis using j assms(2) by (simp add: DeleteAllWork_def)
  qed
qed

lemma TruncateWork_ok:
  assumes "securec_ok sc" and "name_ok tc truncate_name" and "12 \<le> length (args tc)"
  shows "ok (TruncateWork sc px tc s) (kept tc s)"
proof -
  from args_defined(1) [of truncate_len tc] assms(3) obtain len where len: "args_u32 truncate_len tc = Some len" by auto
  show ?thesis
    by (rule name_okE [OF assms(1,2), of s])
      (use len in \<open>simp add: TruncateWork_def fcall_pair Let_def SetCurrent_def\<close>)
qed

lemma FileAccessWork_ok:
  assumes "securec_ok sc" and "12 \<le> length (args tc)"
    and "cmd_of (cmd tc) = Some SEC_ACCESS \<Longrightarrow> name_ok tc access_name" and "args_str access_name tc \<noteq> None"
  shows "ok (FileAccessWork sc px tc s) (kept tc s)"
proof -
  from fd_arg [OF assms(2), of access_mode] obtain m where m: "args_i32 access_mode tc = Some m" by auto
  show ?thesis
  proof (cases "cmd_of (cmd tc) = Some SEC_ACCESS")
    case True
    show ?thesis
      by (rule name_okE [OF assms(1) assms(3) [OF True], of s])
        (use m True in \<open>simp add: FileAccessWork_def fcall_pair Let_def SetCurrent_def\<close>)
  next
    case False
    then show ?thesis using m assms(4) by (auto simp: FileAccessWork_def fcall_pair Let_def)
  qed
qed

lemma two_paths_defined:
  assumes "securec_ok sc" and "name_ok tc two_names" and "second_ok tc"
  shows "\<exists>r. two_paths sc tc (SetCurrent tc s) = Some r"
proof -
  from assms(3) obtain n where n: "args_u32 first_len tc = Some n" "name_ok tc (two_names + unat n)"
    by (auto simp: second_ok_def split: option.splits)
  show ?thesis
    by (rule name_okE [OF assms(1,2), of s], rule name_okE [OF assms(1) n(2), of s])
      (use n(1) in \<open>simp add: two_paths_def\<close>)
qed

lemma RenameWork_ok:
  assumes "securec_ok sc" and "name_ok tc two_names" and "second_ok tc"
  shows "ok (RenameWork sc px tc s) (kept tc s)"
proof -
  from two_paths_defined [OF assms] obtain r where "two_paths sc tc (SetCurrent tc s) = Some r" by blast
  then show ?thesis
    by (cases r) (auto simp: RenameWork_def fcall_pair Let_def SetCurrent_def)
qed

lemma CopyWork_ok:
  assumes "securec_ok sc" and "name_ok tc two_names" and "second_ok tc" and px: "fs_os_ok px"
  shows "ok (CopyWork sc px tc s) (kept tc s)"
proof -
  from two_paths_defined [OF assms(1-3)] obtain r where r: "two_paths sc tc (SetCurrent tc s) = Some r" by blast
  show ?thesis
  proof (cases r)
    case None
    with r show ?thesis by (simp add: CopyWork_def)
  next
    case (Some pq)
    from px have "copy_ends px" "fresh_ok px" by (auto simp: fs_os_ok_def)
    from CopyFile_ok [OF this, of sc "fst pq" "snd pq" "SetCurrent tc s"] obtain q w where
      "CopyFile sc px (fst pq) (snd pq) (SetCurrent tc s) = Some (q, (SetCurrent tc s)\<lparr>fworld := w\<rparr>)"
      by (auto elim: okE)
    then show ?thesis using r Some by (cases pq) (simp add: CopyWork_def Let_def SetCurrent_def)
  qed
qed

lemma FileInfoWork_ok:
  assumes ok: "agent_ok s" and len: "12 \<le> length (args tc)"
  shows "ok (FileInfoWork px tc s) (kept tc s)"
proof -
  have put: "\<exists>tc'. set_args_u32 off v tc1 = Some tc' \<and> length (args tc') = length (args tc)"
    if "length (args tc1) = length (args tc)" "off \<le> 8" for off v tc1
    using ok_set_args_u32 [of off tc1 v] that len by (auto elim: okE)
  obtain tc1 where t1: "set_args_u32 info_curPos 0 tc = Some tc1" "length (args tc1) = length (args tc)"
    using put [of tc info_curPos 0] by auto
  obtain tc2 where t2: "set_args_u32 info_fileLen 0 tc1 = Some tc2" "length (args tc2) = length (args tc)"
    using put [OF t1(2), of info_fileLen 0] by auto
  from fd_arg [of tc2 file_fd] t2(2) len obtain fd where fd: "args_i32 file_fd tc2 = Some fd" by auto
  let ?st = "px_fstat px fd (fworld s)"
  obtain tc3 where t3: "set_args_u32 info_fileLen (ucast (st_size (snd (fst ?st)))) tc2 = Some tc3"
      "length (args tc3) = length (args tc)"
    using put [OF t2(2), of info_fileLen] by auto
  have t4: "\<exists>tc4. set_args_u32 info_curPos v tc3 = Some tc4 \<and> length (args tc4) = length (args tc)" for v
    using put [OF t3(2), of info_curPos] by auto
  show ?thesis
  proof (rule find_cases [OF ok, of fd])
    fix xs a n assume a: "FindOpenFile fd s = Some (1, a)" "node_at s a = Some n" "streams s (of_file n) = Some fd"
    obtain tc4 where "set_args_u32 info_curPos (uint32_of (fst (px_ftell px (of_file n) (snd ?st)))) tc3 = Some tc4"
      "length (args tc4) = length (args tc)" using t4 by blast
    then show ?thesis
      using t1 t2 fd a t3 by (cases "fst (fst ?st) = 0")
        (simp_all add: FileInfoWork_def fcall_pair on_stream_open Let_def case_prod_beta kept_def)
  qed (use t1 t2 fd in \<open>simp add: FileInfoWork_def kept_def\<close>)
qed

lemma DiskUsageWork_ok:
  assumes sc: "securec_ok sc" and len: "12 \<le> length (args tc)"
  shows "ok (DiskUsageWork sc px tc s) (kept tc s)"
proof -
  obtain r1 st1 w1 where f1: "fcall (px_statfs px USER_DATA_DIR) s = ((r1, st1), s\<lparr>fworld := w1\<rparr>)"
    by (metis fcallE prod.exhaust)
  obtain r2 st2 w2 where f2: "fcall (px_statfs px SEC_STORAGE_ROOT_DIR) (s\<lparr>fworld := w1\<rparr>) = ((r2, st2), s\<lparr>fworld := w2\<rparr>)"
    using fcall_pair [of "px_statfs px SEC_STORAGE_ROOT_DIR" "s\<lparr>fworld := w1\<rparr>"] by (simp) (metis prod.collapse)
  have "ok (set_args_u32 du_data (remain_kb st1) (tc\<lparr>ret := 0\<rparr>)) (\<lambda>t. length (args t) = length (args tc))"
    using ok_set_args_u32 [of du_data "tc\<lparr>ret := 0\<rparr>"] len by simp
  then obtain tc1 where t1: "set_args_u32 du_data (remain_kb st1) (tc\<lparr>ret := 0\<rparr>) = Some tc1" "length (args tc1) = length (args tc)"
    by (auto elim: okE)
  have "ok (set_args_u32 du_secStorage (remain_kb st2) tc1) (\<lambda>t. length (args t) = length (args tc1))"
    using ok_set_args_u32 [of du_secStorage tc1] len t1(2) by simp
  then obtain tc2 where t2: "set_args_u32 du_secStorage (remain_kb st2) tc1 = Some tc2" "length (args tc2) = length (args tc)"
    using t1(2) by (auto elim: okE)
  have "DiskUsageWork sc px tc s =
    (if r1 < 0 then Some (tc\<lparr>ret := - 1, error := uint32_of (errno px (s\<lparr>fworld := w1\<rparr>))\<rparr>, s\<lparr>fworld := w1\<rparr>)
     else if r2 < 0 then Some (tc\<lparr>ret := - 1, error := uint32_of (errno px (s\<lparr>fworld := w2\<rparr>))\<rparr>, s\<lparr>fworld := w2\<rparr>)
     else Some (tc2, s\<lparr>fworld := w2\<rparr>))"
    using sc t1(1) t2(1) f1 f2
    by (simp add: DiskUsageWork_def GetTransientDir_ok GetPersistentDir_ok strncat_eval Let_def)
  then show ?thesis using t2(2) by (simp add: kept_def)
qed

subsection \<open>Opening a file\<close>

text \<open>The two outcomes of a request to open a file, on the abstract list of descriptors.\<close>

definition opened :: "SecStorageType \<Rightarrow> addr list \<Rightarrow> 'w fs \<Rightarrow> SecStorageType \<times> 'w fs \<Rightarrow> bool" where
  "opened tc xs s r \<longleftrightarrow> (\<exists>a. files_ok (snd r) (xs @ [a]) \<and> open_fds (snd r) (xs @ [a]) = open_fds s xs @ [ret (fst r)] \<and>
     ret (fst r) \<ge> 0 \<and> args (fst r) = args tc \<and> fds (snd r) = fds s \<and> copybufs (snd r) = copybufs s)"

lemma do_fopenE:
  assumes "fresh_ok px"
  obtains (fail) w where "do_fopen px p m s = (NULL, s\<lparr>fworld := w\<rparr>)"
      and "fst (fst (px_fopen px (\<lambda>a. a \<in> dom (streams s)) (used_fd s) p m (fworld s))) = NULL"
      and "w = snd (px_fopen px (\<lambda>a. a \<in> dom (streams s)) (used_fd s) p m (fworld s))"
    | (stream) f fd w where "do_fopen px p m s = (f, s\<lparr>streams := (streams s)(f \<mapsto> fd), fworld := w\<rparr>)"
        and "f \<noteq> NULL" and "streams s f = None" and "fd \<notin> ran (streams s)" and "fd \<ge> 0"
proof -
  let ?c = "px_fopen px (\<lambda>a. a \<in> dom (streams s)) (used_fd s) p m (fworld s)"
  obtain f fd w where o: "?c = ((f, fd), w)" by (metis prod.exhaust)
  have f: "f = NULL \<or> \<not> f \<in> dom (streams s) \<and> \<not> used_fd s fd \<and> fd \<ge> 0"
    using assms o unfolding fresh_ok_def by (metis fst_conv snd_conv)
  show ?thesis
  proof (cases "f = NULL")
    case True
    with o show ?thesis by (intro fail [of w]) (simp_all add: do_fopen_def fcall_def)
  next
    case False
    with f o show ?thesis by (intro stream [of f w fd]) (auto simp: do_fopen_def fcall_def used_fd_def)
  qed
qed

lemma DoOpenFile_ok:
  assumes ok: "files_ok s xs" and px: "fresh_ok px" "errno_ok px" and mode: "args_str open_mode tc = Some m"
  shows "ok (DoOpenFile sc px path tc s) (\<lambda>((e, tc'), s'). if e = 0 then opened tc xs s (tc', s') else tc' = tc \<and> same_files s s')"
proof -
  obtain r q s1 where g: "GetRealFilePath sc px path PATH_MAX s = ((r, q), s1)" by (metis prod.exhaust)
  then obtain w1 where s1: "s1 = s\<lparr>fworld := w1\<rparr>" using GetRealFilePath_same by blast
  have ok1: "files_ok s1 xs" using ok s1 by simp
  show ?thesis
  proof (cases "r = 0")
    case False
    then show ?thesis using g s1 by (simp add: DoOpenFile_def)
  next
    case r0: True
    show ?thesis
    proof (rule do_fopenE [OF px(1), of q m s1])
      fix w assume f: "do_fopen px q m s1 = (NULL, s1\<lparr>fworld := w\<rparr>)"
        "fst (fst (px_fopen px (\<lambda>a. a \<in> dom (streams s1)) (used_fd s1) q m (fworld s1))) = NULL"
        "w = snd (px_fopen px (\<lambda>a. a \<in> dom (streams s1)) (used_fd s1) q m (fworld s1))"
      have "px_errno px w \<in> {0<..<2 ^ 31}" using px(2) f(2,3) unfolding errno_ok_def by blast
      then have "uint32_of (px_errno px w) \<noteq> 0" by (rule uint32_of_pos)
      then show ?thesis using g r0 mode f(1) s1 by (simp add: DoOpenFile_def errno_def)
    next
      fix f fd w assume f: "do_fopen px q m s1 = (f, s1\<lparr>streams := (streams s1)(f \<mapsto> fd), fworld := w\<rparr>)"
        "f \<noteq> NULL" "streams s1 f = None" "fd \<notin> ran (streams s1)" "fd \<ge> 0"
      let ?w = "snd (px_chmod px q SFS_FILE_PERM w)"
      let ?s = "s1\<lparr>fworld := ?w\<rparr>"
      let ?s2 = "?s\<lparr>streams := (streams ?s)(f \<mapsto> fd)\<rparr>"
      have run: "DoOpenFile sc px path tc s = do {
          (r, s) \<leftarrow> AddOpenFile px f ?s2;
          if r \<noteq> 0 then do { (_, s) \<leftarrow> do_fclose px f s; Some ((ENOMEM, tc), s) }
          else do { fd \<leftarrow> fileno s f; Some ((0, tc\<lparr>ret := fd\<rparr>), s) } }"
        using g r0 mode f(1,2) by (simp add: DoOpenFile_def ChownSecStorage_def fcall_pair)
      have oks: "files_ok ?s xs" using ok1 by simp
      from AddOpenFile_ok [OF oks px(1) f(2), of fd] f(3,4) consider
        (fail) w2 where "AddOpenFile px f ?s2 = Some (- 1, ?s2\<lparr>fworld := w2\<rparr>)"
        | (added) s' a w2 where "AddOpenFile px f ?s2 = Some (0, s')" "files_ok s' (xs @ [a])"
            "open_fds s' (xs @ [a]) = open_fds ?s xs @ [fd]"
            "s' = ?s2\<lparr>g_firstFile := g_firstFile s', nodes := nodes s', fworld := w2\<rparr>" by auto
      then show ?thesis
      proof cases
        case fail
        have restored: "(streams s)(f := None) = streams s" using f(3) s1 by (auto simp: fun_eq_iff)
        show ?thesis using fail by (simp add: run do_fclose_def on_stream_open s1 restored)
      next
        case added
        have "streams s' f = Some fd" "fds s' = fds s" "copybufs s' = copybufs s" by (subst added(4); simp add: s1)+
        then show ?thesis using added(1-3) f(5) s1 by (auto simp: run fileno_def opened_def)
      qed
    qed
  qed
qed

lemma cstr_earlier: "cstr bs off = Some n \<Longrightarrow> off' \<le> off \<Longrightarrow> \<exists>m. cstr bs off' = Some m"
proof -
  assume "cstr bs off = Some n" "off' \<le> off"
  then have "0 \<in> set (drop off bs)" "set (drop off bs) \<subseteq> set (drop off' bs)"
    by (auto simp: cstr_def set_drop_subset_set_drop split: if_splits)
  then show ?thesis by (auto simp: cstr_def)
qed

lemma cstr_after_put:
  assumes "put_bytes bs off xs = Some ys" and "off + length xs \<le> off'" and "cstr bs off' = Some n"
  shows "cstr ys off' = Some n"
proof -
  have "drop off' ys = drop off' bs" using assms(1,2) by (auto simp: put_bytes_def split: if_splits)
  then show ?thesis using assms(3) by (simp add: cstr_def split: if_splits)
qed

lemma CheckOpenWorkValid_ok:
  assumes sc: "securec_ok sc" and len: "12 \<le> length (args tc)" and name: "args_str open_name tc = Some n"
  shows "ok (CheckOpenWorkValid sc px p tc s) (\<lambda>((v, tc'), s'). kept tc s (tc', s') \<and> (\<exists>m. args_str open_mode tc' = Some m) \<and>
    (v = 0 \<or> v = ENOENT))"
proof (cases "cmd_of (cmd tc) = Some SEC_CREATE")
  case True
  have cp: "strncpy_s sc 4 ''w+'' 3 = (0, ''w+'')" using strncpy_s_ok(1) [OF sc] by simp
  let ?b = "map byte_of ''w+'' @ [0]"
  from len obtain tc' where put: "set_args_bytes open_mode ?b tc = Some tc'" "length (args tc') = length (args tc)"
    using ok_set_args_bytes [of open_mode ?b tc] by (auto elim: okE)
  from put(1) obtain ys where ys: "put_bytes (args tc) open_mode ?b = Some ys" "tc' = tc\<lparr>args := ys\<rparr>"
    by (auto simp: set_args_bytes_def)
  have "cstr ys open_name = Some n"
    using cstr_after_put [OF ys(1), of open_name n] name by (simp add: args_str_def)
  from cstr_earlier [OF this, of open_mode] obtain m where "args_str open_mode tc' = Some m"
    using ys(2) by (auto simp: args_str_def)
  then show ?thesis using True cp put by (simp add: CheckOpenWorkValid_def kept_def)
next
  case False
  from cstr_earlier [of "args tc" open_name n open_mode] name obtain m where "args_str open_mode tc = Some m"
    by (auto simp: args_str_def)
  then show ?thesis using False by (simp add: CheckOpenWorkValid_def IsFileExist_def fcall_pair Let_def)
qed

lemma CheckPartitionReady_same: "CheckPartitionReady px d s = (r, s') \<Longrightarrow> same_files s s'"
  by (auto simp: CheckPartitionReady_def fcall_pair Let_def case_prod_beta split: if_splits)

lemma opened_same:
  assumes "same_files s1 s" and "opened tc xs s r"
  shows "opened tc xs s1 r"
  using assms by (auto simp: opened_def elim!: same_filesE)

text \<open>A request to open or create a file fails with -1 and keeps the files, or appends its descriptor.\<close>

lemma OpenWork_spec:
  assumes sc: "securec_ok sc" and name: "name_ok tc open_name" and len: "12 \<le> length (args tc)"
    and ok: "files_ok s xs" and px: "fresh_ok px" "errno_ok px"
  shows "ok (OpenWork sc px tc s) (\<lambda>(tc', s'). length (args tc') = length (args tc) \<and>
    (ret tc' = - 1 \<and> same_files s s' \<or> (\<exists>tc1. opened tc1 xs s (tc', s'))))"
proof (rule name_okE [OF sc name, of s])
  let ?s = "SetCurrent tc s"
  fix nm r p assume j: "args_str open_name tc = Some nm" "Join sc nm ?s = Some (r, p)"
  obtain ready s1 where rd: "(if strstr p SFS_PARTITION_PERSISTENT \<noteq> None then CheckPartitionReady px ''/sec_storage'' ?s else (1, ?s)) = (ready, s1)"
    by fastforce
  then have s1: "same_files s s1"
    using CheckPartitionReady_same [of px "''/sec_storage''" ?s] same_files_trans [OF SetCurrent_same] by (auto split: if_splits)
  show ?thesis
  proof (cases "r \<noteq> 0 \<or> ready \<le> 0")
    case True
    then show ?thesis using j rd s1 by (cases "r = 0") (simp_all add: OpenWork_def)
  next
    case False
    from CheckOpenWorkValid_ok [OF sc len j(1), of px p s1] obtain v tc2 s2 where
      v: "CheckOpenWorkValid sc px p tc s1 = Some ((v, tc2), s2)" "kept tc s1 (tc2, s2)" "\<exists>m. args_str open_mode tc2 = Some m"
      by (auto elim!: okE)
    from v(2) s1 have s2: "same_files s s2" "length (args tc2) = length (args tc)"
      using same_files_trans by (auto simp: kept_def)
    from CreateDir_run [OF px(1), of p 256 s2] obtain c s3 where
      c: "CreateDir px p 256 s2 = Some (c, s3)" "same_files s2 s3" by (auto elim!: okE)
    have s3: "same_files s s3" using s2(1) c(2) by (rule same_files_trans)
    have ok3: "files_ok s3 xs" using s3 ok by (auto elim!: same_filesE)
    from v(3) obtain m where m: "args_str open_mode tc2 = Some m" by blast
    from DoOpenFile_ok [OF ok3 px m, of sc p] obtain e tc4 s4 where
      d: "DoOpenFile sc px p tc2 s3 = Some ((e, tc4), s4)"
      "if e = 0 then opened tc2 xs s3 (tc4, s4) else tc4 = tc2 \<and> same_files s3 s4" by (auto elim!: okE)
    have run: "OpenWork sc px tc s =
       (if v \<noteq> 0 then Some (tc2\<lparr>ret := - 1, error := uint32_of ENOENT\<rparr>, s2)
        else if c \<noteq> 0 then Some (tc2\<lparr>ret := - 1, error := uint32_of (errno px s3)\<rparr>, s3)
        else if e \<noteq> 0 then Some (tc4\<lparr>ret := - 1, error := e\<rparr>, s4) else Some (tc4, s4))"
      using False j rd v(1) c(1) d(1) by (simp add: OpenWork_def)
    show ?thesis
    proof (cases "v \<noteq> 0 \<or> c \<noteq> 0 \<or> e \<noteq> 0")
      case True
      have "same_files s s4 \<and> tc4 = tc2" if "e \<noteq> 0" using d(2) that same_files_trans [OF s3] by simp
      then show ?thesis using True s2 s3 by (cases "v = 0"; cases "c = 0") (auto simp: run)
    next
      case e0: False
      then have o: "opened tc2 xs s (tc4, s4)" using d(2) opened_same [OF s3] by simp
      then have "length (args tc4) = length (args tc)" using s2(2) by (auto simp: opened_def)
      then show ?thesis using e0 o by (auto simp: run)
    qed
  qed
qed

end
