(* ===== verification/Fs_Agent.thy ===== *)
theory Fs_Agent
  imports Fs_Inv
begin

text \<open>
  The file agent as a state machine: one step is one event that its thread handles.  The invariant
  of \<open>Fs_Inv\<close> holds in every state that is reached, for every sequence of well-formed requests, up to the first request to close
  a file whose \<open>fclose\<close> fails.
\<close>

section \<open>The agent as a state machine\<close>

lemma work_ok:
  assumes sc: "securec_ok sc" and px: "fs_os_ok px" "errno_ok px" and ok: "agent_ok s"
    and req: "request_ok tc" "cmd_of (cmd tc) = Some c"
  shows "ok (g_fsWorkTbl sc px c tc s) (\<lambda>r. length (args (fst r)) = length (args tc) \<and>
    (c = SEC_CLOSE \<and> fclose_fails px tc s \<or> handled tc r))"
proof -
  have len: "12 \<le> length (args tc)" and c: "command_ok c tc" using req by (simp_all add: request_ok_def)
  have fresh: "fresh_ok px" using px by (simp add: fs_os_ok_def)
  note same = ok_handled_same [OF ok]
  have openw: "ok (OpenWork sc px tc s) (handled tc)" if n: "name_ok tc open_name"
  proof -
    from ok obtain xs where xs: "files_ok s xs" and f: "fds s = {}" "copybufs s = {}" by (auto simp: agent_ok_def)
    show ?thesis
      by (rule ok_mono [OF OpenWork_spec [OF sc n len xs fresh px(2)]])
        (use ok f in \<open>auto simp: handled_def opened_def agent_ok_def elim!: same_filesE\<close>)
  qed
  have all: "ok m (\<lambda>r. length (args (fst r)) = length (args tc) \<and> (c = SEC_CLOSE \<and> fclose_fails px tc s \<or> handled tc r))"
    if "ok m (handled tc)" for m
    using that by (rule ok_mono) (simp add: handled_def)
  have others: "ok (g_fsWorkTbl sc px c tc s) (handled tc)" if nc: "c \<noteq> SEC_CLOSE"
  proof (cases c)
    case SEC_OPEN then show ?thesis using c openw by simp
  next
    case SEC_CLOSE with nc show ?thesis by simp
  next
    case SEC_READ then show ?thesis using c same [OF ReadWork_ok [OF ok len _ px(1)]] by simp
  next
    case SEC_WRITE then show ?thesis using c same [OF WriteWork_ok [OF ok len]] by simp
  next
    case SEC_SEEK then show ?thesis using same [OF SeekWork_ok [OF ok len]] by simp
  next
    case SEC_REMOVE then show ?thesis using c same [OF RemoveWork_ok [OF sc]] by simp
  next
    case SEC_TRUNCATE then show ?thesis using c same [OF TruncateWork_ok [OF sc _ len]] by simp
  next
    case SEC_RENAME then show ?thesis using c same [OF RenameWork_ok [OF sc]] by simp
  next
    case SEC_CREATE then show ?thesis using c openw by simp
  next
    case SEC_INFO then show ?thesis using same [OF FileInfoWork_ok [OF ok len]] by simp
  next
    case SEC_ACCESS
    then have "name_ok tc access_name" "args_str access_name tc \<noteq> None" using c by (auto simp: name_ok_def split: option.splits)
    then show ?thesis using SEC_ACCESS same [OF FileAccessWork_ok [OF sc len]] by simp
  next
    case SEC_ACCESS2
    then show ?thesis using c req(2) same [OF FileAccessWork_ok [OF sc len]] by simp
  next
    case SEC_FSYNC then show ?thesis using same [OF FsyncWork_ok [OF ok len]] by simp
  next
    case SEC_CP then show ?thesis using c same [OF CopyWork_ok [OF sc _ _ px(1)]] by simp
  next
    case SEC_DISKUSAGE then show ?thesis using same [OF DiskUsageWork_ok [OF sc len]] by simp
  next
    case SEC_DELETE_ALL
    then obtain n where "args_str deleteAll_path tc = Some n" using c by auto
    then show ?thesis using SEC_DELETE_ALL same [OF DeleteAllWork_ok [OF sc]] by simp
  qed
  show ?thesis
  proof (cases "c = SEC_CLOSE")
    case True
    then show ?thesis using CloseWork_ok [OF ok len, of px] by simp
  next
    case False
    show ?thesis by (rule all [OF others [OF False]])
  qed
qed

text \<open>
  The secure world and the driver: an event leaves the size of the buffer as it is, and a request
  that is new (its magic is not the agent's) is one that the agent can handle.
\<close>

definition tee_ok :: "'w posix \<Rightarrow> int \<Rightarrow> bool" where
  "tee_ok px fd \<longleftrightarrow>
     (\<forall>q tc w. length (args (snd (fst (px_event px fd q AGENT_FS_ID tc w)))) = length (args tc)) \<and>
     (\<forall>tc w. 12 \<le> length (args tc) \<longrightarrow> fst (fst (px_event px fd FS_WAIT_EVENT AGENT_FS_ID tc w)) = 0 \<longrightarrow>
        magic (snd (fst (px_event px fd FS_WAIT_EVENT AGENT_FS_ID tc w))) \<noteq> AGENT_FS_ID \<longrightarrow>
        request_ok (snd (fst (px_event px fd FS_WAIT_EVENT AGENT_FS_ID tc w))))"

definition fs_env_ok :: "securec \<Rightarrow> 'w posix \<Rightarrow> int \<Rightarrow> bool" where
  "fs_env_ok sc px fd \<longleftrightarrow> securec_ok sc \<and> fs_os_ok px \<and> errno_ok px \<and> tee_ok px fd"

definition fs_init :: "SecStorageType \<times> 'w fs \<Rightarrow> bool" where
  "fs_init ts \<longleftrightarrow> 12 \<le> length (args (fst ts)) \<and> magic (fst ts) = AGENT_FS_ID \<and> g_firstFile (snd ts) = NULL \<and>
     nodes (snd ts) = Map.empty \<and> streams (snd ts) = Map.empty \<and> fds (snd ts) = {} \<and> copybufs (snd ts) = {}"

inductive fs_step :: "securec \<Rightarrow> 'w posix \<Rightarrow> int \<Rightarrow> SecStorageType \<times> 'w fs \<Rightarrow> SecStorageType \<times> 'w fs \<Rightarrow> bool"
  for sc px fd where
  event: "FsWorkEventHandle sc px tc fd s = Some ((0, tc'), s') \<Longrightarrow> fs_step sc px fd (tc, s) (tc', s')"

inductive_cases fs_stepE: "fs_step sc px fd x y"

text \<open>
  The next event is a new request to close an open file, and \<open>fclose\<close> will fail for it; and the steps in which this does not happen.
\<close>

definition close_fails :: "'w posix \<Rightarrow> int \<Rightarrow> SecStorageType \<times> 'w fs \<Rightarrow> bool" where
  "close_fails px fd = (\<lambda>(tc, s). let ((r, tc1), w) = px_event px fd FS_WAIT_EVENT AGENT_FS_ID tc (fworld s)
     in r = 0 \<and> magic tc1 \<noteq> AGENT_FS_ID \<and> cmd_of (cmd tc1) = Some SEC_CLOSE \<and> fclose_fails px tc1 (s\<lparr>fworld := w\<rparr>))"

definition clean_step :: "securec \<Rightarrow> 'w posix \<Rightarrow> int \<Rightarrow> SecStorageType \<times> 'w fs \<Rightarrow> SecStorageType \<times> 'w fs \<Rightarrow> bool" where
  "clean_step sc px fd x y \<longleftrightarrow> fs_step sc px fd x y \<and> \<not> close_fails px fd x"

definition fs_inv :: "SecStorageType \<times> 'w fs \<Rightarrow> bool" where
  "fs_inv ts \<longleftrightarrow> agent_ok (snd ts) \<and> 12 \<le> length (args (fst ts))"

lemma fs_init_inv: "fs_init ts \<Longrightarrow> fs_inv ts"
proof -
  assume "fs_init ts"
  then have "files_ok (snd ts) []" by (simp add: fs_init_def files_ok_def ring_def)
  with \<open>fs_init ts\<close> show ?thesis by (auto simp: fs_inv_def fs_init_def agent_ok_def)
qed

lemma FsWorkEventHandle_ok:
  assumes env: "fs_env_ok sc px fd" and inv: "fs_inv (tc, s)"
  shows "ok (FsWorkEventHandle sc px tc fd s) (\<lambda>((r, tc'), s'). 12 \<le> length (args tc') \<and>
    (\<not> close_fails px fd (tc, s) \<longrightarrow> fs_inv (tc', s')))"
proof -
  obtain r tc1 w1 where e: "fcall (px_event px fd FS_WAIT_EVENT AGENT_FS_ID tc) s = ((r, tc1), s\<lparr>fworld := w1\<rparr>)"
    "px_event px fd FS_WAIT_EVENT AGENT_FS_ID tc (fworld s) = ((r, tc1), w1)"
    by (metis fcallE prod.exhaust)
  have len: "12 \<le> length (args tc1)" using env inv e(2) unfolding fs_env_ok_def tee_ok_def fs_inv_def
    by (metis fst_conv snd_conv)
  have req: "request_ok tc1" if "r = 0" "magic tc1 \<noteq> AGENT_FS_ID"
    using env inv e(2) that unfolding fs_env_ok_def tee_ok_def fs_inv_def by (metis fst_conv snd_conv)
  let ?s = "s\<lparr>fworld := w1\<rparr>"
  have ok1: "agent_ok ?s" using inv agent_ok_same [of s ?s] by (simp add: fs_inv_def)
  define work where "work = (if magic tc1 = AGENT_FS_ID then Some (tc1, ?s)
    else do {
      (tc, s) \<leftarrow> (case cmd_of (cmd tc1) of Some c \<Rightarrow> g_fsWorkTbl sc px c tc1 ?s | None \<Rightarrow> Some (tc1, ?s));
      Some (tc\<lparr>magic := AGENT_FS_ID\<rparr>, s)
    })"
  show ?thesis
  proof (cases "r = 0")
    case False
    then show ?thesis using e(1) ok1 len by (simp add: FsWorkEventHandle_def fs_inv_def)
  next
    case True
    let ?bad = "magic tc1 \<noteq> AGENT_FS_ID \<and> cmd_of (cmd tc1) = Some SEC_CLOSE \<and> fclose_fails px tc1 ?s"
    have bad: "close_fails px fd (tc, s) \<longleftrightarrow> ?bad" using e(2) True by (simp add: close_fails_def)
    have "ok work (\<lambda>(tc2, s2). (?bad \<or> agent_ok s2) \<and> length (args tc2) = length (args tc1))"
    proof (cases "magic tc1 = AGENT_FS_ID \<or> cmd_of (cmd tc1) = None")
      case True
      then show ?thesis using ok1 by (auto simp: work_def)
    next
      case new: False
      then obtain c where c: "cmd_of (cmd tc1) = Some c" by auto
      have "ok (g_fsWorkTbl sc px c tc1 ?s) (\<lambda>r. length (args (fst r)) = length (args tc1) \<and>
          (c = SEC_CLOSE \<and> fclose_fails px tc1 ?s \<or> handled tc1 r))"
        using env new True c ok1 req by (intro work_ok) (auto simp: fs_env_ok_def)
      then show ?thesis using new c by (auto simp: work_def handled_def elim!: ok_mono)
    qed
    then obtain tc2 s2 where w: "work = Some (tc2, s2)" "?bad \<or> agent_ok s2" "length (args tc2) = length (args tc1)"
      by (auto elim!: okE)
    obtain q tc3 w3 where r: "fcall (px_event px fd FS_SEND_EVENT_RESPONSE AGENT_FS_ID tc2) s2 = ((q, tc3), s2\<lparr>fworld := w3\<rparr>)"
      "px_event px fd FS_SEND_EVENT_RESPONSE AGENT_FS_ID tc2 (fworld s2) = ((q, tc3), w3)"
      by (metis fcallE prod.exhaust)
    have len3: "length (args tc3) = length (args tc2)" using env r(2) unfolding fs_env_ok_def tee_ok_def
      by (metis fst_conv snd_conv)
    have "FsWorkEventHandle sc px tc fd s = Some (if q \<noteq> 0 then ((q, tc3), s2\<lparr>fworld := w3\<rparr>) else ((0, tc3), s2\<lparr>fworld := w3\<rparr>))"
      using True e(1) w(1) [unfolded work_def] r(1) by (simp add: FsWorkEventHandle_def)
    then show ?thesis using w len len3 agent_ok_same [of s2 "s2\<lparr>fworld := w3\<rparr>"] by (auto simp: fs_inv_def bad)
  qed
qed

interpretation agent: invariant fs_init "clean_step sc px fd" "\<lambda>ts. fs_env_ok sc px fd \<longrightarrow> fs_inv ts"
  for sc :: securec and px :: "'w posix" and fd :: int
proof
  fix ts ts' :: "SecStorageType \<times> 'w fs"
  show "fs_init ts \<Longrightarrow> fs_env_ok sc px fd \<longrightarrow> fs_inv ts" by (simp add: fs_init_inv)
  show "fs_env_ok sc px fd \<longrightarrow> fs_inv ts \<Longrightarrow> clean_step sc px fd ts ts' \<Longrightarrow> fs_env_ok sc px fd \<longrightarrow> fs_inv ts'"
    by (auto simp: clean_step_def elim!: fs_stepE dest: ok_result [OF FsWorkEventHandle_ok])
qed

lemma reach_fs_inv: "reach fs_init (clean_step sc px fd) ts \<Longrightarrow> fs_env_ok sc px fd \<Longrightarrow> fs_inv ts"
  using agent.reach_inv by blast

end
