(* ===== verification/Fs_Sim.thy ===== *)
theory Fs_Sim
  imports Fs_Agent
begin

text \<open>
  A small operating system that meets the contracts of \<open>Fs_Types\<close> and \<open>Fs_Agent\<close>, with which the
  properties of the file agent are shown at concrete inputs: directories and files are lists of
  paths, one file can be read and one written, and the secure world sends the requests of a queue.
\<close>

record simw =
  sw_dirs :: "string list"
  sw_files :: "string list"
  sw_src :: "u8 list"
  sw_dst :: "u8 list"
  sw_queue :: "SecStorageType list"
  sw_errno :: int

text \<open>The names that a directory contains, with those of itself and of its parent.\<close>

definition entries :: "string \<Rightarrow> string list \<Rightarrow> string list" where
  "entries p qs = [''.'', ''..''] @
     filter (\<lambda>e. e \<noteq> [] \<and> CHR ''/'' \<notin> set e) (map (drop (length p + 1)) (filter (prefix (p @ ''/'')) qs))"

definition simpx :: "simw posix" where
  "simpx = \<lparr>
     px_errno = sw_errno,
     px_set_errno = \<lambda>e w. w\<lparr>sw_errno := e\<rparr>,
     px_malloc = \<lambda>used n w. (if \<not> used 0x100 then 0x100 else if \<not> used 0x200 then 0x200 else NULL, w),
     px_chmod = \<lambda>p m w. (0, w),
     px_access = \<lambda>p m w. (if p \<in> set (sw_dirs w @ sw_files w) then 0 else - 1, w),
     px_mkdir = \<lambda>p m w. (0, w\<lparr>sw_dirs := p # sw_dirs w\<rparr>),
     px_realpath = \<lambda>p w. (None, w\<lparr>sw_errno := ENOENT\<rparr>),
     px_opendir = \<lambda>p w. (if p \<in> set (sw_dirs w) then Some (entries p (sw_files w @ sw_dirs w)) else None, w),
     px_readdir = \<lambda>w. w,
     px_closedir = \<lambda>w. (0, w),
     px_rmdir = \<lambda>p w. (if p \<in> set (sw_dirs w) then 0 else - 1, w\<lparr>sw_dirs := removeAll p (sw_dirs w)\<rparr>),
     px_lstat = \<lambda>p w. ((if p \<in> set (sw_dirs w @ sw_files w) then 0 else - 1, p \<in> set (sw_dirs w)), w),
     px_stat = \<lambda>p w. (if p \<in> set (sw_dirs w @ sw_files w) then 0 else - 1, w),
     px_unlink = \<lambda>p w. (if p \<in> set (sw_files w) then 0 else - 1, w\<lparr>sw_files := removeAll p (sw_files w)\<rparr>),
     px_truncate = \<lambda>p n w. (0, w),
     px_rename = \<lambda>p q w. (0, w\<lparr>sw_files := map (\<lambda>f. if f = p then q else f) (sw_files w)\<rparr>),
     px_fopen = \<lambda>used usedfd p m w.
       if \<not> used 0x1000 \<and> \<not> usedfd 5 then ((0x1000, 5), w\<lparr>sw_files := p # sw_files w\<rparr>)
       else ((NULL, - 1), w\<lparr>sw_errno := 24\<rparr>),
     px_fclose = \<lambda>f w. (0, w),
     px_fread = \<lambda>f n w. (take n (sw_src w), w\<lparr>sw_src := drop n (sw_src w)\<rparr>),
     px_feof = \<lambda>f w. (sw_src w = [], w),
     px_fwrite = \<lambda>f bs w. (length bs, w\<lparr>sw_dst := sw_dst w @ bs\<rparr>),
     px_fflush = \<lambda>f w. (0, w),
     px_fseek = \<lambda>f off wh w. (0, w),
     px_ftell = \<lambda>f w. (0, w),
     px_open = \<lambda>usedfd p wr m w. (if \<not> usedfd 7 then 7 else if \<not> usedfd 8 then 8 else - 1, w),
     px_close = \<lambda>fd w. w,
     px_read = \<lambda>fd n w. (Some (take n (sw_src w)), w\<lparr>sw_src := drop n (sw_src w)\<rparr>),
     px_write = \<lambda>fd bs w. (int (length bs), w\<lparr>sw_dst := sw_dst w @ bs\<rparr>),
     px_fsync = \<lambda>fd w. (0, w),
     px_fstat = \<lambda>fd w. ((0, \<lparr>st_size = 0, st_mode = 0x180\<rparr>), w),
     px_statfs = \<lambda>p w. ((0, \<lparr>f_blocks = of_nat (length p), f_bfree = 0x100000, f_bsize = 4096\<rparr>), w),
     px_getrlimit = \<lambda>w. ((0, 4096), w),
     px_setrlimit = \<lambda>c m w. (0, w),
     px_setpriority = \<lambda>w. (0, w),
     px_event = \<lambda>fd q i tc w.
       (case q of
          FS_SEND_EVENT_RESPONSE \<Rightarrow> ((0, tc), w)
        | FS_WAIT_EVENT \<Rightarrow>
            (case sw_queue w of
               [] \<Rightarrow> ((- 1, tc), w)
             | e # es \<Rightarrow> if request_ok e \<and> length (args e) = length (args tc) then ((0, e), w\<lparr>sw_queue := es\<rparr>)
                         else ((- 1, tc), w)))\<rparr>"

lemma simpx_env_ok: "fs_env_ok securec_ref simpx fd"
proof -
  have "fresh_ok simpx" by (simp add: fresh_ok_def simpx_def)
  moreover have "copy_order simpx (\<lambda>fd w. length (sw_src w)) (\<lambda>_ _ _. True)"
    by (auto simp: copy_order_def simpx_def)
  moreover have "fread_ok simpx" "errno_ok simpx" by (simp_all add: fread_ok_def errno_ok_def simpx_def)
  moreover have "tee_ok simpx fd"
    by (auto simp: tee_ok_def simpx_def split: fs_req.splits list.splits)
  ultimately show ?thesis using securec_ref_ok unfolding fs_env_ok_def fs_os_ok_def copy_ends_def by blast
qed

lemma simpx_readdir: "readdir_ok simpx"
  by (auto simp: readdir_ok_def simpx_def entries_def)

definition simw0 :: simw where
  "simw0 = \<lparr>sw_dirs = [''/sec_storage''], sw_files = [], sw_src = [], sw_dst = [], sw_queue = [], sw_errno = 0\<rparr>"

definition simfs0 :: "simw \<Rightarrow> simw fs" where
  "simfs0 w = \<lparr>g_userId = 0, g_storageId = 0, g_firstFile = NULL, nodes = Map.empty, copybufs = {},
     streams = Map.empty, fds = {}, fworld = w\<rparr>"

definition req :: "u32 \<Rightarrow> u8 list \<Rightarrow> SecStorageType" where
  "req c bs = \<lparr>cmd = c, ret = 0, ret2 = 0, userId = 0, storageId = 0, magic = 0, error = 0, args = bs\<rparr>"

text \<open>Create the file \<open>a\<close>, and close descriptor 5.\<close>

definition req_create :: SecStorageType where
  "req_create = req 8 [0, 0, 0, 0, 2, 0, 0, 0, 97, 0, 0, 0]"

definition req_close :: SecStorageType where
  "req_close = req 1 [5, 0, 0, 0, 0, 0, 0, 0, 0, 0, 0, 0]"

lemmas req_defs = req_create_def req_close_def req_def

lemma req_create_args: "args_str open_name req_create = Some ''a''" "args_str 0 req_create = Some []"
  "cmd_of (cmd req_create) = Some SEC_CREATE" "storageId req_create = 0"
proof -
  have "chr_of 97 = CHR ''a''" by code_simp
  then show "args_str open_name req_create = Some ''a''" by (simp add: req_defs args_str_def cstr_def)
qed (simp_all add: req_defs args_str_def cstr_def cmd_of_def FsCmds_def)

lemma req_ok: "request_ok req_create" "request_ok req_close"
  by (simp add: request_ok_def req_create_args name_ok_def) (simp_all add: request_ok_def req_defs cmd_of_def FsCmds_def)




end
