(* ===== verification/Fs_Props.thy ===== *)
theory Fs_Props
  imports Fs_Sim
begin

text \<open>
  The properties of the file agent: what a sequence of requests keeps, what the table of open files
  implements, and what creating directories, removing a tree and copying a file achieve.
\<close>

section \<open>Lemmas for the properties\<close>

lemma simfs0_ok: "files_ok (simfs0 w) []"
  by (simp add: files_ok_def ring_def simfs0_def)

lemma simfs0_init: "12 \<le> length (args tc) \<Longrightarrow> magic tc = AGENT_FS_ID \<Longrightarrow> fs_init (tc, simfs0 w)"
  by (simp add: fs_init_def simfs0_def)

lemma open_fds_distinct: "files_ok s xs \<Longrightarrow> distinct (open_fds s xs)"
proof -
  assume ok: "files_ok s xs"
  have "inj_on (\<lambda>a. the (streams s (file_of s a))) (set xs)"
  proof (rule inj_onI)
    fix a b assume ab: "a \<in> set xs" "b \<in> set xs" "the (streams s (file_of s a)) = the (streams s (file_of s b))"
    then have "streams s (file_of s a) = streams s (file_of s b)"
      using files_okD(4) [OF ok] by (metis option.exhaust_sel)
    with ab show "a = b" using same_fd [OF ok] by blast
  qed
  then show ?thesis using files_okD(2) [OF ok] by (simp add: open_fds_def distinct_map)
qed

lemma FindOpenFile_iff:
  assumes ok: "files_ok s xs"
  shows "\<exists>a. FindOpenFile fd s = Some (if fd \<in> set (open_fds s xs) then 1 else 0, a)"
proof (rule FindOpenFile_ok [OF ok, of fd])
  fix a assume a: "FindOpenFile fd s = Some (1, a)" "a \<in> set xs" "streams s (file_of s a) = Some fd"
  then have "fd \<in> set (open_fds s xs)" by (force simp: open_fds_def)
  with a show ?thesis by simp
qed simp


lemma event_response:
  assumes "FsWorkEventHandle sc px tc fd s = Some ((0, tc1), s1)"
    and "\<And>tc w. snd (fst (px_event px fd FS_SEND_EVENT_RESPONSE AGENT_FS_ID tc w)) = tc"
  shows "magic tc1 = AGENT_FS_ID"
proof -
  obtain r tc2 w where e: "fcall (px_event px fd FS_WAIT_EVENT AGENT_FS_ID tc) s = ((r, tc2), s\<lparr>fworld := w\<rparr>)"
    by (metis fcallE prod.exhaust)
  let ?work = "if magic tc2 = AGENT_FS_ID then Some (tc2, s\<lparr>fworld := w\<rparr>)
    else do {
      (tc, s) \<leftarrow> (case cmd_of (cmd tc2) of Some c \<Rightarrow> g_fsWorkTbl sc px c tc2 (s\<lparr>fworld := w\<rparr>) | None \<Rightarrow> Some (tc2, s\<lparr>fworld := w\<rparr>));
      Some (tc\<lparr>magic := AGENT_FS_ID\<rparr>, s)
    }"
  have r0: "r = 0" using assms(1) e by (auto simp: FsWorkEventHandle_def split: if_splits)
  with assms(1) e obtain tc3 s3 where w: "?work = Some (tc3, s3)"
    and resp: "(let ((r, tc), s) = fcall (px_event px fd FS_SEND_EVENT_RESPONSE AGENT_FS_ID tc3) s3
      in if r \<noteq> 0 then Some ((r, tc), s) else Some ((0, tc), s)) = Some ((0, tc1), s1)"
    by (cases ?work) (auto simp: FsWorkEventHandle_def)
  from w have "magic tc3 = AGENT_FS_ID"
    by (auto split: if_splits option.splits bind_splits)
  moreover have "tc1 = tc3"
    using resp assms(2) [of tc3 "fworld s3"] by (simp add: fcall_pair case_prod_beta Let_def split: if_splits)
  ultimately show ?thesis by simp
qed

lemma simpx_fclose_env: "fs_env_ok securec_ref (simpx\<lparr>px_fclose := f\<rparr>) fd"
  using simpx_env_ok [of fd]
  by (simp add: fs_env_ok_def fs_os_ok_def fresh_ok_def copy_ends_def copy_order_def fread_ok_def errno_ok_def tee_ok_def)

lemma keeps_view_sim:
  "keeps_view simpx (\<lambda>w. (filter (\<lambda>p. \<not> below name p) (sw_dirs w), filter (\<lambda>p. \<not> below name p) (sw_files w))) (below name)"
proof -
  have "filter (\<lambda>p. \<not> below name p) (removeAll q xs) = filter (\<lambda>p. \<not> below name p) xs" if "below name q" for q xs
    using that by (induction xs) auto
  then show ?thesis by (simp add: keeps_view_def simpx_def)
qed


text \<open>
  Directories: a path that \<open>access\<close> finds or \<open>mkdir\<close> makes exists afterwards, and none of the calls
  that \<open>CreateDir\<close> makes removes anything.
\<close>

definition dirs_ok :: "'w posix \<Rightarrow> (string \<Rightarrow> 'w \<Rightarrow> bool) \<Rightarrow> bool" where
  "dirs_ok px ex \<longleftrightarrow>
     (\<forall>p w. fst (px_access px p F_OK w) = 0 \<longrightarrow> ex p (snd (px_access px p F_OK w))) \<and>
     (\<forall>p m w. fst (px_mkdir px p m w) = 0 \<longrightarrow> ex p (snd (px_mkdir px p m w))) \<and>
     (\<forall>q p w. ex q w \<longrightarrow> ex q (snd (px_access px p F_OK w))) \<and>
     (\<forall>q p m w. ex q w \<longrightarrow> ex q (snd (px_mkdir px p m w)) \<and> ex q (snd (px_chmod px p m w)))"

lemma create_dirs_ex:
  assumes ex: "dirs_ok px ex"
  shows "create_dirs px pre rest s = (0, s') \<Longrightarrow>
    (\<forall>q. ex q (fworld s) \<longrightarrow> ex q (fworld s')) \<and>
    (\<forall>x y. rest = x @ CHR ''/'' # y \<longrightarrow> ex (pre @ x) (fworld s'))"
proof (induction rest arbitrary: pre s)
  case Nil
  then show ?case by simp
next
  case (Cons c rest)
  let ?a = "px_access px pre F_OK (fworld s)"
  let ?ch = "px_chmod px pre SFS_DIR_PERM (snd ?a)"
  let ?mk = "px_mkdir px pre SFS_DIR_PERM (snd ?a)"
  have split: "ex (pre @ x) (fworld s')" if "c # rest = x @ CHR ''/'' # y" "c = CHR ''/'' \<longrightarrow> ex pre (fworld s')"
      "\<forall>x y. rest = x @ CHR ''/'' # y \<longrightarrow> ex ((pre @ [c]) @ x) (fworld s')" for x y
    using that by (cases x) auto
  show ?case
  proof (cases "c = CHR ''/''")
    case False
    then have "create_dirs px (pre @ [c]) rest s = (0, s')" using Cons.prems by simp
    from Cons.IH [OF this] False show ?thesis using split by blast
  next
    case True
    consider (there) "fst ?a = 0" "create_dirs px (pre @ [c]) rest (s\<lparr>fworld := snd ?ch\<rparr>) = (0, s')"
      | (made) "fst ?mk = 0" "create_dirs px (pre @ [c]) rest (s\<lparr>fworld := snd ?mk\<rparr>) = (0, s')"
      using Cons.prems True by (auto simp: fcall_pair split: if_splits)
    then obtain w where run: "create_dirs px (pre @ [c]) rest (s\<lparr>fworld := w\<rparr>) = (0, s')"
      and pre: "ex pre w" and mono: "\<And>q. ex q (fworld s) \<Longrightarrow> ex q w"
    proof cases
      case there
      then show ?thesis using ex by (intro that [of "snd ?ch"]) (auto simp: dirs_ok_def)
    next
      case made
      then show ?thesis using ex by (intro that [of "snd ?mk"]) (auto simp: dirs_ok_def)
    qed
    from Cons.IH [OF run] have IH: "\<forall>q. ex q w \<longrightarrow> ex q (fworld s')"
      "\<forall>x y. rest = x @ CHR ''/'' # y \<longrightarrow> ex ((pre @ [c]) @ x) (fworld s')" by simp_all
    then show ?thesis using split pre mono by blast
  qed
qed

lemma simpx_dirs_ok: "dirs_ok simpx (\<lambda>p w. p \<in> set (sw_dirs w @ sw_files w))"
  by (simp add: dirs_ok_def simpx_def)

subsection \<open>Copying\<close>

text \<open>
  Two regular files: \<open>src\<close> is what is left to read from the one, \<open>dst\<close> what was written to the other.
  A read that succeeds takes a non-empty part from the front of \<open>src\<close> unless nothing is left, a
  complete write appends to \<open>dst\<close>.
\<close>

definition regular_files :: "'w posix \<Rightarrow> int \<Rightarrow> int \<Rightarrow> ('w \<Rightarrow> u8 list) \<Rightarrow> ('w \<Rightarrow> u8 list) \<Rightarrow> bool" where
  "regular_files px fromFd toFd src dst \<longleftrightarrow>
     (\<forall>n w bs. n > 0 \<longrightarrow> fst (px_read px fromFd n w) = Some bs \<longrightarrow>
        src w = bs @ src (snd (px_read px fromFd n w)) \<and> (bs = [] \<longrightarrow> src w = []) \<and>
        dst (snd (px_read px fromFd n w)) = dst w) \<and>
     (\<forall>bs w. src (snd (px_write px toFd bs w)) = src w \<and>
        (fst (px_write px toFd bs w) = int (length bs) \<longrightarrow> dst (snd (px_write px toFd bs w)) = dst w @ bs)) \<and>
     (\<forall>w. dst (snd (px_fsync px toFd w)) = dst w) \<and>
     (\<forall>u n w. src (snd (px_malloc px u n w)) = src w \<and> dst (snd (px_malloc px u n w)) = dst w)"

lemma copy_loop_copies:
  assumes reg: "regular_files px fromFd toFd src dst"
  shows "ok (copy_loop px fromFd toFd s) (\<lambda>(good, s'). (\<exists>w. s' = s\<lparr>fworld := w\<rparr>) \<and>
    (good \<longrightarrow> dst (fworld s') = dst (fworld s) @ src (fworld s)))"
proof (induction "length (src (fworld s))" arbitrary: s rule: less_induct)
  case less
  obtain rd w where r: "fcall (px_read px fromFd MAXBSIZE) s = (rd, s\<lparr>fworld := w\<rparr>)" "px_read px fromFd MAXBSIZE (fworld s) = (rd, w)"
    by (rule fcallE)
  show ?case
  proof (cases rd)
    case None
    then show ?thesis using r by (subst copy_loop.simps) auto
  next
    case (Some bs)
    have mx: "0 < MAXBSIZE" by simp
    have front: "src (fworld s) = bs @ src w" "bs = [] \<longrightarrow> src (fworld s) = []" "dst w = dst (fworld s)"
      using reg r(2) Some mx unfolding regular_files_def by (metis fst_conv snd_conv)+
    show ?thesis
    proof (cases "bs = []")
      case True
      then show ?thesis using r Some front by (subst copy_loop.simps) auto
    next
      case False
      obtain k w2 where wr: "fcall (px_write px toFd bs) (s\<lparr>fworld := w\<rparr>) = (k, s\<lparr>fworld := w2\<rparr>)" "px_write px toFd bs w = (k, w2)"
        using fcallE [of "px_write px toFd bs" "s\<lparr>fworld := w\<rparr>"] by auto
      have after: "src w2 = src w" "k = int (length bs) \<longrightarrow> dst w2 = dst w @ bs"
        using reg wr(2) unfolding regular_files_def by (metis fst_conv snd_conv)+
      have "length (src w2) < length (src (fworld s))" using front after False by simp
      then have IH: "ok (copy_loop px fromFd toFd (s\<lparr>fworld := w2\<rparr>)) (\<lambda>(good, s'). (\<exists>w. s' = s\<lparr>fworld := w\<rparr>) \<and>
          (good \<longrightarrow> dst (fworld s') = dst w2 @ src w2))"
        using less [of "s\<lparr>fworld := w2\<rparr>"] by simp
      show ?thesis
      proof (cases "int (length bs) = k")
        case same: True
        then have step: "copy_loop px fromFd toFd s = copy_loop px fromFd toFd (s\<lparr>fworld := w2\<rparr>)"
          using False by (subst copy_loop.simps) (simp add: r(1) Some wr(1))
        show ?thesis unfolding step
          by (rule ok_mono [OF IH]) (use same after front in auto)
      next
        case differ: False
        then have "copy_loop px fromFd toFd s = Some (False, s\<lparr>fworld := w2\<rparr>)"
          using False by (subst copy_loop.simps) (simp add: r(1) Some wr(1))
        then show ?thesis by auto
      qed
    qed
  qed
qed


lemma CloseWork_failing:
  assumes ok: "files_ok s xs" and fd: "args_i32 file_fd tc = Some fd" and mem: "fd \<in> set (open_fds s xs)"
    and fail: "\<And>f w. fst (px_fclose px f w) \<noteq> 0"
  shows "\<exists>tc' s'. CloseWork px tc s = Some (tc', s') \<and> FindOpenFile fd s' = None"
proof (rule FindOpenFile_ok [OF ok, of fd])
  assume "fd \<notin> set (open_fds s xs)"
  with mem show ?thesis by simp
next
  fix a assume a: "FindOpenFile fd s = Some (1, a)" "a \<in> set xs" "streams s (file_of s a) = Some fd" "node_at s a \<noteq> None"
  then obtain n where n: "node_at s a = Some n" by blast
  then have f: "of_file n = file_of s a" by (simp add: file_of_def node_at_def split: if_splits)
  obtain r w where r: "px_fclose px (of_file n) (fworld s) = (r, w)" "r \<noteq> 0" using fail by (metis prod.collapse)
  let ?s = "s\<lparr>streams := (streams s)(file_of s a := None), fworld := w\<rparr>"
  have run: "\<exists>tc'. CloseWork px tc s = Some (tc', ?s)"
    using fd a(1,3) n r f by (simp add: CloseWork_def do_fclose_def on_stream_open)
  from a(2) obtain us zs where xs: "xs = us @ a # zs" by (meson split_list)
  have ring: "ring ?s ([] @ us @ a # zs)" using files_okD(1) [OF ok] xs by simp
  have other: "\<exists>d. streams ?s (file_of ?s b) = Some d \<and> d \<noteq> fd" if b: "b \<in> set us" for b
  proof -
    have bx: "b \<in> set xs" "b \<noteq> a" using b xs files_okD(2) [OF ok] by auto
    then obtain d where d: "streams s (file_of s b) = Some d" using files_okD(4) [OF ok] by blast
    have "d \<noteq> fd" using same_fd [OF ok bx(1) a(2)] d a(3) bx(2) by auto
    moreover have "file_of s b \<noteq> file_of s a" using d a(3) \<open>d \<noteq> fd\<close> by auto
    ultimately show ?thesis using d by simp
  qed
  have "find_from fd ?s (hd (us @ [a])) = None"
    by (rule find_from_dead [OF ring other]) (use files_okD(3) [OF ok a(2)] in simp_all)
  moreover have "g_firstFile ?s = hd (us @ [a])" "g_firstFile ?s \<noteq> NULL"
    using files_okD(1) [OF ok] files_okD(5) [OF ok, of "hd (us @ [a])"] xs
    by (cases us; simp add: ring_def)+
  ultimately have "FindOpenFile fd ?s = None" by (simp add: FindOpenFile_def)
  with run show ?thesis by blast
qed

text \<open>The functions that \<open>OpenWork\<close> and \<open>CopyWork\<close> call depend on \<open>fopen\<close> and \<open>open\<close> only where they call them.\<close>

lemma create_dirs_cong:
  "create_dirs (px\<lparr>px_fopen := g, px_open := h\<rparr>) pre rest s = create_dirs px pre rest s"
  by (induction px pre rest s rule: create_dirs.induct) (simp_all add: fcall_pair Let_def case_prod_beta)

lemma CreateDir_cong: "CreateDir (px\<lparr>px_fopen := g, px_open := h\<rparr>) p n s = CreateDir px p n s"
  by (simp add: CreateDir_def alloc_tmp_def create_dirs_cong Let_def case_prod_beta cong: if_cong)

lemma GetRealFilePath_cong: "GetRealFilePath sc (px\<lparr>px_fopen := g, px_open := h\<rparr>) p n s = GetRealFilePath sc px p n s"
  by (simp add: GetRealFilePath_def errno_def Let_def case_prod_beta cong: if_cong option.case_cong)

lemma copy_loop_le:
  assumes "\<And>fd n w. px_read px' fd n w = px_read px fd n w" and "\<And>fd bs w. px_write px' fd bs w = px_write px fd bs w"
  shows "copy_loop px f t s = Some r \<Longrightarrow> copy_loop px' f t s = Some r"
proof -
  have "p = px \<longrightarrow> copy_loop px' f t s = Some r" if "copy_loop p f t s = Some r" for p
    using that
  proof (rule copy_loop.raw_induct [rotated])
    fix cl p f t s r
    assume IH: "\<And>p f t s r. cl p f t s = Some r \<Longrightarrow> p = px \<longrightarrow> copy_loop px' f t s = Some r"
      and body: "(let (rd, s) = fcall (px_read p f MAXBSIZE) s
        in case rd of None \<Rightarrow> Some (False, s)
         | Some bytes \<Rightarrow> if bytes = [] then Some (True, s)
             else let (wcount, s) = fcall (px_write p t bytes) s
                  in if int (length bytes) \<noteq> wcount \<or> wcount = - 1 then Some (False, s) else cl p f t s) = Some r"
    show "p = px \<longrightarrow> copy_loop px' f t s = Some r"
      using IH body by (cases r, subst copy_loop.simps) (auto simp: fcall_pair Let_def assms split: option.splits if_splits)
  qed
  then show "copy_loop px f t s = Some r \<Longrightarrow> copy_loop px' f t s = Some r" by blast
qed

lemma copy_loop_cong: "copy_loop (px\<lparr>px_fopen := g, px_open := h\<rparr>) f t s = copy_loop px f t s"
proof (cases "copy_loop px f t s")
  case (Some r)
  then show ?thesis using copy_loop_le [of "px\<lparr>px_fopen := g, px_open := h\<rparr>" px f t s r] by simp
next
  case None
  then show ?thesis using copy_loop_le [of px "px\<lparr>px_fopen := g, px_open := h\<rparr>" f t s]
    by (cases "copy_loop (px\<lparr>px_fopen := g, px_open := h\<rparr>) f t s") auto
qed


lemma AddOpenFile_cong: "AddOpenFile (px\<lparr>px_fopen := g, px_open := h\<rparr>) f s = AddOpenFile px f s"
  by (simp add: AddOpenFile_def)

lemma do_fclose_cong: "do_fclose (px\<lparr>px_fopen := g, px_open := h\<rparr>) f s = do_fclose px f s"
  by (simp add: do_fclose_def)

lemma ChownSecStorage_cong: "ChownSecStorage (px\<lparr>px_fopen := g, px_open := h\<rparr>) p b s = ChownSecStorage px p b s"
  by (simp add: ChownSecStorage_def)

lemma errno_cong: "errno (px\<lparr>px_fopen := g, px_open := h\<rparr>) s = errno px s"
  by (simp add: errno_def)

lemma CheckPartitionReady_cong: "CheckPartitionReady (px\<lparr>px_fopen := g, px_open := h\<rparr>) d s = CheckPartitionReady px d s"
  by (simp add: CheckPartitionReady_def Let_def case_prod_beta cong: if_cong)

lemma CheckOpenWorkValid_cong:
  "CheckOpenWorkValid sc (px\<lparr>px_fopen := g, px_open := h\<rparr>) p tc s = CheckOpenWorkValid sc px p tc s"
  by (simp add: CheckOpenWorkValid_def IsFileExist_def errno_cong Let_def case_prod_beta cong: if_cong)

lemma DoCopy_cong: "DoCopy (px\<lparr>px_fopen := g, px_open := h\<rparr>) f t s = DoCopy px f t s"
  by (simp add: DoCopy_def alloc_tmp_def copy_loop_cong Let_def case_prod_beta cong: if_cong)

lemma close_fd_cong: "close_fd (px\<lparr>px_fopen := g, px_open := h\<rparr>) f s = close_fd px f s"
  by (simp add: close_fd_def)

lemmas px_congs = AddOpenFile_cong do_fclose_cong ChownSecStorage_cong errno_cong CheckPartitionReady_cong
  CheckOpenWorkValid_cong DoCopy_cong close_fd_cong CreateDir_cong GetRealFilePath_cong

definition in_storage :: "string \<Rightarrow> bool" where
  "in_storage p \<longleftrightarrow> (\<exists>r \<in> set storage_roots. prefix r p)"

lemma DoOpenFile_cong:
  assumes sc: "securec_ok sc" and "errno_ok px"
    and g: "\<And>u d p m w. in_storage p \<Longrightarrow> g u d p m w = px_fopen px u d p m w"
  shows "DoOpenFile sc (px\<lparr>px_fopen := g, px_open := h\<rparr>) path tc s = DoOpenFile sc px path tc s"
proof -
  obtain r q s1 where real: "GetRealFilePath sc px path PATH_MAX s = ((r, q), s1)" by (metis prod.exhaust)
  show ?thesis
  proof (cases "r = 0")
    case True
    with real have "in_storage q"
      using GetRealFilePath_valid [OF sc _ assms(2), of path PATH_MAX s q s1] by (simp add: in_storage_def)
    then have "g u d q m = px_fopen px u d q m" for u d m using g by (simp add: fun_eq_iff)
    then have fo: "do_fopen (px\<lparr>px_fopen := g, px_open := h\<rparr>) q m s1 = do_fopen px q m s1" for m
      by (simp add: do_fopen_def)
    show ?thesis unfolding DoOpenFile_def px_congs using True real fo by simp
  next
    case False
    then show ?thesis unfolding DoOpenFile_def px_congs using real by simp
  qed
qed

lemma OpenWork_cong:
  assumes "securec_ok sc" and "errno_ok px" and "\<And>u d p m w. in_storage p \<Longrightarrow> g u d p m w = px_fopen px u d p m w"
  shows "OpenWork sc (px\<lparr>px_fopen := g, px_open := h\<rparr>) tc s = OpenWork sc px tc s"
proof -
  have eq: "DoOpenFile sc (px\<lparr>px_fopen := g, px_open := h\<rparr>) p tc s = DoOpenFile sc px p tc s" for p tc s
    by (rule DoOpenFile_cong) (use assms in auto)
  show ?thesis unfolding OpenWork_def px_congs eq ..
qed

lemma CopyFile_cong:
  assumes sc: "securec_ok sc" and "errno_ok px"
    and h: "\<And>u p wr m w. in_storage p \<Longrightarrow> h u p wr m w = px_open px u p wr m w"
  shows "CopyFile sc (px\<lparr>px_fopen := g, px_open := h\<rparr>) p q s = CopyFile sc px p q s"
proof -
  obtain r p1 s1 where real1: "GetRealFilePath sc px p PATH_MAX s = ((r, p1), s1)" by (metis prod.exhaust)
  obtain r' q1 s2 where real2: "GetRealFilePath sc px q PATH_MAX s1 = ((r', q1), s2)" by (metis prod.exhaust)
  have fs: "px_fstat (px\<lparr>px_fopen := g, px_open := h\<rparr>) = px_fstat px" by simp
  show ?thesis
  proof (cases "r = 0 \<and> r' = 0")
    case True
    with real1 real2 have "in_storage p1" "in_storage q1"
      using GetRealFilePath_valid [OF sc _ assms(2)] by (auto simp: in_storage_def)
    then have "h u p1 wr m = px_open px u p1 wr m" "h u q1 wr m = px_open px u q1 wr m" for u wr m
      using h by (simp_all add: fun_eq_iff)
    then have op: "tee_open (px\<lparr>px_fopen := g, px_open := h\<rparr>) p1 wr m s' = tee_open px p1 wr m s'"
      "tee_open (px\<lparr>px_fopen := g, px_open := h\<rparr>) q1 wr m s' = tee_open px q1 wr m s'" for wr m s'
      by (simp_all add: tee_open_def)
    show ?thesis unfolding CopyFile_def px_congs real1 using True by (simp add: real2 op fs cong: if_cong)
  next
    case False
    then show ?thesis unfolding CopyFile_def px_congs real1 by (auto simp: real2)
  qed
qed

lemma CopyWork_cong:
  assumes "securec_ok sc" and "errno_ok px" and "\<And>u p wr m w. in_storage p \<Longrightarrow> h u p wr m w = px_open px u p wr m w"
  shows "CopyWork sc (px\<lparr>px_fopen := g, px_open := h\<rparr>) tc s = CopyWork sc px tc s"
proof -
  have eq: "CopyFile sc (px\<lparr>px_fopen := g, px_open := h\<rparr>) p q s = CopyFile sc px p q s" for p q s
    by (rule CopyFile_cong) (use assms in auto)
  show ?thesis unfolding CopyWork_def px_congs eq ..
qed

definition one_file :: "simw fs" where
  "one_file = (simfs0 simw0)\<lparr>g_firstFile := 0x100, nodes := [0x100 \<mapsto> \<lparr>of_file = 0x1000, of_next = 0x100, of_prev = 0x100\<rparr>],
     streams := [0x1000 \<mapsto> 5]\<rparr>"

lemma one_file_ok: "files_ok one_file [0x100]" "open_fds one_file [0x100] = [5]"
  by (simp_all add: one_file_def files_ok_def ring_def dll_def link_def get_lns file_of_def open_fds_def simfs0_def)

lemma req_close_fd: "args_i32 file_fd req_close = Some 5"
  by (simp add: req_defs args_i32_def get_u32_def le_field_def upt_rec)


section \<open>Properties\<close>

text \<open>
  C11. Memory safety of the file agent: after whatever sequence of well-formed requests the secure world
  sends, as long as \<open>fclose\<close> did not fail in a request to close a file, handling the next event is defined, whichever calls fail
  in it, \<open>fclose\<close> included.  No node, stream or buffer is used after it was freed
  and no loop runs forever (the search in the ring of open files, the removal of a directory tree,
  the copying of a file).
\<close>

theorem fs_requests_defined:
  assumes "fs_env_ok sc px fd" and "reach fs_init (clean_step sc px fd) (tc, s)"
  shows "\<exists>r tc' s'. FsWorkEventHandle sc px tc fd s = Some ((r, tc'), s')"
  using FsWorkEventHandle_ok [OF assms(1) reach_fs_inv [OF assms(2,1)]] by (auto elim!: okE)

theorem fs_requests_defined_witness:
  "\<exists>r tc' s'. FsWorkEventHandle securec_ref (simpx\<lparr>px_fclose := \<lambda>f w. (- 1, w)\<rparr>) (req_create\<lparr>magic := AGENT_FS_ID\<rparr>) 3
     (simfs0 (simw0\<lparr>sw_queue := [req_create, req_close]\<rparr>)) = Some ((r, tc'), s')"
proof -
  let ?px = "simpx\<lparr>px_fclose := \<lambda>f w. (- 1, w)\<rparr>"
  have "reach fs_init (clean_step securec_ref ?px 3)
      (req_create\<lparr>magic := AGENT_FS_ID\<rparr>, simfs0 (simw0\<lparr>sw_queue := [req_create, req_close]\<rparr>))"
    by (rule reach.start, rule simfs0_init) (simp_all add: req_defs)
  from fs_requests_defined [OF simpx_fclose_env this] show ?thesis .
qed

text \<open>
  C12. The table of open files is exact: in every state that is reached while \<open>fclose\<close> has not failed in a request to close a
  file, the nodes form a circular list whose
  streams are exactly the open ones, with pairwise different descriptors; \<open>FindOpenFile\<close> finds a
  descriptor exactly if it is in the table; and no temporary descriptor or buffer is left.
\<close>

theorem fs_open_files_exact:
  assumes "fs_env_ok sc px fd" and "reach fs_init (clean_step sc px fd) (tc, s)"
  shows "\<exists>xs. files_ok s xs \<and> distinct (open_fds s xs) \<and> fds s = {} \<and> copybufs s = {} \<and>
    (\<forall>d. \<exists>a. FindOpenFile d s = Some (if d \<in> set (open_fds s xs) then 1 else 0, a))"
proof -
  have "agent_ok s" using reach_fs_inv [OF assms(2,1)] by (simp add: fs_inv_def)
  then obtain xs where "files_ok s xs" "fds s = {}" "copybufs s = {}" by (auto simp: agent_ok_def)
  then show ?thesis using open_fds_distinct FindOpenFile_iff by blast
qed

theorem fs_open_files_exact_witness:
  "\<exists>xs. files_ok (simfs0 simw0) xs \<and> (\<exists>a. FindOpenFile 5 (simfs0 simw0) = Some (if 5 \<in> set (open_fds (simfs0 simw0) xs) then 1 else 0, a))"
proof -
  have "reach fs_init (clean_step securec_ref simpx 3) (req_create\<lparr>magic := AGENT_FS_ID\<rparr>, simfs0 simw0)"
    by (rule reach.start, rule simfs0_init) (simp_all add: req_defs)
  from fs_open_files_exact [OF simpx_env_ok this] show ?thesis by blast
qed

text \<open>
  C13. Opening and closing implement the operations of a table of descriptors: a request to open
  either fails with -1 and leaves the table alone or appends a descriptor that was not in it; a
  request to close removes the descriptor if \<open>fclose\<close> returns 0, and fails with \<open>EBADF\<close> if it is not in the table.  If
  \<open>fclose\<close> fails, which is the one case in which the table is not implemented, its non-zero result is returned, the list of
  nodes is as before, and exactly the stream of this descriptor is gone.
\<close>

theorem open_close_refine:
  assumes "securec_ok sc" and "fs_os_ok px" and "errno_ok px" and "files_ok s xs" and "12 \<le> length (args tc)"
    and "args_i32 file_fd tc = Some fd"
  shows "(name_ok tc open_name \<longrightarrow>
      ok (OpenWork sc px tc s) (\<lambda>(tc', s'). \<exists>ys. files_ok s' ys \<and>
        (ret tc' = - 1 \<and> open_fds s' ys = open_fds s xs \<or>
         ret tc' \<ge> 0 \<and> ret tc' \<notin> set (open_fds s xs) \<and> open_fds s' ys = open_fds s xs @ [ret tc']))) \<and>
    ok (CloseWork px tc s) (\<lambda>(tc', s').
      if fd \<notin> set (open_fds s xs)
      then ret tc' = - 1 \<and> error tc' = EBADF \<and> (\<exists>ys. files_ok s' ys \<and> open_fds s' ys = open_fds s xs)
      else if ret tc' = 0 then \<exists>ys. files_ok s' ys \<and> open_fds s' ys = remove1 fd (open_fds s xs)
      else fclose_fails px tc s \<and> g_firstFile s' = g_firstFile s \<and> nodes s' = nodes s \<and>
        streams s' = streams s |` {f. streams s f \<noteq> Some fd})"
proof (intro conjI impI)
  have px: "fresh_ok px" using assms(2) by (simp add: fs_os_ok_def)
  show "ok (CloseWork px tc s) (\<lambda>(tc', s').
      if fd \<notin> set (open_fds s xs)
      then ret tc' = - 1 \<and> error tc' = EBADF \<and> (\<exists>ys. files_ok s' ys \<and> open_fds s' ys = open_fds s xs)
      else if ret tc' = 0 then \<exists>ys. files_ok s' ys \<and> open_fds s' ys = remove1 fd (open_fds s xs)
      else fclose_fails px tc s \<and> g_firstFile s' = g_firstFile s \<and> nodes s' = nodes s \<and>
        streams s' = streams s |` {f. streams s f \<noteq> Some fd})"
    by (rule ok_mono [OF CloseWork_spec [OF assms(4,6)]]) (auto simp: close_post_def split: if_splits)
  assume name: "name_ok tc open_name"
  have fail: "\<exists>ys. files_ok s' ys \<and> open_fds s' ys = open_fds s xs" if "same_files s s'" for s'
    using that assms(4) by (auto elim!: same_filesE)
  have succ: "\<exists>ys. files_ok s' ys \<and> ret tc' \<ge> 0 \<and> ret tc' \<notin> set (open_fds s xs) \<and> open_fds s' ys = open_fds s xs @ [ret tc']"
    if "opened tc1 xs s (tc', s')" for tc1 tc' s'
  proof -
    from that obtain a where a: "files_ok s' (xs @ [a])" "open_fds s' (xs @ [a]) = open_fds s xs @ [ret tc']" "ret tc' \<ge> 0"
      by (auto simp: opened_def)
    from open_fds_distinct [OF a(1)] a(2) have "ret tc' \<notin> set (open_fds s xs)" by simp
    with a show ?thesis by blast
  qed
  show "ok (OpenWork sc px tc s) (\<lambda>(tc', s'). \<exists>ys. files_ok s' ys \<and>
        (ret tc' = - 1 \<and> open_fds s' ys = open_fds s xs \<or>
         ret tc' \<ge> 0 \<and> ret tc' \<notin> set (open_fds s xs) \<and> open_fds s' ys = open_fds s xs @ [ret tc']))"
    by (rule ok_mono [OF OpenWork_spec [OF assms(1) name assms(5,4) px assms(3)]]) (use fail succ in blast)
qed

theorem open_close_refine_witness:
  "ok (OpenWork securec_ref simpx req_create (simfs0 simw0)) (\<lambda>(tc', s'). \<exists>ys. files_ok s' ys \<and>
     (ret tc' = - 1 \<and> open_fds s' ys = [] \<or> ret tc' \<ge> 0 \<and> open_fds s' ys = [ret tc']))"
proof -
  have hyp: "fs_os_ok simpx" "errno_ok simpx" "12 \<le> length (args req_create)" "name_ok req_create open_name"
    using simpx_env_ok req_ok(1) by (simp_all add: fs_env_ok_def request_ok_def req_create_args)
  from fd_arg [OF hyp(3), of file_fd] obtain fd where "args_i32 file_fd req_create = Some fd" by auto
  from open_close_refine [OF securec_ref_ok hyp(1,2) simfs0_ok hyp(3) this] hyp(4) show ?thesis
    by (auto simp: open_fds_def elim!: ok_mono)
qed

text \<open>
  A wake-up without a new request does nothing: after a request was handled and its response was
  sent, a further event that finds the buffer as the agent left it is answered, but no handler runs
  and neither the request nor the agent's state changes.
\<close>

lemma duplicate_wakeup_ignored:
  assumes "FsWorkEventHandle sc px tc fd s = Some ((0, tc1), s1)"
    and "\<And>tc w. snd (fst (px_event px fd FS_SEND_EVENT_RESPONSE AGENT_FS_ID tc w)) = tc"
    and "px_event px fd FS_WAIT_EVENT AGENT_FS_ID tc1 (fworld s1) = ((0, tc1), w)"
  shows "\<exists>r w'. FsWorkEventHandle sc px tc1 fd s1 = Some ((r, tc1), s1\<lparr>fworld := w'\<rparr>)"
proof -
  have m: "magic tc1 = AGENT_FS_ID" by (rule event_response [OF assms(1,2)])
  obtain q tc2 w2 where r: "px_event px fd FS_SEND_EVENT_RESPONSE AGENT_FS_ID tc1 w = ((q, tc2), w2)" by (metis prod.exhaust)
  with assms(2) [of tc1 w] have "tc2 = tc1" by simp
  with r m assms(3) show ?thesis by (simp add: FsWorkEventHandle_def fcall_def) blast
qed

lemma duplicate_wakeup_ignored_example:
  "\<exists>r w'. FsWorkEventHandle securec_ref simpx (req_close\<lparr>magic := AGENT_FS_ID\<rparr>) 3
     (simfs0 (simw0\<lparr>sw_queue := [req_close\<lparr>magic := AGENT_FS_ID\<rparr>]\<rparr>)) =
       Some ((r, req_close\<lparr>magic := AGENT_FS_ID\<rparr>), simfs0 w')"
proof -
  let ?tc = "req_close\<lparr>magic := AGENT_FS_ID\<rparr>"
  let ?s = "simfs0 (simw0\<lparr>sw_queue := [?tc, ?tc]\<rparr>)"
  let ?s1 = "simfs0 (simw0\<lparr>sw_queue := [?tc]\<rparr>)"
  have ok: "request_ok ?tc" by (simp add: request_ok_def req_defs cmd_of_def FsCmds_def)
  have run: "FsWorkEventHandle securec_ref simpx ?tc 3 ?s = Some ((0, ?tc), ?s1)"
    using ok by (simp add: FsWorkEventHandle_def fcall_def simpx_def simfs0_def simw0_def)
  have wait: "px_event simpx 3 FS_WAIT_EVENT AGENT_FS_ID ?tc (fworld ?s1) = ((0, ?tc), simw0)"
    using ok by (simp add: simpx_def simfs0_def simw0_def)
  have "snd (fst (px_event simpx 3 FS_SEND_EVENT_RESPONSE AGENT_FS_ID tc w)) = tc" for tc w by (simp add: simpx_def)
  from duplicate_wakeup_ignored [OF run this wait] show ?thesis by (auto simp: simfs0_def)
qed

text \<open>
  C14. Removing a file or directory tree returns for every content of the directories, because the
  path grows with every level and its length is limited; it reports 0 or -1; after 0 the last call
  removed the path itself; and whatever is not in the tree is untouched: any observation
  \<open>view\<close> of the world is the same afterwards that is not affected by removing the path itself or a path
  that extends it by names of entries.  Directories may list any names, and the entries \<open>.\<close> and \<open>..\<close>: a path that goes
  through these is not in the tree, and is not touched.
\<close>

theorem UnlinkRecursive_confined:
  assumes "securec_ok sc" and "readdir_ok px" and "keeps_view px view (below name)" and "length name < PATH_MAX"
  shows "\<exists>r w. UnlinkRecursive sc px PATH_MAX name s = Some (r, s\<lparr>fworld := w\<rparr>) \<and> view w = view (fworld s) \<and>
    (r = 0 \<or> r = - 1) \<and>
    (r = 0 \<longrightarrow> (\<exists>q v. (px_unlink px name v = (q, w) \<or> px_rmdir px name v = (q, w)) \<and> q \<ge> 0))"
proof -
  obtain r s' where run: "UnlinkRecursive sc px PATH_MAX name s = Some (r, s')" "unlink_post view s s'" "r = 0 \<or> r = - 1"
    and last: "r = 0 \<longrightarrow> (\<exists>q v. (px_unlink px name v = (q, fworld s') \<or> px_rmdir px name v = (q, fworld s')) \<and> q \<ge> 0)"
    using UnlinkRecursive_ok [OF assms(1,3) below_closed [OF assms(2)], of name PATH_MAX s] assms(4) by (auto elim!: okE)
  from run(2) have "s' = s\<lparr>fworld := fworld s'\<rparr>" "view (fworld s') = view (fworld s)"
    by (auto simp: unlink_post_def)
  with run last show ?thesis by metis
qed

theorem UnlinkRecursive_confined_witness:
  "\<exists>r w. UnlinkRecursive securec_ref simpx PATH_MAX ''/s/d''
      (simfs0 (simw0\<lparr>sw_dirs := [''/s'', ''/s/d''], sw_files := [''/s/d/x'', ''/s/y'']\<rparr>)) = Some (r, simfs0 w) \<and>
    ''/s/y'' \<in> set (sw_files w) \<and> ''/s'' \<in> set (sw_dirs w) \<and>
    entries ''/s/d'' (sw_files w @ sw_dirs w) \<noteq> []"
proof -
  let ?s = "simfs0 (simw0\<lparr>sw_dirs := [''/s'', ''/s/d''], sw_files := [''/s/d/x'', ''/s/y'']\<rparr>)"
  have len: "length ''/s/d'' < PATH_MAX" by simp
  obtain r w where run: "UnlinkRecursive securec_ref simpx PATH_MAX ''/s/d'' ?s = Some (r, ?s\<lparr>fworld := w\<rparr>)"
    and view: "(filter (\<lambda>p. \<not> below ''/s/d'' p) (sw_dirs w), filter (\<lambda>p. \<not> below ''/s/d'' p) (sw_files w)) =
      (filter (\<lambda>p. \<not> below ''/s/d'' p) (sw_dirs (fworld ?s)), filter (\<lambda>p. \<not> below ''/s/d'' p) (sw_files (fworld ?s)))"
    using UnlinkRecursive_confined [OF securec_ref_ok simpx_readdir keeps_view_sim [of "''/s/d''"] len, of ?s] by blast
  have "''/s/y'' \<in> set (filter (\<lambda>p. \<not> below ''/s/d'' p) (sw_files (fworld ?s)))"
    "''/s'' \<in> set (filter (\<lambda>p. \<not> below ''/s/d'' p) (sw_dirs (fworld ?s)))"
    by (simp_all add: simfs0_def below_def)
  then have "''/s/y'' \<in> set (filter (\<lambda>p. \<not> below ''/s/d'' p) (sw_files w))"
    "''/s'' \<in> set (filter (\<lambda>p. \<not> below ''/s/d'' p) (sw_dirs w))" using view by simp_all
  with run show ?thesis by (auto simp: simfs0_def entries_def)
qed

text \<open>
  After \<open>CreateDir\<close> has returned 0, every directory that the path goes through exists: every
  non-empty prefix of the path that a slash follows, other than a leading dot.
\<close>

lemma CreateDir_makes_parents:
  assumes "dirs_ok px ex" and "fresh_ok px" and "CreateDir px path n s = Some (0, s')"
    and "prefix (d @ ''/'') path" and "d \<noteq> []" and "d \<noteq> ''.''"
  shows "ex d (fworld s') \<and> length path < n"
proof -
  from assms(3) have len: "length path < n" by (auto simp: CreateDir_def CheckPathLen_iff split: if_splits)
  let ?k = "if strncmp0 path ''/'' (length ''/'') then 1 else if strncmp0 path ''./'' (length ''./'') then length ''./'' else 0"
  from assms(4) obtain y where path: "path = d @ CHR ''/'' # y" by (auto simp: prefix_def)
  have k: "?k \<le> length d"
    using assms(5,6) path by (cases d; cases "tl d") (auto simp: strncmp0_def)
  show ?thesis
  proof (rule alloc_tmpE [OF assms(2), of "length path + 1" s])
    fix w assume "alloc_tmp px (length path + 1) s = (NULL, s\<lparr>fworld := w\<rparr>)"
    then show ?thesis using assms(3) by (simp add: CreateDir_def split: if_splits)
  next
    fix a w assume a: "alloc_tmp px (length path + 1) s = (a, s\<lparr>copybufs := insert a (copybufs s), fworld := w\<rparr>)"
      "a \<noteq> NULL" "a \<notin> copybufs s"
    let ?s = "s\<lparr>copybufs := insert a (copybufs s), fworld := w\<rparr>"
    obtain r s2 where c: "create_dirs px (take ?k path) (drop ?k path) ?s = (r, s2)" by fastforce
    then obtain w2 where s2: "s2 = ?s\<lparr>fworld := w2\<rparr>" using create_dirs_world by blast
    have run: "CreateDir px path n s = Some (r, s\<lparr>fworld := w2\<rparr>)"
      using a c s2 len by (simp add: CreateDir_def CheckPathLen_iff free_tmp_fresh Let_def)
    have "r = 0" "fworld s' = fworld s2" using assms(3) s2 unfolding run by auto
    with c create_dirs_ex [OF assms(1), of "take ?k path" "drop ?k path" ?s s2]
    have "\<forall>x y. drop ?k path = x @ CHR ''/'' # y \<longrightarrow> ex (take ?k path @ x) (fworld s')" by simp
    moreover have "drop ?k path = drop ?k d @ CHR ''/'' # y" "take ?k path @ drop ?k d = d"
      using k unfolding path by simp_all
    ultimately have "ex d (fworld s')" by metis
    with len show ?thesis by simp
  qed
qed

lemma CreateDir_makes_parents_example:
  "\<exists>s'. CreateDir simpx ''/s/a/f'' 256 (simfs0 simw0) = Some (0, s') \<and>
     ''/s/a'' \<in> set (sw_dirs (fworld s') @ sw_files (fworld s'))"
proof -
  have fresh: "fresh_ok simpx" using simpx_env_ok [of 0] by (simp add: fs_env_ok_def fs_os_ok_def)
  let ?s' = "simfs0 (simw0\<lparr>sw_dirs := [''/s/a'', ''/s'', ''/sec_storage'']\<rparr>)"
  have run: "CreateDir simpx ''/s/a/f'' 256 (simfs0 simw0) = Some (0, ?s')"
    by (simp add: CreateDir_def CheckPathLen_iff alloc_tmp_def free_tmp_def strncmp0_def fcall_def simpx_def
        used_mem_def simfs0_def simw0_def)
  have "prefix (''/s/a'' @ ''/'') ''/s/a/f''" by simp
  from CreateDir_makes_parents [OF simpx_dirs_ok fresh run this] run show ?thesis by simp
qed

text \<open>
  C25. Copying a regular file returns, and when it reports success the destination holds what it held
  before followed by the whole rest of the source; the buffer is freed in every case.
\<close>

theorem DoCopy_copies:
  assumes "regular_files px fromFd toFd src dst" and "fresh_ok px"
  shows "\<exists>r w. DoCopy px fromFd toFd s = Some (r, s\<lparr>fworld := w\<rparr>) \<and>
    (r = 0 \<longrightarrow> dst w = dst (fworld s) @ src (fworld s))"
proof -
  have mal: "src (snd (px_malloc px u n w)) = src w" "dst (snd (px_malloc px u n w)) = dst w"
    and sync: "dst (snd (px_fsync px toFd w)) = dst w" for u n w
    using assms(1) unfolding regular_files_def by blast+
  show ?thesis
  proof (rule alloc_tmpE [OF assms(2), of MAXBSIZE s])
    fix w assume "alloc_tmp px MAXBSIZE s = (NULL, s\<lparr>fworld := w\<rparr>)"
    then show ?thesis by (intro exI [of _ "- 1"] exI [of _ w]) (simp add: DoCopy_def)
  next
    fix a w assume a: "alloc_tmp px MAXBSIZE s = (a, s\<lparr>copybufs := insert a (copybufs s), fworld := w\<rparr>)"
      "a \<noteq> NULL" "a \<notin> copybufs s"
    let ?s = "s\<lparr>copybufs := insert a (copybufs s), fworld := w\<rparr>"
    have "w = snd (px_malloc px (used_mem s) MAXBSIZE (fworld s))"
      using a(1,2) by (auto simp: alloc_tmp_def fcall_def split: prod.splits if_splits dest: arg_cong [where f = fworld])
    then have w: "src w = src (fworld s)" "dst w = dst (fworld s)" using mal by simp_all
    from copy_loop_copies [OF assms(1), of ?s] obtain g w2 where
      g: "copy_loop px fromFd toFd ?s = Some (g, s\<lparr>copybufs := insert a (copybufs s), fworld := w2\<rparr>)"
      and dst: "g \<longrightarrow> dst w2 = dst w @ src w" by (auto elim!: okE)
    show ?thesis
    proof (cases g)
      case True
      let ?f = "px_fsync px toFd w2"
      have "DoCopy px fromFd toFd s = Some (fst ?f, s\<lparr>fworld := snd ?f\<rparr>)"
        using a g True by (simp add: DoCopy_def free_tmp_fresh fcall_pair)
      then show ?thesis using dst True w sync by auto
    next
      case False
      then have "DoCopy px fromFd toFd s = Some (- 1, s\<lparr>fworld := w2\<rparr>)"
        using a g by (simp add: DoCopy_def free_tmp_fresh)
      then show ?thesis by auto
    qed
  qed
qed

theorem DoCopy_copies_witness:
  "\<exists>r w. DoCopy simpx 7 8 (simfs0 (simw0\<lparr>sw_src := [1, 2, 3]\<rparr>)) = Some (r, simfs0 w) \<and> (r = 0 \<longrightarrow> sw_dst w = [1, 2, 3])"
proof -
  have reg: "regular_files simpx 7 8 sw_src sw_dst" by (simp add: regular_files_def simpx_def)
  have fresh: "fresh_ok simpx" using simpx_env_ok [of 0] by (simp add: fs_env_ok_def fs_os_ok_def)
  from DoCopy_copies [OF reg fresh, of "simfs0 (simw0\<lparr>sw_src := [1, 2, 3]\<rparr>)"] show ?thesis
    by (auto simp: simfs0_def simw0_def)
qed

text \<open>
  The free space that a disk-usage request reports is the true number of bytes modulo \<open>2^32\<close>,
  in kilobytes: a file system with exactly 4 GiB free is reported as full.
\<close>

lemma disk_usage_wraps:
  "unat (remain_kb st) = unat (f_bfree st) * unat (f_bsize st) mod 2 ^ 32 div 1024 \<and>
   remain_kb \<lparr>f_blocks = b, f_bfree = 0x100000, f_bsize = 4096\<rparr> = 0"
proof
  show "unat (remain_kb st) = unat (f_bfree st) * unat (f_bsize st) mod 2 ^ 32 div 1024"
    by (simp add: remain_kb_def unat_div unat_word_ariths unsigned_ucast_eq take_bit_eq_mod mod_mult_eq)
  show "remain_kb \<lparr>f_blocks = b, f_bfree = 0x100000, f_bsize = 4096\<rparr> = 0"
    by (simp add: remain_kb_def)
qed

text \<open>
  C15. Files are opened only inside the storage directories: replacing \<open>fopen\<close> and \<open>open\<close> by functions
  that behave differently on every path outside of the four directories makes no difference to a
  request that opens, creates or copies a file.  (The check is made on the resolved path.)
\<close>

theorem files_opened_in_storage:
  assumes "securec_ok sc" and "errno_ok px"
    and "\<And>u d p m w. in_storage p \<Longrightarrow> g u d p m w = px_fopen px u d p m w"
    and "\<And>u p wr m w. in_storage p \<Longrightarrow> h u p wr m w = px_open px u p wr m w"
  shows "OpenWork sc (px\<lparr>px_fopen := g, px_open := h\<rparr>) tc s = OpenWork sc px tc s \<and>
    CopyWork sc (px\<lparr>px_fopen := g, px_open := h\<rparr>) tc s = CopyWork sc px tc s"
  using OpenWork_cong [OF assms(1-3)] CopyWork_cong [OF assms(1,2,4)] by blast

theorem files_opened_in_storage_witness:
  "OpenWork securec_ref (simpx\<lparr>px_fopen := \<lambda>u d p m w. if in_storage p then px_fopen simpx u d p m w else ((0x9000, 9), w),
      px_open := px_open simpx\<rparr>) req_create (simfs0 simw0) =
   OpenWork securec_ref simpx req_create (simfs0 simw0)"
proof -
  have "errno_ok simpx" using simpx_env_ok [of 0] by (simp add: fs_env_ok_def)
  from files_opened_in_storage [OF securec_ref_ok this,
    of "\<lambda>u d p m w. if in_storage p then px_fopen simpx u d p m w else ((0x9000, 9), w)" "px_open simpx"]
  show ?thesis by simp
qed

text \<open>
  A failing \<open>fclose\<close> leaves a dead stream in the table: the request returns the error and keeps
  the node although the stream is gone, and the next request on this descriptor uses the dead stream,
  which is undefined behaviour.
\<close>

lemma close_failure_dangles:
  assumes "files_ok s xs" and "args_i32 file_fd tc = Some fd" and "fd \<in> set (open_fds s xs)"
    and "\<And>f w. fst (px_fclose px f w) \<noteq> 0"
  shows "\<exists>tc' s'. CloseWork px tc s = Some (tc', s') \<and> CloseWork px tc s' = None"
proof -
  obtain tc' s' where run: "CloseWork px tc s = Some (tc', s')" "FindOpenFile fd s' = None"
    using CloseWork_failing [OF assms] by blast
  then have "CloseWork px tc s' = None" using assms(2) by (simp add: CloseWork_def)
  with run(1) show ?thesis by blast
qed

text \<open>
  C37. Two gaps of the file agent.  A failing \<open>fclose\<close> leaves a dead stream in the table: the request returns the error and keeps
  the node although the stream is gone, and the next request on this descriptor uses the dead stream,
  which is undefined behaviour.  And the free space that a disk-usage request reports is the true number of bytes modulo
  \<open>2^32\<close>, in kilobytes: a file system with exactly 4 GiB free is reported as full.
\<close>

theorem file_agent_gaps:
  "(files_ok s xs \<and> args_i32 file_fd tc = Some fd \<and> fd \<in> set (open_fds s xs) \<and> (\<forall>f w. fst (px_fclose px f w) \<noteq> 0) \<longrightarrow>
      (\<exists>tc' s'. CloseWork px tc s = Some (tc', s') \<and> CloseWork px tc s' = None)) \<and>
   unat (remain_kb st) = unat (f_bfree st) * unat (f_bsize st) mod 2 ^ 32 div 1024 \<and>
   remain_kb \<lparr>f_blocks = b, f_bfree = 0x100000, f_bsize = 4096\<rparr> = 0"
proof (intro conjI impI)
  assume "files_ok s xs \<and> args_i32 file_fd tc = Some fd \<and> fd \<in> set (open_fds s xs) \<and> (\<forall>f w. fst (px_fclose px f w) \<noteq> 0)"
  then show "\<exists>tc' s'. CloseWork px tc s = Some (tc', s') \<and> CloseWork px tc s' = None"
    by (elim conjE) (rule close_failure_dangles, assumption+, simp)
qed (simp_all only: disk_usage_wraps)

theorem file_agent_gaps_witness:
  "\<exists>tc' s'. CloseWork (simpx\<lparr>px_fclose := \<lambda>f w. (- 1, w)\<rparr>) req_close one_file = Some (tc', s') \<and>
     CloseWork (simpx\<lparr>px_fclose := \<lambda>f w. (- 1, w)\<rparr>) req_close s' = None"
  using file_agent_gaps [of one_file "[0x100]" req_close 5 "simpx\<lparr>px_fclose := \<lambda>f w. (- 1, w)\<rparr>"] one_file_ok req_close_fd by simp

end
