(* ===== verification/Tlog_Types.thy ===== *)
theory Tlog_Types
  imports Fs_Types List_Node
begin

unbundle bit_operations_syntax

text \<open>
  The log reader of the trusted execution environment (\<open>src/services/tlogcat\<close>): its data
  (\<open>include/tlogcat.h\<close>), its global variables, the operating system, logging and compression libraries it
  calls, and the names of its log files.  The file operations are the fields of \<open>posix\<close>; what only
  the log reader calls is added in \<open>logos\<close>.
\<close>

section \<open>Data\<close>

abbreviation (input) "LOG_ITEM_MAX_LEN \<equiv> (1024 :: nat)"
abbreviation (input) "LOG_FILE_INDEX_MAX \<equiv> (4 :: nat)"
abbreviation (input) "TEE_UUID_LEN \<equiv> (16 :: nat)"
abbreviation (input) "UUID_MAX_STR_LEN \<equiv> (40 :: nat)"
abbreviation (input) "LOG_BUFFER_LEN \<equiv> (0x2000 :: nat)"
abbreviation (input) "LOG_FILES_MAX \<equiv> (128 :: nat)"
abbreviation (input) "FILE_VALID \<equiv> (0x5a5aa5a5 :: u32)"
abbreviation (input) "LOG_FILE_LIMIT \<equiv> (500 * 1024 :: int)"
abbreviation (input) "TEE_LOG_PATH_BASE \<equiv> ''/data/log''"
abbreviation (input) "TEE_LOG_SUBFOLDER \<equiv> ''tee''"
abbreviation (input) "LOG_TEEOS_TAG \<equiv> ''teeos''"
abbreviation (input) "whence_END \<equiv> (2 :: int)"
abbreviation (input) "EEXIST \<equiv> (17 :: int)"

text \<open>\<open>struct LogFile\<close>; the stream is null and \<open>valid\<close> is zero in a slot that is not in use.\<close>

record LogFile =
  lf_file :: addr
  lf_uuid :: "u8 list"
  lf_fileLen :: int
  lf_fileIndex :: u32
  lf_valid :: u32
  lf_logName :: string

definition empty_slot :: LogFile where
  "empty_slot = \<lparr>lf_file = NULL, lf_uuid = replicate TEE_UUID_LEN 0, lf_fileLen = 0, lf_fileIndex = 0,
     lf_valid = 0, lf_logName = []\<rparr>"

text \<open>
  The tags of trusted applications and of drivers that were seen (\<open>struct TaTagInfo\<close>,
  \<open>struct DriverTagInfo\<close>): the key (a UUID or a driver type), the name and the block that holds it.
  A tag is known by the address of the list node that is embedded in it.
\<close>

datatype tag_key = TaKey "u8 list" | DriverKey u8

record TagInfo =
  ti_key :: tag_key
  ti_name :: string
  ti_mem :: addr

abbreviation (input) "g_driverTagList \<equiv> (0x10 :: addr)"
abbreviation (input) "g_taTagList \<equiv> (0x20 :: addr)"

datatype log_type = LOG_APP | LOG_CORE
datatype log_level = LOG_DEBUG | LOG_INFO | LOG_WARN | LOG_ERROR

datatype log_ioctl = TEELOGGER_GET_VERSION | TEELOGGER_SET_READERPOS_CUR | TEELOGGER_SET_TLOGCAT_STAT | TEELOGGER_GET_TLOGCAT_STAT

text \<open>One call of \<open>HILOG_IMPL\<close>: type, level, domain, tag, serial number and text.\<close>

record hilog_entry =
  hl_type :: log_type
  hl_level :: log_level
  hl_domain :: u32
  hl_tag :: string
  hl_index :: u32
  hl_text :: string

text \<open>
  What the log reader calls beside \<open>posix\<close>.  \<open>fdopen\<close> and \<open>gzdopen\<close> are told which handles are in
  use.  \<open>lstat\<close> says whether the file is a regular one and its size.  \<open>log_read\<close> is \<open>read\<close> on the log
  device: the number it returns and the bytes it puts at the start of the buffer.
\<close>

record 'w logos = "'w posix" +
  lo_fdopen :: "(addr \<Rightarrow> bool) \<Rightarrow> int \<Rightarrow> 'w \<Rightarrow> addr \<times> 'w"
  lo_fchmod :: "int \<Rightarrow> u32 \<Rightarrow> 'w \<Rightarrow> int \<times> 'w"
  lo_fchown :: "int \<Rightarrow> nat \<Rightarrow> 'w \<Rightarrow> int \<times> 'w"
  lo_lstat :: "string \<Rightarrow> 'w \<Rightarrow> (int \<times> bool \<times> int) \<times> 'w"
  lo_stat_gid :: "string \<Rightarrow> 'w \<Rightarrow> (int \<times> nat) \<times> 'w"
  lo_gzdopen :: "(addr \<Rightarrow> bool) \<Rightarrow> int \<Rightarrow> 'w \<Rightarrow> addr \<times> 'w"
  lo_gzwrite :: "addr \<Rightarrow> u8 list \<Rightarrow> 'w \<Rightarrow> int \<times> 'w"
  lo_gzclose :: "addr \<Rightarrow> 'w \<Rightarrow> 'w"
  lo_hilog :: "hilog_entry \<Rightarrow> 'w \<Rightarrow> 'w"
  lo_ioctl :: "int \<Rightarrow> log_ioctl \<Rightarrow> 'w \<Rightarrow> int \<times> 'w"
  lo_version :: "'w \<Rightarrow> string"
  lo_select :: "int \<Rightarrow> 'w \<Rightarrow> (int \<times> bool) \<times> 'w"
  lo_read :: "int \<Rightarrow> nat \<Rightarrow> 'w \<Rightarrow> (int \<times> u8 list) \<times> 'w"

text \<open>
  \<open>struct LogItem\<close> as read out of the log buffer at an offset: the header of 64 bytes, little-endian, and
  the offset of the text that follows it.
\<close>

record LogItem =
  li_magic :: nat
  li_serialNo :: u32
  li_logRealLen :: nat
  li_logBufferLen :: nat
  li_uuid :: "u8 list"
  li_logSourceType :: u8
  li_logLevel :: u8
  li_logBuffer :: nat

abbreviation (input) "sizeof_LogItem \<equiv> (64 :: nat)"

definition log_item :: "u8 list \<Rightarrow> nat \<Rightarrow> LogItem option" where
  "log_item buf off =
     (if off + sizeof_LogItem \<le> length buf
      then Some \<lparr>li_magic = unat (le_field buf (off + 32) 2), li_serialNo = le_field buf (off + 36) 4,
             li_logRealLen = unat (le_field buf (off + 40) 2), li_logBufferLen = unat (le_field buf (off + 42) 2),
             li_uuid = take TEE_UUID_LEN (drop (off + 44) buf), li_logSourceType = buf ! (off + 60),
             li_logLevel = buf ! (off + 62), li_logBuffer = off + sizeof_LogItem\<rparr>
      else None)"

section \<open>State\<close>

text \<open>
  The global variables of \<open>tlogcat.c\<close>, \<open>proc_tag.c\<close> and \<open>sys_hilog_cfg.c\<close>; \<open>g_files\<close> is empty
  before it is allocated.  The heap holds the tags, the list nodes embedded in them and the two list
  heads (\<open>tag_links\<close>), and the blocks for names (\<open>lmem\<close>).  \<open>lstreams\<close>, \<open>lfds\<close> and \<open>lgz\<close> are the open streams, the descriptors
  opened directly and the open archives with their descriptors; \<open>stdout\<close> is what was printed.
\<close>

record 'w tlog =
  g_files :: "LogFile list"
  g_teePath :: string
  g_teeTempPath :: string
  g_teePathGroup :: nat
  g_teeVersion :: string
  g_uuidAscii :: string
  g_logName :: string
  g_logNameCompress :: string
  g_compressFile :: "string option"
  g_compressUuid :: "u8 list"
  g_logBuffer :: "u8 list"
  g_logItemBuffer :: "u8 list"
  g_devFd :: int
  g_readposCur :: bool
  tags :: "addr \<rightharpoonup> TagInfo"
  tag_links :: List_Node.nodes
  lmem :: "addr set"
  lstreams :: "addr \<rightharpoonup> int"
  lfds :: "int set"
  lgz :: "addr \<rightharpoonup> int"
  stdout :: "string list"
  lworld :: 'w

definition lcall :: "('w \<Rightarrow> 'a \<times> 'w) \<Rightarrow> 'w tlog \<Rightarrow> 'a \<times> 'w tlog" where
  "lcall f s = (let (r, w) = f (lworld s) in (r, s\<lparr>lworld := w\<rparr>))"

definition lerrno :: "'w logos \<Rightarrow> 'w tlog \<Rightarrow> int" where
  "lerrno os s = px_errno os (lworld s)"

definition lused_fd :: "'w tlog \<Rightarrow> int \<Rightarrow> bool" where
  "lused_fd s d \<longleftrightarrow> d \<in> ran (lstreams s) \<or> d \<in> lfds s \<or> d \<in> ran (lgz s)"

definition lused_mem :: "'w tlog \<Rightarrow> addr \<Rightarrow> bool" where
  "lused_mem s a \<longleftrightarrow> a \<in> lmem s \<or> a \<in> dom (tags s) \<or> a \<in> dom (tag_links s)"

definition lmalloc :: "'w logos \<Rightarrow> nat \<Rightarrow> 'w tlog \<Rightarrow> addr \<times> 'w tlog" where
  "lmalloc os n s =
     (let (a, s) = lcall (px_malloc os (lused_mem s) n) s
      in if a = NULL then (NULL, s) else (a, s\<lparr>lmem := insert a (lmem s)\<rparr>))"

definition lfree :: "addr \<Rightarrow> 'w tlog \<Rightarrow> 'w tlog option" where
  "lfree a s = (if a \<in> lmem s then Some (s\<lparr>lmem := lmem s - {a}\<rparr>) else None)"

text \<open>Using a stream that is not open is undefined behaviour, closing one ends its life.\<close>

definition on_lstream :: "addr \<Rightarrow> ('w \<Rightarrow> 'a \<times> 'w) \<Rightarrow> 'w tlog \<Rightarrow> ('a \<times> 'w tlog) option" where
  "on_lstream f c s = (if lstreams s f = None then None else Some (lcall c s))"

definition lfclose :: "'w logos \<Rightarrow> addr \<Rightarrow> 'w tlog \<Rightarrow> 'w tlog option" where
  "lfclose os f s = do {
     (_, s) \<leftarrow> on_lstream f (px_fclose os f) s;
     Some (s\<lparr>lstreams := (lstreams s)(f := None)\<rparr>)
   }"

definition lfopen :: "'w logos \<Rightarrow> string \<Rightarrow> string \<Rightarrow> 'w tlog \<Rightarrow> addr \<times> 'w tlog" where
  "lfopen os path mode s =
     (let ((f, fd), s) = lcall (px_fopen os (\<lambda>a. a \<in> dom (lstreams s)) (lused_fd s) path mode) s
      in if f = NULL then (NULL, s) else (f, s\<lparr>lstreams := (lstreams s)(f \<mapsto> fd)\<rparr>))"

definition lopen :: "'w logos \<Rightarrow> string \<Rightarrow> bool \<Rightarrow> u32 \<Rightarrow> 'w tlog \<Rightarrow> int \<times> 'w tlog" where
  "lopen os path wr mode s =
     (let (fd, s) = lcall (px_open os (lused_fd s) path wr mode) s
      in if fd < 0 then (fd, s) else (fd, s\<lparr>lfds := insert fd (lfds s)\<rparr>))"

definition lclose :: "'w logos \<Rightarrow> int \<Rightarrow> 'w tlog \<Rightarrow> 'w tlog option" where
  "lclose os fd s =
     (if fd \<in> lfds s then Some (s\<lparr>lfds := lfds s - {fd}, lworld := px_close os fd (lworld s)\<rparr>) else None)"

text \<open>A descriptor handed to \<open>fdopen\<close> or \<open>gzdopen\<close> belongs to the new handle.\<close>

definition lfdopen :: "'w logos \<Rightarrow> int \<Rightarrow> 'w tlog \<Rightarrow> addr \<times> 'w tlog" where
  "lfdopen os fd s =
     (let (f, s) = lcall (lo_fdopen os (\<lambda>a. a \<in> dom (lstreams s)) fd) s
      in if f = NULL then (NULL, s) else (f, s\<lparr>lfds := lfds s - {fd}, lstreams := (lstreams s)(f \<mapsto> fd)\<rparr>))"

definition lgzdopen :: "'w logos \<Rightarrow> int \<Rightarrow> 'w tlog \<Rightarrow> addr \<times> 'w tlog" where
  "lgzdopen os fd s =
     (let (f, s) = lcall (lo_gzdopen os (\<lambda>a. a \<in> dom (lgz s)) fd) s
      in if f = NULL then (NULL, s) else (f, s\<lparr>lfds := lfds s - {fd}, lgz := (lgz s)(f \<mapsto> fd)\<rparr>))"

definition lgzwrite :: "'w logos \<Rightarrow> addr \<Rightarrow> u8 list \<Rightarrow> 'w tlog \<Rightarrow> (int \<times> 'w tlog) option" where
  "lgzwrite os f bs s = (if lgz s f = None then None else Some (lcall (lo_gzwrite os f bs) s))"

definition lgzclose :: "'w logos \<Rightarrow> addr \<Rightarrow> 'w tlog \<Rightarrow> 'w tlog option" where
  "lgzclose os f s =
     (if lgz s f = None then None else Some (s\<lparr>lgz := (lgz s)(f := None), lworld := lo_gzclose os f (lworld s)\<rparr>))"

section \<open>Names\<close>

text \<open>\<open>%0nX\<close> of a word that has at most \<open>n\<close> hexadecimal digits.\<close>

definition HEX_fix :: "nat \<Rightarrow> u32 \<Rightarrow> string" where
  "HEX_fix n w = map (\<lambda>i. ''0123456789ABCDEF'' ! unat (drop_bit (4 * i) w AND 15)) (rev [0..<n])"

definition uuid_text :: "u8 list \<Rightarrow> string" where
  "uuid_text u = HEX_fix 8 (le_field u 0 4) @ HEX_fix 4 (le_field u 4 2) @ HEX_fix 4 (le_field u 6 2) @
     concat (map (\<lambda>i. HEX_fix 2 (le_field u (8 + i) 1)) [0..<8])"

definition GetUuidStr :: "securec \<Rightarrow> u8 list \<Rightarrow> nat \<Rightarrow> string" where
  "GetUuidStr sc uuid nameLen = snd (snprintf_s sc nameLen (nameLen - 1) (uuid_text uuid))"

definition IsTaUuid :: "u8 list \<Rightarrow> bool" where
  "IsTaUuid uuid \<longleftrightarrow> (\<exists>b \<in> set uuid. b \<noteq> 0)"

definition log_text :: "string \<Rightarrow> string \<Rightarrow> bool \<Rightarrow> nat \<Rightarrow> string" where
  "log_text logPath uuidAscii isTa index =
     logPath @ (if isTa then ''LOG@'' @ uuidAscii else ''teeOS_log'') @ ''-'' @ dec_digits index"

definition LogAssembleFilename :: "securec \<Rightarrow> nat \<Rightarrow> string \<Rightarrow> string \<Rightarrow> bool \<Rightarrow> nat \<Rightarrow> int \<times> string" where
  "LogAssembleFilename sc logNameLen logPath uuidAscii isTa index =
     snprintf_s sc logNameLen
       ((if isTa then length ''LOG@A32B3D00CB5711E39C1A0800200C9A66-0'' else length ''teeOS_log-0'') + length logPath)
       (log_text logPath uuidAscii isTa index)"

definition LogAssembleCompressFilename :: "securec \<Rightarrow> nat \<Rightarrow> string \<Rightarrow> string \<Rightarrow> bool \<Rightarrow> nat \<Rightarrow> int \<times> string" where
  "LogAssembleCompressFilename sc logNameLen logPath uuidAscii isTa index =
     snprintf_s sc logNameLen
       ((if isTa then length ''LOG@A32B3D00CB5711E39C1A0800200C9A66-0.tar.gz'' else length ''teeos-log-0.tar.gz'') + length logPath)
       (logPath @ (if isTa then ''LOG@'' @ uuidAscii else ''teeos-log'') @ ''-'' @ dec_digits index @ ''.tar.gz'')"

section \<open>Contract and rules\<close>

text \<open>\<open>fdopen\<close> and \<open>gzdopen\<close> fail or return a handle that is not in use.\<close>

definition handles_ok :: "'w logos \<Rightarrow> bool" where
  "handles_ok os \<longleftrightarrow> fresh_ok os \<and>
     (\<forall>used fd w. fst (lo_fdopen os used fd w) = NULL \<or> \<not> used (fst (lo_fdopen os used fd w))) \<and>
     (\<forall>used fd w. fst (lo_gzdopen os used fd w) = NULL \<or> \<not> used (fst (lo_gzdopen os used fd w)))"

text \<open>Two states that differ at most in the world.\<close>

definition lsame :: "'w tlog \<Rightarrow> 'w tlog \<Rightarrow> bool" where
  "lsame s s' \<longleftrightarrow> (\<exists>w. s' = s\<lparr>lworld := w\<rparr>)"

text \<open>The world is the outermost update.\<close>

lemma tlog_world_order [simp]:
  "s\<lparr>lstreams := x, g_files := x0\<rparr> = s\<lparr>g_files := x0, lstreams := x\<rparr>"
  "s\<lparr>lworld := w, g_files := x0\<rparr> = s\<lparr>g_files := x0, lworld := w\<rparr>"
  "s\<lparr>lworld := w, g_teePath := x1\<rparr> = s\<lparr>g_teePath := x1, lworld := w\<rparr>"
  "s\<lparr>lworld := w, g_teeTempPath := x2\<rparr> = s\<lparr>g_teeTempPath := x2, lworld := w\<rparr>"
  "s\<lparr>lworld := w, g_teePathGroup := x3\<rparr> = s\<lparr>g_teePathGroup := x3, lworld := w\<rparr>"
  "s\<lparr>lworld := w, g_teeVersion := x4\<rparr> = s\<lparr>g_teeVersion := x4, lworld := w\<rparr>"
  "s\<lparr>lworld := w, g_uuidAscii := x5\<rparr> = s\<lparr>g_uuidAscii := x5, lworld := w\<rparr>"
  "s\<lparr>lworld := w, g_logName := x6\<rparr> = s\<lparr>g_logName := x6, lworld := w\<rparr>"
  "s\<lparr>lworld := w, g_logNameCompress := x7\<rparr> = s\<lparr>g_logNameCompress := x7, lworld := w\<rparr>"
  "s\<lparr>lworld := w, g_compressFile := x8\<rparr> = s\<lparr>g_compressFile := x8, lworld := w\<rparr>"
  "s\<lparr>lworld := w, g_compressUuid := x9\<rparr> = s\<lparr>g_compressUuid := x9, lworld := w\<rparr>"
  "s\<lparr>lworld := w, g_logBuffer := x10\<rparr> = s\<lparr>g_logBuffer := x10, lworld := w\<rparr>"
  "s\<lparr>lworld := w, g_logItemBuffer := x11\<rparr> = s\<lparr>g_logItemBuffer := x11, lworld := w\<rparr>"
  "s\<lparr>lworld := w, g_devFd := x12\<rparr> = s\<lparr>g_devFd := x12, lworld := w\<rparr>"
  "s\<lparr>lworld := w, g_readposCur := x13\<rparr> = s\<lparr>g_readposCur := x13, lworld := w\<rparr>"
  "s\<lparr>lworld := w, tags := x14\<rparr> = s\<lparr>tags := x14, lworld := w\<rparr>"
  "s\<lparr>lworld := w, tag_links := x16\<rparr> = s\<lparr>tag_links := x16, lworld := w\<rparr>"
  "s\<lparr>lworld := w, lmem := x17\<rparr> = s\<lparr>lmem := x17, lworld := w\<rparr>"
  "s\<lparr>lworld := w, lstreams := x18\<rparr> = s\<lparr>lstreams := x18, lworld := w\<rparr>"
  "s\<lparr>lworld := w, lfds := x19\<rparr> = s\<lparr>lfds := x19, lworld := w\<rparr>"
  "s\<lparr>lworld := w, lgz := x20\<rparr> = s\<lparr>lgz := x20, lworld := w\<rparr>"
  "s\<lparr>lworld := w, stdout := x21\<rparr> = s\<lparr>stdout := x21, lworld := w\<rparr>"
  by simp_all

lemma lsame_refl [simp]: "lsame s s"
  unfolding lsame_def by (rule exI [of _ "lworld s"]) simp

lemma lsame_world [simp]: "lsame s (s\<lparr>lworld := w\<rparr>)"
  by (auto simp: lsame_def)

lemma lsame_trans [trans]: "lsame s s' \<Longrightarrow> lsame s' s'' \<Longrightarrow> lsame s s''"
  by (auto simp: lsame_def)

lemma lsameE:
  assumes "lsame s s'"
  obtains w where "s' = s\<lparr>lworld := w\<rparr>"
  using assms by (auto simp: lsame_def)

lemma ok_lsameE:
  assumes "ok m (\<lambda>(r, s'). lsame s s')"
  obtains r w where "m = Some (r, s\<lparr>lworld := w\<rparr>)"
  using assms by (auto simp: ok_iff lsame_def)

lemma ok_lsame_stateE:
  assumes "ok m (lsame s)"
  obtains w where "m = Some (s\<lparr>lworld := w\<rparr>)"
  using assms by (auto simp: ok_iff lsame_def)

lemma lcall_pair: "lcall f s = (fst (f (lworld s)), s\<lparr>lworld := snd (f (lworld s))\<rparr>)"
  by (simp add: lcall_def case_prod_beta)

lemma lcallE:
  obtains r w where "lcall f s = (r, s\<lparr>lworld := w\<rparr>)" and "f (lworld s) = (r, w)"
  by (cases "f (lworld s)") (simp add: lcall_def)

lemma lused_world [simp]:
  "lused_fd (s\<lparr>lworld := w\<rparr>) = lused_fd s" "lused_mem (s\<lparr>lworld := w\<rparr>) = lused_mem s"
  by (simp_all add: lused_fd_def lused_mem_def fun_eq_iff)

text \<open>Opening: either nothing was opened, or the descriptor is a new one.\<close>

lemma lopen_cases:
  assumes "handles_ok os"
  obtains fd w where "fd < 0" "lopen os p wr m s = (fd, s\<lparr>lworld := w\<rparr>)"
  | fd w where "0 \<le> fd" "\<not> lused_fd s fd" "lopen os p wr m s = (fd, s\<lparr>lfds := insert fd (lfds s), lworld := w\<rparr>)"
proof -
  obtain fd w where c: "px_open os (lused_fd s) p wr m (lworld s) = (fd, w)" by (metis surj_pair)
  from assms have "\<forall>usedfd p m md w. fst (px_open os usedfd p m md w) = - 1 \<or>
      (\<not> usedfd (fst (px_open os usedfd p m md w)) \<and> fst (px_open os usedfd p m md w) \<ge> 0)"
    by (simp add: handles_ok_def fresh_ok_def)
  then have "fst (px_open os (lused_fd s) p wr m (lworld s)) = - 1 \<or>
      (\<not> lused_fd s (fst (px_open os (lused_fd s) p wr m (lworld s))) \<and> fst (px_open os (lused_fd s) p wr m (lworld s)) \<ge> 0)"
    by blast
  then have "fd = - 1 \<or> \<not> lused_fd s fd \<and> 0 \<le> fd" by (simp add: c)
  then show ?thesis
  proof
    assume "fd = - 1"
    then show ?thesis by (intro that(1) [of fd w]) (simp_all add: lopen_def lcall_def c)
  next
    assume "\<not> lused_fd s fd \<and> 0 \<le> fd"
    then show ?thesis by (intro that(2) [of fd w]) (simp_all add: lopen_def lcall_def c)
  qed
qed

lemma lgzdopen_cases:
  assumes "handles_ok os"
  obtains w where "lgzdopen os fd s = (NULL, s\<lparr>lworld := w\<rparr>)"
  | f w where "f \<noteq> NULL" "lgz s f = None"
      "lgzdopen os fd s = (f, s\<lparr>lfds := lfds s - {fd}, lgz := (lgz s)(f \<mapsto> fd), lworld := w\<rparr>)"
proof -
  let ?c = "lo_gzdopen os (\<lambda>a. a \<in> dom (lgz s)) fd (lworld s)"
  obtain f w where c: "?c = (f, w)" by (metis surj_pair)
  from assms have "\<forall>used fd w. fst (lo_gzdopen os used fd w) = NULL \<or> \<not> used (fst (lo_gzdopen os used fd w))"
    by (simp add: handles_ok_def)
  then have "fst ?c = NULL \<or> \<not> fst ?c \<in> dom (lgz s)" by blast
  then have "f = NULL \<or> lgz s f = None" by (auto simp: c)
  then show ?thesis
  proof (cases "f = NULL")
    case True
    then show ?thesis by (intro that(1) [of w]) (simp add: lgzdopen_def lcall_def c)
  next
    case False
    with \<open>f = NULL \<or> lgz s f = None\<close> show ?thesis
      by (intro that(2) [of f w]) (simp_all add: lgzdopen_def lcall_def c)
  qed
qed

section \<open>Strings as bytes\<close>

lemma unat_byte_of: "unat (byte_of c) = of_char c"
proof -
  have "of_char c mod (256 :: nat) = of_char c" by simp
  then show ?thesis by (simp add: byte_of_def unat_of_nat take_bit_eq_mod)
qed

lemma byte_of_eq_0 [simp]: "byte_of c = 0 \<longleftrightarrow> c = CHR 0x00"
proof
  assume "byte_of c = 0"
  then have "chr_of (byte_of c) = chr_of 0" by simp
  then show "c = CHR 0x00" unfolding chr_of_byte_of by (simp add: chr_of_def char_of_def)
qed (simp add: byte_of_def)

lemma cstr_at: "CHR 0x00 \<notin> set t \<Longrightarrow> cstr (pre @ map byte_of t @ 0 # xs) (length pre) = Some t"
proof -
  assume "CHR 0x00 \<notin> set t"
  then have "takeWhile (\<lambda>b. b \<noteq> 0) (map byte_of t @ 0 # xs) = map byte_of t"
    by (subst takeWhile_append2) auto
  then show ?thesis by (simp add: cstr_def comp_def)
qed

end
