(* ===== verification/Tlog_Zip.thy ===== *)
theory Tlog_Zip
  imports Tlog_Types
begin

text \<open>
  The archive writer of the log reader (\<open>src/services/tlogcat/src/tarzip.c\<close>): the header of an archive
  member, its content in blocks of 512 bytes, and the archive of the log files.
\<close>

section \<open>The header of a member\<close>

abbreviation (input) "HEADER_NUM \<equiv> (512 :: nat)"
abbreviation (input) "CHECK_SUM_APPEND \<equiv> (256 :: int)"
abbreviation (input) "NAME_LEN \<equiv> (100 :: nat)"
abbreviation (input) "FILE_MODE_LEN \<equiv> (8 :: nat)"
abbreviation (input) "UID_LEN \<equiv> (8 :: nat)"
abbreviation (input) "GID_LEN \<equiv> (8 :: nat)"
abbreviation (input) "FILE_SIZE \<equiv> (12 :: nat)"
abbreviation (input) "UNIX_TIME_LEN \<equiv> (12 :: nat)"
abbreviation (input) "CHECK_SUM_LEN \<equiv> (8 :: nat)"
abbreviation (input) "ZIP_OPEN_MODE \<equiv> (0x100 :: u32)"
abbreviation (input) "FILE_NAME_INVALID_LEN \<equiv> (8 :: nat)"

definition FILE_MODE :: "u8 list" where
  "FILE_MODE = [0x31, 0x30, 0x30, 0x36, 0x36, 0x36, 0x20, 0]"

definition ID_BYTE :: "u8 list" where
  "ID_BYTE = [0x20, 0x20, 0x20, 0x20, 0x20, 0x30, 0x20, 0x00, 0x20, 0x20, 0x20, 0x20, 0x20, 0x30, 0x20, 0x00]"

text \<open>The value of a \<open>char\<close>, which is signed on some targets and unsigned on others.\<close>

definition char_int :: "bool \<Rightarrow> u8 \<Rightarrow> int" where
  "char_int sg b = (if sg then sint b else uint b)"

definition WriteOneUint :: "bool \<Rightarrow> nat \<Rightarrow> nat \<Rightarrow> u8 list \<Rightarrow> u8 list \<Rightarrow> (int \<times> u8 list) option" where
  "WriteOneUint sg startIndex unitLen input ouput =
     fold (\<lambda>i acc. do {
       (sum, out) \<leftarrow> acc;
       b \<leftarrow> arr_get input i;
       out \<leftarrow> arr_set out (i + startIndex) b;
       Some (sum + char_int sg b, out)
     }) [0..<unitLen] (Some (0, ouput))"

text \<open>\<open>%o\<close>\<close>

fun oct_digits :: "nat \<Rightarrow> string" where
  "oct_digits n =
     (if n < 8 then [''01234567'' ! n] else oct_digits (n div 8) @ [''01234567'' ! (n mod 8)])"

declare oct_digits.simps [simp del]

text \<open>A string and its NUL written over the start of a buffer.\<close>

definition over_buf :: "string \<Rightarrow> u8 list \<Rightarrow> u8 list" where
  "over_buf t buf = map byte_of t @ 0 # drop (length t + 1) buf"

definition WriteHeader :: "securec \<Rightarrow> bool \<Rightarrow> u8 list \<Rightarrow> string option \<Rightarrow> int \<Rightarrow> u8 list option" where
  "WriteHeader sc sg header fileName fileSize =
     (case fileName of
        None \<Rightarrow> Some header
      | Some nm \<Rightarrow>
          if fileSize = 0 then Some header
          else do {
            let nameLen = (if length nm \<ge> NAME_LEN then NAME_LEN - 1 else length nm);
            (s1, h) \<leftarrow> WriteOneUint sg 0 nameLen (map byte_of nm @ [0]) header;
            let j = NAME_LEN;
            (s2, h) \<leftarrow> WriteOneUint sg j FILE_MODE_LEN FILE_MODE h;
            let j = j + FILE_MODE_LEN;
            (s3, h) \<leftarrow> WriteOneUint sg j (UID_LEN + GID_LEN) ID_BYTE h;
            let j = j + (UID_LEN + GID_LEN);
            let (rc, t) = snprintf_s sc FILE_SIZE (FILE_SIZE - 1) (oct_digits (unat (uint32_of fileSize)));
            if rc = - 1 then Some h
            else do {
              let buf = over_buf t (replicate FILE_SIZE 0);
              (s4, h) \<leftarrow> WriteOneUint sg j FILE_SIZE buf h;
              let j = j + (FILE_SIZE + UNIX_TIME_LEN);
              let sumAppend = s1 + s2 + s3 + s4 + CHECK_SUM_APPEND;
              let (rc, t) = snprintf_s sc FILE_SIZE (FILE_SIZE - 1) (oct_digits (unat (uint32_of sumAppend)));
              if rc = - 1 then Some h
              else put_bytes h j (take CHECK_SUM_LEN (over_buf t buf))
            }
          })"

section \<open>Writing an archive\<close>

text \<open>The loop of \<open>WriteZipContent\<close>; a block that was read only in part is filled up with zeros.\<close>

function zip_blocks :: "'w logos \<Rightarrow> addr \<Rightarrow> int \<Rightarrow> int \<Rightarrow> 'w tlog \<Rightarrow> 'w tlog option" where
  "zip_blocks os gzFd fileFd temFileSize s =
     (if temFileSize > 0
      then let (bs, s) = lcall (px_read os fileFd HEADER_NUM) s
           in case bs of
                None \<Rightarrow> Some s
              | Some bs \<Rightarrow> do {
                  (iret, s) \<leftarrow> lgzwrite os gzFd (bs @ replicate (HEADER_NUM - length bs) 0) s;
                  if iret < 0 \<or> iret < int HEADER_NUM then Some s
                  else zip_blocks os gzFd fileFd (temFileSize - int HEADER_NUM) s
                }
      else Some s)"
  by pat_completeness auto
termination by (relation "measure (\<lambda>(os, gz, fd, n, s). nat n)") auto

declare zip_blocks.simps [simp del]

definition WriteZipContent :: "'w logos \<Rightarrow> addr \<Rightarrow> string \<Rightarrow> int \<Rightarrow> 'w tlog \<Rightarrow> 'w tlog option" where
  "WriteZipContent os gzFd fileName fileSize s =
     (if gzFd = NULL \<or> fileSize = 0 then Some s
      else let (fileFd, s) = lopen os fileName True ZIP_OPEN_MODE s
      in if fileFd < 0 then Some s
         else do { s \<leftarrow> zip_blocks os gzFd fileFd fileSize s; lclose os fileFd s })"

definition OpenZipFile :: "'w logos \<Rightarrow> string \<Rightarrow> nat \<Rightarrow> 'w tlog \<Rightarrow> ((int \<times> addr) \<times> 'w tlog) option" where
  "OpenZipFile os outputName pathGroup s =
     (let (fd, s) = lopen os outputName True ZIP_OPEN_MODE s
      in if fd < 0 then Some ((- 1, NULL), s)
         else let (out, s) = lgzdopen os fd s
         in if out = NULL then do { s \<leftarrow> lclose os fd s; Some ((- 1, NULL), s) }
            else let (r, s) = lcall (lo_fchown os fd pathGroup) s
            in if r < 0 then do { s \<leftarrow> lgzclose os out s; Some ((- 1, NULL), s) }
               else let (r, s) = lcall (lo_fchmod os fd 0x120) s
               in if r < 0 then do { s \<leftarrow> lgzclose os out s; Some ((- 1, NULL), s) }
                  else Some ((0, out), s))"

definition JudgeFileValidite :: "'w logos \<Rightarrow> string \<Rightarrow> 'w tlog \<Rightarrow> (bool \<times> int) \<times> 'w tlog" where
  "JudgeFileValidite os index s =
     (let ((r, isreg, size), s) = lcall (lo_lstat os index) s
      in ((\<not> r < 0 \<and> isreg, size), s))"

definition strrchr_slash :: "string \<Rightarrow> string option" where
  "strrchr_slash t =
     (if CHR ''/'' \<in> set t then Some (CHR ''/'' # rev (takeWhile (\<lambda>c. c \<noteq> CHR ''/'') (rev t))) else None)"

definition WriteSingleFile :: "securec \<Rightarrow> bool \<Rightarrow> 'w logos \<Rightarrow> string \<Rightarrow> addr \<Rightarrow> 'w tlog \<Rightarrow> (int \<times> 'w tlog) option" where
  "WriteSingleFile sc sg os fileName out s =
     (let ((valid, size), s) = JudgeFileValidite os fileName s
      in if \<not> valid then Some (0, s)
         else case strrchr_slash fileName of
                None \<Rightarrow> Some (- 1, s)
              | Some s1 \<Rightarrow>
                  if length s1 < FILE_NAME_INVALID_LEN then Some (- 1, s)
                  else do {
                    header \<leftarrow> WriteHeader sc sg (replicate HEADER_NUM 0) (Some (tl s1)) size;
                    (r, s) \<leftarrow> lgzwrite os out header s;
                    if r < 0 then Some (- 1, s)
                    else do { s \<leftarrow> WriteZipContent os out fileName size s; Some (0, s) }
                  })"

text \<open>The loop over the names; the result is false if a member failed.\<close>

fun zip_files :: "securec \<Rightarrow> bool \<Rightarrow> 'w logos \<Rightarrow> addr \<Rightarrow> string option list \<Rightarrow> 'w tlog \<Rightarrow> (bool \<times> 'w tlog) option" where
  "zip_files sc sg os out [] s = Some (True, s)"
| "zip_files sc sg os out (None # ns) s = zip_files sc sg os out ns s"
| "zip_files sc sg os out (Some n # ns) s = do {
     (ret, s) \<leftarrow> WriteSingleFile sc sg os n out s;
     if ret \<noteq> 0 then Some (False, s) else zip_files sc sg os out ns s
   }"

definition TarZipFiles :: "securec \<Rightarrow> bool \<Rightarrow> 'w logos \<Rightarrow> string option list \<Rightarrow> string option \<Rightarrow> nat \<Rightarrow> 'w tlog \<Rightarrow> 'w tlog option" where
  "TarZipFiles sc sg os inputNames outputName pathGroup s =
     (case outputName of
        None \<Rightarrow> Some s
      | Some o_name \<Rightarrow>
          if length inputNames \<noteq> LOG_FILE_INDEX_MAX then Some s
          else do {
            ((ret, out), s) \<leftarrow> OpenZipFile os o_name pathGroup s;
            if ret \<noteq> 0 then Some s
            else do {
              (fine, s) \<leftarrow> zip_files sc sg os out inputNames s;
              s \<leftarrow> (if fine then do { (_, s) \<leftarrow> lgzwrite os out (replicate HEADER_NUM 0) s; Some s } else Some s);
              lgzclose os out s
            }
          })"

section \<open>Writing an archive leaves no handle open\<close>

lemma zip_blocks_ok: "lgz s gz \<noteq> None \<Longrightarrow> ok (zip_blocks os gz fd n s) (lsame s)"
proof (induction os gz fd n s rule: zip_blocks.induct)
  case (1 os gz fd n s)
  obtain bs w where c: "lcall (px_read os fd 512) s = (bs, s\<lparr>lworld := w\<rparr>)" by (rule lcallE)
  show ?case
  proof (cases "n > 0")
    case True
    show ?thesis
    proof (cases bs)
      case None
      with True c show ?thesis by (simp add: zip_blocks.simps [of os gz fd n])
    next
      case (Some b)
      let ?buf = "b @ replicate (512 - length b) 0"
      obtain r w' where g: "lcall (lo_gzwrite os gz ?buf) (s\<lparr>lworld := w\<rparr>) = (r, s\<lparr>lworld := w'\<rparr>)"
        by (rule lcallE [of "lo_gzwrite os gz ?buf" "s\<lparr>lworld := w\<rparr>"]) simp
      have "ok (zip_blocks os gz fd (n - 512) (s\<lparr>lworld := w'\<rparr>)) (lsame s)" if "512 \<le> r"
      proof -
        have "ok (zip_blocks os gz fd (n - int 512) (s\<lparr>lworld := w'\<rparr>)) (lsame (s\<lparr>lworld := w'\<rparr>))"
          using that "1.prems" by (intro "1.IH" [OF True c [symmetric] _ Some, of _ "(r, s\<lparr>lworld := w'\<rparr>)" r]) (auto simp: lgzwrite_def g)
        then show ?thesis by (simp, elim ok_mono) (rule lsame_trans [OF lsame_world])
      qed
      with True c g Some "1.prems" show ?thesis by (simp add: zip_blocks.simps [of os gz fd n] lgzwrite_def)
    qed
  qed (simp add: zip_blocks.simps [of os gz fd n])
qed

lemma WriteZipContent_ok:
  assumes "handles_ok os" and "lgz s gz \<noteq> None"
  shows "ok (WriteZipContent os gz nm n s) (lsame s)"
proof (cases "gz = NULL \<or> n = 0")
  case False
  from assms(1) show ?thesis
  proof (cases rule: lopen_cases [where s = s and p = nm and wr = True and m = ZIP_OPEN_MODE])
    case (1 fd w)
    with False show ?thesis by (simp add: WriteZipContent_def)
  next
    case (2 fd w)
    let ?s = "s\<lparr>lfds := insert fd (lfds s), lworld := w\<rparr>"
    have "ok (zip_blocks os gz fd n ?s) (lsame ?s)" using assms(2) by (intro zip_blocks_ok) simp
    then obtain w' where z: "zip_blocks os gz fd n ?s = Some (?s\<lparr>lworld := w'\<rparr>)" by (elim okE lsameE) blast
    have "lfds s - {fd} = lfds s" using 2(2) by (auto simp: lused_fd_def)
    with False 2 z show ?thesis by (simp add: WriteZipContent_def lclose_def)
  qed
qed (simp add: WriteZipContent_def)

lemma OpenZipFile_ok:
  assumes "handles_ok os"
  shows "ok (OpenZipFile os nm g s) (\<lambda>((r, out), s').
    r = - 1 \<and> lsame s s' \<or> r = 0 \<and> out \<noteq> NULL \<and> lgz s out = None \<and> (\<exists>fd. lsame (s\<lparr>lgz := (lgz s)(out \<mapsto> fd)\<rparr>) s'))"
  using assms
proof (cases rule: lopen_cases [where s = s and p = nm and wr = True and m = ZIP_OPEN_MODE])
  case (1 fd w)
  then show ?thesis by (simp add: OpenZipFile_def)
next
  case (2 fd w)
  let ?s = "s\<lparr>lfds := insert fd (lfds s), lworld := w\<rparr>"
  have fds: "lfds s - {fd} = lfds s" using 2(2) by (auto simp: lused_fd_def)
  from assms show ?thesis
  proof (cases rule: lgzdopen_cases [where s = ?s and fd = fd])
    case (1 w')
    with 2 fds show ?thesis by (simp add: OpenZipFile_def lclose_def)
  next
    case (2 f w')
    have upd: "(lgz s)(f := None) = lgz s" using 2(2) by auto
    have fin: "\<exists>d. lsame (s\<lparr>lgz := (lgz s)(f \<mapsto> d)\<rparr>) (s\<lparr>lgz := (lgz s)(f \<mapsto> fd), lworld := w\<rparr>)" for w
      by (rule exI [of _ fd], rule lsame_world)
    show ?thesis using 2 \<open>0 \<le> fd\<close> \<open>lopen os nm True ZIP_OPEN_MODE s = _\<close> fds
      by (simp add: OpenZipFile_def lcall_pair lgzclose_def upd fin)
  qed
qed

lemma lgzwrite_ok: "lgz s f \<noteq> None \<Longrightarrow> ok (lgzwrite os f bs s) (\<lambda>(r, s'). lsame s s')"
  by (simp add: lgzwrite_def lcall_pair)

section \<open>The header as a tar reader sees it\<close>

text \<open>
  The checksum of a tar header is the sum of its bytes with blanks in place of the checksum field
  (bytes 148 to 155); the fields are octal numbers that end with a NUL.
\<close>

definition tar_checksum :: "u8 list \<Rightarrow> nat" where
  "tar_checksum h = sum_list (map unat (take 148 h)) + 8 * 32 + sum_list (map unat (drop 156 h))"

definition oct_value :: "string \<Rightarrow> nat" where
  "oct_value ds = foldl (\<lambda>v c. 8 * v + (of_char c - 48)) 0 ds"

lemma oct_digit_code: "d < 8 \<Longrightarrow> of_char (''01234567'' ! d) = (48 + d :: nat)"
proof -
  have "list_all (\<lambda>d. of_char (''01234567'' ! d) = (48 + d :: nat)) [0..<8]" by code_simp
  then show "d < 8 \<Longrightarrow> of_char (''01234567'' ! d) = (48 + d :: nat)" by (simp add: list_all_iff)
qed

lemma oct_value_digits: "oct_value (oct_digits n) = n"
proof (induction n rule: oct_digits.induct)
  case (1 n)
  show ?case
  proof (cases "n < 8")
    case True
    then show ?thesis by (simp add: oct_digits.simps [of n] oct_value_def oct_digit_code)
  next
    case False
    with 1 have IH: "oct_value (oct_digits (n div 8)) = n div 8" by simp
    have "oct_value (oct_digits n) = 8 * oct_value (oct_digits (n div 8)) + n mod 8"
      using False by (simp add: oct_digits.simps [of n] oct_value_def oct_digit_code)
    then show ?thesis by (simp add: IH)
  qed
qed

lemma set_oct_digits: "set (oct_digits n) \<subseteq> set ''01234567''"
proof (induction n rule: oct_digits.induct)
  case (1 n)
  have "''01234567'' ! k \<in> set ''01234567''" if "k < 8" for k
    using that by (intro nth_mem) simp
  then show ?case using 1 by (subst oct_digits.simps) auto
qed

lemma length_oct_digits: "length (oct_digits n) \<le> Suc k \<longleftrightarrow> n < 8 ^ Suc k"
proof (induction k arbitrary: n)
  case 0
  show ?case by (subst oct_digits.simps) (auto simp: oct_digits.simps [of "n div 8"])
next
  case (Suc k)
  show ?case
  proof (cases "n < 8")
    case True
    then have "n < 8 ^ Suc (Suc k)" by (rule less_le_trans) simp
    with True show ?thesis by (simp add: oct_digits.simps [of n])
  next
    case False
    then show ?thesis
      by (subst oct_digits.simps) (simp add: Suc [of "n div 8"] div_less_iff_less_mult mult.commute)
  qed
qed

lemma WriteOneUint_ok:
  assumes "start + n \<le> length out" and "n \<le> length input"
  shows "WriteOneUint sg start n input out =
    Some (sum_list (map (char_int sg) (take n input)), take start out @ take n input @ drop (start + n) out)"
  using assms
proof (induction n)
  case 0
  then show ?case by (simp add: WriteOneUint_def)
next
  case (Suc n)
  then have IH: "WriteOneUint sg start n input out =
    Some (sum_list (map (char_int sg) (take n input)), take start out @ take n input @ drop (start + n) out)" by simp
  have "drop (start + n) out = out ! (start + n) # drop (start + Suc n) out"
    using Suc.prems by (simp add: Cons_nth_drop_Suc)
  then have upd: "(take start out @ take n input @ drop (start + n) out)[n + start := input ! n] =
      take start out @ take (Suc n) input @ drop (start + Suc n) out"
    using Suc.prems by (simp add: list_update_append take_Suc_conv_app_nth)
  show ?case using IH Suc.prems upd
    by (simp add: WriteOneUint_def take_Suc_conv_app_nth del: upt_Suc add: upt_Suc_append)
qed

lemma u32_oct_fits: "length (oct_digits (unat (w :: u32))) \<le> 11"
proof -
  have "unat w < 8 ^ Suc 10" by (rule less_trans [OF unat_less_2_32]) simp
  then show ?thesis using length_oct_digits [of "unat w" 10] by simp
qed

lemma snprintf_oct:
  assumes "securec_ok sc"
  shows "snprintf_s sc 12 11 (oct_digits (unat (w :: u32))) = (int (length (oct_digits (unat w))), oct_digits (unat w))"
  using snprintf_s_ok [OF assms, of 12 11 "oct_digits (unat w)"] u32_oct_fits [of w] by simp

lemma length_over_buf: "length t < length buf \<Longrightarrow> length (over_buf t buf) = length buf"
  by (simp add: over_buf_def)

definition size_field :: "int \<Rightarrow> u8 list" where
  "size_field n = over_buf (oct_digits (unat (uint32_of n))) (replicate 12 0)"

definition header_front :: "string \<Rightarrow> int \<Rightarrow> u8 list" where
  "header_front nm n = map byte_of (take 99 nm) @ replicate (100 - length (take 99 nm)) 0 @ FILE_MODE @ ID_BYTE @
     size_field n @ replicate 12 0"

definition front_sum :: "bool \<Rightarrow> string \<Rightarrow> int \<Rightarrow> int" where
  "front_sum sg nm n = sum_list (map (char_int sg) (header_front nm n)) + 256"

lemma length_size_field [simp]: "length (size_field n) = 12"
  using u32_oct_fits [of "uint32_of n"] by (simp add: size_field_def length_over_buf)

lemma length_front [simp]: "length (header_front nm n) = 148"
  by (simp add: header_front_def FILE_MODE_def ID_BYTE_def)

lemma char_int_0 [simp]: "char_int sg 0 = 0"
  by (simp add: char_int_def)

lemma WriteHeader_eq:
  assumes sc: "securec_ok sc" and n: "n \<noteq> 0"
  shows "WriteHeader sc sg (replicate 512 0) (Some nm) n =
    Some (header_front nm n @
      take 8 (over_buf (oct_digits (unat (uint32_of (front_sum sg nm n)))) (size_field n)) @ replicate 356 0)"
proof -
  let ?nm = "map byte_of (take 99 nm)"
  have len: "(if 100 \<le> length nm then 100 - 1 else length nm) = length ?nm" by simp
  have tk: "take (length ?nm) (map byte_of nm @ [0]) = ?nm" by (simp add: take_map min_def)
  let ?h1 = "?nm @ replicate (512 - length ?nm) 0"
  have w1: "WriteOneUint sg 0 (length ?nm) (map byte_of nm @ [0]) (replicate 512 0) =
      Some (sum_list (map (char_int sg) ?nm), ?h1)"
    using WriteOneUint_ok [of 0 "length ?nm" "replicate 512 0" "map byte_of nm @ [0]" sg] unfolding tk by simp
  let ?z = "replicate (100 - length ?nm) (0 :: u8)"
  have split: "replicate (512 - length ?nm) (0 :: u8) = ?z @ replicate 412 0"
    by (simp flip: replicate_add)
  have w2: "WriteOneUint sg 100 8 FILE_MODE ?h1 =
      Some (sum_list (map (char_int sg) FILE_MODE), ?nm @ ?z @ FILE_MODE @ replicate 404 0)"
    unfolding split by (subst WriteOneUint_ok) (auto simp: FILE_MODE_def)
  have w3: "WriteOneUint sg 108 16 ID_BYTE (?nm @ ?z @ FILE_MODE @ replicate 404 0) =
      Some (sum_list (map (char_int sg) ID_BYTE), ?nm @ ?z @ FILE_MODE @ ID_BYTE @ replicate 388 0)"
    by (subst WriteOneUint_ok) (auto simp: FILE_MODE_def ID_BYTE_def)
  have w4: "WriteOneUint sg 124 12 (size_field n) (?nm @ ?z @ FILE_MODE @ ID_BYTE @ replicate 388 0) =
      Some (sum_list (map (char_int sg) (size_field n)), ?nm @ ?z @ FILE_MODE @ ID_BYTE @ size_field n @ replicate 376 0)"
    by (subst WriteOneUint_ok) (auto simp: FILE_MODE_def ID_BYTE_def)
  let ?t = "oct_digits (unat (uint32_of (front_sum sg nm n)))"
  have z: "replicate 376 (0 :: u8) = replicate 12 0 @ replicate 8 0 @ replicate 356 0"
    by (simp flip: replicate_add)
  have sum: "sum_list (map (char_int sg) ?nm) + sum_list (map (char_int sg) FILE_MODE) + sum_list (map (char_int sg) ID_BYTE) +
      sum_list (map (char_int sg) (size_field n)) + 256 = front_sum sg nm n"
    by (simp add: front_sum_def header_front_def sum_list_replicate)
  have pb: "put_bytes (?nm @ ?z @ FILE_MODE @ ID_BYTE @ size_field n @ replicate 376 0) 148 (take 8 (over_buf ?t (size_field n))) =
      Some (header_front nm n @ take 8 (over_buf ?t (size_field n)) @ replicate 356 0)"
  proof -
    have "?nm @ ?z @ FILE_MODE @ ID_BYTE @ size_field n @ replicate 376 0 = header_front nm n @ replicate 8 0 @ replicate 356 0"
      by (simp add: header_front_def z)
    moreover have "length (take 8 (over_buf ?t (size_field n))) = 8"
      using u32_oct_fits [of "uint32_of (front_sum sg nm n)"] by (simp add: length_over_buf)
    ultimately show ?thesis by (simp add: put_bytes_def)
  qed
  show ?thesis
    using n w1 w2 w3 w4 pb sum
    by (simp add: WriteHeader_def len snprintf_oct [OF sc] Let_def size_field_def [symmetric])
qed


lemma WriteHeader_defined: "securec_ok sc \<Longrightarrow> \<exists>h. WriteHeader sc sg (replicate 512 0) (Some nm) n = Some h"
  by (cases "n = 0") (simp add: WriteHeader_def, simp add: WriteHeader_eq)

lemma WriteSingleFile_ok:
  assumes "securec_ok sc" "handles_ok os" "lgz s out \<noteq> None"
  shows "ok (WriteSingleFile sc sg os nm out s) (\<lambda>(r, s'). lsame s s')"
proof -
  obtain r reg n w where st: "lcall (lo_lstat os nm) s = ((r, reg, n), s\<lparr>lworld := w\<rparr>)"
    by (rule lcallE [of "lo_lstat os nm" s]) (metis surj_pair)
  have body: "ok (do {
      header \<leftarrow> WriteHeader sc sg (replicate HEADER_NUM 0) (Some t) n;
      (r, s) \<leftarrow> lgzwrite os out header (s\<lparr>lworld := w\<rparr>);
      if r < 0 then Some (- 1, s) else do { s \<leftarrow> WriteZipContent os out nm n s; Some (0 :: int, s) } }) (\<lambda>(r, s'). lsame s s')" for t
  proof -
    obtain h where h: "WriteHeader sc sg (replicate HEADER_NUM 0) (Some t) n = Some h"
      using WriteHeader_defined [OF assms(1)] by metis
    obtain r' w' where g: "lgzwrite os out h (s\<lparr>lworld := w\<rparr>) = Some (r', s\<lparr>lworld := w'\<rparr>)"
      using assms(3) by (auto simp: lgzwrite_def lcall_pair)
    have "ok (WriteZipContent os out nm n (s\<lparr>lworld := w'\<rparr>)) (lsame (s\<lparr>lworld := w'\<rparr>))"
      using assms(2,3) by (intro WriteZipContent_ok) simp_all
    then obtain w'' where "WriteZipContent os out nm n (s\<lparr>lworld := w'\<rparr>) = Some (s\<lparr>lworld := w''\<rparr>)"
      by (rule ok_lsame_stateE) simp
    with h g show ?thesis by simp
  qed
  show ?thesis using body st by (auto simp: WriteSingleFile_def JudgeFileValidite_def split: option.split)
qed

lemma zip_files_ok:
  assumes "securec_ok sc" "handles_ok os"
  shows "lgz s out \<noteq> None \<Longrightarrow> ok (zip_files sc sg os out ns s) (\<lambda>(r, s'). lsame s s')"
proof (induction ns arbitrary: s)
  case (Cons n ns)
  show ?case
  proof (cases n)
    case None
    with Cons show ?thesis by simp
  next
    case (Some nm)
    obtain r w where f: "WriteSingleFile sc sg os nm out s = Some (r, s\<lparr>lworld := w\<rparr>)"
      using WriteSingleFile_ok [OF assms Cons.prems] by (rule ok_lsameE)
    have "ok (zip_files sc sg os out ns (s\<lparr>lworld := w\<rparr>)) (\<lambda>(r, s'). lsame (s\<lparr>lworld := w\<rparr>) s')"
      using Cons.prems by (intro Cons.IH) simp
    then have "ok (zip_files sc sg os out ns (s\<lparr>lworld := w\<rparr>)) (\<lambda>(r, s'). lsame s s')"
      by (rule ok_mono) (auto intro: lsame_trans [OF lsame_world])
    with Some f show ?thesis by simp
  qed
qed simp

lemma TarZipFiles_ok:
  assumes "securec_ok sc" "handles_ok os"
  shows "ok (TarZipFiles sc sg os ns out g s) (lsame s)"
proof (cases "out = None \<or> length ns \<noteq> 4")
  case False
  then obtain nm where out: "out = Some nm" by auto
  from OpenZipFile_ok [OF assms(2), of nm g s] obtain r gz s1 where
    o: "OpenZipFile os nm g s = Some ((r, gz), s1)"
    and r: "r = - 1 \<and> lsame s s1 \<or> r = 0 \<and> gz \<noteq> NULL \<and> lgz s gz = None \<and> (\<exists>fd. lsame (s\<lparr>lgz := (lgz s)(gz \<mapsto> fd)\<rparr>) s1)"
    by (auto simp: ok_iff)
  from r show ?thesis
  proof (elim disjE conjE exE)
    assume "r = - 1" "lsame s s1"
    with o out False show ?thesis by (simp add: TarZipFiles_def)
  next
    fix fd assume r0: "r = 0" "gz \<noteq> NULL" "lgz s gz = None" and "lsame (s\<lparr>lgz := (lgz s)(gz \<mapsto> fd)\<rparr>) s1"
    then obtain w1 where s1: "s1 = s\<lparr>lgz := (lgz s)(gz \<mapsto> fd), lworld := w1\<rparr>" by (elim lsameE)
    have "lgz s1 gz \<noteq> None" by (simp add: s1)
    then obtain b w2 where z: "zip_files sc sg os gz ns s1 = Some (b, s1\<lparr>lworld := w2\<rparr>)"
      by (rule ok_lsameE [OF zip_files_ok [OF assms]])
    have upd: "(lgz s)(gz := None) = lgz s" using r0(3) by auto
    show ?thesis using o out False r0 z
      by (simp add: TarZipFiles_def s1 lgzwrite_def lgzclose_def lcall_pair upd)
  qed
qed (auto simp: TarZipFiles_def split: option.split)


lemma oct_no_nul: "CHR 0x00 \<notin> set (oct_digits n)"
  using set_oct_digits [of n] by auto

lemma oct_ascii: "c \<in> set (oct_digits n) \<Longrightarrow> of_char c < (128 :: nat)"
  using set_oct_digits [of n] by auto

lemma char_int_ascii: "unat b < 128 \<Longrightarrow> char_int sg b = int (unat b)"
proof -
  assume "unat b < 128"
  then have "int (unat b) < int 128" by (simp only: of_nat_less_iff)
  then have "uint b < 2 ^ 7" by simp
  moreover have "- (2 ^ 7) \<le> uint b" by (rule order_trans [of _ 0]) simp_all
  ultimately have "sint b = uint b" using signed_take_bit_int_eq_self [of 7 "uint b"] by (simp add: sint_uint)
  then show ?thesis by (simp add: char_int_def)
qed


lemma front_ascii:
  assumes "\<And>c. c \<in> set nm \<Longrightarrow> of_char c < (128 :: nat)"
  shows "b \<in> set (header_front nm n) \<Longrightarrow> unat b < 128"
proof -
  have nm: "unat b < 128" if "b \<in> byte_of ` set (take 99 nm)"
    using that assms by (auto simp: unat_byte_of dest: in_set_takeD)
  have "unat b < 128" if "b \<in> set (size_field n)"
    using that by (auto simp: size_field_def over_buf_def unat_byte_of intro: oct_ascii dest!: in_set_dropD)
  moreover have "unat b < 128" if "b \<in> set FILE_MODE" using that by (auto simp: FILE_MODE_def)
  moreover have "unat b < 128" if "b \<in> set ID_BYTE" using that by (auto simp: ID_BYTE_def)
  moreover assume "b \<in> set (header_front nm n)"
  ultimately show ?thesis using nm by (auto simp: header_front_def)
qed

lemma sum_char_int:
  "(\<And>b. b \<in> set bs \<Longrightarrow> unat b < 128) \<Longrightarrow>
     sum_list (map (char_int sg) bs) = int (sum_list (map unat bs)) \<and> sum_list (map unat bs) \<le> 128 * length bs"
proof (induction bs)
  case (Cons b bs)
  then have "unat b < 128" by simp
  moreover have "sum_list (map (char_int sg) bs) = int (sum_list (map unat bs)) \<and> sum_list (map unat bs) \<le> 128 * length bs"
    using Cons by simp
  ultimately show ?case by (simp add: char_int_ascii)
qed simp

section \<open>Properties\<close>

text \<open>
  C30. The header that \<open>WriteHeader\<close> makes for a member with an ASCII name and a size other than zero
  is a valid tar header: its name field holds the (truncated) name, its size field the size as an
  octal number, and its checksum field, read as an octal number up to the NUL, is the checksum of the
  whole header, whether \<open>char\<close> is signed or not.
\<close>

theorem tar_header_valid:
  assumes "securec_ok sc" and "fileSize \<noteq> 0" and "\<forall>c \<in> set nm. of_char c < (128 :: nat) \<and> c \<noteq> CHR 0x00"
  shows "\<exists>h. WriteHeader sc sg (replicate HEADER_NUM 0) (Some nm) fileSize = Some h \<and> length h = HEADER_NUM \<and>
    cstr h 0 = Some (take 99 nm) \<and>
    map_option oct_value (cstr h 124) = Some (unat (uint32_of fileSize)) \<and>
    map_option oct_value (cstr h 148) = Some (tar_checksum h)"
proof -
  let ?F = "header_front nm fileSize" and ?S = "sum_list (map unat (header_front nm fileSize)) + 256"
  let ?sz = "oct_digits (unat (uint32_of fileSize))"
  have ascii: "\<And>b. b \<in> set ?F \<Longrightarrow> unat b < 128" using assms(3) by (intro front_ascii) auto
  note sum = sum_char_int [of ?F sg, OF ascii]
  then have S: "front_sum sg nm fileSize = int ?S" "?S \<le> 128 * 148 + 256" by (simp_all add: front_sum_def)
  then have val: "unat (uint32_of (front_sum sg nm fileSize)) = ?S" unfolding S(1) using S(2) by (subst unat_uint32_of) simp_all
  let ?c = "take 8 (over_buf (oct_digits ?S) (size_field fileSize))"
  obtain h where h: "WriteHeader sc sg (replicate HEADER_NUM 0) (Some nm) fileSize = Some h"
    and heq: "h = ?F @ ?c @ replicate 356 0"
    using WriteHeader_eq [OF assms(1,2), of sg nm] by (simp add: val)
  have "?S < 8 ^ Suc 5" using S(2) by simp
  then have "length (oct_digits ?S) \<le> 6" using length_oct_digits [of ?S 5] by simp
  then have c: "?c = map byte_of (oct_digits ?S) @ 0 # take (8 - length (oct_digits ?S) - 1) (drop (length (oct_digits ?S) + 1) (size_field fileSize))"
    and c8: "length ?c = 8"
    by (auto simp: over_buf_def take_Cons')
  have name: "cstr h 0 = Some (take 99 nm)"
  proof -
    have "h = [] @ map byte_of (take 99 nm) @ 0 # replicate (99 - length (take 99 nm)) 0 @ FILE_MODE @ ID_BYTE @
        size_field fileSize @ replicate 12 0 @ ?c @ replicate 356 0"
      by (simp add: heq header_front_def Suc_diff_le flip: replicate_Suc)
    then show ?thesis using cstr_at [of "take 99 nm" "[]"] assms(3) by (metis list.size(3) in_set_takeD)
  qed
  have size: "cstr h 124 = Some ?sz"
  proof -
    let ?pre = "map byte_of (take 99 nm) @ replicate (100 - length (take 99 nm)) 0 @ FILE_MODE @ ID_BYTE"
    have "h = ?pre @ map byte_of ?sz @ 0 # drop (length ?sz + 1) (replicate 12 0) @ replicate 12 0 @ ?c @ replicate 356 0"
      by (simp add: heq header_front_def size_field_def over_buf_def)
    moreover have "length ?pre = 124" by (simp add: FILE_MODE_def ID_BYTE_def)
    ultimately show ?thesis using cstr_at [OF oct_no_nul, of ?pre] by metis
  qed
  have chk: "cstr h 148 = Some (oct_digits ?S)"
    using cstr_at [OF oct_no_nul, of ?F ?S] by (simp add: heq c)
  have "tar_checksum h = ?S" by (simp add: heq tar_checksum_def c8 sum_list_replicate)
  with h name size chk c8 show ?thesis by (simp add: heq oct_value_digits)
qed

theorem tar_header_valid_witness:
  "\<exists>h. WriteHeader securec_ref True (replicate HEADER_NUM 0) (Some ''teeOS_log-0'') 512345 = Some h \<and> length h = HEADER_NUM \<and>
    cstr h 0 = Some (take 99 ''teeOS_log-0'') \<and>
    map_option oct_value (cstr h 124) = Some (unat (uint32_of 512345)) \<and>
    map_option oct_value (cstr h 148) = Some (tar_checksum h)"
  by (rule tar_header_valid [OF securec_ref_ok]) simp_all

end
