(* ===== verification/Tlog_Files.thy ===== *)
theory Tlog_Files
  imports Tlog_Zip
begin

text \<open>
  The private log files of the log reader (\<open>src/services/tlogcat/src/tlogcat.c\<close>): the table of open log
  files, one per UUID, their rotation when one is full, and the compression of the four files of a
  UUID when all are full.
\<close>

section \<open>Directories and names\<close>

text \<open>The position in \<open>temp\<close> after \<open>GetLogPathBasePos\<close>, which is at its start before the call.\<close>

definition GetLogPathBasePos :: "'w logos \<Rightarrow> string \<Rightarrow> 'w tlog \<Rightarrow> (int \<times> nat) \<times> 'w tlog" where
  "GetLogPathBasePos os temp s =
     (let (r, s) = lcall (px_access os TEE_LOG_PATH_BASE F_OK) s
      in if r \<noteq> 0 then ((- 1, 0), s)
         else ((0, if strncmp0 temp TEE_LOG_PATH_BASE (length TEE_LOG_PATH_BASE) then length TEE_LOG_PATH_BASE else 0), s))"

text \<open>The loop of \<open>LogFilesMkdirR\<close>: \<open>pre\<close> is the path before the position, \<open>rest\<close> from it on.\<close>

fun mkdir_r :: "'w logos \<Rightarrow> string \<Rightarrow> string \<Rightarrow> 'w tlog \<Rightarrow> int \<times> 'w tlog" where
  "mkdir_r os pre [] s = (0, s)"
| "mkdir_r os pre (c # rest) s =
     (if c = CHR ''/''
      then let (r, s) = lcall (px_mkdir os pre 0x1F8) s
           in if r < 0 \<and> lerrno os s = EEXIST then mkdir_r os (pre @ [c]) rest s
              else if r \<noteq> 0 then (- 1, s)
              else let (_, s) = lcall (px_chmod os pre 0x1E8) s in mkdir_r os (pre @ [c]) rest s
      else mkdir_r os (pre @ [c]) rest s)"

definition LogFilesMkdirR :: "'w logos \<Rightarrow> string \<Rightarrow> 'w tlog \<Rightarrow> (int \<times> 'w tlog) option" where
  "LogFilesMkdirR os path s =
     (let (temp, s) = lmalloc os (length path + 1) s
      in if temp = NULL then Some (- 1, s)
         else let ((r, pos), s) = GetLogPathBasePos os path s
         in if r \<noteq> 0 then do { s \<leftarrow> lfree temp s; Some (r, s) }
            else let (r, s) = mkdir_r os (take pos path) (drop pos path) s
                 in do { s \<leftarrow> lfree temp s; Some (r, s) })"

section \<open>Compression\<close>

text \<open>
  The first loop of \<open>TriggerCompress\<close> from index \<open>i\<close> on: whether every block was allocated, and the
  blocks with the names in them.
\<close>

fun compress_names ::
  "securec \<Rightarrow> 'w logos \<Rightarrow> string \<Rightarrow> bool \<Rightarrow> nat list \<Rightarrow> 'w tlog \<Rightarrow> (bool \<times> (addr \<times> string) list) \<times> 'w tlog" where
  "compress_names sc os uuidAscii isTa [] s = ((True, []), s)"
| "compress_names sc os uuidAscii isTa (i # is) s =
     (let (a, s) = lmalloc os FILE_NAME_MAX_BUF s
      in if a = NULL then ((False, []), s)
         else let (r, nm) = LogAssembleFilename sc FILE_NAME_MAX_BUF (g_teeTempPath s) uuidAscii isTa i;
                  s = (if r < 0 then s else snd (lcall (px_chmod os nm 0x1A0) s));
                  ((all, ns), s) = compress_names sc os uuidAscii isTa is s
              in ((all, (a, nm) # ns), s))"

fun unlink_names :: "'w logos \<Rightarrow> (addr \<times> string) list \<Rightarrow> 'w tlog \<Rightarrow> 'w tlog option" where
  "unlink_names os [] s = Some s"
| "unlink_names os ((a, nm) # ns) s = do {
     let (_, s) = lcall (px_unlink os nm) s;
     s \<leftarrow> lfree a s;
     unlink_names os ns s
   }"

definition TriggerCompress :: "securec \<Rightarrow> bool \<Rightarrow> 'w logos \<Rightarrow> 'w tlog \<Rightarrow> 'w tlog option" where
  "TriggerCompress sc sg os s =
     (let isTa = IsTaUuid (g_compressUuid s);
          uuidAscii = GetUuidStr sc (g_compressUuid s) UUID_MAX_STR_LEN;
          ((all, ns), s) = compress_names sc os uuidAscii isTa [0..<LOG_FILE_INDEX_MAX] s
      in do {
        s \<leftarrow> (if all then TarZipFiles sc sg os (map (Some \<circ> snd) ns) (g_compressFile s) (g_teePathGroup s) s else Some s);
        s \<leftarrow> unlink_names os ns s;
        let (_, s) = lcall (px_rmdir os (g_teeTempPath s)) s;
        Some s
      })"

text \<open>The loop of \<open>GetCompressFile\<close>: true if a free name was found; the name is left in \<open>g_logNameCompress\<close>.\<close>

fun compress_file_from :: "securec \<Rightarrow> 'w logos \<Rightarrow> bool \<Rightarrow> nat list \<Rightarrow> 'w tlog \<Rightarrow> bool \<times> 'w tlog" where
  "compress_file_from sc os isTa [] s = (False, s)"
| "compress_file_from sc os isTa (i # is) s =
     (let (rc, nm) = LogAssembleCompressFilename sc FILE_NAME_MAX_BUF (g_teePath s) (g_uuidAscii s) isTa i;
          s = s\<lparr>g_logNameCompress := nm\<rparr>
      in if rc < 0 then compress_file_from sc os isTa is s
         else let (r, s) = lcall (px_access os nm F_OK) s
              in if r \<noteq> 0 then (True, s) else compress_file_from sc os isTa is s)"

definition GetCompressFile :: "securec \<Rightarrow> 'w logos \<Rightarrow> u8 list \<Rightarrow> 'w tlog \<Rightarrow> bool \<times> 'w tlog" where
  "GetCompressFile sc os uuid s = compress_file_from sc os (IsTaUuid uuid) [0..<LOG_FILE_INDEX_MAX] s"

fun arrange_from :: "securec \<Rightarrow> 'w logos \<Rightarrow> bool \<Rightarrow> nat list \<Rightarrow> 'w tlog \<Rightarrow> 'w tlog" where
  "arrange_from sc os isTa [] s = s"
| "arrange_from sc os isTa (i # is) s =
     (let (rc, nm) = LogAssembleCompressFilename sc FILE_NAME_MAX_BUF (g_teePath s) (g_uuidAscii s) isTa i;
          s = s\<lparr>g_logNameCompress := nm\<rparr>
      in if rc < 0 then arrange_from sc os isTa is s
         else let (_, s) = lcall (px_rename os nm (g_logName s)) s;
                  (rc, cp) = memcpy_s sc FILE_NAME_MAX_BUF (g_logNameCompress s)
              in if rc \<noteq> 0 then s else arrange_from sc os isTa is (s\<lparr>g_logName := cp\<rparr>))"

definition ArrangeCompressFile :: "securec \<Rightarrow> 'w logos \<Rightarrow> u8 list \<Rightarrow> 'w tlog \<Rightarrow> 'w tlog" where
  "ArrangeCompressFile sc os uuid s =
     (let isTa = IsTaUuid uuid;
          (r, nm) = LogAssembleCompressFilename sc FILE_NAME_MAX_BUF (g_teePath s) (g_uuidAscii s) isTa 0;
          s = s\<lparr>g_logName := nm\<rparr>
      in if r < 0 then s
         else let (_, s) = lcall (px_unlink os nm) s in arrange_from sc os isTa [1..<LOG_FILE_INDEX_MAX] s)"

definition UnlinkTmpFile :: "'w logos \<Rightarrow> string \<Rightarrow> 'w tlog \<Rightarrow> 'w tlog" where
  "UnlinkTmpFile os name s =
     (let ((r, isdir), s) = lcall (px_lstat os name) s
      in if r < 0 \<or> isdir then s else snd (lcall (px_unlink os name) s))"

fun clear_entries :: "securec \<Rightarrow> 'w logos \<Rightarrow> string \<Rightarrow> string list \<Rightarrow> 'w tlog \<Rightarrow> 'w tlog" where
  "clear_entries sc os tmpPath [] s = s"
| "clear_entries sc os tmpPath (d # ds) s =
     (let s' = (if strncmp0 d ''..'' 3 \<or> strncmp0 d ''.'' 2 then s
                else let (r, nm) = snprintf_s sc FILE_NAME_MAX_BUF (FILE_NAME_MAX_BUF - 1) (tmpPath @ ''/'' @ d)
                     in if r = - 1 then s else UnlinkTmpFile os nm s)
      in clear_entries sc os tmpPath ds (s'\<lparr>lworld := px_readdir os (lworld s')\<rparr>))"

definition LogTmpDirClear :: "securec \<Rightarrow> 'w logos \<Rightarrow> string \<Rightarrow> 'w tlog \<Rightarrow> 'w tlog" where
  "LogTmpDirClear sc os tmpPath s =
     (let (dir, s) = lcall (px_opendir os tmpPath) s
      in case dir of
           None \<Rightarrow> s
         | Some entries \<Rightarrow>
             let s = clear_entries sc os tmpPath entries (s\<lparr>lworld := px_readdir os (lworld s)\<rparr>);
                 (_, s) = lcall (px_closedir os) s
             in snd (lcall (px_rmdir os tmpPath) s))"

definition MkdirTmpPath :: "securec \<Rightarrow> 'w logos \<Rightarrow> string \<Rightarrow> 'w tlog \<Rightarrow> int \<times> 'w tlog" where
  "MkdirTmpPath sc os tmpPath s =
     (let (r, s) = lcall (px_rmdir os tmpPath) s;
          s = (if r < 0 \<and> lerrno os s \<noteq> ENOENT then LogTmpDirClear sc os tmpPath s else s);
          (r, s) = lcall (px_mkdir os tmpPath 0x1E8) s
      in if r < 0 then (- 1, s) else (0, s))"

definition MoveFileToTmpPath :: "securec \<Rightarrow> 'w logos \<Rightarrow> bool \<Rightarrow> nat \<Rightarrow> 'w tlog \<Rightarrow> 'w tlog" where
  "MoveFileToTmpPath sc os isTa index s =
     (let (r, nm) = LogAssembleFilename sc FILE_NAME_MAX_BUF (g_teePath s) (g_uuidAscii s) isTa index;
          s = s\<lparr>g_logName := nm\<rparr>
      in if r < 0 then s
         else let (r, nm2) = LogAssembleFilename sc FILE_NAME_MAX_BUF (g_teeTempPath s) (g_uuidAscii s) isTa index;
                  s = s\<lparr>g_logNameCompress := nm2\<rparr>
         in if r < 0 then s
            else let (r, s) = lcall (px_rename os (g_logName s) (g_logNameCompress s)) s
                 in if r < 0 \<and> lerrno os s \<noteq> ENOENT then snd (lcall (px_unlink os (g_logName s)) s) else s)"

definition LogFilesCompress :: "securec \<Rightarrow> bool \<Rightarrow> 'w logos \<Rightarrow> u8 list \<Rightarrow> 'w tlog \<Rightarrow> 'w tlog option" where
  "LogFilesCompress sc sg os uuid s =
     (let isTa = IsTaUuid uuid;
          (rc, s) = MkdirTmpPath sc os (g_teeTempPath s) s
      in if rc \<noteq> 0 then Some s
         else let s = s\<lparr>g_uuidAscii := GetUuidStr sc uuid UUID_MAX_STR_LEN\<rparr>;
                  s = fold (MoveFileToTmpPath sc os isTa) (rev [0..<LOG_FILE_INDEX_MAX]) s;
                  (found, s) = GetCompressFile sc os uuid s;
                  s = (if found then s else ArrangeCompressFile sc os uuid s);
                  s = s\<lparr>g_compressFile := Some (g_logNameCompress s)\<rparr>;
                  (rc, u) = memcpy_s sc TEE_UUID_LEN (map chr_of uuid)
              in if rc \<noteq> 0 then Some s
                 else TriggerCompress sc sg os (s\<lparr>g_compressUuid := map byte_of u\<rparr>))"

section \<open>The table of log files\<close>

definition LogFileFull :: "securec \<Rightarrow> 'w logos \<Rightarrow> nat \<Rightarrow> 'w tlog \<Rightarrow> 'w tlog option" where
  "LogFileFull sc os fileNum s = do {
     f \<leftarrow> arr_get (g_files s) fileNum;
     if unat (lf_fileIndex f) \<ge> LOG_FILE_INDEX_MAX then Some s
     else let isTa = IsTaUuid (lf_uuid f);
              uuidAscii = GetUuidStr sc (lf_uuid f) UUID_MAX_STR_LEN;
              (rc, logName) = LogAssembleFilename sc FILE_NAME_MAX_BUF (g_teePath s) uuidAscii isTa 0
          in if rc < 0 then Some s
             else let (rc, logName2) =
                        LogAssembleFilename sc FILE_NAME_MAX_BUF (g_teePath s) uuidAscii isTa (unat (lf_fileIndex f + 1))
             in if rc < 0 then Some s
                else let (_, s) = lcall (px_rename os logName logName2) s;
                         (_, s) = lcall (px_chmod os logName2 0x120) s
                     in Some s
   }"

text \<open>What happens to a full file: one of the four files is full, or all of them are.\<close>

definition rotate_file :: "securec \<Rightarrow> bool \<Rightarrow> 'w logos \<Rightarrow> nat \<Rightarrow> LogFile \<Rightarrow> 'w tlog \<Rightarrow> 'w tlog option" where
  "rotate_file sc sg os i f s =
     (if unat (lf_fileIndex f) \<ge> LOG_FILE_INDEX_MAX - 1 then LogFilesCompress sc sg os (lf_uuid f) s
      else LogFileFull sc os i s)"

definition clear_slot :: "nat \<Rightarrow> 'w tlog \<Rightarrow> 'w tlog option" where
  "clear_slot i s = do { fs \<leftarrow> arr_set (g_files s) i empty_slot; Some (s\<lparr>g_files := fs\<rparr>) }"

definition LogFilesChecklimit :: "securec \<Rightarrow> bool \<Rightarrow> 'w logos \<Rightarrow> nat \<Rightarrow> 'w tlog \<Rightarrow> (int \<times> 'w tlog) option" where
  "LogFilesChecklimit sc sg os fileNum s = do {
     f \<leftarrow> arr_get (g_files s) fileNum;
     if lf_fileLen f \<ge> LOG_FILE_LIMIT
     then do {
       s \<leftarrow> lfclose os (lf_file f) s;
       s \<leftarrow> rotate_file sc sg os fileNum f s;
       s \<leftarrow> clear_slot fileNum s;
       Some (- 1, s)
     }
     else Some (0, s)
   }"

text \<open>The loop of \<open>GetUsableFile\<close> over the slots: the slot found.\<close>

fun usable_from :: "securec \<Rightarrow> bool \<Rightarrow> 'w logos \<Rightarrow> u8 list \<Rightarrow> nat list \<Rightarrow> 'w tlog \<Rightarrow> (nat option \<times> 'w tlog) option" where
  "usable_from sc sg os uuid [] s = Some (None, s)"
| "usable_from sc sg os uuid (i # is) s = do {
     f \<leftarrow> arr_get (g_files s) i;
     if lf_uuid f \<noteq> uuid then usable_from sc sg os uuid is s
     else if lf_valid f \<noteq> FILE_VALID then usable_from sc sg os uuid is s
     else if lf_file f = NULL then do { s \<leftarrow> clear_slot i s; usable_from sc sg os uuid is s }
     else do {
       (r, s) \<leftarrow> LogFilesChecklimit sc sg os i s;
       if r \<noteq> 0 then usable_from sc sg os uuid is s else Some (Some i, s)
     }
   }"

definition GetUsableFile :: "securec \<Rightarrow> bool \<Rightarrow> 'w logos \<Rightarrow> u8 list \<Rightarrow> 'w tlog \<Rightarrow> (nat option \<times> 'w tlog) option" where
  "GetUsableFile sc sg os uuid s = usable_from sc sg os uuid [0..<LOG_FILES_MAX] s"

text \<open>The loop of \<open>LogFilesAdd\<close>; \<open>None\<close> in the result is the null pointer, after the stream was closed.\<close>

fun add_from ::
  "securec \<Rightarrow> 'w logos \<Rightarrow> u8 list \<Rightarrow> string \<Rightarrow> addr \<Rightarrow> int \<Rightarrow> u32 \<Rightarrow> nat list \<Rightarrow> 'w tlog \<Rightarrow> (nat option \<times> 'w tlog) option" where
  "add_from sc os uuid logName file fileLen index [] s = do { s \<leftarrow> lfclose os file s; Some (None, s) }"
| "add_from sc os uuid logName file fileLen index (i # is) s = do {
     f \<leftarrow> arr_get (g_files s) i;
     if lf_file f \<noteq> NULL \<or> lf_valid f = FILE_VALID then add_from sc os uuid logName file fileLen index is s
     else let (rc, nm) = memcpy_s sc FILE_NAME_MAX_BUF (logName @ [CHR 0x00])
          in if rc \<noteq> 0 then do { s \<leftarrow> lfclose os file s; Some (None, s) }
             else let (rc, u) = memcpy_s sc TEE_UUID_LEN (map chr_of uuid)
                  in if rc \<noteq> 0
                     then do {
                       fs \<leftarrow> arr_set (g_files s) i (f\<lparr>lf_logName := butlast nm\<rparr>);
                       s \<leftarrow> lfclose os file (s\<lparr>g_files := fs\<rparr>);
                       Some (None, s)
                     }
                     else do {
                       fs \<leftarrow> arr_set (g_files s) i
                         \<lparr>lf_file = file, lf_uuid = map byte_of u, lf_fileLen = fileLen, lf_fileIndex = index,
                          lf_valid = FILE_VALID, lf_logName = butlast nm\<rparr>;
                       Some (Some i, s\<lparr>g_files := fs\<rparr>)
                     }
   }"

definition LogFilesAdd ::
  "securec \<Rightarrow> 'w logos \<Rightarrow> u8 list \<Rightarrow> string \<Rightarrow> addr \<Rightarrow> int \<Rightarrow> u32 \<Rightarrow> 'w tlog \<Rightarrow> (nat option \<times> 'w tlog) option" where
  "LogFilesAdd sc os uuid logName file fileLen index s =
     add_from sc os uuid logName file fileLen index [0..<LOG_FILES_MAX] s"

definition CloseFileFd :: "'w logos \<Rightarrow> int \<Rightarrow> 'w tlog \<Rightarrow> 'w tlog option" where
  "CloseFileFd os fd s = (if fd < 0 then Some s else lclose os fd s)"

text \<open>The stream that \<open>LogFilesOpen\<close> returns and the length of the file.\<close>

definition LogFilesOpen :: "'w logos \<Rightarrow> string \<Rightarrow> 'w tlog \<Rightarrow> ((addr \<times> int) \<times> 'w tlog) option" where
  "LogFilesOpen os logName s =
     (let (r, s) = lcall (px_access os logName F_OK) s;
          (r, s) = (if r = 0 then lcall (px_chmod os logName 0x1A0) s else (0, s))
      in if r \<noteq> 0 then Some ((NULL, 0), s)
         else let (fd1, s) = lopen os logName True 0 s;
                  isNewFile = (fd1 < 0);
                  (file, s) = (if isNewFile then lfopen os logName ''a+'' s else lfdopen os fd1 s)
         in if file = NULL then do { s \<leftarrow> CloseFileFd os fd1 s; Some ((NULL, 0), s) }
            else do {
              fd2 \<leftarrow> lstreams s file;
              if fd2 < 0 then do { s \<leftarrow> lfclose os file s; Some ((NULL, 0), s) }
              else do {
                let (_, s) = lcall (lo_fchmod os fd2 0x1A0) s;
                (_, s) \<leftarrow> on_lstream file (px_fseek os file 0 whence_END) s;
                (fileLen, s) \<leftarrow> on_lstream file (px_ftell os file) s;
                s \<leftarrow> (if isNewFile
                      then do { (_, s) \<leftarrow> on_lstream file (px_fwrite os file (map byte_of (g_teeVersion s))) s; Some s }
                      else Some s);
                Some ((file, fileLen), s)
              }
            })"

text \<open>The loop of \<open>GetFileIndex\<close>: the highest index whose file exists, or 0.\<close>

fun file_index_from :: "securec \<Rightarrow> 'w logos \<Rightarrow> string \<Rightarrow> bool \<Rightarrow> nat list \<Rightarrow> nat \<Rightarrow> 'w tlog \<Rightarrow> nat \<times> 'w tlog" where
  "file_index_from sc os uuidAscii isTa [] k s = (k, s)"
| "file_index_from sc os uuidAscii isTa (i # is) k s =
     (let (r, nm) = LogAssembleFilename sc FILE_NAME_MAX_BUF (g_teePath s) uuidAscii isTa i
      in if r < 0 then file_index_from sc os uuidAscii isTa is i s
         else let (r, s) = lcall (px_access os nm F_OK) s
              in if r = 0 then (i, s) else file_index_from sc os uuidAscii isTa is i s)"

definition GetFileIndex :: "securec \<Rightarrow> 'w logos \<Rightarrow> string \<Rightarrow> bool \<Rightarrow> 'w tlog \<Rightarrow> nat \<times> 'w tlog" where
  "GetFileIndex sc os uuidAscii isTa s = file_index_from sc os uuidAscii isTa (rev [0..<LOG_FILE_INDEX_MAX]) 0 s"

definition LogFilesGet :: "securec \<Rightarrow> bool \<Rightarrow> 'w logos \<Rightarrow> u8 list \<Rightarrow> bool \<Rightarrow> 'w tlog \<Rightarrow> (nat option \<times> 'w tlog) option" where
  "LogFilesGet sc sg os uuid isTa s = do {
     (slot, s) \<leftarrow> GetUsableFile sc sg os uuid s;
     if slot \<noteq> None then Some (slot, s)
     else do {
       (r, s) \<leftarrow> LogFilesMkdirR os (g_teePath s) s;
       if r \<noteq> 0 then Some (None, s)
       else let uuidAscii = GetUuidStr sc uuid UUID_MAX_STR_LEN;
                (fileIndex, s) = GetFileIndex sc os uuidAscii isTa s;
                (rc, logName) = LogAssembleFilename sc FILE_NAME_MAX_BUF (g_teePath s) uuidAscii isTa 0
            in if rc < 0 then Some (None, s)
               else do {
                 ((file, fileLen), s) \<leftarrow> LogFilesOpen os logName s;
                 if file = NULL then Some (None, s)
                 else LogFilesAdd sc os uuid logName file fileLen (of_nat fileIndex) s
               }
     }
   }"

fun close_from :: "securec \<Rightarrow> bool \<Rightarrow> 'w logos \<Rightarrow> nat list \<Rightarrow> 'w tlog \<Rightarrow> 'w tlog option" where
  "close_from sc sg os [] s = Some s"
| "close_from sc sg os (i # is) s = do {
     f \<leftarrow> arr_get (g_files s) i;
     if lf_file f = NULL then close_from sc sg os is s
     else do {
       (_, s) \<leftarrow> on_lstream (lf_file f) (px_fflush os (lf_file f)) s;
       s \<leftarrow> lfclose os (lf_file f) s;
       s \<leftarrow> (if lf_fileLen f \<ge> LOG_FILE_LIMIT then rotate_file sc sg os i f s else Some s);
       let (_, s) = lcall (px_chmod os (lf_logName f) 0x120) s;
       s \<leftarrow> clear_slot i s;
       close_from sc sg os is s
     }
   }"

definition LogFilesClose :: "securec \<Rightarrow> bool \<Rightarrow> 'w logos \<Rightarrow> 'w tlog \<Rightarrow> 'w tlog option" where
  "LogFilesClose sc sg os s =
     (if g_files s = [] then Some s else close_from sc sg os [0..<LOG_FILES_MAX] s)"

text \<open>\<open>WritePrivateLogFile\<close> for an item with this UUID and the first \<open>logRealLen\<close> bytes of its text.\<close>

definition WritePrivateLogFile :: "securec \<Rightarrow> bool \<Rightarrow> 'w logos \<Rightarrow> u8 list \<Rightarrow> u8 list \<Rightarrow> bool \<Rightarrow> 'w tlog \<Rightarrow> 'w tlog option" where
  "WritePrivateLogFile sc sg os uuid real isTa s = do {
     (slot, s) \<leftarrow> LogFilesGet sc sg os uuid isTa s;
     case slot of
       None \<Rightarrow> Some s
     | Some i \<Rightarrow> do {
         f \<leftarrow> arr_get (g_files s) i;
         if lf_file f = NULL then Some s
         else do {
           (writeNum, s) \<leftarrow> on_lstream (lf_file f) (px_fwrite os (lf_file f) real) s;
           s \<leftarrow> (if writeNum \<noteq> length real
                 then do { s \<leftarrow> lfclose os (lf_file f) s; clear_slot i s }
                 else Some s);
           f \<leftarrow> arr_get (g_files s) i;
           fs \<leftarrow> arr_set (g_files s) i (f\<lparr>lf_fileLen := lf_fileLen f + int writeNum\<rparr>);
           Some (s\<lparr>g_files := fs\<rparr>)
         }
       }
   }"

end
