(* ===== verification/Tlog_Table.thy ===== *)
theory Tlog_Table
  imports Tlog_Files
begin

section \<open>What rotation keeps\<close>

text \<open>Everything but the buffers for names, the parameters of the compression and the world.\<close>

definition lcore where
  "lcore s = (g_files s, g_teePath s, g_teeTempPath s, g_teePathGroup s, g_teeVersion s, g_logBuffer s, g_logItemBuffer s,
     g_devFd s, g_readposCur s, tags s, tag_links s, lmem s, lstreams s, lfds s, lgz s, stdout s)"

definition lkeep :: "'w tlog \<Rightarrow> 'w tlog \<Rightarrow> bool" where
  "lkeep s s' \<longleftrightarrow> lcore s' = lcore s"

lemma lkeep_refl [simp]: "lkeep s s"
  by (simp add: lkeep_def)

lemma lkeep_trans [trans]: "lkeep s s' \<Longrightarrow> lkeep s' s'' \<Longrightarrow> lkeep s s''"
  by (simp add: lkeep_def)

lemma lkeep_upd [simp]:
  "lkeep s (s'\<lparr>g_uuidAscii := a\<rparr>) = lkeep s s'" "lkeep s (s'\<lparr>g_logName := a\<rparr>) = lkeep s s'"
  "lkeep s (s'\<lparr>g_logNameCompress := a\<rparr>) = lkeep s s'" "lkeep s (s'\<lparr>g_compressFile := d\<rparr>) = lkeep s s'"
  "lkeep s (s'\<lparr>g_compressUuid := e\<rparr>) = lkeep s s'" "lkeep s (s'\<lparr>lworld := w\<rparr>) = lkeep s s'"
  by (simp_all add: lkeep_def lcore_def)

lemma lkeep_upd2 [simp]:
  "lkeep (s\<lparr>g_uuidAscii := a\<rparr>) s' = lkeep s s'" "lkeep (s\<lparr>g_logName := a\<rparr>) s' = lkeep s s'"
  "lkeep (s\<lparr>g_logNameCompress := a\<rparr>) s' = lkeep s s'" "lkeep (s\<lparr>g_compressFile := d\<rparr>) s' = lkeep s s'"
  "lkeep (s\<lparr>g_compressUuid := e\<rparr>) s' = lkeep s s'" "lkeep (s\<lparr>lworld := w\<rparr>) s' = lkeep s s'"
  by (simp_all add: lkeep_def lcore_def)

lemma lsame_keep: "lsame s s' \<Longrightarrow> lkeep s s'"
  by (auto simp: lsame_def)

lemma lkeep_fields:
  assumes "lkeep s s'"
  shows "g_files s' = g_files s" "lmem s' = lmem s" "lstreams s' = lstreams s" "lfds s' = lfds s" "lgz s' = lgz s"
    "g_teePath s' = g_teePath s" "g_teeTempPath s' = g_teeTempPath s" "g_logBuffer s' = g_logBuffer s"
  using assms by (simp_all add: lkeep_def lcore_def)

lemma lkeep_used: "lkeep s s' \<Longrightarrow> lused_mem s' = lused_mem s" "lkeep s s' \<Longrightarrow> lused_fd s' = lused_fd s"
  by (rule ext, simp add: lkeep_def lcore_def lused_mem_def lused_fd_def)+

lemma MoveFileToTmpPath_keep: "lkeep s (MoveFileToTmpPath sc os isTa i s)"
  by (simp add: MoveFileToTmpPath_def Let_def case_prod_beta lcall_pair)

lemma fold_move_keep: "lkeep s (fold (MoveFileToTmpPath sc os isTa) is s)"
  by (induction "is" arbitrary: s) (auto intro: lkeep_trans MoveFileToTmpPath_keep)

lemma compress_file_keep: "lkeep s (snd (compress_file_from sc os isTa is s))"
proof (induction "is" arbitrary: s)
  case (Cons i "is")
  have IH: "lkeep s (snd (compress_file_from sc os isTa is s'))" if "lkeep s s'" for s'
    using lkeep_trans [OF that Cons] .
  show ?case by (simp add: Let_def case_prod_beta lcall_pair IH)
qed simp

lemma arrange_keep: "lkeep s (arrange_from sc os isTa is s)"
proof (induction "is" arbitrary: s)
  case (Cons i "is")
  have IH: "lkeep s (arrange_from sc os isTa is s')" if "lkeep s s'" for s'
    using lkeep_trans [OF that Cons] .
  show ?case by (simp add: Let_def case_prod_beta lcall_pair IH)
qed simp

lemma ArrangeCompressFile_keep: "lkeep s (ArrangeCompressFile sc os uuid s)"
proof -
  have "lkeep s (arrange_from sc os isTa is (s\<lparr>g_logName := n, lworld := w\<rparr>))" for isTa "is" n w
    using arrange_keep [of "s\<lparr>g_logName := n, lworld := w\<rparr>"] by simp
  then show ?thesis by (simp add: ArrangeCompressFile_def Let_def case_prod_beta lcall_pair)
qed

lemma UnlinkTmpFile_keep: "lkeep s (UnlinkTmpFile os nm s)"
  by (simp add: UnlinkTmpFile_def Let_def case_prod_beta lcall_pair)

lemma clear_entries_keep: "lkeep s (clear_entries sc os p ds s)"
proof (induction ds arbitrary: s)
  case (Cons d ds)
  have *: "lkeep s (clear_entries sc os p ds (s'\<lparr>lworld := w\<rparr>))" if "lkeep s s'" for s' w
    using lkeep_trans [OF that] Cons [of "s'\<lparr>lworld := w\<rparr>"] by simp
  show ?case by (simp add: Let_def case_prod_beta * UnlinkTmpFile_keep)
qed simp

lemma LogTmpDirClear_keep: "lkeep s (LogTmpDirClear sc os p s)"
proof -
  have "lkeep s (clear_entries sc os p ds (s\<lparr>lworld := w\<rparr>))" for ds w
    using clear_entries_keep [of "s\<lparr>lworld := w\<rparr>"] by simp
  then show ?thesis by (simp add: LogTmpDirClear_def Let_def case_prod_beta lcall_pair split: option.split)
qed

lemma MkdirTmpPath_keep: "MkdirTmpPath sc os p s = (r, s') \<Longrightarrow> lkeep s s'"
proof -
  have "lkeep s (LogTmpDirClear sc os p (s\<lparr>lworld := w\<rparr>))" for w
    using LogTmpDirClear_keep [of "s\<lparr>lworld := w\<rparr>"] by simp
  then show "MkdirTmpPath sc os p s = (r, s') \<Longrightarrow> lkeep s s'"
    by (auto simp: MkdirTmpPath_def Let_def case_prod_beta lcall_pair split: if_splits)
qed

lemma mkdir_r_keep: "lkeep s (snd (mkdir_r os pre rest s))"
proof (induction rest arbitrary: pre s)
  case (Cons c rest)
  have IH: "lkeep s (snd (mkdir_r os pre rest s'))" if "lkeep s s'" for pre s'
    using lkeep_trans [OF that Cons] .
  show ?case by (simp add: Let_def case_prod_beta lcall_pair IH)
qed simp

lemma file_index_keep: "lkeep s (snd (file_index_from sc os a isTa is k s))"
proof (induction "is" arbitrary: k s)
  case (Cons i "is")
  have IH: "lkeep s (snd (file_index_from sc os a isTa is k s'))" if "lkeep s s'" for k s'
    using lkeep_trans [OF that Cons] .
  show ?case by (simp add: Let_def case_prod_beta lcall_pair IH)
qed simp

lemma file_index_bound: "(\<And>i. i \<in> set is \<Longrightarrow> i < n) \<Longrightarrow> k < n \<Longrightarrow> fst (file_index_from sc os a isTa is k s) < n"
  by (induction "is" arbitrary: k s) (auto simp: Let_def case_prod_beta lcall_pair)

lemma LogFileFull_ok: "i < length (g_files s) \<Longrightarrow> ok (LogFileFull sc os i s) (lkeep s)"
  by (simp add: LogFileFull_def Let_def case_prod_beta lcall_pair)

lemma lmalloc_cases:
  assumes "handles_ok os"
  obtains w where "lmalloc os n s = (NULL, s\<lparr>lworld := w\<rparr>)"
  | a w where "a \<noteq> NULL" "\<not> lused_mem s a" "lmalloc os n s = (a, s\<lparr>lmem := insert a (lmem s), lworld := w\<rparr>)"
proof -
  let ?c = "px_malloc os (lused_mem s) n (lworld s)"
  obtain a w where c: "?c = (a, w)" by (metis surj_pair)
  from assms have "\<forall>used n w. fst (px_malloc os used n w) = NULL \<or> \<not> used (fst (px_malloc os used n w))"
    by (simp add: handles_ok_def fresh_ok_def)
  then have "fst ?c = NULL \<or> \<not> lused_mem s (fst ?c)" by blast
  then have "a = NULL \<or> \<not> lused_mem s a" by (auto simp: c)
  then show ?thesis
  proof (cases "a = NULL")
    case True
    then show ?thesis by (intro that(1) [of w]) (simp add: lmalloc_def lcall_def c)
  next
    case False
    with \<open>a = NULL \<or> \<not> lused_mem s a\<close> show ?thesis
      by (intro that(2) [of a w]) (simp_all add: lmalloc_def lcall_def c)
  qed
qed


lemma lkeep_mem:
  "lkeep (s\<lparr>lmem := M\<rparr>) s' \<Longrightarrow> lmem s' = M"
  "lkeep s s' \<Longrightarrow> lkeep (s\<lparr>lmem := M\<rparr>) (s'\<lparr>lmem := M\<rparr>)"
  by (simp_all add: lkeep_def lcore_def)

lemma compress_names_spec:
  assumes "handles_ok os"
  shows "compress_names sc os a isTa is s = ((all, ns), s') \<Longrightarrow>
    lkeep (s\<lparr>lmem := lmem s \<union> fst ` set ns\<rparr>) s' \<and> distinct (map fst ns) \<and> fst ` set ns \<inter> lmem s = {}"
proof (induction "is" arbitrary: s all ns s')
  case (Cons i "is")
  from assms show ?case
  proof (cases rule: lmalloc_cases [where s = s and n = 256])
    case (1 w)
    with Cons.prems show ?thesis by auto
  next
    case (2 b w)
    let ?s = "s\<lparr>lmem := insert b (lmem s), lworld := w\<rparr>"
    obtain r nm where nm: "LogAssembleFilename sc 256 (g_teeTempPath s) a isTa i = (r, nm)" by (metis surj_pair)
    define w' where "w' = (if r < 0 then w else snd (px_chmod os nm 0x1A0 w))"
    obtain all' ns' s2 where rest: "compress_names sc os a isTa is (s\<lparr>lmem := insert b (lmem s), lworld := w'\<rparr>) = ((all', ns'), s2)"
      by (metis surj_pair)
    have "((all, ns), s') = ((all', (b, nm) # ns'), s2)"
      using Cons.prems 2 rest by (cases "r < 0") (simp_all add: nm lcall_pair w'_def)
    then have ns: "ns = (b, nm) # ns'" and s2: "s2 = s'" by simp_all
    have IH: "lkeep (s\<lparr>lmem := insert b (lmem s) \<union> fst ` set ns'\<rparr>) s'" "distinct (map fst ns')"
      "fst ` set ns' \<inter> insert b (lmem s) = {}"
      using Cons.IH [OF rest] by (simp_all add: s2)
    moreover have "b \<notin> lmem s" using 2(2) by (simp add: lused_mem_def)
    ultimately show ?thesis by (auto simp: ns)
  qed
qed simp

lemma unlink_names_ok:
  "distinct (map fst ns) \<Longrightarrow> fst ` set ns \<subseteq> lmem s \<Longrightarrow>
    ok (unlink_names os ns s) (\<lambda>s'. lkeep (s\<lparr>lmem := lmem s - fst ` set ns\<rparr>) s')"
proof (induction ns arbitrary: s)
  case (Cons n ns)
  obtain a nm where n: "n = (a, nm)" by (cases n)
  obtain r w where c: "lcall (px_unlink os nm) s = (r, s\<lparr>lworld := w\<rparr>)" by (rule lcallE)
  let ?s = "s\<lparr>lmem := lmem s - {a}, lworld := w\<rparr>"
  have "ok (unlink_names os ns ?s) (\<lambda>s'. lkeep (?s\<lparr>lmem := lmem ?s - fst ` set ns\<rparr>) s')"
    using Cons.prems by (intro Cons.IH) (auto simp: n)
  moreover have "lmem s - {a} - fst ` set ns = lmem s - insert a (fst ` set ns)" by auto
  ultimately show ?case using Cons.prems c by (simp add: n lfree_def)
qed simp

lemma TriggerCompress_ok:
  assumes "securec_ok sc" "handles_ok os"
  shows "ok (TriggerCompress sc sg os s) (lkeep s)"
proof -
  let ?a = "GetUuidStr sc (g_compressUuid s) 40" and ?t = "IsTaUuid (g_compressUuid s)"
  obtain all ns s1 where c: "compress_names sc os ?a ?t [0..<4] s = ((all, ns), s1)" by (metis surj_pair)
  note sp = compress_names_spec [OF assms(2) c]
  have "ok (if all then TarZipFiles sc sg os (map (Some \<circ> snd) ns) (g_compressFile s1) (g_teePathGroup s1) s1 else Some s1) (lsame s1)"
    by (simp add: TarZipFiles_ok [OF assms])
  then obtain w where z: "(if all then TarZipFiles sc sg os (map (Some \<circ> snd) ns) (g_compressFile s1) (g_teePathGroup s1) s1 else Some s1)
      = Some (s1\<lparr>lworld := w\<rparr>)" by (rule ok_lsame_stateE)
  have mem: "lmem s1 = lmem s \<union> fst ` set ns" using sp lkeep_mem(1) by blast
  then have "ok (unlink_names os ns (s1\<lparr>lworld := w\<rparr>)) (\<lambda>s'. lkeep (s1\<lparr>lworld := w, lmem := lmem s1 - fst ` set ns\<rparr>) s')"
    using unlink_names_ok [of ns "s1\<lparr>lworld := w\<rparr>" os] sp by simp
  moreover have "lkeep s (s1\<lparr>lmem := lmem s1 - fst ` set ns\<rparr>)"
  proof -
    have "lmem s1 - fst ` set ns = lmem s" using mem sp by auto
    moreover have "lkeep (s\<lparr>lmem := lmem s\<rparr>) (s1\<lparr>lmem := lmem s\<rparr>)"
      using lkeep_mem(2) [of "s\<lparr>lmem := lmem s \<union> fst ` set ns\<rparr>" s1 "lmem s"] sp by simp
    ultimately show ?thesis by simp
  qed
  ultimately have "ok (unlink_names os ns (s1\<lparr>lworld := w\<rparr>)) (lkeep s)"
    by (elim ok_mono) (auto intro: lkeep_trans)
  then show ?thesis using c z by (auto simp: TriggerCompress_def ok_iff lcall_pair)
qed

lemma LogFilesCompress_ok:
  assumes "securec_ok sc" "handles_ok os"
  shows "ok (LogFilesCompress sc sg os u s) (lkeep s)"
proof -
  obtain rc s1 where m: "MkdirTmpPath sc os (g_teeTempPath s) s = (rc, s1)" by (metis surj_pair)
  note k1 = MkdirTmpPath_keep [OF m]
  let ?s2 = "fold (MoveFileToTmpPath sc os (IsTaUuid u)) (rev [0..<4]) (s1\<lparr>g_uuidAscii := GetUuidStr sc u 40\<rparr>)"
  obtain f s3 where g: "GetCompressFile sc os u ?s2 = (f, s3)" by (metis surj_pair)
  have "lkeep s1 ?s2"
    using fold_move_keep [of "s1\<lparr>g_uuidAscii := GetUuidStr sc u 40\<rparr>" sc os "IsTaUuid u" "rev [0..<4]"] by (simp only: lkeep_upd2)
  moreover have "lkeep ?s2 s3"
    using compress_file_keep [of ?s2 sc os "IsTaUuid u" "[0..<4]"] by (simp only: GetCompressFile_def [symmetric] g snd_conv)
  ultimately have k3: "lkeep s s3" by (rule lkeep_trans [OF k1 lkeep_trans])
  let ?s4 = "if f then s3 else ArrangeCompressFile sc os u s3"
  have k4: "lkeep s ?s4" by (simp add: k3 lkeep_trans [OF k3 ArrangeCompressFile_keep])
  have "ok (TriggerCompress sc sg os (?s4\<lparr>g_compressFile := c, g_compressUuid := e\<rparr>)) (lkeep s)" for c e
    using TriggerCompress_ok [OF assms, of sg "?s4\<lparr>g_compressFile := c, g_compressUuid := e\<rparr>"] k4
    by (elim ok_mono) (simp add: lkeep_trans)
  then show ?thesis using k1 k4 m g
    by (cases f) (simp_all add: LogFilesCompress_def Let_def case_prod_beta del: upt_rec_numeral)
qed

lemma rotate_file_ok:
  assumes "securec_ok sc" "handles_ok os" "i < length (g_files s)"
  shows "ok (rotate_file sc sg os i f s) (lkeep s)"
  by (simp add: rotate_file_def LogFilesCompress_ok [OF assms(1,2)] LogFileFull_ok [OF assms(3)])

lemma LogFilesMkdirR_ok:
  assumes "handles_ok os"
  shows "ok (LogFilesMkdirR os p s) (\<lambda>(r, s'). lkeep s s')"
  using assms
proof (cases rule: lmalloc_cases [where s = s and n = "length p + 1"])
  case (1 w)
  then show ?thesis by (simp add: LogFilesMkdirR_def)
next
  case (2 a w)
  let ?s = "s\<lparr>lmem := insert a (lmem s)\<rparr>"
  have fr: "lkeep s (s'\<lparr>lmem := lmem s' - {a}\<rparr>) \<and> a \<in> lmem s'" if "lkeep ?s s'" for s'
  proof -
    have "a \<notin> lmem s" using 2(2) by (simp add: lused_mem_def)
    then have "lmem s' - {a} = lmem s" "a \<in> lmem s'" using lkeep_mem(1) [OF that] by auto
    moreover have "lkeep (s\<lparr>lmem := lmem s\<rparr>) (s'\<lparr>lmem := lmem s\<rparr>)"
      using lkeep_mem(2) [OF that, of "lmem s"] by simp
    ultimately show ?thesis by simp
  qed
  have "lkeep ?s (snd (mkdir_r os pre rest (?s\<lparr>lworld := w\<rparr>)))" for pre rest w
    using mkdir_r_keep [of "?s\<lparr>lworld := w\<rparr>" os pre rest] by simp
  note fr [OF this]
  moreover have "lkeep s (s\<lparr>lmem := insert a (lmem s) - {a}\<rparr>)" using fr [of ?s] by simp
  ultimately show ?thesis using 2 by (simp add: LogFilesMkdirR_def GetLogPathBasePos_def Let_def case_prod_beta lcall_pair lfree_def)
qed


section \<open>The table and the open streams\<close>

text \<open>
  A slot is in use exactly if it has a stream; the streams of the slots are open, no other stream is
  open, and two slots in use have different streams and different UUIDs.
\<close>

definition slot_free :: "LogFile \<Rightarrow> bool" where
  "slot_free f \<longleftrightarrow> lf_file f = NULL \<and> lf_valid f \<noteq> FILE_VALID \<and> unat (lf_fileIndex f) < LOG_FILE_INDEX_MAX"

definition slot_used :: "LogFile \<Rightarrow> bool" where
  "slot_used f \<longleftrightarrow> lf_file f \<noteq> NULL \<and> lf_valid f = FILE_VALID \<and> unat (lf_fileIndex f) < LOG_FILE_INDEX_MAX"

definition tab_ok :: "LogFile list \<Rightarrow> (addr \<rightharpoonup> int) \<Rightarrow> bool" where
  "tab_ok fs st \<longleftrightarrow> length fs = LOG_FILES_MAX \<and>
     (\<forall>i<LOG_FILES_MAX. slot_free (fs ! i) \<or> slot_used (fs ! i) \<and> st (lf_file (fs ! i)) \<noteq> None) \<and>
     (\<forall>a. st a \<noteq> None \<longrightarrow> a \<noteq> NULL \<and> (\<exists>i<LOG_FILES_MAX. lf_file (fs ! i) = a)) \<and>
     (\<forall>i<LOG_FILES_MAX. \<forall>j<LOG_FILES_MAX. slot_used (fs ! i) \<longrightarrow> slot_used (fs ! j) \<longrightarrow>
        lf_file (fs ! i) = lf_file (fs ! j) \<or> lf_uuid (fs ! i) = lf_uuid (fs ! j) \<longrightarrow> i = j)"

definition tabs :: "'w tlog \<Rightarrow> bool" where
  "tabs s \<longleftrightarrow> tab_ok (g_files s) (lstreams s)"

lemma slot_free_empty [simp]: "slot_free empty_slot" "slot_free (empty_slot\<lparr>lf_fileLen := n\<rparr>)"
  by (simp_all add: slot_free_def empty_slot_def)

lemma lf_file_empty [simp]: "lf_file empty_slot = NULL"
  by (simp add: empty_slot_def)

lemma slot_used_free: "slot_free f \<Longrightarrow> \<not> slot_used f"
  by (simp add: slot_free_def slot_used_def)

lemma slot_len [simp]:
  "slot_used (f\<lparr>lf_fileLen := n\<rparr>) = slot_used f" "slot_free (f\<lparr>lf_fileLen := n\<rparr>) = slot_free f"
  "slot_used (f\<lparr>lf_logName := m\<rparr>) = slot_used f" "slot_free (f\<lparr>lf_logName := m\<rparr>) = slot_free f"
  by (simp_all add: slot_used_def slot_free_def)

lemma tab_slot:
  assumes "tab_ok fs st" "i < LOG_FILES_MAX"
  shows "slot_free (fs ! i) \<or> slot_used (fs ! i) \<and> st (lf_file (fs ! i)) \<noteq> None" "i < length fs"
  using assms by (simp_all add: tab_ok_def)

lemma tab_owner:
  assumes "tab_ok fs st" "st a \<noteq> None"
  obtains i where "i < LOG_FILES_MAX" "lf_file (fs ! i) = a" "slot_used (fs ! i)"
  using assms unfolding tab_ok_def slot_free_def by metis

lemma tab_inj:
  assumes "tab_ok fs st" "i < LOG_FILES_MAX" "j < LOG_FILES_MAX" "slot_used (fs ! i)" "slot_used (fs ! j)"
    and "lf_file (fs ! i) = lf_file (fs ! j) \<or> lf_uuid (fs ! i) = lf_uuid (fs ! j)"
  shows "i = j"
  using assms unfolding tab_ok_def by blast

lemma tab_close:
  assumes t: "tab_ok fs st" and i: "i < LOG_FILES_MAX" and u: "slot_used (fs ! i)" and v: "slot_free v"
  shows "tab_ok (fs[i := v]) (st(lf_file (fs ! i) := None))"
  unfolding tab_ok_def
proof (intro conjI allI impI)
  have len: "length fs = 128" using t by (simp add: tab_ok_def)
  then show "length (fs[i := v]) = LOG_FILES_MAX" by simp
  note nv = slot_used_free [OF v]
  {
    fix j assume j: "j < LOG_FILES_MAX"
    show "slot_free (fs[i := v] ! j) \<or> slot_used (fs[i := v] ! j) \<and> (st(lf_file (fs ! i) := None)) (lf_file (fs[i := v] ! j)) \<noteq> None"
    proof (cases "j = i")
      case True
      with v i len show ?thesis by simp
    next
      case False
      then show ?thesis using tab_slot [OF t j] tab_inj [OF t i j u] by auto
    qed
  }
  {
    fix a assume "(st(lf_file (fs ! i) := None)) a \<noteq> None"
    then have a: "st a \<noteq> None" "a \<noteq> lf_file (fs ! i)" by (auto split: if_splits)
    then show "a \<noteq> NULL" using t unfolding tab_ok_def by blast
    from tab_owner [OF t a(1)] obtain j where j: "j < LOG_FILES_MAX" "lf_file (fs ! j) = a" by metis
    with a(2) have "j \<noteq> i" by auto
    with j show "\<exists>j<LOG_FILES_MAX. lf_file (fs[i := v] ! j) = a" by (intro exI [of _ j]) simp
  }
  fix j k assume j: "j < LOG_FILES_MAX" and k: "k < LOG_FILES_MAX"
    and uj: "slot_used (fs[i := v] ! j)" and uk: "slot_used (fs[i := v] ! k)"
    and eq: "lf_file (fs[i := v] ! j) = lf_file (fs[i := v] ! k) \<or> lf_uuid (fs[i := v] ! j) = lf_uuid (fs[i := v] ! k)"
  have "j \<noteq> i" "k \<noteq> i" using uj uk nv i len by auto
  then show "j = k" using tab_inj [OF t j k] uj uk eq by simp
qed

lemma tab_free:
  assumes t: "tab_ok fs st" and i: "i < LOG_FILES_MAX" and f: "slot_free (fs ! i)" and v: "slot_free v"
  shows "tab_ok (fs[i := v]) st"
proof -
  have len: "length fs = 128" using t by (simp add: tab_ok_def)
  have nth: "fs[i := v] ! j = (if j = i then v else fs ! j)" if "j < LOG_FILES_MAX" for j using that len by (simp add: nth_list_update)
  have null: "lf_file v = NULL" "lf_file (fs ! i) = NULL" using f v by (simp_all add: slot_free_def)
  show ?thesis using t f v null slot_used_free [OF v] unfolding tab_ok_def
    by (auto simp: nth cong: conj_cong)
qed

lemma tab_len:
  assumes t: "tab_ok fs st" and i: "i < LOG_FILES_MAX"
  shows "tab_ok (fs[i := (fs ! i)\<lparr>lf_fileLen := n\<rparr>]) st"
proof -
  have len: "length fs = 128" using t by (simp add: tab_ok_def)
  let ?g = "fs[i := (fs ! i)\<lparr>lf_fileLen := n\<rparr>]"
  have "lf_file (?g ! j) = lf_file (fs ! j) \<and> lf_uuid (?g ! j) = lf_uuid (fs ! j) \<and> slot_used (?g ! j) = slot_used (fs ! j) \<and>
      slot_free (?g ! j) = slot_free (fs ! j)" for j
    using i len by (cases "j = i") simp_all
  then show ?thesis using t by (simp add: tab_ok_def)
qed

lemma tab_add:
  assumes t: "tab_ok fs st" and i: "i < LOG_FILES_MAX" and f: "slot_free (fs ! i)" and v: "slot_used v"
    and a: "st (lf_file v) = None" and u: "\<And>j. j < LOG_FILES_MAX \<Longrightarrow> slot_used (fs ! j) \<Longrightarrow> lf_uuid (fs ! j) \<noteq> lf_uuid v"
  shows "tab_ok (fs[i := v]) (st(lf_file v \<mapsto> fd))"
  unfolding tab_ok_def
proof (intro conjI allI impI)
  have len: "length fs = 128" using t by (simp add: tab_ok_def)
  then show "length (fs[i := v]) = LOG_FILES_MAX" by simp
  {
    fix j assume j: "j < LOG_FILES_MAX"
    show "slot_free (fs[i := v] ! j) \<or> slot_used (fs[i := v] ! j) \<and> (st(lf_file v \<mapsto> fd)) (lf_file (fs[i := v] ! j)) \<noteq> None"
      using v len tab_slot [OF t j] i by (cases "j = i") auto
  }
  {
    fix b assume b: "(st(lf_file v \<mapsto> fd)) b \<noteq> None"
    show "b \<noteq> NULL" using b v t unfolding tab_ok_def slot_used_def by (auto split: if_splits)
    show "\<exists>j<LOG_FILES_MAX. lf_file (fs[i := v] ! j) = b"
    proof (cases "b = lf_file v")
      case True
      with i len show ?thesis by (intro exI [of _ i]) simp
    next
      case False
      with b obtain j where j: "j < LOG_FILES_MAX" "lf_file (fs ! j) = b" "slot_used (fs ! j)"
        using tab_owner [OF t, of b] by auto
      then have "j \<noteq> i" using slot_used_free [OF f] by auto
      with j show ?thesis by (intro exI [of _ j]) simp
    qed
  }
  fix j k assume j: "j < LOG_FILES_MAX" and k: "k < LOG_FILES_MAX"
    and uj: "slot_used (fs[i := v] ! j)" and uk: "slot_used (fs[i := v] ! k)"
    and eq: "lf_file (fs[i := v] ! j) = lf_file (fs[i := v] ! k) \<or> lf_uuid (fs[i := v] ! j) = lf_uuid (fs[i := v] ! k)"
  have new: "lf_file (fs ! m) \<noteq> lf_file v \<and> lf_uuid (fs ! m) \<noteq> lf_uuid v" if "m < LOG_FILES_MAX" "slot_used (fs ! m)" for m
    using u [OF that] tab_slot [OF t that(1)] a slot_used_free that(2) by auto
  show "j = k"
    using new [OF j] new [OF k] tab_inj [OF t j k] uj uk eq i len by (cases "j = i"; cases "k = i") auto
qed


text \<open>Only the table and the streams have changed, and they fit together again.\<close>

definition ltab :: "'w tlog \<Rightarrow> 'w tlog \<Rightarrow> bool" where
  "ltab s s' \<longleftrightarrow> tabs s' \<and> lkeep (s\<lparr>g_files := g_files s', lstreams := lstreams s'\<rparr>) s'"

lemma ltab_trans [trans]: "ltab s s' \<Longrightarrow> ltab s' s'' \<Longrightarrow> ltab s s''"
  by (simp add: ltab_def lkeep_def lcore_def)

lemma ltab_keep: "lkeep s s' \<Longrightarrow> tabs s \<Longrightarrow> ltab s s'"
  by (simp add: ltab_def tabs_def lkeep_def lcore_def)

lemma ltab_keep_trans: "lkeep s s' \<Longrightarrow> ltab s' s'' \<Longrightarrow> ltab s s''"
  by (simp add: ltab_def lkeep_def lcore_def)

lemma ltabI: "tab_ok fs st \<Longrightarrow> lkeep (s\<lparr>g_files := fs, lstreams := st\<rparr>) s' \<Longrightarrow> ltab s s'"
  by (simp add: ltab_def tabs_def lkeep_def lcore_def)

lemma lfclose_eq:
  "lstreams s a \<noteq> None \<Longrightarrow> \<exists>w. lfclose os a s = Some (s\<lparr>lstreams := (lstreams s)(a := None), lworld := w\<rparr>)"
  by (intro exI [of _ "snd (px_fclose os a (lworld s))"]) (simp add: lfclose_def on_lstream_def lcall_pair)

lemma clear_slot_ok [simp]:
  "i < length (g_files s) \<Longrightarrow> clear_slot i s = Some (s\<lparr>g_files := (g_files s)[i := empty_slot]\<rparr>)"
  by (simp add: clear_slot_def)

text \<open>Closing the stream of a slot, rotating its files and clearing the slot.\<close>

lemma close_rotate_clear:
  assumes "securec_ok sc" "handles_ok os" "tabs s" "i < LOG_FILES_MAX" "lf_file (g_files s ! i) \<noteq> NULL"
  obtains w where "lfclose os (lf_file (g_files s ! i)) s =
      Some (s\<lparr>lstreams := (lstreams s)(lf_file (g_files s ! i) := None), lworld := w\<rparr>)"
    and "\<And>s'. lkeep (s\<lparr>lstreams := (lstreams s)(lf_file (g_files s ! i) := None)\<rparr>) s' \<Longrightarrow>
      ltab s (s'\<lparr>g_files := (g_files s')[i := empty_slot]\<rparr>) \<and> g_files s' = g_files s \<and>
      ok (rotate_file sc sg os i f s') (lkeep s')"
proof -
  let ?a = "lf_file (g_files s ! i)"
  have t: "tab_ok (g_files s) (lstreams s)" using assms(3) by (simp add: tabs_def)
  have u: "slot_used (g_files s ! i)" "lstreams s ?a \<noteq> None" "i < length (g_files s)"
    using tab_slot [OF t assms(4)] assms(5) by (auto simp: slot_free_def)
  obtain w where w: "lfclose os ?a s = Some (s\<lparr>lstreams := (lstreams s)(?a := None), lworld := w\<rparr>)"
    using lfclose_eq [OF u(2)] by metis
  show ?thesis
  proof (rule that [OF w])
    fix s' assume k: "lkeep (s\<lparr>lstreams := (lstreams s)(?a := None)\<rparr>) s'"
    then have g: "g_files s' = g_files s" using lkeep_fields(1) [OF k] by simp
    have "lkeep (s\<lparr>g_files := (g_files s)[i := empty_slot], lstreams := (lstreams s)(?a := None)\<rparr>)
        (s'\<lparr>g_files := (g_files s')[i := empty_slot]\<rparr>)"
      using k g by (simp add: lkeep_def lcore_def)
    with tab_close [OF t assms(4) u(1) slot_free_empty(1)]
    show "ltab s (s'\<lparr>g_files := (g_files s')[i := empty_slot]\<rparr>) \<and> g_files s' = g_files s \<and> ok (rotate_file sc sg os i f s') (lkeep s')"
      using rotate_file_ok [OF assms(1,2), of i s'] u(3) g by (auto intro: ltabI)
  qed
qed

lemma LogFilesChecklimit_ok:
  assumes "securec_ok sc" "handles_ok os" "tabs s" "i < LOG_FILES_MAX" "lf_file (g_files s ! i) \<noteq> NULL"
  shows "ok (LogFilesChecklimit sc sg os i s) (\<lambda>(r, s').
    r = 0 \<and> s' = s \<or> r \<noteq> 0 \<and> ltab s s' \<and> g_files s' = (g_files s)[i := empty_slot])"
proof -
  let ?f = "g_files s ! i"
  have len: "i < length (g_files s)" using assms(3,4) tab_slot(2) by (simp add: tabs_def)
  obtain w where w: "lfclose os (lf_file ?f) s = Some (s\<lparr>lstreams := (lstreams s)(lf_file ?f := None), lworld := w\<rparr>)"
    and c: "\<And>s'. lkeep (s\<lparr>lstreams := (lstreams s)(lf_file ?f := None)\<rparr>) s' \<Longrightarrow>
      ltab s (s'\<lparr>g_files := (g_files s')[i := empty_slot]\<rparr>) \<and> g_files s' = g_files s \<and> ok (rotate_file sc sg os i ?f s') (lkeep s')"
    using close_rotate_clear [OF assms] by metis
  let ?s1 = "s\<lparr>lstreams := (lstreams s)(lf_file ?f := None), lworld := w\<rparr>"
  have k1: "lkeep (s\<lparr>lstreams := (lstreams s)(lf_file ?f := None)\<rparr>) ?s1" by simp
  have "ok (rotate_file sc sg os i ?f ?s1) (lkeep ?s1)" using c [OF k1] by blast
  then obtain s2 where r: "rotate_file sc sg os i ?f ?s1 = Some s2" and k2: "lkeep ?s1 s2" by (rule okE)
  have "lkeep (s\<lparr>lstreams := (lstreams s)(lf_file ?f := None)\<rparr>) s2" using k2 by simp
  from c [OF this] have "ltab s (s2\<lparr>g_files := (g_files s2)[i := empty_slot]\<rparr>)" "g_files s2 = g_files s" by blast+
  then show ?thesis using len w r by (simp add: LogFilesChecklimit_def)
qed

definition shrunk :: "LogFile list \<Rightarrow> LogFile list \<Rightarrow> bool" where
  "shrunk fs fs' \<longleftrightarrow> (\<forall>j<LOG_FILES_MAX. fs' ! j = fs ! j \<or> lf_file (fs' ! j) = NULL)"

lemma shrunk_refl [simp]: "shrunk fs fs"
  by (simp add: shrunk_def)

lemma shrunk_trans: "shrunk fs fs' \<Longrightarrow> shrunk fs' fs'' \<Longrightarrow> shrunk fs fs''"
  unfolding shrunk_def by metis

lemma shrunk_clear: "i < length fs \<Longrightarrow> shrunk fs (fs[i := empty_slot])"
  by (auto simp: shrunk_def nth_list_update empty_slot_def)

lemma usable_from_ok:
  assumes "securec_ok sc" "handles_ok os"
  shows "tabs s \<Longrightarrow> set is \<subseteq> {..<LOG_FILES_MAX} \<Longrightarrow> ok (usable_from sc sg os u is s) (\<lambda>(r, s').
    ltab s s' \<and> shrunk (g_files s) (g_files s') \<and>
    (case r of Some i \<Rightarrow> i < LOG_FILES_MAX \<and> lf_file (g_files s' ! i) \<noteq> NULL
     | None \<Rightarrow> \<forall>i \<in> set is. lf_file (g_files s' ! i) \<noteq> NULL \<longrightarrow> lf_uuid (g_files s' ! i) \<noteq> u))"
proof (induction "is" arbitrary: s)
  case Nil
  then show ?case by (simp add: ltab_keep)
next
  case (Cons i "is")
  let ?f = "g_files s ! i"
  have t: "tab_ok (g_files s) (lstreams s)" using Cons.prems by (simp add: tabs_def)
  have i: "i < LOG_FILES_MAX" "i < length (g_files s)" using Cons.prems tab_slot(2) [OF t, of i] by auto
  note sl = tab_slot(1) [OF t i(1)]
  let ?Q = "\<lambda>(r, s'). ltab s s' \<and> shrunk (g_files s) (g_files s') \<and>
    (case r of Some i \<Rightarrow> i < LOG_FILES_MAX \<and> lf_file (g_files s' ! i) \<noteq> NULL
     | None \<Rightarrow> \<forall>i \<in> set (i # is). lf_file (g_files s' ! i) \<noteq> NULL \<longrightarrow> lf_uuid (g_files s' ! i) \<noteq> u)"
  have step: "ok (usable_from sc sg os u is s1) ?Q" if "ltab s s1" "shrunk (g_files s) (g_files s1)"
    and "lf_file (g_files s1 ! i) \<noteq> NULL \<Longrightarrow> lf_uuid (g_files s1 ! i) \<noteq> u" for s1
  proof -
    have "tabs s1" using that(1) by (simp add: ltab_def)
    then have "ok (usable_from sc sg os u is s1) (\<lambda>(r, s').
        ltab s1 s' \<and> shrunk (g_files s1) (g_files s') \<and>
        (case r of Some i \<Rightarrow> i < LOG_FILES_MAX \<and> lf_file (g_files s' ! i) \<noteq> NULL
         | None \<Rightarrow> \<forall>i \<in> set is. lf_file (g_files s' ! i) \<noteq> NULL \<longrightarrow> lf_uuid (g_files s' ! i) \<noteq> u))"
      using Cons.prems(2) by (intro Cons.IH) simp_all
    then show ?thesis
    proof (rule ok_mono, clarify, intro conjI)
      fix r s' assume a: "ltab s1 s'" "shrunk (g_files s1) (g_files s')"
        and r: "case r of Some i \<Rightarrow> i < LOG_FILES_MAX \<and> lf_file (g_files s' ! i) \<noteq> NULL
         | None \<Rightarrow> \<forall>i \<in> set is. lf_file (g_files s' ! i) \<noteq> NULL \<longrightarrow> lf_uuid (g_files s' ! i) \<noteq> u"
      show "ltab s s'" by (rule ltab_trans [OF that(1) a(1)])
      show "shrunk (g_files s) (g_files s')" by (rule shrunk_trans [OF that(2) a(2)])
      have "g_files s' ! i = g_files s1 ! i \<or> lf_file (g_files s' ! i) = NULL" using a(2) i(1) unfolding shrunk_def by blast
      with that(3) r show "case r of Some i \<Rightarrow> i < LOG_FILES_MAX \<and> lf_file (g_files s' ! i) \<noteq> NULL
         | None \<Rightarrow> \<forall>i \<in> set (i # is). lf_file (g_files s' ! i) \<noteq> NULL \<longrightarrow> lf_uuid (g_files s' ! i) \<noteq> u"
        by (cases r) auto
    qed
  qed
  have "ltab s s" using Cons.prems(1) by (simp add: ltab_keep)
  show ?case
  proof (cases "lf_uuid ?f = u \<and> lf_valid ?f = FILE_VALID")
    case False
    then have "lf_file ?f \<noteq> NULL \<Longrightarrow> lf_uuid ?f \<noteq> u" using sl by (auto simp: slot_used_def slot_free_def)
    with step [OF \<open>ltab s s\<close> shrunk_refl] False i show ?thesis by auto
  next
    case True
    then have nn: "lf_file ?f \<noteq> NULL" using sl by (auto simp: slot_free_def slot_used_def)
    obtain r s1 where c: "LogFilesChecklimit sc sg os i s = Some (r, s1)"
      and r: "r = 0 \<and> s1 = s \<or> r \<noteq> 0 \<and> ltab s s1 \<and> g_files s1 = (g_files s)[i := empty_slot]"
      using LogFilesChecklimit_ok [OF assms Cons.prems(1) i(1) nn, of sg] by (auto simp: ok_iff)
    show ?thesis
    proof (cases "r = 0")
      case T: True
      with r True nn c i \<open>ltab s s\<close> show ?thesis by simp
    next
      case F: False
      with r have "ok (usable_from sc sg os u is s1) ?Q"
        using i by (intro step) (auto simp: shrunk_clear)
      with F True nn c i show ?thesis by simp
    qed
  qed
qed


lemma byte_of_chr_of [simp]: "byte_of (chr_of b) = b"
proof -
  have "unat b < 256" using unsigned_less [of b, where ?'a = nat] by simp
  then show ?thesis by (simp add: byte_of_def chr_of_def of_char_of)
qed

lemma add_from_ok:
  assumes sc: "securec_ok sc" and t: "tab_ok (g_files s) ((lstreams s)(a := None))" and a: "a \<noteq> NULL" "lstreams s a = Some fd"
    and k: "unat k < LOG_FILE_INDEX_MAX"
    and u: "\<And>j. j < LOG_FILES_MAX \<Longrightarrow> slot_used (g_files s ! j) \<Longrightarrow> lf_uuid (g_files s ! j) \<noteq> u"
  shows "set is \<subseteq> {..<LOG_FILES_MAX} \<Longrightarrow> ok (add_from sc os u nm a n k is s) (\<lambda>(r, s').
    ltab s s' \<and> (\<forall>i. r = Some i \<longrightarrow> i < LOG_FILES_MAX \<and> lf_file (g_files s' ! i) \<noteq> NULL))"
proof (induction "is")
  case Nil
  obtain w where w: "lfclose os a s = Some (s\<lparr>lstreams := (lstreams s)(a := None), lworld := w\<rparr>)"
    using lfclose_eq [of s a os] a by auto
  have "ltab s (s\<lparr>lstreams := (lstreams s)(a := None), lworld := w\<rparr>)" by (rule ltabI [OF t]) simp
  with w show ?case by simp
next
  case (Cons i "is")
  have i: "i < LOG_FILES_MAX" "i < length (g_files s)" using Cons.prems tab_slot(2) [OF t, of i] by auto
  let ?f = "g_files s ! i"
  show ?case
  proof (cases "lf_file ?f \<noteq> NULL \<or> lf_valid ?f = FILE_VALID")
    case True
    with Cons i show ?thesis by auto
  next
    case False
    then have free: "slot_free ?f" using tab_slot(1) [OF t i(1)] by (auto simp: slot_used_def)
    obtain rc m where m: "memcpy_s sc FILE_NAME_MAX_BUF (nm @ [CHR 0x00]) = (rc, m)" by (metis surj_pair)
    obtain rc' u' where m': "memcpy_s sc TEE_UUID_LEN (map chr_of u) = (rc', u')" by (metis surj_pair)
    have u': "rc' = 0 \<Longrightarrow> map byte_of u' = u" using memcpy_s_ok(1) [OF sc, of 16 "map chr_of u" u'] m' by (auto simp: comp_def)
    obtain w where w: "lfclose os a s = Some (s\<lparr>lstreams := (lstreams s)(a := None), lworld := w\<rparr>)"
      using lfclose_eq [of s a os] a by auto
    let ?g = "(g_files s)[i := ?f\<lparr>lf_logName := butlast m\<rparr>]"
    obtain w' where w': "lfclose os a (s\<lparr>g_files := ?g\<rparr>) = Some (s\<lparr>g_files := ?g, lstreams := (lstreams s)(a := None), lworld := w'\<rparr>)"
      using lfclose_eq [of "s\<lparr>g_files := ?g\<rparr>" a os] a by auto
    let ?v = "\<lparr>lf_file = a, lf_uuid = u, lf_fileLen = n, lf_fileIndex = k, lf_valid = FILE_VALID, lf_logName = butlast m\<rparr>"
    have v: "slot_used ?v" using a k by (simp add: slot_used_def)
    have 1: "ltab s (s\<lparr>lstreams := (lstreams s)(a := None), lworld := w\<rparr>)" by (rule ltabI [OF t]) simp
    have 2: "ltab s (s\<lparr>g_files := ?g, lstreams := (lstreams s)(a := None), lworld := w'\<rparr>)"
      by (rule ltabI [OF tab_free [OF t i(1) free, of "?f\<lparr>lf_logName := butlast m\<rparr>"]]) (simp_all add: free)
    have 3: "ltab s (s\<lparr>g_files := (g_files s)[i := ?v]\<rparr>)"
    proof -
      have "tab_ok ((g_files s)[i := ?v]) (((lstreams s)(a := None))(lf_file ?v \<mapsto> fd))"
        by (rule tab_add [OF t i(1) free v]) (simp_all add: u)
      moreover have "((lstreams s)(a := None))(lf_file ?v \<mapsto> fd) = lstreams s" using a by (simp add: fun_upd_idem)
      ultimately show ?thesis by (intro ltabI [of "(g_files s)[i := ?v]" "lstreams s"]) simp_all
    qed
    show ?thesis
      using False i m m' w w' 1 2 3 u' a by (cases "rc = 0"; cases "rc' = 0") auto
  qed
qed

lemma lfopen_cases:
  assumes "handles_ok os"
  obtains w where "lfopen os p m s = (NULL, s\<lparr>lworld := w\<rparr>)"
  | f fd w where "f \<noteq> NULL" "lstreams s f = None" "lfopen os p m s = (f, s\<lparr>lstreams := (lstreams s)(f \<mapsto> fd), lworld := w\<rparr>)"
proof -
  let ?c = "px_fopen os (\<lambda>a. a \<in> dom (lstreams s)) (lused_fd s) p m (lworld s)"
  obtain f fd w where c: "?c = ((f, fd), w)" by (metis surj_pair)
  from assms have "\<forall>used usedfd p m w. fst (fst (px_fopen os used usedfd p m w)) = NULL \<or>
      \<not> used (fst (fst (px_fopen os used usedfd p m w)))"
    unfolding handles_ok_def fresh_ok_def by blast
  then have "fst (fst ?c) = NULL \<or> \<not> fst (fst ?c) \<in> dom (lstreams s)" by blast
  then have "f = NULL \<or> lstreams s f = None" by (auto simp: c)
  then show ?thesis
  proof (cases "f = NULL")
    case True
    then show ?thesis by (intro that(1) [of w]) (simp add: lfopen_def lcall_def c)
  next
    case False
    with \<open>f = NULL \<or> lstreams s f = None\<close> show ?thesis
      by (intro that(2) [of f w fd]) (simp_all add: lfopen_def lcall_def c)
  qed
qed

lemma lfdopen_cases:
  assumes "handles_ok os"
  obtains w where "lfdopen os fd s = (NULL, s\<lparr>lworld := w\<rparr>)"
  | f w where "f \<noteq> NULL" "lstreams s f = None"
      "lfdopen os fd s = (f, s\<lparr>lfds := lfds s - {fd}, lstreams := (lstreams s)(f \<mapsto> fd), lworld := w\<rparr>)"
proof -
  let ?c = "lo_fdopen os (\<lambda>a. a \<in> dom (lstreams s)) fd (lworld s)"
  obtain f w where c: "?c = (f, w)" by (metis surj_pair)
  from assms have "\<forall>used fd w. fst (lo_fdopen os used fd w) = NULL \<or> \<not> used (fst (lo_fdopen os used fd w))"
    by (simp add: handles_ok_def)
  then have "fst ?c = NULL \<or> \<not> fst ?c \<in> dom (lstreams s)" by blast
  then have "f = NULL \<or> lstreams s f = None" by (auto simp: c)
  then show ?thesis
  proof (cases "f = NULL")
    case True
    then show ?thesis by (intro that(1) [of w]) (simp add: lfdopen_def lcall_def c)
  next
    case False
    with \<open>f = NULL \<or> lstreams s f = None\<close> show ?thesis
      by (intro that(2) [of f w]) (simp_all add: lfdopen_def lcall_def c)
  qed
qed

lemma LogFilesOpen_ok:
  assumes "handles_ok os"
  shows "ok (LogFilesOpen os nm s) (\<lambda>((f, n), s').
    f = NULL \<and> lkeep s s' \<or> f \<noteq> NULL \<and> lstreams s f = None \<and> (\<exists>fd. lkeep (s\<lparr>lstreams := (lstreams s)(f \<mapsto> fd)\<rparr>) s'))"
proof -
  have rest: "ok (do {
        fd2 \<leftarrow> lstreams s1 f;
        if fd2 < 0 then do { s \<leftarrow> lfclose os f s1; Some ((NULL, 0), s) }
        else do {
          let (_, s) = lcall (lo_fchmod os fd2 0x1A0) s1;
          (_, s) \<leftarrow> on_lstream f (px_fseek os f 0 whence_END) s;
          (fileLen, s) \<leftarrow> on_lstream f (px_ftell os f) s;
          s \<leftarrow> (if new then do { (_, s) \<leftarrow> on_lstream f (px_fwrite os f (map byte_of (g_teeVersion s))) s; Some s }
                else Some s);
          Some ((f, fileLen), s)
        } }) (\<lambda>((f, n), s'). f = NULL \<and> lkeep s s' \<or>
          f \<noteq> NULL \<and> lstreams s f = None \<and> (\<exists>fd. lkeep (s\<lparr>lstreams := (lstreams s)(f \<mapsto> fd)\<rparr>) s'))"
    if f: "f \<noteq> NULL" "lstreams s f = None" and s1: "s1 = s\<lparr>lstreams := (lstreams s)(f \<mapsto> fd), lworld := w\<rparr>" for f s1 fd w new
  proof -
    have upd: "(lstreams s)(f := None) = lstreams s" using f(2) by auto
    have ex: "\<exists>d. lkeep (s\<lparr>lstreams := (lstreams s)(f \<mapsto> d)\<rparr>) (s\<lparr>lstreams := (lstreams s)(f \<mapsto> fd)\<rparr>)"
      by (rule exI [of _ fd]) simp
    show ?thesis using f ex by (simp add: s1 on_lstream_def lcall_pair lfclose_def upd)
  qed
  obtain r0 w0 where acc: "lcall (px_access os nm F_OK) s = (r0, s\<lparr>lworld := w0\<rparr>)" by (rule lcallE)
  obtain r1 w1 where chm: "(if r0 = 0 then lcall (px_chmod os nm 0x1A0) (s\<lparr>lworld := w0\<rparr>) else (0, s\<lparr>lworld := w0\<rparr>)) = (r1, s\<lparr>lworld := w1\<rparr>)"
    by (cases "r0 = 0") (simp_all add: lcall_pair)
  let ?s = "s\<lparr>lworld := w1\<rparr>"
  note start = acc chm
  show ?thesis
  proof (cases "r1 = 0")
    case False
    then show ?thesis by (simp add: LogFilesOpen_def start)
  next
    case r1: True
    from assms show ?thesis
    proof (cases rule: lopen_cases [where s = ?s and p = nm and wr = True and m = 0])
      case (1 fd w)
      note o = 1
      from assms show ?thesis
      proof (cases rule: lfopen_cases [where s = "s\<lparr>lworld := w\<rparr>" and p = nm and m = "''a+''"])
        case (1 w')
        with o r1 show ?thesis by (simp add: LogFilesOpen_def start CloseFileFd_def)
      next
        case (2 f d w')
        have "lstreams s f = None" "s\<lparr>lworld := w, lstreams := (lstreams (s\<lparr>lworld := w\<rparr>))(f \<mapsto> d), lworld := w'\<rparr> =
            s\<lparr>lstreams := (lstreams s)(f \<mapsto> d), lworld := w'\<rparr>" using 2 by simp_all
        from rest [where f = f and fd = d and w = w' and new = True, OF 2(1) this(1) refl] 2 o r1 show ?thesis
          by (simp add: LogFilesOpen_def start)
      qed
    next
      case (2 fd w)
      note o = 2
      have fds: "lfds s - {fd} = lfds s" using 2(2) by (auto simp: lused_fd_def)
      let ?s2 = "s\<lparr>lfds := insert fd (lfds s), lworld := w\<rparr>"
      from assms show ?thesis
      proof (cases rule: lfdopen_cases [where s = ?s2 and fd = fd])
        case (1 w')
        with o r1 fds show ?thesis by (simp add: LogFilesOpen_def start CloseFileFd_def lclose_def)
      next
        case (2 f w')
        have "lstreams s f = None" using 2 by simp
        from rest [where f = f and fd = fd and w = w' and new = False, OF 2(1) this refl] 2 o r1 fds show ?thesis
          by (simp add: LogFilesOpen_def start)
      qed
    qed
  qed
qed


lemma slots_range: "set [0..<LOG_FILES_MAX] = {..<LOG_FILES_MAX}"
  by (auto simp del: upt_rec_numeral)

lemma LogFilesGet_ok:
  assumes "securec_ok sc" "handles_ok os" "tabs s"
  shows "ok (LogFilesGet sc sg os u isTa s) (\<lambda>(r, s').
    ltab s s' \<and> (\<forall>i. r = Some i \<longrightarrow> i < LOG_FILES_MAX \<and> lf_file (g_files s' ! i) \<noteq> NULL))"
proof -
  obtain r s1 where g: "GetUsableFile sc sg os u s = Some (r, s1)" and t1: "ltab s s1"
    and r: "case r of Some i \<Rightarrow> i < LOG_FILES_MAX \<and> lf_file (g_files s1 ! i) \<noteq> NULL
      | None \<Rightarrow> \<forall>i \<in> {..<LOG_FILES_MAX}. lf_file (g_files s1 ! i) \<noteq> NULL \<longrightarrow> lf_uuid (g_files s1 ! i) \<noteq> u"
    using usable_from_ok [OF assms, of "[0..<LOG_FILES_MAX]" sg u, unfolded slots_range GetUsableFile_def [symmetric], OF subset_refl]
    by (elim okE) auto
  show ?thesis
  proof (cases r)
    case (Some i)
    with g t1 r show ?thesis by (simp add: LogFilesGet_def)
  next
    case None
    note free = r [unfolded None, simplified]
    obtain d s2 where m: "LogFilesMkdirR os (g_teePath s1) s1 = Some (d, s2)" and k2: "lkeep s1 s2"
      using LogFilesMkdirR_ok [OF assms(2), of "g_teePath s1" s1] by (auto simp: ok_iff)
    let ?a = "GetUuidStr sc u UUID_MAX_STR_LEN"
    obtain k s3 where x: "GetFileIndex sc os ?a isTa s2 = (k, s3)" by (metis surj_pair)
    have k3: "lkeep s2 s3" using file_index_keep [of s2 sc os ?a isTa "rev [0..<4]" 0] x by (simp add: GetFileIndex_def del: upt_rec_numeral)
    have k: "k < 4" using file_index_bound [of "rev [0..<4]" 4 0 sc os ?a isTa s2] x by (simp add: GetFileIndex_def del: upt_rec_numeral)
    have k13: "lkeep s1 s3" using k2 k3 by (rule lkeep_trans)
    have t3: "ltab s s3" "tabs s3" using t1 k13 by (simp_all add: ltab_def tabs_def lkeep_def lcore_def)
    have t2: "ltab s s2" using t1 k2 by (simp_all add: ltab_def tabs_def lkeep_def lcore_def)
    obtain rc nm where nm: "LogAssembleFilename sc FILE_NAME_MAX_BUF (g_teePath s3) ?a isTa 0 = (rc, nm)" by (metis surj_pair)
    obtain f n s4 where o: "LogFilesOpen os nm s3 = Some ((f, n), s4)"
      and f: "f = NULL \<and> lkeep s3 s4 \<or> f \<noteq> NULL \<and> lstreams s3 f = None \<and> (\<exists>fd. lkeep (s3\<lparr>lstreams := (lstreams s3)(f \<mapsto> fd)\<rparr>) s4)"
      using LogFilesOpen_ok [OF assms(2), of nm s3] by (auto simp: ok_iff)
    have add: "ok (LogFilesAdd sc os u nm f n (of_nat k) s4) (\<lambda>(r, s').
        ltab s s' \<and> (\<forall>i. r = Some i \<longrightarrow> i < LOG_FILES_MAX \<and> lf_file (g_files s' ! i) \<noteq> NULL))" if "f \<noteq> NULL"
    proof -
      from f that obtain fd where fd: "lstreams s3 f = None" "lkeep (s3\<lparr>lstreams := (lstreams s3)(f \<mapsto> fd)\<rparr>) s4" by auto
      then have st: "lstreams s4 = (lstreams s3)(f \<mapsto> fd)" "g_files s4 = g_files s3" "g_files s3 = g_files s1"
        using lkeep_fields(1,3) [OF fd(2)] lkeep_fields(1) [OF k13] by simp_all
      then have st': "(lstreams s3)(f := None) = lstreams s3" using fd(1) by auto
      have "ok (add_from sc os u nm f n (of_nat k) [0..<LOG_FILES_MAX] s4) (\<lambda>(r, s').
          ltab s4 s' \<and> (\<forall>i. r = Some i \<longrightarrow> i < LOG_FILES_MAX \<and> lf_file (g_files s' ! i) \<noteq> NULL))"
        using t3(2) k that free st by (intro add_from_ok [OF assms(1)])
          (auto simp: st' tabs_def unat_of_nat slot_used_def simp del: upt_rec_numeral)
      moreover have "ltab s s'" if "ltab s4 s'" for s'
        using that t3 fd(2) by (simp add: ltab_def lkeep_def lcore_def)
      ultimately show ?thesis unfolding LogFilesAdd_def by (elim ok_mono) auto
    qed
    have t4: "f = NULL \<Longrightarrow> ltab s s4" using f t3 by (auto simp: ltab_def tabs_def lkeep_def lcore_def)
    show ?thesis using None g m x nm o add t2 t3 t4 by (simp add: LogFilesGet_def)
  qed
qed

lemma WritePrivateLogFile_ok:
  assumes "securec_ok sc" "handles_ok os" "tabs s"
  shows "ok (WritePrivateLogFile sc sg os u txt isTa s) (ltab s)"
proof -
  obtain r s1 where g: "LogFilesGet sc sg os u isTa s = Some (r, s1)" and t1: "ltab s s1"
    and r: "\<And>i. r = Some i \<Longrightarrow> i < LOG_FILES_MAX \<and> lf_file (g_files s1 ! i) \<noteq> NULL"
    using LogFilesGet_ok [OF assms, of sg u isTa] by (auto simp: ok_iff)
  show ?thesis
  proof (cases r)
    case None
    with g t1 show ?thesis by (simp add: WritePrivateLogFile_def)
  next
    case (Some i)
    note i = r [OF Some]
    let ?f = "g_files s1 ! i"
    have t: "tab_ok (g_files s1) (lstreams s1)" using t1 by (simp add: ltab_def tabs_def)
    have u: "slot_used ?f" "lstreams s1 (lf_file ?f) \<noteq> None" "i < length (g_files s1)"
      using tab_slot [OF t, of i] i by (auto simp: slot_free_def)
    obtain n w where w: "on_lstream (lf_file ?f) (px_fwrite os (lf_file ?f) txt) s1 = Some (n, s1\<lparr>lworld := w\<rparr>)"
      using u(2) by (simp add: on_lstream_def lcall_pair)
    show ?thesis
    proof (cases "n = length txt")
      case True
      have "ltab s1 (s1\<lparr>g_files := (g_files s1)[i := ?f\<lparr>lf_fileLen := lf_fileLen ?f + int n\<rparr>], lworld := w\<rparr>)"
        by (rule ltabI [OF tab_len [OF t, of i "lf_fileLen ?f + int n"]]) (use i in simp_all)
      then have "ltab s (s1\<lparr>g_files := (g_files s1)[i := ?f\<lparr>lf_fileLen := lf_fileLen ?f + int n\<rparr>], lworld := w\<rparr>)"
        by (rule ltab_trans [OF t1])
      with True Some g i u(3) w show ?thesis by (simp add: WritePrivateLogFile_def)
    next
      case False
      obtain w' where c: "lfclose os (lf_file ?f) (s1\<lparr>lworld := w\<rparr>) =
          Some (s1\<lparr>lstreams := (lstreams s1)(lf_file ?f := None), lworld := w'\<rparr>)"
        using lfclose_eq [of "s1\<lparr>lworld := w\<rparr>" "lf_file ?f" os] u(2) by auto
      let ?v = "empty_slot\<lparr>lf_fileLen := lf_fileLen empty_slot + int n\<rparr>"
      have "ltab s1 (s1\<lparr>g_files := (g_files s1)[i := ?v], lstreams := (lstreams s1)(lf_file ?f := None), lworld := w'\<rparr>)"
        by (rule ltabI [OF tab_close [OF t _ u(1), of ?v]]) (use i in simp_all)
      then have "ltab s (s1\<lparr>g_files := (g_files s1)[i := ?v], lstreams := (lstreams s1)(lf_file ?f := None), lworld := w'\<rparr>)"
        by (rule ltab_trans [OF t1])
      then show ?thesis using False Some g i u(3) w c by (simp add: WritePrivateLogFile_def)
    qed
  qed
qed

lemma close_from_ok:
  assumes "securec_ok sc" "handles_ok os"
  shows "tabs s \<Longrightarrow> set is \<subseteq> {..<LOG_FILES_MAX} \<Longrightarrow> ok (close_from sc sg os is s) (\<lambda>s'.
    ltab s s' \<and> shrunk (g_files s) (g_files s') \<and> (\<forall>i \<in> set is. lf_file (g_files s' ! i) = NULL))"
proof (induction "is" arbitrary: s)
  case Nil
  then show ?case by (simp add: ltab_keep)
next
  case (Cons i "is")
  let ?f = "g_files s ! i"
  have t: "tab_ok (g_files s) (lstreams s)" using Cons.prems by (simp add: tabs_def)
  have i: "i < LOG_FILES_MAX" "i < length (g_files s)" using Cons.prems tab_slot(2) [OF t, of i] by auto
  have step: "ok (close_from sc sg os is s1) (\<lambda>s'.
      ltab s s' \<and> shrunk (g_files s) (g_files s') \<and> (\<forall>i \<in> set (i # is). lf_file (g_files s' ! i) = NULL))"
    if "ltab s s1" "shrunk (g_files s) (g_files s1)" "lf_file (g_files s1 ! i) = NULL" for s1
  proof -
    have "tabs s1" using that(1) by (simp add: ltab_def)
    then have "ok (close_from sc sg os is s1) (\<lambda>s'. ltab s1 s' \<and> shrunk (g_files s1) (g_files s') \<and>
        (\<forall>i \<in> set is. lf_file (g_files s' ! i) = NULL))"
      using Cons.prems(2) by (intro Cons.IH) simp_all
    then show ?thesis
    proof (rule ok_mono, elim conjE, intro conjI)
      fix s' assume a: "ltab s1 s'" "shrunk (g_files s1) (g_files s')" "\<forall>i \<in> set is. lf_file (g_files s' ! i) = NULL"
      show "ltab s s'" by (rule ltab_trans [OF that(1) a(1)])
      show "shrunk (g_files s) (g_files s')" by (rule shrunk_trans [OF that(2) a(2)])
      have "lf_file (g_files s' ! i) = NULL" using a(2) i(1) that(3) unfolding shrunk_def by metis
      with a(3) show "\<forall>i \<in> set (i # is). lf_file (g_files s' ! i) = NULL" by simp
    qed
  qed
  show ?case
  proof (cases "lf_file ?f = NULL")
    case True
    with step [of s] Cons.prems(1) i show ?thesis by (simp add: ltab_keep)
  next
    case False
    obtain wf where fl: "on_lstream (lf_file ?f) (px_fflush os (lf_file ?f)) s = Some (fst (px_fflush os (lf_file ?f) (lworld s)), s\<lparr>lworld := wf\<rparr>)"
      using tab_slot(1) [OF t i(1)] False by (auto simp: on_lstream_def lcall_pair slot_free_def)
    let ?s0 = "s\<lparr>lworld := wf\<rparr>"
    have "tabs ?s0" "lf_file (g_files ?s0 ! i) \<noteq> NULL" using Cons.prems(1) False by (simp_all add: tabs_def)
    then obtain w where w: "lfclose os (lf_file (g_files ?s0 ! i)) ?s0 =
        Some (?s0\<lparr>lstreams := (lstreams ?s0)(lf_file (g_files ?s0 ! i) := None), lworld := w\<rparr>)"
      and c: "\<And>s'. lkeep (?s0\<lparr>lstreams := (lstreams ?s0)(lf_file (g_files ?s0 ! i) := None)\<rparr>) s' \<Longrightarrow>
        ltab ?s0 (s'\<lparr>g_files := (g_files s')[i := empty_slot]\<rparr>) \<and> g_files s' = g_files ?s0 \<and> ok (rotate_file sc sg os i ?f s') (lkeep s')"
      using close_rotate_clear [OF assms _ i(1), where f = ?f and sg = sg] by metis
    note w = w [simplified] and c = c [simplified]
    let ?s1 = "s\<lparr>lstreams := (lstreams s)(lf_file ?f := None), lworld := w\<rparr>"
    have "ok (rotate_file sc sg os i ?f ?s1) (lkeep ?s1)" using c [of ?s1] by simp
    then have "ok (if lf_fileLen ?f \<ge> LOG_FILE_LIMIT then rotate_file sc sg os i ?f ?s1 else Some ?s1) (lkeep ?s1)" by simp
    then obtain s2 where r: "(if lf_fileLen ?f \<ge> LOG_FILE_LIMIT then rotate_file sc sg os i ?f ?s1 else Some ?s1) = Some s2"
      and k2: "lkeep ?s1 s2" by (rule okE)
    obtain x w3 where ch: "lcall (px_chmod os (lf_logName ?f) 0x120) s2 = (x, s2\<lparr>lworld := w3\<rparr>)" by (rule lcallE)
    let ?s3 = "s2\<lparr>g_files := (g_files s2)[i := empty_slot], lworld := w3\<rparr>"
    have "lkeep (s\<lparr>lstreams := (lstreams s)(lf_file ?f := None)\<rparr>) (s2\<lparr>lworld := w3\<rparr>)" using k2 by simp
    note c3 = c [OF this, simplified]
    have t3: "ltab ?s0 ?s3" using c3 by (elim conjE)
    have g3: "g_files s2 = g_files s" using c3 by (elim conjE)
    from t3 have "ltab s ?s3" by (simp add: ltab_def lkeep_def lcore_def)
    with step [of ?s3] g3 i have "ok (close_from sc sg os is ?s3) (\<lambda>s'.
      ltab s s' \<and> shrunk (g_files s) (g_files s') \<and> (\<forall>i \<in> set (i # is). lf_file (g_files s' ! i) = NULL))"
      by (simp add: shrunk_clear)
    with False i fl w r ch g3 show ?thesis by (simp del: set_simps)
  qed
qed

lemma LogFilesClose_ok:
  assumes "securec_ok sc" "handles_ok os" "tabs s"
  shows "ok (LogFilesClose sc sg os s) (\<lambda>s'. ltab s s' \<and> lstreams s' = Map.empty \<and> (\<forall>f \<in> set (g_files s'). lf_file f = NULL))"
proof -
  have len: "length (g_files s) = 128" using assms(3) by (simp add: tabs_def tab_ok_def)
  obtain s' where c: "close_from sc sg os [0..<LOG_FILES_MAX] s = Some s'" and t: "ltab s s'"
    and n: "\<forall>i \<in> set [0..<LOG_FILES_MAX]. lf_file (g_files s' ! i) = NULL"
    using close_from_ok [OF assms, of "[0..<LOG_FILES_MAX]" sg, unfolded slots_range, OF subset_refl]
    unfolding slots_range by (elim okE) auto
  have t': "tab_ok (g_files s') (lstreams s')" using t by (simp add: ltab_def tabs_def)
  then have "length (g_files s') = 128" by (simp add: tab_ok_def)
  then have "\<forall>f \<in> set (g_files s'). lf_file f = NULL" using n by (simp add: all_set_conv_all_nth)
  moreover have "lstreams s' = Map.empty"
  proof (rule ext, rule ccontr)
    fix a assume "lstreams s' a \<noteq> None"
    then obtain i where "i < LOG_FILES_MAX" "slot_used (g_files s' ! i)" using tab_owner [OF t'] by metis
    with n show False by (simp add: slot_used_def)
  qed
  moreover have "g_files s \<noteq> []" using len by auto
  ultimately show ?thesis using c t by (simp add: LogFilesClose_def del: upt_rec_numeral)
qed

end
