(* ===== verification/Tlog_Tag.thy ===== *)
theory Tlog_Tag
  imports Tlog_Types
begin

text \<open>
  Writing a log item to the system log (\<open>src/services/tlogcat/src/sys_hilog_cfg.c\<close>) under the tag of the
  task that wrote it (\<open>src/services/tlogcat/src/proc_tag.c\<close>).  The tags that were seen are kept in two
  linked lists, one for trusted applications and one for drivers.
\<close>

section \<open>The tag of an item\<close>

abbreviation (input) "SERVICE_NAME_MAX \<equiv> (100 :: nat)"
abbreviation (input) "TA_NAME_EXTENSION_LEN \<equiv> (108 :: nat)"
abbreviation (input) "COMMON_DRV_SOURCE \<equiv> (0 :: u8)"

text \<open>The loop of \<open>QueryTaTagNode\<close> and \<open>QueryDriverTagNode\<close> from node \<open>p\<close> of a list.\<close>

partial_function (option) query_from :: "addr \<Rightarrow> tag_key \<Rightarrow> 'w tlog \<Rightarrow> addr \<Rightarrow> string option option" where
  "query_from list key s p =
     (if p = list then Some None
      else do {
        ti \<leftarrow> tags s p;
        if ti_key ti = key then Some (Some (ti_name ti))
        else do { n \<leftarrow> get_next (tag_links s) p; query_from list key s n }
      })"

definition query_list :: "addr \<Rightarrow> tag_key \<Rightarrow> 'w tlog \<Rightarrow> string option option" where
  "query_list list key s = do {
     e \<leftarrow> LIST_EMPTY (tag_links s) list;
     if e then Some None else do { p \<leftarrow> get_next (tag_links s) list; query_from list key s p }
   }"

definition QueryTaTagNode :: "u8 list \<Rightarrow> 'w tlog \<Rightarrow> string option option" where
  "QueryTaTagNode uuid s = query_list g_taTagList (TaKey uuid) s"

definition QueryDriverTagNode :: "u8 \<Rightarrow> 'w tlog \<Rightarrow> string option option" where
  "QueryDriverTagNode driverType s = query_list g_driverTagList (DriverKey driverType) s"

definition QueryTagNode :: "bool \<Rightarrow> LogItem \<Rightarrow> 'w tlog \<Rightarrow> string option option" where
  "QueryTagNode isTa item s =
     (if isTa then QueryTaTagNode (li_uuid item) s else QueryDriverTagNode (li_logSourceType item) s)"

text \<open>
  \<open>strchr\<close> from an offset of a byte array: the position of the first occurrence before the NUL, or null.
  A search that runs over the end of the array is undefined behaviour.
\<close>

fun strchr_at :: "u8 list \<Rightarrow> nat \<Rightarrow> u8 \<Rightarrow> nat option option" where
  "strchr_at [] off c = None"
| "strchr_at (b # bs) (Suc off) c = map_option (map_option Suc) (strchr_at bs off c)"
| "strchr_at (b # bs) 0 c =
     (if b = c then Some (Some 0) else if b = 0 then Some None
      else map_option (map_option Suc) (strchr_at bs 0 c))"

text \<open>The last \<open>'-'\<close> between two positions.\<close>

definition GetMiddleChar :: "u8 list \<Rightarrow> nat \<Rightarrow> nat \<Rightarrow> nat option" where
  "GetMiddleChar buf startStr endStr =
     List.find (\<lambda>i. buf ! i = byte_of (CHR ''-'')) (rev [startStr..<endStr + 1])"

text \<open>The length that \<open>GetLogItemTag\<close> returns and the tag that it writes.\<close>

definition GetLogItemTag :: "securec \<Rightarrow> u8 list \<Rightarrow> LogItem \<Rightarrow> nat \<Rightarrow> (nat \<times> string) option" where
  "GetLogItemTag sc buf item tagStrLen = do {
     startStr \<leftarrow> strchr_at buf (li_logBuffer item) (byte_of (CHR ''[''));
     endStr \<leftarrow> strchr_at buf (li_logBuffer item) (byte_of (CHR '']''));
     case (startStr, endStr) of
       (Some st, Some en) \<Rightarrow>
         if int en - int st \<le> 1 \<or> int en - int st + 1 > int TA_NAME_EXTENSION_LEN then Some (0, [])
         else let middleStr = GetMiddleChar buf st en
         in if (case middleStr of None \<Rightarrow> False | Some m \<Rightarrow> m - st - 1 > SERVICE_NAME_MAX) then Some (0, [])
            else let tagLen = (case middleStr of Some m \<Rightarrow> m - st - 1 | None \<Rightarrow> en - st - 1);
                     (rc, t) = memcpy_s sc tagStrLen (map chr_of (take tagLen (drop (st + 1) buf)))
                 in if rc \<noteq> 0 then Some (0, [])
                    else let tagLen = (if tagStrLen = tagLen then tagStrLen - 1 else tagLen)
                         in Some (tagLen, take tagLen t)
     | _ \<Rightarrow> Some (0, [])
   }"

text \<open>A new tag at the end of a list; the result is the return code.\<close>

definition insert_tag :: "'w logos \<Rightarrow> addr \<Rightarrow> tag_key \<Rightarrow> string \<Rightarrow> addr \<Rightarrow> 'w tlog \<Rightarrow> (int \<times> 'w tlog) option" where
  "insert_tag os list key tagName mem s =
     (let (a, s) = lcall (px_malloc os (lused_mem s) 48) s
      in if a = NULL then Some (- 1, s)
         else do {
           let s = s\<lparr>tags := (tags s)(a \<mapsto> \<lparr>ti_key = key, ti_name = tagName, ti_mem = mem\<rparr>)\<rparr>;
           let h = (tag_links s)(a \<mapsto> \<lparr>next = NULL, prev = NULL\<rparr>);
           h \<leftarrow> ListInit h a;
           h \<leftarrow> ListInsertTail h list a;
           Some (0, s\<lparr>tag_links := h\<rparr>)
         })"

text \<open>
  \<open>InsertTaTagNode\<close>: the copy of the UUID has the size of its destination.  In both functions the NUL
  that \<open>tagName[tagLen - 1] = 0\<close> writes is there already.
\<close>

definition InsertTaTagNode :: "'w logos \<Rightarrow> string \<Rightarrow> addr \<Rightarrow> LogItem \<Rightarrow> 'w tlog \<Rightarrow> (int \<times> 'w tlog) option" where
  "InsertTaTagNode os tagName mem item s = insert_tag os g_taTagList (TaKey (li_uuid item)) tagName mem s"

definition InsertDriverTagNode :: "'w logos \<Rightarrow> string \<Rightarrow> addr \<Rightarrow> LogItem \<Rightarrow> 'w tlog \<Rightarrow> (int \<times> 'w tlog) option" where
  "InsertDriverTagNode os tagName mem item s =
     insert_tag os g_driverTagList (DriverKey (li_logSourceType item)) tagName mem s"

definition InsertTagNode :: "'w logos \<Rightarrow> bool \<Rightarrow> string \<Rightarrow> addr \<Rightarrow> LogItem \<Rightarrow> 'w tlog \<Rightarrow> (int \<times> 'w tlog) option" where
  "InsertTagNode os isTa tagName mem item s =
     (if isTa then InsertTaTagNode os tagName mem item s else InsertDriverTagNode os tagName mem item s)"

text \<open>The tag, or \<open>None\<close> where \<open>GetTagName\<close> returns false.\<close>

definition GetTagName :: "securec \<Rightarrow> 'w logos \<Rightarrow> bool \<Rightarrow> LogItem \<Rightarrow> 'w tlog \<Rightarrow> (string option \<times> 'w tlog) option" where
  "GetTagName sc os isTa item s = do {
     known \<leftarrow> QueryTagNode isTa item s;
     if known \<noteq> None then Some (known, s)
     else do {
       (taTagTempLen, logItemTag) \<leftarrow> GetLogItemTag sc (g_logBuffer s) item (SERVICE_NAME_MAX + 1);
       if taTagTempLen = 0 then Some (None, s)
       else let tagLen = taTagTempLen + length ''teeos-'' + 1;
                (mem, s) = lmalloc os tagLen s
       in if mem = NULL then Some (None, s)
          else let (r, tagName) = snprintf_s sc tagLen (tagLen - 1) (''teeos-'' @ logItemTag)
          in if r < 0 then do { s \<leftarrow> lfree mem s; Some (None, s) }
             else do {
               (r, s) \<leftarrow> InsertTagNode os isTa tagName mem item s;
               if r < 0 then do { s \<leftarrow> lfree mem s; Some (None, s) }
               else Some (Some tagName, s)
             }
     }
   }"

definition JudgeLogTag :: "securec \<Rightarrow> 'w logos \<Rightarrow> LogItem \<Rightarrow> bool \<Rightarrow> 'w tlog \<Rightarrow> (string \<times> 'w tlog) option" where
  "JudgeLogTag sc os item isTa s =
     (if isTa \<or> li_logSourceType item > COMMON_DRV_SOURCE
      then do {
        (t, s) \<leftarrow> GetTagName sc os isTa item s;
        Some (case t of Some t \<Rightarrow> t | None \<Rightarrow> LOG_TEEOS_TAG, s)
      }
      else Some (LOG_TEEOS_TAG, s))"

section \<open>Releasing the tags\<close>

text \<open>
  The loop of \<open>FreeTaTagNode\<close> and \<open>FreeDriverTagNode\<close> at \<open>node\<close> with \<open>n\<close> the next node.  The node is
  handed to \<open>ListRemoveTail\<close> as if it were the head of the list.
\<close>

partial_function (option) free_from :: "addr \<Rightarrow> addr \<Rightarrow> addr \<Rightarrow> 'w tlog \<Rightarrow> 'w tlog option" where
  "free_from list node n s =
     (if node = list then Some s
      else do {
        ti \<leftarrow> tags s node;
        (_, h) \<leftarrow> ListRemoveTail (tag_links s) node;
        s \<leftarrow> lfree (ti_mem ti) s;
        let s = s\<lparr>tags := (tags s)(node := None), tag_links := h(node := None)\<rparr>;
        n' \<leftarrow> get_next (tag_links s) n;
        free_from list n n' s
      })"

definition free_list :: "addr \<Rightarrow> 'w tlog \<Rightarrow> 'w tlog option" where
  "free_list list s = do {
     e \<leftarrow> LIST_EMPTY (tag_links s) list;
     if e then Some s
     else do {
       node \<leftarrow> get_next (tag_links s) list;
       n \<leftarrow> get_next (tag_links s) node;
       free_from list node n s
     }
   }"

definition FreeTaTagNode :: "'w tlog \<Rightarrow> 'w tlog option" where
  "FreeTaTagNode s = free_list g_taTagList s"

definition FreeDriverTagNode :: "'w tlog \<Rightarrow> 'w tlog option" where
  "FreeDriverTagNode s = free_list g_driverTagList s"

definition FreeTagNode :: "'w tlog \<Rightarrow> 'w tlog option" where
  "FreeTagNode s = do { s \<leftarrow> FreeDriverTagNode s; FreeTaTagNode s }"

section \<open>The system log\<close>

abbreviation (input) "LOG_DOMAIN_TEEOS \<equiv> (0xD005B01 :: u32)"
abbreviation (input) "LOG_DOMAIN_PLATDRV \<equiv> (0xD005BFE :: u32)"
abbreviation (input) "LOG_DOMAIN_UNKNOWN \<equiv> (0x5BFF :: u32)"
abbreviation (input) "TEE_LOG_LEVEL_INFO \<equiv> (2 :: u8)"

definition g_log_domain_info :: "(u32 \<times> string) list" where
  "g_log_domain_info = [
     (0x5B01, ''A0F02C44F7A5469194C498565A44D934''),
     (0x5B02, ''5FCE3EA5FA714152A30FF46BE8C924BF''),
     (0x5B03, ''6F4EAE1E2EC249678B6875554F36E8FA''),
     (0x5B04, ''49FBC428AF4411ECB9090242AC120002''),
     (0x5B05, ''1074B0CA3EFB42C9AB6378711E542B1B''),
     (0x5B06, ''A3A7796FD071475B918B6E0C71316069''),
     (0x5B07, ''D77C4D60D2794425AFA87F94559EAE16''),
     (0x5B08, ''D902F26F71534E46A79C94844AF8B007''),
     (0x5B09, ''DCA5AE8A769E4E24896B7D06442C1C0E''),
     (0x5B0A, ''E8014913E5014D44A9D6058EC3B93B90''),
     (0x5B0B, ''F4A8816DB6FB4D4FA2B97DAE573313C0''),
     (0x5B0C, ''54FF868F0D8D44959D958E24B2A08274''),
     (0x5B0D, ''86310D18565947C9B212841A3CA4F814''),
     (0x5B0E, ''A423E43DABFD441FB89D39E39F3D7F65''),
     (0x5B0F, ''EBEED547CF6A4592B0F12AE4A8CD43DA''),
     (0x5B10, ''FD1BBFB29A624B278FDBA503529076AF''),
     (0x5B11, ''95B9AD1E0AF8420198910DBE8602F35F''),
     (0x5B12, ''A32B3D00CB5711E39C1A0800200C9A66''),
     (0x5B13, ''4AE7BA5128104CEEABBEA42307B4ACE3''),
     (0x5B14, ''4D06A2AAD05A46F4AD58DE2D758070C9''),
     (0x5B15, ''9DB3A5C655F643AE8DAD6F4BF9FDBA55''),
     (0x5B16, ''C123C6435B5B4C9F9098BB09564D6EDA''),
     (0x5B18, ''ABE89147CD61F43F71C41A317E405312''),
     (0x5B19, ''2F4A54A12B3D4EC7914EC4F770905F7A''),
     (0x5B1A, ''7E60394321226F7990D0B2D8A7801025''),
     (0x5B1B, ''9FC2B7115FFA43909C457A1AF90F99AE''),
     (0x5B1C, ''B2733D6C3DE54BAE8BD955A2C528B6AA''),
     (0x5B1D, ''F8028DCAABA011E680F576304DEC7EB7'')]"

definition TeeGetTaLogDomain :: "securec \<Rightarrow> u8 list \<Rightarrow> u32" where
  "TeeGetTaLogDomain sc uuid =
     (let uuidAscii = GetUuidStr sc uuid UUID_MAX_STR_LEN
      in case List.find (\<lambda>(d, u). uuidAscii = u) g_log_domain_info of Some (d, _) \<Rightarrow> d | None \<Rightarrow> LOG_DOMAIN_UNKNOWN)"

text \<open>\<open>txt\<close> are the \<open>bufferLen\<close> bytes of the item in \<open>g_logItemBuffer\<close>.\<close>

definition TeeGetTeeosOrPlatdrvLogDomain :: "u8 \<Rightarrow> string \<Rightarrow> u32" where
  "TeeGetTeeosOrPlatdrvLogDomain logSourceType txt =
     (if logSourceType \<noteq> 0 then LOG_DOMAIN_PLATDRV
      else let i = length (takeWhile (\<lambda>c. c \<noteq> CHR ''['') txt)
           in if length txt - i > length ''platdrv'' \<and> strncmp0 (drop (i + 1) txt) ''platdrv'' (length ''platdrv'')
              then LOG_DOMAIN_PLATDRV else LOG_DOMAIN_TEEOS)"

definition ShouldSkipLogPrint :: "u32 \<Rightarrow> u8 \<Rightarrow> bool" where
  "ShouldSkipLogPrint logDomain logLevel \<longleftrightarrow> logDomain = LOG_DOMAIN_PLATDRV \<and> logLevel = TEE_LOG_LEVEL_INFO"

definition hiLogLevel :: "u8 \<Rightarrow> log_level" where
  "hiLogLevel l = (if unat l < 5 then [LOG_ERROR, LOG_WARN, LOG_INFO, LOG_DEBUG, LOG_DEBUG] ! unat l else LOG_INFO)"

text \<open>The result is the value of \<open>*skipPrivLog\<close>.\<close>

definition TeeHilogPrint ::
  "securec \<Rightarrow> 'w logos \<Rightarrow> LogItem \<Rightarrow> string \<Rightarrow> bool \<Rightarrow> 'w tlog \<Rightarrow> (bool \<times> 'w tlog) option" where
  "TeeHilogPrint sc os item txt isTa s =
     (let log_domain = (if isTa then TeeGetTaLogDomain sc (li_uuid item)
                        else TeeGetTeeosOrPlatdrvLogDomain (li_logSourceType item) txt)
      in if ShouldSkipLogPrint log_domain (li_logLevel item) then Some (True, s)
         else do {
           (logTag, s) \<leftarrow> JudgeLogTag sc os item isTa s;
           Some (False, s\<lparr>lworld := lo_hilog os
             \<lparr>hl_type = (if isTa then LOG_APP else LOG_CORE), hl_level = hiLogLevel (li_logLevel item),
              hl_domain = log_domain, hl_tag = logTag, hl_index = li_serialNo item,
              hl_text = takeWhile (\<lambda>c. c \<noteq> CHR 0x00) txt\<rparr> (lworld s)\<rparr>)
         })"

definition LogWriteSysLog :: "securec \<Rightarrow> 'w logos \<Rightarrow> LogItem \<Rightarrow> bool \<Rightarrow> 'w tlog \<Rightarrow> (bool \<times> 'w tlog) option" where
  "LogWriteSysLog sc os item isTa s =
     (if li_logRealLen item = 0 then Some (False, s)
      else do {
        real \<leftarrow> get_bytes (g_logBuffer s) (li_logBuffer item) (li_logRealLen item);
        let (rc, t) = memcpy_s sc LOG_ITEM_MAX_LEN (map chr_of real);
        if rc \<noteq> 0 then Some (False, s)
        else do {
          let txt = t[li_logRealLen item - 1 := CHR 0x00];
          let s = s\<lparr>g_logItemBuffer := map byte_of txt @ drop (length txt) (g_logItemBuffer s)\<rparr>;
          TeeHilogPrint sc os item txt isTa s
        }
      })"

end
