(* ===== verification/Tlog_Item.thy ===== *)
theory Tlog_Item
  imports Tlog_Table Tlog_Tag
begin

text \<open>
  Reading the log (\<open>src/services/tlogcat/src/tlogcat.c\<close>): the items in a buffer that the log device
  delivered, what is done with an item, and the loops of the reader around them.
\<close>

section \<open>Items of a buffer\<close>

abbreviation (input) "LOG_ITEM_MAGIC \<equiv> (0x5A5A :: nat)"
abbreviation (input) "LOG_ITEM_LEN_ALIGN \<equiv> (64 :: nat)"
abbreviation (input) "LOG_READ_STATUS_ERROR \<equiv> (0x000FFFF :: int)"
abbreviation (input) "MAX_TEE_VERSION_LEN \<equiv> (256 :: nat)"

text \<open>The item at an offset of the buffer, \<open>Some None\<close> for the null pointer.\<close>

definition LogItemGetNext :: "u8 list \<Rightarrow> nat \<Rightarrow> nat \<Rightarrow> LogItem option option" where
  "LogItemGetNext buf off scopeLen = do {
     it \<leftarrow> log_item buf off;
     let itemMaxSize = (if scopeLen > LOG_ITEM_MAX_LEN then LOG_ITEM_MAX_LEN else scopeLen);
     Some (if li_magic it = LOG_ITEM_MAGIC \<and> li_logBufferLen it > 0 \<and> li_logRealLen it > 0 \<and>
              li_logBufferLen it mod LOG_ITEM_LEN_ALIGN = 0 \<and> li_logRealLen it \<le> li_logBufferLen it \<and>
              li_logBufferLen it - li_logRealLen it < LOG_ITEM_LEN_ALIGN \<and>
              li_logBufferLen it + sizeof_LogItem \<le> itemMaxSize
           then Some it else None)
   }"

definition WriteLogFile :: "securec \<Rightarrow> bool \<Rightarrow> 'w logos \<Rightarrow> LogItem \<Rightarrow> 'w tlog \<Rightarrow> 'w tlog option" where
  "WriteLogFile sc sg os it s = do {
     let isTa = IsTaUuid (li_uuid it);
     (skipPrivLog, s) \<leftarrow> LogWriteSysLog sc os it isTa s;
     if skipPrivLog then Some s
     else do {
       real \<leftarrow> get_bytes (g_logBuffer s) (li_logBuffer it) (li_logRealLen it);
       WritePrivateLogFile sc sg os (li_uuid it) real isTa s
     }
   }"

text \<open>Printing puts a NUL after the text, or over its last character if the text fills its buffer.\<close>

definition OutputLog :: "securec \<Rightarrow> bool \<Rightarrow> 'w logos \<Rightarrow> LogItem \<Rightarrow> bool \<Rightarrow> 'w tlog \<Rightarrow> 'w tlog option" where
  "OutputLog sc sg os it writeFile s =
     (if writeFile then WriteLogFile sc sg os it s
      else do {
        let i = (if li_logRealLen it < li_logBufferLen it then li_logRealLen it else li_logRealLen it - 1);
        buf \<leftarrow> arr_set (g_logBuffer s) (li_logBuffer it + i) 0;
        t \<leftarrow> cstr buf (li_logBuffer it);
        Some (s\<lparr>g_logBuffer := buf, stdout := stdout s @ [t]\<rparr>)
      })"

text \<open>
  The loop of \<open>ReadLogBuffer\<close> with \<open>tot\<close> bytes done (\<open>logItemTotalLen\<close>).  An item is never empty, so
  the loop ends.
\<close>

function read_items :: "securec \<Rightarrow> bool \<Rightarrow> 'w logos \<Rightarrow> bool \<Rightarrow> nat \<Rightarrow> nat \<Rightarrow> LogItem option \<Rightarrow> 'w tlog \<Rightarrow> 'w tlog option" where
  "read_items sc sg os writeFile readLen tot None s = Some s"
| "read_items sc sg os writeFile readLen tot (Some it) s = do {
     s \<leftarrow> OutputLog sc sg os it writeFile s;
     if tot + (li_logBufferLen it + sizeof_LogItem) \<ge> readLen then Some s
     else do {
       nxt \<leftarrow> LogItemGetNext (g_logBuffer s) (li_logBuffer it + li_logBufferLen it)
                (readLen - (tot + (li_logBufferLen it + sizeof_LogItem)));
       read_items sc sg os writeFile readLen (tot + (li_logBufferLen it + sizeof_LogItem)) nxt s
     }
   }"
  by pat_completeness auto
termination by (relation "measure (\<lambda>(sc, sg, os, wf, readLen, tot, it, s). readLen - tot)") auto

definition ReadLogBuffer :: "securec \<Rightarrow> bool \<Rightarrow> 'w logos \<Rightarrow> bool \<Rightarrow> nat \<Rightarrow> 'w tlog \<Rightarrow> 'w tlog option" where
  "ReadLogBuffer sc sg os writeFile readLen s = do {
     it \<leftarrow> LogItemGetNext (g_logBuffer s) 0 readLen;
     read_items sc sg os writeFile readLen 0 it s
   }"

section \<open>The loops of the reader\<close>

text \<open>
  The loop at \<open>READ_RETRY\<close>; it returns -1, and \<open>None\<close> stands for a device that always has more to read.
  The comparison with \<open>LOG_READ_STATUS_ERROR\<close> comes after the one with the length of the buffer.
\<close>

partial_function (option) read_retry :: "securec \<Rightarrow> bool \<Rightarrow> 'w logos \<Rightarrow> bool \<Rightarrow> 'w tlog \<Rightarrow> (int \<times> 'w tlog) option" where
  "read_retry sc sg os writeFile s =
     (let ((r, bs), s) = lcall (lo_read os (g_devFd s) LOG_BUFFER_LEN) s;
          s = s\<lparr>g_logBuffer := bs @ drop (length bs) (g_logBuffer s)\<rparr>
      in if r = 0 then Some (- 1, s)
         else if r < 0 then Some (- 1, s)
         else if r > int LOG_BUFFER_LEN then Some (- 1, s)
         else if r = LOG_READ_STATUS_ERROR then read_retry sc sg os writeFile s
         else do {
           s \<leftarrow> ReadLogBuffer sc sg os writeFile (nat r) s;
           read_retry sc sg os writeFile s
         })"

definition ProcReadLog :: "securec \<Rightarrow> bool \<Rightarrow> 'w logos \<Rightarrow> bool \<Rightarrow> bool \<Rightarrow> 'w tlog \<Rightarrow> (int \<times> 'w tlog) option" where
  "ProcReadLog sc sg os writeFile isset s =
     (if isset then read_retry sc sg os writeFile s else Some (0, s))"

text \<open>The wait of \<open>Func\<close> for the log device: the result of \<open>select\<close> and whether the device is ready.\<close>

partial_function (option) select_retry :: "'w logos \<Rightarrow> 'w tlog \<Rightarrow> ((int \<times> bool) \<times> 'w tlog) option" where
  "select_retry os s =
     (let ((r, isset), s) = lcall (lo_select os (g_devFd s)) s
      in if r = - 1 \<and> lerrno os s = 4 then select_retry os s else Some ((r, isset), s))"

text \<open>One round of the endless loop of \<open>Func\<close>.\<close>

definition func_round :: "securec \<Rightarrow> bool \<Rightarrow> 'w logos \<Rightarrow> bool \<Rightarrow> 'w tlog \<Rightarrow> 'w tlog option" where
  "func_round sc sg os writeFile s = do {
     s \<leftarrow> LogFilesClose sc sg os s;
     ((result, isset), s) \<leftarrow> select_retry os s;
     if result < 0 then Some s
     else do {
       (r, s) \<leftarrow> ProcReadLog sc sg os writeFile isset s;
       if r \<noteq> 0 then Some s
       else do { s \<leftarrow> LogFilesClose sc sg os s; FreeTagNode s }
     }
   }"

section \<open>Starting\<close>

abbreviation (input) "MAX_TEE_LOG_SUBFOLDER_LEN \<equiv> (30 :: nat)"

definition GetTeePathGroup :: "'w logos \<Rightarrow> 'w tlog \<Rightarrow> 'w tlog" where
  "GetTeePathGroup os s =
     (let ((r, gid), s) = lcall (lo_stat_gid os TEE_LOG_PATH_BASE) s
      in if r \<noteq> 0 then s else s\<lparr>g_teePathGroup := gid\<rparr>)"

definition GetTeeLogPath :: "securec \<Rightarrow> 'w logos \<Rightarrow> 'w tlog \<Rightarrow> int \<times> 'w tlog" where
  "GetTeeLogPath sc os s =
     (if strnlen TEE_LOG_PATH_BASE FILE_NAME_MAX_BUF \<ge> FILE_NAME_MAX_BUF \<or>
         strnlen TEE_LOG_SUBFOLDER MAX_TEE_LOG_SUBFOLDER_LEN \<ge> MAX_TEE_LOG_SUBFOLDER_LEN then (- 1, s)
      else let s = GetTeePathGroup os s;
               (r, p) = snprintf_s sc FILE_NAME_MAX_BUF (FILE_NAME_MAX_BUF - 1) (TEE_LOG_PATH_BASE @ ''/'' @ TEE_LOG_SUBFOLDER @ ''/'');
               s = s\<lparr>g_teePath := p\<rparr>
           in if r < 0 then (- 1, s)
              else let (r, p) = snprintf_s sc FILE_NAME_MAX_BUF (FILE_NAME_MAX_BUF - 1) (g_teePath s @ ''/'' @ ''_tmp'' @ ''/'');
                       s = s\<lparr>g_teeTempPath := p\<rparr>
                   in if r < 0 then (- 1, s) else (0, s))"

definition LogSetReadposCur :: "'w logos \<Rightarrow> 'w tlog \<Rightarrow> 'w tlog" where
  "LogSetReadposCur os s =
     (if g_devFd s < 0 then s
      else let (_, s) = lcall (lo_ioctl os (g_devFd s) TEELOGGER_SET_READERPOS_CUR) s in s\<lparr>g_readposCur := True\<rparr>)"

definition LogSetTlogcatF :: "'w logos \<Rightarrow> 'w tlog \<Rightarrow> int \<times> 'w tlog" where
  "LogSetTlogcatF os s =
     (if g_devFd s < 0 then (- 1, s) else lcall (lo_ioctl os (g_devFd s) TEELOGGER_SET_TLOGCAT_STAT) s)"

definition LogGetTlogcatF :: "'w logos \<Rightarrow> 'w tlog \<Rightarrow> int \<times> 'w tlog" where
  "LogGetTlogcatF os s =
     (if g_devFd s < 0 then (- 1, s) else lcall (lo_ioctl os (g_devFd s) TEELOGGER_GET_TLOGCAT_STAT) s)"

section \<open>Reading stays inside the data\<close>

text \<open>An accepted item lies inside the scope that was given.\<close>

lemma LogItemGetNext_Some:
  assumes "LogItemGetNext buf off scope = Some (Some it)"
  shows "li_logBuffer it = off + 64" "0 < li_logRealLen it" "li_logRealLen it \<le> li_logBufferLen it"
    "0 < li_logBufferLen it" "li_logBufferLen it mod 64 = 0" "li_logBufferLen it + 64 \<le> scope" "li_logBufferLen it \<le> 960"
    "off + 64 \<le> length buf"
  using assms by (auto simp: LogItemGetNext_def log_item_def Let_def split: if_splits)

lemma LogItemGetNext_defined: "off + 64 \<le> length buf \<Longrightarrow> LogItemGetNext buf off scope \<noteq> None"
  by (simp add: LogItemGetNext_def log_item_def Let_def)

lemma cstr_update:
  assumes "off \<le> i" "i < length buf"
  obtains t where "cstr (buf[i := 0]) off = Some t" "length t \<le> i - off"
proof -
  let ?b = "drop off (buf[i := 0])"
  have i: "?b ! (i - off) = 0" "i - off < length ?b" using assms by simp_all
  then have "0 \<in> set ?b" by (metis nth_mem)
  moreover have "length (takeWhile (\<lambda>b. b \<noteq> 0) ?b) \<le> i - off"
  proof (rule ccontr)
    assume "\<not> ?thesis"
    then have "i - off < length (takeWhile (\<lambda>b. b \<noteq> 0) ?b)" by simp
    then have "takeWhile (\<lambda>b. b \<noteq> 0) ?b ! (i - off) \<in> set (takeWhile (\<lambda>b. b \<noteq> 0) ?b)"
      "takeWhile (\<lambda>b. b \<noteq> 0) ?b ! (i - off) = ?b ! (i - off)" by (rule nth_mem, rule takeWhile_nth)
    with i(1) show False by (auto dest: set_takeWhileD)
  qed
  ultimately show ?thesis by (intro that [of "map chr_of (takeWhile (\<lambda>b. b \<noteq> 0) ?b)"]) (simp_all add: cstr_def)
qed

text \<open>What printing the items of a buffer may do.\<close>

definition printed :: "nat \<Rightarrow> 'w tlog \<Rightarrow> 'w tlog \<Rightarrow> bool" where
  "printed n s s' \<longleftrightarrow> (\<exists>buf ts. s' = s\<lparr>g_logBuffer := buf, stdout := stdout s @ ts\<rparr> \<and>
     length buf = length (g_logBuffer s) \<and> drop n buf = drop n (g_logBuffer s) \<and> (\<forall>t \<in> set ts. length t < LOG_ITEM_MAX_LEN))"

lemma printedI:
  "length buf = length (g_logBuffer s) \<Longrightarrow> drop n buf = drop n (g_logBuffer s) \<Longrightarrow> (\<And>t. t \<in> set ts \<Longrightarrow> length t < LOG_ITEM_MAX_LEN) \<Longrightarrow>
   printed n s (s\<lparr>g_logBuffer := buf, stdout := stdout s @ ts\<rparr>)"
  unfolding printed_def by blast

lemma printed_refl: "printed n s s"
  using printedI [of "g_logBuffer s" s n "[]"] by simp

lemma printed_length: "printed n s s' \<Longrightarrow> length (g_logBuffer s') = length (g_logBuffer s)"
  unfolding printed_def by (elim exE conjE) simp

lemma printed_trans: "printed n s s' \<Longrightarrow> printed n s' s'' \<Longrightarrow> printed n s s''"
proof -
  assume "printed n s s'" "printed n s' s''"
  then obtain b ts b' ts' where
    1: "s' = s\<lparr>g_logBuffer := b, stdout := stdout s @ ts\<rparr>" "length b = length (g_logBuffer s)" "drop n b = drop n (g_logBuffer s)"
      "\<forall>t \<in> set ts. length t < LOG_ITEM_MAX_LEN"
    and 2: "s'' = s'\<lparr>g_logBuffer := b', stdout := stdout s' @ ts'\<rparr>" "length b' = length (g_logBuffer s')" "drop n b' = drop n (g_logBuffer s')"
      "\<forall>t \<in> set ts'. length t < LOG_ITEM_MAX_LEN"
    unfolding printed_def by metis
  have "s'' = s\<lparr>g_logBuffer := b', stdout := stdout s @ (ts @ ts')\<rparr>" using 1(1) 2(1) by simp
  moreover have "length b' = length (g_logBuffer s)" "drop n b' = drop n (g_logBuffer s)" using 1 2 by simp_all
  moreover have "\<forall>t \<in> set (ts @ ts'). length t < LOG_ITEM_MAX_LEN" using 1(4) 2(4) by auto
  ultimately show ?thesis unfolding printed_def by blast
qed

lemma OutputLog_printed:
  assumes it: "LogItemGetNext (g_logBuffer s) off scope = Some (Some it)" and n: "off + scope \<le> n" "n \<le> length (g_logBuffer s)"
  shows "ok (OutputLog sc sg os it False s) (printed n s)"
proof -
  note f = LogItemGetNext_Some [OF it]
  let ?i = "if li_logRealLen it < li_logBufferLen it then li_logRealLen it else li_logRealLen it - 1"
  let ?k = "li_logBuffer it + ?i"
  have i: "?i < li_logBufferLen it" using f by auto
  then have k: "?k < n" "?k < length (g_logBuffer s)" "li_logBuffer it \<le> ?k" using f n by auto
  obtain t where t: "cstr ((g_logBuffer s)[?k := 0]) (li_logBuffer it) = Some t" "length t \<le> ?k - li_logBuffer it"
    using cstr_update [OF k(3,2)] by metis
  have "length t < LOG_ITEM_MAX_LEN" using t(2) i f(7) by simp
  moreover have "drop n ((g_logBuffer s)[?k := 0]) = drop n (g_logBuffer s)" using k(1) by simp
  ultimately have "printed n s (s\<lparr>g_logBuffer := (g_logBuffer s)[?k := 0], stdout := stdout s @ [t]\<rparr>)"
    by (intro printedI) simp_all
  with t(1) k(2) show ?thesis by (simp add: OutputLog_def Let_def)
qed

lemma mult64_less: "a mod 64 = 0 \<Longrightarrow> b mod 64 = 0 \<Longrightarrow> a < b \<Longrightarrow> a + 64 \<le> (b :: nat)"
  by (auto simp: mod_eq_0_iff_dvd elim!: dvdE)

lemma read_items_printed:
  assumes "length (g_logBuffer s) mod 64 = 0" "readLen \<le> length (g_logBuffer s)" "tot mod 64 = 0" "tot \<le> readLen"
    and "LogItemGetNext (g_logBuffer s) tot (readLen - tot) = Some it"
  shows "ok (read_items sc sg os False readLen tot it s) (printed readLen s)"
  using assms
proof (induction sc sg os "False" readLen tot it s rule: read_items.induct)
  case (1 sc sg os readLen tot s)
  show ?case by (simp add: printed_refl)
next
  case (2 sc sg os readLen tot it s)
  note f = LogItemGetNext_Some [OF "2.prems"(5)]
  have "ok (OutputLog sc sg os it False s) (printed readLen s)"
    using "2.prems" by (intro OutputLog_printed [OF "2.prems"(5)]) simp_all
  then obtain s1 where o: "OutputLog sc sg os it False s = Some s1" and p: "printed readLen s s1" by (rule okE)
  note len = printed_length [OF p]
  let ?tot = "tot + (li_logBufferLen it + 64)"
  show ?case
  proof (cases "?tot \<ge> readLen")
    case True
    with o p show ?thesis by simp
  next
    case False
    have m: "?tot mod 64 = 0" using "2.prems"(3) f(5) by (simp add: mod_eq_0_iff_dvd)
    have "?tot + 64 \<le> length (g_logBuffer s1)"
      using False "2.prems"(1,2) len by (intro mult64_less m) simp_all
    then obtain nxt where nx: "LogItemGetNext (g_logBuffer s1) ?tot (readLen - ?tot) = Some nxt"
      using LogItemGetNext_defined by (metis not_None_eq)
    have off: "li_logBuffer it + li_logBufferLen it = ?tot" using f(1) by simp
    have "ok (read_items sc sg os False readLen ?tot nxt s1) (printed readLen s1)"
      using False "2.prems" len m nx by (intro "2.hyps" [OF o]) (simp_all add: off)
    then have "ok (read_items sc sg os False readLen ?tot nxt s1) (printed readLen s)"
      by (rule ok_mono) (rule printed_trans [OF p])
    with o False nx off show ?thesis by (simp add: ac_simps)
  qed
qed


section \<open>The format of the log\<close>

text \<open>A log entry and the item that carries it.\<close>

record entry =
  en_serialNo :: u32
  en_uuid :: "u8 list"
  en_source :: u8
  en_level :: u8
  en_text :: "u8 list"

definition entry_ok :: "entry \<Rightarrow> bool" where
  "entry_ok e \<longleftrightarrow> length (en_uuid e) = TEE_UUID_LEN \<and> 0 < length (en_text e) \<and> length (en_text e) \<le> 960"

definition padded :: "entry \<Rightarrow> nat" where
  "padded e = (length (en_text e) + 63) div 64 * 64"

definition item_head :: "entry \<Rightarrow> u8 list" where
  "item_head e = replicate 32 0 @ [0x5A, 0x5A, 0, 0] @ le_bytes (en_serialNo e) @
     take 2 (le_bytes (of_nat (length (en_text e)))) @ take 2 (le_bytes (of_nat (padded e))) @
     en_uuid e @ [en_source e, 0, en_level e, 10]"

definition encode_item :: "entry \<Rightarrow> u8 list" where
  "encode_item e = item_head e @ en_text e @ replicate (padded e - length (en_text e)) 0"

definition item_of :: "nat \<Rightarrow> entry \<Rightarrow> LogItem" where
  "item_of off e = \<lparr>li_magic = LOG_ITEM_MAGIC, li_serialNo = en_serialNo e, li_logRealLen = length (en_text e),
     li_logBufferLen = padded e, li_uuid = en_uuid e, li_logSourceType = en_source e, li_logLevel = en_level e,
     li_logBuffer = off + 64\<rparr>"

lemma padded_bounds:
  assumes "entry_ok e"
  shows "length (en_text e) \<le> padded e" "padded e - length (en_text e) < 64" "padded e \<le> 960" "padded e mod 64 = 0" "0 < padded e"
proof -
  let ?n = "length (en_text e)"
  have "(?n + 63) mod 64 + padded e = ?n + 63" unfolding padded_def by (rule mod_mult_div_eq [of "?n + 63" 64, unfolded mult.commute [of 64]])
  moreover have "(?n + 63) mod 64 < 64" by simp
  moreover have "0 < ?n" "?n \<le> 960" using assms by (simp_all add: entry_ok_def)
  moreover have "padded e mod 64 = 0" by (simp add: padded_def)
  moreover have "padded e \<le> 960"
  proof -
    have "(?n + 63) div 64 \<le> (960 + 63) div 64" using \<open>?n \<le> 960\<close> by (intro div_le_mono) simp
    then show ?thesis by (simp add: padded_def)
  qed
  ultimately show "?n \<le> padded e" "padded e - ?n < 64" "padded e \<le> 960" "padded e mod 64 = 0" "0 < padded e" by linarith+
qed

lemma le_field_prefix: "le_field (pre @ xs) (length pre + k) n = le_field xs k n"
  by (simp add: le_field_def nth_append add.assoc)

lemma le_field_bytes:
  assumes "n \<le> 4"
  shows "le_field (take n (le_bytes w) @ zs) 0 n = take_bit (8 * n) w"
proof (rule bit_word_eqI)
  fix k assume "k < LENGTH(32)"
  then have k: "k < 32" by simp
  have at: "(take n (le_bytes w) @ zs) ! i = ucast (drop_bit (8 * i) w)" if "i < n" for i
    using that assms by (simp add: nth_append le_bytes_def)
  have "bit (le_field (take n (le_bytes w) @ zs) 0 n) k \<longleftrightarrow>
      (\<exists>i<n. 8 * i \<le> k \<and> bit (ucast (drop_bit (8 * i) w) :: u8) (k - 8 * i))"
    using k by (simp add: le_field_def bit_foldr_bytes at Bex_def cong: conj_cong)
  also have "\<dots> \<longleftrightarrow> bit (take_bit (8 * n) w) k"
  proof
    assume "\<exists>i<n. 8 * i \<le> k \<and> bit (ucast (drop_bit (8 * i) w) :: u8) (k - 8 * i)"
    then show "bit (take_bit (8 * n) w) k" by (auto simp: bit_simps)
  next
    assume b: "bit (take_bit (8 * n) w) k"
    then have "k < 8 * n" "bit w k" by (simp_all add: bit_simps)
    moreover have "8 * (k div 8) \<le> k" "k - 8 * (k div 8) < 8" by auto
    ultimately show "\<exists>i<n. 8 * i \<le> k \<and> bit (ucast (drop_bit (8 * i) w) :: u8) (k - 8 * i)"
      by (intro exI [of _ "k div 8"]) (auto simp: bit_simps)
  qed
  finally show "bit (le_field (take n (le_bytes w) @ zs) 0 n) k = bit (take_bit (8 * n) w) k" .
qed

lemma le_field_at:
  assumes "n \<le> 4" "length xs = k"
  shows "le_field (xs @ take n (le_bytes w) @ zs) k n = take_bit (8 * n) w"
  using le_field_prefix [of xs "take n (le_bytes w) @ zs" 0 n] le_field_bytes [OF assms(1)] assms(2) by simp

lemma length_head [simp]: "length (en_uuid e) = 16 \<Longrightarrow> length (item_head e) = 64"
  by (simp add: item_head_def)

lemma head_fields:
  assumes "length (en_uuid e) = 16"
  shows "le_field (item_head e @ zs) 32 2 = 0x5A5A" "le_field (item_head e @ zs) 36 4 = en_serialNo e"
    "le_field (item_head e @ zs) 40 2 = take_bit 16 (of_nat (length (en_text e)))"
    "le_field (item_head e @ zs) 42 2 = take_bit 16 (of_nat (padded e))"
    "take 16 (drop 44 (item_head e @ zs)) = en_uuid e" "(item_head e @ zs) ! 60 = en_source e" "(item_head e @ zs) ! 62 = en_level e"
proof -
  let ?a = "replicate 32 (0 :: u8)" and ?b = "[0x5A, 0x5A, 0, 0 :: u8]"
  let ?r = "take 2 (le_bytes (of_nat (length (en_text e))))" and ?p = "take 2 (le_bytes (of_nat (padded e)))"
  let ?t = "[en_source e, 0, en_level e, 10] @ zs"
  have h: "item_head e @ zs = ?a @ ?b @ le_bytes (en_serialNo e) @ ?r @ ?p @ en_uuid e @ ?t"
    by (simp add: item_head_def)
  show "le_field (item_head e @ zs) 32 2 = 0x5A5A" unfolding h by (simp add: le_field_def nth_append upt_rec)
  show "le_field (item_head e @ zs) 36 4 = en_serialNo e"
    using le_field_at [of 4 "?a @ ?b" 36 "en_serialNo e" "?r @ ?p @ en_uuid e @ ?t"] unfolding h by (simp add: take_bit_word_eq_self)
  show "le_field (item_head e @ zs) 40 2 = take_bit 16 (of_nat (length (en_text e)))"
    using le_field_at [of 2 "?a @ ?b @ le_bytes (en_serialNo e)" 40 _ "?p @ en_uuid e @ ?t"] unfolding h by simp
  show "le_field (item_head e @ zs) 42 2 = take_bit 16 (of_nat (padded e))"
    using le_field_at [of 2 "?a @ ?b @ le_bytes (en_serialNo e) @ ?r" 42 _ "en_uuid e @ ?t"] unfolding h by simp
  show "take 16 (drop 44 (item_head e @ zs)) = en_uuid e" unfolding h using assms by simp
  show "(item_head e @ zs) ! 60 = en_source e" "(item_head e @ zs) ! 62 = en_level e"
    unfolding h using assms by (simp_all add: nth_append)
qed

lemma unat_take16: "n < 65536 \<Longrightarrow> unat (take_bit 16 (of_nat n :: u32)) = n"
proof -
  assume "n < 65536"
  then have "n mod 2 ^ LENGTH(32) = n" "take_bit 16 n = n" by (simp_all add: take_bit_nat_eq_self)
  then show ?thesis by (simp only: unsigned_take_bit_eq unat_of_nat)
qed

lemma log_item_encoded:
  assumes "entry_ok e"
  shows "log_item (pre @ encode_item e @ rest) (length pre) = Some (item_of (length pre) e)"
proof -
  let ?zs = "en_text e @ replicate (padded e - length (en_text e)) 0 @ rest"
  have u: "length (en_uuid e) = 16" using assms by (simp add: entry_ok_def)
  have n: "length (en_text e) < 65536" "padded e < 65536" using assms padded_bounds(3) [OF assms] by (simp_all add: entry_ok_def)
  have e: "pre @ encode_item e @ rest = pre @ (item_head e @ ?zs)" by (simp add: encode_item_def)
  have nth: "(pre @ (item_head e @ ?zs)) ! (length pre + k) = (item_head e @ ?zs) ! k" for k by (simp add: nth_append)
  have drp: "drop (length pre + k) (pre @ (item_head e @ ?zs)) = drop k (item_head e @ ?zs)" for k by simp
  show ?thesis unfolding e log_item_def item_of_def le_field_prefix nth drp head_fields [OF u] using u n by (simp add: unat_take16)
qed


text \<open>What is printed of an entry: its text, without the last character if the text fills the item.\<close>

definition shown :: "entry \<Rightarrow> string" where
  "shown e = map chr_of (if length (en_text e) < padded e then en_text e else butlast (en_text e))"

lemma cstr_bytes: "0 \<notin> set bs \<Longrightarrow> length pre = n \<Longrightarrow> cstr (pre @ bs @ 0 # zs) n = Some (map chr_of bs)"
proof -
  assume a: "0 \<notin> set bs" "length pre = n"
  have "CHR 0x00 \<notin> set (map chr_of bs)"
  proof
    assume "CHR 0x00 \<in> set (map chr_of bs)"
    then obtain b where b: "b \<in> set bs" "chr_of b = CHR 0x00" by auto
    then have "byte_of (chr_of b) = 0" by (simp del: byte_of_chr_of)
    with a(1) b(1) show False by simp
  qed
  from cstr_at [OF this, of pre zs] a show ?thesis by (simp add: comp_def)
qed

lemma OutputLog_item:
  assumes e: "entry_ok e" "0 \<notin> set (en_text e)" and b: "g_logBuffer s = pre @ encode_item e @ rest"
  obtains blk where "length blk = length (encode_item e)"
    "OutputLog sc sg os (item_of (length pre) e) False s =
       Some (s\<lparr>g_logBuffer := pre @ blk @ rest, stdout := stdout s @ [shown e]\<rparr>)"
proof -
  let ?t = "en_text e"
  have u: "length (en_uuid e) = 16" using e by (simp add: entry_ok_def)
  have n: "length ?t \<le> padded e" "0 < length ?t" using padded_bounds(1) [OF e(1)] e(1) by (simp_all add: entry_ok_def)
  show ?thesis
  proof (cases "length ?t < padded e")
    case True
    let ?z = "replicate (padded e - length ?t - 1) (0 :: u8) @ rest"
    have eq: "pre @ encode_item e @ rest = (pre @ item_head e) @ ?t @ 0 # ?z"
      using True by (simp add: encode_item_def Suc_diff_Suc flip: replicate_Suc)
    have upd: "((pre @ item_head e) @ ?t @ 0 # ?z)[length pre + 64 + length ?t := 0] = (pre @ item_head e) @ ?t @ 0 # ?z"
      using u by (simp add: list_update_append)
    have "cstr ((pre @ item_head e) @ ?t @ 0 # ?z) (length pre + 64) = Some (map chr_of ?t)"
      using u e(2) by (intro cstr_bytes) simp_all
    then have "OutputLog sc sg os (item_of (length pre) e) False s =
        Some (s\<lparr>g_logBuffer := pre @ encode_item e @ rest, stdout := stdout s @ [shown e]\<rparr>)"
      using True u unfolding OutputLog_def item_of_def Let_def b eq shown_def
      by (simp add: arr_set_def upd [simplified])
    then show ?thesis by (rule that [OF refl])
  next
    case False
    then have full: "length ?t = padded e" using n by simp
    have t: "?t = butlast ?t @ [last ?t]" using n by (intro append_butlast_last_id [symmetric]) auto
    have eq: "pre @ encode_item e @ rest = (pre @ item_head e) @ butlast ?t @ last ?t # rest"
      using full t by (simp add: encode_item_def)
    have upd: "((pre @ item_head e) @ butlast ?t @ last ?t # rest)[length pre + 64 + (length ?t - 1) := 0] =
        (pre @ item_head e) @ butlast ?t @ 0 # rest"
      using u by (simp add: list_update_append)
    have "0 \<notin> set (butlast ?t)" using e(2) by (auto dest: in_set_butlastD)
    then have c: "cstr ((pre @ item_head e) @ butlast ?t @ 0 # rest) (length pre + 64) = Some (map chr_of (butlast ?t))"
      using u by (intro cstr_bytes) simp_all
    have i: "length pre + 64 + (length ?t - 1) < length ((pre @ item_head e) @ butlast ?t @ last ?t # rest)"
      using u n by simp
    have "arr_set (g_logBuffer s) (length pre + 64 + (length ?t - 1)) 0 = Some ((pre @ item_head e) @ butlast ?t @ 0 # rest)"
      unfolding b eq using arr_set_in [OF i] upd by simp
    then have "OutputLog sc sg os (item_of (length pre) e) False s =
        Some (s\<lparr>g_logBuffer := pre @ (item_head e @ butlast ?t @ [0]) @ rest, stdout := stdout s @ [shown e]\<rparr>)"
      using False c full by (simp add: OutputLog_def item_of_def shown_def)
    moreover have "length (item_head e @ butlast ?t @ [0]) = length (encode_item e)"
      using u n full by (simp add: encode_item_def)
    ultimately show ?thesis by (intro that)
  qed
qed

lemma length_encode: "entry_ok e \<Longrightarrow> length (encode_item e) = padded e + 64"
  using padded_bounds(1) [of e] by (simp add: encode_item_def entry_ok_def)

lemma LogItemGetNext_encoded:
  assumes "entry_ok e" "length (encode_item e) \<le> scope"
  shows "LogItemGetNext (pre @ encode_item e @ rest) (length pre) scope = Some (Some (item_of (length pre) e))"
  using assms(2) padded_bounds [OF assms(1)] assms(1) unfolding length_encode [OF assms(1)]
  by (simp add: LogItemGetNext_def log_item_encoded [OF assms(1)] item_of_def entry_ok_def)

lemma read_items_encoded:
  assumes "\<And>e. e \<in> set (e0 # es) \<Longrightarrow> entry_ok e \<and> 0 \<notin> set (en_text e)"
    and "g_logBuffer s = pre @ concat (map encode_item (e0 # es)) @ rest"
  shows "\<exists>buf. read_items sc sg os False (length pre + length (concat (map encode_item (e0 # es)))) (length pre) (Some (item_of (length pre) e0)) s =
    Some (s\<lparr>g_logBuffer := buf, stdout := stdout s @ map shown (e0 # es)\<rparr>)"
  using assms
proof (induction es arbitrary: e0 pre s)
  case Nil
  obtain blk where "length blk = length (encode_item e0)" and o: "OutputLog sc sg os (item_of (length pre) e0) False s =
       Some (s\<lparr>g_logBuffer := pre @ blk @ rest, stdout := stdout s @ [shown e0]\<rparr>)"
    using OutputLog_item [of e0 s pre rest sc sg os] Nil by auto
  then show ?case using Nil length_encode [of e0] by (intro exI [of _ "pre @ blk @ rest"]) (simp add: item_of_def)
next
  case (Cons e1 es)
  have e0: "entry_ok e0" "0 \<notin> set (en_text e0)" and e1: "entry_ok e1" using Cons.prems(1) by auto
  let ?more = "concat (map encode_item es) @ rest"
  obtain blk where blk: "length blk = length (encode_item e0)" and o: "OutputLog sc sg os (item_of (length pre) e0) False s =
       Some (s\<lparr>g_logBuffer := pre @ blk @ encode_item e1 @ ?more, stdout := stdout s @ [shown e0]\<rparr>)"
    using OutputLog_item [OF e0, of s pre "encode_item e1 @ ?more" sc sg os] Cons.prems(2) by auto
  let ?s = "s\<lparr>g_logBuffer := (pre @ blk) @ encode_item e1 @ ?more, stdout := stdout s @ [shown e0]\<rparr>"
  let ?n = "length pre + length (concat (map encode_item (e0 # e1 # es)))"
  have off: "length (pre @ blk) = length pre + (padded e0 + 64)" using blk length_encode [OF e0(1)] by simp
  have n: "?n = length (pre @ blk) + length (concat (map encode_item (e1 # es)))" using blk by simp
  obtain buf where IH: "read_items sc sg os False ?n (length (pre @ blk)) (Some (item_of (length (pre @ blk)) e1)) ?s =
      Some (?s\<lparr>g_logBuffer := buf, stdout := stdout ?s @ map shown (e1 # es)\<rparr>)"
    using Cons.IH [of e1 ?s "pre @ blk"] Cons.prems(1) unfolding n by auto
  have nx: "LogItemGetNext ((pre @ blk) @ encode_item e1 @ ?more) (length (pre @ blk)) (?n - length (pre @ blk)) =
      Some (Some (item_of (length (pre @ blk)) e1))"
    by (rule LogItemGetNext_encoded [OF e1]) (simp add: blk)
  have lt: "\<not> length pre + (padded e0 + 64) \<ge> ?n" using length_encode [OF e0(1)] length_encode [OF e1] by simp
  have "read_items sc sg os False ?n (length pre) (Some (item_of (length pre) e0)) s =
      Some (?s\<lparr>g_logBuffer := buf, stdout := stdout ?s @ map shown (e1 # es)\<rparr>)"
  proof -
    have li: "li_logBufferLen (item_of (length pre) e0) = padded e0" "li_logBuffer (item_of (length pre) e0) + padded e0 = length pre + (padded e0 + 64)"
      by (simp_all add: item_of_def)
    show ?thesis
      unfolding read_items.simps o bind.bind_lunit li if_not_P [OF lt] using nx IH unfolding off by simp
  qed
  then show ?case by (intro exI [of _ buf]) simp
qed

end
