(* ===== verification/Tlog_Reader.thy ===== *)
theory Tlog_Reader
  imports Tlog_Item
begin

text \<open>
  The rounds of the log reader keep the table of log files in step with the open streams, whatever the
  log device delivers and whatever the operating system answers.
\<close>

section \<open>The system log leaves the log files alone\<close>

definition same_tab :: "'w tlog \<Rightarrow> 'w tlog \<Rightarrow> bool" where
  "same_tab s s' \<longleftrightarrow> g_logBuffer s' = g_logBuffer s \<and> g_files s' = g_files s \<and> lstreams s' = lstreams s"

lemma same_tab_refl [simp]: "same_tab s s"
  by (simp add: same_tab_def)

lemma same_tab_trans: "same_tab s s' \<Longrightarrow> same_tab s' s'' \<Longrightarrow> same_tab s s''"
  by (simp add: same_tab_def)

lemma same_tab_upd [simp]:
  "same_tab s (s'\<lparr>lworld := w\<rparr>) = same_tab s s'" "same_tab s (s'\<lparr>tags := t\<rparr>) = same_tab s s'"
  "same_tab s (s'\<lparr>tag_links := h\<rparr>) = same_tab s s'" "same_tab s (s'\<lparr>lmem := m\<rparr>) = same_tab s s'"
  "same_tab s (s'\<lparr>g_logItemBuffer := b\<rparr>) = same_tab s s'" "same_tab s (s'\<lparr>stdout := ts\<rparr>) = same_tab s s'"
  by (simp_all add: same_tab_def)

lemma same_tab_tabs: "same_tab s s' \<Longrightarrow> tabs s' = tabs s"
  by (simp add: same_tab_def tabs_def)

lemma lmalloc_same: "lmalloc os n s = (a, s') \<Longrightarrow> same_tab s s'"
  by (auto simp: lmalloc_def lcall_pair Let_def split: if_splits)

lemma lfree_same: "lfree a s = Some s' \<Longrightarrow> same_tab s s'"
  by (auto simp: lfree_def split: if_splits)

lemma insert_tag_same: "insert_tag os l k t m s = Some (r, s') \<Longrightarrow> same_tab s s'"
  by (auto simp: insert_tag_def lcall_pair Let_def split: if_splits bind_splits)

lemma InsertTagNode_same: "InsertTagNode os isTa t m it s = Some (r, s') \<Longrightarrow> same_tab s s'"
  by (auto simp: InsertTagNode_def InsertTaTagNode_def InsertDriverTagNode_def split: if_splits dest: insert_tag_same)

lemma GetTagName_same: "GetTagName sc os isTa it s = Some (r, s') \<Longrightarrow> same_tab s s'"
  by (auto simp: GetTagName_def Let_def split: if_splits bind_splits prod.splits
      dest!: lmalloc_same lfree_same InsertTagNode_same intro: same_tab_trans)

lemma LogWriteSysLog_same: "LogWriteSysLog sc os it isTa s = Some (r, s') \<Longrightarrow> same_tab s s'"
  by (auto simp: LogWriteSysLog_def TeeHilogPrint_def JudgeLogTag_def Let_def split: if_splits bind_splits prod.splits
      dest!: GetTagName_same) (auto simp: same_tab_def)


section \<open>The table through a round\<close>

lemma ltab_buffer: "ltab s s' \<Longrightarrow> tabs s' \<and> g_logBuffer s' = g_logBuffer s"
  by (simp add: ltab_def lkeep_def lcore_def)

lemma WriteLogFile_tabs:
  assumes "securec_ok sc" "handles_ok os" "tabs s" "WriteLogFile sc sg os it s = Some s'"
  shows "tabs s' \<and> g_logBuffer s' = g_logBuffer s"
proof -
  let ?ta = "IsTaUuid (li_uuid it)"
  obtain skip s1 where w: "LogWriteSysLog sc os it ?ta s = Some (skip, s1)"
    using assms(4) by (auto simp: WriteLogFile_def Let_def split: bind_splits)
  note same = LogWriteSysLog_same [OF w]
  have t1: "tabs s1" "g_logBuffer s1 = g_logBuffer s" using same assms(3) by (simp_all add: same_tab_def tabs_def)
  show ?thesis
  proof (cases skip)
    case True
    with assms(4) w t1 show ?thesis by (simp add: WriteLogFile_def)
  next
    case False
    with assms(4) w obtain tx where p: "WritePrivateLogFile sc sg os (li_uuid it) tx ?ta s1 = Some s'"
      by (auto simp: WriteLogFile_def Let_def split: bind_splits)
    from ok_result [OF WritePrivateLogFile_ok [OF assms(1,2) t1(1)] p] show ?thesis
      using t1 by (auto dest: ltab_buffer)
  qed
qed

lemma OutputLog_tabs:
  assumes "securec_ok sc" "handles_ok os" "tabs s" "OutputLog sc sg os it wr s = Some s'"
  shows "tabs s'"
  using assms WriteLogFile_tabs [OF assms(1-3)]
  by (cases wr) (auto simp: OutputLog_def tabs_def Let_def split: bind_splits)

lemma read_items_tabs:
  assumes "securec_ok sc" "handles_ok os"
  shows "tabs s \<Longrightarrow> read_items sc sg os wr readLen tot it s = Some s' \<Longrightarrow> tabs s'"
  using assms
proof (induction sc sg os wr readLen tot it s rule: read_items.induct)
  case (2 sc sg os wr readLen tot it s)
  then obtain s1 where o: "OutputLog sc sg os it wr s = Some s1" by (auto split: bind_splits)
  have "tabs s1" using OutputLog_tabs [OF 2(4,5,2) o] .
  with 2 o show ?case by (auto split: if_splits bind_splits)
qed simp

lemma ReadLogBuffer_tabs:
  assumes "securec_ok sc" "handles_ok os" "tabs s" "ReadLogBuffer sc sg os wr n s = Some s'"
  shows "tabs s'"
  using assms read_items_tabs [OF assms(1,2,3)] by (auto simp: ReadLogBuffer_def split: bind_splits)

lemma read_retry_tabs:
  assumes ok: "securec_ok sc" "handles_ok os"
  shows "read_retry sc sg os wr s = Some r \<Longrightarrow> tabs s \<Longrightarrow> tabs (snd r)"
proof -
  have "sc' = sc \<and> os' = os \<and> tabs s \<longrightarrow> tabs (snd r)" if "read_retry sc' sg os' wr s = Some r" for sc' os'
    using that
  proof (rule read_retry.raw_induct [rotated])
    fix rr sc' sg os' wr s r
    assume IH: "\<And>sc' sg os' wr s r. rr sc' sg os' wr s = Some r \<Longrightarrow> sc' = sc \<and> os' = os \<and> tabs s \<longrightarrow> tabs (snd r)"
      and body: "(let ((r, bs), s) = lcall (lo_read os' (g_devFd s) LOG_BUFFER_LEN) s;
          s = s\<lparr>g_logBuffer := bs @ drop (length bs) (g_logBuffer s)\<rparr>
        in if r = 0 then Some (- 1, s) else if r < 0 then Some (- 1, s) else if r > int LOG_BUFFER_LEN then Some (- 1, s)
           else if r = LOG_READ_STATUS_ERROR then rr sc' sg os' wr s
           else ReadLogBuffer sc' sg os' wr (nat r) s \<bind> rr sc' sg os' wr) = Some r"
    obtain q bs w where c: "lcall (lo_read os' (g_devFd s) LOG_BUFFER_LEN) s = ((q, bs), s\<lparr>lworld := w\<rparr>)"
      by (rule lcallE [of "lo_read os' (g_devFd s) LOG_BUFFER_LEN" s]) (metis surj_pair)
    let ?s = "s\<lparr>g_logBuffer := bs @ drop (length bs) (g_logBuffer s), lworld := w\<rparr>"
    show "sc' = sc \<and> os' = os \<and> tabs s \<longrightarrow> tabs (snd r)"
    proof (intro impI, elim conjE)
      assume a: "sc' = sc" "os' = os" "tabs s"
      then have t: "tabs ?s" by (simp add: tabs_def)
      show "tabs (snd r)"
        using body c t IH a ReadLogBuffer_tabs [OF ok t] by (cases r) (auto simp: Let_def split: if_splits bind_splits)
    qed
  qed
  then show "read_retry sc sg os wr s = Some r \<Longrightarrow> tabs s \<Longrightarrow> tabs (snd r)" by blast
qed

lemma select_retry_tabs: "select_retry os s = Some r \<Longrightarrow> tabs s \<longrightarrow> tabs (snd r)"
proof (rule select_retry.raw_induct [rotated], assumption)
  fix sr and os :: "'a logos" and s r
  assume IH: "\<And>os s r. sr os s = Some r \<Longrightarrow> tabs s \<longrightarrow> tabs (snd r)"
    and body: "(let ((r, isset), s) = lcall (lo_select os (g_devFd s)) s
      in if r = - 1 \<and> lerrno os s = 4 then sr os s else Some ((r, isset), s)) = Some r"
  have "tabs (s\<lparr>lworld := w\<rparr>) = tabs s" for w by (simp add: tabs_def)
  with IH body show "tabs s \<longrightarrow> tabs (snd r)" by (auto simp: lcall_pair case_prod_beta split: if_splits)
qed

lemma free_from_tabs: "free_from l a n s = Some s' \<Longrightarrow> tabs s \<longrightarrow> tabs s'"
proof (rule free_from.raw_induct [rotated], assumption)
  fix ff l a n and s s' :: "'a tlog"
  assume IH: "\<And>l a n s s'. ff l a n s = Some s' \<Longrightarrow> tabs s \<longrightarrow> tabs s'"
    and body: "(if a = l then Some s
      else do {
        ti \<leftarrow> tags s a;
        (_, h) \<leftarrow> ListRemoveTail (tag_links s) a;
        s \<leftarrow> lfree (ti_mem ti) s;
        let s = s\<lparr>tags := (tags s)(a := None), tag_links := h(a := None)\<rparr>;
        n' \<leftarrow> get_next (tag_links s) n;
        ff l n n' s
      }) = Some s'"
  have "tabs (s1\<lparr>tags := t, tag_links := h\<rparr>) = tabs s" if "lfree m s = Some s1" for s1 t h m
    using lfree_same [OF that] by (simp add: tabs_def same_tab_def)
  with IH body show "tabs s \<longrightarrow> tabs s'" by (fastforce split: if_splits bind_splits)
qed

lemma FreeTagNode_tabs: "FreeTagNode s = Some s' \<Longrightarrow> tabs s \<Longrightarrow> tabs s'"
  by (auto simp: FreeTagNode_def FreeDriverTagNode_def FreeTaTagNode_def free_list_def split: if_splits bind_splits
      dest!: free_from_tabs)

lemma func_round_tabs:
  assumes "securec_ok sc" "handles_ok os" "tabs s" "func_round sc sg os wr s = Some s'"
  shows "tabs s'"
proof -
  have close: "tabs s'" if "LogFilesClose sc sg os s = Some s'" "tabs s" for s s'
    using ok_result [OF LogFilesClose_ok [OF assms(1,2) that(2)] that(1)] by (simp add: ltab_def)
  obtain s1 where c: "LogFilesClose sc sg os s = Some s1" using assms(4) by (auto simp: func_round_def split: bind_splits)
  obtain r b s2 where w: "select_retry os s1 = Some ((r, b), s2)" using assms(4) c by (auto simp: func_round_def split: bind_splits)
  have t2: "tabs s2" using select_retry_tabs [OF w] close [OF c assms(3)] by simp
  show ?thesis
  proof (cases "r < 0")
    case True
    with assms(4) c w t2 show ?thesis by (simp add: func_round_def)
  next
    case False
    with assms(4) c w obtain q s3 where p: "ProcReadLog sc sg os wr b s2 = Some (q, s3)"
      by (auto simp: func_round_def split: bind_splits)
    have t3: "tabs s3" using p read_retry_tabs [OF assms(1,2), of sg wr s2 "(q, s3)"] t2 by (auto simp: ProcReadLog_def split: if_splits)
    with False assms(4) c w p show ?thesis
      by (auto simp: func_round_def split: if_splits bind_splits dest: close FreeTagNode_tabs)
  qed
qed

section \<open>The rounds of the reader\<close>

definition log_init :: "'w tlog \<Rightarrow> bool" where
  "log_init s \<longleftrightarrow> g_files s = replicate LOG_FILES_MAX empty_slot \<and> lstreams s = Map.empty"

inductive log_step :: "securec \<Rightarrow> bool \<Rightarrow> 'w logos \<Rightarrow> 'w tlog \<Rightarrow> 'w tlog \<Rightarrow> bool" for sc sg os where
  round: "func_round sc sg os wr s = Some s' \<Longrightarrow> log_step sc sg os s s'"

inductive_cases log_stepE: "log_step sc sg os s s'"

lemma log_init_tabs: "log_init s \<Longrightarrow> tabs s"
  by (simp add: log_init_def tabs_def tab_ok_def slot_used_def)

interpretation reader: invariant log_init "log_step sc sg os" "\<lambda>s. securec_ok sc \<and> handles_ok os \<longrightarrow> tabs s"
  for sc sg and os :: "'w logos"
proof
  fix s s' :: "'w tlog"
  show "log_init s \<Longrightarrow> securec_ok sc \<and> handles_ok os \<longrightarrow> tabs s" by (simp add: log_init_tabs)
  show "securec_ok sc \<and> handles_ok os \<longrightarrow> tabs s \<Longrightarrow> log_step sc sg os s s' \<Longrightarrow> securec_ok sc \<and> handles_ok os \<longrightarrow> tabs s'"
    by (auto elim!: log_stepE intro: func_round_tabs)
qed

lemma reach_tabs: "reach log_init (log_step sc sg os) s \<Longrightarrow> securec_ok sc \<Longrightarrow> handles_ok os \<Longrightarrow> tabs s"
  using reader.reach_inv by blast

end
