(* ===== verification/Tlog_Props.thy ===== *)
theory Tlog_Props
  imports Tlog_Reader Fs_Sim
begin

text \<open>
  The properties of the log reader: it handles exactly the items of the log, stays inside the buffer, and
  leaks no stream; and three places where it does not do what it means to.
\<close>

section \<open>Handling a sequence of items\<close>

text \<open>The items of a log, one after the other, each handed to \<open>WriteLogFile\<close>.\<close>

fun write_entries :: "securec \<Rightarrow> bool \<Rightarrow> 'w logos \<Rightarrow> nat \<Rightarrow> entry list \<Rightarrow> 'w tlog \<Rightarrow> 'w tlog option" where
  "write_entries sc sg os off [] s = Some s"
| "write_entries sc sg os off (e # es) s = do {
     s \<leftarrow> WriteLogFile sc sg os (item_of off e) s;
     write_entries sc sg os (off + length (encode_item e)) es s
   }"

lemma read_items_written:
  assumes ok: "securec_ok sc" "handles_ok os" and "\<And>e. e \<in> set (e0 # es) \<Longrightarrow> entry_ok e" and "tabs s"
    and "g_logBuffer s = pre @ concat (map encode_item (e0 # es)) @ rest"
  shows "read_items sc sg os True (length pre + length (concat (map encode_item (e0 # es)))) (length pre) (Some (item_of (length pre) e0)) s =
    write_entries sc sg os (length pre) (e0 # es) s"
  using assms(3-5)
proof (induction es arbitrary: e0 pre s)
  case Nil
  then show ?case using length_encode [of e0]
    by (cases "WriteLogFile sc sg os (item_of (length pre) e0) s") (simp_all add: OutputLog_def item_of_def)
next
  case (Cons e1 es)
  have e0: "entry_ok e0" and e1: "entry_ok e1" using Cons.prems(1) by auto
  let ?n = "length pre + length (concat (map encode_item (e0 # e1 # es)))"
  let ?pre = "pre @ encode_item e0"
  have off: "length ?pre = length pre + (padded e0 + 64)" using length_encode [OF e0] by simp
  have n: "?n = length ?pre + length (concat (map encode_item (e1 # es)))" by simp
  have lt: "\<not> length pre + (padded e0 + 64) \<ge> ?n" using length_encode [OF e0] length_encode [OF e1] by simp
  have li: "li_logBufferLen (item_of (length pre) e0) = padded e0" "li_logBuffer (item_of (length pre) e0) + padded e0 = length pre + (padded e0 + 64)"
    by (simp_all add: item_of_def)
  show ?case
  proof (cases "WriteLogFile sc sg os (item_of (length pre) e0) s")
    case None
    then show ?thesis by (simp add: OutputLog_def)
  next
    case (Some s1)
    have t: "tabs s1" and b: "g_logBuffer s1 = ?pre @ concat (map encode_item (e1 # es)) @ rest"
      using WriteLogFile_tabs [OF ok Cons.prems(2) Some] Cons.prems(3) by simp_all
    have IH: "read_items sc sg os True ?n (length ?pre) (Some (item_of (length ?pre) e1)) s1 = write_entries sc sg os (length ?pre) (e1 # es) s1"
      unfolding n by (rule Cons.IH [OF _ t b]) (use Cons.prems(1) in auto)
    have nx: "LogItemGetNext (g_logBuffer s1) (length ?pre) (?n - length ?pre) = Some (Some (item_of (length ?pre) e1))"
      using LogItemGetNext_encoded [OF e1, of "?n - length ?pre" ?pre "concat (map encode_item es) @ rest"] by (simp add: b)
    have out: "OutputLog sc sg os (item_of (length pre) e0) True s = Some s1" by (simp add: OutputLog_def Some)
    have "read_items sc sg os True ?n (length pre) (Some (item_of (length pre) e0)) s = write_entries sc sg os (length ?pre) (e1 # es) s1"
      unfolding read_items.simps out bind.bind_lunit li if_not_P [OF lt] using nx IH unfolding off by simp
    then show ?thesis using Some by (simp add: length_encode [OF e0])
  qed
qed

section \<open>A small operating system for the log reader\<close>

definition simlo :: "simw logos" where
  "simlo = posix.extend simpx (logos.fields
     (\<lambda>used fd w. (if used 0x2000 then NULL else 0x2000, w))
     (\<lambda>fd m w. (0, w)) (\<lambda>fd g w. (0, w))
     (\<lambda>p w. ((if p \<in> set (sw_files w) then 0 else - 1, True, 512000), w))
     (\<lambda>p w. ((0, 1000), w))
     (\<lambda>used fd w. (if used 0x3000 then NULL else 0x3000, w))
     (\<lambda>f bs w. (int (length bs), w)) (\<lambda>f w. w)
     (\<lambda>e w. w) (\<lambda>fd q w. (0, w)) (\<lambda>w. ''TEE 1.0'')
     (\<lambda>fd w. ((1, True), w)) (\<lambda>fd n w. ((0, []), w)))"

lemma simlo_ok: "handles_ok simlo"
  by (simp add: handles_ok_def fresh_ok_def simlo_def posix.defs logos.defs simpx_def)

definition slog0 :: "u8 list \<Rightarrow> simw tlog" where
  "slog0 buf = \<lparr>g_files = replicate LOG_FILES_MAX empty_slot, g_teePath = ''/data/log/tee/'', g_teeTempPath = ''/data/log/tee//_tmp/'',
     g_teePathGroup = 1000, g_teeVersion = ''TEE 1.0'', g_uuidAscii = [], g_logName = [], g_logNameCompress = [], g_compressFile = None,
     g_compressUuid = replicate 16 0, g_logBuffer = buf, g_logItemBuffer = replicate 1024 0, g_devFd = 3, g_readposCur = False,
     tags = Map.empty, tag_links = [g_driverTagList \<mapsto> \<lparr>next = g_driverTagList, prev = g_driverTagList\<rparr>,
       g_taTagList \<mapsto> \<lparr>next = g_taTagList, prev = g_taTagList\<rparr>],
     lmem = {}, lstreams = Map.empty, lfds = {3}, lgz = Map.empty, stdout = [],
     lworld = \<lparr>sw_dirs = [''/data/log''], sw_files = [], sw_src = [], sw_dst = [], sw_queue = [], sw_errno = 17\<rparr>\<rparr>"

definition entry0 :: entry where
  "entry0 = \<lparr>en_serialNo = 7, en_uuid = replicate 16 1, en_source = 0, en_level = 2, en_text = map byte_of ''[hello-3] start''\<rparr>"

lemma slog0_init: "log_init (slog0 buf)"
  by (simp add: log_init_def slog0_def)

lemma entry0_ok: "entry_ok entry0" "0 \<notin> set (en_text entry0)" "length (encode_item entry0) = 128"
proof -
  have "0 \<notin> set (map byte_of ''[hello-3] start'')" by (auto simp: byte_of_eq_0)
  then show "0 \<notin> set (en_text entry0)" by (simp only: entry0_def entry.select_convs not_False_eq_True)
  show e: "entry_ok entry0" by (simp add: entry_ok_def entry0_def)
  show "length (encode_item entry0) = 128" using length_encode [OF e] by (simp add: padded_def entry0_def)
qed

section \<open>Where the reader goes wrong\<close>

text \<open>
  \<open>GetLogItemTag\<close> searches the text of an item as a C string, but the text has no NUL of its own: if
  neither a NUL nor the bracket follows in the buffer, the search runs over its end.
\<close>

lemma strchr_at_overrun: "0 \<notin> set (drop off bs) \<Longrightarrow> c \<notin> set (drop off bs) \<Longrightarrow> strchr_at bs off c = None"
  by (induction bs off c rule: strchr_at.induct) auto

lemma tag_search_overruns:
  assumes "0 \<notin> set (drop (li_logBuffer it) buf)" "byte_of (CHR ''['') \<notin> set (drop (li_logBuffer it) buf)"
  shows "GetLogItemTag sc buf it n = None"
  using strchr_at_overrun [OF assms] by (simp add: GetLogItemTag_def)

text \<open>
  After \<open>FreeTaTagNode\<close> the head of the list still points to the tag that was freed, so the next look-up
  reads freed memory.
\<close>

definition one_tag :: "u8 list \<Rightarrow> simw tlog" where
  "one_tag u = (slog0 [])\<lparr>tags := [0x100 \<mapsto> \<lparr>ti_key = TaKey u, ti_name = ''teeos-ta'', ti_mem = 0x200\<rparr>],
     tag_links := [g_driverTagList \<mapsto> \<lparr>next = g_driverTagList, prev = g_driverTagList\<rparr>,
       g_taTagList \<mapsto> \<lparr>next = 0x100, prev = 0x100\<rparr>, 0x100 \<mapsto> \<lparr>next = g_taTagList, prev = g_taTagList\<rparr>],
     lmem := {0x200}\<rparr>"

lemma FreeTaTagNode_dangles: "\<exists>s'. FreeTaTagNode (one_tag u) = Some s' \<and> QueryTaTagNode u s' = None"
  by (simp add: FreeTaTagNode_def free_list_def free_from.simps QueryTaTagNode_def query_list_def query_from.simps
      LIST_EMPTY_def ListRemoveTail_def ListRemoveEntry_def get_next_def get_prev_def set_next_def set_prev_def lfree_def
      one_tag_def slog0_def)

text \<open>
  The answer \<open>LOG_READ_STATUS_ERROR\<close> of the log device is larger than the buffer, so the reader gives up
  where it means to wait and read again.
\<close>

lemma status_error_gives_up:
  assumes "lo_read os (g_devFd s) LOG_BUFFER_LEN (lworld s) = ((LOG_READ_STATUS_ERROR, bs), w)"
  shows "\<exists>s'. read_retry sc sg os wr s = Some (- 1, s')"
  using assms by (subst read_retry.simps) (simp add: lcall_def)

section \<open>Properties\<close>

text \<open>
  C26. Reading a log gives back its items: when the log device has delivered the items of a list of entries
  (each with its text padded to a multiple of 64 bytes), the reader prints the text of every entry
  once and in order (without the last character where the text fills its item), and with \<open>-f\<close> it hands
  exactly these items, in order, to \<open>WriteLogFile\<close>.
\<close>

theorem log_items_roundtrip:
  assumes "securec_ok sc" and "handles_ok os" and "tab_ok (g_files s) (lstreams s)"
    and "\<forall>e \<in> set es. entry_ok e \<and> 0 \<notin> set (en_text e)"
    and "g_logBuffer s = concat (map encode_item es) @ rest" and "length (g_logBuffer s) = LOG_BUFFER_LEN"
  shows "(\<exists>buf. ReadLogBuffer sc sg os False (length (concat (map encode_item es))) s =
      Some (s\<lparr>g_logBuffer := buf, stdout := stdout s @ map shown es\<rparr>)) \<and>
    ReadLogBuffer sc sg os True (length (concat (map encode_item es))) s = write_entries sc sg os 0 es s"
proof (cases es)
  case Nil
  have "LogItemGetNext (g_logBuffer s) 0 0 = Some None"
    using assms(6) by (simp add: LogItemGetNext_def log_item_def)
  with Nil show ?thesis by (simp add: ReadLogBuffer_def) (rule exI [of _ "g_logBuffer s"], simp)
next
  case (Cons e0 es')
  have "LogItemGetNext (g_logBuffer s) 0 (length (concat (map encode_item es))) = Some (Some (item_of 0 e0))"
    using LogItemGetNext_encoded [of e0 "length (concat (map encode_item es))" "[]" "concat (map encode_item es') @ rest"]
      assms(4,5) Cons by simp
  moreover have "\<exists>buf. read_items sc sg os False (length (concat (map encode_item es))) 0 (Some (item_of 0 e0)) s =
      Some (s\<lparr>g_logBuffer := buf, stdout := stdout s @ map shown es\<rparr>)"
    using read_items_encoded [of e0 es' s "[]" rest sc sg os] assms(4,5) Cons by auto
  moreover have "read_items sc sg os True (length (concat (map encode_item es))) 0 (Some (item_of 0 e0)) s = write_entries sc sg os 0 es s"
    using read_items_written [OF assms(1,2), of e0 es' s "[]" rest sg] assms(3,4,5) Cons by (auto simp: tabs_def)
  ultimately show ?thesis by (simp add: ReadLogBuffer_def)
qed

theorem log_items_roundtrip_witness:
  "(\<exists>buf. ReadLogBuffer securec_ref True simlo False (length (concat (map encode_item [entry0])))
      (slog0 (concat (map encode_item [entry0]) @ replicate 8064 0)) =
      Some ((slog0 (concat (map encode_item [entry0]) @ replicate 8064 0))\<lparr>g_logBuffer := buf,
        stdout := stdout (slog0 (concat (map encode_item [entry0]) @ replicate 8064 0)) @ map shown [entry0]\<rparr>)) \<and>
    ReadLogBuffer securec_ref True simlo True (length (concat (map encode_item [entry0])))
      (slog0 (concat (map encode_item [entry0]) @ replicate 8064 0)) =
      write_entries securec_ref True simlo 0 [entry0] (slog0 (concat (map encode_item [entry0]) @ replicate 8064 0))"
proof (rule log_items_roundtrip [OF securec_ref_ok simlo_ok])
  show "tab_ok (g_files (slog0 (concat (map encode_item [entry0]) @ replicate 8064 0)))
      (lstreams (slog0 (concat (map encode_item [entry0]) @ replicate 8064 0)))"
    using log_init_tabs [OF slog0_init] by (simp only: tabs_def)
qed (simp_all add: entry0_ok, simp_all add: slog0_def entry0_ok)

text \<open>
  C27. Whatever bytes the log device delivers, printing them is safe: \<open>ReadLogBuffer\<close> ends, reads and writes
  only inside the buffer, changes nothing behind the \<open>readLen\<close> bytes that were read, and prints texts
  of less than 1024 characters.  (A header may be looked at behind these bytes, but it is
  rejected, and it is still inside the buffer because every item is a multiple of 64 bytes long.)
\<close>

theorem ReadLogBuffer_safe:
  assumes "length (g_logBuffer s) = LOG_BUFFER_LEN" and "readLen \<le> LOG_BUFFER_LEN"
  shows "\<exists>buf ts. ReadLogBuffer sc sg os False readLen s = Some (s\<lparr>g_logBuffer := buf, stdout := stdout s @ ts\<rparr>) \<and>
    length buf = LOG_BUFFER_LEN \<and> drop readLen buf = drop readLen (g_logBuffer s) \<and> (\<forall>t \<in> set ts. length t < LOG_ITEM_MAX_LEN)"
proof -
  obtain it where it: "LogItemGetNext (g_logBuffer s) 0 readLen = Some it"
    using LogItemGetNext_defined [of 0 "g_logBuffer s" readLen] assms(1) by (auto simp del: One_nat_def)
  have "ok (read_items sc sg os False readLen 0 it s) (printed readLen s)"
    using assms it by (intro read_items_printed) simp_all
  then obtain s' where "read_items sc sg os False readLen 0 it s = Some s'" "printed readLen s s'" by (rule okE)
  with it assms(1) show ?thesis unfolding printed_def by (auto simp: ReadLogBuffer_def)
qed

theorem ReadLogBuffer_safe_witness:
  "\<exists>buf ts. ReadLogBuffer securec_ref True simlo False 100 (slog0 (replicate 8192 0x5A)) =
      Some ((slog0 (replicate 8192 0x5A))\<lparr>g_logBuffer := buf, stdout := stdout (slog0 (replicate 8192 0x5A)) @ ts\<rparr>) \<and>
    length buf = LOG_BUFFER_LEN \<and> drop 100 buf = drop 100 (g_logBuffer (slog0 (replicate 8192 0x5A))) \<and>
    (\<forall>t \<in> set ts. length t < LOG_ITEM_MAX_LEN)"
  by (rule ReadLogBuffer_safe) (simp_all add: slog0_def)

text \<open>
  C28. In every round of the reader the table of log files and the open streams belong together: each
  slot in use has a stream of its own that is open, no other stream is open, and no two slots are
  for the same UUID.  Writing an item to its log file, with the rotation and compression of full
  files, is defined and keeps this, and leaves no descriptor, archive or block behind;
  \<open>LogFilesClose\<close> closes every stream.
\<close>

theorem log_files_exact:
  assumes "reach log_init (log_step sc sg os) s" and "securec_ok sc" and "handles_ok os"
  shows "tab_ok (g_files s) (lstreams s) \<and>
    (\<exists>s'. WritePrivateLogFile sc sg os uuid real isTa s = Some s' \<and> tab_ok (g_files s') (lstreams s') \<and>
       lfds s' = lfds s \<and> lgz s' = lgz s \<and> lmem s' = lmem s) \<and>
    (\<exists>s'. LogFilesClose sc sg os s = Some s' \<and> lstreams s' = Map.empty \<and> (\<forall>f \<in> set (g_files s'). lf_file f = NULL) \<and>
       lfds s' = lfds s \<and> lgz s' = lgz s \<and> lmem s' = lmem s)"
proof -
  have t: "tabs s" using reach_tabs [OF assms] .
  have keep: "lfds s' = lfds s \<and> lgz s' = lgz s \<and> lmem s' = lmem s" if "ltab s s'" for s'
    using that by (simp add: ltab_def lkeep_def lcore_def)
  obtain s1 where w: "WritePrivateLogFile sc sg os uuid real isTa s = Some s1" "ltab s s1"
    using WritePrivateLogFile_ok [OF assms(2,3) t] by (rule okE)
  obtain s2 where c: "LogFilesClose sc sg os s = Some s2" "ltab s s2" "lstreams s2 = Map.empty" "\<forall>f \<in> set (g_files s2). lf_file f = NULL"
    using LogFilesClose_ok [OF assms(2,3) t, of sg] by (elim okE conjE) auto
  have "tab_ok (g_files s) (lstreams s)" using t by (simp add: tabs_def)
  moreover have "tab_ok (g_files s1) (lstreams s1)" using w(2) by (simp add: ltab_def tabs_def)
  ultimately show ?thesis using w c keep [OF w(2)] keep [OF c(2)] by simp
qed


theorem log_files_exact_witness:
  "tab_ok (g_files (slog0 [])) (lstreams (slog0 [])) \<and>
    (\<exists>s'. WritePrivateLogFile securec_ref True simlo (replicate 16 1) (map byte_of ''start'') True (slog0 []) = Some s' \<and>
       tab_ok (g_files s') (lstreams s') \<and>
       lfds s' = lfds (slog0 []) \<and> lgz s' = lgz (slog0 []) \<and> lmem s' = lmem (slog0 [])) \<and>
    (\<exists>s'. LogFilesClose securec_ref True simlo (slog0 []) = Some s' \<and> lstreams s' = Map.empty \<and> (\<forall>f \<in> set (g_files s'). lf_file f = NULL) \<and>
       lfds s' = lfds (slog0 []) \<and> lgz s' = lgz (slog0 []) \<and> lmem s' = lmem (slog0 []))"
  by (rule log_files_exact [OF _ securec_ref_ok simlo_ok]) (rule reach.start, rule slog0_init)


text \<open>
  C38. Three places where the log reader does not do what it means to.  \<open>GetLogItemTag\<close> searches the text of an
  item as a C string although it has no NUL of its own: without a NUL and a bracket behind it the
  search leaves the buffer.  After \<open>FreeTaTagNode\<close> the list still leads to the freed tag, and the next
  look-up reads it.  The answer \<open>LOG_READ_STATUS_ERROR\<close> of the device makes the reader give up where
  it means to wait and read again.
\<close>

theorem log_reader_gaps:
  shows "(0 \<notin> set (drop (li_logBuffer it) buf) \<and> byte_of (CHR ''['') \<notin> set (drop (li_logBuffer it) buf) \<longrightarrow>
      GetLogItemTag sc buf it n = None) \<and>
    (\<exists>s'. FreeTaTagNode (one_tag u) = Some s' \<and> QueryTaTagNode u s' = None) \<and>
    (lo_read os (g_devFd s) LOG_BUFFER_LEN (lworld s) = ((LOG_READ_STATUS_ERROR, bs), w) \<longrightarrow>
      (\<exists>s'. read_retry sc sg os wr s = Some (- 1, s')))"
proof (intro conjI impI, goal_cases)
  case 1
  then show ?case by (elim conjE) (rule tag_search_overruns)
qed (rule FreeTaTagNode_dangles, rule status_error_gives_up)

theorem log_reader_gaps_witness:
  "GetLogItemTag securec_ref (replicate 8192 0x41) (item_of 7168 entry0) 101 = None \<and>
   (\<exists>s'. FreeTaTagNode (one_tag (replicate 16 1)) = Some s' \<and> QueryTaTagNode (replicate 16 1) s' = None) \<and>
   (\<exists>s'. read_retry securec_ref True (simlo\<lparr>lo_read := \<lambda>fd n w. ((LOG_READ_STATUS_ERROR, []), w)\<rparr>) False (slog0 (replicate 8192 0)) =
      Some (- 1, s'))"
proof -
  have "byte_of (CHR ''['') \<noteq> 0x41" by (simp add: byte_of_def)
  then show ?thesis
    using log_reader_gaps [of "item_of 7168 entry0" "replicate 8192 0x41" securec_ref 101 "replicate 16 1"
      "simlo\<lparr>lo_read := \<lambda>fd n w. ((LOG_READ_STATUS_ERROR, []), w)\<rparr>" "slog0 (replicate 8192 0)" "[]" "lworld (slog0 (replicate 8192 0))" True False]
    by simp
qed

end
