(* ===== verification/Tlog_Main.thy ===== *)
theory Tlog_Main
  imports Tlog_Props
begin

text \<open>
  The start and the end of the log reader (\<open>main\<close>, \<open>Prepare\<close>, \<open>Destruct\<close> and the options of
  \<open>src/services/tlogcat/src/tlogcat.c\<close>).  The reader itself, \<open>Func\<close>, never returns, so \<open>main\<close> either enters it
  or releases everything and returns.  The fixed texts that are printed are left out.
\<close>

section \<open>State\<close>

text \<open>
  The pointers to the two buffers, whose contents are \<open>g_logBuffer\<close> and \<open>g_files\<close> of the state of the reader, and the
  variable for the operation without options.
\<close>

record 'w tmain =
  tm_log :: "'w tlog"
  p_logBuffer :: addr
  p_files :: addr
  g_defaultOp :: bool

text \<open>A part of \<open>main\<close> returns, or it enters \<open>Func\<close> with the given argument.\<close>

datatype flow = Returns int | In_Func bool

abbreviation (input) "sizeof_LogFile \<equiv> (296 :: nat)"
abbreviation (input) "SET_TLOGCAT_F \<equiv> (1 :: int)"

section \<open>Operations\<close>

text \<open>The content of the new log buffer is arbitrary; \<open>memset_s\<close> of the whole table is successful.\<close>

definition Prepare :: "securec \<Rightarrow> 'w logos \<Rightarrow> (nat \<Rightarrow> u8) \<Rightarrow> 'w tmain \<Rightarrow> int \<times> 'w tmain" where
  "Prepare sc os fill d =
     (let (r, s) = GetTeeLogPath sc os (tm_log d)
      in if r \<noteq> 0 then (r, d\<lparr>tm_log := s\<rparr>)
         else let (a, s) = lmalloc os LOG_BUFFER_LEN s
         in if a = NULL then (- 1, d\<lparr>tm_log := s, p_logBuffer := NULL\<rparr>)
            else let s = s\<lparr>g_logBuffer := map fill [0..<LOG_BUFFER_LEN]\<rparr>;
                     (b, s) = lmalloc os (sizeof_LogFile * LOG_FILES_MAX) s
            in if b = NULL then (- 1, d\<lparr>tm_log := s, p_logBuffer := a, p_files := NULL\<rparr>)
               else let s = s\<lparr>g_files := replicate LOG_FILES_MAX empty_slot\<rparr>;
                        (fd, s) = lopen os ''/dev/teelog'' False 0 s;
                        s = s\<lparr>g_devFd := fd\<rparr>
               in if fd < 0 then (- 1, d\<lparr>tm_log := s, p_logBuffer := a, p_files := b\<rparr>)
                  else let (_, s) = lcall (lo_ioctl os fd TEELOGGER_GET_VERSION) s;
                           s = s\<lparr>g_teeVersion := lo_version os (lworld s)\<rparr>
                       in (0, d\<lparr>tm_log := s, p_logBuffer := a, p_files := b\<rparr>))"

definition Destruct :: "'w logos \<Rightarrow> 'w tmain \<Rightarrow> 'w tmain option" where
  "Destruct os d = do {
     d \<leftarrow> (if p_logBuffer d = NULL then Some d
          else do { s \<leftarrow> lfree (p_logBuffer d) (tm_log d); Some (d\<lparr>tm_log := s\<lparr>g_logBuffer := []\<rparr>, p_logBuffer := NULL\<rparr>) });
     d \<leftarrow> (if p_files d = NULL then Some d
          else do { s \<leftarrow> lfree (p_files d) (tm_log d); Some (d\<lparr>tm_log := s\<lparr>g_files := []\<rparr>, p_files := NULL\<rparr>) });
     if g_devFd (tm_log d) < 0 then Some d
     else do { s \<leftarrow> lclose os (g_devFd (tm_log d)) (tm_log d); Some (d\<lparr>tm_log := s\<lparr>g_devFd := - 1\<rparr>\<rparr>) }
   }"

definition LogPrintTeeVersion :: "'w tlog \<Rightarrow> 'w tlog" where
  "LogPrintTeeVersion s =
     (let v = take (MAX_TEE_VERSION_LEN - 1) (g_teeVersion s) in s\<lparr>g_teeVersion := v, stdout := stdout s @ [v]\<rparr>)"

text \<open>The reader: its rounds, without end.\<close>

partial_function (option) func_loop :: "securec \<Rightarrow> bool \<Rightarrow> 'w logos \<Rightarrow> bool \<Rightarrow> 'w tlog \<Rightarrow> 'w tlog option" where
  "func_loop sc sg os writeFile s = func_round sc sg os writeFile s \<bind> func_loop sc sg os writeFile"

definition Func_reader :: "securec \<Rightarrow> bool \<Rightarrow> 'w logos \<Rightarrow> bool \<Rightarrow> 'w tlog \<Rightarrow> 'w tlog option" where
  "Func_reader sc sg os writeFile s = func_loop sc sg os writeFile (if writeFile then s else LogPrintTeeVersion s)"

definition LogCmdF :: "'w logos \<Rightarrow> 'w tlog \<Rightarrow> flow \<times> 'w tlog" where
  "LogCmdF os s =
     (let (r, s) = LogGetTlogcatF os s
      in if r = SET_TLOGCAT_F then (Returns 0, s)
         else let (r, s) = LogSetTlogcatF os s
         in if r \<noteq> 0 then (Returns (- 1), s) else (In_Func True, s))"

definition SwitchSelect :: "'w logos \<Rightarrow> char \<Rightarrow> 'w tmain \<Rightarrow> flow \<times> 'w tmain" where
  "SwitchSelect os ch d =
     (if ch = CHR ''v'' then (Returns 0, d\<lparr>tm_log := LogPrintTeeVersion (tm_log d), g_defaultOp := False\<rparr>)
      else if ch = CHR ''t'' then (Returns 0, d\<lparr>tm_log := LogSetReadposCur os (tm_log d)\<rparr>)
      else if ch = CHR ''f'' then let (r, s) = LogCmdF os (tm_log d) in (r, d\<lparr>tm_log := s\<rparr>)
      else (Returns 0, d))"

text \<open>The loop over the options; a failed option does not end it.\<close>

fun main_options :: "'w logos \<Rightarrow> char list \<Rightarrow> 'w tmain \<Rightarrow> flow \<times> 'w tmain" where
  "main_options os [] d = (Returns 0, d)"
| "main_options os (ch # chs) d =
     (let (r, d) = SwitchSelect os ch (d\<lparr>g_defaultOp := False\<rparr>)
      in case r of In_Func w \<Rightarrow> (r, d) | Returns _ \<Rightarrow> main_options os chs d)"

text \<open>\<open>main\<close>, with the options that \<open>getopt\<close> delivers one after another.\<close>

definition tlogcat_main :: "securec \<Rightarrow> 'w logos \<Rightarrow> (nat \<Rightarrow> u8) \<Rightarrow> char list \<Rightarrow> 'w tmain \<Rightarrow> (flow \<times> 'w tmain) option" where
  "tlogcat_main sc os fill opts d =
     (let (r, d) = Prepare sc os fill (d\<lparr>g_defaultOp := True\<rparr>)
      in if r < 0 then do { d \<leftarrow> Destruct os d; Some (Returns 0, d) }
         else let (r, d) = main_options os opts d
         in case r of
              In_Func w \<Rightarrow> Some (r, d)
            | Returns _ \<Rightarrow>
                if g_defaultOp d \<or> g_readposCur (tm_log d) then Some (In_Func False, d)
                else do { d \<leftarrow> Destruct os d; Some (Returns 0, d) })"

section \<open>What the start leaves behind\<close>

lemma func_loop_endless: "func_loop sc sg os wr s = None"
proof -
  have "False" if "func_loop sc sg os wr s = Some s'" for s'
    using that by (rule func_loop.raw_induct [rotated]) (auto simp: bind_eq_Some_conv)
  then show ?thesis by (cases "func_loop sc sg os wr s") auto
qed

text \<open>The program before it starts.\<close>

definition tlog_cold :: "'w tmain \<Rightarrow> bool" where
  "tlog_cold d \<longleftrightarrow> p_logBuffer d = NULL \<and> p_files d = NULL \<and> g_devFd (tm_log d) = - 1 \<and> \<not> g_readposCur (tm_log d) \<and>
     lmem (tm_log d) = {} \<and> lstreams (tm_log d) = Map.empty \<and> lfds (tm_log d) = {} \<and> lgz (tm_log d) = Map.empty"

text \<open>The resources that belong to the pointers and the descriptor, and nothing else.\<close>

definition holds :: "'w tmain \<Rightarrow> bool" where
  "holds d \<longleftrightarrow> lmem (tm_log d) = {p_logBuffer d, p_files d} - {NULL} \<and> (p_logBuffer d = p_files d \<longrightarrow> p_files d = NULL) \<and>
     lfds (tm_log d) = (if g_devFd (tm_log d) < 0 then {} else {g_devFd (tm_log d)}) \<and>
     lstreams (tm_log d) = Map.empty \<and> lgz (tm_log d) = Map.empty"

definition ready :: "'w tmain \<Rightarrow> bool" where
  "ready d \<longleftrightarrow> holds d \<and> p_logBuffer d \<noteq> NULL \<and> p_files d \<noteq> NULL \<and> 0 \<le> g_devFd (tm_log d) \<and> log_init (tm_log d) \<and>
     length (g_logBuffer (tm_log d)) = LOG_BUFFER_LEN"

lemma GetTeeLogPath_frame:
  obtains r p t g w where "GetTeeLogPath sc os s = (r, s\<lparr>g_teePath := p, g_teeTempPath := t, g_teePathGroup := g, lworld := w\<rparr>)" "r = 0 \<or> r = - 1"
proof -
  obtain g w where c: "GetTeePathGroup os s = s\<lparr>g_teePathGroup := g, lworld := w\<rparr>"
  proof (rule lcallE [of "lo_stat_gid os TEE_LOG_PATH_BASE" s])
    fix x w assume "lcall (lo_stat_gid os TEE_LOG_PATH_BASE) s = (x, s\<lparr>lworld := w\<rparr>)"
    then show thesis by (intro that [of w "if fst x \<noteq> 0 then g_teePathGroup s else snd x"]) (simp add: GetTeePathGroup_def case_prod_beta)
  qed
  obtain r1 p1 where 1: "snprintf_s sc FILE_NAME_MAX_BUF (FILE_NAME_MAX_BUF - 1) (TEE_LOG_PATH_BASE @ ''/'' @ TEE_LOG_SUBFOLDER @ ''/'') = (r1, p1)" by force
  obtain r2 p2 where 2: "snprintf_s sc FILE_NAME_MAX_BUF (FILE_NAME_MAX_BUF - 1) (p1 @ ''/'' @ ''_tmp'' @ ''/'') = (r2, p2)" by force
  consider "r1 < 0" | "\<not> r1 < 0" "r2 < 0" | "\<not> r1 < 0" "\<not> r2 < 0" by blast
  then show thesis
  proof cases
    case a: 1
    then show thesis using 1 c
      by (intro that [of "- 1" w g "g_teeTempPath s" p1]) (simp_all add: GetTeeLogPath_def strnlen_def)
  next
    case a: 2
    then show thesis using 1 2 c by (intro that [of "- 1" w g p2 p1]) (simp_all add: GetTeeLogPath_def strnlen_def)
  next
    case a: 3
    then show thesis using 1 2 c by (intro that [of 0 w g p2 p1]) (simp_all add: GetTeeLogPath_def strnlen_def)
  qed
qed

lemma Prepare_ok:
  assumes os: "handles_ok os" and c: "tlog_cold d"
  shows "\<exists>r d'. Prepare sc os fill d = (r, d') \<and> holds d' \<and> (r < 0 \<or> r = 0 \<and> ready d' \<and> g_readposCur (tm_log d') = g_readposCur (tm_log d) \<and>
    g_defaultOp d' = g_defaultOp d)"
proof -
  obtain r p t g w where gp: "GetTeeLogPath sc os (tm_log d) = (r, (tm_log d)\<lparr>g_teePath := p, g_teeTempPath := t, g_teePathGroup := g, lworld := w\<rparr>)"
    and r: "r = 0 \<or> r = - 1" by (rule GetTeeLogPath_frame)
  let ?s1 = "(tm_log d)\<lparr>g_teePath := p, g_teeTempPath := t, g_teePathGroup := g, lworld := w\<rparr>"
  show ?thesis
  proof (cases "r = 0")
    case False
    then show ?thesis using gp r c by (simp add: Prepare_def holds_def tlog_cold_def)
  next
    case r0: True
    show ?thesis
    proof (cases rule: lmalloc_cases [OF os, of LOG_BUFFER_LEN ?s1])
      case (1 w1)
      then show ?thesis using gp r0 c by (simp add: Prepare_def holds_def tlog_cold_def)
    next
      case m1: (2 a w1)
      define s2 where "s2 = ?s1\<lparr>lmem := insert a (lmem ?s1), g_logBuffer := map fill [0..<LOG_BUFFER_LEN], lworld := w1\<rparr>"
      have s2: "lmem s2 = {a}" "lstreams s2 = Map.empty" "lfds s2 = {}" "lgz s2 = Map.empty" "g_devFd s2 = - 1"
        "length (g_logBuffer s2) = LOG_BUFFER_LEN" "g_readposCur s2 = g_readposCur (tm_log d)"
        using c by (simp_all add: s2_def tlog_cold_def)
      have run1: "Prepare sc os fill d = (let (b, s) = lmalloc os (sizeof_LogFile * LOG_FILES_MAX) s2
            in if b = NULL then (- 1, d\<lparr>tm_log := s, p_logBuffer := a, p_files := NULL\<rparr>)
               else let s = s\<lparr>g_files := replicate LOG_FILES_MAX empty_slot\<rparr>;
                        (fd, s) = lopen os ''/dev/teelog'' False 0 s;
                        s = s\<lparr>g_devFd := fd\<rparr>
               in if fd < 0 then (- 1, d\<lparr>tm_log := s, p_logBuffer := a, p_files := b\<rparr>)
                  else let (_, s) = lcall (lo_ioctl os fd TEELOGGER_GET_VERSION) s;
                           s = s\<lparr>g_teeVersion := lo_version os (lworld s)\<rparr>
                       in (0, d\<lparr>tm_log := s, p_logBuffer := a, p_files := b\<rparr>))"
        using gp r0 m1 by (simp add: Prepare_def s2_def Let_def)
      show ?thesis
      proof (cases rule: lmalloc_cases [OF os, of "sizeof_LogFile * LOG_FILES_MAX" s2])
        case (1 w2)
        then show ?thesis unfolding run1 using s2 m1 by (auto simp: holds_def)
      next
        case m2: (2 b w2)
        define s3 where "s3 = s2\<lparr>lmem := insert b (lmem s2), g_files := replicate LOG_FILES_MAX empty_slot, lworld := w2\<rparr>"
        have ab: "a \<noteq> b" "a \<noteq> NULL" "b \<noteq> NULL" using m1 m2 s2 by (auto simp: lused_mem_def)
        have s3: "lmem s3 = {a, b}" "lstreams s3 = Map.empty" "lfds s3 = {}" "lgz s3 = Map.empty"
          "length (g_logBuffer s3) = LOG_BUFFER_LEN" "g_files s3 = replicate LOG_FILES_MAX empty_slot" "g_readposCur s3 = g_readposCur (tm_log d)"
          using s2 by (auto simp: s3_def)
        have run2: "Prepare sc os fill d = (let (fd, s) = lopen os ''/dev/teelog'' False 0 s3; s = s\<lparr>g_devFd := fd\<rparr>
             in if fd < 0 then (- 1, d\<lparr>tm_log := s, p_logBuffer := a, p_files := b\<rparr>)
                else let (_, s) = lcall (lo_ioctl os fd TEELOGGER_GET_VERSION) s;
                         s = s\<lparr>g_teeVersion := lo_version os (lworld s)\<rparr>
                     in (0, d\<lparr>tm_log := s, p_logBuffer := a, p_files := b\<rparr>))"
          unfolding run1 using m2 by (simp add: s3_def Let_def)
        show ?thesis
        proof (cases rule: lopen_cases [OF os, of "''/dev/teelog''" False 0 s3])
          case (1 fd w3)
          then show ?thesis unfolding run2 using s3 ab by (auto simp: holds_def)
        next
          case (2 fd w3)
          then show ?thesis unfolding run2 using s3 ab by (auto simp: holds_def ready_def log_init_def lcall_pair)
        qed
      qed
    qed
  qed
qed

lemma Destruct_ok:
  assumes "holds d"
  shows "\<exists>d'. Destruct os d = Some d' \<and> lmem (tm_log d') = {} \<and> lfds (tm_log d') = {} \<and> lstreams (tm_log d') = Map.empty \<and>
    lgz (tm_log d') = Map.empty"
  using assms by (auto simp: Destruct_def holds_def lfree_def lclose_def)

text \<open>The options keep what \<open>Prepare\<close> has set up.\<close>

definition same_start :: "'w tlog \<Rightarrow> 'w tlog \<Rightarrow> bool" where
  "same_start s s' \<longleftrightarrow> lmem s' = lmem s \<and> lfds s' = lfds s \<and> lstreams s' = lstreams s \<and> lgz s' = lgz s \<and> g_devFd s' = g_devFd s \<and>
     g_files s' = g_files s \<and> g_logBuffer s' = g_logBuffer s"

lemma ready_default [simp]: "ready (d\<lparr>g_defaultOp := b\<rparr>) = ready d"
  by (simp add: ready_def holds_def)

lemma SwitchSelect_same:
  "same_start (tm_log d) (tm_log (snd (SwitchSelect os ch d))) \<and> p_logBuffer (snd (SwitchSelect os ch d)) = p_logBuffer d \<and>
   p_files (snd (SwitchSelect os ch d)) = p_files d \<and> (\<forall>w. fst (SwitchSelect os ch d) = In_Func w \<longrightarrow> w \<and> ch = CHR ''f'')"
  by (simp add: SwitchSelect_def LogPrintTeeVersion_def LogSetReadposCur_def LogCmdF_def LogGetTlogcatF_def LogSetTlogcatF_def
      same_start_def lcall_pair case_prod_beta Let_def)

lemma SwitchSelect_ready: "ready d \<Longrightarrow> ready (snd (SwitchSelect os ch d))"
  using SwitchSelect_same [of d os ch] by (auto simp: ready_def holds_def same_start_def log_init_def)

lemma main_options_ready:
  "ready d \<Longrightarrow> ready (snd (main_options os chs d)) \<and> (\<forall>w. fst (main_options os chs d) = In_Func w \<longrightarrow> w \<and> CHR ''f'' \<in> set chs)"
proof (induction chs arbitrary: d)
  case (Cons ch chs)
  obtain r d' where sw: "SwitchSelect os ch (d\<lparr>g_defaultOp := False\<rparr>) = (r, d')" by force
  have rd: "ready d'" using SwitchSelect_ready [of "d\<lparr>g_defaultOp := False\<rparr>" os ch] sw Cons.prems by simp
  have f: "\<forall>w. r = In_Func w \<longrightarrow> w \<and> ch = CHR ''f''" using SwitchSelect_same [of "d\<lparr>g_defaultOp := False\<rparr>" os ch] sw by auto
  show ?case using sw rd f Cons.IH [OF rd] by (cases r) auto
qed simp

section \<open>Properties\<close>

text \<open>
  C29. Whatever its options are and wherever a call fails, the log reader either returns with all buffers, descriptors
  and streams released, or it enters the endless loop of the reader with the log buffer of 8 KiB, an empty table of log files and the open
  log device, and with the writing of files only if the option \<open>-f\<close> was given; this is the state from which the table of
  log files is shown to be exact.  Nothing is undefined, and the loop never returns.
\<close>

theorem tlogcat_starts_or_releases:
  assumes "handles_ok os" and "tlog_cold d"
  shows "\<exists>fl d'. tlogcat_main sc os fill opts d = Some (fl, d') \<and>
    (case fl of
       Returns r \<Rightarrow> r = 0 \<and> lmem (tm_log d') = {} \<and> lfds (tm_log d') = {} \<and> lstreams (tm_log d') = Map.empty \<and> lgz (tm_log d') = Map.empty
     | In_Func wr \<Rightarrow> reach log_init (log_step sc sg os) (tm_log d') \<and> length (g_logBuffer (tm_log d')) = LOG_BUFFER_LEN \<and>
         lmem (tm_log d') = {p_logBuffer d', p_files d'} \<and> lfds (tm_log d') = {g_devFd (tm_log d')} \<and>
         (wr \<longrightarrow> CHR ''f'' \<in> set opts) \<and> Func_reader sc sg os wr (tm_log d') = None)"
proof -
  have "tlog_cold (d\<lparr>g_defaultOp := True\<rparr>)" using assms(2) by (simp add: tlog_cold_def)
  then obtain r d1 where p: "Prepare sc os fill (d\<lparr>g_defaultOp := True\<rparr>) = (r, d1)" "holds d1" "r < 0 \<or> r = 0 \<and> ready d1"
    using Prepare_ok [OF assms(1), of "d\<lparr>g_defaultOp := True\<rparr>" sc fill] by auto
  have inside: "reach log_init (log_step sc sg os) (tm_log x) \<and> length (g_logBuffer (tm_log x)) = LOG_BUFFER_LEN \<and>
      lmem (tm_log x) = {p_logBuffer x, p_files x} \<and> lfds (tm_log x) = {g_devFd (tm_log x)}" if "ready x" for x
    using that reach.start [of log_init "tm_log x" "log_step sc sg os"] by (auto simp: ready_def holds_def)
  show ?thesis
  proof (cases "r < 0")
    case True
    obtain d2 where d2: "Destruct os d1 = Some d2" "lmem (tm_log d2) = {}" "lfds (tm_log d2) = {}" "lstreams (tm_log d2) = Map.empty"
      "lgz (tm_log d2) = Map.empty" using Destruct_ok [OF p(2), of os] by blast
    show ?thesis by (rule exI [of _ "Returns 0"], rule exI [of _ d2]) (use p(1) True d2 in \<open>simp add: tlogcat_main_def\<close>)
  next
    case False
    with p(3) have rd: "ready d1" by blast
    obtain q d2 where mo: "main_options os opts d1 = (q, d2)" by force
    have d2: "ready d2" "\<forall>w. q = In_Func w \<longrightarrow> w \<and> CHR ''f'' \<in> set opts" using main_options_ready [OF rd, of os opts] mo by auto
    obtain d3 where d3: "Destruct os d2 = Some d3" "lmem (tm_log d3) = {}" "lfds (tm_log d3) = {}" "lstreams (tm_log d3) = Map.empty"
      "lgz (tm_log d3) = Map.empty" using Destruct_ok [of d2 os] d2(1) by (auto simp: ready_def)
    show ?thesis
    proof (cases q)
      case (In_Func w)
      with d2(2) have "w" "CHR ''f'' \<in> set opts" by auto
      then show ?thesis using p(1) False mo inside [OF d2(1)] In_Func by (simp add: tlogcat_main_def Func_reader_def func_loop_endless)
    next
      case (Returns i)
      then show ?thesis using p(1) False mo inside [OF d2(1)] d3
        by (cases "g_defaultOp d2 \<or> g_readposCur (tm_log d2)") (simp_all add: tlogcat_main_def Func_reader_def func_loop_endless)
    qed
  qed
qed

definition tmain0 :: "simw tmain" where
  "tmain0 = \<lparr>tm_log = (slog0 [])\<lparr>g_files := [], g_devFd := - 1, lfds := {}\<rparr>, p_logBuffer = NULL, p_files = NULL, g_defaultOp = False\<rparr>"

theorem tlogcat_starts_or_releases_witness:
  "\<exists>fl d'. tlogcat_main securec_ref simlo (\<lambda>i. 0) ''v'' tmain0 = Some (fl, d') \<and> (fl = Returns 0 \<longrightarrow> lmem (tm_log d') = {} \<and> lfds (tm_log d') = {})"
proof -
  have "tlog_cold tmain0" by (simp add: tlog_cold_def tmain0_def slog0_def)
  show ?thesis using tlogcat_starts_or_releases [OF simlo_ok \<open>tlog_cold tmain0\<close>, of securec_ref "\<lambda>i. 0" "''v''" True]
    by (elim exE conjE) (auto split: flow.splits)
qed

end
