(* ===== verification/Teecd_Types.thy ===== *)
theory Teecd_Types
  imports Fs_Types App_Load
begin

unbundle bit_operations_syntax

text \<open>
  The daemon \<open>teecd\<close> (\<open>src/services/teecd\<close>, \<open>src/services/authentication\<close>): its data, its global
  variables, and what it calls.  The file operations are the fields of \<open>posix\<close>; the driver, the
  sockets and the clock are added in \<open>dmos\<close>.  The file agent, one of the daemon's threads, has
  theories of its own.

  What the daemon tells the outside (requests to the driver, files it opens, replies to clients) is
  kept in a history, newest event first, so that claims on the order of these events can be stated.
  The history is not part of the program: no operation reads it.
\<close>

section \<open>Constants\<close>

abbreviation (input) "AGENT_MISC_ID \<equiv> (0x4d495343 :: u32)"
abbreviation (input) "SECFILE_LOAD_AGENT_ID \<equiv> (0x4c4f4144 :: u32)"
abbreviation (input) "TRANS_BUFF_SIZE \<equiv> (4 * 1024 :: u32)"
abbreviation (input) "FS_LATE_INIT \<equiv> (1 :: u32)"
abbreviation (input) "TC_PRIVATE_DEV_NAME \<equiv> ''/dev/tc_private''"
abbreviation (input) "TC_NS_CLIENT_DEV_NAME \<equiv> ''/dev/tc_ns_client''"
abbreviation (input) "TC_NS_SOCKET_NAME \<equiv> ''#tc_ns_socket''"
abbreviation (input) "DYNAMIC_DRV_DIR \<equiv> ''/vendor/bin/tee_dynamic_drv/''"
abbreviation (input) "DYNAMIC_SRV_DIR \<equiv> ''/vendor/bin/tee_dynamic_srv/''"
abbreviation (input) "DYNAMIC_DRV_FEIMA_DIR \<equiv> ''/vendor/etc/passthrough/teeos/dynamic_drv''"
abbreviation (input) "DYNAMIC_SRV_FEIMA_DIR \<equiv> ''/vendor/etc/passthrough/teeos/dynamic_srv''"
abbreviation (input) "MAX_SEC_FILE_NAME_LEN \<equiv> (32 :: nat)"
abbreviation (input) "MAX_PATH_LENGTH \<equiv> (256 :: nat)"
abbreviation (input) "BUF_MAX_SIZE \<equiv> (4096 :: nat)"
abbreviation (input) "CMD_MAX_SIZE \<equiv> (1024 :: nat)"
abbreviation (input) "BACKLOG_LEN \<equiv> (10 :: nat)"
abbreviation (input) "MISC_CONTROL_TIME_STR_LEN \<equiv> (30 :: nat)"
abbreviation (input) "whence_SET \<equiv> (0 :: int)"
abbreviation (input) "whence_LAST \<equiv> (2 :: int)"

section \<open>Buffers shared with the secure world\<close>

datatype SecAgentCmd = LOAD_TA_SEC | LOAD_SERVICE_SEC | LOAD_LIB_SEC

definition sec_cmd_of :: "u32 \<Rightarrow> SecAgentCmd option" where
  "sec_cmd_of w = (if w = 0 then Some LOAD_TA_SEC else if w = 1 then Some LOAD_SERVICE_SEC
     else if w = 2 then Some LOAD_LIB_SEC else None)"

text \<open>
  \<open>struct SecAgentControlType\<close>: the members of its union begin with the 16 bytes of a UUID, and the
  name of a library or service follows, 32 bytes.
\<close>

record SecAgentControlType =
  sa_cmd :: u32
  sa_magic :: u32
  sa_ret :: int
  sa_error :: u32
  sa_uuid :: "u8 list"
  sa_libName :: "u8 list"

datatype MiscCmdType = SEC_NV_INFO | SEC_GET_TIME

definition misc_cmd_of :: "u32 \<Rightarrow> MiscCmdType option" where
  "misc_cmd_of w = (if w = 0 then Some SEC_NV_INFO else if w = 1 then Some SEC_GET_TIME else None)"

text \<open>\<open>struct MiscControlType\<close> with the member \<open>GetTime\<close> of its union.\<close>

record MiscControlType =
  mc_cmd :: u32
  mc_ret :: int
  mc_magic :: u32
  mc_seconds :: u32
  mc_millis :: u32
  mc_timeStr :: string

text \<open>What \<open>localtime\<close> returns.\<close>

record tm =
  tm_year :: int
  tm_mon :: int
  tm_mday :: int
  tm_hour :: int
  tm_min :: int
  tm_sec :: int

record ucred =
  uc_pid :: int
  uc_uid :: u32

section \<open>Driver, sockets and clock\<close>

text \<open>Requests to the driver; a pointer argument stands for the bytes it points to.\<close>

datatype dev_req =
    REGISTER_AGENT u32 u32
  | UNREGISTER_AGENT u32
  | LATEINIT u32
  | SYC_SYS_TIME u32 u32
  | LOAD_APP_REQ SecLoadIoctlStruct "u8 list"
  | SET_NATIVE_IDENTITY "u8 list"
  | LOGIN "u8 list option"

text \<open>What \<open>sendmsg\<close> gets: the data, and the descriptor in the ancillary data.\<close>

record msghdr =
  mh_iov :: "u8 list"
  mh_rights :: "int option"

datatype devent =
    Ioctl int dev_req int
  | Fopen string
  | Opened string int
  | Accepted int
  | Peer int ucred
  | Sent int msghdr int
  | Closed int

text \<open>
  \<open>register\<close> returns the address of the shared buffer with the result.  \<open>dm_opendir\<close> returns the
  entries that \<open>readdir\<close> will deliver, with the test for a regular file.  \<open>dm_fill\<close> is the content
  of new memory.  \<open>recvmsg\<close> returns the bytes it puts at the start of the buffer.  While an agent waits for
  an event the secure world may write to the shared buffer.
\<close>

record 'w dmos = "'w posix" +
  dm_open :: "(int \<Rightarrow> bool) \<Rightarrow> string \<Rightarrow> 'w \<Rightarrow> int \<times> 'w"
  dm_ioctl :: "int \<Rightarrow> dev_req \<Rightarrow> 'w \<Rightarrow> int \<times> 'w"
  dm_buffer :: "'w \<Rightarrow> addr"
  dm_sec_event :: "int \<Rightarrow> fs_req \<Rightarrow> SecAgentControlType \<Rightarrow> 'w \<Rightarrow> (int \<times> SecAgentControlType) \<times> 'w"
  dm_misc_event :: "int \<Rightarrow> fs_req \<Rightarrow> MiscControlType \<Rightarrow> 'w \<Rightarrow> (int \<times> MiscControlType) \<times> 'w"
  dm_gettimeofday :: "'w \<Rightarrow> (int \<times> int \<times> int) \<times> 'w"
  dm_localtime :: "int \<Rightarrow> 'w \<Rightarrow> tm option \<times> 'w"
  dm_opendir :: "string \<Rightarrow> 'w \<Rightarrow> (string \<times> bool) list option \<times> 'w"
  dm_ferror :: "addr \<Rightarrow> 'w \<Rightarrow> bool \<times> 'w"
  dm_fill :: "addr \<Rightarrow> nat \<Rightarrow> u8"
  dm_memset_s :: "'w \<Rightarrow> int \<times> 'w"
  dm_memcpy_s :: "nat \<Rightarrow> nat \<Rightarrow> 'w \<Rightarrow> int \<times> 'w"
  dm_socket :: "(int \<Rightarrow> bool) \<Rightarrow> 'w \<Rightarrow> int \<times> 'w"
  dm_bind :: "int \<Rightarrow> u8 list \<Rightarrow> 'w \<Rightarrow> int \<times> 'w"
  dm_listen :: "int \<Rightarrow> nat \<Rightarrow> 'w \<Rightarrow> int \<times> 'w"
  dm_accept :: "(int \<Rightarrow> bool) \<Rightarrow> int \<Rightarrow> 'w \<Rightarrow> int \<times> 'w"
  dm_peercred :: "int \<Rightarrow> 'w \<Rightarrow> (int \<times> ucred) \<times> 'w"
  dm_select :: "int \<Rightarrow> 'w \<Rightarrow> int \<times> 'w"
  dm_recvmsg :: "int \<Rightarrow> nat \<Rightarrow> 'w \<Rightarrow> (int \<times> u8 list) \<times> 'w"
  dm_sendmsg :: "int \<Rightarrow> msghdr \<Rightarrow> 'w \<Rightarrow> int \<times> 'w"

section \<open>State\<close>

text \<open>
  The static variables of the daemon, the shared buffers of two agents (\<open>sec_buf\<close>, \<open>misc_buf\<close>), open descriptors and streams,
  the heap, the history and the world.
\<close>

record 'w teecd =
  g_fsFd :: int
  g_miscFd :: int
  g_secLoadAgentFd :: int
  g_fsControl :: addr
  g_miscControl :: addr
  g_secLoadAgentControl :: addr
  g_fsThreadFlag :: int
  syncSysTimed :: int
  gHashXmlSetted :: int
  sec_buf :: SecAgentControlType
  misc_buf :: MiscControlType
  dfds :: "int set"
  dstreams :: "addr \<rightharpoonup> int"
  dmem :: "addr \<rightharpoonup> u8 list"
  dtrace :: "devent list"
  dworld :: 'w

definition dcall :: "('w \<Rightarrow> 'a \<times> 'w) \<Rightarrow> 'w teecd \<Rightarrow> 'a \<times> 'w teecd" where
  "dcall f s = (let (r, w) = f (dworld s) in (r, s\<lparr>dworld := w\<rparr>))"

definition note_ev :: "devent \<Rightarrow> 'w teecd \<Rightarrow> 'w teecd" where
  "note_ev e s = s\<lparr>dtrace := e # dtrace s\<rparr>"

definition derrno :: "'w dmos \<Rightarrow> 'w teecd \<Rightarrow> int" where
  "derrno os s = px_errno os (dworld s)"

definition dused_fd :: "'w teecd \<Rightarrow> int \<Rightarrow> bool" where
  "dused_fd s d \<longleftrightarrow> d \<in> ran (dstreams s) \<or> d \<in> dfds s"

text \<open>A request on a descriptor that is not open is undefined behaviour of the model.\<close>

definition dioctl :: "'w dmos \<Rightarrow> int \<Rightarrow> dev_req \<Rightarrow> 'w teecd \<Rightarrow> (int \<times> 'w teecd) option" where
  "dioctl os fd req s =
     (if fd \<in> dfds s then let (r, s) = dcall (dm_ioctl os fd req) s in Some (r, note_ev (Ioctl fd req r) s) else None)"

text \<open>\<open>tee_open(path, O_RDWR, 0)\<close>\<close>

definition dtee_open :: "'w dmos \<Rightarrow> string \<Rightarrow> 'w teecd \<Rightarrow> int \<times> 'w teecd" where
  "dtee_open os path s =
     (let (fd, s) = dcall (dm_open os (dused_fd s) path) s
      in if fd < 0 then (fd, s) else (fd, note_ev (Opened path fd) (s\<lparr>dfds := insert fd (dfds s)\<rparr>)))"

text \<open>\<open>close\<close>, and \<open>tee_close\<close>, which does nothing for a negative descriptor.\<close>

definition dclose :: "'w dmos \<Rightarrow> int \<Rightarrow> 'w teecd \<Rightarrow> 'w teecd option" where
  "dclose os fd s =
     (if fd \<in> dfds s then Some (note_ev (Closed fd) (s\<lparr>dfds := dfds s - {fd}, dworld := px_close os fd (dworld s)\<rparr>)) else None)"

definition dtee_close :: "'w dmos \<Rightarrow> int \<Rightarrow> 'w teecd \<Rightarrow> 'w teecd option" where
  "dtee_close os fd s = (if fd < 0 then Some s else dclose os fd s)"

definition on_dstream :: "addr \<Rightarrow> ('w \<Rightarrow> 'a \<times> 'w) \<Rightarrow> 'w teecd \<Rightarrow> ('a \<times> 'w teecd) option" where
  "on_dstream f c s = (if dstreams s f = None then None else Some (dcall c s))"

definition dfclose :: "'w dmos \<Rightarrow> addr \<Rightarrow> 'w teecd \<Rightarrow> 'w teecd option" where
  "dfclose os f s = do {
     (_, s) \<leftarrow> on_dstream f (px_fclose os f) s;
     Some (s\<lparr>dstreams := (dstreams s)(f := None)\<rparr>)
   }"

definition dfopen :: "'w dmos \<Rightarrow> string \<Rightarrow> string \<Rightarrow> 'w teecd \<Rightarrow> addr \<times> 'w teecd" where
  "dfopen os path mode s =
     (let ((f, fd), s) = dcall (px_fopen os (\<lambda>a. a \<in> dom (dstreams s)) (dused_fd s) path mode) s
      in if f = NULL then (NULL, note_ev (Fopen path) s)
         else (f, note_ev (Fopen path) (s\<lparr>dstreams := (dstreams s)(f \<mapsto> fd)\<rparr>)))"

definition dmalloc :: "'w dmos \<Rightarrow> nat \<Rightarrow> 'w teecd \<Rightarrow> addr \<times> 'w teecd" where
  "dmalloc os n s =
     (let (a, s) = dcall (px_malloc os (\<lambda>a. a \<in> dom (dmem s)) n) s
      in if a = NULL then (NULL, s) else (a, s\<lparr>dmem := (dmem s)(a \<mapsto> map (dm_fill os a) [0..<n])\<rparr>))"

definition dfree :: "addr \<Rightarrow> 'w teecd \<Rightarrow> 'w teecd option" where
  "dfree a s = (if dmem s a = None then None else Some (s\<lparr>dmem := (dmem s)(a := None)\<rparr>))"

text \<open>Writing bytes at the start of a block: outside of it is undefined behaviour.\<close>

definition dwrite :: "addr \<Rightarrow> u8 list \<Rightarrow> 'w teecd \<Rightarrow> 'w teecd option" where
  "dwrite a xs s = do {
     bs \<leftarrow> dmem s a;
     bs \<leftarrow> put_bytes bs 0 xs;
     Some (s\<lparr>dmem := (dmem s)(a \<mapsto> bs)\<rparr>)
   }"

text \<open>\<open>memset_s(a, n, 0, n)\<close> of a whole block; after a failure the block is as before.\<close>

definition dzero :: "'w dmos \<Rightarrow> addr \<Rightarrow> 'w teecd \<Rightarrow> (int \<times> 'w teecd) option" where
  "dzero os a s = do {
     bs \<leftarrow> dmem s a;
     let (rc, s) = dcall (dm_memset_s os) s;
     Some (rc, if rc = EOK then s\<lparr>dmem := (dmem s)(a \<mapsto> replicate (length bs) 0)\<rparr> else s)
   }"

section \<open>Contract\<close>

text \<open>Opening a device, a socket or a connection fails or returns a descriptor that is not in use.\<close>

definition new_fd :: "((int \<Rightarrow> bool) \<Rightarrow> 'w \<Rightarrow> int \<times> 'w) \<Rightarrow> bool" where
  "new_fd f \<longleftrightarrow> (\<forall>used w. fst (f used w) = - 1 \<or> (\<not> used (fst (f used w)) \<and> fst (f used w) \<ge> 0))"

text \<open>The arrays in the buffer of the load agent have the sizes of the structure.\<close>

definition sec_wf :: "SecAgentControlType \<Rightarrow> bool" where
  "sec_wf c \<longleftrightarrow> length (sa_uuid c) = 16 \<and> length (sa_libName c) = MAX_SEC_FILE_NAME_LEN"

text \<open>
  The contract: what is opened is new, \<open>fread\<close> and \<open>recvmsg\<close> deliver at most as much as they are asked
  for, and the shared buffer is a structure of the given sizes.
\<close>

definition daemon_os_ok :: "'w dmos \<Rightarrow> bool" where
  "daemon_os_ok os \<longleftrightarrow> fresh_ok os \<and> fread_ok os \<and> (\<forall>p. new_fd (\<lambda>u. dm_open os u p)) \<and> new_fd (dm_socket os) \<and>
     (\<forall>d. new_fd (\<lambda>u. dm_accept os u d)) \<and> (\<forall>d n w. length (snd (fst (dm_recvmsg os d n w))) \<le> n) \<and>
     (\<forall>d q c w. sec_wf (snd (fst (dm_sec_event os d q c w))))"

end
