(* ===== verification/Teecd_Rules.thy ===== *)
theory Teecd_Rules
  imports Teecd_Types
begin

text \<open>
  Rules for the calls of the daemon: every call either fails or changes exactly the field it should.
  \<open>dext P s s'\<close> says that \<open>s'\<close> differs from \<open>s\<close> in the world and in new events, which satisfy \<open>P\<close>: no
  descriptor, stream or block was leaked or lost, and no variable was changed.
\<close>

section \<open>Order of updates\<close>

text \<open>Updates are brought into the order in which the fields are declared.\<close>

lemma teecd_update_order [simp]:
  "s\<lparr>sec_buf := x9, g_fsFd := x0\<rparr> = s\<lparr>g_fsFd := x0, sec_buf := x9\<rparr>"
  "s\<lparr>sec_buf := x9, g_miscFd := x1\<rparr> = s\<lparr>g_miscFd := x1, sec_buf := x9\<rparr>"
  "s\<lparr>sec_buf := x9, g_secLoadAgentFd := x2\<rparr> = s\<lparr>g_secLoadAgentFd := x2, sec_buf := x9\<rparr>"
  "s\<lparr>sec_buf := x9, g_fsControl := x3\<rparr> = s\<lparr>g_fsControl := x3, sec_buf := x9\<rparr>"
  "s\<lparr>sec_buf := x9, g_miscControl := x4\<rparr> = s\<lparr>g_miscControl := x4, sec_buf := x9\<rparr>"
  "s\<lparr>sec_buf := x9, g_secLoadAgentControl := x5\<rparr> = s\<lparr>g_secLoadAgentControl := x5, sec_buf := x9\<rparr>"
  "s\<lparr>sec_buf := x9, g_fsThreadFlag := x6\<rparr> = s\<lparr>g_fsThreadFlag := x6, sec_buf := x9\<rparr>"
  "s\<lparr>sec_buf := x9, syncSysTimed := x7\<rparr> = s\<lparr>syncSysTimed := x7, sec_buf := x9\<rparr>"
  "s\<lparr>sec_buf := x9, gHashXmlSetted := x8\<rparr> = s\<lparr>gHashXmlSetted := x8, sec_buf := x9\<rparr>"
  "s\<lparr>misc_buf := x10, g_fsFd := x0\<rparr> = s\<lparr>g_fsFd := x0, misc_buf := x10\<rparr>"
  "s\<lparr>misc_buf := x10, g_miscFd := x1\<rparr> = s\<lparr>g_miscFd := x1, misc_buf := x10\<rparr>"
  "s\<lparr>misc_buf := x10, g_secLoadAgentFd := x2\<rparr> = s\<lparr>g_secLoadAgentFd := x2, misc_buf := x10\<rparr>"
  "s\<lparr>misc_buf := x10, g_fsControl := x3\<rparr> = s\<lparr>g_fsControl := x3, misc_buf := x10\<rparr>"
  "s\<lparr>misc_buf := x10, g_miscControl := x4\<rparr> = s\<lparr>g_miscControl := x4, misc_buf := x10\<rparr>"
  "s\<lparr>misc_buf := x10, g_secLoadAgentControl := x5\<rparr> = s\<lparr>g_secLoadAgentControl := x5, misc_buf := x10\<rparr>"
  "s\<lparr>misc_buf := x10, g_fsThreadFlag := x6\<rparr> = s\<lparr>g_fsThreadFlag := x6, misc_buf := x10\<rparr>"
  "s\<lparr>misc_buf := x10, syncSysTimed := x7\<rparr> = s\<lparr>syncSysTimed := x7, misc_buf := x10\<rparr>"
  "s\<lparr>misc_buf := x10, gHashXmlSetted := x8\<rparr> = s\<lparr>gHashXmlSetted := x8, misc_buf := x10\<rparr>"
  "s\<lparr>misc_buf := x10, sec_buf := x9\<rparr> = s\<lparr>sec_buf := x9, misc_buf := x10\<rparr>"
  "s\<lparr>dfds := x11, g_fsFd := x0\<rparr> = s\<lparr>g_fsFd := x0, dfds := x11\<rparr>"
  "s\<lparr>dfds := x11, g_miscFd := x1\<rparr> = s\<lparr>g_miscFd := x1, dfds := x11\<rparr>"
  "s\<lparr>dfds := x11, g_secLoadAgentFd := x2\<rparr> = s\<lparr>g_secLoadAgentFd := x2, dfds := x11\<rparr>"
  "s\<lparr>dfds := x11, g_fsControl := x3\<rparr> = s\<lparr>g_fsControl := x3, dfds := x11\<rparr>"
  "s\<lparr>dfds := x11, g_miscControl := x4\<rparr> = s\<lparr>g_miscControl := x4, dfds := x11\<rparr>"
  "s\<lparr>dfds := x11, g_secLoadAgentControl := x5\<rparr> = s\<lparr>g_secLoadAgentControl := x5, dfds := x11\<rparr>"
  "s\<lparr>dfds := x11, g_fsThreadFlag := x6\<rparr> = s\<lparr>g_fsThreadFlag := x6, dfds := x11\<rparr>"
  "s\<lparr>dfds := x11, syncSysTimed := x7\<rparr> = s\<lparr>syncSysTimed := x7, dfds := x11\<rparr>"
  "s\<lparr>dfds := x11, gHashXmlSetted := x8\<rparr> = s\<lparr>gHashXmlSetted := x8, dfds := x11\<rparr>"
  "s\<lparr>dfds := x11, sec_buf := x9\<rparr> = s\<lparr>sec_buf := x9, dfds := x11\<rparr>"
  "s\<lparr>dfds := x11, misc_buf := x10\<rparr> = s\<lparr>misc_buf := x10, dfds := x11\<rparr>"
  "s\<lparr>dstreams := x12, g_fsFd := x0\<rparr> = s\<lparr>g_fsFd := x0, dstreams := x12\<rparr>"
  "s\<lparr>dstreams := x12, g_miscFd := x1\<rparr> = s\<lparr>g_miscFd := x1, dstreams := x12\<rparr>"
  "s\<lparr>dstreams := x12, g_secLoadAgentFd := x2\<rparr> = s\<lparr>g_secLoadAgentFd := x2, dstreams := x12\<rparr>"
  "s\<lparr>dstreams := x12, g_fsControl := x3\<rparr> = s\<lparr>g_fsControl := x3, dstreams := x12\<rparr>"
  "s\<lparr>dstreams := x12, g_miscControl := x4\<rparr> = s\<lparr>g_miscControl := x4, dstreams := x12\<rparr>"
  "s\<lparr>dstreams := x12, g_secLoadAgentControl := x5\<rparr> = s\<lparr>g_secLoadAgentControl := x5, dstreams := x12\<rparr>"
  "s\<lparr>dstreams := x12, g_fsThreadFlag := x6\<rparr> = s\<lparr>g_fsThreadFlag := x6, dstreams := x12\<rparr>"
  "s\<lparr>dstreams := x12, syncSysTimed := x7\<rparr> = s\<lparr>syncSysTimed := x7, dstreams := x12\<rparr>"
  "s\<lparr>dstreams := x12, gHashXmlSetted := x8\<rparr> = s\<lparr>gHashXmlSetted := x8, dstreams := x12\<rparr>"
  "s\<lparr>dstreams := x12, sec_buf := x9\<rparr> = s\<lparr>sec_buf := x9, dstreams := x12\<rparr>"
  "s\<lparr>dstreams := x12, misc_buf := x10\<rparr> = s\<lparr>misc_buf := x10, dstreams := x12\<rparr>"
  "s\<lparr>dstreams := x12, dfds := x11\<rparr> = s\<lparr>dfds := x11, dstreams := x12\<rparr>"
  "s\<lparr>dmem := x13, g_fsFd := x0\<rparr> = s\<lparr>g_fsFd := x0, dmem := x13\<rparr>"
  "s\<lparr>dmem := x13, g_miscFd := x1\<rparr> = s\<lparr>g_miscFd := x1, dmem := x13\<rparr>"
  "s\<lparr>dmem := x13, g_secLoadAgentFd := x2\<rparr> = s\<lparr>g_secLoadAgentFd := x2, dmem := x13\<rparr>"
  "s\<lparr>dmem := x13, g_fsControl := x3\<rparr> = s\<lparr>g_fsControl := x3, dmem := x13\<rparr>"
  "s\<lparr>dmem := x13, g_miscControl := x4\<rparr> = s\<lparr>g_miscControl := x4, dmem := x13\<rparr>"
  "s\<lparr>dmem := x13, g_secLoadAgentControl := x5\<rparr> = s\<lparr>g_secLoadAgentControl := x5, dmem := x13\<rparr>"
  "s\<lparr>dmem := x13, g_fsThreadFlag := x6\<rparr> = s\<lparr>g_fsThreadFlag := x6, dmem := x13\<rparr>"
  "s\<lparr>dmem := x13, syncSysTimed := x7\<rparr> = s\<lparr>syncSysTimed := x7, dmem := x13\<rparr>"
  "s\<lparr>dmem := x13, gHashXmlSetted := x8\<rparr> = s\<lparr>gHashXmlSetted := x8, dmem := x13\<rparr>"
  "s\<lparr>dmem := x13, sec_buf := x9\<rparr> = s\<lparr>sec_buf := x9, dmem := x13\<rparr>"
  "s\<lparr>dmem := x13, misc_buf := x10\<rparr> = s\<lparr>misc_buf := x10, dmem := x13\<rparr>"
  "s\<lparr>dmem := x13, dfds := x11\<rparr> = s\<lparr>dfds := x11, dmem := x13\<rparr>"
  "s\<lparr>dmem := x13, dstreams := x12\<rparr> = s\<lparr>dstreams := x12, dmem := x13\<rparr>"
  "s\<lparr>dtrace := x14, g_fsFd := x0\<rparr> = s\<lparr>g_fsFd := x0, dtrace := x14\<rparr>"
  "s\<lparr>dtrace := x14, g_miscFd := x1\<rparr> = s\<lparr>g_miscFd := x1, dtrace := x14\<rparr>"
  "s\<lparr>dtrace := x14, g_secLoadAgentFd := x2\<rparr> = s\<lparr>g_secLoadAgentFd := x2, dtrace := x14\<rparr>"
  "s\<lparr>dtrace := x14, g_fsControl := x3\<rparr> = s\<lparr>g_fsControl := x3, dtrace := x14\<rparr>"
  "s\<lparr>dtrace := x14, g_miscControl := x4\<rparr> = s\<lparr>g_miscControl := x4, dtrace := x14\<rparr>"
  "s\<lparr>dtrace := x14, g_secLoadAgentControl := x5\<rparr> = s\<lparr>g_secLoadAgentControl := x5, dtrace := x14\<rparr>"
  "s\<lparr>dtrace := x14, g_fsThreadFlag := x6\<rparr> = s\<lparr>g_fsThreadFlag := x6, dtrace := x14\<rparr>"
  "s\<lparr>dtrace := x14, syncSysTimed := x7\<rparr> = s\<lparr>syncSysTimed := x7, dtrace := x14\<rparr>"
  "s\<lparr>dtrace := x14, gHashXmlSetted := x8\<rparr> = s\<lparr>gHashXmlSetted := x8, dtrace := x14\<rparr>"
  "s\<lparr>dtrace := x14, sec_buf := x9\<rparr> = s\<lparr>sec_buf := x9, dtrace := x14\<rparr>"
  "s\<lparr>dtrace := x14, misc_buf := x10\<rparr> = s\<lparr>misc_buf := x10, dtrace := x14\<rparr>"
  "s\<lparr>dtrace := x14, dfds := x11\<rparr> = s\<lparr>dfds := x11, dtrace := x14\<rparr>"
  "s\<lparr>dtrace := x14, dstreams := x12\<rparr> = s\<lparr>dstreams := x12, dtrace := x14\<rparr>"
  "s\<lparr>dtrace := x14, dmem := x13\<rparr> = s\<lparr>dmem := x13, dtrace := x14\<rparr>"
  "s\<lparr>dworld := x15, g_fsFd := x0\<rparr> = s\<lparr>g_fsFd := x0, dworld := x15\<rparr>"
  "s\<lparr>dworld := x15, g_miscFd := x1\<rparr> = s\<lparr>g_miscFd := x1, dworld := x15\<rparr>"
  "s\<lparr>dworld := x15, g_secLoadAgentFd := x2\<rparr> = s\<lparr>g_secLoadAgentFd := x2, dworld := x15\<rparr>"
  "s\<lparr>dworld := x15, g_fsControl := x3\<rparr> = s\<lparr>g_fsControl := x3, dworld := x15\<rparr>"
  "s\<lparr>dworld := x15, g_miscControl := x4\<rparr> = s\<lparr>g_miscControl := x4, dworld := x15\<rparr>"
  "s\<lparr>dworld := x15, g_secLoadAgentControl := x5\<rparr> = s\<lparr>g_secLoadAgentControl := x5, dworld := x15\<rparr>"
  "s\<lparr>dworld := x15, g_fsThreadFlag := x6\<rparr> = s\<lparr>g_fsThreadFlag := x6, dworld := x15\<rparr>"
  "s\<lparr>dworld := x15, syncSysTimed := x7\<rparr> = s\<lparr>syncSysTimed := x7, dworld := x15\<rparr>"
  "s\<lparr>dworld := x15, gHashXmlSetted := x8\<rparr> = s\<lparr>gHashXmlSetted := x8, dworld := x15\<rparr>"
  "s\<lparr>dworld := x15, sec_buf := x9\<rparr> = s\<lparr>sec_buf := x9, dworld := x15\<rparr>"
  "s\<lparr>dworld := x15, misc_buf := x10\<rparr> = s\<lparr>misc_buf := x10, dworld := x15\<rparr>"
  "s\<lparr>dworld := x15, dfds := x11\<rparr> = s\<lparr>dfds := x11, dworld := x15\<rparr>"
  "s\<lparr>dworld := x15, dstreams := x12\<rparr> = s\<lparr>dstreams := x12, dworld := x15\<rparr>"
  "s\<lparr>dworld := x15, dmem := x13\<rparr> = s\<lparr>dmem := x13, dworld := x15\<rparr>"
  "s\<lparr>dworld := x15, dtrace := x14\<rparr> = s\<lparr>dtrace := x14, dworld := x15\<rparr>"
  by simp_all

section \<open>Calls\<close>

lemma dcallE:
  obtains r w where "dcall f s = (r, s\<lparr>dworld := w\<rparr>)" and "f (dworld s) = (r, w)"
  by (cases "f (dworld s)") (simp add: dcall_def)

lemma dcall_pair: "dcall f s = (fst (f (dworld s)), s\<lparr>dworld := snd (f (dworld s))\<rparr>)"
  by (simp add: dcall_def case_prod_beta)

lemma dioctlE:
  assumes "fd \<in> dfds s"
  obtains r w where "dioctl os fd req s = Some (r, s\<lparr>dtrace := Ioctl fd req r # dtrace s, dworld := w\<rparr>)"
    and "dm_ioctl os fd req (dworld s) = (r, w)"
  using assms by (cases "dm_ioctl os fd req (dworld s)") (simp add: dioctl_def dcall_def note_ev_def)

lemma on_dstreamE:
  assumes "dstreams s f = Some d"
  obtains r w where "on_dstream f c s = Some (r, s\<lparr>dworld := w\<rparr>)" and "c (dworld s) = (r, w)"
  using assms by (cases "c (dworld s)") (simp add: on_dstream_def dcall_def)

lemma dfcloseE:
  assumes "dstreams s f = Some d"
  obtains w where "dfclose os f s = Some (s\<lparr>dstreams := (dstreams s)(f := None), dworld := w\<rparr>)"
  by (rule on_dstreamE [OF assms, of "px_fclose os f"]) (simp add: dfclose_def)

lemma dclose_open:
  "fd \<in> dfds s \<Longrightarrow> dclose os fd s =
     Some (s\<lparr>dfds := dfds s - {fd}, dtrace := Closed fd # dtrace s, dworld := px_close os fd (dworld s)\<rparr>)"
  by (simp add: dclose_def note_ev_def)

lemma dtee_close_open:
  "fd \<in> dfds s \<Longrightarrow> 0 \<le> fd \<Longrightarrow> dtee_close os fd s =
     Some (s\<lparr>dfds := dfds s - {fd}, dtrace := Closed fd # dtrace s, dworld := px_close os fd (dworld s)\<rparr>)"
  by (simp add: dtee_close_def dclose_open)

lemma new_fdD: "new_fd f \<Longrightarrow> f used w = (r, w') \<Longrightarrow> r = - 1 \<or> (\<not> used r \<and> 0 \<le> r)"
  unfolding new_fd_def by (metis fst_conv)

lemma dtee_open_cases:
  assumes "daemon_os_ok os"
  obtains w where "dtee_open os p s = (- 1, s\<lparr>dworld := w\<rparr>)"
  | fd w where "0 \<le> fd" "\<not> dused_fd s fd"
      "dtee_open os p s = (fd, s\<lparr>dfds := insert fd (dfds s), dtrace := Opened p fd # dtrace s, dworld := w\<rparr>)"
proof -
  obtain fd w where c: "dm_open os (dused_fd s) p (dworld s) = (fd, w)" by (metis surj_pair)
  have "new_fd (\<lambda>u. dm_open os u p)" using assms by (simp add: daemon_os_ok_def)
  from new_fdD [OF this c] show ?thesis
  proof
    assume "fd = - 1"
    then show ?thesis by (intro that(1) [of w]) (simp add: dtee_open_def dcall_def c)
  next
    assume "\<not> dused_fd s fd \<and> 0 \<le> fd"
    then show ?thesis by (intro that(2) [of fd w]) (simp_all add: dtee_open_def dcall_def note_ev_def c)
  qed
qed

lemma dfopen_cases:
  assumes "daemon_os_ok os"
  obtains w where "dfopen os p m s = (NULL, s\<lparr>dtrace := Fopen p # dtrace s, dworld := w\<rparr>)"
  | f fd w where "f \<noteq> NULL" "dstreams s f = None" "\<not> dused_fd s fd"
      "dfopen os p m s = (f, s\<lparr>dstreams := (dstreams s)(f \<mapsto> fd), dtrace := Fopen p # dtrace s, dworld := w\<rparr>)"
proof -
  let ?c = "px_fopen os (\<lambda>a. a \<in> dom (dstreams s)) (dused_fd s) p m (dworld s)"
  obtain f fd w where c: "?c = ((f, fd), w)" by (metis surj_pair)
  have "\<forall>used usedfd p m w. fst (fst (px_fopen os used usedfd p m w)) = NULL \<or>
        (\<not> used (fst (fst (px_fopen os used usedfd p m w))) \<and>
         \<not> usedfd (snd (fst (px_fopen os used usedfd p m w))) \<and> snd (fst (px_fopen os used usedfd p m w)) \<ge> 0)"
    using assms by (simp add: daemon_os_ok_def fresh_ok_def)
  then have "fst (fst ?c) = NULL \<or> (\<not> fst (fst ?c) \<in> dom (dstreams s) \<and> \<not> dused_fd s (snd (fst ?c)) \<and> snd (fst ?c) \<ge> 0)"
    by blast
  then have "f = NULL \<or> (dstreams s f = None \<and> \<not> dused_fd s fd)" by (auto simp: c)
  then show ?thesis
  proof (cases "f = NULL")
    case True
    then show ?thesis by (intro that(1) [of w]) (simp add: dfopen_def dcall_def note_ev_def c)
  next
    case False
    with \<open>f = NULL \<or> _\<close> show ?thesis
      by (intro that(2) [of f fd w]) (simp_all add: dfopen_def dcall_def note_ev_def c)
  qed
qed

lemma dmalloc_cases:
  assumes "daemon_os_ok os"
  obtains w where "dmalloc os n s = (NULL, s\<lparr>dworld := w\<rparr>)"
  | a xs w where "a \<noteq> NULL" "dmem s a = None" "length xs = n"
      "dmalloc os n s = (a, s\<lparr>dmem := (dmem s)(a \<mapsto> xs), dworld := w\<rparr>)"
proof -
  let ?c = "px_malloc os (\<lambda>a. a \<in> dom (dmem s)) n (dworld s)"
  obtain a w where c: "?c = (a, w)" by (metis surj_pair)
  have "\<forall>used n w. fst (px_malloc os used n w) = NULL \<or> \<not> used (fst (px_malloc os used n w))"
    using assms by (simp add: daemon_os_ok_def fresh_ok_def)
  then have "fst ?c = NULL \<or> \<not> fst ?c \<in> dom (dmem s)" by blast
  then have "a = NULL \<or> dmem s a = None" by (auto simp: c)
  then show ?thesis
  proof (cases "a = NULL")
    case True
    then show ?thesis by (intro that(1) [of w]) (simp add: dmalloc_def dcall_def c)
  next
    case False
    with \<open>a = NULL \<or> _\<close> show ?thesis
      by (intro that(2) [of a "map (dm_fill os a) [0..<n]" w]) (simp_all add: dmalloc_def dcall_def c)
  qed
qed

lemma dfree_live: "dmem s a = Some bs \<Longrightarrow> dfree a s = Some (s\<lparr>dmem := (dmem s)(a := None)\<rparr>)"
  by (simp add: dfree_def)

lemma dwrite_live:
  "dmem s a = Some bs \<Longrightarrow> length xs \<le> length bs \<Longrightarrow>
     dwrite a xs s = Some (s\<lparr>dmem := (dmem s)(a \<mapsto> xs @ drop (length xs) bs)\<rparr>)"
  by (simp add: dwrite_def put_bytes_def)

lemma dzeroE:
  assumes "dmem s a = Some bs"
  obtains rc ys w where "dzero os a s = Some (rc, s\<lparr>dmem := (dmem s)(a \<mapsto> ys), dworld := w\<rparr>)"
    and "length ys = length bs" and "rc = EOK \<Longrightarrow> ys = replicate (length bs) 0"
proof -
  obtain rc w where c: "dcall (dm_memset_s os) s = (rc, s\<lparr>dworld := w\<rparr>)" by (rule dcallE)
  have "dmem s = (dmem s)(a \<mapsto> bs)" using assms by auto
  then have "s\<lparr>dworld := w\<rparr> = s\<lparr>dmem := (dmem s)(a \<mapsto> bs), dworld := w\<rparr>" by simp
  moreover define ys where "ys = (if rc = EOK then replicate (length bs) 0 else bs)"
  ultimately have "dzero os a s = Some (rc, s\<lparr>dmem := (dmem s)(a \<mapsto> ys), dworld := w\<rparr>)"
    using assms c by (cases "rc = EOK") (simp_all add: dzero_def)
  then show ?thesis by (rule that) (simp_all add: ys_def)
qed

section \<open>Frames\<close>

definition dext :: "(devent \<Rightarrow> bool) \<Rightarrow> 'w teecd \<Rightarrow> 'w teecd \<Rightarrow> bool" where
  "dext P s s' \<longleftrightarrow> (\<exists>tr w. s' = s\<lparr>dtrace := tr @ dtrace s, dworld := w\<rparr> \<and> list_all P tr)"

lemma dextI: "list_all P tr \<Longrightarrow> dext P s (s\<lparr>dtrace := tr @ dtrace s, dworld := w\<rparr>)"
  by (auto simp: dext_def)

lemma dextE:
  assumes "dext P s s'"
  obtains tr w where "s' = s\<lparr>dtrace := tr @ dtrace s, dworld := w\<rparr>" and "list_all P tr"
  using assms by (auto simp: dext_def)

lemma dext_world [simp, intro]: "dext P s (s\<lparr>dworld := w\<rparr>)"
  using dextI [of P "[]" s w] by simp

lemma dext_refl [simp, intro]: "dext P s s"
  using dext_world [of P s "dworld s"] by simp

lemma dext_trans [trans]: "dext P s s1 \<Longrightarrow> dext P s1 s2 \<Longrightarrow> dext P s s2"
  unfolding dext_def by (auto simp: list_all_append) (metis append_assoc list_all_append)

lemma dext_mono: "dext P s s' \<Longrightarrow> (\<And>e. P e \<Longrightarrow> R e) \<Longrightarrow> dext R s s'"
  unfolding dext_def by (metis list.pred_mono_strong)

lemma dext_sel:
  assumes "dext P s s'"
  shows "dfds s' = dfds s" "dstreams s' = dstreams s" "dmem s' = dmem s" "g_secLoadAgentFd s' = g_secLoadAgentFd s"
    "g_miscFd s' = g_miscFd s" "g_fsFd s' = g_fsFd s" "sec_buf s' = sec_buf s" "misc_buf s' = misc_buf s"
    "g_secLoadAgentControl s' = g_secLoadAgentControl s" "g_miscControl s' = g_miscControl s" "g_fsControl s' = g_fsControl s"
    "g_fsThreadFlag s' = g_fsThreadFlag s" "syncSysTimed s' = syncSysTimed s" "gHashXmlSetted s' = gHashXmlSetted s"
  using assms by (auto simp: dext_def)

lemma dext_one [simp]: "P e \<Longrightarrow> dext P s (s\<lparr>dtrace := e # dtrace s, dworld := w\<rparr>)"
  using dextI [of P "[e]" s w] by simp

lemma dext_more: "P e \<Longrightarrow> list_all P tr \<Longrightarrow> dext P s (s\<lparr>dtrace := e # tr @ dtrace s, dworld := w\<rparr>)"
  using dextI [of P "e # tr" s w] by simp

lemma ok_dextE:
  assumes "ok m (\<lambda>(r, s'). dext P s s' \<and> Q r)"
  obtains r tr w where "m = Some (r, s\<lparr>dtrace := tr @ dtrace s, dworld := w\<rparr>)" and "list_all P tr" and "Q r"
  using assms by (auto simp: ok_iff dext_def)

lemma ok_dext_stateE:
  assumes "ok m (dext P s)"
  obtains tr w where "m = Some (s\<lparr>dtrace := tr @ dtrace s, dworld := w\<rparr>)" and "list_all P tr"
  using assms by (auto simp: ok_iff dext_def)

text \<open>Events that send nothing to a client.\<close>

definition quiet :: "devent \<Rightarrow> bool" where
  "quiet e \<longleftrightarrow> (\<forall>sock m q. e \<noteq> Sent sock m q)"

lemma quiet_simps [simp]:
  "quiet (Ioctl fd req r)" "quiet (Fopen p)" "quiet (Opened p fd)" "quiet (Accepted fd)" "quiet (Peer fd cr)" "quiet (Closed fd)"
  "\<not> quiet (Sent sock m q)"
  by (simp_all add: quiet_def)

end
