(* ===== verification/Teecd_Agent.thy ===== *)
theory Teecd_Agent
  imports Teecd_Rules
begin

text \<open>
  Registration of the agents, the clock, and two of the daemon's threads
  (\<open>src/services/teecd/src/tee_agent.c\<close>, \<open>late_init_agent.c\<close>, \<open>misc_work_agent.c\<close>).  The build is the
  standard one: \<open>CONFIG_LATE_INIT\<close> is set and \<open>CONFIG_TEE_FS_BUFFER_DYNAMIC\<close> is not.
\<close>

section \<open>Registration\<close>

text \<open>The descriptor and, on success, the shared buffer that \<open>*control\<close> is set to.\<close>

definition AgentInit :: "'w dmos \<Rightarrow> u32 \<Rightarrow> u32 \<Rightarrow> 'w teecd \<Rightarrow> ((int \<times> addr option) \<times> 'w teecd) option" where
  "AgentInit os agentId bufferSize s =
     (let (fd, s) = dtee_open os TC_PRIVATE_DEV_NAME s
      in if fd < 0 then Some ((- 1, None), s)
         else do {
           (ret, s) \<leftarrow> dioctl os fd (REGISTER_AGENT agentId bufferSize) s;
           if ret \<noteq> 0 then do { s \<leftarrow> dtee_close os fd s; Some ((- 1, None), s) }
           else Some ((fd, Some (dm_buffer os (dworld s))), s)
         })"

definition AgentExit :: "'w dmos \<Rightarrow> u32 \<Rightarrow> int \<Rightarrow> 'w teecd \<Rightarrow> 'w teecd option" where
  "AgentExit os agentId fd s =
     (if fd = - 1 then Some s
      else do { (_, s) \<leftarrow> dioctl os fd (UNREGISTER_AGENT agentId) s; dtee_close os fd s })"

text \<open>The label \<open>ERROR1\<close> of \<open>ProcessAgentInit\<close>.\<close>

definition init_error1 :: "'w dmos \<Rightarrow> 'w teecd \<Rightarrow> (int \<times> 'w teecd) option" where
  "init_error1 os s =
     (if g_fsThreadFlag s = 1
      then do {
        s \<leftarrow> AgentExit os AGENT_FS_ID (g_fsFd s) s;
        Some (- 1, s\<lparr>g_fsFd := - 1, g_fsControl := NULL, g_fsThreadFlag := 0\<rparr>)
      } else Some (- 1, s))"

definition ProcessAgentInit :: "'w dmos \<Rightarrow> 'w teecd \<Rightarrow> (int \<times> 'w teecd) option" where
  "ProcessAgentInit os s = do {
     ((fd, c), s) \<leftarrow> AgentInit os AGENT_FS_ID TRANS_BUFF_SIZE s;
     let s = s\<lparr>g_fsFd := fd, g_fsControl := case_option (g_fsControl s) id c, g_fsThreadFlag := if fd < 0 then 0 else 1\<rparr>;
     ((fd, c), s) \<leftarrow> AgentInit os AGENT_MISC_ID TRANS_BUFF_SIZE s;
     let s = s\<lparr>g_miscFd := fd, g_miscControl := case_option (g_miscControl s) id c\<rparr>;
     if fd < 0 then init_error1 os s
     else do {
       ((ret, c), s) \<leftarrow> AgentInit os SECFILE_LOAD_AGENT_ID TRANS_BUFF_SIZE s;
       let s = s\<lparr>g_secLoadAgentControl := case_option (g_secLoadAgentControl s) id c\<rparr>;
       if ret < 0 then do {
         s \<leftarrow> AgentExit os AGENT_MISC_ID (g_miscFd s) s;
         init_error1 os (s\<lparr>g_miscFd := - 1, g_miscControl := NULL\<rparr>)
       } else Some (0, s\<lparr>g_secLoadAgentFd := ret\<rparr>)
     }
   }"

definition ProcessAgentExit :: "'w dmos \<Rightarrow> 'w teecd \<Rightarrow> 'w teecd option" where
  "ProcessAgentExit os s = do {
     s \<leftarrow> (if g_fsThreadFlag s = 1
          then do { s \<leftarrow> AgentExit os AGENT_FS_ID (g_fsFd s) s; Some (s\<lparr>g_fsFd := - 1, g_fsControl := NULL\<rparr>) }
          else Some s);
     s \<leftarrow> AgentExit os AGENT_MISC_ID (g_miscFd s) s;
     let s = s\<lparr>g_miscFd := - 1, g_miscControl := NULL\<rparr>;
     s \<leftarrow> AgentExit os SECFILE_LOAD_AGENT_ID (g_secLoadAgentFd s) s;
     Some (s\<lparr>g_secLoadAgentFd := - 1, g_secLoadAgentControl := NULL\<rparr>)
   }"

section \<open>The clock\<close>

definition SyncSysTimeToSecure :: "'w dmos \<Rightarrow> 'w teecd \<Rightarrow> (int \<times> 'w teecd) option" where
  "SyncSysTimeToSecure os s =
     (let ((ret, tv_sec, tv_usec), s) = dcall (dm_gettimeofday os) s
      in if ret \<noteq> 0 then Some (ret, s)
         else if tv_sec < 0xFFFFF then Some (- 1, s)
         else let (fd, s) = dtee_open os TC_PRIVATE_DEV_NAME s
         in if fd < 0 then Some (fd, s)
            else do {
              (ret, s) \<leftarrow> dioctl os fd (SYC_SYS_TIME (uint32_of tv_sec) (uint32_of tv_usec div 1000)) s;
              s \<leftarrow> dtee_close os fd s;
              Some (ret, s)
            })"

definition TrySyncSysTimeToSecure :: "'w dmos \<Rightarrow> 'w teecd \<Rightarrow> 'w teecd option" where
  "TrySyncSysTimeToSecure os s =
     (if syncSysTimed s = 0
      then do { (ret, s) \<leftarrow> SyncSysTimeToSecure os s; Some (if ret \<noteq> 0 then s else s\<lparr>syncSysTimed := 1\<rparr>) }
      else Some s)"

section \<open>The late-initialisation thread\<close>

definition InitLateWorkThread :: "'w dmos \<Rightarrow> 'w teecd \<Rightarrow> 'w teecd option" where
  "InitLateWorkThread os s =
     (let (fd, s) = dtee_open os TC_PRIVATE_DEV_NAME s
      in if fd < 0 then Some s
         else do { (_, s) \<leftarrow> dioctl os fd (LATEINIT FS_LATE_INIT) s; dtee_close os fd s })"

section \<open>The miscellaneous agent\<close>

text \<open>\<open>%0nd\<close>; the sign counts for the width.  C's division rounds towards zero.\<close>

definition pad_dec :: "nat \<Rightarrow> nat \<Rightarrow> string" where
  "pad_dec n k = replicate (n - length (dec_digits k)) (CHR ''0'') @ dec_digits k"

definition int_fix :: "nat \<Rightarrow> int \<Rightarrow> string" where
  "int_fix n i = (if i < 0 then ''-'' @ pad_dec (n - 1) (nat (- i)) else pad_dec n (nat i))"

definition cdiv :: "int \<Rightarrow> int \<Rightarrow> int" where
  "cdiv i k = sgn i * (abs i div k)"

definition time_text :: "tm \<Rightarrow> int \<Rightarrow> string" where
  "time_text t tv_usec =
     int_fix 4 (tm_year t + 1900) @ ''-'' @ int_fix 2 (tm_mon t + 1) @ ''-'' @ int_fix 2 (tm_mday t) @ '' '' @
     int_fix 2 (tm_hour t) @ '':'' @ int_fix 2 (tm_min t) @ '':'' @ int_fix 2 (tm_sec t) @ ''.'' @
     int_fix 3 (cdiv tv_usec 1000) @ '' ''"

definition GetTimeWork :: "securec \<Rightarrow> 'w dmos \<Rightarrow> 'w teecd \<Rightarrow> 'w teecd" where
  "GetTimeWork sc os s =
     (let ((r, tv_sec, tv_usec), s) = dcall (dm_gettimeofday os) s
      in if r = 0
         then let c = (misc_buf s)\<lparr>mc_ret := 0, mc_seconds := uint32_of tv_sec, mc_millis := uint32_of (cdiv tv_usec 1000)\<rparr>;
                  (tstruct, s) = dcall (dm_localtime os tv_sec) s
              in case tstruct of
                   Some t \<Rightarrow>
                     let (rc, txt') = snprintf_s sc MISC_CONTROL_TIME_STR_LEN (MISC_CONTROL_TIME_STR_LEN - 1) (time_text t tv_usec);
                         c = c\<lparr>mc_timeStr := txt'\<rparr>
                     in s\<lparr>misc_buf := if rc = - 1 then c\<lparr>mc_ret := - 1\<rparr> else c\<rparr>
                 | None \<Rightarrow> s\<lparr>misc_buf := c\<rparr>
         else s\<lparr>misc_buf := (misc_buf s)\<lparr>mc_ret := - 1, mc_seconds := 0, mc_millis := 0\<rparr>\<rparr>)"

text \<open>Waiting and answering: the call may change the shared buffer.\<close>

definition misc_event :: "'w dmos \<Rightarrow> int \<Rightarrow> fs_req \<Rightarrow> 'w teecd \<Rightarrow> (int \<times> 'w teecd) option" where
  "misc_event os fd req s =
     (if fd \<in> dfds s
      then let ((r, c), s) = dcall (dm_misc_event os fd req (misc_buf s)) s in Some (r, s\<lparr>misc_buf := c\<rparr>)
      else None)"

text \<open>One turn of the loop; the result says whether it goes on.\<close>

definition misc_round :: "securec \<Rightarrow> 'w dmos \<Rightarrow> int \<Rightarrow> 'w teecd \<Rightarrow> (bool \<times> 'w teecd) option" where
  "misc_round sc os miscFd s = do {
     (ret, s) \<leftarrow> misc_event os miscFd FS_WAIT_EVENT s;
     if ret \<noteq> 0 then Some (False, s)
     else do {
       let s = (case misc_cmd_of (mc_cmd (misc_buf s)) of Some SEC_GET_TIME \<Rightarrow> GetTimeWork sc os s | _ \<Rightarrow> s);
       let s = s\<lparr>misc_buf := (misc_buf s)\<lparr>mc_magic := AGENT_MISC_ID\<rparr>\<rparr>;
       (ret, s) \<leftarrow> misc_event os miscFd FS_SEND_EVENT_RESPONSE s;
       Some (ret = 0, s)
     }
   }"

partial_function (option) misc_loop :: "securec \<Rightarrow> 'w dmos \<Rightarrow> int \<Rightarrow> 'w teecd \<Rightarrow> 'w teecd option" where
  "misc_loop sc os miscFd s =
     misc_round sc os miscFd s \<bind> (\<lambda>(b, s). if b then misc_loop sc os miscFd s else Some s)"

definition MiscWorkThread :: "securec \<Rightarrow> 'w dmos \<Rightarrow> 'w teecd \<Rightarrow> 'w teecd option" where
  "MiscWorkThread sc os s =
     (if g_miscControl s = NULL then Some s
      else if g_miscFd s = - 1 then Some s
      else misc_loop sc os (g_miscFd s) (s\<lparr>misc_buf := (misc_buf s)\<lparr>mc_magic := AGENT_MISC_ID\<rparr>\<rparr>))"

section \<open>Agents come and go\<close>

lemma AgentInit_cases:
  assumes "daemon_os_ok os"
  obtains w where "AgentInit os i n s = Some ((- 1, None), s\<lparr>dworld := w\<rparr>)"
  | fd r w where "r \<noteq> 0"
      "AgentInit os i n s = Some ((- 1, None), s\<lparr>dtrace := Closed fd # Ioctl fd (REGISTER_AGENT i n) r #
         Opened TC_PRIVATE_DEV_NAME fd # dtrace s, dworld := w\<rparr>)"
  | fd b w where "0 \<le> fd" "\<not> dused_fd s fd"
      "AgentInit os i n s = Some ((fd, Some b), s\<lparr>dfds := insert fd (dfds s), dtrace := Ioctl fd (REGISTER_AGENT i n) 0 #
         Opened TC_PRIVATE_DEV_NAME fd # dtrace s, dworld := w\<rparr>)"
proof (cases rule: dtee_open_cases [OF assms, of TC_PRIVATE_DEV_NAME s])
  case (1 w)
  then show ?thesis by (intro that(1) [of w]) (simp add: AgentInit_def)
next
  case (2 fd w)
  let ?s = "s\<lparr>dfds := insert fd (dfds s), dtrace := Opened TC_PRIVATE_DEV_NAME fd # dtrace s, dworld := w\<rparr>"
  have "fd \<in> dfds ?s" by simp
  then obtain r w' where io: "dioctl os fd (REGISTER_AGENT i n) ?s =
      Some (r, ?s\<lparr>dtrace := Ioctl fd (REGISTER_AGENT i n) r # dtrace ?s, dworld := w'\<rparr>)" by (rule dioctlE)
  show ?thesis
  proof (cases "r = 0")
    case True
    with 2 io show ?thesis by (intro that(3) [of fd _ w']) (simp_all add: AgentInit_def)
  next
    case False
    have "fd \<notin> dfds s" using 2 by (simp add: dused_fd_def)
    with False 2 io show ?thesis
      by (intro that(2) [of r "px_close os fd w'" fd]) (simp_all add: AgentInit_def dtee_close_open)
  qed
qed

lemma AgentExitE:
  assumes "fd \<in> dfds s" "0 \<le> fd"
  obtains r w where "AgentExit os i fd s =
    Some (s\<lparr>dfds := dfds s - {fd}, dtrace := Closed fd # Ioctl fd (UNREGISTER_AGENT i) r # dtrace s, dworld := w\<rparr>)"
proof -
  obtain r w where io: "dioctl os fd (UNREGISTER_AGENT i) s =
      Some (r, s\<lparr>dtrace := Ioctl fd (UNREGISTER_AGENT i) r # dtrace s, dworld := w\<rparr>)"
    using assms(1) by (rule dioctlE)
  with assms show ?thesis by (intro that [of "px_close os fd w" r]) (simp add: AgentExit_def dtee_close_open)
qed

text \<open>The agents that were registered and for which no unregistration was requested, with their descriptors.\<close>

fun registered :: "devent list \<Rightarrow> (u32 \<times> int) set" where
  "registered [] = {}"
| "registered (Ioctl fd (REGISTER_AGENT i n) r # es) =
     (if r = 0 then insert (i, fd) (registered es) else registered es)"
| "registered (Ioctl fd (UNREGISTER_AGENT i) r # es) = registered es - {(i, fd)}"
| "registered (_ # es) = registered es"

text \<open>The descriptors that belong to the agents, and the agents they are registered for.\<close>

definition agent_table :: "'w teecd \<Rightarrow> (u32 \<times> int) set" where
  "agent_table s = {(AGENT_MISC_ID, g_miscFd s), (SECFILE_LOAD_AGENT_ID, g_secLoadAgentFd s)} \<union>
     (if g_fsThreadFlag s = 1 then {(AGENT_FS_ID, g_fsFd s)} else {})"

definition agents_up :: "'w teecd \<Rightarrow> bool" where
  "agents_up s \<longleftrightarrow> 0 \<le> g_miscFd s \<and> 0 \<le> g_secLoadAgentFd s \<and> g_miscFd s \<noteq> g_secLoadAgentFd s \<and>
     (g_fsThreadFlag s = 1 \<longrightarrow> 0 \<le> g_fsFd s \<and> g_fsFd s \<noteq> g_miscFd s \<and> g_fsFd s \<noteq> g_secLoadAgentFd s) \<and>
     snd ` agent_table s \<subseteq> dfds s"

text \<open>The static variables as the program starts with them.\<close>

definition globals0 :: "'w teecd \<Rightarrow> bool" where
  "globals0 s \<longleftrightarrow> g_fsFd s = - 1 \<and> g_miscFd s = - 1 \<and> g_secLoadAgentFd s = - 1 \<and> g_fsControl s = NULL \<and>
     g_miscControl s = NULL \<and> g_secLoadAgentControl s = NULL \<and> g_fsThreadFlag s = 0"

lemma AgentInit_summary:
  assumes "daemon_os_ok os"
  obtains tr w where "\<And>es. registered (tr @ es) = registered es" "list_all quiet tr"
      "AgentInit os i n s = Some ((- 1, None), s\<lparr>dtrace := tr @ dtrace s, dworld := w\<rparr>)"
  | fd b w where "0 \<le> fd" "fd \<notin> dfds s"
      "AgentInit os i n s = Some ((fd, Some b), s\<lparr>dfds := insert fd (dfds s), dtrace := Ioctl fd (REGISTER_AGENT i n) 0 #
         Opened TC_PRIVATE_DEV_NAME fd # dtrace s, dworld := w\<rparr>)"
proof (cases rule: AgentInit_cases [OF assms, of i n s])
  case (1 w)
  then show ?thesis by (intro that(1) [of "[]" w]) simp_all
next
  case (2 fd r w)
  then show ?thesis
    by (intro that(1) [of "[Closed fd, Ioctl fd (REGISTER_AGENT i n) r, Opened TC_PRIVATE_DEV_NAME fd]" w]) simp_all
next
  case (3 fd b w)
  then show ?thesis by (intro that(2) [of fd b w]) (simp_all add: dused_fd_def)
qed

lemma init_error1_ok:
  assumes "g_fsThreadFlag s = 1 \<longrightarrow> g_fsFd s \<in> dfds s \<and> 0 \<le> g_fsFd s"
  obtains tr w where "init_error1 os s = Some (- 1, (if g_fsThreadFlag s = 1
      then s\<lparr>g_fsFd := - 1, g_fsControl := NULL, g_fsThreadFlag := 0, dfds := dfds s - {g_fsFd s}\<rparr> else s)\<lparr>dtrace := tr @ dtrace s, dworld := w\<rparr>)"
    and "\<And>es. registered (tr @ es) = registered es - (if g_fsThreadFlag s = 1 then {(AGENT_FS_ID, g_fsFd s)} else {})"
    and "list_all quiet tr"
proof (cases "g_fsThreadFlag s = 1")
  case True
  with assms obtain w r where "AgentExit os AGENT_FS_ID (g_fsFd s) s = Some (s\<lparr>dfds := dfds s - {g_fsFd s},
      dtrace := Closed (g_fsFd s) # Ioctl (g_fsFd s) (UNREGISTER_AGENT AGENT_FS_ID) r # dtrace s, dworld := w\<rparr>)"
    using AgentExitE [of "g_fsFd s" s os AGENT_FS_ID] by metis
  with True show ?thesis
    by (intro that [of w "[Closed (g_fsFd s), Ioctl (g_fsFd s) (UNREGISTER_AGENT AGENT_FS_ID) r]"]) (simp_all add: init_error1_def)
next
  case False
  then show ?thesis by (intro that [of "dworld s" "[]"]) (simp_all add: init_error1_def)
qed

text \<open>What \<open>ProcessAgentInit\<close> promises: all agents but perhaps the file agent, or nothing at all.\<close>

definition agents_started :: "'w teecd \<Rightarrow> int \<times> 'w teecd \<Rightarrow> bool" where
  "agents_started s = (\<lambda>(r, s').
     if r = 0
     then agents_up s' \<and> dfds s' = dfds s \<union> snd ` agent_table s' \<and> snd ` agent_table s' \<inter> dfds s = {} \<and>
       dstreams s' = dstreams s \<and> dmem s' = dmem s \<and> sec_buf s' = sec_buf s \<and> registered (dtrace s') = agent_table s' \<and>
       (\<exists>tr. dtrace s' = tr @ dtrace s \<and> list_all quiet tr)
     else r = - 1 \<and> dext quiet s s' \<and> registered (dtrace s') = {})"

text \<open>The file agent may be missing; the rest of the start-up is the same.\<close>

definition fs_phase :: "'w teecd \<Rightarrow> 'w teecd \<Rightarrow> bool" where
  "fs_phase s s1 \<longleftrightarrow> (\<exists>fd c b tr w.
     s1 = s\<lparr>g_fsFd := fd, g_fsControl := c, g_fsThreadFlag := b, dfds := if b = 1 then insert fd (dfds s) else dfds s,
            dtrace := tr @ dtrace s, dworld := w\<rparr> \<and>
     registered (tr @ dtrace s) = (if b = 1 then {(AGENT_FS_ID, fd)} else {}) \<and> list_all quiet tr \<and>
     (if b = 1 then 0 \<le> fd \<and> fd \<notin> dfds s else fd = - 1 \<and> c = NULL \<and> b = 0))"

lemma fs_phase_start:
  assumes os: "daemon_os_ok os" and g: "globals0 s" and reg: "registered (dtrace s) = {}"
  shows "ok (AgentInit os AGENT_FS_ID TRANS_BUFF_SIZE s) (\<lambda>((fd, c), s').
    fs_phase s (s'\<lparr>g_fsFd := fd, g_fsControl := case_option (g_fsControl s') id c, g_fsThreadFlag := if fd < 0 then 0 else 1\<rparr>))"
proof (cases rule: AgentInit_summary [OF os, of AGENT_FS_ID TRANS_BUFF_SIZE s])
  case (1 tr w)
  let ?s = "s\<lparr>g_fsFd := - 1, g_fsControl := g_fsControl s, g_fsThreadFlag := 0, dtrace := tr @ dtrace s, dworld := w\<rparr>"
  have "?s = s\<lparr>g_fsFd := - 1, g_fsThreadFlag := 0, dtrace := tr @ dtrace s, dworld := w\<rparr>" by simp
  moreover have "?s = s\<lparr>g_fsFd := - 1, g_fsControl := NULL, g_fsThreadFlag := 0, dtrace := tr @ dtrace s, dworld := w\<rparr>"
    using g by (simp add: globals0_def)
  moreover have "fs_phase s (s\<lparr>g_fsFd := - 1, g_fsControl := NULL, g_fsThreadFlag := 0, dtrace := tr @ dtrace s, dworld := w\<rparr>)"
    unfolding fs_phase_def
    by (rule exI [of _ "- 1"], rule exI [of _ NULL], rule exI [of _ 0], rule exI [of _ tr], rule exI [of _ w]) (simp add: 1 reg)
  ultimately show ?thesis using 1 by simp
next
  case (2 fd b w)
  let ?tr = "[Ioctl fd (REGISTER_AGENT AGENT_FS_ID TRANS_BUFF_SIZE) 0, Opened TC_PRIVATE_DEV_NAME fd]"
  have "fs_phase s (s\<lparr>g_fsFd := fd, g_fsControl := b, g_fsThreadFlag := 1, dfds := insert fd (dfds s), dtrace := ?tr @ dtrace s, dworld := w\<rparr>)"
    unfolding fs_phase_def
    by (rule exI [of _ fd], rule exI [of _ b], rule exI [of _ 1], rule exI [of _ ?tr], rule exI [of _ w]) (simp add: 2 reg)
  with 2 show ?thesis by simp
qed

lemma fs_phaseE:
  assumes "fs_phase s s1"
  obtains tr w where "g_fsThreadFlag s1 = 0"
      "s1 = s\<lparr>g_fsFd := - 1, g_fsControl := NULL, g_fsThreadFlag := 0, dtrace := tr @ dtrace s, dworld := w\<rparr>"
      "registered (tr @ dtrace s) = {}" "list_all quiet tr"
  | fd c tr w where "0 \<le> fd" "fd \<notin> dfds s"
      "s1 = s\<lparr>g_fsFd := fd, g_fsControl := c, g_fsThreadFlag := 1, dfds := insert fd (dfds s), dtrace := tr @ dtrace s, dworld := w\<rparr>"
      "registered (tr @ dtrace s) = {(AGENT_FS_ID, fd)}" "list_all quiet tr"
  using assms unfolding fs_phase_def by (auto split: if_splits)

text \<open>After the file agent: giving up returns everything.\<close>

lemma init_error1_all:
  assumes g: "globals0 s" and p: "fs_phase s s1"
  shows "ok (init_error1 os s1) (agents_started s)"
proof -
  have s0: "s\<lparr>g_fsFd := - 1, g_fsControl := NULL, g_fsThreadFlag := 0, dtrace := t, dworld := w\<rparr> = s\<lparr>dtrace := t, dworld := w\<rparr>" for t w
    using g by (simp add: globals0_def)
  have ext: "dext quiet s (s\<lparr>dtrace := t @ dtrace s, dworld := w\<rparr>)" if "list_all quiet t" for t w using that by (rule dextI)
  have up: "g_fsThreadFlag s1 = 1 \<longrightarrow> g_fsFd s1 \<in> dfds s1 \<and> 0 \<le> g_fsFd s1"
    using p by (cases rule: fs_phaseE) simp_all
  obtain tr w where e: "init_error1 os s1 = Some (- 1, (if g_fsThreadFlag s1 = 1
      then s1\<lparr>g_fsFd := - 1, g_fsControl := NULL, g_fsThreadFlag := 0, dfds := dfds s1 - {g_fsFd s1}\<rparr> else s1)\<lparr>dtrace := tr @ dtrace s1, dworld := w\<rparr>)"
    and r: "\<And>es. registered (tr @ es) = registered es - (if g_fsThreadFlag s1 = 1 then {(AGENT_FS_ID, g_fsFd s1)} else {})"
    and qt: "list_all quiet tr"
    by (rule init_error1_ok [OF up, where os = os]) (rule that)
  from p show ?thesis
  proof (cases rule: fs_phaseE)
    case (1 tr' w')
    with e have "init_error1 os s1 = Some (- 1, s\<lparr>dtrace := (tr @ tr') @ dtrace s, dworld := w\<rparr>)"
      by (simp add: s0)
    with 1 r show ?thesis unfolding agents_started_def using qt ext [of "tr @ tr'" w] by simp
  next
    case (2 fd c tr' w')
    with e have "init_error1 os s1 = Some (- 1, s\<lparr>dtrace := (tr @ tr') @ dtrace s, dworld := w\<rparr>)"
      by (simp add: s0)
    with 2 r show ?thesis unfolding agents_started_def using qt ext [of "tr @ tr'" w] by simp
  qed
qed

lemma fs_phase_misc_failed:
  assumes "fs_phase s s1" "registered (tr @ dtrace s1) = registered (dtrace s1)" "g_miscFd s = - 1" "g_miscControl s = NULL"
    and "list_all quiet tr"
  shows "fs_phase s (s1\<lparr>g_miscFd := - 1, g_miscControl := NULL, dtrace := tr @ dtrace s1, dworld := w\<rparr>)"
proof -
  from assms(1) obtain fd c b t w' where s1: "s1 = s\<lparr>g_fsFd := fd, g_fsControl := c, g_fsThreadFlag := b,
      dfds := if b = 1 then insert fd (dfds s) else dfds s, dtrace := t @ dtrace s, dworld := w'\<rparr>"
    and r: "registered (t @ dtrace s) = (if b = 1 then {(AGENT_FS_ID, fd)} else {})"
      "if b = 1 then 0 \<le> fd \<and> fd \<notin> dfds s else fd = - 1 \<and> c = NULL \<and> b = 0" "list_all quiet t"
    unfolding fs_phase_def by blast
  have eq: "s1\<lparr>g_miscFd := - 1, g_miscControl := NULL, dtrace := tr @ dtrace s1, dworld := w\<rparr> =
      s\<lparr>g_fsFd := fd, g_fsControl := c, g_fsThreadFlag := b,
        dfds := if b = 1 then insert fd (dfds s) else dfds s, dtrace := (tr @ t) @ dtrace s, dworld := w\<rparr>"
    using assms(3,4) by (simp add: s1)
  show ?thesis
    unfolding fs_phase_def eq
    by (rule exI [of _ fd], rule exI [of _ c], rule exI [of _ b], rule exI [of _ "tr @ t"], rule exI [of _ w])
      (use assms(2,5) r in \<open>simp add: s1\<close>)
qed

lemma ProcessAgentInit_ok:
  assumes os: "daemon_os_ok os" and g: "globals0 s" and reg: "registered (dtrace s) = {}"
  shows "ok (ProcessAgentInit os s) (agents_started s)"
proof -
  have gs: "g_miscFd s = - 1" "g_miscControl s = NULL" "g_secLoadAgentControl s = NULL" "g_secLoadAgentFd s = - 1"
    using g by (simp_all add: globals0_def)
  obtain fd c s' where fs: "AgentInit os AGENT_FS_ID TRANS_BUFF_SIZE s = Some ((fd, c), s')"
    and p': "fs_phase s (s'\<lparr>g_fsFd := fd, g_fsControl := case_option (g_fsControl s') id c, g_fsThreadFlag := if fd < 0 then 0 else 1\<rparr>)"
    using fs_phase_start [OF os g reg] by (auto simp: ok_iff)
  define s1 where "s1 = s'\<lparr>g_fsFd := fd, g_fsControl := case_option (g_fsControl s') id c, g_fsThreadFlag := if fd < 0 then 0 else 1\<rparr>"
  note p = p' [folded s1_def]
  have g1: "g_miscFd s1 = - 1" "g_miscControl s1 = NULL" "g_secLoadAgentControl s1 = NULL" "g_secLoadAgentFd s1 = - 1"
    using p gs by (auto elim!: fs_phaseE)
  show ?thesis
  proof (cases rule: AgentInit_summary [OF os, of AGENT_MISC_ID TRANS_BUFF_SIZE s1])
    case (1 tr w)
    have eq: "s1\<lparr>g_miscFd := - 1, g_miscControl := g_miscControl s1, dtrace := tr @ dtrace s1, dworld := w\<rparr> =
        s1\<lparr>g_miscFd := - 1, g_miscControl := NULL, dtrace := tr @ dtrace s1, dworld := w\<rparr>" by (simp only: g1)
    have "ProcessAgentInit os s = init_error1 os (s1\<lparr>g_miscFd := - 1, g_miscControl := NULL, dtrace := tr @ dtrace s1, dworld := w\<rparr>)"
      unfolding eq [symmetric] using fs 1 by (simp add: ProcessAgentInit_def s1_def [symmetric])
    then show ?thesis using init_error1_all [OF g fs_phase_misc_failed [OF p 1(1) gs(1,2) 1(2)]] by simp
  next
    case (2 mfd mc w)
    let ?tr2 = "[Ioctl mfd (REGISTER_AGENT AGENT_MISC_ID TRANS_BUFF_SIZE) 0, Opened TC_PRIVATE_DEV_NAME mfd]"
    define s2 where "s2 = s1\<lparr>g_miscFd := mfd, g_miscControl := mc, dfds := insert mfd (dfds s1), dtrace := ?tr2 @ dtrace s1, dworld := w\<rparr>"
    show ?thesis
    proof (cases rule: AgentInit_summary [OF os, of SECFILE_LOAD_AGENT_ID TRANS_BUFF_SIZE s2])
      case s: (1 tr w2)
      let ?s3 = "s2\<lparr>g_secLoadAgentControl := g_secLoadAgentControl s2, dtrace := tr @ dtrace s2, dworld := w2\<rparr>"
      have "mfd \<in> dfds ?s3" "0 \<le> mfd" using 2 by (simp_all add: s2_def)
      then obtain r w3 where x: "AgentExit os AGENT_MISC_ID mfd ?s3 = Some (?s3\<lparr>dfds := dfds ?s3 - {mfd},
          dtrace := Closed mfd # Ioctl mfd (UNREGISTER_AGENT AGENT_MISC_ID) r # dtrace ?s3, dworld := w3\<rparr>)"
        by (rule AgentExitE)
      let ?tr = "[Closed mfd, Ioctl mfd (UNREGISTER_AGENT AGENT_MISC_ID) r] @ tr @ ?tr2"
      let ?s4 = "s1\<lparr>g_miscFd := - 1, g_miscControl := NULL, dtrace := ?tr @ dtrace s1, dworld := w3\<rparr>"
      have "ProcessAgentInit os s = init_error1 os ?s4"
        using fs 2 s x by (simp add: ProcessAgentInit_def s1_def [symmetric] s2_def [symmetric]) (simp add: s2_def)
      moreover have "registered (?tr @ dtrace s1) = registered (dtrace s1)"
        using p by (cases rule: fs_phaseE) (simp_all add: s)
      ultimately show ?thesis using init_error1_all [OF g fs_phase_misc_failed [OF p _ gs(1,2), of ?tr w3]] by (simp add: s(2))
    next
      case s: (2 sfd sc w2)
      let ?tr3 = "[Ioctl sfd (REGISTER_AGENT SECFILE_LOAD_AGENT_ID TRANS_BUFF_SIZE) 0, Opened TC_PRIVATE_DEV_NAME sfd]"
      let ?s3 = "s2\<lparr>g_secLoadAgentFd := sfd, g_secLoadAgentControl := sc, dfds := insert sfd (dfds s2), dtrace := ?tr3 @ dtrace s2, dworld := w2\<rparr>"
      have run: "ProcessAgentInit os s = Some (0, ?s3)"
        using fs 2 s by (simp add: ProcessAgentInit_def s1_def [symmetric] s2_def [symmetric]) (simp add: s2_def)
      have "agents_started s (0, ?s3)"
        using p 2(1,2) s(1,2) by (cases rule: fs_phaseE) (auto simp: agents_started_def agents_up_def agent_table_def s2_def)
      with run show ?thesis by simp
    qed
  qed
qed

lemma ProcessAgentExit_ok:
  assumes "agents_up s"
  shows "ok (ProcessAgentExit os s) (\<lambda>s'. dfds s' = dfds s - snd ` agent_table s \<and>
    registered (dtrace s') = registered (dtrace s) - agent_table s \<and> dstreams s' = dstreams s \<and> dmem s' = dmem s \<and>
    g_miscFd s' = - 1 \<and> g_secLoadAgentFd s' = - 1 \<and> (g_fsThreadFlag s = 1 \<longrightarrow> g_fsFd s' = - 1))"
proof -
  let ?fs = "if g_fsThreadFlag s = 1
    then do { s \<leftarrow> AgentExit os AGENT_FS_ID (g_fsFd s) s; Some (s\<lparr>g_fsFd := - 1, g_fsControl := NULL\<rparr>) } else Some s"
  obtain s1 where s1: "?fs = Some s1" "dfds s1 = dfds s - (if g_fsThreadFlag s = 1 then {g_fsFd s} else {})"
      "registered (dtrace s1) = registered (dtrace s) - (if g_fsThreadFlag s = 1 then {(AGENT_FS_ID, g_fsFd s)} else {})"
      "dstreams s1 = dstreams s" "dmem s1 = dmem s" "g_miscFd s1 = g_miscFd s" "g_secLoadAgentFd s1 = g_secLoadAgentFd s"
      "g_fsThreadFlag s = 1 \<longrightarrow> g_fsFd s1 = - 1"
  proof (cases "g_fsThreadFlag s = 1")
    case True
    with assms have "g_fsFd s \<in> dfds s" "0 \<le> g_fsFd s" by (auto simp: agents_up_def agent_table_def)
    then obtain r w where "AgentExit os AGENT_FS_ID (g_fsFd s) s = Some (s\<lparr>dfds := dfds s - {g_fsFd s},
        dtrace := Closed (g_fsFd s) # Ioctl (g_fsFd s) (UNREGISTER_AGENT AGENT_FS_ID) r # dtrace s, dworld := w\<rparr>)"
      by (rule AgentExitE)
    with True show thesis
      by (intro that [of "s\<lparr>g_fsFd := - 1, g_fsControl := NULL, dfds := dfds s - {g_fsFd s},
        dtrace := Closed (g_fsFd s) # Ioctl (g_fsFd s) (UNREGISTER_AGENT AGENT_FS_ID) r # dtrace s, dworld := w\<rparr>"]) simp_all
  next
    case False
    then show thesis by (intro that [of s]) simp_all
  qed
  have m: "g_miscFd s \<in> dfds s1" "0 \<le> g_miscFd s" and l: "g_secLoadAgentFd s \<in> dfds s1" "0 \<le> g_secLoadAgentFd s"
      "g_miscFd s \<noteq> g_secLoadAgentFd s"
    using assms s1(2) by (auto simp: agents_up_def agent_table_def)
  obtain r w where x2: "AgentExit os AGENT_MISC_ID (g_miscFd s) s1 = Some (s1\<lparr>dfds := dfds s1 - {g_miscFd s},
      dtrace := Closed (g_miscFd s) # Ioctl (g_miscFd s) (UNREGISTER_AGENT AGENT_MISC_ID) r # dtrace s1, dworld := w\<rparr>)"
    using m by (rule AgentExitE)
  define s2 where "s2 = s1\<lparr>g_miscFd := - 1, g_miscControl := NULL, dfds := dfds s1 - {g_miscFd s},
      dtrace := Closed (g_miscFd s) # Ioctl (g_miscFd s) (UNREGISTER_AGENT AGENT_MISC_ID) r # dtrace s1, dworld := w\<rparr>"
  have "g_secLoadAgentFd s \<in> dfds s2" using l by (simp add: s2_def)
  then obtain r' w' where x3: "AgentExit os SECFILE_LOAD_AGENT_ID (g_secLoadAgentFd s) s2 = Some (s2\<lparr>dfds := dfds s2 - {g_secLoadAgentFd s},
      dtrace := Closed (g_secLoadAgentFd s) # Ioctl (g_secLoadAgentFd s) (UNREGISTER_AGENT SECFILE_LOAD_AGENT_ID) r' # dtrace s2, dworld := w'\<rparr>)"
    using l(2) by (rule AgentExitE)
  have "g_secLoadAgentFd s2 = g_secLoadAgentFd s" by (simp add: s2_def s1)
  then have "ProcessAgentExit os s = Some (s2\<lparr>g_secLoadAgentFd := - 1, g_secLoadAgentControl := NULL, dfds := dfds s2 - {g_secLoadAgentFd s},
      dtrace := Closed (g_secLoadAgentFd s) # Ioctl (g_secLoadAgentFd s) (UNREGISTER_AGENT SECFILE_LOAD_AGENT_ID) r' # dtrace s2, dworld := w'\<rparr>)"
    unfolding ProcessAgentExit_def s1(1) using x2 x3 by (simp add: s1(6,7) s2_def [symmetric])
  then show ?thesis using s1 by (auto simp: s2_def agent_table_def)
qed

section \<open>The other operations leak nothing\<close>

definition time_ev :: "devent \<Rightarrow> bool" where
  "time_ev e \<longleftrightarrow> (\<exists>fd sec ms r. e = Opened TC_PRIVATE_DEV_NAME fd \<or> e = Ioctl fd (SYC_SYS_TIME sec ms) r \<or> e = Closed fd)"

lemma time_ev_intros [simp]:
  "time_ev (Opened TC_PRIVATE_DEV_NAME fd)" "time_ev (Ioctl fd (SYC_SYS_TIME sec ms) r)" "time_ev (Closed fd)"
  by (auto simp: time_ev_def)

lemma dext_three: "P e1 \<Longrightarrow> P e2 \<Longrightarrow> P e3 \<Longrightarrow> dext P s (s\<lparr>dtrace := e1 # e2 # e3 # dtrace s, dworld := w\<rparr>)"
  using dextI [of P "[e1, e2, e3]" s w] by simp

lemma SyncSysTimeToSecure_ok:
  assumes "daemon_os_ok os"
  shows "ok (SyncSysTimeToSecure os s) (\<lambda>(r, s'). dext time_ev s s')"
proof -
  obtain g w where c: "dcall (dm_gettimeofday os) s = (g, s\<lparr>dworld := w\<rparr>)" by (rule dcallE)
  obtain q tv_sec tv_usec where g: "g = (q, tv_sec, tv_usec)" by (metis surj_pair)
  let ?s = "s\<lparr>dworld := w\<rparr>"
  show ?thesis
  proof (cases rule: dtee_open_cases [OF assms, of TC_PRIVATE_DEV_NAME ?s])
    case (1 w')
    then show ?thesis using c g by (simp add: SyncSysTimeToSecure_def)
  next
    case (2 fd w')
    let ?s2 = "?s\<lparr>dfds := insert fd (dfds s), dtrace := Opened TC_PRIVATE_DEV_NAME fd # dtrace s, dworld := w'\<rparr>"
    have "fd \<in> dfds ?s2" by simp
    then obtain r w2 where io: "dioctl os fd (SYC_SYS_TIME (uint32_of tv_sec) (uint32_of tv_usec div 1000)) ?s2 = Some (r, ?s2\<lparr>dtrace :=
        Ioctl fd (SYC_SYS_TIME (uint32_of tv_sec) (uint32_of tv_usec div 1000)) r # dtrace ?s2, dworld := w2\<rparr>)"
      by (rule dioctlE)
    have "fd \<notin> dfds s" using 2 by (simp add: dused_fd_def)
    then show ?thesis using c g 2 io by (simp add: SyncSysTimeToSecure_def dtee_close_open dext_three)
  qed
qed

lemma TrySync_ok:
  assumes "daemon_os_ok os"
  shows "ok (TrySyncSysTimeToSecure os s) (\<lambda>s'. \<exists>b. dext time_ev (s\<lparr>syncSysTimed := b\<rparr>) s')"
proof (cases "syncSysTimed s = 0")
  case False
  then show ?thesis
    using dext_refl [of time_ev s] by (simp add: TrySyncSysTimeToSecure_def) (rule exI [of _ "syncSysTimed s"], simp)
next
  case True
  obtain r tr w where y: "SyncSysTimeToSecure os s = Some (r, s\<lparr>dtrace := tr @ dtrace s, dworld := w\<rparr>)" and t: "list_all time_ev tr"
    using SyncSysTimeToSecure_ok [OF assms, of s] by (auto simp: ok_iff dext_def)
  have *: "dext time_ev (s\<lparr>syncSysTimed := b\<rparr>) (s\<lparr>syncSysTimed := b, dtrace := tr @ dtrace s, dworld := w\<rparr>)" for b
    using dextI [OF t, of "s\<lparr>syncSysTimed := b\<rparr>" w] by simp
  show ?thesis
  proof (cases "r = 0")
    case r0: True
    then show ?thesis using True y * by (simp add: TrySyncSysTimeToSecure_def) blast
  next
    case False
    have "dext time_ev (s\<lparr>syncSysTimed := syncSysTimed s\<rparr>) (s\<lparr>dtrace := tr @ dtrace s, dworld := w\<rparr>)"
      using dextI [OF t, of s w] by simp
    with False show ?thesis using True y by (simp add: TrySyncSysTimeToSecure_def) (rule exI [of _ "syncSysTimed s"], simp)
  qed
qed

definition late_ev :: "devent \<Rightarrow> bool" where
  "late_ev e \<longleftrightarrow> (\<exists>fd r. e = Opened TC_PRIVATE_DEV_NAME fd \<or> e = Ioctl fd (LATEINIT FS_LATE_INIT) r \<or> e = Closed fd)"

lemma InitLateWorkThread_ok:
  assumes "daemon_os_ok os"
  shows "ok (InitLateWorkThread os s) (dext late_ev s)"
proof (cases rule: dtee_open_cases [OF assms, of TC_PRIVATE_DEV_NAME s])
  case (1 w')
  then show ?thesis by (simp add: InitLateWorkThread_def)
next
  case (2 fd w')
  let ?s2 = "s\<lparr>dfds := insert fd (dfds s), dtrace := Opened TC_PRIVATE_DEV_NAME fd # dtrace s, dworld := w'\<rparr>"
  have "fd \<in> dfds ?s2" by simp
  then obtain r w2 where io: "dioctl os fd (LATEINIT FS_LATE_INIT) ?s2 = Some (r, ?s2\<lparr>dtrace :=
      Ioctl fd (LATEINIT FS_LATE_INIT) r # dtrace ?s2, dworld := w2\<rparr>)" by (rule dioctlE)
  have "fd \<notin> dfds s" using 2 by (simp add: dused_fd_def)
  then show ?thesis using 2 io by (simp add: InitLateWorkThread_def dtee_close_open dext_three late_ev_def)
qed

lemma GetTimeWork_frame: "\<exists>c w. GetTimeWork sc os s = s\<lparr>misc_buf := c, dworld := w\<rparr>"
proof -
  obtain g w where c: "dcall (dm_gettimeofday os) s = (g, s\<lparr>dworld := w\<rparr>)" by (rule dcallE)
  obtain q tv_sec tv_usec where g: "g = (q, tv_sec, tv_usec)" by (metis surj_pair)
  obtain t w' where l: "dcall (dm_localtime os tv_sec) (s\<lparr>dworld := w\<rparr>) = (t, s\<lparr>dworld := w'\<rparr>)"
    by (rule dcallE [of "dm_localtime os tv_sec" "s\<lparr>dworld := w\<rparr>"]) simp
  show ?thesis using c g l by (cases t) (auto simp: GetTimeWork_def Let_def case_prod_beta)
qed

lemma misc_event_ok:
  assumes "fd \<in> dfds s"
  obtains r c w where "misc_event os fd req s = Some (r, s\<lparr>misc_buf := c, dworld := w\<rparr>)"
proof -
  obtain g w where c: "dcall (dm_misc_event os fd req (misc_buf s)) s = (g, s\<lparr>dworld := w\<rparr>)" by (rule dcallE)
  with assms show thesis by (cases g) (auto simp: misc_event_def intro: that)
qed

lemma misc_round_ok:
  assumes "fd \<in> dfds s"
  shows "ok (misc_round sc os fd s) (\<lambda>(b, s'). \<exists>c w. s' = s\<lparr>misc_buf := c, dworld := w\<rparr>)"
proof -
  obtain r c w where e: "misc_event os fd FS_WAIT_EVENT s = Some (r, s\<lparr>misc_buf := c, dworld := w\<rparr>)"
    using assms by (rule misc_event_ok)
  let ?s = "s\<lparr>misc_buf := c, dworld := w\<rparr>"
  obtain c2 w2 where g: "GetTimeWork sc os ?s = s\<lparr>misc_buf := c2, dworld := w2\<rparr>" using GetTimeWork_frame [of sc os ?s] by auto
  define s1 where "s1 = (case misc_cmd_of (mc_cmd c) of Some SEC_GET_TIME \<Rightarrow> GetTimeWork sc os ?s | _ \<Rightarrow> ?s)"
  then obtain c3 w3 where s1: "s1\<lparr>misc_buf := (misc_buf s1)\<lparr>mc_magic := AGENT_MISC_ID\<rparr>\<rparr> = s\<lparr>misc_buf := c3, dworld := w3\<rparr>"
    using g by (auto split: option.splits MiscCmdType.splits)
  have "fd \<in> dfds (s\<lparr>misc_buf := c3, dworld := w3\<rparr>)" using assms by simp
  then obtain r' c4 w4 where e2: "misc_event os fd FS_SEND_EVENT_RESPONSE (s\<lparr>misc_buf := c3, dworld := w3\<rparr>) =
      Some (r', (s\<lparr>misc_buf := c3, dworld := w3\<rparr>)\<lparr>misc_buf := c4, dworld := w4\<rparr>)" by (rule misc_event_ok)
  show ?thesis
    using e e2 s1 by (cases "r = 0") (auto simp: misc_round_def s1_def [symmetric])
qed

end
