(* ===== verification/Teecd_Load.thy ===== *)
theory Teecd_Load
  imports Teecd_Agent
begin

unbundle bit_operations_syntax

text \<open>
  Loading of secure files (\<open>src/services/teecd/src/secfile_load_agent.c\<close>) on request of the secure
  world, and of the drivers and services in fixed directories when the daemon starts
  (\<open>tee_load_dynamic.c\<close>).  The functions \<open>GetImgLen\<close> and \<open>LoadSecFile\<close> are copies of those in the client
  library and carry the suffix \<open>_agent\<close>.
\<close>

section \<open>Sending a file to the driver\<close>

definition GetImgLen_agent :: "'w dmos \<Rightarrow> addr \<Rightarrow> 'w teecd \<Rightarrow> ((int \<times> int) \<times> 'w teecd) option" where
  "GetImgLen_agent os fp s = do {
     (ret, s) \<leftarrow> on_dstream fp (px_fseek os fp 0 whence_LAST) s;
     if ret \<noteq> 0 then Some ((- 1, 0), s)
     else do {
       (totalLen, s) \<leftarrow> on_dstream fp (px_ftell os fp) s;
       if totalLen \<le> 0 \<or> totalLen > MAX_BUFFER_LEN then Some ((- 1, totalLen), s)
       else do {
         (ret, s) \<leftarrow> on_dstream fp (px_fseek os fp 0 whence_SET) s;
         Some ((if ret \<noteq> 0 then - 1 else ret, totalLen), s)
       }
     }
   }"

text \<open>
  The driver finds the file at the address it puts together from the two halves, and reads
  \<open>fileSize\<close> bytes there.
\<close>

definition load_addr :: "SecLoadIoctlStruct \<Rightarrow> addr" where
  "load_addr arg = push_bit 32 (ucast (sl_file_h_addr arg)) OR ucast (sl_file_addr arg)"

definition ioctl_load :: "'w dmos \<Rightarrow> int \<Rightarrow> SecLoadIoctlStruct \<Rightarrow> 'w teecd \<Rightarrow> (int \<times> 'w teecd) option" where
  "ioctl_load os tzFd arg s = do {
     bs \<leftarrow> dmem s (load_addr arg);
     content \<leftarrow> get_bytes bs 0 (unat (sl_fileSize arg));
     dioctl os tzFd (LOAD_APP_REQ arg content) s
   }"

text \<open>The copy of the UUID into the request, which is left out without a UUID.\<close>

definition copy_uuid :: "'w dmos \<Rightarrow> u8 list option \<Rightarrow> 'w teecd \<Rightarrow> int \<times> 'w teecd" where
  "copy_uuid os uuid s = (case uuid of None \<Rightarrow> (EOK, s) | Some _ \<Rightarrow> dcall (dm_memcpy_s os 16 16) s)"

text \<open>The body of the loop in \<open>LoadSecFile\<close> after the length is known; the result is freed after it.\<close>

definition load_file :: "'w dmos \<Rightarrow> int \<Rightarrow> addr \<Rightarrow> SecFileType \<Rightarrow> u8 list option \<Rightarrow> int \<Rightarrow> 'w teecd \<Rightarrow> ((int \<times> addr) \<times> 'w teecd) option" where
  "load_file os tzFd fp fileType uuid totalLen s =
     (let (fileBuffer, s) = dmalloc os (nat totalLen) s
      in if fileBuffer = NULL then Some ((- 1, NULL), s)
         else do {
           (bs, s) \<leftarrow> on_dstream fp (px_fread os fp (nat totalLen)) s;
           s \<leftarrow> dwrite fileBuffer bs s;
           if int (length bs) \<noteq> totalLen then Some ((- 1, fileBuffer), s)
           else do {
             let arg = \<lparr>sl_fileType = fileType, sl_fileSize = uint32_of totalLen,
                        sl_uuid = case_option (replicate 16 0) id uuid, sl_file_addr = ucast fileBuffer,
                        sl_file_h_addr = ucast (drop_bit 32 fileBuffer)\<rparr>;
             let (rc, s) = copy_uuid os uuid s;
             if rc \<noteq> EOK then Some ((- 1, fileBuffer), s)
             else do {
               (ret, s) \<leftarrow> ioctl_load os tzFd arg s;
               Some ((ret, fileBuffer), s)
             }
           }
         })"

definition LoadSecFile_agent :: "'w dmos \<Rightarrow> int \<Rightarrow> addr \<Rightarrow> SecFileType \<Rightarrow> u8 list option \<Rightarrow> 'w teecd \<Rightarrow> (int \<times> 'w teecd) option" where
  "LoadSecFile_agent os tzFd fp fileType uuid s =
     (if tzFd < 0 \<or> fp = NULL then Some (- 1, s)
      else do {
        ((ret, totalLen), s) \<leftarrow> GetImgLen_agent os fp s;
        if ret \<noteq> 0 then Some (ret, s)
        else if totalLen \<le> 0 \<or> totalLen > MAX_BUFFER_LEN then Some (- 1, s)
        else do {
          ((ret, fileBuffer), s) \<leftarrow> load_file os tzFd fp fileType uuid totalLen s;
          s \<leftarrow> (if fileBuffer \<noteq> NULL then dfree fileBuffer s else Some s);
          Some (ret, s)
        }
      })"

definition allowed_path :: "string \<Rightarrow> bool" where
  "allowed_path realPath \<longleftrightarrow>
     strncmp0 realPath TEE_DEFAULT_PATH (length TEE_DEFAULT_PATH) \<or>
     strncmp0 realPath TEE_FEIMA_DEFAULT_PATH (length TEE_FEIMA_DEFAULT_PATH)"

definition SecFileLoadWork :: "'w dmos \<Rightarrow> int \<Rightarrow> string \<Rightarrow> SecFileType \<Rightarrow> u8 list option \<Rightarrow> 'w teecd \<Rightarrow> (int \<times> 'w teecd) option" where
  "SecFileLoadWork os tzFd filePath fileType uuid s =
     (if tzFd < 0 then Some (- 1, s)
      else let (real, s) = dcall (px_realpath os filePath) s
      in case real of
           None \<Rightarrow> Some (- 1, s)
         | Some realPath \<Rightarrow>
             if \<not> allowed_path realPath then Some (- 1, s)
             else let (fp, s) = dfopen os realPath ''r'' s
             in if fp = NULL then Some (- 1, s)
                else do {
                  (ret, s) \<leftarrow> LoadSecFile_agent os tzFd fp fileType uuid s;
                  s \<leftarrow> dfclose os fp s;
                  Some (ret, s)
                })"

section \<open>Requests of the secure world\<close>

definition IsTaLib :: "u8 list \<Rightarrow> bool" where
  "IsTaLib uuid \<longleftrightarrow> (\<exists>b \<in> set uuid. b \<noteq> 0)"

text \<open>\<open>TEEC_UUID\<close> out of its 16 bytes.\<close>

definition uuid_of :: "u8 list \<Rightarrow> TEEC_UUID" where
  "uuid_of u = \<lparr>timeLow = le_field u 0 4, timeMid = ucast (le_field u 4 2), timeHiAndVersion = ucast (le_field u 6 2),
     clockSeqAndNode = take 8 (drop 8 u)\<rparr>"

text \<open>The name of a library: what is before the first zero byte of the array of 32 bytes.\<close>

definition name_of :: "u8 list \<Rightarrow> string" where
  "name_of bs = map chr_of (takeWhile (\<lambda>b. b \<noteq> 0) bs)"

definition lib_path :: "string \<Rightarrow> SecAgentControlType \<Rightarrow> string" where
  "lib_path dir c =
     dir @ ''/'' @ (if IsTaLib (sa_uuid c) then uuid_name (uuid_of (sa_uuid c)) else []) @ name_of (sa_libName c) @ ''.sec''"

text \<open>A failure is \<open>None\<close>: the caller does not use the buffer then.\<close>

definition GetFeimaSecFileName :: "securec \<Rightarrow> 'w dmos \<Rightarrow> 'w teecd \<Rightarrow> string option \<times> 'w teecd" where
  "GetFeimaSecFileName sc os s =
     (let (ret, fname) = snprintf_s sc MAX_PATH_LEN (MAX_PATH_LEN - 1) (lib_path TEE_FEIMA_DEFAULT_PATH (sec_buf s))
      in if ret < 0 then (None, snd (dcall (dm_memset_s os) s))
         else let (real, s) = dcall (px_realpath os fname) s
         in if real = None then (None, snd (dcall (dm_memset_s os) s)) else (Some fname, s))"

definition set_sec_ret :: "int \<Rightarrow> 'w teecd \<Rightarrow> 'w teecd" where
  "set_sec_ret r s = s\<lparr>sec_buf := (sec_buf s)\<lparr>sa_ret := r\<rparr>\<rparr>"

definition set_sec_failed :: "'w dmos \<Rightarrow> int \<Rightarrow> 'w teecd \<Rightarrow> 'w teecd" where
  "set_sec_failed os r s = s\<lparr>sec_buf := (sec_buf s)\<lparr>sa_ret := r, sa_error := uint32_of (derrno os s)\<rparr>\<rparr>"

definition LoadLib :: "securec \<Rightarrow> 'w dmos \<Rightarrow> addr \<Rightarrow> 'w teecd \<Rightarrow> 'w teecd option" where
  "LoadLib sc os secAgentControl s =
     (if secAgentControl = NULL then Some s
      else if length (takeWhile (\<lambda>b. b \<noteq> 0) (take MAX_SEC_FILE_NAME_LEN (sa_libName (sec_buf s)))) \<ge> MAX_SEC_FILE_NAME_LEN
      then Some (set_sec_ret (- 1) s)
      else let (feima, s) = GetFeimaSecFileName sc os s;
               (ret, fname) = (case feima of
                   Some fname \<Rightarrow> (0, fname)
                 | None \<Rightarrow> snprintf_s sc MAX_PATH_LEN (MAX_PATH_LEN - 1) (lib_path TEE_DEFAULT_PATH (sec_buf s)))
      in if ret < 0 then Some (set_sec_ret (- 1) s)
         else do {
           (ret, s) \<leftarrow> SecFileLoadWork os (g_secLoadAgentFd s) fname LOAD_LIB None s;
           Some (if ret \<noteq> 0 then set_sec_failed os (- 1) s else set_sec_ret 0 s)
         })"

definition ta_path :: "string \<Rightarrow> u8 list \<Rightarrow> string" where
  "ta_path dir uuid = dir @ ''/'' @ uuid_name (uuid_of uuid) @ ''.sec''"

definition GetTaPath :: "securec \<Rightarrow> 'w dmos \<Rightarrow> u8 list \<Rightarrow> 'w teecd \<Rightarrow> (int \<times> string) \<times> 'w teecd" where
  "GetTaPath sc os uuid s =
     (let (ret, fname) = snprintf_s sc MAX_PATH_LEN (MAX_PATH_LEN - 1) (ta_path TEE_FEIMA_DEFAULT_PATH uuid)
      in if ret < 0 then ((- 1, fname), s)
         else let (real, s) = dcall (px_realpath os fname) s
         in if real = None
            then let (ret, fname) = snprintf_s sc MAX_PATH_LEN (MAX_PATH_LEN - 1) (ta_path TEE_DEFAULT_PATH uuid)
                 in if ret < 0 then ((- 1, fname), s) else ((0, fname), s)
            else ((0, fname), s))"

definition LoadTa :: "securec \<Rightarrow> 'w dmos \<Rightarrow> addr \<Rightarrow> 'w teecd \<Rightarrow> 'w teecd option" where
  "LoadTa sc os secAgentControl s =
     (if secAgentControl = NULL then Some s
      else let ((ret, fname), s) = GetTaPath sc os (sa_uuid (sec_buf s)) s
      in if ret < 0 then Some (set_sec_ret (- 1) s)
         else do {
           let s = set_sec_ret 0 s;
           (ret, s) \<leftarrow> SecFileLoadWork os (g_secLoadAgentFd s) fname LOAD_TA (Some (sa_uuid (sec_buf s))) s;
           Some (if ret \<noteq> 0 then set_sec_failed os ret s else s)
         })"

definition SecLoadAgentWork :: "securec \<Rightarrow> 'w dmos \<Rightarrow> addr \<Rightarrow> 'w teecd \<Rightarrow> 'w teecd option" where
  "SecLoadAgentWork sc os secAgentControl s =
     (if secAgentControl = NULL then Some s
      else case sec_cmd_of (sa_cmd (sec_buf s)) of
             Some LOAD_LIB_SEC \<Rightarrow> LoadLib sc os secAgentControl s
           | Some LOAD_TA_SEC \<Rightarrow> LoadTa sc os secAgentControl s
           | _ \<Rightarrow> Some (set_sec_ret (- 1) s))"

definition sec_event :: "'w dmos \<Rightarrow> int \<Rightarrow> fs_req \<Rightarrow> 'w teecd \<Rightarrow> (int \<times> 'w teecd) option" where
  "sec_event os fd req s =
     (if fd \<in> dfds s
      then let ((r, c), s) = dcall (dm_sec_event os fd req (sec_buf s)) s in Some (r, s\<lparr>sec_buf := c\<rparr>)
      else None)"

definition sec_round :: "securec \<Rightarrow> 'w dmos \<Rightarrow> addr \<Rightarrow> 'w teecd \<Rightarrow> (bool \<times> 'w teecd) option" where
  "sec_round sc os secAgentControl s = do {
     (ret, s) \<leftarrow> sec_event os (g_secLoadAgentFd s) FS_WAIT_EVENT s;
     if ret \<noteq> 0 then Some (False, s)
     else do {
       s \<leftarrow> SecLoadAgentWork sc os secAgentControl s;
       let s = s\<lparr>sec_buf := (sec_buf s)\<lparr>sa_magic := SECFILE_LOAD_AGENT_ID\<rparr>\<rparr>;
       (ret, s) \<leftarrow> sec_event os (g_secLoadAgentFd s) FS_SEND_EVENT_RESPONSE s;
       Some (ret = 0, s)
     }
   }"

partial_function (option) sec_loop :: "securec \<Rightarrow> 'w dmos \<Rightarrow> addr \<Rightarrow> 'w teecd \<Rightarrow> 'w teecd option" where
  "sec_loop sc os secAgentControl s =
     sec_round sc os secAgentControl s \<bind> (\<lambda>(b, s). if b then sec_loop sc os secAgentControl s else Some s)"

definition SecfileLoadAgentThread :: "securec \<Rightarrow> 'w dmos \<Rightarrow> addr \<Rightarrow> 'w teecd \<Rightarrow> 'w teecd option" where
  "SecfileLoadAgentThread sc os control s =
     (if control = NULL then Some s
      else if g_secLoadAgentFd s < 0 then Some s
      else sec_loop sc os control (s\<lparr>sec_buf := (sec_buf s)\<lparr>sa_magic := SECFILE_LOAD_AGENT_ID\<rparr>\<rparr>))"

section \<open>Dynamic drivers and services\<close>

abbreviation (input) "MAX_DYN_NAME_LEN \<equiv> (128 :: nat)"

definition endsWith :: "string \<Rightarrow> string \<Rightarrow> int" where
  "endsWith str sfx =
     (let strLen = strnlen str MAX_DYN_NAME_LEN; suffixLen = strnlen sfx MAX_DYN_NAME_LEN
      in if suffixLen > strLen \<or> strLen = 0 \<or> strLen \<ge> MAX_DYN_NAME_LEN \<or> suffixLen = 0 then - 1
         else if drop (strLen - suffixLen) str = sfx then 0 else - 1)"

text \<open>\<open>strcat_s\<close> appends the whole of its source.\<close>

definition strcat_s :: "securec \<Rightarrow> nat \<Rightarrow> string \<Rightarrow> string \<Rightarrow> int \<times> string" where
  "strcat_s sc n dst src = strncat_s sc n dst src (length src)"

definition LoadOneFile :: "securec \<Rightarrow> 'w dmos \<Rightarrow> string \<Rightarrow> string \<Rightarrow> int \<Rightarrow> SecFileType \<Rightarrow> 'w teecd \<Rightarrow> (int \<times> 'w teecd) option" where
  "LoadOneFile sc os dynDir d_name fd loadType s =
     (if endsWith d_name ''.sec'' \<noteq> 0 then Some (- 1, s)
      else let (rc, s) = dcall (dm_memset_s os) s
      in if rc \<noteq> 0 then Some (- 1, s)
         else let (rc, name) = strcat_s sc MAX_DYN_NAME_LEN [] dynDir
         in if rc \<noteq> 0 then Some (- 1, s)
            else let (rc, name) = strcat_s sc MAX_DYN_NAME_LEN name d_name
            in if rc \<noteq> 0 then Some (- 1, s)
               else let (fp, s) = dfopen os name ''r'' s
               in if fp = NULL then Some (- 1, s)
                  else do {
                    (ret, s) \<leftarrow> LoadSecFile_agent os fd fp loadType None s;
                    s \<leftarrow> dfclose os fp s;
                    Some (ret, s)
                  })"

text \<open>The loop over the entries of a directory; \<open>ret\<close> is the result of the last regular file.\<close>

fun load_entries :: "securec \<Rightarrow> 'w dmos \<Rightarrow> int \<Rightarrow> string \<Rightarrow> SecFileType \<Rightarrow> (string \<times> bool) list \<Rightarrow> int \<Rightarrow> 'w teecd \<Rightarrow> (int \<times> 'w teecd) option" where
  "load_entries sc os fd dynDir loadType [] rt s = Some (rt, s\<lparr>dworld := px_readdir os (dworld s)\<rparr>)"
| "load_entries sc os fd dynDir loadType ((d_name, isReg) # es) rt s =
     (let s = s\<lparr>dworld := px_readdir os (dworld s)\<rparr>
      in if \<not> isReg then load_entries sc os fd dynDir loadType es rt s
         else do {
           (rt, s) \<leftarrow> LoadOneFile sc os dynDir d_name fd loadType s;
           load_entries sc os fd dynDir loadType es rt s
         })"

definition LoadOneDynamicDir :: "securec \<Rightarrow> 'w dmos \<Rightarrow> int \<Rightarrow> string \<Rightarrow> SecFileType \<Rightarrow> 'w teecd \<Rightarrow> (int \<times> 'w teecd) option" where
  "LoadOneDynamicDir sc os fd dynDir loadType s =
     (let (dir, s) = dcall (dm_opendir os dynDir) s
      in case dir of
           None \<Rightarrow> Some (- 1, s)
         | Some es \<Rightarrow> do {
             (ret, s) \<leftarrow> load_entries sc os fd dynDir loadType es (- 1) s;
             Some (ret, snd (dcall (px_closedir os) s))
           })"

text \<open>The return code and the content of \<open>trustDrvPath\<close>.\<close>

definition CheckPath :: "'w dmos \<Rightarrow> string \<Rightarrow> u32 \<Rightarrow> 'w teecd \<Rightarrow> (int \<times> string) \<times> 'w teecd" where
  "CheckPath os drvPath drvPathLen s =
     (let optLen = strnlen drvPath MAX_DYN_NAME_LEN
      in if optLen = 0 \<or> optLen \<ge> MAX_DYN_NAME_LEN \<or> unat drvPathLen \<noteq> optLen then ((- 1, []), s)
         else let rootLen = strnlen DYNAMIC_DRV_DIR MAX_DYN_NAME_LEN
         in if rootLen = 0 \<or> rootLen \<ge> MAX_DYN_NAME_LEN then ((- 1, []), s)
            else let (r1, s) = dcall (px_realpath os drvPath) s
            in case r1 of
                 None \<Rightarrow> ((- 1, []), s)
               | Some trustDrvPath \<Rightarrow>
                   let (r2, s) = dcall (px_realpath os DYNAMIC_DRV_DIR) s
                   in case r2 of
                        None \<Rightarrow> ((- 1, trustDrvPath), s)
                      | Some trustDrvRootPath \<Rightarrow>
                          let rootLen = strnlen trustDrvRootPath MAX_DYN_NAME_LEN;
                              optLen = strnlen trustDrvPath MAX_DYN_NAME_LEN
                          in if rootLen = 0 \<or> rootLen \<ge> MAX_DYN_NAME_LEN then ((- 1, trustDrvPath), s)
                             else if optLen \<le> rootLen \<or> optLen \<ge> MAX_DYN_NAME_LEN then ((- 1, trustDrvPath), s)
                             else if \<not> strncmp0 trustDrvPath trustDrvRootPath rootLen then ((- 1, trustDrvPath), s)
                             else ((0, trustDrvPath), s))"

text \<open>The branch of \<open>LoadDynamicDrvDir\<close> for a caller that names no directory.\<close>

definition load_default_drv :: "securec \<Rightarrow> 'w dmos \<Rightarrow> 'w teecd \<Rightarrow> 'w teecd option" where
  "load_default_drv sc os s = do {
     (r, s) \<leftarrow> LoadOneDynamicDir sc os (g_secLoadAgentFd s) DYNAMIC_DRV_FEIMA_DIR LOAD_DYNAMIC_DRV s;
     if r \<noteq> 0
     then do { (_, s) \<leftarrow> LoadOneDynamicDir sc os (g_secLoadAgentFd s) DYNAMIC_DRV_DIR LOAD_DYNAMIC_DRV s; Some s }
     else Some s
   }"

definition LoadDynamicDrvDir :: "securec \<Rightarrow> 'w dmos \<Rightarrow> string option \<Rightarrow> u32 \<Rightarrow> 'w teecd \<Rightarrow> 'w teecd option" where
  "LoadDynamicDrvDir sc os drvPath drvPathLen s =
     (case drvPath of
        None \<Rightarrow> load_default_drv sc os s
      | Some path \<Rightarrow>
          if drvPathLen = 0 then load_default_drv sc os s
          else let ((rc, trustDrvPath), s) = CheckPath os path drvPathLen s
          in if rc \<noteq> 0 then Some s
             else if fst (strcat_s sc PATH_MAX trustDrvPath ''/'') \<noteq> 0 then Some s
             else do { (_, s) \<leftarrow> LoadOneDynamicDir sc os (g_secLoadAgentFd s) path LOAD_DYNAMIC_DRV s; Some s })"

definition LoadDynamicSrvDir :: "securec \<Rightarrow> 'w dmos \<Rightarrow> 'w teecd \<Rightarrow> 'w teecd option" where
  "LoadDynamicSrvDir sc os s = do {
     (r, s) \<leftarrow> LoadOneDynamicDir sc os (g_secLoadAgentFd s) DYNAMIC_SRV_FEIMA_DIR LOAD_SERVICE s;
     if r \<noteq> 0
     then do { (_, s) \<leftarrow> LoadOneDynamicDir sc os (g_secLoadAgentFd s) DYNAMIC_SRV_DIR LOAD_SERVICE s; Some s }
     else Some s
   }"

section \<open>What the driver gets\<close>

lemma load_addr_split [simp]:
  "load_addr \<lparr>sl_fileType = t, sl_fileSize = n, sl_uuid = u, sl_file_addr = ucast a, sl_file_h_addr = ucast (drop_bit 32 a)\<rparr> = a"
  unfolding load_addr_def by (rule bit_word_eqI) (auto simp: bit_simps)

text \<open>
  A load request with bytes that satisfy \<open>P\<close>: the size is theirs, at most 8 MiB, and the UUID and the type
  are those asked for.
\<close>

definition load_event :: "(u8 list \<Rightarrow> bool) \<Rightarrow> int \<Rightarrow> SecFileType \<Rightarrow> u8 list option \<Rightarrow> int \<Rightarrow> devent \<Rightarrow> bool" where
  "load_event P tzFd ty uuid r e \<longleftrightarrow> (\<exists>arg bs. e = Ioctl tzFd (LOAD_APP_REQ arg bs) r \<and>
     sl_fileType arg = ty \<and> sl_uuid arg = case_option (replicate 16 0) id uuid \<and>
     unat (sl_fileSize arg) = length bs \<and> 0 < length bs \<and> int (length bs) \<le> MAX_BUFFER_LEN \<and> P bs)"

definition load_result ::
  "(u8 list \<Rightarrow> bool) \<Rightarrow> int \<Rightarrow> SecFileType \<Rightarrow> u8 list option \<Rightarrow> 'w teecd \<Rightarrow> int \<times> 'w teecd \<Rightarrow> bool" where
  "load_result P tzFd ty uuid s = (\<lambda>(r, s'). \<exists>w. (r \<noteq> 0 \<and> s' = s\<lparr>dworld := w\<rparr>) \<or>
     (\<exists>e. load_event P tzFd ty uuid r e \<and> s' = s\<lparr>dtrace := e # dtrace s, dworld := w\<rparr>))"

lemma load_resultI [simp]:
  "r \<noteq> 0 \<Longrightarrow> load_result P tzFd ty uuid s (r, s\<lparr>dworld := w\<rparr>)"
  "load_event P tzFd ty uuid r e \<Longrightarrow> load_result P tzFd ty uuid s (r, s\<lparr>dtrace := e # dtrace s, dworld := w\<rparr>)"
  unfolding load_result_def prod.case by blast+

lemma load_resultE:
  assumes "load_result P tzFd ty uuid s (r, s')"
  obtains w where "r \<noteq> 0" "s' = s\<lparr>dworld := w\<rparr>"
  | w e where "load_event P tzFd ty uuid r e" "s' = s\<lparr>dtrace := e # dtrace s, dworld := w\<rparr>"
  using assms unfolding load_result_def by blast

lemma load_event_mono: "load_event P tzFd ty uuid r e \<Longrightarrow> (\<And>bs. P bs \<Longrightarrow> Q bs) \<Longrightarrow> load_event Q tzFd ty uuid r e"
  unfolding load_event_def by blast

text \<open>The same with the buffer that is still allocated.\<close>

definition buf_result ::
  "(u8 list \<Rightarrow> bool) \<Rightarrow> int \<Rightarrow> SecFileType \<Rightarrow> u8 list option \<Rightarrow> 'w teecd \<Rightarrow> (int \<times> addr) \<times> 'w teecd \<Rightarrow> bool" where
  "buf_result P tzFd ty uuid s = (\<lambda>((r, a), s').
     if a = NULL then load_result P tzFd ty uuid s (r, s')
     else dmem s a = None \<and> (\<exists>xs. dmem s' = (dmem s)(a \<mapsto> xs)) \<and> load_result P tzFd ty uuid s (r, s'\<lparr>dmem := dmem s\<rparr>))"

lemma buf_resultI:
  "r \<noteq> 0 \<Longrightarrow> buf_result P tzFd ty uuid s ((r, NULL), s\<lparr>dworld := w\<rparr>)"
  "dmem s a = None \<Longrightarrow> a \<noteq> NULL \<Longrightarrow> r \<noteq> 0 \<Longrightarrow>
     buf_result P tzFd ty uuid s ((r, a), s\<lparr>dmem := (dmem s)(a \<mapsto> xs), dworld := w\<rparr>)"
  "dmem s a = None \<Longrightarrow> a \<noteq> NULL \<Longrightarrow> load_event P tzFd ty uuid r e \<Longrightarrow>
     buf_result P tzFd ty uuid s ((r, a), s\<lparr>dmem := (dmem s)(a \<mapsto> xs), dtrace := e # dtrace s, dworld := w\<rparr>)"
  by (auto simp: buf_result_def)

text \<open>
  Where the bytes come from: \<open>read_bytes\<close> are all of the \<open>n\<close> bytes that were asked for, read just after the allocation of
  the buffer; \<open>file_bytes\<close> are those of a stream in the length that its end has, read after the stream
  was set back to its start; \<open>opened_bytes\<close> those of a file that is opened first.  The worlds are those in which the calls begin.
\<close>

definition read_bytes :: "'w dmos \<Rightarrow> addr \<Rightarrow> int \<Rightarrow> 'w \<Rightarrow> u8 list \<Rightarrow> bool" where
  "read_bytes os fp n w bs \<longleftrightarrow> int (length bs) = n \<and>
     (\<exists>used. bs = fst (px_fread os fp (nat n) (snd (px_malloc os used (nat n) w))))"

definition file_bytes :: "'w dmos \<Rightarrow> addr \<Rightarrow> 'w \<Rightarrow> u8 list \<Rightarrow> bool" where
  "file_bytes os fp w bs \<longleftrightarrow> (\<exists>n w1 w2 w3. px_fseek os fp 0 whence_LAST w = (0, w1) \<and> px_ftell os fp w1 = (n, w2) \<and>
     px_fseek os fp 0 whence_SET w2 = (0, w3) \<and> read_bytes os fp n w3 bs)"

definition opened_bytes :: "'w dmos \<Rightarrow> string \<Rightarrow> 'w \<Rightarrow> u8 list \<Rightarrow> bool" where
  "opened_bytes os p w bs \<longleftrightarrow> (\<exists>used usedfd fp d w1. px_fopen os used usedfd p ''r'' w = ((fp, d), w1) \<and> fp \<noteq> NULL \<and>
     file_bytes os fp w1 bs)"

lemma copy_uuidE:
  obtains rc w where "copy_uuid os uuid s = (rc, s\<lparr>dworld := w\<rparr>)"
proof (cases uuid)
  case None
  then have "copy_uuid os uuid s = (EOK, s\<lparr>dworld := dworld s\<rparr>)" by (simp add: copy_uuid_def)
  then show thesis by (rule that)
next
  case (Some u)
  obtain rc w where "dcall (dm_memcpy_s os 16 16) s = (rc, s\<lparr>dworld := w\<rparr>)" by (rule dcallE)
  with Some show thesis by (intro that) (simp add: copy_uuid_def)
qed

lemma on_dstream_worldE:
  assumes "dstreams s f = Some d"
  obtains r w' where "on_dstream f c (s\<lparr>dworld := w\<rparr>) = Some (r, s\<lparr>dworld := w'\<rparr>)" and "c w = (r, w')"
proof -
  have "dstreams (s\<lparr>dworld := w\<rparr>) f = Some d" using assms by simp
  then obtain r w' where "on_dstream f c (s\<lparr>dworld := w\<rparr>) = Some (r, s\<lparr>dworld := w, dworld := w'\<rparr>)" "c (dworld (s\<lparr>dworld := w\<rparr>)) = (r, w')"
    by (rule on_dstreamE)
  then show thesis by (intro that) simp_all
qed

lemma GetImgLen_agentE:
  assumes "dstreams s fp = Some d"
  obtains r len w where "GetImgLen_agent os fp s = Some ((r, len), s\<lparr>dworld := w\<rparr>)"
    and "\<And>bs. r = 0 \<Longrightarrow> read_bytes os fp len w bs \<Longrightarrow> file_bytes os fp (dworld s) bs"
proof -
  obtain r1 w1 where 1: "on_dstream fp (px_fseek os fp 0 whence_LAST) s = Some (r1, s\<lparr>dworld := w1\<rparr>)"
    and c1: "px_fseek os fp 0 whence_LAST (dworld s) = (r1, w1)" using assms by (rule on_dstreamE)
  obtain len w2 where 2: "on_dstream fp (px_ftell os fp) (s\<lparr>dworld := w1\<rparr>) = Some (len, s\<lparr>dworld := w2\<rparr>)"
    and c2: "px_ftell os fp w1 = (len, w2)" using assms by (rule on_dstream_worldE)
  obtain r3 w3 where 3: "on_dstream fp (px_fseek os fp 0 whence_SET) (s\<lparr>dworld := w2\<rparr>) = Some (r3, s\<lparr>dworld := w3\<rparr>)"
    and c3: "px_fseek os fp 0 whence_SET w2 = (r3, w3)" using assms by (rule on_dstream_worldE)
  show thesis
  proof (cases "r1 = 0")
    case False
    with 1 show thesis by (intro that [of "- 1" 0 w1]) (simp_all add: GetImgLen_agent_def)
  next
    case True
    show thesis
    proof (cases "len \<le> 0 \<or> len > MAX_BUFFER_LEN")
      case l: True
      with True 1 2 show thesis by (intro that [of "- 1" len w2]) (auto simp: GetImgLen_agent_def)
    next
      case False
      have "file_bytes os fp (dworld s) bs" if "r3 = 0" "read_bytes os fp len w3 bs" for bs
        using that c1 c2 c3 True unfolding file_bytes_def by blast
      with False True 1 2 3 show thesis by (intro that [of "if r3 \<noteq> 0 then - 1 else r3" len w3]) (simp_all add: GetImgLen_agent_def split: if_splits)
    qed
  qed
qed

lemma load_file_ok:
  assumes os: "daemon_os_ok os" and fd: "tzFd \<in> dfds s" and st: "dstreams s fp = Some d"
    and len: "0 < n" "n \<le> MAX_BUFFER_LEN"
  shows "ok (load_file os tzFd fp ty uuid n s) (buf_result (read_bytes os fp n (dworld s)) tzFd ty uuid s)"
proof (cases rule: dmalloc_cases [OF os, of "nat n" s])
  case (1 w)
  then show ?thesis by (simp add: load_file_def buf_resultI)
next
  case (2 a xs w)
  let ?s1 = "s\<lparr>dmem := (dmem s)(a \<mapsto> xs), dworld := w\<rparr>"
  have "dstreams ?s1 fp = Some d" using st by simp
  then obtain bs w1 where r: "on_dstream fp (px_fread os fp (nat n)) ?s1 = Some (bs, ?s1\<lparr>dworld := w1\<rparr>)"
    and rd: "px_fread os fp (nat n) (dworld ?s1) = (bs, w1)" by (rule on_dstreamE)
  have "\<forall>f n w. length (fst (px_fread os f n w)) \<le> n" using os by (simp add: daemon_os_ok_def fread_ok_def)
  then have bs: "length bs \<le> nat n" using rd by (metis fst_conv)
  let ?ys = "bs @ drop (length bs) xs"
  let ?s2 = "s\<lparr>dmem := (dmem s)(a \<mapsto> ?ys), dworld := w1\<rparr>"
  have wr: "dwrite a bs (?s1\<lparr>dworld := w1\<rparr>) = Some ?s2" using 2 bs by (subst dwrite_live) simp_all
  show ?thesis
  proof (cases "int (length bs) = n")
    case False
    with 2 r wr show ?thesis by (simp add: load_file_def buf_resultI)
  next
    case True
    then have ys: "?ys = bs" using 2 by simp
    obtain m w2 where "copy_uuid os uuid ?s2 = (m, ?s2\<lparr>dworld := w2\<rparr>)" by (rule copy_uuidE)
    then have m: "copy_uuid os uuid (s\<lparr>dmem := (dmem s)(a \<mapsto> bs), dworld := w1\<rparr>) = (m, s\<lparr>dmem := (dmem s)(a \<mapsto> bs), dworld := w2\<rparr>)"
      using ys by simp
    note wr' = wr [unfolded ys]
    show ?thesis
    proof (cases "m = EOK")
      case False
      with 2 r wr' m True show ?thesis by (simp add: load_file_def buf_resultI)
    next
      case mt: True
      let ?arg = "\<lparr>sl_fileType = ty, sl_fileSize = uint32_of n, sl_uuid = case_option (replicate 16 0) id uuid, sl_file_addr = ucast a,
        sl_file_h_addr = ucast (drop_bit 32 a)\<rparr>"
      have sz: "unat (uint32_of n) = length bs" using True len by (simp add: unat_uint32_of)
      let ?s3 = "s\<lparr>dmem := (dmem s)(a \<mapsto> bs), dworld := w2\<rparr>"
      have "tzFd \<in> dfds ?s3" using fd by simp
      then obtain q w3 where io: "dioctl os tzFd (LOAD_APP_REQ ?arg bs) ?s3 =
          Some (q, ?s3\<lparr>dtrace := Ioctl tzFd (LOAD_APP_REQ ?arg bs) q # dtrace ?s3, dworld := w3\<rparr>)" by (rule dioctlE)
      have ld: "ioctl_load os tzFd ?arg ?s3 = dioctl os tzFd (LOAD_APP_REQ ?arg bs) ?s3"
        using sz by (simp add: ioctl_load_def get_bytes_def)
      have "w = snd (px_malloc os (\<lambda>a. a \<in> dom (dmem s)) (nat n) (dworld s))"
        using 2(4) by (auto simp: dmalloc_def dcall_pair split: if_splits dest: arg_cong [of _ _ dworld])
      then have "read_bytes os fp n (dworld s) bs" unfolding read_bytes_def
        by (intro conjI exI [of _ "\<lambda>a. a \<in> dom (dmem s)"]) (use True rd in simp_all)
      then have ev: "load_event (read_bytes os fp n (dworld s)) tzFd ty uuid q (Ioctl tzFd (LOAD_APP_REQ ?arg bs) q)"
        unfolding load_event_def by (intro exI [of _ ?arg] exI [of _ bs]) (use True len sz in auto)
      from 2 r wr' m mt True ld io show ?thesis by (simp add: load_file_def buf_resultI(3) [OF 2(2,1) ev])
    qed
  qed
qed

lemma LoadSecFile_agent_ok:
  assumes os: "daemon_os_ok os" and fd: "tzFd \<in> dfds s" and st: "dstreams s fp = Some d"
  shows "ok (LoadSecFile_agent os tzFd fp ty uuid s) (load_result (file_bytes os fp (dworld s)) tzFd ty uuid s)"
proof (cases "tzFd < 0 \<or> fp = NULL")
  case True
  then show ?thesis using load_resultI(1) [of "- 1" "file_bytes os fp (dworld s)" tzFd ty uuid s "dworld s"] by (simp add: LoadSecFile_agent_def)
next
  case False
  obtain r n w where g: "GetImgLen_agent os fp s = Some ((r, n), s\<lparr>dworld := w\<rparr>)"
    and fb: "\<And>bs. r = 0 \<Longrightarrow> read_bytes os fp n w bs \<Longrightarrow> file_bytes os fp (dworld s) bs" by (rule GetImgLen_agentE [OF st, of os]) (rule that)
  show ?thesis
  proof (cases "r \<noteq> 0 \<or> n \<le> 0 \<or> n > MAX_BUFFER_LEN")
    case True
    with False g show ?thesis by (cases "r = 0") (auto simp: LoadSecFile_agent_def)
  next
    case len: False
    let ?s = "s\<lparr>dworld := w\<rparr>"
    have "ok (load_file os tzFd fp ty uuid n ?s) (buf_result (read_bytes os fp n w) tzFd ty uuid ?s)"
      using load_file_ok [OF os, of tzFd ?s fp d n ty uuid] fd st len by simp
    then obtain q a s' where l: "load_file os tzFd fp ty uuid n ?s = Some ((q, a), s')"
      and b: "buf_result (read_bytes os fp n w) tzFd ty uuid ?s ((q, a), s')" by (auto simp: ok_iff)
    have res: "load_result (file_bytes os fp (dworld s)) tzFd ty uuid s (q, t)" if "load_result (read_bytes os fp n w) tzFd ty uuid ?s (q, t)" for t
      using that len by (elim load_resultE) (auto intro!: load_resultI dest: load_event_mono [OF _ fb])
    show ?thesis
    proof (cases "a = NULL")
      case True
      with False g l len b res show ?thesis by (simp add: LoadSecFile_agent_def buf_result_def)
    next
      case a: False
      with b obtain xs where m: "dmem s a = None" "dmem s' = (dmem s)(a \<mapsto> xs)" and
        rs: "load_result (read_bytes os fp n w) tzFd ty uuid ?s (q, s'\<lparr>dmem := dmem s\<rparr>)" by (auto simp: buf_result_def)
      have "(dmem s)(a := None) = dmem s" using m(1) by auto
      then have "dfree a s' = Some (s'\<lparr>dmem := dmem s\<rparr>)" by (simp add: dfree_def m)
      with a False g l len res [OF rs] show ?thesis by (simp add: LoadSecFile_agent_def)
    qed
  qed
qed

section \<open>Requests\<close>

text \<open>The events of one request for a file, newest first, and the result it has.\<close>

definition work_trace ::
  "'w dmos \<Rightarrow> 'w \<Rightarrow> int \<Rightarrow> string \<Rightarrow> SecFileType \<Rightarrow> u8 list option \<Rightarrow> int \<Rightarrow> devent list \<Rightarrow> bool" where
  "work_trace os w fd path ty uuid r tr \<longleftrightarrow>
     r \<noteq> 0 \<and> tr = [] \<or>
     (\<exists>p w1. allowed_path p \<and> px_realpath os path w = (Some p, w1) \<and>
        (r \<noteq> 0 \<and> tr = [Fopen p] \<or> (\<exists>e. load_event (opened_bytes os p w1) fd ty uuid r e \<and> tr = [e, Fopen p])))"

definition worked ::
  "'w dmos \<Rightarrow> int \<Rightarrow> string \<Rightarrow> SecFileType \<Rightarrow> u8 list option \<Rightarrow> 'w teecd \<Rightarrow> int \<times> 'w teecd \<Rightarrow> bool" where
  "worked os fd path ty uuid s = (\<lambda>(r, s'). \<exists>tr w. s' = s\<lparr>dtrace := tr @ dtrace s, dworld := w\<rparr> \<and> work_trace os (dworld s) fd path ty uuid r tr)"

lemma workedI:
  "work_trace os (dworld s) fd path ty uuid r tr \<Longrightarrow> worked os fd path ty uuid s (r, s\<lparr>dtrace := tr @ dtrace s, dworld := w\<rparr>)"
  unfolding worked_def prod.case by blast

lemma worked_none: "worked os fd path ty uuid s (- 1, s\<lparr>dworld := w\<rparr>)" "worked os fd path ty uuid s (- 1, s)"
  using workedI [of os s fd path ty uuid "- 1" "[]"] workedI [of os s fd path ty uuid "- 1" "[]" "dworld s"]
  by (simp_all add: work_trace_def)

lemma dfopen_opened:
  assumes "dfopen os p m s = (f, s')" "f \<noteq> NULL"
  shows "\<exists>used usedfd d. px_fopen os used usedfd p m (dworld s) = ((f, d), dworld s')"
  using assms by (auto simp: dfopen_def dcall_def note_ev_def split: prod.splits if_splits) blast

lemma SecFileLoadWork_ok:
  assumes os: "daemon_os_ok os" and fd: "tzFd \<in> dfds s"
  shows "ok (SecFileLoadWork os tzFd path ty uuid s) (worked os tzFd path ty uuid s)"
proof -
  obtain real w where c: "dcall (px_realpath os path) s = (real, s\<lparr>dworld := w\<rparr>)"
    and rp: "px_realpath os path (dworld s) = (real, w)" by (rule dcallE)
  show ?thesis
  proof (cases "tzFd < 0 \<or> real = None \<or> \<not> allowed_path (the real)")
    case True
    then show ?thesis using c by (cases real; cases "tzFd < 0") (simp_all add: SecFileLoadWork_def worked_none)
  next
    case False
    then obtain p where p: "real = Some p" "allowed_path p" "\<not> tzFd < 0" by auto
    have r: "px_realpath os path (dworld s) = (Some p, w)" by (simp add: rp p)
    show ?thesis
    proof (cases rule: dfopen_cases [OF os, of p "''r''" "s\<lparr>dworld := w\<rparr>"])
      case (1 w1)
      have "work_trace os (dworld s) tzFd path ty uuid (- 1) [Fopen p]" unfolding work_trace_def using p r by auto
      from workedI [OF this, of w1] 1 c p show ?thesis by (simp add: SecFileLoadWork_def)
    next
      case (2 fp d w1)
      let ?s = "s\<lparr>dstreams := (dstreams s)(fp \<mapsto> d), dtrace := Fopen p # dtrace s, dworld := w1\<rparr>"
      have ob: "opened_bytes os p w bs" if "file_bytes os fp w1 bs" for bs
      proof -
        from dfopen_opened [OF 2(4,1)] obtain used usedfd d' where "px_fopen os used usedfd p ''r'' w = ((fp, d'), w1)" by auto
        with that 2(1) show ?thesis unfolding opened_bytes_def by blast
      qed
      have un: "(dstreams s)(fp := None) = dstreams s" using 2 by auto
      have "ok (LoadSecFile_agent os tzFd fp ty uuid ?s) (load_result (file_bytes os fp w1) tzFd ty uuid ?s)"
        using LoadSecFile_agent_ok [OF os, of tzFd ?s fp d ty uuid] fd by simp
      then obtain q s' where l: "LoadSecFile_agent os tzFd fp ty uuid ?s = Some (q, s')"
        and res: "load_result (file_bytes os fp w1) tzFd ty uuid ?s (q, s')" by (auto simp: ok_iff)
      obtain tr w2 where s': "s' = ?s\<lparr>dtrace := tr @ dtrace s, dworld := w2\<rparr>" and wt: "work_trace os (dworld s) tzFd path ty uuid q tr"
        using res
      proof (cases rule: load_resultE)
        case (1 w2)
        have "work_trace os (dworld s) tzFd path ty uuid q [Fopen p]" unfolding work_trace_def using p r 1 by blast
        with 1 show thesis by (intro that [of w2 "[Fopen p]"]) simp_all
      next
        case (2 w2 e)
        have "load_event (opened_bytes os p w) tzFd ty uuid q e" by (rule load_event_mono [OF 2(1) ob])
        then have "work_trace os (dworld s) tzFd path ty uuid q [e, Fopen p]" unfolding work_trace_def using p r by blast
        with 2 show thesis by (intro that [of w2 "[e, Fopen p]"]) simp_all
      qed
      have "dstreams s' fp = Some d" by (simp add: s')
      then obtain w3 where cl: "dfclose os fp s' = Some (s'\<lparr>dstreams := (dstreams s')(fp := None), dworld := w3\<rparr>)" by (rule dfcloseE)
      have "s'\<lparr>dstreams := (dstreams s')(fp := None), dworld := w3\<rparr> = s\<lparr>dtrace := tr @ dtrace s, dworld := w3\<rparr>"
        by (simp add: s' un)
      then have "SecFileLoadWork os tzFd path ty uuid s = Some (q, s\<lparr>dtrace := tr @ dtrace s, dworld := w3\<rparr>)"
        using 2 c p l cl by (simp add: SecFileLoadWork_def)
      then show ?thesis using workedI [OF wt] by simp
    qed
  qed
qed

text \<open>
  What a request asks for: the two names that are tried, the type and the UUID; \<open>None\<close> for
  a request that is refused at once.
\<close>

definition sec_request :: "SecAgentControlType \<Rightarrow> (string list \<times> SecFileType \<times> u8 list option) option" where
  "sec_request b = (case sec_cmd_of (sa_cmd b) of
       Some LOAD_TA_SEC \<Rightarrow>
         Some ([ta_path TEE_FEIMA_DEFAULT_PATH (sa_uuid b), ta_path TEE_DEFAULT_PATH (sa_uuid b)],
               LOAD_TA, Some (sa_uuid b))
     | Some LOAD_LIB_SEC \<Rightarrow>
         if 0 \<in> set (take MAX_SEC_FILE_NAME_LEN (sa_libName b))
         then Some ([lib_path TEE_FEIMA_DEFAULT_PATH b, lib_path TEE_DEFAULT_PATH b], LOAD_LIB, None)
         else None
     | _ \<Rightarrow> None)"

text \<open>
  The calls in which the names are put together.
\<close>

definition path_calls :: "'w dmos \<Rightarrow> 'w \<Rightarrow> 'w \<Rightarrow> bool" where
  "path_calls os = (\<lambda>w w'. (\<exists>p. w' = snd (px_realpath os p w)) \<or> w' = snd (dm_memset_s os w))\<^sup>*\<^sup>*"

lemma path_calls_refl: "path_calls os w w"
  by (simp add: path_calls_def)

lemma path_calls_step:
  "path_calls os w w1 \<Longrightarrow> path_calls os w (snd (px_realpath os p w1))" "path_calls os w w1 \<Longrightarrow> path_calls os w (snd (dm_memset_s os w1))"
  unfolding path_calls_def by (auto intro: rtranclp.rtrancl_into_rtrancl)

text \<open>
  The answer: the request is as before but for the result and the error number, and the result is 0 exactly
  if the driver was given the file and accepted it.
\<close>

definition sec_answer :: "'w dmos \<Rightarrow> 'w \<Rightarrow> SecAgentControlType \<Rightarrow> int \<Rightarrow> SecAgentControlType \<Rightarrow> devent list \<Rightarrow> bool" where
  "sec_answer os w b fd c tr \<longleftrightarrow> c = b\<lparr>sa_ret := sa_ret c, sa_error := sa_error c\<rparr> \<and>
     (sa_ret c \<noteq> 0 \<and> tr = [] \<or>
      (\<exists>paths ty uuid path r w1. path_calls os w w1 \<and> sec_request b = Some (paths, ty, uuid) \<and> path \<in> set paths \<and>
         work_trace os w1 fd path ty uuid r tr \<and> (sa_ret c = 0 \<longleftrightarrow> r = 0)))"

definition answered :: "'w dmos \<Rightarrow> 'w teecd \<Rightarrow> 'w teecd \<Rightarrow> bool" where
  "answered os s s' \<longleftrightarrow> (\<exists>c tr w. s' = s\<lparr>sec_buf := c, dtrace := tr @ dtrace s, dworld := w\<rparr> \<and>
     sec_answer os (dworld s) (sec_buf s) (g_secLoadAgentFd s) c tr)"

lemma sec_answerI:
  "sec_request b = Some (paths, ty, uuid) \<Longrightarrow> path \<in> set paths \<Longrightarrow> path_calls os w w1 \<Longrightarrow> work_trace os w1 fd path ty uuid r tr \<Longrightarrow>
     c = b\<lparr>sa_ret := sa_ret c, sa_error := sa_error c\<rparr> \<Longrightarrow> (sa_ret c = 0 \<longleftrightarrow> r = 0) \<Longrightarrow> sec_answer os w b fd c tr"
  unfolding sec_answer_def by blast

lemma answeredI:
  "sec_answer os (dworld s) (sec_buf s) (g_secLoadAgentFd s) c tr \<Longrightarrow> answered os s (s\<lparr>sec_buf := c, dtrace := tr @ dtrace s, dworld := w\<rparr>)"
  unfolding answered_def by blast

lemma answered_refused: "answered os s (set_sec_ret (- 1) (s\<lparr>dworld := w\<rparr>))"
  using answeredI [of os s "(sec_buf s)\<lparr>sa_ret := - 1\<rparr>" "[]" w] by (simp add: sec_answer_def set_sec_ret_def)

lemma answered_refused0: "answered os s (set_sec_ret (- 1) s)"
  using answered_refused [of os s "dworld s"] by simp

lemma snprintf_text:
  assumes "securec_ok sc" "snprintf_s sc m n t = (r, u)"
  shows "r < 0 \<or> u = t"
  using snprintf_s_ok [OF assms(1), of m n t] assms(2) by (cases "r = - 1") auto

lemma LoadTa_ok:
  assumes sc: "securec_ok sc" and os: "daemon_os_ok os" and fd: "g_secLoadAgentFd s \<in> dfds s"
    and cmd: "sec_cmd_of (sa_cmd (sec_buf s)) = Some LOAD_TA_SEC" and a: "a \<noteq> NULL"
  shows "ok (LoadTa sc os a s) (answered os s)"
proof -
  let ?u = "sa_uuid (sec_buf s)"
  let ?fn = "\<lambda>dir. ta_path dir ?u"
  obtain r1 f1 where p1: "snprintf_s sc MAX_PATH_LEN (MAX_PATH_LEN - 1) (?fn TEE_FEIMA_DEFAULT_PATH) = (r1, f1)" by force
  obtain r2 f2 where p2: "snprintf_s sc MAX_PATH_LEN (MAX_PATH_LEN - 1) (?fn TEE_DEFAULT_PATH) = (r2, f2)" by force
  obtain real w where c: "dcall (px_realpath os f1) s = (real, s\<lparr>dworld := w\<rparr>)"
    and "px_realpath os f1 (dworld s) = (real, w)" by (rule dcallE)
  then have pw: "path_calls os (dworld s) w" using path_calls_step(1) [of os "dworld s" "dworld s" f1] path_calls_refl [of os] by simp
  have "\<exists>r fname w'. GetTaPath sc os ?u s = ((r, fname), s\<lparr>dworld := w'\<rparr>) \<and> path_calls os (dworld s) w' \<and> (r < 0 \<or> fname \<in> {?fn TEE_FEIMA_DEFAULT_PATH, ?fn TEE_DEFAULT_PATH})"
  proof (cases "r1 < 0")
    case True
    have "GetTaPath sc os ?u s = ((- 1, f1), s\<lparr>dworld := dworld s\<rparr>)" using p1 True by (simp add: GetTaPath_def)
    then show ?thesis by (intro exI [of _ "- 1"] exI [of _ f1] exI [of _ "dworld s"]) (simp add: path_calls_refl)
  next
    case False
    with snprintf_text [OF sc p1] have f1: "f1 = ?fn TEE_FEIMA_DEFAULT_PATH" by simp
    show ?thesis
    proof (cases real)
      case None
      then have "GetTaPath sc os ?u s = ((if r2 < 0 then - 1 else 0, f2), s\<lparr>dworld := w\<rparr>)"
        using p1 p2 False c by (simp add: GetTaPath_def)
      then show ?thesis using snprintf_text [OF sc p2]
        by (intro exI [of _ "if r2 < 0 then - 1 else 0"] exI [of _ f2] exI [of _ w]) (use pw in auto)
    next
      case (Some p)
      then have "GetTaPath sc os ?u s = ((0, f1), s\<lparr>dworld := w\<rparr>)" using p1 False c by (simp add: GetTaPath_def)
      then show ?thesis using f1 by (intro exI [of _ 0] exI [of _ f1] exI [of _ w]) (use pw in simp)
    qed
  qed
  then obtain r fname w' where g: "GetTaPath sc os ?u s = ((r, fname), s\<lparr>dworld := w'\<rparr>)"
    and pc: "path_calls os (dworld s) w'" and f: "r < 0 \<or> fname \<in> {?fn TEE_FEIMA_DEFAULT_PATH, ?fn TEE_DEFAULT_PATH}" by blast
  show ?thesis
  proof (cases "r < 0")
    case True
    with g a show ?thesis by (simp add: LoadTa_def answered_refused)
  next
    case False
    let ?s = "set_sec_ret 0 (s\<lparr>dworld := w'\<rparr>)"
    have "ok (SecFileLoadWork os (g_secLoadAgentFd s) fname LOAD_TA (Some ?u) ?s) (worked os (g_secLoadAgentFd s) fname LOAD_TA (Some ?u) ?s)"
      using fd by (intro SecFileLoadWork_ok [OF os]) (simp add: set_sec_ret_def)
    then obtain q tr w2 where l: "SecFileLoadWork os (g_secLoadAgentFd s) fname LOAD_TA (Some ?u) ?s =
        Some (q, ?s\<lparr>dtrace := tr @ dtrace s, dworld := w2\<rparr>)" and wt: "work_trace os w' (g_secLoadAgentFd s) fname LOAD_TA (Some ?u) q tr"
      unfolding ok_iff worked_def by (auto simp: set_sec_ret_def)
    define s2 where "s2 = ?s\<lparr>dtrace := tr @ dtrace s, dworld := w2\<rparr>"
    let ?c = "if q \<noteq> 0 then (sec_buf s)\<lparr>sa_ret := q, sa_error := uint32_of (derrno os s2)\<rparr> else (sec_buf s)\<lparr>sa_ret := 0\<rparr>"
    obtain paths where req: "sec_request (sec_buf s) = Some (paths, LOAD_TA, Some ?u)" "fname \<in> set paths"
      using f False cmd by (auto simp: sec_request_def)
    have "sec_answer os (dworld s) (sec_buf s) (g_secLoadAgentFd s) ?c tr"
      by (rule sec_answerI [OF req pc wt]) simp_all
    then have "answered os s (s\<lparr>sec_buf := ?c, dtrace := tr @ dtrace s, dworld := w2\<rparr>)" by (rule answeredI)
    moreover have "LoadTa sc os a s = Some (s\<lparr>sec_buf := ?c, dtrace := tr @ dtrace s, dworld := w2\<rparr>)"
      using g a False l by (simp add: LoadTa_def set_sec_failed_def set_sec_ret_def s2_def)
    ultimately show ?thesis by simp
  qed
qed

lemma name_terminated:
  "0 \<in> set (take n bs) \<longleftrightarrow> length (takeWhile (\<lambda>b. b \<noteq> 0) (take n bs)) < length (take n bs)" for bs :: "u8 list"
proof
  assume z: "0 \<in> set (take n bs)"
  then have "takeWhile (\<lambda>b. b \<noteq> 0) (take n bs) \<noteq> take n bs" by (metis (mono_tags) set_takeWhileD)
  then show "length (takeWhile (\<lambda>b. b \<noteq> 0) (take n bs)) < length (take n bs)"
    by (metis le_neq_implies_less length_takeWhile_le takeWhile_eq_take take_all order_refl)
next
  assume l: "length (takeWhile (\<lambda>b. b \<noteq> 0) (take n bs)) < length (take n bs)"
  show "0 \<in> set (take n bs)"
  proof (rule ccontr)
    assume "0 \<notin> set (take n bs)"
    then have "takeWhile (\<lambda>b. b \<noteq> 0) (take n bs) = take n bs" by (auto simp: takeWhile_eq_all_conv)
    with l show False by simp
  qed
qed

lemma LoadLib_ok:
  assumes sc: "securec_ok sc" and os: "daemon_os_ok os" and fd: "g_secLoadAgentFd s \<in> dfds s"
    and cmd: "sec_cmd_of (sa_cmd (sec_buf s)) = Some LOAD_LIB_SEC" and a: "a \<noteq> NULL"
    and len: "length (sa_libName (sec_buf s)) = MAX_SEC_FILE_NAME_LEN"
  shows "ok (LoadLib sc os a s) (answered os s)"
proof (cases "0 \<in> set (take MAX_SEC_FILE_NAME_LEN (sa_libName (sec_buf s)))")
  case False
  then have "\<not> length (takeWhile (\<lambda>b. b \<noteq> 0) (take MAX_SEC_FILE_NAME_LEN (sa_libName (sec_buf s)))) < MAX_SEC_FILE_NAME_LEN"
    unfolding name_terminated by (simp add: len)
  with a show ?thesis by (simp add: LoadLib_def answered_refused0)
next
  case True
  then have short: "length (takeWhile (\<lambda>b. b \<noteq> 0) (take MAX_SEC_FILE_NAME_LEN (sa_libName (sec_buf s)))) < MAX_SEC_FILE_NAME_LEN"
    unfolding name_terminated by (simp add: len)
  let ?fn = "\<lambda>dir. lib_path dir (sec_buf s)"
  obtain r1 f1 where p1: "snprintf_s sc MAX_PATH_LEN (MAX_PATH_LEN - 1) (?fn TEE_FEIMA_DEFAULT_PATH) = (r1, f1)" by force
  obtain r2 f2 where p2: "snprintf_s sc MAX_PATH_LEN (MAX_PATH_LEN - 1) (?fn TEE_DEFAULT_PATH) = (r2, f2)" by force
  obtain real w where c: "dcall (px_realpath os f1) s = (real, s\<lparr>dworld := w\<rparr>)"
    and "px_realpath os f1 (dworld s) = (real, w)" by (rule dcallE)
  then have pw: "path_calls os (dworld s) w" using path_calls_step(1) [of os "dworld s" "dworld s" f1] path_calls_refl [of os] by simp
  obtain x w' where x: "GetFeimaSecFileName sc os s = (x, s\<lparr>dworld := w'\<rparr>)" "x = None \<or> x = Some (?fn TEE_FEIMA_DEFAULT_PATH)"
    and pc: "path_calls os (dworld s) w'"
  proof (cases "r1 < 0")
    case True
    obtain m w1 where "dcall (dm_memset_s os) s = (m, s\<lparr>dworld := w1\<rparr>)" "dm_memset_s os (dworld s) = (m, w1)" by (rule dcallE)
    with True p1 path_calls_step(2) [of os "dworld s" "dworld s"] path_calls_refl [of os] show thesis
      by (intro that [of None w1]) (simp_all add: GetFeimaSecFileName_def)
  next
    case False
    obtain m w1 where m: "dcall (dm_memset_s os) (s\<lparr>dworld := w\<rparr>) = (m, s\<lparr>dworld := w1\<rparr>)" and "dm_memset_s os w = (m, w1)"
      by (rule dcallE [of "dm_memset_s os" "s\<lparr>dworld := w\<rparr>"]) simp
    then have pw1: "path_calls os (dworld s) w1" using path_calls_step(2) [OF pw] by simp
    show thesis
    proof (cases real)
      case None
      with False p1 c m pw1 show thesis by (intro that [of None w1]) (simp_all add: GetFeimaSecFileName_def)
    next
      case (Some p)
      have "f1 = ?fn TEE_FEIMA_DEFAULT_PATH" using snprintf_text [OF sc p1] False by simp
      with Some False p1 c pw show thesis by (intro that [of "Some f1" w]) (simp_all add: GetFeimaSecFileName_def)
    qed
  qed
  obtain r fname where f: "(case x of Some fname \<Rightarrow> (0, fname) | None \<Rightarrow> (r2, f2)) = (r, fname)" by force
  have fn: "r < 0 \<or> fname \<in> {?fn TEE_FEIMA_DEFAULT_PATH, ?fn TEE_DEFAULT_PATH}"
    using x(2) f snprintf_text [OF sc p2] by (auto split: option.splits)
  show ?thesis
  proof (cases "r < 0")
    case True
    then have "x = None" "r2 < 0" using f by (auto split: option.splits)
    with x a short p2 show ?thesis by (simp add: LoadLib_def answered_refused)
  next
    case False
    let ?s = "s\<lparr>dworld := w'\<rparr>"
    have "ok (SecFileLoadWork os (g_secLoadAgentFd s) fname LOAD_LIB None ?s) (worked os (g_secLoadAgentFd s) fname LOAD_LIB None ?s)"
      using fd by (intro SecFileLoadWork_ok [OF os]) simp
    then obtain q tr w2 where l: "SecFileLoadWork os (g_secLoadAgentFd s) fname LOAD_LIB None ?s =
        Some (q, s\<lparr>dtrace := tr @ dtrace s, dworld := w2\<rparr>)" and wt: "work_trace os w' (g_secLoadAgentFd s) fname LOAD_LIB None q tr"
      unfolding ok_iff worked_def by auto
    define s2 where "s2 = s\<lparr>dtrace := tr @ dtrace s, dworld := w2\<rparr>"
    let ?c = "if q \<noteq> 0 then (sec_buf s)\<lparr>sa_ret := - 1, sa_error := uint32_of (derrno os s2)\<rparr> else (sec_buf s)\<lparr>sa_ret := 0\<rparr>"
    obtain paths where req: "sec_request (sec_buf s) = Some (paths, LOAD_LIB, None)" "fname \<in> set paths"
      using fn False cmd \<open>0 \<in> _\<close> by (auto simp: sec_request_def)
    have "sec_answer os (dworld s) (sec_buf s) (g_secLoadAgentFd s) ?c tr"
      by (rule sec_answerI [OF req pc wt]) simp_all
    then have "answered os s (s\<lparr>sec_buf := ?c, dtrace := tr @ dtrace s, dworld := w2\<rparr>)" by (rule answeredI)
    moreover have "LoadLib sc os a s = Some (s\<lparr>sec_buf := ?c, dtrace := tr @ dtrace s, dworld := w2\<rparr>)"
    proof (cases x)
      case None
      with f have "r2 = r" "f2 = fname" by simp_all
      with None x(1) a short p2 False l show ?thesis
        by (simp add: LoadLib_def set_sec_failed_def set_sec_ret_def s2_def)
    next
      case (Some y)
      with f have "y = fname" by simp
      with Some x(1) a short l show ?thesis by (simp add: LoadLib_def set_sec_failed_def set_sec_ret_def s2_def)
    qed
    ultimately show ?thesis by simp
  qed
qed

lemma SecLoadAgentWork_ok:
  assumes "securec_ok sc" "daemon_os_ok os" "g_secLoadAgentFd s \<in> dfds s" "a \<noteq> NULL"
    and "length (sa_libName (sec_buf s)) = MAX_SEC_FILE_NAME_LEN"
  shows "ok (SecLoadAgentWork sc os a s) (answered os s)"
  using assms LoadTa_ok [OF assms(1-3)] LoadLib_ok [OF assms(1-3)]
  by (auto simp: SecLoadAgentWork_def answered_refused0 split: option.split SecAgentCmd.split)

text \<open>The events of the thread that loads secure files.\<close>

definition sec_ev :: "int \<Rightarrow> devent \<Rightarrow> bool" where
  "sec_ev fd e \<longleftrightarrow> (\<exists>p. e = Fopen p \<and> allowed_path p) \<or> (\<exists>arg bs r. e = Ioctl fd (LOAD_APP_REQ arg bs) r)"

lemma work_trace_ev: "work_trace os w fd path ty uuid r tr \<Longrightarrow> list_all (sec_ev fd) tr"
  by (auto simp: work_trace_def sec_ev_def load_event_def)

lemma answered_ev:
  assumes "answered os s s'"
  obtains c tr w where "s' = s\<lparr>sec_buf := c, dtrace := tr @ dtrace s, dworld := w\<rparr>" and "list_all (sec_ev (g_secLoadAgentFd s)) tr"
proof -
  from assms obtain c tr w where s': "s' = s\<lparr>sec_buf := c, dtrace := tr @ dtrace s, dworld := w\<rparr>"
    and "sec_answer os (dworld s) (sec_buf s) (g_secLoadAgentFd s) c tr" unfolding answered_def by blast
  then have "list_all (sec_ev (g_secLoadAgentFd s)) tr" by (auto simp: sec_answer_def dest: work_trace_ev)
  with s' show thesis by (rule that)
qed

lemma sec_answer_wf: "sec_answer os w b fd c tr \<Longrightarrow> sec_wf b \<Longrightarrow> sec_wf c"
  unfolding sec_answer_def sec_wf_def by (metis SecAgentControlType.select_convs(5,6) SecAgentControlType.surjective
      SecAgentControlType.update_convs(3,4))

lemma sec_eventE:
  assumes "daemon_os_ok os" "fd \<in> dfds s"
  obtains r c w where "sec_event os fd req s = Some (r, s\<lparr>sec_buf := c, dworld := w\<rparr>)" and "sec_wf c"
proof -
  obtain g w where c: "dcall (dm_sec_event os fd req (sec_buf s)) s = (g, s\<lparr>dworld := w\<rparr>)"
    and g: "dm_sec_event os fd req (sec_buf s) (dworld s) = (g, w)" by (rule dcallE)
  have "\<forall>d q c w. sec_wf (snd (fst (dm_sec_event os d q c w)))" using assms(1) by (simp add: daemon_os_ok_def)
  then have "sec_wf (snd (fst (dm_sec_event os fd req (sec_buf s) (dworld s))))" by blast
  with g have "sec_wf (snd g)" by simp
  with assms c show thesis by (intro that [of "fst g" w "snd g"]) (simp_all add: sec_event_def case_prod_beta)
qed

definition sec_rounded :: "'w teecd \<Rightarrow> 'w teecd \<Rightarrow> bool" where
  "sec_rounded s s' \<longleftrightarrow> (\<exists>c tr w. s' = s\<lparr>sec_buf := c, dtrace := tr @ dtrace s, dworld := w\<rparr> \<and> sec_wf c \<and>
     list_all (sec_ev (g_secLoadAgentFd s)) tr)"

lemma sec_roundedI:
  "sec_wf c \<Longrightarrow> list_all (sec_ev (g_secLoadAgentFd s)) tr \<Longrightarrow> sec_rounded s (s\<lparr>sec_buf := c, dtrace := tr @ dtrace s, dworld := w\<rparr>)"
  unfolding sec_rounded_def by blast

lemma sec_rounded_event: "sec_wf c \<Longrightarrow> sec_rounded s (s\<lparr>sec_buf := c, dworld := w\<rparr>)"
  using sec_roundedI [of c s "[]" w] by simp

lemma sec_round_ok:
  assumes sc: "securec_ok sc" and os: "daemon_os_ok os" and fd: "g_secLoadAgentFd s \<in> dfds s"
  shows "ok (sec_round sc os a s) (\<lambda>(b, s'). sec_rounded s s')"
proof -
  obtain r c w where e: "sec_event os (g_secLoadAgentFd s) FS_WAIT_EVENT s = Some (r, s\<lparr>sec_buf := c, dworld := w\<rparr>)" and wf: "sec_wf c"
    using os fd by (rule sec_eventE)
  let ?s = "s\<lparr>sec_buf := c, dworld := w\<rparr>"
  obtain c1 tr w1 where k: "SecLoadAgentWork sc os a ?s = Some (s\<lparr>sec_buf := c1, dtrace := tr @ dtrace s, dworld := w1\<rparr>)"
    and ev: "list_all (sec_ev (g_secLoadAgentFd s)) tr"
  proof (cases "a = NULL")
    case True
    then show thesis by (intro that [of w "[]" c]) (simp_all add: SecLoadAgentWork_def)
  next
    case False
    have "ok (SecLoadAgentWork sc os a ?s) (answered os ?s)"
      using sc os False fd wf by (intro SecLoadAgentWork_ok) (simp_all add: sec_wf_def)
    then obtain s' where k: "SecLoadAgentWork sc os a ?s = Some s'" and an: "answered os ?s s'" by (auto simp: ok_iff)
    from an show thesis
    proof (rule answered_ev)
      fix c1 tr w1
      assume "s' = ?s\<lparr>sec_buf := c1, dtrace := tr @ dtrace ?s, dworld := w1\<rparr>" "list_all (sec_ev (g_secLoadAgentFd ?s)) tr"
      with k show thesis by (intro that [of w1 tr c1]) simp_all
    qed
  qed
  let ?s2 = "s\<lparr>sec_buf := c1\<lparr>sa_magic := SECFILE_LOAD_AGENT_ID\<rparr>, dtrace := tr @ dtrace s, dworld := w1\<rparr>"
  have "g_secLoadAgentFd s \<in> dfds ?s2" using fd by simp
  with os obtain r2 c2 w2 where e2: "sec_event os (g_secLoadAgentFd s) FS_SEND_EVENT_RESPONSE ?s2 =
      Some (r2, ?s2\<lparr>sec_buf := c2, dworld := w2\<rparr>)" and wf2: "sec_wf c2" by (rule sec_eventE)
  show ?thesis
    using e k e2 sec_roundedI [OF wf2 ev, of w2] sec_rounded_event [OF wf, of s w] by (cases "r = 0") (simp_all add: sec_round_def)
qed

section \<open>Dynamic drivers and services leak nothing\<close>

text \<open>Opened are only files whose name is that of the directory followed by an entry (of \<open>N\<close>), without anything between them.\<close>

definition dyn_ev :: "string set \<Rightarrow> string \<Rightarrow> int \<Rightarrow> devent \<Rightarrow> bool" where
  "dyn_ev N dir fd e \<longleftrightarrow> (\<exists>n \<in> N. e = Fopen (dir @ n)) \<or> (\<exists>arg bs r. e = Ioctl fd (LOAD_APP_REQ arg bs) r)"

lemma strcat_s_ok: "securec_ok sc \<Longrightarrow> strcat_s sc n d t = (0, r) \<Longrightarrow> r = d @ t"
  by (auto simp: strcat_s_def strncat_s_ok)

lemma LoadOneFile_ok:
  assumes sc: "securec_ok sc" and os: "daemon_os_ok os" and fd: "fd \<in> dfds s"
  shows "ok (LoadOneFile sc os dir n fd ty s) (\<lambda>(r, s'). dext (dyn_ev {n} dir fd) s s')"
proof -
  obtain m w where c: "dcall (dm_memset_s os) s = (m, s\<lparr>dworld := w\<rparr>)" by (rule dcallE)
  obtain r1 n1 where 1: "strcat_s sc MAX_DYN_NAME_LEN [] dir = (r1, n1)" by force
  obtain r2 n2 where 2: "strcat_s sc MAX_DYN_NAME_LEN n1 n = (r2, n2)" by force
  show ?thesis
  proof (cases "endsWith n ''.sec'' \<noteq> 0 \<or> m \<noteq> 0 \<or> r1 \<noteq> 0 \<or> r2 \<noteq> 0")
    case True
    with c 1 2 show ?thesis by (auto simp: LoadOneFile_def)
  next
    case False
    then have n2: "n2 = dir @ n" using strcat_s_ok [OF sc, of MAX_DYN_NAME_LEN "[]" dir n1] strcat_s_ok [OF sc, of MAX_DYN_NAME_LEN n1 n n2] 1 2 by auto
    then have ev: "dyn_ev {n} dir fd (Fopen n2)" by (simp add: dyn_ev_def)
    show ?thesis
    proof (cases rule: dfopen_cases [OF os, of n2 "''r''" "s\<lparr>dworld := w\<rparr>"])
      case f: (1 w1)
      with False c 1 2 ev show ?thesis by (simp add: LoadOneFile_def)
    next
      case f: (2 fp d w1)
      let ?s = "s\<lparr>dstreams := (dstreams s)(fp \<mapsto> d), dtrace := Fopen n2 # dtrace s, dworld := w1\<rparr>"
      have un: "(dstreams s)(fp := None) = dstreams s" using f by auto
      have "ok (LoadSecFile_agent os fd fp ty None ?s) (load_result (file_bytes os fp w1) fd ty None ?s)"
        using LoadSecFile_agent_ok [OF os, of fd ?s fp d ty None] fd by simp
      then obtain q s' where l: "LoadSecFile_agent os fd fp ty None ?s = Some (q, s')"
        and res: "load_result (file_bytes os fp w1) fd ty None ?s (q, s')" by (auto simp: ok_iff)
      obtain tr w2 where s': "s' = ?s\<lparr>dtrace := tr @ dtrace s, dworld := w2\<rparr>" and t: "list_all (dyn_ev {n} dir fd) tr"
        using res
      proof (cases rule: load_resultE)
        case (1 w2)
        with ev show thesis by (intro that [of w2 "[Fopen n2]"]) simp_all
      next
        case (2 w2 e)
        then have "dyn_ev {n} dir fd e" by (auto simp: load_event_def dyn_ev_def)
        with 2 ev show thesis by (intro that [of w2 "[e, Fopen n2]"]) simp_all
      qed
      have "dstreams s' fp = Some d" by (simp add: s')
      then obtain w3 where cl: "dfclose os fp s' = Some (s'\<lparr>dstreams := (dstreams s')(fp := None), dworld := w3\<rparr>)" by (rule dfcloseE)
      have eq: "s'\<lparr>dstreams := (dstreams s')(fp := None), dworld := w3\<rparr> = s\<lparr>dtrace := tr @ dtrace s, dworld := w3\<rparr>"
        by (simp add: s' un)
      have "LoadOneFile sc os dir n fd ty s = Some (q, s\<lparr>dtrace := tr @ dtrace s, dworld := w3\<rparr>)"
        using False c 1 2 f l cl [unfolded eq] by (simp add: LoadOneFile_def)
      then show ?thesis using dextI [OF t] by simp
    qed
  qed
qed

lemma load_entries_ok:
  assumes sc: "securec_ok sc" and os: "daemon_os_ok os"
  shows "fd \<in> dfds s \<Longrightarrow> ok (load_entries sc os fd dir ty es r s) (\<lambda>(r, s'). dext (dyn_ev (fst ` set es) dir fd) s s')"
proof (induction es arbitrary: r s)
  case (Cons x es)
  obtain n isReg where x: "x = (n, isReg)" by force
  let ?s = "s\<lparr>dworld := px_readdir os (dworld s)\<rparr>"
  have fd: "fd \<in> dfds ?s" using Cons.prems by simp
  have more: "dext (dyn_ev (insert n (fst ` set es)) dir fd) t t'" if "dext (dyn_ev (fst ` set es) dir fd) t t'" for t t' :: "'a teecd"
    using that by (rule dext_mono) (auto simp: dyn_ev_def)
  show ?case
  proof (cases isReg)
    case False
    with Cons.IH [OF fd, of r] x show ?thesis by (auto elim!: ok_mono intro: dext_trans [OF dext_world] more)
  next
    case True
    obtain q tr w where l: "LoadOneFile sc os dir n fd ty ?s = Some (q, ?s\<lparr>dtrace := tr @ dtrace ?s, dworld := w\<rparr>)"
      and "list_all (dyn_ev {n} dir fd) tr"
      using LoadOneFile_ok [OF sc os fd, of dir n ty] by (auto simp: ok_iff elim!: dextE)
    then have t: "list_all (dyn_ev (insert n (fst ` set es)) dir fd) tr" by (auto simp: list_all_iff dyn_ev_def)
    have "fd \<in> dfds (s\<lparr>dtrace := tr @ dtrace s, dworld := w\<rparr>)" using Cons.prems by simp
    from Cons.IH [OF this, of q] show ?thesis
      using x True l by (auto elim!: ok_mono intro: dext_trans [OF dextI [OF t]] more)
  qed
qed simp

text \<open>The entries that a directory may have.\<close>

definition dir_names :: "'w dmos \<Rightarrow> string \<Rightarrow> string set" where
  "dir_names os dir = {n. \<exists>w es. fst (dm_opendir os dir w) = Some es \<and> n \<in> fst ` set es}"

lemma LoadOneDynamicDir_ok:
  assumes sc: "securec_ok sc" and os: "daemon_os_ok os" and fd: "fd \<in> dfds s"
  shows "ok (LoadOneDynamicDir sc os fd dir ty s) (\<lambda>(r, s'). dext (dyn_ev (dir_names os dir) dir fd) s s')"
proof -
  obtain d w where c: "dcall (dm_opendir os dir) s = (d, s\<lparr>dworld := w\<rparr>)" and o: "dm_opendir os dir (dworld s) = (d, w)" by (rule dcallE)
  show ?thesis
  proof (cases d)
    case None
    with c show ?thesis by (simp add: LoadOneDynamicDir_def)
  next
    case (Some es)
    have "fd \<in> dfds (s\<lparr>dworld := w\<rparr>)" using fd by simp
    from load_entries_ok [OF sc os this, of dir ty es "- 1"] obtain r tr w2 where
      l: "load_entries sc os fd dir ty es (- 1) (s\<lparr>dworld := w\<rparr>) = Some (r, s\<lparr>dtrace := tr @ dtrace s, dworld := w2\<rparr>)"
      and t: "list_all (dyn_ev (fst ` set es) dir fd) tr" by (auto simp: ok_iff elim!: dextE)
    have "fst (dm_opendir os dir (dworld s)) = Some es" using o Some by simp
    then have sub: "fst ` set es \<subseteq> dir_names os dir" unfolding dir_names_def by blast
    have "dyn_ev (dir_names os dir) dir fd e" if "dyn_ev (fst ` set es) dir fd e" for e
      using that subsetD [OF sub] unfolding dyn_ev_def by blast
    then have "list_all (dyn_ev (dir_names os dir) dir fd) tr"
      using t by (simp add: list_all_iff)
    with l c Some show ?thesis by (simp add: LoadOneDynamicDir_def dcall_pair dextI)
  qed
qed

definition dyn_dirs :: "string list" where
  "dyn_dirs = [DYNAMIC_DRV_FEIMA_DIR, DYNAMIC_DRV_DIR, DYNAMIC_SRV_FEIMA_DIR, DYNAMIC_SRV_DIR]"

definition start_ev :: "int \<Rightarrow> devent \<Rightarrow> bool" where
  "start_ev fd e \<longleftrightarrow> (\<exists>dir \<in> set dyn_dirs. \<exists>N. dyn_ev N dir fd e)"

text \<open>Two directories one after the other.\<close>

lemma load_two_ok:
  assumes "securec_ok sc" "daemon_os_ok os" "g_secLoadAgentFd s \<in> dfds s" "d1 \<in> set dyn_dirs" "d2 \<in> set dyn_dirs"
  shows "ok (do {
      (r, s) \<leftarrow> LoadOneDynamicDir sc os (g_secLoadAgentFd s) d1 ty s;
      if r \<noteq> 0 then do { (_, s) \<leftarrow> LoadOneDynamicDir sc os (g_secLoadAgentFd s) d2 ty s; Some s } else Some s })
    (dext (start_ev (g_secLoadAgentFd s)) s)"
proof -
  let ?fd = "g_secLoadAgentFd s"
  have up: "dext (start_ev ?fd) t t'" if "dext (dyn_ev N d ?fd) t t'" "d \<in> set dyn_dirs" for N d and t t' :: "'a teecd"
    using that(1) by (rule dext_mono) (use that(2) in \<open>unfold start_ev_def, blast\<close>)
  obtain r s1 where 1: "LoadOneDynamicDir sc os ?fd d1 ty s = Some (r, s1)" "dext (dyn_ev (dir_names os d1) d1 ?fd) s s1"
    using LoadOneDynamicDir_ok [OF assms(1-3), of d1 ty] by (auto simp: ok_iff)
  note s1 = dext_sel [OF 1(2)]
  have "g_secLoadAgentFd s1 \<in> dfds s1" using assms(3) by (simp add: s1)
  from LoadOneDynamicDir_ok [OF assms(1,2) this, of d2 ty] obtain r2 s2 where
    2: "LoadOneDynamicDir sc os ?fd d2 ty s1 = Some (r2, s2)" "dext (dyn_ev (dir_names os d2) d2 ?fd) s1 s2"
    by (auto simp: ok_iff s1)
  show ?thesis using 1(1) 2(1) up [OF 1(2) assms(4)] up [OF 2(2) assms(5)] by (auto simp: s1 intro: dext_trans)
qed

lemma LoadDynamicSrvDir_ok:
  assumes "securec_ok sc" "daemon_os_ok os" "g_secLoadAgentFd s \<in> dfds s"
  shows "ok (LoadDynamicSrvDir sc os s) (dext (start_ev (g_secLoadAgentFd s)) s)"
  unfolding LoadDynamicSrvDir_def by (rule load_two_ok [OF assms]) (simp_all add: dyn_dirs_def)

lemma load_default_drv_ok:
  assumes "securec_ok sc" "daemon_os_ok os" "g_secLoadAgentFd s \<in> dfds s"
  shows "ok (load_default_drv sc os s) (dext (start_ev (g_secLoadAgentFd s)) s)"
  unfolding load_default_drv_def by (rule load_two_ok [OF assms]) (simp_all add: dyn_dirs_def)

end
