(* ===== verification/Teecd_Auth.thy ===== *)
theory Teecd_Auth
  imports Teecd_Agent Ca_Socket
begin

unbundle bit_operations_syntax

text \<open>
  Authentication of client applications: the certificate of a native client
  (\<open>src/services/authentication/tee_auth_common.c\<close>, \<open>tee_get_native_cert.c\<close>), the hash lists that are
  sent to the driver at start-up (\<open>tcu_authentication.c\<close>), and the thread that hands descriptors of
  the driver to clients (\<open>src/services/teecd/src/tee_ca_auth.c\<close>, \<open>tee_ca_daemon.c\<close>).
\<close>

section \<open>The name of a client\<close>

text \<open>\<open>bytesRead <= 0 || ferror(fd) != 0\<close>; \<open>ferror\<close> is asked only if something was read.\<close>

definition read_error :: "'w dmos \<Rightarrow> addr \<Rightarrow> u8 list \<Rightarrow> 'w teecd \<Rightarrow> (bool \<times> 'w teecd) option" where
  "read_error os fd bs s = (if bs = [] then Some (True, s) else on_dstream fd (dm_ferror os fd) s)"

text \<open>The number of bytes read and the name, if one was copied.\<close>

definition ReadCmdLine :: "securec \<Rightarrow> 'w dmos \<Rightarrow> string \<Rightarrow> nat \<Rightarrow> nat \<Rightarrow> 'w teecd \<Rightarrow> ((int \<times> string) \<times> 'w teecd) option" where
  "ReadCmdLine sc os path bufferLen nameLen s =
     (let (fd, s) = dfopen os path ''rb'' s
      in if fd = NULL then Some ((- 1, []), s)
         else do {
           (bs, s) \<leftarrow> on_dstream fd (px_fread os fd (bufferLen - 1)) s;
           buffer \<leftarrow> put_bytes (replicate bufferLen 0) 0 bs;
           (err, s) \<leftarrow> read_error os fd bs s;
           s \<leftarrow> dfclose os fd s;
           if err then Some ((- 1, []), s)
           else do {
             let first = map chr_of (takeWhile (\<lambda>b. b \<noteq> 0) (take (bufferLen - 1) buffer));
             let (res, caName) = strncpy_s sc (nameLen - 1) first (length first);
             if res \<noteq> EOK then Some ((- 1, []), s) else Some ((int (length bs), caName), s)
           }
         })"

definition cmdline :: "int \<Rightarrow> string" where
  "cmdline pid = ''/proc/'' @ int_fix 0 pid @ ''/cmdline''"

definition TeeGetCaName :: "securec \<Rightarrow> 'w dmos \<Rightarrow> int \<Rightarrow> nat \<Rightarrow> 'w teecd \<Rightarrow> ((int \<times> string) \<times> 'w teecd) option" where
  "TeeGetCaName sc os caPid nameLen s =
     (if nameLen = 0 then Some ((- 1, []), s)
      else let (r, path) = snprintf_s sc MAX_PATH_LENGTH (MAX_PATH_LENGTH - 1) (cmdline caPid)
      in if r = - 1 then Some ((r, []), s) else ReadCmdLine sc os path CMD_MAX_SIZE nameLen s)"

definition TeeGetPkgName :: "securec \<Rightarrow> 'w dmos \<Rightarrow> int \<Rightarrow> nat \<Rightarrow> 'w teecd \<Rightarrow> ((int \<times> string) \<times> 'w teecd) option" where
  "TeeGetPkgName sc os caPid pathLen s =
     (if pathLen > MAX_PATH_LENGTH then Some ((- 1, []), s)
      else do {
        ((r, path), s) \<leftarrow> TeeGetCaName sc os caPid pathLen s;
        Some ((if r < 0 then - 1 else 0, path), s)
      })"

section \<open>The native certificate\<close>

text \<open>
  The buffer as a whole with the offset of the pointer into it, the length written so far
  (\<open>*len\<close>) and the space left (\<open>*inputLen\<close>).  After a failed copy the buffer is not used again.
\<close>

definition SetPathToBuf ::
  "'w dmos \<Rightarrow> u8 list \<Rightarrow> nat \<Rightarrow> u32 \<Rightarrow> u32 \<Rightarrow> string \<Rightarrow> 'w teecd \<Rightarrow> ((int \<times> u8 list \<times> u32 \<times> u32) \<times> 'w teecd) option" where
  "SetPathToBuf os buffer off len inputLen path s =
     (let num = of_nat (length path) :: u32
      in if inputLen < 4 then Some ((- 1, buffer, len, inputLen), s)
         else let (rc, s) = dcall (dm_memcpy_s os (unat inputLen) 4) s
         in if rc \<noteq> EOK then Some ((rc, buffer, len, inputLen), s)
            else do {
              buffer \<leftarrow> put_u32 buffer off num;
              let len = len + 4; let inputLen = inputLen - 4;
              if num > inputLen then Some ((- 1, buffer, len, inputLen), s)
              else do {
                let (rc, s) = dcall (dm_memcpy_s os (unat inputLen) (unat num)) s;
                if rc \<noteq> EOK then Some ((rc, buffer, len, inputLen), s)
                else do {
                  buffer \<leftarrow> put_bytes buffer (off + 4) (map byte_of (take (unat num) path));
                  Some ((rc, buffer, len + num, inputLen - num), s)
                }
              }
            })"

definition SetUidToBuf ::
  "'w dmos \<Rightarrow> u8 list \<Rightarrow> nat \<Rightarrow> u32 \<Rightarrow> u32 \<Rightarrow> u32 \<Rightarrow> 'w teecd \<Rightarrow> ((int \<times> u8 list \<times> u32 \<times> u32) \<times> 'w teecd) option" where
  "SetUidToBuf os buffer off len inputLen caUid s =
     (let pubkeyLen = 4 :: u32
      in if inputLen < 4 then Some ((- 1, buffer, len, inputLen), s)
         else let (rc, s) = dcall (dm_memcpy_s os (unat inputLen) 4) s
         in if rc \<noteq> EOK then Some ((rc, buffer, len, inputLen), s)
            else do {
              buffer \<leftarrow> put_u32 buffer off pubkeyLen;
              let len = len + 4; let inputLen = inputLen - 4;
              if pubkeyLen > inputLen then Some ((- 1, buffer, len, inputLen), s)
              else do {
                let (rc, s) = dcall (dm_memcpy_s os (unat inputLen) (unat pubkeyLen)) s;
                if rc \<noteq> EOK then Some ((rc, buffer, len, inputLen), s)
                else do {
                  buffer \<leftarrow> put_u32 buffer (off + 4) caUid;
                  Some ((rc, buffer, len + pubkeyLen, inputLen), s)
                }
              }
            })"

text \<open>\<open>SetUserInfoToBuf\<close> only calls \<open>SetUidToBuf\<close>.\<close>

definition TeeGetNativeCert ::
  "securec \<Rightarrow> 'w dmos \<Rightarrow> int \<Rightarrow> u32 \<Rightarrow> u32 \<Rightarrow> u8 list \<Rightarrow> 'w teecd \<Rightarrow> ((int \<times> u8 list \<times> u32) \<times> 'w teecd) option" where
  "TeeGetNativeCert sc os caPid caUid len buffer s = do {
     let inputLen = len;
     ((r, path), s) \<leftarrow> TeeGetPkgName sc os caPid MAX_PATH_LENGTH s;
     if r \<noteq> 0 then Some ((r, buffer, len), s)
     else do {
       ((r, buffer, len, inputLen), s) \<leftarrow> SetPathToBuf os buffer 0 0 inputLen path s;
       if r \<noteq> 0 then Some ((r, buffer, len), s)
       else do {
         ((r, buffer, len, inputLen), s) \<leftarrow> SetUidToBuf os buffer (4 + length path) len inputLen caUid s;
         Some ((r, buffer, len), s)
       }
     }
   }"

section \<open>Hash lists\<close>

abbreviation (input) "HASH_FILE_MAX_SIZE \<equiv> (16 * 1024 :: int)"
abbreviation (input) "XML_HEADER \<equiv> (4 :: int)"
abbreviation (input) "HASH_TYPE_VENDOR \<equiv> (0 :: u8)"
abbreviation (input) "HASH_TYPE_SYSTEM \<equiv> (1 :: u8)"
abbreviation (input) "HASH_TYPE_WHOLE \<equiv> (2 :: u8)"

definition GetCaHashFileList :: "u8 \<Rightarrow> string list" where
  "GetCaHashFileList hash_type =
     (if hash_type = HASH_TYPE_SYSTEM then [''/system/etc/native_packages.xml'']
      else if hash_type = HASH_TYPE_VENDOR
      then [''/vendor/etc/native_packages.xml'', ''/vendor/root/res/native_packages.xml'',
            ''/vendor/etc/passthrough/teeos/source/native_packages.xml'']
      else [''/vendor/etc/native_packages.xml'', ''/system/etc/native_packages.xml'',
            ''/vendor/root/res/native_packages.xml'', ''/vendor/etc/passthrough/teeos/source/native_packages.xml''])"

definition IsNotValidFname :: "string \<Rightarrow> bool" where
  "IsNotValidFname path \<longleftrightarrow> strstr path ''..'' \<noteq> None"

text \<open>The checks at the start of \<open>GetFileSize\<close> and \<open>GetFileInfo\<close>.\<close>

definition hash_realpath :: "'w dmos \<Rightarrow> string \<Rightarrow> 'w teecd \<Rightarrow> string option \<times> 'w teecd" where
  "hash_realpath os path s =
     (if IsNotValidFname path \<or> length path > PATH_MAX then (None, s) else dcall (px_realpath os path) s)"

text \<open>The result and the value of \<open>*realSize\<close>; casts to \<open>int\<close> wrap around.\<close>

definition to_int :: "int \<Rightarrow> int" where
  "to_int i = sint (word_of_int i :: u32)"

definition GetFileSize :: "'w dmos \<Rightarrow> string \<Rightarrow> int \<Rightarrow> 'w teecd \<Rightarrow> ((int \<times> int) \<times> 'w teecd) option" where
  "GetFileSize os path realSize s =
     (let (real, s) = hash_realpath os path s
      in case real of
           None \<Rightarrow> Some ((- 1, realSize), s)
         | Some realPath \<Rightarrow>
             let (fp, s) = dfopen os realPath ''r'' s
             in if fp = NULL then Some ((- 1, realSize), s)
                else do {
                  (r, s) \<leftarrow> on_dstream fp (px_fseek os fp 0 whence_LAST) s;
                  if r < 0 then do { s \<leftarrow> dfclose os fp s; Some ((- 1, realSize), s) }
                  else do {
                    (pos, s) \<leftarrow> on_dstream fp (px_ftell os fp) s;
                    let fileSize = to_int pos;
                    (r, s) \<leftarrow> on_dstream fp (px_fseek os fp 0 whence_SET) s;
                    if r < 0 \<or> fileSize < XML_HEADER then do { s \<leftarrow> dfclose os fp s; Some ((- 1, realSize), s) }
                    else do {
                      (bs, s) \<leftarrow> on_dstream fp (px_fread os fp 4) s;
                      let xmlHeader = sint (le_field bs 0 4);
                      s \<leftarrow> dfclose os fp s;
                      if length bs \<noteq> 4 \<or> xmlHeader < fileSize then Some ((- 1, realSize), s)
                      else Some ((xmlHeader, fileSize), s)
                    }
                  }
                })"

definition GetFileInfo :: "'w dmos \<Rightarrow> int \<Rightarrow> addr \<Rightarrow> string \<Rightarrow> 'w teecd \<Rightarrow> (int \<times> 'w teecd) option" where
  "GetFileInfo os bufLen buffer path s =
     (if buffer = NULL then Some (- 1, s)
      else let (real, s) = hash_realpath os path s
      in case real of
           None \<Rightarrow> Some (- 1, s)
         | Some realPath \<Rightarrow>
             if bufLen = 0 then Some (- 1, s)
             else let (fp, s) = dfopen os realPath ''rb'' s
             in if fp = NULL then Some (- 1, s)
                else do {
                  (bs, s) \<leftarrow> on_dstream fp (px_fread os fp (unat (uint32_of bufLen))) s;
                  s \<leftarrow> dwrite buffer bs s;
                  s \<leftarrow> dfclose os fp s;
                  if int (length bs) \<noteq> bufLen then Some (- 1, s) else Some (0, s)
                })"

definition InitTempBuf :: "'w dmos \<Rightarrow> int \<Rightarrow> 'w teecd \<Rightarrow> (addr \<times> 'w teecd) option" where
  "InitTempBuf os bufLen s =
     (if bufLen \<le> 0 \<or> bufLen > HASH_FILE_MAX_SIZE then Some (NULL, s)
      else let (buffer, s) = dmalloc os (nat bufLen) s
      in if buffer = NULL then Some (NULL, s)
         else do {
           (rc, s) \<leftarrow> dzero os buffer s;
           if rc \<noteq> EOK then do { s \<leftarrow> dfree buffer s; Some (NULL, s) } else Some (buffer, s)
         })"

definition ReadXmlFile :: "'w dmos \<Rightarrow> string \<Rightarrow> 'w teecd \<Rightarrow> (addr \<times> 'w teecd) option" where
  "ReadXmlFile os xmlFile s = do {
     ((bufLen, realSize), s) \<leftarrow> GetFileSize os xmlFile 0 s;
     (buffer, s) \<leftarrow> InitTempBuf os bufLen s;
     if buffer = NULL then Some (NULL, s)
     else do {
       (r, s) \<leftarrow> GetFileInfo os realSize buffer xmlFile s;
       if r \<noteq> 0 then do { s \<leftarrow> dfree buffer s; Some (NULL, s) } else Some (buffer, s)
     }
   }"

definition TeeSetNativeCaHash :: "'w dmos \<Rightarrow> string \<Rightarrow> 'w teecd \<Rightarrow> (int \<times> 'w teecd) option" where
  "TeeSetNativeCaHash os xmlFile s = do {
     (buffer, s) \<leftarrow> ReadXmlFile os xmlFile s;
     if buffer = NULL then Some (- 1, s)
     else do {
       let (fd, s) = dtee_open os TC_PRIVATE_DEV_NAME s;
       if fd < 0 then do { s \<leftarrow> dfree buffer s; Some (- 1, s) }
       else do {
         bs \<leftarrow> dmem s buffer;
         (r, s) \<leftarrow> dioctl os fd (SET_NATIVE_IDENTITY bs) s;
         s \<leftarrow> dfree buffer s;
         s \<leftarrow> dtee_close os fd s;
         Some (r, s)
       }
     }
   }"

definition IsFileExist_tcu :: "'w dmos \<Rightarrow> string \<Rightarrow> 'w teecd \<Rightarrow> bool \<times> 'w teecd" where
  "IsFileExist_tcu os name s =
     (let (r, s) = dcall (px_stat os name) s in (\<not> (r \<noteq> 0 \<and> derrno os s = ENOENT), s))"

text \<open>The loop over the list: the number of files that were sent.\<close>

fun hash_files :: "'w dmos \<Rightarrow> string list \<Rightarrow> u8 \<Rightarrow> 'w teecd \<Rightarrow> (u8 \<times> 'w teecd) option" where
  "hash_files os [] count s = Some (count, s)"
| "hash_files os (f # fl) count s =
     (let (ex, s) = IsFileExist_tcu os f s
      in if \<not> ex then hash_files os fl count s
         else do {
           (setRet, s) \<leftarrow> TeeSetNativeCaHash os f s;
           hash_files os fl (if setRet \<noteq> 0 then count else count + 1) s
         })"

definition TcuAuthentication :: "'w dmos \<Rightarrow> u8 \<Rightarrow> 'w teecd \<Rightarrow> (int \<times> 'w teecd) option" where
  "TcuAuthentication os hash_type s = do {
     let hashFileList = GetCaHashFileList hash_type;
     (count, s) \<leftarrow> (if gHashXmlSetted s = 0 then hash_files os hashFileList 0 s else Some (0, s));
     if count = of_nat (length hashFileList) then Some (0, s\<lparr>gHashXmlSetted := 1\<rparr>) else Some (- 1, s)
   }"

section \<open>The certificate\<close>

text \<open>
  The certificate of a client: the length of the name, the name, the length of the user id, the user
  id, and zeros up to the end of the buffer; and how the driver reads it back.
\<close>

definition native_cert :: "string \<Rightarrow> u32 \<Rightarrow> u8 list" where
  "native_cert name uid =
     (let c = le_bytes (of_nat (length name)) @ map byte_of name @ le_bytes 4 @ le_bytes uid
      in c @ replicate (BUF_MAX_SIZE - length c) 0)"

definition read_cert :: "u8 list \<Rightarrow> (string \<times> u32) option" where
  "read_cert bs = do {
     n \<leftarrow> get_u32 bs 0;
     name \<leftarrow> get_bytes bs 4 (unat n);
     k \<leftarrow> get_u32 bs (4 + unat n);
     if k \<noteq> 4 then None
     else do { uid \<leftarrow> get_u32 bs (8 + unat n); Some (map chr_of name, uid) }
   }"

lemma get_u32_at: "get_u32 (pre @ le_bytes w @ zs) (length pre) = Some w"
  using le_field_le_bytes [of "length pre" pre w zs] by (simp add: get_u32_def)

lemma get_u32_at': "n = length pre \<Longrightarrow> get_u32 (pre @ le_bytes w @ zs) n = Some w"
  by (simp add: get_u32_at)

lemma chr_of_byte_of_map: "map (chr_of \<circ> byte_of) t = t"
  by (simp add: comp_def)

lemma read_native_cert:
  assumes "length name \<le> BUF_MAX_SIZE - 12"
  shows "read_cert (native_cert name uid) = Some (name, uid)" and "length (native_cert name uid) = BUF_MAX_SIZE"
proof -
  show "length (native_cert name uid) = BUF_MAX_SIZE" using assms by (simp add: native_cert_def)
  let ?n = "of_nat (length name) :: u32"
  let ?z = "replicate (BUF_MAX_SIZE - (12 + length name)) (0 :: u8)"
  have n: "unat ?n = length name" using assms by (simp add: unat_of_nat take_bit_nat_eq_self)
  have c: "native_cert name uid = le_bytes ?n @ map byte_of name @ le_bytes 4 @ le_bytes uid @ ?z"
    by (simp add: native_cert_def add.commute)
  have 1: "get_u32 (native_cert name uid) 0 = Some ?n"
    unfolding c using get_u32_at' [of 0 "[]" ?n] by simp
  have 2: "get_bytes (native_cert name uid) 4 (length name) = Some (map byte_of name)"
    unfolding c by (simp add: get_bytes_def)
  have 3: "get_u32 (native_cert name uid) (4 + length name) = Some 4"
    unfolding c using get_u32_at' [of "4 + length name" "le_bytes ?n @ map byte_of name" 4] by simp
  have 4: "get_u32 (native_cert name uid) (8 + length name) = Some uid"
    unfolding c using get_u32_at' [of "8 + length name" "le_bytes ?n @ map byte_of name @ le_bytes 4" uid] by simp
  show "read_cert (native_cert name uid) = Some (name, uid)"
    by (simp add: read_cert_def 1 2 3 4 n chr_of_byte_of_map)
qed

text \<open>The name is the first string of what was read from the command line.\<close>

definition first_string :: "u8 list \<Rightarrow> string" where
  "first_string bs = map chr_of (takeWhile (\<lambda>b. b \<noteq> 0) bs)"

text \<open>The result \<open>r\<close> and name \<open>n\<close> of a look-up, and the events it adds.\<close>

definition name_found :: "'w dmos \<Rightarrow> string \<Rightarrow> bool" where
  "name_found os n \<longleftrightarrow> (\<exists>f w. n = first_string (fst (px_fread os f (CMD_MAX_SIZE - 1) w))) \<and> length n < MAX_PATH_LENGTH - 1"

lemma takeWhile_pad: "takeWhile (\<lambda>b. b \<noteq> 0) (bs @ replicate k 0) = takeWhile (\<lambda>b. b \<noteq> (0 :: u8)) bs"
  by (induction bs) (auto simp: takeWhile_eq_Nil_iff)

lemma ReadCmdLine_ok:
  assumes sc: "securec_ok sc" and os: "daemon_os_ok os"
  obtains r n w where "ReadCmdLine sc os path CMD_MAX_SIZE MAX_PATH_LENGTH s =
      Some ((r, n), s\<lparr>dtrace := Fopen path # dtrace s, dworld := w\<rparr>)"
    and "r < 0 \<or> name_found os n"
proof (cases rule: dfopen_cases [OF os, of path "''rb''" s])
  case (1 w)
  then show thesis by (intro that [of "- 1" "[]" w]) (simp_all add: ReadCmdLine_def)
next
  case (2 f d w)
  let ?s = "s\<lparr>dstreams := (dstreams s)(f \<mapsto> d), dtrace := Fopen path # dtrace s, dworld := w\<rparr>"
  have un: "(dstreams s)(f := None) = dstreams s" using 2 by auto
  have st: "dstreams ?s f = Some d" by simp
  then obtain bs w1 where r: "on_dstream f (px_fread os f 1023) ?s = Some (bs, ?s\<lparr>dworld := w1\<rparr>)"
    and rd: "px_fread os f 1023 (dworld ?s) = (bs, w1)" by (rule on_dstreamE)
  have "\<forall>f n w. length (fst (px_fread os f n w)) \<le> n" using os by (simp add: daemon_os_ok_def fread_ok_def)
  then have bs: "length bs \<le> 1023" using rd by (metis fst_conv)
  have st1: "dstreams (?s\<lparr>dworld := w1\<rparr>) f = Some d" by simp
  obtain err w2 where e: "read_error os f bs (?s\<lparr>dworld := w1\<rparr>) = Some (err, ?s\<lparr>dworld := w2\<rparr>)"
  proof (cases "bs = []")
    case True
    then show thesis by (intro that [of True w1]) (simp add: read_error_def)
  next
    case False
    obtain b w2 where "on_dstream f (dm_ferror os f) (?s\<lparr>dworld := w1\<rparr>) = Some (b, ?s\<lparr>dworld := w1, dworld := w2\<rparr>)"
      using st1 by (rule on_dstreamE)
    with False show thesis by (intro that [of b w2]) (simp add: read_error_def)
  qed
  have "dstreams (?s\<lparr>dworld := w2\<rparr>) f = Some d" by simp
  then obtain w3 where cl: "dfclose os f (?s\<lparr>dworld := w2\<rparr>) =
      Some (?s\<lparr>dworld := w2, dstreams := (dstreams (?s\<lparr>dworld := w2\<rparr>))(f := None), dworld := w3\<rparr>)" by (rule dfcloseE)
  have cl': "dfclose os f (?s\<lparr>dworld := w2\<rparr>) = Some (s\<lparr>dtrace := Fopen path # dtrace s, dworld := w3\<rparr>)"
    unfolding cl by (simp add: un)
  have pad: "put_bytes (replicate 1024 0) 0 bs = Some (bs @ replicate (1024 - length bs) 0)"
    using bs by (simp add: put_bytes_def)
  let ?first = "first_string bs"
  have first: "map chr_of (takeWhile (\<lambda>b. b \<noteq> 0) (take 1023 (bs @ replicate (1024 - length bs) 0))) = ?first"
    using bs by (simp add: first_string_def takeWhile_pad)
  show thesis
  proof (cases err)
    case True
    have "ReadCmdLine sc os path CMD_MAX_SIZE MAX_PATH_LENGTH s = Some ((- 1, []), s\<lparr>dtrace := Fopen path # dtrace s, dworld := w3\<rparr>)"
      using 2 r e cl' pad True by (simp add: ReadCmdLine_def)
    then show thesis by (rule that) simp
  next
    case False
    obtain c n where cp: "strncpy_s sc 255 ?first (length ?first) = (c, n)" by force
    show thesis
    proof (cases "c = 0")
      case True
      with cp have n: "n = ?first" "length ?first < 255" using strncpy_s_ok(1) [OF sc, of 255 ?first "length ?first" n] by simp_all
      have "ReadCmdLine sc os path CMD_MAX_SIZE MAX_PATH_LENGTH s = Some ((int (length bs), n), s\<lparr>dtrace := Fopen path # dtrace s, dworld := w3\<rparr>)"
        using 2 r e cl' pad False first cp True by (simp add: ReadCmdLine_def del: take_append)
      moreover have "name_found os n" unfolding name_found_def using n rd by (simp, metis fst_conv)
      ultimately show thesis by (intro that [of _ n w3]) simp_all
    next
      case c: False
      have "ReadCmdLine sc os path CMD_MAX_SIZE MAX_PATH_LENGTH s = Some ((- 1, []), s\<lparr>dtrace := Fopen path # dtrace s, dworld := w3\<rparr>)"
        using 2 r e cl' pad False first cp c by (simp add: ReadCmdLine_def del: take_append)
      then show thesis by (rule that) simp
    qed
  qed
qed

lemma TeeGetPkgName_ok:
  assumes sc: "securec_ok sc" and os: "daemon_os_ok os"
  obtains r n tr w where "TeeGetPkgName sc os pid MAX_PATH_LENGTH s = Some ((r, n), s\<lparr>dtrace := tr @ dtrace s, dworld := w\<rparr>)"
    and "r = 0 \<Longrightarrow> name_found os n \<and> tr = [Fopen (cmdline pid)]" and "tr = [] \<or> tr = [Fopen (cmdline pid)]"
proof -
  obtain q p where q: "snprintf_s sc MAX_PATH_LENGTH (MAX_PATH_LENGTH - 1) (cmdline pid) = (q, p)" by force
  show thesis
  proof (cases "q = - 1")
    case True
    then have "TeeGetPkgName sc os pid MAX_PATH_LENGTH s = Some ((- 1, []), s\<lparr>dtrace := [] @ dtrace s, dworld := dworld s\<rparr>)"
      using q by (simp add: TeeGetPkgName_def TeeGetCaName_def)
    then show thesis by (rule that) simp_all
  next
    case False
    then have p: "p = cmdline pid" using snprintf_s_ok(2) [OF sc, of MAX_PATH_LENGTH "MAX_PATH_LENGTH - 1" "cmdline pid"] q by simp
    obtain r n w where rc: "ReadCmdLine sc os p CMD_MAX_SIZE MAX_PATH_LENGTH s =
        Some ((r, n), s\<lparr>dtrace := Fopen p # dtrace s, dworld := w\<rparr>)" and nf: "r < 0 \<or> name_found os n"
      by (rule ReadCmdLine_ok [OF sc os, of p s]) (rule that)
    have "TeeGetPkgName sc os pid MAX_PATH_LENGTH s =
        Some ((if r < 0 then - 1 else 0, n), s\<lparr>dtrace := [Fopen p] @ dtrace s, dworld := w\<rparr>)"
      using q False rc by (simp add: TeeGetPkgName_def TeeGetCaName_def)
    then show thesis by (rule that) (use nf p in \<open>auto split: if_splits\<close>)
  qed
qed

text \<open>
  A field of the certificate: the buffer ends where the space left ends, so that what the code
  checks keeps every copy inside.
\<close>

lemma put_bytes_at:
  "length pre = off \<Longrightarrow> length xs \<le> length zs \<Longrightarrow> put_bytes (pre @ zs) off xs = Some (pre @ xs @ drop (length xs) zs)"
  by (simp add: put_bytes_def)

lemma SetPathToBuf_ok:
  assumes len: "length buf = unat n" and path: "length path < 2 ^ 32"
  obtains r buf' l' n' w where "SetPathToBuf os buf 0 l n path s = Some ((r, buf', l', n'), s\<lparr>dworld := w\<rparr>)"
    and "length buf' = length buf"
    and "r = 0 \<Longrightarrow> 4 + length path \<le> length buf \<and> n' = n - 4 - of_nat (length path) \<and> l' = l + 4 + of_nat (length path) \<and>
      buf' = le_bytes (of_nat (length path)) @ map byte_of path @ drop (4 + length path) buf"
proof -
  let ?num = "of_nat (length path) :: u32"
  have num: "unat ?num = length path" using path by (simp add: unat_of_nat take_bit_nat_eq_self)
  show thesis
  proof (cases "n < 4")
    case True
    then have "SetPathToBuf os buf 0 l n path s = Some ((- 1, buf, l, n), s\<lparr>dworld := dworld s\<rparr>)" by (simp add: SetPathToBuf_def)
    then show thesis by (rule that) simp_all
  next
    case n4: False
    then have le4: "4 \<le> length buf" by (simp add: len word_less_nat_alt not_less)
    obtain rc w where c: "dcall (dm_memcpy_s os (unat n) 4) s = (rc, s\<lparr>dworld := w\<rparr>)" by (rule dcallE)
    show thesis
    proof (cases "rc = EOK")
      case False
      then have "SetPathToBuf os buf 0 l n path s = Some ((rc, buf, l, n), s\<lparr>dworld := w\<rparr>)" using c n4 by (simp add: SetPathToBuf_def)
      then show thesis by (rule that) (use False in simp_all)
    next
      case rc: True
      let ?b1 = "le_bytes ?num @ drop 4 buf"
      have b1: "put_u32 buf 0 ?num = Some ?b1" using le4 by (simp add: put_u32_def put_bytes_def)
      have n4': "unat (n - 4) = length buf - 4" using n4 by (simp add: len unat_sub_if' word_less_nat_alt not_less)
      show thesis
      proof (cases "?num > n - 4")
        case True
        then have "SetPathToBuf os buf 0 l n path s = Some ((- 1, ?b1, l + 4, n - 4), s\<lparr>dworld := w\<rparr>)"
          using c n4 rc b1 by (simp add: SetPathToBuf_def)
        then show thesis by (rule that) (use le4 in simp_all)
      next
        case False
        then have fit: "length path \<le> length buf - 4" by (simp add: word_less_nat_alt not_less num n4')
        obtain rc2 w2 where c2: "dcall (dm_memcpy_s os (unat (n - 4)) (length path)) (s\<lparr>dworld := w\<rparr>) = (rc2, s\<lparr>dworld := w2\<rparr>)"
          by (rule dcallE [of "dm_memcpy_s os (unat (n - 4)) (length path)" "s\<lparr>dworld := w\<rparr>"]) simp
        show thesis
        proof (cases "rc2 = EOK")
          case r2: False
          then have "SetPathToBuf os buf 0 l n path s = Some ((rc2, ?b1, l + 4, n - 4), s\<lparr>dworld := w2\<rparr>)"
            using c c2 n4 rc b1 False num by (simp add: SetPathToBuf_def)
          then show thesis by (rule that) (use le4 r2 in simp_all)
        next
          case r2: True
          have "put_bytes ?b1 4 (map byte_of path) = Some (le_bytes ?num @ map byte_of path @ drop (4 + length path) buf)"
            using fit by (subst put_bytes_at) (simp_all add: add.commute)
          then have "SetPathToBuf os buf 0 l n path s = Some ((0, le_bytes ?num @ map byte_of path @ drop (4 + length path) buf,
              l + 4 + ?num, n - 4 - ?num), s\<lparr>dworld := w2\<rparr>)"
            using c c2 n4 rc b1 False num r2 by (simp add: SetPathToBuf_def Let_def)
          then show thesis by (rule that) (use le4 fit in simp_all)
        qed
      qed
    qed
  qed
qed

lemma SetUidToBuf_ok:
  assumes len: "length zs = unat n"
  obtains r buf' l' n' w where "SetUidToBuf os (pre @ zs) (length pre) l n uid s = Some ((r, buf', l', n'), s\<lparr>dworld := w\<rparr>)"
    and "length buf' = length (pre @ zs)"
    and "r = 0 \<Longrightarrow> 8 \<le> length zs \<and> l' = l + 8 \<and> buf' = pre @ le_bytes 4 @ le_bytes uid @ drop 8 zs"
proof -
  show thesis
  proof (cases "n < 4")
    case True
    then have "SetUidToBuf os (pre @ zs) (length pre) l n uid s = Some ((- 1, pre @ zs, l, n), s\<lparr>dworld := dworld s\<rparr>)"
      by (simp add: SetUidToBuf_def)
    then show thesis by (rule that) simp_all
  next
    case n4: False
    then have le4: "4 \<le> length zs" by (simp add: len word_less_nat_alt not_less)
    obtain rc w where c: "dcall (dm_memcpy_s os (unat n) 4) s = (rc, s\<lparr>dworld := w\<rparr>)" by (rule dcallE)
    show thesis
    proof (cases "rc = EOK")
      case False
      then have "SetUidToBuf os (pre @ zs) (length pre) l n uid s = Some ((rc, pre @ zs, l, n), s\<lparr>dworld := w\<rparr>)"
        using c n4 by (simp add: SetUidToBuf_def)
      then show thesis by (rule that) (use False in simp_all)
    next
      case rc: True
      let ?b1 = "pre @ le_bytes 4 @ drop 4 zs"
      have b1: "put_u32 (pre @ zs) (length pre) 4 = Some ?b1" unfolding put_u32_def using le4 by (subst put_bytes_at) simp_all
      have n4': "unat (n - 4) = length zs - 4" using n4 by (simp add: len unat_sub_if' word_less_nat_alt not_less)
      show thesis
      proof (cases "4 > n - 4")
        case True
        then have "SetUidToBuf os (pre @ zs) (length pre) l n uid s = Some ((- 1, ?b1, l + 4, n - 4), s\<lparr>dworld := w\<rparr>)"
          using c n4 rc b1 by (simp add: SetUidToBuf_def)
        then show thesis by (rule that) (use le4 in simp_all)
      next
        case False
        then have fit: "8 \<le> length zs" using le4 by (simp add: word_less_nat_alt not_less n4')
        obtain rc2 w2 where c2: "dcall (dm_memcpy_s os (unat (n - 4)) 4) (s\<lparr>dworld := w\<rparr>) = (rc2, s\<lparr>dworld := w2\<rparr>)"
          by (rule dcallE [of "dm_memcpy_s os (unat (n - 4)) 4" "s\<lparr>dworld := w\<rparr>"]) simp
        show thesis
        proof (cases "rc2 = EOK")
          case r2: False
          then have "SetUidToBuf os (pre @ zs) (length pre) l n uid s = Some ((rc2, ?b1, l + 4, n - 4), s\<lparr>dworld := w2\<rparr>)"
            using c c2 n4 rc b1 False by (simp add: SetUidToBuf_def)
          then show thesis by (rule that) (use le4 r2 in simp_all)
        next
          case r2: True
          have "put_u32 ?b1 (length pre + 4) uid = Some (pre @ le_bytes 4 @ le_bytes uid @ drop 8 zs)"
            unfolding put_u32_def append_assoc [symmetric] using fit by (subst put_bytes_at) simp_all
          then have "SetUidToBuf os (pre @ zs) (length pre) l n uid s =
              Some ((0, pre @ le_bytes 4 @ le_bytes uid @ drop 8 zs, l + 4 + 4, n - 4), s\<lparr>dworld := w2\<rparr>)"
            using c c2 n4 rc b1 False r2 by (simp add: SetUidToBuf_def)
          then show thesis by (rule that) (use fit in simp_all)
        qed
      qed
    qed
  qed
qed

lemma TeeGetNativeCert_ok:
  assumes sc: "securec_ok sc" and os: "daemon_os_ok os"
  obtains r buf l tr w where "TeeGetNativeCert sc os pid uid (of_nat BUF_MAX_SIZE) (replicate BUF_MAX_SIZE 0) s =
      Some ((r, buf, l), s\<lparr>dtrace := tr @ dtrace s, dworld := w\<rparr>)"
    and "length buf = BUF_MAX_SIZE" and "tr = [] \<or> tr = [Fopen (cmdline pid)]"
    and "r = 0 \<Longrightarrow> \<exists>name. name_found os name \<and> buf = native_cert name uid \<and> unat l = 12 + length name \<and> tr = [Fopen (cmdline pid)]"
proof -
  let ?z = "replicate BUF_MAX_SIZE (0 :: u8)"
  obtain r n tr w where g: "TeeGetPkgName sc os pid MAX_PATH_LENGTH s = Some ((r, n), s\<lparr>dtrace := tr @ dtrace s, dworld := w\<rparr>)"
    and nm: "r = 0 \<Longrightarrow> name_found os n \<and> tr = [Fopen (cmdline pid)]" and tr: "tr = [] \<or> tr = [Fopen (cmdline pid)]"
    by (rule TeeGetPkgName_ok [OF sc os, of pid s]) (rule that)
  let ?s1 = "s\<lparr>dtrace := tr @ dtrace s, dworld := w\<rparr>"
  show thesis
  proof (cases "r = 0")
    case False
    then have "TeeGetNativeCert sc os pid uid (of_nat BUF_MAX_SIZE) ?z s = Some ((r, ?z, of_nat BUF_MAX_SIZE), ?s1)"
      using g by (simp add: TeeGetNativeCert_def)
    then show thesis by (rule that) (use False tr in simp_all)
  next
    case True
    with nm have nf: "name_found os n" and t: "tr = [Fopen (cmdline pid)]" by auto
    then have ln: "length n < 255" by (simp add: name_found_def)
    have zl: "length ?z = unat (of_nat BUF_MAX_SIZE :: u32)" by simp
    have nl: "length n < 2 ^ 32" using ln by simp
    obtain q buf l k w2 where p: "SetPathToBuf os ?z 0 0 (of_nat BUF_MAX_SIZE) n ?s1 = Some ((q, buf, l, k), ?s1\<lparr>dworld := w2\<rparr>)"
      and lb: "length buf = length ?z" and pq: "q = 0 \<Longrightarrow> 4 + length n \<le> length ?z \<and> k = of_nat BUF_MAX_SIZE - 4 - of_nat (length n) \<and>
        l = 0 + 4 + of_nat (length n) \<and> buf = le_bytes (of_nat (length n)) @ map byte_of n @ drop (4 + length n) ?z"
      by (rule SetPathToBuf_ok [OF zl nl, of os 0 ?s1]) (rule that)
    show thesis
    proof (cases "q = 0")
      case False
      then have "TeeGetNativeCert sc os pid uid (of_nat BUF_MAX_SIZE) ?z s = Some ((q, buf, l), s\<lparr>dtrace := tr @ dtrace s, dworld := w2\<rparr>)"
        using g True p by (simp add: TeeGetNativeCert_def)
      then show thesis by (rule that) (use False lb tr in simp_all)
    next
      case q0: True
      let ?pre = "le_bytes (of_nat (length n)) @ map byte_of n"
      let ?zs = "drop (4 + length n) ?z"
      have buf: "buf = ?pre @ ?zs" and l: "l = 4 + of_nat (length n)" and k: "k = of_nat BUF_MAX_SIZE - 4 - of_nat (length n)"
        using pq q0 by simp_all
      have un: "unat (of_nat (length n) :: u32) = length n" using ln by (simp add: unat_of_nat take_bit_nat_eq_self)
      have kk: "k = of_nat (BUF_MAX_SIZE - 4 - length n)" unfolding k using ln by (simp add: of_nat_diff)
      have "unat k = BUF_MAX_SIZE - 4 - length n"
        unfolding kk unat_of_nat by (rule mod_less) simp
      then have ku: "length ?zs = unat k" by simp
      obtain q2 buf2 l2 k2 w3 where u: "SetUidToBuf os (?pre @ ?zs) (length ?pre) l k uid (?s1\<lparr>dworld := w2\<rparr>) =
          Some ((q2, buf2, l2, k2), ?s1\<lparr>dworld := w2, dworld := w3\<rparr>)"
        and lb2: "length buf2 = length (?pre @ ?zs)"
        and uq: "q2 = 0 \<Longrightarrow> 8 \<le> length ?zs \<and> l2 = l + 8 \<and> buf2 = ?pre @ le_bytes 4 @ le_bytes uid @ drop 8 ?zs"
        by (rule SetUidToBuf_ok [OF ku, of os ?pre l uid "?s1\<lparr>dworld := w2\<rparr>"]) (rule that)
      have run: "TeeGetNativeCert sc os pid uid (of_nat BUF_MAX_SIZE) ?z s = Some ((q2, buf2, l2), s\<lparr>dtrace := tr @ dtrace s, dworld := w3\<rparr>)"
        using g True p q0 u buf by (simp add: TeeGetNativeCert_def del: replicate_Suc drop_replicate)
      have cert: "\<exists>name. name_found os name \<and> buf2 = native_cert name uid \<and> unat l2 = 12 + length name \<and> tr = [Fopen (cmdline pid)]" if "q2 = 0"
      proof (intro exI [of _ n] conjI)
        show "buf2 = native_cert n uid" using uq [OF that] ln by (simp add: native_cert_def)
        have "l2 = of_nat (12 + length n)" using uq [OF that] l by simp
        then show "unat l2 = 12 + length n" using ln by (simp add: unat_of_nat take_bit_nat_eq_self del: of_nat_add)
      qed (use nf t in simp_all)
      show thesis by (rule that [OF run _ tr cert]) (use lb lb2 buf in simp_all)
    qed
  qed
qed

section \<open>Hash lists leak nothing\<close>

text \<open>The events of \<open>TcuAuthentication\<close>; a list is sent in a buffer of at most 16 KiB.\<close>

definition hash_ev :: "devent \<Rightarrow> bool" where
  "hash_ev e \<longleftrightarrow> (\<exists>p. e = Fopen p) \<or> (\<exists>fd. e = Opened TC_PRIVATE_DEV_NAME fd \<or> e = Closed fd) \<or>
     (\<exists>fd bs r. e = Ioctl fd (SET_NATIVE_IDENTITY bs) r \<and> 4 \<le> length bs \<and> int (length bs) \<le> HASH_FILE_MAX_SIZE)"

lemma hash_ev_intros [simp]:
  "hash_ev (Fopen p)" "hash_ev (Opened TC_PRIVATE_DEV_NAME fd)" "hash_ev (Closed fd)"
  "hash_ev (Ioctl fd (SET_NATIVE_IDENTITY bs) r) \<longleftrightarrow> 4 \<le> length bs \<and> int (length bs) \<le> HASH_FILE_MAX_SIZE"
  by (auto simp: hash_ev_def)

text \<open>Reading a file opens it and nothing else.\<close>

definition fopen_ev :: "devent \<Rightarrow> bool" where
  "fopen_ev e \<longleftrightarrow> (\<exists>p. e = Fopen p)"

lemma fopen_ev_Fopen [simp]: "fopen_ev (Fopen p)"
  by (simp add: fopen_ev_def)

lemma hash_realpathE:
  obtains r w where "hash_realpath os path s = (r, s\<lparr>dworld := w\<rparr>)"
proof (cases "IsNotValidFname path \<or> length path > PATH_MAX")
  case True
  then show thesis by (intro that [of None "dworld s"]) (simp add: hash_realpath_def)
next
  case False
  obtain r w where "dcall (px_realpath os path) s = (r, s\<lparr>dworld := w\<rparr>)" by (rule dcallE)
  with False show thesis by (intro that [of r w]) (simp add: hash_realpath_def)
qed

definition sized :: "'w teecd \<Rightarrow> (int \<times> int) \<times> 'w teecd \<Rightarrow> bool" where
  "sized s = (\<lambda>((n, k), s'). dext fopen_ev s s' \<and> (n = - 1 \<or> 4 \<le> k \<and> k \<le> n))"

lemma sizedI: "list_all fopen_ev tr \<Longrightarrow> n = - 1 \<or> 4 \<le> k \<and> k \<le> n \<Longrightarrow> sized s ((n, k), s\<lparr>dtrace := tr @ dtrace s, dworld := w\<rparr>)"
  by (simp add: sized_def dextI)

lemma sized_world: "sized s ((- 1, k), s\<lparr>dworld := w\<rparr>)"
  using sizedI [of "[]" "- 1" k s w] by simp

lemma GetFileSize_ok:
  assumes os: "daemon_os_ok os"
  shows "ok (GetFileSize os path k s) (sized s)"
proof -
  obtain real w where h: "hash_realpath os path s = (real, s\<lparr>dworld := w\<rparr>)" by (rule hash_realpathE)
  show ?thesis
  proof (cases real)
    case None
    with h show ?thesis by (simp add: GetFileSize_def sized_world)
  next
    case (Some p)
    note real = this
    show ?thesis
    proof (cases rule: dfopen_cases [OF os, of p "''r''" "s\<lparr>dworld := w\<rparr>"])
      case (1 w1)
      then show ?thesis using h real sizedI [of "[Fopen p]" "- 1" k s w1] by (simp add: GetFileSize_def)
    next
      case (2 f d w1)
      define s1 where "s1 = s\<lparr>dstreams := (dstreams s)(f \<mapsto> d), dtrace := Fopen p # dtrace s, dworld := w1\<rparr>"
      have st: "dstreams s1 f = Some d" by (simp add: s1_def)
      have un: "(dstreams s)(f := None) = dstreams s" using 2 by auto
      have close: "\<exists>w'. dfclose os f (s1\<lparr>dworld := v\<rparr>) = Some (s\<lparr>dtrace := [Fopen p] @ dtrace s, dworld := w'\<rparr>)" for v
      proof -
        have "dstreams (s1\<lparr>dworld := v\<rparr>) f = Some d" using st by simp
        then obtain w' where "dfclose os f (s1\<lparr>dworld := v\<rparr>) =
            Some (s1\<lparr>dworld := v, dstreams := (dstreams (s1\<lparr>dworld := v\<rparr>))(f := None), dworld := w'\<rparr>)" by (rule dfcloseE)
        then show ?thesis by (simp add: s1_def un) blast
      qed
      have fail: "ok (dfclose os f (s1\<lparr>dworld := v\<rparr>)) (\<lambda>t. sized s ((- 1, k), t))" for v
        using close [of v] sizedI [of "[Fopen p]" "- 1" k s] by auto
      obtain r1 v1 where e1: "on_dstream f (px_fseek os f 0 whence_LAST) s1 = Some (r1, s1\<lparr>dworld := v1\<rparr>)"
        using st by (rule on_dstreamE)
      have st1: "dstreams (s1\<lparr>dworld := v\<rparr>) f = Some d" for v using st by simp
      obtain pos v2 where e2: "on_dstream f (px_ftell os f) (s1\<lparr>dworld := v1\<rparr>) = Some (pos, s1\<lparr>dworld := v1, dworld := v2\<rparr>)"
        using st1 by (rule on_dstreamE)
      obtain r3 v3 where e3: "on_dstream f (px_fseek os f 0 whence_SET) (s1\<lparr>dworld := v2\<rparr>) = Some (r3, s1\<lparr>dworld := v2, dworld := v3\<rparr>)"
        using st1 by (rule on_dstreamE)
      obtain bs v4 where e4: "on_dstream f (px_fread os f 4) (s1\<lparr>dworld := v3\<rparr>) = Some (bs, s1\<lparr>dworld := v3, dworld := v4\<rparr>)"
        using st1 by (rule on_dstreamE)
      let ?fs = "to_int pos" and ?x = "sint (le_field bs 0 4)"
      obtain w4 where c4: "dfclose os f (s1\<lparr>dworld := v4\<rparr>) = Some (s\<lparr>dtrace := [Fopen p] @ dtrace s, dworld := w4\<rparr>)" using close by blast
      have good: "sized s ((?x, ?fs), s\<lparr>dtrace := [Fopen p] @ dtrace s, dworld := w4\<rparr>)" if "4 \<le> ?fs" "?fs \<le> ?x"
        using that by (intro sizedI) simp_all
      have bad: "sized s ((- 1, k), s\<lparr>dtrace := [Fopen p] @ dtrace s, dworld := w4\<rparr>)" by (intro sizedI) simp_all
      have run: "GetFileSize os path k s = (if r1 < 0 then dfclose os f (s1\<lparr>dworld := v1\<rparr>) \<bind> (\<lambda>t. Some ((- 1, k), t))
          else if r3 < 0 \<or> ?fs < 4 then dfclose os f (s1\<lparr>dworld := v3\<rparr>) \<bind> (\<lambda>t. Some ((- 1, k), t))
          else dfclose os f (s1\<lparr>dworld := v4\<rparr>) \<bind> (\<lambda>t. if length bs \<noteq> 4 \<or> ?x < ?fs then Some ((- 1, k), t) else Some ((?x, ?fs), t)))"
        using h real 2 e1 e2 e3 e4 by (simp add: GetFileSize_def s1_def [symmetric] Let_def)
      show ?thesis
        unfolding run using fail [of v1] fail [of v3] c4 good bad by auto
    qed
  qed
qed

lemma InitTempBuf_cases:
  assumes os: "daemon_os_ok os"
  obtains w where "InitTempBuf os n s = Some (NULL, s\<lparr>dworld := w\<rparr>)"
  | a w where "a \<noteq> NULL" "dmem s a = None" "0 < n" "n \<le> HASH_FILE_MAX_SIZE"
      "InitTempBuf os n s = Some (a, s\<lparr>dmem := (dmem s)(a \<mapsto> replicate (nat n) 0), dworld := w\<rparr>)"
proof (cases "n \<le> 0 \<or> n > HASH_FILE_MAX_SIZE")
  case True
  then show ?thesis by (intro that(1) [of "dworld s"]) (simp add: InitTempBuf_def)
next
  case n: False
  show ?thesis
  proof (cases rule: dmalloc_cases [OF os, of "nat n" s])
    case (1 w)
    with n show ?thesis by (intro that(1) [of w]) (simp add: InitTempBuf_def)
  next
    case (2 a xs w)
    let ?s = "s\<lparr>dmem := (dmem s)(a \<mapsto> xs), dworld := w\<rparr>"
    have "dmem ?s a = Some xs" by simp
    then obtain rc ys w1 where z: "dzero os a ?s = Some (rc, ?s\<lparr>dmem := (dmem ?s)(a \<mapsto> ys), dworld := w1\<rparr>)"
      and ys: "length ys = length xs" "rc = EOK \<Longrightarrow> ys = replicate (length xs) 0" by (rule dzeroE) blast
    have un: "(dmem s)(a := None) = dmem s" using 2 by auto
    show ?thesis
    proof (cases "rc = EOK")
      case True
      with 2 n z ys show ?thesis by (intro that(2) [of a w1]) (simp_all add: InitTempBuf_def)
    next
      case False
      with 2 n z un show ?thesis by (intro that(1) [of w1]) (simp add: InitTempBuf_def dfree_def)
    qed
  qed
qed

lemma GetFileInfo_ok:
  assumes os: "daemon_os_ok os" and m: "dmem s a = Some xs" and k: "0 \<le> k" "k \<le> int (length xs)" "length xs \<le> 2 ^ 20"
  obtains r ys tr w where "GetFileInfo os k a path s = Some (r, s\<lparr>dmem := (dmem s)(a \<mapsto> ys), dtrace := tr @ dtrace s, dworld := w\<rparr>)"
    and "length ys = length xs" and "list_all fopen_ev tr"
proof -
  have same: "s\<lparr>dmem := (dmem s)(a \<mapsto> xs), dtrace := t, dworld := v\<rparr> = s\<lparr>dtrace := t, dworld := v\<rparr>" for t v
    using m by (simp add: fun_upd_idem)
  obtain real w where h: "hash_realpath os path s = (real, s\<lparr>dworld := w\<rparr>)" by (rule hash_realpathE)
  show thesis
  proof (cases "a = NULL")
    case True
    then have "GetFileInfo os k a path s = Some (- 1, s\<lparr>dmem := (dmem s)(a \<mapsto> xs), dtrace := [] @ dtrace s, dworld := dworld s\<rparr>)"
      unfolding same by (simp add: GetFileInfo_def)
    then show thesis by (rule that) simp_all
  next
    case a: False
    show thesis
    proof (cases "real = None \<or> k = 0")
      case True
      then have "GetFileInfo os k a path s = Some (- 1, s\<lparr>dmem := (dmem s)(a \<mapsto> xs), dtrace := [] @ dtrace s, dworld := w\<rparr>)"
        unfolding same using a h by (cases real) (simp_all add: GetFileInfo_def)
      then show thesis by (rule that) simp_all
    next
      case False
      then obtain p where real: "real = Some p" and k0: "k \<noteq> 0" by auto
      show thesis
      proof (cases rule: dfopen_cases [OF os, of p "''rb''" "s\<lparr>dworld := w\<rparr>"])
        case (1 w1)
        then have "GetFileInfo os k a path s = Some (- 1, s\<lparr>dmem := (dmem s)(a \<mapsto> xs), dtrace := [Fopen p] @ dtrace s, dworld := w1\<rparr>)"
          unfolding same using a h real k0 by (simp add: GetFileInfo_def)
        then show thesis by (rule that) simp_all
      next
        case (2 f d w1)
        let ?s = "s\<lparr>dstreams := (dstreams s)(f \<mapsto> d), dtrace := Fopen p # dtrace s, dworld := w1\<rparr>"
        have un: "(dstreams s)(f := None) = dstreams s" using 2 by auto
        have kn: "unat (uint32_of k) = nat k" using k by (simp add: uint32_of_def unat_eq_nat_uint uint_word_of_int)
        have "dstreams ?s f = Some d" by simp
        then obtain bs v where e: "on_dstream f (px_fread os f (nat k)) ?s = Some (bs, ?s\<lparr>dworld := v\<rparr>)"
          and rd: "px_fread os f (nat k) (dworld ?s) = (bs, v)" by (rule on_dstreamE)
        have "\<forall>f n w. length (fst (px_fread os f n w)) \<le> n" using os by (simp add: daemon_os_ok_def fread_ok_def)
        then have "length bs \<le> nat k" using rd by (metis fst_conv)
        then have bs: "length bs \<le> length xs" using k by simp
        let ?ys = "bs @ drop (length bs) xs"
        have wr: "dwrite a bs (?s\<lparr>dworld := v\<rparr>) = Some (?s\<lparr>dmem := (dmem s)(a \<mapsto> ?ys), dworld := v\<rparr>)"
          using m bs by (subst dwrite_live) simp_all
        let ?s2 = "?s\<lparr>dmem := (dmem s)(a \<mapsto> ?ys), dworld := v\<rparr>"
        have "dstreams ?s2 f = Some d" by simp
        then obtain v2 where cl: "dfclose os f ?s2 = Some (?s2\<lparr>dstreams := (dstreams ?s2)(f := None), dworld := v2\<rparr>)" by (rule dfcloseE)
        have "GetFileInfo os k a path s = Some (if int (length bs) \<noteq> k then - 1 else 0,
            s\<lparr>dmem := (dmem s)(a \<mapsto> ?ys), dtrace := [Fopen p] @ dtrace s, dworld := v2\<rparr>)"
          using a h real k0 2 e [folded kn] wr cl by (simp add: GetFileInfo_def un)
        then show thesis by (rule that) (use bs in simp_all)
      qed
    qed
  qed
qed

lemma ReadXmlFile_cases:
  assumes os: "daemon_os_ok os"
  obtains tr w where "ReadXmlFile os f s = Some (NULL, s\<lparr>dtrace := tr @ dtrace s, dworld := w\<rparr>)" "list_all fopen_ev tr"
  | a ys tr w where "a \<noteq> NULL" "dmem s a = None" "4 \<le> length ys" "int (length ys) \<le> HASH_FILE_MAX_SIZE" "list_all fopen_ev tr"
      "ReadXmlFile os f s = Some (a, s\<lparr>dmem := (dmem s)(a \<mapsto> ys), dtrace := tr @ dtrace s, dworld := w\<rparr>)"
proof -
  obtain n k tr w where g: "GetFileSize os f 0 s = Some ((n, k), s\<lparr>dtrace := tr @ dtrace s, dworld := w\<rparr>)"
    and tr: "list_all fopen_ev tr" and nk: "n = - 1 \<or> 4 \<le> k \<and> k \<le> n"
    using GetFileSize_ok [OF os, of f 0 s] by (auto simp: ok_iff sized_def elim!: dextE)
  let ?s = "s\<lparr>dtrace := tr @ dtrace s, dworld := w\<rparr>"
  show ?thesis
  proof (cases rule: InitTempBuf_cases [OF os, of n ?s])
    case (1 w1)
    with g tr show ?thesis by (intro that(1) [of w1 tr]) (simp_all add: ReadXmlFile_def)
  next
    case (2 a w1)
    let ?s1 = "s\<lparr>dmem := (dmem s)(a \<mapsto> replicate (nat n) 0), dtrace := tr @ dtrace s, dworld := w1\<rparr>"
    have m: "dmem ?s1 a = Some (replicate (nat n) 0)" by simp
    have k: "0 \<le> k" "k \<le> int (length (replicate (nat n) (0 :: u8)))" "length (replicate (nat n) (0 :: u8)) \<le> 2 ^ 20"
      using nk 2(3,4) by auto
    obtain r ys tr2 w2 where i: "GetFileInfo os k a f ?s1 =
        Some (r, ?s1\<lparr>dmem := (dmem ?s1)(a \<mapsto> ys), dtrace := tr2 @ dtrace ?s1, dworld := w2\<rparr>)"
      and ys: "length ys = length (replicate (nat n) (0 :: u8))" and t2: "list_all fopen_ev tr2"
      by (rule GetFileInfo_ok [OF os m k, of f]) (rule that)
    have un: "(dmem s)(a := None) = dmem s" using 2 by auto
    have "4 \<le> n" using nk 2(3) by auto
    then have ly: "4 \<le> length ys" "int (length ys) \<le> HASH_FILE_MAX_SIZE" using ys 2(4) by (simp_all add: le_nat_iff)
    show ?thesis
    proof (cases "r = 0")
      case True
      show ?thesis
        by (rule that(2) [of a ys "tr2 @ tr" w2]) (use True 2 g i ly tr t2 in \<open>simp_all add: ReadXmlFile_def\<close>)
    next
      case False
      then have "ReadXmlFile os f s = Some (NULL, s\<lparr>dtrace := (tr2 @ tr) @ dtrace s, dworld := w2\<rparr>)"
        using 2 g i un by (simp add: ReadXmlFile_def dfree_def)
      then show ?thesis by (rule that(1)) (use tr t2 in simp)
    qed
  qed
qed

text \<open>The number of hash lists that the driver accepted.\<close>

definition sent_hash :: "devent \<Rightarrow> bool" where
  "sent_hash e \<longleftrightarrow> (\<exists>fd bs. e = Ioctl fd (SET_NATIVE_IDENTITY bs) 0)"

definition hashes :: "devent list \<Rightarrow> nat" where
  "hashes tr = length (filter sent_hash tr)"

lemma hashes_simps [simp]:
  "hashes [] = 0" "hashes (tr @ tr') = hashes tr + hashes tr'"
  "hashes (Fopen p # tr) = hashes tr" "hashes (Opened p fd # tr) = hashes tr" "hashes (Closed fd # tr) = hashes tr"
  "hashes (Ioctl fd (SET_NATIVE_IDENTITY bs) r # tr) = (if r = 0 then Suc (hashes tr) else hashes tr)"
  by (auto simp: hashes_def sent_hash_def)

lemma fopen_ev_hashes: "list_all fopen_ev tr \<Longrightarrow> hashes tr = 0 \<and> list_all hash_ev tr"
  by (induction tr) (auto simp: fopen_ev_def)

lemma TeeSetNativeCaHash_ok:
  assumes os: "daemon_os_ok os"
  obtains r tr w where "TeeSetNativeCaHash os f s = Some (r, s\<lparr>dtrace := tr @ dtrace s, dworld := w\<rparr>)"
    and "list_all hash_ev tr" and "hashes tr = (if r = 0 then 1 else 0)"
proof (cases rule: ReadXmlFile_cases [OF os, of f s])
  case (1 tr w)
  then have "TeeSetNativeCaHash os f s = Some (- 1, s\<lparr>dtrace := tr @ dtrace s, dworld := w\<rparr>)" by (simp add: TeeSetNativeCaHash_def)
  then show thesis by (rule that) (use fopen_ev_hashes [OF 1(2)] in simp_all)
next
  case (2 a ys tr w)
  note tr = fopen_ev_hashes [OF 2(5)]
  let ?s = "s\<lparr>dmem := (dmem s)(a \<mapsto> ys), dtrace := tr @ dtrace s, dworld := w\<rparr>"
  have un: "(dmem s)(a := None) = dmem s" using 2 by auto
  show thesis
  proof (cases rule: dtee_open_cases [OF os, of TC_PRIVATE_DEV_NAME ?s])
    case o: (1 w1)
    then have "TeeSetNativeCaHash os f s = Some (- 1, s\<lparr>dtrace := tr @ dtrace s, dworld := w1\<rparr>)"
      using 2 un by (simp add: TeeSetNativeCaHash_def dfree_def)
    then show thesis by (rule that) (use tr in simp_all)
  next
    case o: (2 fd w1)
    let ?s1 = "?s\<lparr>dfds := insert fd (dfds s), dtrace := Opened TC_PRIVATE_DEV_NAME fd # tr @ dtrace s, dworld := w1\<rparr>"
    have "fd \<in> dfds ?s1" by simp
    then obtain r w2 where io: "dioctl os fd (SET_NATIVE_IDENTITY ys) ?s1 =
        Some (r, ?s1\<lparr>dtrace := Ioctl fd (SET_NATIVE_IDENTITY ys) r # dtrace ?s1, dworld := w2\<rparr>)" by (rule dioctlE)
    have fd: "fd \<notin> dfds s" using o by (simp add: dused_fd_def)
    let ?tr = "[Closed fd, Ioctl fd (SET_NATIVE_IDENTITY ys) r, Opened TC_PRIVATE_DEV_NAME fd] @ tr"
    have "TeeSetNativeCaHash os f s = Some (r, s\<lparr>dtrace := ?tr @ dtrace s, dworld := px_close os fd w2\<rparr>)"
      using 2 o io un fd by (simp add: TeeSetNativeCaHash_def dfree_def dtee_close_open)
    then show thesis by (rule that) (use tr 2 in simp_all)
  qed
qed

lemma hash_files_ok:
  assumes os: "daemon_os_ok os"
  shows "\<exists>k tr w. hash_files os fl c s = Some (c + of_nat k, s\<lparr>dtrace := tr @ dtrace s, dworld := w\<rparr>) \<and>
    list_all hash_ev tr \<and> hashes tr = k \<and> k \<le> length fl"
proof (induction fl arbitrary: c s)
  case Nil
  show ?case by (rule exI [of _ 0], rule exI [of _ "[]"], rule exI [of _ "dworld s"]) simp
next
  case (Cons f fl)
  obtain r w where e: "dcall (px_stat os f) s = (r, s\<lparr>dworld := w\<rparr>)" by (rule dcallE)
  then obtain ex where x: "IsFileExist_tcu os f s = (ex, s\<lparr>dworld := w\<rparr>)" by (simp add: IsFileExist_tcu_def)
  let ?s = "s\<lparr>dworld := w\<rparr>"
  show ?case
  proof (cases ex)
    case False
    from Cons.IH [of c ?s] obtain k tr w' where h: "hash_files os fl c ?s = Some (c + of_nat k, ?s\<lparr>dtrace := tr @ dtrace ?s, dworld := w'\<rparr>)"
      "list_all hash_ev tr" "hashes tr = k" "k \<le> length fl" by blast
    show ?thesis by (rule exI [of _ k], rule exI [of _ tr], rule exI [of _ w']) (use x False h in simp)
  next
    case True
    obtain q tr1 w1 where t: "TeeSetNativeCaHash os f ?s = Some (q, ?s\<lparr>dtrace := tr1 @ dtrace ?s, dworld := w1\<rparr>)"
      and t1: "list_all hash_ev tr1" "hashes tr1 = (if q = 0 then 1 else 0)"
      by (rule TeeSetNativeCaHash_ok [OF os, of f ?s]) (rule that)
    let ?s1 = "s\<lparr>dtrace := tr1 @ dtrace s, dworld := w1\<rparr>"
    let ?c = "if q \<noteq> 0 then c else c + 1"
    from Cons.IH [of ?c ?s1] obtain k tr w' where h: "hash_files os fl ?c ?s1 = Some (?c + of_nat k, ?s1\<lparr>dtrace := tr @ dtrace ?s1, dworld := w'\<rparr>)"
      "list_all hash_ev tr" "hashes tr = k" "k \<le> length fl" by blast
    show ?thesis
      by (rule exI [of _ "if q = 0 then Suc k else k"], rule exI [of _ "tr @ tr1"], rule exI [of _ w'])
        (use x True t t1 h in \<open>simp add: add.assoc split: if_splits\<close>)
  qed
qed

text \<open>The result of \<open>TcuAuthentication\<close>: 0 exactly if all lists were sent in this call.\<close>

definition hashed :: "u8 \<Rightarrow> 'w teecd \<Rightarrow> int \<times> 'w teecd \<Rightarrow> bool" where
  "hashed t s = (\<lambda>(r, s'). \<exists>b tr w. s' = s\<lparr>gHashXmlSetted := b, dtrace := tr @ dtrace s, dworld := w\<rparr> \<and> list_all hash_ev tr \<and>
     (if hashes tr = length (GetCaHashFileList t) then r = 0 \<and> b = 1 else r = - 1 \<and> b = gHashXmlSetted s))"

lemma TcuAuthentication_ok:
  assumes os: "daemon_os_ok os"
  shows "ok (TcuAuthentication os t s) (hashed t s)"
proof (cases "gHashXmlSetted s = 0")
  case True
  obtain k tr w where h: "hash_files os (GetCaHashFileList t) 0 s = Some (0 + of_nat k, s\<lparr>dtrace := tr @ dtrace s, dworld := w\<rparr>)"
    and tr: "list_all hash_ev tr" "hashes tr = k" "k \<le> length (GetCaHashFileList t)"
    using hash_files_ok [OF os, of "GetCaHashFileList t" 0 s] by blast
  have l: "length (GetCaHashFileList t) \<le> 4" by (simp add: GetCaHashFileList_def)
  have eq: "(of_nat k :: u8) = of_nat (length (GetCaHashFileList t)) \<longleftrightarrow> k = length (GetCaHashFileList t)"
    using l tr(3) by (simp add: word_of_nat_eq_iff take_bit_nat_eq_self)
  let ?b = "if k = length (GetCaHashFileList t) then 1 else gHashXmlSetted s"
  have "TcuAuthentication os t s = Some (if k = length (GetCaHashFileList t) then 0 else - 1,
      s\<lparr>gHashXmlSetted := ?b, dtrace := tr @ dtrace s, dworld := w\<rparr>)"
    using True h eq by (simp add: TcuAuthentication_def)
  then show ?thesis
    unfolding hashed_def by (simp only: ok_Some prod.case) (rule exI [of _ ?b], rule exI [of _ tr], rule exI [of _ w], use tr in simp)
next
  case False
  have l: "0 < length (GetCaHashFileList t)" "length (GetCaHashFileList t) \<le> 4" by (simp_all add: GetCaHashFileList_def)
  have "(of_nat (length (GetCaHashFileList t)) :: u8) \<noteq> 0" by (simp add: GetCaHashFileList_def)
  then have "TcuAuthentication os t s = Some (- 1, s)" using False by (simp add: TcuAuthentication_def)
  then show ?thesis
    unfolding hashed_def using l by (simp only: ok_Some prod.case) (rule exI [of _ "gHashXmlSetted s"], rule exI [of _ "[]"], rule exI [of _ "dworld s"], simp)
qed

end
