(* ===== verification/Teecd_Ca.thy ===== *)
theory Teecd_Ca
  imports Teecd_Auth
begin

text \<open>
  The thread of the daemon that serves client applications
  (\<open>src/services/teecd/src/tee_ca_auth.c\<close>, \<open>tee_ca_daemon.c\<close>): it accepts a connection, reads a message, logs a
  new descriptor of the driver in with the certificate of the peer, and sends the descriptor back.
\<close>

section \<open>Login\<close>

definition GetLoginInfo :: "securec \<Rightarrow> 'w dmos \<Rightarrow> ucred \<Rightarrow> int \<Rightarrow> addr \<Rightarrow> u32 \<Rightarrow> 'w teecd \<Rightarrow> (int \<times> 'w teecd) option" where
  "GetLoginInfo sc os cr fd buf bufLen s = do {
     bs \<leftarrow> dmem s buf;
     ((r, bs, _), s) \<leftarrow> TeeGetNativeCert sc os (uc_pid cr) (uc_uid cr) bufLen bs s;
     s \<leftarrow> dwrite buf bs s;
     if r \<noteq> 0 then do { (_, s) \<leftarrow> dioctl os fd (LOGIN None) s; Some (- 1, s) }
     else Some (r, s)
   }"

definition SendLoginInfo :: "securec \<Rightarrow> 'w dmos \<Rightarrow> ucred \<Rightarrow> addr \<Rightarrow> int \<Rightarrow> 'w teecd \<Rightarrow> (int \<times> 'w teecd) option" where
  "SendLoginInfo sc os cr caRevInfo fd s =
     (if caRevInfo = NULL then Some (- 1, s)
      else let (buf, s) = dmalloc os BUF_MAX_SIZE s
      in if buf = NULL then Some (- 1, s)
         else do {
           (r, s) \<leftarrow> dzero os buf s;
           (r, s) \<leftarrow> (if r \<noteq> EOK then Some (r, s)
             else do {
               (r, s) \<leftarrow> GetLoginInfo sc os cr fd buf (of_nat BUF_MAX_SIZE) s;
               if r \<noteq> 0 then Some (r, s)
               else do { bs \<leftarrow> dmem s buf; dioctl os fd (LOGIN (Some bs)) s }
             });
           s \<leftarrow> dfree buf s;
           Some (r, s)
         })"

section \<open>Messages\<close>

abbreviation (input) "sizeof_CaRevMsg \<equiv> (4112 :: nat)"
abbreviation (input) "g_version \<equiv> (0 :: u32)"

text \<open>Calls on a socket that is not open are undefined behaviour of the model.\<close>

definition on_sock :: "int \<Rightarrow> ('w \<Rightarrow> 'a \<times> 'w) \<Rightarrow> 'w teecd \<Rightarrow> ('a \<times> 'w teecd) option" where
  "on_sock d c s = (if d \<in> dfds s then Some (dcall c s) else None)"

definition RecvCaMsg :: "'w dmos \<Rightarrow> int \<Rightarrow> addr \<Rightarrow> 'w teecd \<Rightarrow> (int \<times> 'w teecd) option" where
  "RecvCaMsg os sock caInfo s =
     (if caInfo = NULL then Some (- 1, s)
      else let (rc, s) = dcall (dm_memset_s os) s
      in if rc \<noteq> EOK then Some (- 1, s)
         else do {
           (r, s) \<leftarrow> on_sock sock (dm_select os sock) s;
           if r \<le> 0 then Some (- 1, s)
           else do {
             ((r, bs), s) \<leftarrow> on_sock sock (dm_recvmsg os sock sizeof_CaRevMsg) s;
             s \<leftarrow> dwrite caInfo bs s;
             Some (if r \<le> 0 then - 1 else 0, s)
           }
         })"

definition InitMsg :: "u8 list \<Rightarrow> msghdr" where
  "InitMsg iov = \<lparr>mh_iov = iov, mh_rights = None\<rparr>"

text \<open>
  A descriptor travels as ancillary data beside one byte; for \<open>GET_TEEVERSION\<close> the number
  itself is the data and there is no ancillary data.
\<close>

definition SendFileDescriptor :: "'w dmos \<Rightarrow> int \<Rightarrow> int \<Rightarrow> int \<Rightarrow> 'w teecd \<Rightarrow> (int \<times> 'w teecd) option" where
  "SendFileDescriptor os cmd' sock fd s =
     (let (rc, s) = dcall (dm_memset_s os) s
      in if rc \<noteq> EOK then Some (rc, s)
         else let (rc, s) = dcall (dm_memset_s os) s
         in if rc \<noteq> EOK then Some (rc, s)
            else do {
              let hmsg = (InitMsg [byte_of (CHR '' '')])\<lparr>mh_rights := Some fd\<rparr>;
              let hmsg = (if cmd' = GET_TEEVERSION then hmsg\<lparr>mh_iov := le_bytes (uint32_of fd), mh_rights := None\<rparr> else hmsg);
              (r, s) \<leftarrow> on_sock sock (dm_sendmsg os sock hmsg) s;
              let s = note_ev (Sent sock hmsg r) s;
              Some (if r \<le> 0 then - 1 else 0, s)
            })"

definition ProcessCaMsg :: "securec \<Rightarrow> 'w dmos \<Rightarrow> ucred \<Rightarrow> addr \<Rightarrow> int \<Rightarrow> 'w teecd \<Rightarrow> (int \<times> 'w teecd) option" where
  "ProcessCaMsg sc os cr caInfo sock s = do {
     bs \<leftarrow> dmem s caInfo;
     c \<leftarrow> get_u32 bs 0;
     let cmd' = sint c;
     if cmd' = GET_TEEVERSION
     then do {
       (r, s) \<leftarrow> SendFileDescriptor os cmd' sock (sint g_version) s;
       Some (if r \<noteq> 0 then - 1 else 0, s)
     }
     else do {
       let (fd, s) = dtee_open os TC_NS_CLIENT_DEV_NAME s;
       if fd = - 1 then Some (- 1, s)
       else do {
         (r, s) \<leftarrow> SendLoginInfo sc os cr caInfo fd s;
         if r \<noteq> EOK then do { s \<leftarrow> dtee_close os fd s; Some (- 1, s) }
         else do {
           (r, s) \<leftarrow> SendFileDescriptor os cmd' sock fd s;
           s \<leftarrow> dtee_close os fd s;
           Some (if r \<noteq> EOK then - 1 else 0, s)
         }
       }
     }
   }"

section \<open>The server\<close>

text \<open>\<open>accept\<close>: a new connection is one more descriptor.\<close>

definition daccept :: "'w dmos \<Rightarrow> int \<Rightarrow> 'w teecd \<Rightarrow> (int \<times> 'w teecd) option" where
  "daccept os sock s = do {
     (s2, s) \<leftarrow> on_sock sock (dm_accept os (dused_fd s) sock) s;
     Some (if s2 = - 1 then (s2, s) else (s2, note_ev (Accepted s2) (s\<lparr>dfds := insert s2 (dfds s)\<rparr>)))
   }"

text \<open>One turn of the loop in \<open>ProcessAccept\<close>.\<close>

definition accept_round :: "securec \<Rightarrow> 'w dmos \<Rightarrow> int \<Rightarrow> addr \<Rightarrow> 'w teecd \<Rightarrow> 'w teecd option" where
  "accept_round sc os sock caInfo s = do {
     (s2, s) \<leftarrow> daccept os sock s;
     if s2 = - 1 then Some s
     else do {
       ((r, cr), s) \<leftarrow> on_sock s2 (dm_peercred os s2) s;
       if r < 0 then dclose os s2 s
       else do {
         let s = note_ev (Peer s2 cr) s;
         (r, s) \<leftarrow> RecvCaMsg os s2 caInfo s;
         s \<leftarrow> (if r \<noteq> 0 then Some s
              else do {
                s \<leftarrow> TrySyncSysTimeToSecure os s;
                (_, s) \<leftarrow> ProcessCaMsg sc os cr caInfo s2 s;
                Some s
              });
         s \<leftarrow> dclose os s2 s;
         (_, s) \<leftarrow> dzero os caInfo s;
         Some s
       }
     }
   }"

text \<open>The loop never ends, so no state is its result.\<close>

partial_function (option) ProcessAccept :: "securec \<Rightarrow> 'w dmos \<Rightarrow> int \<Rightarrow> addr \<Rightarrow> 'w teecd \<Rightarrow> 'w teecd option" where
  "ProcessAccept sc os sock caInfo s = accept_round sc os sock caInfo s \<bind> ProcessAccept sc os sock caInfo"

text \<open>
  The address: the family \<open>AF_UNIX\<close> and the name with its first character replaced by a zero byte,
  which makes it a name in the abstract name space.
\<close>

definition FormatSockAddr :: "securec \<Rightarrow> int \<times> u8 list" where
  "FormatSockAddr sc =
     (let (r, sun_path) = strncpy_s sc 108 TC_NS_SOCKET_NAME (length TC_NS_SOCKET_NAME + 1)
      in if r \<noteq> EOK then (r, []) else (0, [1, 0] @ (map byte_of sun_path)[0 := 0]))"

definition CreateSocket :: "securec \<Rightarrow> 'w dmos \<Rightarrow> 'w teecd \<Rightarrow> (int \<times> 'w teecd) option" where
  "CreateSocket sc os s =
     (let (d, s) = dcall (dm_socket os (dused_fd s)) s
      in if d < 0 then Some (- 1, s)
         else do {
           let s = s\<lparr>dfds := insert d (dfds s)\<rparr>;
           let (r, s) = dcall (dm_memset_s os) s;
           if r \<noteq> EOK then do { s \<leftarrow> dclose os d s; Some (- 1, s) }
           else do {
             let (r, local') = FormatSockAddr sc;
             if r \<noteq> EOK then do { s \<leftarrow> dclose os d s; Some (- 1, s) }
             else do {
               (r, s) \<leftarrow> on_sock d (dm_bind os d local') s;
               if r < 0 then do { s \<leftarrow> dclose os d s; Some (- 1, s) } else Some (d, s)
             }
           }
         })"

text \<open>
  \<open>CaServerWorkThread\<close> up to \<open>ProcessAccept\<close>: the listening socket and the message buffer, or
  nothing if the thread ends.
\<close>

definition server_start :: "securec \<Rightarrow> 'w dmos \<Rightarrow> 'w teecd \<Rightarrow> ((int \<times> addr) option \<times> 'w teecd) option" where
  "server_start sc os s = do {
     (d, s) \<leftarrow> CreateSocket sc os s;
     if d < 0 then Some (None, s)
     else do {
       (r, s) \<leftarrow> on_sock d (dm_listen os d BACKLOG_LEN) s;
       if r < 0 then do { s \<leftarrow> dclose os d s; Some (None, s) }
       else do {
         let (caInfo, s) = dmalloc os sizeof_CaRevMsg s;
         if caInfo = NULL then do { s \<leftarrow> dclose os d s; Some (None, s) }
         else do {
           (r, s) \<leftarrow> dzero os caInfo s;
           if r \<noteq> EOK then do { s \<leftarrow> dfree caInfo s; s \<leftarrow> dclose os d s; Some (None, s) }
           else Some (Some (d, caInfo), s)
         }
       }
     }
   }"

definition CaServerWorkThread :: "securec \<Rightarrow> 'w dmos \<Rightarrow> 'w teecd \<Rightarrow> 'w teecd option" where
  "CaServerWorkThread sc os s = do {
     (r, s) \<leftarrow> server_start sc os s;
     case r of
       None \<Rightarrow> Some s
     | Some (d, caInfo) \<Rightarrow> do {
         s \<leftarrow> ProcessAccept sc os d caInfo s;
         s \<leftarrow> dfree caInfo s;
         dclose os d s
       }
   }"

section \<open>What a client gets\<close>

text \<open>A descriptor is sent right after it was opened and logged in for the peer of the connection.\<close>

definition after_login :: "'w dmos \<Rightarrow> int \<Rightarrow> int \<Rightarrow> devent list \<Rightarrow> bool" where
  "after_login os sock fd es \<longleftrightarrow> (\<exists>cr name tr es'.
     es = Ioctl fd (LOGIN (Some (native_cert name (uc_uid cr)))) 0 # Fopen (cmdline (uc_pid cr)) #
          Opened TC_NS_CLIENT_DEV_NAME fd # tr @ Peer sock cr # Accepted sock # es' \<and>
     list_all time_ev tr \<and> name_found os name)"

fun authentic :: "'w dmos \<Rightarrow> devent list \<Rightarrow> bool" where
  "authentic os [] \<longleftrightarrow> True"
| "authentic os (Sent sock m q # es) \<longleftrightarrow> (\<forall>fd. mh_rights m = Some fd \<longrightarrow> after_login os sock fd es) \<and> authentic os es"
| "authentic os (_ # es) \<longleftrightarrow> authentic os es"

definition no_rights :: "devent \<Rightarrow> bool" where
  "no_rights e \<longleftrightarrow> (\<forall>sock m q. e = Sent sock m q \<longrightarrow> mh_rights m = None)"

lemma no_rights_simps [simp]:
  "no_rights (Ioctl fd req r)" "no_rights (Fopen p)" "no_rights (Opened p fd)" "no_rights (Accepted fd)" "no_rights (Peer fd cr)"
  "no_rights (Closed fd)" "no_rights (Sent sock m q) \<longleftrightarrow> mh_rights m = None"
  by (auto simp: no_rights_def)

lemma authentic_append: "list_all no_rights tr \<Longrightarrow> authentic os es \<Longrightarrow> authentic os (tr @ es)"
proof (induction tr)
  case (Cons e tr)
  then show ?case by (cases e) auto
qed simp

lemma authentic_sent:
  "authentic os (es1 @ Sent sock m q # es2) \<Longrightarrow> mh_rights m = Some fd \<Longrightarrow> after_login os sock fd es2"
proof (induction es1)
  case (Cons e es1)
  then show ?case by (cases e) auto
qed simp

lemma time_ev_no_rights: "list_all time_ev tr \<Longrightarrow> list_all no_rights tr"
  by (induction tr) (auto simp: time_ev_def)

section \<open>Login leaks nothing\<close>

definition login_ev :: "int \<Rightarrow> devent \<Rightarrow> bool" where
  "login_ev fd e \<longleftrightarrow> (\<exists>p. e = Fopen p) \<or> (\<exists>b r. e = Ioctl fd (LOGIN b) r)"

lemma login_ev_simps [simp]: "login_ev fd (Fopen p)" "login_ev fd (Ioctl fd (LOGIN b) r)"
  by (auto simp: login_ev_def)

lemma GetLoginInfo_ok:
  assumes sc: "securec_ok sc" and os: "daemon_os_ok os" and m: "dmem s buf = Some (replicate BUF_MAX_SIZE 0)" and fd: "fd \<in> dfds s"
  obtains r bs tr w where "GetLoginInfo sc os cr fd buf (of_nat BUF_MAX_SIZE) s =
      Some (r, s\<lparr>dmem := (dmem s)(buf \<mapsto> bs), dtrace := tr @ dtrace s, dworld := w\<rparr>)"
    and "list_all (login_ev fd) tr"
    and "r = 0 \<Longrightarrow> \<exists>name. name_found os name \<and> bs = native_cert name (uc_uid cr) \<and> tr = [Fopen (cmdline (uc_pid cr))]"
proof -
  let ?z = "replicate BUF_MAX_SIZE (0 :: u8)"
  obtain r bs l tr w where c: "TeeGetNativeCert sc os (uc_pid cr) (uc_uid cr) (of_nat BUF_MAX_SIZE) ?z s =
      Some ((r, bs, l), s\<lparr>dtrace := tr @ dtrace s, dworld := w\<rparr>)"
    and len: "length bs = BUF_MAX_SIZE" and tr: "tr = [] \<or> tr = [Fopen (cmdline (uc_pid cr))]"
    and cert: "r = 0 \<Longrightarrow> \<exists>name. name_found os name \<and> bs = native_cert name (uc_uid cr) \<and> unat l = 12 + length name \<and> tr = [Fopen (cmdline (uc_pid cr))]"
    by (rule TeeGetNativeCert_ok [OF sc os, of "uc_pid cr" "uc_uid cr" s]) (rule that)
  let ?s1 = "s\<lparr>dmem := (dmem s)(buf \<mapsto> bs), dtrace := tr @ dtrace s, dworld := w\<rparr>"
  have wr: "dwrite buf bs (s\<lparr>dtrace := tr @ dtrace s, dworld := w\<rparr>) = Some ?s1"
    using m len by (subst dwrite_live [where bs = ?z]) simp_all
  show thesis
  proof (cases "r = 0")
    case True
    then have "GetLoginInfo sc os cr fd buf (of_nat BUF_MAX_SIZE) s = Some (0, ?s1)" using m c wr by (simp add: GetLoginInfo_def)
    then show thesis by (rule that) (use tr cert True in auto)
  next
    case False
    have "fd \<in> dfds ?s1" using fd by simp
    then obtain q w2 where io: "dioctl os fd (LOGIN None) ?s1 = Some (q, ?s1\<lparr>dtrace := Ioctl fd (LOGIN None) q # dtrace ?s1, dworld := w2\<rparr>)"
      by (rule dioctlE)
    have "GetLoginInfo sc os cr fd buf (of_nat BUF_MAX_SIZE) s = Some (- 1, s\<lparr>dmem := (dmem s)(buf \<mapsto> bs),
        dtrace := (Ioctl fd (LOGIN None) q # tr) @ dtrace s, dworld := w2\<rparr>)"
      using m c wr False io by (simp add: GetLoginInfo_def)
    then show thesis by (rule that) (use tr in auto)
  qed
qed

lemma SendLoginInfo_ok:
  assumes sc: "securec_ok sc" and os: "daemon_os_ok os" and fd: "fd \<in> dfds s"
  obtains r tr w where "SendLoginInfo sc os cr a fd s = Some (r, s\<lparr>dtrace := tr @ dtrace s, dworld := w\<rparr>)"
    and "list_all (login_ev fd) tr"
    and "r = 0 \<Longrightarrow> \<exists>name. name_found os name \<and>
      tr = [Ioctl fd (LOGIN (Some (native_cert name (uc_uid cr)))) 0, Fopen (cmdline (uc_pid cr))]"
proof (cases "a = NULL")
  case True
  then have "SendLoginInfo sc os cr a fd s = Some (- 1, s\<lparr>dtrace := [] @ dtrace s, dworld := dworld s\<rparr>)" by (simp add: SendLoginInfo_def)
  then show thesis by (rule that) simp_all
next
  case a: False
  show thesis
  proof (cases rule: dmalloc_cases [OF os, of BUF_MAX_SIZE s])
    case (1 w)
    then have "SendLoginInfo sc os cr a fd s = Some (- 1, s\<lparr>dtrace := [] @ dtrace s, dworld := w\<rparr>)" using a by (simp add: SendLoginInfo_def)
    then show thesis by (rule that) simp_all
  next
    case (2 buf xs w)
    let ?s = "s\<lparr>dmem := (dmem s)(buf \<mapsto> xs), dworld := w\<rparr>"
    have "dmem ?s buf = Some xs" by simp
    then obtain rc ys w1 where z: "dzero os buf ?s = Some (rc, ?s\<lparr>dmem := (dmem ?s)(buf \<mapsto> ys), dworld := w1\<rparr>)"
      and ys: "length ys = length xs" "rc = EOK \<Longrightarrow> ys = replicate (length xs) 0" by (rule dzeroE) blast
    have un: "(dmem s)(buf := None) = dmem s" using 2 by auto
    show thesis
    proof (cases "rc = EOK")
      case False
      then have "SendLoginInfo sc os cr a fd s = Some (rc, s\<lparr>dtrace := [] @ dtrace s, dworld := w1\<rparr>)"
        using a 2 z un by (simp add: SendLoginInfo_def dfree_def)
      then show thesis by (rule that) (use False in simp_all)
    next
      case rc: True
      let ?s1 = "s\<lparr>dmem := (dmem s)(buf \<mapsto> replicate BUF_MAX_SIZE 0), dworld := w1\<rparr>"
      have s1: "dmem ?s1 buf = Some (replicate BUF_MAX_SIZE 0)" "fd \<in> dfds ?s1" using fd by simp_all
      obtain r bs tr w2 where g: "GetLoginInfo sc os cr fd buf (of_nat BUF_MAX_SIZE) ?s1 =
          Some (r, ?s1\<lparr>dmem := (dmem ?s1)(buf \<mapsto> bs), dtrace := tr @ dtrace ?s1, dworld := w2\<rparr>)"
        and tr: "list_all (login_ev fd) tr"
        and cert: "r = 0 \<Longrightarrow> \<exists>name. name_found os name \<and> bs = native_cert name (uc_uid cr) \<and> tr = [Fopen (cmdline (uc_pid cr))]"
        by (rule GetLoginInfo_ok [OF sc os s1, of cr]) (rule that)
      have z': "dzero os buf ?s = Some (0, ?s1)" using z ys rc 2 by simp
      show thesis
      proof (cases "r = 0")
        case False
        then have "SendLoginInfo sc os cr a fd s = Some (r, s\<lparr>dtrace := tr @ dtrace s, dworld := w2\<rparr>)"
          using a 2 z' g un by (simp add: SendLoginInfo_def dfree_def)
        then show thesis by (rule that) (use tr False in simp_all)
      next
        case True
        let ?s2 = "s\<lparr>dmem := (dmem s)(buf \<mapsto> bs), dtrace := tr @ dtrace s, dworld := w2\<rparr>"
        have "fd \<in> dfds ?s2" using fd by simp
        then obtain q w3 where io: "dioctl os fd (LOGIN (Some bs)) ?s2 = Some (q, ?s2\<lparr>dtrace := Ioctl fd (LOGIN (Some bs)) q # dtrace ?s2, dworld := w3\<rparr>)"
          by (rule dioctlE)
        have "SendLoginInfo sc os cr a fd s = Some (q, s\<lparr>dtrace := (Ioctl fd (LOGIN (Some bs)) q # tr) @ dtrace s, dworld := w3\<rparr>)"
          using a 2 z' g True io un by (simp add: SendLoginInfo_def dfree_def)
        then show thesis by (rule that) (use tr cert True in auto)
      qed
    qed
  qed
qed

section \<open>A connection leaks nothing\<close>

lemma on_sockE:
  assumes "d \<in> dfds s"
  obtains r w where "on_sock d c s = Some (r, s\<lparr>dworld := w\<rparr>)" and "c (dworld s) = (r, w)"
  using assms by (cases "c (dworld s)") (simp add: on_sock_def dcall_def)

text \<open>The reply: a descriptor beside one byte, or the version number.\<close>

definition reply :: "int \<Rightarrow> int \<Rightarrow> msghdr" where
  "reply c fd = (if c = GET_TEEVERSION then \<lparr>mh_iov = le_bytes (uint32_of fd), mh_rights = None\<rparr>
     else \<lparr>mh_iov = [byte_of (CHR '' '')], mh_rights = Some fd\<rparr>)"

lemma SendFileDescriptor_ok:
  assumes "sock \<in> dfds s"
  obtains r tr w where "SendFileDescriptor os c sock fd s = Some (r, s\<lparr>dtrace := tr @ dtrace s, dworld := w\<rparr>)"
    and "r \<noteq> 0 \<and> tr = [] \<or> (\<exists>q. tr = [Sent sock (reply c fd) q] \<and> (r = 0 \<longleftrightarrow> 0 < q))"
proof -
  obtain r1 w1 where c1: "dcall (dm_memset_s os) s = (r1, s\<lparr>dworld := w1\<rparr>)" by (rule dcallE)
  obtain r2 w2 where c2: "dcall (dm_memset_s os) (s\<lparr>dworld := w1\<rparr>) = (r2, s\<lparr>dworld := w2\<rparr>)"
    by (rule dcallE [of "dm_memset_s os" "s\<lparr>dworld := w1\<rparr>"]) simp
  have "sock \<in> dfds (s\<lparr>dworld := w2\<rparr>)" using assms by simp
  then obtain q w3 where m: "on_sock sock (dm_sendmsg os sock (reply c fd)) (s\<lparr>dworld := w2\<rparr>) = Some (q, s\<lparr>dworld := w2, dworld := w3\<rparr>)"
    by (rule on_sockE)
  show thesis
  proof (cases "r1 = EOK")
    case False
    then have "SendFileDescriptor os c sock fd s = Some (r1, s\<lparr>dtrace := [] @ dtrace s, dworld := w1\<rparr>)"
      using c1 by (simp add: SendFileDescriptor_def)
    then show thesis by (rule that) (use False in simp)
  next
    case r1: True
    show thesis
    proof (cases "r2 = EOK")
      case False
      then have "SendFileDescriptor os c sock fd s = Some (r2, s\<lparr>dtrace := [] @ dtrace s, dworld := w2\<rparr>)"
        using c1 c2 r1 by (simp add: SendFileDescriptor_def)
      then show thesis by (rule that) (use False in simp)
    next
      case True
      have "SendFileDescriptor os c sock fd s =
          Some (if q \<le> 0 then - 1 else 0, s\<lparr>dtrace := [Sent sock (reply c fd) q] @ dtrace s, dworld := w3\<rparr>)"
        using c1 c2 r1 True m
        by (cases "c = GET_TEEVERSION") (simp_all add: SendFileDescriptor_def InitMsg_def reply_def note_ev_def)
      then show thesis by (rule that) auto
    qed
  qed
qed

text \<open>The events of one message.\<close>

definition msg_trace :: "'w dmos \<Rightarrow> ucred \<Rightarrow> int \<Rightarrow> devent list \<Rightarrow> bool" where
  "msg_trace os cr sock tr \<longleftrightarrow> list_all no_rights tr \<or>
     (\<exists>fd name m q. mh_rights m = Some fd \<and> name_found os name \<and>
        tr = [Closed fd, Sent sock m q, Ioctl fd (LOGIN (Some (native_cert name (uc_uid cr)))) 0,
              Fopen (cmdline (uc_pid cr)), Opened TC_NS_CLIENT_DEV_NAME fd])"

lemma login_ev_no_rights: "list_all (login_ev fd) tr \<Longrightarrow> list_all no_rights tr"
  by (induction tr) (auto simp: login_ev_def)

lemma ProcessCaMsg_ok:
  assumes sc: "securec_ok sc" and os: "daemon_os_ok os" and m: "dmem s a = Some bs" "4 \<le> length bs" and sock: "sock \<in> dfds s"
  obtains r tr w where "ProcessCaMsg sc os cr a sock s = Some (r, s\<lparr>dtrace := tr @ dtrace s, dworld := w\<rparr>)"
    and "msg_trace os cr sock tr"
proof -
  let ?c = "sint (le_field bs 0 4)"
  have c: "get_u32 bs 0 = Some (le_field bs 0 4)" using m by (simp add: get_u32_def)
  show thesis
  proof (cases "?c = GET_TEEVERSION")
    case True
    obtain r tr w where d: "SendFileDescriptor os ?c sock (sint g_version) s = Some (r, s\<lparr>dtrace := tr @ dtrace s, dworld := w\<rparr>)"
      and t: "r \<noteq> 0 \<and> tr = [] \<or> (\<exists>q. tr = [Sent sock (reply ?c (sint g_version)) q] \<and> (r = 0 \<longleftrightarrow> 0 < q))"
      by (rule SendFileDescriptor_ok [OF sock, of os ?c "sint g_version"]) (rule that)
    have "ProcessCaMsg sc os cr a sock s = Some (if r \<noteq> 0 then - 1 else 0, s\<lparr>dtrace := tr @ dtrace s, dworld := w\<rparr>)"
      using m(1) c True d by (simp add: ProcessCaMsg_def)
    moreover have "msg_trace os cr sock tr" using t True by (auto simp: msg_trace_def reply_def)
    ultimately show thesis by (rule that)
  next
    case nv: False
    show thesis
    proof (cases rule: dtee_open_cases [OF os, of TC_NS_CLIENT_DEV_NAME s])
      case (1 w)
      then have "ProcessCaMsg sc os cr a sock s = Some (- 1, s\<lparr>dtrace := [] @ dtrace s, dworld := w\<rparr>)"
        using m(1) c nv by (simp add: ProcessCaMsg_def)
      then show thesis by (rule that) (simp add: msg_trace_def)
    next
      case (2 fd w)
      let ?s = "s\<lparr>dfds := insert fd (dfds s), dtrace := Opened TC_NS_CLIENT_DEV_NAME fd # dtrace s, dworld := w\<rparr>"
      have fd: "fd \<notin> dfds s" "fd \<noteq> - 1" using 2 by (auto simp: dused_fd_def)
      have f1: "fd \<in> dfds ?s" by simp
      obtain r tr w1 where l: "SendLoginInfo sc os cr a fd ?s = Some (r, ?s\<lparr>dtrace := tr @ dtrace ?s, dworld := w1\<rparr>)"
        and lt: "list_all (login_ev fd) tr"
        and ok: "r = 0 \<Longrightarrow> \<exists>name. name_found os name \<and>
          tr = [Ioctl fd (LOGIN (Some (native_cert name (uc_uid cr)))) 0, Fopen (cmdline (uc_pid cr))]"
        by (rule SendLoginInfo_ok [OF sc os f1, of cr a]) (rule that)
      show thesis
      proof (cases "r = 0")
        case False
        then have "ProcessCaMsg sc os cr a sock s = Some (- 1, s\<lparr>dtrace := (Closed fd # tr @ [Opened TC_NS_CLIENT_DEV_NAME fd]) @ dtrace s,
            dworld := px_close os fd w1\<rparr>)"
          using m(1) c nv 2 fd l by (simp add: ProcessCaMsg_def dtee_close_open)
        then show thesis by (rule that) (use login_ev_no_rights [OF lt] in \<open>simp add: msg_trace_def\<close>)
      next
        case True
        then obtain name where nf: "name_found os name"
          and tr: "tr = [Ioctl fd (LOGIN (Some (native_cert name (uc_uid cr)))) 0, Fopen (cmdline (uc_pid cr))]" using ok by blast
        let ?s1 = "s\<lparr>dfds := insert fd (dfds s), dtrace := tr @ Opened TC_NS_CLIENT_DEV_NAME fd # dtrace s, dworld := w1\<rparr>"
        have sk: "sock \<in> dfds ?s1" using sock by simp
        obtain r2 tr2 w2 where d: "SendFileDescriptor os ?c sock fd ?s1 = Some (r2, ?s1\<lparr>dtrace := tr2 @ dtrace ?s1, dworld := w2\<rparr>)"
          and t2: "r2 \<noteq> 0 \<and> tr2 = [] \<or> (\<exists>q. tr2 = [Sent sock (reply ?c fd) q] \<and> (r2 = 0 \<longleftrightarrow> 0 < q))"
          by (rule SendFileDescriptor_ok [OF sk, of os ?c fd]) (rule that)
        let ?tr = "Closed fd # tr2 @ tr @ [Opened TC_NS_CLIENT_DEV_NAME fd]"
        have "ProcessCaMsg sc os cr a sock s = Some (if r2 \<noteq> 0 then - 1 else 0, s\<lparr>dtrace := ?tr @ dtrace s, dworld := px_close os fd w2\<rparr>)"
          using m(1) c nv 2 fd l True d by (simp add: ProcessCaMsg_def dtee_close_open)
        moreover have "msg_trace os cr sock ?tr"
        proof (cases "tr2 = []")
          case True
          then show ?thesis by (simp add: msg_trace_def tr)
        next
          case False
          with t2 obtain q where q: "tr2 = [Sent sock (reply ?c fd) q]" by auto
          have "mh_rights (reply ?c fd) = Some fd" using nv by (simp add: reply_def)
          with nf show ?thesis unfolding msg_trace_def tr q
            by (intro disjI2 exI [of _ fd] exI [of _ name] exI [of _ "reply ?c fd"] exI [of _ q]) simp
        qed
        ultimately show thesis by (rule that)
      qed
    qed
  qed
qed

lemma RecvCaMsg_ok:
  assumes os: "daemon_os_ok os" and m: "dmem s a = Some bs" "length bs = sizeof_CaRevMsg" and sock: "sock \<in> dfds s"
  obtains r bs' w where "RecvCaMsg os sock a s = Some (r, s\<lparr>dmem := (dmem s)(a \<mapsto> bs'), dworld := w\<rparr>)"
    and "length bs' = sizeof_CaRevMsg"
proof -
  have same: "s\<lparr>dmem := (dmem s)(a \<mapsto> bs), dworld := v\<rparr> = s\<lparr>dworld := v\<rparr>" for v using m by (simp add: fun_upd_idem)
  obtain r1 w1 where c1: "dcall (dm_memset_s os) s = (r1, s\<lparr>dworld := w1\<rparr>)" by (rule dcallE)
  have "sock \<in> dfds (s\<lparr>dworld := w1\<rparr>)" using sock by simp
  then obtain r2 w2 where c2: "on_sock sock (dm_select os sock) (s\<lparr>dworld := w1\<rparr>) = Some (r2, s\<lparr>dworld := w1, dworld := w2\<rparr>)"
    by (rule on_sockE)
  have "sock \<in> dfds (s\<lparr>dworld := w2\<rparr>)" using sock by simp
  then obtain g w3 where c3: "on_sock sock (dm_recvmsg os sock sizeof_CaRevMsg) (s\<lparr>dworld := w2\<rparr>) = Some (g, s\<lparr>dworld := w2, dworld := w3\<rparr>)"
    and rv: "dm_recvmsg os sock sizeof_CaRevMsg (dworld (s\<lparr>dworld := w2\<rparr>)) = (g, w3)" by (rule on_sockE)
  obtain r3 xs where g: "g = (r3, xs)" by force
  have "\<forall>d n w. length (snd (fst (dm_recvmsg os d n w))) \<le> n" using os by (simp add: daemon_os_ok_def)
  then have "length (snd (fst (dm_recvmsg os sock sizeof_CaRevMsg w2))) \<le> sizeof_CaRevMsg" by blast
  with rv g have lx: "length xs \<le> sizeof_CaRevMsg" by simp
  have wr: "dwrite a xs (s\<lparr>dworld := w3\<rparr>) = Some (s\<lparr>dmem := (dmem s)(a \<mapsto> xs @ drop (length xs) bs), dworld := w3\<rparr>)"
    using m lx by (subst dwrite_live [where bs = bs]) simp_all
  show thesis
  proof (cases "a = NULL \<or> r1 \<noteq> EOK \<or> r2 \<le> 0")
    case True
    then consider "a = NULL" | "a \<noteq> NULL" "r1 \<noteq> EOK" | "a \<noteq> NULL" "r1 = EOK" "r2 \<le> 0" by blast
    then show thesis
    proof cases
      case 1
      then have "RecvCaMsg os sock a s = Some (- 1, s\<lparr>dmem := (dmem s)(a \<mapsto> bs), dworld := dworld s\<rparr>)"
        unfolding same by (simp add: RecvCaMsg_def)
      then show thesis by (rule that) (rule m)
    next
      case 2
      then have "RecvCaMsg os sock a s = Some (- 1, s\<lparr>dmem := (dmem s)(a \<mapsto> bs), dworld := w1\<rparr>)"
        unfolding same using c1 by (simp add: RecvCaMsg_def)
      then show thesis by (rule that) (rule m)
    next
      case 3
      then have "RecvCaMsg os sock a s = Some (- 1, s\<lparr>dmem := (dmem s)(a \<mapsto> bs), dworld := w2\<rparr>)"
        unfolding same using c1 c2 by (simp add: RecvCaMsg_def)
      then show thesis by (rule that) (rule m)
    qed
  next
    case False
    then have "RecvCaMsg os sock a s = Some (if r3 \<le> 0 then - 1 else 0, s\<lparr>dmem := (dmem s)(a \<mapsto> xs @ drop (length xs) bs), dworld := w3\<rparr>)"
      using c1 c2 c3 g wr by (simp add: RecvCaMsg_def)
    then show thesis by (rule that) (use m lx in simp)
  qed
qed

text \<open>The events of one turn of the loop.\<close>

definition round_trace :: "'w dmos \<Rightarrow> devent list \<Rightarrow> bool" where
  "round_trace os tr \<longleftrightarrow> list_all no_rights tr \<or>
     (\<exists>cr sock fd name m q tm. mh_rights m = Some fd \<and> name_found os name \<and> list_all time_ev tm \<and>
        tr = [Closed sock, Closed fd, Sent sock m q, Ioctl fd (LOGIN (Some (native_cert name (uc_uid cr)))) 0,
              Fopen (cmdline (uc_pid cr)), Opened TC_NS_CLIENT_DEV_NAME fd] @ tm @ [Peer sock cr, Accepted sock])"

lemma round_trace_authentic:
  assumes "round_trace os tr" "authentic os es"
  shows "authentic os (tr @ es)"
proof (cases "list_all no_rights tr")
  case True
  then show ?thesis using assms(2) by (rule authentic_append)
next
  case False
  with assms(1) obtain cr sock fd name m q tm where r: "mh_rights m = Some fd" "name_found os name" "list_all time_ev tm" and
    tr: "tr = [Closed sock, Closed fd, Sent sock m q, Ioctl fd (LOGIN (Some (native_cert name (uc_uid cr)))) 0,
              Fopen (cmdline (uc_pid cr)), Opened TC_NS_CLIENT_DEV_NAME fd] @ tm @ [Peer sock cr, Accepted sock]"
    unfolding round_trace_def by blast
  let ?rest = "Ioctl fd (LOGIN (Some (native_cert name (uc_uid cr)))) 0 # Fopen (cmdline (uc_pid cr)) #
      Opened TC_NS_CLIENT_DEV_NAME fd # tm @ Peer sock cr # Accepted sock # es"
  have "after_login os sock fd ?rest" unfolding after_login_def using r by blast
  moreover have "authentic os (tm @ Peer sock cr # Accepted sock # es)"
    using time_ev_no_rights [OF r(3)] assms(2) by (intro authentic_append) simp_all
  ultimately show ?thesis using r(1) by (simp add: tr)
qed

lemma msg_round_trace:
  assumes "msg_trace os cr sock tr" "list_all time_ev tm"
  shows "round_trace os (Closed sock # tr @ tm @ [Peer sock cr, Accepted sock])"
proof (cases "list_all no_rights tr")
  case True
  then show ?thesis using time_ev_no_rights [OF assms(2)] by (simp add: round_trace_def)
next
  case False
  with assms(1) obtain fd name m q where r: "mh_rights m = Some fd" "name_found os name" and
    tr: "tr = [Closed fd, Sent sock m q, Ioctl fd (LOGIN (Some (native_cert name (uc_uid cr)))) 0,
              Fopen (cmdline (uc_pid cr)), Opened TC_NS_CLIENT_DEV_NAME fd]"
    unfolding msg_trace_def by blast
  show ?thesis unfolding round_trace_def tr
    by (intro disjI2 exI [of _ cr] exI [of _ sock] exI [of _ fd] exI [of _ name] exI [of _ m] exI [of _ q] exI [of _ tm])
      (use r assms(2) in simp)
qed

definition served :: "'w dmos \<Rightarrow> addr \<Rightarrow> 'w teecd \<Rightarrow> 'w teecd \<Rightarrow> bool" where
  "served os a s s' \<longleftrightarrow> (\<exists>b bs tr w. s' = s\<lparr>syncSysTimed := b, dmem := (dmem s)(a \<mapsto> bs), dtrace := tr @ dtrace s, dworld := w\<rparr> \<and>
     length bs = sizeof_CaRevMsg \<and> round_trace os tr)"

lemma servedI:
  "length bs = sizeof_CaRevMsg \<Longrightarrow> round_trace os tr \<Longrightarrow>
     served os a s (s\<lparr>syncSysTimed := b, dmem := (dmem s)(a \<mapsto> bs), dtrace := tr @ dtrace s, dworld := w\<rparr>)"
  unfolding served_def by blast

lemma daccept_cases:
  assumes os: "daemon_os_ok os" and d: "d \<in> dfds s"
  obtains w where "daccept os d s = Some (- 1, s\<lparr>dworld := w\<rparr>)"
  | s2 w where "0 \<le> s2" "s2 \<notin> dfds s"
      "daccept os d s = Some (s2, s\<lparr>dfds := insert s2 (dfds s), dtrace := Accepted s2 # dtrace s, dworld := w\<rparr>)"
proof -
  obtain r w where c: "on_sock d (dm_accept os (dused_fd s) d) s = Some (r, s\<lparr>dworld := w\<rparr>)"
    and a: "dm_accept os (dused_fd s) d (dworld s) = (r, w)" using d by (rule on_sockE)
  have "new_fd (\<lambda>u. dm_accept os u d)" using os by (simp add: daemon_os_ok_def)
  from new_fdD [OF this a] show ?thesis
  proof
    assume "r = - 1"
    with c show ?thesis by (intro that(1) [of w]) (simp add: daccept_def)
  next
    assume "\<not> dused_fd s r \<and> 0 \<le> r"
    with c show ?thesis by (intro that(2) [of r w]) (simp_all add: daccept_def note_ev_def dused_fd_def)
  qed
qed

lemma accept_round_ok:
  assumes sc: "securec_ok sc" and os: "daemon_os_ok os" and d: "d \<in> dfds s"
    and m: "dmem s a = Some bs" "length bs = sizeof_CaRevMsg"
  shows "ok (accept_round sc os d a s) (served os a s)"
proof -
  have stay: "served os a s (s\<lparr>dtrace := tr @ dtrace s, dworld := w\<rparr>)" if "round_trace os tr" for tr w
  proof -
    have "s\<lparr>syncSysTimed := syncSysTimed s, dmem := (dmem s)(a \<mapsto> bs), dtrace := tr @ dtrace s, dworld := w\<rparr> =
        s\<lparr>dtrace := tr @ dtrace s, dworld := w\<rparr>" using m by (simp add: fun_upd_idem)
    then show ?thesis using servedI [OF m(2) that, of a s w "syncSysTimed s"] by simp
  qed
  show ?thesis
  proof (cases rule: daccept_cases [OF os d])
    case (1 w)
    then show ?thesis using stay [of "[]" w] by (simp add: accept_round_def round_trace_def)
  next
    case (2 s2 w)
    let ?s1 = "s\<lparr>dfds := insert s2 (dfds s), dtrace := Accepted s2 # dtrace s, dworld := w\<rparr>"
    have "s2 \<in> dfds ?s1" by simp
    then obtain g w1 where p: "on_sock s2 (dm_peercred os s2) ?s1 = Some (g, ?s1\<lparr>dworld := w1\<rparr>)" by (rule on_sockE)
    obtain r cr where g: "g = (r, cr)" by force
    show ?thesis
    proof (cases "r < 0")
      case True
      then have "accept_round sc os d a s = Some (s\<lparr>dtrace := [Closed s2, Accepted s2] @ dtrace s, dworld := px_close os s2 w1\<rparr>)"
        using 2 p g by (simp add: accept_round_def dclose_open)
      then show ?thesis using stay [of "[Closed s2, Accepted s2]" "px_close os s2 w1"] by (simp add: round_trace_def)
    next
      case r: False
      let ?pe = "Peer s2 cr # Accepted s2 # dtrace s"
      let ?s3 = "s\<lparr>dfds := insert s2 (dfds s), dtrace := ?pe, dworld := w1\<rparr>"
      have s3: "dmem ?s3 a = Some bs" "s2 \<in> dfds ?s3" using m by simp_all
      obtain q bs1 w2 where rv: "RecvCaMsg os s2 a ?s3 = Some (q, ?s3\<lparr>dmem := (dmem ?s3)(a \<mapsto> bs1), dworld := w2\<rparr>)"
        and l1: "length bs1 = sizeof_CaRevMsg"
        by (rule RecvCaMsg_ok [OF os s3(1) m(2) s3(2)]) (rule that)
      let ?s4 = "s\<lparr>dfds := insert s2 (dfds s), dmem := (dmem s)(a \<mapsto> bs1), dtrace := ?pe, dworld := w2\<rparr>"
      let ?inner = "if q \<noteq> 0 then Some ?s4
        else do { s \<leftarrow> TrySyncSysTimeToSecure os ?s4; (_, s) \<leftarrow> ProcessCaMsg sc os cr a s2 s; Some s }"
      obtain b tr w3 where inner: "?inner = Some (?s4\<lparr>syncSysTimed := b, dtrace := tr @ ?pe, dworld := w3\<rparr>)"
        and rt: "round_trace os (Closed s2 # tr @ [Peer s2 cr, Accepted s2])"
      proof (cases "q = 0")
        case False
        then show thesis by (intro that [of w2 "[]" "syncSysTimed s"]) (simp_all add: round_trace_def)
      next
        case True
        obtain b tm v where y: "TrySyncSysTimeToSecure os ?s4 = Some (?s4\<lparr>syncSysTimed := b, dtrace := tm @ ?pe, dworld := v\<rparr>)"
          and tm: "list_all time_ev tm"
          using TrySync_ok [OF os, of ?s4] by (auto simp: ok_iff elim!: dextE)
        let ?s5 = "?s4\<lparr>syncSysTimed := b, dtrace := tm @ ?pe, dworld := v\<rparr>"
        have s5: "dmem ?s5 a = Some bs1" "4 \<le> length bs1" "s2 \<in> dfds ?s5" using l1 by simp_all
        obtain r' tr' v' where pm: "ProcessCaMsg sc os cr a s2 ?s5 = Some (r', ?s5\<lparr>dtrace := tr' @ dtrace ?s5, dworld := v'\<rparr>)"
          and mt: "msg_trace os cr s2 tr'" by (rule ProcessCaMsg_ok [OF sc os s5, of cr]) (rule that)
        show thesis
          by (rule that [of v' "tr' @ tm" b]) (use True y pm msg_round_trace [OF mt tm] in simp_all)
      qed
      let ?s6 = "s\<lparr>syncSysTimed := b, dmem := (dmem s)(a \<mapsto> bs1), dtrace := Closed s2 # tr @ ?pe, dworld := px_close os s2 w3\<rparr>"
      have "dmem ?s6 a = Some bs1" by simp
      then obtain rc ys w5 where z: "dzero os a ?s6 = Some (rc, ?s6\<lparr>dmem := (dmem ?s6)(a \<mapsto> ys), dworld := w5\<rparr>)"
        and ys: "length ys = length bs1" by (rule dzeroE) blast
      let ?tr = "Closed s2 # tr @ [Peer s2 cr, Accepted s2]"
      have "accept_round sc os d a s = Some (s\<lparr>syncSysTimed := b, dmem := (dmem s)(a \<mapsto> ys), dtrace := ?tr @ dtrace s, dworld := w5\<rparr>)"
        using 2 p g r rv inner z by (simp add: accept_round_def note_ev_def dclose_open split del: if_split)
      moreover have "length ys = sizeof_CaRevMsg" using ys l1 by simp
      ultimately show ?thesis using servedI [OF _ rt, of ys a s w5 b] by simp
    qed
  qed
qed

lemma CreateSocket_cases:
  assumes os: "daemon_os_ok os"
  obtains tr w where "CreateSocket sc os s = Some (- 1, s\<lparr>dtrace := tr @ dtrace s, dworld := w\<rparr>)" "list_all no_rights tr"
  | d w where "0 \<le> d" "d \<notin> dfds s" "CreateSocket sc os s = Some (d, s\<lparr>dfds := insert d (dfds s), dworld := w\<rparr>)"
proof -
  obtain d w where c: "dcall (dm_socket os (dused_fd s)) s = (d, s\<lparr>dworld := w\<rparr>)"
    and a: "dm_socket os (dused_fd s) (dworld s) = (d, w)" by (rule dcallE)
  have nf: "new_fd (dm_socket os)" using os by (simp add: daemon_os_ok_def)
  have dd: "d = - 1 \<or> d \<notin> dfds s \<and> 0 \<le> d" using new_fdD [OF nf a] by (auto simp: dused_fd_def)
  show ?thesis
  proof (cases "d < 0")
    case True
    with c show ?thesis by (intro that(1) [of w "[]"]) (simp_all add: CreateSocket_def)
  next
    case False
    let ?s = "s\<lparr>dfds := insert d (dfds s), dworld := w\<rparr>"
    obtain r1 w1 where c1: "dcall (dm_memset_s os) ?s = (r1, s\<lparr>dfds := insert d (dfds s), dworld := w1\<rparr>)"
      by (rule dcallE [of "dm_memset_s os" ?s]) simp
    obtain r2 ad where f: "FormatSockAddr sc = (r2, ad)" by force
    have "d \<in> dfds (s\<lparr>dfds := insert d (dfds s), dworld := w1\<rparr>)" by simp
    then obtain r3 w3 where b: "on_sock d (dm_bind os d ad) (s\<lparr>dfds := insert d (dfds s), dworld := w1\<rparr>) =
        Some (r3, s\<lparr>dfds := insert d (dfds s), dworld := w1, dworld := w3\<rparr>)" by (rule on_sockE)
    have dn: "d \<notin> dfds s" using dd False by auto
    consider "r1 \<noteq> EOK \<or> r2 \<noteq> EOK" | "r1 = EOK" "r2 = EOK" "r3 < 0" | "r1 = EOK" "r2 = EOK" "0 \<le> r3" by linarith
    then show ?thesis
    proof cases
      case 1
      then show ?thesis using c False c1 f dn
        by (intro that(1) [of "px_close os d w1" "[Closed d]"]) (auto simp: CreateSocket_def dclose_open)
    next
      case 2
      then show ?thesis using c False c1 f b dn
        by (intro that(1) [of "px_close os d w3" "[Closed d]"]) (simp_all add: CreateSocket_def dclose_open)
    next
      case 3
      then show ?thesis using c False c1 f b dn by (intro that(2) [of d w3]) (simp_all add: CreateSocket_def)
    qed
  qed
qed

lemma server_start_cases:
  assumes os: "daemon_os_ok os"
  obtains tr w where "server_start sc os s = Some (None, s\<lparr>dtrace := tr @ dtrace s, dworld := w\<rparr>)" "list_all no_rights tr"
  | d a bs w where "0 \<le> d" "d \<notin> dfds s" "a \<noteq> NULL" "dmem s a = None" "length bs = sizeof_CaRevMsg"
      "server_start sc os s = Some (Some (d, a), s\<lparr>dfds := insert d (dfds s), dmem := (dmem s)(a \<mapsto> bs), dworld := w\<rparr>)"
proof (cases rule: CreateSocket_cases [OF os, of sc s])
  case (1 tr w)
  then show ?thesis by (intro that(1) [of w tr]) (simp_all add: server_start_def)
next
  case (2 d w)
  let ?s = "s\<lparr>dfds := insert d (dfds s), dworld := w\<rparr>"
  have "d \<in> dfds ?s" by simp
  then obtain r1 w1 where l: "on_sock d (dm_listen os d BACKLOG_LEN) ?s = Some (r1, ?s\<lparr>dworld := w1\<rparr>)" by (rule on_sockE)
  show ?thesis
  proof (cases "r1 < 0")
    case True
    with 2 l show ?thesis by (intro that(1) [of "px_close os d w1" "[Closed d]"]) (simp_all add: server_start_def dclose_open)
  next
    case r1: False
    let ?s1 = "s\<lparr>dfds := insert d (dfds s), dworld := w1\<rparr>"
    show ?thesis
    proof (cases rule: dmalloc_cases [OF os, of sizeof_CaRevMsg ?s1])
      case m: (1 w2)
      with 2 l r1 show ?thesis by (intro that(1) [of "px_close os d w2" "[Closed d]"]) (simp_all add: server_start_def dclose_open)
    next
      case m: (2 a xs w2)
      let ?s2 = "s\<lparr>dfds := insert d (dfds s), dmem := (dmem s)(a \<mapsto> xs), dworld := w2\<rparr>"
      have "dmem ?s2 a = Some xs" by simp
      then obtain rc ys w3 where z: "dzero os a ?s2 = Some (rc, ?s2\<lparr>dmem := (dmem ?s2)(a \<mapsto> ys), dworld := w3\<rparr>)"
        and ys: "length ys = length xs" by (rule dzeroE) blast
      have un: "(dmem s)(a := None) = dmem s" using m by auto
      show ?thesis
      proof (cases "rc = EOK")
        case True
        with 2 l r1 m z ys show ?thesis by (intro that(2) [of d a ys w3]) (simp_all add: server_start_def)
      next
        case False
        with 2 l r1 m z un show ?thesis
          by (intro that(1) [of "px_close os d w3" "[Closed d]"]) (simp_all add: server_start_def dclose_open dfree_def)
      qed
    qed
  qed
qed

end
