(* ===== verification/Teecd_Main.thy ===== *)
theory Teecd_Main
  imports Teecd_Load Teecd_Ca Fs_Agent
begin

text \<open>
  The daemon as a whole (\<open>main\<close> of \<open>src/services/teecd/src/tee_agent.c\<close>): its start, and the interleaving
  of its threads.  The thread of the file agent runs from the registration of the agents on, since
  loading a file may need it; the drivers and then the services are loaded, and only then the other threads start.
  A step is one turn of the loop of one thread: one event of the file agent, of the load agent or of the
  miscellaneous agent, one connection of a client, the late initialisation, the start of a thread, or the loading of
  the drivers or of the services.  The threads share the static variables, which only the start
  and the clock write, and the operating system; interleavings inside of a turn are not modelled.
\<close>

section \<open>Start and end\<close>

text \<open>\<open>SetFileNumLimit\<close> of the file agent changes the world only.\<close>

definition fs0 :: "'w \<Rightarrow> 'w fs" where
  "fs0 w = \<lparr>g_userId = 0, g_storageId = 0, g_firstFile = NULL, nodes = Map.empty, copybufs = {}, streams = Map.empty,
     fds = {}, fworld = w\<rparr>"

text \<open>\<open>main\<close> up to the creation of the first thread.\<close>

definition main_start :: "'w dmos \<Rightarrow> 'w teecd \<Rightarrow> (int \<times> 'w teecd) option" where
  "main_start os s = do {
     (_, s) \<leftarrow> TcuAuthentication os HASH_TYPE_WHOLE s;
     (r, s) \<leftarrow> ProcessAgentInit os s;
     if r \<noteq> 0 then Some (r, s)
     else do {
       s \<leftarrow> TrySyncSysTimeToSecure os s;
       Some (0, s\<lparr>dworld := fworld (SetFileNumLimit (posix.truncate os) (fs0 (dworld s)))\<rparr>)
     }
   }"

section \<open>The running daemon\<close>

text \<open>
  How far \<open>main\<close> has come, and its thread for clients: the drivers and services are still to be loaded, the services
  are, the thread is created, it listens on a socket with a message buffer, or it has ended.
\<close>

datatype phase = Load_drv | Load_srv | Server_new | Server_up int addr | Server_gone

text \<open>Once the services are loaded, all threads are created.\<close>

definition running :: "phase \<Rightarrow> bool" where
  "running v \<longleftrightarrow> v \<noteq> Load_drv \<and> v \<noteq> Load_srv"

text \<open>The file agent has its own part of the state; the world is the one of the rest of the daemon.\<close>

record 'w daemon =
  da_state :: "'w teecd"
  da_fs :: "'w fs"
  da_fsbuf :: SecStorageType
  da_phase :: phase

definition fs_event :: "securec \<Rightarrow> 'w dmos \<Rightarrow> 'w daemon \<Rightarrow> 'w daemon option" where
  "fs_event sc os d = do {
     ((r, buf), f) \<leftarrow> FsWorkEventHandle sc (posix.truncate os) (da_fsbuf d) (g_fsFd (da_state d)) ((da_fs d)\<lparr>fworld := dworld (da_state d)\<rparr>);
     Some (d\<lparr>da_state := (da_state d)\<lparr>dworld := fworld f\<rparr>, da_fs := f, da_fsbuf := buf\<rparr>)
   }"

text \<open>The program before it starts, and the state when the threads are created.\<close>

definition cold :: "'w teecd \<Rightarrow> bool" where
  "cold s \<longleftrightarrow> globals0 s \<and> dfds s = {} \<and> dstreams s = Map.empty \<and> dmem s = Map.empty \<and> dtrace s = [] \<and> sec_wf (sec_buf s)"

definition started :: "securec \<Rightarrow> 'w dmos \<Rightarrow> 'w daemon \<Rightarrow> bool" where
  "started sc os d \<longleftrightarrow> (\<exists>s. cold s \<and> main_start os s = Some (0, da_state d)) \<and> fs_init (da_fsbuf d, da_fs d) \<and> da_phase d = Load_drv"

inductive daemon_step :: "securec \<Rightarrow> 'w dmos \<Rightarrow> 'w daemon \<Rightarrow> 'w daemon \<Rightarrow> bool" for sc os where
  drv: "da_phase d = Load_drv \<Longrightarrow> LoadDynamicDrvDir sc os None 0 (da_state d) = Some s \<Longrightarrow>
    daemon_step sc os d (d\<lparr>da_state := s, da_phase := Load_srv\<rparr>)"
| srv: "da_phase d = Load_srv \<Longrightarrow> LoadDynamicSrvDir sc os (da_state d) = Some s \<Longrightarrow>
    daemon_step sc os d (d\<lparr>da_state := s, da_phase := Server_new\<rparr>)"
| server: "da_phase d = Server_new \<Longrightarrow> server_start sc os (da_state d) = Some (r, s) \<Longrightarrow>
    daemon_step sc os d (d\<lparr>da_state := s, da_phase := case r of None \<Rightarrow> Server_gone | Some (k, a) \<Rightarrow> Server_up k a\<rparr>)"
| client: "da_phase d = Server_up k a \<Longrightarrow> accept_round sc os k a (da_state d) = Some s \<Longrightarrow>
    daemon_step sc os d (d\<lparr>da_state := s\<rparr>)"
| load_start: "running (da_phase d) \<Longrightarrow> daemon_step sc os d (d\<lparr>da_state := (da_state d)\<lparr>sec_buf := (sec_buf (da_state d))\<lparr>sa_magic := SECFILE_LOAD_AGENT_ID\<rparr>\<rparr>\<rparr>)"
| load: "running (da_phase d) \<Longrightarrow> sec_round sc os (g_secLoadAgentControl (da_state d)) (da_state d) = Some (b, s) \<Longrightarrow> daemon_step sc os d (d\<lparr>da_state := s\<rparr>)"
| misc_start: "running (da_phase d) \<Longrightarrow> daemon_step sc os d (d\<lparr>da_state := (da_state d)\<lparr>misc_buf := (misc_buf (da_state d))\<lparr>mc_magic := AGENT_MISC_ID\<rparr>\<rparr>\<rparr>)"
| misc: "running (da_phase d) \<Longrightarrow> misc_round sc os (g_miscFd (da_state d)) (da_state d) = Some (b, s) \<Longrightarrow> daemon_step sc os d (d\<lparr>da_state := s\<rparr>)"
| late: "running (da_phase d) \<Longrightarrow> InitLateWorkThread os (da_state d) = Some s \<Longrightarrow> daemon_step sc os d (d\<lparr>da_state := s\<rparr>)"
| fs: "g_fsThreadFlag (da_state d) = 1 \<Longrightarrow> fs_event sc os d = Some d' \<Longrightarrow> daemon_step sc os d d'"

section \<open>The invariant\<close>

text \<open>What the daemon relies on: the contracts of its own calls.\<close>

definition daemon_env :: "securec \<Rightarrow> 'w dmos \<Rightarrow> bool" where
  "daemon_env sc os \<longleftrightarrow> securec_ok sc \<and> daemon_os_ok os"

text \<open>The descriptors, blocks and streams are exactly those of the agents and of the server.\<close>

definition resources :: "phase \<Rightarrow> 'w teecd \<Rightarrow> bool" where
  "resources v s \<longleftrightarrow> dstreams s = Map.empty \<and>
     (case v of
        Server_up k a \<Rightarrow> k \<notin> snd ` agent_table s \<and> dfds s = insert k (snd ` agent_table s) \<and>
          (\<exists>bs. length bs = sizeof_CaRevMsg \<and> dmem s = [a \<mapsto> bs])
      | _ \<Rightarrow> dfds s = snd ` agent_table s \<and> dmem s = Map.empty)"

definition daemon_inv :: "'w dmos \<Rightarrow> 'w daemon \<Rightarrow> bool" where
  "daemon_inv os d \<longleftrightarrow> agents_up (da_state d) \<and> sec_wf (sec_buf (da_state d)) \<and> resources (da_phase d) (da_state d) \<and>
     authentic os (dtrace (da_state d))"

lemma quiet_no_rights: "list_all quiet tr \<Longrightarrow> list_all no_rights tr"
  by (auto simp: list_all_iff quiet_def no_rights_def)

lemma hash_ev_quiet: "list_all hash_ev tr \<Longrightarrow> list_all quiet tr \<and> registered tr = {}"
  by (induction tr) (auto simp: hash_ev_def)

lemma time_ev_quiet: "time_ev e \<Longrightarrow> quiet e" by (auto simp: time_ev_def)
lemma late_ev_quiet: "late_ev e \<Longrightarrow> quiet e" by (auto simp: late_ev_def)
lemma start_ev_quiet: "start_ev fd e \<Longrightarrow> quiet e" by (auto simp: start_ev_def dyn_ev_def)
lemma sec_ev_quiet: "sec_ev fd e \<Longrightarrow> quiet e" by (auto simp: sec_ev_def)

text \<open>Fields that the invariant reads.\<close>

definition same_agents :: "'w teecd \<Rightarrow> 'w teecd \<Rightarrow> bool" where
  "same_agents s s' \<longleftrightarrow> agent_table s' = agent_table s \<and> agents_up s' = agents_up s \<and> dfds s' = dfds s \<and> dstreams s' = dstreams s \<and> dmem s' = dmem s \<and>
     sec_buf s' = sec_buf s \<and> (\<exists>tr. dtrace s' = tr @ dtrace s \<and> list_all quiet tr)"

lemma same_agents_update [simp]:
  "agent_table (s\<lparr>dworld := w\<rparr>) = agent_table s" "agents_up (s\<lparr>dworld := w\<rparr>) = agents_up s"
  "agent_table (s\<lparr>dtrace := t\<rparr>) = agent_table s" "agents_up (s\<lparr>dtrace := t\<rparr>) = agents_up s"
  "agent_table (s\<lparr>dmem := m\<rparr>) = agent_table s" "agents_up (s\<lparr>dmem := m\<rparr>) = agents_up s"
  "agent_table (s\<lparr>dfds := f\<rparr>) = agent_table s"
  "agent_table (s\<lparr>sec_buf := b\<rparr>) = agent_table s" "agents_up (s\<lparr>sec_buf := b\<rparr>) = agents_up s"
  "agent_table (s\<lparr>misc_buf := c\<rparr>) = agent_table s" "agents_up (s\<lparr>misc_buf := c\<rparr>) = agents_up s"
  "agent_table (s\<lparr>syncSysTimed := x\<rparr>) = agent_table s" "agents_up (s\<lparr>syncSysTimed := x\<rparr>) = agents_up s"
  by (simp_all add: agent_table_def agents_up_def)

lemma resources_update [simp]:
  "resources v (s\<lparr>dworld := w\<rparr>) = resources v s" "resources v (s\<lparr>dtrace := t\<rparr>) = resources v s"
  "resources v (s\<lparr>sec_buf := b\<rparr>) = resources v s" "resources v (s\<lparr>misc_buf := c\<rparr>) = resources v s"
  "resources v (s\<lparr>syncSysTimed := x\<rparr>) = resources v s"
  by (simp_all add: resources_def split: phase.split)

lemma dext_same: "dext P s s' \<Longrightarrow> (\<And>e. P e \<Longrightarrow> quiet e) \<Longrightarrow> same_agents s s'"
  by (auto simp: same_agents_def list_all_iff elim!: dextE)

lemma same_agents_trans: "same_agents s s1 \<Longrightarrow> same_agents s1 s2 \<Longrightarrow> same_agents s s2"
  unfolding same_agents_def by (metis append_assoc list_all_append)

text \<open>The start: either the daemon gives up and holds nothing, or everything is in place.\<close>

definition start_result :: "int \<times> 'w teecd \<Rightarrow> bool" where
  "start_result = (\<lambda>(r, s). if r = 0
     then agents_up s \<and> sec_wf (sec_buf s) \<and> resources Load_drv s \<and> list_all quiet (dtrace s)
     else dfds s = {} \<and> dstreams s = Map.empty \<and> dmem s = Map.empty \<and> registered (dtrace s) = {})"

lemma main_start_ok:
  assumes os: "daemon_os_ok os" and c: "cold s"
  shows "ok (main_start os s) start_result"
proof -
  obtain q b tr w where h: "TcuAuthentication os HASH_TYPE_WHOLE s = Some (q, s\<lparr>gHashXmlSetted := b, dtrace := tr, dworld := w\<rparr>)"
    and tr: "list_all hash_ev tr"
    using TcuAuthentication_ok [OF os, of HASH_TYPE_WHOLE s] c by (auto simp: ok_iff hashed_def cold_def)
  let ?s1 = "s\<lparr>gHashXmlSetted := b, dtrace := tr, dworld := w\<rparr>"
  have g1: "globals0 ?s1" "registered (dtrace ?s1) = {}" using c hash_ev_quiet [OF tr] by (simp_all add: cold_def globals0_def)
  obtain r s2 where i: "ProcessAgentInit os ?s1 = Some (r, s2)" and st: "agents_started ?s1 (r, s2)"
    using ProcessAgentInit_ok [OF os g1] by (auto simp: ok_iff)
  show ?thesis
  proof (cases "r = 0")
    case False
    with st have e: "dext quiet ?s1 s2" "registered (dtrace s2) = {}" by (auto simp: agents_started_def)
    with False h i c show ?thesis by (auto simp: main_start_def start_result_def cold_def dext_sel [OF e(1)])
  next
    case True
    with st c have s2: "agents_up s2" "resources Load_drv s2" "sec_wf (sec_buf s2)" "list_all quiet (dtrace s2)"
      using hash_ev_quiet [OF tr] by (auto simp: agents_started_def resources_def cold_def)
    obtain b3 s3 where y: "TrySyncSysTimeToSecure os s2 = Some s3" "dext time_ev (s2\<lparr>syncSysTimed := b3\<rparr>) s3"
      using TrySync_ok [OF os, of s2] by (auto simp: ok_iff)
    define s4 where "s4 = s3\<lparr>dworld := fworld (SetFileNumLimit (posix.truncate os) (fs0 (dworld s3)))\<rparr>"
    have "same_agents (s2\<lparr>syncSysTimed := b3\<rparr>) s3" using y(2) time_ev_quiet by (rule dext_same)
    then have a4: "same_agents s2 s4" by (simp add: same_agents_def s4_def)
    have "main_start os s = Some (0, s4)" using h i True y(1) by (simp add: main_start_def s4_def)
    moreover have "start_result (0, s4)" using a4 s2 by (auto simp: start_result_def same_agents_def resources_def)
    ultimately show ?thesis by simp
  qed
qed

section \<open>Every step is defined and keeps the invariant\<close>

lemma agent_fds: "agents_up s \<Longrightarrow> g_secLoadAgentFd s \<in> dfds s" "agents_up s \<Longrightarrow> g_miscFd s \<in> dfds s"
  by (auto simp: agents_up_def agent_table_def)

lemma authentic_quiet: "list_all quiet tr \<Longrightarrow> authentic os es \<Longrightarrow> authentic os (tr @ es)"
  by (rule authentic_append) (rule quiet_no_rights)

lemma started_inv:
  assumes "daemon_env sc os" "started sc os d"
  shows "daemon_inv os d"
proof -
  from assms(2) obtain s where c: "cold s" "main_start os s = Some (0, da_state d)"
    and f: "da_phase d = Load_drv" by (auto simp: started_def)
  have "start_result (0, da_state d)"
    using ok_result [OF main_start_ok [OF _ c(1)] c(2)] assms(1) by (simp add: daemon_env_def)
  then show ?thesis
    using f authentic_quiet [of "dtrace (da_state d)" os "[]"] by (simp add: daemon_inv_def start_result_def)
qed

text \<open>The steps of \<open>main\<close> and the rounds of the threads, each with the invariant after it.\<close>

lemma same_agents_inv:
  assumes "daemon_inv os d" "same_agents (da_state d) s" "resources v (da_state d)"
  shows "daemon_inv os (d\<lparr>da_state := s, da_phase := v\<rparr>)"
proof -
  have "resources v s" using assms(2,3) by (cases v) (simp_all add: resources_def same_agents_def)
  then show ?thesis using assms(1,2) by (auto simp: daemon_inv_def same_agents_def authentic_quiet)
qed

lemma drv_inv:
  assumes "daemon_env sc os" "daemon_inv os d" "da_phase d = Load_drv"
  shows "ok (LoadDynamicDrvDir sc os None 0 (da_state d)) (\<lambda>s. daemon_inv os (d\<lparr>da_state := s, da_phase := Load_srv\<rparr>))"
proof -
  have env: "securec_ok sc" "daemon_os_ok os" "g_secLoadAgentFd (da_state d) \<in> dfds (da_state d)"
    using assms by (simp_all add: daemon_env_def daemon_inv_def agent_fds)
  have "ok (LoadDynamicDrvDir sc os None 0 (da_state d)) (dext (start_ev (g_secLoadAgentFd (da_state d))) (da_state d))"
    using load_default_drv_ok [OF env] by (simp add: LoadDynamicDrvDir_def)
  then show ?thesis
  proof (rule ok_mono)
    fix s
    assume "dext (start_ev (g_secLoadAgentFd (da_state d))) (da_state d) s"
    then have "same_agents (da_state d) s" using start_ev_quiet by (rule dext_same)
    with assms show "daemon_inv os (d\<lparr>da_state := s, da_phase := Load_srv\<rparr>)"
      by (intro same_agents_inv) (simp_all add: daemon_inv_def resources_def)
  qed
qed

lemma srv_inv:
  assumes "daemon_env sc os" "daemon_inv os d" "da_phase d = Load_srv"
  shows "ok (LoadDynamicSrvDir sc os (da_state d)) (\<lambda>s. daemon_inv os (d\<lparr>da_state := s, da_phase := Server_new\<rparr>))"
proof -
  have env: "securec_ok sc" "daemon_os_ok os" "g_secLoadAgentFd (da_state d) \<in> dfds (da_state d)"
    using assms by (simp_all add: daemon_env_def daemon_inv_def agent_fds)
  from LoadDynamicSrvDir_ok [OF env] show ?thesis
  proof (rule ok_mono)
    fix s
    assume "dext (start_ev (g_secLoadAgentFd (da_state d))) (da_state d) s"
    then have "same_agents (da_state d) s" using start_ev_quiet by (rule dext_same)
    with assms show "daemon_inv os (d\<lparr>da_state := s, da_phase := Server_new\<rparr>)"
      by (intro same_agents_inv) (simp_all add: daemon_inv_def resources_def)
  qed
qed

lemma server_inv:
  assumes "daemon_env sc os" "daemon_inv os d" "da_phase d = Server_new"
  shows "ok (server_start sc os (da_state d)) (\<lambda>(r, s). daemon_inv os
    (d\<lparr>da_state := s, da_phase := case r of None \<Rightarrow> Server_gone | Some (k, a) \<Rightarrow> Server_up k a\<rparr>))"
proof -
  have os: "daemon_os_ok os" using assms(1) by (simp add: daemon_env_def)
  show ?thesis
  proof (cases rule: server_start_cases [OF os, of sc "da_state d"])
    case (1 tr w)
    with assms show ?thesis by (simp add: daemon_inv_def resources_def authentic_append)
  next
    case (2 k a bs w)
    with assms show ?thesis by (auto simp: daemon_inv_def resources_def agents_up_def agent_table_def)
  qed
qed

lemma client_inv:
  assumes "daemon_env sc os" "daemon_inv os d" "da_phase d = Server_up k a"
  shows "ok (accept_round sc os k a (da_state d)) (\<lambda>s. daemon_inv os (d\<lparr>da_state := s\<rparr>))"
proof -
  have env: "securec_ok sc" "daemon_os_ok os" using assms(1) by (simp_all add: daemon_env_def)
  obtain bs where r: "k \<in> dfds (da_state d)" "dmem (da_state d) = [a \<mapsto> bs]" "length bs = sizeof_CaRevMsg"
    using assms(2,3) by (auto simp: daemon_inv_def resources_def)
  have "ok (accept_round sc os k a (da_state d)) (served os a (da_state d))"
    using env r by (intro accept_round_ok [where bs = bs]) simp_all
  moreover have "daemon_inv os (d\<lparr>da_state := s\<rparr>)" if sv: "served os a (da_state d) s" for s
  proof -
    from sv obtain b ys tr w where s: "s = (da_state d)\<lparr>syncSysTimed := b, dmem := (dmem (da_state d))(a \<mapsto> ys),
        dtrace := tr @ dtrace (da_state d), dworld := w\<rparr>" and "length ys = sizeof_CaRevMsg" "round_trace os tr"
      unfolding served_def by blast
    with assms(2,3) r(2) show ?thesis
      using round_trace_authentic [of os tr "dtrace (da_state d)"] by (auto simp: daemon_inv_def resources_def)
  qed
  ultimately show ?thesis by (rule ok_mono)
qed

lemma load_inv:
  assumes "daemon_env sc os" "daemon_inv os d"
  shows "ok (sec_round sc os a (da_state d)) (\<lambda>(b, s). daemon_inv os (d\<lparr>da_state := s\<rparr>))"
proof -
  have env: "securec_ok sc" "daemon_os_ok os" "agents_up (da_state d)" using assms by (simp_all add: daemon_env_def daemon_inv_def)
  have inv: "daemon_inv os (d\<lparr>da_state := s\<rparr>)" if sv: "sec_rounded (da_state d) s" for s
  proof -
    from sv obtain c tr w where s: "s = (da_state d)\<lparr>sec_buf := c, dtrace := tr @ dtrace (da_state d), dworld := w\<rparr>"
      and "sec_wf c" "list_all (sec_ev (g_secLoadAgentFd (da_state d))) tr" unfolding sec_rounded_def by blast
    then have "list_all quiet tr" by (auto simp: list_all_iff dest: sec_ev_quiet)
    with s \<open>sec_wf c\<close> assms(2) show ?thesis by (simp add: daemon_inv_def authentic_quiet)
  qed
  show ?thesis
    using sec_round_ok [OF env(1,2) agent_fds(1) [OF env(3)], of a] by (auto elim!: ok_mono intro: inv)
qed

lemma misc_inv:
  assumes "daemon_inv os d"
  shows "ok (misc_round sc os (g_miscFd (da_state d)) (da_state d)) (\<lambda>(b, s). daemon_inv os (d\<lparr>da_state := s\<rparr>))"
proof -
  have "g_miscFd (da_state d) \<in> dfds (da_state d)" using assms by (intro agent_fds) (simp add: daemon_inv_def)
  from misc_round_ok [OF this, of sc os] show ?thesis
  proof (rule ok_mono)
    fix x
    assume x: "case x of (b, s') \<Rightarrow> \<exists>c w. s' = (da_state d)\<lparr>misc_buf := c, dworld := w\<rparr>"
    obtain b s' where "x = (b, s')" by force
    with x obtain c w where "s' = (da_state d)\<lparr>misc_buf := c, dworld := w\<rparr>" by auto
    with \<open>x = (b, s')\<close> assms show "case x of (b, s) \<Rightarrow> daemon_inv os (d\<lparr>da_state := s\<rparr>)" by (simp add: daemon_inv_def)
  qed
qed

lemma late_inv:
  assumes "daemon_env sc os" "daemon_inv os d"
  shows "ok (InitLateWorkThread os (da_state d)) (\<lambda>s. daemon_inv os (d\<lparr>da_state := s\<rparr>))"
proof -
  have "ok (InitLateWorkThread os (da_state d)) (dext late_ev (da_state d))"
    using assms(1) by (intro InitLateWorkThread_ok) (simp add: daemon_env_def)
  moreover have "daemon_inv os (d\<lparr>da_state := s\<rparr>)" if "dext late_ev (da_state d) s" for s
  proof -
    from that obtain tr w where "s = (da_state d)\<lparr>dtrace := tr @ dtrace (da_state d), dworld := w\<rparr>" "list_all late_ev tr" by (rule dextE)
    moreover from this have "list_all quiet tr" by (auto simp: list_all_iff dest: late_ev_quiet)
    ultimately show ?thesis using assms(2) by (simp add: daemon_inv_def authentic_quiet)
  qed
  ultimately show ?thesis by (rule ok_mono)
qed

lemma fs_event_inv:
  assumes "daemon_inv os d" "fs_event sc os d = Some d'"
  shows "daemon_inv os d'"
  using assms by (auto simp: fs_event_def daemon_inv_def bind_eq_Some_conv)

interpretation daemon: invariant "started sc os" "daemon_step sc os" "\<lambda>d. daemon_env sc os \<longrightarrow> daemon_inv os d"
  for sc :: securec and os :: "'w dmos"
proof
  fix d d' :: "'w daemon"
  show "started sc os d \<Longrightarrow> daemon_env sc os \<longrightarrow> daemon_inv os d" by (simp add: started_inv)
  assume inv: "daemon_env sc os \<longrightarrow> daemon_inv os d" and step: "daemon_step sc os d d'"
  show "daemon_env sc os \<longrightarrow> daemon_inv os d'"
  proof
    assume env: "daemon_env sc os"
    with inv have i: "daemon_inv os d" by simp
    from step show "daemon_inv os d'"
    proof cases
      case (drv s)
      then show ?thesis using ok_result [OF drv_inv [OF env i drv(2)] drv(3)] by simp
    next
      case (srv s)
      then show ?thesis using ok_result [OF srv_inv [OF env i srv(2)] srv(3)] by simp
    next
      case (server r s)
      then show ?thesis using ok_result [OF server_inv [OF env i server(2)] server(3)] by simp
    next
      case (client k a s)
      then show ?thesis using ok_result [OF client_inv [OF env i client(2)] client(3)] by simp
    next
      case load_start
      then show ?thesis using i by (simp add: daemon_inv_def sec_wf_def)
    next
      case (load b s)
      then show ?thesis using ok_result [OF load_inv [OF env i] load(3)] by simp
    next
      case misc_start
      then show ?thesis using i by (simp add: daemon_inv_def)
    next
      case (misc b s)
      then show ?thesis using ok_result [OF misc_inv [OF i] misc(3)] by simp
    next
      case (late s)
      then show ?thesis using ok_result [OF late_inv [OF env i] late(3)] by simp
    next
      case fs
      then show ?thesis using fs_event_inv [OF i fs(2)] by simp
    qed
  qed
qed

lemma reach_daemon_inv: "reach (started sc os) (daemon_step sc os) d \<Longrightarrow> daemon_env sc os \<Longrightarrow> daemon_inv os d"
  using daemon.reach_inv by blast

section \<open>The file agent in the daemon\<close>

text \<open>
  The next event of the file agent is a request to close a file for which \<open>fclose\<close> fails; and the steps in which this does not happen.
\<close>

definition fs_close_fails :: "'w dmos \<Rightarrow> 'w daemon \<Rightarrow> bool" where
  "fs_close_fails os d \<longleftrightarrow>
     close_fails (posix.truncate os) (g_fsFd (da_state d)) (da_fsbuf d, (da_fs d)\<lparr>fworld := dworld (da_state d)\<rparr>)"

definition daemon_clean :: "securec \<Rightarrow> 'w dmos \<Rightarrow> 'w daemon \<Rightarrow> 'w daemon \<Rightarrow> bool" where
  "daemon_clean sc os d d' \<longleftrightarrow> daemon_step sc os d d' \<and> (fs_event sc os d = Some d' \<longrightarrow> \<not> fs_close_fails os d)"

definition fs_contract :: "securec \<Rightarrow> 'w dmos \<Rightarrow> bool" where
  "fs_contract sc os \<longleftrightarrow> (\<forall>fd. fs_env_ok sc (posix.truncate os) fd)"

lemma fs_event_ok:
  assumes "fs_contract sc os" "fs_inv (da_fsbuf d, da_fs d)"
  shows "ok (fs_event sc os d) (\<lambda>d'. \<not> fs_close_fails os d \<longrightarrow> fs_inv (da_fsbuf d', da_fs d'))"
proof -
  let ?px = "posix.truncate os" and ?fd = "g_fsFd (da_state d)" and ?f = "(da_fs d)\<lparr>fworld := dworld (da_state d)\<rparr>"
  have env: "fs_env_ok sc ?px ?fd" using assms(1) by (simp add: fs_contract_def)
  have "fs_inv (da_fsbuf d, ?f)" using assms(2) agent_ok_same [of "da_fs d" ?f] by (simp add: fs_inv_def)
  from FsWorkEventHandle_ok [OF env this] obtain r buf f where
    "FsWorkEventHandle sc ?px (da_fsbuf d) ?fd ?f = Some ((r, buf), f)" "\<not> fs_close_fails os d \<longrightarrow> fs_inv (buf, f)"
    by (auto simp: ok_iff fs_close_fails_def)
  then show ?thesis by (simp add: fs_event_def)
qed

interpretation daemon_fs: invariant "started sc os" "daemon_clean sc os" "\<lambda>d. fs_contract sc os \<longrightarrow> fs_inv (da_fsbuf d, da_fs d)"
  for sc :: securec and os :: "'w dmos"
proof
  fix d d' :: "'w daemon"
  show "started sc os d \<Longrightarrow> fs_contract sc os \<longrightarrow> fs_inv (da_fsbuf d, da_fs d)" by (simp add: started_def fs_init_inv)
  assume inv: "fs_contract sc os \<longrightarrow> fs_inv (da_fsbuf d, da_fs d)" and step: "daemon_clean sc os d d'"
  from step have "daemon_step sc os d d'" by (simp add: daemon_clean_def)
  then show "fs_contract sc os \<longrightarrow> fs_inv (da_fsbuf d', da_fs d')"
  proof cases
    case fs
    then have "\<not> fs_close_fails os d" using step by (simp add: daemon_clean_def)
    with inv show ?thesis using ok_result [OF fs_event_ok fs(2)] by blast
  qed (use inv in simp_all)
qed

lemma reach_clean_step: "reach (started sc os) (daemon_clean sc os) d \<Longrightarrow> reach (started sc os) (daemon_step sc os) d"
  by (induction rule: reach.induct) (auto simp: daemon_clean_def intro: reach.intros)

lemma reach_daemon_fs: "reach (started sc os) (daemon_clean sc os) d \<Longrightarrow> fs_contract sc os \<Longrightarrow> fs_inv (da_fsbuf d, da_fs d)"
  using daemon_fs.reach_inv by blast

end
