(* ===== verification/Teecd_Sim.thy ===== *)
theory Teecd_Sim
  imports Teecd_Main Fs_Sim
begin

text \<open>
  A simulated system for the daemon, on which its theorems are evaluated: the simulated files of the
  file agent with a \<open>realpath\<close> that is the identity, a driver that accepts every request, and one client
  after another.
\<close>

definition pick :: "int list \<Rightarrow> (int \<Rightarrow> bool) \<Rightarrow> int" where
  "pick ds used = (case filter (\<lambda>d. \<not> used d) ds of [] \<Rightarrow> - 1 | d # _ \<Rightarrow> d)"

definition simdm :: "simw dmos" where
  "simdm = posix.extend (simpx\<lparr>px_realpath := \<lambda>p w. (Some p, w), px_ftell := \<lambda>f w. (int (length (sw_src w)), w)\<rparr>)
     (dmos.fields
        (\<lambda>used p w. (pick [10, 11, 12, 13] used, w))
        (\<lambda>fd req w. (0, w))
        (\<lambda>w. 0x4000)
        (\<lambda>fd q c w. ((0, if sec_wf c then c else \<lparr>sa_cmd = 0, sa_magic = 0, sa_ret = 0, sa_error = 0,
             sa_uuid = replicate 16 1, sa_libName = replicate 32 0\<rparr>), w))
        (\<lambda>fd q c w. ((0, c), w))
        (\<lambda>w. ((0, 1700000000, 5000), w))
        (\<lambda>n w. (None, w))
        (\<lambda>p w. (None, w))
        (\<lambda>f w. (False, w))
        (\<lambda>a i. 0)
        (\<lambda>w. (0, w))
        (\<lambda>m n w. (0, w))
        (\<lambda>used w. (pick [20] used, w))
        (\<lambda>d ad w. (0, w))
        (\<lambda>d n w. (0, w))
        (\<lambda>used d w. (pick [30] used, w))
        (\<lambda>d w. ((0, \<lparr>uc_pid = 7, uc_uid = 1000\<rparr>), w))
        (\<lambda>d w. (1, w))
        (\<lambda>d n w. ((4, take n [0, 0, 0, 0]), w))
        (\<lambda>d m w. (1, w)))"

definition simpx_id :: "simw posix" where
  "simpx_id = simpx\<lparr>px_realpath := \<lambda>p w. (Some p, w), px_ftell := \<lambda>f w. (int (length (sw_src w)), w)\<rparr>"

lemma sim_px [simp]: "posix.truncate simdm = simpx_id"
  by (simp add: simdm_def posix.defs dmos.defs simpx_def simpx_id_def)

lemma simpx_id_env: "fs_env_ok securec_ref simpx_id fd"
  using simpx_env_ok [of fd]
  by (simp add: simpx_id_def fs_env_ok_def fs_os_ok_def fresh_ok_def copy_ends_def copy_order_def fread_ok_def errno_ok_def tee_ok_def)

lemma pick_new: "\<forall>d \<in> set ds. 0 \<le> d \<Longrightarrow> pick ds u = - 1 \<or> \<not> u (pick ds u) \<and> 0 \<le> pick ds u"
  by (induction ds) (auto simp: pick_def)

lemma simdm_ok: "daemon_os_ok simdm"
proof -
  have "fresh_ok simdm" "fread_ok simdm" by (simp_all add: fresh_ok_def fread_ok_def simdm_def posix.defs dmos.defs simpx_def)
  moreover have "new_fd (\<lambda>u. dm_open simdm u p)" "new_fd (dm_socket simdm)" "new_fd (\<lambda>u. dm_accept simdm u d)" for p d
    using pick_new [of "[10, 11, 12, 13]"] pick_new [of "[20]"] pick_new [of "[30]"]
    by (simp_all add: new_fd_def simdm_def posix.defs dmos.defs)
  moreover have "length (snd (fst (dm_recvmsg simdm d n w))) \<le> n" for d n w by (simp add: simdm_def posix.defs dmos.defs)
  moreover have "sec_wf (snd (fst (dm_sec_event simdm d q c w)))" for d q c w
    by (simp add: simdm_def posix.defs dmos.defs sec_wf_def)
  ultimately show ?thesis by (simp add: daemon_os_ok_def)
qed

lemma simdm_env: "daemon_env securec_ref simdm"
  using simdm_ok securec_ref_ok by (simp add: daemon_env_def)

lemma simdm_fs: "fs_contract securec_ref simdm"
  using simpx_id_env by (simp add: fs_contract_def)

text \<open>The calls of the simulated system, one by one.\<close>

lemma simdm_sel [simp]:
  "dm_open simdm u p w = (pick [10, 11, 12, 13] u, w)" "dm_ioctl simdm fd r w = (0, w)" "dm_buffer simdm w = 0x4000"
  "dm_gettimeofday simdm w = ((0, 1700000000, 5000), w)" "dm_opendir simdm p w = (None, w)" "dm_ferror simdm f w = (False, w)"
  "dm_fill simdm a i = 0" "dm_memset_s simdm w = (0, w)" "dm_memcpy_s simdm m n w = (0, w)"
  "dm_socket simdm u w = (pick [20] u, w)" "dm_bind simdm d ad w = (0, w)" "dm_listen simdm d n w = (0, w)"
  "dm_accept simdm u d w = (pick [30] u, w)" "dm_peercred simdm d w = ((0, \<lparr>uc_pid = 7, uc_uid = 1000\<rparr>), w)"
  "dm_select simdm d w = (1, w)" "dm_recvmsg simdm d n w = ((4, take n [0, 0, 0, 0]), w)" "dm_sendmsg simdm d mh w = (1, w)"
  "px_errno simdm w = sw_errno w" "px_close simdm fd w = w" "px_realpath simdm p w = (Some p, w)" "px_fclose simdm f w = (0, w)"
  "px_stat simdm p w = (if p \<in> set (sw_dirs w @ sw_files w) then 0 else - 1, w)"
  "px_malloc simdm used n w = (if \<not> used 0x100 then 0x100 else if \<not> used 0x200 then 0x200 else NULL, w)"
  "px_fread simdm f n w = (take n (sw_src w), w\<lparr>sw_src := drop n (sw_src w)\<rparr>)"
  "px_fopen simdm usd usedfd p md w = (if \<not> usd 0x1000 \<and> \<not> usedfd 5 then ((0x1000, 5), w\<lparr>sw_files := p # sw_files w\<rparr>)
     else ((NULL, - 1), w\<lparr>sw_errno := 24\<rparr>))"
  by (simp_all add: simdm_def posix.defs dmos.defs simpx_def)

text \<open>The daemon before its start; no hash list exists, and the first file that can be read holds the name of a client.\<close>

definition sd0 :: "simw teecd" where
  "sd0 = \<lparr>g_fsFd = - 1, g_miscFd = - 1, g_secLoadAgentFd = - 1, g_fsControl = NULL, g_miscControl = NULL,
     g_secLoadAgentControl = NULL, g_fsThreadFlag = 0, syncSysTimed = 0, gHashXmlSetted = 0,
     sec_buf = \<lparr>sa_cmd = 0, sa_magic = 0, sa_ret = 0, sa_error = 0, sa_uuid = replicate 16 1, sa_libName = replicate 32 0\<rparr>,
     misc_buf = \<lparr>mc_cmd = 0, mc_ret = 0, mc_magic = 0, mc_seconds = 0, mc_millis = 0, mc_timeStr = []\<rparr>,
     dfds = {}, dstreams = Map.empty, dmem = Map.empty, dtrace = [],
     dworld = \<lparr>sw_dirs = [], sw_files = [], sw_src = map byte_of ''/ca'', sw_dst = [], sw_queue = [], sw_errno = ENOENT\<rparr>\<rparr>"

lemma sd0_cold: "cold sd0" "globals0 sd0" "registered (dtrace sd0) = {}"
  by (simp_all add: cold_def sd0_def globals0_def sec_wf_def)

lemmas sim_ops = dcall_def note_ev_def dused_fd_def pick_def Let_def

lemma pick_10: "dfds s = {} \<Longrightarrow> dstreams s = Map.empty \<Longrightarrow> pick [10, 11, 12, 13] (dused_fd s) = 10"
  by (simp add: pick_def dused_fd_def)

lemma pick_11: "dfds s = {10} \<Longrightarrow> dstreams s = Map.empty \<Longrightarrow> pick [10, 11, 12, 13] (dused_fd s) = 11"
  by (simp add: pick_def dused_fd_def)

lemma pick_12: "dfds s = {11, 10} \<Longrightarrow> dstreams s = Map.empty \<Longrightarrow> pick [10, 11, 12, 13] (dused_fd s) = 12"
  by (simp add: pick_def dused_fd_def)

lemma pick_13: "dfds s = {10, 11, 12} \<Longrightarrow> dstreams s = Map.empty \<Longrightarrow> pick [10, 11, 12, 13] (dused_fd s) = 13"
  by (simp add: pick_def dused_fd_def)

definition sd1 :: "simw teecd" where
  "sd1 = sd0\<lparr>g_fsFd := 10, g_miscFd := 11, g_secLoadAgentFd := 12, g_fsControl := 0x4000, g_miscControl := 0x4000,
     g_secLoadAgentControl := 0x4000, g_fsThreadFlag := 1, dfds := {10, 11, 12},
     dtrace := [Ioctl 12 (REGISTER_AGENT SECFILE_LOAD_AGENT_ID TRANS_BUFF_SIZE) 0, Opened TC_PRIVATE_DEV_NAME 12,
       Ioctl 11 (REGISTER_AGENT AGENT_MISC_ID TRANS_BUFF_SIZE) 0, Opened TC_PRIVATE_DEV_NAME 11,
       Ioctl 10 (REGISTER_AGENT AGENT_FS_ID TRANS_BUFF_SIZE) 0, Opened TC_PRIVATE_DEV_NAME 10]\<rparr>"

lemma sim_AgentInit:
  assumes "pick [10, 11, 12, 13] (dused_fd s) = fd" "0 \<le> fd"
  shows "AgentInit simdm i n s = Some ((fd, Some 0x4000), s\<lparr>dfds := insert fd (dfds s),
    dtrace := Ioctl fd (REGISTER_AGENT i n) 0 # Opened TC_PRIVATE_DEV_NAME fd # dtrace s\<rparr>)"
  using assms by (simp add: AgentInit_def dtee_open_def dioctl_def dcall_def note_ev_def)

lemma sd1_init: "ProcessAgentInit simdm sd0 = Some (0, sd1)"
proof -
  have 0: "dfds sd0 = {}" "dstreams sd0 = Map.empty" by (simp_all add: sd0_def)
  show ?thesis using 0 by (simp add: ProcessAgentInit_def sim_AgentInit pick_10 pick_11 pick_12 sd1_def insert_commute) (simp add: sd0_def)
qed

definition sd2 :: "simw teecd" where
  "sd2 = sd1\<lparr>syncSysTimed := 1, dtrace := [Closed 13, Ioctl 13 (SYC_SYS_TIME 1700000000 5) 0, Opened TC_PRIVATE_DEV_NAME 13] @ dtrace sd1\<rparr>"

lemma sd2_start: "main_start simdm sd0 = Some (0, sd2)"
proof -
  have nf: "IsFileExist_tcu simdm f sd0 = (False, sd0)" for f
    by (simp add: IsFileExist_tcu_def derrno_def sim_ops sd0_def)
  have hf: "hash_files simdm fl c sd0 = Some (c, sd0)" for fl c
    by (induction fl) (simp_all add: nf)
  have l4: "length (GetCaHashFileList HASH_TYPE_WHOLE) = 4" by (simp add: GetCaHashFileList_def)
  have "gHashXmlSetted sd0 = 0" by (simp add: sd0_def)
  then have h: "TcuAuthentication simdm HASH_TYPE_WHOLE sd0 = Some (- 1, sd0)"
    by (simp add: TcuAuthentication_def hf l4)
  have t: "uint32_of 1700000000 = 1700000000" "uint32_of 5000 div 1000 = 5" by (simp_all add: uint32_of_def)
  have s1: "dfds sd1 = {10, 11, 12}" "dstreams sd1 = Map.empty" "syncSysTimed sd1 = 0" by (simp_all add: sd1_def sd0_def)
  have "dtee_open simdm TC_PRIVATE_DEV_NAME sd1 = (13, sd1\<lparr>dfds := {10, 11, 12, 13}, dtrace := Opened TC_PRIVATE_DEV_NAME 13 # dtrace sd1\<rparr>)"
    by (simp add: dtee_open_def pick_13 s1 dcall_def note_ev_def insert_commute)
  moreover have "dfds sd1 = {10, 11, 12, 13} - {13}" by (auto simp: s1)
  ultimately have y: "TrySyncSysTimeToSecure simdm sd1 = Some sd2"
    using s1 by (simp add: TrySyncSysTimeToSecure_def SyncSysTimeToSecure_def dtee_close_def dclose_def dioctl_def dcall_def note_ev_def t sd2_def)
  have w: "fworld (SetFileNumLimit (posix.truncate simdm) (fs0 (dworld sd2))) = dworld sd2"
  proof -
    have px: "px_getrlimit simpx_id w = ((0, 4096), w)" "px_setrlimit simpx_id c m w = (0, w)" for c m w
      by (simp_all add: simpx_id_def simpx_def)
    then show ?thesis by (simp add: SetFileNumLimit_def fcall_def fs0_def)
  qed
  show ?thesis using h sd1_init y w by (simp add: main_start_def)
qed

lemma sim_load_dirs:
  "LoadDynamicDrvDir securec_ref simdm None 0 s = Some s" "LoadDynamicSrvDir securec_ref simdm s = Some s"
proof -
  have "LoadOneDynamicDir securec_ref simdm fd p t s = Some (- 1, s)" for fd p t
    by (simp add: LoadOneDynamicDir_def dcall_def)
  then show "LoadDynamicDrvDir securec_ref simdm None 0 s = Some s" "LoadDynamicSrvDir securec_ref simdm s = Some s"
    by (simp_all add: LoadDynamicDrvDir_def load_default_drv_def LoadDynamicSrvDir_def)
qed

text \<open>A client is served.\<close>

lemma fill: "dm_fill simdm a = (\<lambda>i. 0)" by (rule ext) simp

lemma sim_malloc: "dmem s 0x100 = None \<Longrightarrow> dmalloc simdm n s = (0x100, s\<lparr>dmem := (dmem s)(0x100 \<mapsto> replicate n 0)\<rparr>)"
  "dmem s 0x100 = Some bs \<Longrightarrow> dmem s 0x200 = None \<Longrightarrow> dmalloc simdm n s = (0x200, s\<lparr>dmem := (dmem s)(0x200 \<mapsto> replicate n 0)\<rparr>)"
  by (simp_all add: dmalloc_def dcall_def fill map_replicate_const domIff)

lemma sim_dzero: "dmem s a = Some bs \<Longrightarrow> dzero simdm a s = Some (0, s\<lparr>dmem := (dmem s)(a \<mapsto> replicate (length bs) 0)\<rparr>)"
  by (simp add: dzero_def dcall_def)

definition sd3 :: "simw teecd" where
  "sd3 = sd2\<lparr>dfds := insert 20 (dfds sd2), dmem := [0x100 \<mapsto> replicate sizeof_CaRevMsg 0]\<rparr>"

lemma sd2_fields: "dfds sd2 = {10, 11, 12}" "dstreams sd2 = Map.empty" "dmem sd2 = Map.empty" "syncSysTimed sd2 = 1"
  "sw_src (dworld sd2) = map byte_of ''/ca''"
  by (simp_all add: sd2_def sd1_def sd0_def)

lemma sd3_server: "server_start securec_ref simdm sd2 = Some (Some (20, 0x100), sd3)"
proof -
  have "fst (FormatSockAddr securec_ref) = 0" by (simp add: FormatSockAddr_def securec_ref_def)
  then obtain ad where "FormatSockAddr securec_ref = (0, ad)" by (metis prod.collapse)
  moreover have "pick [20] (dused_fd sd2) = 20" by (simp add: pick_def dused_fd_def sd2_fields)
  ultimately have "CreateSocket securec_ref simdm sd2 = Some (20, sd2\<lparr>dfds := insert 20 (dfds sd2)\<rparr>)"
    by (simp add: CreateSocket_def dcall_def on_sock_def)
  then show ?thesis
    by (simp add: server_start_def dcall_def on_sock_def sim_malloc sim_dzero sd2_fields sd3_def)
qed

lemma sim_name:
  assumes "dstreams s = Map.empty" "5 \<notin> dfds s" "sw_src (dworld s) = map byte_of ''/ca''"
  shows "\<exists>w. TeeGetPkgName securec_ref simdm 7 MAX_PATH_LENGTH s = Some ((0, ''/ca''), s\<lparr>dtrace := Fopen (cmdline 7) # dtrace s, dworld := w\<rparr>)"
proof -
  have c: "length (cmdline 7) < 200" by (simp add: cmdline_def int_fix_def pad_dec_def dec_digits.simps)
  have b: "put_bytes (replicate 1024 0) 0 (map byte_of ''/ca'') = Some (map byte_of ''/ca'' @ replicate 1021 0)"
    by (simp add: put_bytes_def)
  have t: "map chr_of (takeWhile (\<lambda>b. b \<noteq> 0) (take 1023 (map byte_of ''/ca'' @ replicate 1021 0))) = ''/ca''"
  proof -
    have "takeWhile (\<lambda>b. b \<noteq> 0) (take 1023 (map byte_of ''/ca'' @ replicate 1021 0)) = map byte_of ''/ca''" by (simp add: byte_of_def)
    then show ?thesis using chr_of_byte_of_map [of "''/ca''"] by (simp only: map_map)
  qed
  have "ReadCmdLine securec_ref simdm (cmdline 7) CMD_MAX_SIZE MAX_PATH_LENGTH s =
      Some ((3, ''/ca''), s\<lparr>dtrace := Fopen (cmdline 7) # dtrace s, dworld := (dworld s)\<lparr>sw_files := cmdline 7 # sw_files (dworld s), sw_src := []\<rparr>\<rparr>)"
    using assms b t by (simp add: ReadCmdLine_def dfopen_def dcall_def dused_fd_def note_ev_def on_dstream_def read_error_def dfclose_def securec_ref_def)
  moreover have "snprintf_s securec_ref MAX_PATH_LENGTH (MAX_PATH_LENGTH - 1) (cmdline 7) = (int (length (cmdline 7)), cmdline 7)"
    using c by (simp add: securec_ref_def)
  ultimately have "TeeGetPkgName securec_ref simdm 7 MAX_PATH_LENGTH s = Some ((0, ''/ca''),
      s\<lparr>dtrace := Fopen (cmdline 7) # dtrace s, dworld := (dworld s)\<lparr>sw_files := cmdline 7 # sw_files (dworld s), sw_src := []\<rparr>\<rparr>)"
    by (simp add: TeeGetPkgName_def TeeGetCaName_def)
  then show ?thesis by blast
qed

lemma sim_cert:
  assumes "dstreams s = Map.empty" "5 \<notin> dfds s" "sw_src (dworld s) = map byte_of ''/ca''"
  shows "\<exists>l w. TeeGetNativeCert securec_ref simdm 7 uid (of_nat BUF_MAX_SIZE) (replicate BUF_MAX_SIZE 0) s =
    Some ((0, native_cert ''/ca'' uid, l), s\<lparr>dtrace := Fopen (cmdline 7) # dtrace s, dworld := w\<rparr>)"
proof -
  obtain w where n: "TeeGetPkgName securec_ref simdm 7 MAX_PATH_LENGTH s = Some ((0, ''/ca''), s\<lparr>dtrace := Fopen (cmdline 7) # dtrace s, dworld := w\<rparr>)"
    using sim_name [OF assms] by blast
  let ?p = "le_bytes 3 @ map byte_of ''/ca''"
  have 1: "put_u32 (replicate 4096 0) 0 3 = Some (le_bytes 3 @ replicate 4092 0)"
    using put_bytes_at [of "[]" 0 "le_bytes 3" "replicate 4096 0"] by (simp add: put_u32_def)
  have 2: "put_bytes (le_bytes 3 @ replicate 4092 0) 4 (map byte_of ''/ca'') = Some (?p @ replicate 4089 0)"
    by (subst put_bytes_at) simp_all
  have 3: "put_u32 (?p @ replicate 4089 0) 7 4 = Some ((?p @ le_bytes 4) @ replicate 4085 0)"
    unfolding put_u32_def by (subst put_bytes_at) simp_all
  have 4: "put_u32 ((?p @ le_bytes 4) @ replicate 4085 0) 11 uid = Some (native_cert ''/ca'' uid)"
    unfolding put_u32_def by (subst put_bytes_at) (simp_all add: native_cert_def)
  have p: "SetPathToBuf simdm (replicate 4096 0) 0 0 4096 ''/ca'' t = Some ((0, ?p @ replicate 4089 0, 7, 4089), t)" for t
    using 1 2 by (simp add: SetPathToBuf_def dcall_def)
  have u: "SetUidToBuf simdm (?p @ replicate 4089 0) 7 7 4089 uid t = Some ((0, native_cert ''/ca'' uid, 15, 4085), t)" for t
    using 3 4 by (simp add: SetUidToBuf_def dcall_def)
  have "TeeGetNativeCert securec_ref simdm 7 uid (of_nat BUF_MAX_SIZE) (replicate BUF_MAX_SIZE 0) s =
      Some ((0, native_cert ''/ca'' uid, 15), s\<lparr>dtrace := Fopen (cmdline 7) # dtrace s, dworld := w\<rparr>)"
    using n p u by (simp add: TeeGetNativeCert_def)
  then show ?thesis by blast
qed

text \<open>The events of the first client.\<close>

definition ca_login :: "devent list" where
  "ca_login = [Ioctl 13 (LOGIN (Some (native_cert ''/ca'' 1000))) 0, Fopen (cmdline 7), Opened TC_NS_CLIENT_DEV_NAME 13,
     Peer 30 \<lparr>uc_pid = 7, uc_uid = 1000\<rparr>, Accepted 30] @ dtrace sd3"

abbreviation (input) "ca_msg \<equiv> \<lparr>mh_iov = [byte_of (CHR '' '')], mh_rights = Some 13\<rparr>"

lemma sd4_client:
  obtains sd4 where "accept_round securec_ref simdm 20 0x100 sd3 = Some sd4" "dtrace sd4 = [Closed 30, Closed 13] @ Sent 30 ca_msg 1 # ca_login"
proof -
  let ?cr = "\<lparr>uc_pid = 7, uc_uid = 1000\<rparr>"
  let ?z = "replicate sizeof_CaRevMsg (0 :: u8)"
  have f: "dfds sd3 = {20, 10, 11, 12}" "dstreams sd3 = Map.empty" "dmem sd3 = [0x100 \<mapsto> ?z]" "syncSysTimed sd3 = 1"
    "sw_src (dworld sd3) = map byte_of ''/ca''" by (simp_all add: sd3_def sd2_fields)
  let ?t3 = "Peer 30 ?cr # Accepted 30 # dtrace sd3"
  let ?s3 = "sd3\<lparr>dfds := {30, 20, 10, 11, 12}, dtrace := ?t3\<rparr>"
  have a: "daccept simdm 20 sd3 = Some (30, sd3\<lparr>dfds := {30, 20, 10, 11, 12}, dtrace := Accepted 30 # dtrace sd3\<rparr>)"
    by (simp add: daccept_def on_sock_def dcall_def note_ev_def f pick_def dused_fd_def)
  have "put_bytes ?z 0 [0, 0, 0, 0] = Some ?z"
    using put_bytes_at [of "[]" 0 "[0, 0, 0, 0]" ?z] by (simp add: replicate_add [symmetric] numeral_eq_Suc)
  then have r: "RecvCaMsg simdm 30 0x100 ?s3 = Some (0, ?s3)"
    by (simp add: RecvCaMsg_def dcall_def on_sock_def dwrite_def f)
  have o: "dtee_open simdm TC_NS_CLIENT_DEV_NAME ?s3 = (13, ?s3\<lparr>dfds := {13, 30, 20, 10, 11, 12}, dtrace := Opened TC_NS_CLIENT_DEV_NAME 13 # ?t3\<rparr>)"
    by (simp add: dtee_open_def dcall_def note_ev_def pick_def dused_fd_def f)
  let ?s4 = "?s3\<lparr>dfds := {13, 30, 20, 10, 11, 12}, dmem := [0x100 \<mapsto> ?z, 0x200 \<mapsto> replicate BUF_MAX_SIZE 0], dtrace := Opened TC_NS_CLIENT_DEV_NAME 13 # ?t3\<rparr>"
  obtain l w where c: "TeeGetNativeCert securec_ref simdm 7 1000 (of_nat BUF_MAX_SIZE) (replicate BUF_MAX_SIZE 0) ?s4 =
    Some ((0, native_cert ''/ca'' 1000, l), ?s4\<lparr>dtrace := Fopen (cmdline 7) # dtrace ?s4, dworld := w\<rparr>)"
    using sim_cert [of ?s4 1000] f by auto
  let ?b = "native_cert ''/ca'' 1000"
  have lb: "length ?b = BUF_MAX_SIZE" by (rule read_native_cert) simp
  let ?t5 = "Ioctl 13 (LOGIN (Some ?b)) 0 # Fopen (cmdline 7) # Opened TC_NS_CLIENT_DEV_NAME 13 # ?t3"
  have wr: "dwrite 0x200 ?b (?s4\<lparr>dtrace := Fopen (cmdline 7) # dtrace ?s4, dworld := w\<rparr>) =
      Some (?s4\<lparr>dmem := [0x100 \<mapsto> ?z, 0x200 \<mapsto> ?b], dtrace := Fopen (cmdline 7) # dtrace ?s4, dworld := w\<rparr>)"
    using lb by (subst dwrite_live [where bs = "replicate BUF_MAX_SIZE 0"]) simp_all
  have g: "GetLoginInfo securec_ref simdm ?cr 13 0x200 (of_nat BUF_MAX_SIZE) ?s4 =
      Some (0, ?s4\<lparr>dmem := [0x100 \<mapsto> ?z, 0x200 \<mapsto> ?b], dtrace := Fopen (cmdline 7) # dtrace ?s4, dworld := w\<rparr>)"
    using c wr by (simp add: GetLoginInfo_def)
  have un: "[(0x100 :: addr) \<mapsto> ?z](0x200 := None) = [0x100 \<mapsto> ?z]" by auto
  have sl: "SendLoginInfo securec_ref simdm ?cr 0x100 13 (?s3\<lparr>dfds := {13, 30, 20, 10, 11, 12}, dtrace := Opened TC_NS_CLIENT_DEV_NAME 13 # ?t3\<rparr>) =
      Some (0, ?s3\<lparr>dfds := {13, 30, 20, 10, 11, 12}, dtrace := ?t5, dworld := w\<rparr>)"
    using g un f by (simp add: SendLoginInfo_def sim_malloc sim_dzero dioctl_def dcall_def note_ev_def dfree_def)
  let ?s6 = "?s3\<lparr>dfds := {13, 30, 20, 10, 11, 12}, dtrace := Sent 30 ca_msg 1 # ?t5, dworld := w\<rparr>"
  have sf: "SendFileDescriptor simdm 0 30 13 (?s3\<lparr>dfds := {13, 30, 20, 10, 11, 12}, dtrace := ?t5, dworld := w\<rparr>) = Some (0, ?s6)"
    by (simp add: SendFileDescriptor_def dcall_def on_sock_def note_ev_def InitMsg_def)
  have e13: "{13, 30, 20, 10, 11, 12} - {13 :: int} = {30, 20, 10, 11, 12}" by auto
  have "get_u32 ?z 0 = Some 0" by (simp add: get_u32_def le_field_def upt_rec)
  then have pm: "ProcessCaMsg securec_ref simdm ?cr 0x100 30 ?s3 =
      Some (0, ?s3\<lparr>dtrace := Closed 13 # Sent 30 ca_msg 1 # ?t5, dworld := w\<rparr>)"
    using o sl sf f e13 by (simp add: ProcessCaMsg_def dtee_close_def dclose_def note_ev_def)
  let ?t = "[Closed 30, Closed 13] @ Sent 30 ca_msg 1 # ?t5"
  have e30: "{30, 20, 10, 11, 12} - {30 :: int} = {20, 10, 11, 12}" by auto
  have "accept_round securec_ref simdm 20 0x100 sd3 =
      Some (sd3\<lparr>dfds := {20, 10, 11, 12}, dmem := [0x100 \<mapsto> ?z], dtrace := ?t, dworld := w\<rparr>)"
    using a r pm f e30 by (simp add: accept_round_def on_sock_def dcall_def note_ev_def TrySyncSysTimeToSecure_def dclose_def sim_dzero)
  then show thesis by (rule that) (simp add: ca_login_def)
qed

end
