(* ===== verification/Teecd_Image.thy ===== *)
theory Teecd_Image
  imports Teecd_Sim
begin

text \<open>
  What the daemon sends to the driver for a secure file: the bytes of that file.  Files are described by their contents and
  streams by the file and the position they stand at, as for the loader of the client library.
\<close>

section \<open>Contract of the files\<close>

text \<open>
  \<open>content p\<close> are the bytes of the file with the resolved path \<open>p\<close>, \<open>pos f\<close> the file and the position of a stream.  None of the calls
  with which a file is looked up and read changes a file, and nobody else does meanwhile; a stream that is opened for reading starts at the beginning of its
  file; \<open>fseek\<close>, if it succeeds, goes to the end or to the start; \<open>ftell\<close> returns the position, or \<open>- 1\<close>; and \<open>fread\<close> delivers the bytes from the position on,
  maybe not all of them.
\<close>

definition source_ok :: "'w dmos \<Rightarrow> (string \<Rightarrow> 'w \<Rightarrow> u8 list) \<Rightarrow> (addr \<Rightarrow> 'w \<Rightarrow> (string \<times> nat) option) \<Rightarrow> bool" where
  "source_ok os content pos \<longleftrightarrow>
     (\<forall>p w r w'. px_realpath os p w = (r, w') \<longrightarrow> same_content content w w') \<and>
     (\<forall>w r w'. dm_memset_s os w = (r, w') \<longrightarrow> same_content content w w') \<and>
     (\<forall>used usedfd p w f d w'. px_fopen os used usedfd p ''r'' w = ((f, d), w') \<longrightarrow>
        same_content content w w' \<and> (f \<noteq> NULL \<longrightarrow> pos f w' = Some (p, 0))) \<and>
     (\<forall>f w r w' p k. px_fseek os f 0 whence_LAST w = (r, w') \<longrightarrow> pos f w = Some (p, k) \<longrightarrow>
        same_content content w w' \<and> (r = 0 \<longrightarrow> pos f w' = Some (p, length (content p w)))) \<and>
     (\<forall>f w r w' p k. px_fseek os f 0 whence_SET w = (r, w') \<longrightarrow> pos f w = Some (p, k) \<longrightarrow>
        same_content content w w' \<and> (r = 0 \<longrightarrow> pos f w' = Some (p, 0))) \<and>
     (\<forall>f w r w' p k. px_ftell os f w = (r, w') \<longrightarrow> pos f w = Some (p, k) \<longrightarrow>
        same_content content w w' \<and> pos f w' = Some (p, k) \<and> (r = int k \<or> r = - 1)) \<and>
     (\<forall>used n w a w'. px_malloc os used n w = (a, w') \<longrightarrow> same_content content w w' \<and> (\<forall>f. pos f w' = pos f w)) \<and>
     (\<forall>f n w bs w' p k. px_fread os f n w = (bs, w') \<longrightarrow> pos f w = Some (p, k) \<longrightarrow>
        (\<exists>j \<le> n. bs = take j (drop k (content p w))))"

lemma sourceD:
  assumes "source_ok os content pos"
  shows "px_realpath os p w = (q, w') \<Longrightarrow> same_content content w w'"
    and "dm_memset_s os w = (r, w') \<Longrightarrow> same_content content w w'"
    and "px_fopen os used usedfd p ''r'' w = ((f, d), w') \<Longrightarrow> same_content content w w' \<and> (f \<noteq> NULL \<longrightarrow> pos f w' = Some (p, 0))"
    and "px_fseek os f 0 whence_LAST w = (r, w') \<Longrightarrow> pos f w = Some (p, k) \<Longrightarrow>
      same_content content w w' \<and> (r = 0 \<longrightarrow> pos f w' = Some (p, length (content p w)))"
    and "px_fseek os f 0 whence_SET w = (r, w') \<Longrightarrow> pos f w = Some (p, k) \<Longrightarrow>
      same_content content w w' \<and> (r = 0 \<longrightarrow> pos f w' = Some (p, 0))"
    and "px_ftell os f w = (r, w') \<Longrightarrow> pos f w = Some (p, k) \<Longrightarrow>
      same_content content w w' \<and> pos f w' = Some (p, k) \<and> (r = int k \<or> r = - 1)"
    and "px_malloc os usd n w = (a, w') \<Longrightarrow> same_content content w w' \<and> pos f w' = pos f w"
    and "px_fread os f n w = (bs, w') \<Longrightarrow> pos f w = Some (p, k) \<Longrightarrow> (\<exists>j \<le> n. bs = take j (drop k (content p w)))"
proof -
  note c = assms [unfolded source_ok_def]
  note c1 = conjunct1 [OF c] and d1 = conjunct2 [OF c]
  note c2 = conjunct1 [OF d1] and d2 = conjunct2 [OF d1]
  note c3 = conjunct1 [OF d2] and d3 = conjunct2 [OF d2]
  note c4 = conjunct1 [OF d3] and d4 = conjunct2 [OF d3]
  note c5 = conjunct1 [OF d4] and d5 = conjunct2 [OF d4]
  note c6 = conjunct1 [OF d5] and d6 = conjunct2 [OF d5]
  note c7 = conjunct1 [OF d6] and c8 = conjunct2 [OF d6]
  show "px_realpath os p w = (q, w') \<Longrightarrow> same_content content w w'" using c1 by blast
  show "dm_memset_s os w = (r, w') \<Longrightarrow> same_content content w w'" using c2 by blast
  show "px_fopen os used usedfd p ''r'' w = ((f, d), w') \<Longrightarrow> same_content content w w' \<and> (f \<noteq> NULL \<longrightarrow> pos f w' = Some (p, 0))" using c3 by blast
  show "px_fseek os f 0 whence_LAST w = (r, w') \<Longrightarrow> pos f w = Some (p, k) \<Longrightarrow>
      same_content content w w' \<and> (r = 0 \<longrightarrow> pos f w' = Some (p, length (content p w)))" using c4 by blast
  show "px_fseek os f 0 whence_SET w = (r, w') \<Longrightarrow> pos f w = Some (p, k) \<Longrightarrow>
      same_content content w w' \<and> (r = 0 \<longrightarrow> pos f w' = Some (p, 0))" using c5 by blast
  show "px_ftell os f w = (r, w') \<Longrightarrow> pos f w = Some (p, k) \<Longrightarrow>
      same_content content w w' \<and> pos f w' = Some (p, k) \<and> (r = int k \<or> r = - 1)" using c6 by blast
  show "px_malloc os usd n w = (a, w') \<Longrightarrow> same_content content w w' \<and> pos f w' = pos f w" using c7 by blast
  show "px_fread os f n w = (bs, w') \<Longrightarrow> pos f w = Some (p, k) \<Longrightarrow> (\<exists>j \<le> n. bs = take j (drop k (content p w)))" using c8 by blast
qed

lemma path_calls_content:
  assumes "source_ok os content pos" "path_calls os w w'"
  shows "same_content content w w'"
  using assms(2) unfolding path_calls_def
proof (induction rule: rtranclp_induct)
  case (step w1 w2)
  then show ?case using sourceD(1,2) [OF assms(1)] same_content_trans by (metis surjective_pairing)
qed simp

lemma file_bytes_content:
  assumes src: "source_ok os content pos" and p: "pos fp w = Some (p, k)" and fb: "file_bytes os fp w bs"
  shows "bs = content p w"
proof -
  obtain n w1 w2 w3 used where c: "px_fseek os fp 0 whence_LAST w = (0, w1)" "px_ftell os fp w1 = (n, w2)" "px_fseek os fp 0 whence_SET w2 = (0, w3)"
    and n: "int (length bs) = n" and bs: "bs = fst (px_fread os fp (nat n) (snd (px_malloc os used (nat n) w3)))"
    using fb unfolding file_bytes_def read_bytes_def by blast
  obtain a w4 where m: "px_malloc os used (nat n) w3 = (a, w4)" by fastforce
  obtain w5 where r: "px_fread os fp (nat n) w4 = (bs, w5)" using bs m by (metis prod.collapse snd_conv)
  note 1 = sourceD(4) [OF src c(1) p]
  then have p1: "pos fp w1 = Some (p, length (content p w))" by simp
  note 2 = sourceD(6) [OF src c(2) p1]
  then have p2: "pos fp w2 = Some (p, length (content p w))" by simp
  note 3 = sourceD(5) [OF src c(3) p2]
  note 4 = sourceD(7) [OF src m, of fp]
  have p4: "pos fp w4 = Some (p, 0)" using 3 4 by simp
  have same: "content p w4 = content p w" using 1 2 3 4 by (simp add: same_content_def)
  have len: "length bs = length (content p w)" using 2 n by auto
  from sourceD(8) [OF src r p4] obtain j where "j \<le> nat n" "bs = take j (content p w)" using same by auto
  with take_full [of bs j "content p w" "nat n"] n len show ?thesis by auto
qed

lemma opened_bytes_content:
  assumes "source_ok os content pos" "opened_bytes os p w bs"
  shows "bs = content p w"
proof -
  obtain used usedfd fp d w1 where "px_fopen os used usedfd p ''r'' w = ((fp, d), w1)" "fp \<noteq> NULL" and fb: "file_bytes os fp w1 bs"
    using assms(2) unfolding opened_bytes_def by blast
  with sourceD(3) [OF assms(1)] have "same_content content w w1" "pos fp w1 = Some (p, 0)" by blast+
  then show ?thesis using file_bytes_content [OF assms(1) _ fb] by (simp add: same_content_def)
qed

lemma allowed_path_iff: "allowed_path p \<longleftrightarrow> prefix TEE_DEFAULT_PATH p \<or> prefix TEE_FEIMA_DEFAULT_PATH p"
proof -
  have "take (length t) p = t \<longleftrightarrow> prefix t p" for t :: string
    by (metis append_take_drop_id prefixI prefixE append_eq_conv_conj)
  then show ?thesis unfolding allowed_path_def strncmp0_def by (metis take_all order_refl)
qed

text \<open>
  An event of a request to load a file: the opening of a file that is one of those requested, by the path it resolves
  to, or the request to the driver with all the bytes of a file that was opened; \<open>w\<close> is the world in which the request begins.
\<close>

definition load_step :: "'w dmos \<Rightarrow> (string \<Rightarrow> 'w \<Rightarrow> u8 list) \<Rightarrow> 'w \<Rightarrow> SecAgentControlType \<Rightarrow> int \<Rightarrow> devent list \<Rightarrow> devent \<Rightarrow> bool" where
  "load_step os content w b fd tr e \<longleftrightarrow> (\<exists>paths ty uuid path p v. sec_request b = Some (paths, ty, uuid) \<and> path \<in> set paths \<and>
     fst (px_realpath os path v) = Some p \<and> (prefix TEE_DEFAULT_PATH p \<or> prefix TEE_FEIMA_DEFAULT_PATH p) \<and>
     (e = Fopen p \<or> (\<exists>arg r. e = Ioctl fd (LOAD_APP_REQ arg (content p w)) r \<and> sl_fileType arg = ty \<and>
        sl_uuid arg = case_option (replicate 16 0) id uuid \<and> unat (sl_fileSize arg) = length (content p w) \<and>
        0 < length (content p w) \<and> int (length (content p w)) \<le> MAX_BUFFER_LEN \<and> Fopen p \<in> set tr)))"

lemma work_trace_steps:
  assumes src: "source_ok os content pos" and w: "same_content content w w1"
    and wt: "work_trace os w1 fd path ty uuid r tr" and req: "sec_request b = Some (paths, ty, uuid)" "path \<in> set paths"
  shows "list_all (load_step os content w b fd tr) tr"
proof -
  from wt consider "tr = []" | p w2 where "allowed_path p" "px_realpath os path w1 = (Some p, w2)" "tr = [Fopen p]"
    | p w2 e where "allowed_path p" "px_realpath os path w1 = (Some p, w2)" "load_event (opened_bytes os p w2) fd ty uuid r e" "tr = [e, Fopen p]"
    unfolding work_trace_def by blast
  then show ?thesis
  proof cases
    case (2 p w2)
    then have "fst (px_realpath os path w1) = Some p" by simp
    with 2(1) req have "load_step os content w b fd tr (Fopen p)" unfolding load_step_def allowed_path_iff by blast
    then show ?thesis by (simp add: 2)
  next
    case (3 p w2 e)
    then have rp: "fst (px_realpath os path w1) = Some p" by simp
    have "content p w2 = content p w" using sourceD(1) [OF src 3(2)] w by (simp add: same_content_def)
    then have "load_event (\<lambda>bs. bs = content p w) fd ty uuid r e"
      using 3(3) opened_bytes_content [OF src] by (auto elim: load_event_mono)
    then have "load_step os content w b fd tr e"
      using 3(1,4) rp req unfolding load_step_def load_event_def allowed_path_iff by auto
    moreover have "load_step os content w b fd tr (Fopen p)" using 3(1) rp req unfolding load_step_def allowed_path_iff by blast
    ultimately show ?thesis by (simp add: 3(4))
  qed simp
qed

section \<open>A file that is opened\<close>

text \<open>A path that is resolved and accepted is opened.\<close>

lemma SecFileLoadWork_opens:
  assumes os: "daemon_os_ok os" and fd: "fd \<in> dfds s" "0 \<le> fd" and rp: "fst (px_realpath os path (dworld s)) = Some p"
    and "allowed_path p" and run: "SecFileLoadWork os fd path ty uuid s = Some (r, s\<lparr>dtrace := tr @ dtrace s, dworld := w\<rparr>)"
  shows "tr \<noteq> []"
proof
  assume tr: "tr = []"
  obtain w1 where c: "dcall (px_realpath os path) s = (Some p, s\<lparr>dworld := w1\<rparr>)" using rp by (metis dcall_pair)
  show False
  proof (cases rule: dfopen_cases [OF os, of p "''r''" "s\<lparr>dworld := w1\<rparr>"])
    case (1 w2)
    with run fd c assms(5) tr show False by (auto simp: SecFileLoadWork_def dest: arg_cong [of _ _ dtrace])
  next
    case (2 fp d w2)
    let ?s = "s\<lparr>dstreams := (dstreams s)(fp \<mapsto> d), dtrace := Fopen p # dtrace s, dworld := w2\<rparr>"
    obtain q s' where l: "LoadSecFile_agent os fd fp ty uuid ?s = Some (q, s')" and "load_result (file_bytes os fp w2) fd ty uuid ?s (q, s')"
      using LoadSecFile_agent_ok [OF os, of fd ?s fp d ty uuid] fd by (auto simp: ok_iff)
    then have s': "length (dtrace s') > length (dtrace s)" "dstreams s' fp = Some d" by (auto elim: load_resultE)
    obtain w3 where "dfclose os fp s' = Some (s'\<lparr>dstreams := (dstreams s')(fp := None), dworld := w3\<rparr>)" using s'(2) by (rule dfcloseE)
    with run fd c assms(5) tr l 2 s'(1) show False by (auto simp: SecFileLoadWork_def dest: arg_cong [of _ _ dtrace])
  qed
qed

section \<open>Simulated files\<close>

text \<open>
  The simulated system with files that are read at a position: every file holds \<open>sw_src\<close>, and \<open>sw_dst\<close> is the part before the
  position.
\<close>

definition simdm_f :: "simw dmos" where
  "simdm_f = simdm\<lparr>
     px_fopen := \<lambda>used usedfd p m w. if \<not> used 0x1000 \<and> \<not> usedfd 5 then ((0x1000, 5), w\<lparr>sw_files := p # sw_files w, sw_dst := []\<rparr>) else ((NULL, - 1), w),
     px_fread := \<lambda>f n w. (let bs = take n (drop (length (sw_dst w)) (sw_src w)) in (bs, w\<lparr>sw_dst := sw_dst w @ bs\<rparr>)),
     px_fseek := \<lambda>f off wh w. (0, w\<lparr>sw_dst := if wh = whence_LAST then sw_src w else []\<rparr>),
     px_ftell := \<lambda>f w. (int (length (sw_dst w)), w)\<rparr>"

definition sim_content :: "string \<Rightarrow> simw \<Rightarrow> u8 list" where
  "sim_content p w = sw_src w"

definition sim_pos :: "addr \<Rightarrow> simw \<Rightarrow> (string \<times> nat) option" where
  "sim_pos f w = (case sw_files w of [] \<Rightarrow> None | p # _ \<Rightarrow> Some (p, length (sw_dst w)))"

lemma simdm_f_ok: "daemon_os_ok simdm_f" "source_ok simdm_f sim_content sim_pos"
proof -
  show "daemon_os_ok simdm_f"
    using simdm_ok by (auto simp: daemon_os_ok_def fresh_ok_def fread_ok_def new_fd_def simdm_f_def Let_def)
  show "source_ok simdm_f sim_content sim_pos"
    by (auto simp: source_ok_def simdm_f_def same_content_def sim_content_def sim_pos_def Let_def split: list.splits if_splits)
qed

text \<open>A request for an application is answered with success.\<close>

lemma sim_sec_load: "\<exists>t. SecLoadAgentWork securec_ref simdm_f 0x4000 sd2 = Some t \<and> sa_ret (sec_buf t) = 0"
proof -
  let ?u = "sa_uuid (sec_buf sd2)" and ?p = "ta_path TEE_FEIMA_DEFAULT_PATH (replicate 16 1)"
  have b: "sec_buf sd2 = \<lparr>sa_cmd = 0, sa_magic = 0, sa_ret = 0, sa_error = 0, sa_uuid = replicate 16 1, sa_libName = replicate 32 0\<rparr>"
    "g_secLoadAgentFd sd2 = 12" by (simp_all add: sd2_def sd1_def sd0_def)
  have len: "length ?p = 73" by (simp add: ta_path_def uuid_name_def hex_fix_def)
  have al: "allowed_path ?p" by (simp add: allowed_path_iff ta_path_def)
  have path: "GetTaPath securec_ref simdm_f (replicate 16 1) s = ((0, ?p), s)" for s
    using len by (simp add: GetTaPath_def securec_ref_def dcall_def simdm_f_def)
  let ?s = "sd2\<lparr>dstreams := [0x1000 \<mapsto> 5], dtrace := Fopen ?p # dtrace sd2, dworld := (dworld sd2)\<lparr>sw_files := ?p # sw_files (dworld sd2), sw_dst := []\<rparr>\<rparr>"
  have o: "dfopen simdm_f ?p ''r'' sd2 = (0x1000, ?s)"
    by (simp add: dfopen_def dcall_def note_ev_def dused_fd_def sd2_fields simdm_f_def)
  have il: "GetImgLen_agent simdm_f 0x1000 ?s = Some ((0, 3), ?s)"
    by (simp add: GetImgLen_agent_def on_dstream_def dcall_def simdm_f_def sd2_fields)
  let ?b = "map byte_of ''/ca''" and ?w = "dworld ?s"
  have m: "dmalloc simdm_f 3 ?s = (0x100, ?s\<lparr>dmem := [0x100 \<mapsto> replicate 3 0]\<rparr>)"
    by (simp add: dmalloc_def dcall_def simdm_f_def sd2_fields fill map_replicate_const)
  let ?s1 = "?s\<lparr>dmem := [0x100 \<mapsto> ?b], dworld := ?w\<lparr>sw_dst := ?b\<rparr>\<rparr>"
  have r: "on_dstream 0x1000 (px_fread simdm_f 0x1000 3) (?s\<lparr>dmem := [0x100 \<mapsto> replicate 3 0]\<rparr>) =
      Some (?b, ?s\<lparr>dmem := [0x100 \<mapsto> replicate 3 0], dworld := ?w\<lparr>sw_dst := ?b\<rparr>\<rparr>)"
    by (simp add: on_dstream_def dcall_def simdm_f_def sd2_fields Let_def)
  have wr: "dwrite 0x100 ?b (?s\<lparr>dmem := [0x100 \<mapsto> replicate 3 0], dworld := ?w\<lparr>sw_dst := ?b\<rparr>\<rparr>) = Some ?s1"
    by (subst dwrite_live [where bs = "replicate 3 0"]) simp_all
  have cp: "copy_uuid simdm_f (Some u) t = (0, t)" for u t by (simp add: copy_uuid_def dcall_def simdm_f_def)
  let ?arg = "\<lparr>sl_fileType = LOAD_TA, sl_fileSize = 3, sl_uuid = replicate 16 1, sl_file_addr = ucast (0x100 :: addr),
      sl_file_h_addr = ucast (drop_bit 32 (0x100 :: addr))\<rparr>"
  let ?e = "Ioctl 12 (LOAD_APP_REQ ?arg ?b) 0"
  have ad: "load_addr ?arg = 0x100" by (rule load_addr_split)
  have io: "ioctl_load simdm_f 12 ?arg ?s1 = Some (0, ?s1\<lparr>dtrace := ?e # dtrace ?s1\<rparr>)"
    unfolding ioctl_load_def ad by (simp add: get_bytes_def dioctl_def dcall_def note_ev_def simdm_f_def sd2_fields)
  have "uint32_of 3 = 3" by (simp add: uint32_of_def)
  then have l: "load_file simdm_f 12 0x1000 LOAD_TA (Some (replicate 16 1)) 3 ?s = Some ((0, 0x100), ?s1\<lparr>dtrace := ?e # dtrace ?s1\<rparr>)"
    using m r wr cp io by (simp add: load_file_def)
  have ls: "LoadSecFile_agent simdm_f 12 0x1000 LOAD_TA (Some (replicate 16 1)) ?s =
      Some (0, ?s1\<lparr>dmem := Map.empty, dtrace := ?e # dtrace ?s1\<rparr>)"
    using il l by (simp add: LoadSecFile_agent_def dfree_def)
  have "\<exists>t. SecFileLoadWork simdm_f 12 ?p LOAD_TA (Some (replicate 16 1)) sd2 = Some (0, t) \<and> sec_buf t = sec_buf sd2"
    using o ls al by (simp add: SecFileLoadWork_def dcall_def dfclose_def on_dstream_def simdm_f_def)
  then obtain t where "SecFileLoadWork simdm_f 12 ?p LOAD_TA (Some (replicate 16 1)) sd2 = Some (0, t)" "sec_buf t = sec_buf sd2" by blast
  moreover have "set_sec_ret 0 sd2 = sd2" using b by (simp add: set_sec_ret_def)
  ultimately show ?thesis using path [of sd2] b by (simp add: SecLoadAgentWork_def sec_cmd_of_def LoadTa_def)
qed

text \<open>A directory of drivers with one entry.\<close>

definition sim_drv :: "simw dmos" where
  "sim_drv = simdm\<lparr>dm_opendir := \<lambda>p w. (Some [(''a.sec'', True)], w)\<rparr>"

lemma sim_drv_ok: "daemon_os_ok sim_drv"
  using simdm_ok by (simp add: daemon_os_ok_def fresh_ok_def fread_ok_def new_fd_def sim_drv_def)

end
