(* ===== verification/Teecd_Props.thy ===== *)
theory Teecd_Props
  imports Teecd_Main Teecd_Image
begin

text \<open>
  What holds of the daemon \<open>teecd\<close>: its threads, started and interleaved turn by turn in any way, do not run into
  undefined behaviour (the file agent as long as \<open>fclose\<close> does not fail) and leak nothing, the server of the clients goes on for ever, a descriptor of the driver is handed out only
  after the login of the peer, the agents are registered all or not at all, and the requests of the
  secure world and the hash lists get the right answers.
\<close>

section \<open>A run of the simulated daemon\<close>

definition sdd :: "simw daemon" where
  "sdd = \<lparr>da_state = sd2, da_fs = simfs0 simw0, da_fsbuf = req_create\<lparr>magic := AGENT_FS_ID\<rparr>, da_phase = Load_drv\<rparr>"

abbreviation (input) "sim_reach \<equiv> reach (started securec_ref simdm) (daemon_step securec_ref simdm)"

lemma sdd_reach: "sim_reach sdd"
proof -
  have "fs_init (req_create\<lparr>magic := AGENT_FS_ID\<rparr>, simfs0 simw0)" by (simp add: fs_init_def simfs0_def req_defs)
  then have "started securec_ref simdm sdd" using sd0_cold(1) sd2_start by (auto simp: started_def sdd_def)
  then show ?thesis by (rule reach.start)
qed

definition sdd3 :: "simw daemon" where
  "sdd3 = sdd\<lparr>da_state := sd3, da_phase := Server_up 20 0x100\<rparr>"

lemma sdd3_reach: "sim_reach sdd3"
proof -
  have "daemon_step securec_ref simdm sdd (sdd\<lparr>da_phase := Load_srv\<rparr>)"
    using daemon_step.drv [of sdd securec_ref simdm sd2] by (simp add: sdd_def sim_load_dirs)
  with sdd_reach have 1: "sim_reach (sdd\<lparr>da_phase := Load_srv\<rparr>)" by (rule reach.step)
  have "daemon_step securec_ref simdm (sdd\<lparr>da_phase := Load_srv\<rparr>) (sdd\<lparr>da_phase := Server_new\<rparr>)"
    using daemon_step.srv [of "sdd\<lparr>da_phase := Load_srv\<rparr>" securec_ref simdm sd2] by (simp add: sdd_def sim_load_dirs)
  with 1 have 2: "sim_reach (sdd\<lparr>da_phase := Server_new\<rparr>)" by (rule reach.step)
  have "daemon_step securec_ref simdm (sdd\<lparr>da_phase := Server_new\<rparr>) sdd3"
    using daemon_step.server [of "sdd\<lparr>da_phase := Server_new\<rparr>" securec_ref simdm "Some (20, 0x100)" sd3] sd3_server
    by (simp add: sdd_def sdd3_def)
  with 2 show ?thesis by (rule reach.step)
qed

lemma sdd4_reach:
  obtains d where "sim_reach d" "dtrace (da_state d) = [Closed 30, Closed 13] @ Sent 30 ca_msg 1 # ca_login"
proof -
  obtain sd4 where r: "accept_round securec_ref simdm 20 0x100 sd3 = Some sd4"
    and t: "dtrace sd4 = [Closed 30, Closed 13] @ Sent 30 ca_msg 1 # ca_login" by (rule sd4_client)
  have "daemon_step securec_ref simdm sdd3 (sdd3\<lparr>da_state := sd4\<rparr>)"
    by (rule daemon_step.client [where k = 20 and a = "0x100"]) (simp_all add: sdd3_def r)
  with sdd3_reach have "sim_reach (sdd3\<lparr>da_state := sd4\<rparr>)" by (rule reach.step)
  then show thesis by (rule that) (simp add: t)
qed

section \<open>The server goes on\<close>

text \<open>Any number of turns of the loop in \<open>ProcessAccept\<close>.\<close>

fun accept_rounds :: "securec \<Rightarrow> 'w dmos \<Rightarrow> int \<Rightarrow> addr \<Rightarrow> nat \<Rightarrow> 'w teecd \<Rightarrow> 'w teecd option" where
  "accept_rounds sc os sock caInfo 0 s = Some s"
| "accept_rounds sc os sock caInfo (Suc n) s = accept_round sc os sock caInfo s \<bind> accept_rounds sc os sock caInfo n"

lemma accept_rounds_ok:
  assumes sc: "securec_ok sc" and os: "daemon_os_ok os"
  shows "k \<in> dfds s \<Longrightarrow> dmem s a = Some bs \<Longrightarrow> length bs = sizeof_CaRevMsg \<Longrightarrow>
    \<exists>s'. accept_rounds sc os k a n s = Some s' \<and> dfds s' = dfds s \<and> dstreams s' = dstreams s \<and> dom (dmem s') = dom (dmem s)"
proof (induction n arbitrary: s bs)
  case (Suc n)
  obtain s1 where r: "accept_round sc os k a s = Some s1" and sv: "served os a s s1"
    using accept_round_ok [OF sc os Suc.prems(1,2,3)] by (auto simp: ok_iff)
  from sv obtain ys where s1: "dfds s1 = dfds s" "dstreams s1 = dstreams s" "dmem s1 = (dmem s)(a \<mapsto> ys)" "length ys = sizeof_CaRevMsg"
    unfolding served_def by auto
  have "k \<in> dfds s1" "dmem s1 a = Some ys" using s1 Suc.prems by simp_all
  from Suc.IH [OF this s1(4)] obtain s' where "accept_rounds sc os k a n s1 = Some s'" "dfds s' = dfds s1" "dstreams s' = dstreams s1"
    "dom (dmem s') = dom (dmem s1)" by blast
  with r s1 Suc.prems(2) show ?case by auto
qed simp

text \<open>The loop has no way out.\<close>

lemma ProcessAccept_endless: "ProcessAccept sc os sock a s = None"
proof -
  have "False" if "ProcessAccept sc os sock a s = Some s'" for s'
    using that by (rule ProcessAccept.raw_induct [rotated]) (auto simp: bind_eq_Some_conv)
  then show ?thesis by (cases "ProcessAccept sc os sock a s") auto
qed

section \<open>Properties\<close>

lemma sim_no_close_fails: "\<not> fs_close_fails simdm d"
proof -
  have "\<not> fclose_fails simpx_id tc f" for tc f
    by (auto simp: fclose_fails_def simpx_id_def simpx_def split: option.splits)
  then show ?thesis by (simp add: fs_close_fails_def close_fails_def split_def)
qed

lemma sim_clean: "sim_reach d \<Longrightarrow> reach (started securec_ref simdm) (daemon_clean securec_ref simdm) d"
  by (induction rule: reach.induct) (auto simp: daemon_clean_def sim_no_close_fails intro: reach.intros)

text \<open>
  C8. In whatever order the threads of the daemon take their turns, a turn being one round of the loop of a thread, the next turn of each is defined: the loading of
  dynamic drivers and services, the start of the server, the next client, the next event of the load agent and of the miscellaneous agent,
  the late initialisation, and the end of the agents; so is the next event of the file agent, as long as \<open>fclose\<close> has not failed in
  one of its requests to close a file; and the open descriptors, streams and
  heap blocks are exactly those of the agents and of the server.
\<close>

theorem daemon_defined:
  assumes "daemon_env sc os" and "reach (started sc os) (daemon_step sc os) d"
  shows "(da_phase d = Load_drv \<longrightarrow> LoadDynamicDrvDir sc os None 0 (da_state d) \<noteq> None) \<and>
    (da_phase d = Load_srv \<longrightarrow> LoadDynamicSrvDir sc os (da_state d) \<noteq> None) \<and>
    (da_phase d = Server_new \<longrightarrow> server_start sc os (da_state d) \<noteq> None) \<and>
    (\<forall>k a. da_phase d = Server_up k a \<longrightarrow> accept_round sc os k a (da_state d) \<noteq> None) \<and>
    sec_round sc os (g_secLoadAgentControl (da_state d)) (da_state d) \<noteq> None \<and>
    misc_round sc os (g_miscFd (da_state d)) (da_state d) \<noteq> None \<and>
    InitLateWorkThread os (da_state d) \<noteq> None \<and>
    (fs_contract sc os \<and> reach (started sc os) (daemon_clean sc os) d \<longrightarrow> fs_event sc os d \<noteq> None) \<and>
    ProcessAgentExit os (da_state d) \<noteq> None \<and> resources (da_phase d) (da_state d)"
proof -
  have i: "daemon_inv os d" using assms(2,1) by (rule reach_daemon_inv)
  then have "agents_up (da_state d)" "resources (da_phase d) (da_state d)" by (simp_all add: daemon_inv_def)
  moreover have "fs_event sc os d \<noteq> None" if "fs_contract sc os" "reach (started sc os) (daemon_clean sc os) d"
    using fs_event_ok [OF that(1) reach_daemon_fs [OF that(2,1)]] by (auto simp: ok_iff)
  ultimately show ?thesis
    using drv_inv [OF assms(1) i] srv_inv [OF assms(1) i] server_inv [OF assms(1) i] client_inv [OF assms(1) i] load_inv [OF assms(1) i, of "g_secLoadAgentControl (da_state d)"]
      misc_inv [OF i, of sc] late_inv [OF assms(1) i] ProcessAgentExit_ok [of "da_state d" os]
    by (auto simp: ok_iff)
qed

theorem daemon_defined_witness:
  "accept_round securec_ref simdm 20 0x100 (da_state sdd3) \<noteq> None \<and> fs_event securec_ref simdm sdd3 \<noteq> None \<and>
   resources (Server_up 20 0x100) (da_state sdd3)"
proof -
  have up: "da_phase sdd3 = Server_up 20 0x100" by (simp add: sdd3_def)
  show ?thesis using daemon_defined [OF simdm_env sdd3_reach] sim_clean [OF sdd3_reach] simdm_fs up by auto
qed

text \<open>
  C9. A descriptor of the driver is handed to a client only after the login of that client: just before it is sent the
  descriptor was newly opened, the command line of the peer of this very connection was read, and the driver accepted a
  login with a certificate in which a reader finds a name that was read and the user id of the peer; between the
  connection and the opening there is at most a synchronisation of the clock.
\<close>

theorem descriptor_after_login:
  assumes "daemon_env sc os" and "reach (started sc os) (daemon_step sc os) d"
    and "dtrace (da_state d) = es1 @ Sent sock m q # es2" and "mh_rights m = Some fd"
  shows "\<exists>cr name cert tr es. es2 = Ioctl fd (LOGIN (Some cert)) 0 # Fopen (cmdline (uc_pid cr)) #
      Opened TC_NS_CLIENT_DEV_NAME fd # tr @ Peer sock cr # Accepted sock # es \<and>
    read_cert cert = Some (name, uc_uid cr) \<and> name_found os name \<and> list_all time_ev tr"
proof -
  have "authentic os (es1 @ Sent sock m q # es2)" using reach_daemon_inv [OF assms(2,1)] assms(3) by (simp add: daemon_inv_def)
  then have "after_login os sock fd es2" using assms(4) by (rule authentic_sent)
  then obtain cr name tr es where es: "es2 = Ioctl fd (LOGIN (Some (native_cert name (uc_uid cr)))) 0 # Fopen (cmdline (uc_pid cr)) #
      Opened TC_NS_CLIENT_DEV_NAME fd # tr @ Peer sock cr # Accepted sock # es" "list_all time_ev tr" "name_found os name"
    unfolding after_login_def by blast
  have "read_cert (native_cert name (uc_uid cr)) = Some (name, uc_uid cr)"
    using es(3) by (intro read_native_cert) (simp add: name_found_def)
  with es show ?thesis by blast
qed

theorem descriptor_after_login_witness:
  "\<exists>cr name cert tr es. ca_login = Ioctl 13 (LOGIN (Some cert)) 0 # Fopen (cmdline (uc_pid cr)) #
      Opened TC_NS_CLIENT_DEV_NAME 13 # tr @ Peer 30 cr # Accepted 30 # es \<and>
    read_cert cert = Some (name, uc_uid cr) \<and> name_found simdm name \<and> list_all time_ev tr"
proof -
  obtain d where "sim_reach d" "dtrace (da_state d) = [Closed 30, Closed 13] @ Sent 30 ca_msg 1 # ca_login" by (rule sdd4_reach)
  from descriptor_after_login [OF simdm_env this] show ?thesis by simp
qed

text \<open>
  C10. Once it is up, the server serves clients for ever: any number of turns of its loop is
  defined, whatever the clients send and wherever a call fails, every connection is closed again and nothing is
  leaked, and the loop never returns.
\<close>

theorem server_forever:
  assumes "daemon_env sc os" and "reach (started sc os) (daemon_step sc os) d" and "da_phase d = Server_up k a"
  shows "(\<forall>n. \<exists>s. accept_rounds sc os k a n (da_state d) = Some s \<and> dfds s = insert k (snd ` agent_table (da_state d)) \<and>
      dstreams s = Map.empty \<and> dom (dmem s) = {a}) \<and> ProcessAccept sc os k a (da_state d) = None"
proof -
  have env: "securec_ok sc" "daemon_os_ok os" using assms(1) by (simp_all add: daemon_env_def)
  obtain bs where r: "dfds (da_state d) = insert k (snd ` agent_table (da_state d))" "dstreams (da_state d) = Map.empty"
      "dmem (da_state d) = [a \<mapsto> bs]" "length bs = sizeof_CaRevMsg"
    using reach_daemon_inv [OF assms(2,1)] assms(3) by (auto simp: daemon_inv_def resources_def)
  have "\<exists>s. accept_rounds sc os k a n (da_state d) = Some s \<and> dfds s = dfds (da_state d) \<and> dstreams s = dstreams (da_state d) \<and>
      dom (dmem s) = dom (dmem (da_state d))" for n
    by (rule accept_rounds_ok [OF env, of k "da_state d" a bs]) (simp_all add: r)
  then show ?thesis using r(1-3) by (simp add: ProcessAccept_endless)
qed

theorem server_forever_witness: "\<exists>s. accept_rounds securec_ref simdm 20 0x100 1000 sd3 = Some s \<and> dom (dmem s) = {0x100}"
proof -
  have up: "da_phase sdd3 = Server_up 20 0x100" "da_state sdd3 = sd3" by (simp_all add: sdd3_def)
  show ?thesis using server_forever [OF simdm_env sdd3_reach up(1)] up(2) by auto
qed

text \<open>
  C19. The certificate of a client: whatever the command line of the process contains, building it in a buffer of 4096 zero
  bytes stays inside of the buffer and leaks nothing, and on success a reader of the buffer gets back a name that was
  read, of less than 255 characters, and exactly the user id; the length that is returned is the end of the user id, and
  only zeros follow.
\<close>

theorem native_cert_roundtrip:
  assumes "securec_ok sc" and "daemon_os_ok os"
  shows "\<exists>r buf l s'. TeeGetNativeCert sc os pid uid (of_nat BUF_MAX_SIZE) (replicate BUF_MAX_SIZE 0) s = Some ((r, buf, l), s') \<and>
    dfds s' = dfds s \<and> dstreams s' = dstreams s \<and> dmem s' = dmem s \<and> length buf = BUF_MAX_SIZE \<and>
    (r = 0 \<longrightarrow> (\<exists>name. name_found os name \<and> length name < 255 \<and> read_cert buf = Some (name, uid) \<and> unat l = 12 + length name \<and>
       drop (unat l) buf = replicate (BUF_MAX_SIZE - unat l) 0))"
proof -
  obtain r buf l tr w where g: "TeeGetNativeCert sc os pid uid (of_nat BUF_MAX_SIZE) (replicate BUF_MAX_SIZE 0) s =
      Some ((r, buf, l), s\<lparr>dtrace := tr @ dtrace s, dworld := w\<rparr>)" and len: "length buf = BUF_MAX_SIZE"
    and ok: "r = 0 \<Longrightarrow> \<exists>name. name_found os name \<and> buf = native_cert name uid \<and> unat l = 12 + length name \<and> tr = [Fopen (cmdline pid)]"
    by (rule TeeGetNativeCert_ok [OF assms, of pid uid s]) (rule that)
  have "\<exists>name. name_found os name \<and> length name < 255 \<and> read_cert buf = Some (name, uid) \<and> unat l = 12 + length name \<and>
      drop (unat l) buf = replicate (BUF_MAX_SIZE - unat l) 0" if r: "r = 0"
  proof -
    from ok [OF r] obtain name where n: "name_found os name" "buf = native_cert name uid" "unat l = 12 + length name" by blast
    then have "length name < 255" "read_cert buf = Some (name, uid)"
      using read_native_cert(1) [of name uid] by (simp_all add: name_found_def)
    moreover have "drop (unat l) buf = replicate (BUF_MAX_SIZE - unat l) 0" using n(2,3) by (simp add: native_cert_def Let_def)
    ultimately show ?thesis using n by blast
  qed
  with g len show ?thesis by fastforce
qed

theorem native_cert_roundtrip_witness: "read_cert (native_cert ''/ca'' 1000) = Some (''/ca'', 1000)"
proof -
  have f: "dstreams sd2 = Map.empty" "5 \<notin> dfds sd2" "sw_src (dworld sd2) = map byte_of ''/ca''" by (simp_all add: sd2_fields)
  obtain l w where "TeeGetNativeCert securec_ref simdm 7 1000 (of_nat BUF_MAX_SIZE) (replicate BUF_MAX_SIZE 0) sd2 =
      Some ((0, native_cert ''/ca'' 1000, l), sd2\<lparr>dtrace := Fopen (cmdline 7) # dtrace sd2, dworld := w\<rparr>)"
    using sim_cert [OF f] by blast
  with native_cert_roundtrip [OF securec_ref_ok simdm_ok, of 7 1000 sd2]
  obtain name where n: "read_cert (native_cert ''/ca'' 1000) = Some (name, 1000)" by auto
  moreover have "name = ''/ca''" using n read_native_cert(1) [of "''/ca''" 1000] by simp
  ultimately show ?thesis by simp
qed

text \<open>
  C20. The registration of the agents, from the state the program starts with: on success the agent for
  miscellaneous requests and the one that loads files are registered on new descriptors of their own, the file agent
  if it could be, nothing else is registered, and the end of the agents takes all of this back; on failure
  no agent is registered, no descriptor is open that was not open before, and the static variables are as at the start.
\<close>

theorem agents_all_or_nothing:
  assumes "daemon_os_ok os" and "globals0 s" and "registered (dtrace s) = {}"
  shows "\<exists>r s1. ProcessAgentInit os s = Some (r, s1) \<and>
    (if r = 0
     then registered (dtrace s1) = agent_table s1 \<and> inj_on snd (agent_table s1) \<and> snd ` agent_table s1 \<inter> dfds s = {} \<and>
       dfds s1 = dfds s \<union> snd ` agent_table s1 \<and>
       (\<exists>s2. ProcessAgentExit os s1 = Some s2 \<and> registered (dtrace s2) = {} \<and> dfds s2 = dfds s)
     else r = - 1 \<and> globals0 s1 \<and> registered (dtrace s1) = {} \<and> dfds s1 = dfds s)"
proof -
  obtain r s1 where i: "ProcessAgentInit os s = Some (r, s1)" and st: "agents_started s (r, s1)"
    using ProcessAgentInit_ok [OF assms] by (auto simp: ok_iff)
  show ?thesis
  proof (cases "r = 0")
    case True
    with st have up: "agents_up s1" and a: "registered (dtrace s1) = agent_table s1" "snd ` agent_table s1 \<inter> dfds s = {}"
      "dfds s1 = dfds s \<union> snd ` agent_table s1" by (auto simp: agents_started_def)
    have "inj_on snd (agent_table s1)" using up by (auto simp: agents_up_def agent_table_def inj_on_def)
    moreover have d: "dfds s \<union> snd ` agent_table s1 - snd ` agent_table s1 = dfds s" using a(2) by blast
    moreover obtain s2 where "ProcessAgentExit os s1 = Some s2" "registered (dtrace s2) = {}" "dfds s2 = dfds s"
      using ProcessAgentExit_ok [OF up, of os] by (auto simp: ok_iff a d)
    ultimately show ?thesis using i a True by auto
  next
    case False
    with st have e: "dext quiet s s1" "registered (dtrace s1) = {}" "r = - 1" by (auto simp: agents_started_def)
    then show ?thesis using i False assms(2) by (auto simp: globals0_def dext_sel [OF e(1)])
  qed
qed

theorem agents_all_or_nothing_witness:
  "registered (dtrace sd1) = agent_table sd1 \<and> (\<exists>s2. ProcessAgentExit simdm sd1 = Some s2 \<and> registered (dtrace s2) = {} \<and> dfds s2 = {})"
  using agents_all_or_nothing [OF simdm_ok sd0_cold(2,3)] by (simp add: sd1_init) (simp add: sd0_def)

text \<open>
  C18. A request of the secure world to load a file is answered exactly: the answer differs from the request only in the
  result and the error number; the result is 0 exactly if the driver accepted a request to load; and whatever is opened or sent to the driver, accepted or not, belongs to the
  request: one of the two names of the application or library resolved to a path that begins with one of two fixed strings, this file
  was opened, and the driver was given on the descriptor of the agent all the bytes of this file, no more than 8 MiB, with their
  number, and with the type and the UUID of the request.  Nothing is leaked.
\<close>

theorem sec_load_exact:
  assumes "securec_ok sc" and "daemon_os_ok os" and "source_ok os content pos" and "agents_up s" and "sec_wf (sec_buf s)" and "a \<noteq> NULL"
  shows "\<exists>c tr w. SecLoadAgentWork sc os a s = Some (s\<lparr>sec_buf := c, dtrace := tr @ dtrace s, dworld := w\<rparr>) \<and>
    c = (sec_buf s)\<lparr>sa_ret := sa_ret c, sa_error := sa_error c\<rparr> \<and>
    (sa_ret c = 0 \<longleftrightarrow> (\<exists>arg bs. Ioctl (g_secLoadAgentFd s) (LOAD_APP_REQ arg bs) 0 \<in> set tr)) \<and>
    list_all (load_step os content (dworld s) (sec_buf s) (g_secLoadAgentFd s) tr) tr"
proof -
  let ?fd = "g_secLoadAgentFd s"
  have "ok (SecLoadAgentWork sc os a s) (answered os s)"
    using assms by (intro SecLoadAgentWork_ok agent_fds) (simp_all add: sec_wf_def)
  then obtain c tr w where run: "SecLoadAgentWork sc os a s = Some (s\<lparr>sec_buf := c, dtrace := tr @ dtrace s, dworld := w\<rparr>)"
    and ans: "sec_answer os (dworld s) (sec_buf s) ?fd c tr" by (auto simp: ok_iff answered_def)
  have same: "c = (sec_buf s)\<lparr>sa_ret := sa_ret c, sa_error := sa_error c\<rparr>" using ans by (simp add: sec_answer_def)
  consider "sa_ret c \<noteq> 0" "tr = []" | paths ty uuid path r w1 where "path_calls os (dworld s) w1"
      "sec_request (sec_buf s) = Some (paths, ty, uuid)" "path \<in> set paths"
      "work_trace os w1 ?fd path ty uuid r tr" "sa_ret c = 0 \<longleftrightarrow> r = 0"
    using ans unfolding sec_answer_def by blast
  then show ?thesis
  proof cases
    case 1
    show ?thesis by (rule exI [of _ c], rule exI [of _ tr], rule exI [of _ w]) (use run same 1 in auto)
  next
    case (2 paths ty uuid path r w1)
    then have "(sa_ret c = 0 \<longleftrightarrow> (\<exists>arg bs. Ioctl ?fd (LOAD_APP_REQ arg bs) 0 \<in> set tr))"
      by (auto simp: work_trace_def load_event_def)
    moreover have "list_all (load_step os content (dworld s) (sec_buf s) ?fd tr) tr"
      using work_trace_steps [OF assms(3) path_calls_content [OF assms(3) 2(1)] 2(4,2,3)] .
    ultimately show ?thesis using run same by blast
  qed
qed

theorem sec_load_exact_witness:
  "\<exists>c tr w arg. SecLoadAgentWork securec_ref simdm_f 0x4000 sd2 = Some (sd2\<lparr>sec_buf := c, dtrace := tr @ dtrace sd2, dworld := w\<rparr>) \<and>
    sa_ret c = 0 \<and> Ioctl 12 (LOAD_APP_REQ arg (map byte_of ''/ca'')) 0 \<in> set tr"
proof -
  have f: "agents_up sd2" "sec_wf (sec_buf sd2)" "(0x4000 :: addr) \<noteq> NULL" and fd: "g_secLoadAgentFd sd2 = 12"
    by (simp_all add: sd2_def sd1_def sd0_def sec_wf_def agents_up_def agent_table_def)
  obtain c tr w where run: "SecLoadAgentWork securec_ref simdm_f 0x4000 sd2 = Some (sd2\<lparr>sec_buf := c, dtrace := tr @ dtrace sd2, dworld := w\<rparr>)"
    and acc: "sa_ret c = 0 \<longleftrightarrow> (\<exists>arg bs. Ioctl 12 (LOAD_APP_REQ arg bs) 0 \<in> set tr)"
    and steps: "list_all (load_step simdm_f sim_content (dworld sd2) (sec_buf sd2) 12 tr) tr"
    using sec_load_exact [OF securec_ref_ok simdm_f_ok(1,2) f] unfolding fd by blast
  obtain t where "SecLoadAgentWork securec_ref simdm_f 0x4000 sd2 = Some t" "sa_ret (sec_buf t) = 0" using sim_sec_load by blast
  with run have r: "sa_ret c = 0" by simp
  with acc obtain arg bs where io: "Ioctl 12 (LOAD_APP_REQ arg bs) 0 \<in> set tr" by blast
  with steps have "load_step simdm_f sim_content (dworld sd2) (sec_buf sd2) 12 tr (Ioctl 12 (LOAD_APP_REQ arg bs) 0)"
    by (simp add: list_all_iff)
  then have "bs = map byte_of ''/ca''" by (auto simp: load_step_def sim_content_def sd2_fields)
  with run r io show ?thesis by blast
qed

text \<open>
  C21. The hash lists of known clients: the result is 0 exactly if the driver accepted all lists of the type in this call, and
  then the flag is set; otherwise it is \<open>-1\<close> and the flag is as before.  Files, descriptors and buffers are released on every
  path.  Once the flag is set, nothing is sent any more, and every further call fails.
\<close>

theorem tcu_all_lists:
  assumes "daemon_os_ok os"
  shows "\<exists>r s' tr. TcuAuthentication os t s = Some (r, s') \<and> dtrace s' = tr @ dtrace s \<and>
    (if hashes tr = length (GetCaHashFileList t) then r = 0 \<and> gHashXmlSetted s' = 1 else r = - 1 \<and> gHashXmlSetted s' = gHashXmlSetted s) \<and>
    dfds s' = dfds s \<and> dstreams s' = dstreams s \<and> dmem s' = dmem s \<and> (gHashXmlSetted s \<noteq> 0 \<longrightarrow> r = - 1 \<and> s' = s)"
proof -
  have "ok (TcuAuthentication os t s) (hashed t s)" using assms by (rule TcuAuthentication_ok)
  then obtain r s' where h: "TcuAuthentication os t s = Some (r, s')" "hashed t s (r, s')" by (auto simp: ok_iff)
  from h(2) obtain b tr w where s': "s' = s\<lparr>gHashXmlSetted := b, dtrace := tr @ dtrace s, dworld := w\<rparr>"
    and "if hashes tr = length (GetCaHashFileList t) then r = 0 \<and> b = 1 else r = - 1 \<and> b = gHashXmlSetted s"
    unfolding hashed_def by auto
  moreover have "r = - 1 \<and> s' = s" if "gHashXmlSetted s \<noteq> 0"
  proof -
    have "(of_nat (length (GetCaHashFileList t)) :: u8) \<noteq> 0" by (simp add: GetCaHashFileList_def)
    with that h(1) show ?thesis by (simp add: TcuAuthentication_def)
  qed
  ultimately show ?thesis using h(1) by (intro exI [of _ r] exI [of _ s'] exI [of _ tr]) simp
qed

theorem tcu_all_lists_witness: "\<exists>s'. TcuAuthentication simdm HASH_TYPE_WHOLE (sd2\<lparr>gHashXmlSetted := 1\<rparr>) = Some (- 1, s')"
  using tcu_all_lists [OF simdm_ok, of HASH_TYPE_WHOLE "sd2\<lparr>gHashXmlSetted := 1\<rparr>"] by auto

text \<open>
  C40. Two gaps in the checks of paths.  Every file whose resolved path begins with the name of the directory of trusted files is
  opened for loading, whatever follows the name, so also a file in a directory whose name only begins like that.  And in the first of the directories of dynamic
  drivers, whose name ends without a slash, no file is ever opened, whatever entries it has: the name of an entry is appended directly to that of
  the directory.
\<close>

theorem load_path_gaps:
  assumes "securec_ok sc" and "daemon_os_ok os" and "fd \<in> dfds s" and "0 \<le> fd"
  shows "(fst (px_realpath os path (dworld s)) = Some (TEE_DEFAULT_PATH @ x) \<longrightarrow>
      (\<exists>r tr w. SecFileLoadWork os fd path ty uuid s = Some (r, s\<lparr>dtrace := tr @ dtrace s, dworld := w\<rparr>) \<and> Fopen (TEE_DEFAULT_PATH @ x) \<in> set tr)) \<and>
    ((\<forall>n \<in> dir_names os DYNAMIC_DRV_FEIMA_DIR. CHR ''/'' \<notin> set n) \<longrightarrow>
      (\<exists>r tr w. LoadOneDynamicDir sc os fd DYNAMIC_DRV_FEIMA_DIR ty s = Some (r, s\<lparr>dtrace := tr @ dtrace s, dworld := w\<rparr>) \<and>
        (\<forall>n. Fopen (DYNAMIC_DRV_FEIMA_DIR @ ''/'' @ n) \<notin> set tr)))"
proof (intro conjI impI)
  let ?p = "TEE_DEFAULT_PATH @ x"
  assume rp: "fst (px_realpath os path (dworld s)) = Some ?p"
  obtain r s' where "SecFileLoadWork os fd path ty uuid s = Some (r, s')" "worked os fd path ty uuid s (r, s')"
    using SecFileLoadWork_ok [OF assms(2,3), of path ty uuid] by (auto simp: ok_iff)
  then obtain tr w where run: "SecFileLoadWork os fd path ty uuid s = Some (r, s\<lparr>dtrace := tr @ dtrace s, dworld := w\<rparr>)"
    and wt: "work_trace os (dworld s) fd path ty uuid r tr" unfolding worked_def by auto
  have "tr \<noteq> []" using SecFileLoadWork_opens [OF assms(2,3,4) rp _ run] by (simp add: allowed_path_iff)
  with wt rp have "Fopen ?p \<in> set tr" by (auto simp: work_trace_def)
  with run show "\<exists>r tr w. SecFileLoadWork os fd path ty uuid s = Some (r, s\<lparr>dtrace := tr @ dtrace s, dworld := w\<rparr>) \<and> Fopen ?p \<in> set tr"
    by blast
next
  let ?d = "DYNAMIC_DRV_FEIMA_DIR"
  assume names: "\<forall>n \<in> dir_names os ?d. CHR ''/'' \<notin> set n"
  obtain r s' where run: "LoadOneDynamicDir sc os fd ?d ty s = Some (r, s')" and d: "dext (dyn_ev (dir_names os ?d) ?d fd) s s'"
    using LoadOneDynamicDir_ok [OF assms(1-3), of ?d ty] by (auto simp: ok_iff)
  from d obtain tr w where s': "s' = s\<lparr>dtrace := tr @ dtrace s, dworld := w\<rparr>" and t: "list_all (dyn_ev (dir_names os ?d) ?d fd) tr" by (rule dextE)
  have "Fopen (?d @ ''/'' @ n) \<notin> set tr" for n
  proof
    assume "Fopen (?d @ ''/'' @ n) \<in> set tr"
    with t have "''/'' @ n \<in> dir_names os ?d" by (auto simp: list_all_iff dyn_ev_def)
    with names show False by force
  qed
  with run s' show "\<exists>r tr w. LoadOneDynamicDir sc os fd ?d ty s = Some (r, s\<lparr>dtrace := tr @ dtrace s, dworld := w\<rparr>) \<and>
      (\<forall>n. Fopen (?d @ ''/'' @ n) \<notin> set tr)" by blast
qed

theorem load_path_gaps_witness:
  "(\<exists>r tr w. SecFileLoadWork simdm 12 ''/vendor/bin2/x.sec'' LOAD_LIB None sd2 = Some (r, sd2\<lparr>dtrace := tr @ dtrace sd2, dworld := w\<rparr>) \<and>
      Fopen ''/vendor/bin2/x.sec'' \<in> set tr) \<and>
   (\<exists>r tr w. LoadOneDynamicDir securec_ref sim_drv 12 DYNAMIC_DRV_FEIMA_DIR LOAD_LIB sd2 = Some (r, sd2\<lparr>dtrace := tr @ dtrace sd2, dworld := w\<rparr>) \<and>
      Fopen (DYNAMIC_DRV_FEIMA_DIR @ ''/a.sec'') \<notin> set tr)"
proof
  have fd: "12 \<in> dfds sd2" "(0 :: int) \<le> 12" by (simp_all add: sd2_fields)
  show "\<exists>r tr w. SecFileLoadWork simdm 12 ''/vendor/bin2/x.sec'' LOAD_LIB None sd2 = Some (r, sd2\<lparr>dtrace := tr @ dtrace sd2, dworld := w\<rparr>) \<and>
      Fopen ''/vendor/bin2/x.sec'' \<in> set tr"
    using load_path_gaps [OF securec_ref_ok simdm_ok fd, of "''/vendor/bin2/x.sec''" "''2/x.sec''" LOAD_LIB None] by simp
  have "\<forall>n \<in> dir_names sim_drv DYNAMIC_DRV_FEIMA_DIR. CHR ''/'' \<notin> set n" by (auto simp: dir_names_def sim_drv_def)
  with load_path_gaps [OF securec_ref_ok sim_drv_ok fd, of "[]" "[]" LOAD_LIB None]
  show "\<exists>r tr w. LoadOneDynamicDir securec_ref sim_drv 12 DYNAMIC_DRV_FEIMA_DIR LOAD_LIB sd2 = Some (r, sd2\<lparr>dtrace := tr @ dtrace sd2, dworld := w\<rparr>) \<and>
      Fopen (DYNAMIC_DRV_FEIMA_DIR @ ''/a.sec'') \<notin> set tr" by auto
qed

end
