(* ===== verification/Spec2Isabelle.thy ===== *)
theory Spec2Isabelle
  imports Prelude Bitmap List_Node Api_Types Api_Param Api_Shm Api_Session Api_Inv Api_Teardown Api_Calls Api_Open
    Api_Alloc Api_Steps App_Load App_Image C_String Fs_Types Fs_Path Fs_Files Fs_Work Fs_Tree Fs_Inv Fs_Agent Fs_Sim Fs_Props
    Tlog_Types Tlog_Zip Tlog_Files Tlog_Table Tlog_Tag Tlog_Item Tlog_Reader Tlog_Props Tlog_Main
    Teecd_Types Teecd_Rules Teecd_Agent Teecd_Load Teecd_Auth Teecd_Ca Teecd_Main Teecd_Sim Teecd_Image Teecd_Props
begin

text \<open>
  \<^bold>\<open>The client side of a trusted execution environment (TEE).\<close>

  The repository holds what runs in the normal world beside a TEE: a library with which client
  applications open sessions to trusted applications (\<open>src/frameworks/libteec_vendor\<close>), a daemon with
  agents that the secure world calls for files and for loading code and a server that hands descriptors of the
  driver to clients (\<open>src/services/teecd\<close>, with \<open>src/services/authentication\<close>), and a reader
  for the log of the secure world (\<open>src/services/tlogcat\<close>).  The parts meet at the driver: the library
  gets its descriptor from the daemon over a socket and talks to the driver by \<open>ioctl\<close>, the agents wait for
  requests of the secure world in a shared buffer, and the log reader reads the log device.

  \<^bold>\<open>How the code is modelled.\<close>  Each C function is a HOL function of the same name.  A function
  with effects takes the state last and returns \<open>(result \<times> state) option\<close>; \<open>None\<close> is undefined behaviour
  (a null or dangling pointer, an index outside an array, the use of a closed stream or of freed
  memory, taking a mutex twice) or a loop that does not end.  The state of a component is a record of its global
  variables, of its heap as maps from addresses, of its open descriptors and streams, and of a world of a type
  that stays abstract.  The operating system, the driver, the secure world and the libraries outside of the
  repository (\<open>securec\<close>, zlib, hilog) are records of functions on this world (\<open>os\<close>, \<open>posix\<close>, \<open>dmos\<close>,
  \<open>logos\<close>, \<open>securec\<close>); what the proofs need of them (a new descriptor is not in use, \<open>memcpy_s\<close> succeeds exactly
  if the bytes fit, a file ends) are named predicates, and the witnesses use concrete instances that meet them.
  A local helper of the model that is not a function of the source is a loop of one (\<open>open_retry\<close>,
  \<open>find_from\<close>, \<open>read_items\<close>) or a part of one.  The build is the vendor library on a 64-bit little-endian
  machine, without \<open>CONFIG_BACKUP_PARTITION\<close> and without the smart-lock variants, the standard build of the daemon with
  its dynamic driver and service directories, and the log reader with
  \<open>CONFIG_TLOGCAT_TAG\<close> and \<open>CONFIG_TEE_PRIVATE_LOGFILE\<close>.  Logging, time stamps and memory barriers are
  left out.

  \<^bold>\<open>Shared theories.\<close>  \<open>Prelude\<close>: machine types, total correctness (\<open>ok\<close>), reachable states and the
  locale \<open>invariant\<close>, arrays, files described by their contents, bits.  \<open>C_String\<close>: C strings, byte buffers, the contract of \<open>securec\<close>.
  \<open>List_Node\<close>: the intrusive list of \<open>tee_client_list.h\<close> at the level of its pointers; \<open>dll\<close> relates it to HOL
  lists, and the operations refine insertion, removal and traversal.  \<open>Bitmap\<close>: the bit map of shared-memory
  slots; allocation takes the least free slot and stays inside the array.

  \<^bold>\<open>The client library.\<close>  \<open>Api_Types\<close> has the structures, the store and the operating system,
  \<open>Api_Param\<close> the checking and encoding of operation parameters, \<open>Ca_Socket\<close> the connection to the
  daemon, \<open>App_Load\<close> the loading of images into heap buffers with their bytes, \<open>Api_Shm\<close> and \<open>Api_Session\<close> the reference counts, the teardown and
  the entry points of \<open>tee_client_api.c\<close>.  \<open>Api_Inv\<close> states the invariant of contexts, sessions and
  shared memory; \<open>Api_Teardown\<close>, \<open>Api_Calls\<close>, \<open>Api_Open\<close> and \<open>Api_Alloc\<close> show that the operations
  keep it, and \<open>Api_Steps\<close> composes them into sequences of calls.  The theorems say that no sequence of calls with valid
  pointers runs into undefined behaviour, that reference counts are exact and lists hold no dangling pointer,
  that two blocks never share a slot, what parameter checks accept, that opening a session registers it and frees the
  image, and that nothing leaks; others say what an answer of the driver becomes and what goes wrong with shared references.
  \<open>App_Image\<close> shows that the bytes \<open>TEEC_GetApp\<close> loads are those of the image in a requested file, as the header of the file describes it;
  \<open>stdio_ok\<close> describes streams by a file and a position in it.
  The retry loop of \<open>TEEC_DoOpenSession\<close> carries the 200 attempts of the code as its bound.  \<open>Api_Sim\<close> is an operating
  system for the witnesses.

  \<^bold>\<open>The file agent.\<close>  \<open>Fs_Types\<close> has the request buffer as its header and the bytes of its union, the state
  and the POSIX calls, \<open>Fs_Path\<close> the building and checking of paths, \<open>Fs_Files\<close> the ring of open
  files, \<open>Fs_Work\<close> every request, the dispatch table and the loop of the thread
  (\<open>fs_work_agent.c\<close>).  \<open>Fs_Tree\<close> treats directories and copies, \<open>Fs_Inv\<close> shows that each
  request keeps the invariant, \<open>Fs_Agent\<close> makes the events a step relation and
  \<open>Fs_Props\<close> has the theorems: no well-formed request is undefined or endless, the ring holds exactly the
  open streams, open and close refine a table of descriptors, removing a tree stays inside it, files are
  opened only inside the storage directories, names determine paths.  Every call may fail, but a failed \<open>fclose\<close> in a
  request to close a file leaves a dead node in the ring: the code is then wrong, which is shown too, and the theorems about
  reached states are about runs in which this has not happened yet (\<open>clean_step\<close>).  A tree is a path with its extensions by names of
  entries (\<open>below\<close>); a path through \<open>.\<close> or \<open>..\<close> is not in it.  \<open>UnlinkRecursive\<close> has a bound on its depth; \<open>PATH_MAX\<close>
  levels are enough (lemma \<open>UnlinkRecursive_returns\<close>), because each level makes the path longer and a path of \<open>PATH_MAX\<close>
  characters is refused.  The copy loop is a partial function that is shown to return on regular
  files (\<open>copy_ends\<close>: reading some bytes and writing just these to a newly opened file leaves less to read, also if it is the same file).  \<open>Fs_Sim\<close> is the operating system of the witnesses.

  \<^bold>\<open>The daemon.\<close>  \<open>Teecd_Types\<close> has the shared buffers, the static variables, the calls of the system and a history of what
  the daemon tells the outside (requests to the driver, files, replies), which no operation reads; \<open>Teecd_Rules\<close> has
  the rules of the calls and the relation \<open>dext\<close> of operations that leak and change nothing.  \<open>Teecd_Agent\<close> models the
  registration of the agents, the clock, the late initialisation and the miscellaneous agent
  (\<open>tee_agent.c\<close>, \<open>late_init_agent.c\<close>, \<open>misc_work_agent.c\<close>), \<open>Teecd_Load\<close> the loading of secure files and of dynamic
  drivers and services (\<open>secfile_load_agent.c\<close>, \<open>tee_load_dynamic.c\<close>), \<open>Teecd_Auth\<close> the certificates of
  clients and the hash lists (\<open>tee_auth_common.c\<close>, \<open>tee_get_native_cert.c\<close>, \<open>tcu_authentication.c\<close>), \<open>Teecd_Ca\<close> the server
  for clients (\<open>tee_ca_auth.c\<close>, \<open>tee_ca_daemon.c\<close>).  \<open>Teecd_Main\<close> composes them, with the file agent, into the start
  of the program and the step relation of its threads, whose grain is one turn of the loop of a thread, and shows the
  invariant, for the file agent again up to the first \<open>fclose\<close> that fails in a request to close (\<open>daemon_clean\<close>); \<open>Teecd_Image\<close> traces the bytes that are sent to the driver back to the file, under the contract
  \<open>source_ok\<close> of the calls that read; \<open>Teecd_Props\<close> has the theorems: no order of turns is undefined or leaks,
  a descriptor is handed out only after the login of the peer, the server never ends, certificates
  can be read back, the agents come up all or not at all, requests to load files and the hash lists are answered
  exactly, and what the checks of paths let through.  The loops of the threads and of the server are partial functions; their turns
  are total.  \<open>Teecd_Sim\<close> is the system of the witnesses, with a run in which a client is served.

  \<^bold>\<open>Contracts.\<close>  \<open>securec_ok\<close>, \<open>fs_env_ok\<close>, \<open>daemon_os_ok\<close>, \<open>stdio_ok\<close>, \<open>source_ok\<close> and their like are hypotheses on code outside of the
  repository.  The locale \<open>invariant\<close> (initial states, steps, a predicate that both respect) is interpreted for the calls of a client
  (\<open>Api_Steps\<close>), the events of the file agent (\<open>Fs_Agent\<close>), the rounds of the log reader (\<open>Tlog_Reader\<close>) and the
  threads of the daemon (\<open>Teecd_Main\<close>, twice: for all its turns and for its part in the file agent); what holds of all reached states rests on these interpretations.

  \<^bold>\<open>The log reader.\<close>  \<open>Tlog_Types\<close> has the data, \<open>Tlog_Zip\<close> the archive writer
  (\<open>tarzip.c\<close>), \<open>Tlog_Files\<close> the log files with rotation and compression and \<open>Tlog_Item\<close> the items and loops
  (\<open>tlogcat.c\<close>), \<open>Tlog_Tag\<close> the system log and the tags (\<open>sys_hilog_cfg.c\<close>, \<open>proc_tag.c\<close>).
  \<open>Tlog_Table\<close> shows that the table of log files owns exactly the open streams through every operation,
  \<open>Tlog_Reader\<close> lifts this to the rounds of the reader, and \<open>Tlog_Props\<close> shows that reading gives back exactly the
  items of the log and never leaves the buffer, and where the reader goes wrong.  Headers of archives are valid
  tar headers (\<open>Tlog_Zip\<close>).  \<open>Tlog_Main\<close> has the start and the end of the program: it either enters the
  reader in the state from which the rounds are proved correct, or releases everything.  The loops over a device that always has more to read are partial functions.

  \<^bold>\<open>Not modelled.\<close>  The C++ front end, the TUI and the system ability with its IPC
  (\<open>libteec_client\<close>, \<open>cadaemon\<close>) and the authentication through system services
  (\<open>tee_auth_system.cpp\<close>), which are glue between frameworks that are not in the repository; concurrency inside of a
  call (each call of the client library and each turn of a thread of the daemon runs alone; the mutexes of the
  library are checked for balance and for double locking); the wording of log messages.
  What else is left out is listed with its reason in the manifest.
\<close>

end
